(* ===== verification/Prelude.thy ===== *)
theory Prelude
  imports Main "HOL-Library.List_Lexorder" "HOL-Library.Char_ord" "HOL-Library.AList" "HOL-Library.Word"
begin

text \<open>
  What the Go packages of the repository share: error values and \<open>errors.Is\<close>, durations,
  decimal formatting, the byte-level view of \<open>strings.ToLower\<close>, loops that stop at the first
  error and loops that poll until a deadline, association lists for Go maps.  Go strings are
  byte strings, so they are HOL strings; times and durations are nanosecond counts.
\<close>

named_theorems go_simps \<open>unfolding rules of the small definitions every component uses\<close>

section \<open>Errors\<close>

text \<open>
  An error is a package-level sentinel (\<open>errors.New\<close> bound to a variable, identified by its
  text), an opaque error handed in by code outside the package, or the result of
  \<open>fmt.Errorf\<close>: the format string and its arguments, where \<open>AWrap\<close> is the operand of \<open>%w\<close>.
  The rendered text is never inspected by the code, so formats are kept symbolic.
\<close>

datatype go_error =
    Sentinel string
  | External string
  | Errorf string "fmt_arg list"
and fmt_arg =
    AStr string
  | AInt int
  | ADur int
  | ABool bool
  | AErr go_error
  | AWrap go_error

datatype message = Text string | Sprintf string "fmt_arg list"

fun errors_Is :: "go_error \<Rightarrow> go_error \<Rightarrow> bool"
  and wrapped_Is :: "fmt_arg \<Rightarrow> go_error \<Rightarrow> bool" where
  "errors_Is (Sentinel s) t = (Sentinel s = t)"
| "errors_Is (External s) t = (External s = t)"
| "errors_Is (Errorf f as) t = (Errorf f as = t \<or> (\<exists>a \<in> set as. wrapped_Is a t))"
| "wrapped_Is (AWrap e) t = errors_Is e t"
| "wrapped_Is (AStr _) t = False"
| "wrapped_Is (AInt _) t = False"
| "wrapped_Is (ADur _) t = False"
| "wrapped_Is (ABool _) t = False"
| "wrapped_Is (AErr _) t = False"

lemma errors_Is_refl [simp]: "errors_Is e e"
  by (cases e) simp_all

text \<open>\<open>fmt.Errorf("%w: ...", sentinel, ...)\<close> is recognised as its sentinel, and only as that one.\<close>

lemma errors_Is_wrap [simp]: "errors_Is (Errorf f (AWrap e # as)) e"
  by simp

definition plain_arg :: "fmt_arg \<Rightarrow> bool" where
  "plain_arg a = (case a of AWrap _ \<Rightarrow> False | _ \<Rightarrow> True)"

lemma plain_arg_not_wrapped: "plain_arg a \<Longrightarrow> \<not> wrapped_Is a t"
  by (cases a) (simp_all add: plain_arg_def)

lemma errors_Is_wrap_sentinel:
  assumes "list_all plain_arg as"
  shows "errors_Is (Errorf f (AWrap (Sentinel s) # as)) (Sentinel t) = (s = t)"
  using assms by (auto simp: list_all_iff dest: plain_arg_not_wrapped)

section \<open>Time and numbers\<close>

type_synonym duration = int
type_synonym time = int
type_synonym int32 = "32 word"

definition millisecond :: duration where [go_simps]: "millisecond = 1000000"
definition second :: duration where [go_simps]: "second = 1000000000"
definition minute :: duration where [go_simps]: "minute = 60000000000"

text \<open>The zero \<open>time.Time\<close>, the first of January of the year 1, on the scale of \<open>UnixNano\<close>.\<close>

definition zero_time :: time where "zero_time = - 62135596800 * second"

fun decimal :: "nat \<Rightarrow> string" where
  "decimal n = (if n < 10 then [''0123456789'' ! n] else decimal (n div 10) @ [''0123456789'' ! (n mod 10)])"

declare decimal.simps [simp del]

definition itoa :: "int \<Rightarrow> string" where
  "itoa i = (if i < 0 then CHR ''-'' # decimal (nat (- i)) else decimal (nat i))"

section \<open>Strings\<close>

text \<open>
  \<open>strings.ToLower\<close> as far as ASCII characters of its result go, byte by byte.  An ASCII capital
  is lowered; the two code points outside ASCII whose lower case is an ASCII letter, U+0130
  (bytes C4 B0) and U+212A (bytes E2 84 AA), become that letter; every other byte of 80 or more
  belongs to a rune whose lower case has no ASCII byte and is kept as it is.  None of the lead
  bytes C4 and E2 occurs inside another rune, so the scan agrees with UTF-8 decoding.
\<close>

fun to_lower :: "string \<Rightarrow> string" where
  "to_lower [] = []"
| "to_lower (c # cs) =
     (if c = CHR 0xC4 \<and> take 1 cs = [CHR 0xB0] then CHR ''i'' # to_lower (drop 1 cs)
      else if c = CHR 0xE2 \<and> take 2 cs = [CHR 0x84, CHR 0xAA] then CHR ''k'' # to_lower (drop 2 cs)
      else (if CHR ''A'' \<le> c \<and> c \<le> CHR ''Z'' then char_of (of_char c + 32 :: nat) else c) # to_lower cs)"

definition is_lower_ascii :: "char \<Rightarrow> bool" where
  "is_lower_ascii c = (CHR ''a'' \<le> c \<and> c \<le> CHR ''z'')"

definition is_digit :: "char \<Rightarrow> bool" where
  "is_digit c = (CHR ''0'' \<le> c \<and> c \<le> CHR ''9'')"

text \<open>\<open>strings.Trim(s, "-")\<close>.\<close>

definition trim_char :: "char \<Rightarrow> string \<Rightarrow> string" where
  "trim_char c s = rev (dropWhile (\<lambda>x. x = c) (rev (dropWhile (\<lambda>x. x = c) s)))"

lemma set_trim_char: "set (trim_char c s) \<subseteq> set s"
  by (auto simp: trim_char_def dest!: set_dropWhileD)

lemma hd_dropWhile_neq: "dropWhile (\<lambda>x. x = c) s \<noteq> [] \<Longrightarrow> hd (dropWhile (\<lambda>x. x = c) s) \<noteq> c"
  by (induction s) auto

lemma last_trim_char: "trim_char c s \<noteq> [] \<Longrightarrow> last (trim_char c s) \<noteq> c"
  by (simp add: trim_char_def last_rev hd_dropWhile_neq)

lemma hd_trim_char:
  assumes "trim_char c s \<noteq> []"
  shows "hd (trim_char c s) \<noteq> c"
proof -
  define t where "t = dropWhile (\<lambda>x. x = c) s"
  have ne: "dropWhile (\<lambda>x. x = c) (rev t) \<noteq> []"
    using assms by (simp add: trim_char_def t_def)
  then have "t \<noteq> []" by auto
  then have hd: "hd t \<noteq> c"
    unfolding t_def by (rule hd_dropWhile_neq)
  have split: "rev t = takeWhile (\<lambda>x. x = c) (rev t) @ dropWhile (\<lambda>x. x = c) (rev t)"
    by simp
  have "last (rev t) = last (dropWhile (\<lambda>x. x = c) (rev t))"
    by (subst split) (simp only: last_appendR [OF ne])
  with hd show ?thesis
    using ne by (simp add: trim_char_def t_def [symmetric] hd_rev last_rev)
qed

lemma trim_char_id: "s = '''' \<or> (hd s \<noteq> c \<and> last s \<noteq> c) \<Longrightarrow> trim_char c s = s"
proof (cases "s = []")
  case False
  moreover assume "s = '''' \<or> (hd s \<noteq> c \<and> last s \<noteq> c)"
  ultimately have "dropWhile (\<lambda>x. x = c) s = s" "dropWhile (\<lambda>x. x = c) (rev s) = rev s"
    by (simp_all add: dropWhile_eq_self_iff hd_rev)
  then show ?thesis by (simp add: trim_char_def)
qed (simp add: trim_char_def)

definition name_char :: "char \<Rightarrow> bool" where
  "name_char c = (is_lower_ascii c \<or> is_digit c \<or> c = CHR ''-'')"

text \<open>A DNS-1123 label: lower-case alphanumerics and dashes, no dash at either end, 1 to 63 bytes.\<close>

definition rfc1123_label :: "string \<Rightarrow> bool" where
  "rfc1123_label s = (s \<noteq> '''' \<and> length s \<le> 63 \<and> list_all name_char s \<and>
     hd s \<noteq> CHR ''-'' \<and> last s \<noteq> CHR ''-'')"

text \<open>Lowering leaves a string of name characters alone.\<close>

lemma name_char_not_upper: "name_char c \<Longrightarrow> \<not> (CHR ''A'' \<le> c \<and> c \<le> CHR ''Z'')"
  by (auto simp: name_char_def is_lower_ascii_def is_digit_def less_eq_char_def)

lemma to_lower_name: "list_all name_char s \<Longrightarrow> to_lower s = s"
proof (induction s)
  case (Cons c s)
  then have "c \<noteq> CHR 0xC4" and "c \<noteq> CHR 0xE2"
    by (auto simp: name_char_def is_lower_ascii_def is_digit_def less_eq_char_def)
  with Cons name_char_not_upper [of c] show ?case by auto
qed simp

section \<open>Go maps as association lists\<close>

text \<open>
  A Go map is an association list with distinct keys; the list order is the order one iteration
  visits the entries in.  \<open>AList.update\<close>, \<open>AList.delete\<close> and \<open>map_of\<close> are assignment,
  \<open>delete\<close> and lookup.  Reading a string map at an absent key gives the empty string.
\<close>

type_synonym 'v gomap = "(string \<times> 'v) list"

definition str_at :: "string gomap \<Rightarrow> string \<Rightarrow> string" where
  "str_at m k = (case map_of m k of None \<Rightarrow> '''' | Some v \<Rightarrow> v)"

lemma map_of_update [simp]: "map_of (AList.update k v m) = (map_of m)(k \<mapsto> v)"
  by (rule update_conv')

lemma map_of_delete [simp]: "map_of (AList.delete k m) = (map_of m)(k := None)"
  by (rule delete_conv')

lemma map_of_fold_update:
  "map_of (fold (\<lambda>k. AList.update k (f k)) ks m) = (\<lambda>k. if k \<in> set ks then Some (f k) else map_of m k)"
  by (induction ks arbitrary: m) (auto simp: fun_eq_iff)

section \<open>Loops\<close>

text \<open>
  \<open>for _, x := range xs { if err := f(x); err != nil { return ... } }\<close>: the failing element and
  its error, or \<open>None\<close> when the loop ran to its end.
\<close>

fun each_until_err :: "('a \<Rightarrow> 'w \<Rightarrow> 'e option \<times> 'w) \<Rightarrow> 'a list \<Rightarrow> 'w \<Rightarrow> ('a \<times> 'e) option \<times> 'w" where
  "each_until_err f [] w = (None, w)"
| "each_until_err f (x # xs) w =
     (case f x w of
        (Some e, w') \<Rightarrow> (Some (x, e), w')
      | (None, w') \<Rightarrow> each_until_err f xs w')"

lemma each_until_err_append:
  "each_until_err f (xs @ ys) w =
     (case each_until_err f xs w of
        (Some r, w') \<Rightarrow> (Some r, w')
      | (None, w') \<Rightarrow> each_until_err f ys w')"
  by (induction xs arbitrary: w) (auto split: prod.splits option.splits)

lemma each_until_err_inv:
  assumes "\<And>x w. x \<in> set xs \<Longrightarrow> P w \<Longrightarrow> P (snd (f x w))" and "P w"
  shows "P (snd (each_until_err f xs w))"
  using assms
proof (induction xs arbitrary: w)
  case (Cons x xs)
  have "P (snd (f x w))" using Cons.prems by simp
  moreover have "P (snd (each_until_err f xs w'))" if "P w'" for w'
    using Cons.IH Cons.prems(1) that by simp
  ultimately show ?case by (cases "f x w") (auto split: option.splits)
qed simp

lemma each_until_err_member:
  "each_until_err f xs w = (Some (x, e), w') \<Longrightarrow> x \<in> set xs"
  by (induction xs arbitrary: w) (auto split: prod.splits option.splits)

text \<open>
  \<open>for time.Now().Before(deadline) { body; time.Sleep(d) }\<close>.  \<open>Some (Some r, w)\<close>: the body
  returned \<open>r\<close>; \<open>Some (None, w)\<close>: the guard failed; \<open>None\<close>: the loop never ends.
\<close>

partial_function (option) poll_until ::
    "('w \<Rightarrow> bool) \<Rightarrow> ('w \<Rightarrow> 'r option \<times> 'w) \<Rightarrow> ('w \<Rightarrow> 'w) \<Rightarrow> 'w \<Rightarrow> ('r option \<times> 'w) option" where
  "poll_until going body pause w =
     (if going w
      then (case body w of
              (Some r, w') \<Rightarrow> Some (Some r, w')
            | (None, w') \<Rightarrow> poll_until going body pause (pause w'))
      else Some (None, w))"

lemma poll_until_stop: "\<not> going w \<Longrightarrow> poll_until going body pause w = Some (None, w)"
  by (simp add: poll_until.simps)

lemma poll_until_hit:
  "going w \<Longrightarrow> body w = (Some r, w') \<Longrightarrow> poll_until going body pause w = Some (Some r, w')"
  by (simp add: poll_until.simps)

lemma poll_until_next:
  "going w \<Longrightarrow> body w = (None, w') \<Longrightarrow>
     poll_until going body pause w = poll_until going body pause (pause w')"
  by (simp add: poll_until.simps)

text \<open>The loop ends when every round that goes on brings a natural-number measure down.\<close>

lemma poll_until_terminates:
  assumes inv: "P w"
    and step: "\<And>w w'. P w \<Longrightarrow> going w \<Longrightarrow> body w = (None, w') \<Longrightarrow> P (pause w') \<and> m (pause w') < (m w :: nat)"
  shows "\<exists>r. poll_until going body pause w = Some r"
  using inv
proof (induction "m w" arbitrary: w rule: less_induct)
  case less
  show ?case
  proof (cases "going w")
    case False
    then show ?thesis by (simp add: poll_until_stop)
  next
    case True
    obtain r w' where b: "body w = (r, w')" by fastforce
    show ?thesis
    proof (cases r)
      case None
      with b have b': "body w = (None, w')" by simp
      have "P (pause w')" and "m (pause w') < m w"
        using step [OF less.prems True b'] by auto
      from less.hyps [OF this(2,1)] show ?thesis
        using True b' by (simp add: poll_until_next)
    next
      case (Some x)
      with b True show ?thesis by (simp add: poll_until_hit)
    qed
  qed
qed

text \<open>What holds of the result: an invariant, the body's postcondition or the failed guard.\<close>

lemma poll_until_post:
  assumes ret: "poll_until going body pause w = Some rv" and "P w"
    and step: "\<And>w w'. P w \<Longrightarrow> going w \<Longrightarrow> body w = (None, w') \<Longrightarrow> P (pause w')"
    and hit: "\<And>w x w'. P w \<Longrightarrow> going w \<Longrightarrow> body w = (Some x, w') \<Longrightarrow> Q x w'"
  shows "case rv of (None, v) \<Rightarrow> P v \<and> \<not> going v | (Some x, v) \<Rightarrow> Q x v"
proof -
  let ?G = "\<lambda>rv. case rv of (None, v) \<Rightarrow> P v \<and> \<not> going v | (Some x, v) \<Rightarrow> Q x v"
  have "going = going \<longrightarrow> body = body \<longrightarrow> pause = pause \<longrightarrow> P w \<longrightarrow> ?G rv"
  proof (rule poll_until.raw_induct
      [where P = "\<lambda>g b p w rv. g = going \<longrightarrow> b = body \<longrightarrow> p = pause \<longrightarrow> P w \<longrightarrow> ?G rv", OF _ ret],
      intro impI, goal_cases)
    case (1 f g b p w rv)
    have IH: "?G rv" if "f going body pause w = Some rv" and "P w" for w rv
      using 1(1) [OF that(1)] that(2) by blast
    show ?case
      using 1(2-) step [of w] hit [of w] IH
      by (cases "body w") (force split: if_splits option.splits)
  qed
  with assms(2) show ?thesis by simp
qed

end
