(* ===== verification/DpfClient.thy ===== *)
theory DpfClient
  imports Prelude
begin

text \<open>
  \<open>aditya-sarna/feature_skeleton.go\<close>, section 2: the DPF object model, the client interface
  \<open>DPFClient\<close> and its in-memory implementation \<open>InMemoryDPFClient\<close>.  The contract of the
  interface is the locale \<open>dpf_store\<close>; the in-memory client is an interpretation of it.
\<close>

section \<open>Objects\<close>

record GroupVersionKind =
  Group :: string
  Version :: string
  Kind :: string

definition provisioning_gvk :: "string \<Rightarrow> GroupVersionKind" where [go_simps]:
  "provisioning_gvk k = \<lparr>Group = ''provisioning.dpu.nvidia.com'', Version = ''v1alpha1'', Kind = k\<rparr>"

definition svc_gvk :: "string \<Rightarrow> GroupVersionKind" where [go_simps]:
  "svc_gvk k = \<lparr>Group = ''svc.dpu.nvidia.com'', Version = ''v1alpha1'', Kind = k\<rparr>"

definition GVKDPUFlavor :: GroupVersionKind where [go_simps]: "GVKDPUFlavor = provisioning_gvk ''DPUFlavor''"
definition GVKDPU :: GroupVersionKind where [go_simps]: "GVKDPU = provisioning_gvk ''DPU''"
definition GVKDPUService :: GroupVersionKind where [go_simps]: "GVKDPUService = svc_gvk ''DPUService''"
definition GVKDPUServiceChain :: GroupVersionKind where [go_simps]:
  "GVKDPUServiceChain = svc_gvk ''DPUServiceChain''"
definition GVKDPUServiceInterface :: GroupVersionKind where [go_simps]:
  "GVKDPUServiceInterface = svc_gvk ''DPUServiceInterface''"
definition GVKDPUServiceIPAM :: GroupVersionKind where [go_simps]:
  "GVKDPUServiceIPAM = svc_gvk ''DPUServiceIPAM''"

record Condition =
  Type :: string
  Status :: bool
  Reason :: string
  Message :: message

text \<open>The dynamic values a \<open>map[string]any\<close> of the program holds.\<close>

datatype any =
    VStr string
  | VBool bool
  | VInt32 int32
  | VStrs "string list"
  | VStrMap "string gomap"
  | VMap "(string \<times> any) list"
  | VList "any list"

text \<open>\<open>Conditions\<close> is a slice: \<open>None\<close> is nil, which \<open>Apply\<close> tells from the empty slice.\<close>

record DPFObject =
  GVK :: GroupVersionKind
  Namespace :: string
  Name :: string
  Labels :: "string gomap"
  Spec :: "any gomap"
  Conditions :: "Condition list option"

definition object_key :: "GroupVersionKind \<Rightarrow> string \<Rightarrow> string \<Rightarrow> string" where
  "object_key g ns n = Group g @ ''/'' @ Kind g @ ''/'' @ ns @ ''/'' @ n"

definition Key :: "DPFObject \<Rightarrow> string" where
  "Key o' = Group (GVK o') @ ''/'' @ Kind (GVK o') @ ''/'' @ Namespace o' @ ''/'' @ Name o'"

definition conditions_of :: "DPFObject \<Rightarrow> Condition list" where
  "conditions_of o' = (case Conditions o' of None \<Rightarrow> [] | Some cs \<Rightarrow> cs)"

definition IsReady :: "DPFObject \<Rightarrow> bool" where
  "IsReady o' = list_ex (\<lambda>c. Type c = ''Ready'' \<and> Status c) (conditions_of o')"

definition ManagedNamespace :: string where "ManagedNamespace = ''opi-nvidia-system''"

lemma Key_object_key: "Key o' = object_key (GVK o') (Namespace o') (Name o')"
  by (simp add: Key_def object_key_def)

lemma Key_inj_name:
  "GVK x = GVK y \<Longrightarrow> Namespace x = Namespace y \<Longrightarrow> Key x = Key y \<Longrightarrow> Name x = Name y"
  by (simp add: Key_def)

section \<open>The client interface\<close>

record 'w DPFClient =
  cGet :: "GroupVersionKind \<Rightarrow> string \<Rightarrow> string \<Rightarrow> 'w \<Rightarrow> (go_error + DPFObject) \<times> 'w"
  cList :: "GroupVersionKind \<Rightarrow> string \<Rightarrow> string gomap \<Rightarrow> 'w \<Rightarrow> (go_error + DPFObject list) \<times> 'w"
  cApply :: "DPFObject \<Rightarrow> 'w \<Rightarrow> go_error option \<times> 'w"
  cDelete :: "GroupVersionKind \<Rightarrow> string \<Rightarrow> string \<Rightarrow> 'w \<Rightarrow> go_error option \<times> 'w"

definition ErrNotFound :: go_error where "ErrNotFound = Sentinel ''not found''"

definition selects :: "GroupVersionKind \<Rightarrow> string \<Rightarrow> string gomap \<Rightarrow> DPFObject \<Rightarrow> bool" where
  "selects g ns sel x = (GVK x = g \<and> (ns = '''' \<or> Namespace x = ns) \<and>
     list_all (\<lambda>(k, v). str_at (Labels x) k = v) sel)"

text \<open>An apply without conditions keeps those of the stored object (the status subresource).\<close>

definition with_status :: "DPFObject option \<Rightarrow> DPFObject \<Rightarrow> DPFObject" where
  "with_status old x =
     (case old of
        Some e \<Rightarrow> (if Conditions x = None then x\<lparr>Conditions := Conditions e\<rparr> else x)
      | None \<Rightarrow> x)"

lemma with_status_frame [simp]:
  "GVK (with_status old x) = GVK x" "Namespace (with_status old x) = Namespace x"
  "Name (with_status old x) = Name x" "Labels (with_status old x) = Labels x"
  "Spec (with_status old x) = Spec x" "Key (with_status old x) = Key x"
  by (simp_all add: with_status_def Key_def split: option.splits)

lemma selects_with_status [simp]: "selects g ns sel (with_status old x) = selects g ns sel x"
  by (simp add: selects_def)

text \<open>What a sequence of applies does to the store, and what a sequence of deletes does.\<close>

type_synonym view = "string \<Rightarrow> DPFObject option"

definition apply_view :: "DPFObject \<Rightarrow> view \<Rightarrow> view" where
  "apply_view x v = v(Key x \<mapsto> with_status (v (Key x)) x)"

definition apply_all :: "DPFObject list \<Rightarrow> view \<Rightarrow> view" where
  "apply_all xs v = fold apply_view xs v"

definition delete_all :: "DPFObject list \<Rightarrow> view \<Rightarrow> view" where
  "delete_all xs v = (\<lambda>k. if k \<in> Key ` set xs then None else v k)"

lemma apply_all_simps [simp]:
  "apply_all [] v = v" "apply_all (x # xs) v = apply_all xs (apply_view x v)"
  by (simp_all add: apply_all_def)

lemma apply_all_append: "apply_all (xs @ ys) v = apply_all ys (apply_all xs v)"
  by (simp add: apply_all_def)

lemma apply_all_other: "k \<notin> Key ` set xs \<Longrightarrow> apply_all xs v k = v k"
  by (induction xs arbitrary: v) (auto simp: apply_view_def)

text \<open>
  At each key the last object of the sequence is stored, with the last conditions given for that
  key, or the stored ones when none are given.
\<close>

definition status_after :: "DPFObject list \<Rightarrow> Condition list option \<Rightarrow> Condition list option" where
  "status_after xs c = fold (\<lambda>x c. if Conditions x = None then c else Conditions x) xs c"

definition status_of :: "DPFObject option \<Rightarrow> Condition list option" where
  "status_of e = Option.bind e Conditions"

lemma with_status_eq: "with_status e x = x\<lparr>Conditions := status_after [x] (status_of e)\<rparr>"
  by (cases "Conditions x") (auto simp: with_status_def status_after_def status_of_def split: option.split)

lemma apply_all_at:
  "apply_all xs v k =
     (let ys = filter (\<lambda>x. Key x = k) xs
      in if ys = [] then v k
         else Some ((last ys)\<lparr>Conditions := status_after ys (status_of (v k))\<rparr>))"
proof (induction xs rule: rev_induct)
  case (snoc x xs)
  have status: "status_of (apply_all xs v k) = status_after (filter (\<lambda>x. Key x = k) xs) (status_of (v k))"
    using snoc.IH by (simp add: Let_def status_of_def status_after_def split: if_splits)
  show ?case
  proof (cases "Key x = k")
    case True
    then have "apply_all (xs @ [x]) v k = Some (with_status (apply_all xs v k) x)"
      by (simp add: apply_all_append apply_view_def)
    with True status show ?thesis
      by (simp add: with_status_eq status_after_def Let_def)
  next
    case False
    then show ?thesis
      using snoc.IH by (simp add: apply_all_append apply_view_def)
  qed
qed simp

lemma status_after_idem: "status_after xs (status_after xs c) = status_after xs c"
proof (cases "\<forall>x \<in> set xs. Conditions x = None")
  case True
  then have "status_after xs d = d" for d
    unfolding status_after_def by (induction xs arbitrary: d) simp_all
  then show ?thesis by simp
next
  case False
  then have "status_after xs d = status_after xs c" for d
    unfolding status_after_def by (induction xs arbitrary: c d rule: rev_induct) auto
  then show ?thesis by blast
qed

lemma apply_all_idem: "apply_all xs (apply_all xs v) = apply_all xs v"
proof
  fix k
  let ?ys = "filter (\<lambda>x. Key x = k) xs"
  show "apply_all xs (apply_all xs v) k = apply_all xs v k"
  proof (cases "?ys = []")
    case True
    then show ?thesis by (simp add: apply_all_at Let_def)
  next
    case False
    then have "status_of (apply_all xs v k) = status_after ?ys (status_of (v k))"
      by (simp add: apply_all_at Let_def status_of_def)
    with False show ?thesis
      unfolding apply_all_at [of xs "apply_all xs v"]
      by (simp add: Let_def status_after_idem) (simp add: apply_all_at Let_def)
  qed
qed

section \<open>The contract of the interface\<close>

text \<open>
  \<open>view\<close> is what the store holds, \<open>ok\<close> the provider's own invariant.  A failing call says
  nothing about its effect beyond keeping the invariant.
\<close>

locale dpf_store =
  fixes C :: "'w DPFClient" and view :: "'w \<Rightarrow> view" and ok :: "'w \<Rightarrow> bool"
  assumes key_wf: "ok w \<Longrightarrow> view w k = Some x \<Longrightarrow> Key x = k"
    and get_frame: "ok w \<Longrightarrow> cGet C g ns n w = (r, w') \<Longrightarrow> ok w' \<and> view w' = view w"
    and get_found: "ok w \<Longrightarrow> cGet C g ns n w = (Inr x, w') \<Longrightarrow> view w (object_key g ns n) = Some x"
    and list_frame: "ok w \<Longrightarrow> cList C g ns sel w = (r', w') \<Longrightarrow> ok w' \<and> view w' = view w"
    and list_set: "ok w \<Longrightarrow> cList C g ns sel w = (Inr xs, w') \<Longrightarrow>
       set xs = {x \<in> ran (view w). selects g ns sel x}"
    and apply_ok: "ok w \<Longrightarrow> cApply C x w = (e, w') \<Longrightarrow> ok w'"
    and apply_effect: "ok w \<Longrightarrow> cApply C x w = (None, w') \<Longrightarrow> view w' = apply_view x (view w)"
    and delete_ok: "ok w \<Longrightarrow> cDelete C g ns n w = (e, w') \<Longrightarrow> ok w'"
    and delete_effect: "ok w \<Longrightarrow> cDelete C g ns n w = (None, w') \<Longrightarrow>
       view w' = (view w)(object_key g ns n := None)"
begin

lemma store_apply_loop:
  "ok w \<Longrightarrow> each_until_err (cApply C) xs w = (None, w') \<Longrightarrow> ok w' \<and> view w' = apply_all xs (view w)"
proof (induction xs arbitrary: w)
  case (Cons x xs)
  from Cons.prems(2) obtain w1 where a: "cApply C x w = (None, w1)" and "each_until_err (cApply C) xs w1 = (None, w')"
    by (auto split: prod.splits option.splits)
  with Cons.IH [of w1] apply_ok [OF Cons.prems(1) a] apply_effect [OF Cons.prems(1) a]
  show ?case by simp
qed simp

text \<open>Applying the same sequence a second time changes nothing.\<close>

lemma store_apply_twice:
  assumes "ok w" and "each_until_err (cApply C) xs w = (None, w1)"
    and "each_until_err (cApply C) xs w1 = (None, w2)"
  shows "view w2 = view w1"
  using store_apply_loop [OF assms(1,2)] store_apply_loop [OF _ assms(3)]
  by (simp add: apply_all_idem)

lemma store_delete_loop:
  assumes "ok w" and "each_until_err (\<lambda>x. cDelete C (GVK x) (Namespace x) (Name x)) xs w = (None, w')"
  shows "ok w' \<and> view w' = delete_all xs (view w)"
  using assms
proof (induction xs arbitrary: w)
  case (Cons x xs)
  from Cons.prems(2) obtain w1 where d: "cDelete C (GVK x) (Namespace x) (Name x) w = (None, w1)"
    and "each_until_err (\<lambda>x. cDelete C (GVK x) (Namespace x) (Name x)) xs w1 = (None, w')"
    by (auto split: prod.splits option.splits)
  with Cons.IH [of w1] delete_ok [OF Cons.prems(1) d] delete_effect [OF Cons.prems(1) d]
  show ?case by (auto simp: delete_all_def Key_object_key fun_eq_iff)
qed (simp add: delete_all_def)

lemma store_list_listed:
  "ok w \<Longrightarrow> cList C g ns sel w = (Inr xs, w') \<Longrightarrow> x \<in> set xs \<longleftrightarrow> (view w (Key x) = Some x \<and> selects g ns sel x)"
  using list_set [of w g ns sel xs w'] key_wf by (auto simp: ran_def)

text \<open>After deleting everything a query listed, the query finds nothing.\<close>

lemma store_list_then_delete:
  assumes "ok w" and l: "cList C g ns sel w = (Inr xs, w1)"
    and d: "each_until_err (\<lambda>x. cDelete C (GVK x) (Namespace x) (Name x)) xs w1 = (None, w2)"
  shows "ok w2 \<and> (\<forall>k. view w2 k = (case view w k of None \<Rightarrow> None
     | Some x \<Rightarrow> if selects g ns sel x then None else Some x))"
proof -
  have "ok w1" and "view w1 = view w" using list_frame [OF assms(1) l] by auto
  with store_delete_loop [OF _ d] have "ok w2" and v2: "view w2 = delete_all xs (view w)"
    by auto
  moreover have "k \<in> Key ` set xs \<longleftrightarrow> selects g ns sel x" if "view w k = Some x" for k x
    using that key_wf [OF assms(1) that] store_list_listed [OF assms(1) l] by force
  moreover have "delete_all xs (view w) k = None" if "view w k = None" for k
    using that by (simp add: delete_all_def)
  ultimately show ?thesis
    by (auto simp: delete_all_def split: option.split)
qed

end

text \<open>A store whose calls cannot fail, other than \<open>Get\<close> on an absent key.\<close>

locale reliable_dpf_store = dpf_store +
  assumes get_total: "ok w \<Longrightarrow> view w (object_key g ns n) = Some x \<Longrightarrow> \<exists>w'. cGet C g ns n w = (Inr x, w')"
    and get_absent: "ok w \<Longrightarrow> view w (object_key g ns n) = None \<Longrightarrow>
       \<exists>e w'. cGet C g ns n w = (Inl e, w') \<and> errors_Is e ErrNotFound"
    and list_total: "ok w \<Longrightarrow> \<exists>xs w'. cList C g ns sel w = (Inr xs, w')"
    and apply_total: "ok w \<Longrightarrow> fst (cApply C x w) = None"
    and delete_total: "ok w \<Longrightarrow> fst (cDelete C g ns n w) = None"
begin

lemma apply_loop_total: "ok w \<Longrightarrow> fst (each_until_err (cApply C) xs w) = None"
proof (induction xs arbitrary: w)
  case (Cons x xs)
  obtain w' where "cApply C x w = (None, w')"
    using apply_total [OF Cons.prems, of x] by (cases "cApply C x w") auto
  with Cons show ?case by (auto dest: apply_ok)
qed simp

lemma delete_loop_total:
  "ok w \<Longrightarrow> fst (each_until_err (\<lambda>x. cDelete C (GVK x) (Namespace x) (Name x)) xs w) = None"
proof (induction xs arbitrary: w)
  case (Cons x xs)
  obtain w' where "cDelete C (GVK x) (Namespace x) (Name x) w = (None, w')"
    using delete_total [OF Cons.prems] by (metis prod.collapse)
  with Cons show ?case by (auto dest: delete_ok)
qed simp

end

section \<open>The in-memory client\<close>

text \<open>
  \<open>objects\<close> is the Go map of the client.  The record can be extended by the fields of a larger
  world (a clock, a host), which the operations leave alone.  The mutex is not modelled: every
  method holds it from its first to its last statement, so each is one atomic step.
\<close>

record mem =
  objects :: "DPFObject gomap"

definition NewInMemoryDPFClient :: mem where
  "NewInMemoryDPFClient = \<lparr>objects = []\<rparr>"

definition mem_Get ::
    "GroupVersionKind \<Rightarrow> string \<Rightarrow> string \<Rightarrow> 'z mem_scheme \<Rightarrow> (go_error + DPFObject) \<times> 'z mem_scheme" where
  "mem_Get g ns n w =
     (case map_of (objects w) (Group g @ ''/'' @ Kind g @ ''/'' @ ns @ ''/'' @ n) of
        None \<Rightarrow> (Inl (Errorf ''%w: %s/%s %s'' [AWrap ErrNotFound, AStr ns, AStr n, AStr (Kind g)]), w)
      | Some x \<Rightarrow> (Inr x, w))"

text \<open>\<open>sort.Slice\<close> is not stable; \<open>mem_List_order\<close> shows when that cannot be observed.\<close>

definition mem_List ::
    "GroupVersionKind \<Rightarrow> string \<Rightarrow> string gomap \<Rightarrow> 'z mem_scheme \<Rightarrow> (go_error + DPFObject list) \<times> 'z mem_scheme" where
  "mem_List g ns sel w =
     (Inr (sort_key Name (filter (\<lambda>x. \<not> (GVK x \<noteq> g \<or> (ns \<noteq> '''' \<and> Namespace x \<noteq> ns)) \<and>
        list_all (\<lambda>(k, v). str_at (Labels x) k = v) sel) (map snd (objects w)))), w)"

definition mem_Apply :: "DPFObject \<Rightarrow> 'z mem_scheme \<Rightarrow> go_error option \<times> 'z mem_scheme" where
  "mem_Apply x w =
     (let x' = (case map_of (objects w) (Key x) of
                  Some existing \<Rightarrow> (if Conditions x = None then x\<lparr>Conditions := Conditions existing\<rparr> else x)
                | None \<Rightarrow> x)
      in (None, w\<lparr>objects := AList.update (Key x') x' (objects w)\<rparr>))"

definition mem_Delete ::
    "GroupVersionKind \<Rightarrow> string \<Rightarrow> string \<Rightarrow> 'z mem_scheme \<Rightarrow> go_error option \<times> 'z mem_scheme" where
  "mem_Delete g ns n w =
     (None, w\<lparr>objects := AList.delete (Group g @ ''/'' @ Kind g @ ''/'' @ ns @ ''/'' @ n) (objects w)\<rparr>)"

definition SetConditions :: "string \<Rightarrow> Condition list \<Rightarrow> 'z mem_scheme \<Rightarrow> 'z mem_scheme" where
  "SetConditions k conds w =
     (case map_of (objects w) k of
        Some x \<Rightarrow> w\<lparr>objects := AList.update k (x\<lparr>Conditions := Some conds\<rparr>) (objects w)\<rparr>
      | None \<Rightarrow> w)"

definition mem_client :: "'z mem_scheme DPFClient" where
  "mem_client = \<lparr>cGet = mem_Get, cList = mem_List, cApply = mem_Apply, cDelete = mem_Delete\<rparr>"

definition mem_view :: "'z mem_scheme \<Rightarrow> view" where
  "mem_view w = map_of (objects w)"

text \<open>The map's keys are distinct, and each object sits under its own key.\<close>

definition mem_ok :: "'z mem_scheme \<Rightarrow> bool" where
  "mem_ok w = (distinct (map fst (objects w)) \<and> list_all (\<lambda>(k, x). Key x = k) (objects w))"

lemmas mem_defs = mem_client_def mem_Get_def mem_List_def mem_Apply_def mem_Delete_def mem_view_def Let_def

lemma Key_conditions [simp]: "Key (x\<lparr>Conditions := c\<rparr>) = Key x"
  by (simp add: Key_def)

lemma mem_Apply_eq:
  "mem_Apply x w = (None, w\<lparr>objects := AList.update (Key x) (with_status (mem_view w (Key x)) x) (objects w)\<rparr>)"
  by (auto simp: mem_Apply_def mem_view_def with_status_def split: option.split)

lemma mem_Get_eq:
  "mem_Get g ns n w =
     (case mem_view w (object_key g ns n) of
        None \<Rightarrow> (Inl (Errorf ''%w: %s/%s %s'' [AWrap ErrNotFound, AStr ns, AStr n, AStr (Kind g)]), w)
      | Some x \<Rightarrow> (Inr x, w))"
  by (simp add: mem_Get_def mem_view_def object_key_def)

lemma mem_ok_update:
  assumes "mem_ok w" and "Key x = k"
  shows "mem_ok (w\<lparr>objects := AList.update k x (objects w)\<rparr>)"
proof -
  have "set (AList.update k x m) \<subseteq> insert (k, x) (set m)" for m :: "DPFObject gomap"
    by (induction m) auto
  with assms show ?thesis
    by (fastforce simp: mem_ok_def distinct_update list_all_iff)
qed

lemma mem_ok_delete: "mem_ok w \<Longrightarrow> mem_ok (w\<lparr>objects := AList.delete k (objects w)\<rparr>)"
  by (auto simp: mem_ok_def list_all_iff AList.delete_eq intro: distinct_map_filter)

lemma mem_ok_new: "mem_ok NewInMemoryDPFClient"
  by (simp add: mem_ok_def NewInMemoryDPFClient_def)

lemma mem_key_wf: "mem_ok w \<Longrightarrow> mem_view w k = Some x \<Longrightarrow> Key x = k"
  by (auto simp: mem_ok_def mem_view_def list_all_iff dest: map_of_SomeD)

lemma mem_ok_SetConditions: "mem_ok w \<Longrightarrow> mem_ok (SetConditions k cs w)"
  using mem_key_wf [of w k]
  by (auto simp: SetConditions_def mem_view_def split: option.split intro!: mem_ok_update)

lemma mem_ran: "mem_ok w \<Longrightarrow> ran (mem_view w) = snd ` set (objects w)"
  by (simp add: mem_ok_def mem_view_def ran_distinct)

lemma mem_List_eq: "mem_List g ns sel w = (Inr (sort_key Name (filter (selects g ns sel) (map snd (objects w)))), w)"
  by (auto simp: mem_List_def selects_def intro!: arg_cong [where f = "sort_key Name"] filter_cong)

interpretation mem: reliable_dpf_store mem_client mem_view mem_ok
proof (unfold_locales, goal_cases)
  case (1 w k x)
  then show ?case by (rule mem_key_wf)
next
  case (5 w g ns sel xs w')
  then show ?case
    by (force simp: mem_client_def mem_List_eq mem_ran)
next
  case (6 w x e w')
  then show ?case
    by (auto simp: mem_client_def mem_Apply_eq intro: mem_ok_update)
next
  case (7 w x w')
  then show ?case
    by (auto simp: mem_client_def mem_Apply_eq mem_view_def apply_view_def)
next
  case (8 w g ns n e w')
  then show ?case
    by (auto simp: mem_client_def mem_Delete_def intro: mem_ok_delete)
qed (auto simp: mem_defs object_key_def split: option.splits)

section \<open>Properties of the in-memory client\<close>

text \<open>The states a run of the client goes through, from the constructor.\<close>

inductive mem_reachable :: "mem \<Rightarrow> bool" where
  mem_new: "mem_reachable NewInMemoryDPFClient"
| mem_applied: "mem_reachable w \<Longrightarrow> mem_Apply x w = (e, w') \<Longrightarrow> mem_reachable w'"
| mem_deleted: "mem_reachable w \<Longrightarrow> mem_Delete g ns n w = (e, w') \<Longrightarrow> mem_reachable w'"
| mem_conditioned: "mem_reachable w \<Longrightarrow> mem_reachable (SetConditions k cs w)"

text \<open>
  C6.  In every state a run of the in-memory client reaches, the keys of its map are distinct and
  every object is stored under the key computed from its own group, kind, namespace and name.
\<close>

theorem InMemory_reachable_keys:
  assumes "mem_reachable w"
  shows "mem_ok w"
  using assms
proof (induction rule: mem_reachable.induct)
  case (mem_applied w x e w')
  then show ?case using mem.apply_ok [of w x e w'] by (simp add: mem_client_def)
next
  case (mem_deleted w g ns n e w')
  then show ?case using mem.delete_ok [of w g ns n e w'] by (simp add: mem_client_def)
qed (auto intro: mem_ok_new mem_ok_SetConditions)

definition demo_object :: "string \<Rightarrow> DPFObject" where
  "demo_object n = \<lparr>GVK = GVKDPUService, Namespace = ManagedNamespace, Name = n, Labels = [],
     Spec = [], Conditions = None\<rparr>"

lemma InMemory_reachable_keys_witness:
  "mem_ok (snd (mem_Apply (demo_object ''a'') NewInMemoryDPFClient))"
  by (rule InMemory_reachable_keys, rule mem_applied [OF mem_new], rule prod.collapse [symmetric])

text \<open>
  Reading back an applied object gives its spec and labels, with the conditions it carried,
  or, when it carried none, those already stored: an apply never clears the status a controller
  wrote.
\<close>

theorem InMemory_apply_get:
  "fst (mem_Get (GVK x) (Namespace x) (Name x) (snd (mem_Apply x w))) =
     Inr (x\<lparr>Conditions := (if Conditions x = None
            then status_of (mem_view w (Key x)) else Conditions x)\<rparr>)"
  by (cases "mem_view w (Key x)"; cases "Conditions x")
    (simp_all add: mem_Apply_eq mem_Get_eq Key_object_key [symmetric] with_status_def status_of_def mem_view_def)

text \<open>
  Applying a whole plan twice leaves the store as applying it once does, whatever was stored
  before and even if objects of the plan share a key.
\<close>

theorem InMemory_apply_plan_twice:
  assumes "mem_ok w"
    and "each_until_err mem_Apply plan w = (None, w1)" and "each_until_err mem_Apply plan w1 = (None, w2)"
  shows "mem_view w2 = mem_view w1"
  using mem.store_apply_twice [of w plan w1 w2] assms by (simp add: mem_client_def)

lemma InMemory_apply_plan_twice_witness:
  defines "w1 \<equiv> snd (each_until_err mem_Apply [demo_object ''a'', demo_object ''a''] NewInMemoryDPFClient)"
  shows "mem_view (snd (each_until_err mem_Apply [demo_object ''a'', demo_object ''a''] w1)) = mem_view w1"
  by (rule InMemory_apply_plan_twice [OF mem_ok_new, of "[demo_object ''a'', demo_object ''a'']"])
    (simp_all add: w1_def mem_Apply_eq)

text \<open>
  A listing within one namespace does not depend on the order Go's map iteration visits the
  entries in, although the sort that follows is not stable.
\<close>

theorem mem_List_order:
  fixes w w' :: "'z mem_scheme"
  assumes "mem_ok w" and "mem_ok w'" and same: "set (objects w) = set (objects w')" and "ns \<noteq> ''''"
  shows "fst (mem_List g ns sel w) = fst (mem_List g ns sel w')"
proof -
  define pick where "pick w = filter (selects g ns sel) (map snd (objects w))" for w :: "'z mem_scheme"
  have dist: "distinct (map Name (pick w))" if "mem_ok w" for w
  proof -
    have "map Key (map snd (objects w)) = map fst (objects w)"
      using that by (fastforce simp: mem_ok_def list_all_iff)
    with that have "distinct (map Key (map snd (objects w)))"
      by (metis mem_ok_def)
    then have "distinct (map Key (pick w))"
      unfolding pick_def by (rule distinct_map_filter)
    moreover have "inj_on Name (set (pick w))"
      using calculation \<open>ns \<noteq> ''''\<close>
      by (auto simp: inj_on_def pick_def selects_def Key_def distinct_map)
    ultimately show ?thesis by (simp add: distinct_map)
  qed
  have inj: "inj_on Name (set (pick w) \<union> set (pick w'))"
    using dist [OF assms(1)] same by (simp add: pick_def distinct_map)
  have "sort_key Name (pick w) = sort_key Name (pick w')"
  proof (rule map_sorted_distinct_set_unique [of Name])
    show "inj_on Name (set (sort_key Name (pick w)) \<union> set (sort_key Name (pick w')))"
      using inj by simp
    show "set (sort_key Name (pick w)) = set (sort_key Name (pick w'))"
      using same by (simp add: pick_def)
  qed (use dist assms(1,2) in \<open>simp_all add: distinct_map\<close>)
  then show ?thesis by (simp add: mem_List_eq pick_def)
qed

lemma mem_List_order_witness:
  defines "a \<equiv> (Key (demo_object ''a''), demo_object ''a'')"
    and "b \<equiv> (Key (demo_object ''b''), demo_object ''b'')"
  shows "fst (mem_List GVKDPUService ManagedNamespace [] \<lparr>objects = [a, b]\<rparr>) =
    fst (mem_List GVKDPUService ManagedNamespace [] \<lparr>objects = [b, a]\<rparr>)"
  by (rule mem_List_order)
    (auto simp: a_def b_def mem_ok_def demo_object_def Key_def ManagedNamespace_def go_simps)

end
