(* ===== verification/Sha1.thy ===== *)
theory Sha1
  imports Prelude
begin

text \<open>
  SHA-1 as \<open>crypto/sha1\<close> of the Go standard library computes it (FIPS 180-4) on byte strings,
  with the lower-case hexadecimal rendering of \<open>encoding/hex\<close>.  The generated names of the
  DPF objects are built from its digests.  The second half is the evaluation kit: equations that
  keep every intermediate word a 32-bit numeral, so that the simplifier computes a digest.
\<close>

unbundle bit_operations_syntax

section \<open>The digest\<close>

type_synonym u32 = "32 word"
type_synonym regs = "u32 \<times> u32 \<times> u32 \<times> u32 \<times> u32"

definition rotl32 :: "nat \<Rightarrow> u32 \<Rightarrow> u32" where
  "rotl32 n w = push_bit n w OR drop_bit (32 - n) w"

definition be_word :: "u32 list \<Rightarrow> u32" where
  "be_word bs = foldl (\<lambda>acc b. push_bit 8 acc OR b) 0 bs"

definition be_len :: "nat \<Rightarrow> u32 list" where
  "be_len n = map (\<lambda>i. word_of_int (8 * int n div 256 ^ i mod 256)) (rev [0..<8])"

definition sha1_pad :: "u32 list \<Rightarrow> u32 list" where
  "sha1_pad bs = bs @ [0x80] @ replicate ((119 - length bs mod 64) mod 64) 0 @ be_len (length bs)"

fun chunks :: "nat \<Rightarrow> 'a list \<Rightarrow> 'a list list" where
  "chunks n xs = (if n = 0 \<or> xs = [] then [] else take n xs # chunks n (drop n xs))"

declare chunks.simps [simp del]

definition sha1_f :: "nat \<Rightarrow> u32 \<Rightarrow> u32 \<Rightarrow> u32 \<Rightarrow> u32" where
  "sha1_f t b c d =
     (if t < 20 then (b AND c) OR (NOT b AND d)
      else if t < 40 then b XOR c XOR d
      else if t < 60 then (b AND c) OR (b AND d) OR (c AND d)
      else b XOR c XOR d)"

definition sha1_k :: "nat \<Rightarrow> u32" where
  "sha1_k t =
     (if t < 20 then 0x5A827999 else if t < 40 then 0x6ED9EBA1
      else if t < 60 then 0x8F1BBCDC else 0xCA62C1D6)"

text \<open>One round: the window of the next sixteen schedule words and the five registers.\<close>

definition sha1_round :: "u32 list \<times> regs \<Rightarrow> nat \<Rightarrow> u32 list \<times> regs" where
  "sha1_round = (\<lambda>(ws, a, b, c, d, e) t.
     (tl ws @ [rotl32 1 (ws ! 13 XOR ws ! 8 XOR ws ! 2 XOR ws ! 0)],
      rotl32 5 a + sha1_f t b c d + e + sha1_k t + ws ! 0, a, rotl32 30 b, c, d))"

definition sha1_block :: "regs \<Rightarrow> u32 list \<Rightarrow> regs" where
  "sha1_block r blk =
     (case (r, snd (foldl sha1_round (map be_word (chunks 4 blk), r) [0..<80])) of
        ((h0, h1, h2, h3, h4), (a, b, c, d, e)) \<Rightarrow> (h0 + a, h1 + b, h2 + c, h3 + d, h4 + e))"

definition sha1_init :: regs where
  "sha1_init = (0x67452301, 0xEFCDAB89, 0x98BADCFE, 0x10325476, 0xC3D2E1F0)"

definition sha1_regs :: "string \<Rightarrow> regs" where
  "sha1_regs s = foldl sha1_block sha1_init (chunks 64 (sha1_pad (map of_char s)))"

definition hex_digit :: "u32 \<Rightarrow> char" where
  "hex_digit w = ''0123456789abcdef'' ! unat (w AND 15)"

definition hex_word :: "u32 \<Rightarrow> string" where
  "hex_word w = map (\<lambda>i. hex_digit (drop_bit (4 * i) w)) (rev [0..<8])"

definition sha1_hex :: "string \<Rightarrow> string" where
  "sha1_hex s = (case sha1_regs s of (a, b, c, d, e) \<Rightarrow>
     hex_word a @ hex_word b @ hex_word c @ hex_word d @ hex_word e)"

lemma hex_digit_alphabet: "hex_digit w \<in> set ''0123456789abcdef''"
proof -
  have "unat (w AND 15) \<le> unat (15 :: u32)"
    by (rule word_and_le1 [THEN word_le_nat_alt [THEN iffD1]])
  then have "unat (w AND 15) < length ''0123456789abcdef''" by simp
  then show ?thesis
    unfolding hex_digit_def by (rule nth_mem)
qed

lemma set_hex_word: "set (hex_word w) \<subseteq> set ''0123456789abcdef''"
  using hex_digit_alphabet by (auto simp: hex_word_def simp del: list.set)

lemma length_hex_word [simp]: "length (hex_word w) = 8"
  by (simp add: hex_word_def)

lemma length_sha1_hex [simp]: "length (sha1_hex s) = 40"
  by (simp add: sha1_hex_def split: prod.split)

lemma set_sha1_hex: "set (sha1_hex s) \<subseteq> set ''0123456789abcdef''"
  unfolding sha1_hex_def by (auto split: prod.split simp del: list.set dest: subsetD [OF set_hex_word])

section \<open>Evaluation\<close>

lemma mask32: "(w :: u32) AND 0xFFFFFFFF = w"
proof -
  have "(0xFFFFFFFF :: u32) = - 1" by simp
  then show ?thesis by (simp only: and.right_neutral)
qed

lemma rotl32_eval: "rotl32 n w = (push_bit n w AND 0xFFFFFFFF) OR drop_bit (32 - n) w"
  by (simp only: rotl32_def mask32)

lemma sha1_round_eval:
  "sha1_round ([w0, w1, w2, w3, w4, w5, w6, w7, w8, w9, w10, w11, w12, w13, w14, w15], a, b, c, d, e) t =
     ([w1, w2, w3, w4, w5, w6, w7, w8, w9, w10, w11, w12, w13, w14, w15,
       rotl32 1 (w13 XOR w8 XOR w2 XOR w0)],
      (rotl32 5 a + sha1_f t b c d + e + sha1_k t + w0) AND 0xFFFFFFFF, a, rotl32 30 b, c, d)"
  unfolding mask32 by (simp add: sha1_round_def eval_nat_numeral)

lemma sha1_block_eval:
  "sha1_block (h0, h1, h2, h3, h4) blk =
     (case snd (foldl sha1_round (map be_word (chunks 4 blk), h0, h1, h2, h3, h4) [0..<80]) of
        (a, b, c, d, e) \<Rightarrow>
          ((h0 + a) AND 0xFFFFFFFF, (h1 + b) AND 0xFFFFFFFF, (h2 + c) AND 0xFFFFFFFF,
           (h3 + d) AND 0xFFFFFFFF, (h4 + e) AND 0xFFFFFFFF))"
  unfolding mask32 by (simp add: sha1_block_def)

lemma upto_80: "[0..<80] =
    [0, 1, 2, 3, 4, 5, 6, 7, 8, 9, 10, 11, 12, 13, 14, 15, 16, 17, 18, 19, 20, 21, 22, 23,
     24, 25, 26, 27, 28, 29, 30, 31, 32, 33, 34, 35, 36, 37, 38, 39, 40, 41, 42, 43, 44, 45,
     46, 47, 48, 49, 50, 51, 52, 53, 54, 55, 56, 57, 58, 59, 60, 61, 62, 63, 64, 65, 66, 67,
     68, 69, 70, 71, 72, 73, 74, 75, 76, 77, 78, 79]"
  by (simp add: upt_conv_Cons)

lemma downto_8: "rev [0..<8] = [7, 6, 5, 4, 3, 2, 1, 0 :: nat]"
  by (simp add: upt_conv_Cons)

lemma replicate_numeral: "replicate (numeral k) x = x # replicate (pred_numeral k) x"
  by (simp add: numeral_eq_Suc)

lemmas sha1_eval =
  sha1_hex_def sha1_regs_def sha1_init_def sha1_pad_def be_len_def chunks.simps be_word_def
  sha1_block_eval sha1_round_eval rotl32_eval sha1_f_def sha1_k_def
  hex_word_def hex_digit_def upto_80 downto_8 replicate_numeral of_char_def

text \<open>The one-block test vector of the standard.\<close>

lemma sha1_hex_abc: "sha1_hex ''abc'' = ''a9993e364706816aba3e25717850c26c9cd0d89d''"
  by (simp add: sha1_eval)

end
