(* ===== verification/SfcTranslate.thy ===== *)
theory SfcTranslate
  imports DpfClient Sha1
begin

text \<open>
  \<open>aditya-sarna/feature_skeleton.go\<close>, section 3: the identity contract (deterministic names,
  ownership labels) and the two pure translations, \<open>TranslateSFC\<close> for a service function chain
  and \<open>TranslateNFRequest\<close> for one imperative network-function request.
\<close>

section \<open>Names and labels\<close>

definition LabelOwnerKind :: string where "LabelOwnerKind = ''opi.opiproject.org/owner-kind''"
definition LabelOwnerName :: string where "LabelOwnerName = ''opi.opiproject.org/owner-name''"
definition LabelOwnerNamespace :: string where "LabelOwnerNamespace = ''opi.opiproject.org/owner-namespace''"
definition LabelComponent :: string where "LabelComponent = ''opi.opiproject.org/component''"
definition ComponentNvidiaVSP :: string where "ComponentNvidiaVSP = ''nvidia-vsp''"

lemmas label_defs = LabelOwnerKind_def LabelOwnerName_def LabelOwnerNamespace_def LabelComponent_def
  ComponentNvidiaVSP_def

text \<open>The loop of \<open>sanitizeRFC1123\<close> over the runes of the lowered string.\<close>

definition rfc1123_rune :: "char \<Rightarrow> string" where
  "rfc1123_rune r =
     (if is_lower_ascii r \<or> is_digit r then [r]
      else if r = CHR ''-'' \<or> r = CHR ''.'' \<or> r = CHR ''_'' \<or> r = CHR '' '' then ''-''
      else '''')"

definition rfc1123_trimmed :: "string \<Rightarrow> string" where
  "rfc1123_trimmed s = trim_char CHR ''-'' (concat (map rfc1123_rune (to_lower s)))"

definition sanitizeRFC1123 :: "string \<Rightarrow> string" where
  "sanitizeRFC1123 s =
     (let out = rfc1123_trimmed s;
          out = (if 40 < length out then take 40 out else out)
      in if out = '''' then ''unnamed'' else out)"

definition DeterministicName :: "string \<Rightarrow> string \<Rightarrow> string \<Rightarrow> string" where
  "DeterministicName opiNamespace opiName role =
     ''opi-'' @ take 8 (sha1_hex (opiNamespace @ ''/'' @ opiName @ ''/'' @ role)) @ ''-'' @
     sanitizeRFC1123 opiName"

definition OwnerLabels :: "string \<Rightarrow> string \<Rightarrow> string \<Rightarrow> string gomap" where
  "OwnerLabels ownerKind ownerNamespace ownerName =
     [(LabelOwnerKind, ownerKind), (LabelOwnerName, ownerName),
      (LabelOwnerNamespace, ownerNamespace), (LabelComponent, ComponentNvidiaVSP)]"

subsection \<open>Facts about names\<close>

lemma rfc1123_rune_chars: "list_all name_char (rfc1123_rune r)"
  by (simp add: rfc1123_rune_def name_char_def)

lemma trimmed_chars: "list_all name_char (rfc1123_trimmed s)"
proof -
  have "list_all name_char (concat (map rfc1123_rune t))" for t
    by (induction t) (use rfc1123_rune_chars in auto)
  then show ?thesis
    using set_trim_char by (fastforce simp: rfc1123_trimmed_def list_all_iff)
qed

lemma unnamed_chars: "list_all name_char ''unnamed''"
  by (simp add: name_char_def is_lower_ascii_def)

lemma sanitize_chars: "list_all name_char (sanitizeRFC1123 s)"
  using trimmed_chars [of s] unnamed_chars
  by (auto simp: sanitizeRFC1123_def Let_def list_all_iff dest: in_set_takeD)

lemma sanitize_length: "0 < length (sanitizeRFC1123 s) \<and> length (sanitizeRFC1123 s) \<le> 40"
  by (auto simp: sanitizeRFC1123_def Let_def)

lemma sanitize_short:
  assumes "length (rfc1123_trimmed s) \<le> 40"
  shows "last (sanitizeRFC1123 s) \<noteq> CHR ''-''"
  using assms last_trim_char [of "CHR ''-''" "concat (map rfc1123_rune (to_lower s))"]
  by (auto simp: sanitizeRFC1123_def Let_def rfc1123_trimmed_def)

lemma hex_chars: "c \<in> set (sha1_hex s) \<Longrightarrow> name_char c"
  using set_sha1_hex [of s] by (auto simp: name_char_def is_lower_ascii_def is_digit_def dest!: subsetD)

lemma DeterministicName_chars: "list_all name_char (DeterministicName ns n role)"
  using sanitize_chars [of n] hex_chars
  by (auto simp: DeterministicName_def list_all_iff name_char_def is_lower_ascii_def dest: in_set_takeD)

lemma DeterministicName_length: "14 \<le> length (DeterministicName ns n role) \<and> length (DeterministicName ns n role) \<le> 53"
  using sanitize_length [of n] by (simp add: DeterministicName_def Suc_le_eq)

lemma DeterministicName_inj:
  "DeterministicName ns n r = DeterministicName ns n r' \<longleftrightarrow>
     take 8 (sha1_hex (ns @ ''/'' @ n @ ''/'' @ r)) = take 8 (sha1_hex (ns @ ''/'' @ n @ ''/'' @ r'))"
  by (auto simp: DeterministicName_def)

text \<open>
  A generated name always consists of 14 to 53 lower-case alphanumerics and dashes and starts
  with a letter; it is a DNS-1123 label exactly when the sanitised owner name does not end in a
  dash.
\<close>

theorem DeterministicName_label:
  "list_all name_char (DeterministicName ns n role) \<and>
   length (DeterministicName ns n role) \<in> {14..53} \<and>
   (rfc1123_label (DeterministicName ns n role) \<longleftrightarrow> last (sanitizeRFC1123 n) \<noteq> CHR ''-'')"
proof -
  have "sanitizeRFC1123 n \<noteq> ''''" using sanitize_length [of n] by auto
  then have "last (DeterministicName ns n role) = last (sanitizeRFC1123 n)"
    by (simp add: DeterministicName_def)
  moreover have "hd (DeterministicName ns n role) = CHR ''o''" and "DeterministicName ns n role \<noteq> ''''"
    by (simp_all add: DeterministicName_def)
  ultimately show ?thesis
    using DeterministicName_chars [of ns n role] DeterministicName_length [of ns n role]
    by (auto simp: rfc1123_label_def)
qed

text \<open>
  The truncation to 40 bytes comes after the trimming of dashes, so an owner name whose 40th
  sanitised character is a dash gives generated names that end in a dash, which Kubernetes
  rejects.
\<close>

theorem DeterministicName_trailing_dash:
  "\<not> rfc1123_label (DeterministicName ns (replicate 39 CHR ''a'' @ ''-blue'') role)"
proof -
  have "last (sanitizeRFC1123 (replicate 39 CHR ''a'' @ ''-blue'')) = CHR ''-''"
    by code_simp
  then show ?thesis using DeterministicName_label by simp
qed

lemma runes_name: "list_all name_char s \<Longrightarrow> concat (map rfc1123_rune s) = s"
  by (induction s) (auto simp: rfc1123_rune_def name_char_def)

text \<open>
  Sanitising leaves a DNS-1123 label of at most 40 bytes alone, so a well-formed short owner
  name appears unchanged in every generated name; and whatever it returns within the bound
  without a dash at the end is itself left alone.
\<close>

theorem sanitizeRFC1123_fixpoint:
  "(rfc1123_label s \<and> length s \<le> 40 \<longrightarrow> sanitizeRFC1123 s = s) \<and>
   (length (rfc1123_trimmed t) \<le> 40 \<longrightarrow> sanitizeRFC1123 (sanitizeRFC1123 t) = sanitizeRFC1123 t)"
proof -
  have fix_label: "sanitizeRFC1123 s = s" if "rfc1123_label s" and "length s \<le> 40" for s
    using that by (auto simp: sanitizeRFC1123_def rfc1123_trimmed_def rfc1123_label_def
        to_lower_name runes_name trim_char_id Let_def)
  have "rfc1123_label (sanitizeRFC1123 t)" if short: "length (rfc1123_trimmed t) \<le> 40" for t
  proof -
    have "hd (sanitizeRFC1123 t) \<noteq> CHR ''-''"
      using short hd_trim_char [of "CHR ''-''" "concat (map rfc1123_rune (to_lower t))"]
      by (auto simp: sanitizeRFC1123_def Let_def rfc1123_trimmed_def)
    with sanitize_chars sanitize_length [of t] sanitize_short [OF short] show ?thesis
      by (auto simp: rfc1123_label_def)
  qed
  with fix_label sanitize_length show ?thesis by blast
qed

lemma sanitizeRFC1123_fixpoint_witness:
  "sanitizeRFC1123 ''web-chain'' = ''web-chain'' \<and>
   sanitizeRFC1123 (sanitizeRFC1123 ''My Chain!'') = sanitizeRFC1123 ''My Chain!''"
proof -
  have "rfc1123_label ''web-chain''" and "length (rfc1123_trimmed ''My Chain!'') \<le> 40"
    by code_simp+
  then show ?thesis
    using sanitizeRFC1123_fixpoint [of "''web-chain''" "''My Chain!''"] by simp
qed

section \<open>Translating a service function chain\<close>

record NetworkFunction =
  nf_Name :: string
  nf_Image :: string

record ServiceFunctionChainSpec =
  sfc_Namespace :: string
  sfc_Name :: string
  NetworkFunctions :: "NetworkFunction list"
  IPAMSubnet :: string
  NodeSelector :: "string gomap"

record ApplyPlan =
  Objects :: "DPFObject list"

text \<open>The loops of \<open>TranslateSFC\<close>: helm values, interfaces of one hop, the hop entry.\<close>

definition nf_value :: "NetworkFunction \<Rightarrow> any" where
  "nf_value nf = VMap [(''name'', VStr (sanitizeRFC1123 (nf_Name nf))), (''image'', VStr (nf_Image nf))]"

definition iface_name :: "ServiceFunctionChainSpec \<Rightarrow> NetworkFunction \<Rightarrow> string \<Rightarrow> string" where
  "iface_name sfc nf dir =
     DeterministicName (sfc_Namespace sfc) (sfc_Name sfc) (''iface-'' @ nf_Name nf @ ''-'' @ dir)"

definition iface_object :: "ServiceFunctionChainSpec \<Rightarrow> NetworkFunction \<Rightarrow> string \<Rightarrow> DPFObject" where
  "iface_object sfc nf dir =
     \<lparr>GVK = GVKDPUServiceInterface, Namespace = ManagedNamespace, Name = iface_name sfc nf dir,
      Labels = OwnerLabels ''ServiceFunctionChain'' (sfc_Namespace sfc) (sfc_Name sfc),
      Spec = [(''interfaceType'', VStr ''service''),
              (''service'', VStr (sanitizeRFC1123 (nf_Name nf))),
              (''direction'', VStr dir),
              (''nodeSelector'', VStrMap (NodeSelector sfc))],
      Conditions = None\<rparr>"

definition hop_value :: "ServiceFunctionChainSpec \<Rightarrow> NetworkFunction \<Rightarrow> any" where
  "hop_value sfc nf =
     VMap [(''service'', VStr (sanitizeRFC1123 (nf_Name nf))),
           (''interfaces'', VStrs (map (iface_name sfc nf) [''in'', ''out'']))]"

definition service_object :: "ServiceFunctionChainSpec \<Rightarrow> DPFObject" where
  "service_object sfc =
     \<lparr>GVK = GVKDPUService, Namespace = ManagedNamespace,
      Name = DeterministicName (sfc_Namespace sfc) (sfc_Name sfc) ''service'',
      Labels = OwnerLabels ''ServiceFunctionChain'' (sfc_Namespace sfc) (sfc_Name sfc),
      Spec = [(''helmChart'', VStr ''opi-nf-wrapper''),
              (''values'', VMap [(''networkFunctions'', VList (map nf_value (NetworkFunctions sfc)))]),
              (''deployInCluster'', VBool True),
              (''argoPruneEnabled'', VBool True)],
      Conditions = None\<rparr>"

definition chain_object :: "ServiceFunctionChainSpec \<Rightarrow> DPFObject" where
  "chain_object sfc =
     \<lparr>GVK = GVKDPUServiceChain, Namespace = ManagedNamespace,
      Name = DeterministicName (sfc_Namespace sfc) (sfc_Name sfc) ''chain'',
      Labels = OwnerLabels ''ServiceFunctionChain'' (sfc_Namespace sfc) (sfc_Name sfc),
      Spec = [(''hops'', VList (map (hop_value sfc) (NetworkFunctions sfc))),
              (''nodeSelector'', VStrMap (NodeSelector sfc))],
      Conditions = None\<rparr>"

definition ipam_object :: "ServiceFunctionChainSpec \<Rightarrow> DPFObject" where
  "ipam_object sfc =
     \<lparr>GVK = GVKDPUServiceIPAM, Namespace = ManagedNamespace,
      Name = DeterministicName (sfc_Namespace sfc) (sfc_Name sfc) ''ipam'',
      Labels = OwnerLabels ''ServiceFunctionChain'' (sfc_Namespace sfc) (sfc_Name sfc),
      Spec = [(''subnet'', VStr (IPAMSubnet sfc))],
      Conditions = None\<rparr>"

definition TranslateSFC :: "ServiceFunctionChainSpec \<Rightarrow> ApplyPlan" where
  "TranslateSFC sfc =
     \<lparr>Objects =
        [service_object sfc] @
        concat (map (\<lambda>nf. map (iface_object sfc nf) [''in'', ''out'']) (NetworkFunctions sfc)) @
        [chain_object sfc] @
        (if IPAMSubnet sfc \<noteq> '''' then [ipam_object sfc] else [])\<rparr>"

lemmas sfc_object_defs = service_object_def chain_object_def ipam_object_def iface_object_def

section \<open>Translating a network-function request\<close>

record NFRequest =
  Input :: string
  Output :: string
  BridgeID :: string

definition NFRequestHash :: "string \<Rightarrow> NFRequest \<Rightarrow> string" where
  "NFRequestHash node req = take 12 (sha1_hex (node @ ''|'' @ Input req @ ''|'' @ Output req @ ''|'' @ BridgeID req))"

definition TranslateNFRequest :: "string \<Rightarrow> NFRequest \<Rightarrow> ApplyPlan" where
  "TranslateNFRequest node req =
     (let h = NFRequestHash node req;
          owner = AList.update ''opi.opiproject.org/bridge-id'' (sanitizeRFC1123 (BridgeID req))
                    (OwnerLabels ''NFRequest'' node h);
          base = DeterministicName node h ''nf'';
          mk = (\<lambda>role iface.
            \<lparr>GVK = GVKDPUServiceInterface, Namespace = ManagedNamespace, Name = base @ ''-'' @ role,
             Labels = owner,
             Spec = [(''interfaceType'', VStr ''physical''), (''interfaceName'', VStr iface),
                     (''node'', VStr node)],
             Conditions = None\<rparr>)
      in \<lparr>Objects =
           [mk ''in'' (Input req), mk ''out'' (Output req),
            \<lparr>GVK = GVKDPUServiceChain, Namespace = ManagedNamespace, Name = base @ ''-hop'',
             Labels = owner,
             Spec = [(''node'', VStr node),
                     (''hops'', VList [VMap [(''interfaces'', VStrs [base @ ''-in'', base @ ''-out''])]])],
             Conditions = None\<rparr>]\<rparr>)"

section \<open>Properties of the translations\<close>

lemma owner_selector [simp]:
  "list_all (\<lambda>(k, v). str_at (OwnerLabels kind ns n) k = v) (OwnerLabels kind' ns' n') \<longleftrightarrow>
     kind = kind' \<and> ns = ns' \<and> n = n'"
  by (auto simp: OwnerLabels_def str_at_def label_defs)

lemma TranslateSFC_object:
  assumes "x \<in> set (Objects (TranslateSFC sfc))"
  shows "Namespace x = ManagedNamespace \<and> Conditions x = None \<and>
    Labels x = OwnerLabels ''ServiceFunctionChain'' (sfc_Namespace sfc) (sfc_Name sfc) \<and>
    GVK x \<in> {GVKDPUServiceChain, GVKDPUServiceInterface, GVKDPUServiceIPAM, GVKDPUService}"
  using assms by (auto simp: TranslateSFC_def sfc_object_defs split: if_splits)

text \<open>
  The ownership labels identify the owner: the selector built from a chain's namespace and
  name matches every object the translation of that chain generates and no object generated for
  any other chain.
\<close>

theorem TranslateSFC_ownership:
  assumes "x \<in> set (Objects (TranslateSFC sfc))"
  shows "selects (GVK x) ManagedNamespace (OwnerLabels ''ServiceFunctionChain'' ns n) x \<longleftrightarrow>
    ns = sfc_Namespace sfc \<and> n = sfc_Name sfc"
  using TranslateSFC_object [OF assms] by (auto simp: selects_def)

definition sampleSFC :: ServiceFunctionChainSpec where
  "sampleSFC =
     \<lparr>sfc_Namespace = ''tenant-a'', sfc_Name = ''web-chain'',
      NetworkFunctions =
        [\<lparr>nf_Name = ''firewall'', nf_Image = ''example.com/fw:1''\<rparr>,
         \<lparr>nf_Name = ''router'', nf_Image = ''example.com/rtr:1''\<rparr>],
      IPAMSubnet = ''10.0.0.0/24'', NodeSelector = [(''dpu'', ''true'')]\<rparr>"

lemma TranslateSFC_ownership_witness:
  "\<not> selects GVKDPUService ManagedNamespace (OwnerLabels ''ServiceFunctionChain'' ''tenant-b'' ''web-chain'')
      (hd (Objects (TranslateSFC sampleSFC)))"
proof -
  have "hd (Objects (TranslateSFC sampleSFC)) \<in> set (Objects (TranslateSFC sampleSFC))"
    and "GVK (hd (Objects (TranslateSFC sampleSFC))) = GVKDPUService"
    by (simp_all add: TranslateSFC_def service_object_def)
  then show ?thesis
    using TranslateSFC_ownership [of "hd (Objects (TranslateSFC sampleSFC))" sampleSFC "''tenant-b''" "''web-chain''"]
    by (simp add: sampleSFC_def)
qed

definition is_iface :: "DPFObject \<Rightarrow> bool" where
  "is_iface x = (GVK x = GVKDPUServiceInterface)"

text \<open>The interface names a hop entry of a chain refers to.\<close>

fun hop_interfaces :: "any \<Rightarrow> string list" where
  "hop_interfaces (VMap m) = (case map_of m ''interfaces'' of Some (VStrs ns) \<Rightarrow> ns | _ \<Rightarrow> [])"
| "hop_interfaces _ = []"

definition chain_hops :: "DPFObject \<Rightarrow> any list" where
  "chain_hops x = (case map_of (Spec x) ''hops'' of Some (VList hs) \<Rightarrow> hs | _ \<Rightarrow> [])"

lemma TranslateSFC_ifaces:
  "filter is_iface (Objects (TranslateSFC sfc)) =
     concat (map (\<lambda>nf. map (iface_object sfc nf) [''in'', ''out'']) (NetworkFunctions sfc))"
proof -
  have "filter is_iface (concat (map (\<lambda>nf. map (iface_object sfc nf) [''in'', ''out'']) nfs)) =
      concat (map (\<lambda>nf. map (iface_object sfc nf) [''in'', ''out'']) nfs)" for nfs
    by (induction nfs) (simp_all add: is_iface_def iface_object_def)
  then show ?thesis
    by (simp add: TranslateSFC_def is_iface_def sfc_object_defs go_simps)
qed

text \<open>
  Shape and wiring of a translated chain: one service, two interfaces per network function,
  one chain and, when a subnet is given, one IPAM object, in this order; the hops of the chain
  follow the network functions and name exactly the generated interfaces, in order.
\<close>

theorem TranslateSFC_shape:
  "map GVK (Objects (TranslateSFC sfc)) =
     [GVKDPUService] @ replicate (2 * length (NetworkFunctions sfc)) GVKDPUServiceInterface @
     [GVKDPUServiceChain] @ (if IPAMSubnet sfc = '''' then [] else [GVKDPUServiceIPAM])
   \<and> concat (map (concat \<circ> map hop_interfaces \<circ> chain_hops)
        (filter (\<lambda>x. GVK x = GVKDPUServiceChain) (Objects (TranslateSFC sfc)))) =
     map Name (filter is_iface (Objects (TranslateSFC sfc)))"
proof
  have kinds: "map GVK (concat (map (\<lambda>nf. map (iface_object sfc nf) [''in'', ''out'']) nfs)) =
      replicate (2 * length nfs) GVKDPUServiceInterface" for nfs
    by (induction nfs) (simp_all add: iface_object_def)
  then show "map GVK (Objects (TranslateSFC sfc)) =
     [GVKDPUService] @ replicate (2 * length (NetworkFunctions sfc)) GVKDPUServiceInterface @
     [GVKDPUServiceChain] @ (if IPAMSubnet sfc = '''' then [] else [GVKDPUServiceIPAM])"
    by (simp add: TranslateSFC_def service_object_def chain_object_def ipam_object_def)
  have no_chain: "filter (\<lambda>x. GVK x = GVKDPUServiceChain)
      (concat (map (\<lambda>nf. map (iface_object sfc nf) [''in'', ''out'']) nfs)) = []" for nfs
    by (induction nfs) (simp_all add: iface_object_def go_simps)
  have names: "concat (map (hop_interfaces \<circ> hop_value sfc) nfs) =
      map Name (concat (map (\<lambda>nf. map (iface_object sfc nf) [''in'', ''out'']) nfs))" for nfs
    by (induction nfs) (simp_all add: hop_value_def iface_object_def)
  show "concat (map (concat \<circ> map hop_interfaces \<circ> chain_hops)
        (filter (\<lambda>x. GVK x = GVKDPUServiceChain) (Objects (TranslateSFC sfc)))) =
     map Name (filter is_iface (Objects (TranslateSFC sfc)))"
    unfolding TranslateSFC_ifaces names [symmetric]
    using no_chain [of "NetworkFunctions sfc"]
    by (simp add: TranslateSFC_def chain_hops_def service_object_def chain_object_def ipam_object_def go_simps)
qed

text \<open>
  The generated names of one chain differ only in eight hexadecimal digits taken from a digest of
  the role, so objects of one kind are told apart by those digits alone.
\<close>

definition iface_roles :: "ServiceFunctionChainSpec \<Rightarrow> string list" where
  "iface_roles sfc = concat (map (\<lambda>nf. map (\<lambda>dir. ''iface-'' @ nf_Name nf @ ''-'' @ dir) [''in'', ''out''])
     (NetworkFunctions sfc))"

definition role_digits :: "ServiceFunctionChainSpec \<Rightarrow> string \<Rightarrow> string" where
  "role_digits sfc role = take 8 (sha1_hex (sfc_Namespace sfc @ ''/'' @ sfc_Name sfc @ ''/'' @ role))"

lemma TranslateSFC_iface_names:
  "map Name (filter is_iface (Objects (TranslateSFC sfc))) =
     map (DeterministicName (sfc_Namespace sfc) (sfc_Name sfc)) (iface_roles sfc)"
  by (simp add: TranslateSFC_ifaces iface_roles_def map_concat iface_object_def iface_name_def comp_def)

lemma Key_kind_differs:
  assumes "GVK x = svc_gvk k" and "GVK y = svc_gvk k'" and "k \<noteq> k'"
    and "CHR ''/'' \<notin> set k" and "CHR ''/'' \<notin> set k'"
  shows "Key x \<noteq> Key y"
proof
  assume "Key x = Key y"
  then have "k @ CHR ''/'' # (Namespace x @ ''/'' @ Name x) = k' @ CHR ''/'' # (Namespace y @ ''/'' @ Name y)"
    using assms(1,2) by (simp add: Key_def svc_gvk_def)
  then have "takeWhile (\<lambda>c. c \<noteq> CHR ''/'') (k @ CHR ''/'' # (Namespace x @ ''/'' @ Name x)) =
      takeWhile (\<lambda>c. c \<noteq> CHR ''/'') (k' @ CHR ''/'' # (Namespace y @ ''/'' @ Name y))"
    by simp
  moreover have "takeWhile (\<lambda>c. c \<noteq> CHR ''/'') (j @ CHR ''/'' # r) = j" if "CHR ''/'' \<notin> set j" for j r
    using that by (induction j) auto
  ultimately show False using assms(3-5) by simp
qed

text \<open>
  The objects of a translated chain have pairwise different store keys exactly when the
  digests of its interface roles differ in their first eight digits; in particular a chain that
  lists a network function name twice generates two pairs of interfaces under one pair of keys.
\<close>

theorem TranslateSFC_distinct_keys:
  "distinct (map Key (Objects (TranslateSFC sfc))) \<longleftrightarrow> distinct (map (role_digits sfc) (iface_roles sfc))"
proof -
  define I where "I = filter is_iface (Objects (TranslateSFC sfc))"
  have shape: "Objects (TranslateSFC sfc) =
      service_object sfc # I @ chain_object sfc # (if IPAMSubnet sfc \<noteq> [] then [ipam_object sfc] else [])"
    unfolding I_def TranslateSFC_ifaces by (simp add: TranslateSFC_def)
  have iface: "GVK y = svc_gvk ''DPUServiceInterface'' \<and> Namespace y = ManagedNamespace" if "y \<in> set I" for y
    using that TranslateSFC_object [of y sfc] by (auto simp: I_def is_iface_def GVKDPUServiceInterface_def)
  have fresh: "Key x \<notin> Key ` set I" if "GVK x = svc_gvk k" and "k \<noteq> ''DPUServiceInterface''"
      and "CHR ''/'' \<notin> set k" for x k
  proof
    assume "Key x \<in> Key ` set I"
    then obtain y where "y \<in> set I" and eq: "Key x = Key y" by blast
    then have "GVK y = svc_gvk ''DPUServiceInterface''" using iface by blast
    from Key_kind_differs [OF that(1) this that(2,3)] eq show False by simp
  qed
  have gvk: "GVK (service_object sfc) = svc_gvk ''DPUService''" "GVK (chain_object sfc) = svc_gvk ''DPUServiceChain''"
    "GVK (ipam_object sfc) = svc_gvk ''DPUServiceIPAM''"
    by (simp_all add: service_object_def chain_object_def ipam_object_def
        GVKDPUService_def GVKDPUServiceChain_def GVKDPUServiceIPAM_def)
  have apart: "Key (service_object sfc) \<noteq> Key (chain_object sfc)" "Key (service_object sfc) \<noteq> Key (ipam_object sfc)"
    "Key (chain_object sfc) \<noteq> Key (ipam_object sfc)"
    by (rule Key_kind_differs [OF gvk(1,2)], simp_all)
      (rule Key_kind_differs [OF gvk(1,3)], simp_all, rule Key_kind_differs [OF gvk(2,3)], simp_all)
  have new: "Key (service_object sfc) \<notin> Key ` set I" "Key (chain_object sfc) \<notin> Key ` set I"
    "Key (ipam_object sfc) \<notin> Key ` set I"
    by (rule fresh [OF gvk(1)], simp_all)
      (rule fresh [OF gvk(2)], simp_all, rule fresh [OF gvk(3)], simp_all)
  have "distinct (map Key (Objects (TranslateSFC sfc))) \<longleftrightarrow> distinct (map Key I)"
    unfolding shape using apart new by auto
  also have "\<dots> \<longleftrightarrow> distinct (map Name I)"
  proof -
    have "map Key I = map (object_key GVKDPUServiceInterface ManagedNamespace) (map Name I)"
      using iface by (simp add: Key_object_key GVKDPUServiceInterface_def)
    moreover have "inj (object_key GVKDPUServiceInterface ManagedNamespace)"
      by (simp add: inj_def object_key_def)
    ultimately show ?thesis by (metis distinct_map inj_on_subset subset_UNIV)
  qed
  also have "\<dots> \<longleftrightarrow> distinct (map (role_digits sfc) (iface_roles sfc))"
  proof -
    have "map Name I = map (\<lambda>d. ''opi-'' @ d @ ''-'' @ sanitizeRFC1123 (sfc_Name sfc))
        (map (role_digits sfc) (iface_roles sfc))"
      unfolding I_def TranslateSFC_iface_names by (simp add: DeterministicName_def role_digits_def)
    moreover have "inj (\<lambda>d. ''opi-'' @ d @ ''-'' @ sanitizeRFC1123 (sfc_Name sfc))"
      by (simp add: inj_def)
    ultimately show ?thesis by (metis distinct_map inj_on_subset subset_UNIV)
  qed
  finally show ?thesis .
qed

section \<open>Network-function requests\<close>

lemma NFRequestHash_props:
  "length (NFRequestHash node req) = 12" "list_all name_char (NFRequestHash node req)"
  "CHR ''-'' \<notin> set (NFRequestHash node req)"
proof -
  show "length (NFRequestHash node req) = 12" by (simp add: NFRequestHash_def)
  show "list_all name_char (NFRequestHash node req)"
    using hex_chars by (auto simp: NFRequestHash_def list_all_iff dest: in_set_takeD)
  have "CHR ''-'' \<notin> set (sha1_hex s)" for s
    using set_sha1_hex [of s] by auto
  then show "CHR ''-'' \<notin> set (NFRequestHash node req)"
    by (auto simp: NFRequestHash_def dest: in_set_takeD)
qed

lemma sanitize_dashfree:
  assumes "list_all name_char s" and "CHR ''-'' \<notin> set s" and "s \<noteq> ''''" and "length s \<le> 40"
  shows "sanitizeRFC1123 s = s"
proof -
  have "hd s \<noteq> CHR ''-''" and "last s \<noteq> CHR ''-''"
    using assms(2,3) by (metis hd_in_set, metis last_in_set)
  then have "rfc1123_trimmed s = s"
    using assms by (simp add: rfc1123_trimmed_def to_lower_name runes_name trim_char_id)
  with assms show ?thesis by (simp add: sanitizeRFC1123_def)
qed

definition nf_base :: "string \<Rightarrow> NFRequest \<Rightarrow> string" where
  "nf_base node req = DeterministicName node (NFRequestHash node req) ''nf''"

lemma nf_base_props:
  "list_all name_char (nf_base node req)" "length (nf_base node req) = 25"
  "hd (nf_base node req) = CHR ''o''" "nf_base node req \<noteq> ''''"
proof -
  have "sanitizeRFC1123 (NFRequestHash node req) = NFRequestHash node req"
    using NFRequestHash_props [of node req] by (intro sanitize_dashfree) auto
  then show "length (nf_base node req) = 25" "hd (nf_base node req) = CHR ''o''" "nf_base node req \<noteq> ''''"
    using NFRequestHash_props [of node req] by (simp_all add: nf_base_def DeterministicName_def)
  show "list_all name_char (nf_base node req)"
    by (simp add: nf_base_def DeterministicName_chars)
qed

lemma TranslateNFRequest_names:
  "map Name (Objects (TranslateNFRequest node req)) =
     map (\<lambda>r. nf_base node req @ r) [''-in'', ''-out'', ''-hop'']"
  by (simp add: TranslateNFRequest_def nf_base_def Let_def)

lemma TranslateNFRequest_object:
  assumes "x \<in> set (Objects (TranslateNFRequest node req))"
  shows "Namespace x = ManagedNamespace \<and> Conditions x = None"
  using assms by (auto simp: TranslateNFRequest_def Let_def)

lemma TranslateNFRequest_keys:
  "map Key (Objects (TranslateNFRequest node req)) =
     map (\<lambda>(g, r). object_key g ManagedNamespace (nf_base node req @ r))
       [(GVKDPUServiceInterface, ''-in''), (GVKDPUServiceInterface, ''-out''), (GVKDPUServiceChain, ''-hop'')]"
  by (simp add: TranslateNFRequest_def nf_base_def Let_def Key_object_key)

text \<open>
  A network-function request becomes two interfaces and one chain under three different keys,
  the chain last; every generated name is a DNS-1123 label whatever the request holds; and the
  single hop of the chain names exactly the two interfaces, ingress first.
\<close>

theorem TranslateNFRequest_wellformed:
  "map GVK (Objects (TranslateNFRequest node req)) =
     [GVKDPUServiceInterface, GVKDPUServiceInterface, GVKDPUServiceChain] \<and>
   list_all rfc1123_label (map Name (Objects (TranslateNFRequest node req))) \<and>
   distinct (map Key (Objects (TranslateNFRequest node req))) \<and>
   map hop_interfaces (chain_hops (last (Objects (TranslateNFRequest node req)))) =
     [map Name (butlast (Objects (TranslateNFRequest node req)))]"
proof (intro conjI)
  show "map GVK (Objects (TranslateNFRequest node req)) =
     [GVKDPUServiceInterface, GVKDPUServiceInterface, GVKDPUServiceChain]"
    by (simp add: TranslateNFRequest_def Let_def)
  show "list_all rfc1123_label (map Name (Objects (TranslateNFRequest node req)))"
    unfolding TranslateNFRequest_names
    using nf_base_props [of node req] by (simp add: rfc1123_label_def name_char_def is_lower_ascii_def)
  show "distinct (map Key (Objects (TranslateNFRequest node req)))"
    unfolding TranslateNFRequest_keys by (simp add: object_key_def go_simps)
  show "map hop_interfaces (chain_hops (last (Objects (TranslateNFRequest node req)))) =
     [map Name (butlast (Objects (TranslateNFRequest node req)))]"
    by (simp add: TranslateNFRequest_def chain_hops_def Let_def)
qed

text \<open>
  The request hash joins its fields with a bar and does not escape bars, so requests that
  differ only in where a bar falls share all their keys: applying the second overwrites the first.
\<close>

theorem TranslateNFRequest_bar_collision:
  "map Key (Objects (TranslateNFRequest node \<lparr>Input = a @ ''|'' @ b, Output = c, BridgeID = d\<rparr>)) =
   map Key (Objects (TranslateNFRequest node \<lparr>Input = a, Output = b @ ''|'' @ c, BridgeID = d\<rparr>))"
proof -
  have "NFRequestHash node \<lparr>Input = a @ ''|'' @ b, Output = c, BridgeID = d\<rparr> =
      NFRequestHash node \<lparr>Input = a, Output = b @ ''|'' @ c, BridgeID = d\<rparr>"
    by (simp add: NFRequestHash_def)
  then show ?thesis unfolding TranslateNFRequest_keys nf_base_def by simp
qed

text \<open>
  One of the names the table \<open>goldenObjectNames\<close> of the tests lists, computed: the generated chain
  name of the sample.
\<close>

lemma DeterministicName_golden:
  "DeterministicName ''tenant-a'' ''web-chain'' ''chain'' = ''opi-ae0ff21b-web-chain''"
proof -
  have "take 8 (sha1_hex ''tenant-a/web-chain/chain'') = ''ae0ff21b''"
    by (simp add: sha1_eval)
  moreover have "sanitizeRFC1123 ''web-chain'' = ''web-chain''" by code_simp
  ultimately show ?thesis by (simp add: DeterministicName_def)
qed

end
