(* ===== verification/NvidiaVsp.thy ===== *)
theory NvidiaVsp
  imports SfcTranslate
begin

text \<open>
  \<open>aditya-sarna/feature_skeleton.go\<close>, sections 1 and 4: the vendor-plugin messages and the
  adapter \<open>NvidiaVSP\<close>, which turns each call of the OPI vendor contract into calls of the DPF
  client with bounded waits.  \<open>vspgrpc/demo.go\<close> supplies the demo host.
\<close>

section \<open>Messages and sentinel errors\<close>

record InitRequest =
  DpuMode :: bool
  DpuIdentifier :: string

record IpPort =
  IP :: string
  Port :: int32

record DpuNetworkConfigRequest =
  IsAccelerated :: bool

record VfCount =
  VfCnt :: int32

record TopologyInfo =
  Node :: string

record Device =
  ID :: string
  Health :: string
  Topology :: TopologyInfo

record DeviceListResponse =
  Devices :: "Device gomap"

record PingRequest =
  Timestamp :: "64 word"
  SenderID :: string

record PingResponse =
  pr_Timestamp :: "64 word"
  ResponderID :: string
  Healthy :: bool

definition ErrUnavailable :: go_error where
  "ErrUnavailable = Sentinel ''UNAVAILABLE: dependent DPF state not converged; retry''"
definition ErrFailedPrecondition :: go_error where
  "ErrFailedPrecondition = Sentinel ''FAILED_PRECONDITION''"
definition ErrUnimplemented :: go_error where
  "ErrUnimplemented = Sentinel ''UNIMPLEMENTED''"

lemmas sentinel_defs = ErrUnavailable_def ErrFailedPrecondition_def ErrUnimplemented_def ErrNotFound_def

section \<open>The host and the adapter\<close>

text \<open>
  What the adapter reads from its node: the wall clock, the sleep, the error of the call's context,
  the allocator \<open>VFAllocator\<close> and the enumerator \<open>HostVFEnumerator\<close> (the slice is kept beside the
  error because \<open>SetNumVfs\<close> uses it even then).  The world \<open>'w\<close> is shared with the DPF client, so
  anything may happen to the store while the adapter sleeps.
\<close>

record 'w Host =
  h_now :: "'w \<Rightarrow> time"
  h_sleep :: "duration \<Rightarrow> 'w \<Rightarrow> 'w"
  h_ctx_err :: "'w \<Rightarrow> go_error option"
  h_allocated :: "'w \<Rightarrow> int32"
  h_list_vfs :: "'w \<Rightarrow> (string list \<times> go_error option) \<times> 'w"

record NvidiaVSPConfig =
  NodeName :: string
  ServeIP :: string
  ServePort :: int32
  NFReadyTimeout :: duration
  VFActuationTimeout :: duration
  HealthStaleness :: duration
  PollInterval :: duration

definition DefaultVSPConfig :: "string \<Rightarrow> NvidiaVSPConfig" where
  "DefaultVSPConfig node =
     \<lparr>NodeName = node, ServeIP = ''127.0.0.1'', ServePort = 50051,
      NFReadyTimeout = 30 * second, VFActuationTimeout = 60 * second,
      HealthStaleness = 2 * minute, PollInterval = 500 * millisecond\<rparr>"

text \<open>The adapter's own state; \<open>mu\<close> guards single reads and writes of it.\<close>

record NvidiaVSP =
  cfg :: NvidiaVSPConfig
  lastHealthySync :: time
  initialized :: bool

definition NewNvidiaVSP :: "'w Host \<Rightarrow> NvidiaVSPConfig \<Rightarrow> 'w \<Rightarrow> NvidiaVSP" where
  "NewNvidiaVSP H c w = \<lparr>cfg = c, lastHealthySync = h_now H w, initialized = False\<rparr>"

section \<open>Operations\<close>

text \<open>The test both \<open>Init\<close> and \<open>GetDevices\<close> apply to a DPU object.\<close>

definition dpu_ready_on :: "string \<Rightarrow> DPFObject \<Rightarrow> bool" where
  "dpu_ready_on node d = (map_of (Spec d) ''nodeName'' = Some (VStr node) \<and> IsReady d)"

definition Init :: "'w DPFClient \<Rightarrow> NvidiaVSP \<Rightarrow> InitRequest \<Rightarrow> 'w \<Rightarrow> (go_error + IpPort) \<times> NvidiaVSP \<times> 'w" where
  "Init C v req w =
     (if DpuMode req
      then (Inl (Errorf ''%w: dpu_mode is served by DPF DPU-cluster controllers in v1 (design 6.3)''
                  [AWrap ErrUnimplemented]), v, w)
      else case cList C GVKDPU '''' [] w of
        (Inl err, w') \<Rightarrow> (Inl (Errorf ''%w: cannot list DPU CRs: %v'' [AWrap ErrUnavailable, AErr err]), v, w')
      | (Inr dpus, w') \<Rightarrow>
          if list_ex (dpu_ready_on (NodeName (cfg v))) dpus
          then (Inr \<lparr>IP = ServeIP (cfg v), Port = ServePort (cfg v)\<rparr>, v\<lparr>initialized := True\<rparr>, w')
          else (Inl (Errorf ''%w: no provisioned DPF DPU CR for node %q (see DpuOperatorConfig condition DpusProvisioned)''
                      [AWrap ErrFailedPrecondition, AStr (NodeName (cfg v))]), v, w'))"

definition GetDevices :: "'w DPFClient \<Rightarrow> 'w Host \<Rightarrow> NvidiaVSP \<Rightarrow> 'w \<Rightarrow> (go_error + DeviceListResponse) \<times> 'w" where
  "GetDevices C H v w =
     (case cList C GVKDPU '''' [] w of
        (Inl err, w') \<Rightarrow> (Inl (Errorf ''%w: %v'' [AWrap ErrUnavailable, AErr err]), w')
      | (Inr dpus, w') \<Rightarrow>
          let nodeHealthy = list_ex (dpu_ready_on (NodeName (cfg v))) dpus in
          case h_list_vfs H w' of
            ((_, Some err), w'') \<Rightarrow>
              (Inl (Errorf ''%w: vf enumeration: %v'' [AWrap ErrUnavailable, AErr err]), w'')
          | ((pcis, None), w'') \<Rightarrow>
              let health = (if nodeHealthy then ''Healthy'' else ''Unhealthy'') in
              (Inr \<lparr>Devices = fold (\<lambda>pci. AList.update pci
                      \<lparr>ID = pci, Health = health, Topology = \<lparr>Node = NodeName (cfg v)\<rparr>\<rparr>) pcis []\<rparr>, w''))"

definition vf_request_object :: "string \<Rightarrow> VfCount \<Rightarrow> DPFObject" where
  "vf_request_object node req =
     \<lparr>GVK = GVKDPUFlavor, Namespace = ManagedNamespace,
      Name = DeterministicName ManagedNamespace node ''vf-request'',
      Labels = OwnerLabels ''DpuNode'' ManagedNamespace node,
      Spec = [(''node'', VStr node), (''numVfs'', VInt32 (VfCnt req))],
      Conditions = None\<rparr>"

text \<open>
  The two waits.  The body of a round returns \<open>Some\<close> result when the loop returns, \<open>None\<close> when it
  goes on to sleep.  \<open>int32(len(pcis))\<close> is \<open>of_nat\<close>, which wraps.
\<close>

definition vf_round :: "'w Host \<Rightarrow> VfCount \<Rightarrow> 'w \<Rightarrow> (VfCount \<times> go_error option) option \<times> 'w" where
  "vf_round H req w =
     (case h_ctx_err H w of
        Some err \<Rightarrow> (Some (\<lparr>VfCnt = 0\<rparr>, Some err), w)
      | None \<Rightarrow>
          (case h_list_vfs H w of
             ((pcis, err), w') \<Rightarrow>
               (if err = None \<and> of_nat (length pcis) = VfCnt req
                then Some (\<lparr>VfCnt = of_nat (length pcis)\<rparr>, None) else None, w')))"

definition SetNumVfs ::
    "'w DPFClient \<Rightarrow> 'w Host \<Rightarrow> NvidiaVSP \<Rightarrow> VfCount \<Rightarrow> 'w \<Rightarrow> ((VfCount \<times> go_error option) \<times> 'w) option" where
  "SetNumVfs C H v req w =
     (let allocated = h_allocated H w in
      if sint (VfCnt req) < sint allocated
      then Some ((\<lparr>VfCnt = 0\<rparr>, Some (Errorf ''%w: requested %d VFs but %d are allocated to running pods''
              [AWrap ErrFailedPrecondition, AInt (sint (VfCnt req)), AInt (sint allocated)])), w)
      else case cApply C (vf_request_object (NodeName (cfg v)) req) w of
        (Some err, w1) \<Rightarrow>
          Some ((\<lparr>VfCnt = 0\<rparr>, Some (Errorf ''%w: apply VF request: %v'' [AWrap ErrUnavailable, AErr err])), w1)
      | (None, w1) \<Rightarrow>
          let deadline = h_now H w1 + VFActuationTimeout (cfg v) in
          case poll_until (\<lambda>w. h_now H w < deadline) (vf_round H req) (h_sleep H (PollInterval (cfg v))) w1 of
            None \<Rightarrow> None
          | Some (Some r, w2) \<Rightarrow> Some (r, w2)
          | Some (None, w2) \<Rightarrow>
              (case h_list_vfs H w2 of
                 ((pcis, _), w3) \<Rightarrow>
                   Some ((\<lparr>VfCnt = of_nat (length pcis)\<rparr>,
                     Some (Errorf ''%w: VF actuation not converged (have %d, want %d)''
                       [AWrap ErrUnavailable, AInt (int (length pcis)), AInt (sint (VfCnt req))])), w3)))"

definition nf_round :: "'w DPFClient \<Rightarrow> 'w Host \<Rightarrow> string \<Rightarrow> 'w \<Rightarrow> go_error option option \<times> 'w" where
  "nf_round C H chainName w =
     (case h_ctx_err H w of
        Some err \<Rightarrow> (Some (Some err), w)
      | None \<Rightarrow>
          (case cGet C GVKDPUServiceChain ManagedNamespace chainName w of
             (Inr chain, w') \<Rightarrow> (if IsReady chain then Some None else None, w')
           | (Inl _, w') \<Rightarrow> (None, w')))"

definition CreateNetworkFunction ::
    "'w DPFClient \<Rightarrow> 'w Host \<Rightarrow> NvidiaVSP \<Rightarrow> NFRequest \<Rightarrow> 'w \<Rightarrow> (go_error option \<times> 'w) option" where
  "CreateNetworkFunction C H v req w =
     (let plan = TranslateNFRequest (NodeName (cfg v)) req in
      case each_until_err (cApply C) (Objects plan) w of
        (Some (obj, err), w1) \<Rightarrow>
          Some (Some (Errorf ''%w: apply %s: %v'' [AWrap ErrUnavailable, AStr (Name obj), AErr err]), w1)
      | (None, w1) \<Rightarrow>
          let chainName = Name (Objects plan ! (length (Objects plan) - 1));
              deadline = h_now H w1 + NFReadyTimeout (cfg v) in
          case poll_until (\<lambda>w. h_now H w < deadline) (nf_round C H chainName)
                 (h_sleep H (PollInterval (cfg v))) w1 of
            None \<Rightarrow> None
          | Some (Some r, w2) \<Rightarrow> Some (r, w2)
          | Some (None, w2) \<Rightarrow>
              Some (Some (Errorf ''%w: chain %s not Ready within %s''
                [AWrap ErrUnavailable, AStr chainName, ADur (NFReadyTimeout (cfg v))]), w2))"

definition DeleteNetworkFunction :: "'w DPFClient \<Rightarrow> NvidiaVSP \<Rightarrow> NFRequest \<Rightarrow> 'w \<Rightarrow> go_error option \<times> 'w" where
  "DeleteNetworkFunction C v req w =
     (case each_until_err (\<lambda>obj. cDelete C (GVK obj) (Namespace obj) (Name obj))
             (Objects (TranslateNFRequest (NodeName (cfg v)) req)) w of
        (Some (obj, err), w') \<Rightarrow>
          (Some (Errorf ''%w: delete %s: %v'' [AWrap ErrUnavailable, AStr (Name obj), AErr err]), w')
      | (None, w') \<Rightarrow> (None, w'))"

definition offload_object :: "bool \<Rightarrow> DPFObject" where
  "offload_object on =
     \<lparr>GVK = GVKDPUService, Namespace = ManagedNamespace,
      Name = DeterministicName ManagedNamespace ''ovn-offload'' ''accel'',
      Labels = OwnerLabels ''DpuNetworkConfig'' ManagedNamespace ''cluster'',
      Spec = [(''enabled'', VBool on), (''helmChart'', VStr ''ovn-offload'')],
      Conditions = None\<rparr>"

definition SetDpuNetworkConfig :: "'w DPFClient \<Rightarrow> DpuNetworkConfigRequest \<Rightarrow> 'w \<Rightarrow> go_error option \<times> 'w" where
  "SetDpuNetworkConfig C req w =
     (let obj = offload_object (IsAccelerated req) in
      if \<not> IsAccelerated req then cDelete C (GVK obj) (Namespace obj) (Name obj) w
      else cApply C obj w)"

text \<open>\<open>time.Since\<close> reads the monotonic clock; \<open>now\<close> is its value at the call.\<close>

definition Ping :: "NvidiaVSP \<Rightarrow> time \<Rightarrow> PingRequest \<Rightarrow> PingResponse" where
  "Ping v now req =
     \<lparr>pr_Timestamp = Timestamp req, ResponderID = ''nvidia-vsp/'' @ NodeName (cfg v),
      Healthy = (initialized v \<and> now - lastHealthySync v < HealthStaleness (cfg v))\<rparr>"

definition MarkSynced :: "time \<Rightarrow> NvidiaVSP \<Rightarrow> NvidiaVSP" where
  "MarkSynced t v = v\<lparr>lastHealthySync := t\<rparr>"

section \<open>The contract of client and host, and the demo daemon\<close>

text \<open>
  What the waits need of the host: no call turns the clock back, and a sleep lasts at least as
  long as asked.
\<close>

locale vsp_host =
  fixes C :: "'w DPFClient" and H :: "'w Host"
  assumes now_sleep: "0 \<le> d \<Longrightarrow> h_now H w + d \<le> h_now H (h_sleep H d w)"
    and now_vfs: "h_list_vfs H w = (r, w') \<Longrightarrow> h_now H w \<le> h_now H w'"
    and now_get: "cGet C g ns n w = (r', w') \<Longrightarrow> h_now H w \<le> h_now H w'"
begin

lemma bounded_wait:
  assumes "0 < p" and body: "\<And>w r w'. body w = (r, w') \<Longrightarrow> h_now H w \<le> h_now H w'"
  shows "\<exists>r. poll_until (\<lambda>w. h_now H w < deadline) body (h_sleep H p) w = Some r"
proof (rule poll_until_terminates [where P = "\<lambda>_. True" and m = "\<lambda>w. nat (deadline - h_now H w)"])
  fix w w'
  assume "h_now H w < deadline" and "body w = (None, w')"
  with body [OF this(2)] now_sleep [of p w'] \<open>0 < p\<close>
  show "True \<and> nat (deadline - h_now H (h_sleep H p w')) < nat (deadline - h_now H w)"
    by simp
qed simp

lemma nf_round_now: "nf_round C H n w = (r, w') \<Longrightarrow> h_now H w \<le> h_now H w'"
  by (auto simp: nf_round_def split: option.splits prod.splits sum.splits if_splits dest: now_get)

lemma vf_round_now: "vf_round H req w = (r, w') \<Longrightarrow> h_now H w \<le> h_now H w'"
  by (auto simp: vf_round_def split: option.splits prod.splits if_splits dest: now_vfs)

lemma after_wait:
  assumes "\<exists>r. m = Some r" and "\<And>w. \<exists>r. g w = Some r"
  shows "\<exists>r. (case m of None \<Rightarrow> None | Some (None, w) \<Rightarrow> g w | Some (Some x, w) \<Rightarrow> Some (x, w)) = Some r"
  using assms by (auto split: option.split)

lemma create_returns:
  assumes "0 < PollInterval (cfg v)"
  shows "\<exists>r. CreateNetworkFunction C H v req w = Some r"
proof (cases "each_until_err (cApply C) (Objects (TranslateNFRequest (NodeName (cfg v)) req)) w")
  case (Pair a w1)
  then show ?thesis
    unfolding CreateNetworkFunction_def Let_def Pair prod.case
    by (cases a) (simp_all add: after_wait bounded_wait [OF assms nf_round_now] split: prod.split del: split_paired_Ex)
qed

lemma set_vfs_returns:
  assumes "0 < PollInterval (cfg v)"
  shows "\<exists>r. SetNumVfs C H v req w = Some r"
proof (cases "cApply C (vf_request_object (NodeName (cfg v)) req) w")
  case (Pair a w1)
  show ?thesis
  proof (cases a)
    case None
    with Pair show ?thesis
      unfolding SetNumVfs_def Let_def
      by (simp del: split_paired_Ex)
        (rule impI, rule after_wait, rule bounded_wait [OF assms vf_round_now], assumption, simp split: prod.split)
  qed (simp add: SetNumVfs_def Pair Let_def)
qed

end

text \<open>
  The demo daemon of \<open>vspgrpc/demo.go\<close>: no VF is ever allocated, the VFs are numbered addresses,
  and the client is the in-memory one.  The world adds a clock that only sleeping moves.
\<close>

record sim = mem +
  clock :: time

definition demo_AllocatedVFs :: int32 where "demo_AllocatedVFs = 0"

definition demo_ListVFs :: "nat \<Rightarrow> string list \<times> go_error option" where
  "demo_ListVFs count = (map (\<lambda>i. ''0000:03:00.'' @ itoa (int i)) [0..<count], None)"

definition sim_host :: "nat \<Rightarrow> sim Host" where
  "sim_host count =
     \<lparr>h_now = clock, h_sleep = (\<lambda>d w. w\<lparr>clock := clock w + (if 0 < d then d else 0)\<rparr>),
      h_ctx_err = (\<lambda>_. None), h_allocated = (\<lambda>_. demo_AllocatedVFs),
      h_list_vfs = (\<lambda>w. (demo_ListVFs count, w))\<rparr>"

definition NewDemoVSP :: "string \<Rightarrow> nat \<Rightarrow> sim \<Rightarrow> NvidiaVSP" where
  "NewDemoVSP node vfCount w =
     (let c = DefaultVSPConfig node
      in NewNvidiaVSP (sim_host vfCount)
           (c\<lparr>NFReadyTimeout := 3 * second, VFActuationTimeout := 2 * second,
              PollInterval := 10 * millisecond\<rparr>) w)"

definition ready_condition :: Condition where
  "ready_condition = \<lparr>Type = ''Ready'', Status = True, Reason = '''', Message = Text ''''\<rparr>"

definition SeedDemoCluster :: "'w DPFClient \<Rightarrow> string \<Rightarrow> 'w \<Rightarrow> go_error option \<times> 'w" where
  "SeedDemoCluster C node =
     cApply C \<lparr>GVK = GVKDPU, Namespace = ManagedNamespace, Name = ''dpu-'' @ node, Labels = [],
       Spec = [(''nodeName'', VStr node)], Conditions = Some [ready_condition]\<rparr>"

definition SeedNFReady :: "'w DPFClient \<Rightarrow> string \<Rightarrow> NFRequest \<Rightarrow> 'w \<Rightarrow> go_error option \<times> 'w" where
  "SeedNFReady C node req w =
     (case each_until_err (\<lambda>obj. cApply C (obj\<lparr>Conditions := Some [ready_condition]\<rparr>))
             (Objects (TranslateNFRequest node req)) w of
        (Some (_, err), w') \<Rightarrow> (Some err, w')
      | (None, w') \<Rightarrow> (None, w'))"

interpretation sim: vsp_host mem_client "sim_host count" for count
  by unfold_locales (auto simp: sim_host_def mem_client_def mem_Get_def split: option.splits)

lemma sim_host_simps [simp]:
  "h_now (sim_host count) = clock" "h_ctx_err (sim_host count) w = None"
  "h_allocated (sim_host count) w = 0" "h_list_vfs (sim_host count) w = (demo_ListVFs count, w)"
  "h_sleep (sim_host count) d w = w\<lparr>clock := clock w + (if 0 < d then d else 0)\<rparr>"
  by (simp_all add: sim_host_def demo_AllocatedVFs_def)

section \<open>Properties: lifecycle and devices\<close>

context dpf_store
begin

lemma list_ex_listed:
  assumes "ok w" and "cList C g ns sel w = (Inr xs, w')"
  shows "list_ex P xs \<longleftrightarrow> (\<exists>x \<in> ran (view w). selects g ns sel x \<and> P x)"
  using list_set [OF assms] by (auto simp: list_ex_iff)

lemma Init_cases:
  assumes "ok w" and "Init C v req w = (r, v', w')"
  shows "ok w' \<and> view w' = view w \<and>
    (case r of
       Inr ep \<Rightarrow> \<not> DpuMode req \<and> (\<exists>x \<in> ran (view w). GVK x = GVKDPU \<and> dpu_ready_on (NodeName (cfg v)) x) \<and>
         v' = v\<lparr>initialized := True\<rparr>
     | Inl e \<Rightarrow> v' = v \<and>
         (errors_Is e ErrUnimplemented \<longleftrightarrow> DpuMode req) \<and>
         (errors_Is e ErrFailedPrecondition \<longrightarrow>
            (\<forall>x \<in> ran (view w). GVK x = GVKDPU \<longrightarrow> \<not> dpu_ready_on (NodeName (cfg v)) x)))"
proof (cases "DpuMode req")
  case True
  with assms show ?thesis by (auto simp: Init_def errors_Is_wrap_sentinel sentinel_defs)
next
  case False
  obtain res w1 where l: "cList C GVKDPU '''' [] w = (res, w1)" by fastforce
  have frame: "ok w1 \<and> view w1 = view w" by (rule list_frame [OF assms(1) l])
  show ?thesis
  proof (cases res)
    case (Inl err)
    with assms(2) False l frame show ?thesis
      by (auto simp: Init_def errors_Is_wrap_sentinel sentinel_defs)
  next
    case (Inr xs)
    with l have "cList C GVKDPU '''' [] w = (Inr xs, w1)" by simp
    from list_ex_listed [OF assms(1) this] assms(2) False this frame show ?thesis
      by (auto simp: Init_def errors_Is_wrap_sentinel sentinel_defs selects_def split: if_splits)
  qed
qed

end

text \<open>
  C9.  \<open>Init\<close> fails closed: against the in-memory store it succeeds exactly when the daemon runs
  in host mode and some DPU object stored for this node is ready; then, and only then, the
  adapter becomes initialised, and no call of it changes the store.
\<close>

theorem Init_fail_closed:
  assumes "mem_ok w" and "Init mem_client v req w = (r, v', w')"
  shows "((\<exists>ep. r = Inr ep) \<longleftrightarrow>
       \<not> DpuMode req \<and> (\<exists>x \<in> ran (mem_view w). GVK x = GVKDPU \<and> dpu_ready_on (NodeName (cfg v)) x)) \<and>
     v' = (if isl r then v else v\<lparr>initialized := True\<rparr>) \<and> mem_view w' = mem_view w"
proof -
  obtain xs where "mem_List GVKDPU '''' [] w = (Inr xs, w)" by (simp add: mem_List_eq)
  then have l: "cList mem_client GVKDPU '''' [] w = (Inr xs, w)" by (simp add: mem_client_def)
  from mem.list_ex_listed [OF assms(1) l, of "dpu_ready_on (NodeName (cfg v))"] assms(2) l show ?thesis
    by (auto simp: Init_def selects_def split: if_splits)
qed

definition sim0 :: sim where
  "sim0 = \<lparr>objects = [], clock = 0\<rparr>"

lemma Init_fail_closed_witness:
  "\<not> isl (fst (Init mem_client (NewDemoVSP ''node-1'' 4 sim0) \<lparr>DpuMode = False, DpuIdentifier = ''''\<rparr>
       (snd (SeedDemoCluster mem_client ''node-1'' sim0)))) \<and>
   isl (fst (Init mem_client (NewDemoVSP ''node-1'' 4 sim0) \<lparr>DpuMode = False, DpuIdentifier = ''''\<rparr> sim0))"
proof -
  define w where "w = snd (SeedDemoCluster mem_client ''node-1'' sim0)"
  have "mem_ok sim0" by (simp add: mem_ok_def sim0_def)
  have w: "mem_view w = [object_key GVKDPU ManagedNamespace ''dpu-node-1'' \<mapsto>
       \<lparr>GVK = GVKDPU, Namespace = ManagedNamespace, Name = ''dpu-node-1'', Labels = [],
        Spec = [(''nodeName'', VStr ''node-1'')], Conditions = Some [ready_condition]\<rparr>]"
    by (simp add: w_def SeedDemoCluster_def mem_client_def mem_Apply_eq mem_view_def sim0_def
        with_status_def Key_object_key)
  have "mem_ok w"
    unfolding w_def SeedDemoCluster_def
    using \<open>mem_ok sim0\<close> by (metis mem.apply_ok prod.collapse)
  define v where "v = NewDemoVSP ''node-1'' 4 sim0"
  have node: "NodeName (cfg v) = ''node-1''"
    by (simp add: v_def NewDemoVSP_def NewNvidiaVSP_def DefaultVSPConfig_def Let_def)
  have "\<exists>ep. fst (Init mem_client v \<lparr>DpuMode = False, DpuIdentifier = ''''\<rparr> w) = Inr ep"
    using Init_fail_closed [OF \<open>mem_ok w\<close>, of v "\<lparr>DpuMode = False, DpuIdentifier = ''''\<rparr>"]
    by (cases "Init mem_client v \<lparr>DpuMode = False, DpuIdentifier = ''''\<rparr> w")
      (simp add: w node dpu_ready_on_def IsReady_def conditions_of_def ready_condition_def)
  moreover have "\<nexists>ep. fst (Init mem_client v \<lparr>DpuMode = False, DpuIdentifier = ''''\<rparr> sim0) = Inr ep"
    using Init_fail_closed [OF \<open>mem_ok sim0\<close>, of v "\<lparr>DpuMode = False, DpuIdentifier = ''''\<rparr>"]
    by (cases "Init mem_client v \<lparr>DpuMode = False, DpuIdentifier = ''''\<rparr> sim0")
      (simp add: mem_view_def sim0_def)
  ultimately show ?thesis
    unfolding v_def w_def by (metis isl_def sum.disc(2) sum.exhaust_disc sum.collapse(2))
qed

text \<open>
  The device list has one entry per enumerated VF address, whatever the enumeration repeats;
  every entry names this node, and all are healthy exactly when the store holds a ready DPU object
  for the node.
\<close>

theorem GetDevices_spec:
  assumes "mem_ok w" and "GetDevices mem_client H v w = (Inr resp, w')"
  shows "\<exists>w1 pcis. h_list_vfs H w = ((pcis, None), w1) \<and>
     map_of (Devices resp) = (\<lambda>pci. if pci \<in> set pcis
       then Some \<lparr>ID = pci,
              Health = (if \<exists>x \<in> ran (mem_view w). GVK x = GVKDPU \<and> dpu_ready_on (NodeName (cfg v)) x
                        then ''Healthy'' else ''Unhealthy''),
              Topology = \<lparr>Node = NodeName (cfg v)\<rparr>\<rparr>
       else None)"
proof -
  obtain xs where "mem_List GVKDPU '''' [] w = (Inr xs, w)" by (simp add: mem_List_eq)
  then have l: "cList mem_client GVKDPU '''' [] w = (Inr xs, w)" by (simp add: mem_client_def)
  from mem.list_ex_listed [OF assms(1) l, of "dpu_ready_on (NodeName (cfg v))"] assms(2) l show ?thesis
    by (cases "h_list_vfs H w")
      (auto simp: GetDevices_def selects_def Let_def map_of_fold_update fun_eq_iff split: prod.splits option.splits)
qed

lemma GetDevices_spec_witness:
  "\<exists>resp. GetDevices mem_client (sim_host 1) (NewDemoVSP ''n'' 1 sim0) sim0 = (Inr resp, sim0) \<and>
     Health (the (map_of (Devices resp) ''0000:03:00.0'')) = ''Unhealthy''"
proof -
  define v where "v = NewDemoVSP ''n'' 1 sim0"
  have vfs: "demo_ListVFs 1 = ([''0000:03:00.0''], None)"
    by (simp add: demo_ListVFs_def itoa_def decimal.simps)
  have "mem_ok sim0" by (simp add: mem_ok_def sim0_def)
  obtain resp where r: "GetDevices mem_client (sim_host 1) v sim0 = (Inr resp, sim0)"
    by (simp add: GetDevices_def mem_client_def mem_List_eq vfs [unfolded One_nat_def] Let_def)
  from GetDevices_spec [OF \<open>mem_ok sim0\<close> r] vfs
  have "Health (the (map_of (Devices resp) ''0000:03:00.0'')) = ''Unhealthy''"
    by (simp add: mem_view_def sim0_def)
  with r show ?thesis unfolding v_def by blast
qed

section \<open>Properties: the bounded waits\<close>

lemma vf_round_hit:
  assumes "vf_round H req w = (Some r, w')"
  shows "(\<exists>err. h_ctx_err H w = Some err \<and> r = (\<lparr>VfCnt = 0\<rparr>, Some err)) \<or>
     (r = (req, None) \<and> (\<exists>pcis. h_list_vfs H w = ((pcis, None), w') \<and> of_nat (length pcis) = VfCnt req))"
  using assms by (cases req) (auto simp: vf_round_def split: option.splits prod.splits if_splits)

lemma set_vfs_cases:
  assumes "SetNumVfs C H v req w = Some ((n, err), w')"
  shows "case err of
       None \<Rightarrow> n = req \<and> sint (h_allocated H w) \<le> sint (VfCnt req) \<and>
         (\<exists>w0 pcis. h_list_vfs H w0 = ((pcis, None), w') \<and> of_nat (length pcis) = VfCnt req)
     | Some e \<Rightarrow>
         (sint (VfCnt req) < sint (h_allocated H w) \<and> errors_Is e ErrFailedPrecondition \<and> \<not> errors_Is e ErrUnavailable \<and> w' = w) \<or>
         (sint (h_allocated H w) \<le> sint (VfCnt req) \<and>
           (errors_Is e ErrUnavailable \<or> (\<exists>w0. h_ctx_err H w0 = Some e)))"
proof (cases "sint (VfCnt req) < sint (h_allocated H w)")
  case True
  with assms show ?thesis
    by (auto simp: SetNumVfs_def Let_def errors_Is_wrap_sentinel ErrFailedPrecondition_def ErrUnavailable_def plain_arg_def)
next
  case guard: False
  obtain a w1 where a: "cApply C (vf_request_object (NodeName (cfg v)) req) w = (a, w1)" by fastforce
  show ?thesis
  proof (cases a)
    case (Some e)
    with assms guard a show ?thesis by (auto simp: SetNumVfs_def Let_def)
  next
    case None
    let ?poll = "poll_until (\<lambda>w. h_now H w < h_now H w1 + VFActuationTimeout (cfg v)) (vf_round H req)
        (h_sleep H (PollInterval (cfg v))) w1"
    let ?Q = "\<lambda>r w'. (\<exists>w0 err. h_ctx_err H w0 = Some err \<and> r = (\<lparr>VfCnt = 0\<rparr>, Some err)) \<or>
        (r = (req, None) \<and> (\<exists>w0 pcis. h_list_vfs H w0 = ((pcis, None), w') \<and> of_nat (length pcis) = VfCnt req))"
    obtain r w2 where p: "?poll = Some (r, w2)"
      using assms guard a None by (auto simp: SetNumVfs_def Let_def split: option.splits)
    have post: "case (r, w2) of (None, u) \<Rightarrow> True \<and> \<not> h_now H u < h_now H w1 + VFActuationTimeout (cfg v)
        | (Some x, u) \<Rightarrow> ?Q x u"
      by (rule poll_until_post [OF p, of "\<lambda>_. True" ?Q]) (simp, simp, drule vf_round_hit, blast)
    from assms guard a None p post show ?thesis
      by (cases r) (auto simp: SetNumVfs_def Let_def split: prod.splits option.splits)
  qed
qed

text \<open>
  C10.  What \<open>SetNumVfs\<close> returns, for every client and host: a request below the allocated count is
  refused with \<open>FAILED_PRECONDITION\<close> before anything is written; success is reported only with the
  requested count, and only when the last enumeration really listed that many functions; every
  other error is \<open>UNAVAILABLE\<close> or the context's own.
\<close>

theorem SetNumVfs_outcome:
  assumes "SetNumVfs C H v req w = Some ((n, err), w')"
  shows "case err of
       None \<Rightarrow> n = req \<and> sint (h_allocated H w) \<le> sint (VfCnt req) \<and>
         (\<exists>w0 pcis. h_list_vfs H w0 = ((pcis, None), w') \<and> of_nat (length pcis) = VfCnt req)
     | Some e \<Rightarrow>
         (sint (VfCnt req) < sint (h_allocated H w) \<and> errors_Is e ErrFailedPrecondition \<and> w' = w) \<or>
         (sint (h_allocated H w) \<le> sint (VfCnt req) \<and>
           (errors_Is e ErrUnavailable \<or> (\<exists>w0. h_ctx_err H w0 = Some e)))"
  using set_vfs_cases [OF assms] by (auto split: option.splits)

lemma mem_apply_clock: "clock (snd (mem_Apply x w)) = clock w"
  by (simp add: mem_Apply_eq)

lemma sim_view_clock [simp]: "mem_view (w\<lparr>clock := t\<rparr>) = mem_view w" "mem_ok (w\<lparr>clock := t\<rparr>) = mem_ok w"
  by (simp_all add: mem_view_def mem_ok_def)

lemma length_demo_ListVFs: "length (fst (demo_ListVFs n)) = n"
  by (simp add: demo_ListVFs_def)

lemma demo_cfg [simp]:
  "NodeName (cfg (NewDemoVSP node n w)) = node" "PollInterval (cfg (NewDemoVSP node n w)) = 10000000"
  "NFReadyTimeout (cfg (NewDemoVSP node n w)) = 3000000000"
  "VFActuationTimeout (cfg (NewDemoVSP node n w)) = 2000000000"
  by (simp_all add: NewDemoVSP_def NewNvidiaVSP_def DefaultVSPConfig_def Let_def go_simps)

lemma SetNumVfs_outcome_witness:
  "\<exists>w'. SetNumVfs mem_client (sim_host 2) (NewDemoVSP ''n'' 2 sim0) \<lparr>VfCnt = 2\<rparr> sim0 =
       Some ((\<lparr>VfCnt = 2\<rparr>, None), w') \<and> (\<exists>w0 pcis. h_list_vfs (sim_host 2) w0 = ((pcis, None), w') \<and> length pcis = 2)"
proof -
  let ?v = "NewDemoVSP ''n'' 2 sim0"
  obtain w1 where a: "cApply mem_client (vf_request_object ''n'' \<lparr>VfCnt = 2\<rparr>) sim0 = (None, w1)" and "clock w1 = 0"
    by (simp add: mem_client_def mem_Apply_eq sim0_def)
  have l: "demo_ListVFs 2 = (fst (demo_ListVFs 2), None)" by (simp add: demo_ListVFs_def)
  have body: "vf_round (sim_host 2) \<lparr>VfCnt = 2\<rparr> w1 = (Some (\<lparr>VfCnt = 2\<rparr>, None), w1)"
    by (subst vf_round_def, simp, subst l) (simp add: length_demo_ListVFs)
  have ret: "SetNumVfs mem_client (sim_host 2) ?v \<lparr>VfCnt = 2\<rparr> sim0 = Some ((\<lparr>VfCnt = 2\<rparr>, None), w1)"
    by (simp add: SetNumVfs_def a \<open>clock w1 = 0\<close>, subst poll_until.simps) (simp add: body \<open>clock w1 = 0\<close>)
  from SetNumVfs_outcome [OF ret] have "\<exists>w0 pcis. h_list_vfs (sim_host 2) w0 = ((pcis, None), w1)" by auto
  then show ?thesis using ret l length_demo_ListVFs [of 2] by auto
qed

lemma plan_chain [simp]:
  "Objects (TranslateNFRequest node req) ! (length (Objects (TranslateNFRequest node req)) - Suc 0) =
     last (Objects (TranslateNFRequest node req))"
  by (simp add: TranslateNFRequest_def Let_def)

lemma create_cases:
  assumes "CreateNetworkFunction C H v req w = Some (err, w')"
  shows "case err of
       None \<Rightarrow> (\<exists>w0 chain. h_ctx_err H w0 = None \<and> IsReady chain \<and>
         cGet C GVKDPUServiceChain ManagedNamespace
           (Name (last (Objects (TranslateNFRequest (NodeName (cfg v)) req)))) w0 = (Inr chain, w'))
     | Some e \<Rightarrow> errors_Is e ErrUnavailable \<or> (\<exists>w0. h_ctx_err H w0 = Some e)"
proof -
  let ?plan = "Objects (TranslateNFRequest (NodeName (cfg v)) req)"
  let ?n = "Name (last ?plan)"
  obtain a w1 where a: "each_until_err (cApply C) ?plan w = (a, w1)" by fastforce
  show ?thesis
  proof (cases a)
    case (Some oe)
    with assms a show ?thesis by (cases oe) (auto simp: CreateNetworkFunction_def Let_def)
  next
    case None
    let ?Q = "\<lambda>r w'. case r of None \<Rightarrow> (\<exists>w0 chain. h_ctx_err H w0 = None \<and> IsReady chain \<and>
          cGet C GVKDPUServiceChain ManagedNamespace ?n w0 = (Inr chain, w'))
        | Some e \<Rightarrow> (\<exists>w0. h_ctx_err H w0 = Some e)"
    have hit: "?Q x u'" if "nf_round C H ?n u = (Some x, u')" for x u u'
      using that by (auto simp: nf_round_def split: option.splits sum.splits prod.splits if_splits)
    obtain r w2 where p: "poll_until (\<lambda>w. h_now H w < h_now H w1 + NFReadyTimeout (cfg v)) (nf_round C H ?n)
        (h_sleep H (PollInterval (cfg v))) w1 = Some (r, w2)"
      using assms a None by (auto simp: CreateNetworkFunction_def Let_def split: option.splits)
    have "case (r, w2) of (None, u) \<Rightarrow> True \<and> \<not> h_now H u < h_now H w1 + NFReadyTimeout (cfg v)
        | (Some x, u) \<Rightarrow> ?Q x u"
      by (rule poll_until_post [OF p, of "\<lambda>_. True" ?Q]) (simp, simp, drule hit)
    with assms a None p show ?thesis
      by (cases r) (auto simp: CreateNetworkFunction_def Let_def split: option.splits)
  qed
qed

text \<open>
  The imperative attach reports success only after it read, as its last act, a generated chain
  that was Ready; every error is \<open>UNAVAILABLE\<close>, which the caller retries, or the context's own.
\<close>

theorem CreateNetworkFunction_outcome:
  assumes "CreateNetworkFunction C H v req w = Some (err, w')"
  shows "case err of
       None \<Rightarrow> (\<exists>w0 chain. h_ctx_err H w0 = None \<and> IsReady chain \<and>
         cGet C GVKDPUServiceChain ManagedNamespace
           (Name (last (Objects (TranslateNFRequest (NodeName (cfg v)) req)))) w0 = (Inr chain, w'))
     | Some e \<Rightarrow> errors_Is e ErrUnavailable \<or> (\<exists>w0. h_ctx_err H w0 = Some e)"
  using create_cases [OF assms] .

text \<open>
  Both waits end: with a positive poll interval, a clock that is never turned back and sleeps
  that last as long as asked, \<open>SetNumVfs\<close> and \<open>CreateNetworkFunction\<close> return, whatever client, host
  and readiness.
\<close>

theorem bounded_waits_return:
  assumes "vsp_host C H" and "0 < PollInterval (cfg v)"
  shows "(\<exists>r. SetNumVfs C H v req w = Some r) \<and> (\<exists>r. CreateNetworkFunction C H v req' w' = Some r)"
  using vsp_host.set_vfs_returns [OF assms] vsp_host.create_returns [OF assms] by blast

lemma bounded_waits_return_witness:
  "(\<exists>r. SetNumVfs mem_client (sim_host 3) (NewDemoVSP ''n'' 3 sim0) \<lparr>VfCnt = 7\<rparr> sim0 = Some r) \<and>
   (\<exists>r. CreateNetworkFunction mem_client (sim_host 3) (NewDemoVSP ''n'' 3 sim0)
      \<lparr>Input = ''a'', Output = ''b'', BridgeID = ''c''\<rparr> sim0 = Some r)"
  by (rule bounded_waits_return [OF sim.vsp_host_axioms]) simp

section \<open>Properties: the demo daemon\<close>

lemma mem_apply_loop_clock: "clock (snd (each_until_err mem_Apply xs w)) = clock w"
  by (rule each_until_err_inv [where P = "\<lambda>u. clock u = clock w"]) (simp_all add: mem_apply_clock)

lemma mem_apply_loop:
  assumes "mem_ok w"
  obtains w1 where "each_until_err (cApply mem_client) xs w = (None, w1)" and "mem_ok w1"
    and "mem_view w1 = apply_all xs (mem_view w)" and "clock w1 = clock w"
proof -
  obtain a w1 where a: "each_until_err (cApply mem_client) xs w = (a, w1)" by fastforce
  with mem.apply_loop_total [OF assms, of xs] have "a = None" by simp
  with a mem.store_apply_loop [OF assms] mem_apply_loop_clock [of xs w] show thesis
    by (auto intro: that simp: mem_client_def)
qed

definition chain_ready :: "string \<Rightarrow> NFRequest \<Rightarrow> 'z mem_scheme \<Rightarrow> bool" where
  "chain_ready node req w =
     (case mem_view w (Key (last (Objects (TranslateNFRequest node req)))) of Some x \<Rightarrow> IsReady x | None \<Rightarrow> False)"

lemma nf_round_sim:
  "nf_round mem_client (sim_host n) (Name (last (Objects (TranslateNFRequest node req)))) w =
     (if chain_ready node req w then Some None else None, w)"
proof -
  have "Key (last (Objects (TranslateNFRequest node req))) =
      object_key GVKDPUServiceChain ManagedNamespace (Name (last (Objects (TranslateNFRequest node req))))"
    by (simp add: TranslateNFRequest_def Let_def Key_object_key)
  then show ?thesis
    by (auto simp: nf_round_def chain_ready_def mem_client_def mem_Get_eq split: option.split)
qed

lemma IsReady_with_status: "Conditions x = None \<Longrightarrow>
    IsReady (with_status old x) = (case old of Some e \<Rightarrow> IsReady e | None \<Rightarrow> False)"
  by (auto simp: with_status_def IsReady_def conditions_of_def split: option.split)

lemma chain_ready_applied:
  assumes "mem_view w1 = apply_all (Objects (TranslateNFRequest node req)) (mem_view w)"
  shows "chain_ready node req w1 = chain_ready node req w"
proof -
  obtain xs x where p: "Objects (TranslateNFRequest node req) = xs @ [x]" "Conditions x = None" "Key x \<notin> Key ` set xs"
  proof -
    have "distinct (map Key (Objects (TranslateNFRequest node req)))"
      unfolding TranslateNFRequest_keys by (simp add: object_key_def go_simps)
    then show thesis
      by (intro that [of "butlast (Objects (TranslateNFRequest node req))" "last (Objects (TranslateNFRequest node req))"])
        (auto simp: TranslateNFRequest_def Let_def)
  qed
  with assms show ?thesis
    by (simp add: chain_ready_def apply_all_append apply_view_def apply_all_other IsReady_with_status
        split: option.split)
qed

lemma create_sim_ready:
  assumes "mem_ok w" and "0 < NFReadyTimeout (cfg v)" and ready: "chain_ready (NodeName (cfg v)) req w"
  shows "\<exists>w1. CreateNetworkFunction mem_client (sim_host n) v req w = Some (None, w1) \<and> clock w1 = clock w"
proof -
  let ?plan = "Objects (TranslateNFRequest (NodeName (cfg v)) req)"
  obtain w1 where a: "each_until_err (cApply mem_client) ?plan w = (None, w1)"
    and view: "mem_view w1 = apply_all ?plan (mem_view w)" and clock: "clock w1 = clock w"
    by (rule mem_apply_loop [OF assms(1)])
  have "poll_until (\<lambda>u. h_now (sim_host n) u < h_now (sim_host n) w1 + NFReadyTimeout (cfg v))
      (nf_round mem_client (sim_host n) (Name (last ?plan))) (h_sleep (sim_host n) (PollInterval (cfg v))) w1 =
      Some (Some None, w1)"
    using ready assms(2) chain_ready_applied [OF view] by (intro poll_until_hit) (simp_all add: nf_round_sim)
  with a clock show ?thesis by (simp add: CreateNetworkFunction_def Let_def)
qed

text \<open>Whatever it returns, the attach leaves the store as the plan's applies left it.\<close>

lemma create_sim_view:
  assumes "mem_ok w" and "CreateNetworkFunction mem_client (sim_host n) v req w = Some (err, w')"
  shows "mem_ok w' \<and> mem_view w' = apply_all (Objects (TranslateNFRequest (NodeName (cfg v)) req)) (mem_view w)"
proof -
  let ?plan = "Objects (TranslateNFRequest (NodeName (cfg v)) req)"
  obtain w1 where a: "each_until_err (cApply mem_client) ?plan w = (None, w1)" and ok: "mem_ok w1"
    and view: "mem_view w1 = apply_all ?plan (mem_view w)"
    by (rule mem_apply_loop [OF assms(1)])
  let ?P = "\<lambda>u. mem_ok u \<and> mem_view u = mem_view w1"
  obtain r w2 where p: "poll_until (\<lambda>u. h_now (sim_host n) u < h_now (sim_host n) w1 + NFReadyTimeout (cfg v))
      (nf_round mem_client (sim_host n) (Name (last ?plan))) (h_sleep (sim_host n) (PollInterval (cfg v))) w1 =
      Some (r, w2)"
    using assms(2) a by (auto simp: CreateNetworkFunction_def Let_def split: option.splits)
  have "case (r, w2) of (None, u) \<Rightarrow> ?P u \<and>
      \<not> h_now (sim_host n) u < h_now (sim_host n) w1 + NFReadyTimeout (cfg v) | (Some x, u) \<Rightarrow> ?P u"
    by (rule poll_until_post [OF p, of ?P "\<lambda>_. ?P"]) (use ok in \<open>auto simp: nf_round_sim split: if_splits\<close>)
  with assms(2) a p view show ?thesis
    by (cases r) (auto simp: CreateNetworkFunction_def Let_def split: option.splits)
qed

text \<open>
  In the demo daemon the attach stores exactly the plan; it succeeds at once when the stored
  chain was already Ready, and otherwise fails with \<open>UNAVAILABLE\<close> no earlier than the timeout and
  less than one poll interval after it.
\<close>

theorem CreateNetworkFunction_demo:
  assumes "mem_ok w" and "0 < PollInterval (cfg v)" and "0 < NFReadyTimeout (cfg v)"
  shows "\<exists>err w'. CreateNetworkFunction mem_client (sim_host n) v req w = Some (err, w') \<and>
     mem_view w' = apply_all (Objects (TranslateNFRequest (NodeName (cfg v)) req)) (mem_view w) \<and>
     (if chain_ready (NodeName (cfg v)) req w then err = None \<and> clock w' = clock w
      else (\<exists>e. err = Some e \<and> errors_Is e ErrUnavailable) \<and>
        clock w + NFReadyTimeout (cfg v) \<le> clock w' \<and>
        clock w' < clock w + NFReadyTimeout (cfg v) + PollInterval (cfg v))"
proof -
  let ?plan = "Objects (TranslateNFRequest (NodeName (cfg v)) req)"
  obtain w1 where a: "each_until_err (cApply mem_client) ?plan w = (None, w1)" and "mem_ok w1"
    and view: "mem_view w1 = apply_all ?plan (mem_view w)" and clock: "clock w1 = clock w"
    by (rule mem_apply_loop [OF assms(1)])
  have ready: "chain_ready (NodeName (cfg v)) req w1 = chain_ready (NodeName (cfg v)) req w"
    by (rule chain_ready_applied [OF view])
  let ?go = "\<lambda>u. h_now (sim_host n) u < h_now (sim_host n) w1 + NFReadyTimeout (cfg v)"
  let ?body = "nf_round mem_client (sim_host n) (Name (last ?plan))"
  let ?pause = "h_sleep (sim_host n) (PollInterval (cfg v))"
  show ?thesis
  proof (cases "chain_ready (NodeName (cfg v)) req w")
    case True
    then have "poll_until ?go ?body ?pause w1 = Some (Some None, w1)"
      using ready assms(3) by (intro poll_until_hit) (simp_all add: nf_round_sim)
    with True a view clock show ?thesis
      by (simp add: CreateNetworkFunction_def Let_def)
  next
    case False
    have "\<exists>rv. poll_until ?go ?body ?pause w1 = Some rv"
      by (rule sim.bounded_wait [OF assms(2)], rule sim.nf_round_now)
    then obtain r w2 where p: "poll_until ?go ?body ?pause w1 = Some (r, w2)" by auto
    let ?P = "\<lambda>u. mem_view u = mem_view w1 \<and> clock u < clock w + NFReadyTimeout (cfg v) + PollInterval (cfg v)"
    have no: "\<not> chain_ready (NodeName (cfg v)) req u" if "mem_view u = mem_view w1" for u
      using that False ready by (simp add: chain_ready_def)
    have "case (r, w2) of (None, u) \<Rightarrow> ?P u \<and> \<not> ?go u | (Some x, u) \<Rightarrow> False"
    proof (rule poll_until_post [OF p, of ?P "\<lambda>_ _. False"])
      show "?P w1" using clock assms(2,3) by simp
    qed (use clock in \<open>auto simp: nf_round_sim split: if_splits dest: no\<close>)
    with False a view clock p show ?thesis
      by (cases r) (simp_all add: CreateNetworkFunction_def Let_def)
  qed
qed

lemma CreateNetworkFunction_demo_witness:
  "\<exists>e w'. CreateNetworkFunction mem_client (sim_host 4) (NewDemoVSP ''n'' 4 sim0)
       \<lparr>Input = ''a'', Output = ''b'', BridgeID = ''c''\<rparr> sim0 = Some (Some e, w') \<and>
     errors_Is e ErrUnavailable \<and> 3000000000 \<le> clock w' \<and> clock w' < 3010000000"
proof -
  have "mem_ok sim0" by (simp add: mem_ok_def sim0_def)
  from CreateNetworkFunction_demo [OF this, of "NewDemoVSP ''n'' 4 sim0" 4 "\<lparr>Input = ''a'', Output = ''b'', BridgeID = ''c''\<rparr>"]
  show ?thesis by (auto simp: chain_ready_def mem_view_def sim0_def)
qed

lemma CreateNetworkFunction_outcome_witness:
  defines "req \<equiv> \<lparr>Input = ''a'', Output = ''b'', BridgeID = ''c''\<rparr>"
  defines "chain \<equiv> last (Objects (TranslateNFRequest ''n'' req))"
  defines "w \<equiv> snd (mem_Apply (chain\<lparr>Conditions := Some [ready_condition]\<rparr>) sim0)"
  shows "\<exists>w' w0 x. CreateNetworkFunction mem_client (sim_host 4) (NewDemoVSP ''n'' 4 sim0) req w = Some (None, w') \<and>
    mem_Get GVKDPUServiceChain ManagedNamespace (Name chain) w0 = (Inr x, w') \<and> IsReady x"
proof -
  have ok: "mem_ok sim0" by (simp add: mem_ok_def sim0_def)
  then have "mem_ok w" unfolding w_def mem_Apply_eq by (simp add: mem_ok_update)
  moreover have "chain_ready ''n'' req w"
    by (simp add: chain_ready_def chain_def [symmetric] w_def mem_Apply_eq mem_view_def with_status_def
        IsReady_def conditions_of_def ready_condition_def sim0_def)
  ultimately obtain w' where r: "CreateNetworkFunction mem_client (sim_host 4) (NewDemoVSP ''n'' 4 sim0) req w = Some (None, w')"
    using create_sim_ready [of w "NewDemoVSP ''n'' 4 sim0" req 4] by auto
  from CreateNetworkFunction_outcome [OF r] r show ?thesis
    by (auto simp: mem_client_def chain_def)
qed

text \<open>
  C11.  Detaching undoes attaching, however the attach ended: it succeeds, removes the objects of
  the plan and nothing else, and doing it again changes nothing.
\<close>

theorem attach_detach:
  assumes "mem_ok w" and "CreateNetworkFunction mem_client (sim_host n) v req w = Some (err, w1)"
    and "DeleteNetworkFunction mem_client v req w1 = (e2, w2)"
    and "DeleteNetworkFunction mem_client v req w2 = (e3, w3)"
  shows "e2 = None \<and> e3 = None \<and>
    mem_view w2 = delete_all (Objects (TranslateNFRequest (NodeName (cfg v)) req)) (mem_view w) \<and>
    mem_view w3 = mem_view w2"
proof -
  let ?plan = "Objects (TranslateNFRequest (NodeName (cfg v)) req)"
  have del: "e = None \<and> mem_ok u' \<and> mem_view u' = delete_all ?plan (mem_view u)"
    if "mem_ok u" and "DeleteNetworkFunction mem_client v req u = (e, u')" for u e u'
  proof -
    obtain a u1 where l: "each_until_err (\<lambda>x. cDelete mem_client (GVK x) (Namespace x) (Name x)) ?plan u = (a, u1)"
      by fastforce
    with mem.delete_loop_total [OF that(1), of ?plan] have "a = None" by simp
    with l that mem.store_delete_loop [OF that(1), of ?plan u1] show ?thesis
      by (simp add: DeleteNetworkFunction_def)
  qed
  from create_sim_view [OF assms(1,2)] have ok1: "mem_ok w1"
    and v1: "mem_view w1 = apply_all ?plan (mem_view w)" by auto
  from del [OF ok1 assms(3)] del [OF _ assms(4)] v1 show ?thesis
    by (auto simp: delete_all_def fun_eq_iff apply_all_other)
qed

lemma attach_detach_witness:
  defines "req \<equiv> \<lparr>Input = ''a'', Output = ''b'', BridgeID = ''c''\<rparr>"
  shows "\<exists>err w1. CreateNetworkFunction mem_client (sim_host 4) (NewDemoVSP ''n'' 4 sim0) req sim0 = Some (err, w1) \<and>
    mem_view (snd (DeleteNetworkFunction mem_client (NewDemoVSP ''n'' 4 sim0) req w1)) = mem_view sim0"
proof -
  have ok: "mem_ok sim0" by (simp add: mem_ok_def sim0_def)
  have "\<exists>r. CreateNetworkFunction mem_client (sim_host 4) (NewDemoVSP ''n'' 4 sim0) req sim0 = Some r"
    by (rule sim.create_returns) simp
  then obtain err w1 where r: "CreateNetworkFunction mem_client (sim_host 4) (NewDemoVSP ''n'' 4 sim0) req sim0 = Some (err, w1)"
    by auto
  from attach_detach [OF ok r prod.collapse [symmetric] prod.collapse [symmetric]]
  have "mem_view (snd (DeleteNetworkFunction mem_client (NewDemoVSP ''n'' 4 sim0) req w1)) = mem_view sim0"
    by (auto simp: delete_all_def mem_view_def sim0_def)
  with r show ?thesis by blast
qed

section \<open>Properties: network configuration and heartbeat\<close>

definition offload_key :: string where
  "offload_key = Key (offload_object True)"

lemma SetDpuNetworkConfig_mem:
  assumes "mem_ok w" and "SetDpuNetworkConfig mem_client req w = (e, w')"
  shows "e = None \<and> mem_ok w' \<and>
    mem_view w' = (mem_view w)(offload_key :=
      if IsAccelerated req then Some (with_status (mem_view w offload_key) (offload_object True)) else None)"
proof (cases "IsAccelerated req")
  case True
  then have a: "cApply mem_client (offload_object True) w = (e, w')"
    using assms(2) by (simp add: SetDpuNetworkConfig_def)
  moreover have "e = None" using a mem.apply_total [OF assms(1), of "offload_object True"] by simp
  ultimately show ?thesis
    using True mem.apply_ok [OF assms(1) a] mem.apply_effect [OF assms(1), of "offload_object True" w']
    by (simp add: apply_view_def offload_key_def)
next
  case False
  define o' where "o' = offload_object False"
  have d: "cDelete mem_client (GVK o') (Namespace o') (Name o') w = (e, w')"
    using assms(2) False by (simp add: SetDpuNetworkConfig_def o'_def Let_def)
  moreover have "e = None" using d mem.delete_total [OF assms(1)] by (metis fst_conv)
  moreover have "object_key (GVK o') (Namespace o') (Name o') = offload_key"
    by (simp add: o'_def offload_key_def offload_object_def Key_object_key)
  ultimately show ?thesis
    using False mem.delete_ok [OF assms(1) d] mem.delete_effect [OF assms(1)] by simp
qed

text \<open>
  The last network configuration wins: after any sequence of toggles the offload service is
  stored, enabled, exactly when the last toggle asked for it, every toggle succeeds, and no other
  object is touched.
\<close>

theorem SetDpuNetworkConfig_last_wins:
  assumes "mem_ok w" and "reqs \<noteq> []"
    and "each_until_err (SetDpuNetworkConfig mem_client) reqs w = (e, w')"
  shows "e = None \<and>
    (case mem_view w' offload_key of
       Some x \<Rightarrow> IsAccelerated (last reqs) \<and> map_of (Spec x) ''enabled'' = Some (VBool True)
     | None \<Rightarrow> \<not> IsAccelerated (last reqs)) \<and>
    (\<forall>k. k \<noteq> offload_key \<longrightarrow> mem_view w' k = mem_view w k)"
  using assms
proof (induction reqs arbitrary: w)
  case (Cons r reqs)
  obtain e1 w1 where s: "SetDpuNetworkConfig mem_client r w = (e1, w1)" by fastforce
  note step = SetDpuNetworkConfig_mem [OF Cons.prems(1) s]
  show ?case
  proof (cases "reqs = []")
    case True
    with Cons.prems(3) s step show ?thesis by (auto simp: offload_object_def)
  next
    case False
    moreover have "each_until_err (SetDpuNetworkConfig mem_client) reqs w1 = (e, w')"
      using Cons.prems(3) s step by simp
    ultimately show ?thesis
      using Cons.IH [of w1] step by (cases "mem_view w' offload_key") auto
  qed
qed simp

lemma SetDpuNetworkConfig_last_wins_witness:
  "mem_view (snd (each_until_err (SetDpuNetworkConfig mem_client)
     [\<lparr>IsAccelerated = True\<rparr>, \<lparr>IsAccelerated = False\<rparr>] sim0)) offload_key = None"
proof -
  have "mem_ok sim0" by (simp add: mem_ok_def sim0_def)
  from SetDpuNetworkConfig_last_wins [OF this _ prod.collapse [symmetric],
      of "[\<lparr>IsAccelerated = True\<rparr>, \<lparr>IsAccelerated = False\<rparr>]"]
  show ?thesis by (auto split: option.splits)
qed

text \<open>
  The life of one adapter: constructed, called through \<open>Init\<close>, told of syncs by the informers,
  while the world changes under it.  The list holds the worlds seen, the latest first.
\<close>

inductive vsp_run :: "'w DPFClient \<Rightarrow> 'w Host \<Rightarrow> NvidiaVSPConfig \<Rightarrow> NvidiaVSP \<Rightarrow> 'w list \<Rightarrow> bool"
  for C H c where
  run_new: "vsp_run C H c (NewNvidiaVSP H c w) [w]"
| run_init: "vsp_run C H c v (w # ws) \<Longrightarrow> Init C v req w = (r, v', w') \<Longrightarrow> vsp_run C H c v' (w' # w # ws)"
| run_sync: "vsp_run C H c v ws \<Longrightarrow> vsp_run C H c (MarkSynced t v) ws"
| run_env: "vsp_run C H c v ws \<Longrightarrow> vsp_run C H c v (w' # ws)"

text \<open>
  A healthy heartbeat is earned: whatever happened to the store, it implies that the last
  recorded sync is younger than the staleness bound and that a DPU object for this node was ready
  in some world the adapter saw.
\<close>

theorem Ping_healthy:
  assumes "vsp_run mem_client H c v ws" and "list_all mem_ok ws" and "Healthy (Ping v now req)"
  shows "now - lastHealthySync v < HealthStaleness c \<and>
    (\<exists>u \<in> set ws. \<exists>x \<in> ran (mem_view u). GVK x = GVKDPU \<and> dpu_ready_on (NodeName c) x)"
proof -
  have "cfg v = c \<and> (initialized v \<longrightarrow>
      (\<exists>u \<in> set ws. \<exists>x \<in> ran (mem_view u). GVK x = GVKDPU \<and> dpu_ready_on (NodeName c) x))"
    using assms(1,2)
  proof (induction rule: vsp_run.induct)
    case (run_init v w ws req r v' w')
    then have "mem_ok w" and IH: "cfg v = c \<and> (initialized v \<longrightarrow>
        (\<exists>u \<in> set (w # ws). \<exists>x \<in> ran (mem_view u). GVK x = GVKDPU \<and> dpu_ready_on (NodeName c) x))"
      by auto
    from mem.Init_cases [OF this(1) run_init.hyps(2)] IH show ?case
      by (cases r) auto
  qed (auto simp: NewNvidiaVSP_def MarkSynced_def)
  with assms(3) show ?thesis by (auto simp: Ping_def)
qed

lemma Ping_healthy_witness:
  defines "v \<equiv> NewNvidiaVSP (sim_host 0) (DefaultVSPConfig ''n'') sim0"
  defines "w \<equiv> snd (SeedDemoCluster mem_client ''n'' sim0)"
  shows "\<exists>v' w'. Init mem_client v \<lparr>DpuMode = False, DpuIdentifier = ''''\<rparr> w = (Inr \<lparr>IP = ''127.0.0.1'', Port = 50051\<rparr>, v', w') \<and>
    1000000000 - lastHealthySync v' < 120000000000"
proof -
  let ?q = "\<lparr>DpuMode = False, DpuIdentifier = ''''\<rparr>"
  have ok0: "mem_ok sim0" by (simp add: mem_ok_def sim0_def)
  have ok: "mem_ok w"
    unfolding w_def SeedDemoCluster_def using ok0 by (metis mem.apply_ok prod.collapse)
  have w: "objects w = [(object_key GVKDPU ManagedNamespace ''dpu-n'',
       \<lparr>GVK = GVKDPU, Namespace = ManagedNamespace, Name = ''dpu-n'', Labels = [],
        Spec = [(''nodeName'', VStr ''n'')], Conditions = Some [ready_condition]\<rparr>)]"
    by (simp add: w_def SeedDemoCluster_def mem_client_def mem_Apply_eq mem_view_def sim0_def
        with_status_def Key_object_key)
  have i: "Init mem_client v ?q w = (Inr \<lparr>IP = ''127.0.0.1'', Port = 50051\<rparr>, v\<lparr>initialized := True\<rparr>, w)"
    by (simp add: Init_def mem_client_def mem_List_eq w selects_def dpu_ready_on_def IsReady_def
        conditions_of_def ready_condition_def v_def NewNvidiaVSP_def DefaultVSPConfig_def)
  have "vsp_run mem_client (sim_host 0) (DefaultVSPConfig ''n'') (v\<lparr>initialized := True\<rparr>) [w, w, sim0]"
    by (rule run_init [OF _ i], rule run_env) (simp add: v_def run_new)
  moreover have "Healthy (Ping (v\<lparr>initialized := True\<rparr>) 1000000000 \<lparr>Timestamp = 0, SenderID = ''''\<rparr>)"
    by (simp add: Ping_def v_def NewNvidiaVSP_def DefaultVSPConfig_def sim0_def go_simps)
  moreover have "list_all mem_ok [w, w, sim0]" using ok ok0 by simp
  ultimately have "1000000000 - lastHealthySync (v\<lparr>initialized := True\<rparr>) < HealthStaleness (DefaultVSPConfig ''n'')"
    using Ping_healthy by blast
  with i show ?thesis by (auto simp: DefaultVSPConfig_def go_simps)
qed

end
