(* ===== verification/VspGrpc.thy ===== *)
theory VspGrpc
  imports NvidiaVsp
begin

text \<open>
  \<open>aditya-sarna/vspgrpc/server.go\<close>: the gRPC face of a vendor plugin.  Requests are generated
  messages reached through nil-safe getters, errors become status codes.  The plugin is a record
  of operations over a state; \<open>nvidia_plugin\<close> is the one the daemon mounts.
\<close>

section \<open>The server\<close>

record 's Plugin =
  pInit :: "InitRequest \<Rightarrow> 's \<Rightarrow> (go_error + IpPort) \<times> 's"
  pGetDevices :: "'s \<Rightarrow> (go_error + DeviceListResponse) \<times> 's"
  pSetNumVfs :: "VfCount \<Rightarrow> 's \<Rightarrow> ((VfCount \<times> go_error option) \<times> 's) option"
  pCreateNetworkFunction :: "NFRequest \<Rightarrow> 's \<Rightarrow> (go_error option \<times> 's) option"
  pDeleteNetworkFunction :: "NFRequest \<Rightarrow> 's \<Rightarrow> go_error option \<times> 's"
  pSetDpuNetworkConfig :: "DpuNetworkConfigRequest \<Rightarrow> 's \<Rightarrow> go_error option \<times> 's"
  pPing :: "PingRequest \<Rightarrow> 's \<Rightarrow> (go_error + PingResponse) \<times> 's"

datatype codes = Unavailable | FailedPrecondition | Unimplemented | Internal

text \<open>A status error: its code and the error whose text it carries.\<close>

record grpc_status =
  status_code :: codes
  status_of_error :: go_error

definition mapErr :: "go_error \<Rightarrow> grpc_status" where
  "mapErr err =
     \<lparr>status_code =
        (if errors_Is err ErrUnavailable then Unavailable
         else if errors_Is err ErrFailedPrecondition then FailedPrecondition
         else if errors_Is err ErrUnimplemented then Unimplemented
         else Internal),
      status_of_error = err\<rparr>"

text \<open>The getters of a generated message return the zero value on a nil message.\<close>

definition pb_get :: "'m \<Rightarrow> 'm option \<Rightarrow> 'm" where
  "pb_get zero m = (case m of None \<Rightarrow> zero | Some x \<Rightarrow> x)"

definition srv_Init :: "'s Plugin \<Rightarrow> InitRequest option \<Rightarrow> 's \<Rightarrow> (grpc_status + IpPort) \<times> 's" where
  "srv_Init P req s =
     (let q = pb_get \<lparr>DpuMode = False, DpuIdentifier = ''''\<rparr> req in
      case pInit P \<lparr>DpuMode = DpuMode q, DpuIdentifier = DpuIdentifier q\<rparr> s of
        (Inl err, s') \<Rightarrow> (Inl (mapErr err), s')
      | (Inr ep, s') \<Rightarrow> (Inr \<lparr>IP = IP ep, Port = Port ep\<rparr>, s'))"

definition srv_GetDevices :: "'s Plugin \<Rightarrow> 's \<Rightarrow> (grpc_status + DeviceListResponse) \<times> 's" where
  "srv_GetDevices P s =
     (case pGetDevices P s of
        (Inl err, s') \<Rightarrow> (Inl (mapErr err), s')
      | (Inr resp, s') \<Rightarrow>
          (Inr \<lparr>Devices = fold (\<lambda>(id, d). AList.update id
             \<lparr>ID = ID d, Health = Health d, Topology = \<lparr>Node = Node (Topology d)\<rparr>\<rparr>) (Devices resp) []\<rparr>, s'))"

definition srv_SetNumVfs :: "'s Plugin \<Rightarrow> VfCount option \<Rightarrow> 's \<Rightarrow> ((grpc_status + VfCount) \<times> 's) option" where
  "srv_SetNumVfs P req s =
     (case pSetNumVfs P \<lparr>VfCnt = VfCnt (pb_get \<lparr>VfCnt = 0\<rparr> req)\<rparr> s of
        None \<Rightarrow> None
      | Some ((got, Some err), s') \<Rightarrow> Some (Inl (mapErr err), s')
      | Some ((got, None), s') \<Rightarrow> Some (Inr \<lparr>VfCnt = VfCnt got\<rparr>, s'))"

definition nf_of_pb :: "NFRequest option \<Rightarrow> NFRequest" where
  "nf_of_pb req =
     (let q = pb_get \<lparr>Input = '''', Output = '''', BridgeID = ''''\<rparr> req
      in \<lparr>Input = Input q, Output = Output q, BridgeID = BridgeID q\<rparr>)"

definition empty_reply :: "go_error option \<times> 's \<Rightarrow> (grpc_status + unit) \<times> 's" where
  "empty_reply r = (case r of (Some err, s') \<Rightarrow> (Inl (mapErr err), s') | (None, s') \<Rightarrow> (Inr (), s'))"

definition srv_CreateNetworkFunction ::
    "'s Plugin \<Rightarrow> NFRequest option \<Rightarrow> 's \<Rightarrow> ((grpc_status + unit) \<times> 's) option" where
  "srv_CreateNetworkFunction P req s = map_option empty_reply (pCreateNetworkFunction P (nf_of_pb req) s)"

definition srv_DeleteNetworkFunction :: "'s Plugin \<Rightarrow> NFRequest option \<Rightarrow> 's \<Rightarrow> (grpc_status + unit) \<times> 's" where
  "srv_DeleteNetworkFunction P req s = empty_reply (pDeleteNetworkFunction P (nf_of_pb req) s)"

definition srv_SetDpuNetworkConfig ::
    "'s Plugin \<Rightarrow> DpuNetworkConfigRequest option \<Rightarrow> 's \<Rightarrow> (grpc_status + unit) \<times> 's" where
  "srv_SetDpuNetworkConfig P req s =
     empty_reply (pSetDpuNetworkConfig P \<lparr>IsAccelerated = IsAccelerated (pb_get \<lparr>IsAccelerated = False\<rparr> req)\<rparr> s)"

definition srv_Ping :: "'s Plugin \<Rightarrow> PingRequest option \<Rightarrow> 's \<Rightarrow> (grpc_status + PingResponse) \<times> 's" where
  "srv_Ping P req s =
     (let q = pb_get \<lparr>Timestamp = 0, SenderID = ''''\<rparr> req in
      case pPing P \<lparr>Timestamp = Timestamp q, SenderID = SenderID q\<rparr> s of
        (Inl err, s') \<Rightarrow> (Inl (mapErr err), s')
      | (Inr resp, s') \<Rightarrow>
          (Inr \<lparr>pr_Timestamp = pr_Timestamp resp, ResponderID = ResponderID resp, Healthy = Healthy resp\<rparr>, s'))"

text \<open>The adapter as a plugin: its state is the adapter and the world.\<close>

definition nvidia_plugin :: "'w DPFClient \<Rightarrow> 'w Host \<Rightarrow> (NvidiaVSP \<times> 'w) Plugin" where
  "nvidia_plugin C H =
     \<lparr>pInit = (\<lambda>req (v, w). Init C v req w),
      pGetDevices = (\<lambda>(v, w). case GetDevices C H v w of (r, w') \<Rightarrow> (r, v, w')),
      pSetNumVfs = (\<lambda>req (v, w). map_option (\<lambda>(r, w'). (r, v, w')) (SetNumVfs C H v req w)),
      pCreateNetworkFunction = (\<lambda>req (v, w). map_option (\<lambda>(r, w'). (r, v, w')) (CreateNetworkFunction C H v req w)),
      pDeleteNetworkFunction = (\<lambda>req (v, w). case DeleteNetworkFunction C v req w of (r, w') \<Rightarrow> (r, v, w')),
      pSetDpuNetworkConfig = (\<lambda>req (v, w). case SetDpuNetworkConfig C req w of (r, w') \<Rightarrow> (r, v, w')),
      pPing = (\<lambda>req (v, w). (Inr (Ping v (h_now H w) req), v, w))\<rparr>"

section \<open>Properties\<close>

lemma mapErr_Unavailable [simp]: "status_code (mapErr e) = Unavailable \<longleftrightarrow> errors_Is e ErrUnavailable"
  by (simp add: mapErr_def)

lemma mapErr_FailedPrecondition: "errors_Is e ErrFailedPrecondition \<Longrightarrow> \<not> errors_Is e ErrUnavailable \<Longrightarrow>
    status_code (mapErr e) = FailedPrecondition"
  by (simp add: mapErr_def)

text \<open>
  What the standard library documents of \<open>ctx.Err()\<close>: nil, \<open>context.Canceled\<close> or
  \<open>context.DeadlineExceeded\<close>.
\<close>

definition std_context :: "'w Host \<Rightarrow> bool" where
  "std_context H = (\<forall>w. h_ctx_err H w \<in>
     {None, Some (Sentinel ''context canceled''), Some (Sentinel ''context deadline exceeded'')})"

lemma std_context_Internal:
  assumes "std_context H" and "h_ctx_err H w = Some e"
  shows "status_code (mapErr e) = Internal"
proof -
  have "e \<in> {Sentinel ''context canceled'', Sentinel ''context deadline exceeded''}"
    using assms by (auto simp: std_context_def dest: spec [of _ w])
  then show ?thesis by (auto simp: mapErr_def sentinel_defs)
qed

text \<open>
  Over gRPC a VF request below the allocated count is answered \<open>FAILED_PRECONDITION\<close> with
  nothing changed, a count is returned only when it is the requested one, and every other failure
  is \<open>UNAVAILABLE\<close>, or \<open>INTERNAL\<close> when the call's own context ended.
\<close>

theorem srv_SetNumVfs_codes:
  assumes "std_context H" and "srv_SetNumVfs (nvidia_plugin C H) (Some req) (v, w) = Some (r, v', w')"
  shows "v' = v \<and>
    (case r of
       Inr n \<Rightarrow> n = req \<and> sint (h_allocated H w) \<le> sint (VfCnt req)
     | Inl st \<Rightarrow>
         (status_code st = FailedPrecondition \<longleftrightarrow> sint (VfCnt req) < sint (h_allocated H w)) \<and>
         (status_code st = FailedPrecondition \<longrightarrow> w' = w) \<and>
         status_code st \<in> {FailedPrecondition, Unavailable, Internal} \<and>
         (status_code st = Internal \<longrightarrow> (\<exists>w0. h_ctx_err H w0 = Some (status_of_error st))))"
proof -
  have q: "\<lparr>VfCnt = VfCnt (pb_get \<lparr>VfCnt = 0\<rparr> (Some req))\<rparr> = req" by (simp add: pb_get_def)
  obtain n e where s: "SetNumVfs C H v req w = Some ((n, e), w')"
    and r: "v' = v" "r = (case e of None \<Rightarrow> Inr \<lparr>VfCnt = VfCnt n\<rparr> | Some x \<Rightarrow> Inl (mapErr x))"
    using assms(2) by (auto simp: srv_SetNumVfs_def q nvidia_plugin_def split: option.splits)
  show ?thesis
  proof (cases e)
    case None
    with set_vfs_cases [OF s] r show ?thesis by (cases n) simp
  next
    case (Some x)
    note c = set_vfs_cases [OF s, unfolded Some option.case]
    have code: "status_code (mapErr x) = FailedPrecondition" if "sint (VfCnt req) < sint (h_allocated H w)"
      using c that mapErr_FailedPrecondition by auto
    show ?thesis
    proof (cases "sint (VfCnt req) < sint (h_allocated H w)")
      case True
      with c code r Some show ?thesis by auto
    next
      case False
      with c consider "errors_Is x ErrUnavailable" | w0 where "h_ctx_err H w0 = Some x" by auto
      then show ?thesis
      proof cases
        case 1
        with False r Some show ?thesis by (simp add: mapErr_def)
      next
        case 2
        with False r Some std_context_Internal [OF assms(1) 2] show ?thesis
          by (auto simp: mapErr_def)
      qed
    qed
  qed
qed

lemma srv_SetNumVfs_codes_witness:
  "\<exists>st v' w'. srv_SetNumVfs (nvidia_plugin mem_client (sim_host 2)) (Some \<lparr>VfCnt = - 1\<rparr>) (NewDemoVSP ''n'' 2 sim0, sim0) =
     Some (Inl st, v', w') \<and> status_code st = FailedPrecondition \<and> w' = sim0"
proof -
  let ?v = "NewDemoVSP ''n'' 2 sim0"
  have std: "std_context (sim_host 2)" by (simp add: std_context_def)
  have neg: "sint (VfCnt \<lparr>VfCnt = - 1\<rparr>) < sint (h_allocated (sim_host 2) sim0)" by simp
  obtain st v' w' where r: "srv_SetNumVfs (nvidia_plugin mem_client (sim_host 2)) (Some \<lparr>VfCnt = - 1\<rparr>) (?v, sim0) =
      Some (Inl st, v', w')"
    by (simp add: srv_SetNumVfs_def nvidia_plugin_def SetNumVfs_def pb_get_def)
  from srv_SetNumVfs_codes [OF std r] neg have "status_code st = FailedPrecondition \<and> w' = sim0"
    by simp
  with r show ?thesis by blast
qed

text \<open>
  Over gRPC an attach is acknowledged only after a Ready chain was read; a failure the caller
  should retry is \<open>UNAVAILABLE\<close>, but a cancelled or expired call context is reported as
  \<open>INTERNAL\<close>.
\<close>

theorem srv_Create_codes:
  assumes "std_context H" and "srv_CreateNetworkFunction (nvidia_plugin C H) (Some req) (v, w) = Some (r, v', w')"
  shows "case r of
      Inr _ \<Rightarrow> (\<exists>w0 chain. IsReady chain \<and> cGet C GVKDPUServiceChain ManagedNamespace
          (Name (last (Objects (TranslateNFRequest (NodeName (cfg v)) req)))) w0 = (Inr chain, w'))
    | Inl st \<Rightarrow> status_code st = Unavailable \<or>
        (status_code st = Internal \<and> (\<exists>w0. h_ctx_err H w0 = Some (status_of_error st)))"
proof -
  have q: "nf_of_pb (Some req) = req" by (simp add: nf_of_pb_def pb_get_def)
  obtain e where s: "CreateNetworkFunction C H v req w = Some (e, w')"
    and r: "r = (case e of None \<Rightarrow> Inr () | Some x \<Rightarrow> Inl (mapErr x))"
    using assms(2) by (auto simp: srv_CreateNetworkFunction_def q nvidia_plugin_def empty_reply_def split: option.splits)
  show ?thesis
  proof (cases e)
    case None
    with create_cases [OF s] r show ?thesis by auto
  next
    case (Some x)
    with create_cases [OF s] consider "errors_Is x ErrUnavailable" | w0 where "h_ctx_err H w0 = Some x" by auto
    then show ?thesis
    proof cases
      case 2
      with r Some std_context_Internal [OF assms(1) 2] show ?thesis by (auto simp: mapErr_def)
    qed (simp add: r Some)
  qed
qed

lemma srv_Create_codes_witness:
  "\<exists>st s'. srv_CreateNetworkFunction (nvidia_plugin mem_client (sim_host 2))
     (Some \<lparr>Input = ''a'', Output = ''b'', BridgeID = ''c''\<rparr>) (NewDemoVSP ''n'' 2 sim0, sim0) = Some (st, s') \<and>
     (isl st \<longrightarrow> status_code (projl st) = Unavailable)"
proof -
  let ?q = "\<lparr>Input = ''a'', Output = ''b'', BridgeID = ''c''\<rparr>" and ?v = "NewDemoVSP ''n'' 2 sim0"
  have std: "std_context (sim_host 2)" by (simp add: std_context_def)
  obtain r where "CreateNetworkFunction mem_client (sim_host 2) ?v ?q sim0 = Some r"
    using sim.create_returns [of ?v 2 ?q sim0] by auto
  then obtain st v' w' where r: "srv_CreateNetworkFunction (nvidia_plugin mem_client (sim_host 2)) (Some ?q) (?v, sim0) = Some (st, v', w')"
    by (cases r; cases "fst r") (auto simp: srv_CreateNetworkFunction_def nvidia_plugin_def nf_of_pb_def pb_get_def empty_reply_def)
  from srv_Create_codes [OF std r] show ?thesis
    using r by (cases st) auto
qed

lemma map_of_fold_pairs:
  "distinct (map fst xs) \<Longrightarrow>
     map_of (fold (\<lambda>(k, d). AList.update k (f d)) xs m) = (\<lambda>k. case map_of xs k of Some d \<Rightarrow> Some (f d) | None \<Rightarrow> map_of m k)"
proof (induction xs arbitrary: m)
  case (Cons x xs)
  then show ?case
    by (cases x) (auto simp: fun_eq_iff split: option.split dest: map_of_SomeD intro: rev_image_eqI)
qed (simp add: fun_eq_iff)

text \<open>
  The server hands the device map over unchanged, whatever plugin it serves: the same
  identifiers with the same health and node.
\<close>

theorem srv_GetDevices_map:
  assumes "pGetDevices P s = (Inr resp, s')" and "distinct (map fst (Devices resp))"
  shows "\<exists>out. srv_GetDevices P s = (Inr out, s') \<and> map_of (Devices out) = map_of (Devices resp)"
proof -
  have same: "\<lparr>ID = ID d, Health = Health d, Topology = \<lparr>Node = Node (Topology d)\<rparr>\<rparr> = d" for d :: Device
    by (cases d) simp
  show ?thesis
    using assms map_of_fold_pairs [OF assms(2), of "\<lambda>d. d" "[]"]
    by (simp add: srv_GetDevices_def same fun_eq_iff split: option.splits)
qed

lemma srv_GetDevices_map_witness:
  "\<exists>out. srv_GetDevices (nvidia_plugin mem_client (sim_host 1)) (NewDemoVSP ''n'' 1 sim0, sim0) =
      (Inr out, NewDemoVSP ''n'' 1 sim0, sim0) \<and>
    map_of (Devices out) ''0000:03:00.0'' =
      Some \<lparr>ID = ''0000:03:00.0'', Health = ''Unhealthy'', Topology = \<lparr>Node = ''n''\<rparr>\<rparr>"
proof -
  have vfs: "demo_ListVFs 1 = ([''0000:03:00.0''], None)"
    by (simp add: demo_ListVFs_def itoa_def decimal.simps)
  obtain resp where p: "pGetDevices (nvidia_plugin mem_client (sim_host 1)) (NewDemoVSP ''n'' 1 sim0, sim0) =
      (Inr resp, NewDemoVSP ''n'' 1 sim0, sim0)"
    and d: "Devices resp = [(''0000:03:00.0'', \<lparr>ID = ''0000:03:00.0'', Health = ''Unhealthy'', Topology = \<lparr>Node = ''n''\<rparr>\<rparr>)]"
    by (rule that [of "\<lparr>Devices = [(''0000:03:00.0'', \<lparr>ID = ''0000:03:00.0'', Health = ''Unhealthy'', Topology = \<lparr>Node = ''n''\<rparr>\<rparr>)]\<rparr>"])
      (simp_all add: nvidia_plugin_def GetDevices_def mem_client_def mem_List_eq vfs [unfolded One_nat_def] Let_def sim0_def)
  from srv_GetDevices_map [OF p] d show ?thesis by auto
qed

end
