(* ===== verification/SfcReconciler.thy ===== *)
theory SfcReconciler
  imports NvidiaVsp
begin

text \<open>
  \<open>aditya-sarna/feature_skeleton.go\<close>, section 5: the capped backoff, the finalizer helpers and the
  \<open>SFCReconciler\<close>, which applies the translated chain, aggregates readiness upwards and deletes
  the derived objects of a chain that is being removed.
\<close>

section \<open>Backoff\<close>

record Request =
  rq_Namespace :: string
  rq_Name :: string

record Result =
  Requeue :: bool
  RequeueAfter :: duration

definition no_result :: Result where
  "no_result = \<lparr>Requeue = False, RequeueAfter = 0\<rparr>"

definition requeue_now :: Result where
  "requeue_now = \<lparr>Requeue = True, RequeueAfter = 0\<rparr>"

definition requeue_after :: "duration \<Rightarrow> Result" where
  "requeue_after d = \<lparr>Requeue = False, RequeueAfter = d\<rparr>"

lemmas result_defs = no_result_def requeue_now_def requeue_after_def

text \<open>\<open>for i := 0; i < attempt && d < 5*time.Minute; i++ { d *= 2 }\<close>\<close>

function backoff_loop :: "int \<Rightarrow> int \<Rightarrow> duration \<Rightarrow> duration" where
  "backoff_loop i attempt d =
     (if i < attempt \<and> d < 5 * minute then backoff_loop (i + 1) attempt (d * 2) else d)"
  by pat_completeness auto
termination
  by (relation "measure (\<lambda>(i, attempt, d). nat (attempt - i))") auto

declare backoff_loop.simps [simp del]

definition Backoff :: "int \<Rightarrow> duration" where
  "Backoff attempt =
     (let d = backoff_loop 0 attempt second in if 5 * minute < d then 5 * minute else d)"

lemma backoff_loop_closed:
  assumes "0 < d"
  shows "min (backoff_loop i attempt d) (5 * minute) = min (d * 2 ^ nat (attempt - i)) (5 * minute)"
  using assms
proof (induction i attempt d rule: backoff_loop.induct)
  case (1 i attempt d)
  show ?case
  proof (cases "i < attempt \<and> d < 5 * minute")
    case True
    then have "nat (attempt - i) = Suc (nat (attempt - (i + 1)))" by arith
    with 1 True show ?thesis
      by (subst backoff_loop.simps) (simp add: mult.assoc)
  next
    case False
    then have stop: "backoff_loop i attempt d = d" by (subst backoff_loop.simps) auto
    have "d \<le> d * 2 ^ nat (attempt - i)" using 1(2) by simp
    with False show ?thesis unfolding stop by (cases "i < attempt") (simp_all add: min_absorb2)
  qed
qed

text \<open>
  C8.  The backoff is one second doubled per attempt and capped at five minutes, for every attempt
  number, negative ones included.
\<close>

theorem Backoff_closed_form:
  "Backoff attempt = min (second * 2 ^ nat attempt) (5 * minute)"
proof -
  have "Backoff attempt = min (backoff_loop 0 attempt second) (5 * minute)"
    by (simp add: Backoff_def Let_def min_def)
  also have "\<dots> = min (second * 2 ^ nat attempt) (5 * minute)"
    by (subst backoff_loop_closed) (simp_all add: go_simps)
  finally show ?thesis .
qed

section \<open>Finalizers\<close>

definition FinalizerName :: string where
  "FinalizerName = ''opi.opiproject.org/nvidia-vsp-cleanup''"

definition HasFinalizer :: "string list \<Rightarrow> bool" where
  "HasFinalizer finalizers = list_ex (\<lambda>f. f = FinalizerName) finalizers"

definition AddFinalizer :: "string list \<Rightarrow> string list" where
  "AddFinalizer finalizers =
     (if HasFinalizer finalizers then finalizers else finalizers @ [FinalizerName])"

text \<open>
  \<open>out := finalizers[:0]\<close> shares the caller's array, so the loop writes into the slice it reads.
  The state is that array and the length of \<open>out\<close>; the result is \<open>out\<close> and the array the caller
  still sees.
\<close>

definition remove_step :: "nat \<Rightarrow> string list \<times> nat \<Rightarrow> string list \<times> nat" where
  "remove_step i s = (case s of (arr, k) \<Rightarrow>
     (let f = arr ! i in if f \<noteq> FinalizerName then (arr[k := f], k + 1) else (arr, k)))"

definition RemoveFinalizer :: "string list \<Rightarrow> string list \<times> string list" where
  "RemoveFinalizer finalizers =
     (case fold remove_step [0..<length finalizers] (finalizers, 0) of
        (arr, k) \<Rightarrow> (take k arr, arr))"

lemma remove_loop:
  assumes "n \<le> length xs"
  shows "fold remove_step [0..<n] (xs, 0) =
     (let ys = filter (\<lambda>f. f \<noteq> FinalizerName) (take n xs) in (ys @ drop (length ys) xs, length ys))"
  using assms
proof (induction n)
  case (Suc n)
  define ys where "ys = filter (\<lambda>f. f \<noteq> FinalizerName) (take n xs)"
  have len: "length ys \<le> n"
    using length_filter_le [of "\<lambda>f. f \<noteq> FinalizerName" "take n xs"] by (simp add: ys_def)
  have "fold remove_step [0..<Suc n] (xs, 0) = remove_step n (fold remove_step [0..<n] (xs, 0))"
    by simp
  also have "\<dots> = remove_step n (ys @ drop (length ys) xs, length ys)"
    using Suc by (simp only: ys_def Let_def)
  also have "\<dots> = (if xs ! n \<noteq> FinalizerName
      then (ys @ xs ! n # drop (Suc (length ys)) xs, Suc (length ys)) else (ys @ drop (length ys) xs, length ys))"
  proof -
    have "(ys @ drop (length ys) xs) ! n = xs ! n"
      using len Suc.prems by (simp add: nth_append)
    moreover have "(ys @ drop (length ys) xs)[length ys := x] = ys @ x # drop (Suc (length ys)) xs" for x
      using len Suc.prems by (simp add: list_update_append flip: Cons_nth_drop_Suc)
    ultimately show ?thesis by (simp add: remove_step_def)
  qed
  finally show ?case
    using Suc.prems by (simp add: take_Suc_conv_app_nth Let_def flip: ys_def)
qed simp

text \<open>
  Removing the finalizer keeps the other finalizers in order; the caller's slice keeps its
  length and its array now holds the result followed by its old tail, so the finalizer can still
  be read through the old slice when it was not the last element.
\<close>

theorem RemoveFinalizer_spec:
  "RemoveFinalizer xs =
     (filter (\<lambda>f. f \<noteq> FinalizerName) xs,
      filter (\<lambda>f. f \<noteq> FinalizerName) xs @ drop (length (filter (\<lambda>f. f \<noteq> FinalizerName) xs)) xs)"
  by (simp add: RemoveFinalizer_def remove_loop Let_def)

lemma fst_RemoveFinalizer: "fst (RemoveFinalizer xs) = filter (\<lambda>f. f \<noteq> FinalizerName) xs"
  by (simp add: RemoveFinalizer_def remove_loop Let_def)

text \<open>
  Adding the finalizer makes it present and is idempotent; removing it makes it absent, undoes
  the adding, and restores a list that did not have it.
\<close>

theorem Finalizer_roundtrip:
  "HasFinalizer (AddFinalizer xs) \<and> AddFinalizer (AddFinalizer xs) = AddFinalizer xs \<and>
   \<not> HasFinalizer (fst (RemoveFinalizer xs)) \<and>
   fst (RemoveFinalizer (AddFinalizer xs)) = fst (RemoveFinalizer xs) \<and>
   (HasFinalizer xs \<or> fst (RemoveFinalizer (AddFinalizer xs)) = xs)"
  by (auto simp: HasFinalizer_def AddFinalizer_def fst_RemoveFinalizer list_ex_iff filter_empty_conv
      intro!: filter_True)

section \<open>The reconciler\<close>

text \<open>
  \<open>GetSFC\<close> and \<open>UpdateStatus\<close> are fields the caller sets; \<open>GetSFC\<close> returns its three results even
  when the last is an error.
\<close>

record 'w SFCReconciler =
  DPF :: "'w DPFClient"
  GetSFC :: "Request \<Rightarrow> 'w \<Rightarrow> (ServiceFunctionChainSpec \<times> bool \<times> go_error option) \<times> 'w"
  UpdateStatus :: "Request \<Rightarrow> Condition list \<Rightarrow> 'w \<Rightarrow> go_error option \<times> 'w"

definition aggregate ::
    "'w SFCReconciler \<Rightarrow> string gomap \<Rightarrow> 'w \<Rightarrow> (Condition list \<times> bool \<times> go_error option) \<times> 'w" where
  "aggregate r selector w =
     (case cList (DPF r) GVKDPUServiceChain ManagedNamespace selector w of
        (Inl err, w1) \<Rightarrow> (([], False, Some err), w1)
      | (Inr chs, w1) \<Rightarrow>
     (case cList (DPF r) GVKDPUService ManagedNamespace selector w1 of
        (Inl err, w2) \<Rightarrow> (([], False, Some err), w2)
      | (Inr services, w2) \<Rightarrow>
          let allReady = (0 < length chs \<and> 0 < length services \<and> list_all IsReady (chs @ services));
              cond = \<lparr>Type = ''ChainProgrammed'', Status = allReady,
                      Reason = ''AllDerivedObjectsReady'', Message = Text ''''\<rparr>;
              cond = (if \<not> allReady
                then cond\<lparr>Reason := ''AwaitingDPFConvergence'',
                       Message := Sprintf ''%d chain(s), %d service(s) derived; waiting for Ready''
                         [AInt (int (length chs)), AInt (int (length services))]\<rparr>
                else cond)
          in (([cond], allReady, None), w2)))"

definition delete_kind :: "'w DPFClient \<Rightarrow> string gomap \<Rightarrow> GroupVersionKind \<Rightarrow> 'w \<Rightarrow> go_error option \<times> 'w" where
  "delete_kind C selector gvk w =
     (case cList C gvk ManagedNamespace selector w of
        (Inl err, w1) \<Rightarrow> (Some err, w1)
      | (Inr objs, w1) \<Rightarrow>
          (case each_until_err (\<lambda>x. cDelete C (GVK x) (Namespace x) (Name x)) objs w1 of
             (Some (_, err), w2) \<Rightarrow> (Some err, w2)
           | (None, w2) \<Rightarrow> (None, w2)))"

definition deleted_kinds :: "GroupVersionKind list" where
  "deleted_kinds = [GVKDPUServiceChain, GVKDPUServiceInterface, GVKDPUServiceIPAM, GVKDPUService]"

definition Reconcile :: "'w SFCReconciler \<Rightarrow> Request \<Rightarrow> 'w \<Rightarrow> (Result \<times> go_error option) \<times> 'w" where
  "Reconcile r req w =
     (case GetSFC r req w of
        ((sfc, deleted, Some err), w1) \<Rightarrow>
          if errors_Is err ErrNotFound then ((no_result, None), w1)
          else ((requeue_now, Some err), w1)
      | ((sfc, deleted, None), w1) \<Rightarrow>
     let selector = OwnerLabels ''ServiceFunctionChain'' (rq_Namespace req) (rq_Name req) in
     if deleted
     then case cList (DPF r) GVKDPUServiceChain ManagedNamespace selector w1 of
            (Inl err, w2) \<Rightarrow> ((requeue_now, Some err), w2)
          | (Inr owned, w2) \<Rightarrow>
              (case each_until_err (delete_kind (DPF r) selector) deleted_kinds w2 of
                 (Some (_, err), w3) \<Rightarrow> ((requeue_now, Some err), w3)
               | (None, w3) \<Rightarrow>
                   ((if 0 < length owned then requeue_after (2 * second) else no_result, None), w3))
     else case each_until_err (cApply (DPF r)) (Objects (TranslateSFC sfc)) w1 of
            (Some (_, err), w2) \<Rightarrow> ((requeue_now, Some err), w2)
          | (None, w2) \<Rightarrow>
              (case aggregate r selector w2 of
                 ((conds, allReady, Some err), w3) \<Rightarrow> ((requeue_now, Some err), w3)
               | ((conds, allReady, None), w3) \<Rightarrow>
                   (case UpdateStatus r req conds w3 of
                      (Some err, w4) \<Rightarrow> ((requeue_now, Some err), w4)
                    | (None, w4) \<Rightarrow>
                        ((if \<not> allReady then requeue_after (5 * second) else no_result, None), w4))))"

section \<open>The world of a reconciler\<close>

text \<open>
  What the two callbacks owe: \<open>GetSFC\<close> returns the object that was asked for, and neither touches
  the DPF store.
\<close>

locale sfc_world = reliable_dpf_store "DPF r" view ok
  for r :: "'w SFCReconciler" and view :: "'w \<Rightarrow> view" and ok :: "'w \<Rightarrow> bool" +
  assumes get_sfc_frame: "ok w \<Longrightarrow> GetSFC r req w = (res, w') \<Longrightarrow> ok w' \<and> view w' = view w"
    and get_sfc_names: "GetSFC r req w = ((sfc, deleted, None), w') \<Longrightarrow>
      sfc_Namespace sfc = rq_Namespace req \<and> sfc_Name sfc = rq_Name req"
    and update_frame: "ok w \<Longrightarrow> UpdateStatus r req conds w = (e, w') \<Longrightarrow> ok w' \<and> view w' = view w"

definition sfc_selector :: "Request \<Rightarrow> string gomap" where
  "sfc_selector req = OwnerLabels ''ServiceFunctionChain'' (rq_Namespace req) (rq_Name req)"

definition owned_in :: "GroupVersionKind list \<Rightarrow> Request \<Rightarrow> DPFObject \<Rightarrow> bool" where
  "owned_in gs req x = list_ex (\<lambda>g. selects g ManagedNamespace (sfc_selector req) x) gs"

definition without_owned :: "GroupVersionKind list \<Rightarrow> Request \<Rightarrow> view \<Rightarrow> view" where
  "without_owned gs req v = (\<lambda>k. case v k of None \<Rightarrow> None | Some x \<Rightarrow> if owned_in gs req x then None else Some x)"

lemma without_owned_simps [simp]:
  "without_owned [] req v = v"
  "without_owned gs req (without_owned [g] req v) = without_owned (g # gs) req v"
  by (auto simp: without_owned_def owned_in_def fun_eq_iff split: option.split)

lemma owned_deleted_kinds: "owned_in deleted_kinds req x \<longleftrightarrow>
    GVK x \<in> set deleted_kinds \<and> Namespace x = ManagedNamespace \<and>
    list_all (\<lambda>(k, v). str_at (Labels x) k = v) (sfc_selector req)"
  by (auto simp: owned_in_def deleted_kinds_def selects_def ManagedNamespace_def)

text \<open>What \<open>aggregate\<close> reads: chains and services of the owner, all ready, and some of each.\<close>

definition programmed :: "Request \<Rightarrow> view \<Rightarrow> bool" where
  "programmed req v =
     ((\<exists>x \<in> ran v. owned_in [GVKDPUServiceChain] req x) \<and> (\<exists>x \<in> ran v. owned_in [GVKDPUService] req x) \<and>
      (\<forall>x \<in> ran v. owned_in [GVKDPUServiceChain, GVKDPUService] req x \<longrightarrow> IsReady x))"

context sfc_world
begin

lemma delete_kind_effect:
  assumes "ok w"
  shows "\<exists>w'. delete_kind (DPF r) (sfc_selector req) g w = (None, w') \<and> ok w' \<and> view w' = without_owned [g] req (view w)"
proof -
  obtain xs w1 where l: "cList (DPF r) g ManagedNamespace (sfc_selector req) w = (Inr xs, w1)"
    using list_total [OF assms] by blast
  then have "ok w1" using list_frame [OF assms] by blast
  obtain w2 where d: "each_until_err (\<lambda>x. cDelete (DPF r) (GVK x) (Namespace x) (Name x)) xs w1 = (None, w2)"
    using delete_loop_total [OF \<open>ok w1\<close>, of xs] by (metis prod.collapse)
  from store_list_then_delete [OF assms l d] l d show ?thesis
    by (auto simp: delete_kind_def without_owned_def owned_in_def fun_eq_iff split: option.split)
qed

lemma delete_kinds_effect:
  "ok w \<Longrightarrow> \<exists>w'. each_until_err (delete_kind (DPF r) (sfc_selector req)) gs w = (None, w') \<and> ok w' \<and>
     view w' = without_owned gs req (view w)"
proof (induction gs arbitrary: w)
  case (Cons g gs)
  obtain w1 where "delete_kind (DPF r) (sfc_selector req) g w = (None, w1)" and "ok w1"
    and "view w1 = without_owned [g] req (view w)"
    using delete_kind_effect [OF Cons.prems] by blast
  with Cons.IH [of w1] show ?case by auto
qed simp

text \<open>One reconcile of a chain being deleted.\<close>

lemma Reconcile_deleted:
  assumes "ok w" and g: "GetSFC r req w = ((sfc, True, None), w1)"
  shows "\<exists>w'. Reconcile r req w =
      ((if \<exists>x \<in> ran (view w). owned_in [GVKDPUServiceChain] req x then requeue_after (2 * second) else no_result, None), w') \<and>
    ok w' \<and> view w' = without_owned deleted_kinds req (view w)"
proof -
  have w1: "ok w1" "view w1 = view w" using get_sfc_frame [OF assms] by auto
  obtain xs w2 where l: "cList (DPF r) GVKDPUServiceChain ManagedNamespace (sfc_selector req) w1 = (Inr xs, w2)"
    using list_total [OF w1(1)] by blast
  have w2: "ok w2" "view w2 = view w" using list_frame [OF w1(1) l] w1 by auto
  have "xs \<noteq> [] \<longleftrightarrow> (\<exists>x \<in> ran (view w). owned_in [GVKDPUServiceChain] req x)"
    using list_set [OF w1(1) l] w1(2) by (auto simp: owned_in_def simp flip: set_empty)
  moreover obtain w' where "each_until_err (delete_kind (DPF r) (sfc_selector req)) deleted_kinds w2 = (None, w')"
    and "ok w'" and "view w' = without_owned deleted_kinds req (view w)"
    using delete_kinds_effect [OF w2(1), of req deleted_kinds] w2(2) by auto
  ultimately show ?thesis
    using g l by (simp add: Reconcile_def sfc_selector_def)
qed

lemma aggregate_effect:
  assumes "ok w"
  shows "\<exists>cond w'. aggregate r (sfc_selector req) w = (([cond], programmed req (view w), None), w') \<and>
    Type cond = ''ChainProgrammed'' \<and> Status cond = programmed req (view w) \<and> ok w' \<and> view w' = view w"
proof -
  obtain cs w1 where c: "cList (DPF r) GVKDPUServiceChain ManagedNamespace (sfc_selector req) w = (Inr cs, w1)"
    using list_total [OF assms] by blast
  have w1: "ok w1" "view w1 = view w" using list_frame [OF assms c] by auto
  obtain ss w2 where s: "cList (DPF r) GVKDPUService ManagedNamespace (sfc_selector req) w1 = (Inr ss, w2)"
    using list_total [OF w1(1)] by blast
  have w2: "ok w2" "view w2 = view w" using list_frame [OF w1(1) s] w1 by auto
  have cs: "set cs = {x \<in> ran (view w). owned_in [GVKDPUServiceChain] req x}"
    using list_set [OF assms c] by (simp add: owned_in_def)
  have ss: "set ss = {x \<in> ran (view w). owned_in [GVKDPUService] req x}"
    using list_set [OF w1(1) s] w1(2) by (simp add: owned_in_def)
  have "(cs \<noteq> [] \<and> ss \<noteq> [] \<and> list_all IsReady (cs @ ss)) = programmed req (view w)"
    using cs ss unfolding programmed_def list_all_iff set_append
    by (auto simp: owned_in_def simp flip: set_empty)
  then show ?thesis
    using c s w2 by (auto simp: aggregate_def Let_def)
qed

text \<open>One reconcile of a live chain, the status write having succeeded or not.\<close>

lemma Reconcile_live:
  assumes "ok w" and g: "GetSFC r req w = ((sfc, False, None), w1)"
  shows "\<exists>res err w'. Reconcile r req w = ((res, err), w') \<and> ok w' \<and>
    view w' = apply_all (Objects (TranslateSFC sfc)) (view w) \<and>
    (err = None \<longrightarrow> res = (if programmed req (view w') then no_result else requeue_after (5 * second))) \<and>
    (\<forall>e. err = Some e \<longrightarrow> res = requeue_now)"
proof -
  have w1: "ok w1" "view w1 = view w" using get_sfc_frame [OF assms] by auto
  obtain w2 where a: "each_until_err (cApply (DPF r)) (Objects (TranslateSFC sfc)) w1 = (None, w2)"
    using apply_loop_total [OF w1(1)] by (metis prod.collapse)
  have w2: "ok w2" "view w2 = apply_all (Objects (TranslateSFC sfc)) (view w)"
    using store_apply_loop [OF w1(1) a] w1(2) by auto
  obtain cond w3 where g3: "aggregate r (sfc_selector req) w2 = (([cond], programmed req (view w2), None), w3)"
    and w3: "ok w3" "view w3 = view w2"
    using aggregate_effect [OF w2(1)] by blast
  obtain e w4 where u: "UpdateStatus r req [cond] w3 = (e, w4)" by fastforce
  have "ok w4" "view w4 = view w2" using update_frame [OF w3(1) u] w3(2) by auto
  with g a g3 u w2 show ?thesis
    by (cases e) (simp_all add: Reconcile_def flip: sfc_selector_def)
qed

end

text \<open>
  The callbacks as the repository's tests set them: a table of chains with their deletion flag, and
  a status sink that keeps the last conditions.
\<close>

record opi = mem +
  sfcs :: "((string \<times> string) \<times> ServiceFunctionChainSpec \<times> bool) list"
  lastConds :: "Condition list"

definition opi_reconciler :: "opi SFCReconciler" where
  "opi_reconciler =
     \<lparr>DPF = mem_client,
      GetSFC = (\<lambda>req w. (case map_of (sfcs w) (rq_Namespace req, rq_Name req) of
          None \<Rightarrow> (\<lparr>sfc_Namespace = '''', sfc_Name = '''', NetworkFunctions = [], IPAMSubnet = '''',
             NodeSelector = []\<rparr>, False, Some ErrNotFound)
        | Some (spec, deleted) \<Rightarrow>
            (spec\<lparr>sfc_Namespace := rq_Namespace req, sfc_Name := rq_Name req\<rparr>, deleted, None), w)),
      UpdateStatus = (\<lambda>req conds w. (None, w\<lparr>lastConds := conds\<rparr>))\<rparr>"

interpretation opi: sfc_world opi_reconciler mem_view mem_ok
proof -
  have dpf: "DPF opi_reconciler = mem_client" by (simp add: opi_reconciler_def)
  show "sfc_world opi_reconciler mem_view mem_ok"
    unfolding sfc_world_def sfc_world_axioms_def dpf
    using mem.reliable_dpf_store_axioms
    by (auto simp: opi_reconciler_def mem_ok_def mem_view_def split: option.splits)
qed

section \<open>Properties of the reconciler\<close>

text \<open>
  One reconcile of a chain that is being deleted removes every derived object of the chain of
  all four kinds and nothing else, against every store that keeps the client contract.  It asks
  for a confirming round exactly when a chain object was stored; interfaces, IPAM objects and
  services do not count, so without a chain object the first round already allows the finalizer
  to be released.
\<close>

theorem Reconcile_deletion:
  assumes "sfc_world r view ok" and "ok w" and "GetSFC r req w = ((sfc, True, None), w1)"
  shows "\<exists>w'. Reconcile r req w =
      ((if \<exists>x \<in> ran (view w). owned_in [GVKDPUServiceChain] req x then requeue_after (2 * second) else no_result, None), w') \<and>
    ok w' \<and> view w' = without_owned deleted_kinds req (view w)"
  using sfc_world.Reconcile_deleted [OF assms] .

definition sampleReq :: Request where
  "sampleReq = \<lparr>rq_Namespace = ''tenant-a'', rq_Name = ''web-chain''\<rparr>"

definition opi_with :: "bool \<Rightarrow> DPFObject list \<Rightarrow> opi" where
  "opi_with deleted xs =
     \<lparr>objects = map (\<lambda>x. (Key x, x)) xs,
      sfcs = [((''tenant-a'', ''web-chain''), sampleSFC, deleted)], lastConds = []\<rparr>"

lemma sample_get: "GetSFC opi_reconciler sampleReq (opi_with deleted xs) =
    ((sampleSFC, deleted, None), opi_with deleted xs)"
  by (simp add: opi_reconciler_def sampleReq_def opi_with_def sampleSFC_def)

text \<open>A service the sample chain owns, left over without its chain object.\<close>

lemma Reconcile_deletion_witness:
  "\<exists>w'. Reconcile opi_reconciler sampleReq (opi_with True [service_object sampleSFC]) = ((no_result, None), w') \<and>
     mem_view w' = Map.empty"
proof -
  let ?w = "opi_with True [service_object sampleSFC]"
  have ok: "mem_ok ?w" by (simp add: mem_ok_def opi_with_def)
  have view: "mem_view ?w = [Key (service_object sampleSFC) \<mapsto> service_object sampleSFC]"
    by (simp add: mem_view_def opi_with_def)
  have "owned_in deleted_kinds sampleReq (service_object sampleSFC)"
    unfolding owned_deleted_kinds by (simp add: service_object_def sfc_selector_def sampleReq_def sampleSFC_def deleted_kinds_def)
  moreover have "\<not> owned_in [GVKDPUServiceChain] sampleReq (service_object sampleSFC)"
    by (simp add: owned_in_def selects_def service_object_def go_simps)
  ultimately show ?thesis
    using Reconcile_deletion [OF opi.sfc_world_axioms ok sample_get]
    by (auto simp: view without_owned_def fun_eq_iff split: if_splits)
qed

text \<open>
  Deletion converges in two rounds: once one round has run, the next one, still told that the
  chain is being deleted, finds nothing, changes nothing and allows the finalizer to be released.
\<close>

theorem Reconcile_deletion_converges:
  assumes "sfc_world r view ok" and "ok w" and "GetSFC r req w = ((sfc, True, None), w1)"
    and "Reconcile r req w = (res, w2)" and "GetSFC r req w2 = ((sfc', True, None), w3)"
  shows "\<exists>w'. Reconcile r req w2 = ((no_result, None), w') \<and> view w' = view w2"
proof -
  have one: "ok w2" "view w2 = without_owned deleted_kinds req (view w)"
    using sfc_world.Reconcile_deleted [OF assms(1-3)] assms(4) by auto
  have "without_owned deleted_kinds req (view w2) = view w2"
    by (auto simp: one(2) without_owned_def fun_eq_iff split: option.split)
  moreover have "\<not> owned_in [GVKDPUServiceChain] req x" if "x \<in> ran (view w2)" for x
    using that by (auto simp: one(2) without_owned_def ran_def owned_in_def deleted_kinds_def split: option.splits if_splits)
  ultimately show ?thesis
    using sfc_world.Reconcile_deleted [OF assms(1) one(1) assms(5)] by auto
qed

lemma Reconcile_deletion_converges_witness:
  "\<exists>w2 w'. Reconcile opi_reconciler sampleReq (opi_with True [chain_object sampleSFC]) =
       ((requeue_after (2 * second), None), w2) \<and>
     Reconcile opi_reconciler sampleReq w2 = ((no_result, None), w') \<and> mem_view w' = Map.empty"
proof -
  let ?w = "opi_with True [chain_object sampleSFC]"
  have sel: "selects GVKDPUServiceChain ManagedNamespace (sfc_selector sampleReq) (chain_object sampleSFC)"
    by (simp add: selects_def chain_object_def sfc_selector_def sampleReq_def sampleSFC_def)
  have other: "GVK (chain_object sampleSFC) \<notin> {GVKDPUServiceInterface, GVKDPUServiceIPAM, GVKDPUService}"
    by (simp add: chain_object_def go_simps)
  define w2 where "w2 = ?w\<lparr>objects := []\<rparr>"
  have r: "Reconcile opi_reconciler sampleReq ?w = ((requeue_after (2 * second), None), w2)"
    using sel other
    by (simp add: Reconcile_def sample_get flip: sfc_selector_def)
      (simp add: opi_reconciler_def mem_client_def mem_List_eq opi_with_def deleted_kinds_def delete_kind_def
        mem_Delete_def Key_def w2_def selects_def)
  have ok: "mem_ok ?w" by (simp add: mem_ok_def opi_with_def)
  have g2: "GetSFC opi_reconciler sampleReq w2 = ((sampleSFC, True, None), w2)"
    using sample_get [of True "[chain_object sampleSFC]"] by (simp add: w2_def opi_reconciler_def opi_with_def split: option.splits)
  from Reconcile_deletion_converges [OF opi.sfc_world_axioms ok sample_get r g2] r show ?thesis
    by (auto simp: w2_def mem_view_def)
qed

text \<open>
  C7.  One reconcile of a live chain stores exactly the translated plan over what was stored,
  keeping the status DPF wrote and every object the plan does not name (an interface generated
  for a network function that has since left the chain among them); without an error it is done
  exactly when the owner has chains and services and all of them are ready.
\<close>

theorem Reconcile_applies_plan:
  assumes "sfc_world r view ok" and "ok w" and "GetSFC r req w = ((sfc, False, None), w1)"
    and "Reconcile r req w = ((res, err), w2)"
  shows "view w2 = apply_all (Objects (TranslateSFC sfc)) (view w) \<and>
    (\<forall>k. k \<notin> Key ` set (Objects (TranslateSFC sfc)) \<longrightarrow> view w2 k = view w k) \<and>
    (case err of None \<Rightarrow> res = (if programmed req (view w2) then no_result else requeue_after (5 * second))
       | Some e \<Rightarrow> res = requeue_now)"
  using sfc_world.Reconcile_live [OF assms(1-3)] assms(4)
  by (auto simp: apply_all_other split: option.split)

text \<open>
  A chain that shrank to no network function, with an interface left over from the time it had
  one: the interface survives the reconcile.
\<close>

definition shrunkSFC :: ServiceFunctionChainSpec where
  "shrunkSFC = sampleSFC\<lparr>NetworkFunctions := [], IPAMSubnet := ''''\<rparr>"

definition staleIface :: DPFObject where
  "staleIface = iface_object sampleSFC \<lparr>nf_Name = ''firewall'', nf_Image = ''example.com/fw:1''\<rparr> ''in''"

lemma Reconcile_applies_plan_witness:
  "\<exists>res w2. Reconcile opi_reconciler sampleReq
       ((opi_with False [staleIface])\<lparr>sfcs := [((''tenant-a'', ''web-chain''), shrunkSFC, False)]\<rparr>) = (res, w2) \<and>
     owned_in deleted_kinds sampleReq staleIface \<and> mem_view w2 (Key staleIface) = Some staleIface"
proof -
  let ?w = "(opi_with False [staleIface])\<lparr>sfcs := [((''tenant-a'', ''web-chain''), shrunkSFC, False)]\<rparr>"
  have ok: "mem_ok ?w" by (simp add: mem_ok_def opi_with_def)
  have g: "GetSFC opi_reconciler sampleReq ?w = ((shrunkSFC, False, None), ?w)"
    by (simp add: opi_reconciler_def sampleReq_def opi_with_def shrunkSFC_def sampleSFC_def)
  obtain res err w2 where r: "Reconcile opi_reconciler sampleReq ?w = ((res, err), w2)"
    by (metis prod.collapse)
  have plan: "Objects (TranslateSFC shrunkSFC) = [service_object shrunkSFC, chain_object shrunkSFC]"
    by (simp add: TranslateSFC_def shrunkSFC_def)
  have gvk: "GVK staleIface = svc_gvk ''DPUServiceInterface''" "GVK (service_object shrunkSFC) = svc_gvk ''DPUService''"
    "GVK (chain_object shrunkSFC) = svc_gvk ''DPUServiceChain''"
    by (simp_all add: staleIface_def iface_object_def service_object_def chain_object_def
        GVKDPUServiceInterface_def GVKDPUService_def GVKDPUServiceChain_def)
  have "Key staleIface \<noteq> Key (service_object shrunkSFC)" by (rule Key_kind_differs [OF gvk(1,2)]) simp_all
  moreover have "Key staleIface \<noteq> Key (chain_object shrunkSFC)" by (rule Key_kind_differs [OF gvk(1,3)]) simp_all
  ultimately have "mem_view w2 (Key staleIface) = mem_view ?w (Key staleIface)"
    using Reconcile_applies_plan [OF opi.sfc_world_axioms ok g r] by (simp add: plan apply_view_def)
  moreover have "owned_in deleted_kinds sampleReq staleIface"
    unfolding owned_deleted_kinds
    by (simp add: staleIface_def iface_object_def sfc_selector_def sampleReq_def sampleSFC_def deleted_kinds_def)
  ultimately show ?thesis using r by (simp add: mem_view_def opi_with_def)
qed

text \<open>
  Errors and results go together, for every client and callback: an error always comes with an
  immediate requeue, and without one the result is one of three, the wait of two seconds only for
  a chain being deleted and that of five only for a live one; a chain that is gone is no error.
\<close>

theorem Reconcile_results:
  assumes "Reconcile r req w = ((res, err), w')" and "GetSFC r req w = ((sfc, deleted, e), w1)"
  shows "case err of
      Some x \<Rightarrow> res = requeue_now \<and> (\<forall>y. e = Some y \<longrightarrow> x = y \<and> \<not> errors_Is y ErrNotFound)
    | None \<Rightarrow> res \<in> {no_result, requeue_after (if deleted then 2 * second else 5 * second)} \<and>
        (\<forall>y. e = Some y \<longrightarrow> errors_Is y ErrNotFound \<and> res = no_result \<and> w' = w1)"
  using assms
  by (auto simp: Reconcile_def Let_def split: option.splits prod.splits sum.splits if_splits)

lemma Reconcile_results_witness:
  "fst (Reconcile opi_reconciler \<lparr>rq_Namespace = ''x'', rq_Name = ''y''\<rparr> (opi_with False [])) = (no_result, None)"
proof -
  let ?req = "\<lparr>rq_Namespace = ''x'', rq_Name = ''y''\<rparr>"
  obtain sfc where g: "GetSFC opi_reconciler ?req (opi_with False []) = ((sfc, False, Some ErrNotFound), opi_with False [])"
    by (simp add: opi_reconciler_def opi_with_def)
  obtain res err w' where r: "Reconcile opi_reconciler ?req (opi_with False []) = ((res, err), w')"
    by (metis prod.collapse)
  from Reconcile_results [OF r g] r show ?thesis by (cases err) auto
qed

end
