(* ===== verification/DpfLifecycle.thy ===== *)
theory DpfLifecycle
  imports SfcReconciler
begin

text \<open>
  \<open>aditya-sarna/feature_skeleton.go\<close>, sections 6 and 7: the lifecycle manager that installs, adopts
  or leaves alone a DPF installation, the version-compatibility check and the force-cleanup escape
  hatch.
\<close>

section \<open>Lifecycle manager\<close>

datatype InstallState = StateAbsent | StateManaged | StateForeign | StateAdopted | StateIncompatible

fun state_string :: "InstallState \<Rightarrow> string" where
  "state_string StateAbsent = ''Absent''"
| "state_string StateManaged = ''Managed''"
| "state_string StateForeign = ''Foreign''"
| "state_string StateAdopted = ''Adopted''"
| "state_string StateIncompatible = ''Incompatible''"

record DPFDetection =
  CRDsPresent :: bool
  InstalledByUs :: bool
  ServedVersionsOK :: bool
  AdoptionRequested :: bool

definition NextState :: "DPFDetection \<Rightarrow> InstallState" where
  "NextState d =
     (if \<not> CRDsPresent d then StateAbsent
      else if InstalledByUs d \<and> ServedVersionsOK d then StateManaged
      else if InstalledByUs d \<and> \<not> ServedVersionsOK d then StateIncompatible
      else if AdoptionRequested d \<and> ServedVersionsOK d then StateAdopted
      else if AdoptionRequested d \<and> \<not> ServedVersionsOK d then StateIncompatible
      else StateForeign)"

text \<open>The three callbacks; \<open>DPF\<close> is a field no method reads.\<close>

record 'w LifecycleManager =
  Detect :: "'w \<Rightarrow> (DPFDetection \<times> go_error option) \<times> 'w"
  Install :: "'w \<Rightarrow> go_error option \<times> 'w"
  Uninstall :: "'w \<Rightarrow> go_error option \<times> 'w"

definition lcm_condition :: "string \<Rightarrow> bool \<Rightarrow> string \<Rightarrow> string \<Rightarrow> Condition" where
  "lcm_condition t s r m = \<lparr>Type = t, Status = s, Reason = r, Message = Text m\<rparr>"

definition lcm_Reconcile ::
    "'w LifecycleManager \<Rightarrow> bool \<Rightarrow> 'w \<Rightarrow> (Condition list \<times> Result \<times> go_error option) \<times> 'w" where
  "lcm_Reconcile m uninstallRequested w =
     (case Detect m w of
        ((det, Some err), w1) \<Rightarrow> (([], requeue_now, Some err), w1)
      | ((det, None), w1) \<Rightarrow>
     (let state = NextState det in
      if uninstallRequested \<and> state = StateManaged
      then case Uninstall m w1 of
             (Some err, w2) \<Rightarrow> (([], requeue_now, Some err), w2)
           | (None, w2) \<Rightarrow>
               (([lcm_condition ''NvidiaDPFInstalled'' False ''Uninstalled'' ''''], no_result, None), w2)
      else if uninstallRequested
      then (([lcm_condition ''NvidiaDPFInstalled'' False ''SkippedNotManaged''
               ''existing DPF install was not created by opi-nvidia-vsp; leaving in place''], no_result, None), w1)
      else if state = StateAbsent
      then case Install m w1 of
             (Some err, w2) \<Rightarrow> (([], requeue_after (Backoff 1), Some err), w2)
           | (None, w2) \<Rightarrow>
               (([lcm_condition ''NvidiaDPFInstalled'' True ''Installed'' ''''], requeue_after (10 * second), None), w2)
      else if state = StateManaged \<or> state = StateAdopted
      then (([lcm_condition ''NvidiaDPFInstalled'' True (state_string state) ''''], no_result, None), w1)
      else if state = StateForeign
      then (([lcm_condition ''AdoptionRequired'' True ''ForeignDPFDetected''
               ''set adoptExistingDPF=true in the NVIDIA vendor config to adopt''], no_result, None), w1)
      else (([lcm_condition ''ProvisioningDegraded'' True ''DPFVersionIncompatible''
               ''served DPF CRD versions are outside the supported compatibility range; CRD downgrade is refused''],
              no_result, None), w1)))"

text \<open>
  What the callbacks promise: detection reports the installation \<open>det\<close> of the world and does not
  change it, a successful installation brings DPF in a supported version under the manager's own
  markers, a successful uninstallation removes it.
\<close>

locale dpf_installation =
  fixes m :: "'w LifecycleManager" and det :: "'w \<Rightarrow> DPFDetection"
  assumes detect: "Detect m w = ((det w, None), w)"
    and install: "Install m w = (None, w') \<Longrightarrow>
      CRDsPresent (det w') \<and> InstalledByUs (det w') \<and> ServedVersionsOK (det w')"
    and uninstall: "Uninstall m w = (None, w') \<Longrightarrow> \<not> CRDsPresent (det w')"
begin

lemma lcm_by_state:
  "NextState (det w) = StateManaged \<Longrightarrow> lcm_Reconcile m False w =
     (([lcm_condition ''NvidiaDPFInstalled'' True ''Managed'' ''''], no_result, None), w)"
  "NextState (det w) \<in> {StateAdopted, StateForeign, StateIncompatible} \<Longrightarrow> snd (lcm_Reconcile m u w) = w"
  by (auto simp: lcm_Reconcile_def detect Let_def)

lemma installed_managed: "Install m w = (None, w') \<Longrightarrow> NextState (det w') = StateManaged"
  using install by (simp add: NextState_def)

end

text \<open>
  A cluster that remembers what a detection would find and logs the calls; its callbacks do what
  the comments at the fields of \<open>LifecycleManager\<close> promise.
\<close>

record cluster =
  cl_det :: DPFDetection
  cl_log :: "string list"

definition cluster_lcm :: "cluster LifecycleManager" where
  "cluster_lcm =
     \<lparr>Detect = (\<lambda>w. ((cl_det w, None), w)),
      Install = (\<lambda>w. (None, w\<lparr>cl_det := (cl_det w)\<lparr>CRDsPresent := True, InstalledByUs := True, ServedVersionsOK := True\<rparr>,
         cl_log := cl_log w @ [''install'']\<rparr>)),
      Uninstall = (\<lambda>w. (None, w\<lparr>cl_det := (cl_det w)\<lparr>CRDsPresent := False, InstalledByUs := False\<rparr>,
         cl_log := cl_log w @ [''uninstall'']\<rparr>))\<rparr>"

interpretation cl: dpf_installation cluster_lcm cl_det
  by unfold_locales (auto simp: cluster_lcm_def)

definition sample_cluster :: "bool \<Rightarrow> bool \<Rightarrow> cluster" where
  "sample_cluster present ours =
     \<lparr>cl_det = \<lparr>CRDsPresent = present, InstalledByUs = ours, ServedVersionsOK = True, AdoptionRequested = True\<rparr>,
      cl_log = []\<rparr>"

subsection \<open>Properties\<close>

text \<open>
  The preflight decision, as the table of the design: the manager may install only when no CRD
  is present, owns only what it installed in a supported version, adopts only on request, and
  leaves a foreign installation alone exactly when it neither installed nor was asked to adopt it.
\<close>

theorem NextState_table:
  "(NextState d = StateAbsent \<longleftrightarrow> \<not> CRDsPresent d) \<and>
   (NextState d = StateManaged \<longleftrightarrow> CRDsPresent d \<and> InstalledByUs d \<and> ServedVersionsOK d) \<and>
   (NextState d = StateAdopted \<longleftrightarrow> CRDsPresent d \<and> \<not> InstalledByUs d \<and> AdoptionRequested d \<and> ServedVersionsOK d) \<and>
   (NextState d = StateIncompatible \<longleftrightarrow>
      CRDsPresent d \<and> (InstalledByUs d \<or> AdoptionRequested d) \<and> \<not> ServedVersionsOK d) \<and>
   (NextState d = StateForeign \<longleftrightarrow> CRDsPresent d \<and> \<not> InstalledByUs d \<and> \<not> AdoptionRequested d)"
  by (auto simp: NextState_def)

text \<open>
  C12.  One reconcile touches the cluster only through one callback after detection: it uninstalls
  only a managed installation and only on request, installs only when no CRD was detected and no
  uninstall was requested, and otherwise ends in the world detection left; an error leaves no
  condition.
\<close>

theorem lcm_Reconcile_safe:
  assumes "lcm_Reconcile m u w = ((conds, res, err), w')" and "Detect m w = ((det, None), w1)"
  shows "(if u \<and> CRDsPresent det \<and> InstalledByUs det \<and> ServedVersionsOK det
          then Uninstall m w1 = (err, w')
          else if \<not> u \<and> \<not> CRDsPresent det then Install m w1 = (err, w')
          else err = None \<and> w' = w1) \<and>
    (conds = [] \<longleftrightarrow> err \<noteq> None)"
  using assms
  by (auto simp: lcm_Reconcile_def Let_def NextState_def split: option.splits prod.splits if_splits)

lemma lcm_Reconcile_safe_witness:
  "snd (lcm_Reconcile cluster_lcm True (sample_cluster True False)) = sample_cluster True False"
proof -
  obtain c res e w' where r: "lcm_Reconcile cluster_lcm True (sample_cluster True False) = ((c, res, e), w')"
    by (metis prod.collapse)
  from lcm_Reconcile_safe [OF r cl.detect] r show ?thesis by (simp add: sample_cluster_def)
qed

text \<open>
  A sequence of reconciles, with uninstall requested or not each time, never touches an
  installation the manager did not make: whether foreign, adopted or incompatible, the cluster
  stays as it is.
\<close>

theorem lcm_never_removes_foreign:
  assumes "dpf_installation m det" and "CRDsPresent (det w)" and "\<not> InstalledByUs (det w)"
  shows "fold (\<lambda>u w. snd (lcm_Reconcile m u w)) us w = w"
proof -
  have "NextState (det w) \<in> {StateAdopted, StateForeign, StateIncompatible}"
    using assms(2,3) by (auto simp: NextState_def)
  then have "snd (lcm_Reconcile m u w) = w" for u
    by (rule dpf_installation.lcm_by_state(2) [OF assms(1)])
  then show ?thesis by (induction us) simp_all
qed

lemma lcm_never_removes_foreign_witness:
  "fold (\<lambda>u w. snd (lcm_Reconcile cluster_lcm u w)) [True, False, True] (sample_cluster True False) =
     sample_cluster True False"
  by (rule lcm_never_removes_foreign [OF cl.dpf_installation_axioms]) (simp_all add: sample_cluster_def)

text \<open>
  On a bare cluster the manager installs once: after a successful installation the cluster is
  managed and is reported as installed, further reconciles change nothing however many there are,
  and an uninstall request then really removes DPF.
\<close>

theorem lcm_installs_once:
  assumes "dpf_installation m det" and "\<not> CRDsPresent (det w)" and "Install m w = (None, w1)"
    and "Uninstall m w1 = (None, w2)"
  shows "snd (lcm_Reconcile m False w) = w1 \<and>
    fold (\<lambda>_ w. snd (lcm_Reconcile m False w)) [0..<n] w1 = w1 \<and>
    fst (fst (lcm_Reconcile m False w1)) = [lcm_condition ''NvidiaDPFInstalled'' True ''Managed'' ''''] \<and>
    snd (lcm_Reconcile m True w1) = w2 \<and> \<not> CRDsPresent (det w2)"
proof -
  have managed: "NextState (det w1) = StateManaged"
    by (rule dpf_installation.installed_managed [OF assms(1,3)])
  note idle = dpf_installation.lcm_by_state(1) [OF assms(1) managed]
  have "fold (\<lambda>_ w. snd (lcm_Reconcile m False w)) ks w1 = w1" for ks :: "nat list"
    by (induction ks) (simp_all add: idle)
  moreover have "snd (lcm_Reconcile m False w) = w1" "snd (lcm_Reconcile m True w1) = w2"
    using assms managed by (simp_all add: lcm_Reconcile_def dpf_installation.detect [OF assms(1)] NextState_def)
  moreover have "\<not> CRDsPresent (det w2)"
    by (rule dpf_installation.uninstall [OF assms(1,4)])
  ultimately show ?thesis by (simp add: idle)
qed

lemma lcm_installs_once_witness:
  "cl_log (snd (lcm_Reconcile cluster_lcm False (sample_cluster False False))) = [''install'']"
proof -
  obtain w1 w2 where i: "Install cluster_lcm (sample_cluster False False) = (None, w1)" "cl_log w1 = [''install'']"
    and u: "Uninstall cluster_lcm w1 = (None, w2)"
    by (simp add: cluster_lcm_def sample_cluster_def)
  with lcm_installs_once [OF cl.dpf_installation_axioms _ i(1) u] show ?thesis
    by (simp add: sample_cluster_def)
qed

section \<open>Version compatibility\<close>

text \<open>The matrix is a map of maps; \<open>EmitEventAndMetric\<close> may be nil.\<close>

record 'w VersionCompatibilityController =
  DiscoveryClient :: "'w \<Rightarrow> (string \<times> string \<times> go_error option) \<times> 'w"
  Matrix :: "string gomap gomap"
  EmitEventAndMetric :: "(message \<Rightarrow> 'w \<Rightarrow> 'w) option"

definition zero_condition :: Condition where
  "zero_condition = \<lparr>Type = '''', Status = False, Reason = '''', Message = Text ''''\<rparr>"

definition CheckCompatibility ::
    "'w VersionCompatibilityController \<Rightarrow> 'w \<Rightarrow> (Condition \<times> bool \<times> go_error option) \<times> 'w" where
  "CheckCompatibility v w =
     (case DiscoveryClient v w of
        ((opiVer, dpfVer, Some err), w1) \<Rightarrow> ((zero_condition, False, Some err), w1)
      | ((opiVer, dpfVer, None), w1) \<Rightarrow>
     (let profile = (case map_of (Matrix v) opiVer of None \<Rightarrow> None | Some dpfMap \<Rightarrow> map_of dpfMap dpfVer) in
      if profile \<noteq> None \<and> profile \<noteq> Some ''''
      then ((\<lparr>Type = ''VersionIncompatible'', Status = False, Reason = ''Compatible'',
              Message = Sprintf ''Compatibility validated: (OPI %s, DPF %s) matches profile %s''
                [AStr opiVer, AStr dpfVer, AStr (the profile)]\<rparr>, True, None), w1)
      else
        let msg = Sprintf ''No compatibility profile found for (OPI: %s, DPF: %s)'' [AStr opiVer, AStr dpfVer];
            w2 = (case EmitEventAndMetric v of None \<Rightarrow> w1 | Some emit \<Rightarrow> emit msg w1)
        in ((\<lparr>Type = ''VersionIncompatible'', Status = True, Reason = ''NoMatchingProfile'', Message = msg\<rparr>,
             False, None), w2)))"

text \<open>
  The check passes exactly for the version pairs the matrix maps to a non-empty profile, the
  condition's status is the negation of the verdict, and an event is emitted exactly when the
  check fails and an emitter is set.
\<close>

theorem CheckCompatibility_spec:
  assumes "DiscoveryClient v w = ((opiVer, dpfVer, None), w1)"
  shows "\<exists>cond pass w'. CheckCompatibility v w = ((cond, pass, None), w') \<and>
    (pass \<longleftrightarrow> (\<exists>m p. map_of (Matrix v) opiVer = Some m \<and> map_of m dpfVer = Some p \<and> p \<noteq> '''')) \<and>
    Type cond = ''VersionIncompatible'' \<and> Status cond = (\<not> pass) \<and>
    w' = (case EmitEventAndMetric v of Some emit \<Rightarrow> if pass then w1 else emit (Message cond) w1 | None \<Rightarrow> w1)"
  using assms
  by (auto simp: CheckCompatibility_def Let_def split: option.split)

lemma CheckCompatibility_spec_witness:
  "fst (snd (fst (CheckCompatibility
     \<lparr>DiscoveryClient = (\<lambda>w. ((''v1'', ''v24.10'', None), w)), Matrix = [(''v1'', [(''v24.10'', ''default'')])],
      EmitEventAndMetric = Some (\<lambda>m ms. m # ms)\<rparr> []))) = True"
  using CheckCompatibility_spec [of
     "\<lparr>DiscoveryClient = (\<lambda>w. ((''v1'', ''v24.10'', None), w)), Matrix = [(''v1'', [(''v24.10'', ''default'')])],
       EmitEventAndMetric = Some (\<lambda>m ms. m # ms)\<rparr>" "[]" "''v1''" "''v24.10''" "[]"]
  by auto

section \<open>Force cleanup\<close>

record 'w ForceCleanupChecker =
  fc_DPFClient :: "'w DPFClient"
  CheckDPFOperatorAbsent :: "'w \<Rightarrow> (bool \<times> go_error option) \<times> 'w"
  EmitEventAndAuditLog :: "message \<Rightarrow> string \<Rightarrow> 'w \<Rightarrow> 'w"

definition ReconcileForceCleanup ::
    "'w ForceCleanupChecker \<Rightarrow> DPFObject \<Rightarrow> duration \<Rightarrow> bool \<Rightarrow> 'w \<Rightarrow> (Condition \<times> bool \<times> go_error option) \<times> 'w" where
  "ReconcileForceCleanup f obj elapsed hasForceAnnotation w =
     (if elapsed < 30 * minute then ((zero_condition, False, None), w)
      else case CheckDPFOperatorAbsent f w of
        ((absent, Some err), w1) \<Rightarrow> ((zero_condition, False, Some err), w1)
      | ((absent, None), w1) \<Rightarrow>
          if \<not> absent
          then ((\<lparr>Type = ''DPFOperatorUnresponsive'', Status = False, Reason = ''DPFOperatorSlow'',
                  Message = Text ''DPF child is stuck, but DPF operator is still running/responsive. Awaiting standard cleanup.''\<rparr>,
                 False, None), w1)
          else
            let cond = \<lparr>Type = ''DPFOperatorUnresponsive'', Status = True, Reason = ''DPFOperatorConfirmedAbsent'',
                        Message = Sprintf ''Child object %s has been terminating for %s and DPF operator is confirmed absent. Deadlock detected.''
                          [AStr (Name obj), ADur elapsed]\<rparr>
            in if \<not> hasForceAnnotation then ((cond, False, None), w1)
               else
                 let w2 = EmitEventAndAuditLog f
                       (Sprintf ''Force cleanup annotation detected. Stripping finalizers from stuck child %s'' [AStr (Name obj)])
                       ''HIGH'' w1
                 in case cDelete (fc_DPFClient f) (GVK obj) (Namespace obj) (Name obj) w2 of
                      (Some err, w3) \<Rightarrow> ((cond, False, Some err), w3)
                    | (None, w3) \<Rightarrow>
                        ((cond, True, None),
                         EmitEventAndAuditLog f (Sprintf ''Successfully stripped finalizers and deleted %s'' [AStr (Name obj)])
                           ''INFO'' w3))"

text \<open>
  The escape hatch is gated four ways: whatever client and callbacks, a cleanup is reported
  only after thirty minutes, with the operator confirmed absent, with the human annotation, and
  after a delete that succeeded; and when one of the first three is missing nothing is deleted or
  logged, since the world is the one the absence check left, or the initial one before the
  deadline.
\<close>

theorem ForceCleanup_gates:
  assumes "ReconcileForceCleanup f obj elapsed force w = ((cond, cleaned, err), w')"
  shows "(cleaned \<longrightarrow> 30 * minute \<le> elapsed \<and> force \<and> err = None \<and> Status cond \<and>
      (\<exists>w1 w2 w3. CheckDPFOperatorAbsent f w = ((True, None), w1) \<and>
         cDelete (fc_DPFClient f) (GVK obj) (Namespace obj) (Name obj) w2 = (None, w3))) \<and>
    (elapsed < 30 * minute \<longrightarrow> w' = w) \<and>
    (30 * minute \<le> elapsed \<and> (\<not> force \<or> fst (CheckDPFOperatorAbsent f w) \<noteq> (True, None)) \<longrightarrow>
      w' = snd (CheckDPFOperatorAbsent f w) \<and> \<not> cleaned)"
  using assms
  by (cases "CheckDPFOperatorAbsent f w")
    (auto simp: ReconcileForceCleanup_def Let_def split: option.splits prod.splits if_splits)

definition audit_checker :: "bool \<Rightarrow> (message list \<times> mem) ForceCleanupChecker" where
  "audit_checker absent =
     \<lparr>fc_DPFClient =
        \<lparr>cGet = (\<lambda>g ns n (l, w). case mem_Get g ns n w of (r, w') \<Rightarrow> (r, l, w')),
         cList = (\<lambda>g ns s (l, w). case mem_List g ns s w of (r, w') \<Rightarrow> (r, l, w')),
         cApply = (\<lambda>x (l, w). case mem_Apply x w of (r, w') \<Rightarrow> (r, l, w')),
         cDelete = (\<lambda>g ns n (l, w). case mem_Delete g ns n w of (r, w') \<Rightarrow> (r, l, w'))\<rparr>,
      CheckDPFOperatorAbsent = (\<lambda>w. ((absent, None), w)),
      EmitEventAndAuditLog = (\<lambda>m _ (l, w). (l @ [m], w))\<rparr>"

lemma ForceCleanup_gates_witness:
  "\<exists>cond. ReconcileForceCleanup (audit_checker False) (demo_object ''a'') (31 * minute) True ([], NewInMemoryDPFClient) =
     ((cond, False, None), ([], NewInMemoryDPFClient))"
proof -
  obtain cond c e w' where r: "ReconcileForceCleanup (audit_checker False) (demo_object ''a'') (31 * minute) True
      ([], NewInMemoryDPFClient) = ((cond, c, e), w')"
    by (metis prod.collapse)
  from ForceCleanup_gates [OF r] have "w' = ([], NewInMemoryDPFClient) \<and> \<not> c"
    by (simp add: audit_checker_def go_simps)
  with r show ?thesis
    by (auto simp: ReconcileForceCleanup_def audit_checker_def go_simps)
qed

end
