(* ===== verification/AdapterTypes.thy ===== *)
theory AdapterTypes
  imports Prelude
begin

text \<open>
  \<open>divyansh-yadav/feature_skeleton.go\<close>, the data: object metadata, the OPI configuration and the
  DPF child objects, the vocabulary of conditions, labels and timeouts, the registry of translators
  and the shared reference to the active one, the interfaces the controllers call, and the builder
  that wires a controller to the kind it watches.
\<close>

section \<open>Kubernetes stand-ins\<close>

record NamespacedName =
  Namespace :: string
  Name :: string

definition NamespacedName_String :: "NamespacedName \<Rightarrow> string" where
  "NamespacedName_String n = Namespace n @ ''/'' @ Name n"

type_synonym UID = string

record OwnerReference =
  or_APIVersion :: string
  or_Kind :: string
  or_Name :: string
  or_UID :: UID

text \<open>A nil label map and an empty one behave alike in this code: the first is replaced by the second.\<close>

record ObjectMeta =
  om_Name :: string
  om_Namespace :: string
  om_UID :: UID
  Generation :: "64 word"
  Annotations :: "string gomap"
  Labels :: "string gomap"
  OwnerReferences :: "OwnerReference list"
  DeletionTimestamp :: "time option"

record Condition =
  Type :: string
  Status :: string
  Reason :: string
  Message :: string
  ObservedGeneration :: "64 word"
  LastTransitionTime :: time

datatype EventType = EventTypeNormal | EventTypeWarning

text \<open>What the interface \<open>Object\<close> exposes, and one recorded event.\<close>

record Object =
  GetName :: string
  GetNamespace :: string
  GetUID :: UID

record Event =
  ev_object :: Object
  ev_type :: EventType
  ev_reason :: string
  ev_message :: message

definition object_of :: "ObjectMeta \<Rightarrow> Object" where
  "object_of m = \<lparr>GetName = om_Name m, GetNamespace = om_Namespace m, GetUID = om_UID m\<rparr>"

definition ErrObjectNotFound :: go_error where
  "ErrObjectNotFound = Sentinel ''object not found''"

definition IsNotFound :: "go_error \<Rightarrow> bool" where
  "IsNotFound err = errors_Is err ErrObjectNotFound"

record Result =
  Requeue :: bool
  RequeueAfter :: duration

definition empty_Result :: Result where
  "empty_Result = \<lparr>Requeue = False, RequeueAfter = 0\<rparr>"

definition after :: "duration \<Rightarrow> Result" where
  "after d = \<lparr>Requeue = False, RequeueAfter = d\<rparr>"

section \<open>Vocabulary\<close>

definition ConditionTranslationComplete :: string where "ConditionTranslationComplete = ''TranslationComplete''"
definition ConditionPendingHardwareDiscovery :: string where
  "ConditionPendingHardwareDiscovery = ''PendingHardwareDiscovery''"
definition ConditionHardwareDiscoveryFailed :: string where
  "ConditionHardwareDiscoveryFailed = ''HardwareDiscoveryFailed''"
definition ConditionStatusStale :: string where "ConditionStatusStale = ''StatusStale''"
definition ConditionTenantAuthFailure :: string where "ConditionTenantAuthFailure = ''TenantAuthFailure''"
definition ConditionTenantEndpointChanged :: string where "ConditionTenantEndpointChanged = ''TenantEndpointChanged''"
definition ConditionManualOverrideActive :: string where "ConditionManualOverrideActive = ''ManualOverrideActive''"
definition ConditionUnsupportedOPIVersion :: string where "ConditionUnsupportedOPIVersion = ''UnsupportedOPIVersion''"
definition ConditionUnsupportedDPFVersion :: string where "ConditionUnsupportedDPFVersion = ''UnsupportedDPFVersion''"
definition ConditionDPFOperatorUnresponsive :: string where
  "ConditionDPFOperatorUnresponsive = ''DPFOperatorUnresponsive''"
definition ConditionDeletionBlocked :: string where "ConditionDeletionBlocked = ''DeletionBlocked''"

definition AnnotationForceCleanup :: string where "AnnotationForceCleanup = ''opi.io/force-cleanup''"
definition AnnotationUnmanaged :: string where "AnnotationUnmanaged = ''opi.io/unmanaged''"
definition LabelManagedBy :: string where "LabelManagedBy = ''opi.io/managed-by''"
definition LabelSourceUID :: string where "LabelSourceUID = ''opi.io/source-uid''"
definition ManagedByValue :: string where "ManagedByValue = ''opi-nvidia-adapter''"
definition FinalizerAdapterCleanup :: string where "FinalizerAdapterCleanup = ''opi.io/nvidia-adapter-cleanup''"
definition FieldManagerAdapter :: string where "FieldManagerAdapter = ''opi-nvidia-adapter''"

definition DeadlockTimeout :: duration where [go_simps]: "DeadlockTimeout = 30 * minute"
definition HardwareDiscoveryTimeout :: duration where [go_simps]: "HardwareDiscoveryTimeout = 15 * minute"
definition StatusStaleFailureThreshold :: int where [go_simps]: "StatusStaleFailureThreshold = 3"
definition StatusStaleProbeWindow :: duration where [go_simps]: "StatusStaleProbeWindow = 90 * second"
definition DriftReconcileInterval :: duration where [go_simps]: "DriftReconcileInterval = 5 * minute"

section \<open>Versions, configuration, children\<close>

record VersionPair =
  OPIVersion :: string
  DPFVersion :: string

definition VersionPair_String :: "VersionPair \<Rightarrow> string" where
  "VersionPair_String v = ''opi='' @ OPIVersion v @ '',dpf='' @ DPFVersion v"

record DpuOperatorConfigSpec =
  Vendor :: string
  Mode :: string
  NodeSelector :: "string gomap"
  FirmwareBundle_URI :: string
  OffloadServices :: "string list"

record DpuOperatorConfig =
  cfg_Meta :: ObjectMeta
  Spec :: DpuOperatorConfigSpec
  cfg_Conditions :: "Condition list"
  cfg_ObservedGeneration :: "64 word"

record DPFChildObject =
  ch_Meta :: ObjectMeta
  Kind :: string
  APIVersion :: string

section \<open>Translators\<close>

text \<open>
  A translator may read the cluster, so \<open>Translate\<close> runs in a world.  Its children are taken to be
  fresh at every call, as its contract asks ("every call re-derives the full desired set").
\<close>

record 'w Translator =
  Translate :: "DpuOperatorConfigSpec \<Rightarrow> 'w \<Rightarrow> (go_error + DPFChildObject list) \<times> 'w"
  SupportedVersions :: VersionPair

definition ErrNoTranslationProfile :: go_error where
  "ErrNoTranslationProfile = Sentinel ''no translation profile registered for the discovered version pair''"

record 'w TranslatorRegistry =
  profiles :: "(VersionPair \<times> 'w Translator) list"

definition NewTranslatorRegistry :: "'w TranslatorRegistry" where
  "NewTranslatorRegistry = \<lparr>profiles = []\<rparr>"

definition Register :: "'w Translator \<Rightarrow> 'w TranslatorRegistry \<Rightarrow> go_error option \<times> 'w TranslatorRegistry" where
  "Register t r =
     (let key = SupportedVersions t in
      case map_of (profiles r) key of
        Some _ \<Rightarrow>
          (Some (Errorf ''translator already registered for version pair %s'' [AStr (VersionPair_String key)]), r)
      | None \<Rightarrow> (None, r\<lparr>profiles := AList.update key t (profiles r)\<rparr>))"

definition Select :: "'w TranslatorRegistry \<Rightarrow> VersionPair \<Rightarrow> go_error + 'w Translator" where
  "Select r pair = (case map_of (profiles r) pair of None \<Rightarrow> Inl ErrNoTranslationProfile | Some t \<Rightarrow> Inr t)"

text \<open>The shared reference; the mutex makes each method one step.\<close>

record 'w ActiveTranslatorRef =
  translator :: "'w Translator option"

definition ref_Set :: "'w Translator \<Rightarrow> 'w ActiveTranslatorRef \<Rightarrow> 'w ActiveTranslatorRef" where
  "ref_Set t a = a\<lparr>translator := Some t\<rparr>"

definition ref_Clear :: "'w ActiveTranslatorRef \<Rightarrow> 'w ActiveTranslatorRef" where
  "ref_Clear a = a\<lparr>translator := None\<rparr>"

definition ref_Get :: "'w ActiveTranslatorRef \<Rightarrow> 'w Translator option" where
  "ref_Get a = translator a"

section \<open>Interfaces\<close>

text \<open>\<open>Client.Get\<close> at the two types the controllers fetch.\<close>

record 'w Client =
  GetConfig :: "NamespacedName \<Rightarrow> 'w \<Rightarrow> (go_error + DpuOperatorConfig) \<times> 'w"
  GetChild :: "NamespacedName \<Rightarrow> 'w \<Rightarrow> (go_error + DPFChildObject) \<times> 'w"

record 'w SchemaDiscoverer =
  DiscoverOPIVersion :: "'w \<Rightarrow> (go_error + string) \<times> 'w"
  DiscoverDPFVersion :: "'w \<Rightarrow> (go_error + string) \<times> 'w"

type_synonym 'w EventRecorder = "Event \<Rightarrow> 'w \<Rightarrow> 'w"
type_synonym 'w NodeLister = "string gomap \<Rightarrow> 'w \<Rightarrow> (go_error + string list) \<times> 'w"
type_synonym 'w HardwareDiscoveryChecker = "string \<Rightarrow> 'w \<Rightarrow> (go_error + bool) \<times> 'w"
type_synonym 'w ServerSideApplier = "DPFChildObject \<Rightarrow> string \<Rightarrow> 'w \<Rightarrow> go_error option \<times> 'w"

section \<open>Wiring\<close>

datatype watched_kind = Watch_DpuOperatorConfig | Watch_DPUSet | Watch_CRDObject
datatype EventFilter = GenerationChangedPredicate

record controllerBuilder =
  watched :: "watched_kind option"
  filters :: "EventFilter list"

definition NewControllerManagedBy :: controllerBuilder where
  "NewControllerManagedBy = \<lparr>watched = None, filters = []\<rparr>"

definition For :: "watched_kind \<Rightarrow> controllerBuilder \<Rightarrow> controllerBuilder" where
  "For obj b = b\<lparr>watched := Some obj\<rparr>"

definition WithEventFilter :: "EventFilter \<Rightarrow> controllerBuilder \<Rightarrow> controllerBuilder" where
  "WithEventFilter f b = b\<lparr>filters := filters b @ [f]\<rparr>"

text \<open>\<open>Complete\<close> returns nil; the builder is kept to say what was wired.\<close>

definition Complete :: "controllerBuilder \<Rightarrow> go_error option \<times> controllerBuilder" where
  "Complete b = (None, b)"

datatype controller = Translator_c | StatusAggregator_c | VersionCompatibility_c | Drift_c | Deadlock_c

fun SetupWithManager :: "controller \<Rightarrow> go_error option \<times> controllerBuilder" where
  "SetupWithManager Translator_c =
     Complete (WithEventFilter GenerationChangedPredicate (For Watch_DpuOperatorConfig NewControllerManagedBy))"
| "SetupWithManager StatusAggregator_c = Complete (For Watch_DPUSet NewControllerManagedBy)"
| "SetupWithManager VersionCompatibility_c = Complete (For Watch_CRDObject NewControllerManagedBy)"
| "SetupWithManager Drift_c = Complete (For Watch_DPUSet NewControllerManagedBy)"
| "SetupWithManager Deadlock_c = Complete (For Watch_DpuOperatorConfig NewControllerManagedBy)"

lemmas wiring_defs = NewControllerManagedBy_def For_def WithEventFilter_def Complete_def

text \<open>
  Wiring: two controllers watch the OPI configuration, the translator behind the
  generation filter and the deadlock recovery without it; the other three watch DPF objects or
  schemas only.  So the rule stated beside the watched-resource types, that only the translator
  watches the OPI object, does not hold of the wiring.
\<close>

theorem SetupWithManager_watches:
  "(watched (snd (SetupWithManager c)) = Some Watch_DpuOperatorConfig \<longleftrightarrow> c = Translator_c \<or> c = Deadlock_c) \<and>
   (GenerationChangedPredicate \<in> set (filters (snd (SetupWithManager c))) \<longleftrightarrow> c = Translator_c) \<and>
   fst (SetupWithManager c) = None"
  by (cases c) (simp_all add: wiring_defs)

section \<open>Properties of the registry\<close>

text \<open>The registries that registrations lead to: every profile sits under the pair it declares.\<close>

inductive registry_reachable :: "'w TranslatorRegistry \<Rightarrow> bool" where
  registry_new: "registry_reachable NewTranslatorRegistry"
| registry_step: "registry_reachable r \<Longrightarrow> Register t r = (e, r') \<Longrightarrow> registry_reachable r'"

definition registry_ok :: "'w TranslatorRegistry \<Rightarrow> bool" where
  "registry_ok r = (distinct (map fst (profiles r)) \<and> list_all (\<lambda>(k, t). SupportedVersions t = k) (profiles r))"

lemma Register_eq:
  "Register t r =
     (if SupportedVersions t \<in> fst ` set (profiles r)
      then (Some (Errorf ''translator already registered for version pair %s''
              [AStr (VersionPair_String (SupportedVersions t))]), r)
      else (None, r\<lparr>profiles := profiles r @ [(SupportedVersions t, t)]\<rparr>))"
proof -
  have new: "AList.update k v m = m @ [(k, v)]" if "k \<notin> fst ` set m" for k and v :: "'a Translator" and m
    using that by (induction m) auto
  show ?thesis
  proof (cases "map_of (profiles r) (SupportedVersions t)")
    case None
    then have "SupportedVersions t \<notin> fst ` set (profiles r)" by (simp add: map_of_eq_None_iff)
    with None show ?thesis by (simp add: Register_def Let_def new)
  next
    case (Some u)
    then have "SupportedVersions t \<in> fst ` set (profiles r)"
      by (metis map_of_eq_None_iff option.distinct(1))
    with Some show ?thesis by (simp add: Register_def Let_def)
  qed
qed

lemma registry_reachable_ok: "registry_reachable r \<Longrightarrow> registry_ok r"
proof (induction rule: registry_reachable.induct)
  case registry_new
  then show ?case by (simp add: registry_ok_def NewTranslatorRegistry_def)
next
  case (registry_step r t e r')
  then show ?case by (auto simp: Register_eq registry_ok_def split: if_splits)
qed

text \<open>
  Selection is exact: in every registry that registrations build, the translator selected for a
  version pair is one that declares that very pair, a second registration for a pair is refused
  and changes nothing, and a pair nobody declared is an error, never a guess.
\<close>

theorem Select_exact:
  assumes "registry_reachable r"
  shows "(\<forall>t. Select r pair = Inr t \<longrightarrow> SupportedVersions t = pair \<and> (pair, t) \<in> set (profiles r)) \<and>
    (Select r pair = Inl ErrNoTranslationProfile \<longleftrightarrow> pair \<notin> SupportedVersions ` snd ` set (profiles r)) \<and>
    (fst (Register t' r) = None \<longleftrightarrow> Select r (SupportedVersions t') = Inl ErrNoTranslationProfile) \<and>
    (\<forall>t. Select r pair = Inr t \<longrightarrow> Select (snd (Register t' r)) pair = Inr t)"
proof -
  have ok: "distinct (map fst (profiles r))" "\<And>k t. (k, t) \<in> set (profiles r) \<Longrightarrow> SupportedVersions t = k"
    using registry_reachable_ok [OF assms] by (auto simp: registry_ok_def list_all_iff)
  have keys: "SupportedVersions ` snd ` set (profiles r) = fst ` set (profiles r)"
    using ok(2) by force
  have none: "Select r p = Inl ErrNoTranslationProfile \<longleftrightarrow> p \<notin> fst ` set (profiles r)" for p
    by (auto simp: Select_def map_of_eq_None_iff split: option.split dest: map_of_SomeD intro: rev_image_eqI)
  have some: "Select r p = Inr t \<longleftrightarrow> map_of (profiles r) p = Some t" for p t
    by (simp add: Select_def split: option.split)
  show ?thesis
  proof (intro conjI allI impI)
    fix t assume "Select r pair = Inr t"
    then have "map_of (profiles r) pair = Some t" by (simp add: some)
    then have mem: "(pair, t) \<in> set (profiles r)" by (rule map_of_SomeD)
    then show "(pair, t) \<in> set (profiles r)" and "SupportedVersions t = pair" using ok(2) by auto
    show "Select (snd (Register t' r)) pair = Inr t"
      using \<open>map_of (profiles r) pair = Some t\<close> by (simp add: Register_eq Select_def map_add_def)
  qed (auto simp: none keys Register_eq)
qed

definition idle_translator :: "VersionPair \<Rightarrow> unit Translator" where
  "idle_translator p = \<lparr>Translate = (\<lambda>spec w. (Inr [], w)), SupportedVersions = p\<rparr>"

lemma Select_exact_witness:
  defines "p \<equiv> \<lparr>OPIVersion = ''v1'', DPFVersion = ''v2''\<rparr>"
  shows "Select (snd (Register (idle_translator p) NewTranslatorRegistry)) p = Inr (idle_translator p) \<and>
    SupportedVersions (projr (Select (snd (Register (idle_translator p) NewTranslatorRegistry)) p)) = p"
proof -
  let ?r = "snd (Register (idle_translator p) NewTranslatorRegistry)"
  have "registry_reachable ?r"
    by (rule registry_step [OF registry_new]) (rule prod.collapse [symmetric])
  moreover have sel: "Select ?r p = Inr (idle_translator p)"
    by (simp add: Register_eq NewTranslatorRegistry_def Select_def idle_translator_def)
  ultimately have "SupportedVersions (idle_translator p) = p"
    using Select_exact [of ?r p] by blast
  with sel show ?thesis by simp
qed

end
