(* ===== verification/AdapterControllers.thy ===== *)
theory AdapterControllers
  imports AdapterTypes
begin

text \<open>
  \<open>divyansh-yadav/feature_skeleton.go\<close>, the controllers without memory of their own: translation,
  version compatibility, drift and deadlock recovery.  A nil interface field is \<open>None\<close>; the
  reference to the active translator is state the version controller writes and the translator
  controller reads.
\<close>

section \<open>TranslatorController\<close>

record 'w TranslatorController =
  tc_Client :: "'w Client"
  HardwareDiscovery :: "'w HardwareDiscoveryChecker option"
  Nodes :: "'w NodeLister option"
  Applier :: "'w ServerSideApplier option"

definition New_error :: "string \<Rightarrow> go_error" where
  "New_error s = Sentinel s"

text \<open>The loop over the matching nodes: \<open>Some\<close> is the early return, the pair it returns.\<close>

definition check_node ::
    "'w HardwareDiscoveryChecker option \<Rightarrow> string \<Rightarrow> 'w \<Rightarrow> (Result \<times> go_error option) option \<times> 'w" where
  "check_node hw nodeName w =
     (case hw of
        None \<Rightarrow> (Some (empty_Result, Some (New_error ''hardware discovery checker is not configured'')), w)
      | Some isDiscovered \<Rightarrow>
          (case isDiscovered nodeName w of
             (Inl err, w') \<Rightarrow>
               (Some (empty_Result, Some (Errorf ''checking hardware discovery for node %q: %w'' [AStr nodeName, AWrap err])), w')
           | (Inr discovered, w') \<Rightarrow>
               (if \<not> discovered then Some (after (30 * second), None) else None, w')))"

definition owner_of :: "DpuOperatorConfig \<Rightarrow> OwnerReference" where
  "owner_of c =
     \<lparr>or_APIVersion = ''dpuoperator.opi.io/v1alpha1'', or_Kind = ''DpuOperatorConfig'',
      or_Name = om_Name (cfg_Meta c), or_UID = om_UID (cfg_Meta c)\<rparr>"

definition owned_child :: "DpuOperatorConfig \<Rightarrow> DPFChildObject \<Rightarrow> DPFChildObject" where
  "owned_child c obj =
     obj\<lparr>ch_Meta := (ch_Meta obj)
       \<lparr>Labels := AList.update LabelSourceUID (om_UID (cfg_Meta c))
                    (AList.update LabelManagedBy ManagedByValue (Labels (ch_Meta obj))),
        OwnerReferences := [owner_of c]\<rparr>\<rparr>"

definition tc_Reconcile ::
    "'w TranslatorController \<Rightarrow> 'w ActiveTranslatorRef option \<Rightarrow> NamespacedName \<Rightarrow> 'w \<Rightarrow>
      (Result \<times> go_error option) \<times> 'w" where
  "tc_Reconcile r active req w =
     (case GetConfig (tc_Client r) req w of
        (Inl err, w1) \<Rightarrow>
          if IsNotFound err then ((empty_Result, None), w1)
          else ((empty_Result, Some (Errorf ''fetching DpuOperatorConfig: %w'' [AWrap err])), w1)
      | (Inr c, w1) \<Rightarrow>
     if DeletionTimestamp (cfg_Meta c) \<noteq> None then ((empty_Result, None), w1)
     else case active of
        None \<Rightarrow> ((empty_Result, Some (New_error ''active translator reference is not configured'')), w1)
      | Some ref \<Rightarrow>
     (case ref_Get ref of
        None \<Rightarrow> ((empty_Result, None), w1)
      | Some tr \<Rightarrow>
     (case Nodes r of
        None \<Rightarrow> ((empty_Result, Some (New_error ''node lister is not configured'')), w1)
      | Some listNodes \<Rightarrow>
     (case listNodes (NodeSelector (Spec c)) w1 of
        (Inl err, w2) \<Rightarrow> ((empty_Result, Some (Errorf ''listing nodes matching selector: %w'' [AWrap err])), w2)
      | (Inr nodeNames, w2) \<Rightarrow>
     (case each_until_err (check_node (HardwareDiscovery r)) nodeNames w2 of
        (Some (_, ret), w3) \<Rightarrow> (ret, w3)
      | (None, w3) \<Rightarrow>
     (case Translate tr (Spec c) w3 of
        (Inl err, w4) \<Rightarrow>
          ((empty_Result, Some (Errorf ''translating OPI spec to DPF objects: %w'' [AWrap err])), w4)
      | (Inr desired, w4) \<Rightarrow>
     (case Applier r of
        None \<Rightarrow> ((empty_Result, Some (New_error ''server-side applier is not configured'')), w4)
      | Some applyObj \<Rightarrow>
     (case each_until_err (\<lambda>obj. applyObj (owned_child c obj) FieldManagerAdapter) desired w4 of
        (Some (obj, err), w5) \<Rightarrow>
          ((empty_Result, Some (Errorf ''server-side applying %s/%s %s: %w''
             [AStr (om_Namespace (ch_Meta obj)), AStr (om_Name (ch_Meta obj)), AStr (Kind obj), AWrap err])), w5)
      | (None, w5) \<Rightarrow> ((empty_Result, None), w5)))))))))"

section \<open>VersionCompatibilityController\<close>

record 'w VersionCompatibilityController =
  Registry :: "'w TranslatorRegistry"
  Discoverer :: "'w SchemaDiscoverer"
  Recorder :: "'w EventRecorder option"
  adapterSelf :: "Object option"

definition vc_Reconcile ::
    "'w VersionCompatibilityController \<Rightarrow> 'w ActiveTranslatorRef option \<Rightarrow> 'w \<Rightarrow>
      (Result \<times> go_error option) \<times> 'w ActiveTranslatorRef option \<times> 'w" where
  "vc_Reconcile r active w =
     (case DiscoverOPIVersion (Discoverer r) w of
        (Inl err, w1) \<Rightarrow>
          ((empty_Result, Some (Errorf ''discovering OPI schema version: %w'' [AWrap err])), active, w1)
      | (Inr opiVer, w1) \<Rightarrow>
     (case DiscoverDPFVersion (Discoverer r) w1 of
        (Inl err, w2) \<Rightarrow>
          ((empty_Result, Some (Errorf ''discovering DPF schema version: %w'' [AWrap err])), active, w2)
      | (Inr dpfVer, w2) \<Rightarrow>
     (let pair = \<lparr>OPIVersion = opiVer, DPFVersion = dpfVer\<rparr> in
      case Select (Registry r) pair of
        Inl err \<Rightarrow>
          let w3 = (case (Recorder r, adapterSelf r) of
                      (Some eventf, Some self) \<Rightarrow>
                        eventf \<lparr>ev_object = self, ev_type = EventTypeWarning,
                                ev_reason = ConditionUnsupportedOPIVersion,
                                ev_message = Sprintf ''unsupported version pair: %s'' [AStr (VersionPair_String pair)]\<rparr> w2
                    | _ \<Rightarrow> w2)
          in ((empty_Result, None), map_option ref_Clear active, w3)
      | Inr t \<Rightarrow> ((after (5 * minute), None), map_option (ref_Set t) active, w2))))"

section \<open>DriftReconciliationController\<close>

definition drift_Reconcile :: "'w Client \<Rightarrow> NamespacedName \<Rightarrow> 'w \<Rightarrow> (Result \<times> go_error option) \<times> 'w" where
  "drift_Reconcile client req w =
     (case GetChild client req w of
        (Inl err, w1) \<Rightarrow>
          if IsNotFound err then ((empty_Result, None), w1)
          else ((empty_Result, Some (Errorf ''fetching object for drift check: %w'' [AWrap err])), w1)
      | (Inr obj, w1) \<Rightarrow>
          if map_of (Annotations (ch_Meta obj)) AnnotationUnmanaged = Some ''true''
          then ((after DriftReconcileInterval, None), w1)
          else ((after DriftReconcileInterval, None), w1))"

section \<open>DeadlockRecoveryController\<close>

text \<open>The interface \<open>DPFChildLister\<close>: the count and the oldest deletion time come beside the error.\<close>

record 'w DPFChildLister =
  ListStuckChildren :: "UID \<Rightarrow> 'w \<Rightarrow> (int \<times> time \<times> go_error option) \<times> 'w"
  StripFinalizers :: "UID \<Rightarrow> 'w \<Rightarrow> go_error option \<times> 'w"

record 'w DeadlockRecoveryController =
  dl_Client :: "'w Client"
  Children :: "'w DPFChildLister"
  Liveness :: "'w \<Rightarrow> (go_error + bool) \<times> 'w"
  dl_Recorder :: "'w EventRecorder option"

definition dl_Reconcile ::
    "'w DeadlockRecoveryController \<Rightarrow> ('w \<Rightarrow> time) \<Rightarrow> NamespacedName \<Rightarrow> 'w \<Rightarrow> (Result \<times> go_error option) \<times> 'w" where
  "dl_Reconcile r now req w =
     (case GetConfig (dl_Client r) req w of
        (Inl err, w1) \<Rightarrow>
          if IsNotFound err then ((empty_Result, None), w1)
          else ((empty_Result, Some (Errorf ''fetching DpuOperatorConfig: %w'' [AWrap err])), w1)
      | (Inr c, w1) \<Rightarrow>
     if DeletionTimestamp (cfg_Meta c) = None then ((empty_Result, None), w1)
     else case ListStuckChildren (Children r) (om_UID (cfg_Meta c)) w1 of
        ((_, _, Some err), w2) \<Rightarrow>
          ((empty_Result, Some (Errorf ''listing DPF children during deletion: %w'' [AWrap err])), w2)
      | ((childrenRemaining, oldestTerminating, None), w2) \<Rightarrow>
     if childrenRemaining = 0 then ((empty_Result, None), w2)
     else if now w2 - oldestTerminating < DeadlockTimeout then ((after minute, None), w2)
     else case Liveness r w2 of
        (Inl err, w3) \<Rightarrow> ((empty_Result, Some (Errorf ''checking DPF operator liveness: %w'' [AWrap err])), w3)
      | (Inr live, w3) \<Rightarrow>
     if live then ((after minute, None), w3)
     else if map_of (Annotations (cfg_Meta c)) AnnotationForceCleanup \<noteq> Some ''true'' then ((after minute, None), w3)
     else
       let w4 = (case dl_Recorder r of
                   None \<Rightarrow> w3
                 | Some eventf \<Rightarrow>
                     eventf \<lparr>ev_object = object_of (cfg_Meta c), ev_type = EventTypeWarning,
                             ev_reason = ConditionDPFOperatorUnresponsive,
                             ev_message = Sprintf ''force-cleanup annotation present; stripping DPF finalizers from %d stuck child object(s)''
                               [AInt childrenRemaining]\<rparr> w3)
       in case StripFinalizers (Children r) (om_UID (cfg_Meta c)) w4 of
            (Some err, w5) \<Rightarrow>
              ((empty_Result, Some (Errorf ''stripping DPF finalizers during force-cleanup: %w'' [AWrap err])), w5)
          | (None, w5) \<Rightarrow> ((empty_Result, None), w5))"

section \<open>Properties of the translator controller\<close>

text \<open>What an object carries so that the adapter recognises it as a child of one configuration.\<close>

definition managed_child :: "DpuOperatorConfig \<Rightarrow> DPFChildObject \<Rightarrow> bool" where
  "managed_child c obj =
     (map_of (Labels (ch_Meta obj)) LabelManagedBy = Some ManagedByValue \<and>
      map_of (Labels (ch_Meta obj)) LabelSourceUID = Some (om_UID (cfg_Meta c)) \<and>
      OwnerReferences (ch_Meta obj) = [owner_of c])"

lemma owned_child_managed: "managed_child c (owned_child c obj)"
  by (simp add: managed_child_def owned_child_def LabelManagedBy_def LabelSourceUID_def)

lemma each_until_err_cong:
  "(\<And>x w. x \<in> set xs \<Longrightarrow> f x w = g x w) \<Longrightarrow> each_until_err f xs w = each_until_err g xs w"
  by (induction xs arbitrary: w) (auto split: prod.split option.split)

text \<open>
  C13.  Everything the translator applies is a managed child: two appliers that agree on objects
  carrying the managed-by label, the owner's UID label and the owner reference of the fetched
  configuration, under the adapter's field manager, cannot be told apart by a reconcile.
\<close>

theorem tc_applies_only_managed:
  assumes "GetConfig (tc_Client r) req w = (Inr c, w1)"
    and "\<And>obj u. managed_child c obj \<Longrightarrow> A obj FieldManagerAdapter u = B obj FieldManagerAdapter u"
  shows "tc_Reconcile (r\<lparr>Applier := Some A\<rparr>) active req w = tc_Reconcile (r\<lparr>Applier := Some B\<rparr>) active req w"
proof -
  have "each_until_err (\<lambda>obj. A (owned_child c obj) FieldManagerAdapter) xs u =
      each_until_err (\<lambda>obj. B (owned_child c obj) FieldManagerAdapter) xs u" for xs u
    by (rule each_until_err_cong) (rule assms(2) [OF owned_child_managed])
  then show ?thesis
    using assms(1) by (simp add: tc_Reconcile_def cong: option.case_cong sum.case_cong prod.case_cong)
qed

text \<open>A small cluster for the witnesses: the world is the list of applied objects.\<close>

definition plain_meta :: "string \<Rightarrow> ObjectMeta" where
  "plain_meta n = \<lparr>om_Name = n, om_Namespace = ''dpf'', om_UID = n @ ''-uid'', Generation = 1, Annotations = [],
     Labels = [], OwnerReferences = [], DeletionTimestamp = None\<rparr>"

definition plain_cfg :: DpuOperatorConfig where
  "plain_cfg = \<lparr>cfg_Meta = plain_meta ''config'',
     Spec = \<lparr>Vendor = ''nvidia'', Mode = ''dpu'', NodeSelector = [(''dpu'', ''true'')], FirmwareBundle_URI = ''bfb'',
       OffloadServices = []\<rparr>, cfg_Conditions = [], cfg_ObservedGeneration = 0\<rparr>"

type_synonym applied = "DPFChildObject list"

definition log_applier :: "applied ServerSideApplier" where
  "log_applier obj fm w = (None, w @ [obj])"

definition log_controller :: "bool \<Rightarrow> applied TranslatorController" where
  "log_controller discovered =
     \<lparr>tc_Client = \<lparr>GetConfig = (\<lambda>_ w. (Inr plain_cfg, w)), GetChild = (\<lambda>_ w. (Inl ErrObjectNotFound, w))\<rparr>,
      HardwareDiscovery = Some (\<lambda>_ w. (Inr discovered, w)),
      Nodes = Some (\<lambda>_ w. (Inr [''node-1''], w)),
      Applier = Some log_applier\<rparr>"

definition bfb_translator :: "applied Translator" where
  "bfb_translator =
     \<lparr>Translate = (\<lambda>spec w. (Inr [\<lparr>ch_Meta = plain_meta ''bundle'', Kind = ''BFB'',
         APIVersion = ''provisioning.dpu.nvidia.com/v1alpha1''\<rparr>], w)),
      SupportedVersions = \<lparr>OPIVersion = ''v1alpha1'', DPFVersion = ''v1alpha1''\<rparr>\<rparr>"

definition sample_req :: NamespacedName where
  "sample_req = \<lparr>Namespace = ''dpf'', Name = ''config''\<rparr>"

text \<open>An applier that would drop objects without the label does the same as the logging one.\<close>

lemma tc_applies_only_managed_witness:
  "tc_Reconcile ((log_controller True)\<lparr>Applier := Some (\<lambda>obj fm w.
       if managed_child plain_cfg obj then log_applier obj fm w else (Some ErrObjectNotFound, []))\<rparr>)
     (Some \<lparr>translator = Some bfb_translator\<rparr>) sample_req [] =
   tc_Reconcile (log_controller True) (Some \<lparr>translator = Some bfb_translator\<rparr>) sample_req []"
proof -
  have g: "GetConfig (tc_Client (log_controller True)) sample_req [] = (Inr plain_cfg, [])"
    by (simp add: log_controller_def)
  have same: "(log_controller True)\<lparr>Applier := Some log_applier\<rparr> = log_controller True"
    by (simp add: log_controller_def)
  show ?thesis
    by (subst (2) same [symmetric]) (rule tc_applies_only_managed [OF g], simp)
qed

lemma undiscovered_stops:
  assumes "n \<in> set ns" and "\<And>u. fst (hw n u) = Inr False"
  shows "\<exists>x ret u'. each_until_err (check_node (Some hw)) ns u = (Some (x, ret), u') \<and>
    (snd ret = None \<longrightarrow> ret = (after (30 * second), None))"
  using assms(1)
proof (induction ns arbitrary: u)
  case (Cons m ns)
  obtain a u1 where h: "hw m u = (a, u1)" by fastforce
  show ?case
  proof (cases "a = Inr True")
    case True
    with h assms(2) [of u] have "m \<noteq> n" by auto
    with Cons.prems Cons.IH [of u1] True h show ?thesis by (simp add: check_node_def)
  next
    case False
    with h show ?thesis by (cases a) (auto simp: check_node_def)
  qed
qed simp

text \<open>
  The hardware gate holds: while one of the matching nodes is not discovered, a reconcile ends
  before translation, so neither the translator nor the applier has any influence on it, and
  unless it fails it asks to be called again in thirty seconds.
\<close>

theorem tc_hardware_gate:
  assumes "GetConfig (tc_Client r) req w = (Inr c, w1)" and "DeletionTimestamp (cfg_Meta c) = None"
    and "Nodes r = Some lst" and "lst (NodeSelector (Spec c)) w1 = (Inr ns, w2)"
    and "HardwareDiscovery r = Some hw" and "n \<in> set ns" and "\<And>u. fst (hw n u) = Inr False"
  shows "\<exists>res err w'. (\<forall>t A. tc_Reconcile (r\<lparr>Applier := A\<rparr>) (Some \<lparr>translator = Some t\<rparr>) req w = ((res, err), w')) \<and>
    (err = None \<longrightarrow> res = after (30 * second))"
proof -
  obtain x ret u' where "each_until_err (check_node (Some hw)) ns w2 = (Some (x, ret), u')"
    and "snd ret = None \<longrightarrow> ret = (after (30 * second), None)"
    using undiscovered_stops [where hw = hw, OF assms(6,7)] by metis
  with assms(1-5) show ?thesis
    by (cases ret) (auto simp: tc_Reconcile_def ref_Get_def)
qed

lemma tc_hardware_gate_witness:
  "fst (tc_Reconcile (log_controller False) (Some \<lparr>translator = Some bfb_translator\<rparr>) sample_req []) =
     (after (30 * second), None)"
proof -
  have same: "(log_controller False)\<lparr>Applier := Some log_applier\<rparr> = log_controller False"
    by (simp add: log_controller_def)
  obtain res err w' where r: "\<forall>t A. tc_Reconcile ((log_controller False)\<lparr>Applier := A\<rparr>) (Some \<lparr>translator = Some t\<rparr>)
      sample_req [] = ((res, err), w')" and e: "err = None \<longrightarrow> res = after (30 * second)"
    using tc_hardware_gate [of "log_controller False" sample_req "[]" plain_cfg "[]" "\<lambda>_ w. (Inr [''node-1''], w)"
        "[''node-1'']" "[]" "\<lambda>_ w. (Inr False, w)" "''node-1''"]
    by (auto simp: log_controller_def plain_cfg_def plain_meta_def)
  have "tc_Reconcile (log_controller False) (Some \<lparr>translator = Some bfb_translator\<rparr>) sample_req [] = ((res, err), w')"
    using spec [OF spec [OF r, of bfb_translator], of "Some log_applier"] same by simp
  moreover from this have "err = None"
    by (simp add: tc_Reconcile_def log_controller_def plain_cfg_def plain_meta_def ref_Get_def check_node_def)
  ultimately show ?thesis using e by simp
qed

section \<open>Properties of the version controller\<close>

text \<open>The pair a reconcile of the version controller discovers, when both discoveries succeed.\<close>

definition discovered :: "'w VersionCompatibilityController \<Rightarrow> 'w \<Rightarrow> VersionPair option" where
  "discovered r w =
     (case DiscoverOPIVersion (Discoverer r) w of
        (Inl _, _) \<Rightarrow> None
      | (Inr opiVer, w1) \<Rightarrow>
          (case DiscoverDPFVersion (Discoverer r) w1 of
             (Inl _, _) \<Rightarrow> None
           | (Inr dpfVer, _) \<Rightarrow> Some \<lparr>OPIVersion = opiVer, DPFVersion = dpfVer\<rparr>))"

lemma vc_Reconcile_ref:
  assumes "vc_Reconcile r (Some ref) w = (res, ref', w')"
  shows "ref' = Some (case discovered r w of
      None \<Rightarrow> ref
    | Some p \<Rightarrow> (case Select (Registry r) p of Inl _ \<Rightarrow> ref_Clear ref | Inr t \<Rightarrow> ref_Set t ref))"
  using assms
  by (auto simp: vc_Reconcile_def discovered_def Let_def split: sum.splits prod.splits option.splits)

text \<open>
  A run of the adapter: the reference starts empty, the version controller reconciles, everything
  else (translator reconciles included) only changes the world.  The last component is the last
  pair discovered.
\<close>

inductive adapter_run :: "'w VersionCompatibilityController \<Rightarrow> 'w ActiveTranslatorRef \<Rightarrow> 'w \<Rightarrow> VersionPair option \<Rightarrow> bool"
  for r where
  adapter_start: "adapter_run r \<lparr>translator = None\<rparr> w None"
| adapter_env: "adapter_run r ref w p \<Longrightarrow> adapter_run r ref w' p"
| adapter_vc: "adapter_run r ref w p \<Longrightarrow> vc_Reconcile r (Some ref) w = (res, Some ref', w') \<Longrightarrow>
    adapter_run r ref' w' (case discovered r w of None \<Rightarrow> p | Some q \<Rightarrow> Some q)"

inductive_cases adapter_vcE: "adapter_run r ref w p"

text \<open>
  In every run the active translator is the registered one for the version pair discovered
  last: none is active when that pair has no profile, and a failed discovery changes nothing.
\<close>

theorem active_translator_current:
  assumes "adapter_run r ref w p" and "registry_reachable (Registry r)"
  shows "case translator ref of
      Some t \<Rightarrow> p = Some (SupportedVersions t) \<and> Select (Registry r) (SupportedVersions t) = Inr t
    | None \<Rightarrow> (\<forall>q. p = Some q \<longrightarrow> Select (Registry r) q = Inl ErrNoTranslationProfile)"
  using assms(1)
proof (induction rule: adapter_run.induct)
  case (adapter_vc ref w p res ref' w')
  have declared: "SupportedVersions t = q" if "Select (Registry r) q = Inr t" for q t
    using registry_reachable_ok [OF assms(2)] that
    by (auto simp: Select_def registry_ok_def list_all_iff split: option.splits dest: map_of_SomeD)
  have err: "e = ErrNoTranslationProfile" if "Select (Registry r) q = Inl e" for q e
    using that by (auto simp: Select_def split: option.splits)
  from vc_Reconcile_ref [OF adapter_vc.hyps(2)] adapter_vc.IH show ?case
    by (auto simp: ref_Set_def ref_Clear_def declared err split: option.splits sum.splits)
qed simp_all

definition sample_vc :: "string \<Rightarrow> applied VersionCompatibilityController" where
  "sample_vc dpf =
     \<lparr>Registry = snd (Register bfb_translator NewTranslatorRegistry),
      Discoverer = \<lparr>DiscoverOPIVersion = (\<lambda>w. (Inr ''v1alpha1'', w)), DiscoverDPFVersion = (\<lambda>w. (Inr dpf, w))\<rparr>,
      Recorder = None, adapterSelf = None\<rparr>"

lemma active_translator_current_witness:
  "\<exists>ref. vc_Reconcile (sample_vc ''v1alpha1'') (Some \<lparr>translator = None\<rparr>) [] =
       ((after (5 * minute), None), Some ref, []) \<and> translator ref = Some bfb_translator \<and>
     Select (Registry (sample_vc ''v1alpha1'')) (SupportedVersions bfb_translator) = Inr bfb_translator"
proof -
  have reg: "registry_reachable (Registry (sample_vc ''v1alpha1''))"
    unfolding sample_vc_def by simp (rule registry_step [OF registry_new], rule prod.collapse [symmetric])
  have v: "vc_Reconcile (sample_vc ''v1alpha1'') (Some \<lparr>translator = None\<rparr>) [] =
      ((after (5 * minute), None), Some \<lparr>translator = Some bfb_translator\<rparr>, [])"
    by (simp add: vc_Reconcile_def sample_vc_def Register_def NewTranslatorRegistry_def Select_def bfb_translator_def
        ref_Set_def Let_def)
  from active_translator_current [OF adapter_vc [OF adapter_start v] reg] v show ?thesis by simp
qed

text \<open>
  The circuit breaker: after a reconcile of the version controller that found an unsupported
  pair, a reconcile of the translator ends without error from translation, applies nothing and
  asks for no retry, whatever its node lister, checker and applier are.
\<close>

theorem unsupported_pair_stops_translation:
  assumes "vc_Reconcile r (Some ref) w = (res, Some ref', w')"
    and "discovered r w = Some p" and "Select (Registry r) p = Inl e"
    and "GetConfig (tc_Client t) req u = (Inr c, u1)"
  shows "fst res = empty_Result \<and> snd res = None \<and>
    tc_Reconcile t (Some ref') req u = ((empty_Result, None), u1)"
proof -
  have "translator ref' = None"
    using vc_Reconcile_ref [OF assms(1)] assms(2,3) by (simp add: ref_Clear_def)
  moreover have "res = (empty_Result, None)"
    using assms(1-3) by (auto simp: vc_Reconcile_def discovered_def Let_def split: sum.splits prod.splits option.splits)
  ultimately show ?thesis using assms(4) by (simp add: tc_Reconcile_def ref_Get_def)
qed

lemma unsupported_pair_stops_translation_witness:
  "\<exists>ref'. vc_Reconcile (sample_vc ''v2'') (Some \<lparr>translator = Some bfb_translator\<rparr>) [] = ((empty_Result, None), Some ref', []) \<and>
     tc_Reconcile (log_controller True) (Some ref') sample_req [] = ((empty_Result, None), [])"
proof -
  let ?p = "\<lparr>OPIVersion = ''v1alpha1'', DPFVersion = ''v2''\<rparr>"
  have sel: "Select (Registry (sample_vc ''v2'')) ?p = Inl ErrNoTranslationProfile"
    by (simp add: sample_vc_def Select_def Register_def NewTranslatorRegistry_def bfb_translator_def Let_def)
  have d: "discovered (sample_vc ''v2'') [] = Some ?p" by (simp add: discovered_def sample_vc_def)
  obtain res ref' w' where v: "vc_Reconcile (sample_vc ''v2'') (Some \<lparr>translator = Some bfb_translator\<rparr>) [] = (res, Some ref', w')"
    and "w' = []" and "res = (empty_Result, None)"
    using sel by (simp add: vc_Reconcile_def sample_vc_def Let_def)
  have g: "GetConfig (tc_Client (log_controller True)) sample_req [] = (Inr plain_cfg, [])"
    by (simp add: log_controller_def)
  from unsupported_pair_stops_translation [OF v d sel g] v \<open>w' = []\<close> show ?thesis by (cases res) auto
qed

section \<open>Properties of deadlock recovery\<close>

definition strip_gates :: "DpuOperatorConfig \<Rightarrow> int \<Rightarrow> go_error option \<Rightarrow> duration \<Rightarrow> go_error + bool \<Rightarrow> bool" where
  "strip_gates c n lerr age live =
     (DeletionTimestamp (cfg_Meta c) \<noteq> None \<and> lerr = None \<and> n \<noteq> 0 \<and> DeadlockTimeout \<le> age \<and>
      live = Inr False \<and> map_of (Annotations (cfg_Meta c)) AnnotationForceCleanup = Some ''true'')"

text \<open>
  Finalizers are stripped only behind all five gates: the configuration is being deleted,
  children remain, the oldest has been terminating for the deadlock timeout, the operator is
  confirmed gone, and a human set the annotation.  Otherwise the way of stripping cannot influence
  the reconcile; behind them the audit event, when a recorder is there, comes before the strip.
\<close>

theorem dl_strip_gates:
  assumes "GetConfig (dl_Client r) req w = (Inr c, w1)"
    and "ListStuckChildren (Children r) (om_UID (cfg_Meta c)) w1 = ((n, oldest, lerr), w2)"
    and "Liveness r w2 = (live, w3)"
  shows "if strip_gates c n lerr (now w2 - oldest) live
    then \<exists>w4. snd (dl_Reconcile r now req w) = snd (StripFinalizers (Children r) (om_UID (cfg_Meta c)) w4) \<and>
      (case dl_Recorder r of None \<Rightarrow> w4 = w3 | Some eventf \<Rightarrow>
         (\<exists>ev. ev_reason ev = ConditionDPFOperatorUnresponsive \<and> ev_type ev = EventTypeWarning \<and> w4 = eventf ev w3))
    else dl_Reconcile (r\<lparr>Children := (Children r)\<lparr>StripFinalizers := S\<rparr>\<rparr>) now req w = dl_Reconcile r now req w"
proof (cases "strip_gates c n lerr (now w2 - oldest) live")
  case False
  with assms show ?thesis
    by (cases lerr; cases live) (auto simp: dl_Reconcile_def strip_gates_def)
next
  case True
  then obtain t where "DeletionTimestamp (cfg_Meta c) = Some t" "lerr = None" "n \<noteq> 0"
    "\<not> now w2 - oldest < DeadlockTimeout" "live = Inr False"
    "map_of (Annotations (cfg_Meta c)) AnnotationForceCleanup = Some ''true''"
    by (auto simp: strip_gates_def)
  note gates = this
  let ?ev = "\<lparr>ev_object = object_of (cfg_Meta c), ev_type = EventTypeWarning,
      ev_reason = ConditionDPFOperatorUnresponsive,
      ev_message = Sprintf ''force-cleanup annotation present; stripping DPF finalizers from %d stuck child object(s)''
        [AInt n]\<rparr>"
  let ?w4 = "case dl_Recorder r of None \<Rightarrow> w3 | Some eventf \<Rightarrow> eventf ?ev w3"
  have "snd (dl_Reconcile r now req w) = snd (StripFinalizers (Children r) (om_UID (cfg_Meta c)) ?w4)"
    using assms gates by (simp add: dl_Reconcile_def Let_def split: prod.split option.split)
  moreover have "case dl_Recorder r of None \<Rightarrow> ?w4 = w3 | Some eventf \<Rightarrow>
      \<exists>ev. ev_reason ev = ConditionDPFOperatorUnresponsive \<and> ev_type ev = EventTypeWarning \<and> ?w4 = eventf ev w3"
    by (auto split: option.split intro!: exI [of _ ?ev])
  ultimately show ?thesis using True by auto
qed

definition sample_deadlock :: "bool \<Rightarrow> (Event list \<times> bool) DeadlockRecoveryController" where
  "sample_deadlock live =
     \<lparr>dl_Client = \<lparr>GetConfig = (\<lambda>_ w. (Inr (plain_cfg\<lparr>cfg_Meta := (plain_meta ''config'')
         \<lparr>Annotations := [(AnnotationForceCleanup, ''true'')], DeletionTimestamp := Some 0\<rparr>\<rparr>), w)),
         GetChild = (\<lambda>_ w. (Inl ErrObjectNotFound, w))\<rparr>,
      Children = \<lparr>ListStuckChildren = (\<lambda>_ w. ((2, 0, None), w)), StripFinalizers = (\<lambda>_ (l, s). (None, (l, True)))\<rparr>,
      Liveness = (\<lambda>w. (Inr live, w)),
      dl_Recorder = Some (\<lambda>ev (l, s). (l @ [ev], s))\<rparr>"

lemma dl_strip_gates_witness:
  "snd (snd (dl_Reconcile (sample_deadlock False) (\<lambda>_. 31 * minute) sample_req ([], False))) = True"
proof -
  let ?r = "sample_deadlock False"
  let ?c = "plain_cfg\<lparr>cfg_Meta := (plain_meta ''config'')
         \<lparr>Annotations := [(AnnotationForceCleanup, ''true'')], DeletionTimestamp := Some 0\<rparr>\<rparr>"
  have g: "GetConfig (dl_Client ?r) sample_req ([], False) = (Inr ?c, ([], False))"
    by (simp add: sample_deadlock_def)
  have l: "ListStuckChildren (Children ?r) (om_UID (cfg_Meta ?c)) ([], False) = ((2, 0, None), ([], False))"
    by (simp add: sample_deadlock_def)
  have v: "Liveness ?r ([], False) = (Inr False, ([], False))" by (simp add: sample_deadlock_def)
  have "strip_gates ?c 2 None (31 * minute - 0) (Inr False)" by (simp add: strip_gates_def go_simps)
  with dl_strip_gates [OF g l v, of "\<lambda>_. 31 * minute"] obtain w4 where
    "snd (dl_Reconcile ?r (\<lambda>_. 31 * minute) sample_req ([], False)) =
       snd (StripFinalizers (Children ?r) (om_UID (cfg_Meta ?c)) w4)"
    by auto
  then show ?thesis by (cases w4) (simp add: sample_deadlock_def)
qed

end
