(* ===== verification/AdapterStatus.thy ===== *)
theory AdapterStatus
  imports AdapterTypes
begin

text \<open>
  \<open>divyansh-yadav/feature_skeleton.go\<close>, \<open>StatusAggregatorController\<close>: the one controller with
  memory.  Per object it keeps the last endpoint, the number of failed probes in a row and the time
  the failure window was opened; the mutex makes each reconcile one step on this memory.
\<close>

section \<open>The controller\<close>

record 'w TenantClusterProbe =
  CurrentEndpoint :: "string \<Rightarrow> 'w \<Rightarrow> (go_error + string) \<times> 'w"
  ProbeServiceStatus :: "string \<Rightarrow> 'w \<Rightarrow> (bool \<times> go_error option) \<times> 'w"

text \<open>A nil map reads like an empty one and is made before the first write.\<close>

record StatusAggregator =
  lastKnownEndpoint :: "NamespacedName \<rightharpoonup> string"
  consecutiveFailures :: "NamespacedName \<rightharpoonup> int"
  windowStart :: "NamespacedName \<rightharpoonup> time"

definition NewStatusAggregator :: StatusAggregator where
  "NewStatusAggregator =
     \<lparr>lastKnownEndpoint = Map.empty, consecutiveFailures = Map.empty, windowStart = Map.empty\<rparr>"

definition failures :: "StatusAggregator \<Rightarrow> NamespacedName \<Rightarrow> int" where
  "failures st k = (case consecutiveFailures st k of None \<Rightarrow> 0 | Some n \<Rightarrow> n)"

text \<open>The endpoint check, the failed probe and the successful probe.\<close>

definition note_endpoint :: "NamespacedName \<Rightarrow> string \<Rightarrow> StatusAggregator \<Rightarrow> StatusAggregator" where
  "note_endpoint k currentEndpoint st =
     (let st1 = (case lastKnownEndpoint st k of
                   Some prev \<Rightarrow>
                     (if prev \<noteq> currentEndpoint
                      then st\<lparr>consecutiveFailures := (consecutiveFailures st)(k \<mapsto> 0)\<rparr> else st)
                 | None \<Rightarrow> st)
      in st1\<lparr>lastKnownEndpoint := (lastKnownEndpoint st1)(k \<mapsto> currentEndpoint)\<rparr>)"

definition note_failure :: "NamespacedName \<Rightarrow> time \<Rightarrow> StatusAggregator \<Rightarrow> StatusAggregator" where
  "note_failure k now st =
     (let st1 = st\<lparr>consecutiveFailures := (consecutiveFailures st)(k \<mapsto> failures st k + 1)\<rparr>;
          st2 = (case windowStart st1 k of
                   Some _ \<Rightarrow> st1
                 | None \<Rightarrow> st1\<lparr>windowStart := (windowStart st1)(k \<mapsto> now)\<rparr>);
          windowElapsed = (now - the (windowStart st2 k) > StatusStaleProbeWindow)
      in if failures st2 k \<ge> StatusStaleFailureThreshold \<and> windowElapsed
         then st2\<lparr>consecutiveFailures := (consecutiveFailures st2)(k \<mapsto> 0),
                  windowStart := (windowStart st2)(k := None)\<rparr>
         else st2)"

definition note_success :: "NamespacedName \<Rightarrow> StatusAggregator \<Rightarrow> StatusAggregator" where
  "note_success k st =
     st\<lparr>consecutiveFailures := (consecutiveFailures st)(k \<mapsto> 0), windowStart := (windowStart st)(k := None)\<rparr>"

definition sa_Reconcile ::
    "'w TenantClusterProbe \<Rightarrow> ('w \<Rightarrow> time) \<Rightarrow> NamespacedName \<Rightarrow> StatusAggregator \<Rightarrow> 'w \<Rightarrow>
      (Result \<times> go_error option) \<times> StatusAggregator \<times> 'w" where
  "sa_Reconcile probe now k st w =
     (case CurrentEndpoint probe (Name k) w of
        (Inl err, w1) \<Rightarrow>
          ((empty_Result, Some (Errorf ''reading DPUCluster status endpoint: %w'' [AWrap err])), st, w1)
      | (Inr currentEndpoint, w1) \<Rightarrow>
          let st1 = note_endpoint k currentEndpoint st in
          case ProbeServiceStatus probe currentEndpoint w1 of
            ((ready, Some err), w2) \<Rightarrow> ((after (30 * second), None), note_failure k (now w2) st1, w2)
          | ((ready, None), w2) \<Rightarrow> ((after minute, None), note_success k st1, w2))"

lemmas note_defs = note_endpoint_def note_failure_def note_success_def failures_def Let_def

section \<open>Invariant and isolation\<close>

text \<open>Failures are counted only inside an open window, and never negatively.\<close>

definition sa_ok :: "StatusAggregator \<Rightarrow> bool" where
  "sa_ok st = (\<forall>k. 0 \<le> failures st k \<and> (0 < failures st k \<longrightarrow> windowStart st k \<noteq> None))"

lemma note_endpoint_ok: "sa_ok st \<Longrightarrow> sa_ok (note_endpoint k e st)"
  by (auto simp: sa_ok_def note_defs split: option.splits)

lemma note_success_ok: "sa_ok st \<Longrightarrow> sa_ok (note_success k st)"
  by (auto simp: sa_ok_def note_defs)

lemma note_failure_window:
  "windowStart (note_failure k t st) k = None \<longleftrightarrow> failures (note_failure k t st) k = 0 \<and>
     StatusStaleFailureThreshold \<le> failures st k + 1 \<and>
     (\<exists>s. windowStart st k = Some s \<and> StatusStaleProbeWindow < t - s)"
  by (auto simp: note_defs go_simps split: option.splits)

lemma note_failure_ok:
  assumes "sa_ok st"
  shows "sa_ok (note_failure k t st)"
proof -
  have here: "0 \<le> failures (note_failure k t st) k \<and>
      (0 < failures (note_failure k t st) k \<longrightarrow> windowStart (note_failure k t st) k \<noteq> None)"
    using assms by (auto simp: sa_ok_def note_defs dest: spec [of _ k] split: option.splits)
  have other: "failures (note_failure k t st) j = failures st j" "windowStart (note_failure k t st) j = windowStart st j"
    if "j \<noteq> k" for j
    using that by (auto simp: note_defs split: option.splits)
  show ?thesis
    unfolding sa_ok_def
  proof
    fix j
    show "0 \<le> failures (note_failure k t st) j \<and>
        (0 < failures (note_failure k t st) j \<longrightarrow> windowStart (note_failure k t st) j \<noteq> None)"
      using here other [of j] assms by (cases "j = k") (auto simp: sa_ok_def)
  qed
qed

inductive sa_reachable :: "'w TenantClusterProbe \<Rightarrow> ('w \<Rightarrow> time) \<Rightarrow> StatusAggregator \<Rightarrow> bool" for probe now where
  sa_new: "sa_reachable probe now NewStatusAggregator"
| sa_step: "sa_reachable probe now st \<Longrightarrow> sa_Reconcile probe now k st w = (res, st', w') \<Longrightarrow> sa_reachable probe now st'"

inductive_simps sa_reachable_new: "sa_reachable probe now NewStatusAggregator"

lemma sa_step_ok: "sa_ok st \<Longrightarrow> sa_Reconcile probe now k st w = (res, st', w') \<Longrightarrow> sa_ok st'"
  by (auto simp: sa_Reconcile_def Let_def note_endpoint_ok note_success_ok note_failure_ok
      split: sum.splits prod.splits option.splits)

text \<open>
  In every state that reconciles reach, under any interleaving of objects, a positive failure
  count always has an open window and no count is negative; and one reconcile changes the memory
  of no other object.
\<close>

theorem sa_reachable_ok:
  assumes "sa_reachable probe now st"
  shows "sa_ok st \<and>
    (\<forall>k w res st' w' j. sa_Reconcile probe now k st w = (res, st', w') \<and> j \<noteq> k \<longrightarrow>
       lastKnownEndpoint st' j = lastKnownEndpoint st j \<and> consecutiveFailures st' j = consecutiveFailures st j \<and>
       windowStart st' j = windowStart st j)"
proof
  show "sa_ok st"
    using assms
  proof (induction rule: sa_reachable.induct)
    case sa_new
    then show ?case by (simp add: sa_ok_def NewStatusAggregator_def failures_def)
  qed (rule sa_step_ok)
  show "\<forall>k w res st' w' j. sa_Reconcile probe now k st w = (res, st', w') \<and> j \<noteq> k \<longrightarrow>
       lastKnownEndpoint st' j = lastKnownEndpoint st j \<and> consecutiveFailures st' j = consecutiveFailures st j \<and>
       windowStart st' j = windowStart st j"
    by (auto simp: sa_Reconcile_def note_defs split: sum.splits prod.splits option.splits if_splits)
qed

section \<open>Staleness\<close>

text \<open>A tenant cluster whose world is a clock, an endpoint and whether probes succeed.\<close>

record tenant =
  t_clock :: time
  t_endpoint :: string
  t_up :: bool

definition tenant_probe :: "tenant TenantClusterProbe" where
  "tenant_probe =
     \<lparr>CurrentEndpoint = (\<lambda>_ w. (Inr (t_endpoint w), w)),
      ProbeServiceStatus = (\<lambda>_ w. ((t_up w, if t_up w then None else Some (External ''unreachable'')), w))\<rparr>"

definition sample_key :: NamespacedName where
  "sample_key = \<lparr>Namespace = ''dpf'', Name = ''tenant''\<rparr>"

lemma sa_reachable_ok_witness:
  "sa_ok (fst (snd (sa_Reconcile tenant_probe t_clock sample_key NewStatusAggregator
     \<lparr>t_clock = 5, t_endpoint = ''a'', t_up = False\<rparr>)))"
proof -
  let ?r = "sa_Reconcile tenant_probe t_clock sample_key NewStatusAggregator \<lparr>t_clock = 5, t_endpoint = ''a'', t_up = False\<rparr>"
  have "sa_reachable tenant_probe t_clock (fst (snd ?r))"
    by (rule sa_step [OF sa_new, where res = "fst ?r" and w' = "snd (snd ?r)"]) simp
  from sa_reachable_ok [OF this] show ?thesis by blast
qed

text \<open>
  The threshold is exact: a failed probe closes the window, the point where the status may be
  downgraded, if and only if it is at least the third failure in a row counted for this object and
  the window has been open for more than ninety seconds; otherwise it leaves the window open and
  counts one more failure.
\<close>

theorem sa_downgrade_threshold:
  assumes "CurrentEndpoint probe (Name k) w = (Inr e, w1)" and "ProbeServiceStatus probe e w1 = ((b, Some err), w2)"
    and "sa_Reconcile probe now k st w = (res, st', w')"
  defines "n \<equiv> (if lastKnownEndpoint st k \<in> {None, Some e} then failures st k else 0) + 1"
  shows "res = (after (30 * second), None) \<and>
    (if 3 \<le> n \<and> (\<exists>s. windowStart st k = Some s \<and> 90 * second < now w2 - s)
     then failures st' k = 0 \<and> windowStart st' k = None
     else failures st' k = n \<and> windowStart st' k = Some (case windowStart st k of Some s \<Rightarrow> s | None \<Rightarrow> now w2))"
  using assms(1-3) unfolding n_def
  by (auto simp: sa_Reconcile_def note_defs StatusStaleFailureThreshold_def StatusStaleProbeWindow_def second_def
      split: option.splits if_splits)

lemma sa_downgrade_threshold_witness:
  "failures (fst (snd (sa_Reconcile tenant_probe t_clock sample_key NewStatusAggregator
     \<lparr>t_clock = 5, t_endpoint = ''a'', t_up = False\<rparr>))) sample_key = 1"
proof -
  let ?w = "\<lparr>t_clock = 5, t_endpoint = ''a'', t_up = False\<rparr>"
  obtain res st' w' where r: "sa_Reconcile tenant_probe t_clock sample_key NewStatusAggregator ?w = (res, st', w')"
    by (metis prod.collapse)
  have "CurrentEndpoint tenant_probe (Name sample_key) ?w = (Inr ''a'', ?w)"
    and "ProbeServiceStatus tenant_probe ''a'' ?w = ((False, Some (External ''unreachable'')), ?w)"
    by (simp_all add: tenant_probe_def)
  from sa_downgrade_threshold [OF this r] r show ?thesis
    by (simp add: NewStatusAggregator_def failures_def)
qed

text \<open>
  A changed endpoint resets the failure count but keeps the old window: the first failure at
  the new endpoint leaves the window open since the old endpoint's first failure, so the ninety
  seconds are measured from there and the new endpoint does inherit history.
\<close>

theorem sa_endpoint_change_keeps_window:
  assumes "lastKnownEndpoint st k = Some e" and "windowStart st k = Some s"
    and "CurrentEndpoint probe (Name k) w = (Inr e', w1)" and "e' \<noteq> e"
    and "ProbeServiceStatus probe e' w1 = ((b, Some err), w2)"
    and "sa_Reconcile probe now k st w = (res, st', w')"
  shows "failures st' k = 1 \<and> windowStart st' k = Some s \<and> lastKnownEndpoint st' k = Some e'"
  using assms by (auto simp: sa_Reconcile_def note_defs StatusStaleFailureThreshold_def)

definition run_at :: "(time \<times> string) list \<Rightarrow> StatusAggregator \<Rightarrow> StatusAggregator" where
  "run_at xs st = fold (\<lambda>(t, e) st. fst (snd (sa_Reconcile tenant_probe t_clock sample_key st
     \<lparr>t_clock = t, t_endpoint = e, t_up = False\<rparr>))) xs st"

text \<open>
  One failure at endpoint \<open>a\<close>, then three at endpoint \<open>b\<close> within two seconds: the window closes,
  although \<open>b\<close> was never observed for ninety seconds.
\<close>

lemma sa_endpoint_change_keeps_window_witness:
  "windowStart (run_at [(0, ''a''), (100 * second, ''b'')] NewStatusAggregator) sample_key = Some 0 \<and>
   windowStart (run_at [(0, ''a''), (100 * second, ''b''), (101 * second, ''b''), (102 * second, ''b'')]
     NewStatusAggregator) sample_key = None"
proof -
  let ?st = "run_at [(0, ''a'')] NewStatusAggregator"
  let ?w = "\<lparr>t_clock = 100 * second, t_endpoint = ''b'', t_up = False\<rparr>"
  obtain res st' w' where r: "sa_Reconcile tenant_probe t_clock sample_key ?st ?w = (res, st', w')"
    by (metis prod.collapse)
  have st: "lastKnownEndpoint ?st sample_key = Some ''a''" "windowStart ?st sample_key = Some 0"
    by (simp_all add: run_at_def sa_Reconcile_def tenant_probe_def note_defs NewStatusAggregator_def go_simps)
  have c: "CurrentEndpoint tenant_probe (Name sample_key) ?w = (Inr ''b'', ?w)"
    and p: "ProbeServiceStatus tenant_probe ''b'' ?w = ((False, Some (External ''unreachable'')), ?w)"
    by (simp_all add: tenant_probe_def)
  have "windowStart st' sample_key = Some 0"
    using sa_endpoint_change_keeps_window [OF st c _ p r] by simp
  moreover have "st' = run_at [(0, ''a''), (100 * second, ''b'')] NewStatusAggregator"
    using r by (simp add: run_at_def)
  moreover have "windowStart (run_at [(0, ''a''), (100 * second, ''b''), (101 * second, ''b''), (102 * second, ''b'')]
     NewStatusAggregator) sample_key = None"
    by (simp add: run_at_def sa_Reconcile_def tenant_probe_def note_defs NewStatusAggregator_def go_simps)
  ultimately show ?thesis by simp
qed

text \<open>
  At the cadence the reconciler itself asks for, one probe every thirty seconds, an outage of
  a freshly watched tenant closes its window with the fifth failed probe, two minutes in, and not
  earlier: after up to four probes the failures are just counted.
\<close>

theorem sa_outage_cadence:
  "(\<forall>n \<le> 4. failures (run_at (map (\<lambda>i. (int i * 30 * second, e)) [0..<n]) NewStatusAggregator) sample_key = int n) \<and>
   windowStart (run_at (map (\<lambda>i. (int i * 30 * second, e)) [0..<5]) NewStatusAggregator) sample_key = None"
proof -
  have "failures (run_at (map (\<lambda>i. (int i * 30 * second, e)) [0..<n]) NewStatusAggregator) sample_key = int n"
    if "n \<in> {0, 1, 2, 3, 4}" for n
    using that
    by (elim insertE emptyE; simp only:)
      (simp_all add: run_at_def sa_Reconcile_def tenant_probe_def note_defs NewStatusAggregator_def go_simps upt_conv_Cons)
  moreover have "n \<le> 4 \<Longrightarrow> n \<in> {0, 1, 2, 3, 4}" for n :: nat by auto
  moreover have "windowStart (run_at (map (\<lambda>i. (int i * 30 * second, e)) [0..<5]) NewStatusAggregator) sample_key = None"
    by (simp add: run_at_def sa_Reconcile_def tenant_probe_def note_defs NewStatusAggregator_def go_simps upt_conv_Cons)
  ultimately show ?thesis by blast
qed

lemma sa_outage_cadence_witness:
  "failures (run_at (map (\<lambda>i. (int i * 30 * second, ''a'')) [0..<4]) NewStatusAggregator) sample_key = 4"
  using sa_outage_cadence [of "''a''"] by simp

end
