(* ===== verification/Breaker.thy ===== *)
theory Breaker
  imports Prelude
begin

text \<open>
  \<open>rishan/feature_skeleton.go\<close>, section 5: the circuit breaker.  \<open>Execute\<close> holds its mutex before
  and after the guarded call but not during it, so it is two steps, \<open>cb_enter\<close> and \<open>cb_exit\<close>;
  \<open>Execute\<close> composes them for one caller and \<open>cb_run\<close> interleaves them for many.
\<close>

section \<open>The breaker\<close>

datatype CircuitState = CircuitClosed | CircuitOpen | CircuitHalfOpen

record CircuitBreaker =
  state :: CircuitState
  consecutiveFails :: int
  failThreshold :: int
  lastFailure :: time
  cooldownPeriod :: duration

definition NewCircuitBreaker :: "int \<Rightarrow> duration \<Rightarrow> CircuitBreaker" where
  "NewCircuitBreaker thr cool =
     \<lparr>state = CircuitClosed, consecutiveFails = 0, failThreshold = thr, lastFailure = zero_time,
      cooldownPeriod = cool\<rparr>"

definition cb_enter :: "time \<Rightarrow> CircuitBreaker \<Rightarrow> go_error option \<times> CircuitBreaker" where
  "cb_enter now cb =
     (case state cb of
        CircuitOpen \<Rightarrow>
          if now - lastFailure cb > cooldownPeriod cb then (None, cb\<lparr>state := CircuitHalfOpen\<rparr>)
          else (Some (Errorf ''circuit breaker OPEN: DPU bridge unavailable, retry after %v''
                  [ADur (cooldownPeriod cb - (now - lastFailure cb))]), cb)
      | _ \<Rightarrow> (None, cb))"

definition cb_exit :: "time \<Rightarrow> go_error option \<Rightarrow> CircuitBreaker \<Rightarrow> CircuitBreaker" where
  "cb_exit now err cb =
     (case err of
        Some _ \<Rightarrow>
          let cb1 = cb\<lparr>consecutiveFails := consecutiveFails cb + 1, lastFailure := now\<rparr>
          in if consecutiveFails cb1 \<ge> failThreshold cb1 then cb1\<lparr>state := CircuitOpen\<rparr> else cb1
      | None \<Rightarrow> cb\<lparr>consecutiveFails := 0, state := CircuitClosed\<rparr>)"

text \<open>
  The guarded function may return a value beside its error (the closure of the caller assigns it);
  it is missing when the call was rejected.
\<close>

definition Execute ::
    "('w \<Rightarrow> time) \<Rightarrow> ('w \<Rightarrow> ('r \<times> go_error option) \<times> 'w) \<Rightarrow> CircuitBreaker \<Rightarrow> 'w \<Rightarrow>
      ('r option \<times> go_error option) \<times> CircuitBreaker \<times> 'w" where
  "Execute now fn cb w =
     (case cb_enter (now w) cb of
        (Some err, cb1) \<Rightarrow> ((None, Some err), cb1, w)
      | (None, cb1) \<Rightarrow>
          (case fn w of
             ((r, err), w1) \<Rightarrow> ((Some r, err), cb_exit (now w1) err cb1, w1)))"

definition State :: "CircuitBreaker \<Rightarrow> CircuitState" where
  "State cb = state cb"

lemmas cb_defs = cb_enter_def cb_exit_def Let_def

section \<open>Many callers\<close>

text \<open>
  The steps of callers that share a breaker: the number counts the calls in flight, and time never
  goes back.
\<close>

inductive cb_run :: "int \<Rightarrow> duration \<Rightarrow> CircuitBreaker \<Rightarrow> nat \<Rightarrow> time \<Rightarrow> bool" for thr cool where
  cb_new: "cb_run thr cool (NewCircuitBreaker thr cool) 0 t"
| cb_tick: "cb_run thr cool cb n t \<Longrightarrow> t \<le> t' \<Longrightarrow> cb_run thr cool cb n t'"
| cb_accept: "cb_run thr cool cb n t \<Longrightarrow> cb_enter t cb = (None, cb') \<Longrightarrow> cb_run thr cool cb' (Suc n) t"
| cb_reject: "cb_run thr cool cb n t \<Longrightarrow> cb_enter t cb = (Some e, cb') \<Longrightarrow> cb_run thr cool cb' n t"
| cb_return: "cb_run thr cool cb (Suc n) t \<Longrightarrow> cb_run thr cool (cb_exit t err cb) n t"

definition cb_ok :: "int \<Rightarrow> duration \<Rightarrow> time \<Rightarrow> CircuitBreaker \<Rightarrow> bool" where
  "cb_ok thr cool t cb =
     (failThreshold cb = thr \<and> cooldownPeriod cb = cool \<and> 0 \<le> consecutiveFails cb \<and>
      (state cb = CircuitClosed \<longleftrightarrow> consecutiveFails cb < thr) \<and>
      (0 < consecutiveFails cb \<longrightarrow> lastFailure cb \<le> t))"

lemma cb_enter_ok: "cb_ok thr cool t cb \<Longrightarrow> cb_enter t cb = (e, cb') \<Longrightarrow> cb_ok thr cool t cb'"
  by (auto simp: cb_ok_def cb_enter_def split: CircuitState.splits if_splits)

lemma cb_exit_ok: "0 < thr \<Longrightarrow> cb_ok thr cool t cb \<Longrightarrow> cb_ok thr cool t (cb_exit t err cb)"
  by (cases "state cb"; cases err) (auto simp: cb_ok_def cb_exit_def Let_def)

lemma cb_run_ok: "cb_run thr cool cb n t \<Longrightarrow> 0 < thr \<Longrightarrow> cb_ok thr cool t cb"
proof (induction rule: cb_run.induct)
  case cb_new
  then show ?case by (simp add: cb_ok_def NewCircuitBreaker_def)
next
  case (cb_tick cb n t t')
  then show ?case by (auto simp: cb_ok_def)
qed (blast intro: cb_enter_ok cb_exit_ok)+

text \<open>
  C14.  However callers interleave, the breaker is closed exactly while the count of failures in a
  row is below the threshold; so a failed test call reopens it at once, a successful call closes
  it, and a new call is turned away exactly when the breaker is open and the cooldown since the
  last failure has not passed.
\<close>

theorem breaker_states:
  assumes "cb_run thr cool cb n t" and "0 < thr"
  shows "(State cb = CircuitClosed \<longleftrightarrow> consecutiveFails cb < thr) \<and>
    (State cb = CircuitHalfOpen \<longrightarrow> State (cb_exit t (Some e) cb) = CircuitOpen) \<and>
    State (cb_exit t None cb) = CircuitClosed \<and>
    (fst (cb_enter t cb) \<noteq> None \<longleftrightarrow> State cb = CircuitOpen \<and> t - lastFailure cb \<le> cool)"
  using cb_run_ok [OF assms] \<open>0 < thr\<close>
  by (auto simp: cb_ok_def State_def cb_defs split: CircuitState.splits)

definition down :: go_error where "down = External ''bridge down''"

text \<open>Two calls in flight of which both fail, at threshold two.\<close>

lemma two_failures_run:
  "cb_run 2 10 (cb_exit 5 (Some down) (cb_exit 5 (Some down) (NewCircuitBreaker 2 10))) 0 7"
proof -
  let ?cb = "NewCircuitBreaker 2 10"
  have e: "cb_enter 5 ?cb = (None, ?cb)" by (simp add: cb_enter_def NewCircuitBreaker_def)
  have "cb_run 2 10 ?cb (Suc (Suc 0)) 5" by (rule cb_accept [OF cb_accept [OF cb_new e] e])
  then have "cb_run 2 10 (cb_exit 5 (Some down) (cb_exit 5 (Some down) ?cb)) 0 5" by (intro cb_return)
  then show ?thesis by (rule cb_tick) simp
qed

lemma breaker_states_witness:
  "State (cb_exit 5 (Some down) (cb_exit 5 (Some down) (NewCircuitBreaker 2 10))) \<noteq> CircuitClosed \<and>
   fst (cb_enter 7 (cb_exit 5 (Some down) (cb_exit 5 (Some down) (NewCircuitBreaker 2 10)))) \<noteq> None"
  using breaker_states [OF two_failures_run, of down]
  by (simp add: State_def cb_exit_def NewCircuitBreaker_def)

text \<open>
  The half-open state does not limit the test to one call: after the cooldown two callers can
  both be let through before either returns.
\<close>

theorem half_open_admits_two:
  "\<exists>cb t. cb_run 1 cool cb 2 t \<and> State cb = CircuitHalfOpen"
proof -
  let ?cb = "NewCircuitBreaker 1 cool"
  let ?open = "cb_exit 0 (Some down) ?cb"
  have "cb_enter 0 ?cb = (None, ?cb)" by (simp add: cb_enter_def NewCircuitBreaker_def)
  from cb_return [OF cb_accept [OF cb_new this]] have "cb_run 1 cool ?open 0 0" .
  then have o: "cb_run 1 cool ?open 0 (max 0 (cool + 1))" by (rule cb_tick) simp
  have e1: "cb_enter (max 0 (cool + 1)) ?open = (None, ?open\<lparr>state := CircuitHalfOpen\<rparr>)"
    by (simp add: cb_defs NewCircuitBreaker_def)
  have e2: "cb_enter (max 0 (cool + 1)) (?open\<lparr>state := CircuitHalfOpen\<rparr>) = (None, ?open\<lparr>state := CircuitHalfOpen\<rparr>)"
    by (simp add: cb_enter_def)
  from cb_accept [OF cb_accept [OF o e1] e2] show ?thesis
    by (auto simp: numeral_2_eq_2 State_def intro!: exI)
qed

section \<open>One caller against a dead bridge\<close>

text \<open>A guarded call that always fails and counts how often it really ran; the clock stands still.\<close>

definition dead_call :: "nat \<Rightarrow> (unit \<times> go_error option) \<times> nat" where
  "dead_call w = (((), Some down), Suc w)"

definition hammer :: "time \<Rightarrow> nat \<Rightarrow> CircuitBreaker \<Rightarrow> CircuitBreaker \<times> nat" where
  "hammer t k cb = fold (\<lambda>_ (cb, w). snd (Execute (\<lambda>_. t) dead_call cb w)) [0..<k] (cb, 0)"

lemma hammer_state:
  assumes "0 \<le> cool" and "0 < thr"
  shows "hammer t k (NewCircuitBreaker (int thr) cool) =
    ((NewCircuitBreaker (int thr) cool)
       \<lparr>consecutiveFails := int (min k thr),
        lastFailure := (if k = 0 then zero_time else t),
        state := (if k < thr then CircuitClosed else CircuitOpen)\<rparr>, min k thr)"
proof (induction k)
  case (Suc k)
  have "hammer t (Suc k) (NewCircuitBreaker (int thr) cool) =
      (case hammer t k (NewCircuitBreaker (int thr) cool) of (cb, w) \<Rightarrow> snd (Execute (\<lambda>_. t) dead_call cb w))"
    by (simp add: hammer_def)
  with Suc assms show ?case
    by (auto simp: Execute_def dead_call_def cb_defs NewCircuitBreaker_def min_def)
qed (use assms in \<open>simp add: hammer_def NewCircuitBreaker_def\<close>)

text \<open>
  A dead bridge is protected: of any number of calls made within the cooldown, exactly the
  first \<open>failThreshold\<close> reach it, and the others fail without running.
\<close>

theorem breaker_limits_calls:
  assumes "0 \<le> cool" and "0 < thr"
  shows "snd (hammer t k (NewCircuitBreaker (int thr) cool)) = min k thr"
  using hammer_state [OF assms] by simp

lemma breaker_limits_calls_witness:
  "snd (hammer 0 100 (NewCircuitBreaker (int 3) (30 * second))) = 3"
  by (subst breaker_limits_calls) (simp_all add: go_simps)

end
