(* ===== verification/BridgeOperator.thy ===== *)
theory BridgeOperator
  imports Breaker
begin

text \<open>
  \<open>rishan/feature_skeleton.go\<close>, the rest: the readiness cache fed from DPF, the bridge contract, the
  write-ahead log, the network-policy controller, the lifecycle watcher that replays rules after a
  reboot, and the periodic reconciliation.  The mutexes make each method of the cache and of the
  log one step.
\<close>

section \<open>Types\<close>

type_synonym DPUPhase = string

definition DPUPhaseProvisioning :: DPUPhase where [go_simps]: "DPUPhaseProvisioning = ''Provisioning''"
definition DPUPhaseReady :: DPUPhase where [go_simps]: "DPUPhaseReady = ''Ready''"
definition DPUPhaseFirmwareUpdate :: DPUPhase where [go_simps]: "DPUPhaseFirmwareUpdate = ''FirmwareUpdate''"
definition DPUPhaseError :: DPUPhase where [go_simps]: "DPUPhaseError = ''Error''"
definition DPUPhaseDraining :: DPUPhase where [go_simps]: "DPUPhaseDraining = ''Draining''"

record DPUReadiness =
  rd_NodeName :: string
  rd_Vendor :: string
  rd_Phase :: DPUPhase
  BridgeAddr :: string
  FirmwareVer :: string
  LastTransition :: time

datatype OPICRDPhase = OPIPhaseUnset | OPIPhasePending | OPIPhaseWaitingForDPU | OPIPhaseActive | OPIPhaseDisrupted | OPIPhaseError

record DpuNetworkPolicySpec =
  sp_NodeName :: string
  BridgeName :: string
  VlanID :: "32 word"

record DpuNetworkPolicyStatus =
  Phase :: OPICRDPhase
  st_Message :: message
  st_HardwareID :: string
  LastReconciled :: time

record DpuNetworkPolicy =
  np_Name :: string
  np_Namespace :: string
  np_Spec :: DpuNetworkPolicySpec
  np_Status :: DpuNetworkPolicyStatus

record BridgeResponse =
  HardwareID :: string
  br_Status :: string

record CapabilitySet =
  SupportsIPsec :: bool
  SupportsNvmeEmulation :: bool
  SupportsCompression :: bool
  MaxFlowRules :: int
  MaxBridgePorts :: int

record InventoryInfo =
  inv_Vendor :: string
  inv_Model :: string
  SerialNumber :: string
  inv_FirmwareVer :: string
  Capabilities :: CapabilitySet

text \<open>A call that returns a response pointer and an error.\<close>

type_synonym 'w responding = "'w \<Rightarrow> (BridgeResponse option \<times> go_error option) \<times> 'w"
type_synonym 'w failing = "'w \<Rightarrow> go_error option \<times> 'w"

record 'w OPIBridgeClient =
  CreateBridge :: "string \<Rightarrow> 32 word \<Rightarrow> 'w responding"
  DeleteBridge :: "string \<Rightarrow> 'w failing"
  CreateBridgePort :: "string \<Rightarrow> string \<Rightarrow> 'w responding"
  DeleteBridgePort :: "string \<Rightarrow> 'w failing"
  CreateNvmeSubsystem :: "string \<Rightarrow> 'w responding"
  DeleteNvmeSubsystem :: "string \<Rightarrow> 'w failing"
  CreateNvmeController :: "string \<Rightarrow> string \<Rightarrow> 'w responding"
  DeleteNvmeController :: "string \<Rightarrow> 'w failing"
  CreateSecurityPolicy :: "int \<Rightarrow> string \<Rightarrow> string \<Rightarrow> 'w responding"
  DeleteSecurityPolicy :: "string \<Rightarrow> 'w failing"
  CreateIPsecTunnel :: "string \<Rightarrow> string \<Rightarrow> string \<Rightarrow> 'w responding"
  DeleteIPsecTunnel :: "string \<Rightarrow> 'w failing"
  GetInventory :: "'w \<Rightarrow> (go_error + InventoryInfo) \<times> 'w"
  HealthCheck :: "'w failing"
  ListAllRules :: "'w \<Rightarrow> (go_error + string list) \<times> 'w"

type_synonym 'w BridgeFactory = "string \<Rightarrow> 'w \<Rightarrow> (go_error + 'w OPIBridgeClient) \<times> 'w"

text \<open>The clock and standard output.\<close>

record 'w Runtime =
  rt_now :: "'w \<Rightarrow> time"
  rt_print :: "message \<Rightarrow> 'w \<Rightarrow> 'w"

section \<open>Readiness cache\<close>

record DPFStatusAdapter =
  dpuCache :: "DPUReadiness gomap"

definition NewDPFStatusAdapter :: DPFStatusAdapter where
  "NewDPFStatusAdapter = \<lparr>dpuCache = []\<rparr>"

definition UpdateFromDPUSetStatus ::
    "string \<Rightarrow> DPUPhase \<Rightarrow> string \<Rightarrow> string \<Rightarrow> time \<Rightarrow> DPFStatusAdapter \<Rightarrow> DPFStatusAdapter" where
  "UpdateFromDPUSetStatus nodeName phase mgmtIP fwVersion now a =
     a\<lparr>dpuCache := AList.update nodeName
         \<lparr>rd_NodeName = nodeName, rd_Vendor = ''nvidia'', rd_Phase = phase, BridgeAddr = mgmtIP @ '':50051'',
          FirmwareVer = fwVersion, LastTransition = now\<rparr> (dpuCache a)\<rparr>"

definition IsDPUReady :: "DPFStatusAdapter \<Rightarrow> string \<Rightarrow> bool" where
  "IsDPUReady a nodeName =
     (case map_of (dpuCache a) nodeName of None \<Rightarrow> False | Some r \<Rightarrow> rd_Phase r = DPUPhaseReady)"

definition GetBridgeAddress :: "DPFStatusAdapter \<Rightarrow> string \<Rightarrow> go_error + string" where
  "GetBridgeAddress a nodeName =
     (case map_of (dpuCache a) nodeName of
        None \<Rightarrow> Inl (Errorf ''no DPU found on node %s'' [AStr nodeName])
      | Some r \<Rightarrow>
          if rd_Phase r \<noteq> DPUPhaseReady
          then Inl (Errorf ''DPU on node %s is not ready (phase: %s)'' [AStr nodeName, AStr (rd_Phase r)])
          else Inr (BridgeAddr r))"

definition GetDPUReadiness :: "DPFStatusAdapter \<Rightarrow> string \<Rightarrow> DPUReadiness option" where
  "GetDPUReadiness a nodeName = map_of (dpuCache a) nodeName"

definition ListAllNodes :: "DPFStatusAdapter \<Rightarrow> DPUPhase gomap" where
  "ListAllNodes a = fold (\<lambda>(k, v). AList.update k (rd_Phase v)) (dpuCache a) []"

section \<open>Write-ahead log\<close>

datatype WALEntryStatus = WALPending | WALComplete | WALFailed

text \<open>\<open>Payload\<close> is a field no operation sets.\<close>

record WALEntry =
  wal_ID :: string
  wal_Timestamp :: time
  OperationType :: string
  ResourceName :: string
  wal_NodeName :: string
  Payload :: string
  wal_Status :: WALEntryStatus

record WriteAheadLog =
  entries :: "WALEntry gomap"

definition NewWriteAheadLog :: WriteAheadLog where
  "NewWriteAheadLog = \<lparr>entries = []\<rparr>"

definition wal_Write :: "WALEntry \<Rightarrow> time \<Rightarrow> WriteAheadLog \<Rightarrow> WriteAheadLog" where
  "wal_Write entry now l =
     l\<lparr>entries := AList.update (wal_ID entry) (entry\<lparr>wal_Status := WALPending, wal_Timestamp := now\<rparr>) (entries l)\<rparr>"

definition set_wal_status :: "WALEntryStatus \<Rightarrow> string \<Rightarrow> WriteAheadLog \<Rightarrow> WriteAheadLog" where
  "set_wal_status s i l =
     (case map_of (entries l) i of
        Some e \<Rightarrow> l\<lparr>entries := AList.update i (e\<lparr>wal_Status := s\<rparr>) (entries l)\<rparr>
      | None \<Rightarrow> l)"

definition MarkComplete :: "string \<Rightarrow> WriteAheadLog \<Rightarrow> WriteAheadLog" where
  "MarkComplete = set_wal_status WALComplete"

definition MarkFailed :: "string \<Rightarrow> WriteAheadLog \<Rightarrow> WriteAheadLog" where
  "MarkFailed = set_wal_status WALFailed"

definition GetPending :: "WriteAheadLog \<Rightarrow> WALEntry list" where
  "GetPending l = filter (\<lambda>e. wal_Status e = WALPending) (map snd (entries l))"

definition GetAllComplete :: "WriteAheadLog \<Rightarrow> WALEntry list" where
  "GetAllComplete l = filter (\<lambda>e. wal_Status e = WALComplete) (map snd (entries l))"

section \<open>The manager's shared state\<close>

text \<open>
  The controller and the watcher hold pointers to the same cache, breaker and log, so there is one
  state; \<open>previousPhases\<close> is the watcher's own map.
\<close>

record OperatorManager =
  DPFAdapter :: DPFStatusAdapter
  om_CircuitBreaker :: CircuitBreaker
  WAL :: WriteAheadLog
  previousPhases :: "DPUPhase gomap"

definition NewOperatorManager :: OperatorManager where
  "NewOperatorManager =
     \<lparr>DPFAdapter = NewDPFStatusAdapter, om_CircuitBreaker = NewCircuitBreaker 3 (30 * second),
      WAL = NewWriteAheadLog, previousPhases = []\<rparr>"

section \<open>Network-policy controller\<close>

record ReconcileResult =
  rr_Requeue :: bool
  rr_RequeueAfter :: duration

definition set_phase :: "OPICRDPhase \<Rightarrow> message \<Rightarrow> DpuNetworkPolicy \<Rightarrow> DpuNetworkPolicy" where
  "set_phase p msg policy = policy\<lparr>np_Status := (np_Status policy)\<lparr>Phase := p, st_Message := msg\<rparr>\<rparr>"

text \<open>The closure handed to the breaker; its value is what it assigns to \<open>resp\<close>.\<close>

definition create_call :: "'w BridgeFactory \<Rightarrow> string \<Rightarrow> DpuNetworkPolicySpec \<Rightarrow> 'w responding" where
  "create_call factory bridgeAddr spec w =
     (case factory bridgeAddr w of
        (Inl dialErr, w1) \<Rightarrow>
          ((None, Some (Errorf ''failed to connect to bridge at %s: %w'' [AStr bridgeAddr, AWrap dialErr])), w1)
      | (Inr bridge, w1) \<Rightarrow> CreateBridge bridge (BridgeName spec) (VlanID spec) w1)"

text \<open>\<open>None\<close> is the nil dereference of a missing response.\<close>

definition np_Reconcile ::
    "'w Runtime \<Rightarrow> 'w BridgeFactory \<Rightarrow> DpuNetworkPolicy \<Rightarrow> OperatorManager \<Rightarrow> 'w \<Rightarrow>
      ((ReconcileResult \<times> go_error option) \<times> DpuNetworkPolicy \<times> OperatorManager \<times> 'w) option" where
  "np_Reconcile rt factory policy m w =
     (let nodeName = sp_NodeName (np_Spec policy) in
      if \<not> IsDPUReady (DPFAdapter m) nodeName
      then Some ((\<lparr>rr_Requeue = True, rr_RequeueAfter = 15 * second\<rparr>, None),
             set_phase OPIPhaseWaitingForDPU (Text ''DPU is being provisioned by DPF, waiting for Ready phase'') policy, m, w)
      else case GetBridgeAddress (DPFAdapter m) nodeName of
        Inl err \<Rightarrow>
          Some ((\<lparr>rr_Requeue = True, rr_RequeueAfter = 10 * second\<rparr>, None),
            set_phase OPIPhaseError (Sprintf ''Cannot resolve bridge address: %v'' [AErr err]) policy, m, w)
      | Inr bridgeAddr \<Rightarrow>
      (let walEntry = \<lparr>wal_ID = ''net-'' @ np_Name policy @ ''-'' @ itoa (rt_now rt w), wal_Timestamp = zero_time,
                       OperationType = ''CreateBridge'', ResourceName = BridgeName (np_Spec policy),
                       wal_NodeName = nodeName, Payload = '''', wal_Status = WALPending\<rparr>;
           l1 = wal_Write walEntry (rt_now rt w) (WAL m) in
       case Execute (rt_now rt) (create_call factory bridgeAddr (np_Spec policy)) (om_CircuitBreaker m) w of
         ((resp, Some cbErr), cb1, w1) \<Rightarrow>
           Some ((\<lparr>rr_Requeue = True, rr_RequeueAfter = 30 * second\<rparr>, Some cbErr),
             set_phase OPIPhaseError (Sprintf ''Bridge creation failed: %v'' [AErr cbErr]) policy,
             m\<lparr>om_CircuitBreaker := cb1, WAL := MarkFailed (wal_ID walEntry) l1\<rparr>, w1)
       | ((resp, None), cb1, w1) \<Rightarrow>
           (case resp of
              Some (Some r) \<Rightarrow>
                let p1 = set_phase OPIPhaseActive
                      (Sprintf ''Bridge %s active on %s'' [AStr (HardwareID r), AStr nodeName]) policy
                in Some ((\<lparr>rr_Requeue = False, rr_RequeueAfter = 0\<rparr>, None),
                     p1\<lparr>np_Status := (np_Status p1)\<lparr>st_HardwareID := HardwareID r, LastReconciled := rt_now rt w1\<rparr>\<rparr>,
                     m\<lparr>om_CircuitBreaker := cb1, WAL := MarkComplete (wal_ID walEntry) l1\<rparr>, w1)
            | _ \<Rightarrow> None)))"

section \<open>Lifecycle watcher\<close>

definition replay_failed :: "WALEntry \<Rightarrow> string \<Rightarrow> go_error \<Rightarrow> message" where
  "replay_failed entry nodeName err =
     Sprintf ''[LifecycleWatcher] Failed to replay %s on %s: %v''
       [AStr (OperationType entry), AStr nodeName, AErr err]"

text \<open>One entry of the replay loop, with the count of entries replayed so far.\<close>

definition replay_entry :: "'w Runtime \<Rightarrow> 'w OPIBridgeClient \<Rightarrow> string \<Rightarrow> WALEntry \<Rightarrow> int \<times> 'w \<Rightarrow> int \<times> 'w" where
  "replay_entry rt bridge nodeName entry s = (case s of (replayCount, w) \<Rightarrow>
     (if wal_NodeName entry \<noteq> nodeName then (replayCount, w)
      else if OperationType entry = ''CreateBridge'' then
        (case CreateBridge bridge (ResourceName entry) 0 w of
           ((_, Some err), w1) \<Rightarrow> (replayCount, rt_print rt (replay_failed entry nodeName err) w1)
         | ((_, None), w1) \<Rightarrow> (replayCount + 1, w1))
      else if OperationType entry = ''CreateSecurityPolicy'' then
        (case CreateSecurityPolicy bridge 0 ''tcp'' ''BLOCK'' w of
           ((_, Some err), w1) \<Rightarrow> (replayCount, rt_print rt (replay_failed entry nodeName err) w1)
         | ((_, None), w1) \<Rightarrow> (replayCount + 1, w1))
      else (replayCount + 1, w)))"

definition replayRulesForNode ::
    "'w Runtime \<Rightarrow> 'w BridgeFactory \<Rightarrow> OperatorManager \<Rightarrow> string \<Rightarrow> 'w \<Rightarrow> go_error option \<times> 'w" where
  "replayRulesForNode rt factory m nodeName w =
     (case GetBridgeAddress (DPFAdapter m) nodeName of
        Inl err \<Rightarrow> (Some (Errorf ''cannot replay rules for node %s: %w'' [AStr nodeName, AWrap err]), w)
      | Inr bridgeAddr \<Rightarrow>
          (case factory bridgeAddr w of
             (Inl err, w1) \<Rightarrow>
               (Some (Errorf ''failed to connect to bridge at %s: %w'' [AStr bridgeAddr, AWrap err]), w1)
           | (Inr bridge, w1) \<Rightarrow>
               (case fold (replay_entry rt bridge nodeName) (GetAllComplete (WAL m)) (0, w1) of
                  (replayCount, w2) \<Rightarrow>
                    (None, rt_print rt (Sprintf ''[LifecycleWatcher] Replayed %d rules on node %s''
                       [AInt replayCount, AStr nodeName]) w2))))"

definition HandleTransition ::
    "'w Runtime \<Rightarrow> 'w BridgeFactory \<Rightarrow> string \<Rightarrow> DPUPhase \<Rightarrow> OperatorManager \<Rightarrow> 'w \<Rightarrow>
      go_error option \<times> OperatorManager \<times> 'w" where
  "HandleTransition rt factory nodeName newPhase m w =
     (let prev = map_of (previousPhases m) nodeName;
          m1 = m\<lparr>previousPhases := AList.update nodeName newPhase (previousPhases m)\<rparr> in
      if newPhase = DPUPhaseFirmwareUpdate \<or> newPhase = DPUPhaseDraining
      then (None, m1, rt_print rt (Sprintf ''[LifecycleWatcher] Node %s: DPU entering %s phase, marking OPI resources as Disrupted''
              [AStr nodeName, AStr newPhase]) w)
      else if newPhase = DPUPhaseReady
      then (case prev of
              Some prevPhase \<Rightarrow>
                if prevPhase \<noteq> DPUPhaseReady
                then case replayRulesForNode rt factory m1 nodeName
                       (rt_print rt (Sprintf ''[LifecycleWatcher] Node %s: DPU transitioned %s to Ready, replaying all rules''
                          [AStr nodeName, AStr prevPhase]) w) of (e, w1) \<Rightarrow> (e, m1, w1)
                else (None, m1, w)
            | None \<Rightarrow> (None, m1, w))
      else if newPhase = DPUPhaseError
      then (None, m1, rt_print rt (Sprintf ''[LifecycleWatcher] Node %s: DPU entered Error phase, marking OPI resources as Error''
              [AStr nodeName]) w)
      else (None, m1, w))"

section \<open>Periodic reconciliation\<close>

definition orphan_report :: "string \<Rightarrow> string \<Rightarrow> message" where
  "orphan_report nodeName rule =
     Sprintf ''[Reconciliation] Orphaned rule %s on %s: should be cleaned up'' [AStr rule, AStr nodeName]"

definition missing_report :: "string \<Rightarrow> string \<Rightarrow> message" where
  "missing_report nodeName rule =
     Sprintf ''[Reconciliation] Missing rule %s on %s: should be re-created'' [AStr rule, AStr nodeName]"

text \<open>The maps \<open>desiredRules\<close> and \<open>actualSet\<close>: association lists to \<open>True\<close>.\<close>

definition rule_set :: "string list \<Rightarrow> bool gomap" where
  "rule_set rules = fold (\<lambda>r. AList.update r True) rules []"

definition desired_rules :: "WriteAheadLog \<Rightarrow> string \<Rightarrow> bool gomap" where
  "desired_rules l nodeName =
     rule_set (map ResourceName (filter (\<lambda>e. wal_NodeName e = nodeName) (GetAllComplete l)))"

definition reconcile_node ::
    "'w Runtime \<Rightarrow> 'w BridgeFactory \<Rightarrow> OperatorManager \<Rightarrow> string \<times> DPUPhase \<Rightarrow> 'w \<Rightarrow> 'w" where
  "reconcile_node rt factory m np w = (case np of (nodeName, phase) \<Rightarrow>
     (if phase \<noteq> DPUPhaseReady then w
      else case GetBridgeAddress (DPFAdapter m) nodeName of
        Inl _ \<Rightarrow> w
      | Inr bridgeAddr \<Rightarrow>
          (case factory bridgeAddr w of
             (Inl _, w1) \<Rightarrow> w1
           | (Inr bridge, w1) \<Rightarrow>
               (case ListAllRules bridge w1 of
                  (Inl err, w2) \<Rightarrow>
                    rt_print rt (Sprintf ''[Reconciliation] Failed to list rules on %s: %v'' [AStr nodeName, AErr err]) w2
                | (Inr actualRules, w2) \<Rightarrow>
                    let desiredRules = desired_rules (WAL m) nodeName;
                        actualSet = rule_set actualRules;
                        w3 = fold (\<lambda>rule w. if map_of desiredRules rule = None
                               then rt_print rt (orphan_report nodeName rule) w else w) actualRules w2
                    in fold (\<lambda>(rule, _) w. if map_of actualSet rule = None
                               then rt_print rt (missing_report nodeName rule) w else w) desiredRules w3))))"

definition runReconciliation :: "'w Runtime \<Rightarrow> 'w BridgeFactory \<Rightarrow> OperatorManager \<Rightarrow> 'w \<Rightarrow> 'w" where
  "runReconciliation rt factory m w = fold (reconcile_node rt factory m) (ListAllNodes (DPFAdapter m)) w"

text \<open>
  The endless loop, over the events its \<open>select\<close> receives, each with the shared state at that time:
  \<open>None\<close> when the events end before the context does.
\<close>

datatype loop_event = LoopDone | LoopTick OperatorManager

fun StartReconciliationLoop :: "'w Runtime \<Rightarrow> 'w BridgeFactory \<Rightarrow> loop_event list \<Rightarrow> 'w \<Rightarrow> 'w option" where
  "StartReconciliationLoop rt factory [] w = None"
| "StartReconciliationLoop rt factory (LoopDone # es) w =
     Some (rt_print rt (Text ''[Reconciliation] Context cancelled, stopping reconciliation loop'') w)"
| "StartReconciliationLoop rt factory (LoopTick m # es) w =
     StartReconciliationLoop rt factory es (runReconciliation rt factory m w)"

section \<open>Properties of the cache and the log\<close>

text \<open>
  A bridge address is handed out exactly for a ready DPU, and right after a status update it
  is the reported management address at the bridge port; updating one node leaves the others alone.
\<close>

theorem bridge_address_iff_ready:
  "((\<exists>addr. GetBridgeAddress a n = Inr addr) \<longleftrightarrow> IsDPUReady a n) \<and>
   (GetBridgeAddress (UpdateFromDPUSetStatus n p ip fw t a) n = Inr addr \<longleftrightarrow>
      p = DPUPhaseReady \<and> addr = ip @ '':50051'') \<and>
   (j = n \<or> GetBridgeAddress (UpdateFromDPUSetStatus n p ip fw t a) j = GetBridgeAddress a j)"
  by (auto simp: GetBridgeAddress_def IsDPUReady_def UpdateFromDPUSetStatus_def split: option.split)

text \<open>Keys of the log are distinct and equal the identifiers of their entries.\<close>

definition wal_ok :: "WriteAheadLog \<Rightarrow> bool" where
  "wal_ok l = (distinct (map fst (entries l)) \<and> list_all (\<lambda>(k, e). wal_ID e = k) (entries l))"

lemma set_update_subset: "set (AList.update k x m) \<subseteq> insert (k, x) (set m)"
  by (induction m) auto

lemma wal_ok_update:
  assumes "wal_ok l" and "wal_ID e = k"
  shows "wal_ok (l\<lparr>entries := AList.update k e (entries l)\<rparr>)"
  using assms set_update_subset [of k e "entries l"] by (fastforce simp: wal_ok_def distinct_update list_all_iff)

lemma wal_ID_at: "wal_ok l \<Longrightarrow> map_of (entries l) i = Some e \<Longrightarrow> wal_ID e = i"
  by (auto simp: wal_ok_def list_all_iff dest: map_of_SomeD)

lemma wal_ok_steps: "wal_ok l \<Longrightarrow> wal_ok (wal_Write e t l)" "wal_ok l \<Longrightarrow> wal_ok (set_wal_status s i l)"
  by (auto simp: wal_Write_def set_wal_status_def split: option.split intro!: wal_ok_update dest: wal_ID_at)

lemma wal_at: "wal_ok l \<Longrightarrow> e \<in> set (map snd (entries l)) \<longleftrightarrow> map_of (entries l) (wal_ID e) = Some e"
  by (force simp: wal_ok_def list_all_iff dest: map_of_SomeD)

lemma status_at:
  assumes "i = wal_ID e"
  shows "map_of (entries (set_wal_status s i (wal_Write e t l))) =
     (map_of (entries l))(wal_ID e \<mapsto> e\<lparr>wal_Timestamp := t, wal_Status := s\<rparr>)"
  using assms by (simp add: set_wal_status_def wal_Write_def)

text \<open>The entries of one status, as a set read through the identifiers.\<close>

lemma GetPending_set: "wal_ok l \<Longrightarrow> e \<in> set (GetPending l) \<longleftrightarrow>
    map_of (entries l) (wal_ID e) = Some e \<and> wal_Status e = WALPending"
  using wal_at [of l e] by (auto simp: GetPending_def)

lemma GetAllComplete_set: "wal_ok l \<Longrightarrow> e \<in> set (GetAllComplete l) \<longleftrightarrow>
    map_of (entries l) (wal_ID e) = Some e \<and> wal_Status e = WALComplete"
  using wal_at [of l e] by (auto simp: GetAllComplete_def)

section \<open>Properties of the network-policy controller\<close>

text \<open>What a bridge owes: a response whenever it reports no error.\<close>

definition responsive :: "'w BridgeFactory \<Rightarrow> bool" where
  "responsive factory = (\<forall>addr w b w1 n v u r u'. factory addr w = (Inr b, w1) \<longrightarrow>
     CreateBridge b n v u = ((r, None), u') \<longrightarrow> r \<noteq> None)"

lemma create_call_responds:
  assumes "responsive factory" and "create_call factory addr spec w = ((r, None), w')"
  shows "r \<noteq> None"
proof -
  obtain b w1 where "factory addr w = (Inr b, w1)"
    and "CreateBridge b (BridgeName spec) (VlanID spec) w1 = ((r, None), w')"
    using assms(2) by (auto simp: create_call_def split: sum.splits prod.splits)
  with assms(1) show ?thesis unfolding responsive_def by blast
qed

lemma Execute_cases:
  assumes "Execute now fn cb w = ((r, e), cb', w')"
  shows "(\<exists>x. cb_enter (now w) cb = (Some x, cb') \<and> r = None \<and> e = Some x \<and> w' = w) \<or>
    (\<exists>cb1 y. cb_enter (now w) cb = (None, cb1) \<and> fn w = ((y, e), w') \<and> r = Some y \<and> cb' = cb_exit (now w') e cb1)"
  using assms by (auto simp: Execute_def split: prod.splits option.splits)

text \<open>
  Against bridges that answer, a reconcile never hits the nil response; it is gated by DPF
  readiness (no call and no log entry before), and afterwards its own log entry is complete
  exactly when it succeeded and failed otherwise, so it leaves nothing pending and touches no
  other entry; the policy is active exactly on success, with the identifier the bridge returned.
\<close>

theorem np_Reconcile_outcome:
  assumes "responsive factory" and "wal_ok (WAL m)"
  shows "\<exists>res err policy' m' w'. np_Reconcile rt factory policy m w = Some ((res, err), policy', m', w') \<and>
    (if \<not> IsDPUReady (DPFAdapter m) (sp_NodeName (np_Spec policy))
     then err = None \<and> rr_Requeue res \<and> Phase (np_Status policy') = OPIPhaseWaitingForDPU \<and> m' = m \<and> w' = w
     else (\<exists>i e. map_of (entries (WAL m')) = (map_of (entries (WAL m)))(i \<mapsto> e) \<and>
            wal_Status e = (if err = None then WALComplete else WALFailed) \<and>
            ResourceName e = BridgeName (np_Spec policy) \<and> wal_NodeName e = sp_NodeName (np_Spec policy)) \<and>
          set (GetPending (WAL m')) \<subseteq> set (GetPending (WAL m)) \<and>
          (Phase (np_Status policy') = OPIPhaseActive \<longleftrightarrow> err = None) \<and> (rr_Requeue res \<longleftrightarrow> err \<noteq> None))"
proof (cases "IsDPUReady (DPFAdapter m) (sp_NodeName (np_Spec policy))")
  case False
  then show ?thesis by (simp add: np_Reconcile_def set_phase_def)
next
  case True
  then obtain addr where addr: "GetBridgeAddress (DPFAdapter m) (sp_NodeName (np_Spec policy)) = Inr addr"
    by (auto simp: IsDPUReady_def GetBridgeAddress_def split: option.splits)
  define e0 where "e0 = \<lparr>wal_ID = ''net-'' @ np_Name policy @ ''-'' @ itoa (rt_now rt w), wal_Timestamp = zero_time,
     OperationType = ''CreateBridge'', ResourceName = BridgeName (np_Spec policy),
     wal_NodeName = sp_NodeName (np_Spec policy), Payload = '''', wal_Status = WALPending\<rparr>"
  define l1 where "l1 = wal_Write e0 (rt_now rt w) (WAL m)"
  have fin: "map_of (entries (set_wal_status s (wal_ID e0) l1)) =
      (map_of (entries (WAL m)))(wal_ID e0 \<mapsto> e0\<lparr>wal_Timestamp := rt_now rt w, wal_Status := s\<rparr>)" for s
    unfolding l1_def by (rule status_at) simp
  have ok: "wal_ok (set_wal_status s (wal_ID e0) l1)" for s
    unfolding l1_def by (intro wal_ok_steps assms(2))
  have pend: "set (GetPending (set_wal_status s (wal_ID e0) l1)) \<subseteq> set (GetPending (WAL m))" if "s \<noteq> WALPending" for s
    using that by (auto simp: GetPending_set [OF ok] GetPending_set [OF assms(2)] fin split: if_splits)
  obtain r err cb1 w1 where x: "Execute (rt_now rt) (create_call factory addr (np_Spec policy)) (om_CircuitBreaker m) w =
      ((r, err), cb1, w1)"
    by (metis prod.collapse)
  show ?thesis
  proof (cases err)
    case (Some cbErr)
    with x have "np_Reconcile rt factory policy m w = Some ((\<lparr>rr_Requeue = True, rr_RequeueAfter = 30 * second\<rparr>, err),
        set_phase OPIPhaseError (Sprintf ''Bridge creation failed: %v'' [AErr cbErr]) policy,
        m\<lparr>om_CircuitBreaker := cb1, WAL := set_wal_status WALFailed (wal_ID e0) l1\<rparr>, w1)"
      using True addr by (simp add: np_Reconcile_def Let_def e0_def l1_def MarkFailed_def)
    then show ?thesis
      using True Some pend [of WALFailed] fin [of WALFailed] by (auto simp: set_phase_def e0_def intro!: exI)
  next
    case None
    with x Execute_cases [OF x] obtain y where r: "r = Some (Some y)"
      using create_call_responds [OF assms(1)] by fastforce
    with x None obtain p1 where "np_Reconcile rt factory policy m w = Some ((\<lparr>rr_Requeue = False, rr_RequeueAfter = 0\<rparr>, None),
        p1, m\<lparr>om_CircuitBreaker := cb1, WAL := set_wal_status WALComplete (wal_ID e0) l1\<rparr>, w1)"
      and "Phase (np_Status p1) = OPIPhaseActive"
      using True addr by (simp add: np_Reconcile_def Let_def e0_def l1_def MarkComplete_def set_phase_def)
    then show ?thesis
      using True None pend [of WALComplete] fin [of WALComplete] by (auto simp: e0_def intro!: exI)
  qed
qed

text \<open>
  Hardware for the witnesses: every bridge created is recorded with its VLAN; with \<open>strict\<close> set, a
  bridge refuses VLANs other than 0.
\<close>

type_synonym hw = "(string \<times> 32 word) list"

definition hw_bridge :: "bool \<Rightarrow> hw OPIBridgeClient" where
  "hw_bridge strict =
     \<lparr>CreateBridge = (\<lambda>n v w. if strict \<and> v \<noteq> 0 then ((None, Some down), w)
         else ((Some \<lparr>HardwareID = ''hw-'' @ n, br_Status = ''OK''\<rparr>, None), w @ [(n, v)])),
      DeleteBridge = (\<lambda>_ w. (None, w)), CreateBridgePort = (\<lambda>_ _ w. ((None, Some down), w)),
      DeleteBridgePort = (\<lambda>_ w. (None, w)), CreateNvmeSubsystem = (\<lambda>_ w. ((None, Some down), w)),
      DeleteNvmeSubsystem = (\<lambda>_ w. (None, w)), CreateNvmeController = (\<lambda>_ _ w. ((None, Some down), w)),
      DeleteNvmeController = (\<lambda>_ w. (None, w)), CreateSecurityPolicy = (\<lambda>_ _ _ w. ((None, Some down), w)),
      DeleteSecurityPolicy = (\<lambda>_ w. (None, w)), CreateIPsecTunnel = (\<lambda>_ _ _ w. ((None, Some down), w)),
      DeleteIPsecTunnel = (\<lambda>_ w. (None, w)), GetInventory = (\<lambda>w. (Inl down, w)), HealthCheck = (\<lambda>w. (None, w)),
      ListAllRules = (\<lambda>w. (Inr (map fst w), w))\<rparr>"

definition hw_factory :: "bool \<Rightarrow> hw BridgeFactory" where
  "hw_factory strict addr w = (Inr (hw_bridge strict), w)"

definition hw_rt :: "hw Runtime" where
  "hw_rt = \<lparr>rt_now = (\<lambda>w. int (length w)), rt_print = (\<lambda>_ w. w)\<rparr>"

definition sample_policy :: DpuNetworkPolicy where
  "sample_policy =
     \<lparr>np_Name = ''tenant'', np_Namespace = ''dpu'',
      np_Spec = \<lparr>sp_NodeName = ''n1'', BridgeName = ''br0'', VlanID = 7\<rparr>,
      np_Status = \<lparr>Phase = OPIPhaseUnset, st_Message = Text '''', st_HardwareID = '''', LastReconciled = zero_time\<rparr>\<rparr>"

definition ready_manager :: OperatorManager where
  "ready_manager = NewOperatorManager
     \<lparr>DPFAdapter := UpdateFromDPUSetStatus ''n1'' DPUPhaseReady ''10.0.0.1'' ''24.10'' 0 NewDPFStatusAdapter,
      previousPhases := [(''n1'', DPUPhaseFirmwareUpdate)]\<rparr>"

lemma hw_responsive: "responsive (hw_factory strict)"
  by (auto simp: responsive_def hw_factory_def hw_bridge_def split: if_splits)

lemma ready_manager_simps [simp]:
  "IsDPUReady (DPFAdapter ready_manager) ''n1''" "wal_ok (WAL ready_manager)"
  "om_CircuitBreaker ready_manager = NewCircuitBreaker 3 (30 * second)" "entries (WAL ready_manager) = []"
  "GetBridgeAddress (DPFAdapter ready_manager) ''n1'' = Inr ''10.0.0.1:50051''"
  by (simp_all add: ready_manager_def NewOperatorManager_def UpdateFromDPUSetStatus_def NewDPFStatusAdapter_def
      IsDPUReady_def NewWriteAheadLog_def wal_ok_def GetBridgeAddress_def)

lemma np_Reconcile_outcome_witness:
  "\<exists>res policy' m' w'. np_Reconcile hw_rt (hw_factory False) sample_policy ready_manager [] =
      Some ((res, None), policy', m', w') \<and> Phase (np_Status policy') = OPIPhaseActive \<and> w' = [(''br0'', 7)]"
proof -
  obtain res err policy' m' w' where r: "np_Reconcile hw_rt (hw_factory False) sample_policy ready_manager [] =
      Some ((res, err), policy', m', w')"
    and o': "Phase (np_Status policy') = OPIPhaseActive \<longleftrightarrow> err = None"
    using np_Reconcile_outcome [OF hw_responsive, of ready_manager hw_rt False sample_policy "[]"]
    by (auto simp: sample_policy_def)
  from r have "err = None \<and> w' = [(''br0'', 7)]"
    by (auto simp: np_Reconcile_def sample_policy_def Execute_def cb_enter_def NewCircuitBreaker_def create_call_def
        hw_factory_def hw_bridge_def Let_def)
  with r o' show ?thesis by auto
qed

section \<open>Properties of the watcher and the reconciliation\<close>

text \<open>
  Replay knows only one configuration: bridges that agree on creating a bridge with VLAN 0 and
  on the one fixed security policy behave alike under it, however they treat any other VLAN, port,
  protocol or action; the configuration that was reconciled is not restored.
\<close>

theorem replay_ignores_configuration:
  assumes "\<And>n u. CreateBridge b n 0 u = CreateBridge b' n 0 u"
    and "\<And>u. CreateSecurityPolicy b 0 ''tcp'' ''BLOCK'' u = CreateSecurityPolicy b' 0 ''tcp'' ''BLOCK'' u"
  shows "replayRulesForNode rt (\<lambda>_ w. (Inr b, w)) m n w = replayRulesForNode rt (\<lambda>_ w. (Inr b', w)) m n w"
proof -
  have "replay_entry rt b n e s = replay_entry rt b' n e s" for e s
    by (simp add: replay_entry_def assms split: prod.split)
  then have "replay_entry rt b n = replay_entry rt b' n" by (intro ext)
  then show ?thesis by (simp add: replayRulesForNode_def split: sum.split)
qed

text \<open>
  The sample policy asks for VLAN 7; after a firmware update the strict hardware, which would refuse
  VLAN 7, sees the same calls, and the bridge comes back on VLAN 0.
\<close>

lemma replay_ignores_configuration_witness:
  "\<exists>p m w. np_Reconcile hw_rt (hw_factory False) sample_policy ready_manager [] =
       Some ((\<lparr>rr_Requeue = False, rr_RequeueAfter = 0\<rparr>, None), p, m, w) \<and> w = [(''br0'', 7)] \<and>
     replayRulesForNode hw_rt (\<lambda>_ w. (Inr (hw_bridge True), w)) m ''n1'' [] = (None, [(''br0'', 0)]) \<and>
     replayRulesForNode hw_rt (\<lambda>_ w. (Inr (hw_bridge False), w)) m ''n1'' [] = (None, [(''br0'', 0)])"
proof -
  obtain p m where r: "np_Reconcile hw_rt (hw_factory False) sample_policy ready_manager [] =
      Some ((\<lparr>rr_Requeue = False, rr_RequeueAfter = 0\<rparr>, None), p, m, [(''br0'', 7)])"
    and g: "GetBridgeAddress (DPFAdapter m) ''n1'' = Inr ''10.0.0.1:50051''"
    and c: "\<exists>e. GetAllComplete (WAL m) = [e] \<and> wal_NodeName e = ''n1'' \<and> OperationType e = ''CreateBridge'' \<and> ResourceName e = ''br0''"
    by (simp add: np_Reconcile_def sample_policy_def Execute_def cb_enter_def NewCircuitBreaker_def create_call_def
        hw_factory_def hw_bridge_def Let_def GetAllComplete_def MarkComplete_def set_wal_status_def wal_Write_def)
  have "replayRulesForNode hw_rt (\<lambda>_ w. (Inr (hw_bridge False), w)) m ''n1'' [] = (None, [(''br0'', 0)])"
    using c g by (auto simp: replayRulesForNode_def replay_entry_def hw_bridge_def hw_rt_def)
  moreover from this have "replayRulesForNode hw_rt (\<lambda>_ w. (Inr (hw_bridge True), w)) m ''n1'' [] = (None, [(''br0'', 0)])"
    by (subst replay_ignores_configuration [where b' = "hw_bridge False"]) (simp_all add: hw_bridge_def)
  ultimately show ?thesis using r by blast
qed

text \<open>A world that counts connection attempts, to a bridge that cannot be reached.\<close>

definition count_factory :: "nat BridgeFactory" where
  "count_factory addr w = (Inl down, Suc w)"

definition count_rt :: "nat Runtime" where
  "count_rt = \<lparr>rt_now = (\<lambda>_. 0), rt_print = (\<lambda>_ w. w)\<rparr>"

definition transitions :: "string \<Rightarrow> DPUPhase list \<Rightarrow> OperatorManager \<Rightarrow> OperatorManager \<times> nat" where
  "transitions n ps m = fold (\<lambda>p (m, w). snd (HandleTransition count_rt count_factory n p m w)) ps (m, 0)"

text \<open>How often a sequence of phases enters \<open>Ready\<close> from another known phase.\<close>

fun rises :: "DPUPhase option \<Rightarrow> DPUPhase list \<Rightarrow> nat" where
  "rises prev [] = 0"
| "rises prev (p # ps) =
     (if p = DPUPhaseReady \<and> (\<exists>q. prev = Some q \<and> q \<noteq> DPUPhaseReady) then 1 else 0) + rises (Some p) ps"

lemma HandleTransition_count:
  assumes "IsDPUReady (DPFAdapter m) n"
  shows "snd (HandleTransition count_rt count_factory n p m w) =
    (m\<lparr>previousPhases := AList.update n p (previousPhases m)\<rparr>,
     (if p = DPUPhaseReady \<and> (\<exists>q. map_of (previousPhases m) n = Some q \<and> q \<noteq> DPUPhaseReady) then 1 else 0) + w)"
proof -
  obtain addr where "GetBridgeAddress (DPFAdapter m) n = Inr addr"
    using assms by (auto simp: IsDPUReady_def GetBridgeAddress_def split: option.splits)
  then show ?thesis
    by (auto simp: HandleTransition_def Let_def replayRulesForNode_def count_factory_def count_rt_def go_simps
        split: option.splits)
qed

text \<open>
  Replay is triggered exactly on the way back: over any sequence of phases of a ready node, the
  watcher connects to the bridge once per entry into \<open>Ready\<close> from a different known phase; the first
  phase it hears of and repeated \<open>Ready\<close> reports trigger nothing.
\<close>

theorem replays_on_rises:
  assumes "IsDPUReady (DPFAdapter m) n"
  shows "snd (transitions n ps m) = rises (map_of (previousPhases m) n) ps"
proof -
  have "snd (fold (\<lambda>p (m, w). snd (HandleTransition count_rt count_factory n p m w)) ps (m, w)) =
      rises (map_of (previousPhases m) n) ps + w" for w
    using assms
  proof (induction ps arbitrary: m w)
    case (Cons p ps)
    then show ?case by (simp add: HandleTransition_count)
  qed simp
  then show ?thesis by (simp add: transitions_def)
qed

lemma replays_on_rises_witness:
  "snd (transitions ''n1'' [DPUPhaseReady, DPUPhaseReady, DPUPhaseDraining, DPUPhaseError, DPUPhaseReady] ready_manager) = 2"
  unfolding replays_on_rises [OF ready_manager_simps(1)]
  by (simp add: ready_manager_def NewOperatorManager_def go_simps)

text \<open>A world that keeps what was printed.\<close>

definition log_rt :: "message list Runtime" where
  "log_rt = \<lparr>rt_now = (\<lambda>_. 0), rt_print = (\<lambda>m w. w @ [m])\<rparr>"

definition desired_names :: "WriteAheadLog \<Rightarrow> string \<Rightarrow> string set" where
  "desired_names l n = ResourceName ` {e \<in> set (GetAllComplete l). wal_NodeName e = n}"

lemma rule_set_domain: "map_of (rule_set rules) r = None \<longleftrightarrow> r \<notin> set rules" "fst ` set (rule_set rules) = set rules"
proof -
  have m: "map_of (rule_set rules) = (\<lambda>k. if k \<in> set rules then Some True else None)"
    by (simp add: rule_set_def map_of_fold_update fun_eq_iff)
  then show "map_of (rule_set rules) r = None \<longleftrightarrow> r \<notin> set rules" by simp
  show "fst ` set (rule_set rules) = set rules"
    unfolding dom_map_of_conv_image_fst [symmetric] m by (auto simp: dom_def)
qed

lemma print_filtered:
  "fold (\<lambda>x w. if P x then rt_print log_rt (f x) w else w) xs w = w @ map f (filter P xs)"
  "fold (\<lambda>(x, y) w. if P x then rt_print log_rt (f x) w else w) ps w = w @ map (f \<circ> fst) (filter (P \<circ> fst) ps)"
proof -
  show "fold (\<lambda>x w. if P x then rt_print log_rt (f x) w else w) xs w = w @ map f (filter P xs)"
    by (induction xs arbitrary: w) (simp_all add: log_rt_def)
  show "fold (\<lambda>(x, y) w. if P x then rt_print log_rt (f x) w else w) ps w = w @ map (f \<circ> fst) (filter (P \<circ> fst) ps)"
    by (induction ps arbitrary: w) (auto simp: log_rt_def)
qed

text \<open>
  One pass over a ready node reports exactly the difference between the hardware and the log:
  an orphan for every rule of the hardware without a complete entry for the node, a missing rule
  for every complete entry whose rule the hardware lacks, and nothing else.
\<close>

theorem reconcile_node_reports:
  assumes "IsDPUReady (DPFAdapter m) n" and "\<And>u. ListAllRules b u = (Inr actual, u)"
  shows "\<exists>msgs. reconcile_node log_rt (\<lambda>_ w. (Inr b, w)) m (n, DPUPhaseReady) w = w @ msgs \<and>
    set msgs = orphan_report n ` (set actual - desired_names (WAL m) n) \<union>
      missing_report n ` (desired_names (WAL m) n - set actual)"
proof -
  obtain addr where "GetBridgeAddress (DPFAdapter m) n = Inr addr"
    using assms(1) by (auto simp: IsDPUReady_def GetBridgeAddress_def split: option.splits)
  then have "reconcile_node log_rt (\<lambda>_ w. (Inr b, w)) m (n, DPUPhaseReady) w =
      w @ map (orphan_report n) (filter (\<lambda>r. map_of (desired_rules (WAL m) n) r = None) actual) @
        map (missing_report n \<circ> fst) (filter ((\<lambda>r. map_of (rule_set actual) r = None) \<circ> fst) (desired_rules (WAL m) n))"
    using assms(2) print_filtered(1) [of "\<lambda>r. map_of (desired_rules (WAL m) n) r = None" "orphan_report n" actual w]
      print_filtered(2) [of "\<lambda>r. map_of (rule_set actual) r = None" "missing_report n" "desired_rules (WAL m) n"]
    by (simp add: reconcile_node_def Let_def)
  moreover have "set (map (orphan_report n) (filter (\<lambda>r. map_of (desired_rules (WAL m) n) r = None) actual)) =
      orphan_report n ` (set actual - desired_names (WAL m) n)"
    by (auto simp: desired_rules_def desired_names_def rule_set_domain)
  moreover have "set (map (missing_report n \<circ> fst) (filter ((\<lambda>r. map_of (rule_set actual) r = None) \<circ> fst) ps)) =
      missing_report n ` (fst ` set ps - set actual)" for ps :: "bool gomap"
    by (force simp: rule_set_domain)
  moreover have "fst ` set (desired_rules (WAL m) n) = desired_names (WAL m) n"
    by (auto simp: desired_rules_def desired_names_def rule_set_domain)
  ultimately show ?thesis
    by (intro exI conjI) (assumption, simp only: set_append)
qed

definition rules_bridge :: "string list \<Rightarrow> message list OPIBridgeClient" where
  "rules_bridge rules =
     \<lparr>CreateBridge = (\<lambda>_ _ w. ((None, Some down), w)), DeleteBridge = (\<lambda>_ w. (None, w)),
      CreateBridgePort = (\<lambda>_ _ w. ((None, Some down), w)), DeleteBridgePort = (\<lambda>_ w. (None, w)),
      CreateNvmeSubsystem = (\<lambda>_ w. ((None, Some down), w)), DeleteNvmeSubsystem = (\<lambda>_ w. (None, w)),
      CreateNvmeController = (\<lambda>_ _ w. ((None, Some down), w)), DeleteNvmeController = (\<lambda>_ w. (None, w)),
      CreateSecurityPolicy = (\<lambda>_ _ _ w. ((None, Some down), w)), DeleteSecurityPolicy = (\<lambda>_ w. (None, w)),
      CreateIPsecTunnel = (\<lambda>_ _ _ w. ((None, Some down), w)), DeleteIPsecTunnel = (\<lambda>_ w. (None, w)),
      GetInventory = (\<lambda>w. (Inl down, w)), HealthCheck = (\<lambda>w. (None, w)),
      ListAllRules = (\<lambda>w. (Inr rules, w))\<rparr>"

lemma reconcile_node_reports_witness:
  "set (reconcile_node log_rt (\<lambda>_ w. (Inr (rules_bridge [''stray'']), w)) ready_manager (''n1'', DPUPhaseReady) []) =
     {orphan_report ''n1'' ''stray''}"
proof -
  have "IsDPUReady (DPFAdapter ready_manager) ''n1''" by simp
  from reconcile_node_reports [OF this, of "rules_bridge [''stray'']" "[''stray'']" "[]"]
  show ?thesis by (auto simp: rules_bridge_def desired_names_def GetAllComplete_def)
qed

end
