(* ===== verification/IntentAdapter.thy ===== *)
theory IntentAdapter
  imports Prelude
begin

text \<open>
  \<open>assol-abasova/feature_skeleton.go\<close>: a vendor plugin that translates network functions into
  \<open>DPUDeployment\<close> objects, remembers the intents it applied, and mirrors the DPU phases back as
  conditions.
\<close>

section \<open>Types\<close>

record Device =
  dev_ID :: string
  Product :: string
  PCIAddr :: string
  dev_NodeName :: string
  DPUSide :: bool

record NetworkFunction =
  nf_name :: string
  nf_image :: string

record ServiceFunctionChainIntent =
  sfi_Name :: string
  sfi_Namespace :: string
  sfi_NetworkFunctions :: "NetworkFunction list"

record ObjectMeta =
  meta_Name :: string
  meta_Namespace :: string
  meta_Labels :: "string gomap"

type_synonym DPUPhase = string

record DPFDPU =
  dpu_Meta :: ObjectMeta
  dpu_Phase :: DPUPhase

record DPUSet =
  set_Meta :: ObjectMeta
  DPUNodeSelector :: "string gomap"
  BFBName :: string
  set_DPUFlavor :: string

record HelmChartSource =
  Repo :: string
  Chart :: string
  ChartVersion :: string

record DPUDeployment =
  dd_Meta :: ObjectMeta
  HelmChart :: HelmChartSource
  Values :: "string gomap"

text \<open>The objects behind the interface \<open>Object\<close> that the adapter hands to its client.\<close>

datatype applied_object = ObjSet DPUSet | ObjDeployment DPUDeployment

fun GetKind :: "applied_object \<Rightarrow> string" where
  "GetKind (ObjSet _) = ''DPUSet''"
| "GetKind (ObjDeployment _) = ''DPUDeployment''"

fun GetMeta :: "applied_object \<Rightarrow> ObjectMeta" where
  "GetMeta (ObjSet s) = set_Meta s"
| "GetMeta (ObjDeployment d) = dd_Meta d"

record 'w Client =
  Apply :: "applied_object \<Rightarrow> 'w \<Rightarrow> go_error option \<times> 'w"
  Delete :: "applied_object \<Rightarrow> 'w \<Rightarrow> go_error option \<times> 'w"
  ListDPUs :: "'w \<Rightarrow> (go_error + DPFDPU list) \<times> 'w"

definition ErrUnsupportedAPIVersion :: go_error where
  "ErrUnsupportedAPIVersion = Sentinel ''nvidiavsp: unsupported DPF API version''"

definition ownedByLabel :: string where "ownedByLabel = ''dpu.opiproject.org/owned-by''"
definition dpfNamespace :: string where "dpfNamespace = ''dpf-operator-system''"
definition wrapperChart :: string where "wrapperChart = ''opi-nf-wrapper''"
definition wrapperRepo :: string where "wrapperRepo = ''oci://ghcr.io/opiproject/charts''"
definition wrapperVersion :: string where "wrapperVersion = ''0.1.0''"

section \<open>Translation\<close>

text \<open>The methods of \<open>Translator\<close> do not read its one field.\<close>

definition ToDPUSet :: "string gomap \<Rightarrow> string \<Rightarrow> string \<Rightarrow> DPUSet" where
  "ToDPUSet nodeSelector bfb flavor =
     \<lparr>set_Meta = \<lparr>meta_Name = ''opi-managed-bluefields'', meta_Namespace = dpfNamespace,
        meta_Labels = [(ownedByLabel, ''dpu-operator-config'')]\<rparr>,
      DPUNodeSelector = nodeSelector, BFBName = bfb, set_DPUFlavor = flavor\<rparr>"

definition ToDPUDeployment :: "ServiceFunctionChainIntent \<Rightarrow> NetworkFunction \<Rightarrow> go_error + DPUDeployment" where
  "ToDPUDeployment sfc nf =
     (if nf_image nf = ''''
      then Inl (Errorf ''network function %q in chain %s/%s has no image''
             [AStr (nf_name nf), AStr (sfi_Namespace sfc), AStr (sfi_Name sfc)])
      else Inr
        \<lparr>dd_Meta = \<lparr>meta_Name = sfi_Name sfc @ ''-'' @ nf_name nf, meta_Namespace = dpfNamespace,
           meta_Labels = [(ownedByLabel, sfi_Namespace sfc @ ''.'' @ sfi_Name sfc)]\<rparr>,
         HelmChart = \<lparr>Repo = wrapperRepo, Chart = wrapperChart, ChartVersion = wrapperVersion\<rparr>,
         Values = [(''image'', nf_image nf), (''chainName'', sfi_Name sfc), (''nfName'', nf_name nf)]\<rparr>)"

record OPICondition =
  oc_Type :: string
  oc_Status :: string
  oc_Reason :: string
  oc_Message :: message

definition MapDPUPhase :: "DPUPhase \<Rightarrow> OPICondition" where
  "MapDPUPhase p =
     (if p = ''Ready'' then
        \<lparr>oc_Type = ''Ready'', oc_Status = ''True'', oc_Reason = ''Provisioned'', oc_Message = Text ''''\<rparr>
      else if p = ''Error'' then
        \<lparr>oc_Type = ''Ready'', oc_Status = ''False'', oc_Reason = ''DPUError'', oc_Message = Text ''''\<rparr>
      else if p = ''Initializing'' \<or> p = ''OS Installing'' then
        \<lparr>oc_Type = ''Ready'', oc_Status = ''False'', oc_Reason = ''Provisioning'', oc_Message = Text ''''\<rparr>
      else
        \<lparr>oc_Type = ''Ready'', oc_Status = ''Unknown'', oc_Reason = ''UnknownPhase'',
         oc_Message = Sprintf ''unrecognized DPF phase %q'' [AStr p]\<rparr>)"

section \<open>The adapter\<close>

text \<open>
  The interfaces it was wired with are arguments of its operations; its own state is the cache of
  intents.
\<close>

type_synonym 'w StatusSink = "string \<Rightarrow> OPICondition \<Rightarrow> 'w \<Rightarrow> go_error option \<times> 'w"

record ReconcileAdapter =
  PinnedDPFVersion :: string
  intents :: "ServiceFunctionChainIntent gomap"
  ResyncPeriod :: duration

definition NewReconcileAdapter :: "string \<Rightarrow> go_error + ReconcileAdapter" where
  "NewReconcileAdapter detected =
     (let pinned = ''v1alpha1'' in
      if detected \<noteq> pinned
      then Inl (Errorf ''%w: detected %q, pinned %q'' [AWrap ErrUnsupportedAPIVersion, AStr detected, AStr pinned])
      else Inr \<lparr>PinnedDPFVersion = pinned, intents = [], ResyncPeriod = 30 * second\<rparr>)"

definition adapter_Init :: "'w Client \<Rightarrow> 'w \<Rightarrow> go_error option \<times> 'w" where
  "adapter_Init C = Apply C (ObjSet (ToDPUSet [(''dpu'', ''true'')] ''bf-bundle-default'' ''dpf-provisioning-default''))"

definition adapter_GetDevices :: "'w Client \<Rightarrow> 'w \<Rightarrow> (go_error + Device list) \<times> 'w" where
  "adapter_GetDevices C w =
     (case ListDPUs C w of
        (Inl err, w1) \<Rightarrow> (Inl (Errorf ''listing DPF DPUs: %w'' [AWrap err]), w1)
      | (Inr dpus, w1) \<Rightarrow>
          (Inr (map (\<lambda>d. \<lparr>dev_ID = meta_Name (dpu_Meta d), Product = ''NVIDIA BlueField-3'', PCIAddr = '''',
             dev_NodeName = '''', DPUSide = False\<rparr>) dpus), w1))"

definition adapter_CreateNetworkFunction ::
    "'w Client \<Rightarrow> ReconcileAdapter \<Rightarrow> ServiceFunctionChainIntent \<Rightarrow> NetworkFunction \<Rightarrow> 'w \<Rightarrow>
      go_error option \<times> ReconcileAdapter \<times> 'w" where
  "adapter_CreateNetworkFunction C r sfc nf w =
     (case ToDPUDeployment sfc nf of
        Inl err \<Rightarrow> (Some err, r, w)
      | Inr dd \<Rightarrow>
          (case Apply C (ObjDeployment dd) w of
             (Some err, w1) \<Rightarrow>
               (Some (Errorf ''applying DPUDeployment %s: %w'' [AStr (meta_Name (dd_Meta dd)), AWrap err]), r, w1)
           | (None, w1) \<Rightarrow> (None, r\<lparr>intents := AList.update (meta_Name (dd_Meta dd)) sfc (intents r)\<rparr>, w1)))"

definition adapter_DeleteNetworkFunction ::
    "'w Client \<Rightarrow> ReconcileAdapter \<Rightarrow> ServiceFunctionChainIntent \<Rightarrow> NetworkFunction \<Rightarrow> 'w \<Rightarrow>
      go_error option \<times> ReconcileAdapter \<times> 'w" where
  "adapter_DeleteNetworkFunction C r sfc nf w =
     (case ToDPUDeployment sfc nf of
        Inl err \<Rightarrow> (Some err, r, w)
      | Inr dd \<Rightarrow>
          (case Delete C (ObjDeployment dd) w of
             (Some err, w1) \<Rightarrow>
               (Some (Errorf ''deleting DPUDeployment %s: %w'' [AStr (meta_Name (dd_Meta dd)), AWrap err]), r, w1)
           | (None, w1) \<Rightarrow> (None, r\<lparr>intents := AList.delete (meta_Name (dd_Meta dd)) (intents r)\<rparr>, w1)))"

text \<open>The loop of \<open>MirrorStatusOnce\<close>: the first error is kept, every DPU is visited.\<close>

fun mirror_loop :: "'w StatusSink \<Rightarrow> DPFDPU list \<Rightarrow> go_error option \<Rightarrow> 'w \<Rightarrow> go_error option \<times> 'w" where
  "mirror_loop S [] firstErr w = (firstErr, w)"
| "mirror_loop S (d # ds) firstErr w =
     (case S (meta_Name (dpu_Meta d)) (MapDPUPhase (dpu_Phase d)) w of
        (err, w1) \<Rightarrow> mirror_loop S ds (if err \<noteq> None \<and> firstErr = None then err else firstErr) w1)"

definition MirrorStatusOnce :: "'w Client \<Rightarrow> 'w StatusSink \<Rightarrow> 'w \<Rightarrow> go_error option \<times> 'w" where
  "MirrorStatusOnce C S w =
     (case ListDPUs C w of
        (Inl err, w1) \<Rightarrow> (Some err, w1)
      | (Inr dpus, w1) \<Rightarrow> mirror_loop S dpus None w1)"

text \<open>\<open>Run\<close> over the events its \<open>select\<close> receives; \<open>None\<close> while the context is still live.\<close>

datatype run_event = CtxDone go_error | ResyncTick

fun adapter_Run :: "'w Client \<Rightarrow> 'w StatusSink \<Rightarrow> run_event list \<Rightarrow> 'w \<Rightarrow> (go_error \<times> 'w) option" where
  "adapter_Run C S [] w = None"
| "adapter_Run C S (CtxDone e # es) w = Some (e, w)"
| "adapter_Run C S (ResyncTick # es) w = adapter_Run C S es (snd (MirrorStatusOnce C S w))"

section \<open>Properties\<close>

text \<open>
  Two network functions with an image get the same object name exactly when their chain names
  and function names join to the same text: the chain's namespace plays no part, so equally named
  chains of different tenants write, and delete, the same object in the one DPF namespace.
\<close>

theorem ToDPUDeployment_collision:
  assumes "ToDPUDeployment s f = Inr d" and "ToDPUDeployment s' f' = Inr d'"
  shows "(meta_Name (dd_Meta d) = meta_Name (dd_Meta d') \<longleftrightarrow>
      sfi_Name s @ ''-'' @ nf_name f = sfi_Name s' @ ''-'' @ nf_name f') \<and>
    meta_Namespace (dd_Meta d) = meta_Namespace (dd_Meta d')"
  using assms by (auto simp: ToDPUDeployment_def split: if_splits)

definition chain_in :: "string \<Rightarrow> string \<Rightarrow> ServiceFunctionChainIntent" where
  "chain_in ns n = \<lparr>sfi_Name = n, sfi_Namespace = ns, sfi_NetworkFunctions = []\<rparr>"

definition nf_called :: "string \<Rightarrow> NetworkFunction" where
  "nf_called n = \<lparr>nf_name = n, nf_image = ''img''\<rparr>"

lemma ToDPUDeployment_collision_witness:
  "\<exists>d d'. ToDPUDeployment (chain_in ''tenant-a'' ''web'') (nf_called ''fw'') = Inr d \<and>
     ToDPUDeployment (chain_in ''tenant-b'' ''web'') (nf_called ''fw'') = Inr d' \<and>
     meta_Name (dd_Meta d) = meta_Name (dd_Meta d') \<and> meta_Labels (dd_Meta d) \<noteq> meta_Labels (dd_Meta d')"
proof -
  obtain d where d: "ToDPUDeployment (chain_in ''tenant-a'' ''web'') (nf_called ''fw'') = Inr d"
    by (simp add: ToDPUDeployment_def nf_called_def)
  obtain d' where d': "ToDPUDeployment (chain_in ''tenant-b'' ''web'') (nf_called ''fw'') = Inr d'"
    by (simp add: ToDPUDeployment_def nf_called_def)
  have "meta_Labels (dd_Meta d) \<noteq> meta_Labels (dd_Meta d')"
    using d d' by (auto simp: ToDPUDeployment_def nf_called_def chain_in_def)
  with ToDPUDeployment_collision [OF d d'] d d' show ?thesis by (auto simp: chain_in_def)
qed

text \<open>
  The intent cache follows the cluster: an operation that fails leaves it alone, a successful
  create records the chain under the object's name, and a create followed by a delete, both
  successful, forgets exactly that name.
\<close>

theorem intents_follow_cluster:
  assumes "adapter_CreateNetworkFunction C r sfc nf w = (e, r1, w1)"
    and "adapter_DeleteNetworkFunction C r1 sfc nf w1 = (e', r2, w2)"
  defines "n \<equiv> sfi_Name sfc @ ''-'' @ nf_name nf"
  shows "map_of (intents r1) = (if e = None then (map_of (intents r))(n \<mapsto> sfc) else map_of (intents r)) \<and>
    map_of (intents r2) = (if e' = None then (map_of (intents r1))(n := None) else map_of (intents r1)) \<and>
    (nf_image nf = '''' \<longrightarrow> e \<noteq> None \<and> e' \<noteq> None \<and> w2 = w)"
  using assms(1,2) unfolding n_def
  by (auto simp: adapter_CreateNetworkFunction_def adapter_DeleteNetworkFunction_def ToDPUDeployment_def
      split: if_splits sum.splits prod.splits option.splits)

definition list_client :: "DPFDPU list \<Rightarrow> applied_object list Client" where
  "list_client dpus =
     \<lparr>Apply = (\<lambda>x w. (None, x # w)), Delete = (\<lambda>x w. (None, remove1 x w)), ListDPUs = (\<lambda>w. (Inr dpus, w))\<rparr>"

lemma intents_follow_cluster_witness:
  "\<exists>r. NewReconcileAdapter ''v1alpha1'' = Inr r \<and>
     map_of (intents (fst (snd (adapter_CreateNetworkFunction (list_client []) r (chain_in ''t'' ''web'') (nf_called ''fw'') [])))) ''web-fw'' =
       Some (chain_in ''t'' ''web'')"
proof -
  obtain r where r: "NewReconcileAdapter ''v1alpha1'' = Inr r" by (simp add: NewReconcileAdapter_def)
  obtain r1 w1 where c: "adapter_CreateNetworkFunction (list_client []) r (chain_in ''t'' ''web'') (nf_called ''fw'') [] = (None, r1, w1)"
    by (simp add: adapter_CreateNetworkFunction_def ToDPUDeployment_def nf_called_def list_client_def)
  obtain e' r2 w2 where d: "adapter_DeleteNetworkFunction (list_client []) r1 (chain_in ''t'' ''web'') (nf_called ''fw'') w1 = (e', r2, w2)"
    by (metis prod.collapse)
  from intents_follow_cluster [OF c d] c r show ?thesis by (auto simp: chain_in_def nf_called_def)
qed

text \<open>A sink that records what it was given and fails for the devices in a set.\<close>

definition log_sink :: "string set \<Rightarrow> (string \<times> OPICondition) list StatusSink" where
  "log_sink bad n c w = (if n \<in> bad then Some (External n) else None, w @ [(n, c)])"

text \<open>
  One mirroring pass visits every listed DPU, in order, even when writing some conditions
  fails, and returns the error of the first one that failed; applying and deleting play no part in
  it, so it repairs no drift.
\<close>

theorem MirrorStatusOnce_visits_all:
  fixes C :: "(string \<times> OPICondition) list Client"
  assumes "ListDPUs C w = (Inr dpus, w1)"
  shows "MirrorStatusOnce (C\<lparr>Apply := A, Delete := D\<rparr>) (log_sink bad) w =
    (case filter (\<lambda>n. n \<in> bad) (map (meta_Name \<circ> dpu_Meta) dpus) of [] \<Rightarrow> None | n # _ \<Rightarrow> Some (External n),
     w1 @ map (\<lambda>d. (meta_Name (dpu_Meta d), MapDPUPhase (dpu_Phase d))) dpus)"
proof -
  have "mirror_loop (log_sink bad) dpus e w =
      (case e of Some x \<Rightarrow> Some x
         | None \<Rightarrow> (case filter (\<lambda>n. n \<in> bad) (map (meta_Name \<circ> dpu_Meta) dpus) of [] \<Rightarrow> None | n # _ \<Rightarrow> Some (External n)),
       w @ map (\<lambda>d. (meta_Name (dpu_Meta d), MapDPUPhase (dpu_Phase d))) dpus)" for e w
    by (induction dpus arbitrary: e w) (auto simp: log_sink_def split: option.splits)
  with assms show ?thesis by (simp add: MirrorStatusOnce_def)
qed

definition dpu_in :: "string \<Rightarrow> DPUPhase \<Rightarrow> DPFDPU" where
  "dpu_in n p = \<lparr>dpu_Meta = \<lparr>meta_Name = n, meta_Namespace = dpfNamespace, meta_Labels = []\<rparr>, dpu_Phase = p\<rparr>"

definition mirror_client :: "(string \<times> OPICondition) list Client" where
  "mirror_client =
     \<lparr>Apply = (\<lambda>x w. (None, w)), Delete = (\<lambda>x w. (None, w)),
      ListDPUs = (\<lambda>w. (Inr [dpu_in ''a'' ''Error'', dpu_in ''b'' ''Ready''], w))\<rparr>"

lemma MirrorStatusOnce_visits_all_witness:
  "MirrorStatusOnce (mirror_client\<lparr>Apply := \<lambda>x w. (None, []), Delete := \<lambda>x w. (None, [])\<rparr>) (log_sink {''a''}) [] =
     (Some (External ''a''), [(''a'', MapDPUPhase ''Error''), (''b'', MapDPUPhase ''Ready'')])"
proof -
  have "ListDPUs mirror_client [] = (Inr [dpu_in ''a'' ''Error'', dpu_in ''b'' ''Ready''], [])"
    by (simp add: mirror_client_def)
  from MirrorStatusOnce_visits_all [OF this, of "\<lambda>x w. (None, [])" "\<lambda>x w. (None, [])" "{''a''}"]
  show ?thesis by (simp add: dpu_in_def)
qed

end
