(* ===== verification/KubeObjects.thy ===== *)
theory KubeObjects
  imports Prelude
begin

text \<open>
  What several submissions share about the cluster: objects handled as \<open>unstructured.Unstructured\<close>,
  the key of an object, \<open>strings.Contains\<close>, and the decimal numbers that end generated names.
\<close>

section \<open>Objects\<close>

text \<open>
  An object of \<open>unstructured.Unstructured\<close>: what its accessors read and write, the fields set under
  \<open>spec\<close>, and the JSON under \<open>status\<close>, which only the API server writes.
\<close>

datatype json = JString string | JNumber int | JBool bool | JNull | JArray "json list" | JObject "(string \<times> json) list"

record Unstructured =
  u_APIVersion :: string
  u_Kind :: string
  u_Name :: string
  u_Namespace :: string
  u_Labels :: "string gomap"
  u_Spec :: "json gomap"
  u_Status :: "json option"

text \<open>What identifies an object in the cluster.\<close>

type_synonym object_key = "string \<times> string \<times> string \<times> string"

definition object_key :: "Unstructured \<Rightarrow> object_key" where
  "object_key u = (u_APIVersion u, u_Kind u, u_Namespace u, u_Name u)"

section \<open>Substrings\<close>

text \<open>\<open>strings.Contains\<close>.\<close>

definition contains :: "string \<Rightarrow> string \<Rightarrow> bool" where
  "contains s t = (\<exists>i \<in> set [0..<Suc (length s)]. take (length t) (drop i s) = t)"

section \<open>Decimal numbers in names\<close>

definition digits_value :: "string \<Rightarrow> nat" where
  "digits_value s = foldl (\<lambda>a c. 10 * a + (of_char c - 48)) 0 s"

lemma digit_char:
  assumes "d < 10"
  shows "is_digit (''0123456789'' ! d)" and "of_char (''0123456789'' ! d) = (48 + d :: nat)"
  using assms by (auto simp: is_digit_def less_Suc_eq numeral_eq_Suc less_eq_char_def)

lemma decimal_digits: "\<forall>c \<in> set (decimal n). is_digit c"
proof (induction n rule: decimal.induct)
  case (1 n)
  then show ?case
    by (cases "n < 10") (simp_all add: decimal.simps [of n] digit_char)
qed

lemma digits_value_decimal: "digits_value (decimal n) = n"
proof (induction n rule: decimal.induct)
  case (1 n)
  then show ?case
    by (cases "n < 10") (simp_all add: decimal.simps [of n] digits_value_def digit_char)
qed

lemma decimal_inject: "decimal m = decimal n \<Longrightarrow> m = n"
  by (metis digits_value_decimal)

lemma itoa_nat [simp]: "itoa (int n) = decimal n"
  by (simp add: itoa_def)

text \<open>A name that ends in a separator and a number determines both of its parts.\<close>

lemma append_digits_inject:
  assumes "xs @ c # ds = ys @ c # es" and "\<not> is_digit c"
    and "\<forall>d \<in> set ds. is_digit d" and "\<forall>d \<in> set es. is_digit d"
  shows "xs = ys \<and> ds = es"
proof -
  have tw: "takeWhile is_digit (rev (zs @ c # fs)) = rev fs" if "\<forall>d \<in> set fs. is_digit d" for zs fs
    using that assms(2) by (subst rev_append, simp, subst takeWhile_append2) simp_all
  have "rev ds = rev es"
    using tw [OF assms(3), of xs] tw [OF assms(4), of ys] assms(1) by simp
  with assms(1) show ?thesis by simp
qed

end
