(* ===== verification/ObjectNames.thy ===== *)
theory ObjectNames
  imports KubeObjects Sha1 "HOL-Library.Sublist"
begin

text \<open>
  The string handling of \<open>mridankan-mandal/feature_skeleton.go\<close>: DPU identifiers, object names and
  label values.  Names are cleaned by \<open>sanitizeName\<close> and cut to 63 bytes by \<open>trimName\<close>, which ends
  a cut name in its FNV-1a hash.  The functions of \<open>strings\<close> and \<open>hash/fnv\<close> they use come first.
\<close>

section \<open>The standard library\<close>

text \<open>
  \<open>strings.TrimSpace\<close> on the bytes of a string: the UTF-8 encodings of the runes \<open>unicode.IsSpace\<close>
  accepts are cut off at both ends.  A rune's encoding is never a proper part of another valid one,
  so that matching bytes at either end agrees with decoding runes there.
\<close>

definition space_runes :: "string list" where
  "space_runes =
     map (\<lambda>c. [c]) [CHR 0x09, CHR 0x0A, CHR 0x0B, CHR 0x0C, CHR 0x0D, CHR 0x20] @
     [[CHR 0xC2, CHR 0x85], [CHR 0xC2, CHR 0xA0], [CHR 0xE1, CHR 0x9A, CHR 0x80]] @
     map (\<lambda>i. [CHR 0xE2, CHR 0x80, char_of (0x80 + i :: nat)]) [0..<11] @
     [[CHR 0xE2, CHR 0x80, CHR 0xA8], [CHR 0xE2, CHR 0x80, CHR 0xA9], [CHR 0xE2, CHR 0x80, CHR 0xAF],
      [CHR 0xE2, CHR 0x81, CHR 0x9F], [CHR 0xE3, CHR 0x80, CHR 0x80]]"

definition rune_at :: "string list \<Rightarrow> string \<Rightarrow> string" where
  "rune_at rs s = (case find (\<lambda>r. r \<noteq> [] \<and> take (length r) s = r) rs of None \<Rightarrow> [] | Some r \<Rightarrow> r)"

lemma rune_at_length: "rune_at rs s \<noteq> [] \<Longrightarrow> 0 < length (rune_at rs s) \<and> length (rune_at rs s) \<le> length s"
proof -
  assume "rune_at rs s \<noteq> []"
  then obtain r where r: "find (\<lambda>r. r \<noteq> [] \<and> take (length r) s = r) rs = Some r" "rune_at rs s = r" "r \<noteq> []"
    by (auto simp: rune_at_def split: option.splits)
  then have "take (length r) s = r"
    by (auto simp: find_Some_iff)
  then have "length r \<le> length s"
    by (metis length_take min.cobounded1)
  with r show ?thesis by simp
qed

function trim_runes :: "string list \<Rightarrow> string \<Rightarrow> string" where
  "trim_runes rs s = (if rune_at rs s = [] then s else trim_runes rs (drop (length (rune_at rs s)) s))"
  by pat_completeness auto

termination
proof (relation "measure (\<lambda>(rs, s). length s)", goal_cases)
  case (2 rs s)
  with rune_at_length [of rs s] show ?case by (auto intro!: diff_less)
qed simp

declare trim_runes.simps [simp del]

definition TrimSpace :: "string \<Rightarrow> string" where
  "TrimSpace s = rev (trim_runes (map rev space_runes) (rev (trim_runes space_runes s)))"

definition TrimSuffix :: "string \<Rightarrow> string \<Rightarrow> string" where
  "TrimSuffix s suf = (if length suf \<le> length s \<and> drop (length s - length suf) s = suf
     then take (length s - length suf) s else s)"

text \<open>\<open>strings.ReplaceAll(s, "--", "-")\<close> for the character given: matches do not overlap.\<close>

fun replace_pairs :: "char \<Rightarrow> string \<Rightarrow> string" where
  "replace_pairs c (x # y # cs) =
     (if x = c \<and> y = c then c # replace_pairs c cs else x # replace_pairs c (y # cs))"
| "replace_pairs c s = s"

text \<open>\<open>hash/fnv\<close>, the 32-bit FNV-1a hash, and its \<open>%08x\<close> rendering.\<close>

definition fnv32a :: "string \<Rightarrow> u32" where
  "fnv32a s = foldl (\<lambda>h c. (h XOR of_char c) * 16777619) 2166136261 s"

section \<open>Cleaning names\<close>

definition separators :: string where "separators = '':._/ ''"

definition replace_separators :: "string \<Rightarrow> string" where
  "replace_separators s = map (\<lambda>c. if c \<in> set separators then CHR ''-'' else c) s"

lemma length_replace_pairs: "length (replace_pairs c s) \<le> length s"
  by (induction c s rule: replace_pairs.induct) (auto intro: le_SucI)

lemma contains_sublist: "contains s t = sublist t s"
proof
  assume "contains s t"
  then obtain i where "take (length t) (drop i s) = t"
    by (auto simp: contains_def)
  then have "s = take i s @ t @ drop (length t) (drop i s)"
    by (metis append_take_drop_id)
  then show "sublist t s" by (auto simp: sublist_def)
next
  assume "sublist t s"
  then obtain p q where "s = p @ t @ q" by (auto simp: sublist_def)
  then show "contains s t"
    unfolding contains_def by (intro bexI [of _ "length p"]) auto
qed

lemma replace_pairs_shorter: "contains s [c, c] \<Longrightarrow> length (replace_pairs c s) < length s"
proof (induction c s rule: replace_pairs.induct)
  case (1 c x y cs)
  then show ?case
    using length_replace_pairs [of c cs] by (auto simp: contains_sublist sublist_Cons_right)
qed (auto simp: contains_sublist sublist_Cons_right)

function squeeze :: "string \<Rightarrow> string" where
  "squeeze s = (if contains s ''--'' then squeeze (replace_pairs CHR ''-'' s) else s)"
  by pat_completeness auto

termination
  by (relation "measure length") (simp_all add: replace_pairs_shorter)

declare squeeze.simps [simp del]

definition sanitizeName :: "string \<Rightarrow> string" where
  "sanitizeName s = trim_char CHR ''-'' (squeeze (replace_separators (to_lower (TrimSpace s))))"

text \<open>The last slice, \<open>s[:prefixLen]\<close>, cuts at a byte.\<close>

definition trimName :: "string \<Rightarrow> string" where
  "trimName s =
     (let s = trim_char CHR ''-'' s in
      if length s \<le> 63 then (if s = '''' then ''dpu-object'' else s)
      else let suffix = hex_word (fnv32a s);
               prefixLen = 63 - length suffix - 1;
               prefix = trim_char CHR ''-'' (take prefixLen s);
               prefix = (if prefix = '''' then ''dpu-object'' else prefix)
           in prefix @ ''-'' @ suffix)"

definition sanitizeLabelValue :: "string \<Rightarrow> string" where
  "sanitizeLabelValue s =
     (let s = trim_char CHR ''-'' (trimName (sanitizeName s)) in if s = '''' then ''unknown'' else s)"

section \<open>What cleaning does\<close>

text \<open>The single pass the loop of \<open>sanitizeName\<close> amounts to.\<close>

fun collapse :: "string \<Rightarrow> string" where
  "collapse (x # y # cs) = (if x = CHR ''-'' \<and> y = CHR ''-'' then collapse (y # cs) else x # collapse (y # cs))"
| "collapse s = s"

lemma collapse_dash: "collapse (CHR ''-'' # CHR ''-'' # cs) = collapse (CHR ''-'' # cs)"
  by simp

lemma collapse_Cons:
  "collapse (c # s) = (if c = CHR ''-'' \<and> s \<noteq> [] \<and> hd s = CHR ''-'' then collapse s else c # collapse s)"
  by (cases s) simp_all

lemma collapse_hd: "(collapse s = []) = (s = [])" "s \<noteq> [] \<Longrightarrow> hd (collapse s) = hd s"
  by (induction s rule: collapse.induct) auto

lemma collapse_Cons_cong:
  assumes "collapse s = collapse t"
  shows "collapse (c # s) = collapse (c # t)"
proof -
  have "(s = []) = (t = [])" "s \<noteq> [] \<Longrightarrow> hd s = hd t"
    using collapse_hd [of s] collapse_hd [of t] assms by auto
  then show ?thesis
    using assms by (auto simp: collapse_Cons)
qed

lemma collapse_replace_pairs: "collapse (replace_pairs CHR ''-'' s) = collapse s"
proof (induction "CHR ''-''" s rule: replace_pairs.induct)
  case (1 x y cs)
  show ?case
  proof (cases "x = CHR ''-'' \<and> y = CHR ''-''")
    case True
    then have "collapse (CHR ''-'' # replace_pairs CHR ''-'' cs) = collapse (CHR ''-'' # cs)"
      using 1(1) by (intro collapse_Cons_cong) simp
    with True show ?thesis by simp
  next
    case False
    then have "replace_pairs CHR ''-'' (x # y # cs) = x # replace_pairs CHR ''-'' (y # cs)" by auto
    with collapse_Cons_cong [OF 1(2) [OF False], of x] show ?thesis by simp
  qed
qed simp_all

lemma collapse_id: "\<not> contains s ''--'' \<Longrightarrow> collapse s = s"
  by (induction s rule: collapse.induct) (auto simp: contains_sublist sublist_Cons_right)

lemma squeeze_free: "\<not> contains (squeeze s) ''--''"
proof (induction s rule: squeeze.induct)
  case (1 s)
  then show ?case by (subst squeeze.simps) simp
qed

lemma squeeze_is_collapse: "squeeze s = collapse s"
proof (induction s rule: squeeze.induct)
  case (1 s)
  show ?case
    by (subst squeeze.simps) (simp add: 1 collapse_replace_pairs collapse_id)
qed

lemma set_squeeze: "set (squeeze s) \<subseteq> set s"
  unfolding squeeze_is_collapse by (induction s rule: collapse.induct) auto

lemma set_trim_runes: "set (trim_runes rs s) \<subseteq> set s"
proof (induction rs s rule: trim_runes.induct)
  case (1 rs s)
  show ?case
    by (subst trim_runes.simps) (auto dest: 1 [THEN subsetD] in_set_dropD)
qed

lemma set_TrimSpace: "set (TrimSpace s) \<subseteq> set s"
  using set_trim_runes [of space_runes s]
    set_trim_runes [of "map rev space_runes" "rev (trim_runes space_runes s)"]
  by (auto simp: TrimSpace_def)

lemma trimName_cases:
  obtains (short) "length (trim_char CHR ''-'' s) \<le> 63" "trim_char CHR ''-'' s \<noteq> ''''" "trimName s = trim_char CHR ''-'' s"
  | (empty) "trim_char CHR ''-'' s = ''''" "trimName s = ''dpu-object''"
  | (long) p where "63 < length (trim_char CHR ''-'' s)" "p \<noteq> ''''" "length p \<le> 54" "hd p \<noteq> CHR ''-''"
      "p = ''dpu-object'' \<or> set p \<subseteq> set s"
      "trimName s = p @ ''-'' @ hex_word (fnv32a (trim_char CHR ''-'' s))"
proof -
  let ?t = "trim_char CHR ''-'' s" and ?p = "trim_char CHR ''-'' (take 54 (trim_char CHR ''-'' s))"
  have len: "length ?p \<le> 54"
    by (auto simp: trim_char_def intro!: le_trans [OF length_dropWhile_le])
  have set: "set ?p \<subseteq> set s"
    using set_trim_char [of "CHR ''-''" "take 54 ?t"] set_trim_char [of "CHR ''-''" s] by (auto dest: in_set_takeD)
  consider "length ?t \<le> 63" "?t \<noteq> ''''" | "?t = ''''" | "63 < length ?t" by fastforce
  then show ?thesis
  proof cases
    case 1 then show ?thesis by (intro short) (simp_all add: trimName_def)
  next
    case 2 then show ?thesis by (intro empty) (simp_all add: trimName_def)
  next
    case 3
    show ?thesis
    proof (cases "?p = ''''")
      case True
      with 3 show ?thesis by (intro long [of "''dpu-object''"]) (simp_all add: trimName_def)
    next
      case False
      with 3 show ?thesis
        using hd_trim_char [OF False] len set by (intro long [of ?p]) (simp_all add: trimName_def Let_def)
    qed
  qed
qed

text \<open>
  C22.  Every name \<open>trimName\<close> gives has 1 to 63 bytes and no dash at either end, and is left alone by
  another \<open>trimName\<close>; the name itself is kept when it fits.\<close>

theorem trimName_bounds:
  "length (trimName s) \<in> {1..63} \<and> hd (trimName s) \<noteq> CHR ''-'' \<and> last (trimName s) \<noteq> CHR ''-'' \<and>
   trimName (trimName s) = trimName s \<and>
   (trimName s = s \<longleftrightarrow> length s \<in> {1..63} \<and> hd s \<noteq> CHR ''-'' \<and> last s \<noteq> CHR ''-'')"
proof -
  have ends: "length (trimName s) \<in> {1..63} \<and> hd (trimName s) \<noteq> CHR ''-'' \<and> last (trimName s) \<noteq> CHR ''-''" for s
  proof (cases s rule: trimName_cases)
    case short
    then show ?thesis
      using hd_trim_char last_trim_char by (auto simp: Suc_le_eq)
  next
    case (long p)
    let ?h = "hex_word (fnv32a (trim_char CHR ''-'' s))"
    have h: "?h \<noteq> ''''" using length_hex_word by (metis list.size(3) zero_neq_numeral)
    then have "last ?h \<in> set ''0123456789abcdef''"
      using set_hex_word by (meson last_in_set subsetD)
    then have "last ?h \<noteq> CHR ''-''" by auto
    with long h show ?thesis by (auto simp: Suc_le_eq)
  qed simp
  have id: "trimName s = s" if "length s \<in> {1..63}" "hd s \<noteq> CHR ''-''" "last s \<noteq> CHR ''-''" for s
    using that trim_char_id [of s "CHR ''-''"] by (auto simp: trimName_def)
  show ?thesis
    using ends [of s] id [of s] id [of "trimName s"] by metis
qed

lemma rep_chars: "c \<in> set (replace_separators s) \<Longrightarrow> c \<in> set s - set separators \<or> c = CHR ''-''"
  by (auto simp: replace_separators_def split: if_splits)

text \<open>The characters that survive cleaning as label characters.\<close>

definition cleanable :: "char \<Rightarrow> bool" where
  "cleanable c = (is_lower_ascii c \<or> (CHR ''A'' \<le> c \<and> c \<le> CHR ''Z'') \<or> is_digit c \<or> c = CHR ''-'' \<or> c \<in> set separators)"

definition visible :: "char \<Rightarrow> bool" where
  "visible c = (32 < (of_char c :: nat) \<and> of_char c < (128 :: nat))"

lemma space_runes_bytes:
  "\<forall>r \<in> set space_runes. \<forall>c \<in> set r. (of_char c :: nat) \<le> 32 \<or> (128 :: nat) \<le> of_char c"
  by code_simp

lemma rune_at_visible:
  assumes "\<forall>r \<in> set rs. \<forall>c \<in> set r. (of_char c :: nat) \<le> 32 \<or> (128 :: nat) \<le> of_char c"
    and "list_all visible s"
  shows "rune_at rs s = []"
proof (cases "find (\<lambda>r. r \<noteq> [] \<and> take (length r) s = r) rs")
  case (Some r)
  then have r: "r \<in> set rs" "r \<noteq> []" "take (length r) s = r"
    by (auto simp: find_Some_iff)
  then have "hd r \<in> set r" and "set r \<subseteq> set s"
    by (simp, metis set_take_subset)
  then show ?thesis
    using assms r by (fastforce simp: list_all_iff visible_def)
qed (simp add: rune_at_def)

lemma TrimSpace_visible: "list_all visible s \<Longrightarrow> TrimSpace s = s"
proof -
  assume v: "list_all visible s"
  have "trim_runes space_runes s = s"
    using rune_at_visible [OF space_runes_bytes v] by (subst trim_runes.simps) simp
  moreover have "trim_runes (map rev space_runes) (rev s) = rev s"
    using rune_at_visible [of "map rev space_runes" "rev s"] space_runes_bytes v
    by (subst trim_runes.simps) simp
  ultimately show ?thesis by (simp add: TrimSpace_def)
qed

lemma to_lower_visible:
  "list_all visible s \<Longrightarrow> to_lower s = map (\<lambda>c. if CHR ''A'' \<le> c \<and> c \<le> CHR ''Z'' then char_of (of_char c + 32 :: nat) else c) s"
proof (induction s)
  case (Cons c s)
  then have "c \<noteq> CHR 0xC4" "c \<noteq> CHR 0xE2" by (auto simp: visible_def)
  with Cons show ?case by simp
qed simp

lemma upper_lowers:
  assumes "CHR ''A'' \<le> c" and "c \<le> CHR ''Z''"
  shows "is_lower_ascii (char_of (of_char c + 32 :: nat))"
proof -
  have "65 \<le> (of_char c :: nat)" "(of_char c :: nat) \<le> 90"
    using assms by (simp_all add: less_eq_char_def)
  then show ?thesis by (simp add: is_lower_ascii_def less_eq_char_def of_char_of)
qed

lemma lower_visible: "name_char c \<Longrightarrow> visible c \<and> \<not> (CHR ''A'' \<le> c \<and> c \<le> CHR ''Z'')"
  by (auto simp: name_char_def is_lower_ascii_def is_digit_def visible_def less_eq_char_def)

lemma sanitizeName_chars:
  assumes "list_all cleanable s"
  shows "list_all name_char (sanitizeName s)"
proof -
  let ?low = "\<lambda>c. if CHR ''A'' \<le> c \<and> c \<le> CHR ''Z'' then char_of (of_char c + 32 :: nat) else c"
  have step: "c \<in> set s \<Longrightarrow> c \<noteq> CHR '' '' \<Longrightarrow> visible c" for c
    using assms
    by (auto simp: list_all_iff cleanable_def visible_def separators_def is_lower_ascii_def is_digit_def less_eq_char_def)
  have low: "set (to_lower t) \<subseteq> ?low ` set t" if "set t \<subseteq> set s" for t
    using that
  proof (induction t)
    case (Cons c t)
    have "c \<noteq> CHR 0xC4" "c \<noteq> CHR 0xE2"
      using step [of c] Cons.prems by (auto simp: visible_def)
    with Cons show ?case by auto
  qed simp
  have "name_char c" if "c \<in> set (replace_separators (to_lower (TrimSpace s)))" for c
  proof (cases "c = CHR ''-''")
    case False
    then have "c \<in> set (to_lower (TrimSpace s))" "c \<notin> set separators"
      using rep_chars [OF that] by auto
    then obtain d where d: "d \<in> set s" "c = ?low d"
      using low [OF set_TrimSpace [of s]] set_TrimSpace [of s] by blast
    then have "cleanable d" using assms by (simp add: list_all_iff)
    then show ?thesis
      using d \<open>c \<notin> set separators\<close> upper_lowers [of d]
      by (auto simp: cleanable_def name_char_def split: if_splits)
  qed (simp add: name_char_def)
  then show ?thesis
    using set_trim_char [of "CHR ''-''" "squeeze (replace_separators (to_lower (TrimSpace s)))"]
      set_squeeze [of "replace_separators (to_lower (TrimSpace s))"]
    by (auto simp: sanitizeName_def list_all_iff)
qed

lemma hex_name_chars: "list_all name_char (hex_word w)"
  using set_hex_word [of w] by (auto simp: list_all_iff name_char_def is_lower_ascii_def is_digit_def dest!: subsetD)

lemma trimName_chars:
  assumes "list_all name_char s"
  shows "list_all name_char (trimName s)"
proof (cases s rule: trimName_cases)
  case short
  then show ?thesis
    using assms set_trim_char [of "CHR ''-''" s] by (auto simp: list_all_iff)
next
  case (long p)
  then have "list_all name_char p"
    using assms by (auto simp: list_all_iff name_char_def is_lower_ascii_def)
  with long hex_name_chars show ?thesis by (simp add: name_char_def)
qed (simp add: name_char_def is_lower_ascii_def)

lemma sanitizeLabelValue_eq: "sanitizeLabelValue s = trimName (sanitizeName s)"
proof -
  let ?t = "trimName (sanitizeName s)"
  have "?t \<noteq> []" "hd ?t \<noteq> CHR ''-''" "last ?t \<noteq> CHR ''-''"
    using trimName_bounds [of "sanitizeName s"] by auto
  then show ?thesis
    by (simp add: sanitizeLabelValue_def trim_char_id Let_def)
qed

text \<open>
  A label value made of letters, digits and the separators the cleaning knows comes out as a
  DNS-1123 label, whatever their number and order.\<close>

theorem sanitizeLabelValue_label:
  assumes "list_all cleanable s"
  shows "rfc1123_label (sanitizeLabelValue s)"
  using trimName_chars [OF sanitizeName_chars [OF assms]] trimName_bounds [of "sanitizeName s"]
  by (auto simp: sanitizeLabelValue_eq rfc1123_label_def)

theorem sanitizeLabelValue_label_witness:
  "list_all cleanable ''BF3: Node_1.example'' \<and> rfc1123_label (sanitizeLabelValue ''BF3: Node_1.example'')"
proof -
  have "list_all cleanable ''BF3: Node_1.example''" by code_simp
  with sanitizeLabelValue_label [OF this] show ?thesis by simp
qed

lemma name_chars_clean:
  assumes "list_all name_char s"
  shows "sanitizeName s = trim_char CHR ''-'' (squeeze s)"
proof -
  have v: "list_all visible s" and low: "\<forall>c \<in> set s. \<not> (CHR ''A'' \<le> c \<and> c \<le> CHR ''Z'')"
    using assms lower_visible by (auto simp: list_all_iff)
  have "to_lower s = s"
    unfolding to_lower_visible [OF v] by (rule map_idI) (use low in auto)
  moreover have "replace_separators s = s"
    unfolding replace_separators_def using assms
    by (intro map_idI) (auto simp: list_all_iff name_char_def separators_def is_lower_ascii_def is_digit_def less_eq_char_def)
  ultimately show ?thesis
    by (simp add: sanitizeName_def TrimSpace_visible [OF v])
qed

lemma squeeze_id: "\<not> contains s ''--'' \<Longrightarrow> squeeze s = s"
  by (simp add: squeeze.simps)

lemma sublist_drop_ends: "sublist t (dropWhile P s) \<Longrightarrow> sublist t s" "sublist t (take n s) \<Longrightarrow> sublist t s"
proof -
  have "sublist (dropWhile P s) s" and "sublist (take n s) s"
    by (metis suffix_dropWhile suffix_imp_sublist) (metis take_is_prefix prefix_imp_sublist)
  then show "sublist t (dropWhile P s) \<Longrightarrow> sublist t s" "sublist t (take n s) \<Longrightarrow> sublist t s"
    using sublist_order.order_trans by blast+
qed

lemma sublist_trim: "sublist t (trim_char c s) \<Longrightarrow> sublist t s"
proof -
  assume "sublist t (trim_char c s)"
  then have "sublist (rev t) (dropWhile (\<lambda>x. x = c) (rev (dropWhile (\<lambda>x. x = c) s)))"
    by (simp add: trim_char_def sublist_rev_right)
  then have "sublist (rev t) (rev (dropWhile (\<lambda>x. x = c) s))" by (rule sublist_drop_ends)
  then show ?thesis using sublist_drop_ends(1) by (simp add: sublist_rev)
qed

lemma length_squeeze: "length (squeeze s) \<le> length s"
  unfolding squeeze_is_collapse by (induction s rule: collapse.induct) auto

lemma length_trim_char: "length (trim_char c s) \<le> length s"
  using length_dropWhile_le [of "\<lambda>x. x = c" "rev (dropWhile (\<lambda>x. x = c) s)"] length_dropWhile_le [of "\<lambda>x. x = c" s]
  by (simp add: trim_char_def)

text \<open>A Kubernetes object name: lower-case alphanumerics, dashes and dots, alphanumeric at both ends.\<close>

definition subdomain :: "string \<Rightarrow> bool" where
  "subdomain s = (s \<noteq> '''' \<and> list_all (\<lambda>c. name_char c \<or> c = CHR ''.'') s \<and>
     hd s \<notin> {CHR ''-'', CHR ''.''} \<and> last s \<notin> {CHR ''-'', CHR ''.''})"

lemma sanitizeLabelValue_fixed:
  assumes "subdomain n"
  shows "sanitizeLabelValue n = n \<longleftrightarrow> CHR ''.'' \<notin> set n \<and> \<not> contains n ''--'' \<and> length n \<le> 63"
proof
  assume eq: "sanitizeLabelValue n = n"
  have "list_all cleanable n"
    using assms by (auto simp: subdomain_def list_all_iff cleanable_def name_char_def separators_def)
  then have chars: "list_all name_char n"
    using trimName_chars [OF sanitizeName_chars, of n] eq by (simp add: sanitizeLabelValue_eq)
  let ?t = "trim_char CHR ''-'' (squeeze n)"
  have san: "trimName ?t = n"
    using eq by (simp add: sanitizeLabelValue_eq name_chars_clean [OF chars])
  have len: "length n \<le> 63"
    using trimName_bounds [of ?t] san by simp
  have free: "\<not> contains (trim_char CHR ''-'' ?t) ''--''"
    using squeeze_free [of n] unfolding contains_sublist by (blast dest: sublist_trim)
  have "\<not> contains n ''--''"
  proof (cases ?t rule: trimName_cases)
    case short
    then show ?thesis using free san by simp
  next
    case empty
    then have "n = ''dpu-object''" using san by simp
    then show ?thesis by (simp add: contains_sublist sublist_Cons_right)
  next
    case (long p)
    then show ?thesis
      using length_trim_char [of "CHR ''-''" ?t] length_trim_char [of "CHR ''-''" "squeeze n"] length_squeeze [of n] len
      by simp
  qed
  with chars len show "CHR ''.'' \<notin> set n \<and> \<not> contains n ''--'' \<and> length n \<le> 63"
    by (auto simp: list_all_iff name_char_def is_lower_ascii_def is_digit_def)
next
  assume n: "CHR ''.'' \<notin> set n \<and> \<not> contains n ''--'' \<and> length n \<le> 63"
  then have chars: "list_all name_char n"
    using assms by (auto simp: subdomain_def list_all_iff)
  have ends: "hd n \<noteq> CHR ''-''" "last n \<noteq> CHR ''-''" "n \<noteq> ''''"
    using assms by (auto simp: subdomain_def)
  then have "sanitizeName n = n"
    using n by (simp add: name_chars_clean [OF chars] squeeze_id trim_char_id)
  then show "sanitizeLabelValue n = n"
    using trimName_bounds [of n] ends n by (cases n) (auto simp: sanitizeLabelValue_eq)
qed

end
