(* ===== verification/DpuVspServer.thy ===== *)
theory DpuVspServer
  imports ObjectNames
begin

text \<open>
  \<open>mridankan-mandal/feature_skeleton.go\<close>: the NVIDIA plugin that serves OPI's vendor calls by applying
  DPF objects owned by one \<open>DataProcessingUnit\<close>, and the reconciler that reads those objects back into
  the conditions of that unit.

  The Kubernetes libraries are parameters: \<open>Client\<close> is the controller-runtime client with
  \<open>controllerutil.SetControllerReference\<close>, \<open>machinery\<close> the pure functions of \<open>apimachinery\<close>.
\<close>

section \<open>Types\<close>

record GroupVersionKind =
  Group :: string
  Version :: string
  Kind :: string

definition dpuFlavorGVK :: GroupVersionKind where
  "dpuFlavorGVK = \<lparr>Group = ''provisioning.dpu.nvidia.com'', Version = ''v1alpha1'', Kind = ''DPUFlavor''\<rparr>"
definition dpuSetGVK :: GroupVersionKind where
  "dpuSetGVK = \<lparr>Group = ''provisioning.dpu.nvidia.com'', Version = ''v1alpha1'', Kind = ''DPUSet''\<rparr>"
definition dpuServiceNadGVK :: GroupVersionKind where
  "dpuServiceNadGVK = \<lparr>Group = ''svc.dpu.nvidia.com'', Version = ''v1alpha1'', Kind = ''DPUServiceNAD''\<rparr>"
definition serviceInterfaceGVK :: GroupVersionKind where
  "serviceInterfaceGVK = \<lparr>Group = ''svc.dpu.nvidia.com'', Version = ''v1alpha1'', Kind = ''ServiceInterface''\<rparr>"

lemmas vsp_gvk_defs = dpuFlavorGVK_def dpuSetGVK_def dpuServiceNadGVK_def serviceInterfaceGVK_def

definition readyConditionType :: string where "readyConditionType = ''Ready''"
definition progressingConditionType :: string where "progressingConditionType = ''Progressing''"
definition degradedConditionType :: string where "degradedConditionType = ''Degraded''"
definition translationValidConditionType :: string where "translationValidConditionType = ''TranslationValid''"

lemmas condition_types = readyConditionType_def progressingConditionType_def degradedConditionType_def
  translationValidConditionType_def

definition fieldOwner :: string where "fieldOwner = ''opi-nvidia-dpf-adapter''"
definition defaultBlueFieldSW :: string where "defaultBlueFieldSW = ''bf3-default''"
definition hostSideSuffix :: string where "hostSideSuffix = ''-host''"
definition dpuSideSuffix :: string where "dpuSideSuffix = ''-dpu''"
definition rawIdentifierAnnotation :: string where "rawIdentifierAnnotation = ''opi.dpu/raw-identifier''"

text \<open>\<open>metav1.Condition\<close> and \<open>metav1.ObjectMeta\<close> as far as they are used.\<close>

record Condition =
  Type :: string
  Status :: string
  ObservedGeneration :: "64 word"
  LastTransitionTime :: time
  Reason :: string
  Message :: message

record DataProcessingUnitSpec =
  DpuProductName :: string
  DpuIdentifier :: string
  IsDpuSide :: bool
  NodeName :: string

record DataProcessingUnit =
  Name :: string
  Namespace :: string
  UID :: string
  Annotations :: "string gomap"
  Generation :: "64 word"
  Spec :: DataProcessingUnitSpec
  Conditions :: "Condition list"

text \<open>An object with its owner references, the UIDs of the owning units.\<close>

record Owned = Unstructured +
  u_Owners :: "string list"

record InitRequest =
  DPUMode :: bool
  DPUIdentifier :: string

record IpPort =
  IP :: string
  Port :: int32

record NFRequest =
  Input :: string
  Output :: string

record VfCount =
  VfCnt :: int32

record Device =
  ID :: string
  Health :: string
  Node :: string

record PingRequest =
  ping_Timestamp :: "64 word"
  SenderID :: string

record PingResponse =
  pong_Timestamp :: "64 word"
  ResponderID :: string
  Healthy :: bool

record 'w Client =
  get_DPU :: "string \<times> string \<Rightarrow> 'w \<Rightarrow> (go_error + DataProcessingUnit) \<times> 'w"
  get_object :: "GroupVersionKind \<Rightarrow> string \<times> string \<Rightarrow> 'w \<Rightarrow> (go_error + Owned) \<times> 'w"
  apply_object :: "Owned \<Rightarrow> 'w \<Rightarrow> go_error option \<times> 'w"
  delete_object :: "Owned \<Rightarrow> 'w \<Rightarrow> go_error option \<times> 'w"
  status_patch :: "DataProcessingUnit \<Rightarrow> DataProcessingUnit \<Rightarrow> 'w \<Rightarrow> go_error option \<times> 'w"
  SetControllerReference :: "DataProcessingUnit \<Rightarrow> Owned \<Rightarrow> go_error + Owned"

record machinery =
  IsNotFound :: "go_error \<Rightarrow> bool"
  SetStatusCondition :: "Condition list \<Rightarrow> Condition \<Rightarrow> Condition list"
  NestedString :: "Owned \<Rightarrow> string list \<Rightarrow> string \<times> bool \<times> go_error option"
  NestedSlice :: "Owned \<Rightarrow> string list \<Rightarrow> json list \<times> bool \<times> go_error option"

section \<open>Identifiers and names\<close>

definition normalizeDPUIdentifier :: "string \<Rightarrow> string" where
  "normalizeDPUIdentifier name = TrimSuffix (TrimSuffix (TrimSpace name) hostSideSuffix) dpuSideSuffix"

text \<open>The argument is never nil where the function is called.\<close>

definition canonicalDPUIdentifierForObject :: "DataProcessingUnit \<Rightarrow> string" where
  "canonicalDPUIdentifierForObject dpu =
     (if TrimSpace (DpuIdentifier (Spec dpu)) \<noteq> '''' then TrimSpace (DpuIdentifier (Spec dpu))
      else if TrimSpace (str_at (Annotations dpu) rawIdentifierAnnotation) \<noteq> ''''
      then TrimSpace (str_at (Annotations dpu) rawIdentifierAnnotation)
      else let normalized = normalizeDPUIdentifier (Name dpu)
           in if normalized = '''' then ''unknown-dpu'' else normalized)"

definition canonicalDPUIdentifier :: "string \<Rightarrow> string" where
  "canonicalDPUIdentifier name = canonicalDPUIdentifierForObject
     \<lparr>Name = name, Namespace = '''', UID = '''', Annotations = [], Generation = 0,
      Spec = \<lparr>DpuProductName = '''', DpuIdentifier = '''', IsDpuSide = False, NodeName = ''''\<rparr>, Conditions = []\<rparr>"

definition flavorName :: "DataProcessingUnit \<Rightarrow> string \<Rightarrow> int \<Rightarrow> string" where
  "flavorName dpu identifier vfCount =
     trimName (sanitizeName (Name dpu @ ''-'' @ identifier @ ''-vf-'' @ itoa vfCount @ ''-flavor''))"

definition dpusetName :: "DataProcessingUnit \<Rightarrow> string \<Rightarrow> string" where
  "dpusetName dpu identifier = trimName (sanitizeName (Name dpu @ ''-'' @ identifier @ ''-dpuset''))"

definition serviceNadName :: "DataProcessingUnit \<Rightarrow> string" where
  "serviceNadName dpu = trimName (sanitizeName (Name dpu @ ''-nad''))"

definition serviceInterfaceName :: "DataProcessingUnit \<Rightarrow> string \<Rightarrow> string" where
  "serviceInterfaceName dpu direction = trimName (sanitizeName (Name dpu @ ''-'' @ direction @ ''-if''))"

definition interfaceName :: "string \<Rightarrow> string" where
  "interfaceName direction = (if direction = ''ingress'' then ''net-in'' else ''net-out'')"

definition ownedLabels :: "DataProcessingUnit \<Rightarrow> string \<Rightarrow> string gomap" where
  "ownedLabels dpu identifier =
     [(''opi.dpu/name'', sanitizeLabelValue (Name dpu)),
      (''opi.dpu/node'', sanitizeLabelValue (NodeName (Spec dpu))),
      (''opi.dpu/product'', sanitizeLabelValue (DpuProductName (Spec dpu))),
      (''opi.dpu/identifier'', sanitizeLabelValue identifier),
      (''opi.dpu/source-uid'', sanitizeLabelValue (UID dpu)),
      (''app.kubernetes.io/managed-by'', sanitizeLabelValue fieldOwner)]"

section \<open>The objects\<close>

definition namedUnstructured :: "GroupVersionKind \<Rightarrow> string \<Rightarrow> string \<Rightarrow> Owned" where
  "namedUnstructured gvk namespace name =
     \<lparr>u_APIVersion = Group gvk @ ''/'' @ Version gvk, u_Kind = Kind gvk, u_Name = name, u_Namespace = namespace,
      u_Labels = [], u_Spec = [], u_Status = None, u_Owners = []\<rparr>"

record 'w NvidiaVspServer =
  srv_Client :: "'w Client"
  srv_lib :: machinery
  DPUName :: string
  TargetNamespace :: string
  BridgeName :: string

definition buildFlavorObject :: "'w NvidiaVspServer \<Rightarrow> DataProcessingUnit \<Rightarrow> string \<Rightarrow> int \<Rightarrow> Owned" where
  "buildFlavorObject s dpu identifier vfCount =
     (namedUnstructured dpuFlavorGVK (TargetNamespace s) (flavorName dpu identifier vfCount))
       \<lparr>u_Spec := [(''ewNicConfigurations'',
          JArray [JObject [(''numVfs'', JNumber vfCount), (''linkType'', JString ''Ethernet'')]])],
        u_Labels := ownedLabels dpu identifier\<rparr>"

definition buildDPUSetObject :: "'w NvidiaVspServer \<Rightarrow> DataProcessingUnit \<Rightarrow> string \<Rightarrow> string \<Rightarrow> Owned" where
  "buildDPUSetObject s dpu identifier flavor =
     (namedUnstructured dpuSetGVK (TargetNamespace s) (dpusetName dpu identifier))
       \<lparr>u_Spec :=
          [(''strategy'', JObject [(''type'', JString ''RollingUpdate'')]),
           (''dpuDeviceSelector'', JObject [(''matchLabels'',
              JObject [(''opi.dpu/identifier'', JString (sanitizeLabelValue identifier))])]),
           (''dpuTemplate'', JObject [(''spec'', JObject
              [(''blueFieldSoftware'', JObject [(''name'', JString defaultBlueFieldSW)]),
               (''dpuFlavor'', JString flavor),
               (''nodeEffect'', JObject [(''noEffect'', JBool True)])])])],
        u_Labels := ownedLabels dpu identifier\<rparr>"

definition buildServiceNadObject :: "'w NvidiaVspServer \<Rightarrow> DataProcessingUnit \<Rightarrow> Owned" where
  "buildServiceNadObject s dpu =
     (namedUnstructured dpuServiceNadGVK (TargetNamespace s) (serviceNadName dpu))
       \<lparr>u_Spec := [(''resourceType'', JString ''vf''), (''bridge'', JString (BridgeName s))],
        u_Labels := ownedLabels dpu (Name dpu)\<rparr>"

definition buildServiceInterfaceObject ::
    "'w NvidiaVspServer \<Rightarrow> DataProcessingUnit \<Rightarrow> string \<Rightarrow> string \<Rightarrow> string \<Rightarrow> Owned" where
  "buildServiceInterfaceObject s dpu direction endpoint nadName =
     (namedUnstructured serviceInterfaceGVK (TargetNamespace s) (serviceInterfaceName dpu direction))
       \<lparr>u_Spec :=
          [(''node'', JString (NodeName (Spec dpu))),
           (''interfaceType'', JString ''service''),
           (''service'', JObject
              [(''serviceID'', JString endpoint),
               (''network'', JString (TargetNamespace s @ ''/'' @ nadName)),
               (''interfaceName'', JString (interfaceName direction))])],
        u_Labels := ownedLabels dpu (Name dpu)\<rparr>"

section \<open>The vendor calls\<close>

definition loadDPU :: "'w NvidiaVspServer \<Rightarrow> 'w \<Rightarrow> (go_error + DataProcessingUnit) \<times> 'w" where
  "loadDPU s w = get_DPU (srv_Client s) ('''', DPUName s) w"

definition applyOwnedObject ::
    "'w NvidiaVspServer \<Rightarrow> DataProcessingUnit \<Rightarrow> Owned \<Rightarrow> 'w \<Rightarrow> go_error option \<times> 'w" where
  "applyOwnedObject s owner obj w =
     (case SetControllerReference (srv_Client s) owner obj of
        Inl err \<Rightarrow> (Some err, w)
      | Inr obj1 \<Rightarrow> apply_object (srv_Client s) obj1 w)"

definition deleteOwnedObject :: "'w NvidiaVspServer \<Rightarrow> Owned \<Rightarrow> 'w \<Rightarrow> go_error option \<times> 'w" where
  "deleteOwnedObject s obj w =
     (case delete_object (srv_Client s) obj w of
        (None, w1) \<Rightarrow> (None, w1)
      | (Some err, w1) \<Rightarrow> (if IsNotFound (srv_lib s) err then None else Some err, w1))"

definition Init :: "'w NvidiaVspServer \<Rightarrow> InitRequest \<Rightarrow> 'w \<Rightarrow> (go_error + IpPort) \<times> 'w" where
  "Init s req w =
     (case loadDPU s w of
        (Inl err, w1) \<Rightarrow> (Inl err, w1)
      | (Inr dpu, w1) \<Rightarrow>
          if DPUIdentifier req = '''' then (Inl (Errorf ''missing DPU identifier'' []), w1)
          else let identifier = canonicalDPUIdentifierForObject dpu in
          if normalizeDPUIdentifier (DPUIdentifier req) \<noteq> identifier
          then (Inl (Errorf ''requested DPU identifier %q does not match DataProcessingUnit %q''
                  [AStr (DPUIdentifier req), AStr (Name dpu)]), w1)
          else let flavor = buildFlavorObject s dpu identifier 1;
                   dpuset = buildDPUSetObject s dpu identifier (u_Name flavor) in
          case applyOwnedObject s dpu flavor w1 of
            (Some err, w2) \<Rightarrow> (Inl err, w2)
          | (None, w2) \<Rightarrow>
              (case applyOwnedObject s dpu dpuset w2 of
                 (Some err, w3) \<Rightarrow> (Inl err, w3)
               | (None, w3) \<Rightarrow> (Inr \<lparr>IP = ''127.0.0.1'', Port = 50051\<rparr>, w3)))"

definition SetNumVfs :: "'w NvidiaVspServer \<Rightarrow> VfCount \<Rightarrow> 'w \<Rightarrow> (go_error + VfCount) \<times> 'w" where
  "SetNumVfs s req w =
     (case loadDPU s w of
        (Inl err, w1) \<Rightarrow> (Inl err, w1)
      | (Inr dpu, w1) \<Rightarrow>
          if sint (VfCnt req) < 1
          then (Inl (Errorf ''vf count must be positive, got %d'' [AInt (sint (VfCnt req))]), w1)
          else let identifier = canonicalDPUIdentifierForObject dpu;
                   flavor = buildFlavorObject s dpu identifier (sint (VfCnt req)) in
          case applyOwnedObject s dpu flavor w1 of
            (Some err, w2) \<Rightarrow> (Inl err, w2)
          | (None, w2) \<Rightarrow>
              (case applyOwnedObject s dpu (buildDPUSetObject s dpu identifier (u_Name flavor)) w2 of
                 (Some err, w3) \<Rightarrow> (Inl err, w3)
               | (None, w3) \<Rightarrow> (Inr req, w3)))"

text \<open>The list of objects the loop of \<open>CreateNetworkFunction\<close> applies.\<close>

definition function_objects :: "'w NvidiaVspServer \<Rightarrow> DataProcessingUnit \<Rightarrow> NFRequest \<Rightarrow> Owned list" where
  "function_objects s dpu req =
     (let nad = buildServiceNadObject s dpu;
          inIf = buildServiceInterfaceObject s dpu ''ingress'' (Input req) (u_Name nad);
          outIf = buildServiceInterfaceObject s dpu ''egress'' (Output req) (u_Name nad)
      in [nad, inIf, outIf])"

definition CreateNetworkFunction :: "'w NvidiaVspServer \<Rightarrow> NFRequest \<Rightarrow> 'w \<Rightarrow> (go_error + unit) \<times> 'w" where
  "CreateNetworkFunction s req w =
     (case loadDPU s w of
        (Inl err, w1) \<Rightarrow> (Inl err, w1)
      | (Inr dpu, w1) \<Rightarrow>
          if Input req = '''' \<or> Output req = ''''
          then (Inl (Errorf ''input and output endpoints are required'' []), w1)
          else case each_until_err (applyOwnedObject s dpu) (function_objects s dpu req) w1 of
            (Some (_, err), w2) \<Rightarrow> (Inl err, w2)
          | (None, w2) \<Rightarrow> (Inr (), w2))"

definition DeleteNetworkFunction :: "'w NvidiaVspServer \<Rightarrow> NFRequest \<Rightarrow> 'w \<Rightarrow> (go_error + unit) \<times> 'w" where
  "DeleteNetworkFunction s req w =
     (case loadDPU s w of
        (Inl err, w1) \<Rightarrow> (Inl err, w1)
      | (Inr dpu, w1) \<Rightarrow>
          (case each_until_err (deleteOwnedObject s)
                  [buildServiceInterfaceObject s dpu ''ingress'' ''placeholder'' (serviceNadName dpu),
                   buildServiceInterfaceObject s dpu ''egress'' ''placeholder'' (serviceNadName dpu),
                   buildServiceNadObject s dpu] w1 of
             (Some (_, err), w2) \<Rightarrow> (Inl err, w2)
           | (None, w2) \<Rightarrow> (Inr (), w2)))"

definition GetDevices :: "'w NvidiaVspServer \<Rightarrow> 'w \<Rightarrow> (go_error + (string \<times> Device) list) \<times> 'w" where
  "GetDevices s w =
     (case loadDPU s w of
        (Inl err, w1) \<Rightarrow> (Inl err, w1)
      | (Inr dpu, w1) \<Rightarrow>
          let identifier = canonicalDPUIdentifierForObject dpu
          in (Inr [(identifier, \<lparr>ID = identifier, Health = ''Healthy'', Node = NodeName (Spec dpu)\<rparr>)], w1))"

definition Ping :: "'w NvidiaVspServer \<Rightarrow> PingRequest \<Rightarrow> PingResponse" where
  "Ping s req = \<lparr>pong_Timestamp = ping_Timestamp req, ResponderID = DPUName s, Healthy = True\<rparr>"

section \<open>Reading the status back\<close>

record 'w DPUStatusReconciler =
  rec_Client :: "'w Client"
  rec_lib :: machinery
  rec_TargetNamespace :: string

record statusEvaluation =
  conditions :: "Condition list"
  requeueAfter :: duration

definition newCondition :: "time \<Rightarrow> string \<Rightarrow> string \<Rightarrow> string \<Rightarrow> message \<Rightarrow> 64 word \<Rightarrow> Condition" where
  "newCondition now conditionType status reason message observedGeneration =
     \<lparr>Type = conditionType, Status = status, ObservedGeneration = observedGeneration,
      LastTransitionTime = now, Reason = reason, Message = message\<rparr>"

definition nonEmpty :: "string \<Rightarrow> string \<Rightarrow> string" where
  "nonEmpty value fallback = (if TrimSpace value \<noteq> '''' then value else fallback)"

text \<open>\<open>cond[key].(string)\<close>, the empty string when the assertion fails.\<close>

definition string_field :: "(string \<times> json) list \<Rightarrow> string \<Rightarrow> string" where
  "string_field m k = (case map_of m k of Some (JString s) \<Rightarrow> s | _ \<Rightarrow> '''')"

fun ready_item :: "json \<Rightarrow> bool" where
  "ready_item (JObject m) =
     (map_of m ''type'' = Some (JString readyConditionType) \<and> map_of m ''status'' = Some (JString ''True''))"
| "ready_item _ = False"

definition readyConditionTrue :: "machinery \<Rightarrow> Owned \<Rightarrow> bool" where
  "readyConditionTrue k obj =
     (case NestedSlice k obj [''status'', ''conditions''] of
        (conds, found, err) \<Rightarrow> if err \<noteq> None \<or> \<not> found then False else list_ex ready_item conds)"

text \<open>One turn of the loop of \<open>objectFailure\<close>; \<open>strings.EqualFold\<close> with an ASCII word without k and s.\<close>

fun item_failure :: "json \<Rightarrow> (string \<times> string) option" where
  "item_failure (JObject m) =
     (let condType = string_field m ''type'';
          condStatus = string_field m ''status'';
          reason = string_field m ''reason'';
          message = string_field m ''message'';
          typeLower = to_lower condType;
          reasonLower = to_lower reason
      in if condStatus = ''True'' \<and>
            (contains typeLower ''degrad'' \<or> contains typeLower ''fail'' \<or> contains typeLower ''error'')
         then Some (nonEmpty reason condType, nonEmpty message ''Vendor object reported a degraded condition'')
         else if to_lower condType = to_lower readyConditionType \<and> condStatus = ''False'' \<and>
            (contains reasonLower ''fail'' \<or> contains reasonLower ''error'')
         then Some (nonEmpty reason ''VendorReadyFalse'',
                nonEmpty message ''Vendor object reported a blocking readiness failure'')
         else None)"
| "item_failure _ = None"

fun first_failure :: "json list \<Rightarrow> (string \<times> string) option" where
  "first_failure [] = None"
| "first_failure (x # xs) = (case item_failure x of Some f \<Rightarrow> Some f | None \<Rightarrow> first_failure xs)"

definition objectFailure :: "machinery \<Rightarrow> Owned \<Rightarrow> (string \<times> string) option" where
  "objectFailure k obj =
     (case NestedSlice k obj [''status'', ''conditions''] of
        (conds, found, err) \<Rightarrow> if err \<noteq> None \<or> \<not> found then None else first_failure conds)"

fun firstVendorFailure :: "machinery \<Rightarrow> Owned list \<Rightarrow> (string \<times> string) option" where
  "firstVendorFailure k [] = None"
| "firstVendorFailure k (obj # objects) =
     (case objectFailure k obj of Some f \<Rightarrow> Some f | None \<Rightarrow> firstVendorFailure k objects)"

definition currentDPUFlavorName :: "machinery \<Rightarrow> Owned \<Rightarrow> DataProcessingUnit \<Rightarrow> string \<Rightarrow> string" where
  "currentDPUFlavorName k dpuset dpu identifier =
     (case NestedString k dpuset [''spec'', ''dpuTemplate'', ''spec'', ''dpuFlavor''] of
        (flavor, found, err) \<Rightarrow>
          if err = None \<and> found \<and> TrimSpace flavor \<noteq> '''' then flavor else flavorName dpu identifier 1)"

definition identity_resolved :: "time \<Rightarrow> 64 word \<Rightarrow> Condition" where
  "identity_resolved now gen = newCondition now translationValidConditionType ''True'' ''IdentityResolved''
     (Text ''Adapter can translate this DataProcessingUnit into owned DPF objects'') gen"

definition missingObjectEvaluation :: "time \<Rightarrow> 64 word \<Rightarrow> string \<Rightarrow> statusEvaluation" where
  "missingObjectEvaluation now gen kind =
     \<lparr>conditions =
        [identity_resolved now gen,
         newCondition now progressingConditionType ''True'' ''OwnedObjectsMissing''
           (Sprintf ''Waiting for generated %s object'' [AStr kind]) gen,
         newCondition now degradedConditionType ''False'' ''NoVendorFailure''
           (Text ''No vendor-reported failure is present yet'') gen,
         newCondition now readyConditionType ''False'' ''ProvisioningPending''
           (Sprintf ''%s object is not ready yet'' [AStr kind]) gen],
      requeueAfter = 2 * minute\<rparr>"

text \<open>The two evaluations that block the translation differ in their texts only.\<close>

definition blocked_evaluation :: "time \<Rightarrow> 64 word \<Rightarrow> string \<Rightarrow> string \<Rightarrow> string \<Rightarrow> string \<Rightarrow> statusEvaluation" where
  "blocked_evaluation now gen reason msg progress ready =
     \<lparr>conditions =
        [newCondition now translationValidConditionType ''False'' reason (Text msg) gen,
         newCondition now progressingConditionType ''False'' ''Blocked'' (Text progress) gen,
         newCondition now degradedConditionType ''False'' ''NoVendorFailure''
           (Text ''No vendor-reported failure is present yet'') gen,
         newCondition now readyConditionType ''False'' ''TranslationBlocked'' (Text ready) gen],
      requeueAfter = 0\<rparr>"

text \<open>What is reported once all three objects have been read.\<close>

definition readiness_evaluation :: "machinery \<Rightarrow> time \<Rightarrow> 64 word \<Rightarrow> Owned \<Rightarrow> Owned \<Rightarrow> Owned \<Rightarrow> statusEvaluation" where
  "readiness_evaluation k now gen dpuset flavor nad =
     (let translation = identity_resolved now gen;
          degraded = (case firstVendorFailure k [dpuset, flavor, nad] of
              Some (reason, message) \<Rightarrow> newCondition now degradedConditionType ''True'' reason (Text message) gen
            | None \<Rightarrow> newCondition now degradedConditionType ''False'' ''NoVendorFailure''
                (Text ''No vendor-reported failure is present'') gen)
      in if readyConditionTrue k dpuset \<and> readyConditionTrue k nad
         then \<lparr>conditions =
             [translation,
              newCondition now progressingConditionType ''False'' ''SteadyState''
                (Text ''Required DPF objects are no longer progressing'') gen,
              degraded,
              newCondition now readyConditionType ''True'' ''DPFObjectsReady''
                (Text ''Provisioning and service-plane objects are ready'') gen],
           requeueAfter = 0\<rparr>
         else \<lparr>conditions =
             [translation,
              newCondition now progressingConditionType ''True'' ''DPFReconcileInProgress''
                (Text ''Owned DPF objects exist but one or more are still reconciling'') gen,
              degraded,
              newCondition now readyConditionType ''False'' ''DPFReconcileInProgress''
                (Text ''Owned DPF objects are present but not ready yet'') gen],
           requeueAfter = 2 * minute\<rparr>)"

definition evaluateStatus ::
    "'w DPUStatusReconciler \<Rightarrow> time \<Rightarrow> DataProcessingUnit \<Rightarrow> 'w \<Rightarrow> (go_error + statusEvaluation) \<times> 'w" where
  "evaluateStatus r now dpu w =
     (let gen = Generation dpu; k = rec_lib r; ns = rec_TargetNamespace r;
          identifier = TrimSpace (canonicalDPUIdentifierForObject dpu) in
      if TrimSpace (NodeName (Spec dpu)) = ''''
      then (Inr (blocked_evaluation now gen ''MissingNodeName''
             ''DataProcessingUnit.spec.nodeName is required for DPF translation''
             ''Translation is blocked until required identity fields are present''
             ''Cannot reconcile DPF objects until node identity is available''), w)
      else if identifier = '''' \<or> identifier = ''unknown-dpu''
      then (Inr (blocked_evaluation now gen ''MissingIdentifier''
             ''DataProcessingUnit does not yet expose a usable DPU identifier''
             ''Translation is blocked until a stable DPU identifier is present''
             ''Cannot reconcile DPF objects until DPU identity is available''), w)
      else case get_object (rec_Client r) dpuSetGVK (ns, dpusetName dpu identifier) w of
        (Inl err, w1) \<Rightarrow>
          (if IsNotFound k err then Inr (missingObjectEvaluation now gen ''DPUSet'') else Inl err, w1)
      | (Inr dpuset, w1) \<Rightarrow>
          (case get_object (rec_Client r) dpuFlavorGVK (ns, currentDPUFlavorName k dpuset dpu identifier) w1 of
             (Inl err, w2) \<Rightarrow>
               (if IsNotFound k err then Inr (missingObjectEvaluation now gen ''DPUFlavor'') else Inl err, w2)
           | (Inr flavor, w2) \<Rightarrow>
               (case get_object (rec_Client r) dpuServiceNadGVK (ns, serviceNadName dpu) w2 of
                  (Inl err, w3) \<Rightarrow>
                    (if IsNotFound k err then Inr (missingObjectEvaluation now gen ''DPUServiceNAD'') else Inl err, w3)
                | (Inr nad, w3) \<Rightarrow> (Inr (readiness_evaluation k now gen dpuset flavor nad), w3))))"

definition nvidia_product :: "string \<Rightarrow> bool" where
  "nvidia_product p = (contains (to_lower p) ''nvidia'' \<or> contains (to_lower p) ''bluefield'')"

text \<open>The requeue delay and the error of one pass.\<close>

definition Reconcile ::
    "'w DPUStatusReconciler \<Rightarrow> time \<Rightarrow> string \<times> string \<Rightarrow> 'w \<Rightarrow> (duration \<times> go_error option) \<times> 'w" where
  "Reconcile r now req w =
     (case get_DPU (rec_Client r) req w of
        (Inl err, w1) \<Rightarrow> ((0, if IsNotFound (rec_lib r) err then None else Some err), w1)
      | (Inr dpu, w1) \<Rightarrow>
          if \<not> nvidia_product (DpuProductName (Spec dpu)) then ((0, None), w1)
          else case evaluateStatus r now dpu w1 of
            (Inl err, w2) \<Rightarrow> ((0, Some err), w2)
          | (Inr evaluation, w2) \<Rightarrow>
              let dpu1 = dpu\<lparr>Conditions := fold (\<lambda>c cs. SetStatusCondition (rec_lib r) cs c)
                                (conditions evaluation) (Conditions dpu)\<rparr> in
              (case status_patch (rec_Client r) dpu dpu1 w2 of
                 (Some err, w3) \<Rightarrow> ((0, Some err), w3)
               | (None, w3) \<Rightarrow> ((requeueAfter evaluation, None), w3)))"

definition watchedDPFObjectKinds :: "GroupVersionKind list" where
  "watchedDPFObjectKinds = [dpuFlavorGVK, dpuSetGVK, dpuServiceNadGVK, serviceInterfaceGVK]"

definition mapOwnedDPFObjectToDPU :: "Owned \<Rightarrow> (string \<times> string) list" where
  "mapOwnedDPFObjectToDPU obj =
     (let name = TrimSpace (str_at (u_Labels obj) ''opi.dpu/name'') in if name = '''' then [] else [('''', name)])"

section \<open>An API server\<close>

text \<open>
  \<open>doomed\<close> holds the objects whose deletion has been requested.  The laws are the documented behaviour
  of the client: a read gives what is stored, a failed write stores nothing, an applied object is stored
  with its specification (no other field manager writes it), a deleted object is gone at once or kept until
  its finalizers are off, and an owner reference changes nothing else.
\<close>

record api =
  units :: "string \<times> string \<Rightarrow> DataProcessingUnit option"
  objs :: "object_key \<Rightarrow> Owned option"
  doomed :: "object_key set"

definition kind_key :: "GroupVersionKind \<Rightarrow> string \<times> string \<Rightarrow> object_key" where
  "kind_key g q = (Group g @ ''/'' @ Version g, Kind g, fst q, snd q)"

definition owned_key :: "Owned \<Rightarrow> object_key" where
  "owned_key u = (u_APIVersion u, u_Kind u, u_Namespace u, u_Name u)"

definition reads :: "machinery \<Rightarrow> (api \<times> 'v) Client \<Rightarrow> bool" where
  "reads k C =
     ((\<forall>q m v a m' v'. get_DPU C q (m, v) = (a, (m', v')) \<longrightarrow>
         m' = m \<and> (case a of Inr d \<Rightarrow> units m q = Some d | Inl e \<Rightarrow> IsNotFound k e \<longrightarrow> units m q = None)) \<and>
      (\<forall>g q m v a m' v'. get_object C g q (m, v) = (a, (m', v')) \<longrightarrow>
         m' = m \<and> (case a of Inr u \<Rightarrow> objs m (kind_key g q) = Some u
           | Inl e \<Rightarrow> IsNotFound k e \<longrightarrow> objs m (kind_key g q) = None)))"

definition writes :: "machinery \<Rightarrow> (api \<times> 'v) Client \<Rightarrow> bool" where
  "writes k C =
     ((\<forall>d u u'. SetControllerReference C d u = Inr u' \<longrightarrow> owned_key u' = owned_key u \<and> u_Spec u' = u_Spec u) \<and>
      (\<forall>u m v e m' v'. apply_object C u (m, v) = (e, (m', v')) \<longrightarrow>
         (if e = None
          then \<exists>x. m' = m\<lparr>objs := (objs m)(owned_key u \<mapsto> x)\<rparr> \<and> owned_key x = owned_key u \<and> u_Spec x = u_Spec u
          else m' = m)) \<and>
      (\<forall>u m v e m' v'. delete_object C u (m, v) = (e, (m', v')) \<longrightarrow>
         (case e of
            None \<Rightarrow> m' = m\<lparr>doomed := insert (owned_key u) (doomed m)\<rparr> \<or> m' = m\<lparr>objs := (objs m)(owned_key u := None)\<rparr>
          | Some err \<Rightarrow> m' = m \<and> (IsNotFound k err \<longrightarrow> objs m (owned_key u) = None))) \<and>
      (\<forall>b d m v e m' v'. status_patch C b d (m, v) = (e, (m', v')) \<longrightarrow>
         (if e = None
          then m' = m\<lparr>units := (units m)((Namespace d, Name d) :=
                        map_option (\<lambda>x. x\<lparr>Conditions := Conditions d\<rparr>) (units m (Namespace d, Name d)))\<rparr>
          else m' = m)))"

text \<open>The condition of a type is the first of that type, as the library has it.\<close>

definition reported :: "string \<Rightarrow> Condition list \<Rightarrow> Condition option" where
  "reported t cs = find (\<lambda>x. Type x = t) cs"

definition documented :: "machinery \<Rightarrow> bool" where
  "documented k =
     ((\<forall>cs c. filter (\<lambda>x. Type x \<noteq> Type c) (SetStatusCondition k cs c) = filter (\<lambda>x. Type x \<noteq> Type c) cs) \<and>
      (\<forall>cs c. map_option Status (reported (Type c) (SetStatusCondition k cs c)) = Some (Status c)))"

definition indexed :: "api \<Rightarrow> bool" where
  "indexed m = (\<forall>q d. units m q = Some d \<longrightarrow> (Namespace d, Name d) = q)"

lemmas vsp_readsD =
  reads_def [THEN iffD1, THEN conjunct1, rule_format]
  reads_def [THEN iffD1, THEN conjunct2, rule_format]

lemmas vsp_writesD =
  writes_def [THEN iffD1, THEN conjunct1, rule_format]
  writes_def [THEN iffD1, THEN conjunct2, THEN conjunct1, rule_format]
  writes_def [THEN iffD1, THEN conjunct2, THEN conjunct2, THEN conjunct1, rule_format]
  writes_def [THEN iffD1, THEN conjunct2, THEN conjunct2, THEN conjunct2, rule_format]

lemma applyOwned_effect:
  assumes "writes k (srv_Client s)" and "applyOwnedObject s d u (m, v) = (e, (m', v'))"
  shows "if e = None
    then \<exists>x. m' = m\<lparr>objs := (objs m)(owned_key u \<mapsto> x)\<rparr> \<and> owned_key x = owned_key u \<and> u_Spec x = u_Spec u
    else m' = m"
proof (cases "SetControllerReference (srv_Client s) d u")
  case (Inl err)
  then show ?thesis using assms(2) by (auto simp: applyOwnedObject_def)
next
  case (Inr u1)
  note ref = vsp_writesD(1) [OF assms(1) Inr]
  have "apply_object (srv_Client s) u1 (m, v) = (e, (m', v'))"
    using assms(2) by (simp add: applyOwnedObject_def Inr)
  from vsp_writesD(2) [OF assms(1) this] show ?thesis
    using ref by auto
qed

lemma apply_list_effect:
  assumes "writes k (srv_Client s)" and "each_until_err (applyOwnedObject s d) us (m, v) = (None, (m', v'))"
  shows "m' = m\<lparr>objs := objs m'\<rparr> \<and> (\<forall>q. q \<notin> owned_key ` set us \<longrightarrow> objs m' q = objs m q) \<and>
    (\<forall>pre u post. us = pre @ u # post \<longrightarrow> owned_key u \<notin> owned_key ` set post \<longrightarrow>
       (\<exists>x. objs m' (owned_key u) = Some x \<and> u_Spec x = u_Spec u))"
  using assms(2)
proof (induction us arbitrary: m v)
  case (Cons u us)
  obtain e m1 v1 where 1: "applyOwnedObject s d u (m, v) = (e, (m1, v1))"
    by (metis prod.collapse)
  with Cons.prems have e: "e = None" and rest: "each_until_err (applyOwnedObject s d) us (m1, v1) = (None, (m', v'))"
    by (auto split: option.splits)
  obtain x where x: "m1 = m\<lparr>objs := (objs m)(owned_key u \<mapsto> x)\<rparr>" "u_Spec x = u_Spec u"
    using applyOwned_effect [OF assms(1) 1] e by auto
  note IH = Cons.IH [OF rest]
  show ?case
  proof (intro conjI allI impI)
    show "m' = m\<lparr>objs := objs m'\<rparr>"
      using IH x by (cases m; cases m') auto
    show "objs m' q = objs m q" if "q \<notin> owned_key ` set (u # us)" for q
      using that conjunct1 [OF conjunct2 [OF IH], rule_format, of q] x by simp
    fix pre w post assume eq: "u # us = pre @ w # post" and last: "owned_key w \<notin> owned_key ` set post"
    show "\<exists>x. objs m' (owned_key w) = Some x \<and> u_Spec x = u_Spec w"
    proof (cases pre)
      case Nil
      then show ?thesis
        using eq last conjunct1 [OF conjunct2 [OF IH], rule_format, of "owned_key w"] x by simp
    next
      case (Cons y ys)
      then show ?thesis using eq last IH by auto
    qed
  qed
qed simp

lemma delete_list_effect:
  assumes "writes k (srv_Client s)" "srv_lib s = k"
    and "each_until_err (deleteOwnedObject s) us (m, v) = (None, (m', v'))"
  shows "units m' = units m \<and> doomed m \<subseteq> doomed m' \<and> doomed m' \<subseteq> doomed m \<union> owned_key ` set us \<and>
    (\<forall>q. objs m' q = objs m q \<or> q \<in> owned_key ` set us \<and> objs m' q = None) \<and>
    (\<forall>u \<in> set us. owned_key u \<in> doomed m' \<or> objs m' (owned_key u) = None)"
  using assms(3)
proof (induction us arbitrary: m v)
  case (Cons u us)
  obtain e m1 v1 where 1: "delete_object (srv_Client s) u (m, v) = (e, (m1, v1))"
    by (metis prod.collapse)
  then have "deleteOwnedObject s u (m, v) =
      (case e of None \<Rightarrow> None | Some err \<Rightarrow> if IsNotFound k err then None else Some err, (m1, v1))"
    by (simp add: deleteOwnedObject_def assms(2) split: option.split)
  then have rest: "each_until_err (deleteOwnedObject s) us (m1, v1) = (None, (m', v'))"
    and nf: "\<forall>err. e = Some err \<longrightarrow> IsNotFound k err"
    using Cons.prems by (auto split: option.splits if_splits)
  have m1: "units m1 = units m \<and> doomed m \<subseteq> doomed m1 \<and> doomed m1 \<subseteq> insert (owned_key u) (doomed m) \<and>
      (\<forall>q. objs m1 q = objs m q \<or> q = owned_key u \<and> objs m1 q = None) \<and>
      (owned_key u \<in> doomed m1 \<or> objs m1 (owned_key u) = None)"
    using vsp_writesD(3) [OF assms(1) 1] nf by (auto simp del: split_paired_All split: option.splits if_splits)
  note IH = Cons.IH [OF rest]
  have "units m' = units m" "doomed m \<subseteq> doomed m'" "doomed m' \<subseteq> doomed m \<union> owned_key ` set (u # us)"
    using IH m1 by auto
  moreover have "\<forall>q. objs m' q = objs m q \<or> q \<in> owned_key ` set (u # us) \<and> objs m' q = None"
    using IH m1 by (metis image_insert insertCI insert_iff list.simps(15))
  moreover have "\<forall>w \<in> set (u # us). owned_key w \<in> doomed m' \<or> objs m' (owned_key w) = None"
    using IH m1 by (metis set_ConsD subsetD)
  ultimately show ?case
    by blast
qed simp

section \<open>Network functions\<close>

definition nad_key :: "'w NvidiaVspServer \<Rightarrow> DataProcessingUnit \<Rightarrow> object_key" where
  "nad_key s d = kind_key dpuServiceNadGVK (TargetNamespace s, serviceNadName d)"

definition if_key :: "'w NvidiaVspServer \<Rightarrow> DataProcessingUnit \<Rightarrow> string \<Rightarrow> object_key" where
  "if_key s d direction = kind_key serviceInterfaceGVK (TargetNamespace s, serviceInterfaceName d direction)"

definition function_keys :: "'w NvidiaVspServer \<Rightarrow> DataProcessingUnit \<Rightarrow> object_key set" where
  "function_keys s d = {nad_key s d, if_key s d ''ingress'', if_key s d ''egress''}"

definition endpoint :: "api \<Rightarrow> object_key \<Rightarrow> string option" where
  "endpoint m q = (case objs m q of None \<Rightarrow> None
     | Some x \<Rightarrow> (case map_of (u_Spec x) ''service'' of
         Some (JObject f) \<Rightarrow> (case map_of f ''serviceID'' of Some (JString i) \<Rightarrow> Some i | _ \<Rightarrow> None)
       | _ \<Rightarrow> None))"

lemma object_keys [simp]:
  "owned_key (buildServiceNadObject s d) = nad_key s d"
  "owned_key (buildServiceInterfaceObject s d dir e n) = if_key s d dir"
  "owned_key (buildFlavorObject s d i c) = kind_key dpuFlavorGVK (TargetNamespace s, flavorName d i c)"
  "owned_key (buildDPUSetObject s d i f) = kind_key dpuSetGVK (TargetNamespace s, dpusetName d i)"
  by (simp_all add: owned_key_def nad_key_def if_key_def kind_key_def namedUnstructured_def
      buildServiceNadObject_def buildServiceInterfaceObject_def buildFlavorObject_def buildDPUSetObject_def)

lemma key_kinds [simp]: "nad_key s d \<noteq> if_key s d dir" "if_key s d dir \<noteq> nad_key s d"
  by (simp_all add: nad_key_def if_key_def kind_key_def vsp_gvk_defs)

lemma loadDPU_effect:
  assumes "reads k (srv_Client s)" and "units m ('''', DPUName s) = Some d" and "loadDPU s (m, v) = (Inr d', (m', v'))"
  shows "d' = d" "m' = m"
  using vsp_readsD(1) [OF assms(1) assms(3) [unfolded loadDPU_def]] assms(2) by auto

lemma create_effect:
  assumes "reads k (srv_Client s)" and "writes k (srv_Client s)" and "units m ('''', DPUName s) = Some d"
    and "serviceInterfaceName d ''ingress'' \<noteq> serviceInterfaceName d ''egress''"
    and c: "CreateNetworkFunction s req (m, v) = (Inr (), (m', v'))"
  shows "endpoint m' (if_key s d ''ingress'') = Some (Input req) \<and> endpoint m' (if_key s d ''egress'') = Some (Output req) \<and>
    (\<forall>q. q \<notin> function_keys s d \<longrightarrow> objs m' q = objs m q) \<and> doomed m' = doomed m \<and> units m' = units m"
proof -
  have ifs: "if_key s d ''ingress'' \<noteq> if_key s d ''egress''"
    using assms(4) by (simp add: if_key_def kind_key_def)
  obtain d1 m1 v1 where l: "loadDPU s (m, v) = (Inr d1, (m1, v1))"
    using c by (auto simp: CreateNetworkFunction_def split: prod.splits sum.splits)
  with loadDPU_effect [OF assms(1,3) l] have l: "loadDPU s (m, v) = (Inr d, (m, v1))" by simp
  let ?nad = "buildServiceNadObject s d"
  let ?in = "buildServiceInterfaceObject s d ''ingress'' (Input req) (u_Name ?nad)"
  let ?out = "buildServiceInterfaceObject s d ''egress'' (Output req) (u_Name ?nad)"
  have us: "function_objects s d req = [?nad, ?in, ?out]"
    by (simp add: function_objects_def Let_def)
  have "each_until_err (applyOwnedObject s d) (function_objects s d req) (m, v1) = (None, (m', v'))"
    using c unfolding CreateNetworkFunction_def l by (auto split: prod.splits option.splits if_splits)
  note loop = this [unfolded us]
  note eff = apply_list_effect [OF assms(2) loop]
  have ep: "endpoint m' (if_key s d dir) = Some e"
    if "objs m' (if_key s d dir) = Some x" "u_Spec x = u_Spec (buildServiceInterfaceObject s d dir e n)" for dir e n x
    using that by (simp add: endpoint_def buildServiceInterfaceObject_def)
  have "\<exists>x. objs m' (if_key s d ''ingress'') = Some x \<and> u_Spec x = u_Spec ?in"
    using eff [THEN conjunct2, THEN conjunct2, rule_format, of "[?nad]" ?in "[?out]"] ifs by simp
  moreover have "\<exists>x. objs m' (if_key s d ''egress'') = Some x \<and> u_Spec x = u_Spec ?out"
    using eff [THEN conjunct2, THEN conjunct2, rule_format, of "[?nad, ?in]" ?out "[]"] by simp
  moreover have "\<forall>q. q \<notin> function_keys s d \<longrightarrow> objs m' q = objs m q"
    using eff by (simp add: function_keys_def)
  moreover have "doomed m' = doomed m \<and> units m' = units m"
    using eff [THEN conjunct1] by (cases m; cases m') simp
  ultimately show ?thesis
    using ep by blast
qed

lemma delete_effect:
  assumes "reads k (srv_Client s)" and "writes k (srv_Client s)" and "srv_lib s = k"
    and "units m ('''', DPUName s) = Some d"
    and c: "DeleteNetworkFunction s req (m, v) = (Inr (), (m', v'))"
  shows "(\<forall>q. q \<notin> function_keys s d \<longrightarrow> objs m' q = objs m q) \<and> doomed m' \<subseteq> doomed m \<union> function_keys s d \<and>
    (\<forall>q \<in> function_keys s d. q \<in> doomed m' \<or> objs m' q = None)"
proof -
  obtain d1 m1 v1 where l: "loadDPU s (m, v) = (Inr d1, (m1, v1))"
    using c by (auto simp: DeleteNetworkFunction_def split: prod.splits sum.splits)
  with loadDPU_effect [OF assms(1,4) l] have l: "loadDPU s (m, v) = (Inr d, (m, v1))" by simp
  have loop: "each_until_err (deleteOwnedObject s)
      [buildServiceInterfaceObject s d ''ingress'' ''placeholder'' (serviceNadName d),
       buildServiceInterfaceObject s d ''egress'' ''placeholder'' (serviceNadName d), buildServiceNadObject s d]
      (m, v1) = (None, (m', v'))"
    using c unfolding DeleteNetworkFunction_def l by (auto split: prod.splits option.splits)
  from delete_list_effect [OF assms(2,3) loop] show ?thesis
    unfolding function_keys_def by simp blast
qed

text \<open>
  A unit carries one network function at a time.  A successful create writes only the three objects of
  its unit, whatever the request, so the endpoints of an earlier function are overwritten; a successful
  delete takes down the three objects of the unit, whatever function its request names.\<close>

theorem last_function_wins:
  assumes "reads k (srv_Client s)" and "writes k (srv_Client s)" and "srv_lib s = k"
    and "units m ('''', DPUName s) = Some d"
    and "serviceInterfaceName d ''ingress'' \<noteq> serviceInterfaceName d ''egress''"
    and "CreateNetworkFunction s req (m, v) = (Inr (), (m1, v1))"
    and "DeleteNetworkFunction s req' (m1, v1) = (Inr (), (m2, v2))"
  shows "endpoint m1 (if_key s d ''ingress'') = Some (Input req) \<and> endpoint m1 (if_key s d ''egress'') = Some (Output req) \<and>
    (\<forall>q. q \<notin> function_keys s d \<longrightarrow> objs m1 q = objs m q \<and> objs m2 q = objs m q) \<and>
    (\<forall>q \<in> function_keys s d. q \<in> doomed m2 \<or> objs m2 q = None) \<and> doomed m2 \<subseteq> doomed m \<union> function_keys s d"
proof -
  note c = create_effect [OF assms(1,2,4,5,6)]
  then have u: "units m1 ('''', DPUName s) = Some d" using assms(4) by simp
  show ?thesis
    using c delete_effect [OF assms(1-3) u assms(7)] by auto
qed

section \<open>The identifier of a unit\<close>

lemma TrimSuffix_id: "\<not> suffix suf s \<Longrightarrow> TrimSuffix s suf = s"
  by (auto simp: TrimSuffix_def suffix_def) (metis append_take_drop_id)

lemma length_TrimSuffix: "length (TrimSuffix s suf) \<le> length s"
  by (simp add: TrimSuffix_def)

lemma TrimSuffix_shorter: "suffix suf s \<Longrightarrow> suf \<noteq> '''' \<Longrightarrow> length (TrimSuffix s suf) < length s"
  by (auto simp: TrimSuffix_def suffix_def)

definition side_suffix :: "string \<Rightarrow> bool" where
  "side_suffix i = (suffix hostSideSuffix i \<or> suffix dpuSideSuffix i)"

lemma normalize_fixed:
  assumes "list_all visible i"
  shows "(normalizeDPUIdentifier i = i) = (\<not> side_suffix i)"
proof
  assume eq: "normalizeDPUIdentifier i = i"
  have "length i \<le> length (TrimSuffix i hostSideSuffix)"
    using eq length_TrimSuffix [of "TrimSuffix i hostSideSuffix" dpuSideSuffix]
    by (simp add: normalizeDPUIdentifier_def TrimSpace_visible [OF assms])
  then have "\<not> suffix hostSideSuffix i"
    using TrimSuffix_shorter [of hostSideSuffix i] by (auto simp: hostSideSuffix_def)
  moreover from this have "\<not> suffix dpuSideSuffix i"
    using eq TrimSuffix_shorter [of dpuSideSuffix i]
    by (auto simp: normalizeDPUIdentifier_def TrimSpace_visible [OF assms] TrimSuffix_id dpuSideSuffix_def)
  ultimately show "\<not> side_suffix i" by (simp add: side_suffix_def)
next
  assume "\<not> side_suffix i"
  then show "normalizeDPUIdentifier i = i"
    by (simp add: side_suffix_def normalizeDPUIdentifier_def TrimSpace_visible [OF assms] TrimSuffix_id)
qed

text \<open>The two applies that provisioning consists of, with \<open>n\<close> virtual functions.\<close>

definition provision ::
    "'w NvidiaVspServer \<Rightarrow> DataProcessingUnit \<Rightarrow> string \<Rightarrow> int \<Rightarrow> 'w \<Rightarrow> go_error option \<times> 'w" where
  "provision s d i n w =
     (case each_until_err (applyOwnedObject s d)
             [buildFlavorObject s d i n, buildDPUSetObject s d i (flavorName d i n)] w of
        (r, w') \<Rightarrow> (map_option snd r, w'))"

lemma flavor_name [simp]: "u_Name (buildFlavorObject s d i n) = flavorName d i n"
  by (simp add: buildFlavorObject_def namedUnstructured_def)

text \<open>
  The identifier \<open>GetDevices\<close> reports for a unit is the one \<open>Init\<close> expects, unless it ends in a side
  suffix: \<open>Init\<close> strips the suffix from its request but not from the identifier of the unit, so it then
  refuses the very identifier that was reported.\<close>

theorem reported_identifier_accepted:
  assumes "GetDevices s w = (Inr devices, w1)" and "(i, dev) \<in> set devices" and "list_all visible i" and "i \<noteq> ''''"
  shows "\<exists>d. loadDPU s w = (Inr d, w1) \<and> i = canonicalDPUIdentifierForObject d \<and>
    Init s \<lparr>DPUMode = b, DPUIdentifier = i\<rparr> w =
      (if side_suffix i
       then (Inl (Errorf ''requested DPU identifier %q does not match DataProcessingUnit %q'' [AStr i, AStr (Name d)]), w1)
       else case provision s d i 1 w1 of
         (Some err, w2) \<Rightarrow> (Inl err, w2)
       | (None, w2) \<Rightarrow> (Inr \<lparr>IP = ''127.0.0.1'', Port = 50051\<rparr>, w2))"
proof -
  obtain d where l: "loadDPU s w = (Inr d, w1)" and i: "i = canonicalDPUIdentifierForObject d"
    using assms(1,2) by (auto simp: GetDevices_def Let_def split: prod.splits sum.splits)
  show ?thesis
    using assms(4) normalize_fixed [OF assms(3)]
    by (intro exI [of _ d])
      (auto simp: l i [symmetric] Init_def provision_def Let_def split: prod.splits option.splits)
qed

section \<open>The conditions of a unit\<close>

text \<open>What the Ready condition of a unit stands for.\<close>

definition unit_blocked :: "DataProcessingUnit \<Rightarrow> bool" where
  "unit_blocked d =
     (TrimSpace (NodeName (Spec d)) = '''' \<or> TrimSpace (canonicalDPUIdentifierForObject d) \<in> {'''', ''unknown-dpu''})"

definition stored_objects :: "machinery \<Rightarrow> string \<Rightarrow> api \<Rightarrow> DataProcessingUnit \<Rightarrow> (Owned \<times> Owned \<times> Owned) option" where
  "stored_objects k ns m d =
     (let i = TrimSpace (canonicalDPUIdentifierForObject d) in
      case (objs m (kind_key dpuSetGVK (ns, dpusetName d i)), objs m (kind_key dpuServiceNadGVK (ns, serviceNadName d))) of
        (Some dpuset, Some nad) \<Rightarrow>
          map_option (\<lambda>flavor. (dpuset, flavor, nad))
            (objs m (kind_key dpuFlavorGVK (ns, currentDPUFlavorName k dpuset d i)))
      | _ \<Rightarrow> None)"

definition unit_ready :: "machinery \<Rightarrow> string \<Rightarrow> api \<Rightarrow> DataProcessingUnit \<Rightarrow> bool" where
  "unit_ready k ns m d =
     (\<not> unit_blocked d \<and>
      (case stored_objects k ns m d of
         None \<Rightarrow> False
       | Some (dpuset, flavor, nad) \<Rightarrow> readyConditionTrue k dpuset \<and> readyConditionTrue k nad))"

definition unit_failed :: "machinery \<Rightarrow> string \<Rightarrow> api \<Rightarrow> DataProcessingUnit \<Rightarrow> bool" where
  "unit_failed k ns m d =
     (\<not> unit_blocked d \<and>
      (case stored_objects k ns m d of
         None \<Rightarrow> False
       | Some (dpuset, flavor, nad) \<Rightarrow> firstVendorFailure k [dpuset, flavor, nad] \<noteq> None))"

definition truth :: "bool \<Rightarrow> string" where
  "truth b = (if b then ''True'' else ''False'')"

text \<open>The four conditions of an evaluation, for a unit that is blocked, failed or ready.\<close>

definition verdict :: "bool \<Rightarrow> bool \<Rightarrow> bool \<Rightarrow> (string \<times> string) list" where
  "verdict blocked failed ready =
     [(translationValidConditionType, truth (\<not> blocked)), (progressingConditionType, truth (\<not> blocked \<and> \<not> ready)),
      (degradedConditionType, truth failed), (readyConditionType, truth ready)]"

definition judged :: "statusEvaluation \<Rightarrow> (string \<times> string) list" where
  "judged ev = map (\<lambda>c. (Type c, Status c)) (conditions ev)"

lemma evaluations_judged [simp]:
  "judged (missingObjectEvaluation now gen kind) = verdict False False False"
  "judged (blocked_evaluation now gen a b c e) = verdict True False False"
  "judged (readiness_evaluation k now gen dpuset flavor nad) =
     verdict False (firstVendorFailure k [dpuset, flavor, nad] \<noteq> None)
       (readyConditionTrue k dpuset \<and> readyConditionTrue k nad)"
  by (simp_all add: judged_def verdict_def truth_def missingObjectEvaluation_def blocked_evaluation_def
      readiness_evaluation_def newCondition_def identity_resolved_def Let_def split: option.splits)

lemma evaluations_requeue [simp]:
  "requeueAfter (missingObjectEvaluation now gen kind) = 2 * minute"
  "requeueAfter (blocked_evaluation now gen a b c e) = 0"
  "requeueAfter (readiness_evaluation k now gen dpuset flavor nad) =
     (if readyConditionTrue k dpuset \<and> readyConditionTrue k nad then 0 else 2 * minute)"
  by (simp_all add: missingObjectEvaluation_def blocked_evaluation_def readiness_evaluation_def Let_def)

lemmas unit_defs = unit_ready_def unit_failed_def stored_objects_def

lemma evaluate_effect:
  assumes "reads (rec_lib r) (rec_Client r)" and "evaluateStatus r now d (m, v) = (Inr ev, (m', v'))"
  shows "m' = m \<and>
    judged ev = verdict (unit_blocked d) (unit_failed (rec_lib r) (rec_TargetNamespace r) m d)
      (unit_ready (rec_lib r) (rec_TargetNamespace r) m d) \<and>
    requeueAfter ev = (if unit_ready (rec_lib r) (rec_TargetNamespace r) m d \<or> unit_blocked d then 0 else 2 * minute)"
proof (cases "unit_blocked d")
  case True
  then show ?thesis
    using assms(2) by (auto simp: evaluateStatus_def Let_def unit_blocked_def unit_defs split: if_splits)
next
  case False
  let ?k = "rec_lib r" and ?ns = "rec_TargetNamespace r" and ?i = "TrimSpace (canonicalDPUIdentifierForObject d)"
  have named: "TrimSpace (NodeName (Spec d)) \<noteq> ''''" "?i \<noteq> ''''" "?i \<noteq> ''unknown-dpu''"
    using False by (simp_all add: unit_blocked_def)
  note rd = vsp_readsD(2) [OF assms(1)]
  obtain a m1 v1 where 1: "get_object (rec_Client r) dpuSetGVK (?ns, dpusetName d ?i) (m, v) = (a, (m1, v1))"
    by (metis prod.collapse)
  then have 1: "get_object (rec_Client r) dpuSetGVK (?ns, dpusetName d ?i) (m, v) = (a, (m, v1))"
    using rd [OF 1] by simp
  show ?thesis
  proof (cases a)
    case (Inl e)
    then show ?thesis
      using assms(2) False named rd [OF 1]
      by (auto simp: evaluateStatus_def Let_def unit_defs 1 split: if_splits)
  next
    case (Inr dpuset)
    have set: "objs m (kind_key dpuSetGVK (?ns, dpusetName d ?i)) = Some dpuset"
      using rd [OF 1] Inr by simp
    obtain b m2 v2 where 2: "get_object (rec_Client r) dpuFlavorGVK
        (?ns, currentDPUFlavorName ?k dpuset d ?i) (m, v1) = (b, (m2, v2))"
      by (metis prod.collapse)
    then have 2: "get_object (rec_Client r) dpuFlavorGVK
        (?ns, currentDPUFlavorName ?k dpuset d ?i) (m, v1) = (b, (m, v2))"
      using rd [OF 2] by simp
    show ?thesis
    proof (cases b)
      case (Inl e)
      then show ?thesis
        using assms(2) False named rd [OF 2] Inr set
        by (auto simp: evaluateStatus_def Let_def unit_defs 1 2 split: if_splits option.splits)
    next
      case flavor: (Inr flavor)
      obtain c m3 v3 where 3: "get_object (rec_Client r) dpuServiceNadGVK (?ns, serviceNadName d) (m, v2) = (c, (m3, v3))"
        by (metis prod.collapse)
      have fl: "objs m (kind_key dpuFlavorGVK (?ns, currentDPUFlavorName ?k dpuset d ?i)) = Some flavor"
        using rd [OF 2] flavor by simp
      show ?thesis
        using assms(2) False named rd [OF 3] Inr flavor set fl
        by (cases c) (auto simp: evaluateStatus_def Let_def unit_defs 1 2 3 split: if_splits)
    qed
  qed
qed

lemma reported_filter: "P t \<Longrightarrow> reported t (filter (\<lambda>x. P (Type x)) cs) = reported t cs"
  by (induction cs) (auto simp: reported_def)

lemma reported_other:
  assumes "documented k" and "t \<noteq> Type c"
  shows "reported t (SetStatusCondition k cs c) = reported t cs"
  using assms reported_filter [of "\<lambda>x. x \<noteq> Type c" t] unfolding documented_def by metis

abbreviation set_all :: "machinery \<Rightarrow> Condition list \<Rightarrow> Condition list \<Rightarrow> Condition list" where
  "set_all k cs xs \<equiv> fold (\<lambda>c xs. SetStatusCondition k xs c) cs xs"

text \<open>Setting conditions of distinct types one by one gives each its status and leaves the other types alone.\<close>

lemma set_all_reports:
  assumes "documented k" and "distinct (map Type cs)"
  shows "(\<forall>c \<in> set cs. map_option Status (reported (Type c) (set_all k cs xs)) = Some (Status c)) \<and>
    filter (\<lambda>x. Type x \<notin> Type ` set cs) (set_all k cs xs) = filter (\<lambda>x. Type x \<notin> Type ` set cs) xs"
  using assms(2)
proof (induction cs rule: rev_induct)
  case (snoc c cs)
  let ?ys = "set_all k cs xs"
  have step: "set_all k (cs @ [c]) xs = SetStatusCondition k ?ys c"
    by simp
  have new: "Type c \<notin> Type ` set cs"
    using snoc.prems by simp
  then have "\<forall>d \<in> set cs. Type d \<noteq> Type c"
    by (metis imageI)
  then have "\<forall>d \<in> set (cs @ [c]). map_option Status (reported (Type d) (SetStatusCondition k ?ys c)) = Some (Status d)"
    using snoc assms(1) reported_other [OF assms(1), of _ c ?ys] unfolding documented_def by simp
  moreover have "filter (\<lambda>x. Type x \<notin> Type ` set (cs @ [c])) (SetStatusCondition k ?ys c) =
      filter (\<lambda>x. Type x \<notin> Type ` set (cs @ [c])) xs"
  proof -
    have split: "filter (\<lambda>x. Type x \<notin> Type ` set (cs @ [c])) zs =
        filter (\<lambda>x. Type x \<noteq> Type c) (filter (\<lambda>x. Type x \<notin> Type ` set cs) zs)" for zs
      by (induction zs) auto
    have swap: "filter (\<lambda>x. Type x \<noteq> Type c) (filter (\<lambda>x. Type x \<notin> Type ` set cs) zs) =
        filter (\<lambda>x. Type x \<notin> Type ` set cs) (filter (\<lambda>x. Type x \<noteq> Type c) zs)" for zs
      by (induction zs) auto
    have "filter (\<lambda>x. Type x \<noteq> Type c) (SetStatusCondition k ?ys c) = filter (\<lambda>x. Type x \<noteq> Type c) ?ys"
      using assms(1) unfolding documented_def by blast
    moreover have "filter (\<lambda>x. Type x \<notin> Type ` set cs) ?ys = filter (\<lambda>x. Type x \<notin> Type ` set cs) xs"
      using snoc by simp
    ultimately show ?thesis
      unfolding split by (metis swap)
  qed
  ultimately show ?case
    unfolding step by simp
qed simp

text \<open>What \<open>d\<close> says of the four condition types of the adapter.\<close>

definition owned_types :: "string set" where
  "owned_types = {translationValidConditionType, progressingConditionType, degradedConditionType, readyConditionType}"

definition says :: "DataProcessingUnit \<Rightarrow> string \<Rightarrow> bool \<Rightarrow> bool" where
  "says d t b = (map_option Status (reported t (Conditions d)) = Some (truth b))"

lemma pass_reports:
  assumes "documented (rec_lib r)" and "reads (rec_lib r) (rec_Client r)" and "writes (rec_lib r) (rec_Client r)"
    and "indexed m" and "units m q = Some d" and "nvidia_product (DpuProductName (Spec d))"
    and pass: "Reconcile r now q (m, v) = ((t, None), (m', v'))"
  shows "\<exists>ev. m' = m\<lparr>units := (units m)(q \<mapsto> d\<lparr>Conditions := set_all (rec_lib r) (conditions ev) (Conditions d)\<rparr>)\<rparr> \<and>
    judged ev = verdict (unit_blocked d) (unit_failed (rec_lib r) (rec_TargetNamespace r) m d)
      (unit_ready (rec_lib r) (rec_TargetNamespace r) m d) \<and>
    t = (if unit_ready (rec_lib r) (rec_TargetNamespace r) m d \<or> unit_blocked d then 0 else 2 * minute)"
proof -
  obtain a m1 v1 where 1: "get_DPU (rec_Client r) q (m, v) = (a, (m1, v1))" by (metis prod.collapse)
  have "m1 = m" and a: "a = Inr d"
    using vsp_readsD(1) [OF assms(2) 1] assms(5) pass by (auto simp: Reconcile_def 1 split: sum.splits)
  note 1 = 1 [unfolded this]
  obtain b m2 v2 where 2: "evaluateStatus r now d (m, v1) = (b, (m2, v2))" by (metis prod.collapse)
  obtain ev where b: "b = Inr ev"
    using pass assms(6) by (auto simp: Reconcile_def 1 2 split: sum.splits)
  note eff = evaluate_effect [OF assms(2) 2 [unfolded b]]
  let ?cs = "set_all (rec_lib r) (conditions ev) (Conditions d)"
  obtain e m3 v3 where 3: "status_patch (rec_Client r) d (d\<lparr>Conditions := ?cs\<rparr>) (m, v2) = (e, (m3, v3))"
    by (metis prod.collapse)
  have e: "e = None" "t = requeueAfter ev" "m3 = m'"
    using pass assms(6) eff by (auto simp: Reconcile_def 1 2 3 b Let_def split: option.splits)
  have "(Namespace d, Name d) = q"
    using assms(4,5) unfolding indexed_def by blast
  then have "m' = m\<lparr>units := (units m)(q \<mapsto> d\<lparr>Conditions := ?cs\<rparr>)\<rparr>"
    using vsp_writesD(4) [OF assms(3) 3] e assms(5) by simp
  with eff e show ?thesis by auto
qed

lemma judged_says:
  fixes d :: DataProcessingUnit
  assumes "documented k" and "judged ev = verdict blocked failed ready"
    and d': "d' = d\<lparr>Conditions := set_all k (conditions ev) (Conditions d)\<rparr>"
  shows "says d' translationValidConditionType (\<not> blocked)" "says d' progressingConditionType (\<not> blocked \<and> \<not> ready)"
    "says d' degradedConditionType failed" "says d' readyConditionType ready"
    "filter (\<lambda>c. Type c \<notin> owned_types) (Conditions d') = filter (\<lambda>c. Type c \<notin> owned_types) (Conditions d)"
proof -
  let ?cs = "conditions ev"
  have types: "map Type ?cs = map fst (verdict blocked failed ready)"
    by (simp add: assms(2) [symmetric] judged_def)
  then have dist: "distinct (map Type ?cs)"
    by (simp add: verdict_def condition_types)
  have own: "Type ` set ?cs = owned_types"
    using arg_cong [OF types, of set] by (simp add: verdict_def owned_types_def)
  note all = set_all_reports [OF assms(1) dist, of "Conditions d"]
  have "says d' t b" if "(t, truth b) \<in> set (verdict blocked failed ready)" for t b
  proof -
    have "(t, truth b) \<in> (\<lambda>c. (Type c, Status c)) ` set ?cs"
      using that by (simp add: assms(2) [symmetric] judged_def)
    then obtain c where c: "c \<in> set ?cs" "Type c = t" "Status c = truth b"
      by (metis (no_types, lifting) Pair_inject imageE)
    then have "map_option Status (reported (Type c) (set_all k ?cs (Conditions d))) = Some (Status c)"
      using all by blast
    then show ?thesis
      by (simp add: says_def d' c)
  qed
  then show "says d' translationValidConditionType (\<not> blocked)" "says d' progressingConditionType (\<not> blocked \<and> \<not> ready)"
    "says d' degradedConditionType failed" "says d' readyConditionType ready"
    by (simp_all add: verdict_def)
  show "filter (\<lambda>c. Type c \<notin> owned_types) (Conditions d') = filter (\<lambda>c. Type c \<notin> owned_types) (Conditions d)"
    using all by (simp add: own d')
qed

text \<open>
  C23.  A pass without an error over a unit of this vendor writes the four conditions of that unit and
  nothing else: the objects, the other units and the conditions of other types stay.
  \<open>TranslationValid\<close> is true exactly when the unit names a node and a usable identifier; \<open>Ready\<close> when moreover its device
  set, flavor and network attachment are stored and set and attachment report Ready; \<open>Progressing\<close> when
  it is neither blocked nor ready; \<open>Degraded\<close> when the three objects are stored and one of them reports a
  failure.  The pass comes back after two minutes unless the unit is ready or blocked.  The status of the
  flavor and the service interfaces do not enter \<open>Ready\<close>.
\<close>

theorem reported_conditions:
  assumes "documented (rec_lib r)" and "reads (rec_lib r) (rec_Client r)" and "writes (rec_lib r) (rec_Client r)"
    and "indexed m" and "units m q = Some d" and "nvidia_product (DpuProductName (Spec d))"
    and "Reconcile r now q (m, v) = ((t, None), (m', v'))"
  shows "let ready = unit_ready (rec_lib r) (rec_TargetNamespace r) m d in
    objs m' = objs m \<and> doomed m' = doomed m \<and> (\<forall>p. p \<noteq> q \<longrightarrow> units m' p = units m p) \<and>
    t = (if ready \<or> unit_blocked d then 0 else 2 * minute) \<and>
    (\<exists>d'. units m' q = Some d' \<and> d' = d\<lparr>Conditions := Conditions d'\<rparr> \<and>
      filter (\<lambda>c. Type c \<notin> owned_types) (Conditions d') = filter (\<lambda>c. Type c \<notin> owned_types) (Conditions d) \<and>
      says d' translationValidConditionType (\<not> unit_blocked d) \<and> says d' readyConditionType ready \<and>
      says d' progressingConditionType (\<not> unit_blocked d \<and> \<not> ready) \<and>
      says d' degradedConditionType (unit_failed (rec_lib r) (rec_TargetNamespace r) m d))"
proof -
  obtain ev where "m' = m\<lparr>units := (units m)(q \<mapsto> d\<lparr>Conditions := set_all (rec_lib r) (conditions ev) (Conditions d)\<rparr>)\<rparr>"
    and j: "judged ev = verdict (unit_blocked d) (unit_failed (rec_lib r) (rec_TargetNamespace r) m d)
      (unit_ready (rec_lib r) (rec_TargetNamespace r) m d)"
    and "t = (if unit_ready (rec_lib r) (rec_TargetNamespace r) m d \<or> unit_blocked d then 0 else 2 * minute)"
    using pass_reports [OF assms] by blast
  with judged_says [OF assms(1) j refl, of d] show ?thesis
    by (simp add: Let_def)
qed

text \<open>
  The design document asks for more: Ready when all required objects report healthy readiness, and not Ready after
  a terminal failure.  A unit whose flavor reports a failure is shown as Ready and Degraded at once.
\<close>

theorem ready_despite_failure:
  assumes "documented (rec_lib r)" and "reads (rec_lib r) (rec_Client r)" and "writes (rec_lib r) (rec_Client r)"
    and "indexed m" and "units m q = Some d" and "nvidia_product (DpuProductName (Spec d))"
    and "Reconcile r now q (m, v) = ((t, None), (m', v'))"
    and "\<not> unit_blocked d" and "stored_objects (rec_lib r) (rec_TargetNamespace r) m d = Some (dpuset, flavor, nad)"
    and "readyConditionTrue (rec_lib r) dpuset" and "readyConditionTrue (rec_lib r) nad"
    and "objectFailure (rec_lib r) flavor \<noteq> None"
  shows "\<exists>d'. units m' q = Some d' \<and> says d' readyConditionType True \<and> says d' degradedConditionType True"
proof -
  have "unit_ready (rec_lib r) (rec_TargetNamespace r) m d" "unit_failed (rec_lib r) (rec_TargetNamespace r) m d"
    using assms(8-12) by (auto simp: unit_ready_def unit_failed_def split: option.split)
  with pass_reports [OF assms(1-7)] obtain ev where
    m': "m' = m\<lparr>units := (units m)(q \<mapsto> d\<lparr>Conditions := set_all (rec_lib r) (conditions ev) (Conditions d)\<rparr>)\<rparr>"
    and j: "judged ev = verdict False True True"
    using assms(8) by auto
  show ?thesis
    using judged_says(3,4) [OF assms(1) j refl, of d] by (simp add: m')
qed

section \<open>Watches\<close>

lemma TrimSpace_label: "subdomain n \<Longrightarrow> TrimSpace (sanitizeLabelValue n) = sanitizeLabelValue n"
proof -
  assume "subdomain n"
  then have "list_all cleanable n"
    by (auto simp: subdomain_def list_all_iff cleanable_def name_char_def separators_def)
  then have "rfc1123_label (sanitizeLabelValue n)" by (rule sanitizeLabelValue_label)
  then show ?thesis
    using lower_visible by (intro TrimSpace_visible) (auto simp: rfc1123_label_def list_all_iff)
qed

text \<open>
  An event on an object of a unit leads back to that unit exactly when the name of the unit survives the
  cleaning of label values: it has no dot and no double dash and at most 63 bytes.  For any other unit
  the pass that follows is for a unit of another name.\<close>

theorem watch_leads_back:
  assumes "subdomain (Name d)" and "u_Labels x = ownedLabels d i"
  shows "mapOwnedDPFObjectToDPU x = [('''', Name d)] \<longleftrightarrow>
    CHR ''.'' \<notin> set (Name d) \<and> \<not> contains (Name d) ''--'' \<and> length (Name d) \<le> 63"
proof -
  have "str_at (u_Labels x) ''opi.dpu/name'' = sanitizeLabelValue (Name d)"
    by (simp add: assms(2) ownedLabels_def str_at_def)
  moreover have "sanitizeLabelValue (Name d) \<noteq> ''''"
    using trimName_bounds [of "sanitizeName (Name d)"] by (auto simp: sanitizeLabelValue_eq)
  ultimately have "mapOwnedDPFObjectToDPU x = [('''', sanitizeLabelValue (Name d))]"
    by (simp add: mapOwnedDPFObjectToDPU_def TrimSpace_label [OF assms(1)] Let_def)
  then show ?thesis
    using sanitizeLabelValue_fixed [OF assms(1)] by simp
qed

section \<open>A concrete server\<close>

fun json_at :: "string list \<Rightarrow> json \<Rightarrow> json option" where
  "json_at [] j = Some j"
| "json_at (k # ks) (JObject m) = (case map_of m k of None \<Rightarrow> None | Some j \<Rightarrow> json_at ks j)"
| "json_at (k # ks) _ = None"

definition NotFound :: go_error where "NotFound = External ''not found''"

definition demo_lib :: machinery where
  "demo_lib =
     \<lparr>IsNotFound = (\<lambda>e. e = NotFound),
      SetStatusCondition = (\<lambda>cs c. filter (\<lambda>x. Type x \<noteq> Type c) cs @ [c]),
      NestedString = (\<lambda>u ks. case json_at ks (JObject [(''spec'', JObject (u_Spec u))]) of
         None \<Rightarrow> ('''', False, None) | Some (JString x) \<Rightarrow> (x, True, None) | Some _ \<Rightarrow> ('''', False, Some (External ''type''))),
      NestedSlice = (\<lambda>u ks. case json_at ks (JObject [(''status'', case u_Status u of None \<Rightarrow> JNull | Some j \<Rightarrow> j)]) of
         None \<Rightarrow> ([], False, None) | Some (JArray x) \<Rightarrow> (x, True, None) | Some _ \<Rightarrow> ([], False, Some (External ''type'')))\<rparr>"

definition demo_client :: "(api \<times> unit) Client" where
  "demo_client =
     \<lparr>get_DPU = (\<lambda>q (m, v). (case units m q of None \<Rightarrow> Inl NotFound | Some d \<Rightarrow> Inr d, (m, v))),
      get_object = (\<lambda>g q (m, v). (case objs m (kind_key g q) of None \<Rightarrow> Inl NotFound | Some u \<Rightarrow> Inr u, (m, v))),
      apply_object = (\<lambda>u (m, v). (None, (m\<lparr>objs := (objs m)(owned_key u \<mapsto>
         u\<lparr>u_Status := (case objs m (owned_key u) of None \<Rightarrow> None | Some x \<Rightarrow> u_Status x)\<rparr>)\<rparr>, v))),
      delete_object = (\<lambda>u (m, v). if objs m (owned_key u) = None then (Some NotFound, (m, v))
         else (None, (m\<lparr>doomed := insert (owned_key u) (doomed m)\<rparr>, v))),
      status_patch = (\<lambda>b d (m, v). (None, (m\<lparr>units := (units m)((Namespace d, Name d) :=
         map_option (\<lambda>x. x\<lparr>Conditions := Conditions d\<rparr>) (units m (Namespace d, Name d)))\<rparr>, v))),
      SetControllerReference = (\<lambda>d u. Inr (u\<lparr>u_Owners := [UID d]\<rparr>))\<rparr>"

lemma reported_added [simp]: "reported (Type c) (filter (\<lambda>x. Type x \<noteq> Type c) cs @ [c]) = Some c"
  by (induction cs) (auto simp: reported_def)

lemma vsp_demo_laws: "documented demo_lib" "reads demo_lib demo_client" "writes demo_lib demo_client"
  by (auto simp: documented_def reads_def writes_def demo_lib_def demo_client_def owned_key_def
      split: if_splits option.splits)

definition demo_unit :: "string \<Rightarrow> DataProcessingUnit" where
  "demo_unit i = \<lparr>Name = ''bf3'', Namespace = '''', UID = ''u1'', Annotations = [], Generation = 2,
     Spec = \<lparr>DpuProductName = ''NVIDIA BlueField-3'', DpuIdentifier = i, IsDpuSide = False, NodeName = ''node1''\<rparr>,
     Conditions = []\<rparr>"

definition demo_server :: "(api \<times> unit) NvidiaVspServer" where
  "demo_server = \<lparr>srv_Client = demo_client, srv_lib = demo_lib, DPUName = ''bf3'', TargetNamespace = ''dpf'', BridgeName = ''br-hbn''\<rparr>"

definition demo_world :: "string \<Rightarrow> api" where
  "demo_world i = \<lparr>units = [('''', ''bf3'') \<mapsto> demo_unit i], objs = Map.empty, doomed = {}\<rparr>"

lemmas vsp_demo_defs = demo_client_def demo_lib_def demo_unit_def demo_server_def demo_world_def

lemma demo_names: "serviceInterfaceName (demo_unit i) ''ingress'' = ''bf3-ingress-if''"
  "serviceInterfaceName (demo_unit i) ''egress'' = ''bf3-egress-if''"
  "serviceNadName (demo_unit i) = ''bf3-nad''"
proof -
  have "trimName (sanitizeName ''bf3-ingress-if'') = ''bf3-ingress-if''"
    "trimName (sanitizeName ''bf3-egress-if'') = ''bf3-egress-if''"
    "trimName (sanitizeName ''bf3-nad'') = ''bf3-nad''"
    by code_simp+
  then show "serviceInterfaceName (demo_unit i) ''ingress'' = ''bf3-ingress-if''"
    "serviceInterfaceName (demo_unit i) ''egress'' = ''bf3-egress-if''"
    "serviceNadName (demo_unit i) = ''bf3-nad''"
    by (simp_all add: serviceInterfaceName_def serviceNadName_def demo_unit_def)
qed

lemma demo_apply: "\<exists>m'. applyOwnedObject demo_server d u (m, v) = (None, (m', ())) \<and> units m' = units m"
  by (simp add: applyOwnedObject_def demo_server_def demo_client_def)

lemma demo_create:
  assumes "Input r \<noteq> ''''" and "Output r \<noteq> ''''"
  shows "\<exists>m1. CreateNetworkFunction demo_server r (demo_world i, ()) = (Inr (), (m1, ()))"
proof -
  have "\<exists>m1. each_until_err (applyOwnedObject demo_server d) us (m, ()) = (None, (m1, ()))" for d us m
  proof (induction us arbitrary: m)
    case (Cons u us)
    obtain m' where "applyOwnedObject demo_server d u (m, ()) = (None, (m', ()))"
      using demo_apply by blast
    then show ?case using Cons by simp
  qed simp
  then obtain m1 where "each_until_err (applyOwnedObject demo_server (demo_unit i))
      (function_objects demo_server (demo_unit i) r) (demo_world i, ()) = (None, (m1, ()))"
    by blast
  moreover have "loadDPU demo_server (demo_world i, ()) = (Inr (demo_unit i), (demo_world i, ()))"
    by (simp add: loadDPU_def vsp_demo_defs)
  ultimately show ?thesis
    using assms by (simp add: CreateNetworkFunction_def)
qed

lemma demo_delete:
  assumes "units m ('''', ''bf3'') = Some d"
  shows "\<exists>m2. DeleteNetworkFunction demo_server r (m, ()) = (Inr (), (m2, ()))"
proof -
  have "\<exists>m2. each_until_err (deleteOwnedObject demo_server) us (m, ()) = (None, (m2, ()))" for us m
  proof (induction us arbitrary: m)
    case (Cons u us)
    have "\<exists>m'. deleteOwnedObject demo_server u (m, ()) = (None, (m', ()))"
      by (simp add: deleteOwnedObject_def demo_server_def demo_client_def demo_lib_def)
    then obtain m' where "deleteOwnedObject demo_server u (m, ()) = (None, (m', ()))" ..
    then show ?case using Cons by simp
  qed simp
  then obtain m2 where "each_until_err (deleteOwnedObject demo_server)
      [buildServiceInterfaceObject demo_server d ''ingress'' ''placeholder'' (serviceNadName d),
       buildServiceInterfaceObject demo_server d ''egress'' ''placeholder'' (serviceNadName d),
       buildServiceNadObject demo_server d] (m, ()) = (None, (m2, ()))"
    by blast
  moreover have "loadDPU demo_server (m, ()) = (Inr d, (m, ()))"
    using assms by (simp add: loadDPU_def demo_server_def demo_client_def)
  ultimately show ?thesis
    by (simp add: DeleteNetworkFunction_def del: each_until_err.simps)
qed

theorem last_function_wins_witness:
  "\<exists>m1 m2. CreateNetworkFunction demo_server \<lparr>Input = ''pf0'', Output = ''pf1''\<rparr> (demo_world ''bf3-0'', ()) = (Inr (), (m1, ())) \<and>
     DeleteNetworkFunction demo_server \<lparr>Input = ''x'', Output = ''y''\<rparr> (m1, ()) = (Inr (), (m2, ())) \<and>
     endpoint m1 (if_key demo_server (demo_unit ''bf3-0'') ''ingress'') = Some ''pf0'' \<and>
     (if_key demo_server (demo_unit ''bf3-0'') ''ingress'' \<in> doomed m2 \<or>
      objs m2 (if_key demo_server (demo_unit ''bf3-0'') ''ingress'') = None)"
proof -
  let ?r = "\<lparr>Input = ''pf0'', Output = ''pf1''\<rparr>" and ?r' = "\<lparr>Input = ''x'', Output = ''y''\<rparr>"
  have laws: "reads demo_lib (srv_Client demo_server)" "writes demo_lib (srv_Client demo_server)"
    "srv_lib demo_server = demo_lib"
    using vsp_demo_laws by (simp_all add: demo_server_def)
  have u: "units (demo_world ''bf3-0'') ('''', DPUName demo_server) = Some (demo_unit ''bf3-0'')"
    by (simp add: demo_world_def demo_server_def)
  have n: "serviceInterfaceName (demo_unit ''bf3-0'') ''ingress'' \<noteq> serviceInterfaceName (demo_unit ''bf3-0'') ''egress''"
    by (simp add: demo_names)
  obtain m1 where c: "CreateNetworkFunction demo_server ?r (demo_world ''bf3-0'', ()) = (Inr (), (m1, ()))"
    using demo_create [of ?r] by auto
  have "units m1 ('''', ''bf3'') = Some (demo_unit ''bf3-0'')"
    using create_effect [OF laws(1,2) u n c] u by (simp add: demo_server_def)
  from demo_delete [OF this]
  obtain m2 where d: "DeleteNetworkFunction demo_server ?r' (m1, ()) = (Inr (), (m2, ()))" by blast
  show ?thesis
    using last_function_wins [OF laws u n c d] c d by (auto simp: function_keys_def)
qed

theorem reported_identifier_accepted_witness:
  "fst (Init demo_server \<lparr>DPUMode = False, DPUIdentifier = ''bf3-host''\<rparr> (demo_world ''bf3-host'', ())) =
     Inl (Errorf ''requested DPU identifier %q does not match DataProcessingUnit %q'' [AStr ''bf3-host'', AStr ''bf3''])"
proof -
  have t: "TrimSpace ''bf3-host'' = ''bf3-host''" by code_simp
  have l: "loadDPU demo_server (demo_world ''bf3-host'', ()) = (Inr (demo_unit ''bf3-host''), (demo_world ''bf3-host'', ()))"
    by (simp add: loadDPU_def vsp_demo_defs)
  have c: "canonicalDPUIdentifierForObject (demo_unit ''bf3-host'') = ''bf3-host''"
    by (simp add: canonicalDPUIdentifierForObject_def demo_unit_def t)
  have "GetDevices demo_server (demo_world ''bf3-host'', ()) =
      (Inr [(''bf3-host'', \<lparr>ID = ''bf3-host'', Health = ''Healthy'', Node = ''node1''\<rparr>)], (demo_world ''bf3-host'', ()))"
    by (simp add: GetDevices_def l c Let_def) (simp add: demo_unit_def)
  moreover have "list_all visible ''bf3-host''" "side_suffix ''bf3-host''"
    by (code_simp, simp add: side_suffix_def hostSideSuffix_def suffix_def)
  ultimately show ?thesis
    using reported_identifier_accepted [of demo_server "(demo_world ''bf3-host'', ())" _ _ "''bf3-host''" _ False] l
    by (force simp: demo_unit_def)
qed

theorem watch_leads_back_witness:
  "mapOwnedDPFObjectToDPU (buildServiceNadObject demo_server (demo_unit ''bf3-0'')) = [('''', ''bf3'')]"
proof -
  have "subdomain (Name (demo_unit ''bf3-0''))"
    by (simp add: demo_unit_def, code_simp)
  moreover have "u_Labels (buildServiceNadObject demo_server (demo_unit ''bf3-0'')) = ownedLabels (demo_unit ''bf3-0'') ''bf3''"
    by (simp add: buildServiceNadObject_def demo_unit_def)
  moreover have "\<not> contains ''bf3'' ''--''" by code_simp
  ultimately show ?thesis
    using watch_leads_back [of "demo_unit ''bf3-0''"] by (simp add: demo_unit_def)
qed

definition ready_status :: "json option" where
  "ready_status = Some (JObject [(''conditions'', JArray [JObject [(''type'', JString ''Ready''), (''status'', JString ''True'')]])])"

definition demo_reconciler :: "(api \<times> unit) DPUStatusReconciler" where
  "demo_reconciler = \<lparr>rec_Client = demo_client, rec_lib = demo_lib, rec_TargetNamespace = ''dpf''\<rparr>"

lemma demo_ready:
  "readyConditionTrue demo_lib ((buildDPUSetObject demo_server (demo_unit i) j f)\<lparr>u_Status := ready_status\<rparr>)"
  "readyConditionTrue demo_lib ((buildServiceNadObject demo_server (demo_unit i))\<lparr>u_Status := ready_status\<rparr>)"
  by (simp_all add: readyConditionTrue_def demo_lib_def ready_status_def readyConditionType_def)

lemma demo_flavor:
  "currentDPUFlavorName demo_lib ((buildDPUSetObject demo_server (demo_unit i) j ''f1'')\<lparr>u_Status := st\<rparr>) d j = ''f1''"
proof -
  have "TrimSpace ''f1'' = ''f1''" by code_simp
  then show ?thesis
    by (simp add: currentDPUFlavorName_def demo_lib_def buildDPUSetObject_def)
qed

lemma demo_identity: "TrimSpace (canonicalDPUIdentifierForObject (demo_unit ''bf3-0'')) = ''bf3-0''"
  "TrimSpace ''node1'' = ''node1''" "nvidia_product ''NVIDIA BlueField-3''"
proof -
  have "TrimSpace ''bf3-0'' = ''bf3-0''" by code_simp
  then show "TrimSpace (canonicalDPUIdentifierForObject (demo_unit ''bf3-0'')) = ''bf3-0''"
    by (simp add: canonicalDPUIdentifierForObject_def demo_unit_def)
  show "TrimSpace ''node1'' = ''node1''" "nvidia_product ''NVIDIA BlueField-3''" by code_simp+
qed

lemma demo_pass:
  assumes "units m ('''', ''bf3'') = Some (demo_unit ''bf3-0'')"
  obtains t m' where "Reconcile demo_reconciler 5 ('''', ''bf3'') (m, ()) = ((t, None), (m', ()))"
proof -
  have "\<exists>ev. evaluateStatus demo_reconciler 5 (demo_unit ''bf3-0'') (m, ()) = (Inr ev, (m, ()))"
    by (auto simp: evaluateStatus_def demo_reconciler_def Let_def demo_client_def demo_lib_def split: option.split)
  then obtain ev where ev: "evaluateStatus demo_reconciler 5 (demo_unit ''bf3-0'') (m, ()) = (Inr ev, (m, ()))"
    by blast
  have rc: "rec_Client demo_reconciler = demo_client"
    by (simp add: demo_reconciler_def)
  have g: "get_DPU demo_client ('''', ''bf3'') (m, ()) = (Inr (demo_unit ''bf3-0''), (m, ()))"
    using assms by (simp add: demo_client_def)
  have sp: "\<exists>m'. status_patch demo_client b d (m, ()) = (None, (m', ()))" for b d m
    by (simp add: demo_client_def)
  let ?d = "(demo_unit ''bf3-0'')\<lparr>Conditions := set_all (rec_lib demo_reconciler) (conditions ev)
      (Conditions (demo_unit ''bf3-0''))\<rparr>"
  obtain m' where "status_patch demo_client (demo_unit ''bf3-0'') ?d (m, ()) = (None, (m', ()))"
    using sp by blast
  moreover have "DpuProductName (Spec (demo_unit ''bf3-0'')) = ''NVIDIA BlueField-3''"
    by (simp add: demo_unit_def)
  ultimately show thesis
    using that by (simp add: Reconcile_def rc g ev demo_identity Let_def)
qed

lemma demo_unit_simps [simp]:
  "NodeName (Spec (demo_unit i)) = ''node1''" "DpuProductName (Spec (demo_unit i)) = ''NVIDIA BlueField-3''"
  by (simp_all add: demo_unit_def)

lemma demo_unblocked: "\<not> unit_blocked (demo_unit ''bf3-0'')"
  by (simp add: unit_blocked_def demo_identity)

text \<open>The world in which set and attachment are ready and the flavor has status \<open>st\<close>.\<close>

definition world_with_flavor :: "json option \<Rightarrow> api" where
  "world_with_flavor st = (demo_world ''bf3-0'')\<lparr>objs :=
     [kind_key dpuSetGVK (''dpf'', dpusetName (demo_unit ''bf3-0'') ''bf3-0'') \<mapsto>
        (buildDPUSetObject demo_server (demo_unit ''bf3-0'') ''bf3-0'' ''f1'')\<lparr>u_Status := ready_status\<rparr>,
      kind_key dpuFlavorGVK (''dpf'', ''f1'') \<mapsto>
        (buildFlavorObject demo_server (demo_unit ''bf3-0'') ''bf3-0'' 1)\<lparr>u_Status := st\<rparr>,
      kind_key dpuServiceNadGVK (''dpf'', serviceNadName (demo_unit ''bf3-0'')) \<mapsto>
        (buildServiceNadObject demo_server (demo_unit ''bf3-0''))\<lparr>u_Status := ready_status\<rparr>]\<rparr>"

lemma world_simps [simp]: "units (world_with_flavor st) ('''', ''bf3'') = Some (demo_unit ''bf3-0'')"
  "indexed (world_with_flavor st)"
  by (simp_all add: indexed_def world_with_flavor_def demo_world_def demo_unit_def)

lemma world_objects: "stored_objects demo_lib ''dpf'' (world_with_flavor st) (demo_unit ''bf3-0'') =
    Some ((buildDPUSetObject demo_server (demo_unit ''bf3-0'') ''bf3-0'' ''f1'')\<lparr>u_Status := ready_status\<rparr>,
      (buildFlavorObject demo_server (demo_unit ''bf3-0'') ''bf3-0'' 1)\<lparr>u_Status := st\<rparr>,
      (buildServiceNadObject demo_server (demo_unit ''bf3-0''))\<lparr>u_Status := ready_status\<rparr>)"
proof -
  have "kind_key dpuSetGVK p \<noteq> kind_key dpuFlavorGVK q" "kind_key dpuSetGVK p \<noteq> kind_key dpuServiceNadGVK q"
    "kind_key dpuFlavorGVK p \<noteq> kind_key dpuServiceNadGVK q" for p q
    by (simp_all add: kind_key_def vsp_gvk_defs)
  then show ?thesis
    by (simp add: stored_objects_def demo_identity world_with_flavor_def demo_flavor Let_def)
qed

theorem reported_conditions_witness:
  "\<exists>m' d'. Reconcile demo_reconciler 5 ('''', ''bf3'') (world_with_flavor None, ()) = ((0, None), (m', ())) \<and>
     units m' ('''', ''bf3'') = Some d' \<and> says d' readyConditionType True \<and> says d' progressingConditionType False"
proof -
  obtain t m' where pass: "Reconcile demo_reconciler 5 ('''', ''bf3'') (world_with_flavor None, ()) = ((t, None), (m', ()))"
    by (rule demo_pass [OF world_simps(1)])
  have "unit_ready demo_lib ''dpf'' (world_with_flavor None) (demo_unit ''bf3-0'')"
    by (simp add: unit_ready_def demo_unblocked world_objects demo_ready)
  with reported_conditions [OF _ _ _ world_simps(2,1) _ pass] vsp_demo_laws demo_identity(3) pass
  show ?thesis
    by (auto simp: demo_reconciler_def Let_def)
qed

definition failed_status :: "json option" where
  "failed_status = Some (JObject [(''conditions'', JArray [JObject [(''type'', JString ''Failed''), (''status'', JString ''True'')]])])"

lemma demo_failed:
  "objectFailure demo_lib ((buildFlavorObject demo_server (demo_unit i) j n)\<lparr>u_Status := failed_status\<rparr>) \<noteq> None"
proof -
  have "contains (to_lower ''Failed'') ''fail''" by code_simp
  then show ?thesis
    by (simp add: objectFailure_def demo_lib_def failed_status_def string_field_def Let_def)
qed

theorem ready_despite_failure_witness:
  "\<exists>t m' d'. Reconcile demo_reconciler 5 ('''', ''bf3'') (world_with_flavor failed_status, ()) = ((t, None), (m', ())) \<and>
     units m' ('''', ''bf3'') = Some d' \<and> says d' readyConditionType True \<and> says d' degradedConditionType True"
proof -
  obtain t m' where pass: "Reconcile demo_reconciler 5 ('''', ''bf3'') (world_with_flavor failed_status, ()) = ((t, None), (m', ()))"
    by (rule demo_pass [OF world_simps(1)])
  have "stored_objects (rec_lib demo_reconciler) (rec_TargetNamespace demo_reconciler) (world_with_flavor failed_status)
      (demo_unit ''bf3-0'') =
    Some ((buildDPUSetObject demo_server (demo_unit ''bf3-0'') ''bf3-0'' ''f1'')\<lparr>u_Status := ready_status\<rparr>,
      (buildFlavorObject demo_server (demo_unit ''bf3-0'') ''bf3-0'' 1)\<lparr>u_Status := failed_status\<rparr>,
      (buildServiceNadObject demo_server (demo_unit ''bf3-0''))\<lparr>u_Status := ready_status\<rparr>)"
    by (simp add: demo_reconciler_def world_objects)
  from ready_despite_failure [OF _ _ _ world_simps(2,1) _ pass demo_unblocked this] vsp_demo_laws demo_identity(3) pass
  show ?thesis
    by (auto simp: demo_reconciler_def demo_ready demo_failed)
qed

end
