(* ===== verification/DeviceReconciler.thy ===== *)
theory DeviceReconciler
  imports Prelude "HOL-Library.Multiset"
begin

text \<open>
  \<open>jasmine-kaur/feature_skeleton.go\<close>: the controller of \<open>OpiDpuDevice\<close>, written against the interface
  \<open>VendorAdapter\<close>, and the NVIDIA adapter behind it, which translates a device into three DPF objects.
  The Kubernetes libraries are the parameters \<open>Client\<close> and \<open>machinery\<close>.
\<close>

section \<open>Types\<close>

record Condition =
  Type :: string
  Status :: string
  ObservedGeneration :: "64 word"
  LastTransitionTime :: time
  Reason :: string
  Message :: message

record BFBSpec =
  FirmwareVersion :: string
  ImageURL :: string

record NetworkingSpec =
  Mode :: string
  OVNBridge :: string

record ResourceSpec =
  Hugepages :: string
  spec_VFCount :: int32

record OpiDpuDeviceSpec =
  Vendor :: string
  NodeName :: string
  spec_BFB :: BFBSpec
  Networking :: NetworkingSpec
  Resources :: ResourceSpec

record OpiDpuDevice =
  Name :: string
  Namespace :: string
  UID :: string
  Generation :: "64 word"
  Finalizers :: "string list"
  DeletionTimestamp :: "time option"
  Spec :: OpiDpuDeviceSpec
  Phase :: string
  Conditions :: "Condition list"
  status_ObservedGeneration :: "64 word"

text \<open>The DPF objects: what they share, and their own specifications.\<close>

record DPFMeta =
  o_Name :: string
  o_Namespace :: string
  o_Labels :: "string gomap"
  o_Conditions :: "Condition list"

record BFB = DPFMeta +
  bfb_URL :: string

record DPUSet = DPFMeta +
  NodeSelector :: "string gomap"
  DPUMode :: string
  VFCount :: int32

record DPFOperatorConfig = DPFMeta +
  cfg_FirmwareVersion :: string

datatype dpf_object = ObjBFB BFB | ObjConfig DPFOperatorConfig | ObjSet DPUSet

type_synonym object_key = "string \<times> string \<times> string"

fun key_of :: "dpf_object \<Rightarrow> object_key" where
  "key_of (ObjBFB b) = (''BFB'', o_Namespace b, o_Name b)"
| "key_of (ObjConfig c) = (''DPFOperatorConfig'', o_Namespace c, o_Name c)"
| "key_of (ObjSet d) = (''DPUSet'', o_Namespace d, o_Name d)"

fun GetLabels :: "dpf_object \<Rightarrow> string gomap" where
  "GetLabels (ObjBFB b) = o_Labels b"
| "GetLabels (ObjConfig c) = o_Labels c"
| "GetLabels (ObjSet d) = o_Labels d"

fun SetLabels :: "string gomap \<Rightarrow> dpf_object \<Rightarrow> dpf_object" where
  "SetLabels l (ObjBFB b) = ObjBFB (b\<lparr>o_Labels := l\<rparr>)"
| "SetLabels l (ObjConfig c) = ObjConfig (c\<lparr>o_Labels := l\<rparr>)"
| "SetLabels l (ObjSet d) = ObjSet (d\<lparr>o_Labels := l\<rparr>)"

definition ConditionTypeTranslationValid :: string where "ConditionTypeTranslationValid = ''TranslationValid''"
definition ConditionTypeProgressing :: string where "ConditionTypeProgressing = ''Progressing''"
definition ConditionTypeDegraded :: string where "ConditionTypeDegraded = ''Degraded''"
definition ConditionTypeReady :: string where "ConditionTypeReady = ''Ready''"

lemmas type_defs = ConditionTypeTranslationValid_def ConditionTypeProgressing_def ConditionTypeDegraded_def
  ConditionTypeReady_def

definition ReasonUnsupportedFieldCombination :: string where
  "ReasonUnsupportedFieldCombination = ''UnsupportedFieldCombination''"
definition ReasonDeletionPending :: string where "ReasonDeletionPending = ''DeletionPending''"
definition ReasonProvisioningInProgress :: string where "ReasonProvisioningInProgress = ''ProvisioningInProgress''"
definition ReasonProvisioned :: string where "ReasonProvisioned = ''Provisioned''"

definition finalizerName :: string where "finalizerName = ''opi.io/dpf-cleanup''"

section \<open>Translation\<close>

record DPFResourceSet =
  set_BFB :: BFB
  set_Config :: DPFOperatorConfig
  set_DPUSet :: DPUSet

record FieldError =
  Field :: string
  err_Message :: message

definition message_arg :: "message \<Rightarrow> fmt_arg" where
  "message_arg m = (case m of Text t \<Rightarrow> AStr t | Sprintf f as \<Rightarrow> AErr (Errorf f as))"

definition FieldError_Error :: "FieldError \<Rightarrow> go_error" where
  "FieldError_Error e = Errorf ''field %q: %s'' [AStr (Field e), message_arg (err_Message e)]"

record TranslationContext =
  TargetNamespace :: string
  DPFAPIVersion :: string

text \<open>\<open>None\<close> is the nil resource set that comes with errors.\<close>

type_synonym Translator = "OpiDpuDeviceSpec \<Rightarrow> TranslationContext \<Rightarrow> DPFResourceSet option \<times> FieldError list"

definition mapNetworkingMode :: "string \<Rightarrow> go_error + string" where
  "mapNetworkingMode opiMode =
     (if opiMode = ''dpu-dpuOnly'' then Inr ''DPUOnly''
      else if opiMode = ''dpu-hostOffload'' then Inr ''HostOffload''
      else Inl (Errorf ''unsupported networking mode %q'' [AStr opiMode]))"

definition resource_set :: "OpiDpuDeviceSpec \<Rightarrow> TranslationContext \<Rightarrow> string \<Rightarrow> DPFResourceSet" where
  "resource_set spec tctx dpuMode =
     (let name = NodeName spec; ns = TargetNamespace tctx in
      \<lparr>set_BFB = \<lparr>o_Name = name @ ''-bfb'', o_Namespace = ns, o_Labels = [], o_Conditions = [],
         bfb_URL = ImageURL (spec_BFB spec)\<rparr>,
       set_Config = \<lparr>o_Name = name @ ''-operatorconfig'', o_Namespace = ns, o_Labels = [], o_Conditions = [],
         cfg_FirmwareVersion = FirmwareVersion (spec_BFB spec)\<rparr>,
       set_DPUSet = \<lparr>o_Name = name @ ''-dpuset'', o_Namespace = ns, o_Labels = [], o_Conditions = [],
         NodeSelector = [(''kubernetes.io/hostname'', name)], DPUMode = dpuMode,
         VFCount = spec_VFCount (Resources spec)\<rparr>\<rparr>)"

definition Translate :: Translator where
  "Translate spec tctx =
     (let mode = mapNetworkingMode (Mode (Networking spec));
          errs1 = (case mode of
              Inl e \<Rightarrow> [\<lparr>Field = ''spec.networking.mode'',
                err_Message = (case e of Errorf f as \<Rightarrow> Sprintf f as | Sentinel t \<Rightarrow> Text t | External t \<Rightarrow> Text t)\<rparr>]
            | Inr _ \<Rightarrow> []);
          errs = errs1 @ (if ImageURL (spec_BFB spec) = ''''
            then [\<lparr>Field = ''spec.bfb.imageURL'', err_Message = Text ''must not be empty''\<rparr>] else [])
      in if 0 < length errs then (None, errs)
         else (Some (resource_set spec tctx (case mode of Inr dpuMode \<Rightarrow> dpuMode | Inl _ \<Rightarrow> '''')), []))"

definition NewNvidiaTranslator :: "string \<Rightarrow> go_error + Translator" where
  "NewNvidiaTranslator dpfAPIVersion =
     (if dpfAPIVersion = ''v1alpha1'' then Inr Translate
      else Inl (Errorf ''unsupported DPF API version: %s'' [AStr dpfAPIVersion]))"

section \<open>Libraries\<close>

record 'w Client =
  get_Device :: "string \<times> string \<Rightarrow> 'w \<Rightarrow> (go_error + OpiDpuDevice) \<times> 'w"
  update_Device :: "OpiDpuDevice \<Rightarrow> 'w \<Rightarrow> go_error option \<times> 'w"
  status_update :: "OpiDpuDevice \<Rightarrow> 'w \<Rightarrow> go_error option \<times> 'w"
  get_DPUSet :: "string \<times> string \<Rightarrow> 'w \<Rightarrow> (go_error + DPUSet) \<times> 'w"
  patch_apply :: "dpf_object \<Rightarrow> 'w \<Rightarrow> go_error option \<times> 'w"
  delete_DPUSet :: "string \<times> string \<Rightarrow> 'w \<Rightarrow> go_error option \<times> 'w"

record machinery =
  IsNotFound :: "go_error \<Rightarrow> bool"
  ContainsFinalizer :: "string list \<Rightarrow> string \<Rightarrow> bool"
  AddFinalizer :: "string list \<Rightarrow> string \<Rightarrow> string list"
  RemoveFinalizer :: "string list \<Rightarrow> string \<Rightarrow> string list"

section \<open>The vendor interface\<close>

record AdapterResult =
  Requeue :: bool
  RequeueAfter :: duration

definition no_result :: AdapterResult where "no_result = \<lparr>Requeue = False, RequeueAfter = 0\<rparr>"

record NormalizedStatus =
  ns_Ready :: bool
  ns_Progressing :: bool
  ns_Degraded :: bool
  ns_Reason :: string
  ns_Message :: message
  FullyDeleted :: bool

definition zero_status :: NormalizedStatus where
  "zero_status = \<lparr>ns_Ready = False, ns_Progressing = False, ns_Degraded = False, ns_Reason = '''',
     ns_Message = Text '''', FullyDeleted = False\<rparr>"

record 'w VendorAdapter =
  va_Reconcile :: "OpiDpuDevice \<Rightarrow> 'w \<Rightarrow> (go_error + AdapterResult) \<times> 'w"
  va_FetchStatus :: "OpiDpuDevice \<Rightarrow> 'w \<Rightarrow> (go_error + NormalizedStatus) \<times> 'w"
  va_Delete :: "OpiDpuDevice \<Rightarrow> 'w \<Rightarrow> (go_error + bool) \<times> 'w"

section \<open>The NVIDIA adapter\<close>

record 'w NvidiaDPFAdapter =
  ad_Client :: "'w Client"
  ad_lib :: machinery
  ad_Translator :: Translator
  ad_TargetNamespace :: string

text \<open>The stamp, the assignments to the label map in their order.\<close>

definition owner_labels :: "OpiDpuDevice \<Rightarrow> string gomap \<Rightarrow> string gomap" where
  "owner_labels owner labels =
     AList.update ''opi.io/owner-uid'' (UID owner)
       (AList.update ''opi.io/owner-namespace'' (Namespace owner)
         (AList.update ''opi.io/owner-name'' (Name owner)
           (AList.update ''opi.io/managed-by'' ''opi-dpu-operator'' labels)))"

definition applyOwned :: "'w NvidiaDPFAdapter \<Rightarrow> OpiDpuDevice \<Rightarrow> dpf_object \<Rightarrow> 'w \<Rightarrow> go_error option \<times> 'w" where
  "applyOwned a owner obj w =
     patch_apply (ad_Client a) (SetLabels (owner_labels owner (GetLabels obj)) obj) w"

text \<open>The three applies, each with the text its error is wrapped in.\<close>

definition apply_steps :: "DPFResourceSet \<Rightarrow> (dpf_object \<times> string) list" where
  "apply_steps rs =
     [(ObjBFB (set_BFB rs), ''applying BFB: %w''),
      (ObjConfig (set_Config rs), ''applying DPFOperatorConfig: %w''),
      (ObjSet (set_DPUSet rs), ''applying DPUSet: %w'')]"

definition ad_Reconcile :: "'w NvidiaDPFAdapter \<Rightarrow> OpiDpuDevice \<Rightarrow> 'w \<Rightarrow> (go_error + AdapterResult) \<times> 'w" where
  "ad_Reconcile a owner w =
     (let tctx = \<lparr>TargetNamespace = ad_TargetNamespace a, DPFAPIVersion = ''v1alpha1''\<rparr> in
      case ad_Translator a (Spec owner) tctx of
        (rs, fieldErrs) \<Rightarrow>
          if 0 < length fieldErrs
          then (Inl (Errorf ''translation failed: %v'' (map (\<lambda>e. AErr (FieldError_Error e)) fieldErrs)), w)
          else case each_until_err (\<lambda>step. applyOwned a owner (fst step)) (apply_steps (the rs)) w of
            (Some ((_, f), err), w1) \<Rightarrow> (Inl (Errorf f [AWrap err]), w1)
          | (None, w1) \<Rightarrow> (Inr \<lparr>Requeue = False, RequeueAfter = 15 * second\<rparr>, w1))"

definition condition_step :: "Condition \<Rightarrow> NormalizedStatus \<Rightarrow> NormalizedStatus" where
  "condition_step c ns =
     (if Type c = ''Ready'' then ns\<lparr>ns_Ready := (Status c = ''True'')\<rparr>
      else if Type c = ''Progressing'' \<or> Type c = ''Reconciling'' then ns\<lparr>ns_Progressing := (Status c = ''True'')\<rparr>
      else if Type c = ''Degraded''
      then ns\<lparr>ns_Degraded := (Status c = ''True''), ns_Reason := Reason c, ns_Message := Message c\<rparr>
      else ns)"

definition mapDPFConditionsToNormalizedStatus :: "Condition list \<Rightarrow> NormalizedStatus" where
  "mapDPFConditionsToNormalizedStatus conditions = fold condition_step conditions zero_status"

definition set_key :: "'w NvidiaDPFAdapter \<Rightarrow> OpiDpuDevice \<Rightarrow> string \<times> string" where
  "set_key a owner = (ad_TargetNamespace a, NodeName (Spec owner) @ ''-dpuset'')"

definition ad_FetchStatus :: "'w NvidiaDPFAdapter \<Rightarrow> OpiDpuDevice \<Rightarrow> 'w \<Rightarrow> (go_error + NormalizedStatus) \<times> 'w" where
  "ad_FetchStatus a owner w =
     (case get_DPUSet (ad_Client a) (set_key a owner) w of
        (Inl err, w1) \<Rightarrow>
          if IsNotFound (ad_lib a) err
          then (Inr (zero_status\<lparr>ns_Progressing := True, ns_Reason := ReasonProvisioningInProgress\<rparr>), w1)
          else (Inl err, w1)
      | (Inr dpuSet, w1) \<Rightarrow> (Inr (mapDPFConditionsToNormalizedStatus (o_Conditions dpuSet)), w1))"

definition ad_Delete :: "'w NvidiaDPFAdapter \<Rightarrow> OpiDpuDevice \<Rightarrow> 'w \<Rightarrow> (go_error + bool) \<times> 'w" where
  "ad_Delete a owner w =
     (case delete_DPUSet (ad_Client a) (set_key a owner) w of
        (err, w1) \<Rightarrow>
          if err \<noteq> None \<and> \<not> IsNotFound (ad_lib a) (the err) then (Inl (the err), w1)
          else case get_DPUSet (ad_Client a) (set_key a owner) w1 of
            (Inl err, w2) \<Rightarrow> (Inr (IsNotFound (ad_lib a) err), w2)
          | (Inr _, w2) \<Rightarrow> (Inr False, w2))"

definition NewNvidiaDPFAdapter ::
    "'w Client \<Rightarrow> machinery \<Rightarrow> string \<Rightarrow> string \<Rightarrow> go_error + 'w NvidiaDPFAdapter" where
  "NewNvidiaDPFAdapter c k dpfAPIVersion targetNamespace =
     (case NewNvidiaTranslator dpfAPIVersion of
        Inl err \<Rightarrow> Inl (Errorf ''constructing nvidia adapter: %w'' [AWrap err])
      | Inr translator \<Rightarrow>
          Inr \<lparr>ad_Client = c, ad_lib = k, ad_Translator = translator, ad_TargetNamespace = targetNamespace\<rparr>)"

definition as_VendorAdapter :: "'w NvidiaDPFAdapter \<Rightarrow> 'w VendorAdapter" where
  "as_VendorAdapter a = \<lparr>va_Reconcile = ad_Reconcile a, va_FetchStatus = ad_FetchStatus a, va_Delete = ad_Delete a\<rparr>"

definition GetAdapter :: "string \<Rightarrow> 'w Client \<Rightarrow> machinery \<Rightarrow> string \<Rightarrow> go_error + 'w VendorAdapter" where
  "GetAdapter vendor c k namespace =
     (if vendor = ''nvidia''
      then (case NewNvidiaDPFAdapter c k ''v1alpha1'' namespace of
              Inl err \<Rightarrow> Inl err | Inr a \<Rightarrow> Inr (as_VendorAdapter a))
      else Inl (Errorf ''no adapter registered for vendor %q'' [AStr vendor]))"

section \<open>The controller\<close>

text \<open>\<open>rec_order\<close> is the order in which the runtime iterates over a map.\<close>

record 'w OpiDpuDeviceReconciler =
  rec_Client :: "'w Client"
  rec_lib :: machinery
  DPFNamespace :: string
  rec_order :: "Condition gomap \<Rightarrow> Condition gomap"

definition boolToConditionStatus :: "bool \<Rightarrow> string" where
  "boolToConditionStatus b = (if b then ''True'' else ''False'')"

text \<open>\<open>mergeConditions\<close>: the map by type it builds, and the list of its values in iteration order.\<close>

definition merge_step :: "time \<Rightarrow> Condition \<Rightarrow> Condition gomap \<Rightarrow> Condition gomap" where
  "merge_step now u byType =
     (let u' = (case map_of byType (Type u) of
           Some prev \<Rightarrow> if Status prev = Status u then u\<lparr>LastTransitionTime := LastTransitionTime prev\<rparr>
                        else u\<lparr>LastTransitionTime := now\<rparr>
         | None \<Rightarrow> u\<lparr>LastTransitionTime := now\<rparr>)
      in AList.update (Type u) u' byType)"

definition merged :: "time \<Rightarrow> Condition list \<Rightarrow> Condition list \<Rightarrow> Condition gomap" where
  "merged now existing updates =
     fold (merge_step now) updates (fold (\<lambda>c. AList.update (Type c) c) existing [])"

definition mergeConditions ::
    "(Condition gomap \<Rightarrow> Condition gomap) \<Rightarrow> time \<Rightarrow> Condition list \<Rightarrow> Condition list \<Rightarrow> Condition list" where
  "mergeConditions order now existing updates = map snd (order (merged now existing updates))"

definition setCondition ::
    "'w OpiDpuDeviceReconciler \<Rightarrow> time \<Rightarrow> OpiDpuDevice \<Rightarrow> Condition \<Rightarrow> 'w \<Rightarrow> (go_error option \<times> OpiDpuDevice) \<times> 'w" where
  "setCondition r now owner cond w =
     (let cond1 = cond\<lparr>LastTransitionTime := now, ObservedGeneration := Generation owner\<rparr>;
          owner1 = owner\<lparr>Conditions := mergeConditions (rec_order r) now (Conditions owner) [cond1]\<rparr>
      in case status_update (rec_Client r) owner1 w of (err, w1) \<Rightarrow> ((err, owner1), w1))"

text \<open>A condition literal that leaves generation and time unset.\<close>

definition condition :: "string \<Rightarrow> string \<Rightarrow> string \<Rightarrow> message \<Rightarrow> Condition" where
  "condition t status reason msg =
     \<lparr>Type = t, Status = status, ObservedGeneration = 0, LastTransitionTime = zero_time, Reason = reason, Message = msg\<rparr>"

definition status_conditions :: "NormalizedStatus \<Rightarrow> Condition list" where
  "status_conditions ns =
     [condition ConditionTypeReady (if ns_Ready ns then ''True'' else ''False'')
        (if ns_Ready ns then ReasonProvisioned else ReasonProvisioningInProgress) (Text ''''),
      condition ConditionTypeProgressing (boolToConditionStatus (ns_Progressing ns)) ReasonProvisioningInProgress (Text '''')] @
     (if ns_Degraded ns then [condition ConditionTypeDegraded ''True'' (ns_Reason ns) (ns_Message ns)] else [])"

definition updateStatus ::
    "'w OpiDpuDeviceReconciler \<Rightarrow> time \<Rightarrow> OpiDpuDevice \<Rightarrow> NormalizedStatus \<Rightarrow> 'w \<Rightarrow> go_error option \<times> 'w" where
  "updateStatus r now owner ns w =
     status_update (rec_Client r)
       (owner\<lparr>Conditions := mergeConditions (rec_order r) now (Conditions owner) (status_conditions ns),
        status_ObservedGeneration := Generation owner,
        Phase := (if ns_Ready ns then ''Ready'' else ''Provisioning'')\<rparr>) w"

definition is_zero_time :: "time option \<Rightarrow> bool" where
  "is_zero_time t = (case t of None \<Rightarrow> True | Some x \<Rightarrow> x = zero_time)"

definition reconcileDelete ::
    "'w OpiDpuDeviceReconciler \<Rightarrow> time \<Rightarrow> OpiDpuDevice \<Rightarrow> 'w VendorAdapter \<Rightarrow> 'w \<Rightarrow> (AdapterResult \<times> go_error option) \<times> 'w" where
  "reconcileDelete r now owner adapter w =
     (if \<not> ContainsFinalizer (rec_lib r) (Finalizers owner) finalizerName then ((no_result, None), w)
      else case va_Delete adapter owner w of
        (Inl err, w1) \<Rightarrow> ((no_result, Some err), w1)
      | (Inr fullyRemoved, w1) \<Rightarrow>
          if \<not> fullyRemoved
          then (case setCondition r now owner
                       (condition ConditionTypeReady ''Unknown'' ReasonDeletionPending
                         (Text ''waiting for owned DPF resources to be removed'')) w1 of
                  (_, w2) \<Rightarrow> ((\<lparr>Requeue = False, RequeueAfter = 5 * second\<rparr>, None), w2))
          else case update_Device (rec_Client r)
                     (owner\<lparr>Finalizers := RemoveFinalizer (rec_lib r) (Finalizers owner) finalizerName\<rparr>) w1 of
                 (err, w2) \<Rightarrow> ((no_result, err), w2))"

text \<open>The create and update path.\<close>

definition converge ::
    "'w OpiDpuDeviceReconciler \<Rightarrow> time \<Rightarrow> OpiDpuDevice \<Rightarrow> 'w VendorAdapter \<Rightarrow> 'w \<Rightarrow> (AdapterResult \<times> go_error option) \<times> 'w" where
  "converge r now owner adapter w =
     (case va_Reconcile adapter owner w of
        (Inl err, w1) \<Rightarrow>
          (case setCondition r now owner
                  (condition ConditionTypeTranslationValid ''False'' ReasonUnsupportedFieldCombination
                    (Sprintf ''%s'' [AErr err])) w1 of
             (_, w2) \<Rightarrow> ((no_result, Some err), w2))
      | (Inr result, w1) \<Rightarrow>
          (case va_FetchStatus adapter owner w1 of
             (Inl err, w2) \<Rightarrow> ((no_result, Some err), w2)
           | (Inr normalized, w2) \<Rightarrow>
               (case updateStatus r now owner normalized w2 of
                  (Some err, w3) \<Rightarrow> ((no_result, Some err), w3)
                | (None, w3) \<Rightarrow> ((result, None), w3))))"

definition Reconcile ::
    "'w OpiDpuDeviceReconciler \<Rightarrow> time \<Rightarrow> string \<times> string \<Rightarrow> 'w \<Rightarrow> (AdapterResult \<times> go_error option) \<times> 'w" where
  "Reconcile r now req w =
     (case get_Device (rec_Client r) req w of
        (Inl err, w1) \<Rightarrow> ((no_result, if IsNotFound (rec_lib r) err then None else Some err), w1)
      | (Inr owner, w1) \<Rightarrow>
          (case GetAdapter (Vendor (Spec owner)) (rec_Client r) (rec_lib r) (DPFNamespace r) of
             Inl err \<Rightarrow>
               (case setCondition r now owner
                       (condition ConditionTypeTranslationValid ''False'' ''UnknownVendor'' (Sprintf ''%s'' [AErr err])) w1 of
                  ((serr, _), w2) \<Rightarrow> ((no_result, serr), w2))
           | Inr adapter \<Rightarrow>
               if \<not> is_zero_time (DeletionTimestamp owner) then reconcileDelete r now owner adapter w1
               else if \<not> ContainsFinalizer (rec_lib r) (Finalizers owner) finalizerName
               then (case update_Device (rec_Client r)
                            (owner\<lparr>Finalizers := AddFinalizer (rec_lib r) (Finalizers owner) finalizerName\<rparr>) w1 of
                       (Some err, w2) \<Rightarrow> ((no_result, Some err), w2)
                     | (None, w2) \<Rightarrow> ((\<lparr>Requeue = True, RequeueAfter = 0\<rparr>, None), w2))
               else converge r now owner adapter w1))"

section \<open>Merging conditions\<close>

definition latest :: "string \<Rightarrow> Condition list \<Rightarrow> Condition option" where
  "latest t cs = find (\<lambda>c. Type c = t) (rev cs)"

definition stamp :: "time \<Rightarrow> Condition option \<Rightarrow> Condition \<Rightarrow> Condition" where
  "stamp now prev u =
     u\<lparr>LastTransitionTime := (case prev of Some p \<Rightarrow> if Status p = Status u then LastTransitionTime p else now | None \<Rightarrow> now)\<rparr>"

lemma stamp_simps [simp]:
  "Type (stamp now p u) = Type u" "Status (stamp now p u) = Status u" "Reason (stamp now p u) = Reason u"
  by (simp_all add: stamp_def)

lemma latest_Type: "latest t cs = Some c \<Longrightarrow> Type c = t \<and> c \<in> set cs"
  by (auto simp: latest_def find_Some_iff) (metis nth_mem set_rev length_rev)

lemma latest_snoc: "latest t (cs @ [c]) = (if Type c = t then Some c else latest t cs)"
  by (simp add: latest_def)

lemma latest_None: "(latest t cs = None) = (\<forall>c \<in> set cs. Type c \<noteq> t)"
  by (auto simp: latest_def find_None_iff)

lemma map_of_by_type:
  "map_of (fold (\<lambda>c. AList.update (Type c) c) cs []) t = latest t cs"
  by (induction cs rule: rev_induct) (simp_all add: latest_snoc, simp add: latest_def)

lemma merge_step_stamp: "merge_step now u m = AList.update (Type u) (stamp now (map_of m (Type u)) u) m"
  by (simp add: merge_step_def stamp_def Let_def split: option.split)

lemma map_of_merge_steps:
  assumes "distinct (map Type ups)"
  shows "map_of (fold (merge_step now) ups m) t =
    (case latest t ups of Some u \<Rightarrow> Some (stamp now (map_of m t) u) | None \<Rightarrow> map_of m t)"
  using assms
proof (induction ups rule: rev_induct)
  case (snoc u ups)
  have "Type u \<notin> Type ` set ups"
    using snoc.prems by simp
  then have new: "Type u = t \<Longrightarrow> latest t ups = None"
    by (metis imageI latest_None)
  show ?case
    using snoc new by (auto simp: merge_step_stamp latest_snoc split: option.splits)
qed (simp add: latest_def)

definition typed :: "Condition gomap \<Rightarrow> bool" where
  "typed m = (distinct (map fst m) \<and> (\<forall>x \<in> set m. Type (snd x) = fst x))"

lemma typed_update:
  assumes "typed m" and "Type c = t"
  shows "typed (AList.update t c m)"
proof -
  have d: "distinct (map fst (AList.update t c m))"
    using assms(1) by (simp add: typed_def distinct_update)
  have "Type (snd x) = fst x" if "x \<in> set (AList.update t c m)" for x
    using map_of_is_SomeI [OF d, of "fst x" "snd x"] that assms
    by (auto simp: typed_def split: if_splits dest: map_of_SomeD)
  with d show ?thesis by (simp add: typed_def)
qed

lemma merged_typed: "typed (merged now ex ups)"
proof -
  have "typed (fold (\<lambda>c. AList.update (Type c) c) ex [])"
    by (induction ex rule: rev_induct) (simp add: typed_def, simp add: typed_update)
  then show ?thesis
    unfolding merged_def by (induction ups rule: rev_induct) (simp_all add: merge_step_stamp typed_update)
qed

text \<open>
  Merging upserts by type in whatever order the runtime visits the map: the result has every type once,
  an updated type has the update, stamped with the old transition time if the status is the same and with
  the present one otherwise, and every other type keeps its last condition.\<close>

theorem mergeConditions_upserts:
  assumes "\<forall>m. mset (order m) = mset m" and "distinct (map Type ups)"
  shows "distinct (map Type (mergeConditions order now ex ups)) \<and>
    latest t (mergeConditions order now ex ups) =
      (case latest t ups of Some u \<Rightarrow> Some (stamp now (latest t ex) u) | None \<Rightarrow> latest t ex)"
proof -
  let ?m = "merged now ex ups"
  have perm: "set (order ?m) = set ?m" "mset (map fst (order ?m)) = mset (map fst ?m)"
    using assms(1) by (metis set_mset_mset, simp)
  have types: "map Type (map snd (order ?m)) = map fst (order ?m)"
    using merged_typed [of now ex ups] perm(1) by (simp add: typed_def)
  have dist: "distinct (map fst (order ?m))"
    using merged_typed [of now ex ups] perm(2) unfolding typed_def by (metis mset_eq_imp_distinct_iff)
  have mo: "map_of ?m t = (case latest t ups of Some u \<Rightarrow> Some (stamp now (latest t ex) u) | None \<Rightarrow> latest t ex)"
    unfolding merged_def map_of_merge_steps [OF assms(2)] map_of_by_type ..
  have "latest t (map snd (order ?m)) = map_of ?m t"
  proof (cases "map_of ?m t")
    case None
    then have "t \<notin> fst ` set (order ?m)"
      by (simp add: map_of_eq_None_iff perm(1))
    then have "t \<notin> Type ` set (map snd (order ?m))"
      using types by (metis list.set_map)
    then have "latest t (map snd (order ?m)) = None"
      unfolding latest_None by auto
    with None show ?thesis by simp
  next
    case (Some c)
    then have c: "c \<in> set (map snd (order ?m))" "Type c = t"
      using merged_typed [of now ex ups] perm(1) by (auto simp: typed_def rev_image_eqI dest!: map_of_SomeD)
    have "d = c" if "d \<in> set (map snd (order ?m))" "Type d = t" for d
      using that c dist types by (metis distinct_map inj_onD)
    then show ?thesis
      using c Some latest_None [of t "map snd (order ?m)"] latest_Type [of t "map snd (order ?m)"]
      by (metis not_Some_eq)
  qed
  moreover have "distinct (map Type (map snd (order ?m)))"
    unfolding types by (rule dist)
  ultimately show ?thesis
    unfolding mergeConditions_def mo by blast
qed

section \<open>An API server\<close>

text \<open>
  \<open>doomed\<close> holds the device sets whose deletion has been requested.  The laws are the documented
  behaviour of the client: a read gives what is stored, a failed write stores nothing, an update leaves
  the status alone and removes a deleted device with its last finalizer, a status update changes the
  status only, a deletion removes the object at once or leaves it to its finalizers.
\<close>

record api =
  devices :: "string \<times> string \<Rightarrow> OpiDpuDevice option"
  objs :: "object_key \<Rightarrow> dpf_object option"
  doomed :: "object_key set"

definition with_status :: "OpiDpuDevice \<Rightarrow> OpiDpuDevice \<Rightarrow> OpiDpuDevice" where
  "with_status d x = x\<lparr>Phase := Phase d, Conditions := Conditions d, status_ObservedGeneration := status_ObservedGeneration d\<rparr>"

definition name_of :: "OpiDpuDevice \<Rightarrow> string \<times> string" where "name_of d = (Namespace d, Name d)"

definition documented :: "machinery \<Rightarrow> bool" where
  "documented k =
     ((\<forall>fs f. ContainsFinalizer k fs f = (f \<in> set fs)) \<and>
      (\<forall>fs f. set (AddFinalizer k fs f) = insert f (set fs)) \<and>
      (\<forall>fs f. set (RemoveFinalizer k fs f) = set fs - {f}))"

definition reads :: "machinery \<Rightarrow> (api \<times> 'v) Client \<Rightarrow> bool" where
  "reads k C =
     ((\<forall>q m v a m' v'. get_Device C q (m, v) = (a, (m', v')) \<longrightarrow>
         m' = m \<and> (case a of Inr d \<Rightarrow> devices m q = Some d | Inl e \<Rightarrow> IsNotFound k e \<longrightarrow> devices m q = None)) \<and>
      (\<forall>q m v a m' v'. get_DPUSet C q (m, v) = (a, (m', v')) \<longrightarrow>
         m' = m \<and> (case a of Inr s \<Rightarrow> objs m (''DPUSet'', q) = Some (ObjSet s)
           | Inl e \<Rightarrow> IsNotFound k e \<longrightarrow> objs m (''DPUSet'', q) = None)))"

definition device_writes :: "(api \<times> 'v) Client \<Rightarrow> bool" where
  "device_writes C =
     ((\<forall>d m v e m' v'. update_Device C d (m, v) = (e, (m', v')) \<longrightarrow>
         m' = (if e = None
               then m\<lparr>devices := (devices m)(name_of d :=
                      (if \<not> is_zero_time (DeletionTimestamp d) \<and> Finalizers d = [] then None
                       else map_option (\<lambda>x. with_status x d) (devices m (name_of d))))\<rparr>
               else m)) \<and>
      (\<forall>d m v e m' v'. status_update C d (m, v) = (e, (m', v')) \<longrightarrow>
         m' = (if e = None
               then m\<lparr>devices := (devices m)(name_of d := map_option (with_status d) (devices m (name_of d)))\<rparr>
               else m)))"

definition object_writes :: "machinery \<Rightarrow> (api \<times> 'v) Client \<Rightarrow> bool" where
  "object_writes k C =
     ((\<forall>u m v e m' v'. patch_apply C u (m, v) = (e, (m', v')) \<longrightarrow>
         (if e = None then \<exists>x. m' = m\<lparr>objs := (objs m)(key_of u \<mapsto> x)\<rparr> \<and> key_of x = key_of u else m' = m)) \<and>
      (\<forall>q m v e m' v'. delete_DPUSet C q (m, v) = (e, (m', v')) \<longrightarrow>
         (if e = None
          then \<exists>x. m' = m\<lparr>objs := (objs m)((''DPUSet'', q) := x), doomed := insert (''DPUSet'', q) (doomed m)\<rparr> \<and>
                 (x = None \<or> x = objs m (''DPUSet'', q))
          else m' = m)))"

definition indexed :: "api \<Rightarrow> bool" where
  "indexed m = (\<forall>q d. devices m q = Some d \<longrightarrow> name_of d = q)"

lemmas dev_readsD =
  reads_def [THEN iffD1, THEN conjunct1, rule_format]
  reads_def [THEN iffD1, THEN conjunct2, rule_format]
lemmas device_writesD =
  device_writes_def [THEN iffD1, THEN conjunct1, rule_format]
  device_writes_def [THEN iffD1, THEN conjunct2, rule_format]
lemmas object_writesD =
  object_writes_def [THEN iffD1, THEN conjunct1, rule_format]
  object_writes_def [THEN iffD1, THEN conjunct2, rule_format]

section \<open>What a status write does\<close>

text \<open>
  The updates a pass merges: they never set \<open>TranslationValid\<close> to anything but false, and never set
  \<open>Degraded\<close> to anything but true.\<close>

definition pass_updates :: "Condition list \<Rightarrow> bool" where
  "pass_updates ups =
     (distinct (map Type ups) \<and>
      (\<forall>u \<in> set ups. (Type u = ConditionTypeTranslationValid \<longrightarrow> Status u = ''False'') \<and>
         (Type u = ConditionTypeDegraded \<longrightarrow> Status u = ''True'')))"

text \<open>What may become of the stored devices in a write of the status of \<open>d\<close>.\<close>

definition merged_into ::
    "'w OpiDpuDeviceReconciler \<Rightarrow> time \<Rightarrow> OpiDpuDevice \<Rightarrow> (string \<times> string \<Rightarrow> OpiDpuDevice option) \<Rightarrow>
      (string \<times> string \<Rightarrow> OpiDpuDevice option) \<Rightarrow> bool" where
  "merged_into r now d D D' =
     (D' = D \<or>
      (\<exists>ups s. pass_updates ups \<and> Conditions s = mergeConditions (rec_order r) now (Conditions d) ups \<and>
         D' = D(name_of d := map_option (with_status s) (D (name_of d)))))"

lemma merged_intoI:
  "pass_updates ups \<Longrightarrow> Conditions s = mergeConditions (rec_order r) now (Conditions d) ups \<Longrightarrow> name_of s = name_of d \<Longrightarrow>
     merged_into r now d D (D(name_of s := map_option (with_status s) (D (name_of s))))"
  by (auto simp: merged_into_def)

lemma merged_into_refl [simp]: "merged_into r now d D D"
  by (simp add: merged_into_def)

lemma setCondition_effect:
  assumes "device_writes (rec_Client r)" and "setCondition r now d c (m, v) = ((e, d1), (m', v'))"
    and "pass_updates [c]"
  shows "m' = m\<lparr>devices := devices m'\<rparr>" "merged_into r now d (devices m) (devices m')"
proof -
  let ?c = "c\<lparr>LastTransitionTime := now, ObservedGeneration := Generation d\<rparr>"
  let ?d = "d\<lparr>Conditions := mergeConditions (rec_order r) now (Conditions d) [?c]\<rparr>"
  have 1: "status_update (rec_Client r) ?d (m, v) = (e, (m', v'))"
    using assms(2) by (auto simp: setCondition_def Let_def split: prod.splits)
  have "pass_updates [?c]" using assms(3) by (simp add: pass_updates_def)
  then show "m' = m\<lparr>devices := devices m'\<rparr>" "merged_into r now d (devices m) (devices m')"
    using device_writesD(2) [OF assms(1) 1] merged_intoI [of "[?c]" ?d r now d]
    by (simp_all add: name_of_def)
qed

lemma updateStatus_effect:
  assumes "device_writes (rec_Client r)" and "updateStatus r now d ns (m, v) = (e, (m', v'))"
  shows "m' = m\<lparr>devices := devices m'\<rparr>" "merged_into r now d (devices m) (devices m')"
proof -
  let ?d = "d\<lparr>Conditions := mergeConditions (rec_order r) now (Conditions d) (status_conditions ns),
        status_ObservedGeneration := Generation d, Phase := (if ns_Ready ns then ''Ready'' else ''Provisioning'')\<rparr>"
  have "pass_updates (status_conditions ns)"
    by (auto simp: pass_updates_def status_conditions_def condition_def type_defs)
  then show "m' = m\<lparr>devices := devices m'\<rparr>" "merged_into r now d (devices m) (devices m')"
    using device_writesD(2) [OF assms(1) assms(2) [unfolded updateStatus_def]] merged_intoI [of "status_conditions ns" ?d r now d]
    by (simp_all add: name_of_def)
qed

section \<open>What the controller asks of an adapter\<close>

text \<open>
  The contract of \<open>VendorAdapter\<close>: reconciling writes objects of its own only, fetching the status writes
  nothing, and a delete that reports full removal has left none of the objects it is responsible for.\<close>

locale vendor_adapter =
  fixes A :: "(api \<times> 'v) VendorAdapter"
    and applied :: "OpiDpuDevice \<Rightarrow> object_key set"
    and deleted :: "OpiDpuDevice \<Rightarrow> object_key set"
  assumes reconcile_writes: "va_Reconcile A d (m, v) = (a, (m', v')) \<Longrightarrow>
      m' = m\<lparr>objs := objs m'\<rparr> \<and> (\<forall>k. k \<notin> applied d \<longrightarrow> objs m' k = objs m k)"
    and fetch_writes: "va_FetchStatus A d (m, v) = (b, (m', v')) \<Longrightarrow> m' = m"
    and delete_writes: "va_Delete A d (m, v) = (c, (m', v')) \<Longrightarrow>
      devices m' = devices m \<and> doomed m' \<subseteq> doomed m \<union> deleted d \<and> (\<forall>k. k \<notin> deleted d \<longrightarrow> objs m' k = objs m k) \<and>
      (c = Inr True \<longrightarrow> (\<forall>k \<in> deleted d. objs m' k = None))"
begin

lemma adapter_converge:
  assumes "device_writes (rec_Client r)" and "converge r now d A (m, v) = (x, (m', v'))"
  shows "doomed m' = doomed m \<and> (\<forall>k. k \<notin> applied d \<longrightarrow> objs m' k = objs m k) \<and>
    merged_into r now d (devices m) (devices m')"
proof -
  obtain a m1 v1 where 1: "va_Reconcile A d (m, v) = (a, (m1, v1))" by (metis prod.collapse)
  note w1 = reconcile_writes [OF 1]
  have m1: "devices m1 = devices m" "doomed m1 = doomed m"
    using w1 by (cases m; cases m1; simp)+
  have pass: "pass_updates [condition ConditionTypeTranslationValid ''False'' rs msg]" for rs msg
    by (simp add: pass_updates_def condition_def type_defs)
  have "m' = m1\<lparr>devices := devices m'\<rparr> \<and> merged_into r now d (devices m1) (devices m')"
  proof (cases a)
    case (Inl err)
    then obtain e d1 where "setCondition r now d (condition ConditionTypeTranslationValid ''False''
        ReasonUnsupportedFieldCombination (Sprintf ''%s'' [AErr err])) (m1, v1) = ((e, d1), (m', v'))"
      using assms(2) by (auto simp: converge_def 1 split: prod.splits)
    from setCondition_effect [OF assms(1) this pass] show ?thesis by simp
  next
    case (Inr result)
    obtain b m2 v2 where 2: "va_FetchStatus A d (m1, v1) = (b, (m2, v2))" by (metis prod.collapse)
    have m2: "m2 = m1" using fetch_writes [OF 2] .
    show ?thesis
    proof (cases b)
      case (Inl err)
      then show ?thesis using assms(2) Inr m2 by (auto simp: converge_def 1 2)
    next
      case b: (Inr ns)
      then obtain e where "updateStatus r now d ns (m2, v2) = (e, (m', v'))"
        using assms(2) Inr by (auto simp: converge_def 1 2 split: prod.splits option.splits)
      from updateStatus_effect [OF assms(1) this] show ?thesis by (simp add: m2)
    qed
  qed
  then show ?thesis
    using w1 m1 by (cases m'; cases m1) auto
qed

lemma adapter_delete:
  assumes "device_writes (rec_Client r)" and "documented (rec_lib r)"
    and "reconcileDelete r now d A (m, v) = (x, (m', v'))" and "devices m (name_of d) = Some d"
  shows "doomed m' \<subseteq> doomed m \<union> deleted d \<and> (\<forall>k. k \<notin> deleted d \<longrightarrow> objs m' k = objs m k) \<and>
    (merged_into r now d (devices m) (devices m') \<or>
     (\<forall>k \<in> deleted d. objs m' k = None) \<and>
     (\<forall>q. q \<noteq> name_of d \<longrightarrow> devices m' q = devices m q) \<and>
     (\<forall>d'. devices m' (name_of d) = Some d' \<longrightarrow> Conditions d' = Conditions d \<and> name_of d' = name_of d))"
proof (cases "ContainsFinalizer (rec_lib r) (Finalizers d) finalizerName")
  case False
  then show ?thesis using assms(3) by (auto simp: reconcileDelete_def)
next
  case True
  obtain a m1 v1 where 1: "va_Delete A d (m, v) = (a, (m1, v1))" by (metis prod.collapse)
  note w1 = delete_writes [OF 1]
  have pass: "pass_updates [condition ConditionTypeReady ''Unknown'' rs msg]" for rs msg
    by (simp add: pass_updates_def condition_def type_defs)
  consider (err) e where "a = Inl e" | (wait) "a = Inr False" | (gone) "a = Inr True"
    by (cases a) auto
  then show ?thesis
  proof cases
    case err
    then show ?thesis using assms(3) True w1 by (auto simp: reconcileDelete_def 1)
  next
    case wait
    then obtain e d1 where "setCondition r now d (condition ConditionTypeReady ''Unknown'' ReasonDeletionPending
        (Text ''waiting for owned DPF resources to be removed'')) (m1, v1) = ((e, d1), (m', v'))"
      using assms(3) True by (auto simp: reconcileDelete_def 1 split: prod.splits)
    from setCondition_effect [OF assms(1) this pass] show ?thesis
      using w1 by (cases m'; cases m1) auto
  next
    case gone
    let ?d = "d\<lparr>Finalizers := RemoveFinalizer (rec_lib r) (Finalizers d) finalizerName\<rparr>"
    obtain e where u: "update_Device (rec_Client r) ?d (m1, v1) = (e, (m', v'))"
      using assms(3) True gone by (auto simp: reconcileDelete_def 1 split: prod.splits)
    have "name_of ?d = name_of d" by (simp add: name_of_def)
    then show ?thesis
      using device_writesD(1) [OF assms(1) u] w1 gone assms(4)
      by (cases "e = None") (auto simp: with_status_def name_of_def)
  qed
qed

end

section \<open>The NVIDIA adapter keeps the contract\<close>

definition nvidia :: "'w Client \<Rightarrow> machinery \<Rightarrow> string \<Rightarrow> 'w NvidiaDPFAdapter" where
  "nvidia C k ns = \<lparr>ad_Client = C, ad_lib = k, ad_Translator = Translate, ad_TargetNamespace = ns\<rparr>"

lemma nvidia_simps [simp]:
  "ad_Client (nvidia C k ns) = C" "ad_lib (nvidia C k ns) = k" "ad_Translator (nvidia C k ns) = Translate"
  "ad_TargetNamespace (nvidia C k ns) = ns"
  by (simp_all add: nvidia_def)

lemma GetAdapter_nvidia:
  "GetAdapter vendor C k ns =
     (if vendor = ''nvidia'' then Inr (as_VendorAdapter (nvidia C k ns))
      else Inl (Errorf ''no adapter registered for vendor %q'' [AStr vendor]))"
  by (simp add: GetAdapter_def NewNvidiaDPFAdapter_def NewNvidiaTranslator_def nvidia_def)

definition device_set_key :: "string \<Rightarrow> OpiDpuDevice \<Rightarrow> object_key" where
  "device_set_key ns d = (''DPUSet'', ns, NodeName (Spec d) @ ''-dpuset'')"

definition device_keys :: "string \<Rightarrow> OpiDpuDevice \<Rightarrow> object_key set" where
  "device_keys ns d =
     {(''BFB'', ns, NodeName (Spec d) @ ''-bfb''), (''DPFOperatorConfig'', ns, NodeName (Spec d) @ ''-operatorconfig''),
      device_set_key ns d}"

lemma key_SetLabels [simp]: "key_of (SetLabels l x) = key_of x"
  by (cases x) simp_all

lemma Translate_keys:
  assumes "Translate (Spec d) \<lparr>TargetNamespace = ns, DPFAPIVersion = v\<rparr> = (rs, errs)" and "errs = []"
  shows "(\<lambda>x. key_of (fst x)) ` set (apply_steps (the rs)) = device_keys ns d"
proof -
  obtain mode where "rs = Some (resource_set (Spec d) \<lparr>TargetNamespace = ns, DPFAPIVersion = v\<rparr> mode)"
    using assms by (fastforce simp: Translate_def Let_def split: if_splits)
  then show ?thesis
    by (simp add: apply_steps_def device_keys_def device_set_key_def resource_set_def Let_def)
qed

lemma apply_steps_effect:
  assumes "object_writes k C" and "a = nvidia C k ns"
    and "each_until_err (\<lambda>x. applyOwned a d (fst x)) xs (m, v) = (r, (m', v'))"
  shows "m' = m\<lparr>objs := objs m'\<rparr> \<and> (\<forall>q. q \<notin> (\<lambda>x. key_of (fst x)) ` set xs \<longrightarrow> objs m' q = objs m q)"
  using assms(3)
proof (induction xs arbitrary: m v)
  case (Cons x xs)
  obtain e m1 v1 where 1: "applyOwned a d (fst x) (m, v) = (e, (m1, v1))" by (metis prod.collapse)
  have m1: "m1 = m\<lparr>objs := objs m1\<rparr> \<and> (\<forall>q. q \<noteq> key_of (fst x) \<longrightarrow> objs m1 q = objs m q)"
    using object_writesD(1) [OF assms(1) 1 [unfolded applyOwned_def, simplified assms(2), simplified]]
    by (auto split: if_splits)
  show ?case
  proof (cases e)
    case (Some err)
    then show ?thesis using Cons.prems m1 by (auto simp: 1)
  next
    case None
    then have "each_until_err (\<lambda>x. applyOwned a d (fst x)) xs (m1, v1) = (r, (m', v'))"
      using Cons.prems by (simp add: 1)
    from Cons.IH [OF this] m1 show ?thesis
      by (cases m; cases m1; cases m') auto
  qed
qed simp

lemma nvidia_adapter:
  assumes "reads k C" and "object_writes k C"
  shows "vendor_adapter (as_VendorAdapter (nvidia C k ns)) (device_keys ns) (\<lambda>d. {device_set_key ns d})"
proof (unfold_locales, goal_cases)
  case (1 d m v a m' v')
  obtain rs errs where t: "Translate (Spec d) \<lparr>TargetNamespace = ns, DPFAPIVersion = ''v1alpha1''\<rparr> = (rs, errs)"
    by fastforce
  show ?case
  proof (cases "errs = []")
    case False
    then show ?thesis
      using 1 t by (auto simp: as_VendorAdapter_def ad_Reconcile_def)
  next
    case True
    obtain r w' where l: "each_until_err (\<lambda>x. applyOwned (nvidia C k ns) d (fst x)) (apply_steps (the rs)) (m, v) = (r, w')"
      by (metis prod.collapse)
    then have "w' = (m', v')"
      using 1 t True unfolding as_VendorAdapter_def ad_Reconcile_def
      by (auto simp: Let_def split: option.splits prod.splits)
    with l have "each_until_err (\<lambda>x. applyOwned (nvidia C k ns) d (fst x)) (apply_steps (the rs)) (m, v) = (r, (m', v'))"
      by simp
    from apply_steps_effect [OF assms(2) refl this] show ?thesis
      unfolding Translate_keys [OF t True] .
  qed
next
  case (2 d m v b m' v')
  then show ?case
    using dev_readsD(2) [OF assms(1)]
    by (auto simp: as_VendorAdapter_def ad_FetchStatus_def split: prod.splits sum.splits if_splits; metis)
next
  case (3 d m v c m' v')
  let ?q = "(ns, NodeName (Spec d) @ ''-dpuset'')"
  obtain e m1 v1 where 1: "delete_DPUSet C ?q (m, v) = (e, (m1, v1))" by (metis prod.collapse)
  obtain b m2 v2 where 2: "get_DPUSet C ?q (m1, v1) = (b, (m2, v2))" by (metis prod.collapse)
  have key: "set_key (nvidia C k ns) d = ?q" by (simp add: set_key_def)
  have "m2 = m1" and b: "case b of Inl e \<Rightarrow> IsNotFound k e \<longrightarrow> objs m1 (''DPUSet'', ?q) = None | Inr _ \<Rightarrow> True"
    using dev_readsD(2) [OF assms(1) 2] by (auto split: sum.splits)
  moreover have "devices m1 = devices m \<and> doomed m1 \<subseteq> insert (''DPUSet'', ?q) (doomed m) \<and>
      (\<forall>q. q \<noteq> (''DPUSet'', ?q) \<longrightarrow> objs m1 q = objs m q)"
    using object_writesD(2) [OF assms(2) 1] by (auto split: if_splits)
  ultimately show ?case
    using 3 by (auto simp: as_VendorAdapter_def ad_Delete_def key 1 2 device_set_key_def split: if_splits sum.splits)
qed

section \<open>Passes\<close>

definition api_server :: "(api \<times> 'v) OpiDpuDeviceReconciler \<Rightarrow> bool" where
  "api_server r =
     (documented (rec_lib r) \<and> reads (rec_lib r) (rec_Client r) \<and> device_writes (rec_Client r) \<and>
      object_writes (rec_lib r) (rec_Client r) \<and> (\<forall>m. mset (rec_order r m) = mset m))"

text \<open>The passes that find their device: by vendor, deletion and finalizer.\<close>

lemma pass_cases:
  assumes "api_server r" and "devices m q = Some d" and "Reconcile r now q (m, v) = (x, (m', v'))"
  obtains (unread) "m' = m"
  | (unknown) e d1 v1 where "Vendor (Spec d) \<noteq> ''nvidia''"
      "setCondition r now d (condition ConditionTypeTranslationValid ''False'' ''UnknownVendor''
         (Sprintf ''%s'' [AErr (Errorf ''no adapter registered for vendor %q'' [AStr (Vendor (Spec d))])])) (m, v1) =
       ((e, d1), (m', v'))"
  | (delete) v1 where "Vendor (Spec d) = ''nvidia''" "\<not> is_zero_time (DeletionTimestamp d)"
      "reconcileDelete r now d (as_VendorAdapter (nvidia (rec_Client r) (rec_lib r) (DPFNamespace r))) (m, v1) = (x, (m', v'))"
  | (adopt) e v1 where "Vendor (Spec d) = ''nvidia''" "is_zero_time (DeletionTimestamp d)"
      "\<not> ContainsFinalizer (rec_lib r) (Finalizers d) finalizerName"
      "update_Device (rec_Client r) (d\<lparr>Finalizers := AddFinalizer (rec_lib r) (Finalizers d) finalizerName\<rparr>) (m, v1) = (e, (m', v'))"
  | (live) v1 where "Vendor (Spec d) = ''nvidia''" "is_zero_time (DeletionTimestamp d)"
      "ContainsFinalizer (rec_lib r) (Finalizers d) finalizerName"
      "converge r now d (as_VendorAdapter (nvidia (rec_Client r) (rec_lib r) (DPFNamespace r))) (m, v1) = (x, (m', v'))"
proof -
  obtain a m1 v1 where 1: "get_Device (rec_Client r) q (m, v) = (a, (m1, v1))" by (metis prod.collapse)
  have m1: "m1 = m" "\<forall>d1. a = Inr d1 \<longrightarrow> d1 = d"
    using dev_readsD(1) [OF _ 1] assms(1,2) by (auto simp: api_server_def)
  show ?thesis
  proof (cases a)
    case (Inl err)
    then show ?thesis using assms(3) m1 by (intro unread) (simp add: Reconcile_def 1)
  next
    case (Inr d1)
    then have g: "get_Device (rec_Client r) q (m, v) = (Inr d, (m, v1))" using 1 m1 by simp
    note pass = assms(3) [unfolded Reconcile_def g GetAdapter_nvidia, simplified]
    show ?thesis
    proof (cases "Vendor (Spec d) = ''nvidia''")
      case False
      then show ?thesis using pass by (auto intro: unknown split: prod.splits)
    next
      case True
      then show ?thesis using pass
        by (cases "is_zero_time (DeletionTimestamp d)"; cases "ContainsFinalizer (rec_lib r) (Finalizers d) finalizerName")
          (auto intro: delete adopt live split: prod.splits option.splits)
    qed
  qed
qed

definition failed_translation :: "OpiDpuDevice \<Rightarrow> bool" where
  "failed_translation d = (\<exists>c. latest ConditionTypeTranslationValid (Conditions d) = Some c \<and> Status c = ''False'')"

definition degraded :: "OpiDpuDevice \<Rightarrow> bool" where
  "degraded d = (\<exists>c. latest ConditionTypeDegraded (Conditions d) = Some c \<and> Status c = ''True'')"

lemma merged_into_keeps:
  assumes "\<forall>m. mset (rec_order r m) = mset m" and "merged_into r now d D D'" and "D (name_of d) = Some d"
  shows "\<exists>d'. D' (name_of d) = Some d' \<and> (failed_translation d \<longrightarrow> failed_translation d') \<and> (degraded d \<longrightarrow> degraded d')"
proof -
  have keep: "\<exists>c'. latest t (mergeConditions (rec_order r) now (Conditions d) ups) = Some c' \<and> Status c' = s"
    if "latest t (Conditions d) = Some c" "Status c = s" "\<forall>u \<in> set ups. Type u = t \<longrightarrow> Status u = s"
      "distinct (map Type ups)" for t s c ups
    using mergeConditions_upserts [OF assms(1) that(4), of now "Conditions d" t] that(1-3) latest_Type [of t ups]
    by (auto split: option.splits)
  show ?thesis
    using assms(2,3) unfolding merged_into_def
  proof (elim disjE exE conjE)
    fix ups s assume p: "pass_updates ups" and c: "Conditions s = mergeConditions (rec_order r) now (Conditions d) ups"
      and D': "D' = D(name_of d := map_option (with_status s) (D (name_of d)))"
    have "distinct (map Type ups)" "\<forall>u \<in> set ups. Type u = ConditionTypeTranslationValid \<longrightarrow> Status u = ''False''"
      "\<forall>u \<in> set ups. Type u = ConditionTypeDegraded \<longrightarrow> Status u = ''True''"
      using p by (auto simp: pass_updates_def)
    then have "failed_translation d \<longrightarrow> failed_translation (with_status s d)" "degraded d \<longrightarrow> degraded (with_status s d)"
      using keep c by (auto simp: failed_translation_def degraded_def with_status_def)
    then show ?thesis using D' assms(3) by simp
  qed auto
qed

lemma with_status_simps [simp]:
  "Finalizers (with_status s x) = Finalizers x" "name_of (with_status s x) = name_of x"
  by (simp_all add: with_status_def name_of_def)

lemma merged_into_finalizers:
  assumes "merged_into r now d D D'"
  shows "map_option Finalizers (D' q) = map_option Finalizers (D q)" "(D' q = None) = (D q = None)"
    "q \<noteq> name_of d \<Longrightarrow> D' q = D q" "map_option name_of (D' q) = map_option name_of (D q)"
  using assms by (auto simp: merged_into_def option.map_comp comp_def split: if_splits)

lemma api_serverD:
  assumes "api_server r"
  shows "documented (rec_lib r)" "reads (rec_lib r) (rec_Client r)" "device_writes (rec_Client r)"
    "object_writes (rec_lib r) (rec_Client r)" "\<forall>m. mset (rec_order r m) = mset m"
  using assms by (auto simp: api_server_def)

lemma invalid_update: "pass_updates [condition ConditionTypeTranslationValid ''False'' rs msg]"
  by (simp add: pass_updates_def condition_def type_defs)

lemma nvidia_contract:
  assumes "api_server r"
  shows "vendor_adapter (as_VendorAdapter (nvidia (rec_Client r) (rec_lib r) ns)) (device_keys ns) (\<lambda>d. {device_set_key ns d})"
  using nvidia_adapter api_serverD [OF assms] by blast

text \<open>What one pass does to the stored devices.\<close>

lemma pass_devices:
  assumes "api_server r" and "indexed m" and "devices m q = Some d" and "Reconcile r now q (m, v) = (x, (m', v'))"
  shows "merged_into r now d (devices m) (devices m') \<or>
    (\<forall>p. p \<noteq> q \<longrightarrow> devices m' p = devices m p) \<and>
    (\<forall>d'. devices m' q = Some d' \<longrightarrow> Conditions d' = Conditions d \<and> name_of d' = q)"
  using assms(1,3,4)
proof (cases rule: pass_cases)
  case (unknown e d1 v1)
  from setCondition_effect [OF api_serverD(3) [OF assms(1)] unknown(2) invalid_update] show ?thesis by simp
next
  case (delete v1)
  have "name_of d = q" using assms(2,3) unfolding indexed_def by blast
  with vendor_adapter.adapter_delete [OF nvidia_contract [OF assms(1)] api_serverD(3,1) [OF assms(1)] delete(3)] assms(3)
  show ?thesis by auto
next
  case (adopt e v1)
  have "name_of d = q" using assms(2,3) unfolding indexed_def by blast
  with device_writesD(1) [OF api_serverD(3) [OF assms(1)] adopt(4)] adopt(2) assms(3)
  show ?thesis by (auto simp: name_of_def with_status_def split: if_splits)
next
  case (live v1)
  from vendor_adapter.adapter_converge [OF nvidia_contract [OF assms(1)] api_serverD(3) [OF assms(1)] live(4)]
  show ?thesis by simp
qed simp

text \<open>What one pass does to the objects.\<close>

lemma pass_objects:
  assumes "api_server r" and "indexed m" and "devices m q = Some d" and "Reconcile r now q (m, v) = (x, (m', v'))"
  shows "(\<forall>k. objs m' k \<noteq> objs m k \<longrightarrow> Vendor (Spec d) = ''nvidia'' \<and> finalizerName \<in> set (Finalizers d) \<and>
      (if is_zero_time (DeletionTimestamp d) then k \<in> device_keys (DPFNamespace r) d else k = device_set_key (DPFNamespace r) d)) \<and>
    doomed m' \<subseteq> doomed m \<union> (if is_zero_time (DeletionTimestamp d) then {} else {device_set_key (DPFNamespace r) d})"
  using assms(1,3,4)
proof (cases rule: pass_cases)
  case (unknown e d1 v1)
  from setCondition_effect(1) [OF api_serverD(3) [OF assms(1)] unknown(2) invalid_update] show ?thesis
    by (cases m; cases m') simp
next
  case (delete v1)
  have "devices m (name_of d) = Some d" using assms(2,3) unfolding indexed_def by metis
  note eff = vendor_adapter.adapter_delete [OF nvidia_contract [OF assms(1)] api_serverD(3,1) [OF assms(1)] delete(3) this]
  have "finalizerName \<notin> set (Finalizers d) \<Longrightarrow> m' = m"
    using delete(3) api_serverD(1) [OF assms(1)] by (simp add: reconcileDelete_def documented_def)
  with eff delete(1,2) show ?thesis by auto
next
  case (adopt e v1)
  from device_writesD(1) [OF api_serverD(3) [OF assms(1)] adopt(4)] show ?thesis by (auto split: if_splits)
next
  case (live v1)
  have "finalizerName \<in> set (Finalizers d)"
    using live(3) api_serverD(1) [OF assms(1)] by (simp add: documented_def)
  with vendor_adapter.adapter_converge [OF nvidia_contract [OF assms(1)] api_serverD(3) [OF assms(1)] live(4)] live(1,2)
  show ?thesis by auto
qed simp

text \<open>Any number of passes, for any requests, with anything else happening to the rest of the world.\<close>

inductive run :: "(api \<times> 'v) OpiDpuDeviceReconciler \<Rightarrow> api \<Rightarrow> api \<Rightarrow> bool" for r m where
  "run r m m"
| "run r m m1 \<Longrightarrow> Reconcile r now q (m1, v) = (x, (m2, v2)) \<Longrightarrow> run r m m2"

lemma pass_absent:
  assumes "api_server r" and "devices m q = None" and "Reconcile r now q (m, v) = (x, (m', v'))"
  shows "m' = m"
proof -
  obtain a m1 v1 where 1: "get_Device (rec_Client r) q (m, v) = (a, (m1, v1))" by (metis prod.collapse)
  from dev_readsD(1) [OF api_serverD(2) [OF assms(1)] 1] assms(2,3) show ?thesis
    by (auto simp: Reconcile_def 1 split: sum.splits)
qed

lemma indexed_iff: "indexed m = (\<forall>q. map_option name_of (devices m q) \<in> {None, Some q})"
proof -
  have "(devices m q = None \<or> (\<exists>d. devices m q = Some d \<and> name_of d = q)) =
      (\<forall>d. devices m q = Some d \<longrightarrow> name_of d = q)" for q
    by (cases "devices m q") auto
  then show ?thesis by (simp add: indexed_def)
qed

lemma pass_indexed:
  assumes "api_server r" and "indexed m" and "Reconcile r now q (m, v) = (x, (m', v'))"
  shows "indexed m'"
proof (cases "devices m q")
  case None
  then show ?thesis using pass_absent [OF assms(1) _ assms(3)] assms(2) by simp
next
  case (Some d)
  from pass_devices [OF assms(1,2) Some assms(3)] show ?thesis
  proof
    assume "merged_into r now d (devices m) (devices m')"
    from merged_into_finalizers(4) [OF this] assms(2) show ?thesis
      by (simp add: indexed_iff)
  next
    assume "(\<forall>p. p \<noteq> q \<longrightarrow> devices m' p = devices m p) \<and>
      (\<forall>d'. devices m' q = Some d' \<longrightarrow> Conditions d' = Conditions d \<and> name_of d' = q)"
    with assms(2) show ?thesis unfolding indexed_def by metis
  qed
qed

text \<open>What a failure leaves behind in the conditions of one device, when it is still stored.\<close>

definition marked :: "bool \<Rightarrow> bool \<Rightarrow> OpiDpuDevice option \<Rightarrow> bool" where
  "marked f g D = (\<forall>d. D = Some d \<longrightarrow> (f \<longrightarrow> failed_translation d) \<and> (g \<longrightarrow> degraded d))"

lemma pass_marked:
  assumes "api_server r" and "indexed m" and "Reconcile r now p (m, v) = (x, (m', v'))" and "marked f g (devices m q)"
  shows "marked f g (devices m' q)"
proof (cases "devices m p")
  case None
  then show ?thesis using pass_absent [OF assms(1) _ assms(3)] assms(4) by simp
next
  case (Some d)
  have p: "name_of d = p" using assms(2) Some unfolding indexed_def by blast
  from pass_devices [OF assms(1,2) Some assms(3)] show ?thesis
  proof
    assume mi: "merged_into r now d (devices m) (devices m')"
    show ?thesis
    proof (cases "q = p")
      case True
      with merged_into_keeps [OF api_serverD(5) [OF assms(1)] mi] p Some assms(4)
      show ?thesis by (auto simp: marked_def)
    next
      case False
      with merged_into_finalizers(3) [OF mi] p assms(4) show ?thesis by simp
    qed
  next
    assume keep: "(\<forall>q. q \<noteq> p \<longrightarrow> devices m' q = devices m q) \<and>
      (\<forall>d'. devices m' p = Some d' \<longrightarrow> Conditions d' = Conditions d \<and> name_of d' = p)"
    show ?thesis
      unfolding marked_def
    proof (intro allI impI)
      fix d' assume d': "devices m' q = Some d'"
      show "(f \<longrightarrow> failed_translation d') \<and> (g \<longrightarrow> degraded d')"
      proof (cases "q = p")
        case True
        then have "Conditions d' = Conditions d" using keep d' by blast
        then show ?thesis
          using assms(4) Some True by (simp add: marked_def failed_translation_def degraded_def)
      next
        case False
        then have "devices m' q = devices m q" using keep by blast
        then show ?thesis using assms(4) d' by (simp add: marked_def)
      qed
    qed
  qed
qed

text \<open>
  C19.  Once a device reports a failed translation it never reports a valid one again, and once it is degraded
  it stays degraded, however many passes for whatever devices follow: no branch of the controller sets
  \<open>TranslationValid\<close> to true or \<open>Degraded\<close> to false.\<close>

theorem failures_never_cleared:
  assumes "api_server r" and "indexed m" and "run r m m'" and "devices m q = Some d" and "devices m' q = Some d'"
  shows "(failed_translation d \<longrightarrow> failed_translation d') \<and> (degraded d \<longrightarrow> degraded d')"
proof -
  have "indexed m' \<and> marked (failed_translation d) (degraded d) (devices m' q)"
    using assms(3)
  proof (induction rule: run.induct)
    case 1
    then show ?case using assms(2,4) by (simp add: marked_def)
  next
    case (2 m1 now p v x m2 v2)
    then show ?case using pass_indexed [OF assms(1)] pass_marked [OF assms(1)] by blast
  qed
  with assms(5) show ?thesis by (simp add: marked_def)
qed

text \<open>
  The cleanup finalizer leaves a stored device, or the device goes with it, only when it is deleted, has a
  known vendor and its device set is gone; firmware bundle and operator configuration are not touched: no
  deletion of them is requested, so both stay behind.\<close>

theorem release_leaves_firmware_objects:
  assumes "api_server r" and "indexed m" and "devices m q = Some d" and "finalizerName \<in> set (Finalizers d)"
    and pass: "Reconcile r now q (m, v) = (x, (m', v'))"
    and gone: "\<forall>d'. devices m' q = Some d' \<longrightarrow> finalizerName \<notin> set (Finalizers d')"
  shows "\<not> is_zero_time (DeletionTimestamp d) \<and> Vendor (Spec d) = ''nvidia'' \<and>
    objs m' (device_set_key (DPFNamespace r) d) = None \<and>
    (\<forall>k. k \<noteq> device_set_key (DPFNamespace r) d \<longrightarrow> objs m' k = objs m k) \<and>
    doomed m' \<subseteq> insert (device_set_key (DPFNamespace r) d) (doomed m)"
proof -
  have not_merged: "\<not> merged_into r now d (devices m) (devices m')"
    using merged_into_finalizers(1,2) [of r now d "devices m" "devices m'" q] assms(3,4) gone by fastforce
  have q: "devices m (name_of d) = Some d" using assms(2,3) unfolding indexed_def by metis
  from assms(1,3) pass show ?thesis
  proof (cases rule: pass_cases)
    case unread
    then show ?thesis using not_merged by simp
  next
    case (unknown e d1 v1)
    from setCondition_effect(2) [OF api_serverD(3) [OF assms(1)] unknown(2) invalid_update] not_merged show ?thesis by blast
  next
    case (delete v1)
    from vendor_adapter.adapter_delete [OF nvidia_contract [OF assms(1)] api_serverD(3,1) [OF assms(1)] delete(3) q]
    show ?thesis using not_merged delete(1,2) by auto
  next
    case (adopt e v1)
    then show ?thesis using assms(4) api_serverD(1) [OF assms(1)] by (simp add: documented_def)
  next
    case (live v1)
    from vendor_adapter.adapter_converge [OF nvidia_contract [OF assms(1)] api_serverD(3) [OF assms(1)] live(4)]
    show ?thesis using not_merged by simp
  qed
qed

text \<open>
  A pass changes an object only for a device of a known vendor that carries the cleanup finalizer already,
  and then only the three objects of its node, or, for a deleted device, its device set.\<close>

theorem objects_guarded_by_finalizer:
  assumes "api_server r" and "indexed m" and "devices m q = Some d"
    and "Reconcile r now q (m, v) = (x, (m', v'))" and "objs m' k \<noteq> objs m k"
  shows "Vendor (Spec d) = ''nvidia'' \<and> finalizerName \<in> set (Finalizers d) \<and>
    (if is_zero_time (DeletionTimestamp d) then k \<in> device_keys (DPFNamespace r) d else k = device_set_key (DPFNamespace r) d)"
  using pass_objects [OF assms(1-4)] assms(5) by blast

section \<open>A concrete server\<close>

definition NotFound :: go_error where "NotFound = External ''not found''"

definition demo_lib :: machinery where
  "demo_lib = \<lparr>IsNotFound = (\<lambda>e. e = NotFound), ContainsFinalizer = (\<lambda>fs f. f \<in> set fs),
     AddFinalizer = (\<lambda>fs f. if f \<in> set fs then fs else fs @ [f]), RemoveFinalizer = (\<lambda>fs f. filter (\<lambda>x. x \<noteq> f) fs)\<rparr>"

definition demo_client :: "(api \<times> unit) Client" where
  "demo_client =
     \<lparr>get_Device = (\<lambda>q (m, v). (case devices m q of None \<Rightarrow> Inl NotFound | Some d \<Rightarrow> Inr d, (m, v))),
      update_Device = (\<lambda>d (m, v). (None, (m\<lparr>devices := (devices m)(name_of d :=
         (if \<not> is_zero_time (DeletionTimestamp d) \<and> Finalizers d = [] then None
          else map_option (\<lambda>x. with_status x d) (devices m (name_of d))))\<rparr>, v))),
      status_update = (\<lambda>d (m, v). (None,
         (m\<lparr>devices := (devices m)(name_of d := map_option (with_status d) (devices m (name_of d)))\<rparr>, v))),
      get_DPUSet = (\<lambda>q (m, v). (case objs m (''DPUSet'', q) of
         Some (ObjSet s) \<Rightarrow> Inr s | None \<Rightarrow> Inl NotFound | Some _ \<Rightarrow> Inl (External ''decode''), (m, v))),
      patch_apply = (\<lambda>u (m, v). (None, (m\<lparr>objs := (objs m)(key_of u \<mapsto> u)\<rparr>, v))),
      delete_DPUSet = (\<lambda>q (m, v). if objs m (''DPUSet'', q) = None then (Some NotFound, (m, v))
         else (None, (m\<lparr>objs := (objs m)((''DPUSet'', q) := None), doomed := insert (''DPUSet'', q) (doomed m)\<rparr>, v)))\<rparr>"

definition demo_reconciler :: "(api \<times> unit) OpiDpuDeviceReconciler" where
  "demo_reconciler = \<lparr>rec_Client = demo_client, rec_lib = demo_lib, DPFNamespace = ''dpf'', rec_order = rev\<rparr>"

lemma device_demo_laws: "documented demo_lib" "reads demo_lib demo_client" "device_writes demo_client"
  "object_writes demo_lib demo_client" "api_server demo_reconciler"
proof -
  show 1: "documented demo_lib" "reads demo_lib demo_client" "device_writes demo_client" "object_writes demo_lib demo_client"
    by (auto simp: documented_def reads_def device_writes_def object_writes_def demo_lib_def demo_client_def NotFound_def
        split: if_splits option.splits dpf_object.splits)
  then show "api_server demo_reconciler"
    by (simp add: api_server_def demo_reconciler_def)
qed

interpretation nv: vendor_adapter "as_VendorAdapter (nvidia demo_client demo_lib ''dpf'')" "device_keys ''dpf''"
    "\<lambda>d. {device_set_key ''dpf'' d}"
  by (rule nvidia_adapter [OF device_demo_laws(2,4)])

definition demo_device :: "string \<Rightarrow> string list \<Rightarrow> time option \<Rightarrow> Condition list \<Rightarrow> OpiDpuDevice" where
  "demo_device vendor fs dt cs =
     \<lparr>Name = ''dev'', Namespace = ''ns'', UID = ''u'', Generation = 1, Finalizers = fs, DeletionTimestamp = dt,
      Spec = \<lparr>Vendor = vendor, NodeName = ''n1'', spec_BFB = \<lparr>FirmwareVersion = ''2.9'', ImageURL = ''http://bfb''\<rparr>,
        Networking = \<lparr>Mode = ''dpu-dpuOnly'', OVNBridge = ''''\<rparr>, Resources = \<lparr>Hugepages = '''', spec_VFCount = 8\<rparr>\<rparr>,
      Phase = '''', Conditions = cs, status_ObservedGeneration = 0\<rparr>"

definition demo_world :: "OpiDpuDevice \<Rightarrow> api" where
  "demo_world d = \<lparr>devices = [(''ns'', ''dev'') \<mapsto> d],
     objs = [(''BFB'', ''dpf'', ''n1-bfb'') \<mapsto> ObjBFB \<lparr>o_Name = ''n1-bfb'', o_Namespace = ''dpf'', o_Labels = [], o_Conditions = [], bfb_URL = ''http://bfb''\<rparr>],
     doomed = {}\<rparr>"

lemma demo_indexed: "indexed (demo_world (demo_device v fs dt cs))"
  by (simp add: indexed_def demo_world_def demo_device_def name_of_def)

lemmas demo_defs = demo_device_def demo_world_def demo_lib_def demo_client_def demo_reconciler_def

theorem failures_never_cleared_witness:
  "\<exists>m' d'. run demo_reconciler (demo_world (demo_device ''intel'' [finalizerName] None
       [condition ConditionTypeTranslationValid ''False'' ''UnknownVendor'' (Text '''')])) m' \<and>
     devices m' (''ns'', ''dev'') = Some d' \<and> failed_translation d'"
proof -
  let ?d = "demo_device ''intel'' [finalizerName] None [condition ConditionTypeTranslationValid ''False'' ''UnknownVendor'' (Text '''')]"
  have "\<exists>x m'. Reconcile demo_reconciler 7 (''ns'', ''dev'') (demo_world ?d, ()) = (x, (m', ())) \<and> devices m' (''ns'', ''dev'') \<noteq> None"
    by (simp add: Reconcile_def GetAdapter_nvidia setCondition_def Let_def demo_defs name_of_def)
  then obtain x m' d' where pass: "Reconcile demo_reconciler 7 (''ns'', ''dev'') (demo_world ?d, ()) = (x, (m', ()))"
    and d': "devices m' (''ns'', ''dev'') = Some d'" by blast
  have run: "run demo_reconciler (demo_world ?d) m'"
    by (rule run.intros(2) [OF run.intros(1) pass])
  have stored: "devices (demo_world ?d) (''ns'', ''dev'') = Some ?d"
    by (simp add: demo_world_def)
  have "failed_translation ?d"
    by (simp add: failed_translation_def latest_def demo_device_def condition_def)
  with failures_never_cleared [OF device_demo_laws(5) demo_indexed run stored d'] run d' show ?thesis by blast
qed

theorem release_leaves_firmware_objects_witness:
  "\<exists>x m'. Reconcile demo_reconciler 7 (''ns'', ''dev'') (demo_world (demo_device ''nvidia'' [finalizerName] (Some 3) []), ()) = (x, (m', ())) \<and>
     devices m' (''ns'', ''dev'') = None \<and> objs m' (''BFB'', ''dpf'', ''n1-bfb'') \<noteq> None"
proof -
  let ?d = "demo_device ''nvidia'' [finalizerName] (Some 3) []"
  have "\<exists>x m'. Reconcile demo_reconciler 7 (''ns'', ''dev'') (demo_world ?d, ()) = (x, (m', ())) \<and> devices m' (''ns'', ''dev'') = None"
    by (simp add: Reconcile_def GetAdapter_nvidia reconcileDelete_def as_VendorAdapter_def ad_Delete_def set_key_def
        is_zero_time_def zero_time_def second_def demo_defs name_of_def NotFound_def)
  then obtain x m' where pass: "Reconcile demo_reconciler 7 (''ns'', ''dev'') (demo_world ?d, ()) = (x, (m', ()))"
    and gone: "devices m' (''ns'', ''dev'') = None" by blast
  have stored: "devices (demo_world ?d) (''ns'', ''dev'') = Some ?d" and fin: "finalizerName \<in> set (Finalizers ?d)"
    by (simp_all add: demo_world_def demo_device_def)
  have "objs m' (''BFB'', ''dpf'', ''n1-bfb'') = objs (demo_world ?d) (''BFB'', ''dpf'', ''n1-bfb'')"
    using release_leaves_firmware_objects [OF device_demo_laws(5) demo_indexed stored fin pass] gone
    by (simp add: device_set_key_def)
  then show ?thesis
    using pass gone by (auto simp: demo_world_def)
qed

definition served_world :: "OpiDpuDevice \<Rightarrow> api" where
  "served_world d = (demo_world d)\<lparr>objs := [(''DPUSet'', ''dpf'', ''n1-dpuset'') \<mapsto>
     ObjSet \<lparr>o_Name = ''n1-dpuset'', o_Namespace = ''dpf'', o_Labels = [], o_Conditions = [], NodeSelector = [],
       DPUMode = ''DPUOnly'', VFCount = 8\<rparr>]\<rparr>"

theorem objects_guarded_by_finalizer_witness:
  "\<exists>x m'. Reconcile demo_reconciler 7 (''ns'', ''dev'') (served_world (demo_device ''nvidia'' [finalizerName] (Some 3) []), ()) = (x, (m', ())) \<and>
     objs m' (''DPUSet'', ''dpf'', ''n1-dpuset'') = None \<and>
     (''DPUSet'', ''dpf'', ''n1-dpuset'') = device_set_key ''dpf'' (demo_device ''nvidia'' [finalizerName] (Some 3) [])"
proof -
  let ?d = "demo_device ''nvidia'' [finalizerName] (Some 3) []" and ?k = "(''DPUSet'', ''dpf'', ''n1-dpuset'')"
  have "\<exists>x m'. Reconcile demo_reconciler 7 (''ns'', ''dev'') (served_world ?d, ()) = (x, (m', ())) \<and> objs m' ?k = None"
    by (simp add: Reconcile_def GetAdapter_nvidia reconcileDelete_def as_VendorAdapter_def ad_Delete_def set_key_def
        is_zero_time_def zero_time_def second_def demo_defs served_world_def name_of_def)
  then obtain x m' where pass: "Reconcile demo_reconciler 7 (''ns'', ''dev'') (served_world ?d, ()) = (x, (m', ()))"
    and gone: "objs m' ?k = None" by blast
  have ix: "indexed (served_world ?d)" using demo_indexed by (simp add: indexed_def served_world_def)
  have st: "devices (served_world ?d) (''ns'', ''dev'') = Some ?d"
    by (simp add: served_world_def demo_world_def)
  have ch: "objs m' ?k \<noteq> objs (served_world ?d) ?k"
    using gone by (simp add: served_world_def)
  have "\<not> is_zero_time (DeletionTimestamp ?d)" "DPFNamespace demo_reconciler = ''dpf''"
    by (simp_all add: demo_device_def is_zero_time_def zero_time_def second_def demo_reconciler_def)
  with objects_guarded_by_finalizer [OF device_demo_laws(5) ix st pass ch] pass gone show ?thesis by auto
qed

theorem mergeConditions_upserts_witness:
  "latest ''Ready'' (mergeConditions rev 9 [condition ''Ready'' ''False'' ''a'' (Text '''')] [condition ''Ready'' ''False'' ''b'' (Text '''')]) =
     Some (condition ''Ready'' ''False'' ''b'' (Text ''''))"
proof -
  have "\<forall>m. mset (rev m) = mset (m :: Condition gomap)" by simp
  from mergeConditions_upserts [OF this, of "[condition ''Ready'' ''False'' ''b'' (Text '''')]" 9 _ "''Ready''"]
  show ?thesis by (simp add: latest_def condition_def stamp_def)
qed

end
