(* ===== verification/VendorFramework.thy ===== *)
theory VendorFramework
  imports Prelude
begin

text \<open>
  \<open>sai-pradhyum/feature_skeleton.go\<close>: a vendor adapter framework.  A registry selects an adapter
  by the vendor an intent names, the adapter translates the intent to vendor objects, and
  \<open>AdapterReconciler\<close> applies them, mirrors a status back and tears the objects down again.
\<close>

section \<open>Types\<close>

record Result =
  Requeue :: bool
  RequeueAfter :: duration

record Request =
  req_Namespace :: string
  req_Name :: string

record Condition =
  cond_Type :: string
  cond_Status :: string
  cond_Reason :: string
  cond_Message :: message
  LastTransitionTime :: time

definition ConditionTrue :: string where "ConditionTrue = ''True''"
definition ConditionFalse :: string where "ConditionFalse = ''False''"
definition ReadyConditionType :: string where "ReadyConditionType = ''Ready''"

record DPURef =
  ref_NodeName :: string
  DpuIdentifier :: string
  ref_Vendor :: string

record ObjectMeta =
  Name :: string
  Namespace :: string
  Finalizers :: "string list"
  DeletionTimestamp :: "time option"

record NetworkFunction =
  nf_Name :: string
  nf_Image :: string

record OPIIntentSpec =
  Vendor :: string
  BFBURL :: string
  Flavor :: string
  NodeSelector :: "string gomap"
  ServiceChain :: "NetworkFunction list"

record Capability =
  RDMA :: bool
  VDPA :: bool
  OVSOffload :: bool
  IPsec :: bool
  StorageOffload :: bool
  SFCChaining :: bool

definition no_capability :: Capability where
  "no_capability = \<lparr>RDMA = False, VDPA = False, OVSOffload = False, IPsec = False, StorageOffload = False,
     SFCChaining = False\<rparr>"

record OPIStatus =
  Conditions :: "Condition list"
  Capabilities :: Capability
  ObservedDPUs :: int

record OPIIntent = ObjectMeta +
  Spec :: OPIIntentSpec
  Status :: OPIStatus

text \<open>The values the adapter stores in a \<open>map[string]any\<close>.\<close>

datatype any = AnyString string | AnyStrings "string gomap" | AnyMap "(string \<times> any) list"
  | AnyFunctions "NetworkFunction list"

record VendorObject =
  APIVersion :: string
  Kind :: string
  obj_Name :: string
  obj_Namespace :: string
  OwnerRef :: string
  obj_Spec :: "any gomap"
  Labels :: "string gomap"

section \<open>Interfaces\<close>

text \<open>\<open>client_Get\<close> gives the error or the object it decoded into its third argument.\<close>

record 'w Client =
  client_Get :: "Request \<Rightarrow> 'w \<Rightarrow> (go_error + OPIIntent) \<times> 'w"
  client_Apply :: "VendorObject \<Rightarrow> 'w \<Rightarrow> go_error option \<times> 'w"
  PatchStatus :: "OPIIntent \<Rightarrow> 'w \<Rightarrow> go_error option \<times> 'w"
  client_Delete :: "VendorObject \<Rightarrow> 'w \<Rightarrow> go_error option \<times> 'w"

type_synonym 'w EventRecorder = "string \<Rightarrow> string \<Rightarrow> string \<Rightarrow> message \<Rightarrow> 'w \<Rightarrow> 'w"

text \<open>\<open>SyncStatus\<close> gets the reading of the clock its conditions are stamped with.\<close>

record 'w VendorAdapter =
  adapter_Name :: string
  DiscoverCapabilities :: "DPURef \<Rightarrow> 'w \<Rightarrow> (go_error + Capability) \<times> 'w"
  Translate :: "OPIIntent \<Rightarrow> 'w \<Rightarrow> (go_error + VendorObject list) \<times> 'w"
  SyncStatus :: "time \<Rightarrow> OPIIntent \<Rightarrow> 'w \<Rightarrow> (go_error + OPIStatus) \<times> 'w"

section \<open>Registry\<close>

type_synonym 'w VendorRegistry = "'w VendorAdapter gomap"

definition NewVendorRegistry :: "'w VendorAdapter list \<Rightarrow> 'w VendorRegistry" where
  "NewVendorRegistry adapters = fold (\<lambda>a. AList.update (adapter_Name a) a) adapters []"

definition ErrNoAdapter :: go_error where
  "ErrNoAdapter = Sentinel ''no vendor adapter registered for vendor''"

definition For :: "'w VendorRegistry \<Rightarrow> string \<Rightarrow> go_error + 'w VendorAdapter" where
  "For r vendor =
     (case map_of r vendor of
        None \<Rightarrow> Inl (Errorf ''%w: %q'' [AWrap ErrNoAdapter, AStr vendor])
      | Some a \<Rightarrow> Inr a)"

section \<open>The NVIDIA adapter\<close>

definition dpfProvisioningAPI :: string where "dpfProvisioningAPI = ''provisioning.dpu.nvidia.com/v1alpha1''"
definition dpfServiceAPI :: string where "dpfServiceAPI = ''svc.dpu.nvidia.com/v1alpha1''"

record NvidiaAdapter =
  dpfNamespace :: string

definition NewNvidiaAdapter :: "string \<Rightarrow> NvidiaAdapter" where
  "NewNvidiaAdapter ns = \<lparr>dpfNamespace = ns\<rparr>"

definition nv_Name :: "NvidiaAdapter \<Rightarrow> string" where "nv_Name a = ''nvidia''"

definition nv_DiscoverCapabilities :: "NvidiaAdapter \<Rightarrow> DPURef \<Rightarrow> go_error + Capability" where
  "nv_DiscoverCapabilities a dpu =
     (if DpuIdentifier dpu = '''' then Inl (Errorf ''empty DPU identifier'' [])
      else Inr \<lparr>RDMA = True, VDPA = True, OVSOffload = True, IPsec = True, StorageOffload = True,
                 SFCChaining = True\<rparr>)"

definition nv_Translate :: "NvidiaAdapter \<Rightarrow> OPIIntent \<Rightarrow> go_error + VendorObject list" where
  "nv_Translate a i =
     (if BFBURL (Spec i) = '''' then Inl (Errorf ''intent.spec.bfbURL is required for NVIDIA provisioning'' [])
      else
        (let owner = Name i;
             objs =
               [\<lparr>APIVersion = dpfProvisioningAPI, Kind = ''BFB'', obj_Name = Name i @ ''-bfb'',
                  obj_Namespace = dpfNamespace a, OwnerRef = owner,
                  obj_Spec = [(''url'', AnyString (BFBURL (Spec i)))], Labels = []\<rparr>,
                \<lparr>APIVersion = dpfProvisioningAPI, Kind = ''DPUFlavor'', obj_Name = Name i @ ''-flavor'',
                  obj_Namespace = dpfNamespace a, OwnerRef = owner,
                  obj_Spec = [(''profile'', AnyString (Flavor (Spec i)))], Labels = []\<rparr>,
                \<lparr>APIVersion = dpfProvisioningAPI, Kind = ''DPUSet'', obj_Name = Name i @ ''-set'',
                  obj_Namespace = dpfNamespace a, OwnerRef = owner,
                  obj_Spec =
                    [(''dpuNodeSelector'', AnyStrings (NodeSelector (Spec i))),
                     (''dpuTemplate'', AnyMap
                        [(''bfb'', AnyString (Name i @ ''-bfb'')), (''flavor'', AnyString (Name i @ ''-flavor''))])],
                  Labels = []\<rparr>]
         in Inr (if length (ServiceChain (Spec i)) > 0
                 then objs @
                   [\<lparr>APIVersion = dpfServiceAPI, Kind = ''DPUServiceChain'', obj_Name = Name i @ ''-chain'',
                      obj_Namespace = dpfNamespace a, OwnerRef = owner,
                      obj_Spec = [(''functions'', AnyFunctions (ServiceChain (Spec i)))], Labels = []\<rparr>]
                 else objs)))"

definition mapPhase :: "string \<Rightarrow> string \<times> string" where
  "mapPhase phase =
     (if phase = ''Ready'' then (ConditionTrue, ''Provisioned'')
      else if phase = ''Initializing'' \<or> phase = ''Pending'' then (ConditionFalse, ''Provisioning'')
      else if phase = ''Rebooting'' \<or> phase = ''DPUWarmReboot'' then (ConditionFalse, ''Rebooting'')
      else if phase = ''Error'' then (ConditionFalse, ''ProvisioningFailed'')
      else if phase = ''Deleting'' then (ConditionFalse, ''Deprovisioning'')
      else (''Unknown'', ''Unknown''))"

definition readDPFPhase :: "OPIIntent \<Rightarrow> string" where "readDPFPhase i = ''Ready''"

definition nv_SyncStatus :: "NvidiaAdapter \<Rightarrow> time \<Rightarrow> OPIIntent \<Rightarrow> go_error + OPIStatus" where
  "nv_SyncStatus a now i =
     (let phase = readDPFPhase i; (ready, reason) = mapPhase phase
      in Inr \<lparr>Conditions =
                [\<lparr>cond_Type = ReadyConditionType, cond_Status = ready, cond_Reason = reason,
                   cond_Message = Sprintf ''DPF DPU phase=%s'' [AStr phase], LastTransitionTime = now\<rparr>],
              Capabilities = no_capability, ObservedDPUs = 0\<rparr>)"

text \<open>The adapter behind the interface: none of its methods touches the world.\<close>

definition nvidia_adapter :: "NvidiaAdapter \<Rightarrow> 'w VendorAdapter" where
  "nvidia_adapter a =
     \<lparr>adapter_Name = nv_Name a, DiscoverCapabilities = (\<lambda>d w. (nv_DiscoverCapabilities a d, w)),
      Translate = (\<lambda>i w. (nv_Translate a i, w)), SyncStatus = (\<lambda>now i w. (nv_SyncStatus a now i, w))\<rparr>"

section \<open>The reconciler\<close>

definition opiFinalizer :: string where "opiFinalizer = ''dpu.opiproject.org/adapter-cleanup''"

record 'w AdapterReconciler =
  rec_Client :: "'w Client"
  rec_Registry :: "'w VendorRegistry"
  Recorder :: "'w EventRecorder option"

definition event :: "'w AdapterReconciler \<Rightarrow> OPIIntent \<Rightarrow> string \<Rightarrow> string \<Rightarrow> message \<Rightarrow> 'w \<Rightarrow> 'w" where
  "event r i eventType reason msg w =
     (case Recorder r of None \<Rightarrow> w | Some f \<Rightarrow> f (Name i) eventType reason msg w)"

definition ensureFinalizer :: "OPIIntent \<Rightarrow> OPIIntent" where
  "ensureFinalizer i =
     (if opiFinalizer \<in> set (Finalizers i) then i else i\<lparr>Finalizers := Finalizers i @ [opiFinalizer]\<rparr>)"

definition removeFinalizer :: "OPIIntent \<Rightarrow> OPIIntent" where
  "removeFinalizer i = i\<lparr>Finalizers := filter (\<lambda>f. f \<noteq> opiFinalizer) (Finalizers i)\<rparr>"

text \<open>
  \<open>reconcileDelete\<close> also returns the intent it leaves in memory; its caller drops it.  The errors of
  the deletions are discarded by the code.
\<close>

definition reconcileDelete ::
    "'w AdapterReconciler \<Rightarrow> OPIIntent \<Rightarrow> 'w VendorAdapter \<Rightarrow> 'w \<Rightarrow>
      (Result \<times> go_error option) \<times> OPIIntent \<times> 'w" where
  "reconcileDelete r i adapter w =
     (case Translate adapter i w of
        (objs, w1) \<Rightarrow>
          (let w2 = (case objs of
                       Inr os \<Rightarrow> fold (\<lambda>ob v. snd (client_Delete (rec_Client r) ob v)) os w1
                     | Inl _ \<Rightarrow> w1)
           in ((\<lparr>Requeue = False, RequeueAfter = 0\<rparr>, None), removeFinalizer i, w2)))"

definition Reconcile ::
    "'w AdapterReconciler \<Rightarrow> time \<Rightarrow> Request \<Rightarrow> 'w \<Rightarrow> (Result \<times> go_error option) \<times> 'w" where
  "Reconcile r now req w =
     (case client_Get (rec_Client r) req w of
        (Inl err, w1) \<Rightarrow> ((\<lparr>Requeue = False, RequeueAfter = 0\<rparr>, Some err), w1)
      | (Inr i, w1) \<Rightarrow>
          (case For (rec_Registry r) (Vendor (Spec i)) of
             Inl err \<Rightarrow>
               ((\<lparr>Requeue = False, RequeueAfter = 0\<rparr>, None),
                event r i ''Warning'' ''UnsupportedVendor'' (Sprintf ''%s'' [AErr err]) w1)
           | Inr adapter \<Rightarrow>
               if DeletionTimestamp i \<noteq> None
               then (case reconcileDelete r i adapter w1 of (res, _, w2) \<Rightarrow> (res, w2))
               else
                 (let i1 = ensureFinalizer i in
                  case Translate adapter i1 w1 of
                    (Inl err, w2) \<Rightarrow>
                      ((\<lparr>Requeue = False, RequeueAfter = 30 * second\<rparr>, None),
                       event r i1 ''Warning'' ''TranslationFailed'' (Sprintf ''%s'' [AErr err]) w2)
                  | (Inr objs, w2) \<Rightarrow>
                      (case each_until_err (client_Apply (rec_Client r)) objs w2 of
                         (Some (ob, err), w3) \<Rightarrow>
                           ((\<lparr>Requeue = False, RequeueAfter = 15 * second\<rparr>, None),
                            event r i1 ''Warning'' ''TranslationFailed''
                              (Sprintf ''apply %s/%s: %v'' [AStr (Kind ob), AStr (obj_Name ob), AErr err]) w3)
                       | (None, w3) \<Rightarrow>
                           (let w4 = event r i1 ''Normal'' ''TranslationSucceeded''
                                       (Sprintf ''applied %d DPF object(s)'' [AInt (int (length objs))]) w3
                            in case SyncStatus adapter now i1 w4 of
                                 (Inl err, w5) \<Rightarrow> ((\<lparr>Requeue = False, RequeueAfter = 10 * second\<rparr>, None), w5)
                               | (Inr status, w5) \<Rightarrow>
                                   (case PatchStatus (rec_Client r) (i1\<lparr>Status := status\<rparr>) w5 of
                                      (Some err, w6) \<Rightarrow> ((\<lparr>Requeue = False, RequeueAfter = 0\<rparr>, Some err), w6)
                                    | (None, w6) \<Rightarrow> ((\<lparr>Requeue = False, RequeueAfter = minute\<rparr>, None), w6)))))))"

section \<open>Properties\<close>

definition obj_key :: "VendorObject \<Rightarrow> string \<times> string \<times> string \<times> string" where
  "obj_key ob = (APIVersion ob, Kind ob, obj_Namespace ob, obj_Name ob)"

lemma For_register:
  "For (NewVendorRegistry (as @ [b])) v = (if adapter_Name b = v then Inr b else For (NewVendorRegistry as) v)"
  by (simp add: For_def NewVendorRegistry_def)

text \<open>
  The registry answers for a vendor with the last adapter that was registered under its name,
  and with an error that is recognised as \<open>ErrNoAdapter\<close> exactly when none was.
\<close>

theorem For_last_registered:
  "(case For (NewVendorRegistry as) v of
      Inr a \<Rightarrow> (\<exists>xs ys. as = xs @ a # ys \<and> adapter_Name a = v \<and> v \<notin> adapter_Name ` set ys)
    | Inl e \<Rightarrow> errors_Is e ErrNoAdapter \<and> v \<notin> adapter_Name ` set as)"
proof (induction as rule: rev_induct)
  case Nil
  show ?case by (simp add: For_def NewVendorRegistry_def)
next
  case (snoc b as)
  show ?case
  proof (cases "adapter_Name b = v")
    case True
    have "\<exists>xs ys. as @ [b] = xs @ b # ys \<and> adapter_Name b = v \<and> v \<notin> adapter_Name ` set ys"
      by (rule exI [of _ as], rule exI [of _ "[]"]) (simp add: True)
    then show ?thesis
      by (simp only: For_register True if_True sum.case simp_thms)
  next
    case False
    then show ?thesis
      using snoc by (fastforce simp: For_register split: sum.splits)
  qed
qed

lemma nv_Translate_keys:
  assumes "nv_Translate a i = Inr objs"
  shows "map obj_key objs =
     [(dpfProvisioningAPI, ''BFB'', dpfNamespace a, Name i @ ''-bfb''),
      (dpfProvisioningAPI, ''DPUFlavor'', dpfNamespace a, Name i @ ''-flavor''),
      (dpfProvisioningAPI, ''DPUSet'', dpfNamespace a, Name i @ ''-set'')] @
     (if ServiceChain (Spec i) = [] then []
      else [(dpfServiceAPI, ''DPUServiceChain'', dpfNamespace a, Name i @ ''-chain'')])"
proof -
  have url: "BFBURL (Spec i) \<noteq> ''''"
    using assms by (auto simp: nv_Translate_def)
  have "objs = projr (nv_Translate a i)"
    using assms by simp
  then show ?thesis
    using url by (simp add: nv_Translate_def obj_key_def Let_def)
qed

lemma nv_Translate_keys_set:
  assumes "nv_Translate a i = Inr objs"
  shows "obj_key ` set objs =
     {(dpfProvisioningAPI, ''BFB'', dpfNamespace a, Name i @ ''-bfb''),
      (dpfProvisioningAPI, ''DPUFlavor'', dpfNamespace a, Name i @ ''-flavor''),
      (dpfProvisioningAPI, ''DPUSet'', dpfNamespace a, Name i @ ''-set'')} \<union>
     (if ServiceChain (Spec i) = [] then {}
      else {(dpfServiceAPI, ''DPUServiceChain'', dpfNamespace a, Name i @ ''-chain'')})"
  using arg_cong [OF nv_Translate_keys [OF assms], of set] by (simp add: insert_commute)

text \<open>
  Two intents that both translate write to a common object exactly when they have the same
  name, whatever their namespaces: the namespace of an intent is in no name the adapter generates.
\<close>

theorem nv_Translate_collision:
  assumes "nv_Translate a i = Inr os" and "nv_Translate a j = Inr ps"
  shows "(obj_key ` set os \<inter> obj_key ` set ps \<noteq> {}) = (Name i = Name j)"
  unfolding nv_Translate_keys_set [OF assms(1)] nv_Translate_keys_set [OF assms(2)] by auto

definition intent_in :: "string \<Rightarrow> string list \<Rightarrow> time option \<Rightarrow> OPIIntent" where
  "intent_in ns fs del =
     \<lparr>Name = ''edge'', Namespace = ns, Finalizers = fs, DeletionTimestamp = del,
      Spec = \<lparr>Vendor = ''nvidia'', BFBURL = ''http://bfb'', Flavor = ''f'', NodeSelector = [], ServiceChain = []\<rparr>,
      Status = \<lparr>Conditions = [], Capabilities = no_capability, ObservedDPUs = 0\<rparr>\<rparr>"

theorem nv_Translate_collision_witness:
  "obj_key ` set (projr (nv_Translate (NewNvidiaAdapter ''dpf'') (intent_in ''a'' [] None))) \<inter>
   obj_key ` set (projr (nv_Translate (NewNvidiaAdapter ''dpf'') (intent_in ''b'' [] None))) \<noteq> {}"
proof -
  have t: "nv_Translate (NewNvidiaAdapter ''dpf'') (intent_in ns [] None) =
      Inr (projr (nv_Translate (NewNvidiaAdapter ''dpf'') (intent_in ns [] None)))" for ns
    by (simp add: nv_Translate_def intent_in_def Let_def)
  show ?thesis
    using nv_Translate_collision [OF t [of "''a''"] t [of "''b''"]] by (simp add: intent_in_def)
qed

lemma fold_deletes:
  assumes "\<And>ob v. snd (client_Delete c ob v) = insert (obj_key ob) v"
  shows "fold (\<lambda>ob v. snd (client_Delete c ob v)) os w = obj_key ` set os \<union> w"
  by (induction os arbitrary: w) (auto simp: assms)

text \<open>
  C15.  The teardown of a deleted intent asks for the deletion of exactly what the intent translates
  to now, and reports success whatever the deletions answered.  So it covers the objects an earlier
  version of the intent was translated to exactly when the firmware image is still set and the
  service chain was not dropped in between; otherwise it leaves objects behind.
\<close>

theorem teardown_covers:
  assumes get: "client_Get (rec_Client r) req {} = (Inr i, {})"
    and reg: "For (rec_Registry r) (Vendor (Spec i)) = Inr (nvidia_adapter a)"
    and del: "DeletionTimestamp i \<noteq> None"
    and log: "\<And>ob v. snd (client_Delete (rec_Client r) ob v) = insert (obj_key ob) v"
    and earlier: "nv_Translate a j = Inr os" "Name j = Name i"
  shows "fst (Reconcile r now req {}) = (\<lparr>Requeue = False, RequeueAfter = 0\<rparr>, None) \<and>
    (obj_key ` set os \<subseteq> snd (Reconcile r now req {})) =
      (BFBURL (Spec i) \<noteq> '''' \<and> (ServiceChain (Spec j) = [] \<or> ServiceChain (Spec i) \<noteq> []))"
proof -
  have rec: "Reconcile r now req {} = ((\<lparr>Requeue = False, RequeueAfter = 0\<rparr>, None),
      (case nv_Translate a i of Inr ps \<Rightarrow> obj_key ` set ps | Inl _ \<Rightarrow> {}))"
    using get reg del
    by (simp add: Reconcile_def reconcileDelete_def nvidia_adapter_def fold_deletes [OF log] split: sum.splits)
  show ?thesis
  proof (cases "nv_Translate a i")
    case (Inl e)
    then have "BFBURL (Spec i) = ''''"
      by (simp add: nv_Translate_def Let_def split: if_splits)
    moreover have "os \<noteq> []"
      using nv_Translate_keys [OF earlier(1)] by auto
    ultimately show ?thesis
      by (simp add: rec Inl)
  next
    case (Inr ps)
    then have "BFBURL (Spec i) \<noteq> ''''"
      by (auto simp: nv_Translate_def)
    then show ?thesis
      by (simp add: rec Inr nv_Translate_keys_set [OF earlier(1)] nv_Translate_keys_set [OF Inr] earlier(2))
  qed
qed

definition logging_reconciler :: "OPIIntent \<Rightarrow> (string \<times> string \<times> string \<times> string) set AdapterReconciler" where
  "logging_reconciler i =
     \<lparr>rec_Client = \<lparr>client_Get = (\<lambda>_ w. (Inr i, w)), client_Apply = (\<lambda>_ w. (None, w)),
        PatchStatus = (\<lambda>_ w. (None, w)),
        client_Delete = (\<lambda>ob w. (Some (External ''timeout''), insert (obj_key ob) w))\<rparr>,
      rec_Registry = NewVendorRegistry [nvidia_adapter (NewNvidiaAdapter ''dpf'')], Recorder = None\<rparr>"

definition chained_intent :: OPIIntent where
  "chained_intent = (intent_in ''a'' [] None)
     \<lparr>Spec := (Spec (intent_in ''a'' [] None))\<lparr>ServiceChain := [\<lparr>nf_Name = ''fw'', nf_Image = ''fw:1''\<rparr>]\<rparr>\<rparr>"

theorem teardown_covers_witness:
  "\<not> obj_key ` set (projr (nv_Translate (NewNvidiaAdapter ''dpf'') chained_intent))
     \<subseteq> snd (Reconcile (logging_reconciler (intent_in ''a'' [opiFinalizer] (Some 5))) 9
          \<lparr>req_Namespace = ''a'', req_Name = ''edge''\<rparr> {})"
proof -
  have t: "nv_Translate (NewNvidiaAdapter ''dpf'') chained_intent =
      Inr (projr (nv_Translate (NewNvidiaAdapter ''dpf'') chained_intent))"
    by (simp add: nv_Translate_def chained_intent_def intent_in_def Let_def)
  have reg: "For (rec_Registry (logging_reconciler i)) ''nvidia'' = Inr (nvidia_adapter (NewNvidiaAdapter ''dpf''))" for i
    by (simp add: logging_reconciler_def For_def NewVendorRegistry_def nvidia_adapter_def nv_Name_def)
  have i: "Vendor (Spec (intent_in ''a'' [opiFinalizer] (Some 5))) = ''nvidia''"
    by (simp add: intent_in_def)
  note teardown_covers [of "logging_reconciler (intent_in ''a'' [opiFinalizer] (Some 5))"
      "\<lparr>req_Namespace = ''a'', req_Name = ''edge''\<rparr>" "intent_in ''a'' [opiFinalizer] (Some 5)"
      "NewNvidiaAdapter ''dpf''" chained_intent, OF _ _ _ _ t, unfolded i, OF _ reg]
  then show ?thesis
    by (simp add: logging_reconciler_def intent_in_def chained_intent_def)
qed

lemma event_keeps:
  assumes "\<And>f n t re m v. Recorder r = Some f \<Longrightarrow> P (f n t re m v) = P v"
  shows "P (event r i t re m w) = P w"
  using assms by (auto simp: event_def split: option.splits)

lemma each_until_err_keeps:
  assumes "\<And>x v. P (snd (f x v)) = P v"
  shows "P (snd (each_until_err f xs w)) = P w"
proof -
  have "P (snd (each_until_err f xs w)) = P w" if "P w = b" for b
    using each_until_err_inv [of xs "\<lambda>v. P v = b" f w] assms that by simp
  then show ?thesis by simp
qed

text \<open>
  Whatever a pass does, the finalizers stored in the cluster stay as they were, for a client
  whose verbs change no stored finalizer: the finalizer added to a live intent, and its removal from
  a deleted one, happen in memory only, since the one write of an intent is to its status.
\<close>

theorem finalizers_never_written:
  fixes fin :: "'w \<Rightarrow> Request \<Rightarrow> string list"
  assumes get: "\<And>q v. fin (snd (client_Get (rec_Client r) q v)) = fin v"
    and app: "\<And>ob v. fin (snd (client_Apply (rec_Client r) ob v)) = fin v"
    and patch: "\<And>i v. fin (snd (PatchStatus (rec_Client r) i v)) = fin v"
    and del: "\<And>ob v. fin (snd (client_Delete (rec_Client r) ob v)) = fin v"
    and rec: "\<And>f n t re m v. Recorder r = Some f \<Longrightarrow> fin (f n t re m v) = fin v"
    and reg: "rec_Registry r = NewVendorRegistry [nvidia_adapter a]"
  shows "fin (snd (Reconcile r now req w)) = fin w"
proof -
  have ad: "adapter = nvidia_adapter a" if "For (rec_Registry r) v = Inr adapter" for v adapter
    using that by (auto simp: reg For_def NewVendorRegistry_def split: if_splits option.splits)
  have ev: "fin (event r i t re m v) = fin v" for i t re m v
    by (rule event_keeps) (rule rec)
  have ap: "fin (snd (each_until_err (client_Apply (rec_Client r)) xs v)) = fin v" for xs v
    by (rule each_until_err_keeps) (rule app)
  have ap': "fin v' = fin v" if "each_until_err (client_Apply (rec_Client r)) xs v = (x, v')" for xs v x v'
    using ap [of xs v] that by simp
  have patch': "fin v' = fin v" if "PatchStatus (rec_Client r) i v = (x, v')" for i v x v'
    using patch [of i v] that by simp
  have de: "fin (fold (\<lambda>ob v. snd (client_Delete (rec_Client r) ob v)) os v) = fin v" for os v
    by (induction os arbitrary: v) (simp_all add: del)
  obtain g w1 where g: "client_Get (rec_Client r) req w = (g, w1)"
    by (cases "client_Get (rec_Client r) req w")
  then have w1: "fin w1 = fin w"
    using get [of req w] by simp
  show ?thesis
  proof (cases g)
    case (Inl e)
    then show ?thesis by (simp add: Reconcile_def g w1)
  next
    case (Inr i)
    show ?thesis
    proof (cases "For (rec_Registry r) (Vendor (Spec i))")
      case (Inl e)
      then show ?thesis by (simp add: Reconcile_def g w1 Inr ev)
    next
      case adr: (Inr adapter)
      note A = ad [OF adr]
      show ?thesis
      proof (cases "DeletionTimestamp i")
        case None
        then show ?thesis
          by (auto simp: Reconcile_def g w1 Inr adr A nvidia_adapter_def Let_def ev dest!: ap' patch'
              split: prod.splits option.splits sum.splits)
      next
        case (Some t)
        then show ?thesis
          by (simp add: Reconcile_def g Inr adr A reconcileDelete_def nvidia_adapter_def w1 de split: sum.splits)
      qed
    qed
  qed
qed

text \<open>A cluster that stores one intent: its status is patched, its finalizers are what was stored.\<close>

definition one_intent :: "OPIIntent AdapterReconciler" where
  "one_intent =
     \<lparr>rec_Client = \<lparr>client_Get = (\<lambda>_ w. (Inr w, w)), client_Apply = (\<lambda>_ w. (None, w)),
        PatchStatus = (\<lambda>i w. (None, w\<lparr>Status := Status i\<rparr>)), client_Delete = (\<lambda>_ w. (None, w))\<rparr>,
      rec_Registry = NewVendorRegistry [nvidia_adapter (NewNvidiaAdapter ''dpf'')], Recorder = None\<rparr>"

theorem finalizers_never_written_witness:
  "Finalizers (snd (Reconcile one_intent 7 \<lparr>req_Namespace = ''a'', req_Name = ''edge''\<rparr> (intent_in ''a'' [] None))) = [] \<and>
   Finalizers (snd (Reconcile one_intent 7 \<lparr>req_Namespace = ''a'', req_Name = ''edge''\<rparr> (intent_in ''a'' [opiFinalizer] (Some 5)))) = [opiFinalizer]"
proof -
  have "Finalizers (snd (Reconcile one_intent 7 q w)) = Finalizers w" for q w
    using finalizers_never_written [of "\<lambda>w _. Finalizers w" one_intent "NewNvidiaAdapter ''dpf''" 7 q w]
    by (simp add: one_intent_def fun_eq_iff)
  then show ?thesis
    by (simp add: intent_in_def)
qed

end
