(* ===== verification/FleetModule.thy ===== *)
theory FleetModule
  imports Prelude
begin

text \<open>
  \<open>priyanshu-kumar/feature_skeleton.go\<close>: a BlueField detector, a cluster module that applies one
  fleet-wide set of provisioning objects, and a vendor plugin that applies the objects of a service
  function chain.
\<close>

section \<open>Types\<close>

type_synonym DpuIdentifier = string

record PCIDevice =
  Address :: string
  pci_Vendor :: string
  pci_Device :: string

definition dpfProvisioningAPI :: string where "dpfProvisioningAPI = ''provisioning.dpu.nvidia.com/v1alpha1''"
definition dpfServiceAPI :: string where "dpfServiceAPI = ''svc.dpu.nvidia.com/v1alpha1''"
definition ownerLabelKey :: string where "ownerLabelKey = ''opi.dpu/owned''"
definition ownerLabelValue :: string where "ownerLabelValue = ''true''"
definition nvidiaVendorID :: string where "nvidiaVendorID = ''15b3''"
definition nvidiaProductName :: string where "nvidiaProductName = ''NVIDIA BlueField''"

text \<open>The values the module stores in a \<open>map[string]any\<close>.\<close>

datatype any = AnyString string | AnyStrings "string gomap" | AnyMap "(string \<times> any) list" | AnyList "any list"

record dpfObject =
  APIVersion :: string
  Kind :: string
  obj_Name :: string
  Labels :: "string gomap"
  obj_Spec :: "any gomap"

definition newDPFObject :: "string \<Rightarrow> string \<Rightarrow> string \<Rightarrow> any gomap \<Rightarrow> dpfObject" where
  "newDPFObject apiVersion kind name spec =
     \<lparr>APIVersion = apiVersion, Kind = kind, obj_Name = name, Labels = [(ownerLabelKey, ownerLabelValue)],
      obj_Spec = spec\<rparr>"

type_synonym 'w Applier = "dpfObject \<Rightarrow> 'w \<Rightarrow> go_error option \<times> 'w"

section \<open>Detector\<close>

text \<open>
  \<open>strings.EqualFold\<close> against an ASCII text without the letters k and s, the two that fold to code
  points outside ASCII: then only the case of ASCII letters is ignored.
\<close>

definition ascii_lower :: "char \<Rightarrow> char" where
  "ascii_lower c = (if CHR ''A'' \<le> c \<and> c \<le> CHR ''Z'' then char_of (of_char c + 32 :: nat) else c)"

definition EqualFold :: "string \<Rightarrow> string \<Rightarrow> bool" where
  "EqualFold s t = (map ascii_lower s = map ascii_lower t)"

definition isBlueFieldDeviceID :: "string \<Rightarrow> bool" where
  "isBlueFieldDeviceID device = (to_lower device = ''a2dc'' \<or> to_lower device = ''a2d6'')"

definition detector_Name :: string where "detector_Name = nvidiaProductName"
definition GetVendorName :: string where "GetVendorName = ''NVIDIA''"
definition DpuPlatformName :: string where "DpuPlatformName = ''nvidia-bluefield''"

definition IsDPU :: "PCIDevice \<Rightarrow> DpuIdentifier list \<Rightarrow> bool \<times> go_error option" where
  "IsDPU pci seen = (EqualFold (pci_Vendor pci) nvidiaVendorID \<and> isBlueFieldDeviceID (pci_Device pci), None)"

definition IsDpuPlatform :: "bool \<times> go_error option" where "IsDpuPlatform = (False, None)"

text \<open>The replacer of the code maps single bytes to single bytes.\<close>

definition GetDpuIdentifier :: "PCIDevice option \<Rightarrow> go_error + DpuIdentifier" where
  "GetDpuIdentifier pci =
     (case pci of
        None \<Rightarrow> Inl (Errorf ''nil PCI device'' [])
      | Some d \<Rightarrow>
          (let safe = map (\<lambda>c. if c = CHR '':'' \<or> c = CHR ''.'' then CHR ''-'' else c) (Address d)
           in Inr (''nvidia-bluefield-'' @ safe)))"

section \<open>Cluster module\<close>

record ProvisioningInput =
  BFBURL :: string
  Flavor :: string
  NodeSelector :: "string gomap"

definition module_translate :: "ProvisioningInput \<Rightarrow> dpfObject list" where
  "module_translate inp =
     (let bfb = newDPFObject dpfProvisioningAPI ''BFB'' ''opi-bfb'' [(''url'', AnyString (BFBURL inp))];
          flavor = newDPFObject dpfProvisioningAPI ''DPUFlavor'' (Flavor inp) [];
          dpuSet = newDPFObject dpfProvisioningAPI ''DPUSet'' ''opi-dpuset''
            [(''dpuNodeSelector'', AnyStrings (NodeSelector inp)),
             (''dpuTemplate'', AnyMap
                [(''spec'', AnyMap
                    [(''bfb'', AnyMap [(''name'', AnyString (obj_Name bfb))]),
                     (''dpuFlavor'', AnyString (Flavor inp))])])]
      in [bfb, flavor, dpuSet])"

definition module_Reconcile :: "'w Applier \<Rightarrow> ProvisioningInput \<Rightarrow> 'w \<Rightarrow> go_error option \<times> 'w" where
  "module_Reconcile apply_object inp w =
     (case each_until_err apply_object (module_translate inp) w of
        (Some (obj, err), w1) \<Rightarrow>
          (Some (Errorf ''apply %s/%s: %w'' [AStr (Kind obj), AStr (obj_Name obj), AWrap err]), w1)
      | (None, w1) \<Rightarrow> (None, w1))"

definition FoldPhase :: "string \<Rightarrow> string \<times> string" where
  "FoldPhase dpuPhase =
     (let p = to_lower dpuPhase in
      if p = ''ready'' then (''True'', ''Provisioned'')
      else if p = ''error'' \<or> p = ''failed'' then (''False'', ''Error'')
      else (''False'', ''Provisioning''))"

section \<open>Vendor plugin\<close>

record NetworkFunction =
  nf_Name :: string
  nf_Image :: string

record ServiceFunctionChain =
  sfc_Name :: string
  sfc_NodeName :: string
  NetworkFunctions :: "NetworkFunction list"

definition WrapperChart :: string where "WrapperChart = ''oci://registry.example.com/opi/nf-wrapper''"

text \<open>The plugin's applier is an argument of its operations; what remains is the identifier.\<close>

record NvidiaVSP =
  dpuIdentifier :: DpuIdentifier

definition NewNvidiaVSP :: "DpuIdentifier \<Rightarrow> NvidiaVSP" where "NewNvidiaVSP ident = \<lparr>dpuIdentifier = ident\<rparr>"

definition Start :: "NvidiaVSP \<Rightarrow> string \<times> int32 \<times> go_error option" where
  "Start v = (''127.0.0.1'', 50051, None)"

definition CreateBridgePort :: "NvidiaVSP \<Rightarrow> string \<Rightarrow> string \<Rightarrow> go_error option" where
  "CreateBridgePort v portName mac = None"
definition DeleteBridgePort :: "NvidiaVSP \<Rightarrow> string \<Rightarrow> go_error option" where
  "DeleteBridgePort v portName = None"
definition CreateNetworkFunction :: "NvidiaVSP \<Rightarrow> string \<Rightarrow> string \<Rightarrow> go_error option" where
  "CreateNetworkFunction v inp out = None"
definition DeleteNetworkFunction :: "NvidiaVSP \<Rightarrow> string \<Rightarrow> string \<Rightarrow> go_error option" where
  "DeleteNetworkFunction v inp out = None"

definition nf_objects :: "ServiceFunctionChain \<Rightarrow> NetworkFunction \<Rightarrow> dpfObject list" where
  "nf_objects sfc nf =
     (let iface = newDPFObject dpfServiceAPI ''DPUServiceInterface'' (''opi-'' @ nf_Name nf)
            [(''node'', AnyString (sfc_NodeName sfc))];
          svc = newDPFObject dpfServiceAPI ''DPUService'' (''opi-'' @ nf_Name nf)
            [(''helmChart'', AnyMap
                [(''source'', AnyString WrapperChart),
                 (''values'', AnyMap [(''image'', AnyString (nf_Image nf))])]),
             (''interfaces'', AnyList [AnyString (obj_Name iface)])]
      in [iface, svc])"

definition vsp_translate :: "NvidiaVSP \<Rightarrow> ServiceFunctionChain \<Rightarrow> dpfObject list" where
  "vsp_translate v sfc =
     (let objs = concat (map (nf_objects sfc) (NetworkFunctions sfc));
          chain = newDPFObject dpfServiceAPI ''DPUServiceChain'' (''opi-'' @ sfc_Name sfc)
            [(''node'', AnyString (sfc_NodeName sfc))]
      in map (\<lambda>ob. ob\<lparr>Labels := AList.update ''opi.dpu/identifier'' (dpuIdentifier v) (Labels ob)\<rparr>)
           (objs @ [chain]))"

definition OnServiceFunctionChain ::
    "'w Applier \<Rightarrow> NvidiaVSP \<Rightarrow> ServiceFunctionChain \<Rightarrow> 'w \<Rightarrow> go_error option \<times> 'w" where
  "OnServiceFunctionChain apply_object v sfc w =
     (case each_until_err apply_object (vsp_translate v sfc) w of
        (Some (obj, err), w1) \<Rightarrow>
          (Some (Errorf ''apply %s/%s: %w'' [AStr (Kind obj), AStr (obj_Name obj), AWrap err]), w1)
      | (None, w1) \<Rightarrow> (None, w1))"

section \<open>Properties\<close>

definition pci_address :: "string \<Rightarrow> bool" where
  "pci_address a =
     (length a = 12 \<and> a ! 4 = CHR '':'' \<and> a ! 7 = CHR '':'' \<and> a ! 10 = CHR ''.'' \<and>
      (\<forall>i<12. i \<notin> {4, 7, 10} \<longrightarrow> a ! i \<notin> {CHR '':'', CHR ''.''}))"

text \<open>
  No two devices with full PCI addresses get the same identifier: the
  replaced separators stand at fixed places of \<open>dddd:bb:ss.f\<close>.
\<close>

theorem GetDpuIdentifier_injective:
  assumes "pci_address (Address d)" and "pci_address (Address e)"
  shows "(GetDpuIdentifier (Some d) = GetDpuIdentifier (Some e)) = (Address d = Address e)"
proof
  define f where "f = (\<lambda>c. if c = CHR '':'' \<or> c = CHR ''.'' then CHR ''-'' else c)"
  assume "GetDpuIdentifier (Some d) = GetDpuIdentifier (Some e)"
  then have eq: "map f (Address d) = map f (Address e)"
    by (simp add: GetDpuIdentifier_def f_def)
  show "Address d = Address e"
  proof (rule nth_equalityI)
    show "length (Address d) = length (Address e)"
      using eq by (rule map_eq_imp_length_eq)
  next
    fix i
    assume i: "i < length (Address d)"
    then have fi: "f (Address d ! i) = f (Address e ! i)"
      using eq map_eq_imp_length_eq [OF eq] by (metis nth_map)
    show "Address d ! i = Address e ! i"
    proof (cases "i \<in> {4, 7, 10}")
      case True
      then show ?thesis using assms by (auto simp: pci_address_def)
    next
      case False
      then have "Address d ! i \<notin> {CHR '':'', CHR ''.''}" "Address e ! i \<notin> {CHR '':'', CHR ''.''}"
        using assms i by (auto simp: pci_address_def)
      then show ?thesis using fi by (simp add: f_def)
    qed
  qed
qed (simp add: GetDpuIdentifier_def)

definition pci_at :: "string \<Rightarrow> PCIDevice" where
  "pci_at a = \<lparr>Address = a, pci_Vendor = ''15B3'', pci_Device = ''A2DC''\<rparr>"

theorem GetDpuIdentifier_injective_witness:
  "GetDpuIdentifier (Some (pci_at ''0000:03:00.0'')) \<noteq> GetDpuIdentifier (Some (pci_at ''0000:03:00.1''))"
proof -
  have "pci_address ''0000:03:00.0''" and "pci_address ''0000:03:00.1''"
    by (auto simp: pci_address_def less_Suc_eq numeral_eq_Suc)
  then show ?thesis
    using GetDpuIdentifier_injective [of "pci_at ''0000:03:00.0''" "pci_at ''0000:03:00.1''"]
    by (simp add: pci_at_def)
qed

definition obj_key :: "dpfObject \<Rightarrow> string \<times> string \<times> string" where
  "obj_key ob = (APIVersion ob, Kind ob, obj_Name ob)"

lemma obj_key_label [simp]: "obj_key (ob\<lparr>Labels := l\<rparr>) = obj_key ob"
  by (simp add: obj_key_def)

lemma obj_key_new [simp]: "obj_key (newDPFObject a k n s) = (a, k, n)"
  by (simp add: obj_key_def newDPFObject_def)

lemma vsp_translate_keys:
  "obj_key ` set (vsp_translate v sfc) =
     (\<Union>nf \<in> set (NetworkFunctions sfc).
        {(dpfServiceAPI, ''DPUServiceInterface'', ''opi-'' @ nf_Name nf),
         (dpfServiceAPI, ''DPUService'', ''opi-'' @ nf_Name nf)}) \<union>
     {(dpfServiceAPI, ''DPUServiceChain'', ''opi-'' @ sfc_Name sfc)}"
  by (simp add: vsp_translate_def Let_def image_image nf_objects_def image_UN Un_commute)

text \<open>
  Two service function chains write to a common object exactly when they have the same name or
  share the name of a network function, on whichever node each of them is and whatever images they
  run: the later one takes the object over.
\<close>

theorem vsp_translate_collision:
  "(obj_key ` set (vsp_translate v s) \<inter> obj_key ` set (vsp_translate u t) \<noteq> {}) =
     (sfc_Name s = sfc_Name t \<or> nf_Name ` set (NetworkFunctions s) \<inter> nf_Name ` set (NetworkFunctions t) \<noteq> {})"
  unfolding vsp_translate_keys by fastforce

text \<open>Every object a chain produces carries the ownership label and the identifier of its card.\<close>

lemma vsp_translate_labels:
  assumes "ob \<in> set (vsp_translate v sfc)"
  shows "map_of (Labels ob) ownerLabelKey = Some ownerLabelValue \<and>
    map_of (Labels ob) ''opi.dpu/identifier'' = Some (dpuIdentifier v)"
  using assms by (auto simp: vsp_translate_def Let_def nf_objects_def newDPFObject_def ownerLabelKey_def)

subsection \<open>Half-failed runs\<close>

text \<open>
  An applier of a cluster keyed by object: a successful apply stores the object, a failed one
  leaves the cluster as it was.  Which call fails may depend on the cluster and on \<open>'v\<close>, anything
  else the applier sees.
\<close>

type_synonym cluster = "string \<times> string \<times> string \<Rightarrow> dpfObject option"

definition upserts :: "(cluster \<times> 'v) Applier \<Rightarrow> bool" where
  "upserts f =
     (\<forall>ob m v. fst (snd (f ob (m, v))) = (if fst (f ob (m, v)) = None then m(obj_key ob \<mapsto> ob) else m))"

primrec upsert_all :: "dpfObject list \<Rightarrow> cluster \<Rightarrow> cluster" where
  "upsert_all [] m = m"
| "upsert_all (ob # obs) m = upsert_all obs (m(obj_key ob \<mapsto> ob))"

lemma upsert_all_append [simp]: "upsert_all (xs @ ys) m = upsert_all ys (upsert_all xs m)"
  by (induction xs arbitrary: m) simp_all

lemma upsert_all_lookup:
  "upsert_all obs m k = (case find (\<lambda>ob. obj_key ob = k) (rev obs) of None \<Rightarrow> m k | Some ob \<Rightarrow> Some ob)"
proof (induction obs rule: rev_induct)
  case (snoc ob obs)
  then show ?case by (cases "obj_key ob = k") simp_all
qed simp

lemma upsert_all_absorbs_prefix: "upsert_all (xs @ ys) (upsert_all xs m) = upsert_all (xs @ ys) m"
proof
  fix k
  show "upsert_all (xs @ ys) (upsert_all xs m) k = upsert_all (xs @ ys) m k"
  proof (cases "find (\<lambda>ob. obj_key ob = k) (rev (xs @ ys))")
    case None
    then have n: "find (\<lambda>ob. obj_key ob = k) (rev xs) = None"
      by (auto simp: find_None_iff)
    then show ?thesis
      unfolding upsert_all_lookup [of "xs @ ys"] None using upsert_all_lookup [of xs m k] n by simp
  next
    case (Some ob)
    show ?thesis unfolding upsert_all_lookup [of "xs @ ys"] Some by simp
  qed
qed

lemma upserts_each:
  assumes "upserts f" and "each_until_err f obs (m, v) = (r, (m', v'))"
  shows "\<exists>xs ys. obs = xs @ ys \<and> m' = upsert_all xs m \<and> (r = None \<longrightarrow> ys = [])"
  using assms(2)
proof (induction obs arbitrary: m v)
  case (Cons ob obs)
  obtain e m1 v1 where f: "f ob (m, v) = (e, (m1, v1))" by (metis prod.collapse)
  have m1: "m1 = (if e = None then m(obj_key ob \<mapsto> ob) else m)"
    using assms(1) f unfolding upserts_def by (metis fst_conv snd_conv)
  show ?case
  proof (cases e)
    case None
    have "each_until_err f obs (m1, v1) = (r, (m', v'))"
      using Cons.prems f None by simp
    then obtain xs ys where "obs = xs @ ys \<and> m' = upsert_all xs m1 \<and> (r = None \<longrightarrow> ys = [])"
      using Cons.IH by blast
    then show ?thesis
      using None m1 by (intro exI [of _ "ob # xs"] exI [of _ ys]) simp
  next
    case (Some x)
    then show ?thesis
      using Cons.prems f m1 by (intro exI [of _ "[]"] exI [of _ "ob # obs"]) auto
  qed
qed simp

text \<open>
  A run that failed half-way is repeated cleanly: when a later run of the same chain succeeds,
  the cluster is what a single successful run would have made of the original one.
\<close>

theorem OnServiceFunctionChain_rerun:
  assumes up: "upserts f"
    and first: "OnServiceFunctionChain f v sfc (m, x) = (e, (m1, x1))"
    and second: "OnServiceFunctionChain f v sfc (m1, y) = (None, (m2, y2))"
  shows "m2 = upsert_all (vsp_translate v sfc) m"
proof -
  obtain r where r: "each_until_err f (vsp_translate v sfc) (m, x) = (r, (m1, x1))"
    using first by (auto simp: OnServiceFunctionChain_def split: prod.splits option.splits)
  obtain xs ys where 1: "vsp_translate v sfc = xs @ ys" "m1 = upsert_all xs m"
    using upserts_each [OF up r] by blast
  have "each_until_err f (vsp_translate v sfc) (m1, y) = (None, (m2, y2))"
    using second by (auto simp: OnServiceFunctionChain_def split: prod.splits option.splits)
  from upserts_each [OF up this] have "m2 = upsert_all (vsp_translate v sfc) m1"
    by auto
  then show ?thesis
    by (simp only: 1 upsert_all_absorbs_prefix)
qed

text \<open>A cluster that refuses a kind the first time it is asked for it.\<close>

definition refuse_once :: "string \<Rightarrow> (cluster \<times> bool) Applier" where
  "refuse_once k ob c =
     (if Kind ob = k \<and> snd c then (Some (External ''conflict''), (fst c, False))
      else (None, ((fst c)(obj_key ob \<mapsto> ob), snd c)))"

definition one_nf_chain :: ServiceFunctionChain where
  "one_nf_chain = \<lparr>sfc_Name = ''chain-a'', sfc_NodeName = ''worker-1'',
     NetworkFunctions = [\<lparr>nf_Name = ''firewall'', nf_Image = ''fw:1''\<rparr>]\<rparr>"

theorem OnServiceFunctionChain_rerun_witness:
  "fst (OnServiceFunctionChain (refuse_once ''DPUService'') (NewNvidiaVSP ''id'') one_nf_chain (Map.empty, True)) \<noteq> None \<and>
   fst (snd (OnServiceFunctionChain (refuse_once ''DPUService'') (NewNvidiaVSP ''id'') one_nf_chain
     (snd (OnServiceFunctionChain (refuse_once ''DPUService'') (NewNvidiaVSP ''id'') one_nf_chain (Map.empty, True)))))
     = upsert_all (vsp_translate (NewNvidiaVSP ''id'') one_nf_chain) Map.empty"
proof -
  let ?f = "refuse_once ''DPUService''" and ?v = "NewNvidiaVSP ''id''"
  have up: "upserts ?f"
    by (simp add: upserts_def refuse_once_def)
  obtain e m1 x1 where 1: "OnServiceFunctionChain ?f ?v one_nf_chain (Map.empty, True) = (e, (m1, x1))"
    by (metis prod.collapse)
  have e: "e \<noteq> None" and x1: "\<not> x1"
    using 1 by (auto simp: OnServiceFunctionChain_def vsp_translate_def one_nf_chain_def nf_objects_def Let_def
        refuse_once_def newDPFObject_def)
  obtain r m2 y2 where 2: "OnServiceFunctionChain ?f ?v one_nf_chain (m1, x1) = (r, (m2, y2))"
    by (metis prod.collapse)
  have "r = None"
    using 2 x1 by (auto simp: OnServiceFunctionChain_def vsp_translate_def one_nf_chain_def nf_objects_def Let_def
        refuse_once_def newDPFObject_def)
  with OnServiceFunctionChain_rerun [OF up 1] 2
  have "m2 = upsert_all (vsp_translate ?v one_nf_chain) Map.empty" by blast
  then show ?thesis
    by (simp add: 1 2 e)
qed

end
