(* ===== verification/Bootstrap.thy ===== *)
theory Bootstrap
  imports Prelude
begin

text \<open>
  \<open>siddharthan-tv/feature_skeleton.go\<close>: the controller that hands one node over to DPF and labels it
  once DPF reports it ready, and the vendor plugin server with the bodies it has.
\<close>

section \<open>Phases and timeouts\<close>

type_synonym DPUPhase = string

definition DPUInitializing :: DPUPhase where "DPUInitializing = ''Initializing''"
definition DPUPending :: DPUPhase where "DPUPending = ''Pending''"
definition DPUPrepareBFB :: DPUPhase where "DPUPrepareBFB = ''Prepare BFB''"
definition DPUUpdateFirmware :: DPUPhase where "DPUUpdateFirmware = ''Update Firmware''"
definition DPUConfig :: DPUPhase where "DPUConfig = ''DPU Config''"
definition DPUConfigFWParameters :: DPUPhase where "DPUConfigFWParameters = ''Config FW Parameters''"
definition DPUInitializeInterface :: DPUPhase where "DPUInitializeInterface = ''Initialize Interface''"
definition DPUOSInstalling :: DPUPhase where "DPUOSInstalling = ''OS Installing''"
definition DPUClusterConfig :: DPUPhase where "DPUClusterConfig = ''DPU Cluster Config''"
definition DPUHostNetworkConfig :: DPUPhase where "DPUHostNetworkConfig = ''Host Network Configuration''"
definition DPUNodeEffect :: DPUPhase where "DPUNodeEffect = ''Node Effect''"
definition DPUNodeEffectRemoval :: DPUPhase where "DPUNodeEffectRemoval = ''Node Effect Removal''"
definition DPUPerformArmForceRestart :: DPUPhase where "DPUPerformArmForceRestart = ''Perform ARM Force Restart''"
definition DPURebooting :: DPUPhase where "DPURebooting = ''Rebooting''"
definition DPUReady :: DPUPhase where "DPUReady = ''Ready''"
definition DPUError :: DPUPhase where "DPUError = ''Error''"

lemmas boot_phase_defs = DPUInitializing_def DPUPending_def DPUPrepareBFB_def DPUUpdateFirmware_def DPUConfig_def
  DPUConfigFWParameters_def DPUInitializeInterface_def DPUOSInstalling_def DPUClusterConfig_def
  DPUHostNetworkConfig_def DPUNodeEffect_def DPUNodeEffectRemoval_def DPUPerformArmForceRestart_def
  DPURebooting_def DPUReady_def DPUError_def

definition DPFDefaultOSInstallTimeout :: duration where "DPFDefaultOSInstallTimeout = 60 * minute"
definition DPFDefaultFirmwareUpdateTimeout :: duration where "DPFDefaultFirmwareUpdateTimeout = 45 * minute"
definition DPFSecureBootVerificationTimeout :: duration where "DPFSecureBootVerificationTimeout = 4 * minute"
definition DPFStaleTrackerTimeout :: duration where "DPFStaleTrackerTimeout = 20 * minute"

section \<open>Objects and interfaces\<close>

record DPUCluster =
  cl_Name :: string
  cl_Namespace :: string
  cl_Type :: string
  MaxNodes :: int
  Kubeconfig :: string

record BFB =
  bfb_Name :: string
  bfb_Namespace :: string
  FileName :: string
  URL :: string

record DPUFlavor =
  fl_Name :: string
  fl_Namespace :: string
  OVSRawConfigScript :: string

record DPUSet =
  set_Name :: string
  set_Namespace :: string
  FlavorRef :: string
  ClusterRef :: string
  NodeSelector :: "string gomap"

record DPFStatus =
  Phase :: DPUPhase

record 'w DPFClient =
  EnsureDPUCluster :: "DPUCluster \<Rightarrow> 'w \<Rightarrow> go_error option \<times> 'w"
  EnsureBFB :: "BFB \<Rightarrow> 'w \<Rightarrow> go_error option \<times> 'w"
  EnsureDPUFlavor :: "DPUFlavor \<Rightarrow> 'w \<Rightarrow> go_error option \<times> 'w"
  EnsureDPUSet :: "DPUSet \<Rightarrow> 'w \<Rightarrow> go_error option \<times> 'w"
  GetStatus :: "string \<Rightarrow> string \<Rightarrow> 'w \<Rightarrow> (go_error + DPFStatus) \<times> 'w"

type_synonym 'w NodeLabeler = "string \<Rightarrow> string gomap \<Rightarrow> 'w \<Rightarrow> go_error option \<times> 'w"

record 'w BootstrapController =
  DPF :: "'w DPFClient"
  LabelDPUNode :: "'w NodeLabeler"

section \<open>The controller\<close>

definition desired_cluster :: "string \<Rightarrow> DPUCluster" where
  "desired_cluster cfg =
     \<lparr>cl_Name = cfg @ ''-dpu-cluster'', cl_Namespace = ''dpf-operator-system'', cl_Type = ''kamaji'',
      MaxNodes = 1000, Kubeconfig = ''''\<rparr>"

definition desired_flavor :: "string \<Rightarrow> DPUFlavor" where
  "desired_flavor cfg =
     \<lparr>fl_Name = cfg @ ''-flavor'', fl_Namespace = ''dpf-operator-system'',
      OVSRawConfigScript = ''# TODO: real OVS-DOCA bootstrap script, deployment-specific''\<rparr>"

definition desired_bfb :: "string \<Rightarrow> string \<Rightarrow> BFB" where
  "desired_bfb cfg url =
     \<lparr>bfb_Name = cfg @ ''-bfb'', bfb_Namespace = ''dpf-operator-system'', FileName = '''', URL = url\<rparr>"

definition desired_set :: "string \<Rightarrow> string \<Rightarrow> DPUSet" where
  "desired_set cfg node =
     \<lparr>set_Name = cfg @ ''-dpuset'', set_Namespace = ''dpf-operator-system'', FlavorRef = cfg @ ''-flavor'',
      ClusterRef = cfg @ ''-dpu-cluster'', NodeSelector = [(''kubernetes.io/hostname'', node)]\<rparr>"

text \<open>The \<open>switch\<close> on the phase.\<close>

definition on_phase ::
    "'w BootstrapController \<Rightarrow> string \<Rightarrow> string \<Rightarrow> DPUPhase \<Rightarrow> 'w \<Rightarrow> (duration \<times> go_error option) \<times> 'w" where
  "on_phase b setName nodeName phase w =
     (if phase = DPUReady then
        (case LabelDPUNode b nodeName [(''dpu'', ''true''), (''dpu.openshift.io/vendor'', ''nvidia'')] w of
           (Some err, w1) \<Rightarrow> ((0, Some (Errorf ''labelling node after DPF Ready: %w'' [AWrap err])), w1)
         | (None, w1) \<Rightarrow> ((0, None), w1))
      else if phase = DPUOSInstalling \<or> phase = DPUUpdateFirmware then ((2 * minute, None), w)
      else if phase = DPUError then
        ((0, Some (Errorf ''DPF reported phase Error for DPUSet %s'' [AStr setName])), w)
      else ((20 * second, None), w))"

definition Reconcile ::
    "'w BootstrapController \<Rightarrow> string \<Rightarrow> string \<Rightarrow> string \<Rightarrow> 'w \<Rightarrow> (duration \<times> go_error option) \<times> 'w" where
  "Reconcile b cfgName nodeName bfbURL w =
     (case EnsureDPUCluster (DPF b) (desired_cluster cfgName) w of
        (Some err, w1) \<Rightarrow> ((0, Some (Errorf ''creating DPUCluster: %w'' [AWrap err])), w1)
      | (None, w1) \<Rightarrow>
     (case EnsureDPUFlavor (DPF b) (desired_flavor cfgName) w1 of
        (Some err, w2) \<Rightarrow> ((0, Some (Errorf ''creating DPUFlavor: %w'' [AWrap err])), w2)
      | (None, w2) \<Rightarrow>
     (case EnsureBFB (DPF b) (desired_bfb cfgName bfbURL) w2 of
        (Some err, w3) \<Rightarrow> ((0, Some (Errorf ''creating BFB: %w'' [AWrap err])), w3)
      | (None, w3) \<Rightarrow>
     (case EnsureDPUSet (DPF b) (desired_set cfgName nodeName) w3 of
        (Some err, w4) \<Rightarrow> ((0, Some (Errorf ''creating DPUSet: %w'' [AWrap err])), w4)
      | (None, w4) \<Rightarrow>
     (case GetStatus (DPF b) (set_Name (desired_set cfgName nodeName)) ''dpf-operator-system'' w4 of
        (Inl err, w5) \<Rightarrow> ((15 * second, Some err), w5)
      | (Inr status, w5) \<Rightarrow>
          on_phase b (set_Name (desired_set cfgName nodeName)) nodeName (Phase status) w5)))))"

section \<open>The vendor plugin server\<close>

record InitRequest =
  DpuMode :: bool
  DpuIdentifier :: string

record IpPort =
  Ip :: string
  Port :: int32

record Device =
  dev_ID :: string
  Health :: string
  Topology_Node :: string

type_synonym DeviceListResponse = "Device gomap"

record NFRequest =
  Input :: string
  Output :: string
  BridgeID :: string

type_synonym BridgePortType = int

definition BridgePortUnknown :: BridgePortType where "BridgePortUnknown = 0"
definition BridgePortAccess :: BridgePortType where "BridgePortAccess = 1"
definition BridgePortTrunk :: BridgePortType where "BridgePortTrunk = 2"

record BridgePortSpec =
  MacAddress :: "8 word list"
  Ptype :: BridgePortType
  LogicalBridges :: "string list"

record BridgePort =
  port_Name :: string
  port_Spec :: BridgePortSpec
  Status_Ready :: bool

definition doca_SetNumVfs :: "string \<Rightarrow> int32 \<Rightarrow> go_error option" where
  "doca_SetNumVfs pciAddress n = None"
definition doca_CreateBridgePort :: "BridgePortSpec \<Rightarrow> string \<times> go_error option" where
  "doca_CreateBridgePort spec = ('''', None)"
definition doca_DeleteBridgePort :: "string \<Rightarrow> go_error option" where
  "doca_DeleteBridgePort name = None"
definition doca_WireNetworkFunction :: "string \<Rightarrow> string \<Rightarrow> string \<Rightarrow> go_error option" where
  "doca_WireNetworkFunction inp out bridgeID = None"

record NvidiaVSPServer =
  dpuIdentifier :: string

definition vsp_Init :: "NvidiaVSPServer \<Rightarrow> InitRequest \<Rightarrow> (IpPort \<times> go_error option) \<times> NvidiaVSPServer" where
  "vsp_Init s req = ((\<lparr>Ip = ''127.0.0.1'', Port = 50051\<rparr>, None), s\<lparr>dpuIdentifier := DpuIdentifier req\<rparr>)"

definition vsp_GetDevices :: "NvidiaVSPServer \<Rightarrow> DeviceListResponse \<times> go_error option" where
  "vsp_GetDevices s = ([], None)"

definition vsp_SetNumVfs :: "NvidiaVSPServer \<Rightarrow> int32 \<Rightarrow> int32 \<times> go_error option" where
  "vsp_SetNumVfs s vfCount =
     (case doca_SetNumVfs '''' vfCount of
        Some err \<Rightarrow> (0, Some (Errorf ''nvidia vsp: SetNumVfs(%d): %w'' [AInt (sint vfCount), AWrap err]))
      | None \<Rightarrow> (vfCount, None))"

definition vsp_CreateNetworkFunction :: "NvidiaVSPServer \<Rightarrow> NFRequest \<Rightarrow> go_error option" where
  "vsp_CreateNetworkFunction s req =
     (case doca_WireNetworkFunction (Input req) (Output req) (BridgeID req) of
        Some err \<Rightarrow>
          Some (Errorf ''nvidia vsp: CreateNetworkFunction(bridge_id=%s): %w'' [AStr (BridgeID req), AWrap err])
      | None \<Rightarrow> None)"

definition vsp_DeleteNetworkFunction :: "NvidiaVSPServer \<Rightarrow> NFRequest \<Rightarrow> go_error option" where
  "vsp_DeleteNetworkFunction s req = None"

definition vsp_SetDpuNetworkConfig :: "NvidiaVSPServer \<Rightarrow> bool \<Rightarrow> go_error option" where
  "vsp_SetDpuNetworkConfig s isAccelerated = None"

definition vsp_CreateBridgePort ::
    "NvidiaVSPServer \<Rightarrow> string \<Rightarrow> BridgePortSpec \<Rightarrow> go_error + BridgePort" where
  "vsp_CreateBridgePort s bridgePortID spec =
     (case doca_CreateBridgePort spec of
        (name, Some err) \<Rightarrow> Inl (Errorf ''nvidia vsp: CreateBridgePort(%s): %w'' [AStr bridgePortID, AWrap err])
      | (name, None) \<Rightarrow> Inr \<lparr>port_Name = name, port_Spec = spec, Status_Ready = False\<rparr>)"

definition vsp_DeleteBridgePort :: "NvidiaVSPServer \<Rightarrow> string \<Rightarrow> bool \<Rightarrow> go_error option" where
  "vsp_DeleteBridgePort s name allowMissing =
     (case doca_DeleteBridgePort name of
        Some err \<Rightarrow> if \<not> allowMissing
          then Some (Errorf ''nvidia vsp: DeleteBridgePort(%s): %w'' [AStr name, AWrap err]) else None
      | None \<Rightarrow> None)"

section \<open>Properties\<close>

text \<open>
  What the API server keeps of the two interfaces: objects under namespace and name, and the labels
  of the nodes.  A call that succeeds has stored its argument and a call that fails has stored
  nothing; which calls fail, and which phase is reported, depends on anything else, of type \<open>'v\<close>.
\<close>

record dpf_state =
  clusters :: "string \<times> string \<Rightarrow> DPUCluster option"
  flavors :: "string \<times> string \<Rightarrow> DPUFlavor option"
  bfbs :: "string \<times> string \<Rightarrow> BFB option"
  sets :: "string \<times> string \<Rightarrow> DPUSet option"
  labels :: "string \<Rightarrow> string gomap option"

definition no_objects :: dpf_state where
  "no_objects = \<lparr>clusters = Map.empty, flavors = Map.empty, bfbs = Map.empty, sets = Map.empty, labels = Map.empty\<rparr>"

definition stores :: "(dpf_state \<times> 'v) BootstrapController \<Rightarrow> bool" where
  "stores b =
     ((\<forall>c m v r m' v'. EnsureDPUCluster (DPF b) c (m, v) = (r, (m', v')) \<longrightarrow>
         m' = (if r = None then m\<lparr>clusters := (clusters m)((cl_Namespace c, cl_Name c) \<mapsto> c)\<rparr> else m)) \<and>
      (\<forall>c m v r m' v'. EnsureDPUFlavor (DPF b) c (m, v) = (r, (m', v')) \<longrightarrow>
         m' = (if r = None then m\<lparr>flavors := (flavors m)((fl_Namespace c, fl_Name c) \<mapsto> c)\<rparr> else m)) \<and>
      (\<forall>c m v r m' v'. EnsureBFB (DPF b) c (m, v) = (r, (m', v')) \<longrightarrow>
         m' = (if r = None then m\<lparr>bfbs := (bfbs m)((bfb_Namespace c, bfb_Name c) \<mapsto> c)\<rparr> else m)) \<and>
      (\<forall>c m v r m' v'. EnsureDPUSet (DPF b) c (m, v) = (r, (m', v')) \<longrightarrow>
         m' = (if r = None then m\<lparr>sets := (sets m)((set_Namespace c, set_Name c) \<mapsto> c)\<rparr> else m)) \<and>
      (\<forall>s n m v r m' v'. GetStatus (DPF b) s n (m, v) = (r, (m', v')) \<longrightarrow> m' = m) \<and>
      (\<forall>n l m v r m' v'. LabelDPUNode b n l (m, v) = (r, (m', v')) \<longrightarrow>
         m' = (if r = None then m\<lparr>labels := (labels m)(n \<mapsto> l)\<rparr> else m)))"

lemma storesD:
  assumes "stores b"
  shows "EnsureDPUCluster (DPF b) c (m, v) = (r, (m', v')) \<Longrightarrow>
         m' = (if r = None then m\<lparr>clusters := (clusters m)((cl_Namespace c, cl_Name c) \<mapsto> c)\<rparr> else m)"
    and "EnsureDPUFlavor (DPF b) f (m, v) = (r, (m', v')) \<Longrightarrow>
         m' = (if r = None then m\<lparr>flavors := (flavors m)((fl_Namespace f, fl_Name f) \<mapsto> f)\<rparr> else m)"
    and "EnsureBFB (DPF b) g (m, v) = (r, (m', v')) \<Longrightarrow>
         m' = (if r = None then m\<lparr>bfbs := (bfbs m)((bfb_Namespace g, bfb_Name g) \<mapsto> g)\<rparr> else m)"
    and "EnsureDPUSet (DPF b) s (m, v) = (r, (m', v')) \<Longrightarrow>
         m' = (if r = None then m\<lparr>sets := (sets m)((set_Namespace s, set_Name s) \<mapsto> s)\<rparr> else m)"
    and "GetStatus (DPF b) n ns (m, v) = (q, (m', v')) \<Longrightarrow> m' = m"
    and "LabelDPUNode b n l (m, v) = (r, (m', v')) \<Longrightarrow>
         m' = (if r = None then m\<lparr>labels := (labels m)(n \<mapsto> l)\<rparr> else m)"
  using assms unfolding stores_def by metis+

definition node_labels :: "string gomap" where
  "node_labels = [(''dpu'', ''true''), (''dpu.openshift.io/vendor'', ''nvidia'')]"

text \<open>The states a pass can leave: it stopped at one of the four writes, or it wrote all of them.\<close>

definition ensured :: "string \<Rightarrow> string \<Rightarrow> string \<Rightarrow> nat \<Rightarrow> dpf_state \<Rightarrow> dpf_state" where
  "ensured cfg node url n m =
     (let ns = ''dpf-operator-system'';
          m1 = m\<lparr>clusters := (clusters m)((ns, cfg @ ''-dpu-cluster'') \<mapsto> desired_cluster cfg)\<rparr>;
          m2 = m1\<lparr>flavors := (flavors m1)((ns, cfg @ ''-flavor'') \<mapsto> desired_flavor cfg)\<rparr>;
          m3 = m2\<lparr>bfbs := (bfbs m2)((ns, cfg @ ''-bfb'') \<mapsto> desired_bfb cfg url)\<rparr>;
          m4 = m3\<lparr>sets := (sets m3)((ns, cfg @ ''-dpuset'') \<mapsto> desired_set cfg node)\<rparr>
      in [m, m1, m2, m3, m4] ! n)"

lemma on_phase_outcome:
  assumes "stores b" and "on_phase b s node ph (m, v) = ((t, e), (m', v'))"
  shows "(t = 0 \<and> e = None \<and> m' = m\<lparr>labels := (labels m)(node \<mapsto> node_labels)\<rparr>) \<or>
    (t = 0 \<and> e \<noteq> None \<and> m' = m) \<or> (e = None \<and> t \<in> {20 * second, 2 * minute} \<and> m' = m)"
  using assms
  by (auto simp: on_phase_def node_labels_def split: if_splits prod.splits option.splits dest!: storesD(6) [OF assms(1)])

lemma Reconcile_outcome:
  assumes b: "stores b" and run: "Reconcile b cfg node url (m, v) = ((t, e), (m', v'))"
  shows "(\<exists>n<4. m' = ensured cfg node url n m \<and> t = 0 \<and> e \<noteq> None) \<or>
    (m' = ensured cfg node url 4 m \<and> (e \<noteq> None \<and> t \<in> {0, 15 * second} \<or> e = None \<and> t \<in> {20 * second, 2 * minute})) \<or>
    (m' = (ensured cfg node url 4 m)\<lparr>labels := (labels m)(node \<mapsto> node_labels)\<rparr> \<and> t = 0 \<and> e = None)"
proof -
  note D = storesD [OF b]
  obtain r1 m1 v1 where 1: "EnsureDPUCluster (DPF b) (desired_cluster cfg) (m, v) = (r1, (m1, v1))"
    by (metis prod.collapse)
  obtain r2 m2 v2 where 2: "EnsureDPUFlavor (DPF b) (desired_flavor cfg) (m1, v1) = (r2, (m2, v2))"
    by (metis prod.collapse)
  obtain r3 m3 v3 where 3: "EnsureBFB (DPF b) (desired_bfb cfg url) (m2, v2) = (r3, (m3, v3))"
    by (metis prod.collapse)
  obtain r4 m4 v4 where 4: "EnsureDPUSet (DPF b) (desired_set cfg node) (m3, v3) = (r4, (m4, v4))"
    by (metis prod.collapse)
  obtain r5 m5 v5 where 5: "GetStatus (DPF b) (set_Name (desired_set cfg node)) ''dpf-operator-system'' (m4, v4)
      = (r5, (m5, v5))"
    by (metis prod.collapse)
  note steps = D(1) [OF 1] D(2) [OF 2] D(3) [OF 3] D(4) [OF 4] D(5) [OF 5]
  note E = ensured_def Let_def desired_cluster_def desired_flavor_def desired_bfb_def desired_set_def
  show ?thesis
  proof (cases "r1 = None \<and> r2 = None \<and> r3 = None \<and> r4 = None")
    case False
    have m1: "m1 = (if r1 = None then ensured cfg node url 1 m else ensured cfg node url 0 m)"
      and m2: "r1 = None \<Longrightarrow> m2 = (if r2 = None then ensured cfg node url 2 m else ensured cfg node url 1 m)"
      and m3: "r1 = None \<Longrightarrow> r2 = None \<Longrightarrow> m3 = (if r3 = None then ensured cfg node url 3 m else ensured cfg node url 2 m)"
      using steps by (simp_all add: E)
    have m4: "m4 = m3" if "r4 \<noteq> None"
      using steps(4) that by simp
    have "t = 0 \<and> e \<noteq> None \<and> m' = (if r1 \<noteq> None then m1 else if r2 \<noteq> None then m2 else if r3 \<noteq> None then m3 else m4)"
      using run False by (cases r1; cases r2; cases r3; cases r4) (auto simp: Reconcile_def 1 2 3 4)
    then have te: "t = 0 \<and> e \<noteq> None" and
      "m' = ensured cfg node url 0 m \<or> m' = ensured cfg node url 1 m \<or> m' = ensured cfg node url 2 m \<or>
       m' = ensured cfg node url 3 m"
      using False m1 m2 m3 m4 by (auto split: if_splits)
    then have "\<exists>n<4. m' = ensured cfg node url n m"
      by (elim disjE) (rule exI, rule conjI [rotated], assumption, simp)+
    with te show ?thesis by blast
  next
    case True
    then have m5: "m5 = ensured cfg node url 4 m"
      using steps by (simp add: E)
    have l5: "labels (ensured cfg node url 4 m) = labels m"
      by (simp add: ensured_def Let_def)
    show ?thesis
    proof (cases r5)
      case (Inl err)
      then show ?thesis using run 1 2 3 4 5 True m5 by (auto simp: Reconcile_def)
    next
      case (Inr st)
      then have "on_phase b (set_Name (desired_set cfg node)) node (Phase st) (m5, v5) = ((t, e), (m', v'))"
        using run 1 2 3 4 5 True by (simp add: Reconcile_def)
      from on_phase_outcome [OF b this] show ?thesis
        unfolding m5 l5 by auto
    qed
  qed
qed

text \<open>
  A pass that reports success without asking to be called again has written all four objects
  and labelled the node; a pass that reports success but is not finished asks to be called again
  after 20 seconds or 2 minutes, sooner than any of the timeouts of DPF, and has labelled nothing.
\<close>

theorem bootstrap_pass:
  assumes "stores b" and "Reconcile b cfg node url (m, v) = ((t, None), (m', v'))"
  shows "sets m' (''dpf-operator-system'', cfg @ ''-dpuset'') = Some (desired_set cfg node) \<and>
    (if t = 0 then labels m' = (labels m)(node \<mapsto> node_labels)
     else labels m' = labels m \<and> 20 * second \<le> t \<and>
       t < Min {DPFDefaultOSInstallTimeout, DPFDefaultFirmwareUpdateTimeout, DPFSecureBootVerificationTimeout,
                DPFStaleTrackerTimeout})"
proof -
  have 4: "sets (ensured cfg node url 4 m) (''dpf-operator-system'', cfg @ ''-dpuset'') = Some (desired_set cfg node)"
    "labels (ensured cfg node url 4 m) = labels m"
    by (simp_all add: ensured_def Let_def)
  show ?thesis
    using Reconcile_outcome [OF assms]
    by (elim disjE) (auto simp: 4 go_simps DPFDefaultOSInstallTimeout_def DPFDefaultFirmwareUpdateTimeout_def
        DPFSecureBootVerificationTimeout_def DPFStaleTrackerTimeout_def)
qed

text \<open>A store that accepts every write and reports the phase it holds.\<close>

definition accepting :: "(dpf_state \<times> DPUPhase) BootstrapController" where
  "accepting =
     \<lparr>DPF = \<lparr>EnsureDPUCluster = (\<lambda>c (m, v). (None, (m\<lparr>clusters := (clusters m)((cl_Namespace c, cl_Name c) \<mapsto> c)\<rparr>, v))),
        EnsureBFB = (\<lambda>c (m, v). (None, (m\<lparr>bfbs := (bfbs m)((bfb_Namespace c, bfb_Name c) \<mapsto> c)\<rparr>, v))),
        EnsureDPUFlavor = (\<lambda>c (m, v). (None, (m\<lparr>flavors := (flavors m)((fl_Namespace c, fl_Name c) \<mapsto> c)\<rparr>, v))),
        EnsureDPUSet = (\<lambda>c (m, v). (None, (m\<lparr>sets := (sets m)((set_Namespace c, set_Name c) \<mapsto> c)\<rparr>, v))),
        GetStatus = (\<lambda>_ _ (m, v). (Inr \<lparr>Phase = v\<rparr>, (m, v)))\<rparr>,
      LabelDPUNode = (\<lambda>n l (m, v). (None, (m\<lparr>labels := (labels m)(n \<mapsto> l)\<rparr>, v)))\<rparr>"

lemma accepting_stores: "stores accepting"
  by (auto simp: stores_def accepting_def)

lemma accepting_run:
  "\<exists>m'. Reconcile accepting cfg node url (m, DPUReady) = ((0, None), (m', DPUReady))"
  "\<exists>m'. Reconcile accepting cfg node url (m, DPUOSInstalling) = ((2 * minute, None), (m', DPUOSInstalling))"
  by (auto simp: Reconcile_def accepting_def on_phase_def boot_phase_defs)

theorem bootstrap_pass_witness:
  "labels (fst (snd (Reconcile accepting ''c'' ''n1'' ''u'' (no_objects, DPUReady)))) ''n1'' = Some node_labels \<and>
   labels (fst (snd (Reconcile accepting ''c'' ''n1'' ''u'' (no_objects, DPUOSInstalling)))) ''n1'' = None"
proof -
  obtain m1 m2 where 1: "Reconcile accepting ''c'' ''n1'' ''u'' (no_objects, DPUReady) = ((0, None), (m1, DPUReady))"
    and 2: "Reconcile accepting ''c'' ''n1'' ''u'' (no_objects, DPUOSInstalling) = ((2 * minute, None), (m2, DPUOSInstalling))"
    using accepting_run by blast
  have "labels m1 ''n1'' = Some node_labels \<and> labels m2 ''n1'' = None"
    using bootstrap_pass [OF accepting_stores 1] bootstrap_pass [OF accepting_stores 2]
    by (simp add: no_objects_def go_simps)
  then show ?thesis
    by (simp add: 1 2)
qed

text \<open>
  The device set is named after the configuration alone: once a second node of the same
  configuration has been bootstrapped, both nodes carry the labels of a ready card, but the one set
  selects only the second.
\<close>

theorem one_set_per_configuration:
  assumes b: "stores b"
    and first: "Reconcile b cfg n1 url (m, v) = ((0, None), (m1, v1))"
    and second: "Reconcile b cfg n2 url (m1, v2) = ((0, None), (m2, v3))"
  shows "labels m2 n1 = Some node_labels \<and> labels m2 n2 = Some node_labels \<and>
    map_option NodeSelector (sets m2 (''dpf-operator-system'', cfg @ ''-dpuset'')) = Some [(''kubernetes.io/hostname'', n2)]"
proof -
  have "labels m1 = (labels m)(n1 \<mapsto> node_labels)" "labels m2 = (labels m1)(n2 \<mapsto> node_labels)"
    "sets m2 (''dpf-operator-system'', cfg @ ''-dpuset'') = Some (desired_set cfg n2)"
    using Reconcile_outcome [OF b first] Reconcile_outcome [OF b second]
    by (auto simp: ensured_def Let_def go_simps)
  then show ?thesis
    by (simp add: desired_set_def)
qed

theorem one_set_per_configuration_witness:
  "labels (fst (snd (Reconcile accepting ''c'' ''n2'' ''u''
      (snd (Reconcile accepting ''c'' ''n1'' ''u'' (no_objects, DPUReady)))))) ''n1'' = Some node_labels"
proof -
  obtain m1 where 1: "Reconcile accepting ''c'' ''n1'' ''u'' (no_objects, DPUReady) = ((0, None), (m1, DPUReady))"
    using accepting_run by blast
  obtain m2 where 2: "Reconcile accepting ''c'' ''n2'' ''u'' (m1, DPUReady) = ((0, None), (m2, DPUReady))"
    using accepting_run by blast
  show ?thesis
    using one_set_per_configuration [OF accepting_stores 1 2] by (simp add: 1 2)
qed

text \<open>The API states that any number of passes can lead to, with any answers of the server.\<close>

inductive bootstrap_reachable :: "dpf_state \<Rightarrow> bool" where
  start: "bootstrap_reachable no_objects"
| pass: "bootstrap_reachable m \<Longrightarrow> stores (b :: (dpf_state \<times> nat) BootstrapController) \<Longrightarrow>
    Reconcile b cfg node url (m, v) = ((t, e), (m', v')) \<Longrightarrow> bootstrap_reachable m'"

definition sets_resolved :: "dpf_state \<Rightarrow> bool" where
  "sets_resolved m =
     (\<forall>k s. sets m k = Some s \<longrightarrow>
        clusters m (set_Namespace s, ClusterRef s) \<noteq> None \<and> flavors m (set_Namespace s, FlavorRef s) \<noteq> None)"

lemma sets_resolved_ensured: "sets_resolved m \<Longrightarrow> n \<le> 4 \<Longrightarrow> sets_resolved (ensured cfg node url n m)"
  by (auto simp: sets_resolved_def ensured_def Let_def desired_set_def le_Suc_eq numeral_eq_Suc split: if_splits)

lemma sets_resolved_labels [simp]: "sets_resolved (m\<lparr>labels := l\<rparr>) = sets_resolved m"
  by (simp add: sets_resolved_def)

text \<open>
  C16.  A device set never refers to a cluster or a flavor that does not exist, in whatever state the
  passes leave the cluster and at whichever write each of them was cut short.
\<close>

theorem bootstrap_references_resolved:
  assumes "bootstrap_reachable m"
  shows "sets_resolved m"
  using assms
proof (induction rule: bootstrap_reachable.induct)
  case start
  show ?case by (simp add: sets_resolved_def no_objects_def)
next
  case (pass m b cfg node url v t e m' v')
  from Reconcile_outcome [OF pass.hyps(2,3)] show ?case
    using pass.IH by (auto simp: sets_resolved_ensured)
qed

theorem bootstrap_references_resolved_witness:
  "sets_resolved (ensured ''c'' ''n1'' ''u'' 2 no_objects)"
proof -
  define b :: "(dpf_state \<times> nat) BootstrapController" where
    "b = \<lparr>DPF = \<lparr>EnsureDPUCluster = (\<lambda>c (m, v). (None, (m\<lparr>clusters := (clusters m)((cl_Namespace c, cl_Name c) \<mapsto> c)\<rparr>, v))),
        EnsureBFB = (\<lambda>c w. (Some (External ''timeout''), w)),
        EnsureDPUFlavor = (\<lambda>c (m, v). (None, (m\<lparr>flavors := (flavors m)((fl_Namespace c, fl_Name c) \<mapsto> c)\<rparr>, v))),
        EnsureDPUSet = (\<lambda>c w. (Some (External ''timeout''), w)),
        GetStatus = (\<lambda>_ _ w. (Inl (External ''timeout''), w))\<rparr>,
      LabelDPUNode = (\<lambda>n l w. (Some (External ''timeout''), w))\<rparr>"
  have "stores b"
    by (auto simp: stores_def b_def)
  moreover have "Reconcile b ''c'' ''n1'' ''u'' (no_objects, 0) =
      ((0, Some (Errorf ''creating BFB: %w'' [AWrap (External ''timeout'')])), (ensured ''c'' ''n1'' ''u'' 2 no_objects, 0))"
    by (simp add: Reconcile_def b_def ensured_def Let_def desired_cluster_def desired_flavor_def)
  ultimately have "bootstrap_reachable (ensured ''c'' ''n1'' ''u'' 2 no_objects)"
    by (rule bootstrap_reachable.pass [OF bootstrap_reachable.start])
  then show ?thesis
    by (rule bootstrap_references_resolved)
qed

end
