(* ===== verification/FleetTranslate.thy ===== *)
theory FleetTranslate
  imports KubeObjects
begin

text \<open>
  The fleet adapter of \<open>kartikey/\<close>, its data and pure parts: the mirrored API types of \<open>api/opi/v1\<close>
  and \<open>internal/dpf/types.go\<close>, the vendor guard and the single-fleet resolver of \<open>fleet.go\<close>, the
  phase mapping of \<open>status.go\<close> and the translation of \<open>internal/translate/translate.go\<close>.

  The types of \<open>k8s.io/apimachinery\<close> appear as the fields the code reads and writes.
\<close>

section \<open>Mirrored types\<close>

text \<open>\<open>metav1.ObjectMeta\<close> and \<open>metav1.Condition\<close>, as far as they are used.\<close>

record ObjectMeta =
  Name :: string
  Namespace :: string
  Labels :: "string gomap"
  Annotations :: "string gomap"
  Finalizers :: "string list"
  DeletionTimestamp :: "time option"
  Generation :: "64 word"

record Condition =
  cond_Type :: string
  cond_Status :: string
  cond_ObservedGeneration :: "64 word"
  LastTransitionTime :: time
  cond_Reason :: string
  cond_Message :: message

record NetworkFunction =
  nf_Name :: string
  nf_Image :: string

record ServiceFunctionChainSpec =
  spec_NodeSelector :: "string gomap"
  NetworkFunctions :: "NetworkFunction list"

record ServiceFunctionChainStatus =
  sfc_Conditions :: "Condition list"
  sfc_ObservedGeneration :: "64 word"

record ServiceFunctionChain = ObjectMeta +
  sfc_Spec :: ServiceFunctionChainSpec
  sfc_Status :: ServiceFunctionChainStatus

record DataProcessingUnitSpec =
  DpuProductName :: string
  IsDpuSide :: bool
  dpu_NodeName :: string

record DataProcessingUnitStatus =
  dpu_Conditions :: "Condition list"

record DataProcessingUnit = ObjectMeta +
  dpu_Spec :: DataProcessingUnitSpec
  dpu_Status :: DataProcessingUnitStatus

definition IntentAnnotation :: string where "IntentAnnotation = ''dpu.nvidia.com/adapter-intent''"
definition EndpointAnnotation :: string where "EndpointAnnotation = ''dpu.nvidia.com/datapath-endpoint''"

text \<open>The objects behind \<open>client.Object\<close> that the resolver is asked about.\<close>

datatype opi_object = ObjSFC ServiceFunctionChain | ObjDPU DataProcessingUnit

fun GetLabels :: "opi_object \<Rightarrow> string gomap" where
  "GetLabels (ObjSFC s) = Labels s"
| "GetLabels (ObjDPU d) = Labels d"

section \<open>DPF kinds\<close>

record GroupVersionKind =
  Group :: string
  GVKVersion :: string
  GVKKind :: string

definition ProvisioningGroup :: string where "ProvisioningGroup = ''provisioning.dpu.nvidia.com''"
definition SvcGroup :: string where "SvcGroup = ''svc.dpu.nvidia.com''"
definition Version :: string where "Version = ''v1alpha1''"

definition DPUDeploymentGVK :: GroupVersionKind where
  "DPUDeploymentGVK = \<lparr>Group = ProvisioningGroup, GVKVersion = Version, GVKKind = ''DPUDeployment''\<rparr>"
definition DPUGVK :: GroupVersionKind where
  "DPUGVK = \<lparr>Group = ProvisioningGroup, GVKVersion = Version, GVKKind = ''DPU''\<rparr>"
definition DPUServiceChainGVK :: GroupVersionKind where
  "DPUServiceChainGVK = \<lparr>Group = SvcGroup, GVKVersion = Version, GVKKind = ''DPUServiceChain''\<rparr>"
definition DPUServiceInterfaceGVK :: GroupVersionKind where
  "DPUServiceInterfaceGVK = \<lparr>Group = SvcGroup, GVKVersion = Version, GVKKind = ''DPUServiceInterface''\<rparr>"
definition DPUServiceGVK :: GroupVersionKind where
  "DPUServiceGVK = \<lparr>Group = SvcGroup, GVKVersion = Version, GVKKind = ''DPUService''\<rparr>"

lemmas gvk_defs = DPUDeploymentGVK_def DPUGVK_def DPUServiceChainGVK_def DPUServiceInterfaceGVK_def DPUServiceGVK_def

definition DPUPhaseInitializing :: string where "DPUPhaseInitializing = ''Initializing''"
definition DPUPhaseProvisioning :: string where "DPUPhaseProvisioning = ''Provisioning''"
definition DPUPhaseReady :: string where "DPUPhaseReady = ''Ready''"
definition DPUPhaseError :: string where "DPUPhaseError = ''Error''"

lemmas phase_defs = DPUPhaseInitializing_def DPUPhaseProvisioning_def DPUPhaseReady_def DPUPhaseError_def

section \<open>Translation\<close>

definition DefaultDPUFlavor :: string where "DefaultDPUFlavor = ''bf3-default''"
definition ManagedByLabel :: string where "ManagedByLabel = ''app.kubernetes.io/managed-by''"
definition ManagedByValue :: string where "ManagedByValue = ''opi-nvidia-dpf-adapter''"
definition OwnerRefLabel :: string where "OwnerRefLabel = ''dpu.nvidia.com/owner''"
definition FleetLabel :: string where "FleetLabel = ''dpu.nvidia.com/fleet''"

record TargetFleet =
  fleet_Name :: string
  fleet_Namespace :: string
  fleet_NodeSelector :: "string gomap"
  fleet_DPUFlavor :: string

definition flavor :: "TargetFleet \<Rightarrow> string" where
  "flavor f = (if fleet_DPUFlavor f \<noteq> '''' then fleet_DPUFlavor f else DefaultDPUFlavor)"

definition fleetName :: "TargetFleet \<Rightarrow> string" where
  "fleetName f = (if fleet_Name f \<noteq> '''' then fleet_Name f else ''default'')"

record Translator =
  tr_DeploymentForFleet :: "TargetFleet \<Rightarrow> Unstructured"
  tr_ChainForSFC :: "TargetFleet \<Rightarrow> ServiceFunctionChain \<Rightarrow> Unstructured list"

definition ownerValue :: "ServiceFunctionChain \<Rightarrow> string" where
  "ownerValue o' = Namespace o' @ ''_'' @ Name o'"

definition base :: "TargetFleet \<Rightarrow> string \<Rightarrow> string \<Rightarrow> string \<Rightarrow> string \<Rightarrow> Unstructured" where
  "base fleet apiVersion kind name owner =
     \<lparr>u_APIVersion = apiVersion, u_Kind = kind, u_Name = name, u_Namespace = fleet_Namespace fleet,
      u_Labels = [(ManagedByLabel, ManagedByValue), (OwnerRefLabel, owner), (FleetLabel, fleetName fleet)],
      u_Spec = [], u_Status = None\<rparr>"

definition DeploymentForFleet :: "TargetFleet \<Rightarrow> Unstructured" where
  "DeploymentForFleet fleet =
     (let name = ''dpudeploy-'' @ fleetName fleet;
          u = base fleet (ProvisioningGroup @ ''/'' @ Version) (GVKKind DPUDeploymentGVK) name
                (''fleet_'' @ fleetName fleet);
          sel = map (\<lambda>(k, v). (k, JString v)) (fleet_NodeSelector fleet)
      in u\<lparr>u_Spec := [(''dpuFlavor'', JString (flavor fleet)), (''nodeSelector'', JObject sel)]\<rparr>)"

text \<open>One turn of the loop over the network functions: the service and the interface of hop \<open>i\<close>.\<close>

definition hop_objects ::
    "TargetFleet \<Rightarrow> string \<Rightarrow> string \<Rightarrow> nat \<times> NetworkFunction \<Rightarrow> Unstructured list" where
  "hop_objects fleet owner prefix = (\<lambda>(i, nf).
     (let svcName = prefix @ ''-'' @ nf_Name nf;
          svc = (base fleet (SvcGroup @ ''/'' @ Version) (GVKKind DPUServiceGVK) svcName owner)
                  \<lparr>u_Spec := [(''image'', JString (nf_Image nf))]\<rparr>;
          ifName = prefix @ ''-if-'' @ itoa (int i);
          iface = (base fleet (SvcGroup @ ''/'' @ Version) (GVKKind DPUServiceInterfaceGVK) ifName owner)
                  \<lparr>u_Spec := [(''service'', JString svcName)]\<rparr>
      in [svc, iface]))"

definition ChainForSFC :: "TargetFleet \<Rightarrow> ServiceFunctionChain \<Rightarrow> Unstructured list" where
  "ChainForSFC fleet sfc =
     (let owner = ownerValue sfc;
          prefix = fleetName fleet @ ''-'' @ Name sfc;
          nfs = enumerate 0 (NetworkFunctions (sfc_Spec sfc));
          objs = concat (map (hop_objects fleet owner prefix) nfs);
          hopNames = map (\<lambda>(i, nf). JString (nf_Name nf)) nfs;
          ifaceRefs = map (\<lambda>(i, nf). JString (prefix @ ''-if-'' @ itoa (int i))) nfs;
          chain = (base fleet (SvcGroup @ ''/'' @ Version) (GVKKind DPUServiceChainGVK) (''chain-'' @ prefix) owner)
                    \<lparr>u_Spec := [(''nodes'', JArray hopNames), (''interfaceRefs'', JArray ifaceRefs)]\<rparr>
      in objs @ [chain])"

definition NewDPFTranslator :: Translator where
  "NewDPFTranslator = \<lparr>tr_DeploymentForFleet = DeploymentForFleet, tr_ChainForSFC = ChainForSFC\<rparr>"

section \<open>Vendor guard and fleets\<close>

definition VendorLabel :: string where "VendorLabel = ''dpu.config.openshift.io/vendor''"
definition VendorNVIDIA :: string where "VendorNVIDIA = ''nvidia''"

definition isNVIDIAProduct :: "string \<Rightarrow> bool" where
  "isNVIDIAProduct product = (let p = to_lower product in contains p ''bluefield'' \<or> contains p ''nvidia'')"

definition isNVIDIAManaged :: "opi_object \<Rightarrow> bool" where
  "isNVIDIAManaged obj =
     ((case obj of ObjDPU d \<Rightarrow> isNVIDIAProduct (DpuProductName (dpu_Spec d)) | ObjSFC _ \<Rightarrow> False) \<or>
      str_at (GetLabels obj) VendorLabel = VendorNVIDIA)"

text \<open>A probe answers \<open>None\<close> when the DPU cluster of its fleet is reachable.\<close>

type_synonym 'w DPUClusterProbe = "'w \<Rightarrow> go_error option \<times> 'w"

record 'w Fleet =
  fl_Name :: string
  fl_Namespace :: string
  fl_NodeSelector :: "string gomap"
  fl_DPUFlavor :: string
  Probe :: "'w DPUClusterProbe option"

text \<open>A resolver answers with an error, with no fleet, or with the fleet of the object.\<close>

type_synonym 'w ClusterResolver = "opi_object \<Rightarrow> 'w \<Rightarrow> (go_error + 'w Fleet option) \<times> 'w"

definition Resolve :: "'w Fleet \<Rightarrow> 'w ClusterResolver" where
  "Resolve f obj w = (if \<not> isNVIDIAManaged obj then (Inr None, w) else (Inr (Some f), w))"

definition fleetToTarget :: "'w Fleet \<Rightarrow> TargetFleet" where
  "fleetToTarget f =
     \<lparr>fleet_Name = fl_Name f, fleet_Namespace = fl_Namespace f, fleet_NodeSelector = fl_NodeSelector f,
      fleet_DPUFlavor = fl_DPUFlavor f\<rparr>"

section \<open>Conditions\<close>

definition CondDPFReady :: string where "CondDPFReady = ''DPFReady''"
definition ReasonProvisioned :: string where "ReasonProvisioned = ''Provisioned''"
definition ReasonProvisioning :: string where "ReasonProvisioning = ''Provisioning''"
definition ReasonProvisioningFailed :: string where "ReasonProvisioningFailed = ''ProvisioningFailed''"
definition ReasonChainProgrammed :: string where "ReasonChainProgrammed = ''ChainProgrammed''"
definition ReasonServiceDeploying :: string where "ReasonServiceDeploying = ''ServiceDeploying''"
definition ReasonDPUClusterUnreach :: string where "ReasonDPUClusterUnreach = ''DPUClusterUnreachable''"
definition ReasonDPFVersionUnsupported :: string where "ReasonDPFVersionUnsupported = ''DPFVersionUnsupported''"
definition ReasonDPFStatusSchema :: string where "ReasonDPFStatusSchema = ''DPFStatusUnrecognized''"

lemmas reason_defs = ReasonProvisioned_def ReasonProvisioning_def ReasonProvisioningFailed_def
  ReasonChainProgrammed_def ReasonServiceDeploying_def ReasonDPUClusterUnreach_def
  ReasonDPFVersionUnsupported_def ReasonDPFStatusSchema_def

text \<open>A condition literal; its transition time is the zero time until the library stamps it.\<close>

definition condition :: "string \<Rightarrow> string \<Rightarrow> message \<Rightarrow> 64 word \<Rightarrow> Condition" where
  "condition status reason msg gen =
     \<lparr>cond_Type = CondDPFReady, cond_Status = status, cond_ObservedGeneration = gen,
      LastTransitionTime = zero_time, cond_Reason = reason, cond_Message = msg\<rparr>"

definition mapDPUPhase :: "string \<Rightarrow> 64 word \<Rightarrow> Condition" where
  "mapDPUPhase phase observedGen =
     (if phase = DPUPhaseReady then
        condition ''True'' ReasonProvisioned (Text ''DPU provisioned and joined its DPU cluster'') observedGen
      else if phase = DPUPhaseError then
        condition ''False'' ReasonProvisioningFailed (Text ''DPF reported DPU provisioning error'') observedGen
      else if phase = DPUPhaseInitializing \<or> phase = DPUPhaseProvisioning \<or> phase = '''' then
        condition ''False'' ReasonProvisioning (Text ''DPF is provisioning the DPU'') observedGen
      else
        condition ''False'' ReasonProvisioning (Sprintf ''unrecognized DPF phase: %s'' [AStr phase]) observedGen)"

definition degraded :: "string \<Rightarrow> message \<Rightarrow> 64 word \<Rightarrow> Condition" where
  "degraded reason msg observedGen = condition ''False'' reason msg observedGen"

section \<open>Properties\<close>

definition prefix_of :: "TargetFleet \<Rightarrow> ServiceFunctionChain \<Rightarrow> string" where
  "prefix_of f s = fleetName f @ ''-'' @ Name s"

abbreviation nfs_of :: "ServiceFunctionChain \<Rightarrow> NetworkFunction list" where
  "nfs_of s \<equiv> NetworkFunctions (sfc_Spec s)"

definition svc_key :: "TargetFleet \<Rightarrow> string \<Rightarrow> string \<Rightarrow> object_key" where
  "svc_key f kind name = (SvcGroup @ ''/'' @ Version, kind, fleet_Namespace f, name)"

lemma object_key_base [simp]:
  "object_key (base f a k n ow) = (a, k, fleet_Namespace f, n)"
  "object_key (u\<lparr>u_Spec := sp\<rparr>) = object_key u"
  by (simp_all add: object_key_def base_def)

lemma hop_objects_keys:
  "map object_key (hop_objects f ow p (i, nf)) =
     [svc_key f ''DPUService'' (p @ ''-'' @ nf_Name nf), svc_key f ''DPUServiceInterface'' (p @ ''-if-'' @ decimal i)]"
  by (simp add: hop_objects_def Let_def svc_key_def gvk_defs)

lemma svc_key_eq: "(svc_key f k n = svc_key g l m) = (fleet_Namespace f = fleet_Namespace g \<and> k = l \<and> n = m)"
  by (auto simp: svc_key_def)

lemma UN_pairs: "(\<Union>x \<in> A. {g (snd x), h (fst x)}) = g ` snd ` A \<union> h ` fst ` A"
  by auto

lemma kind_svc_key: "fst (snd (svc_key f k n)) = k"
  by (simp add: svc_key_def)

lemma overlap_by_kind:
  assumes "\<forall>x \<in> A \<union> A'. kind x = a" and "\<forall>x \<in> B \<union> B'. kind x = b" and "kind c = d" "kind c' = d"
    and "a \<noteq> b" "a \<noteq> d" "b \<noteq> d"
  shows "((A \<union> B \<union> {c}) \<inter> (A' \<union> B' \<union> {c'}) \<noteq> {}) = (A \<inter> A' \<noteq> {} \<or> B \<inter> B' \<noteq> {} \<or> c = c')"
proof -
  have "A \<inter> B' = {}" "B \<inter> A' = {}"
    using assms(1,2,5) by (metis UnCI disjoint_iff)+
  moreover have "c \<notin> A'" "c \<notin> B'" "c' \<notin> A" "c' \<notin> B"
    using assms by auto
  ultimately show ?thesis
    by (auto simp: Int_Un_distrib Int_Un_distrib2)
qed

lemma ChainForSFC_keys:
  "object_key ` set (ChainForSFC f s) =
     (\<lambda>nf. svc_key f ''DPUService'' (prefix_of f s @ ''-'' @ nf_Name nf)) ` set (nfs_of s) \<union>
     (\<lambda>i. svc_key f ''DPUServiceInterface'' (prefix_of f s @ ''-if-'' @ decimal i)) ` {..<length (nfs_of s)} \<union>
     {svc_key f ''DPUServiceChain'' (''chain-'' @ prefix_of f s)}"
proof -
  have hops: "object_key ` set (hop_objects f ow p x) =
      {svc_key f ''DPUService'' (p @ ''-'' @ nf_Name (snd x)), svc_key f ''DPUServiceInterface'' (p @ ''-if-'' @ decimal (fst x))}"
    for ow p x
    using arg_cong [OF hop_objects_keys [of f ow p "fst x" "snd x"], of set] by simp
  have snds: "snd ` set (enumerate 0 xs) = set xs" and fsts: "fst ` set (enumerate 0 xs) = {..<length xs}"
    for xs :: "NetworkFunction list"
    by (metis list.set_map map_snd_enumerate) (metis list.set_map map_fst_enumerate atLeast_upt plus_nat.add_0)
  have "object_key ` set (ChainForSFC f s) =
      (\<Union>x \<in> set (enumerate 0 (nfs_of s)). object_key ` set (hop_objects f (ownerValue s) (prefix_of f s) x)) \<union>
      {svc_key f ''DPUServiceChain'' (''chain-'' @ prefix_of f s)}"
    unfolding ChainForSFC_def Let_def prefix_of_def [symmetric]
    by (simp add: image_UN gvk_defs svc_key_def)
  also have "\<dots> = (\<lambda>nf. svc_key f ''DPUService'' (prefix_of f s @ ''-'' @ nf_Name nf)) ` snd ` set (enumerate 0 (nfs_of s)) \<union>
      (\<lambda>i. svc_key f ''DPUServiceInterface'' (prefix_of f s @ ''-if-'' @ decimal i)) ` fst ` set (enumerate 0 (nfs_of s)) \<union>
      {svc_key f ''DPUServiceChain'' (''chain-'' @ prefix_of f s)}"
    unfolding hops by (rule arg_cong2 [of _ _ _ _ "(\<union>)"], rule UN_pairs, rule refl)
  finally show ?thesis
    unfolding snds fsts .
qed

text \<open>
  The objects of two chains overlap exactly when both fleets use the same namespace and either
  fleet name and chain name join to the same prefix or one service name does.  The namespace of a
  chain is in none of the names.
\<close>

theorem ChainForSFC_overlap:
  "(object_key ` set (ChainForSFC f s) \<inter> object_key ` set (ChainForSFC g t) \<noteq> {}) =
     (fleet_Namespace f = fleet_Namespace g \<and>
      (prefix_of f s = prefix_of g t \<or>
       (\<exists>a \<in> set (nfs_of s). \<exists>b \<in> set (nfs_of t).
          prefix_of f s @ ''-'' @ nf_Name a = prefix_of g t @ ''-'' @ nf_Name b)))"
proof -
  have ifs: "p = q" if "p @ ''-if-'' @ decimal i = q @ ''-if-'' @ decimal j" for p q i j
  proof -
    have "(p @ ''-if'') @ CHR ''-'' # decimal i = (q @ ''-if'') @ CHR ''-'' # decimal j"
      using that by simp
    then have "p @ ''-if'' = q @ ''-if'' \<and> decimal i = decimal j"
      by (rule append_digits_inject) (simp_all add: decimal_digits, simp add: is_digit_def)
    then show ?thesis by simp
  qed
  have images: "((\<lambda>x. svc_key f k (u x)) ` A \<inter> (\<lambda>y. svc_key g k (v y)) ` B \<noteq> {}) =
      (fleet_Namespace f = fleet_Namespace g \<and> (\<exists>x \<in> A. \<exists>y \<in> B. u x = v y))" for k u v A B
    by (auto simp: svc_key_eq; metis)
  have ifaces: "(\<exists>i \<in> A. \<exists>j \<in> B. prefix_of f s @ ''-if-'' @ decimal i = prefix_of g t @ ''-if-'' @ decimal j) \<Longrightarrow>
      prefix_of f s = prefix_of g t" for A B
    using ifs by blast
  have chain: "(''chain-'' @ p = ''chain-'' @ q) = (p = q)" for p q :: string
    by simp
  show ?thesis
    unfolding ChainForSFC_keys
  proof (rule trans, rule overlap_by_kind [where kind = "\<lambda>k. fst (snd k)" and a = "''DPUService''"
        and b = "''DPUServiceInterface''" and d = "''DPUServiceChain''"], goal_cases)
    case 8
    show ?case
      unfolding images svc_key_eq chain using ifaces by blast
  qed (auto simp: kind_svc_key)
qed

end
