(* ===== verification/FleetReconcilers.thy ===== *)
theory FleetReconcilers
  imports FleetTranslate
begin

text \<open>
  \<open>kartikey/feature_skeleton.go\<close>: the two reconcilers of the fleet adapter.  One turns an OPI service
  function chain into DPF objects and mirrors their readiness, the other keeps the deployment of the
  fleet applied and mirrors phase and endpoint of one DPU.

  The Kubernetes libraries are parameters: \<open>Client\<close> is the controller-runtime client,
  \<open>machinery\<close> the pure functions of \<open>apimachinery\<close> and \<open>controllerutil\<close> the code calls.
\<close>

section \<open>Libraries\<close>

type_synonym NamespacedName = "string \<times> string"

text \<open>
  A patch also decodes the server's answer into the object it was given, so it returns that object.
  The first argument of \<open>patch_SFC\<close> and its siblings is the base of the merge patch.
\<close>

record 'w Client =
  get_SFC :: "NamespacedName \<Rightarrow> 'w \<Rightarrow> (go_error + ServiceFunctionChain) \<times> 'w"
  get_DPU :: "NamespacedName \<Rightarrow> 'w \<Rightarrow> (go_error + DataProcessingUnit) \<times> 'w"
  get_unstructured :: "string \<times> string \<Rightarrow> NamespacedName \<Rightarrow> 'w \<Rightarrow> (go_error + Unstructured) \<times> 'w"
  patch_SFC :: "ServiceFunctionChain \<Rightarrow> ServiceFunctionChain \<Rightarrow> 'w \<Rightarrow>
    (go_error option \<times> ServiceFunctionChain) \<times> 'w"
  patch_DPU :: "DataProcessingUnit \<Rightarrow> DataProcessingUnit \<Rightarrow> 'w \<Rightarrow> (go_error option \<times> DataProcessingUnit) \<times> 'w"
  status_patch_SFC :: "ServiceFunctionChain \<Rightarrow> ServiceFunctionChain \<Rightarrow> 'w \<Rightarrow> go_error option \<times> 'w"
  status_patch_DPU :: "DataProcessingUnit \<Rightarrow> DataProcessingUnit \<Rightarrow> 'w \<Rightarrow> go_error option \<times> 'w"
  apply_unstructured :: "Unstructured \<Rightarrow> 'w \<Rightarrow> (go_error option \<times> Unstructured) \<times> 'w"
  delete_unstructured :: "Unstructured \<Rightarrow> 'w \<Rightarrow> go_error option \<times> 'w"

record machinery =
  IsNotFound :: "go_error \<Rightarrow> bool"
  IsNoMatchError :: "go_error \<Rightarrow> bool"
  IsNotRegisteredError :: "go_error \<Rightarrow> bool"
  IsServerTimeout :: "go_error \<Rightarrow> bool"
  IsTimeout :: "go_error \<Rightarrow> bool"
  IsServiceUnavailable :: "go_error \<Rightarrow> bool"
  IsInternalError :: "go_error \<Rightarrow> bool"
  SetStatusCondition :: "time \<Rightarrow> Condition list \<Rightarrow> Condition \<Rightarrow> Condition list"
  ContainsFinalizer :: "string list \<Rightarrow> string \<Rightarrow> bool"
  AddFinalizer :: "string list \<Rightarrow> string \<Rightarrow> string list"
  RemoveFinalizer :: "string list \<Rightarrow> string \<Rightarrow> string list"
  NestedMap :: "Unstructured \<Rightarrow> string list \<Rightarrow> (string \<times> json) list \<times> bool \<times> go_error option"
  NestedString :: "Unstructured \<Rightarrow> string list \<Rightarrow> string \<times> bool \<times> go_error option"
  NestedSlice :: "Unstructured \<Rightarrow> string list \<Rightarrow> json list \<times> bool \<times> go_error option"
  GVKString :: "string \<times> string \<Rightarrow> string"

section \<open>Shared helpers\<close>

definition requeueProvisioning :: duration where "requeueProvisioning = 15 * second"
definition requeueTransient :: duration where "requeueTransient = 30 * second"
definition chainFinalizer :: string where "chainFinalizer = ''dpu.nvidia.com/chain-cleanup''"

definition errDPUClusterUnreachable :: go_error where
  "errDPUClusterUnreachable = Sentinel ''dpu cluster unreachable''"
definition errDPFVersionUnsupported :: go_error where
  "errDPFVersionUnsupported = Sentinel ''dpf crd version unsupported''"
definition errDPFStatusSchemaUnknown :: go_error where
  "errDPFStatusSchemaUnknown = Sentinel ''dpf status schema unrecognized''"

definition classifyDPFError :: "machinery \<Rightarrow> go_error option \<Rightarrow> string \<times> string \<Rightarrow> go_error option" where
  "classifyDPFError k e gvk =
     (case e of
        None \<Rightarrow> None
      | Some err \<Rightarrow>
          Some (if IsNoMatchError k err \<or> IsNotRegisteredError k err then
                  Errorf ''%w: %s not served by cluster: %v''
                    [AWrap errDPFVersionUnsupported, AStr (GVKString k gvk), AErr err]
                else if IsServerTimeout k err \<or> IsTimeout k err \<or> IsServiceUnavailable k err \<or> IsInternalError k err then
                  Errorf ''%w: %v'' [AWrap errDPUClusterUnreachable, AErr err]
                else err))"

text \<open>The loop over the conditions: reading a missing key of a JSON object gives nothing.\<close>

fun ready_condition :: "json \<Rightarrow> bool" where
  "ready_condition (JObject m) =
     (map_of m ''type'' = Some (JString ''Ready'') \<and> map_of m ''status'' = Some (JString ''True''))"
| "ready_condition _ = False"

definition dpfObjectReady :: "machinery \<Rightarrow> Unstructured \<Rightarrow> bool" where
  "dpfObjectReady k u =
     (case NestedSlice k u [''status'', ''conditions''] of
        (conds, found, err) \<Rightarrow> if err \<noteq> None \<or> \<not> found then False else list_ex ready_condition conds)"

definition gvk_of :: "Unstructured \<Rightarrow> string \<times> string" where
  "gvk_of u = (u_APIVersion u, u_Kind u)"

definition is_zero_time :: "time option \<Rightarrow> bool" where
  "is_zero_time t = (case t of None \<Rightarrow> True | Some x \<Rightarrow> x = zero_time)"

definition nvidiaPredicate :: "opi_object \<Rightarrow> bool" where "nvidiaPredicate = isNVIDIAManaged"

record staticProbe =
  reachable :: bool

definition NewStaticProbe :: "bool \<Rightarrow> staticProbe" where "NewStaticProbe r = \<lparr>reachable = r\<rparr>"

definition Reachable :: "staticProbe \<Rightarrow> 'w DPUClusterProbe" where
  "Reachable s w = (if \<not> reachable s then (Some errDPUClusterUnreachable, w) else (None, w))"

section \<open>Service function chains\<close>

record 'w ServiceFunctionChainReconciler =
  rec_Client :: "'w Client"
  rec_lib :: machinery
  rec_Translator :: Translator
  rec_Fleets :: "'w ClusterResolver"

definition classifyApplyError :: "go_error \<Rightarrow> 64 word \<Rightarrow> Condition option" where
  "classifyApplyError err gen =
     (if errors_Is err errDPFVersionUnsupported
      then Some (degraded ReasonDPFVersionUnsupported (Sprintf ''%s'' [AErr err]) gen)
      else if errors_Is err errDPUClusterUnreachable
      then Some (degraded ReasonDPUClusterUnreach (Sprintf ''%s'' [AErr err]) gen)
      else None)"

definition apply_object ::
    "'w ServiceFunctionChainReconciler \<Rightarrow> Unstructured \<Rightarrow> 'w \<Rightarrow> (go_error option \<times> Unstructured) \<times> 'w" where
  "apply_object r obj w =
     (case apply_unstructured (rec_Client r) obj w of
        ((err, obj1), w1) \<Rightarrow> ((classifyDPFError (rec_lib r) err (gvk_of obj1), obj1), w1))"

text \<open>The loop of step 5: the objects as the server returned them, or the error it stopped at.\<close>

fun apply_all ::
    "'w ServiceFunctionChainReconciler \<Rightarrow> Unstructured list \<Rightarrow> 'w \<Rightarrow> (go_error + Unstructured list) \<times> 'w" where
  "apply_all r [] w = (Inr [], w)"
| "apply_all r (obj # objs) w =
     (case apply_object r obj w of
        ((Some aerr, _), w1) \<Rightarrow> (Inl aerr, w1)
      | ((None, obj1), w1) \<Rightarrow>
          (case apply_all r objs w1 of
             (Inl aerr, w2) \<Rightarrow> (Inl aerr, w2)
           | (Inr objs1, w2) \<Rightarrow> (Inr (obj1 # objs1), w2)))"

fun aggregateChainReadiness ::
    "'w ServiceFunctionChainReconciler \<Rightarrow> Unstructured list \<Rightarrow> 'w \<Rightarrow> (go_error + bool \<times> string \<times> message) \<times> 'w" where
  "aggregateChainReadiness r [] w = (Inr (True, ReasonChainProgrammed, Text ''all DPF chain objects Ready''), w)"
| "aggregateChainReadiness r (want # objs) w =
     (case get_unstructured (rec_Client r) (gvk_of want) (u_Namespace want, u_Name want) w of
        (Inl gerr, w1) \<Rightarrow>
          (case classifyDPFError (rec_lib r) (Some gerr) (gvk_of want) of
             Some cerr \<Rightarrow>
               if errors_Is cerr errDPFVersionUnsupported
               then (Inr (False, ReasonDPFVersionUnsupported, Sprintf ''%s'' [AErr cerr]), w1)
               else if IsNotFound (rec_lib r) gerr
               then (Inr (False, ReasonServiceDeploying,
                       Sprintf ''%s/%s not yet created'' [AStr (u_Kind want), AStr (u_Name want)]), w1)
               else (Inl (Errorf ''read back %s: %w'' [AStr (u_Name want), AWrap gerr]), w1)
           | None \<Rightarrow> (Inl gerr, w1))
      | (Inr got, w1) \<Rightarrow>
          if \<not> dpfObjectReady (rec_lib r) got
          then (Inr (False, ReasonServiceDeploying,
                  Sprintf ''%s/%s not Ready'' [AStr (u_Kind got), AStr (u_Name got)]), w1)
          else aggregateChainReadiness r objs w1)"

definition patchSFCStatus ::
    "'w ServiceFunctionChainReconciler \<Rightarrow> time \<Rightarrow> ServiceFunctionChain \<Rightarrow> Condition \<Rightarrow> 'w \<Rightarrow> go_error option \<times> 'w" where
  "patchSFCStatus r now sfc cond w =
     (let sfc1 = sfc\<lparr>sfc_Status :=
            \<lparr>sfc_Conditions = SetStatusCondition (rec_lib r) now (sfc_Conditions (sfc_Status sfc)) cond,
             sfc_ObservedGeneration = Generation sfc\<rparr>\<rparr>
      in case status_patch_SFC (rec_Client r) sfc sfc1 w of
           (Some err, w1) \<Rightarrow> (Some (Errorf ''patch SFC status: %w'' [AWrap err]), w1)
         | (None, w1) \<Rightarrow> (None, w1))"

fun deleteChain ::
    "'w ServiceFunctionChainReconciler \<Rightarrow> Unstructured list \<Rightarrow> 'w \<Rightarrow> go_error option \<times> 'w" where
  "deleteChain r [] w = (None, w)"
| "deleteChain r (obj # objs) w =
     (case delete_unstructured (rec_Client r) obj w of
        (None, w1) \<Rightarrow> deleteChain r objs w1
      | (Some err, w1) \<Rightarrow>
          if IsNotFound (rec_lib r) err then deleteChain r objs w1
          else if (case classifyDPFError (rec_lib r) (Some err) (gvk_of obj) of
                     Some cerr \<Rightarrow> errors_Is cerr errDPFVersionUnsupported | None \<Rightarrow> False)
          then deleteChain r objs w1
          else (Some (Errorf ''delete %s/%s: %w'' [AStr (u_Kind obj), AStr (u_Name obj), AWrap err]), w1))"

definition addFinalizer ::
    "'w ServiceFunctionChainReconciler \<Rightarrow> ServiceFunctionChain \<Rightarrow> 'w \<Rightarrow> (go_error option \<times> ServiceFunctionChain) \<times> 'w" where
  "addFinalizer r sfc w =
     patch_SFC (rec_Client r) sfc (sfc\<lparr>Finalizers := AddFinalizer (rec_lib r) (Finalizers sfc) chainFinalizer\<rparr>) w"

definition removeFinalizer ::
    "'w ServiceFunctionChainReconciler \<Rightarrow> ServiceFunctionChain \<Rightarrow> 'w \<Rightarrow> go_error option \<times> 'w" where
  "removeFinalizer r sfc w =
     (case patch_SFC (rec_Client r) sfc
             (sfc\<lparr>Finalizers := RemoveFinalizer (rec_lib r) (Finalizers sfc) chainFinalizer\<rparr>) w of
        ((err, _), w1) \<Rightarrow> (err, w1))"

text \<open>Steps 4 to 8 of the pass: translate, apply, read back, write the condition, requeue.\<close>

definition converge ::
    "'w ServiceFunctionChainReconciler \<Rightarrow> time \<Rightarrow> TargetFleet \<Rightarrow> ServiceFunctionChain \<Rightarrow> 'w \<Rightarrow>
      (duration \<times> go_error option) \<times> 'w" where
  "converge r now tgt sfc w =
     (let desired = tr_ChainForSFC (rec_Translator r) tgt sfc in
      if length desired = 0 then ((0, None), w)
      else
        (case apply_all r desired w of
           (Inl aerr, w1) \<Rightarrow>
             (case classifyApplyError aerr (Generation sfc) of
                Some cond \<Rightarrow> (case patchSFCStatus r now sfc cond w1 of (_, w2) \<Rightarrow> ((requeueTransient, None), w2))
              | None \<Rightarrow> ((0, Some aerr), w1))
         | (Inr desired1, w1) \<Rightarrow>
             (case aggregateChainReadiness r desired1 w1 of
                (Inl rerr, w2) \<Rightarrow> ((0, Some rerr), w2)
              | (Inr (ready, reason, msg), w2) \<Rightarrow>
                  (let cond = condition (if ready then ''True'' else ''False'') reason msg (Generation sfc) in
                   case patchSFCStatus r now sfc cond w2 of
                     (Some serr, w3) \<Rightarrow> ((0, Some serr), w3)
                   | (None, w3) \<Rightarrow> if \<not> ready then ((requeueProvisioning, None), w3) else ((0, None), w3)))))"

text \<open>Step 3, the probe of the fleet.\<close>

definition probe_and_converge ::
    "'w ServiceFunctionChainReconciler \<Rightarrow> time \<Rightarrow> 'w Fleet \<Rightarrow> ServiceFunctionChain \<Rightarrow> 'w \<Rightarrow>
      (duration \<times> go_error option) \<times> 'w" where
  "probe_and_converge r now fleet sfc w =
     (case (case Probe fleet of None \<Rightarrow> (None, w) | Some p \<Rightarrow> p w) of
        (Some perr, w1) \<Rightarrow>
          (case patchSFCStatus r now sfc
                  (degraded ReasonDPUClusterUnreach (Sprintf ''DPU cluster unreachable: %v'' [AErr perr]) (Generation sfc)) w1 of
             (Some serr, w2) \<Rightarrow> ((0, Some serr), w2)
           | (None, w2) \<Rightarrow> ((requeueTransient, None), w2))
      | (None, w1) \<Rightarrow> converge r now (fleetToTarget fleet) sfc w1)"

definition Reconcile ::
    "'w ServiceFunctionChainReconciler \<Rightarrow> time \<Rightarrow> NamespacedName \<Rightarrow> 'w \<Rightarrow> (duration \<times> go_error option) \<times> 'w" where
  "Reconcile r now req w =
     (case get_SFC (rec_Client r) req w of
        (Inl err, w1) \<Rightarrow> if IsNotFound (rec_lib r) err then ((0, None), w1) else ((0, Some err), w1)
      | (Inr sfc, w1) \<Rightarrow>
          (case rec_Fleets r (ObjSFC sfc) w1 of
             (Inl err, w1) \<Rightarrow> ((0, Some err), w1)
           | (Inr None, w1) \<Rightarrow>
               if \<not> is_zero_time (DeletionTimestamp sfc) \<and> ContainsFinalizer (rec_lib r) (Finalizers sfc) chainFinalizer
               then (case removeFinalizer r sfc w1 of (err, w2) \<Rightarrow> ((0, err), w2))
               else ((0, None), w1)
           | (Inr (Some fleet), w1) \<Rightarrow>
               if \<not> is_zero_time (DeletionTimestamp sfc)
               then if ContainsFinalizer (rec_lib r) (Finalizers sfc) chainFinalizer
                    then (case deleteChain r (tr_ChainForSFC (rec_Translator r) (fleetToTarget fleet) sfc) w1 of
                            (Some derr, w2) \<Rightarrow> ((0, Some derr), w2)
                          | (None, w2) \<Rightarrow> (case removeFinalizer r sfc w2 of (err, w3) \<Rightarrow> ((0, err), w3)))
                    else ((0, None), w1)
               else if \<not> ContainsFinalizer (rec_lib r) (Finalizers sfc) chainFinalizer
               then (case addFinalizer r sfc w1 of
                       ((Some ferr, _), w2) \<Rightarrow> ((0, Some ferr), w2)
                     | ((None, sfc1), w2) \<Rightarrow> probe_and_converge r now fleet sfc1 w2)
               else probe_and_converge r now fleet sfc w1))"

section \<open>Data processing units\<close>

text \<open>A struct with the same fields, and with the same \<open>apply\<close>.\<close>

type_synonym 'w DataProcessingUnitReconciler = "'w ServiceFunctionChainReconciler"

definition readDPUPhase ::
    "'w DataProcessingUnitReconciler \<Rightarrow> 'w Fleet \<Rightarrow> DataProcessingUnit \<Rightarrow> 'w \<Rightarrow> (go_error + string \<times> string) \<times> 'w" where
  "readDPUPhase r fleet dpu w =
     (let gvk = (Group DPUGVK @ ''/'' @ GVKVersion DPUGVK, GVKKind DPUGVK) in
      case get_unstructured (rec_Client r) gvk (fl_Namespace fleet, ''dpu-'' @ Name dpu) w of
        (Inl gerr, w1) \<Rightarrow>
          (case classifyDPFError (rec_lib r) (Some gerr) gvk of
             Some cerr \<Rightarrow>
               if errors_Is cerr errDPFVersionUnsupported then (Inl cerr, w1)
               else if IsNotFound (rec_lib r) gerr then (Inr (DPUPhaseProvisioning, ''''), w1)
               else (Inl (Errorf ''get DPF DPU: %w'' [AWrap gerr]), w1)
           | None \<Rightarrow> (Inl gerr, w1))
      | (Inr got, w1) \<Rightarrow>
          (case (NestedMap (rec_lib r) got [''status''],
                 NestedString (rec_lib r) got [''status'', ''phase''],
                 NestedString (rec_lib r) got [''status'', ''dataplaneEndpoint'']) of
             ((statusMap, hasStatus, _), (phase, hasPhase, _), (endpoint, _, _)) \<Rightarrow>
               if hasStatus \<and> length statusMap > 0 \<and> \<not> hasPhase
               then (Inl (Errorf ''%w: DPF DPU %s reports status but no status.phase (readiness signal moved?)''
                            [AWrap errDPFStatusSchemaUnknown, AStr (u_Name got)]), w1)
               else (Inr (phase, endpoint), w1)))"

definition patchDPUCondition ::
    "'w DataProcessingUnitReconciler \<Rightarrow> time \<Rightarrow> DataProcessingUnit \<Rightarrow> Condition \<Rightarrow> 'w \<Rightarrow> go_error option \<times> 'w" where
  "patchDPUCondition r now dpu cond w =
     status_patch_DPU (rec_Client r) dpu
       (dpu\<lparr>dpu_Status := \<lparr>dpu_Conditions = SetStatusCondition (rec_lib r) now (dpu_Conditions (dpu_Status dpu)) cond\<rparr>\<rparr>) w"

definition publish_endpoint ::
    "'w DataProcessingUnitReconciler \<Rightarrow> string \<Rightarrow> DataProcessingUnit \<Rightarrow> 'w \<Rightarrow>
      (go_error option \<times> DataProcessingUnit) \<times> 'w" where
  "publish_endpoint r endpoint dpu w =
     (if endpoint \<noteq> '''' \<and> str_at (Annotations dpu) EndpointAnnotation \<noteq> endpoint
      then patch_DPU (rec_Client r) dpu (dpu\<lparr>Annotations := AList.update EndpointAnnotation endpoint (Annotations dpu)\<rparr>) w
      else ((None, dpu), w))"

definition dpu_Reconcile ::
    "'w DataProcessingUnitReconciler \<Rightarrow> time \<Rightarrow> NamespacedName \<Rightarrow> 'w \<Rightarrow> (duration \<times> go_error option) \<times> 'w" where
  "dpu_Reconcile r now req w =
     (case get_DPU (rec_Client r) req w of
        (Inl err, w1) \<Rightarrow> if IsNotFound (rec_lib r) err then ((0, None), w1) else ((0, Some err), w1)
      | (Inr dpu, w1) \<Rightarrow>
          (case rec_Fleets r (ObjDPU dpu) w1 of
             (Inl err, w1) \<Rightarrow> ((0, Some err), w1)
           | (Inr None, w1) \<Rightarrow> ((0, None), w1)
           | (Inr (Some fleet), w1) \<Rightarrow>
               (case apply_object r (tr_DeploymentForFleet (rec_Translator r) (fleetToTarget fleet)) w1 of
                  ((Some aerr, _), w2) \<Rightarrow>
                    if errors_Is aerr errDPFVersionUnsupported
                    then (case patchDPUCondition r now dpu
                                 (degraded ReasonDPFVersionUnsupported (Sprintf ''%s'' [AErr aerr]) (Generation dpu)) w2 of
                            (_, w3) \<Rightarrow> ((requeueTransient, None), w3))
                    else ((0, Some aerr), w2)
                | ((None, _), w2) \<Rightarrow>
                    (case readDPUPhase r fleet dpu w2 of
                       (Inl rerr, w3) \<Rightarrow>
                         if errors_Is rerr errDPFStatusSchemaUnknown
                         then (case patchDPUCondition r now dpu
                                      (degraded ReasonDPFStatusSchema (Sprintf ''%s'' [AErr rerr]) (Generation dpu)) w3 of
                                 (Some perr, w4) \<Rightarrow> ((0, Some perr), w4)
                               | (None, w4) \<Rightarrow> ((requeueTransient, None), w4))
                         else ((0, Some rerr), w3)
                     | (Inr (phase, endpoint), w3) \<Rightarrow>
                         (case publish_endpoint r endpoint dpu w3 of
                            ((Some perr, _), w4) \<Rightarrow> ((0, Some perr), w4)
                          | ((None, dpu1), w4) \<Rightarrow>
                              (case patchDPUCondition r now dpu1 (mapDPUPhase phase (Generation dpu1)) w4 of
                                 (Some perr, w5) \<Rightarrow> ((0, Some perr), w5)
                               | (None, w5) \<Rightarrow>
                                   if phase \<noteq> DPUPhaseReady then ((requeueProvisioning, None), w5)
                                   else ((0, None), w5)))))))"

end
