(* ===== verification/FleetCluster.thy ===== *)
theory FleetCluster
  imports FleetReconcilers
begin

text \<open>
  What the fleet adapter promises against an API server: the documented behaviour of the client and
  of the library functions as predicates, and the properties of the passes of both reconcilers over
  any server that behaves so.
\<close>

section \<open>The API server\<close>

text \<open>
  \<open>doomed\<close> holds the objects whose deletion has been requested: with foreground propagation the
  object itself goes away at once or later.
\<close>

record api =
  sfcs :: "NamespacedName \<Rightarrow> ServiceFunctionChain option"
  dpus :: "NamespacedName \<Rightarrow> DataProcessingUnit option"
  objs :: "object_key \<Rightarrow> Unstructured option"
  doomed :: "object_key set"

text \<open>
  The pure functions, as documented.  The library takes the first condition of a type for the condition of that
  type: setting one gives it the new status and reason, and leaves the conditions of other types as they are.
\<close>

definition shown :: "string \<Rightarrow> Condition list \<Rightarrow> Condition option" where
  "shown t cs = find (\<lambda>x. cond_Type x = t) cs"

definition documented :: "machinery \<Rightarrow> bool" where
  "documented k =
     ((\<forall>fs f. ContainsFinalizer k fs f = (f \<in> set fs)) \<and>
      (\<forall>fs f. set (AddFinalizer k fs f) = insert f (set fs)) \<and>
      (\<forall>fs f. set (RemoveFinalizer k fs f) = set fs - {f}) \<and>
      (\<forall>now cs c. filter (\<lambda>x. cond_Type x \<noteq> cond_Type c) (SetStatusCondition k now cs c) =
                  filter (\<lambda>x. cond_Type x \<noteq> cond_Type c) cs) \<and>
      (\<forall>now cs c. \<exists>x. shown (cond_Type c) (SetStatusCondition k now cs c) = Some x \<and>
         cond_Status x = cond_Status c \<and> cond_Reason x = cond_Reason c))"

text \<open>
  The client: a read changes nothing and gives what is stored, a write that succeeds has stored its
  object, a write that fails has stored nothing.  A patch that takes the last finalizer off an object
  that is being deleted removes the object.  \<open>'v\<close> is whatever else the answers depend on.
\<close>

definition let_go :: "'a ObjectMeta_scheme \<Rightarrow> 'a ObjectMeta_scheme \<Rightarrow> bool" where
  "let_go old x = (\<not> is_zero_time (DeletionTimestamp x) \<and> Finalizers old \<noteq> [] \<and> Finalizers x = [])"

definition reads :: "machinery \<Rightarrow> (api \<times> 'v) Client \<Rightarrow> bool" where
  "reads k C =
     ((\<forall>q m v a m' v'. get_SFC C q (m, v) = (a, (m', v')) \<longrightarrow>
         m' = m \<and> (case a of Inr s \<Rightarrow> sfcs m q = Some s | Inl e \<Rightarrow> IsNotFound k e \<longrightarrow> sfcs m q = None)) \<and>
      (\<forall>q m v a m' v'. get_DPU C q (m, v) = (a, (m', v')) \<longrightarrow>
         m' = m \<and> (case a of Inr d \<Rightarrow> dpus m q = Some d | Inl e \<Rightarrow> IsNotFound k e \<longrightarrow> dpus m q = None)) \<and>
      (\<forall>g q m v a m' v'. get_unstructured C g q (m, v) = (a, (m', v')) \<longrightarrow>
         m' = m \<and> (case a of Inr u \<Rightarrow> objs m (fst g, snd g, fst q, snd q) = Some u
           | Inl e \<Rightarrow> IsNotFound k e \<longrightarrow> objs m (fst g, snd g, fst q, snd q) = None)))"

definition patches :: "(api \<times> 'v) Client \<Rightarrow> bool" where
  "patches C =
     ((\<forall>b s m v e s' m' v'. patch_SFC C b s (m, v) = ((e, s'), (m', v')) \<longrightarrow>
         (if e = None then s' = s \<and> m' = m\<lparr>sfcs := (sfcs m)((Namespace s, Name s) := (if let_go b s then None else Some s))\<rparr>
          else m' = m)) \<and>
      (\<forall>b s m v e s' m' v'. patch_DPU C b s (m, v) = ((e, s'), (m', v')) \<longrightarrow>
         (if e = None then s' = s \<and> m' = m\<lparr>dpus := (dpus m)((Namespace s, Name s) := (if let_go b s then None else Some s))\<rparr>
          else m' = m)) \<and>
      (\<forall>b s m v e m' v'. status_patch_SFC C b s (m, v) = (e, (m', v')) \<longrightarrow>
         (if e = None
          then m' = m\<lparr>sfcs := (sfcs m)((Namespace s, Name s) :=
                        map_option (\<lambda>x. x\<lparr>sfc_Status := sfc_Status s\<rparr>) (sfcs m (Namespace s, Name s)))\<rparr>
          else m' = m)) \<and>
      (\<forall>b s m v e m' v'. status_patch_DPU C b s (m, v) = (e, (m', v')) \<longrightarrow>
         (if e = None
          then m' = m\<lparr>dpus := (dpus m)((Namespace s, Name s) :=
                        map_option (\<lambda>x. x\<lparr>dpu_Status := dpu_Status s\<rparr>) (dpus m (Namespace s, Name s)))\<rparr>
          else m' = m)))"

definition writes :: "machinery \<Rightarrow> (api \<times> 'v) Client \<Rightarrow> bool" where
  "writes k C =
     ((\<forall>u m v e u' m' v'. apply_unstructured C u (m, v) = ((e, u'), (m', v')) \<longrightarrow>
         object_key u' = object_key u \<and>
         (if e = None then m' = m\<lparr>objs := (objs m)(object_key u \<mapsto> u')\<rparr> else m' = m)) \<and>
      (\<forall>u m v e m' v'. delete_unstructured C u (m, v) = (e, (m', v')) \<longrightarrow>
         (case e of
            None \<Rightarrow> \<exists>left \<in> {objs m (object_key u), None}.
              m' = m\<lparr>doomed := insert (object_key u) (doomed m), objs := (objs m)(object_key u := left)\<rparr>
          | Some err \<Rightarrow> m' = m \<and>
              (IsNotFound k err \<or> IsNoMatchError k err \<or> IsNotRegisteredError k err \<longrightarrow> objs m (object_key u) = None))))"

text \<open>No error of the client is one of the adapter's own sentinels.\<close>

definition foreign_errors :: "(api \<times> 'v) Client \<Rightarrow> bool" where
  "foreign_errors C =
     (\<forall>u w err w'. delete_unstructured C u w = (Some err, w') \<longrightarrow> \<not> errors_Is err errDPFVersionUnsupported)"

definition api_server :: "(api \<times> 'v) ServiceFunctionChainReconciler \<Rightarrow> bool" where
  "api_server r =
     (documented (rec_lib r) \<and> reads (rec_lib r) (rec_Client r) \<and> patches (rec_Client r) \<and> writes (rec_lib r) (rec_Client r) \<and>
      foreign_errors (rec_Client r))"

lemmas readsD =
  reads_def [THEN iffD1, THEN conjunct1, rule_format]
  reads_def [THEN iffD1, THEN conjunct2, THEN conjunct1, rule_format]
  reads_def [THEN iffD1, THEN conjunct2, THEN conjunct2, rule_format]

lemmas patchesD =
  patches_def [THEN iffD1, THEN conjunct1, rule_format]
  patches_def [THEN iffD1, THEN conjunct2, THEN conjunct1, rule_format]
  patches_def [THEN iffD1, THEN conjunct2, THEN conjunct2, THEN conjunct1, rule_format]
  patches_def [THEN iffD1, THEN conjunct2, THEN conjunct2, THEN conjunct2, rule_format]

lemmas writesD =
  writes_def [THEN iffD1, THEN conjunct1, rule_format]
  writes_def [THEN iffD1, THEN conjunct2, rule_format]

section \<open>Error classes\<close>

lemma sentinels_distinct [simp]:
  "errDPFVersionUnsupported \<noteq> errDPUClusterUnreachable" "errDPUClusterUnreachable \<noteq> errDPFVersionUnsupported"
  by (simp_all add: errDPFVersionUnsupported_def errDPUClusterUnreachable_def)

lemma classify_unsupported:
  assumes "classifyDPFError k (Some err) gvk = Some cerr" and "\<not> errors_Is err errDPFVersionUnsupported"
  shows "errors_Is cerr errDPFVersionUnsupported = (IsNoMatchError k err \<or> IsNotRegisteredError k err)"
  using assms
  by (auto simp: classifyDPFError_def errDPFVersionUnsupported_def errDPUClusterUnreachable_def split: if_splits)

lemma classify_Some: "\<exists>cerr. classifyDPFError k (Some err) gvk = Some cerr"
  by (simp add: classifyDPFError_def)

lemma classify_None [simp]: "(classifyDPFError k e gvk = None) = (e = None)"
  by (cases e) (simp_all add: classifyDPFError_def)

section \<open>What each helper does to the server\<close>

lemma apply_object_effect:
  assumes "api_server r" and "apply_object r u (m, v) = ((e, u'), (m', v'))"
  shows "object_key u' = object_key u" "m' = (if e = None then m\<lparr>objs := (objs m)(object_key u \<mapsto> u')\<rparr> else m)"
proof -
  obtain e0 u0 m0 v0 where a: "apply_unstructured (rec_Client r) u (m, v) = ((e0, u0), (m0, v0))"
    by (metis prod.collapse)
  have w: "writes (rec_lib r) (rec_Client r)"
    using assms(1) by (simp add: api_server_def)
  have "e = classifyDPFError (rec_lib r) e0 (gvk_of u0)" "u' = u0" "m' = m0"
    using assms(2) by (auto simp: apply_object_def a)
  then show "object_key u' = object_key u" "m' = (if e = None then m\<lparr>objs := (objs m)(object_key u \<mapsto> u')\<rparr> else m)"
    using writesD(1) [OF w a] by (auto split: if_splits)
qed

lemma apply_all_effect:
  assumes "api_server r" and "apply_all r us (m, v) = (a, (m', v'))"
  shows "m' = m\<lparr>objs := objs m'\<rparr>" "\<forall>k. k \<notin> object_key ` set us \<longrightarrow> objs m' k = objs m k"
    "\<forall>ys. a = Inr ys \<longrightarrow> map object_key ys = map object_key us"
proof -
  have "m' = m\<lparr>objs := objs m'\<rparr> \<and> (\<forall>k. k \<notin> object_key ` set us \<longrightarrow> objs m' k = objs m k) \<and>
      (\<forall>ys. a = Inr ys \<longrightarrow> map object_key ys = map object_key us)"
    using assms(2)
  proof (induction us arbitrary: m v a)
    case (Cons u us)
    obtain e u1 m1 v1 where 1: "apply_object r u (m, v) = ((e, u1), (m1, v1))"
      by (metis prod.collapse)
    note eff = apply_object_effect [OF assms(1) 1]
    show ?case
    proof (cases e)
      case (Some x)
      then show ?thesis using Cons.prems eff by (auto simp: 1)
    next
      case None
      obtain b m2 v2 where 2: "apply_all r us (m1, v1) = (b, (m2, v2))"
        by (metis prod.collapse)
      have m2: "m2 = m'" "v2 = v'" and a: "\<forall>ys. a = Inr ys \<longrightarrow> (\<exists>zs. b = Inr zs \<and> ys = u1 # zs)"
        using Cons.prems by (auto simp: 1 2 None split: sum.splits)
      note IH = Cons.IH [OF 2 [unfolded m2]]
      have "m' = m\<lparr>objs := objs m'\<rparr>"
        using IH eff None by (cases m'; cases m) auto
      moreover have "\<forall>k. k \<notin> object_key ` set (u # us) \<longrightarrow> objs m' k = objs m k"
        using IH eff None by auto
      moreover have "\<forall>ys. a = Inr ys \<longrightarrow> map object_key ys = map object_key (u # us)"
        using IH a eff by auto
      ultimately show ?thesis by blast
    qed
  qed simp
  then show "m' = m\<lparr>objs := objs m'\<rparr>" "\<forall>k. k \<notin> object_key ` set us \<longrightarrow> objs m' k = objs m k"
    "\<forall>ys. a = Inr ys \<longrightarrow> map object_key ys = map object_key us" by blast+
qed

lemma readback_effect:
  assumes "api_server r" and "aggregateChainReadiness r us (m, v) = (a, (m', v'))"
  shows "m' = m" "\<forall>reason msg. a = Inr (True, reason, msg) \<longrightarrow>
      reason = ReasonChainProgrammed \<and> (\<forall>u \<in> set us. \<exists>g. objs m (object_key u) = Some g \<and> dpfObjectReady (rec_lib r) g)"
proof -
  have "m' = m \<and> (\<forall>reason msg. a = Inr (True, reason, msg) \<longrightarrow>
      reason = ReasonChainProgrammed \<and> (\<forall>u \<in> set us. \<exists>g. objs m (object_key u) = Some g \<and> dpfObjectReady (rec_lib r) g))"
    using assms(2)
  proof (induction us arbitrary: m v)
    case (Cons u us)
    obtain b m1 v1 where 1: "get_unstructured (rec_Client r) (gvk_of u) (u_Namespace u, u_Name u) (m, v) = (b, (m1, v1))"
      by (metis prod.collapse)
    have rd: "m1 = m" "\<forall>g. b = Inr g \<longrightarrow> objs m (object_key u) = Some g"
      using readsD(3) [OF _ 1] assms(1) by (auto simp: api_server_def gvk_of_def object_key_def)
    show ?case
    proof (cases b)
      case (Inl e)
      then show ?thesis
        using Cons.prems rd by (auto simp: 1 split: option.splits if_splits)
    next
      case (Inr g)
      then show ?thesis
        using Cons rd by (auto simp: 1 split: if_splits)
    qed
  qed auto
  then show "m' = m" "\<forall>reason msg. a = Inr (True, reason, msg) \<longrightarrow>
      reason = ReasonChainProgrammed \<and> (\<forall>u \<in> set us. \<exists>g. objs m (object_key u) = Some g \<and> dpfObjectReady (rec_lib r) g)"
    by blast+
qed

text \<open>Of the objects, only some of the given ones have gone.\<close>

definition deleted_only :: "Unstructured list \<Rightarrow> api \<Rightarrow> api \<Rightarrow> bool" where
  "deleted_only us m m' = (\<forall>k. objs m' k = objs m k \<or> k \<in> object_key ` set us \<and> objs m' k = None)"

lemma deleted_only_Cons:
  assumes "deleted_only us m1 m'" and "\<And>k. objs m1 k = objs m k \<or> k = object_key u \<and> objs m1 k = None"
  shows "deleted_only (u # us) m m'"
  unfolding deleted_only_def
proof (rule allI)
  fix k
  show "objs m' k = objs m k \<or> k \<in> object_key ` set (u # us) \<and> objs m' k = None"
    using assms(1) [unfolded deleted_only_def, rule_format, of k] assms(2) [of k] by (elim disjE conjE) simp_all
qed

lemma deleteChain_effect:
  assumes "api_server r" and "deleteChain r us (m, v) = (e, (m', v'))"
  shows "sfcs m' = sfcs m \<and> dpus m' = dpus m" "doomed m \<subseteq> doomed m'" "deleted_only us m m'"
    "e = None \<longrightarrow> (\<forall>u \<in> set us. object_key u \<in> doomed m' \<or> objs m' (object_key u) = None)"
proof -
  have w: "writes (rec_lib r) (rec_Client r)" and fe: "foreign_errors (rec_Client r)"
    using assms(1) by (simp_all add: api_server_def)
  have "sfcs m' = sfcs m \<and> dpus m' = dpus m \<and> doomed m \<subseteq> doomed m' \<and> deleted_only us m m' \<and>
      (e = None \<longrightarrow> (\<forall>u \<in> set us. object_key u \<in> doomed m' \<or> objs m' (object_key u) = None))"
    using assms(2)
  proof (induction us arbitrary: m v)
    case Nil
    then show ?case by (simp add: deleted_only_def)
  next
    case (Cons u us)
    obtain d m1 v1 where 1: "delete_unstructured (rec_Client r) u (m, v) = (d, (m1, v1))"
      by (metis prod.collapse)
    note eff = writesD(2) [OF w 1]
    show ?case
    proof (cases d)
      case None
      obtain left where "left \<in> {objs m (object_key u), None}"
        and m1: "m1 = m\<lparr>doomed := insert (object_key u) (doomed m), objs := (objs m)(object_key u := left)\<rparr>"
        using eff unfolding None option.case by (rule bexE)
      then have "objs m1 k = objs m k \<or> k = object_key u \<and> objs m1 k = None" for k
        by (cases "k = object_key u") auto
      then have "deleted_only us m1 m' \<Longrightarrow> deleted_only (u # us) m m'"
        by (rule deleted_only_Cons [rotated])
      moreover have "deleteChain r us (m1, v1) = (e, (m', v'))"
        using Cons.prems by (simp add: 1 None)
      ultimately show ?thesis using Cons.IH [of m1 v1] m1 by auto
    next
      case (Some err)
      then have m1: "m1 = m"
        and gone: "IsNotFound (rec_lib r) err \<or> IsNoMatchError (rec_lib r) err \<or> IsNotRegisteredError (rec_lib r) err
          \<Longrightarrow> objs m (object_key u) = None"
        using eff by auto
      have nv: "\<not> errors_Is err errDPFVersionUnsupported"
        using fe 1 Some unfolding foreign_errors_def by blast
      obtain cerr where c: "classifyDPFError (rec_lib r) (Some err) (gvk_of u) = Some cerr"
        using classify_Some by blast
      have del: "deleteChain r (u # us) (m, v) =
          (if IsNotFound (rec_lib r) err \<or> IsNoMatchError (rec_lib r) err \<or> IsNotRegisteredError (rec_lib r) err
           then deleteChain r us (m1, v1)
           else (Some (Errorf ''delete %s/%s: %w'' [AStr (u_Kind u), AStr (u_Name u), AWrap err]), (m1, v1)))"
        using classify_unsupported [OF c nv] by (simp add: 1 Some c cong del: if_weak_cong)
      show ?thesis
      proof (cases "IsNotFound (rec_lib r) err \<or> IsNoMatchError (rec_lib r) err \<or> IsNotRegisteredError (rec_lib r) err")
        case True
        then have run: "deleteChain r us (m, v1) = (e, (m', v'))"
          using Cons.prems m1 unfolding del by simp
        note IH = Cons.IH [OF run]
        have "objs m' (object_key u) = None"
          using IH gone [OF True] unfolding deleted_only_def by metis
        moreover have "deleted_only (u # us) m m'"
          using IH by (intro deleted_only_Cons [of us m m']) simp_all
        ultimately show ?thesis using IH by (metis set_ConsD)
      next
        case False
        then show ?thesis
          using Cons.prems m1 unfolding del by (auto simp: deleted_only_def)
      qed
    qed
  qed
  note all = this
  show "sfcs m' = sfcs m \<and> dpus m' = dpus m" "doomed m \<subseteq> doomed m'" "deleted_only us m m'"
    using all by simp_all
  show "e = None \<longrightarrow> (\<forall>u \<in> set us. object_key u \<in> doomed m' \<or> objs m' (object_key u) = None)"
    by (rule all [THEN conjunct2, THEN conjunct2, THEN conjunct2, THEN conjunct2])
qed

section \<open>What a pass does to the server\<close>

abbreviation key_of :: "ServiceFunctionChain \<Rightarrow> NamespacedName" where
  "key_of s \<equiv> (Namespace s, Name s)"

text \<open>The conditions of a chain that belong to other controllers.\<close>

definition others :: "ServiceFunctionChain \<Rightarrow> Condition list" where
  "others s = filter (\<lambda>c. cond_Type c \<noteq> CondDPFReady) (sfc_Conditions (sfc_Status s))"

text \<open>
  \<open>mirrored m s m'\<close>: of the chains, only the status of \<open>s\<close> has changed, and of that only the
  adapter's own condition and the observed generation.
\<close>

definition mirrored :: "api \<Rightarrow> ServiceFunctionChain \<Rightarrow> api \<Rightarrow> bool" where
  "mirrored m s m' =
     (\<exists>x. sfcs m' = (sfcs m)(key_of s \<mapsto> x) \<and> x\<lparr>sfc_Status := sfc_Status s\<rparr> = s \<and> others x = others s)"

lemma mirrored_Finalizers: "mirrored m s m' \<Longrightarrow> \<exists>x. sfcs m' (key_of s) = Some x \<and> Finalizers x = Finalizers s"
proof -
  assume "mirrored m s m'"
  then obtain x where "sfcs m' (key_of s) = Some x" and x: "x\<lparr>sfc_Status := sfc_Status s\<rparr> = s"
    by (auto simp: mirrored_def)
  moreover have "Finalizers x = Finalizers s"
    using arg_cong [OF x, of Finalizers] by simp
  ultimately show ?thesis by blast
qed

lemma patchSFCStatus_effect:
  assumes "api_server r" and "sfcs m (key_of s) = Some s" and "cond_Type cond = CondDPFReady"
    and "patchSFCStatus r now s cond (m, v) = (e, (m', v'))"
  shows "mirrored m s m' \<and> objs m' = objs m \<and> doomed m' = doomed m \<and> dpus m' = dpus m"
proof -
  let ?s = "s\<lparr>sfc_Status := \<lparr>sfc_Conditions = SetStatusCondition (rec_lib r) now (sfc_Conditions (sfc_Status s)) cond,
      sfc_ObservedGeneration = Generation s\<rparr>\<rparr>"
  obtain e0 m0 v0 where 1: "status_patch_SFC (rec_Client r) s ?s (m, v) = (e0, (m0, v0))"
    by (metis prod.collapse)
  have p: "patches (rec_Client r)" and d: "documented (rec_lib r)"
    using assms(1) by (simp_all add: api_server_def)
  have m0: "m' = m0"
    using assms(4) by (auto simp: patchSFCStatus_def 1 split: option.splits)
  have oth: "others ?s = others s"
    using d assms(3) unfolding documented_def others_def by simp metis
  show ?thesis
  proof (cases e0)
    case None
    then have "m' = m\<lparr>sfcs := (sfcs m)(key_of s \<mapsto> ?s)\<rparr>"
      using patchesD(3) [OF p 1] by (simp add: m0 assms(2))
    then show ?thesis
      using oth unfolding mirrored_def by (intro conjI exI [of _ ?s]) simp_all
  next
    case (Some err)
    then have "m' = m"
      using patchesD(3) [OF p 1] by (simp add: m0)
    then show ?thesis
      using assms(2) unfolding mirrored_def by (intro conjI exI [of _ s]) auto
  qed
qed

lemma cond_Type_condition [simp]: "cond_Type (condition st rs ms g) = CondDPFReady" "cond_Type (degraded rs ms g) = CondDPFReady"
  by (simp_all add: condition_def degraded_def)

lemma classifyApplyError_type: "classifyApplyError err g = Some c \<Longrightarrow> cond_Type c = CondDPFReady"
  by (auto simp: classifyApplyError_def split: if_splits)

lemma converge_effect:
  assumes "api_server r" and "sfcs m (key_of s) = Some s"
    and "converge r now tgt s (m, v) = ((t, e), (m', v'))"
  shows "mirrored m s m' \<and> doomed m' = doomed m \<and>
    (\<forall>k. k \<notin> object_key ` set (tr_ChainForSFC (rec_Translator r) tgt s) \<longrightarrow> objs m' k = objs m k) \<and>
    (t = 0 \<and> e = None \<longrightarrow>
      (\<forall>u \<in> set (tr_ChainForSFC (rec_Translator r) tgt s).
         \<exists>g. objs m' (object_key u) = Some g \<and> dpfObjectReady (rec_lib r) g))"
proof (cases "tr_ChainForSFC (rec_Translator r) tgt s = []")
  case True
  then show ?thesis
    using assms(2,3) unfolding mirrored_def by (auto simp: converge_def intro!: exI [of _ s])
next
  case ne: False
  let ?D = "tr_ChainForSFC (rec_Translator r) tgt s"
  obtain a m1 v1 where 1: "apply_all r ?D (m, v) = (a, (m1, v1))"
    by (metis prod.collapse)
  note eff1 = apply_all_effect [OF assms(1) 1]
  have m1: "sfcs m1 = sfcs m" "doomed m1 = doomed m" "dpus m1 = dpus m"
    using arg_cong [OF eff1(1), of sfcs] arg_cong [OF eff1(1), of doomed] arg_cong [OF eff1(1), of dpus] by simp_all
  then have s1: "sfcs m1 (key_of s) = Some s"
    using assms(2) by simp
  have mir: "mirrored m s x = mirrored m1 s x" for x
    by (simp add: mirrored_def m1)
  have here: "mirrored m s m1"
    unfolding mirrored_def using assms(2) by (intro exI [of _ s]) (simp add: m1 fun_upd_idem)
  show ?thesis
  proof (cases a)
    case (Inl aerr)
    show ?thesis
    proof (cases "classifyApplyError aerr (Generation s)")
      case None
      then show ?thesis
        using assms(3) ne 1 Inl here eff1 m1 by (auto simp: converge_def)
    next
      case (Some c)
      obtain e2 m2 v2 where 2: "patchSFCStatus r now s c (m1, v1) = (e2, (m2, v2))"
        by (metis prod.collapse)
      have "m' = m2 \<and> t = requeueTransient"
        using assms(3) ne by (auto simp: converge_def 1 Inl Some 2)
      then show ?thesis
        using patchSFCStatus_effect [OF assms(1) s1 classifyApplyError_type [OF Some] 2] eff1 m1
        by (simp add: mir requeueTransient_def go_simps)
    qed
  next
    case (Inr ys)
    obtain b m2 v2 where 2: "aggregateChainReadiness r ys (m1, v1) = (b, (m2, v2))"
      by (metis prod.collapse)
    note eff2 = readback_effect [OF assms(1) 2]
    show ?thesis
    proof (cases b)
      case (Inl rerr)
      then show ?thesis
        using assms(3) ne here eff1 eff2 m1 by (auto simp: converge_def 1 Inr 2)
    next
      case b: (Inr res)
      obtain ready reason msg where res: "res = (ready, reason, msg)"
        by (metis prod.collapse)
      let ?c = "condition (if ready then ''True'' else ''False'') reason msg (Generation s)"
      obtain e3 m3 v3 where 3: "patchSFCStatus r now s ?c (m1, v2) = (e3, (m3, v3))"
        by (metis prod.collapse)
      note eff3 = patchSFCStatus_effect [OF assms(1) s1 _ 3, simplified]
      have m': "m' = m3" and t: "t = 0 \<and> e = None \<longrightarrow> ready"
        using assms(3) ne eff2(1) 3
        by (auto simp: converge_def 1 Inr 2 b res requeueProvisioning_def go_simps split: option.splits if_splits)
      have keys: "object_key ` set ys = object_key ` set ?D"
        using arg_cong [OF eff1(3) [rule_format, OF Inr], of set] by simp
      have "\<forall>u \<in> set ?D. \<exists>g. objs m' (object_key u) = Some g \<and> dpfObjectReady (rec_lib r) g" if "ready"
      proof
        fix u assume "u \<in> set ?D"
        then have "object_key u \<in> object_key ` set ys"
          by (simp add: keys)
        then obtain y where "y \<in> set ys" "object_key y = object_key u"
          by (auto simp del: object_key_base)
        then show "\<exists>g. objs m' (object_key u) = Some g \<and> dpfObjectReady (rec_lib r) g"
          using eff2(2) that b res eff3 m' by auto
      qed
      then show ?thesis
        using eff3 eff1 m1 t unfolding m' mir by simp
    qed
  qed
qed

text \<open>A fleet adapter wired as \<open>cmd/main.go\<close> does it, on a server that behaves.\<close>

definition wired :: "(api \<times> 'v) ServiceFunctionChainReconciler \<Rightarrow> (api \<times> 'v) Fleet \<Rightarrow> bool" where
  "wired r fleet =
     (api_server r \<and> rec_Fleets r = Resolve fleet \<and> rec_Translator r = NewDPFTranslator \<and>
      (\<forall>p m v a m' v'. Probe fleet = Some p \<longrightarrow> p (m, v) = (a, (m', v')) \<longrightarrow> m' = m))"

definition indexed :: "api \<Rightarrow> bool" where
  "indexed m = ((\<forall>q s. sfcs m q = Some s \<longrightarrow> q = key_of s) \<and> (\<forall>q d. dpus m q = Some d \<longrightarrow> q = (Namespace d, Name d)))"

abbreviation deleted :: "ServiceFunctionChain \<Rightarrow> bool" where
  "deleted s \<equiv> \<not> is_zero_time (DeletionTimestamp s)"

abbreviation chain_objects :: "(api \<times> 'v) Fleet \<Rightarrow> ServiceFunctionChain \<Rightarrow> Unstructured list" where
  "chain_objects fleet s \<equiv> ChainForSFC (fleetToTarget fleet) s"

lemma ChainForSFC_Finalizers [simp]: "ChainForSFC f (s\<lparr>Finalizers := fs\<rparr>) = ChainForSFC f s"
  by (simp add: ChainForSFC_def ownerValue_def)

text \<open>What a pass that starts from \<open>s1\<close>, stored in \<open>m1\<close>, leaves behind.\<close>

definition converged ::
    "(api \<times> 'v) ServiceFunctionChainReconciler \<Rightarrow> (api \<times> 'v) Fleet \<Rightarrow> ServiceFunctionChain \<Rightarrow> api \<Rightarrow> bool \<Rightarrow> api \<Rightarrow> bool" where
  "converged r fleet s1 m1 success m' =
     (mirrored m1 s1 m' \<and> doomed m' = doomed m1 \<and>
      (\<forall>k. k \<notin> object_key ` set (chain_objects fleet s1) \<longrightarrow> objs m' k = objs m1 k) \<and>
      (success \<longrightarrow> (\<forall>u \<in> set (chain_objects fleet s1).
         \<exists>g. objs m' (object_key u) = Some g \<and> dpfObjectReady (rec_lib r) g)))"

lemma probe_and_converge_effect:
  assumes w: "wired r fleet" and s: "sfcs m (key_of s) = Some s"
    and run: "probe_and_converge r now fleet s (m, v) = ((t, e), (m', v'))"
  shows "converged r fleet s m (t = 0 \<and> e = None) m'"
proof -
  have srv: "api_server r" and tr: "rec_Translator r = NewDPFTranslator"
    using w by (simp_all add: wired_def)
  obtain pe m1 v1 where 1: "(case Probe fleet of None \<Rightarrow> (None, (m, v)) | Some p \<Rightarrow> p (m, v)) = (pe, (m1, v1))"
    by (metis prod.collapse)
  have m1: "m1 = m"
    using 1 w unfolding wired_def by (cases "Probe fleet") (simp, simp, blast)
  show ?thesis
  proof (cases pe)
    case None
    then have "converge r now (fleetToTarget fleet) s (m, v1) = ((t, e), (m', v'))"
      using run by (simp add: probe_and_converge_def 1 m1)
    from converge_effect [OF srv s this] show ?thesis
      by (simp add: converged_def tr NewDPFTranslator_def)
  next
    case (Some perr)
    let ?c = "degraded ReasonDPUClusterUnreach (Sprintf ''DPU cluster unreachable: %v'' [AErr perr]) (Generation s)"
    obtain e2 m2 v2 where 2: "patchSFCStatus r now s ?c (m, v1) = (e2, (m2, v2))"
      by (metis prod.collapse)
    have "m' = m2" "\<not> (t = 0 \<and> e = None)"
      using run by (auto simp: probe_and_converge_def 1 m1 Some 2 requeueTransient_def go_simps split: option.splits)
    then show ?thesis
      using patchSFCStatus_effect [OF srv s _ 2] by (auto simp: converged_def)
  qed
qed

lemma live_pass:
  assumes w: "wired r fleet" and idx: "indexed m" and s: "sfcs m req = Some s"
    and managed: "isNVIDIAManaged (ObjSFC s)" and live: "\<not> deleted s"
    and run: "Reconcile r now req (m, v) = ((t, e), (m', v'))"
  shows "(m' = m \<and> e \<noteq> None) \<or>
    (\<exists>s1 m1. chainFinalizer \<in> set (Finalizers s1) \<and> s1\<lparr>Finalizers := Finalizers s\<rparr> = s \<and>
       m1 = m\<lparr>sfcs := (sfcs m)(req \<mapsto> s1)\<rparr> \<and> converged r fleet s1 m1 (t = 0 \<and> e = None) m')"
proof -
  have srv: "api_server r" and fl: "rec_Fleets r = Resolve fleet"
    using w by (simp_all add: wired_def)
  have rd: "reads (rec_lib r) (rec_Client r)" and pt: "patches (rec_Client r)" and doc: "documented (rec_lib r)"
    using srv by (simp_all add: api_server_def)
  have cf: "ContainsFinalizer (rec_lib r) fs f = (f \<in> set fs)" "set (AddFinalizer (rec_lib r) fs f) = insert f (set fs)" for fs f
    using doc by (simp_all add: documented_def)
  have req: "req = key_of s"
    using idx s unfolding indexed_def by blast
  obtain a m1 v1 where 1: "get_SFC (rec_Client r) req (m, v) = (a, (m1, v1))"
    by (metis prod.collapse)
  note g = readsD(1) [OF rd 1]
  show ?thesis
  proof (cases a)
    case (Inl err)
    then show ?thesis
      using run g s by (auto simp: Reconcile_def 1 split: if_splits)
  next
    case (Inr s0)
    then have s0: "s0 = s" and m1: "m1 = m"
      using g s by auto
    show ?thesis
    proof (cases "chainFinalizer \<in> set (Finalizers s)")
      case True
      then have "probe_and_converge r now fleet s (m, v1) = ((t, e), (m', v'))"
        using run live managed by (simp add: Reconcile_def 1 Inr s0 m1 fl Resolve_def cf)
      from probe_and_converge_effect [OF w _ this] s have "converged r fleet s m (t = 0 \<and> e = None) m'"
        by (simp add: req)
      then show ?thesis
        using True s by (intro disjI2 exI [of _ s] exI [of _ m]) (simp add: fun_upd_idem)
    next
      case False
      let ?s = "s\<lparr>Finalizers := AddFinalizer (rec_lib r) (Finalizers s) chainFinalizer\<rparr>"
      obtain fe s2 m2 v2 where 2: "patch_SFC (rec_Client r) s ?s (m, v1) = ((fe, s2), (m2, v2))"
        by (metis prod.collapse)
      note p = patchesD(1) [OF pt 2]
      show ?thesis
      proof (cases fe)
        case (Some err)
        then show ?thesis
          using run live managed False p by (auto simp: Reconcile_def 1 Inr s0 m1 fl Resolve_def cf addFinalizer_def 2)
      next
        case None
        moreover have "\<not> let_go s ?s"
          using live by (simp add: let_go_def)
        ultimately have p: "s2 = ?s" "m2 = m\<lparr>sfcs := (sfcs m)(req \<mapsto> ?s)\<rparr>"
          using p by (simp_all add: req)
        have "probe_and_converge r now fleet ?s (m2, v2) = ((t, e), (m', v'))"
          using run live managed False p(1) None
          by (simp add: Reconcile_def 1 Inr s0 m1 fl Resolve_def cf addFinalizer_def 2)
        from probe_and_converge_effect [OF w _ this] have "converged r fleet ?s m2 (t = 0 \<and> e = None) m'"
          by (simp add: p(2) req)
        then show ?thesis
          using p(2) cf(2) by (intro disjI2 exI [of _ ?s] exI [of _ m2]) simp
      qed
    qed
  qed
qed

lemma same_but_finalizers:
  assumes "s1\<lparr>Finalizers := Finalizers s\<rparr> = s"
  shows "ChainForSFC f s1 = ChainForSFC f s" "key_of s1 = key_of s" "others s1 = others s"
proof -
  have "ChainForSFC f (s1\<lparr>Finalizers := Finalizers s\<rparr>) = ChainForSFC f s1" by simp
  then show "ChainForSFC f s1 = ChainForSFC f s" by (simp only: assms)
  show "key_of s1 = key_of s"
    using arg_cong [OF assms, of Name] arg_cong [OF assms, of Namespace] by simp
  show "others s1 = others s"
    using arg_cong [OF assms, of sfc_Status] by (simp add: others_def)
qed

section \<open>Properties of the chain reconciler\<close>

text \<open>
  C1.  When a pass over a live chain of this vendor ends without an error and without asking to be
  called again, every DPF object of the chain is in the cluster and its \<open>Ready\<close> condition is
  true: a chain is never reported done on missing or unready objects.
\<close>

theorem chain_done_means_ready:
  assumes "wired r fleet" and "indexed m" and "sfcs m req = Some s"
    and "isNVIDIAManaged (ObjSFC s)" and "\<not> deleted s"
    and "Reconcile r now req (m, v) = ((0, None), (m', v'))"
  shows "\<forall>u \<in> set (chain_objects fleet s).
    \<exists>g. objs m' (object_key u) = Some g \<and> dpfObjectReady (rec_lib r) g"
  using live_pass [OF assms] same_but_finalizers(1) by (auto simp: converged_def)

text \<open>
  C3.  A pass over a live chain writes DPF objects only under the chain's own keys, and once it has
  written one, the stored chain carries the cleanup finalizer: a deletion that races the creation
  still cleans up.
\<close>

theorem adopted_before_created:
  assumes "wired r fleet" and "indexed m" and "sfcs m req = Some s"
    and "isNVIDIAManaged (ObjSFC s)" and "\<not> deleted s"
    and "Reconcile r now req (m, v) = ((t, e), (m', v'))" and "objs m' k \<noteq> objs m k"
  shows "k \<in> object_key ` set (chain_objects fleet s) \<and>
    (\<exists>x. sfcs m' req = Some x \<and> chainFinalizer \<in> set (Finalizers x))"
proof -
  have req: "req = key_of s"
    using assms(2,3) unfolding indexed_def by blast
  obtain s1 m1 where s1: "chainFinalizer \<in> set (Finalizers s1)" "s1\<lparr>Finalizers := Finalizers s\<rparr> = s"
    and m1: "m1 = m\<lparr>sfcs := (sfcs m)(req \<mapsto> s1)\<rparr>" and c: "converged r fleet s1 m1 (t = 0 \<and> e = None) m'"
    using live_pass [OF assms(1-6)] assms(7) by blast
  note same = same_but_finalizers [OF s1(2)]
  have frame: "\<forall>k. k \<notin> object_key ` set (chain_objects fleet s) \<longrightarrow> objs m' k = objs m1 k"
    using c unfolding converged_def same(1) by blast
  have "objs m1 = objs m"
    by (simp add: m1)
  then have "k \<in> object_key ` set (chain_objects fleet s)"
    using frame assms(7) by metis
  moreover have "\<exists>x. sfcs m' req = Some x \<and> Finalizers x = Finalizers s1"
    using c mirrored_Finalizers [of m1 s1 m'] unfolding converged_def same(2) req [symmetric] by blast
  ultimately show ?thesis
    using s1(1) by auto
qed

text \<open>What is stored of a chain once a pass has taken the cleanup finalizer off.\<close>

definition released :: "ServiceFunctionChain \<Rightarrow> ServiceFunctionChain option \<Rightarrow> bool" where
  "released s x = (chainFinalizer \<in> set (Finalizers s) \<and>
     (if set (Finalizers s) = {chainFinalizer} then x = None
      else \<exists>fs. x = Some (s\<lparr>Finalizers := fs\<rparr>) \<and> set fs = set (Finalizers s) - {chainFinalizer}))"

lemma removeFinalizer_effect:
  assumes "api_server r" and "deleted s" and "chainFinalizer \<in> set (Finalizers s)"
    and "removeFinalizer r s (m, v) = (e, (m', v'))"
  shows "if e = None then \<exists>x. m' = m\<lparr>sfcs := (sfcs m)(key_of s := x)\<rparr> \<and> released s x else m' = m"
proof -
  let ?fs = "RemoveFinalizer (rec_lib r) (Finalizers s) chainFinalizer"
  let ?s = "s\<lparr>Finalizers := ?fs\<rparr>"
  obtain e1 s1 m1 v1 where 1: "patch_SFC (rec_Client r) s ?s (m, v) = ((e1, s1), (m1, v1))"
    by (metis prod.collapse)
  have out: "e1 = e" "m1 = m'"
    using assms(4) by (simp_all add: removeFinalizer_def 1)
  have fs: "set ?fs = set (Finalizers s) - {chainFinalizer}"
    using assms(1) by (simp add: api_server_def documented_def)
  have "?fs = [] \<longleftrightarrow> set ?fs = {}"
    by simp
  then have "?fs = [] \<longleftrightarrow> set (Finalizers s) = {chainFinalizer}"
    unfolding fs using assms(3) by blast
  moreover have "Finalizers s \<noteq> []"
    using assms(3) by auto
  ultimately have "let_go s ?s \<longleftrightarrow> set (Finalizers s) = {chainFinalizer}"
    using assms(2) by (simp add: let_go_def)
  then have "released s (if let_go s ?s then None else Some ?s)"
    using fs assms(3) by (cases "set (Finalizers s) = {chainFinalizer}") (auto simp: released_def)
  moreover have "if e = None then m' = m\<lparr>sfcs := (sfcs m)(key_of s := if let_go s ?s then None else Some ?s)\<rparr> else m' = m"
    using patchesD(1) [OF _ 1 [unfolded out]] assms(1) by (auto simp: api_server_def)
  ultimately show ?thesis by (cases e) auto
qed

lemma deletion_pass:
  assumes w: "wired r fleet" and idx: "indexed m" and s: "sfcs m req = Some s"
    and managed: "isNVIDIAManaged (ObjSFC s)" and del: "deleted s"
    and run: "Reconcile r now req (m, v) = ((t, e), (m', v'))"
  shows "deleted_only (chain_objects fleet s) m m' \<and> (sfcs m' = sfcs m \<or>
     (\<exists>x. sfcs m' = (sfcs m)(req := x) \<and> released s x) \<and>
     (\<forall>u \<in> set (chain_objects fleet s). object_key u \<in> doomed m' \<or> objs m' (object_key u) = None))"
proof -
  have srv: "api_server r" and fl: "rec_Fleets r = Resolve fleet" and tr: "rec_Translator r = NewDPFTranslator"
    using w by (simp_all add: wired_def)
  have rd: "reads (rec_lib r) (rec_Client r)" and doc: "documented (rec_lib r)"
    using srv by (simp_all add: api_server_def)
  have cf: "ContainsFinalizer (rec_lib r) fs f = (f \<in> set fs)" for fs f
    using doc by (simp add: documented_def)
  have req: "req = key_of s"
    using idx s unfolding indexed_def by blast
  have same: "deleted_only us m m" for us
    by (simp add: deleted_only_def)
  obtain a m1 v1 where 1: "get_SFC (rec_Client r) req (m, v) = (a, (m1, v1))"
    by (metis prod.collapse)
  note g = readsD(1) [OF rd 1]
  show ?thesis
  proof (cases "\<exists>err. a = Inl err")
    case True
    then show ?thesis
      using run g s same by (auto simp: Reconcile_def 1 split: if_splits)
  next
    case False
    then have a: "a = Inr s" and m1: "m1 = m"
      using g s by (cases a; simp)+
    show ?thesis
    proof (cases "chainFinalizer \<in> set (Finalizers s)")
      case False
      then show ?thesis
        using run del managed same by (simp add: Reconcile_def 1 a m1 fl Resolve_def cf)
    next
      case fin: True
      obtain d m2 v2 where 2: "deleteChain r (chain_objects fleet s) (m, v1) = (d, (m2, v2))"
        by (metis prod.collapse)
      note eff = deleteChain_effect [OF srv 2]
      obtain pe m3 v3 where 3: "removeFinalizer r s (m2, v2) = (pe, (m3, v3))"
        by (metis prod.collapse)
      note rel = removeFinalizer_effect [OF srv del fin 3]
      have out: "m' = (if d = None then m3 else m2)"
        using run del managed fin 2 3
        by (auto simp: Reconcile_def 1 a m1 fl Resolve_def cf tr NewDPFTranslator_def split: option.splits)
      show ?thesis
      proof (cases "d = None \<and> pe = None")
        case False
        then have "m' = m2"
          using out rel by (auto split: if_splits)
        then show ?thesis using eff by simp
      next
        case True
        then obtain x where "m' = m2\<lparr>sfcs := (sfcs m2)(req := x)\<rparr>" "released s x"
          using out rel by (auto simp: req)
        then show ?thesis using eff True by (auto simp: deleted_only_def)
      qed
    qed
  qed
qed

text \<open>
  C2.  The cleanup finalizer leaves a stored chain of this vendor only when the chain is being
  deleted and each DPF object it translates to is gone or has had its deletion requested; a failed
  deletion keeps the finalizer.  With its last finalizer the chain itself is gone; otherwise it is
  stored as it was, with the other finalizers.
\<close>

theorem finalizer_released_after_cleanup:
  assumes "wired r fleet" and "indexed m" and "sfcs m req = Some s" and "isNVIDIAManaged (ObjSFC s)"
    and "Reconcile r now req (m, v) = ((t, e), (m', v'))"
    and "chainFinalizer \<in> set (Finalizers s)" and "\<forall>x. sfcs m' req = Some x \<longrightarrow> chainFinalizer \<notin> set (Finalizers x)"
  shows "deleted s \<and>
    (\<forall>u \<in> set (chain_objects fleet s). object_key u \<in> doomed m' \<or> objs m' (object_key u) = None) \<and>
    released s (sfcs m' req)"
proof (cases "deleted s")
  case True
  have "sfcs m' \<noteq> sfcs m"
    using assms(3,6,7) by auto
  then obtain x where m': "sfcs m' = (sfcs m)(req := x)" and r: "released s x"
    and o: "\<forall>u \<in> set (chain_objects fleet s). object_key u \<in> doomed m' \<or> objs m' (object_key u) = None"
    using deletion_pass [OF assms(1-4) True assms(5)] by blast
  have x: "sfcs m' req = x"
    by (simp add: m')
  show ?thesis
    unfolding x using True o r by blast
next
  case False
  have req: "req = key_of s"
    using assms(2,3) unfolding indexed_def by blast
  from live_pass [OF assms(1-4) False assms(5)] show ?thesis
  proof (elim disjE exE conjE)
    assume "m' = m"
    then show ?thesis using assms(3,6,7) by simp
  next
    fix s1 m1
    assume s1: "chainFinalizer \<in> set (Finalizers s1)" "s1\<lparr>Finalizers := Finalizers s\<rparr> = s"
      and c: "converged r fleet s1 m1 (t = 0 \<and> e = None) m'"
    have "\<exists>x. sfcs m' req = Some x \<and> Finalizers x = Finalizers s1"
      using c mirrored_Finalizers [of m1 s1 m']
      unfolding converged_def same_but_finalizers(2) [OF s1(2)] req [symmetric] by blast
    then show ?thesis
      using assms(7) s1(1) by auto
  qed
qed

lemma unmanaged_pass:
  assumes w: "wired r fleet" and idx: "indexed m" and s: "sfcs m req = Some s"
    and foreign: "\<not> isNVIDIAManaged (ObjSFC s)"
    and run: "Reconcile r now req (m, v) = ((t, e), (m', v'))"
  shows "m' = m \<or> deleted s \<and> (\<exists>x. m' = m\<lparr>sfcs := (sfcs m)(req := x)\<rparr> \<and> released s x)"
proof -
  have srv: "api_server r" and fl: "rec_Fleets r = Resolve fleet"
    using w by (simp_all add: wired_def)
  have rd: "reads (rec_lib r) (rec_Client r)" and doc: "documented (rec_lib r)"
    using srv by (simp_all add: api_server_def)
  have cf: "ContainsFinalizer (rec_lib r) fs f = (f \<in> set fs)" for fs f
    using doc by (simp add: documented_def)
  have req: "req = key_of s"
    using idx s unfolding indexed_def by blast
  obtain a m1 v1 where 1: "get_SFC (rec_Client r) req (m, v) = (a, (m1, v1))"
    by (metis prod.collapse)
  note g = readsD(1) [OF rd 1]
  show ?thesis
  proof (cases "(\<exists>err. a = Inl err) \<or> \<not> deleted s \<or> chainFinalizer \<notin> set (Finalizers s)")
    case True
    then show ?thesis
      using run g s foreign by (cases a) (auto simp: Reconcile_def 1 fl Resolve_def cf split: if_splits)
  next
    case False
    then have a: "a = Inr s" "m1 = m"
      using g s by (cases a; auto)+
    obtain e2 m2 v2 where 2: "removeFinalizer r s (m, v1) = (e2, (m2, v2))"
      by (metis prod.collapse)
    have "m' = m2"
      using run foreign False by (simp add: Reconcile_def 1 a fl Resolve_def cf 2)
    then show ?thesis
      using removeFinalizer_effect [OF srv _ _ 2] False by (auto simp: req split: if_splits)
  qed
qed

text \<open>
  C4.  A chain that is not this vendor's is left alone: no DPF object is written or deleted for it, no other
  chain and no DPU is touched, and the chain stays as it is.  The one exception is a chain that is being deleted
  and still carries the cleanup finalizer: the finalizer is taken off, and when it was the only one the chain is gone.
\<close>

theorem foreign_chains_untouched:
  assumes "wired r fleet" and "indexed m" and "sfcs m req = Some s" and "\<not> isNVIDIAManaged (ObjSFC s)"
    and "Reconcile r now req (m, v) = ((t, e), (m', v'))"
  shows "objs m' = objs m \<and> doomed m' = doomed m \<and> dpus m' = dpus m \<and> (\<forall>q. q \<noteq> req \<longrightarrow> sfcs m' q = sfcs m q) \<and>
    (sfcs m' req = Some s \<or> deleted s \<and> released s (sfcs m' req))"
  using unmanaged_pass [OF assms]
proof (elim disjE conjE exE)
  assume "m' = m"
  then show ?thesis using assms(3) by simp
next
  fix x assume "deleted s" and "m' = m\<lparr>sfcs := (sfcs m)(req := x)\<rparr>" and "released s x"
  then show ?thesis by simp
qed

lemma released_others: "released s (Some x) \<Longrightarrow> others x = others s"
  unfolding released_def others_def by (cases "set (Finalizers s) = {chainFinalizer}") (simp_all, elim conjE exE, simp)

text \<open>
  C24.  Whatever a pass does, the conditions other controllers keep on the chain survive it as long as the chain does, and
  the status of no other chain changes: \<open>DPFReady\<close> is the one condition the adapter writes.
\<close>

theorem owns_only_its_condition:
  assumes "wired r fleet" and "indexed m" and "sfcs m req = Some s"
    and "Reconcile r now req (m, v) = ((t, e), (m', v'))"
  shows "(\<forall>x. sfcs m' req = Some x \<longrightarrow> others x = others s) \<and> (sfcs m' req = None \<longrightarrow> deleted s) \<and>
    (\<forall>q. q \<noteq> req \<longrightarrow> sfcs m' q = sfcs m q)"
proof (cases "isNVIDIAManaged (ObjSFC s)")
  case False
  from unmanaged_pass [OF assms(1-3) False assms(4)] show ?thesis
  proof (elim disjE conjE exE)
    assume "m' = m"
    then show ?thesis using assms(3) by simp
  next
    fix x assume d: "deleted s" and m': "m' = m\<lparr>sfcs := (sfcs m)(req := x)\<rparr>" and r: "released s x"
    show ?thesis
      using released_others [of s] r d by (cases x) (simp_all add: m')
  qed
next
  case man: True
  show ?thesis
  proof (cases "deleted s")
    case True
    show ?thesis
    proof (cases "sfcs m' = sfcs m")
      case False
      then obtain x where m': "sfcs m' = (sfcs m)(req := x)" and r: "released s x"
        using deletion_pass [OF assms(1-3) man True assms(4)] by blast
      show ?thesis
        using released_others [of s] r True by (cases x) (simp_all add: m')
    qed (use assms(3) in simp)
  next
    case False
    have req: "req = key_of s"
      using assms(2,3) unfolding indexed_def by blast
    from live_pass [OF assms(1-3) man False assms(4)] show ?thesis
    proof (elim disjE exE conjE)
      assume "m' = m"
      then show ?thesis using assms(3) by simp
    next
      fix s1 m1
      assume s1: "s1\<lparr>Finalizers := Finalizers s\<rparr> = s" and m1: "m1 = m\<lparr>sfcs := (sfcs m)(req \<mapsto> s1)\<rparr>"
        and c: "converged r fleet s1 m1 (t = 0 \<and> e = None) m'"
      note same = same_but_finalizers [OF s1]
      obtain x where "sfcs m' = (sfcs m1)(req \<mapsto> x)" "others x = others s"
        using c unfolding converged_def mirrored_def same(2,3) req [symmetric] by blast
      then show ?thesis
        by (simp add: m1)
    qed
  qed
qed

text \<open>
  When the probe of the fleet fails, the pass overwrites the adapter's own condition with a
  false one, whatever it said before: a chain that was \<open>Ready\<close> does not stay so.
\<close>

theorem unreachable_clears_ready:
  assumes w: "wired r fleet" and idx: "indexed m" and s: "sfcs m req = Some s"
    and managed: "isNVIDIAManaged (ObjSFC s)" and live: "\<not> deleted s" and fin: "chainFinalizer \<in> set (Finalizers s)"
    and probe: "\<And>w. Probe fleet = Some p \<and> fst (p w) \<noteq> None"
    and run: "Reconcile r now req (m, v) = ((t, None), (m', v'))"
  shows "\<exists>x. sfcs m' req = Some x \<and> (\<exists>c. shown CondDPFReady (sfc_Conditions (sfc_Status x)) = Some c \<and>
       cond_Status c = ''False'' \<and> cond_Reason c = ReasonDPUClusterUnreach)"
proof -
  have srv: "api_server r" and fl: "rec_Fleets r = Resolve fleet"
    using w by (simp_all add: wired_def)
  have rd: "reads (rec_lib r) (rec_Client r)" and pt: "patches (rec_Client r)" and doc: "documented (rec_lib r)"
    using srv by (simp_all add: api_server_def)
  have cf: "ContainsFinalizer (rec_lib r) fs f = (f \<in> set fs)" for fs f
    using doc by (simp add: documented_def)
  have req: "req = key_of s"
    using idx s unfolding indexed_def by blast
  obtain a m1 v1 where 1: "get_SFC (rec_Client r) req (m, v) = (a, (m1, v1))"
    by (metis prod.collapse)
  note g = readsD(1) [OF rd 1]
  have a: "a = Inr s" and m1: "m1 = m"
    using g s run by (cases a; auto simp: Reconcile_def 1 split: if_splits)+
  obtain perr m2 v2 where 2: "p (m, v1) = (Some perr, (m2, v2))"
    using probe [of "(m, v1)"] by (metis prod.collapse option.collapse)
  have m2: "m2 = m"
    using w 2 probe unfolding wired_def by blast
  define c where "c = degraded ReasonDPUClusterUnreach (Sprintf ''DPU cluster unreachable: %v'' [AErr perr]) (Generation s)"
  define cs where "cs = SetStatusCondition (rec_lib r) now (sfc_Conditions (sfc_Status s)) c"
  let ?s = "s\<lparr>sfc_Status := \<lparr>sfc_Conditions = cs, sfc_ObservedGeneration = Generation s\<rparr>\<rparr>"
  obtain e3 m3 v3 where 3: "status_patch_SFC (rec_Client r) s ?s (m, v2) = (e3, (m3, v3))"
    by (metis prod.collapse)
  have "e3 = None \<and> m' = m3"
    using run managed live fin probe
    by (auto simp: Reconcile_def 1 a m1 fl Resolve_def cf probe_and_converge_def 2 m2 c_def [symmetric] patchSFCStatus_def
        cs_def [symmetric] 3 split: option.splits)
  then have m': "m' = m\<lparr>sfcs := (sfcs m)(req \<mapsto> ?s)\<rparr>"
    using patchesD(3) [OF pt 3] s by (simp add: req)
  have c: "cond_Type c = CondDPFReady" "cond_Status c = ''False''" "cond_Reason c = ReasonDPUClusterUnreach"
    by (simp_all add: c_def degraded_def condition_def)
  have "\<exists>x. shown CondDPFReady cs = Some x \<and> cond_Status x = ''False'' \<and> cond_Reason x = ReasonDPUClusterUnreach"
    using doc unfolding documented_def cs_def by (metis c)
  then show ?thesis
    by (simp add: m')
qed

section \<open>A server that behaves\<close>

text \<open>The library functions and a server that accepts every call, to run the reconcilers on.\<close>

fun json_at :: "json \<Rightarrow> string list \<Rightarrow> json option" where
  "json_at j [] = Some j"
| "json_at (JObject m) (f # fs) = (case map_of m f of None \<Rightarrow> None | Some j \<Rightarrow> json_at j fs)"
| "json_at _ (f # fs) = None"

definition nested :: "Unstructured \<Rightarrow> string list \<Rightarrow> json option" where
  "nested u path = (case u_Status u of None \<Rightarrow> None | Some s \<Rightarrow> json_at (JObject [(''status'', s)]) path)"

definition lib :: machinery where
  "lib = \<lparr>IsNotFound = (\<lambda>e. e = External ''not found''), IsNoMatchError = (\<lambda>e. e = External ''no match''),
     IsNotRegisteredError = (\<lambda>e. False), IsServerTimeout = (\<lambda>e. e = External ''server timeout''), IsTimeout = (\<lambda>e. False),
     IsServiceUnavailable = (\<lambda>e. False), IsInternalError = (\<lambda>e. False),
     SetStatusCondition = (\<lambda>now cs c.
       if \<exists>x \<in> set cs. cond_Type x = cond_Type c
       then map (\<lambda>x. if cond_Type x = cond_Type c then c\<lparr>LastTransitionTime := now\<rparr> else x) cs
       else cs @ [c\<lparr>LastTransitionTime := now\<rparr>]),
     ContainsFinalizer = (\<lambda>fs f. f \<in> set fs), AddFinalizer = (\<lambda>fs f. if f \<in> set fs then fs else fs @ [f]),
     RemoveFinalizer = (\<lambda>fs f. filter (\<lambda>x. x \<noteq> f) fs),
     NestedMap = (\<lambda>u p. case nested u p of Some (JObject m) \<Rightarrow> (m, True, None) | None \<Rightarrow> ([], False, None)
       | Some _ \<Rightarrow> ([], False, Some (External ''wrong type''))),
     NestedString = (\<lambda>u p. case nested u p of Some (JString s) \<Rightarrow> (s, True, None) | None \<Rightarrow> ('''', False, None)
       | Some _ \<Rightarrow> ('''', False, Some (External ''wrong type''))),
     NestedSlice = (\<lambda>u p. case nested u p of Some (JArray js) \<Rightarrow> (js, True, None) | None \<Rightarrow> ([], False, None)
       | Some _ \<Rightarrow> ([], False, Some (External ''wrong type''))),
     GVKString = (\<lambda>(a, k). a @ '', Kind='' @ k)\<rparr>"

lemma lib_documented: "documented lib"
proof -
  have filt: "filter (\<lambda>x. cond_Type x \<noteq> cond_Type c)
      (map (\<lambda>x. if cond_Type x = cond_Type c then c\<lparr>LastTransitionTime := now\<rparr> else x) cs) =
      filter (\<lambda>x. cond_Type x \<noteq> cond_Type c) cs" for cs now and c :: Condition
    by (induction cs) auto
  have shown_map: "\<exists>x \<in> set cs. cond_Type x = cond_Type c \<Longrightarrow> shown (cond_Type c)
      (map (\<lambda>x. if cond_Type x = cond_Type c then c\<lparr>LastTransitionTime := now\<rparr> else x) cs) =
      Some (c\<lparr>LastTransitionTime := now\<rparr>)" for cs now and c :: Condition
    by (induction cs) (auto simp: shown_def)
  have shown_add: "\<not> (\<exists>x \<in> set cs. cond_Type x = cond_Type c) \<Longrightarrow>
      shown (cond_Type c) (cs @ [c\<lparr>LastTransitionTime := now\<rparr>]) = Some (c\<lparr>LastTransitionTime := now\<rparr>)"
    for cs now and c :: Condition
    by (induction cs) (auto simp: shown_def)
  show ?thesis
    unfolding documented_def lib_def by (simp add: filt shown_map shown_add) (auto simp: filter_id_conv)
qed

definition answer :: "'a option \<Rightarrow> go_error + 'a" where
  "answer x = (case x of None \<Rightarrow> Inl (External ''not found'') | Some y \<Rightarrow> Inr y)"

definition server :: "(api \<times> unit) Client" where
  "server =
     \<lparr>get_SFC = (\<lambda>q (m, v). (answer (sfcs m q), (m, v))),
      get_DPU = (\<lambda>q (m, v). (answer (dpus m q), (m, v))),
      get_unstructured = (\<lambda>g q (m, v). (answer (objs m (fst g, snd g, fst q, snd q)), (m, v))),
      patch_SFC = (\<lambda>b s (m, v). ((None, s), (m\<lparr>sfcs := (sfcs m)((Namespace s, Name s) := (if let_go b s then None else Some s))\<rparr>, v))),
      patch_DPU = (\<lambda>b s (m, v). ((None, s), (m\<lparr>dpus := (dpus m)((Namespace s, Name s) := (if let_go b s then None else Some s))\<rparr>, v))),
      status_patch_SFC = (\<lambda>b s (m, v). (None, (m\<lparr>sfcs := (sfcs m)((Namespace s, Name s) :=
         map_option (\<lambda>x. x\<lparr>sfc_Status := sfc_Status s\<rparr>) (sfcs m (Namespace s, Name s)))\<rparr>, v))),
      status_patch_DPU = (\<lambda>b s (m, v). (None, (m\<lparr>dpus := (dpus m)((Namespace s, Name s) :=
         map_option (\<lambda>x. x\<lparr>dpu_Status := dpu_Status s\<rparr>) (dpus m (Namespace s, Name s)))\<rparr>, v))),
      apply_unstructured = (\<lambda>u (m, v).
        let u' = u\<lparr>u_Status := (case objs m (object_key u) of None \<Rightarrow> None | Some g \<Rightarrow> u_Status g)\<rparr>
        in ((None, u'), (m\<lparr>objs := (objs m)(object_key u \<mapsto> u')\<rparr>, v))),
      delete_unstructured = (\<lambda>u (m, v).
        if objs m (object_key u) = None then (Some (External ''not found''), (m, v))
        else (None, (m\<lparr>doomed := insert (object_key u) (doomed m)\<rparr>, v)))\<rparr>"

definition one_fleet :: "(api \<times> unit) DPUClusterProbe option \<Rightarrow> (api \<times> unit) Fleet" where
  "one_fleet p = \<lparr>fl_Name = ''default'', fl_Namespace = ''dpf'', fl_NodeSelector = [], fl_DPUFlavor = '''', Probe = p\<rparr>"

definition adapter :: "(api \<times> unit) Fleet \<Rightarrow> (api \<times> unit) ServiceFunctionChainReconciler" where
  "adapter fleet =
     \<lparr>rec_Client = server, rec_lib = lib, rec_Translator = NewDPFTranslator, rec_Fleets = Resolve fleet\<rparr>"

lemma object_key_status [simp]: "object_key (u\<lparr>u_Status := s\<rparr>) = object_key u"
  by (simp add: object_key_def)

lemma server_behaves: "api_server (adapter fleet)"
proof -
  have "reads lib server"
    unfolding reads_def server_def by (auto simp: answer_def lib_def split: option.splits sum.splits)
  moreover have "patches server"
    unfolding patches_def server_def by auto
  moreover have "writes lib server"
    unfolding writes_def server_def by (auto simp: Let_def lib_def split: option.splits if_splits)
  moreover have "foreign_errors server"
    unfolding foreign_errors_def server_def
    by (auto simp: errDPFVersionUnsupported_def split: if_splits)
  ultimately show ?thesis
    by (simp add: api_server_def adapter_def lib_documented)
qed

lemma adapter_wired:
  assumes "Probe fleet = None \<or> Probe fleet = Some (Reachable s)"
  shows "wired (adapter fleet) fleet"
  using assms server_behaves [of fleet]
  by (auto simp: wired_def adapter_def Reachable_def split: if_splits)

text \<open>A chain without network functions, labelled for this vendor, and its one DPF object.\<close>

definition chain_with :: "string list \<Rightarrow> time option \<Rightarrow> string \<Rightarrow> Condition list \<Rightarrow> ServiceFunctionChain" where
  "chain_with fs del vendor cs =
     \<lparr>Name = ''c'', Namespace = ''ns'', Labels = [(VendorLabel, vendor)], Annotations = [], Finalizers = fs,
      DeletionTimestamp = del, Generation = 1, sfc_Spec = \<lparr>spec_NodeSelector = [], NetworkFunctions = []\<rparr>,
      sfc_Status = \<lparr>sfc_Conditions = cs, sfc_ObservedGeneration = 0\<rparr>\<rparr>"

abbreviation chain_key :: object_key where
  "chain_key \<equiv> (''svc.dpu.nvidia.com/v1alpha1'', ''DPUServiceChain'', ''dpf'', ''chain-default-c'')"

definition ready_chain :: Unstructured where
  "ready_chain =
     \<lparr>u_APIVersion = ''svc.dpu.nvidia.com/v1alpha1'', u_Kind = ''DPUServiceChain'', u_Name = ''chain-default-c'',
      u_Namespace = ''dpf'', u_Labels = [], u_Spec = [],
      u_Status = Some (JObject [(''conditions'', JArray [JObject [(''type'', JString ''Ready''), (''status'', JString ''True'')]])])\<rparr>"

definition holding :: "ServiceFunctionChain \<Rightarrow> Unstructured option \<Rightarrow> api" where
  "holding s u = \<lparr>sfcs = [key_of s \<mapsto> s], dpus = Map.empty, objs = (\<lambda>k. if k = chain_key then u else None), doomed = {}\<rparr>"

lemma holding_indexed: "indexed (holding s u)"
  by (auto simp: indexed_def holding_def split: if_splits)

lemmas run_defs = Reconcile_def adapter_def server_def answer_def holding_def chain_with_def Resolve_def isNVIDIAManaged_def
  str_at_def VendorLabel_def VendorNVIDIA_def is_zero_time_def lib_def

lemma chain_objects_default:
  "NetworkFunctions (sfc_Spec s) = [] \<Longrightarrow> Name s = ''c'' \<Longrightarrow>
     map object_key (ChainForSFC (fleetToTarget (one_fleet p)) s) = [chain_key]"
  by (simp add: ChainForSFC_def fleetToTarget_def one_fleet_def fleetName_def gvk_defs SvcGroup_def Version_def)

lemma chain_with_managed: "isNVIDIAManaged (ObjSFC (chain_with fs del ''nvidia'' cs))"
  by (simp add: run_defs)

lemma chain_with_run:
  assumes "m = holding (chain_with [chainFinalizer] None ''nvidia'' []) (Some ready_chain)"
  shows "\<exists>m'. Reconcile (adapter (one_fleet None)) 9 (''ns'', ''c'') (m, ()) = ((0, None), (m', ()))"
  unfolding assms
  by (simp add: run_defs probe_and_converge_def one_fleet_def converge_def NewDPFTranslator_def ChainForSFC_def Let_def
      apply_object_def fleetToTarget_def fleetName_def gvk_defs SvcGroup_def Version_def base_def object_key_def
      classifyDPFError_def gvk_of_def ready_chain_def dpfObjectReady_def nested_def patchSFCStatus_def)

theorem chain_done_means_ready_witness:
  "\<exists>m'. Reconcile (adapter (one_fleet None)) 9 (''ns'', ''c'')
      (holding (chain_with [chainFinalizer] None ''nvidia'' []) (Some ready_chain), ()) = ((0, None), (m', ())) \<and>
     (\<exists>g. objs m' chain_key = Some g \<and> dpfObjectReady lib g)"
proof -
  let ?s = "chain_with [chainFinalizer] None ''nvidia'' []"
  obtain m' where run: "Reconcile (adapter (one_fleet None)) 9 (''ns'', ''c'') (holding ?s (Some ready_chain), ()) =
      ((0, None), (m', ()))"
    using chain_with_run by blast
  have s: "sfcs (holding ?s (Some ready_chain)) (''ns'', ''c'') = Some ?s" and live: "\<not> deleted ?s"
    by (simp_all add: holding_def chain_with_def is_zero_time_def)
  have w: "wired (adapter (one_fleet None)) (one_fleet None)"
    by (rule adapter_wired) (simp add: one_fleet_def)
  have "map object_key (chain_objects (one_fleet None) ?s) = [chain_key]"
    by (rule chain_objects_default) (simp_all add: chain_with_def)
  then obtain u where "u \<in> set (chain_objects (one_fleet None) ?s)" "object_key u = chain_key"
    by auto
  with chain_done_means_ready [OF w holding_indexed s chain_with_managed live run] run show ?thesis
    by (auto simp: adapter_def)
qed

lemmas chain_run_defs = run_defs probe_and_converge_def one_fleet_def converge_def NewDPFTranslator_def ChainForSFC_def
  apply_object_def fleetToTarget_def fleetName_def gvk_defs SvcGroup_def Version_def base_def object_key_def
  classifyDPFError_def gvk_of_def ready_chain_def dpfObjectReady_def nested_def patchSFCStatus_def addFinalizer_def
  removeFinalizer_def Let_def

lemma one_fleet_wired: "wired (adapter (one_fleet None)) (one_fleet None)"
  by (rule adapter_wired) (simp add: one_fleet_def)

lemma holding_at [simp]: "Name s = ''c'' \<Longrightarrow> Namespace s = ''ns'' \<Longrightarrow> sfcs (holding s u) (''ns'', ''c'') = Some s"
  by (simp add: holding_def)

lemma chain_with_names [simp]:
  "Name (chain_with fs del v cs) = ''c''" "Namespace (chain_with fs del v cs) = ''ns''"
  "Finalizers (chain_with fs del v cs) = fs" "DeletionTimestamp (chain_with fs del v cs) = del"
  "NetworkFunctions (sfc_Spec (chain_with fs del v cs)) = []"
  by (simp_all add: chain_with_def)

lemma first_pass:
  "\<exists>m'. Reconcile (adapter (one_fleet None)) 9 (''ns'', ''c'') (holding (chain_with [] None ''nvidia'' cs) None, ()) =
      ((15 * second, None), (m', ())) \<and> objs m' chain_key \<noteq> None"
  by (simp add: chain_run_defs requeueProvisioning_def)

theorem adopted_before_created_witness:
  "\<exists>m' x. Reconcile (adapter (one_fleet None)) 9 (''ns'', ''c'') (holding (chain_with [] None ''nvidia'' []) None, ()) =
      ((15 * second, None), (m', ())) \<and> sfcs m' (''ns'', ''c'') = Some x \<and> chainFinalizer \<in> set (Finalizers x)"
proof -
  let ?m = "holding (chain_with [] None ''nvidia'' []) None"
  obtain m' where run: "Reconcile (adapter (one_fleet None)) 9 (''ns'', ''c'') (?m, ()) = ((15 * second, None), (m', ()))"
    and new: "objs m' chain_key \<noteq> None"
    using first_pass [of "[]"] by blast
  have k: "objs m' chain_key \<noteq> objs ?m chain_key"
    using new by (simp add: holding_def)
  show ?thesis
    using adopted_before_created [OF one_fleet_wired holding_indexed holding_at chain_with_managed _ run k] run
    by (simp add: is_zero_time_def)
qed

lemma last_pass:
  "\<exists>m'. Reconcile (adapter (one_fleet None)) 9 (''ns'', ''c'')
      (holding (chain_with [chainFinalizer] (Some 5) ''nvidia'' []) (Some ready_chain), ()) = ((0, None), (m', ())) \<and>
      (\<forall>x. sfcs m' (''ns'', ''c'') = Some x \<longrightarrow> chainFinalizer \<notin> set (Finalizers x))"
  by (simp add: chain_run_defs zero_time_def second_def)

theorem finalizer_released_after_cleanup_witness:
  "\<exists>m'. Reconcile (adapter (one_fleet None)) 9 (''ns'', ''c'')
      (holding (chain_with [chainFinalizer] (Some 5) ''nvidia'' []) (Some ready_chain), ()) = ((0, None), (m', ())) \<and>
      (chain_key \<in> doomed m' \<or> objs m' chain_key = None) \<and> sfcs m' (''ns'', ''c'') = None"
proof -
  let ?s = "chain_with [chainFinalizer] (Some 5) ''nvidia'' []"
  obtain m' where run: "Reconcile (adapter (one_fleet None)) 9 (''ns'', ''c'') (holding ?s (Some ready_chain), ()) =
      ((0, None), (m', ()))" and gone: "\<forall>x. sfcs m' (''ns'', ''c'') = Some x \<longrightarrow> chainFinalizer \<notin> set (Finalizers x)"
    using last_pass by blast
  have "map object_key (chain_objects (one_fleet None) ?s) = [chain_key]"
    by (rule chain_objects_default) simp_all
  then obtain u where "u \<in> set (chain_objects (one_fleet None) ?s)" "object_key u = chain_key"
    by auto
  with finalizer_released_after_cleanup [OF one_fleet_wired holding_indexed holding_at chain_with_managed run _ gone] run
  show ?thesis by (auto simp: released_def)
qed

theorem foreign_chains_untouched_witness:
  "objs (fst (snd (Reconcile (adapter (one_fleet None)) 9 (''ns'', ''c'')
     (holding (chain_with [chainFinalizer] (Some 5) ''intel'' []) None, ())))) = (\<lambda>k. None)"
proof -
  let ?m = "holding (chain_with [chainFinalizer] (Some 5) ''intel'' []) None"
  obtain t e m' v' where run: "Reconcile (adapter (one_fleet None)) 9 (''ns'', ''c'') (?m, ()) = ((t, e), (m', v'))"
    by (metis prod.collapse)
  have "\<not> isNVIDIAManaged (ObjSFC (chain_with [chainFinalizer] (Some 5) ''intel'' []))"
    by (simp add: run_defs)
  from foreign_chains_untouched [OF one_fleet_wired holding_indexed holding_at this run] run
  show ?thesis by (simp add: holding_def)
qed

definition daemon_ready :: Condition where
  "daemon_ready = \<lparr>cond_Type = ''Ready'', cond_Status = ''True'', cond_ObservedGeneration = 1, LastTransitionTime = 3,
     cond_Reason = ''Ok'', cond_Message = Text ''''\<rparr>"

theorem owns_only_its_condition_witness:
  "\<exists>m' x. Reconcile (adapter (one_fleet None)) 9 (''ns'', ''c'')
      (holding (chain_with [] None ''nvidia'' [daemon_ready]) None, ()) = ((15 * second, None), (m', ())) \<and>
      sfcs m' (''ns'', ''c'') = Some x \<and> others x = [daemon_ready]"
proof -
  let ?s = "chain_with [] None ''nvidia'' [daemon_ready]"
  obtain m' where run: "Reconcile (adapter (one_fleet None)) 9 (''ns'', ''c'') (holding ?s None, ()) =
      ((15 * second, None), (m', ()))"
    using first_pass [of "[daemon_ready]"] by blast
  have "others ?s = [daemon_ready]"
    by (simp add: others_def chain_with_def daemon_ready_def CondDPFReady_def)
  with owns_only_its_condition [OF one_fleet_wired holding_indexed holding_at run] run show ?thesis
    by (cases "sfcs m' (''ns'', ''c'')") (simp_all add: is_zero_time_def)
qed

definition down :: "(api \<times> unit) DPUClusterProbe" where "down = Reachable (NewStaticProbe False)"

lemma down_pass:
  "\<exists>m'. Reconcile (adapter (one_fleet (Some down))) 9 (''ns'', ''c'')
      (holding (chain_with [chainFinalizer] None ''nvidia'' [condition ''True'' ReasonChainProgrammed (Text '''') 1])
        (Some ready_chain), ()) = ((30 * second, None), (m', ()))"
  by (simp add: chain_run_defs down_def Reachable_def NewStaticProbe_def requeueTransient_def)

theorem unreachable_clears_ready_witness:
  "\<exists>m' x. Reconcile (adapter (one_fleet (Some down))) 9 (''ns'', ''c'')
      (holding (chain_with [chainFinalizer] None ''nvidia'' [condition ''True'' ReasonChainProgrammed (Text '''') 1])
        (Some ready_chain), ()) = ((30 * second, None), (m', ())) \<and> sfcs m' (''ns'', ''c'') = Some x \<and>
     (\<exists>c. shown CondDPFReady (sfc_Conditions (sfc_Status x)) = Some c \<and> cond_Status c = ''False'')"
proof -
  let ?s = "chain_with [chainFinalizer] None ''nvidia'' [condition ''True'' ReasonChainProgrammed (Text '''') 1]"
  obtain m' where run: "Reconcile (adapter (one_fleet (Some down))) 9 (''ns'', ''c'') (holding ?s (Some ready_chain), ()) =
      ((30 * second, None), (m', ()))"
    using down_pass by blast
  have w: "wired (adapter (one_fleet (Some down))) (one_fleet (Some down))"
    by (rule adapter_wired) (simp add: one_fleet_def down_def)
  have p: "Probe (one_fleet (Some down)) = Some down \<and> fst (down x) \<noteq> None" for x
    by (simp add: one_fleet_def down_def Reachable_def NewStaticProbe_def)
  have live: "\<not> deleted ?s" and fin: "chainFinalizer \<in> set (Finalizers ?s)"
    by (simp_all add: is_zero_time_def)
  obtain x where "sfcs m' (''ns'', ''c'') = Some x"
    "\<exists>c. shown CondDPFReady (sfc_Conditions (sfc_Status x)) = Some c \<and> cond_Status c = ''False''"
    using unreachable_clears_ready [OF w holding_indexed holding_at chain_with_managed live fin p run] by auto
  with run show ?thesis by blast
qed

end
