(* ===== verification/FleetVsp.thy ===== *)
theory FleetVsp
  imports FleetCluster
begin

text \<open>
  \<open>kartikey/internal/vsp\<close>: the node-side vendor plugin, which reads the endpoint the fleet adapter
  published on the DPU object and records intents on it; and what the DPU reconciler and the plugin
  achieve together over one API server.
\<close>

section \<open>The vendor plugin\<close>

record InitResponse =
  DataplaneEndpoint :: string
  Ready :: bool
  Reason :: string

record vsp_NetworkFunction =
  Input :: string
  Output :: string
  BridgeID :: string

record DpuNetworkConfig =
  IsAccelerated :: bool

record PingRequest =
  req_Timestamp :: "64 word"
  SenderID :: string

record PingResponse =
  resp_Timestamp :: "64 word"
  ResponderID :: string
  Healthy :: bool

definition ErrNotProvisioned :: go_error where
  "ErrNotProvisioned = Sentinel ''dpu not yet provisioned by DPF''"

record 'w NvidiaVSP =
  vsp_Client :: "'w Client"
  DPURef :: NamespacedName

definition dpu_of :: "'w NvidiaVSP \<Rightarrow> 'w \<Rightarrow> (go_error + DataProcessingUnit) \<times> 'w" where
  "dpu_of v w =
     (case get_DPU (vsp_Client v) (DPURef v) w of
        (Inl err, w1) \<Rightarrow>
          (Inl (Errorf ''get DataProcessingUnit %s: %w'' [AStr (fst (DPURef v) @ ''/'' @ snd (DPURef v)), AWrap err]), w1)
      | (Inr d, w1) \<Rightarrow> (Inr d, w1))"

definition recordIntent :: "'w NvidiaVSP \<Rightarrow> string \<Rightarrow> 'w \<Rightarrow> go_error option \<times> 'w" where
  "recordIntent v intent w =
     (case dpu_of v w of
        (Inl err, w1) \<Rightarrow> (Some err, w1)
      | (Inr d, w1) \<Rightarrow>
          (case patch_DPU (vsp_Client v) d (d\<lparr>Annotations := AList.update IntentAnnotation intent (Annotations d)\<rparr>) w1 of
             ((Some err, _), w2) \<Rightarrow>
               (Some (Errorf ''patch intent %q onto %s: %w''
                  [AStr intent, AStr (fst (DPURef v) @ ''/'' @ snd (DPURef v)), AWrap err]), w2)
           | ((None, _), w2) \<Rightarrow> (None, w2)))"

text \<open>
  \<open>apierrors.IsNotFound\<close> looks through the wrapping of \<open>dpu\<close>; \<open>not_found\<close> is that test on the
  wrapped error.
\<close>

definition vsp_Init :: "(go_error \<Rightarrow> bool) \<Rightarrow> 'w NvidiaVSP \<Rightarrow> 'w \<Rightarrow> (go_error + InitResponse) \<times> 'w" where
  "vsp_Init not_found v w =
     (case dpu_of v w of
        (Inl err, w1) \<Rightarrow>
          if not_found err
          then (Inr \<lparr>DataplaneEndpoint = '''', Ready = False, Reason = ''DataProcessingUnitPending''\<rparr>, w1)
          else (Inl err, w1)
      | (Inr d, w1) \<Rightarrow>
          (let endpoint = str_at (Annotations d) EndpointAnnotation in
           if endpoint = ''''
           then (Inr \<lparr>DataplaneEndpoint = '''', Ready = False, Reason = ''Provisioning''\<rparr>,
                 snd (recordIntent v ''provision'' w1))
           else (Inr \<lparr>DataplaneEndpoint = endpoint, Ready = True, Reason = ''''\<rparr>, w1)))"

definition vsp_GetDevices :: "'w NvidiaVSP \<Rightarrow> 'w \<Rightarrow> (go_error + string list) \<times> 'w" where
  "vsp_GetDevices v w =
     (case dpu_of v w of
        (Inl err, w1) \<Rightarrow> (Inl err, w1)
      | (Inr d, w1) \<Rightarrow>
          (Inr (if DpuProductName (dpu_Spec d) = '''' then [] else [DpuProductName (dpu_Spec d)]), w1))"

definition vsp_SetNumVfs :: "'w NvidiaVSP \<Rightarrow> int32 \<Rightarrow> 'w \<Rightarrow> go_error option \<times> 'w" where
  "vsp_SetNumVfs v vfs = recordIntent v (''set-num-vfs='' @ itoa (sint vfs))"

definition vsp_CreateNetworkFunction :: "'w NvidiaVSP \<Rightarrow> vsp_NetworkFunction \<Rightarrow> 'w \<Rightarrow> go_error option \<times> 'w" where
  "vsp_CreateNetworkFunction v nf w =
     (if Input nf = '''' then (Some (Errorf ''CreateNetworkFunction: empty input port'' []), w)
      else recordIntent v (''nf:'' @ Input nf @ ''->'' @ Output nf @ ''@'' @ BridgeID nf) w)"

definition vsp_DeleteNetworkFunction :: "'w NvidiaVSP \<Rightarrow> vsp_NetworkFunction \<Rightarrow> 'w \<Rightarrow> go_error option \<times> 'w" where
  "vsp_DeleteNetworkFunction v nf = recordIntent v (''delete-nf:'' @ Input nf)"

definition vsp_SetDpuNetworkConfig :: "'w NvidiaVSP \<Rightarrow> DpuNetworkConfig \<Rightarrow> 'w \<Rightarrow> go_error option \<times> 'w" where
  "vsp_SetDpuNetworkConfig v cfg =
     recordIntent v (''dpunetwork-accelerated='' @ (if IsAccelerated cfg then ''true'' else ''false''))"

definition vsp_Ping :: "'w NvidiaVSP \<Rightarrow> PingRequest \<Rightarrow> go_error + PingResponse" where
  "vsp_Ping v req = Inr \<lparr>resp_Timestamp = req_Timestamp req, ResponderID = ''nvidia-vsp'', Healthy = True\<rparr>"

section \<open>Effects\<close>

lemma annotating_keeps [simp]: "\<not> let_go d (d\<lparr>Annotations := a\<rparr>)"
  by (simp add: let_go_def)

lemma recordIntent_effect:
  assumes "reads k (vsp_Client v)" and "patches (vsp_Client v)" and "indexed m"
    and "recordIntent v intent (m, x) = (None, (m', x'))"
  shows "\<exists>d. dpus m (DPURef v) = Some d \<and>
    m' = m\<lparr>dpus := (dpus m)(DPURef v \<mapsto> d\<lparr>Annotations := AList.update IntentAnnotation intent (Annotations d)\<rparr>)\<rparr>"
proof -
  obtain a m1 x1 where 1: "get_DPU (vsp_Client v) (DPURef v) (m, x) = (a, (m1, x1))"
    by (metis prod.collapse)
  note g = readsD(2) [OF assms(1) 1]
  obtain d where a: "a = Inr d"
    using assms(4) by (cases a) (auto simp: recordIntent_def dpu_of_def 1)
  have m1: "m1 = m" and d: "dpus m (DPURef v) = Some d"
    using g a by auto
  have ref: "DPURef v = (Namespace d, Name d)"
    using assms(3) d unfolding indexed_def by blast
  let ?d = "d\<lparr>Annotations := AList.update IntentAnnotation intent (Annotations d)\<rparr>"
  obtain e d2 m2 x2 where 2: "patch_DPU (vsp_Client v) d ?d (m, x1) = ((e, d2), (m2, x2))"
    by (metis prod.collapse)
  have "e = None" "m' = m2"
    using assms(4) by (auto simp: recordIntent_def dpu_of_def 1 a m1 2 split: option.splits)
  then show ?thesis
    using patchesD(2) [OF assms(2) 2] d by (simp add: ref)
qed

lemma readDPUPhase_effect:
  assumes "api_server r" and "readDPUPhase r fleet d (m, v) = (a, (m', v'))"
  shows "m' = m" "\<forall>g. objs m (''provisioning.dpu.nvidia.com/v1alpha1'', ''DPU'', fl_Namespace fleet, ''dpu-'' @ Name d) = Some g \<longrightarrow>
     (\<forall>ph ep. a = Inr (ph, ep) \<longrightarrow>
        ph = fst (NestedString (rec_lib r) g [''status'', ''phase'']) \<and>
        ep = fst (NestedString (rec_lib r) g [''status'', ''dataplaneEndpoint'']))"
    "\<forall>ep. a = Inr (DPUPhaseReady, ep) \<longrightarrow>
     (\<exists>g. objs m (''provisioning.dpu.nvidia.com/v1alpha1'', ''DPU'', fl_Namespace fleet, ''dpu-'' @ Name d) = Some g \<and>
        fst (NestedString (rec_lib r) g [''status'', ''phase'']) = DPUPhaseReady)"
proof -
  have rd: "reads (rec_lib r) (rec_Client r)"
    using assms(1) by (simp add: api_server_def)
  let ?gvk = "(Group DPUGVK @ ''/'' @ GVKVersion DPUGVK, GVKKind DPUGVK)"
  obtain b m1 v1 where 1: "get_unstructured (rec_Client r) ?gvk (fl_Namespace fleet, ''dpu-'' @ Name d) (m, v) = (b, (m1, v1))"
    by (metis prod.collapse)
  have g: "m1 = m" "case b of
      Inr u \<Rightarrow> objs m (''provisioning.dpu.nvidia.com/v1alpha1'', ''DPU'', fl_Namespace fleet, ''dpu-'' @ Name d) = Some u
    | Inl e \<Rightarrow> IsNotFound (rec_lib r) e \<longrightarrow>
        objs m (''provisioning.dpu.nvidia.com/v1alpha1'', ''DPU'', fl_Namespace fleet, ''dpu-'' @ Name d) = None"
    using readsD(3) [OF rd 1] by (cases b; simp add: gvk_defs ProvisioningGroup_def Version_def)+
  show "m' = m"
    using assms(2) g unfolding readDPUPhase_def Let_def 1 by (auto split: sum.splits option.splits if_splits prod.splits)
  show "\<forall>g. objs m (''provisioning.dpu.nvidia.com/v1alpha1'', ''DPU'', fl_Namespace fleet, ''dpu-'' @ Name d) = Some g \<longrightarrow>
     (\<forall>ph ep. a = Inr (ph, ep) \<longrightarrow>
        ph = fst (NestedString (rec_lib r) g [''status'', ''phase'']) \<and>
        ep = fst (NestedString (rec_lib r) g [''status'', ''dataplaneEndpoint'']))"
    using assms(2) g unfolding readDPUPhase_def Let_def 1 by (auto split: sum.splits option.splits if_splits prod.splits)
  show "\<forall>ep. a = Inr (DPUPhaseReady, ep) \<longrightarrow>
     (\<exists>g. objs m (''provisioning.dpu.nvidia.com/v1alpha1'', ''DPU'', fl_Namespace fleet, ''dpu-'' @ Name d) = Some g \<and>
        fst (NestedString (rec_lib r) g [''status'', ''phase'']) = DPUPhaseReady)"
    using assms(2) g unfolding readDPUPhase_def Let_def 1
    by (auto simp: phase_defs split: sum.splits option.splits if_splits prod.splits)
qed

lemma publish_effect:
  assumes "patches (rec_Client r)" and "dpus m (Namespace d, Name d) = Some d"
    and "publish_endpoint r ep d (m, v) = ((None, d1), (m', v'))"
  shows "dpus m' = (dpus m)((Namespace d, Name d) \<mapsto> d1)" "objs m' = objs m"
    "str_at (Annotations d1) EndpointAnnotation = (if ep = '''' then str_at (Annotations d) EndpointAnnotation else ep)"
    "Name d1 = Name d" "Namespace d1 = Namespace d"
proof -
  let ?d = "d\<lparr>Annotations := AList.update EndpointAnnotation ep (Annotations d)\<rparr>"
  obtain e d2 m2 v2 where 2: "patch_DPU (rec_Client r) d ?d (m, v) = ((e, d2), (m2, v2))"
    by (metis prod.collapse)
  note p = patchesD(2) [OF assms(1) 2]
  have "d1 = (if ep \<noteq> '''' \<and> str_at (Annotations d) EndpointAnnotation \<noteq> ep then ?d else d) \<and>
      dpus m' = (dpus m)((Namespace d, Name d) \<mapsto> d1) \<and> objs m' = objs m"
    using assms(2,3) p by (auto simp: publish_endpoint_def 2 fun_upd_idem split: if_splits)
  then show "dpus m' = (dpus m)((Namespace d, Name d) \<mapsto> d1)" "objs m' = objs m"
    "str_at (Annotations d1) EndpointAnnotation = (if ep = '''' then str_at (Annotations d) EndpointAnnotation else ep)"
    "Name d1 = Name d" "Namespace d1 = Namespace d"
    by (auto simp: str_at_def)
qed

lemma patchDPUCondition_effect:
  assumes "patches (rec_Client r)" and "dpus m (Namespace d, Name d) = Some d"
    and "patchDPUCondition r now d c (m, v) = (None, (m', v'))"
  shows "objs m' = objs m" "dpus m' = (dpus m)((Namespace d, Name d) \<mapsto>
      d\<lparr>dpu_Status := \<lparr>dpu_Conditions = SetStatusCondition (rec_lib r) now (dpu_Conditions (dpu_Status d)) c\<rparr>\<rparr>)"
  using patchesD(4) [OF assms(1) assms(3) [unfolded patchDPUCondition_def]] assms(2) by simp_all

abbreviation dpu_key :: "(api \<times> 'v) Fleet \<Rightarrow> DataProcessingUnit \<Rightarrow> object_key" where
  "dpu_key fleet d \<equiv> (''provisioning.dpu.nvidia.com/v1alpha1'', ''DPU'', fl_Namespace fleet, ''dpu-'' @ Name d)"

lemma dpu_pass:
  assumes w: "wired r fleet" and idx: "indexed m" and d: "dpus m req = Some d"
    and managed: "isNVIDIAManaged (ObjDPU d)"
    and run: "dpu_Reconcile r now req (m, v) = ((t, None), (m', v'))"
  shows "t = requeueTransient \<or>
    (\<exists>phase ep x. t = (if phase = DPUPhaseReady then 0 else requeueProvisioning) \<and>
       dpus m' req = Some x \<and> objs m' (dpu_key fleet d) = objs m (dpu_key fleet d) \<and>
       str_at (Annotations x) EndpointAnnotation = (if ep = '''' then str_at (Annotations d) EndpointAnnotation else ep) \<and>
       (\<exists>c. shown CondDPFReady (dpu_Conditions (dpu_Status x)) = Some c \<and>
          cond_Status c = cond_Status (mapDPUPhase phase 0)) \<and>
       (\<forall>g. objs m (dpu_key fleet d) = Some g \<longrightarrow>
          phase = fst (NestedString (rec_lib r) g [''status'', ''phase'']) \<and>
          ep = fst (NestedString (rec_lib r) g [''status'', ''dataplaneEndpoint''])) \<and>
       (phase = DPUPhaseReady \<longrightarrow> (\<exists>g. objs m (dpu_key fleet d) = Some g)))"
proof -
  have srv: "api_server r" and fl: "rec_Fleets r = Resolve fleet" and tr: "rec_Translator r = NewDPFTranslator"
    using w by (simp_all add: wired_def)
  have rd: "reads (rec_lib r) (rec_Client r)" and pt: "patches (rec_Client r)" and doc: "documented (rec_lib r)"
    using srv by (simp_all add: api_server_def)
  have req: "req = (Namespace d, Name d)"
    using idx d unfolding indexed_def by blast
  obtain a m1 v1 where 1: "get_DPU (rec_Client r) req (m, v) = (a, (m1, v1))"
    by (metis prod.collapse)
  note g = readsD(2) [OF rd 1]
  have a: "a = Inr d" and m1: "m1 = m"
    using g d run by (cases a; auto simp: dpu_Reconcile_def 1 split: if_splits)+
  let ?dep = "DeploymentForFleet (fleetToTarget fleet)"
  obtain e2 u2 m2 v2 where 2: "apply_object r ?dep (m, v1) = ((e2, u2), (m2, v2))"
    by (metis prod.collapse)
  note ap = apply_object_effect [OF srv 2]
  have "object_key ?dep \<noteq> dpu_key fleet d"
    by (simp add: DeploymentForFleet_def Let_def gvk_defs object_key_def base_def)
  then have m2: "dpus m2 = dpus m" "objs m2 (dpu_key fleet d) = objs m (dpu_key fleet d)"
    using ap(2) by auto
  obtain b m3 v3 where 3: "readDPUPhase r fleet d (m2, v2) = (b, (m3, v3))"
    by (metis prod.collapse)
  note rdp = readDPUPhase_effect [OF srv 3]
  show ?thesis
  proof (cases "e2 = None \<and> (\<exists>phase ep. b = Inr (phase, ep))")
    case False
    then show ?thesis
      using run managed
      by (cases e2; cases b)
         (auto simp: dpu_Reconcile_def 1 a m1 fl Resolve_def tr NewDPFTranslator_def 2 3
            split: if_splits prod.splits option.splits)
  next
    case True
    then obtain phase ep where e2: "e2 = None" and b: "b = Inr (phase, ep)" by blast
    obtain e4 d4 m4 v4 where 4: "publish_endpoint r ep d (m2, v3) = ((e4, d4), (m4, v4))"
      by (metis prod.collapse)
    obtain e5 m5 v5 where 5: "patchDPUCondition r now d4 (mapDPUPhase phase (Generation d4)) (m4, v4) = (e5, (m5, v5))"
      by (metis prod.collapse)
    have out: "e4 = None" "e5 = None" "m' = m5" "t = (if phase = DPUPhaseReady then 0 else requeueProvisioning)"
      using run managed rdp(1)
      by (auto simp: dpu_Reconcile_def 1 a m1 fl Resolve_def tr NewDPFTranslator_def 2 e2 3 b 4 5
          split: option.splits if_splits)
    have "dpus m2 (Namespace d, Name d) = Some d"
      using d by (simp add: m2 req)
    note pub = publish_effect [OF pt this 4 [unfolded out]]
    have "dpus m4 (Namespace d4, Name d4) = Some d4"
      by (simp add: pub)
    note pc = patchDPUCondition_effect [OF pt this 5 [unfolded out]]
    have "cond_Status (mapDPUPhase phase n) = cond_Status (mapDPUPhase phase 0)"
      "cond_Type (mapDPUPhase phase n) = CondDPFReady" for n
      by (simp_all add: mapDPUPhase_def condition_def)
    then have status: "\<exists>c. shown CondDPFReady (SetStatusCondition (rec_lib r) now cs (mapDPUPhase phase n)) = Some c \<and>
        cond_Status c = cond_Status (mapDPUPhase phase 0)" for cs n
      using doc unfolding documented_def by metis
    let ?x = "d4\<lparr>dpu_Status := \<lparr>dpu_Conditions = SetStatusCondition (rec_lib r) now (dpu_Conditions (dpu_Status d4))
        (mapDPUPhase phase (Generation d4))\<rparr>\<rparr>"
    have x: "dpus m' req = Some ?x" "objs m' (dpu_key fleet d) = objs m (dpu_key fleet d)"
      "str_at (Annotations ?x) EndpointAnnotation = (if ep = '''' then str_at (Annotations d) EndpointAnnotation else ep)"
      using pc pub m2 by (simp_all add: req out(3))
    have c: "\<exists>c. shown CondDPFReady (dpu_Conditions (dpu_Status ?x)) = Some c \<and>
        cond_Status c = cond_Status (mapDPUPhase phase 0)"
      using status by simp
    have g: "\<forall>g. objs m (dpu_key fleet d) = Some g \<longrightarrow> phase = fst (NestedString (rec_lib r) g [''status'', ''phase'']) \<and>
        ep = fst (NestedString (rec_lib r) g [''status'', ''dataplaneEndpoint''])"
      using rdp(2) b unfolding m2(2) by blast
    have e: "phase = DPUPhaseReady \<longrightarrow> (\<exists>g. objs m (dpu_key fleet d) = Some g)"
      using rdp(3) b unfolding m2(2) by blast
    show ?thesis
      using out(4) x c g e by blast
  qed
qed

text \<open>
  C5.  When a pass over a DPU of this vendor ends without an error and without asking to be called
  again, the DPF object of that DPU is stored with phase \<open>Ready\<close>, and the stored DPU carries the adapter's
  condition, with status true.
\<close>

theorem dpu_done_means_ready:
  assumes "wired r fleet" and "indexed m" and "dpus m req = Some d" and "isNVIDIAManaged (ObjDPU d)"
    and "dpu_Reconcile r now req (m, v) = ((0, None), (m', v'))"
  shows "\<exists>g x. objs m' (dpu_key fleet d) = Some g \<and>
    fst (NestedString (rec_lib r) g [''status'', ''phase'']) = DPUPhaseReady \<and>
    dpus m' req = Some x \<and>
    (\<exists>c. shown CondDPFReady (dpu_Conditions (dpu_Status x)) = Some c \<and> cond_Status c = ''True'')"
proof -
  have "(0 :: duration) \<noteq> requeueTransient" "(0 :: duration) \<noteq> requeueProvisioning"
    by (simp_all add: requeueTransient_def requeueProvisioning_def go_simps)
  then obtain ep x g where x: "dpus m' req = Some x" and g: "objs m (dpu_key fleet d) = Some g"
    and same: "objs m' (dpu_key fleet d) = objs m (dpu_key fleet d)"
    and c: "\<exists>c. shown CondDPFReady (dpu_Conditions (dpu_Status x)) = Some c \<and>
      cond_Status c = cond_Status (mapDPUPhase DPUPhaseReady 0)"
    and ph: "\<forall>g. objs m (dpu_key fleet d) = Some g \<longrightarrow>
      DPUPhaseReady = fst (NestedString (rec_lib r) g [''status'', ''phase'']) \<and>
      ep = fst (NestedString (rec_lib r) g [''status'', ''dataplaneEndpoint''])"
    using dpu_pass [OF assms] by (metis (full_types))
  have "cond_Status (mapDPUPhase DPUPhaseReady 0) = ''True''"
    by (simp add: mapDPUPhase_def condition_def)
  then have "\<exists>c. shown CondDPFReady (dpu_Conditions (dpu_Status x)) = Some c \<and> cond_Status c = ''True''"
    using c by simp
  moreover have "objs m' (dpu_key fleet d) = Some g" "fst (NestedString (rec_lib r) g [''status'', ''phase'']) = DPUPhaseReady"
    using same g ph by auto
  ultimately show ?thesis
    using x by blast
qed

text \<open>
  Once the DPF object of a DPU shows an endpoint, a pass that ends regularly hands it over: the
  vendor plugin's next \<open>Init\<close> that can read the DPU reports the card ready with exactly this
  endpoint, in whatever phase DPF has the card.
\<close>

theorem endpoint_handed_over:
  assumes "wired r fleet" and "indexed m" and "dpus m req = Some d" and "isNVIDIAManaged (ObjDPU d)"
    and "dpu_Reconcile r now req (m, v) = ((t, None), (m', v'))" and "t \<noteq> requeueTransient"
    and "objs m (dpu_key fleet d) = Some g"
    and "fst (NestedString (rec_lib r) g [''status'', ''dataplaneEndpoint'']) = ep" and "ep \<noteq> ''''"
    and "reads k (vsp_Client p)" and "DPURef p = req" and "get_DPU (vsp_Client p) req (m', y) = (Inr x, w)"
  shows "fst (vsp_Init nf p (m', y)) = Inr \<lparr>DataplaneEndpoint = ep, Ready = True, Reason = ''''\<rparr>"
proof -
  obtain z where "dpus m' req = Some z" and z: "str_at (Annotations z) EndpointAnnotation = ep"
    using dpu_pass [OF assms(1-5)] assms(6-9) by (elim disjE exE conjE) auto
  moreover have "dpus m' req = Some x"
    using readsD(2) [OF assms(10), of req m' y "Inr x" "fst w" "snd w"] assms(12) by simp
  ultimately show ?thesis
    using assms(9,11,12) by (simp add: vsp_Init_def dpu_of_def)
qed

text \<open>
  An intent is one annotation: of two operations the plugin records, the DPU object keeps only
  the second, so an intent is lost unless something reads it in between.
\<close>

theorem later_intent_overwrites:
  assumes "reads k (vsp_Client p)" and "patches (vsp_Client p)" and "indexed m"
    and "recordIntent p i (m, x) = (None, (m1, x1))" and "recordIntent p j (m1, y) = (None, (m2, y2))"
  shows "\<exists>d. dpus m2 (DPURef p) = Some d \<and> str_at (Annotations d) IntentAnnotation = j"
proof -
  obtain d where d: "dpus m (DPURef p) = Some d" and m1: "m1 = m\<lparr>dpus := (dpus m)(DPURef p \<mapsto>
      d\<lparr>Annotations := AList.update IntentAnnotation i (Annotations d)\<rparr>)\<rparr>"
    using recordIntent_effect [OF assms(1-4)] by blast
  have "DPURef p = (Namespace d, Name d)"
    using assms(3) d unfolding indexed_def by blast
  then have "indexed m1"
    using assms(3) unfolding m1 indexed_def by auto
  from recordIntent_effect [OF assms(1,2) this assms(5)] show ?thesis
    by (auto simp: str_at_def)
qed

text \<open>One DPU and its DPF object, in a given phase.\<close>

definition dpu_in :: "(string \<times> string) list \<Rightarrow> DataProcessingUnit" where
  "dpu_in an =
     \<lparr>Name = ''d'', Namespace = '''', Labels = [], Annotations = an, Finalizers = [], DeletionTimestamp = None,
      Generation = 1, dpu_Spec = \<lparr>DpuProductName = ''NVIDIA BlueField-3'', IsDpuSide = False, dpu_NodeName = ''n''\<rparr>,
      dpu_Status = \<lparr>dpu_Conditions = []\<rparr>\<rparr>"

definition dpf_dpu :: "string \<Rightarrow> Unstructured" where
  "dpf_dpu phase =
     \<lparr>u_APIVersion = ''provisioning.dpu.nvidia.com/v1alpha1'', u_Kind = ''DPU'', u_Name = ''dpu-d'', u_Namespace = ''dpf'',
      u_Labels = [], u_Spec = [],
      u_Status = Some (JObject [(''phase'', JString phase), (''dataplaneEndpoint'', JString ''10.0.0.1:50051'')])\<rparr>"

definition dpu_store :: "string \<Rightarrow> api" where
  "dpu_store phase =
     \<lparr>sfcs = Map.empty, dpus = [('''', ''d'') \<mapsto> dpu_in []],
      objs = [(''provisioning.dpu.nvidia.com/v1alpha1'', ''DPU'', ''dpf'', ''dpu-d'') \<mapsto> dpf_dpu phase], doomed = {}\<rparr>"

lemma dpu_store_indexed: "indexed (dpu_store ph)"
  by (auto simp: indexed_def dpu_store_def dpu_in_def split: if_splits)

lemma dpu_in_managed: "isNVIDIAManaged (ObjDPU (dpu_in an))"
proof -
  have "contains (to_lower ''NVIDIA BlueField-3'') ''nvidia''"
    by code_simp
  then show ?thesis
    by (simp add: isNVIDIAManaged_def isNVIDIAProduct_def dpu_in_def)
qed

lemma dpu_store_at: "dpus (dpu_store ph) ('''', ''d'') = Some (dpu_in [])"
  "objs (dpu_store ph) (dpu_key (one_fleet None) (dpu_in [])) = Some (dpf_dpu ph)"
  by (simp_all add: dpu_store_def dpu_in_def one_fleet_def)

lemma dpu_store_run:
  "\<exists>m'. dpu_Reconcile (adapter (one_fleet None)) 9 ('''', ''d'') (dpu_store ph, ()) =
      ((if ph = ''Ready'' then 0 else 15 * second, None), (m', ()))"
proof -
  have "isNVIDIAManaged (ObjDPU (dpu_in []))" by (rule dpu_in_managed)
  then show ?thesis
    by (simp add: dpu_Reconcile_def adapter_def server_def answer_def dpu_store_at Resolve_def NewDPFTranslator_def
        DeploymentForFleet_def apply_object_def classifyDPFError_def readDPUPhase_def gvk_defs Let_def)
       (simp add: dpu_store_def one_fleet_def dpu_in_def fleetToTarget_def fleetName_def base_def object_key_def
        ProvisioningGroup_def Version_def lib_def nested_def dpf_dpu_def publish_endpoint_def str_at_def
        patchDPUCondition_def requeueProvisioning_def phase_defs)
qed

theorem dpu_done_means_ready_witness:
  "\<exists>m' x. dpu_Reconcile (adapter (one_fleet None)) 9 ('''', ''d'') (dpu_store ''Ready'', ()) = ((0, None), (m', ())) \<and>
     dpus m' ('''', ''d'') = Some x \<and>
     (\<exists>c. shown CondDPFReady (dpu_Conditions (dpu_Status x)) = Some c \<and> cond_Status c = ''True'')"
proof -
  obtain m' where run: "dpu_Reconcile (adapter (one_fleet None)) 9 ('''', ''d'') (dpu_store ''Ready'', ()) = ((0, None), (m', ()))"
    using dpu_store_run [of "''Ready''"] by auto
  from dpu_done_means_ready [OF one_fleet_wired dpu_store_indexed dpu_store_at(1) dpu_in_managed run] run
  show ?thesis by blast
qed

theorem endpoint_handed_over_witness:
  "\<exists>m'. dpu_Reconcile (adapter (one_fleet None)) 9 ('''', ''d'') (dpu_store ''Initializing'', ()) =
       ((15 * second, None), (m', ())) \<and>
     fst (vsp_Init (\<lambda>_. False) \<lparr>vsp_Client = server, DPURef = ('''', ''d'')\<rparr> (m', ())) =
       Inr \<lparr>DataplaneEndpoint = ''10.0.0.1:50051'', Ready = True, Reason = ''''\<rparr>"
proof -
  let ?p = "\<lparr>vsp_Client = server, DPURef = ('''', ''d'')\<rparr>"
  obtain m' where run: "dpu_Reconcile (adapter (one_fleet None)) 9 ('''', ''d'') (dpu_store ''Initializing'', ()) =
      ((15 * second, None), (m', ()))"
    using dpu_store_run [of "''Initializing''"] by auto
  have t: "15 * second \<noteq> requeueTransient"
    by (simp add: requeueTransient_def second_def)
  have ep: "fst (NestedString (rec_lib (adapter (one_fleet None))) (dpf_dpu ''Initializing'') [''status'', ''dataplaneEndpoint''])
      = ''10.0.0.1:50051''"
    by (simp add: adapter_def lib_def nested_def dpf_dpu_def)
  have rd: "reads lib (vsp_Client ?p)"
    using server_behaves [of "one_fleet None"] by (simp add: api_server_def adapter_def)
  obtain x where "dpus m' ('''', ''d'') = Some x"
    using dpu_pass [OF one_fleet_wired dpu_store_indexed dpu_store_at(1) dpu_in_managed run] t by auto
  then have g: "get_DPU (vsp_Client ?p) ('''', ''d'') (m', ()) = (Inr x, (m', ()))"
    by (simp add: server_def answer_def)
  show ?thesis
    using endpoint_handed_over [OF one_fleet_wired dpu_store_indexed dpu_store_at(1) dpu_in_managed run t dpu_store_at(2) ep _
        rd _ g] run by auto
qed

theorem later_intent_overwrites_witness:
  "\<exists>m1 m2 d. vsp_SetNumVfs \<lparr>vsp_Client = server, DPURef = ('''', ''d'')\<rparr> 8 (dpu_store ''Ready'', ()) = (None, (m1, ())) \<and>
     recordIntent \<lparr>vsp_Client = server, DPURef = ('''', ''d'')\<rparr> ''provision'' (m1, ()) = (None, (m2, ())) \<and>
     dpus m2 ('''', ''d'') = Some d \<and> str_at (Annotations d) IntentAnnotation = ''provision''"
proof -
  let ?p = "\<lparr>vsp_Client = server, DPURef = ('''', ''d'')\<rparr>"
  have rp: "reads lib (vsp_Client ?p)" "patches (vsp_Client ?p)"
    using server_behaves [of "one_fleet None"] by (simp_all add: api_server_def adapter_def)
  have step: "\<exists>m'. recordIntent ?p i (m, ()) = (None, (m', ())) \<and> (\<exists>d. dpus m' ('''', ''d'') = Some d)"
    if "dpus m ('''', ''d'') = Some d" "Name d = ''d''" "Namespace d = ''''" for i m d
    using that by (simp add: recordIntent_def dpu_of_def server_def answer_def)
  define i where "i = ''set-num-vfs='' @ itoa (sint (8 :: int32))"
  obtain m1 where 1: "recordIntent ?p i (dpu_store ''Ready'', ()) = (None, (m1, ()))"
    using step [OF dpu_store_at(1)] by (auto simp: dpu_in_def)
  obtain d1 where "m1 = (dpu_store ''Ready'')\<lparr>dpus := (dpus (dpu_store ''Ready''))(('''', ''d'') \<mapsto>
      (dpu_in [])\<lparr>Annotations := d1\<rparr>)\<rparr>"
    using recordIntent_effect [OF rp dpu_store_indexed 1] dpu_store_at(1) by auto
  then have "dpus m1 ('''', ''d'') = Some ((dpu_in [])\<lparr>Annotations := d1\<rparr>)" by simp
  from step [OF this] obtain m2 where 2: "recordIntent ?p ''provision'' (m1, ()) = (None, (m2, ()))"
    by (auto simp: dpu_in_def)
  show ?thesis
    using later_intent_overwrites [OF rp dpu_store_indexed 1 2] 1 2 by (simp add: vsp_SetNumVfs_def i_def)
qed

end
