(* ===== verification/Handoff.thy ===== *)
theory Handoff
  imports KubeObjects
begin

text \<open>
  \<open>Tushar_Saxena-IITI-tushar/feature_skeleton.go\<close>: the hand-off of provisioned DPUs from DPF to OPI.  A
  watcher polls the DPUs of DPF and writes a \<open>DataProcessingUnit\<close> for each one that is ready; a detector
  and a plugin stand in for the vendor side of OPI.  The interfaces \<open>DPUReader\<close> and
  \<open>DataProcessingUnitWriter\<close> are records of operations; the in-memory fakes of the file provide them.
\<close>

section \<open>Types\<close>

record Condition =
  Type :: string
  Status :: string
  Reason :: string
  Message :: string

record ObjectMeta =
  Name :: string
  Namespace :: string
  Labels :: "string gomap"
  Annotations :: "string gomap"

definition DPUPhaseReady :: string where "DPUPhaseReady = ''Ready''"

record DPU = ObjectMeta +
  DPUFlavor :: string
  dpu_Phase :: string
  dpu_NodeName :: string
  dpu_Conditions :: "Condition list"

record DataProcessingUnitSpec =
  DpuProductName :: string
  IsDpuSide :: bool
  NodeName :: string

record DataProcessingUnit = ObjectMeta +
  Spec :: DataProcessingUnitSpec
  Conditions :: "Condition list"

type_synonym 'w DPUReader = "'w \<Rightarrow> (go_error + DPU list) \<times> 'w"

record 'w DataProcessingUnitWriter =
  GetByName :: "string \<Rightarrow> string \<Rightarrow> 'w \<Rightarrow> (go_error + DataProcessingUnit option) \<times> 'w"
  CreateOrUpdate :: "DataProcessingUnit \<Rightarrow> 'w \<Rightarrow> go_error option \<times> 'w"

section \<open>The watcher\<close>

definition NvidiaDpuProductName :: string where "NvidiaDpuProductName = ''NVIDIA BlueField''"
definition dpuTraceAnnotation :: string where "dpuTraceAnnotation = ''bridge.opi.dev/source-dpf-dpu''"
definition targetNamespace :: string where "targetNamespace = ''openshift-dpu''"

record 'w DPUReadinessWatcher =
  dpuReader :: "'w DPUReader"
  opiWriter :: "'w DataProcessingUnitWriter"
  pollInterval :: duration
  observed :: "string gomap"

text \<open>A nil interface value is \<open>None\<close>.\<close>

definition NewDPUReadinessWatcher ::
    "'w DPUReader option \<Rightarrow> 'w DataProcessingUnitWriter option \<Rightarrow> duration \<Rightarrow> go_error + 'w DPUReadinessWatcher" where
  "NewDPUReadinessWatcher reader writer interval =
     (case reader of
        None \<Rightarrow> Inl (External ''bridge: DPUReader must not be nil'')
      | Some rd \<Rightarrow>
          (case writer of
             None \<Rightarrow> Inl (External ''bridge: DataProcessingUnitWriter must not be nil'')
           | Some wr \<Rightarrow>
               Inr \<lparr>dpuReader = rd, opiWriter = wr,
                    pollInterval = (if interval \<le> 0 then 30 * second else interval), observed = []\<rparr>))"

definition isBlueField :: "DPU \<Rightarrow> bool" where
  "isBlueField dpu = contains (to_lower (DPUFlavor dpu)) ''bluefield''"

definition desired_unit :: "DPU \<Rightarrow> DataProcessingUnit" where
  "desired_unit dpu =
     \<lparr>Name = ''dpu-'' @ Name dpu, Namespace = targetNamespace, Labels = [],
      Annotations = [(dpuTraceAnnotation, Name dpu)],
      Spec = \<lparr>DpuProductName = NvidiaDpuProductName, IsDpuSide = False, NodeName = dpu_NodeName dpu\<rparr>,
      Conditions = []\<rparr>"

definition ensureDataProcessingUnit :: "'w DataProcessingUnitWriter \<Rightarrow> DPU \<Rightarrow> 'w \<Rightarrow> go_error option \<times> 'w" where
  "ensureDataProcessingUnit wr dpu w =
     (let name = ''dpu-'' @ Name dpu in
      case GetByName wr targetNamespace name w of
        (Inl err, w1) \<Rightarrow>
          (Some (Errorf ''checking for existing DataProcessingUnit %q: %w'' [AStr name, AWrap err]), w1)
      | (Inr existing, w1) \<Rightarrow>
          let desired = desired_unit dpu in
          if (case existing of Some x \<Rightarrow> Spec x = Spec desired | None \<Rightarrow> False) then (None, w1)
          else CreateOrUpdate wr desired w1)"

definition reconcileSingle ::
    "'w DPUReadinessWatcher \<Rightarrow> DPU \<Rightarrow> 'w \<Rightarrow> go_error option \<times> 'w DPUReadinessWatcher \<times> 'w" where
  "reconcileSingle W dpu w =
     (let last = map_of (observed W) (Name dpu);
          W1 = W\<lparr>observed := AList.update (Name dpu) (dpu_Phase dpu) (observed W)\<rparr> in
      if dpu_Phase dpu \<noteq> DPUPhaseReady then (None, W1, w)
      else if \<not> isBlueField dpu then (None, W1, w)
      else if last = Some DPUPhaseReady
      then (case ensureDataProcessingUnit (opiWriter W) dpu w of (e, w1) \<Rightarrow> (e, W1, w1))
      else (case ensureDataProcessingUnit (opiWriter W) dpu w of (e, w1) \<Rightarrow> (e, W1, w1)))"

text \<open>The loop of \<open>reconcileOnce\<close>: errors of single DPUs are logged only.\<close>

fun reconcile_each :: "'w DPUReadinessWatcher \<Rightarrow> DPU list \<Rightarrow> 'w \<Rightarrow> 'w DPUReadinessWatcher \<times> 'w" where
  "reconcile_each W [] w = (W, w)"
| "reconcile_each W (dpu # dpus) w =
     (case reconcileSingle W dpu w of (_, W1, w1) \<Rightarrow> reconcile_each W1 dpus w1)"

definition reconcileOnce :: "'w DPUReadinessWatcher \<Rightarrow> 'w \<Rightarrow> go_error option \<times> 'w DPUReadinessWatcher \<times> 'w" where
  "reconcileOnce W w =
     (case dpuReader W w of
        (Inl err, w1) \<Rightarrow> (Some (Errorf ''listing DPF DPUs: %w'' [AWrap err]), W, w1)
      | (Inr dpus, w1) \<Rightarrow> (case reconcile_each W dpus w1 of (W1, w2) \<Rightarrow> (None, W1, w2)))"

text \<open>
  \<open>Run\<close> against the sequence of events its \<open>select\<close> takes: ticks, and at some point the end of the
  context.  Without that event it has not returned.\<close>

datatype event = Tick | CtxDone go_error

fun Run :: "'w DPUReadinessWatcher \<Rightarrow> event list \<Rightarrow> 'w \<Rightarrow> go_error option \<times> 'w DPUReadinessWatcher \<times> 'w" where
  "Run W [] w = (None, W, w)"
| "Run W (CtxDone err # _) w = (Some err, W, w)"
| "Run W (Tick # evs) w = (case reconcileOnce W w of (_, W1, w1) \<Rightarrow> Run W1 evs w1)"

section \<open>The detector\<close>

record PCIDevice =
  pci_Vendor :: string
  pci_Product :: string
  pci_Address :: string

type_synonym Platform = "go_error + PCIDevice list"

definition nvidiaVendorID :: string where "nvidiaVendorID = ''15b3''"
definition nvidiaBlueFieldDeviceID :: string where "nvidiaBlueFieldDeviceID = ''TODO-VERIFY-DEVICE-ID''"

definition IsDpuPlatform :: "Platform \<Rightarrow> go_error + bool" where
  "IsDpuPlatform platform =
     (case platform of
        Inl err \<Rightarrow> Inl (Errorf ''nvidia detector: listing PCI devices: %w'' [AWrap err])
      | Inr devices \<Rightarrow> Inr (list_ex (\<lambda>dev. pci_Vendor dev = nvidiaVendorID) devices))"

definition GetDpuIdentifier :: "PCIDevice option \<Rightarrow> go_error + string" where
  "GetDpuIdentifier pci =
     (case pci of
        None \<Rightarrow> Inl (External ''nvidia detector: nil PCI device'')
      | Some dev \<Rightarrow>
          Inr (''nvidia-bluefield-'' @ map (\<lambda>c. if c = CHR '':'' then CHR ''-'' else c) (pci_Address dev)))"

definition IsDPU :: "PCIDevice \<Rightarrow> string list \<Rightarrow> go_error + bool" where
  "IsDPU pci existing =
     (if pci_Vendor pci \<noteq> nvidiaVendorID then Inr False
      else if pci_Product pci \<noteq> nvidiaBlueFieldDeviceID then Inr False
      else case GetDpuIdentifier (Some pci) of
        Inl err \<Rightarrow> Inl err
      | Inr i \<Rightarrow> Inr (\<not> list_ex (\<lambda>e. e = i) existing))"

section \<open>The plugin\<close>

record NvidiaVspPlugin =
  dpuMode :: bool
  dpuIdentifier :: string
  socketPath :: string
  initialized :: bool

definition NewNvidiaVspPlugin :: "bool \<Rightarrow> string \<Rightarrow> string \<Rightarrow> NvidiaVspPlugin" where
  "NewNvidiaVspPlugin mode i path = \<lparr>dpuMode = mode, dpuIdentifier = i, socketPath = path, initialized = False\<rparr>"

definition VspPlugin :: "bool \<Rightarrow> string \<Rightarrow> string \<Rightarrow> go_error + NvidiaVspPlugin" where
  "VspPlugin mode i path = Inr (NewNvidiaVspPlugin mode i path)"

definition errNotImplemented :: "string \<Rightarrow> go_error" where
  "errNotImplemented method = Errorf
     ''nvidia vsp plugin: %s not implemented pending DOCA local-API verification (see architecture_design.md Section 6)''
     [AStr method]"

definition errNotInitialized :: go_error where
  "errNotInitialized = External ''nvidia vsp plugin: not initialized''"

definition ensureConnected :: "NvidiaVspPlugin \<Rightarrow> go_error option" where
  "ensureConnected p = None"

text \<open>The address, the port and the error of \<open>Start\<close>.\<close>

definition Start :: "NvidiaVspPlugin \<Rightarrow> (string \<times> int32 \<times> go_error option) \<times> NvidiaVspPlugin" where
  "Start p =
     (if socketPath p = '''' then (('''', 0, Some (External ''nvidia vsp plugin: socketPath must not be empty'')), p)
      else case ensureConnected p of
        Some err \<Rightarrow> (('''', 0, Some (Errorf ''nvidia vsp plugin: connecting: %w'' [AWrap err])), p)
      | None \<Rightarrow> ((''127.0.0.1'', 0, Some (errNotImplemented ''Start: DOCA local API handshake'')), p\<lparr>initialized := True\<rparr>))"

definition Close :: "NvidiaVspPlugin \<Rightarrow> NvidiaVspPlugin" where
  "Close p = p\<lparr>initialized := False\<rparr>"

text \<open>The argument is whether the request pointer is nil; the reply is always the zero value.\<close>

definition CreateBridgePort :: "NvidiaVspPlugin \<Rightarrow> bool \<Rightarrow> go_error option" where
  "CreateBridgePort p nil_req =
     (if \<not> initialized p then Some errNotInitialized
      else if nil_req then Some (External ''nvidia vsp plugin: nil BridgePortRequest'')
      else Some (errNotImplemented ''CreateBridgePort''))"

definition DeleteBridgePort :: "NvidiaVspPlugin \<Rightarrow> go_error option" where
  "DeleteBridgePort p = (if \<not> initialized p then Some errNotInitialized else Some (errNotImplemented ''DeleteBridgePort''))"

definition CreateNetworkFunction :: "NvidiaVspPlugin \<Rightarrow> string \<Rightarrow> string \<Rightarrow> go_error option" where
  "CreateNetworkFunction p input output =
     (if \<not> initialized p then Some errNotInitialized else Some (errNotImplemented ''CreateNetworkFunction''))"

definition DeleteNetworkFunction :: "NvidiaVspPlugin \<Rightarrow> string \<Rightarrow> string \<Rightarrow> go_error option" where
  "DeleteNetworkFunction p input output =
     (if \<not> initialized p then Some errNotInitialized else Some (errNotImplemented ''DeleteNetworkFunction''))"

definition GetDevices :: "NvidiaVspPlugin \<Rightarrow> go_error option" where
  "GetDevices p = (if \<not> initialized p then Some errNotInitialized else Some (errNotImplemented ''GetDevices''))"

definition SetNumVfs :: "NvidiaVspPlugin \<Rightarrow> int32 \<Rightarrow> int32 \<times> go_error option" where
  "SetNumVfs p vfCount =
     (if \<not> initialized p then (0, Some errNotInitialized)
      else if sint vfCount < 0
      then (0, Some (Errorf ''nvidia vsp plugin: invalid vfCount %d'' [AInt (sint vfCount)]))
      else (0, Some (errNotImplemented ''SetNumVfs'')))"

section \<open>The fakes and the example\<close>

record fakes =
  dpus :: "DPU list"
  store :: "DataProcessingUnit gomap"

definition fake_ListDPUs :: "fakes DPUReader" where
  "fake_ListDPUs f = (Inr (dpus f), f)"

definition fakeOPIWriter :: "fakes DataProcessingUnitWriter" where
  "fakeOPIWriter =
     \<lparr>GetByName = (\<lambda>namespace name f. (Inr (map_of (store f) (namespace @ ''/'' @ name)), f)),
      CreateOrUpdate = (\<lambda>obj f. (None, f\<lparr>store := AList.update (Namespace obj @ ''/'' @ Name obj) obj (store f)\<rparr>))\<rparr>"

definition example_fakes :: fakes where
  "example_fakes =
     \<lparr>dpus = [\<lparr>Name = ''dpu-bf3-node1'', Namespace = '''', Labels = [], Annotations = [],
        DPUFlavor = ''bluefield3-default'', dpu_Phase = DPUPhaseReady, dpu_NodeName = ''node-1'', dpu_Conditions = []\<rparr>],
      store = []\<rparr>"

definition Example :: "go_error option \<times> fakes" where
  "Example =
     (case NewDPUReadinessWatcher (Some fake_ListDPUs) (Some fakeOPIWriter) second of
        Inl err \<Rightarrow> (Some err, example_fakes)
      | Inr watcher \<Rightarrow>
          (case reconcileOnce watcher example_fakes of
             (Some err, _, f1) \<Rightarrow> (Some err, f1)
           | (None, _, f1) \<Rightarrow>
               (case GetByName fakeOPIWriter targetNamespace ''dpu-dpu-bf3-node1'' f1 of
                  (Inl err, f2) \<Rightarrow> (Some err, f2)
                | (Inr None, f2) \<Rightarrow>
                    (Some (External ''example: expected DataProcessingUnit to have been created''), f2)
                | (Inr (Some dpu), f2) \<Rightarrow> (None, f2))))"

section \<open>What the hand-off promises\<close>

text \<open>The units of the target namespace by name; every write of the watcher goes there.\<close>

type_synonym unit_view = "string \<Rightarrow> DataProcessingUnit option"

definition handed_over :: "DPU \<Rightarrow> bool" where
  "handed_over d = (dpu_Phase d = DPUPhaseReady \<and> isBlueField d)"

definition unit_name :: "DPU \<Rightarrow> string" where "unit_name d = ''dpu-'' @ Name d"

text \<open>The abstract hand-off of one DPU.\<close>

definition hand_over :: "DPU \<Rightarrow> unit_view \<Rightarrow> unit_view" where
  "hand_over d V =
     (if \<not> handed_over d \<or> map_option Spec (V (unit_name d)) = Some (Spec (desired_unit d)) then V
      else V(unit_name d \<mapsto> desired_unit d))"

lemma desired_unit_simps [simp]:
  "Name (desired_unit d) = unit_name d" "Namespace (desired_unit d) = targetNamespace"
  by (simp_all add: unit_name_def desired_unit_def)

text \<open>
  The memory of the watcher decides nothing: the branch for a DPU seen ready before does what the other
  one does.\<close>

lemma reconcileSingle_eq:
  "reconcileSingle R d w =
     (case (if handed_over d then ensureDataProcessingUnit (opiWriter R) d w else (None, w)) of
        (e, w1) \<Rightarrow> (e, R\<lparr>observed := AList.update (Name d) (dpu_Phase d) (observed R)\<rparr>, w1))"
  by (auto simp: reconcileSingle_def handed_over_def Let_def)

lemma ensure_eq:
  "ensureDataProcessingUnit W d w =
     (case GetByName W targetNamespace (unit_name d) w of
        (Inl err, w1) \<Rightarrow> (Some (Errorf ''checking for existing DataProcessingUnit %q: %w'' [AStr (unit_name d), AWrap err]), w1)
      | (Inr x, w1) \<Rightarrow>
          if map_option Spec x = Some (Spec (desired_unit d)) then (None, w1) else CreateOrUpdate W (desired_unit d) w1)"
  unfolding ensureDataProcessingUnit_def Let_def unit_name_def [symmetric]
  by (intro prod.case_cong sum.case_cong refl) (simp split: option.split)

text \<open>
  The contract of the writer: a read gives the unit of that name, a failed write stores nothing, a write
  that succeeds stores its unit.\<close>

locale unit_writer =
  fixes W :: "'w DataProcessingUnitWriter" and view :: "'w \<Rightarrow> unit_view"
  assumes read: "GetByName W targetNamespace n w = (a, w') \<Longrightarrow> view w' = view w \<and> (\<forall>x. a = Inr x \<longrightarrow> x = view w n)"
    and stored: "CreateOrUpdate W u w = (e, w') \<Longrightarrow> Namespace u = targetNamespace \<Longrightarrow>
      view w' = (if e = None then (view w)(Name u \<mapsto> u) else view w)"
begin

lemma ensure_effect:
  assumes "ensureDataProcessingUnit W d w = (e, w')" and "handed_over d"
  shows "view w' = (if e = None then hand_over d (view w) else view w)"
proof -
  obtain a w1 where 1: "GetByName W targetNamespace (unit_name d) w = (a, w1)" by (metis prod.collapse)
  note rd = read [OF 1]
  show ?thesis
  proof (cases a)
    case (Inl err)
    then show ?thesis using assms(1) rd by (auto simp: ensure_eq 1)
  next
    case (Inr x)
    then have x: "x = view w (unit_name d)" using rd by simp
    show ?thesis
    proof (cases "map_option Spec x = Some (Spec (desired_unit d))")
      case True
      then have "e = None" "w' = w1" using assms(1) Inr by (simp_all add: ensure_eq 1)
      then show ?thesis using True rd x by (simp add: hand_over_def)
    next
      case False
      then have "CreateOrUpdate W (desired_unit d) w1 = (e, w')"
        using assms(1) Inr by (auto simp: ensure_eq 1 split: if_splits)
      from stored [OF this] show ?thesis
        using False rd x assms(2) by (auto simp: hand_over_def)
    qed
  qed
qed

lemma single_effect:
  assumes "opiWriter R = W" and "reconcileSingle R d w = (e, R', w')"
  shows "view w' = (if e = None then hand_over d (view w) else view w)" "opiWriter R' = W" "dpuReader R' = dpuReader R"
    "observed R' = AList.update (Name d) (dpu_Phase d) (observed R)"
proof -
  have e: "(if handed_over d then ensureDataProcessingUnit W d w else (None, w)) = (e, w')"
    using assms by (auto simp: reconcileSingle_eq split: prod.splits)
  show "view w' = (if e = None then hand_over d (view w) else view w)"
    using ensure_effect [of d w e w'] e by (auto simp: hand_over_def split: if_splits)
  show "opiWriter R' = W" "dpuReader R' = dpuReader R" "observed R' = AList.update (Name d) (dpu_Phase d) (observed R)"
    using assms by (auto simp: reconcileSingle_eq split: prod.splits)
qed

text \<open>Each DPU of the list is handed over or left as it is, whatever becomes of the others.\<close>

lemma each_effect:
  assumes "opiWriter R = W" and "reconcile_each R ds w = (R', w')"
  shows "\<exists>okay. length okay = length ds \<and>
      view w' = fold (\<lambda>(d, b). if b then hand_over d else id) (zip ds okay) (view w)"
    and "opiWriter R' = W" and "dpuReader R' = dpuReader R"
proof -
  have "(\<exists>okay. length okay = length ds \<and> view w' = fold (\<lambda>(d, b). if b then hand_over d else id) (zip ds okay) (view w)) \<and>
      opiWriter R' = W \<and> dpuReader R' = dpuReader R"
    using assms
  proof (induction ds arbitrary: R w)
    case (Cons d ds)
    obtain e R1 w1 where 1: "reconcileSingle R d w = (e, R1, w1)" by (metis prod.collapse)
    note s = single_effect [OF Cons.prems(1) 1]
    have "reconcile_each R1 ds w1 = (R', w')" using Cons.prems(2) by (simp add: 1)
    from Cons.IH [OF s(2) this] obtain okay where ok: "length okay = length ds"
      "view w' = fold (\<lambda>(d, b). if b then hand_over d else id) (zip ds okay) (view w1)"
      and "opiWriter R' = W" "dpuReader R' = dpuReader R1" by auto
    moreover have "view w' = fold (\<lambda>(d, b). if b then hand_over d else id) (zip (d # ds) ((e = None) # okay)) (view w)"
      using ok(2) s(1) by simp
    ultimately show ?case
      using s(3) by (auto intro!: exI [of _ "(e = None) # okay"])
  qed simp
  then show "\<exists>okay. length okay = length ds \<and>
      view w' = fold (\<lambda>(d, b). if b then hand_over d else id) (zip ds okay) (view w)"
    and "opiWriter R' = W" and "dpuReader R' = dpuReader R" by blast+
qed

end

text \<open>A writer that does not fail.\<close>

locale reliable_unit_writer = unit_writer +
  assumes no_read_error: "GetByName W ns n w \<noteq> (Inl err, w')"
    and no_write_error: "CreateOrUpdate W u w \<noteq> (Some err', w')"
begin

lemma single_succeeds:
  assumes "opiWriter R = W" and "reconcileSingle R d w = (e, R', w')"
  shows "e = None"
proof -
  obtain a w1 where 1: "GetByName W targetNamespace (unit_name d) w = (a, w1)" by (metis prod.collapse)
  then obtain x where a: "a = Inr x" using no_read_error by (cases a) auto
  have "fst (CreateOrUpdate W u w) = None" for u w
    using no_write_error by (metis option.exhaust prod.collapse)
  then have "fst (ensureDataProcessingUnit W d w) = None"
    by (simp add: ensure_eq 1 a)
  then show ?thesis
    using assms by (auto simp: reconcileSingle_eq split: prod.splits if_splits)
qed

lemma each_refines:
  assumes "opiWriter R = W" and "reconcile_each R ds w = (R', w')"
  shows "view w' = fold hand_over ds (view w)"
  using assms
proof (induction ds arbitrary: R w)
  case (Cons d ds)
  obtain e R1 w1 where 1: "reconcileSingle R d w = (e, R1, w1)" by (metis prod.collapse)
  note s = single_effect [OF Cons.prems(1) 1] single_succeeds [OF Cons.prems(1) 1]
  have "reconcile_each R1 ds w1 = (R', w')" using Cons.prems(2) by (simp add: 1)
  from Cons.IH [OF s(2) this] s show ?case by simp
qed simp

end

text \<open>The fake of the program is such a writer.\<close>

definition fake_view :: "fakes \<Rightarrow> unit_view" where
  "fake_view f n = map_of (store f) (targetNamespace @ ''/'' @ n)"

interpretation fake: reliable_unit_writer fakeOPIWriter fake_view
proof (unfold_locales, goal_cases)
  case (2 u w e w')
  then show ?case
    by (auto simp: fakeOPIWriter_def fake_view_def fun_eq_iff)
qed (auto simp: fakeOPIWriter_def fake_view_def fun_eq_iff)

section \<open>Properties\<close>

definition last_ready :: "string \<Rightarrow> DPU list \<Rightarrow> DPU option" where
  "last_ready n ds = find (\<lambda>d. handed_over d \<and> unit_name d = n) (rev ds)"

lemma hand_over_at:
  "handed_over d \<Longrightarrow> unit_name d = n \<Longrightarrow> map_option Spec (hand_over d V n) = Some (Spec (desired_unit d))"
  "\<not> (handed_over d \<and> unit_name d = n) \<Longrightarrow> hand_over d V n = V n"
  by (auto simp: hand_over_def)

lemma fold_hand_over:
  "case last_ready n ds of
     None \<Rightarrow> fold hand_over ds V n = V n
   | Some d \<Rightarrow> map_option Spec (fold hand_over ds V n) = Some (Spec (desired_unit d))"
proof (induction ds rule: rev_induct)
  case (snoc d ds)
  show ?case
  proof (cases "handed_over d \<and> unit_name d = n")
    case True
    then show ?thesis by (simp add: last_ready_def hand_over_at(1))
  next
    case False
    then have 1: "last_ready n (ds @ [d]) = last_ready n ds" by (auto simp: last_ready_def)
    have 2: "fold hand_over (ds @ [d]) V n = fold hand_over ds V n"
      using False by (simp add: hand_over_at(2))
    show ?thesis unfolding 1 2 by (rule snoc)
  qed
qed (simp add: last_ready_def)

text \<open>
  C20.  One pass over a writer that does not fail leaves each unit with the specification of the last listed
  DPU of its name that is a ready BlueField, and leaves every other unit alone: a unit whose DPU is gone
  or no longer ready stays as it was.  DPUs of one name in two namespaces share their unit.\<close>

theorem handoff_refines:
  assumes "reliable_unit_writer W view" and "opiWriter R = W" and "dpuReader R w = (Inr ds, w1)" and "view w1 = view w"
    and "reconcileOnce R w = (e, R', w')"
  shows "e = None \<and> view w' = fold hand_over ds (view w) \<and>
    (\<forall>n. case last_ready n ds of
       None \<Rightarrow> view w' n = view w n
     | Some d \<Rightarrow> map_option Spec (view w' n) = Some (Spec (desired_unit d)))"
proof -
  obtain R2 w2 where 1: "reconcile_each R ds w1 = (R2, w2)" by fastforce
  have "view w2 = fold hand_over ds (view w)"
    using reliable_unit_writer.each_refines [OF assms(1,2) 1] assms(4) by simp
  moreover have "e = None" "w' = w2"
    using assms(3,5) by (simp_all add: reconcileOnce_def 1)
  ultimately have "e = None" and v: "view w' = fold hand_over ds (view w)"
    by simp_all
  then show ?thesis
    unfolding v using fold_hand_over by blast
qed

theorem handoff_refines_witness:
  "\<exists>e R' f. reconcileOnce \<lparr>dpuReader = fake_ListDPUs, opiWriter = fakeOPIWriter, pollInterval = second, observed = []\<rparr> example_fakes = (e, R', f) \<and>
     e = None \<and> map_option Spec (fake_view f ''dpu-dpu-bf3-node1'') =
       Some \<lparr>DpuProductName = NvidiaDpuProductName, IsDpuSide = False, NodeName = ''node-1''\<rparr>"
proof -
  let ?R = "\<lparr>dpuReader = fake_ListDPUs, opiWriter = fakeOPIWriter, pollInterval = second, observed = []\<rparr>"
  obtain e R' f where run: "reconcileOnce ?R example_fakes = (e, R', f)" by (metis prod.collapse)
  have l: "dpuReader ?R example_fakes = (Inr (dpus example_fakes), example_fakes)"
    by (simp add: fake_ListDPUs_def)
  have r: "last_ready ''dpu-dpu-bf3-node1'' (dpus example_fakes) = Some (hd (dpus example_fakes))"
    by code_simp
  have "e = None \<and> map_option Spec (fake_view f ''dpu-dpu-bf3-node1'') = Some (Spec (desired_unit (hd (dpus example_fakes))))"
    using handoff_refines [OF fake.reliable_unit_writer_axioms _ l _ run] r by (auto dest: spec [of _ "''dpu-dpu-bf3-node1''"])
  then show ?thesis
    using run by (auto simp: desired_unit_def example_fakes_def)
qed

lemma hand_over_settled:
  assumes "\<forall>d \<in> set ds. handed_over d \<longrightarrow> map_option Spec (V (unit_name d)) = Some (Spec (desired_unit d))"
  shows "fold hand_over ds V = V"
  using assms by (induction ds) (auto simp: hand_over_def)

lemma last_ready_distinct:
  assumes "distinct (map unit_name ds)" and "d \<in> set ds" and "handed_over d"
  shows "last_ready (unit_name d) ds = Some d"
proof -
  have "last_ready (unit_name d) ds \<noteq> None"
    using assms(2,3) by (auto simp: last_ready_def find_None_iff)
  then obtain e where e: "last_ready (unit_name d) ds = Some e" by blast
  then have "e \<in> set ds" "unit_name e = unit_name d"
    by (auto simp: last_ready_def find_Some_iff) (metis length_rev nth_mem set_rev)
  with assms(1,2) have "e = d" by (metis distinct_map inj_onD)
  with e show ?thesis by simp
qed

text \<open>
  The hand-off settles: when the listed DPUs have different names, a second pass over the same list leaves
  the units as the first one left them.\<close>

theorem handoff_settles:
  assumes "distinct (map unit_name ds)"
  shows "fold hand_over ds (fold hand_over ds V) = fold hand_over ds V"
proof (rule hand_over_settled, intro ballI impI)
  fix d assume "d \<in> set ds" "handed_over d"
  from last_ready_distinct [OF assms this] fold_hand_over [where n = "unit_name d" and ds = ds and V = V]
  show "map_option Spec (fold hand_over ds V (unit_name d)) = Some (Spec (desired_unit d))" by simp
qed

text \<open>
  C21.  \<open>Run\<close> returns exactly when the end of its context is taken, with the error of the context: no listing
  error and no failed write ends the loop.\<close>

theorem Run_returns:
  "fst (Run R evs w) = (case dropWhile (\<lambda>e. e = Tick) evs of CtxDone err # _ \<Rightarrow> Some err | _ \<Rightarrow> None)"
  by (induction R evs w rule: Run.induct) (auto split: prod.splits)

text \<open>
  No operation of the plugin succeeds, and \<open>Start\<close> marks the plugin initialised although it reports an
  error: after a failed start the other calls no longer say that the plugin is not initialised.\<close>

theorem plugin_never_succeeds:
  "snd (snd (fst (Start p))) \<noteq> None \<and> initialized (snd (Start p)) = (initialized p \<or> socketPath p \<noteq> '''') \<and>
   CreateBridgePort p nil \<noteq> None \<and> DeleteBridgePort p \<noteq> None \<and> CreateNetworkFunction p i out \<noteq> None \<and>
   DeleteNetworkFunction p i out \<noteq> None \<and> GetDevices p \<noteq> None \<and> snd (SetNumVfs p n) \<noteq> None"
  by (simp add: Start_def ensureConnected_def CreateBridgePort_def DeleteBridgePort_def CreateNetworkFunction_def
      DeleteNetworkFunction_def GetDevices_def SetNumVfs_def)

text \<open>The example of the program runs to its end: it returns no error and its unit is stored.\<close>

theorem Example_passes:
  "fst Example = None \<and> fake_view (snd Example) ''dpu-dpu-bf3-node1'' = Some (desired_unit (hd (dpus example_fakes)))"
  by code_simp

text \<open>
  Two devices get the same identifier exactly when their addresses agree up to colons and dashes, so PCI
  addresses, which have no dash, are told apart.\<close>

theorem identifiers_injective:
  assumes "CHR ''-'' \<notin> set (pci_Address a)" and "CHR ''-'' \<notin> set (pci_Address b)"
  shows "(GetDpuIdentifier (Some a) = GetDpuIdentifier (Some b)) = (pci_Address a = pci_Address b)"
proof -
  have "map (\<lambda>c. if c = CHR '':'' then CHR ''-'' else c) x = map (\<lambda>c. if c = CHR '':'' then CHR ''-'' else c) y \<Longrightarrow> x = y"
    if "CHR ''-'' \<notin> set x" "CHR ''-'' \<notin> set y" for x y
    using that by (induction x y rule: list_induct2') (auto split: if_splits)
  then show ?thesis
    using assms by (auto simp: GetDpuIdentifier_def)
qed

theorem identifiers_injective_witness:
  "GetDpuIdentifier (Some \<lparr>pci_Vendor = ''15b3'', pci_Product = ''a2dc'', pci_Address = ''0000:03:00.0''\<rparr>) \<noteq>
   GetDpuIdentifier (Some \<lparr>pci_Vendor = ''15b3'', pci_Product = ''a2dc'', pci_Address = ''0000:03:00.1''\<rparr>)"
  by (subst identifiers_injective) simp_all

end
