(* ===== verification/VendorExtensions.thy ===== *)
theory VendorExtensions
  imports Prelude
begin

text \<open>
  The opaque \<open>vendorExtensions\<close> of \<open>rohit-s/feature_skeleton.go\<close> and their decoding by \<open>json.Unmarshal\<close>
  into \<open>NvidiaVendorExtensions\<close>.  The raw bytes stand as the document they parse to, or as the syntax
  error they give; members keep their order and may repeat.
\<close>

datatype document = DString string | DNumber string | DBool bool | DNull | DArray "document list"
  | DObject "(string \<times> document) list"

datatype raw_json = Malformed go_error | Document document

record DPUClusterConfig =
  Enabled :: bool
  cluster_Type :: string

record NvidiaVendorExtensions =
  BFBURL :: string
  ext_DPUCluster :: "DPUClusterConfig option"

section \<open>Decoding\<close>

text \<open>
  The folding of member names: ASCII letters lose their case, and the two runes outside ASCII that fold
  to an ASCII letter, U+017F (bytes C5 BF) and U+212A (bytes E2 84 AA), become that letter.\<close>

fun fold_name :: "string \<Rightarrow> string" where
  "fold_name [] = []"
| "fold_name (c # cs) =
     (if c = CHR 0xC5 \<and> take 1 cs = [CHR 0xBF] then CHR ''s'' # fold_name (drop 1 cs)
      else if c = CHR 0xE2 \<and> take 2 cs = [CHR 0x84, CHR 0xAA] then CHR ''k'' # fold_name (drop 2 cs)
      else (if CHR ''A'' \<le> c \<and> c \<le> CHR ''Z'' then char_of (of_char c + 32 :: nat) else c) # fold_name cs)"

text \<open>The field a member name selects: an exact match first, then the first match up to folding.\<close>

definition select_field :: "string list \<Rightarrow> string \<Rightarrow> string option" where
  "select_field names key =
     (if key \<in> set names then Some key else find (\<lambda>n. fold_name n = fold_name key) names)"

definition type_error :: "string \<Rightarrow> go_error" where
  "type_error name = Errorf ''json: cannot unmarshal into Go struct field %s'' [AStr name]"

fun decode_string :: "string \<Rightarrow> document \<Rightarrow> string \<Rightarrow> go_error + string" where
  "decode_string name (DString s) old = Inr s"
| "decode_string name DNull old = Inr old"
| "decode_string name _ old = Inl (type_error name)"

fun decode_bool :: "string \<Rightarrow> document \<Rightarrow> bool \<Rightarrow> go_error + bool" where
  "decode_bool name (DBool b) old = Inr b"
| "decode_bool name DNull old = Inr old"
| "decode_bool name _ old = Inl (type_error name)"

text \<open>
  A mismatch does not stop the decoder, but its first error is what \<open>Unmarshal\<close> returns in the end; as the
  caller drops the value then, the model stops at it.\<close>

fun decode_cluster_members :: "(string \<times> document) list \<Rightarrow> DPUClusterConfig \<Rightarrow> go_error + DPUClusterConfig" where
  "decode_cluster_members [] c = Inr c"
| "decode_cluster_members ((key, d) # ms) c =
     (case select_field [''enabled'', ''type''] key of
        None \<Rightarrow> decode_cluster_members ms c
      | Some f \<Rightarrow>
          if f = ''enabled''
          then (case decode_bool f d (Enabled c) of
                  Inl e \<Rightarrow> Inl e | Inr b \<Rightarrow> decode_cluster_members ms (c\<lparr>Enabled := b\<rparr>))
          else (case decode_string f d (cluster_Type c) of
                  Inl e \<Rightarrow> Inl e | Inr s \<Rightarrow> decode_cluster_members ms (c\<lparr>cluster_Type := s\<rparr>)))"

fun decode_cluster :: "document \<Rightarrow> DPUClusterConfig option \<Rightarrow> go_error + DPUClusterConfig option" where
  "decode_cluster DNull old = Inr None"
| "decode_cluster (DObject ms) old =
     (case decode_cluster_members ms (case old of None \<Rightarrow> \<lparr>Enabled = False, cluster_Type = ''''\<rparr> | Some c \<Rightarrow> c) of
        Inl e \<Rightarrow> Inl e | Inr c \<Rightarrow> Inr (Some c))"
| "decode_cluster _ old = Inl (type_error ''dpuCluster'')"

fun decode_members :: "(string \<times> document) list \<Rightarrow> NvidiaVendorExtensions \<Rightarrow> go_error + NvidiaVendorExtensions" where
  "decode_members [] x = Inr x"
| "decode_members ((key, d) # ms) x =
     (case select_field [''bfbURL'', ''dpuCluster''] key of
        None \<Rightarrow> decode_members ms x
      | Some f \<Rightarrow>
          if f = ''bfbURL''
          then (case decode_string f d (BFBURL x) of
                  Inl e \<Rightarrow> Inl e | Inr s \<Rightarrow> decode_members ms (x\<lparr>BFBURL := s\<rparr>))
          else (case decode_cluster d (ext_DPUCluster x) of
                  Inl e \<Rightarrow> Inl e | Inr c \<Rightarrow> decode_members ms (x\<lparr>ext_DPUCluster := c\<rparr>)))"

definition no_extensions :: NvidiaVendorExtensions where
  "no_extensions = \<lparr>BFBURL = '''', ext_DPUCluster = None\<rparr>"

fun Unmarshal :: "raw_json \<Rightarrow> go_error + NvidiaVendorExtensions" where
  "Unmarshal (Malformed e) = Inl e"
| "Unmarshal (Document (DObject ms)) = decode_members ms no_extensions"
| "Unmarshal (Document DNull) = Inr no_extensions"
| "Unmarshal (Document _) = Inl (type_error '''')"

end
