(* ===== verification/PhaseGate.thy ===== *)
theory PhaseGate
  imports VendorExtensions
begin

text \<open>
  \<open>rohit-s/feature_skeleton.go\<close>: the phase-gated reconciler of \<open>OPIDPUSet\<close>, the reconciler of
  \<open>OPIDPUService\<close>, the NVIDIA adapter behind \<open>DPFAdapter\<close> and the status mapper.  The client, the helpers
  of \<open>controllerutil\<close> and \<open>reconcile.TerminalError\<close> are arguments; \<open>now\<close> is the clock of one pass.
\<close>

section \<open>Objects\<close>

record Condition =
  Type :: string
  Status :: string
  LastTransitionTime :: time
  Reason :: string
  Message :: message

record OwnerReference =
  ref_Name :: string
  ref_UID :: string

record ObjectMeta =
  Name :: string
  Namespace :: string
  UID :: string
  Finalizers :: "string list"
  DeletionTimestamp :: "time option"
  OwnerReferences :: "OwnerReference list"

definition OPIFinalizer :: string where "OPIFinalizer = ''opi.dpu.io/dpf-adapter-finalizer''"
definition DefaultRequeueInterval :: duration where "DefaultRequeueInterval = 30 * second"
definition HardwareRequeueInterval :: duration where "HardwareRequeueInterval = 60 * second"
definition DPFNamespace :: string where "DPFNamespace = ''dpf-operator-system''"

definition PhaseBootImageMapping :: string where "PhaseBootImageMapping = ''BootImageMapping''"
definition PhaseClusterIsolation :: string where "PhaseClusterIsolation = ''ClusterIsolation''"
definition PhaseRollingRollout :: string where "PhaseRollingRollout = ''RollingRollout''"
definition PhaseAwaitingHardwareReset :: string where "PhaseAwaitingHardwareReset = ''AwaitingHardwareReset''"
definition PhaseReady :: string where "PhaseReady = ''Ready''"
definition PhaseError :: string where "PhaseError = ''Error''"

lemmas phase_name_defs = PhaseBootImageMapping_def PhaseClusterIsolation_def PhaseRollingRollout_def
  PhaseAwaitingHardwareReset_def PhaseReady_def PhaseError_def

record FirmwareImageRef =
  img_Name :: string
  img_Version :: string
  img_URL :: string

text \<open>\<open>VendorExtensions\<close>: a nil pointer, a \<open>RawExtension\<close> with nil bytes, or one with bytes.\<close>

record OPIDPUSetSpec =
  Vendor :: string
  Count :: int32
  NodeSelector :: "string gomap"
  FirmwareImage :: FirmwareImageRef
  DPUProfile :: string
  VendorExtensions :: "raw_json option option"

record NvidiaVendorStatus =
  DPFDPUSetName :: string
  DPFDPUSetPhase :: string

record OPIDPUSetStatus =
  Phase :: string
  DPUCount :: int32
  ReadyCount :: int32
  Conditions :: "Condition list"
  VendorStatus :: "NvidiaVendorStatus option"

record OPIDPUSet =
  set_meta :: ObjectMeta
  Spec :: OPIDPUSetSpec
  set_Status :: OPIDPUSetStatus

record HelmChartSpec =
  Repository :: string
  chart_Name :: string
  chart_Version :: string
  Values :: "string gomap"

record OPIDPUServiceSpec =
  svc_Vendor :: string
  ServiceType :: string
  TargetDPUSet :: string
  Configuration :: HelmChartSpec

record NvidiaSvcVendorStatus =
  DPFDPUServiceName :: string
  DPFDPUServicePhase :: string

record OPIDPUServiceStatus =
  svc_Phase :: string
  svc_Conditions :: "Condition list"
  svc_VendorStatus :: "NvidiaSvcVendorStatus option"

record OPIDPUService =
  svc_meta :: ObjectMeta
  svc_Spec :: OPIDPUServiceSpec
  svc_Status :: OPIDPUServiceStatus

text \<open>The DPF side; \<open>HelmChartRef\<close> has the fields of \<open>HelmChartSpec\<close>.\<close>

record BFBSpec =
  URL :: string
  Version :: string

record BFB =
  bfb_meta :: ObjectMeta
  bfb_Spec :: BFBSpec
  bfb_Phase :: string

record DPUSetSpec =
  dpf_NodeSelector :: "string gomap"
  BFBRef :: string
  dpf_Count :: int32

record DPUSetStatus =
  dpf_Phase :: string
  dpf_ReadyCount :: int32
  TotalCount :: int32

record DPUSet =
  dpuset_meta :: ObjectMeta
  dpuset_Spec :: DPUSetSpec
  dpuset_Status :: DPUSetStatus

record DPUCluster =
  cluster_meta :: ObjectMeta
  cluster_SpecType :: string

record DPUService =
  dpusvc_meta :: ObjectMeta
  HelmChart :: HelmChartSpec
  dpusvc_Phase :: string

section \<open>The adapter interface and the libraries\<close>

record 'w DPFAdapter =
  EnsureBFB :: "OPIDPUSet \<Rightarrow> 'w \<Rightarrow> (go_error + BFB) \<times> 'w"
  EnsureDPUSet :: "OPIDPUSet \<Rightarrow> BFB \<Rightarrow> 'w \<Rightarrow> (go_error + DPUSet) \<times> 'w"
  EnsureDPUCluster :: "OPIDPUSet \<Rightarrow> 'w \<Rightarrow> (go_error + DPUCluster option) \<times> 'w"
  EnsureDPUService :: "OPIDPUService \<Rightarrow> 'w \<Rightarrow> (go_error + DPUService) \<times> 'w"
  GetDPUSetStatus :: "string \<Rightarrow> string \<Rightarrow> 'w \<Rightarrow> (go_error + DPUSetStatus) \<times> 'w"
  GetDPUServiceStatus :: "string \<Rightarrow> string \<Rightarrow> 'w \<Rightarrow> (go_error + string) \<times> 'w"
  DeleteDPFResources :: "ObjectMeta \<Rightarrow> 'w \<Rightarrow> go_error option \<times> 'w"

text \<open>
  Updates return the object as the server has it afterwards, which is what the client writes back into
  its argument.  \<open>CreateOrUpdate\<close> gets an object and the mutation it runs on the stored object or, when
  there is none, on the one it got.\<close>

type_synonym ('a, 'w) create_or_update = "'a \<Rightarrow> ('a \<Rightarrow> go_error + 'a) \<Rightarrow> 'w \<Rightarrow> (go_error + 'a) \<times> 'w"

record 'w Client =
  get_Set :: "string \<times> string \<Rightarrow> 'w \<Rightarrow> (go_error + OPIDPUSet) \<times> 'w"
  update_Set :: "OPIDPUSet \<Rightarrow> 'w \<Rightarrow> (go_error + OPIDPUSet) \<times> 'w"
  status_Set :: "OPIDPUSet \<Rightarrow> 'w \<Rightarrow> (go_error + OPIDPUSet) \<times> 'w"
  get_Svc :: "string \<times> string \<Rightarrow> 'w \<Rightarrow> (go_error + OPIDPUService) \<times> 'w"
  update_Svc :: "OPIDPUService \<Rightarrow> 'w \<Rightarrow> (go_error + OPIDPUService) \<times> 'w"
  status_Svc :: "OPIDPUService \<Rightarrow> 'w \<Rightarrow> (go_error + OPIDPUService) \<times> 'w"
  cou_BFB :: "(BFB, 'w) create_or_update"
  cou_DPUSet :: "(DPUSet, 'w) create_or_update"
  cou_DPUCluster :: "(DPUCluster, 'w) create_or_update"
  cou_DPUService :: "(DPUService, 'w) create_or_update"

record machinery =
  IgnoreNotFound :: "go_error \<Rightarrow> go_error option"
  ContainsFinalizer :: "string list \<Rightarrow> string \<Rightarrow> bool"
  AddFinalizer :: "string list \<Rightarrow> string \<Rightarrow> string list"
  RemoveFinalizer :: "string list \<Rightarrow> string \<Rightarrow> string list"
  SetControllerReference :: "ObjectMeta \<Rightarrow> ObjectMeta \<Rightarrow> go_error + ObjectMeta"
  TerminalError :: "go_error \<Rightarrow> go_error"

definition is_zero_time :: "time option \<Rightarrow> bool" where
  "is_zero_time t = (case t of None \<Rightarrow> True | Some x \<Rightarrow> x = zero_time)"


section \<open>Status mapping\<close>

definition cond :: "time \<Rightarrow> string \<Rightarrow> string \<Rightarrow> string \<Rightarrow> message \<Rightarrow> Condition" where
  "cond now type status reason message =
     \<lparr>Type = type, Status = status, LastTransitionTime = now, Reason = reason, Message = message\<rparr>"

definition ready_count :: "DPUSetStatus \<Rightarrow> message" where
  "ready_count s = Sprintf ''%d of %d DPUs ready'' [AInt (sint (dpf_ReadyCount s)), AInt (sint (TotalCount s))]"

definition MapDPUSetPhase :: "time \<Rightarrow> DPUSetStatus \<Rightarrow> string \<times> Condition list" where
  "MapDPUSetPhase now s =
     (if dpf_Phase s = ''Ready''
      then (''Ready'', [cond now ''DPUsReady'' ''True'' ''AllDPUsProvisioned'' (ready_count s)])
      else if dpf_Phase s = ''Provisioning''
      then (''Provisioning'', [cond now ''DPUsReady'' ''False'' ''ProvisioningInProgress'' (ready_count s)])
      else if dpf_Phase s = ''Error''
      then (''Error'', [cond now ''DPUsReady'' ''False'' ''DPFError'' (Text ''DPF DPUSet reported an error'')])
      else (''Unknown'', [cond now ''DPUsReady'' ''Unknown'' ''UnknownDPFPhase''
             (Sprintf ''Unrecognized DPF phase: %s'' [AStr (dpf_Phase s)])]))"

definition MapDPUServicePhase :: "time \<Rightarrow> string \<Rightarrow> string \<times> Condition list" where
  "MapDPUServicePhase now phase =
     (if phase = ''Ready''
      then (''Deployed'', [cond now ''ServiceHealthy'' ''True'' ''AllReplicasReady'' (Text ''DPUService is healthy'')])
      else if phase = ''Deploying''
      then (''Deploying'', [cond now ''ServiceHealthy'' ''False'' ''DeploymentInProgress'' (Text ''DPUService is being deployed'')])
      else if phase = ''Error''
      then (''Error'', [cond now ''ServiceHealthy'' ''False'' ''DPFServiceError'' (Text ''DPF DPUService reported an error'')])
      else (''Pending'', []))"

section \<open>The NVIDIA adapter\<close>

record 'w NvidiaDPFAdapter =
  ad_Client :: "'w Client"
  ad_lib :: machinery
  ad_DPFNamespace :: string

definition NewNvidiaDPFAdapter :: "'w Client \<Rightarrow> machinery \<Rightarrow> 'w NvidiaDPFAdapter" where
  "NewNvidiaDPFAdapter c k = \<lparr>ad_Client = c, ad_lib = k, ad_DPFNamespace = DPFNamespace\<rparr>"

definition dpfName :: "string \<Rightarrow> string" where "dpfName opiName = opiName @ ''-dpf''"

text \<open>\<open>None\<close> is the nil extensions value.\<close>

definition parseVendorExtensions :: "OPIDPUSet \<Rightarrow> go_error + NvidiaVendorExtensions option" where
  "parseVendorExtensions s =
     (case VendorExtensions (Spec s) of
        None \<Rightarrow> Inr None
      | Some None \<Rightarrow> Inr None
      | Some (Some raw) \<Rightarrow>
          (case Unmarshal raw of
             Inl err \<Rightarrow> Inl (Errorf ''failed to deserialize NVIDIA vendor extensions: %w'' [AWrap err])
           | Inr ext \<Rightarrow> Inr (Some ext)))"

definition new_meta :: "string \<Rightarrow> string \<Rightarrow> ObjectMeta" where
  "new_meta name ns = \<lparr>Name = name, Namespace = ns, UID = '''', Finalizers = [], DeletionTimestamp = None, OwnerReferences = []\<rparr>"

definition bfb_url :: "OPIDPUSet \<Rightarrow> NvidiaVendorExtensions option \<Rightarrow> string" where
  "bfb_url s ext = (case ext of
       Some x \<Rightarrow> if BFBURL x \<noteq> '''' then BFBURL x else img_URL (FirmwareImage (Spec s))
     | None \<Rightarrow> img_URL (FirmwareImage (Spec s)))"

definition mutate_BFB :: "machinery \<Rightarrow> OPIDPUSet \<Rightarrow> string \<Rightarrow> BFB \<Rightarrow> go_error + BFB" where
  "mutate_BFB k s url b =
     (case SetControllerReference k (set_meta s) (bfb_meta b) of
        Inl err \<Rightarrow> Inl err
      | Inr meta \<Rightarrow>
          Inr (b\<lparr>bfb_meta := meta, bfb_Spec := \<lparr>URL = url, Version = img_Version (FirmwareImage (Spec s))\<rparr>\<rparr>))"

definition ad_EnsureBFB :: "'w NvidiaDPFAdapter \<Rightarrow> OPIDPUSet \<Rightarrow> 'w \<Rightarrow> (go_error + BFB) \<times> 'w" where
  "ad_EnsureBFB a s w =
     (let bfb = \<lparr>bfb_meta = new_meta (dpfName (Name (set_meta s)) @ ''-bfb'') (ad_DPFNamespace a),
            bfb_Spec = \<lparr>URL = '''', Version = ''''\<rparr>, bfb_Phase = ''''\<rparr> in
      case parseVendorExtensions s of
        Inl err \<Rightarrow> (Inl err, w)
      | Inr ext \<Rightarrow> cou_BFB (ad_Client a) bfb (mutate_BFB (ad_lib a) s (bfb_url s ext)) w)"

definition mutate_DPUSet :: "machinery \<Rightarrow> OPIDPUSet \<Rightarrow> BFB \<Rightarrow> DPUSet \<Rightarrow> go_error + DPUSet" where
  "mutate_DPUSet k s bfb d =
     (case SetControllerReference k (set_meta s) (dpuset_meta d) of
        Inl err \<Rightarrow> Inl err
      | Inr meta \<Rightarrow>
          Inr (d\<lparr>dpuset_meta := meta, dpuset_Spec := \<lparr>dpf_NodeSelector = NodeSelector (Spec s),
                 BFBRef = Name (bfb_meta bfb), dpf_Count = Count (Spec s)\<rparr>\<rparr>))"

definition ad_EnsureDPUSet :: "'w NvidiaDPFAdapter \<Rightarrow> OPIDPUSet \<Rightarrow> BFB \<Rightarrow> 'w \<Rightarrow> (go_error + DPUSet) \<times> 'w" where
  "ad_EnsureDPUSet a s bfb w =
     cou_DPUSet (ad_Client a)
       \<lparr>dpuset_meta = new_meta (dpfName (Name (set_meta s))) (ad_DPFNamespace a),
        dpuset_Spec = \<lparr>dpf_NodeSelector = [], BFBRef = '''', dpf_Count = 0\<rparr>,
        dpuset_Status = \<lparr>dpf_Phase = '''', dpf_ReadyCount = 0, TotalCount = 0\<rparr>\<rparr>
       (mutate_DPUSet (ad_lib a) s bfb) w"

definition mutate_DPUCluster :: "machinery \<Rightarrow> OPIDPUSet \<Rightarrow> string \<Rightarrow> DPUCluster \<Rightarrow> go_error + DPUCluster" where
  "mutate_DPUCluster k s type c =
     (case SetControllerReference k (set_meta s) (cluster_meta c) of
        Inl err \<Rightarrow> Inl err | Inr meta \<Rightarrow> Inr (c\<lparr>cluster_meta := meta, cluster_SpecType := type\<rparr>))"

definition ad_EnsureDPUCluster :: "'w NvidiaDPFAdapter \<Rightarrow> OPIDPUSet \<Rightarrow> 'w \<Rightarrow> (go_error + DPUCluster option) \<times> 'w" where
  "ad_EnsureDPUCluster a s w =
     (case parseVendorExtensions s of
        Inl err \<Rightarrow> (Inl err, w)
      | Inr ext \<Rightarrow>
          (case ext of
             None \<Rightarrow> (Inr None, w)
           | Some x \<Rightarrow>
               (case ext_DPUCluster x of
                  None \<Rightarrow> (Inr None, w)
                | Some config \<Rightarrow>
                    if \<not> Enabled config then (Inr None, w)
                    else (case cou_DPUCluster (ad_Client a)
                                 \<lparr>cluster_meta = new_meta (dpfName (Name (set_meta s)) @ ''-cluster'') (ad_DPFNamespace a),
                                  cluster_SpecType = ''''\<rparr>
                                 (mutate_DPUCluster (ad_lib a) s (cluster_Type config)) w of
                            (Inl err, w1) \<Rightarrow> (Inl err, w1) | (Inr c, w1) \<Rightarrow> (Inr (Some c), w1)))))"

definition mutate_DPUService :: "machinery \<Rightarrow> OPIDPUService \<Rightarrow> DPUService \<Rightarrow> go_error + DPUService" where
  "mutate_DPUService k s d =
     (case SetControllerReference k (svc_meta s) (dpusvc_meta d) of
        Inl err \<Rightarrow> Inl err | Inr meta \<Rightarrow> Inr (d\<lparr>dpusvc_meta := meta, HelmChart := Configuration (svc_Spec s)\<rparr>))"

definition ad_EnsureDPUService :: "'w NvidiaDPFAdapter \<Rightarrow> OPIDPUService \<Rightarrow> 'w \<Rightarrow> (go_error + DPUService) \<times> 'w" where
  "ad_EnsureDPUService a s w =
     cou_DPUService (ad_Client a)
       \<lparr>dpusvc_meta = new_meta (dpfName (Name (svc_meta s))) (ad_DPFNamespace a),
        HelmChart = \<lparr>Repository = '''', chart_Name = '''', chart_Version = '''', Values = []\<rparr>, dpusvc_Phase = ''''\<rparr>
       (mutate_DPUService (ad_lib a) s) w"

text \<open>The two status getters and the deletion are stubs in the code.\<close>

definition ad_GetDPUSetStatus :: "string \<Rightarrow> string \<Rightarrow> 'w \<Rightarrow> (go_error + DPUSetStatus) \<times> 'w" where
  "ad_GetDPUSetStatus name namespace w = (Inr \<lparr>dpf_Phase = ''Provisioning'', dpf_ReadyCount = 0, TotalCount = 0\<rparr>, w)"

definition ad_GetDPUServiceStatus :: "string \<Rightarrow> string \<Rightarrow> 'w \<Rightarrow> (go_error + string) \<times> 'w" where
  "ad_GetDPUServiceStatus name namespace w = (Inr ''Deploying'', w)"

definition ad_DeleteDPFResources :: "ObjectMeta \<Rightarrow> 'w \<Rightarrow> go_error option \<times> 'w" where
  "ad_DeleteDPFResources owner w = (None, w)"

definition as_DPFAdapter :: "'w NvidiaDPFAdapter \<Rightarrow> 'w DPFAdapter" where
  "as_DPFAdapter a =
     \<lparr>EnsureBFB = ad_EnsureBFB a, EnsureDPUSet = ad_EnsureDPUSet a, EnsureDPUCluster = ad_EnsureDPUCluster a,
      EnsureDPUService = ad_EnsureDPUService a, GetDPUSetStatus = ad_GetDPUSetStatus,
      GetDPUServiceStatus = ad_GetDPUServiceStatus, DeleteDPFResources = ad_DeleteDPFResources\<rparr>"

section \<open>The set reconciler\<close>

record 'w OPIDPUSetReconciler =
  rec_Client :: "'w Client"
  rec_lib :: machinery
  Adapter :: "'w DPFAdapter"

type_synonym 'w pass = "(duration \<times> go_error option) \<times> 'w"

definition with_phase :: "string \<Rightarrow> Condition list \<Rightarrow> OPIDPUSet \<Rightarrow> OPIDPUSet" where
  "with_phase p cs s = s\<lparr>set_Status := (set_Status s)\<lparr>Phase := p, Conditions := cs\<rparr>\<rparr>"

text \<open>The failed status update of \<open>setErrorStatus\<close> is dropped.\<close>

definition setErrorStatus :: "'w OPIDPUSetReconciler \<Rightarrow> time \<Rightarrow> OPIDPUSet \<Rightarrow> string \<Rightarrow> message \<Rightarrow> 'w \<Rightarrow> 'w" where
  "setErrorStatus r now s reason message w =
     snd (status_Set (rec_Client r) (with_phase PhaseError [cond now ''DPFResourcesSynced'' ''False'' reason message] s) w)"

definition setTerminalError ::
    "'w OPIDPUSetReconciler \<Rightarrow> time \<Rightarrow> OPIDPUSet \<Rightarrow> string \<Rightarrow> go_error \<Rightarrow> 'w \<Rightarrow> 'w pass" where
  "setTerminalError r now s reason originalErr w =
     (case status_Set (rec_Client r)
             (with_phase PhaseError [cond now ''HardwareValidationFailed'' ''False'' reason (Sprintf ''%s'' [AErr originalErr])] s) w of
        (Inl statusErr, w1) \<Rightarrow> ((0, Some statusErr), w1)
      | (Inr _, w1) \<Rightarrow> ((0, Some (TerminalError (rec_lib r) originalErr)), w1))"

definition isUnrecoverableError :: "go_error \<Rightarrow> bool" where "isUnrecoverableError err = False"

text \<open>What the three ensure steps do with an error.\<close>

definition ensure_failed ::
    "'w OPIDPUSetReconciler \<Rightarrow> time \<Rightarrow> OPIDPUSet \<Rightarrow> string \<Rightarrow> go_error \<Rightarrow> 'w \<Rightarrow> 'w pass" where
  "ensure_failed r now s what err w =
     (if isUnrecoverableError err then setTerminalError r now s (what @ ''ValidationFailed'') err w
      else ((DefaultRequeueInterval, Some err), setErrorStatus r now s (what @ ''SyncFailed'') (Sprintf ''%s'' [AErr err]) w))"

text \<open>From the call of \<open>GetDPUSetStatus\<close> on.\<close>

definition sync_status :: "'w OPIDPUSetReconciler \<Rightarrow> time \<Rightarrow> OPIDPUSet \<Rightarrow> 'w \<Rightarrow> 'w pass" where
  "sync_status r now s w =
     (let dpfDPUSetName = Name (set_meta s) @ ''-dpf'' in
      case GetDPUSetStatus (Adapter r) dpfDPUSetName DPFNamespace w of
        (Inl err, w1) \<Rightarrow> ((DefaultRequeueInterval, Some err), w1)
      | (Inr st, w1) \<Rightarrow>
          (case MapDPUSetPhase now st of
             (opiPhase, conds) \<Rightarrow>
               let s1 = s\<lparr>set_Status := (set_Status s)\<lparr>ReadyCount := dpf_ReadyCount st, DPUCount := TotalCount st\<rparr>\<rparr> in
               if dpf_Phase st = ''AwaitingReboot''
               then ((HardwareRequeueInterval, None), snd (status_Set (rec_Client r)
                       (with_phase PhaseAwaitingHardwareReset
                         [cond now ''HardwareResetRequired'' ''True'' ''PCIeColdBootPending''
                            (Text ''One or more DPUs require a physical PCIe cold-boot reset'')] s1) w1))
               else
                 let s2 = s1\<lparr>set_Status := (set_Status s1)
                       \<lparr>VendorStatus := Some \<lparr>DPFDPUSetName = dpfDPUSetName, DPFDPUSetPhase = dpf_Phase st\<rparr>\<rparr>\<rparr>;
                     s3 = with_phase (if opiPhase \<noteq> PhaseReady then PhaseRollingRollout else PhaseReady)
                       (conds @ [cond now ''DPFResourcesSynced'' ''True'' ''SyncSuccessful'' (Text ''All DPF resources are synced'')]) s2
                 in case status_Set (rec_Client r) s3 w1 of
                      (Inl err, w2) \<Rightarrow> ((0, Some err), w2)
                    | (Inr s4, w2) \<Rightarrow>
                        ((if Phase (set_Status s4) \<noteq> PhaseReady then DefaultRequeueInterval else 0, None), w2)))"

text \<open>The phase gates, on a set that carries the finalizer.\<close>

definition phase_gates :: "'w OPIDPUSetReconciler \<Rightarrow> time \<Rightarrow> OPIDPUSet \<Rightarrow> 'w \<Rightarrow> 'w pass" where
  "phase_gates r now s w =
     (case EnsureBFB (Adapter r) s w of
        (Inl err, w1) \<Rightarrow> ensure_failed r now s ''BFB'' err w1
      | (Inr bfb, w1) \<Rightarrow>
          if bfb_Phase bfb \<noteq> ''Ready''
          then ((DefaultRequeueInterval, None), snd (status_Set (rec_Client r)
                  (with_phase PhaseBootImageMapping
                    [cond now ''BFBReady'' ''False'' ''WaitingForBFBRegistration''
                      (Sprintf ''BFB image metadata not yet registered (current: %s)'' [AStr (bfb_Phase bfb)])] s) w1))
          else (case EnsureDPUCluster (Adapter r) s w1 of
                  (Inl err, w2) \<Rightarrow> ensure_failed r now s ''DPUCluster'' err w2
                | (Inr dpuCluster, w2) \<Rightarrow>
                    let s1 = (if dpuCluster \<noteq> None
                              then s\<lparr>set_Status := (set_Status s)\<lparr>Phase := PhaseClusterIsolation\<rparr>\<rparr> else s) in
                    (case EnsureDPUSet (Adapter r) s1 bfb w2 of
                       (Inl err, w3) \<Rightarrow> ensure_failed r now s1 ''DPUSet'' err w3
                     | (Inr _, w3) \<Rightarrow> sync_status r now s1 w3)))"

definition delete_set :: "'w OPIDPUSetReconciler \<Rightarrow> OPIDPUSet \<Rightarrow> 'w \<Rightarrow> 'w pass" where
  "delete_set r s w =
     (if ContainsFinalizer (rec_lib r) (Finalizers (set_meta s)) OPIFinalizer
      then (case DeleteDPFResources (Adapter r) (set_meta s) w of
              (Some err, w1) \<Rightarrow> ((DefaultRequeueInterval, Some err), w1)
            | (None, w1) \<Rightarrow>
                (case update_Set (rec_Client r)
                        (s\<lparr>set_meta := (set_meta s)
                           \<lparr>Finalizers := RemoveFinalizer (rec_lib r) (Finalizers (set_meta s)) OPIFinalizer\<rparr>\<rparr>) w1 of
                   (Inl err, w2) \<Rightarrow> ((0, Some err), w2)
                 | (Inr _, w2) \<Rightarrow> ((0, None), w2)))
      else ((0, None), w))"

definition Reconcile :: "'w OPIDPUSetReconciler \<Rightarrow> time \<Rightarrow> string \<times> string \<Rightarrow> 'w \<Rightarrow> 'w pass" where
  "Reconcile r now req w =
     (case get_Set (rec_Client r) req w of
        (Inl err, w1) \<Rightarrow> ((0, IgnoreNotFound (rec_lib r) err), w1)
      | (Inr s, w1) \<Rightarrow>
          if Vendor (Spec s) \<noteq> ''nvidia'' then ((0, None), w1)
          else if \<not> is_zero_time (DeletionTimestamp (set_meta s)) then delete_set r s w1
          else if \<not> ContainsFinalizer (rec_lib r) (Finalizers (set_meta s)) OPIFinalizer
          then (case update_Set (rec_Client r)
                      (s\<lparr>set_meta := (set_meta s)
                         \<lparr>Finalizers := AddFinalizer (rec_lib r) (Finalizers (set_meta s)) OPIFinalizer\<rparr>\<rparr>) w1 of
                  (Inl err, w2) \<Rightarrow> ((0, Some err), w2)
                | (Inr s1, w2) \<Rightarrow> phase_gates r now s1 w2)
          else phase_gates r now s w1)"

section \<open>The service reconciler\<close>

text \<open>The type \<open>OPIDPUServiceReconciler\<close> has the fields of the set reconciler.\<close>

definition svc_with_phase :: "string \<Rightarrow> Condition list \<Rightarrow> OPIDPUService \<Rightarrow> OPIDPUService" where
  "svc_with_phase p cs s = s\<lparr>svc_Status := (svc_Status s)\<lparr>svc_Phase := p, svc_Conditions := cs\<rparr>\<rparr>"

text \<open>From the call of \<open>EnsureDPUService\<close> on.\<close>

definition deploy_service :: "'w OPIDPUSetReconciler \<Rightarrow> time \<Rightarrow> OPIDPUService \<Rightarrow> 'w \<Rightarrow> 'w pass" where
  "deploy_service r now s w =
     (case EnsureDPUService (Adapter r) s w of
        (Inl err, w1) \<Rightarrow>
          ((DefaultRequeueInterval, Some err),
           snd (status_Svc (rec_Client r) (s\<lparr>svc_Status := (svc_Status s)\<lparr>svc_Phase := ''Error''\<rparr>\<rparr>) w1))
      | (Inr _, w1) \<Rightarrow>
          let dpfSvcName = Name (svc_meta s) @ ''-dpf'' in
          (case GetDPUServiceStatus (Adapter r) dpfSvcName DPFNamespace w1 of
             (Inl err, w2) \<Rightarrow> ((DefaultRequeueInterval, Some err), w2)
           | (Inr phase, w2) \<Rightarrow>
               (case MapDPUServicePhase now phase of
                  (opiPhase, conds) \<Rightarrow>
                    let s1 = s\<lparr>svc_Status := (svc_Status s)
                          \<lparr>svc_VendorStatus := Some \<lparr>DPFDPUServiceName = dpfSvcName, DPFDPUServicePhase = phase\<rparr>\<rparr>\<rparr>
                    in case status_Svc (rec_Client r) (svc_with_phase opiPhase
                              (conds @ [cond now ''DPFServiceSynced'' ''True'' ''SyncSuccessful'' (Text ''DPF DPUService is synced'')]) s1) w2 of
                         (Inl err, w3) \<Rightarrow> ((0, Some err), w3)
                       | (Inr _, w3) \<Rightarrow> ((if opiPhase \<noteq> ''Deployed'' then DefaultRequeueInterval else 0, None), w3))))"

definition target_gate :: "'w OPIDPUSetReconciler \<Rightarrow> time \<Rightarrow> OPIDPUService \<Rightarrow> 'w \<Rightarrow> 'w pass" where
  "target_gate r now s w =
     (let target = TargetDPUSet (svc_Spec s) in
      case get_Set (rec_Client r) (Namespace (svc_meta s), target) w of
        (Inl _, w1) \<Rightarrow>
          ((DefaultRequeueInterval, None), snd (status_Svc (rec_Client r)
             (svc_with_phase ''Error'' [cond now ''TargetDPUSetReady'' ''False'' ''TargetNotFound''
                (Sprintf ''OPIDPUSet %q not found'' [AStr target])] s) w1))
      | (Inr t, w1) \<Rightarrow>
          if Phase (set_Status t) \<noteq> ''Ready''
          then ((DefaultRequeueInterval, None), snd (status_Svc (rec_Client r)
                 (svc_with_phase ''Pending'' [cond now ''TargetDPUSetReady'' ''False'' ''WaitingForDPUSet''
                    (Sprintf ''Waiting for OPIDPUSet %q to become Ready (current: %s)'' [AStr target, AStr (Phase (set_Status t))])] s) w1))
          else deploy_service r now s w1)"

definition delete_svc :: "'w OPIDPUSetReconciler \<Rightarrow> OPIDPUService \<Rightarrow> 'w \<Rightarrow> 'w pass" where
  "delete_svc r s w =
     (if ContainsFinalizer (rec_lib r) (Finalizers (svc_meta s)) OPIFinalizer
      then (case DeleteDPFResources (Adapter r) (svc_meta s) w of
              (Some err, w1) \<Rightarrow> ((DefaultRequeueInterval, Some err), w1)
            | (None, w1) \<Rightarrow>
                (case update_Svc (rec_Client r)
                        (s\<lparr>svc_meta := (svc_meta s)
                           \<lparr>Finalizers := RemoveFinalizer (rec_lib r) (Finalizers (svc_meta s)) OPIFinalizer\<rparr>\<rparr>) w1 of
                   (Inl err, w2) \<Rightarrow> ((0, Some err), w2)
                 | (Inr _, w2) \<Rightarrow> ((0, None), w2)))
      else ((0, None), w))"

definition svc_Reconcile :: "'w OPIDPUSetReconciler \<Rightarrow> time \<Rightarrow> string \<times> string \<Rightarrow> 'w \<Rightarrow> 'w pass" where
  "svc_Reconcile r now req w =
     (case get_Svc (rec_Client r) req w of
        (Inl err, w1) \<Rightarrow> ((0, IgnoreNotFound (rec_lib r) err), w1)
      | (Inr s, w1) \<Rightarrow>
          if svc_Vendor (svc_Spec s) \<noteq> ''nvidia'' then ((0, None), w1)
          else if \<not> is_zero_time (DeletionTimestamp (svc_meta s)) then delete_svc r s w1
          else if \<not> ContainsFinalizer (rec_lib r) (Finalizers (svc_meta s)) OPIFinalizer
          then (case update_Svc (rec_Client r)
                      (s\<lparr>svc_meta := (svc_meta s)
                         \<lparr>Finalizers := AddFinalizer (rec_lib r) (Finalizers (svc_meta s)) OPIFinalizer\<rparr>\<rparr>) w1 of
                  (Inl err, w2) \<Rightarrow> ((0, Some err), w2)
                | (Inr s1, w2) \<Rightarrow> target_gate r now s1 w2)
          else target_gate r now s w1)"

end
