(* ===== verification/PhaseCluster.thy ===== *)
theory PhaseCluster
  imports PhaseGate
begin

text \<open>
  What the reconcilers of \<open>PhaseGate\<close> promise over an API server: the contract of \<open>DPFAdapter\<close> as a
  locale, its interpretation for the NVIDIA adapter, the gate in front of the DPU set, the invariants of
  both reconcilers interleaved with everyone else, and what a successful pass and a deletion leave.
\<close>

section \<open>An API server\<close>

text \<open>
  The laws are the documented behaviour of the client and of \<open>controllerutil\<close>: a read gives the
  object stored under the name, a failed call stores nothing, an update keeps the status and drops a deleted object with its
  last finalizer, a status update changes the status only; \<open>CreateOrUpdate\<close> stores what the mutation
  makes of the stored object, or of the one it got when there is none; an owner of another namespace is
  refused.\<close>

type_synonym key = "string \<times> string"

record api =
  sets :: "key \<Rightarrow> OPIDPUSet option"
  svcs :: "key \<Rightarrow> OPIDPUService option"
  bfbs :: "key \<Rightarrow> BFB option"
  clusters :: "key \<Rightarrow> DPUCluster option"
  dpusets :: "key \<Rightarrow> DPUSet option"
  dpuservices :: "key \<Rightarrow> DPUService option"

definition meta_key :: "ObjectMeta \<Rightarrow> key" where "meta_key x = (Namespace x, Name x)"

definition gone :: "ObjectMeta \<Rightarrow> bool" where
  "gone x = (\<not> is_zero_time (DeletionTimestamp x) \<and> Finalizers x = [])"

definition documented :: "machinery \<Rightarrow> bool" where
  "documented k =
     ((\<forall>fs f. ContainsFinalizer k fs f = (f \<in> set fs)) \<and>
      (\<forall>fs f. set (AddFinalizer k fs f) = insert f (set fs)) \<and>
      (\<forall>fs f. set (RemoveFinalizer k fs f) = set fs - {f}) \<and>
      (\<forall>owner x y. SetControllerReference k owner x = Inr y \<longrightarrow>
         (Namespace owner = '''' \<or> Namespace owner = Namespace x) \<and> y = x\<lparr>OwnerReferences := OwnerReferences y\<rparr>))"

definition reads :: "(api \<times> 'v) Client \<Rightarrow> bool" where
  "reads C =
     ((\<forall>q m v a m' v'. get_Set C q (m, v) = (a, (m', v')) \<longrightarrow> m' = m \<and> (\<forall>s. a = Inr s \<longrightarrow> sets m q = Some s \<and> q = meta_key (set_meta s))) \<and>
      (\<forall>q m v a m' v'. get_Svc C q (m, v) = (a, (m', v')) \<longrightarrow> m' = m \<and> (\<forall>s. a = Inr s \<longrightarrow> svcs m q = Some s \<and> q = meta_key (svc_meta s))))"

definition set_writes :: "(api \<times> 'v) Client \<Rightarrow> bool" where
  "set_writes C =
     ((\<forall>s m v a m' v'. update_Set C s (m, v) = (a, (m', v')) \<longrightarrow>
         (case a of Inl _ \<Rightarrow> m' = m
          | Inr s' \<Rightarrow> \<exists>old. sets m (meta_key (set_meta s)) = Some old \<and> s' = s\<lparr>set_Status := set_Status old\<rparr> \<and>
              m' = m\<lparr>sets := (sets m)(meta_key (set_meta s) := if gone (set_meta s) then None else Some s')\<rparr>)) \<and>
      (\<forall>s m v a m' v'. status_Set C s (m, v) = (a, (m', v')) \<longrightarrow>
         (case a of Inl _ \<Rightarrow> m' = m
          | Inr s' \<Rightarrow> \<exists>old. sets m (meta_key (set_meta s)) = Some old \<and> s' = old\<lparr>set_Status := set_Status s\<rparr> \<and>
              m' = m\<lparr>sets := (sets m)(meta_key (set_meta s) \<mapsto> s')\<rparr>)))"

definition svc_writes :: "(api \<times> 'v) Client \<Rightarrow> bool" where
  "svc_writes C =
     ((\<forall>s m v a m' v'. update_Svc C s (m, v) = (a, (m', v')) \<longrightarrow>
         (case a of Inl _ \<Rightarrow> m' = m
          | Inr s' \<Rightarrow> \<exists>old. svcs m (meta_key (svc_meta s)) = Some old \<and> s' = s\<lparr>svc_Status := svc_Status old\<rparr> \<and>
              m' = m\<lparr>svcs := (svcs m)(meta_key (svc_meta s) := if gone (svc_meta s) then None else Some s')\<rparr>)) \<and>
      (\<forall>s m v a m' v'. status_Svc C s (m, v) = (a, (m', v')) \<longrightarrow>
         (case a of Inl _ \<Rightarrow> m' = m
          | Inr s' \<Rightarrow> \<exists>old. svcs m (meta_key (svc_meta s)) = Some old \<and> s' = old\<lparr>svc_Status := svc_Status s\<rparr> \<and>
              m' = m\<lparr>svcs := (svcs m)(meta_key (svc_meta s) \<mapsto> s')\<rparr>)))"

definition ensures :: "('a \<Rightarrow> ObjectMeta) \<Rightarrow> (api \<Rightarrow> key \<Rightarrow> 'a option) \<Rightarrow> ((key \<Rightarrow> 'a option) \<Rightarrow> api \<Rightarrow> api) \<Rightarrow>
    ('a, api \<times> 'v) create_or_update \<Rightarrow> bool" where
  "ensures meta view put f =
     (\<forall>x g m v a m' v'. f x g (m, v) = (a, (m', v')) \<longrightarrow>
        (case a of Inl _ \<Rightarrow> m' = m
         | Inr y \<Rightarrow> \<exists>base. base = (case view m (meta_key (meta x)) of Some old \<Rightarrow> old | None \<Rightarrow> x) \<and>
             meta_key (meta base) = meta_key (meta x) \<and> g base = Inr y \<and> m' = put ((view m)(meta_key (meta x) \<mapsto> y)) m))"

definition object_writes :: "(api \<times> 'v) Client \<Rightarrow> bool" where
  "object_writes C =
     (ensures bfb_meta bfbs (\<lambda>d m. m\<lparr>bfbs := d\<rparr>) (cou_BFB C) \<and>
      ensures dpuset_meta dpusets (\<lambda>d m. m\<lparr>dpusets := d\<rparr>) (cou_DPUSet C) \<and>
      ensures cluster_meta clusters (\<lambda>d m. m\<lparr>clusters := d\<rparr>) (cou_DPUCluster C) \<and>
      ensures dpusvc_meta dpuservices (\<lambda>d m. m\<lparr>dpuservices := d\<rparr>) (cou_DPUService C))"

definition lawful :: "(api \<times> 'v) Client \<Rightarrow> bool" where
  "lawful C = (reads C \<and> set_writes C \<and> svc_writes C \<and> object_writes C)"

lemma phase_readsD:
  assumes "reads C"
  shows get_SetD: "get_Set C q (m, v) = (a, (m', v')) \<Longrightarrow> m' = m \<and> (\<forall>s. a = Inr s \<longrightarrow> sets m q = Some s \<and> q = meta_key (set_meta s))"
    and get_SvcD: "get_Svc C q (m, v) = (b, (m', v')) \<Longrightarrow> m' = m \<and> (\<forall>s. b = Inr s \<longrightarrow> svcs m q = Some s \<and> q = meta_key (svc_meta s))"
proof -
  show "m' = m \<and> (\<forall>s. a = Inr s \<longrightarrow> sets m q = Some s \<and> q = meta_key (set_meta s))" if "get_Set C q (m, v) = (a, (m', v'))"
    using assms [unfolded reads_def, THEN conjunct1, THEN spec, THEN spec, THEN spec, THEN spec, THEN spec, THEN spec, THEN mp, OF that] .
  show "m' = m \<and> (\<forall>s. b = Inr s \<longrightarrow> svcs m q = Some s \<and> q = meta_key (svc_meta s))" if "get_Svc C q (m, v) = (b, (m', v'))"
    using assms [unfolded reads_def, THEN conjunct2, THEN spec, THEN spec, THEN spec, THEN spec, THEN spec, THEN spec, THEN mp, OF that] .
qed

text \<open>A write of a set, whatever it is: the stored set, its metadata and its status after the call.\<close>

lemma update_SetD:
  assumes "set_writes C" and "update_Set C s (m, v) = (a, (m', v'))"
  shows "(\<exists>e. a = Inl e \<and> m' = m) \<or>
    (\<exists>old. sets m (meta_key (set_meta s)) = Some old \<and> a = Inr (s\<lparr>set_Status := set_Status old\<rparr>) \<and>
       m' = m\<lparr>sets := (sets m)(meta_key (set_meta s) :=
         if gone (set_meta s) then None else Some (s\<lparr>set_Status := set_Status old\<rparr>))\<rparr>)"
  using assms(1) [unfolded set_writes_def, THEN conjunct1, rule_format, OF assms(2)] by (cases a) auto

lemma status_SetD:
  assumes "set_writes C" and "status_Set C s (m, v) = (a, (m', v'))"
  shows "(\<exists>e. a = Inl e \<and> m' = m) \<or>
    (\<exists>old. sets m (meta_key (set_meta s)) = Some old \<and> a = Inr (old\<lparr>set_Status := set_Status s\<rparr>) \<and>
       m' = m\<lparr>sets := (sets m)(meta_key (set_meta s) \<mapsto> old\<lparr>set_Status := set_Status s\<rparr>)\<rparr>)"
  using assms(1) [unfolded set_writes_def, THEN conjunct2, rule_format, OF assms(2)] by (cases a) auto

lemma svc_writesD:
  assumes "svc_writes C"
  shows update_SvcD: "update_Svc C s (m, v) = (a, (m', v')) \<Longrightarrow> m' = m\<lparr>svcs := svcs m'\<rparr> \<and>
      (\<forall>s'. a = Inr s' \<longrightarrow> svc_meta s' = svc_meta s \<and> svc_Spec s' = svc_Spec s)"
    and status_SvcD: "status_Svc C s (m, v) = (b, (m', v')) \<Longrightarrow> m' = m\<lparr>svcs := svcs m'\<rparr>"
proof -
  show "m' = m\<lparr>svcs := svcs m'\<rparr> \<and> (\<forall>s'. a = Inr s' \<longrightarrow> svc_meta s' = svc_meta s \<and> svc_Spec s' = svc_Spec s)"
    if "update_Svc C s (m, v) = (a, (m', v'))"
    using assms [unfolded svc_writes_def, THEN conjunct1, rule_format, OF that] by (cases a) auto
  show "m' = m\<lparr>svcs := svcs m'\<rparr>" if "status_Svc C s (m, v) = (b, (m', v'))"
    using assms [unfolded svc_writes_def, THEN conjunct2, rule_format, OF that] by (cases b) auto
qed

lemma ensuresD:
  assumes "ensures meta view put f" and "f x g (m, v) = (a, (m', v'))"
  shows "(\<exists>e. a = Inl e \<and> m' = m) \<or>
    (\<exists>y base. a = Inr y \<and> base = (case view m (meta_key (meta x)) of Some old \<Rightarrow> old | None \<Rightarrow> x) \<and>
       meta_key (meta base) = meta_key (meta x) \<and> g base = Inr y \<and> m' = put ((view m)(meta_key (meta x) \<mapsto> y)) m)"
  using assms(1) [unfolded ensures_def, rule_format, OF assms(2)] by (cases a) auto

section \<open>The adapter's contract\<close>

text \<open>What a write of one kind leaves.\<close>

lemma phase_only_sets: "m' = m\<lparr>sets := sets m'\<rparr> \<Longrightarrow> svcs m' = svcs m \<and> bfbs m' = bfbs m \<and> clusters m' = clusters m \<and> dpusets m' = dpusets m \<and> dpuservices m' = dpuservices m"
  by (cases m; cases m') simp

lemma only_svcs: "m' = m\<lparr>svcs := svcs m'\<rparr> \<Longrightarrow> sets m' = sets m \<and> bfbs m' = bfbs m \<and> clusters m' = clusters m \<and> dpusets m' = dpusets m \<and> dpuservices m' = dpuservices m"
  by (cases m; cases m') simp

lemma phase_only_bfbs: "m' = m\<lparr>bfbs := bfbs m'\<rparr> \<Longrightarrow> sets m' = sets m \<and> svcs m' = svcs m \<and> clusters m' = clusters m \<and> dpusets m' = dpusets m \<and> dpuservices m' = dpuservices m"
  by (cases m; cases m') simp

lemma phase_only_clusters: "m' = m\<lparr>clusters := clusters m'\<rparr> \<Longrightarrow> sets m' = sets m \<and> svcs m' = svcs m \<and> bfbs m' = bfbs m \<and> dpusets m' = dpusets m \<and> dpuservices m' = dpuservices m"
  by (cases m; cases m') simp

lemma only_dpusets: "m' = m\<lparr>dpusets := dpusets m'\<rparr> \<Longrightarrow> sets m' = sets m \<and> svcs m' = svcs m \<and> bfbs m' = bfbs m \<and> clusters m' = clusters m \<and> dpuservices m' = dpuservices m"
  by (cases m; cases m') simp

lemma only_dpuservices: "m' = m\<lparr>dpuservices := dpuservices m'\<rparr> \<Longrightarrow> sets m' = sets m \<and> svcs m' = svcs m \<and> bfbs m' = bfbs m \<and> clusters m' = clusters m \<and> dpusets m' = dpusets m"
  by (cases m; cases m') simp

lemmas only_one = phase_only_sets only_svcs phase_only_bfbs phase_only_clusters only_dpusets only_dpuservices

text \<open>The phases a pass may store, and what else becomes of the sets.\<close>

definition phases_in :: "string set \<Rightarrow> api \<Rightarrow> api \<Rightarrow> bool" where
  "phases_in P m m' = (\<forall>q s'. sets m' q = Some s' \<longrightarrow>
     Phase (set_Status s') \<in> P \<or> (\<exists>s. sets m q = Some s \<and> Phase (set_Status s') = Phase (set_Status s)))"

lemma phases_in_same: "sets m' = sets m \<Longrightarrow> phases_in P m m'"
  by (simp add: phases_in_def)

lemma phases_in_upd:
  assumes "\<And>s'. x = Some s' \<Longrightarrow> Phase (set_Status s') \<in> P \<or> (\<exists>s. sets m k = Some s \<and> Phase (set_Status s') = Phase (set_Status s))"
  shows "phases_in P m (m\<lparr>sets := (sets m)(k := x)\<rparr>)"
  unfolding phases_in_def
proof (intro allI impI)
  fix q s'
  assume "sets (m\<lparr>sets := (sets m)(k := x)\<rparr>) q = Some s'"
  then show "Phase (set_Status s') \<in> P \<or> (\<exists>s. sets m q = Some s \<and> Phase (set_Status s') = Phase (set_Status s))"
    using assms by (cases "q = k") auto
qed

lemma phases_in_trans: "phases_in P m m1 \<Longrightarrow> phases_in P m1 m2 \<Longrightarrow> phases_in P m m2"
  unfolding phases_in_def by metis

definition shrinks :: "('k \<Rightarrow> 'a option) \<Rightarrow> ('k \<Rightarrow> 'a option) \<Rightarrow> bool" where
  "shrinks f g = (\<forall>q. g q = f q \<or> g q = None)"

lemma shrinks_refl [simp]: "shrinks f f"
  by (simp add: shrinks_def)

text \<open>A write of the sets leaves the rest alone.\<close>

lemma update_Set_effect:
  assumes "set_writes C" and "update_Set C s (m, v) = (a, (m', v'))"
  shows "m' = m\<lparr>sets := sets m'\<rparr>" "phases_in P m m'"
    "a = Inr s' \<Longrightarrow> set_meta s' = set_meta s \<and> Spec s' = Spec s"
  using update_SetD [OF assms] by (auto simp: phases_in_same intro!: phases_in_upd split: if_splits)

lemma status_Set_effect:
  assumes "set_writes C" and "status_Set C s (m, v) = (a, (m', v'))"
  shows "m' = m\<lparr>sets := sets m'\<rparr>" "Phase (set_Status s) \<in> P \<Longrightarrow> phases_in P m m'"
  using status_SetD [OF assms] by (auto simp: phases_in_same intro!: phases_in_upd)

text \<open>
  What the reconcilers rely on: every ensure step writes its own kind of object only, a returned BFB is
  the stored one, the status getters write nothing, the deletion only removes DPF objects.  \<open>bfb_key\<close> is
  where the adapter keeps the BFB of a set.\<close>

locale dpf_adapter =
  fixes A :: "(api \<times> 'v) DPFAdapter"
    and bfb_key :: "key \<Rightarrow> key"
  assumes ensure_bfb: "EnsureBFB A s (m, v) = (a, (m', v')) \<Longrightarrow>
      m' = m\<lparr>bfbs := bfbs m'\<rparr> \<and> (\<forall>b. a = Inr b \<longrightarrow> bfbs m' (bfb_key (meta_key (set_meta s))) = Some b)"
    and ensure_cluster: "EnsureDPUCluster A s (m, v) = (c, (m', v')) \<Longrightarrow> m' = m\<lparr>clusters := clusters m'\<rparr>"
    and ensure_set: "EnsureDPUSet A s bfb (m, v) = (d, (m', v')) \<Longrightarrow> m' = m\<lparr>dpusets := dpusets m'\<rparr>"
    and ensure_service: "EnsureDPUService A sv (m, v) = (e, (m', v')) \<Longrightarrow> m' = m\<lparr>dpuservices := dpuservices m'\<rparr>"
    and set_status: "GetDPUSetStatus A n ns (m, v) = (st, (m', v')) \<Longrightarrow> m' = m"
    and service_status: "GetDPUServiceStatus A n ns (m, v) = (sst, (m', v')) \<Longrightarrow> m' = m"
    and delete_objects: "DeleteDPFResources A owner (m, v) = (err, (m', v')) \<Longrightarrow>
      sets m' = sets m \<and> svcs m' = svcs m \<and> shrinks (bfbs m) (bfbs m') \<and> shrinks (clusters m) (clusters m') \<and>
      shrinks (dpusets m) (dpusets m') \<and> shrinks (dpuservices m) (dpuservices m')"

text \<open>An adapter with a bound on the phases it ever observes.\<close>

locale observing_adapter = dpf_adapter +
  fixes observed :: "string set"
  assumes set_status_observed: "GetDPUSetStatus A n ns (m, v) = (Inr st, w') \<Longrightarrow> dpf_Phase st \<in> observed"

text \<open>What a pass stores as the phase.\<close>

definition stored_phases :: "string set \<Rightarrow> string set" where
  "stored_phases obs = {PhaseBootImageMapping, PhaseRollingRollout, PhaseAwaitingHardwareReset, PhaseError} \<union>
     (if ''Ready'' \<in> obs then {PhaseReady} else {})"

context observing_adapter
begin

lemma sync_status_effect:
  assumes C: "set_writes (rec_Client r)" and A: "Adapter r = A"
    and p: "sync_status r now s (m, v) = (x, (m', v'))"
  shows "m' = m\<lparr>sets := sets m'\<rparr> \<and> phases_in (stored_phases observed) m m'"
proof -
  obtain a m1 v1 where g: "GetDPUSetStatus A (Name (set_meta s) @ ''-dpf'') DPFNamespace (m, v) = (a, (m1, v1))"
    by (metis prod.collapse)
  have m1: "m1 = m" using set_status [OF g] .
  show ?thesis
  proof (cases a)
    case (Inl e)
    then show ?thesis using p g m1 A by (auto simp: sync_status_def phases_in_same)
  next
    case (Inr st)
    have ob: "dpf_Phase st \<in> observed" using set_status_observed g Inr by blast
    obtain opi conds where mp: "MapDPUSetPhase now st = (opi, conds)" by fastforce
    have opi: "opi = PhaseReady \<Longrightarrow> ''Ready'' \<in> observed"
      using mp ob by (auto simp: MapDPUSetPhase_def phase_name_defs split: if_splits)
    have "\<exists>t b v2 m2. status_Set (rec_Client r) t (m, v1) = (b, (m2, v2)) \<and> (m', v') = (m2, v2) \<and>
        Phase (set_Status t) \<in> stored_phases observed"
    proof (cases "dpf_Phase st = ''AwaitingReboot''")
      case True
      let ?t = "with_phase PhaseAwaitingHardwareReset
          [cond now ''HardwareResetRequired'' ''True'' ''PCIeColdBootPending''
            (Text ''One or more DPUs require a physical PCIe cold-boot reset'')]
          (s\<lparr>set_Status := (set_Status s)\<lparr>ReadyCount := dpf_ReadyCount st, DPUCount := TotalCount st\<rparr>\<rparr>)"
      obtain b m2 v2 where u: "status_Set (rec_Client r) ?t (m, v1) = (b, (m2, v2))" by (metis prod.collapse)
      have "(m', v') = (m2, v2)"
        using p g m1 A Inr mp u True by (simp add: sync_status_def Let_def)
      moreover have "Phase (set_Status ?t) \<in> stored_phases observed"
        by (simp add: with_phase_def stored_phases_def)
      ultimately show ?thesis using u by blast
    next
      case False
      let ?s1 = "s\<lparr>set_Status := (set_Status s)\<lparr>ReadyCount := dpf_ReadyCount st, DPUCount := TotalCount st\<rparr>\<rparr>"
      let ?s2 = "?s1\<lparr>set_Status := (set_Status ?s1)
          \<lparr>VendorStatus := Some \<lparr>DPFDPUSetName = Name (set_meta s) @ ''-dpf'', DPFDPUSetPhase = dpf_Phase st\<rparr>\<rparr>\<rparr>"
      let ?t = "with_phase (if opi \<noteq> PhaseReady then PhaseRollingRollout else PhaseReady)
         (conds @ [cond now ''DPFResourcesSynced'' ''True'' ''SyncSuccessful'' (Text ''All DPF resources are synced'')]) ?s2"
      obtain b m2 v2 where u: "status_Set (rec_Client r) ?t (m, v1) = (b, (m2, v2))" by (metis prod.collapse)
      have "(m', v') = (m2, v2)"
        using p g m1 A Inr mp u False by (auto simp: sync_status_def Let_def split: sum.splits)
      moreover have "Phase (set_Status ?t) \<in> stored_phases observed"
        using opi by (simp add: with_phase_def stored_phases_def)
      ultimately show ?thesis using u by blast
    qed
    then show ?thesis using status_Set_effect [OF C] by blast
  qed
qed

lemma ensure_failed_effect:
  assumes C: "set_writes (rec_Client r)" and p: "ensure_failed r now s what err (m, v) = (x, (m', v'))"
  shows "m' = m\<lparr>sets := sets m'\<rparr> \<and> phases_in (stored_phases observed) m m'"
proof -
  let ?t = "with_phase PhaseError [cond now ''DPFResourcesSynced'' ''False'' (what @ ''SyncFailed'') (Sprintf ''%s'' [AErr err])] s"
  obtain b m2 v2 where u: "status_Set (rec_Client r) ?t (m, v) = (b, (m2, v2))" by (metis prod.collapse)
  have "(m', v') = (m2, v2)"
    using p u by (simp add: ensure_failed_def isUnrecoverableError_def setErrorStatus_def)
  moreover have "Phase (set_Status ?t) \<in> stored_phases observed"
    by (simp add: with_phase_def stored_phases_def)
  ultimately show ?thesis using status_Set_effect [OF C u] by simp
qed

text \<open>
  What a pass leaves of the DPF objects: sets and services apart, only the kinds of the ensure steps are
  written, and DPU sets only behind a ready image.\<close>

definition gated :: "key \<Rightarrow> api \<Rightarrow> api \<Rightarrow> bool" where
  "gated q m m' = (svcs m' = svcs m \<and> dpuservices m' = dpuservices m \<and>
     (dpusets m' = dpusets m \<or> (\<exists>b. bfbs m' (bfb_key q) = Some b \<and> bfb_Phase b = ''Ready'')))"

lemma phase_gates_effect:
  assumes C: "set_writes (rec_Client r)" and A: "Adapter r = A" and q: "q = meta_key (set_meta s)"
    and p: "phase_gates r now s (m, v) = (x, (m', v'))"
  shows "phases_in (stored_phases observed) m m' \<and> gated q m m'"
proof -
  obtain a m1 v1 where b: "EnsureBFB A s (m, v) = (a, (m1, v1))" by (metis prod.collapse)
  have b1: "phases_in (stored_phases observed) m m1" "svcs m1 = svcs m" "dpuservices m1 = dpuservices m"
      "dpusets m1 = dpusets m"
    using phase_only_bfbs [OF ensure_bfb [OF b, THEN conjunct1]] by (simp_all add: phases_in_same)
  have fin: ?thesis if "m' = m2\<lparr>sets := sets m'\<rparr> \<and> phases_in (stored_phases observed) m2 m'"
      "sets m2 = sets m1" "svcs m2 = svcs m1" "dpuservices m2 = dpuservices m1" "bfbs m2 = bfbs m1"
      "dpusets m2 = dpusets m1 \<or> (\<exists>b. bfbs m1 (bfb_key q) = Some b \<and> bfb_Phase b = ''Ready'')" for m2
  proof -
    have "phases_in (stored_phases observed) m m2"
      using phases_in_trans [OF b1(1) phases_in_same [OF that(2)]] .
    then have "phases_in (stored_phases observed) m m'"
      using that(1) phases_in_trans by blast
    moreover have "gated q m m'"
      using phase_only_sets [OF that(1) [THEN conjunct1]] that b1 by (auto simp: gated_def)
    ultimately show ?thesis ..
  qed
  show ?thesis
  proof (cases a)
    case (Inl e)
    then have "ensure_failed r now s ''BFB'' e (m1, v1) = (x, (m', v'))"
      using p b A by (simp add: phase_gates_def)
    then show ?thesis using fin [OF ensure_failed_effect [OF C]] by simp
  next
    case (Inr bfb)
    then have stored: "bfbs m1 (bfb_key q) = Some bfb" using ensure_bfb [OF b] q by simp
    show ?thesis
    proof (cases "bfb_Phase bfb = ''Ready''")
      case False
      let ?t = "with_phase PhaseBootImageMapping
          [cond now ''BFBReady'' ''False'' ''WaitingForBFBRegistration''
            (Sprintf ''BFB image metadata not yet registered (current: %s)'' [AStr (bfb_Phase bfb)])] s"
      obtain c m2 v2 where u: "status_Set (rec_Client r) ?t (m1, v1) = (c, (m2, v2))" by (metis prod.collapse)
      have "m' = m2" using p b A Inr False u by (simp add: phase_gates_def)
      then show ?thesis
        using fin [of m1] status_Set_effect [OF C u] by (simp add: with_phase_def stored_phases_def)
    next
      case True
      obtain c m2 v2 where k: "EnsureDPUCluster A s (m1, v1) = (c, (m2, v2))" by (metis prod.collapse)
      note k2 = phase_only_clusters [OF ensure_cluster [OF k]]
      show ?thesis
      proof (cases c)
        case (Inl e)
        then have "ensure_failed r now s ''DPUCluster'' e (m2, v2) = (x, (m', v'))"
          using p b A Inr True k by (simp add: phase_gates_def)
        then show ?thesis using fin [OF ensure_failed_effect [OF C]] k2 by simp
      next
        case (Inr dpuCluster)
        let ?s = "if dpuCluster \<noteq> None then s\<lparr>set_Status := (set_Status s)\<lparr>Phase := PhaseClusterIsolation\<rparr>\<rparr> else s"
        obtain d m3 v3 where t: "EnsureDPUSet A ?s bfb (m2, v2) = (d, (m3, v3))" by (metis prod.collapse)
        note t2 = only_dpusets [OF ensure_set [OF t]]
        have "ensure_failed r now ?s ''DPUSet'' e (m3, v3) = (x, (m', v'))" if "d = Inl e" for e
          using that p b A \<open>a = Inr bfb\<close> True k Inr t by (simp add: phase_gates_def Let_def)
        moreover have "sync_status r now ?s (m3, v3) = (x, (m', v'))" if "d = Inr z" for z
          using that p b A \<open>a = Inr bfb\<close> True k Inr t by (simp add: phase_gates_def Let_def)
        ultimately have "m' = m3\<lparr>sets := sets m'\<rparr> \<and> phases_in (stored_phases observed) m3 m'"
          using ensure_failed_effect [OF C] sync_status_effect [OF C A] by (cases d) blast+
        then show ?thesis using fin [of m3] k2 t2 stored True by simp
      qed
    qed
  qed
qed

lemma delete_set_effect:
  assumes C: "set_writes (rec_Client r)" and A: "Adapter r = A"
    and p: "delete_set r s (m, v) = (x, (m', v'))"
  shows "phases_in P m m' \<and> svcs m' = svcs m \<and> shrinks (dpusets m) (dpusets m') \<and> shrinks (dpuservices m) (dpuservices m')"
proof (cases "ContainsFinalizer (rec_lib r) (Finalizers (set_meta s)) OPIFinalizer")
  case False
  then show ?thesis using p by (simp add: delete_set_def phases_in_same)
next
  case True
  obtain e m1 v1 where d: "DeleteDPFResources A (set_meta s) (m, v) = (e, (m1, v1))" by (metis prod.collapse)
  note d1 = delete_objects [OF d]
  show ?thesis
  proof (cases e)
    case (Some err)
    then show ?thesis using p d d1 True A by (simp add: delete_set_def phases_in_same)
  next
    case None
    let ?t = "s\<lparr>set_meta := (set_meta s)\<lparr>Finalizers := RemoveFinalizer (rec_lib r) (Finalizers (set_meta s)) OPIFinalizer\<rparr>\<rparr>"
    obtain c m2 v2 where u: "update_Set (rec_Client r) ?t (m1, v1) = (c, (m2, v2))" by (metis prod.collapse)
    have "m' = m2" using p d True A None u by (cases c) (simp_all add: delete_set_def)
    then show ?thesis
      using phase_only_sets [OF update_Set_effect(1) [OF C u]] update_Set_effect(2) [OF C u, of P] d1
        phases_in_trans [OF phases_in_same [of m1 m P]] by simp
  qed
qed

lemma Reconcile_effect:
  assumes L: "lawful (rec_Client r)" and A: "Adapter r = A"
    and p: "Reconcile r now q (m, v) = (x, (m', v'))"
  shows "phases_in (stored_phases observed) m m' \<and> svcs m' = svcs m \<and> shrinks (dpuservices m) (dpuservices m') \<and>
    (shrinks (dpusets m) (dpusets m') \<or> (\<exists>b. bfbs m' (bfb_key q) = Some b \<and> bfb_Phase b = ''Ready''))"
proof -
  have C: "set_writes (rec_Client r)" and R: "reads (rec_Client r)" using L by (simp_all add: lawful_def)
  obtain a m1 v1 where g: "get_Set (rec_Client r) q (m, v) = (a, (m1, v1))" by (metis prod.collapse)
  note g1 = get_SetD [OF R g]
  show ?thesis
  proof (cases a)
    case (Inl e)
    then show ?thesis using p g g1 by (simp add: Reconcile_def phases_in_same)
  next
    case (Inr s)
    have q: "q = meta_key (set_meta s)" using g1 Inr by blast
    consider "Vendor (Spec s) \<noteq> ''nvidia''"
      | "Vendor (Spec s) = ''nvidia''" "\<not> is_zero_time (DeletionTimestamp (set_meta s))"
      | "Vendor (Spec s) = ''nvidia''" "is_zero_time (DeletionTimestamp (set_meta s))"
          "ContainsFinalizer (rec_lib r) (Finalizers (set_meta s)) OPIFinalizer"
      | "Vendor (Spec s) = ''nvidia''" "is_zero_time (DeletionTimestamp (set_meta s))"
          "\<not> ContainsFinalizer (rec_lib r) (Finalizers (set_meta s)) OPIFinalizer" by blast
    then show ?thesis
    proof cases
      case 1
      then show ?thesis using p g g1 Inr by (simp add: Reconcile_def phases_in_same)
    next
      case 2
      then have "delete_set r s (m, v1) = (x, (m', v'))" using p g g1 Inr by (simp add: Reconcile_def)
      then show ?thesis using delete_set_effect [OF C A] by blast
    next
      case 3
      then have "phase_gates r now s (m, v1) = (x, (m', v'))" using p g g1 Inr by (simp add: Reconcile_def)
      then show ?thesis using phase_gates_effect [OF C A q] by (fastforce simp: gated_def)
    next
      case 4
      let ?t = "s\<lparr>set_meta := (set_meta s)\<lparr>Finalizers := AddFinalizer (rec_lib r) (Finalizers (set_meta s)) OPIFinalizer\<rparr>\<rparr>"
      obtain c m2 v2 where u: "update_Set (rec_Client r) ?t (m, v1) = (c, (m2, v2))" by (metis prod.collapse)
      note u2 = phase_only_sets [OF update_Set_effect(1) [OF C u]] update_Set_effect(2) [OF C u, of "stored_phases observed"]
      show ?thesis
      proof (cases c)
        case (Inl e)
        then show ?thesis using p g g1 \<open>a = Inr s\<close> 4 u u2 by (simp add: Reconcile_def)
      next
        case (Inr s1)
        have q1: "q = meta_key (set_meta s1)"
          using update_Set_effect(3) [OF C u] Inr q by (simp add: meta_key_def)
        have "phase_gates r now s1 (m2, v2) = (x, (m', v'))"
          using p g g1 \<open>a = Inr s\<close> 4 u Inr by (simp add: Reconcile_def)
        then have e: "phases_in (stored_phases observed) m2 m'" "gated q m2 m'"
          using phase_gates_effect [OF C A q1] by blast+
        have "phases_in (stored_phases observed) m m'" using phases_in_trans [OF u2(2) e(1)] .
        moreover have "shrinks (dpusets m) (dpusets m') \<or> (\<exists>b. bfbs m' (bfb_key q) = Some b \<and> bfb_Phase b = ''Ready'')"
          using e(2) u2(1) unfolding gated_def by (metis shrinks_refl)
        ultimately show ?thesis using e(2) u2(1) by (simp add: gated_def)
      qed
    qed
  qed
qed

end

context dpf_adapter
begin

lemma deploy_service_effect:
  assumes C: "svc_writes (rec_Client r)" and A: "Adapter r = A"
    and p: "deploy_service r now s (m, v) = (x, (m', v'))"
  shows "sets m' = sets m"
proof -
  obtain a m1 v1 where e: "EnsureDPUService A s (m, v) = (a, (m1, v1))" by (metis prod.collapse)
  note e1 = only_dpuservices [OF ensure_service [OF e]]
  show ?thesis
  proof (cases a)
    case (Inl err)
    obtain b m2 v2 where u: "status_Svc (rec_Client r) (s\<lparr>svc_Status := (svc_Status s)\<lparr>svc_Phase := ''Error''\<rparr>\<rparr>) (m1, v1) = (b, (m2, v2))"
      by (metis prod.collapse)
    then have "m' = m2" using p e A Inl by (simp add: deploy_service_def)
    then show ?thesis using only_svcs [OF status_SvcD [OF C u]] e1 by simp
  next
    case (Inr d)
    obtain st m2 v2 where g: "GetDPUServiceStatus A (Name (svc_meta s) @ ''-dpf'') DPFNamespace (m1, v1) = (st, (m2, v2))"
      by (metis prod.collapse)
    note g2 = service_status [OF g]
    show ?thesis
    proof (cases st)
      case (Inl err)
      then show ?thesis using p e A Inr g g2 e1 by (simp add: deploy_service_def Let_def)
    next
      case (Inr phase)
      obtain opi conds where mp: "MapDPUServicePhase now phase = (opi, conds)" by fastforce
      let ?t = "svc_with_phase opi
          (conds @ [cond now ''DPFServiceSynced'' ''True'' ''SyncSuccessful'' (Text ''DPF DPUService is synced'')])
          (s\<lparr>svc_Status := (svc_Status s)\<lparr>svc_VendorStatus :=
             Some \<lparr>DPFDPUServiceName = Name (svc_meta s) @ ''-dpf'', DPFDPUServicePhase = phase\<rparr>\<rparr>\<rparr>)"
      obtain b m3 v3 where u: "status_Svc (rec_Client r) ?t (m2, v2) = (b, (m3, v3))" by (metis prod.collapse)
      have "m' = m3"
        using p e A \<open>a = Inr d\<close> g Inr mp u by (cases b) (simp_all add: deploy_service_def Let_def)
      then show ?thesis using only_svcs [OF status_SvcD [OF C u]] e1 g2 by simp
    qed
  qed
qed

lemma target_gate_effect:
  assumes L: "lawful (rec_Client r)" and A: "Adapter r = A"
    and p: "target_gate r now s (m, v) = (x, (m', v'))"
  shows "sets m' = sets m \<and> (dpuservices m' = dpuservices m \<or>
    (\<exists>t. sets m (Namespace (svc_meta s), TargetDPUSet (svc_Spec s)) = Some t \<and> Phase (set_Status t) = PhaseReady))"
proof -
  have C: "svc_writes (rec_Client r)" and R: "reads (rec_Client r)" using L by (simp_all add: lawful_def)
  obtain a m1 v1 where g: "get_Set (rec_Client r) (Namespace (svc_meta s), TargetDPUSet (svc_Spec s)) (m, v) = (a, (m1, v1))"
    by (metis prod.collapse)
  note g1 = get_SetD [OF R g]
  have wr: "sets m' = sets m \<and> dpuservices m' = dpuservices m"
    if "(m', v') = snd (status_Svc (rec_Client r) t (m, v1))" for t
    using that only_svcs [OF status_SvcD [OF C]] by (metis prod.collapse)
  show ?thesis
  proof (cases a)
    case (Inl e)
    then have "(m', v') = snd (status_Svc (rec_Client r)
        (svc_with_phase ''Error'' [cond now ''TargetDPUSetReady'' ''False'' ''TargetNotFound''
           (Sprintf ''OPIDPUSet %q not found'' [AStr (TargetDPUSet (svc_Spec s))])] s) (m, v1))"
      using p g g1 by (simp add: target_gate_def Let_def)
    then show ?thesis using wr by blast
  next
    case (Inr t)
    show ?thesis
    proof (cases "Phase (set_Status t) = ''Ready''")
      case False
      then have "(m', v') = snd (status_Svc (rec_Client r)
          (svc_with_phase ''Pending'' [cond now ''TargetDPUSetReady'' ''False'' ''WaitingForDPUSet''
             (Sprintf ''Waiting for OPIDPUSet %q to become Ready (current: %s)''
               [AStr (TargetDPUSet (svc_Spec s)), AStr (Phase (set_Status t))])] s) (m, v1))"
        using p g g1 Inr by (simp add: target_gate_def Let_def)
      then show ?thesis using wr by blast
    next
      case True
      then have "deploy_service r now s (m, v1) = (x, (m', v'))"
        using p g g1 Inr by (simp add: target_gate_def Let_def)
      then show ?thesis
        using deploy_service_effect [OF C A] g1 Inr True by (auto simp: PhaseReady_def)
    qed
  qed
qed

lemma svc_Reconcile_effect:
  assumes L: "lawful (rec_Client r)" and A: "Adapter r = A"
    and p: "svc_Reconcile r now q (m, v) = (x, (m', v'))"
  shows "sets m' = sets m \<and> (shrinks (dpuservices m) (dpuservices m') \<or>
    (\<exists>s t. svcs m q = Some s \<and> sets m (fst q, TargetDPUSet (svc_Spec s)) = Some t \<and> Phase (set_Status t) = PhaseReady))"
proof -
  have C: "svc_writes (rec_Client r)" and R: "reads (rec_Client r)" using L by (simp_all add: lawful_def)
  obtain a m1 v1 where g: "get_Svc (rec_Client r) q (m, v) = (a, (m1, v1))" by (metis prod.collapse)
  note g1 = get_SvcD [OF R g]
  show ?thesis
  proof (cases a)
    case (Inl e)
    then show ?thesis using p g g1 by (simp add: svc_Reconcile_def)
  next
    case (Inr s)
    have q: "q = meta_key (svc_meta s)" and sv: "svcs m q = Some s" using g1 Inr by blast+
    let ?with = "\<lambda>fs. s\<lparr>svc_meta := (svc_meta s)\<lparr>Finalizers := fs\<rparr>\<rparr>"
    have up: "sets m2 = sets m0 \<and> dpuservices m2 = dpuservices m0 \<and>
        (\<forall>s1. c = Inr s1 \<longrightarrow> Namespace (svc_meta s1) = fst q \<and> svc_Spec s1 = svc_Spec s)"
      if "update_Svc (rec_Client r) (?with fs) (m0, v0) = (c, (m2, v2))" for fs m0 v0 c m2 v2
    proof -
      have 1: "m2 = m0\<lparr>svcs := svcs m2\<rparr>" "\<And>s1. c = Inr s1 \<Longrightarrow> svc_meta s1 = svc_meta (?with fs) \<and> svc_Spec s1 = svc_Spec (?with fs)"
        using update_SvcD [OF C that] by blast+
      have "Namespace (svc_meta s1) = fst q \<and> svc_Spec s1 = svc_Spec s" if "c = Inr s1" for s1
        unfolding 1(2) [OF that, THEN conjunct1] 1(2) [OF that, THEN conjunct2] q by (simp add: meta_key_def)
      then show ?thesis using only_svcs [OF 1(1)] by blast
    qed
    have gate: ?thesis if t: "target_gate r now s1 (m2, v2) = (x, (m', v'))"
        and same: "sets m2 = sets m" "dpuservices m2 = dpuservices m" "Namespace (svc_meta s1) = fst q" "svc_Spec s1 = svc_Spec s"
      for s1 m2 v2
    proof -
      note e = target_gate_effect [OF L A t, unfolded same]
      show ?thesis
      proof (cases "dpuservices m' = dpuservices m")
        case True
        then show ?thesis using e by simp
      next
        case False
        then obtain z where "sets m (fst q, TargetDPUSet (svc_Spec s)) = Some z" "Phase (set_Status z) = PhaseReady"
          using e by blast
        then show ?thesis using e sv by blast
      qed
    qed
    consider "svc_Vendor (svc_Spec s) \<noteq> ''nvidia''"
      | "svc_Vendor (svc_Spec s) = ''nvidia''" "\<not> is_zero_time (DeletionTimestamp (svc_meta s))"
      | "svc_Vendor (svc_Spec s) = ''nvidia''" "is_zero_time (DeletionTimestamp (svc_meta s))"
          "ContainsFinalizer (rec_lib r) (Finalizers (svc_meta s)) OPIFinalizer"
      | "svc_Vendor (svc_Spec s) = ''nvidia''" "is_zero_time (DeletionTimestamp (svc_meta s))"
          "\<not> ContainsFinalizer (rec_lib r) (Finalizers (svc_meta s)) OPIFinalizer" by blast
    then show ?thesis
    proof cases
      case 1
      then show ?thesis using p g g1 Inr by (simp add: svc_Reconcile_def)
    next
      case 2
      then have d: "delete_svc r s (m, v1) = (x, (m', v'))" using p g g1 Inr by (simp add: svc_Reconcile_def)
      obtain e m1 w1 where de: "DeleteDPFResources A (svc_meta s) (m, v1) = (e, (m1, w1))" by (metis prod.collapse)
      obtain c m2 w2 where u: "update_Svc (rec_Client r)
          (?with (RemoveFinalizer (rec_lib r) (Finalizers (svc_meta s)) OPIFinalizer)) (m1, w1) = (c, (m2, w2))"
        by (metis prod.collapse)
      have "m' = m \<or> m' = m1 \<or> m' = m2"
        using d de u A by (auto simp: delete_svc_def split: option.splits sum.splits if_splits)
      then show ?thesis using delete_objects [OF de] up [OF u] by auto
    next
      case 3
      then have "target_gate r now s (m, v1) = (x, (m', v'))" using p g g1 Inr by (simp add: svc_Reconcile_def)
      then show ?thesis using gate q by (simp add: meta_key_def)
    next
      case 4
      obtain c m2 w2 where u: "update_Svc (rec_Client r)
          (?with (AddFinalizer (rec_lib r) (Finalizers (svc_meta s)) OPIFinalizer)) (m, v1) = (c, (m2, w2))"
        by (metis prod.collapse)
      note u2 = up [OF u]
      show ?thesis
      proof (cases c)
        case (Inl e)
        then show ?thesis using p g g1 \<open>a = Inr s\<close> 4 u u2 by (simp add: svc_Reconcile_def)
      next
        case (Inr s1)
        then have "target_gate r now s1 (m2, w2) = (x, (m', v'))"
          using p g g1 \<open>a = Inr s\<close> 4 u by (simp add: svc_Reconcile_def)
        then show ?thesis using gate u2 Inr by simp
      qed
    qed
  qed
qed

end

section \<open>The NVIDIA adapter keeps the contract\<close>

text \<open>Where the adapter keeps the image of a set: the name ends in \<open>-dpf-bfb\<close>.\<close>

definition image_key :: "key \<Rightarrow> key" where
  "image_key q = (DPFNamespace, dpfName (snd q) @ ''-bfb'')"

definition nvidia :: "'w Client \<Rightarrow> machinery \<Rightarrow> 'w OPIDPUSetReconciler" where
  "nvidia C k = \<lparr>rec_Client = C, rec_lib = k, Adapter = as_DPFAdapter (NewNvidiaDPFAdapter C k)\<rparr>"

lemma adapter_sel [simp]:
  "EnsureBFB (as_DPFAdapter a) = ad_EnsureBFB a" "EnsureDPUSet (as_DPFAdapter a) = ad_EnsureDPUSet a"
  "EnsureDPUCluster (as_DPFAdapter a) = ad_EnsureDPUCluster a" "EnsureDPUService (as_DPFAdapter a) = ad_EnsureDPUService a"
  "GetDPUSetStatus (as_DPFAdapter a) = ad_GetDPUSetStatus" "GetDPUServiceStatus (as_DPFAdapter a) = ad_GetDPUServiceStatus"
  "DeleteDPFResources (as_DPFAdapter a) = ad_DeleteDPFResources"
  by (simp_all add: as_DPFAdapter_def)

lemma nvidia_sel [simp]:
  "rec_Client (nvidia C k) = C" "rec_lib (nvidia C k) = k" "Adapter (nvidia C k) = as_DPFAdapter (NewNvidiaDPFAdapter C k)"
  by (simp_all add: nvidia_def)

lemma phase_object_writesD:
  assumes "object_writes C"
  shows "ensures bfb_meta bfbs (\<lambda>d m. m\<lparr>bfbs := d\<rparr>) (cou_BFB C)"
    "ensures dpuset_meta dpusets (\<lambda>d m. m\<lparr>dpusets := d\<rparr>) (cou_DPUSet C)"
    "ensures cluster_meta clusters (\<lambda>d m. m\<lparr>clusters := d\<rparr>) (cou_DPUCluster C)"
    "ensures dpusvc_meta dpuservices (\<lambda>d m. m\<lparr>dpuservices := d\<rparr>) (cou_DPUService C)"
  using assms by (simp_all add: object_writes_def)

lemma ad_EnsureBFB_effect:
  assumes W: "object_writes C" and p: "ad_EnsureBFB (NewNvidiaDPFAdapter C k) s (m, v) = (a, (m', v'))"
  shows "m' = m\<lparr>bfbs := bfbs m'\<rparr> \<and> (\<forall>b. a = Inr b \<longrightarrow> bfbs m' (image_key (meta_key (set_meta s))) = Some b)"
proof (cases "parseVendorExtensions s")
  case (Inl e)
  then show ?thesis using p by (auto simp: ad_EnsureBFB_def)
next
  case (Inr ext)
  let ?b = "\<lparr>bfb_meta = new_meta (dpfName (Name (set_meta s)) @ ''-bfb'') DPFNamespace,
      bfb_Spec = \<lparr>URL = '''', Version = ''''\<rparr>, bfb_Phase = ''''\<rparr>"
  have "cou_BFB C ?b (mutate_BFB k s (bfb_url s ext)) (m, v) = (a, (m', v'))"
    using p Inr by (simp add: ad_EnsureBFB_def NewNvidiaDPFAdapter_def Let_def)
  from ensuresD [OF phase_object_writesD(1) [OF W] this] show ?thesis
    by (auto simp: image_key_def meta_key_def new_meta_def)
qed

lemma ad_EnsureDPUCluster_effect:
  assumes W: "object_writes C" and p: "ad_EnsureDPUCluster (NewNvidiaDPFAdapter C k) s (m, v) = (a, (m', v'))"
  shows "m' = m\<lparr>clusters := clusters m'\<rparr>"
proof -
  have "m' = m \<or> (\<exists>x g c v2. cou_DPUCluster C x g (m, v) = (c, (m', v2)))"
    using p by (auto simp: ad_EnsureDPUCluster_def NewNvidiaDPFAdapter_def split: sum.splits option.splits if_splits prod.splits)
  then show ?thesis using ensuresD [OF phase_object_writesD(3) [OF W]] by fastforce
qed

lemma phase_nvidia_adapter:
  assumes "lawful C"
  shows "observing_adapter (as_DPFAdapter (NewNvidiaDPFAdapter C k)) image_key {''Provisioning''}"
proof -
  have W: "object_writes C" using assms by (simp add: lawful_def)
  show ?thesis
  proof (unfold_locales, goal_cases)
    case 1
    then show ?case using ad_EnsureBFB_effect [OF W] by simp
  next
    case 2
    then show ?case using ad_EnsureDPUCluster_effect [OF W] by simp
  next
    case 3
    then show ?case using ensuresD [OF phase_object_writesD(2) [OF W]] by (fastforce simp: ad_EnsureDPUSet_def NewNvidiaDPFAdapter_def)
  next
    case 4
    then show ?case using ensuresD [OF phase_object_writesD(4) [OF W]] by (fastforce simp: ad_EnsureDPUService_def NewNvidiaDPFAdapter_def)
  qed (auto simp: ad_GetDPUSetStatus_def ad_GetDPUServiceStatus_def ad_DeleteDPFResources_def)
qed

section \<open>What the passes promise\<close>

lemmas nvidia_Reconcile = observing_adapter.Reconcile_effect [OF phase_nvidia_adapter]
lemmas nvidia_svc_Reconcile = dpf_adapter.svc_Reconcile_effect [OF observing_adapter.axioms(1) [OF phase_nvidia_adapter]]

text \<open>
  C17.  A DPU set is created or changed only when the image of the set in question is registered as ready.\<close>

theorem rollout_waits_for_image:
  assumes "lawful C" and "Reconcile (nvidia C k) now q (m, v) = (x, (m', v'))"
    and "dpusets m' z = Some d" and "dpusets m z \<noteq> Some d"
  shows "\<exists>b. bfbs m' (image_key q) = Some b \<and> bfb_Phase b = ''Ready''"
proof -
  have "\<not> shrinks (dpusets m) (dpusets m')"
    using assms(3,4) unfolding shrinks_def by (metis option.discI)
  then show ?thesis using nvidia_Reconcile [OF assms(1) _ _ assms(2)] assms(1) by auto
qed

text \<open>
  The two reconcilers interleaved with everyone else.  The others, users and DPF, may change what they
  like but the status of a set, which starts out empty, and create no DPU service.\<close>

definition by_others :: "api \<Rightarrow> api \<Rightarrow> bool" where
  "by_others m m' = (phases_in {''''} m m' \<and> (\<forall>z. dpuservices m z = None \<longrightarrow> dpuservices m' z = None))"

inductive run :: "(api \<times> 'v) Client \<Rightarrow> machinery \<Rightarrow> api \<Rightarrow> api \<Rightarrow> bool" for C k where
  start: "run C k m m"
| set_pass: "run C k m m1 \<Longrightarrow> Reconcile (nvidia C k) now q (m1, v) = (x, (m2, v2)) \<Longrightarrow> run C k m m2"
| service_pass: "run C k m m1 \<Longrightarrow> svc_Reconcile (nvidia C k) now q (m1, v) = (x, (m2, v2)) \<Longrightarrow> run C k m m2"
| others: "run C k m m1 \<Longrightarrow> by_others m1 m2 \<Longrightarrow> run C k m m2"

text \<open>The phases a set can come to show.\<close>

abbreviation shown_phases :: "string set" where
  "shown_phases \<equiv> insert '''' (stored_phases {''Provisioning''})"

lemma phases_in_mono: "phases_in P m m' \<Longrightarrow> P \<subseteq> Q \<Longrightarrow> phases_in Q m m'"
  unfolding phases_in_def by blast

lemma run_phases:
  assumes L: "lawful C" and "run C k m m'"
  shows "phases_in shown_phases m m'"
  using assms(2)
proof induction
  case (start m)
  then show ?case by (simp add: phases_in_same)
next
  case (set_pass m m1 now q v x m2 v2)
  have "phases_in (stored_phases {''Provisioning''}) m1 m2"
    using nvidia_Reconcile [OF L _ _ set_pass.hyps(2)] L by simp
  then have "phases_in shown_phases m1 m2"
    by (rule phases_in_mono) blast
  then show ?case using set_pass.IH phases_in_trans by blast
next
  case (service_pass m m1 now q v x m2 v2)
  have "sets m2 = sets m1"
    using nvidia_svc_Reconcile [OF L _ _ service_pass.hyps(2)] L by simp
  then show ?case using service_pass.IH phases_in_trans phases_in_same by blast
next
  case (others m m1 m2)
  have "phases_in shown_phases m1 m2"
    using others.hyps(2) unfolding by_others_def by (blast intro: phases_in_mono)
  then show ?case using others.IH phases_in_trans by blast
qed

text \<open>
  C18.  As the adapter's status getter always answers \<open>Provisioning\<close>, no set ever becomes ready, and so no
  pass of the service reconciler ever creates a DPU service.\<close>

theorem no_service_is_deployed:
  assumes "lawful C" and "run C k m m'"
    and "\<forall>q s. sets m q = Some s \<longrightarrow> Phase (set_Status s) \<noteq> PhaseReady" and "\<forall>z. dpuservices m z = None"
  shows "(\<forall>q s. sets m' q = Some s \<longrightarrow> Phase (set_Status s) \<noteq> PhaseReady) \<and> (\<forall>z. dpuservices m' z = None)"
proof -
  have out: "PhaseReady \<notin> shown_phases" by (simp add: stored_phases_def phase_name_defs)
  have never: "Phase (set_Status s) \<noteq> PhaseReady" if "run C k m m1" "sets m1 q = Some s" for m1 q s
    using run_phases [OF assms(1) that(1)] that(2) assms(3) out unfolding phases_in_def by metis
  from assms(2) have "\<forall>z. dpuservices m' z = None" using assms(3,4) never
  proof (induction arbitrary: rule: run.induct)
    case (start m)
    then show ?case by blast
  next
    case (set_pass m m1 now q v x m2 v2)
    then have "\<forall>z. dpuservices m1 z = None" by blast
    then show ?case
      using nvidia_Reconcile [OF assms(1) _ _ set_pass.hyps(2)] assms(1) unfolding shrinks_def by (metis nvidia_sel(1,3))
  next
    case (service_pass m m1 now q v x m2 v2)
    then have 1: "\<forall>z. dpuservices m1 z = None" by blast
    have 2: "Phase (set_Status t) \<noteq> PhaseReady" if "sets m1 z = Some t" for z t
      using service_pass.prems(3) [OF service_pass.hyps(1) that] .
    have "shrinks (dpuservices m1) (dpuservices m2)"
      using nvidia_svc_Reconcile [OF assms(1) _ _ service_pass.hyps(2)] assms(1) 2 by auto
    then show ?case using 1 unfolding shrinks_def by metis
  next
    case (others m m1 m2)
    then show ?case unfolding by_others_def by blast
  qed
  then show ?thesis using never [OF assms(2)] by blast
qed

text \<open>
  The phase \<open>ClusterIsolation\<close> is never stored: the pass goes on to the roll-out with whatever the cluster
  object says and overwrites the phase.\<close>

theorem isolation_never_shown:
  assumes "lawful C" and "run C k m m'" and "sets m' q = Some s" and "Phase (set_Status s) = PhaseClusterIsolation"
  shows "\<exists>s0. sets m q = Some s0 \<and> Phase (set_Status s0) = PhaseClusterIsolation"
proof -
  have "PhaseClusterIsolation \<notin> shown_phases" by (simp add: stored_phases_def phase_name_defs)
  then show ?thesis
    using run_phases [OF assms(1,2)] assms(3,4) unfolding phases_in_def by metis
qed

lemma SetControllerReferenceD:
  assumes "documented k" and "SetControllerReference k owner x = Inr y"
  shows "Namespace owner = '''' \<or> Namespace owner = Namespace x" "meta_key y = meta_key x"
proof -
  have 1: "(Namespace owner = '''' \<or> Namespace owner = Namespace x) \<and> y = x\<lparr>OwnerReferences := OwnerReferences y\<rparr>"
    using assms unfolding documented_def by blast
  then show "Namespace owner = '''' \<or> Namespace owner = Namespace x" ..
  show "meta_key y = meta_key x" using 1 [THEN conjunct2] by (cases x; cases y) (simp add: meta_key_def)
qed

text \<open>A returned image: it is stored, with the specification the set asks for.\<close>

lemma ad_EnsureBFB_stored:
  assumes L: "lawful C" and D: "documented k"
    and p: "ad_EnsureBFB (NewNvidiaDPFAdapter C k) s (m, v) = (Inr b, (m', v'))"
  shows "\<exists>ext. parseVendorExtensions s = Inr ext \<and>
      bfb_Spec b = \<lparr>URL = bfb_url s ext, Version = img_Version (FirmwareImage (Spec s))\<rparr> \<and>
      meta_key (bfb_meta b) = image_key (meta_key (set_meta s))"
    "Namespace (set_meta s) = '''' \<or> Namespace (set_meta s) = DPFNamespace"
proof -
  have W: "object_writes C" using L by (simp add: lawful_def)
  obtain ext where ext: "parseVendorExtensions s = Inr ext"
    using p by (cases "parseVendorExtensions s") (simp_all add: ad_EnsureBFB_def)
  let ?b = "\<lparr>bfb_meta = new_meta (dpfName (Name (set_meta s)) @ ''-bfb'') DPFNamespace,
      bfb_Spec = \<lparr>URL = '''', Version = ''''\<rparr>, bfb_Phase = ''''\<rparr>"
  have "cou_BFB C ?b (mutate_BFB k s (bfb_url s ext)) (m, v) = (Inr b, (m', v'))"
    using p ext by (simp add: ad_EnsureBFB_def NewNvidiaDPFAdapter_def Let_def)
  from ensuresD [OF phase_object_writesD(1) [OF W] this] obtain base where
    base: "meta_key (bfb_meta base) = meta_key (bfb_meta ?b)" "mutate_BFB k s (bfb_url s ext) base = Inr b" by blast
  obtain meta where meta: "SetControllerReference k (set_meta s) (bfb_meta base) = Inr meta"
      "b = base\<lparr>bfb_meta := meta, bfb_Spec := \<lparr>URL = bfb_url s ext, Version = img_Version (FirmwareImage (Spec s))\<rparr>\<rparr>"
    using base(2) by (auto simp: mutate_BFB_def split: sum.splits)
  note ref = SetControllerReferenceD [OF D meta(1)]
  have key: "meta_key (bfb_meta base) = image_key (meta_key (set_meta s))"
    using base(1) by (simp add: image_key_def meta_key_def new_meta_def)
  show "\<exists>ext. parseVendorExtensions s = Inr ext \<and>
      bfb_Spec b = \<lparr>URL = bfb_url s ext, Version = img_Version (FirmwareImage (Spec s))\<rparr> \<and>
      meta_key (bfb_meta b) = image_key (meta_key (set_meta s))"
    using ext meta(2) ref(2) key by simp
  show "Namespace (set_meta s) = '''' \<or> Namespace (set_meta s) = DPFNamespace"
    using ref(1) key by (simp add: image_key_def meta_key_def)
qed

lemma ensure_failed_sets:
  assumes C: "set_writes (rec_Client r)" and p: "ensure_failed r now s what err (m, v) = (x, (m', v'))"
  shows "m' = m\<lparr>sets := sets m'\<rparr>" "snd x = Some err"
proof -
  obtain b m2 v2 where u: "status_Set (rec_Client r)
      (with_phase PhaseError [cond now ''DPFResourcesSynced'' ''False'' (what @ ''SyncFailed'') (Sprintf ''%s'' [AErr err])] s) (m, v) = (b, (m2, v2))"
    by (metis prod.collapse)
  have "(m', v') = (m2, v2)" "snd x = Some err"
    using p u by (auto simp: ensure_failed_def isUnrecoverableError_def setErrorStatus_def)
  then show "m' = m\<lparr>sets := sets m'\<rparr>" "snd x = Some err" using status_Set_effect(1) [OF C u] by simp_all
qed

definition same_objects :: "api \<Rightarrow> api \<Rightarrow> bool" where
  "same_objects m m' = (bfbs m' = bfbs m \<and> clusters m' = clusters m \<and> dpusets m' = dpusets m \<and> dpuservices m' = dpuservices m)"

lemma foreign_gates:
  assumes L: "lawful C" and D: "documented k" and n: "Namespace (set_meta s) \<noteq> ''''" "Namespace (set_meta s) \<noteq> DPFNamespace"
    and p: "phase_gates (nvidia C k) now s (m, v) = (x, (m', v'))"
  shows "same_objects m m' \<and> snd x \<noteq> None"
proof -
  have C: "set_writes (rec_Client (nvidia C k))" and W: "object_writes C" using L by (simp_all add: lawful_def)
  obtain a m1 v1 where b: "ad_EnsureBFB (NewNvidiaDPFAdapter C k) s (m, v) = (a, (m1, v1))" by (metis prod.collapse)
  obtain e where e: "a = Inl e"
    using ad_EnsureBFB_stored(2) [OF L D] b n by (cases a) blast+
  have "parseVendorExtensions s = Inl e \<Longrightarrow> m1 = m" using b by (simp add: ad_EnsureBFB_def)
  moreover have "m1 = m" if "parseVendorExtensions s = Inr ext" for ext
  proof -
    have "cou_BFB C \<lparr>bfb_meta = new_meta (dpfName (Name (set_meta s)) @ ''-bfb'') DPFNamespace,
        bfb_Spec = \<lparr>URL = '''', Version = ''''\<rparr>, bfb_Phase = ''''\<rparr> (mutate_BFB k s (bfb_url s ext)) (m, v) = (a, (m1, v1))"
      using b that by (simp add: ad_EnsureBFB_def NewNvidiaDPFAdapter_def Let_def)
    from ensuresD [OF phase_object_writesD(1) [OF W] this] show ?thesis using e by blast
  qed
  ultimately have m1: "m1 = m" using b by (cases "parseVendorExtensions s") (auto simp: ad_EnsureBFB_def)
  have f: "ensure_failed (nvidia C k) now s ''BFB'' e (m, v1) = (x, (m', v'))"
    using p b e m1 by (simp add: phase_gates_def)
  show ?thesis
    using phase_only_sets [OF ensure_failed_sets(1) [OF C f]] ensure_failed_sets(2) [OF C f] by (simp add: same_objects_def)
qed

text \<open>
  The adapter keeps its objects in \<open>dpf-operator-system\<close> and makes the set their owner, which an owner of
  another namespace cannot be: a pass over such a set creates nothing and, unless it has nothing to do
  or the set is being deleted, ends in an error.\<close>

theorem namespaces_must_agree:
  assumes "lawful C" and "documented k" and "fst q \<noteq> ''''" and "fst q \<noteq> DPFNamespace"
    and "Reconcile (nvidia C k) now q (m, v) = (x, (m', v'))"
  shows "same_objects m m' \<and>
    (snd x \<noteq> None \<or> m' = m \<or> (\<exists>s. sets m q = Some s \<and> \<not> is_zero_time (DeletionTimestamp (set_meta s))))"
proof -
  have C: "set_writes C" and R: "reads C" using assms(1) by (simp_all add: lawful_def)
  obtain a m1 v1 where g: "get_Set C q (m, v) = (a, (m1, v1))" by (metis prod.collapse)
  note g1 = get_SetD [OF R g]
  have upd: "same_objects m m2 \<and> (\<forall>s1. c = Inr s1 \<longrightarrow> set_meta s1 = set_meta t)"
    if "update_Set C t (m, v0) = (c, (m2, v2))" for t v0 c m2 v2
    using update_SetD [OF C that] by (auto simp: same_objects_def)
  have same: "same_objects m m" by (simp add: same_objects_def)
  show ?thesis
  proof (cases a)
    case (Inl e)
    then show ?thesis using assms(5) g g1 same by (simp add: Reconcile_def)
  next
    case (Inr s)
    then have s: "sets m q = Some s" "q = meta_key (set_meta s)" using g1 by auto
    then have n: "Namespace (set_meta s) \<noteq> ''''" "Namespace (set_meta s) \<noteq> DPFNamespace"
      using assms(3,4) by (simp_all add: meta_key_def)
    consider "Vendor (Spec s) \<noteq> ''nvidia''"
      | "Vendor (Spec s) = ''nvidia''" "\<not> is_zero_time (DeletionTimestamp (set_meta s))"
      | "Vendor (Spec s) = ''nvidia''" "is_zero_time (DeletionTimestamp (set_meta s))"
          "ContainsFinalizer k (Finalizers (set_meta s)) OPIFinalizer"
      | "Vendor (Spec s) = ''nvidia''" "is_zero_time (DeletionTimestamp (set_meta s))"
          "\<not> ContainsFinalizer k (Finalizers (set_meta s)) OPIFinalizer" by blast
    then show ?thesis
    proof cases
      case 1
      then show ?thesis using assms(5) g g1 Inr same by (simp add: Reconcile_def)
    next
      case 2
      let ?t = "s\<lparr>set_meta := (set_meta s)\<lparr>Finalizers := RemoveFinalizer k (Finalizers (set_meta s)) OPIFinalizer\<rparr>\<rparr>"
      obtain c m2 v2 where u: "update_Set C ?t (m, v1) = (c, (m2, v2))" by (metis prod.collapse)
      have "m' = m \<or> m' = m2"
        using assms(5) g g1 Inr 2 u
        by (auto simp: Reconcile_def delete_set_def ad_DeleteDPFResources_def split: sum.splits if_splits)
      then show ?thesis using upd [OF u] same s(1) 2(2) by blast
    next
      case 3
      then have "phase_gates (nvidia C k) now s (m, v1) = (x, (m', v'))"
        using assms(5) g g1 Inr by (simp add: Reconcile_def)
      then show ?thesis using foreign_gates [OF assms(1,2) n] by blast
    next
      case 4
      let ?t = "s\<lparr>set_meta := (set_meta s)\<lparr>Finalizers := AddFinalizer k (Finalizers (set_meta s)) OPIFinalizer\<rparr>\<rparr>"
      obtain c m2 v2 where u: "update_Set C ?t (m, v1) = (c, (m2, v2))" by (metis prod.collapse)
      show ?thesis
      proof (cases c)
        case (Inl e)
        then have "x = (0, Some e)" "m' = m2"
          using assms(5) g g1 \<open>a = Inr s\<close> 4 u by (simp_all add: Reconcile_def)
        then show ?thesis using upd [OF u] by simp
      next
        case (Inr s1)
        then have "phase_gates (nvidia C k) now s1 (m2, v2) = (x, (m', v'))"
          using assms(5) g g1 \<open>a = Inr s\<close> 4 u by (simp add: Reconcile_def)
        moreover have "Namespace (set_meta s1) = Namespace (set_meta s)" using upd [OF u] Inr by simp
        ultimately have "same_objects m2 m' \<and> snd x \<noteq> None" using foreign_gates [OF assms(1,2), of s1] n by simp
        then show ?thesis using upd [OF u] by (simp add: same_objects_def)
      qed
    qed
  qed
qed

section \<open>What a successful pass leaves\<close>

definition cluster_key :: "key \<Rightarrow> key" where "cluster_key q = (DPFNamespace, dpfName (snd q) @ ''-cluster'')"
definition dpuset_key :: "key \<Rightarrow> key" where "dpuset_key q = (DPFNamespace, dpfName (snd q))"

definition wanted_cluster :: "NvidiaVendorExtensions option \<Rightarrow> DPUClusterConfig option" where
  "wanted_cluster ext = (case ext of None \<Rightarrow> None
     | Some x \<Rightarrow> (case ext_DPUCluster x of Some c \<Rightarrow> if Enabled c then Some c else None | None \<Rightarrow> None))"

text \<open>The DPF objects say what the set says.\<close>

definition applied :: "key \<Rightarrow> OPIDPUSet \<Rightarrow> api \<Rightarrow> bool" where
  "applied q s m = (\<exists>ext b d. parseVendorExtensions s = Inr ext \<and>
     bfbs m (image_key q) = Some b \<and> bfb_Spec b = \<lparr>URL = bfb_url s ext, Version = img_Version (FirmwareImage (Spec s))\<rparr> \<and>
     dpusets m (dpuset_key q) = Some d \<and>
     dpuset_Spec d = \<lparr>dpf_NodeSelector = NodeSelector (Spec s), BFBRef = snd (image_key q), dpf_Count = Count (Spec s)\<rparr> \<and>
     (\<forall>c. wanted_cluster ext = Some c \<longrightarrow> (\<exists>cl. clusters m (cluster_key q) = Some cl \<and> cluster_SpecType cl = cluster_Type c)))"

lemma ad_EnsureDPUCluster_stored:
  assumes L: "lawful C" and ext: "parseVendorExtensions s = Inr ext"
    and p: "ad_EnsureDPUCluster (NewNvidiaDPFAdapter C k) s (m, v) = (Inr a, (m', v'))"
  shows "\<forall>c. wanted_cluster ext = Some c \<longrightarrow>
    (\<exists>cl. clusters m' (cluster_key (meta_key (set_meta s))) = Some cl \<and> cluster_SpecType cl = cluster_Type c)"
proof (intro allI impI)
  fix c
  assume "wanted_cluster ext = Some c"
  then obtain x where x: "ext = Some x" "ext_DPUCluster x = Some c" "Enabled c"
    by (auto simp: wanted_cluster_def split: option.splits if_splits)
  let ?x = "\<lparr>cluster_meta = new_meta (dpfName (Name (set_meta s)) @ ''-cluster'') DPFNamespace, cluster_SpecType = ''''\<rparr>"
  obtain r w where c: "cou_DPUCluster C ?x (mutate_DPUCluster k s (cluster_Type c)) (m, v) = (r, w)" by (metis prod.collapse)
  obtain cl where cl: "r = Inr cl" "w = (m', v')"
    using p ext x c by (auto simp: ad_EnsureDPUCluster_def NewNvidiaDPFAdapter_def split: sum.splits)
  have "ensures cluster_meta clusters (\<lambda>d m. m\<lparr>clusters := d\<rparr>) (cou_DPUCluster C)"
    using L by (simp add: lawful_def object_writes_def)
  from ensuresD [OF this c [unfolded cl]] obtain base where
    "mutate_DPUCluster k s (cluster_Type c) base = Inr cl" "m' = m\<lparr>clusters := (clusters m)(meta_key (cluster_meta ?x) \<mapsto> cl)\<rparr>"
    by blast
  then show "\<exists>cl. clusters m' (cluster_key (meta_key (set_meta s))) = Some cl \<and> cluster_SpecType cl = cluster_Type c"
    by (auto simp: mutate_DPUCluster_def cluster_key_def meta_key_def new_meta_def split: sum.splits)
qed

lemma ad_EnsureDPUSet_stored:
  assumes L: "lawful C" and p: "ad_EnsureDPUSet (NewNvidiaDPFAdapter C k) s b (m, v) = (Inr a, (m', v'))"
  shows "\<exists>d. dpusets m' (dpuset_key (meta_key (set_meta s))) = Some d \<and>
    dpuset_Spec d = \<lparr>dpf_NodeSelector = NodeSelector (Spec s), BFBRef = Name (bfb_meta b), dpf_Count = Count (Spec s)\<rparr>"
proof -
  let ?x = "\<lparr>dpuset_meta = new_meta (dpfName (Name (set_meta s))) DPFNamespace,
        dpuset_Spec = \<lparr>dpf_NodeSelector = [], BFBRef = '''', dpf_Count = 0\<rparr>,
        dpuset_Status = \<lparr>dpf_Phase = '''', dpf_ReadyCount = 0, TotalCount = 0\<rparr>\<rparr>"
  have c: "cou_DPUSet C ?x (mutate_DPUSet k s b) (m, v) = (Inr a, (m', v'))"
    using p by (simp add: ad_EnsureDPUSet_def NewNvidiaDPFAdapter_def)
  have "ensures dpuset_meta dpusets (\<lambda>d m. m\<lparr>dpusets := d\<rparr>) (cou_DPUSet C)"
    using L by (simp add: lawful_def object_writes_def)
  from ensuresD [OF this c] obtain base where
    "mutate_DPUSet k s b base = Inr a" "m' = m\<lparr>dpusets := (dpusets m)(meta_key (dpuset_meta ?x) \<mapsto> a)\<rparr>" by blast
  then show ?thesis
    by (auto simp: mutate_DPUSet_def dpuset_key_def meta_key_def new_meta_def split: sum.splits)
qed

lemma sync_status_sets:
  assumes L: "lawful C" and p: "sync_status (nvidia C k) now s (m, v) = (x, (m', v'))"
  shows "m' = m\<lparr>sets := sets m'\<rparr>"
  using observing_adapter.sync_status_effect [OF phase_nvidia_adapter [OF L], of "nvidia C k"] p L by (auto simp: lawful_def)

lemma phase_gates_applied:
  assumes L: "lawful C" and D: "documented k" and q: "q = meta_key (set_meta s)"
    and p: "phase_gates (nvidia C k) now s (m, v) = ((d, None), (m', v'))"
    and R: "bfbs m' (image_key q) = Some b" "bfb_Phase b = ''Ready''"
  shows "applied q s m'"
proof -
  have C: "set_writes (rec_Client (nvidia C k))" and W: "object_writes C" using L by (simp_all add: lawful_def)
  obtain a m1 v1 where b1: "ad_EnsureBFB (NewNvidiaDPFAdapter C k) s (m, v) = (a, (m1, v1))" by (metis prod.collapse)
  obtain b' where a: "a = Inr b'"
    using p b1 ensure_failed_sets(2) [OF C] by (cases a) (fastforce simp: phase_gates_def)+
  note image = ad_EnsureBFB_stored(1) [OF L D b1 [unfolded a]]
  have stored: "bfbs m1 (image_key q) = Some b'"
    using ad_EnsureBFB_effect [OF W b1] a q by blast
  show ?thesis
  proof (cases "bfb_Phase b' = ''Ready''")
    case False
    let ?t = "with_phase PhaseBootImageMapping
        [cond now ''BFBReady'' ''False'' ''WaitingForBFBRegistration''
          (Sprintf ''BFB image metadata not yet registered (current: %s)'' [AStr (bfb_Phase b')])] s"
    obtain c m2 v2 where u: "status_Set (rec_Client (nvidia C k)) ?t (m1, v1) = (c, (m2, v2))" by (metis prod.collapse)
    have "m' = m2" using p b1 a False u by (simp add: phase_gates_def)
    then have "bfbs m' = bfbs m1" using phase_only_sets [OF status_Set_effect(1) [OF C u]] by simp
    then show ?thesis using R stored False by simp
  next
    case True
    obtain c m2 v2 where k: "ad_EnsureDPUCluster (NewNvidiaDPFAdapter C k) s (m1, v1) = (c, (m2, v2))" by (metis prod.collapse)
    obtain cl where c: "c = Inr cl"
      using p b1 a True k ensure_failed_sets(2) [OF C] by (cases c) (fastforce simp: phase_gates_def)+
    let ?s = "if cl \<noteq> None then s\<lparr>set_Status := (set_Status s)\<lparr>Phase := PhaseClusterIsolation\<rparr>\<rparr> else s"
    obtain e m3 v3 where t: "ad_EnsureDPUSet (NewNvidiaDPFAdapter C k) ?s b' (m2, v2) = (e, (m3, v3))" by (metis prod.collapse)
    have f: "ensure_failed (nvidia C k) now ?s ''DPUSet'' z (m3, v3) = ((d, None), (m', v'))" if "e = Inl z" for z
      using that p b1 a True k c t by (simp add: phase_gates_def Let_def)
    obtain ds where e: "e = Inr ds"
      using ensure_failed_sets(2) [OF C f] by (cases e) auto
    have "sync_status (nvidia C k) now ?s (m3, v3) = ((d, None), (m', v'))"
      using p b1 a True k c t e by (simp add: phase_gates_def Let_def)
    note end_ = phase_only_sets [OF sync_status_sets [OF L this]]
    note s2 = phase_only_clusters [OF ad_EnsureDPUCluster_effect [OF W k]]
    have s3: "m3 = m2\<lparr>dpusets := dpusets m3\<rparr>"
      using observing_adapter.axioms(1) [OF phase_nvidia_adapter [OF L], THEN dpf_adapter.ensure_set] t by simp
    note s3 = only_dpusets [OF s3]
    obtain ext where ext: "parseVendorExtensions s = Inr ext"
        "bfb_Spec b' = \<lparr>URL = bfb_url s ext, Version = img_Version (FirmwareImage (Spec s))\<rparr>"
        "meta_key (bfb_meta b') = image_key q"
      using image q by blast
    have set: "\<exists>d. dpusets m3 (dpuset_key q) = Some d \<and> dpuset_Spec d =
        \<lparr>dpf_NodeSelector = NodeSelector (Spec s), BFBRef = snd (image_key q), dpf_Count = Count (Spec s)\<rparr>"
    proof -
      have sm: "set_meta ?s = set_meta s" "Spec ?s = Spec s" by simp_all
      have nm: "snd (image_key q) = Name (bfb_meta b')" using ext(3) [symmetric] by (simp add: meta_key_def)
      show ?thesis using ad_EnsureDPUSet_stored [OF L t [unfolded e], unfolded sm] unfolding q [symmetric] nm .
    qed
    have cluster: "\<forall>c. wanted_cluster ext = Some c \<longrightarrow>
        (\<exists>cl. clusters m2 (cluster_key q) = Some cl \<and> cluster_SpecType cl = cluster_Type c)"
      using ad_EnsureDPUCluster_stored [OF L ext(1) k [unfolded c]] q by simp
    show ?thesis
      unfolding applied_def using ext(1,2) stored set cluster end_ s2 s3 by auto
  qed
qed

text \<open>
  A pass that reports no error on a set under a ready image has brought image, cluster (when one is
  asked for) and DPU set to what the set says.\<close>

theorem success_means_applied:
  assumes "lawful C" and "documented k" and "Reconcile (nvidia C k) now q (m, v) = ((d, None), (m', v'))"
    and "get_Set C q (m, v) = (Inr s, w)" and "Vendor (Spec s) = ''nvidia''" and "is_zero_time (DeletionTimestamp (set_meta s))"
    and "bfbs m' (image_key q) = Some b" and "bfb_Phase b = ''Ready''"
  shows "applied q s m'"
proof -
  have C: "set_writes C" and R: "reads C" using assms(1) by (simp_all add: lawful_def)
  obtain v1 where w: "w = (m, v1)" and q: "q = meta_key (set_meta s)"
    using get_SetD [OF R] assms(4) by (metis prod.collapse)
  show ?thesis
  proof (cases "ContainsFinalizer k (Finalizers (set_meta s)) OPIFinalizer")
    case True
    then have "phase_gates (nvidia C k) now s (m, v1) = ((d, None), (m', v'))"
      using assms(3-6) w by (simp add: Reconcile_def)
    then show ?thesis using phase_gates_applied [OF assms(1,2) q] assms(7,8) by blast
  next
    case False
    let ?t = "s\<lparr>set_meta := (set_meta s)\<lparr>Finalizers := AddFinalizer k (Finalizers (set_meta s)) OPIFinalizer\<rparr>\<rparr>"
    obtain c m2 v2 where u: "update_Set C ?t (m, v1) = (c, (m2, v2))" by (metis prod.collapse)
    obtain s1 where c: "c = Inr s1" using assms(3-6) w False u by (cases c) (simp_all add: Reconcile_def)
    have s1: "set_meta s1 = set_meta ?t" "Spec s1 = Spec s"
      using update_Set_effect(3) [OF C u c] by simp_all
    have "phase_gates (nvidia C k) now s1 (m2, v2) = ((d, None), (m', v'))"
      using assms(3-6) w False u c by (simp add: Reconcile_def)
    moreover have "q = meta_key (set_meta s1)" using q s1(1) by (simp add: meta_key_def)
    ultimately have "applied q s1 m'" using phase_gates_applied [OF assms(1,2)] assms(7,8) by blast
    moreover have "parseVendorExtensions s1 = parseVendorExtensions s" "bfb_url s1 = bfb_url s"
      by (auto simp: parseVendorExtensions_def bfb_url_def s1(2) split: option.split)
    ultimately show ?thesis unfolding applied_def s1(2) by simp
  qed
qed

text \<open>
  Deleting a set: the finalizer goes and every DPF object stays, as the adapter's deletion is a stub.\<close>

theorem deletion_leaves_objects:
  assumes "lawful C" and "documented k" and "Reconcile (nvidia C k) now q (m, v) = ((d, None), (m', v'))"
    and "get_Set C q (m, v) = (Inr s, w)" and "Vendor (Spec s) = ''nvidia''" and "\<not> is_zero_time (DeletionTimestamp (set_meta s))"
  shows "same_objects m m' \<and> (\<forall>s'. sets m' q = Some s' \<longrightarrow> OPIFinalizer \<notin> set (Finalizers (set_meta s')))"
proof -
  have C: "set_writes C" and R: "reads C" using assms(1) by (simp_all add: lawful_def)
  obtain v1 where w: "w = (m, v1)" and q: "q = meta_key (set_meta s)" and s: "sets m q = Some s"
    using get_SetD [OF R] assms(4) by (metis prod.collapse)
  obtain t where tdef: "t = s\<lparr>set_meta := (set_meta s)\<lparr>Finalizers := RemoveFinalizer k (Finalizers (set_meta s)) OPIFinalizer\<rparr>\<rparr>" by blast
  obtain c m2 v2 where u: "update_Set C t (m, v1) = (c, (m2, v2))" by (metis prod.collapse)
  have fin: "ContainsFinalizer k fs f = (f \<in> set fs)" "set (RemoveFinalizer k fs f) = set fs - {f}" for fs f
    using assms(2) by (simp_all add: documented_def)
  show ?thesis
  proof (cases "OPIFinalizer \<in> set (Finalizers (set_meta s))")
    case False
    then show ?thesis using assms(3-6) w s fin by (auto simp: Reconcile_def delete_set_def same_objects_def)
  next
    case True
    have "m' = m2 \<and> (\<exists>z. c = Inr z)"
      using assms(3-6) w True fin u
      unfolding tdef by (cases c) (auto simp: Reconcile_def delete_set_def ad_DeleteDPFResources_def)
    then obtain z where z: "m' = m2" "c = Inr z" by blast
    have t: "meta_key (set_meta t) = q" using q by (simp add: tdef meta_key_def)
    have "\<nexists>e. c = Inl e" using z(2) by simp
    then obtain old :: OPIDPUSet where m2: "m2 = m\<lparr>sets := (sets m)(q := if gone (set_meta t) then None else Some (t\<lparr>set_Status := set_Status old\<rparr>))\<rparr>"
      using update_SetD [OF C u] unfolding t by blast
    have "OPIFinalizer \<notin> set (Finalizers (set_meta s'))" if "sets m' q = Some s'" for s'
    proof -
      have "s' = t\<lparr>set_Status := set_Status old\<rparr>" using that z(1) m2 by (simp split: if_splits)
      then show ?thesis using fin(2) by (simp add: tdef)
    qed
    then show ?thesis using z(1) m2 by (simp add: same_objects_def)
  qed
qed

text \<open>
  What a successful status read makes of the set, for any adapter: \<open>Ready\<close> for \<open>Ready\<close>, a parked phase
  for \<open>AwaitingReboot\<close>, and \<open>RollingRollout\<close> for everything else, an \<open>Error\<close> of DPF included.\<close>

theorem dpf_error_reads_as_rollout:
  assumes "set_writes (rec_Client r)" and "sync_status r now s (m, v) = ((d, None), (m', v'))"
    and "GetDPUSetStatus (Adapter r) (Name (set_meta s) @ ''-dpf'') DPFNamespace (m, v) = (Inr st, (m, v1))"
    and "sets m' (meta_key (set_meta s)) = Some s'" and "dpf_Phase st \<noteq> ''AwaitingReboot''"
  shows "Phase (set_Status s') = (if dpf_Phase st = ''Ready'' then PhaseReady else PhaseRollingRollout) \<and>
    d = (if dpf_Phase st = ''Ready'' then 0 else DefaultRequeueInterval)"
proof -
  obtain opi conds where mp: "MapDPUSetPhase now st = (opi, conds)" by fastforce
  have opi: "opi = PhaseReady \<longleftrightarrow> dpf_Phase st = ''Ready''"
    using mp by (auto simp: MapDPUSetPhase_def phase_name_defs split: if_splits)
  let ?s1 = "s\<lparr>set_Status := (set_Status s)\<lparr>ReadyCount := dpf_ReadyCount st, DPUCount := TotalCount st\<rparr>\<rparr>"
  let ?s2 = "?s1\<lparr>set_Status := (set_Status ?s1)
      \<lparr>VendorStatus := Some \<lparr>DPFDPUSetName = Name (set_meta s) @ ''-dpf'', DPFDPUSetPhase = dpf_Phase st\<rparr>\<rparr>\<rparr>"
  let ?t = "with_phase (if opi \<noteq> PhaseReady then PhaseRollingRollout else PhaseReady)
      (conds @ [cond now ''DPFResourcesSynced'' ''True'' ''SyncSuccessful'' (Text ''All DPF resources are synced'')]) ?s2"
  obtain b m2 v2 where u: "status_Set (rec_Client r) ?t (m, v1) = (b, (m2, v2))" by (metis prod.collapse)
  obtain s4 where b: "b = Inr s4"
    using assms(2,3,5) mp u by (cases b) (simp_all add: sync_status_def Let_def)
  have out: "m' = m2" "d = (if Phase (set_Status s4) \<noteq> PhaseReady then DefaultRequeueInterval else 0)"
    using assms(2,3,5) mp u b by (simp_all add: sync_status_def Let_def)
  have "meta_key (set_meta ?t) = meta_key (set_meta s)" by (simp add: with_phase_def)
  then have "s' = s4" "set_Status s4 = set_Status ?t"
    using status_SetD [OF assms(1) u] b assms(4) out(1) by auto
  moreover have "Phase (set_Status ?t) = (if dpf_Phase st = ''Ready'' then PhaseReady else PhaseRollingRollout)"
    using opi by (simp add: with_phase_def)
  ultimately show ?thesis using out(2) by (simp add: phase_name_defs)
qed

section \<open>A server in memory, and runs on it\<close>

definition NotFound :: go_error where "NotFound = External ''not found''"

definition demo_lib :: machinery where
  "demo_lib =
     \<lparr>IgnoreNotFound = (\<lambda>e. if e = NotFound then None else Some e),
      ContainsFinalizer = (\<lambda>fs f. f \<in> set fs), AddFinalizer = (\<lambda>fs f. if f \<in> set fs then fs else fs @ [f]),
      RemoveFinalizer = (\<lambda>fs f. removeAll f fs),
      SetControllerReference = (\<lambda>owner x.
        if Namespace owner \<noteq> '''' \<and> Namespace owner \<noteq> Namespace x
        then Inl (External ''cross-namespace owner references are disallowed'')
        else Inr (x\<lparr>OwnerReferences := [\<lparr>ref_Name = Name owner, ref_UID = UID owner\<rparr>]\<rparr>)),
      TerminalError = (\<lambda>e. Errorf ''terminal error: %w'' [AWrap e])\<rparr>"

definition demo_cou :: "('a \<Rightarrow> ObjectMeta) \<Rightarrow> (api \<Rightarrow> key \<Rightarrow> 'a option) \<Rightarrow> ((key \<Rightarrow> 'a option) \<Rightarrow> api \<Rightarrow> api) \<Rightarrow>
    ('a, api \<times> unit) create_or_update" where
  "demo_cou meta view put x g w =
     (let q = meta_key (meta x); base = (case view (fst w) q of Some old \<Rightarrow> old | None \<Rightarrow> x) in
      if meta_key (meta base) \<noteq> q then (Inl (External ''another object''), w)
      else case g base of Inl e \<Rightarrow> (Inl e, w) | Inr y \<Rightarrow> (Inr y, (put ((view (fst w))(q \<mapsto> y)) (fst w), snd w)))"

definition demo_client :: "(api \<times> unit) Client" where
  "demo_client =
     \<lparr>get_Set = (\<lambda>q w. (case sets (fst w) q of
          Some s \<Rightarrow> if meta_key (set_meta s) = q then Inr s else Inl NotFound | None \<Rightarrow> Inl NotFound, w)),
      update_Set = (\<lambda>s w. case sets (fst w) (meta_key (set_meta s)) of
          None \<Rightarrow> (Inl NotFound, w)
        | Some old \<Rightarrow> (let s' = s\<lparr>set_Status := set_Status old\<rparr> in
            (Inr s', ((fst w)\<lparr>sets := (sets (fst w))(meta_key (set_meta s) := if gone (set_meta s) then None else Some s')\<rparr>, snd w)))),
      status_Set = (\<lambda>s w. case sets (fst w) (meta_key (set_meta s)) of
          None \<Rightarrow> (Inl NotFound, w)
        | Some old \<Rightarrow> (let s' = old\<lparr>set_Status := set_Status s\<rparr> in
            (Inr s', ((fst w)\<lparr>sets := (sets (fst w))(meta_key (set_meta s) \<mapsto> s')\<rparr>, snd w)))),
      get_Svc = (\<lambda>q w. (case svcs (fst w) q of
          Some s \<Rightarrow> if meta_key (svc_meta s) = q then Inr s else Inl NotFound | None \<Rightarrow> Inl NotFound, w)),
      update_Svc = (\<lambda>s w. case svcs (fst w) (meta_key (svc_meta s)) of
          None \<Rightarrow> (Inl NotFound, w)
        | Some old \<Rightarrow> (let s' = s\<lparr>svc_Status := svc_Status old\<rparr> in
            (Inr s', ((fst w)\<lparr>svcs := (svcs (fst w))(meta_key (svc_meta s) := if gone (svc_meta s) then None else Some s')\<rparr>, snd w)))),
      status_Svc = (\<lambda>s w. case svcs (fst w) (meta_key (svc_meta s)) of
          None \<Rightarrow> (Inl NotFound, w)
        | Some old \<Rightarrow> (let s' = old\<lparr>svc_Status := svc_Status s\<rparr> in
            (Inr s', ((fst w)\<lparr>svcs := (svcs (fst w))(meta_key (svc_meta s) \<mapsto> s')\<rparr>, snd w)))),
      cou_BFB = demo_cou bfb_meta bfbs (\<lambda>d m. m\<lparr>bfbs := d\<rparr>),
      cou_DPUSet = demo_cou dpuset_meta dpusets (\<lambda>d m. m\<lparr>dpusets := d\<rparr>),
      cou_DPUCluster = demo_cou cluster_meta clusters (\<lambda>d m. m\<lparr>clusters := d\<rparr>),
      cou_DPUService = demo_cou dpusvc_meta dpuservices (\<lambda>d m. m\<lparr>dpuservices := d\<rparr>)\<rparr>"

lemma demo_documented: "documented demo_lib"
  by (auto simp: documented_def demo_lib_def split: if_splits)

lemma demo_cou_ensures: "ensures meta view put (demo_cou meta view put)"
  unfolding ensures_def demo_cou_def Let_def by (auto split: sum.splits if_splits option.splits)

lemma demo_lawful: "lawful demo_client"
proof -
  have "reads demo_client"
    unfolding reads_def demo_client_def by (auto split: option.splits if_splits)
  moreover have "set_writes demo_client"
    unfolding set_writes_def demo_client_def by (auto simp: Let_def split: option.splits)
  moreover have "svc_writes demo_client"
    unfolding svc_writes_def demo_client_def by (auto simp: Let_def split: option.splits)
  moreover have "object_writes demo_client"
    unfolding object_writes_def demo_client_def by (simp add: demo_cou_ensures)
  ultimately show ?thesis by (simp add: lawful_def)
qed

interpretation dpf: observing_adapter "as_DPFAdapter (NewNvidiaDPFAdapter demo_client k)" image_key "{''Provisioning''}" for k
  by (rule phase_nvidia_adapter [OF demo_lawful])

definition demo_set :: "string \<Rightarrow> string list \<Rightarrow> time option \<Rightarrow> OPIDPUSet" where
  "demo_set ns fs dt =
     \<lparr>set_meta = \<lparr>Name = ''s'', Namespace = ns, UID = ''u'', Finalizers = fs, DeletionTimestamp = dt, OwnerReferences = []\<rparr>,
      Spec = \<lparr>Vendor = ''nvidia'', Count = 2, NodeSelector = [(''dpu'', ''yes'')],
        FirmwareImage = \<lparr>img_Name = ''bf'', img_Version = ''2.9'', img_URL = ''http://bfb''\<rparr>, DPUProfile = '''',
        VendorExtensions = Some (Some (Document (DObject [(''dpuCluster'', DObject [(''enabled'', DBool True), (''type'', DString ''static'')])])))\<rparr>,
      set_Status = \<lparr>Phase = '''', DPUCount = 0, ReadyCount = 0, Conditions = [], VendorStatus = None\<rparr>\<rparr>"

definition demo_world :: "OPIDPUSet \<Rightarrow> api" where
  "demo_world s = \<lparr>sets = [meta_key (set_meta s) \<mapsto> s], svcs = Map.empty,
     bfbs = [image_key (meta_key (set_meta s)) \<mapsto> \<lparr>bfb_meta = new_meta (dpfName ''s'' @ ''-bfb'') DPFNamespace,
       bfb_Spec = \<lparr>URL = '''', Version = ''''\<rparr>, bfb_Phase = ''Ready''\<rparr>],
     clusters = Map.empty, dpusets = Map.empty, dpuservices = Map.empty\<rparr>"

definition demo_pass :: "OPIDPUSet \<Rightarrow> (api \<times> unit) pass" where
  "demo_pass s = Reconcile (nvidia demo_client demo_lib) 0 (meta_key (set_meta s)) (demo_world s, ())"

definition after :: "OPIDPUSet \<Rightarrow> api" where "after s = fst (snd (demo_pass s))"

lemma demo_pass_eq:
  "Reconcile (nvidia demo_client demo_lib) 0 (meta_key (set_meta s)) (demo_world s, ()) = (fst (demo_pass s), (after s, ()))"
  by (cases "demo_pass s") (simp add: demo_pass_def after_def)

definition s0 :: OPIDPUSet where "s0 = demo_set DPFNamespace [] None"

text \<open>The first set under a ready image: its DPU set is created.\<close>

theorem rollout_waits_for_image_witness:
  "\<exists>b. bfbs (after s0) (image_key (meta_key (set_meta s0))) = Some b \<and> bfb_Phase b = ''Ready''"
proof -
  have "dpusets (after s0) (dpuset_key (meta_key (set_meta s0))) \<noteq> None" by code_simp
  then obtain d where "dpusets (after s0) (dpuset_key (meta_key (set_meta s0))) = Some d" by blast
  moreover have "dpusets (demo_world s0) z = None" for z by (simp add: demo_world_def)
  ultimately show ?thesis using rollout_waits_for_image [OF demo_lawful demo_pass_eq [of s0]] by simp
qed

lemma demo_run: "run demo_client demo_lib (demo_world s) (after s)"
  by (rule run.set_pass [OF run.start demo_pass_eq])

lemma no_services: "\<forall>z. dpuservices (demo_world s) z = None"
  by (simp add: demo_world_def)

theorem no_service_is_deployed_witness:
  "(\<forall>z. dpuservices (after s0) z = None) \<and>
   map_option (\<lambda>s. Phase (set_Status s)) (sets (after s0) (meta_key (set_meta s0))) = Some PhaseRollingRollout"
proof -
  have "Phase (set_Status s) \<noteq> PhaseReady" if "sets (demo_world s0) q = Some s" for q s
  proof -
    have "s = s0" using that by (simp add: demo_world_def split: if_splits)
    moreover have "Phase (set_Status s0) \<noteq> PhaseReady" by code_simp
    ultimately show ?thesis by simp
  qed
  then have "\<forall>q s. sets (demo_world s0) q = Some s \<longrightarrow> Phase (set_Status s) \<noteq> PhaseReady" by blast
  then have "\<forall>z. dpuservices (after s0) z = None"
    using no_service_is_deployed [OF demo_lawful demo_run [of s0] _ no_services [of s0]] by blast
  moreover have "map_option (\<lambda>s. Phase (set_Status s)) (sets (after s0) (meta_key (set_meta s0))) = Some PhaseRollingRollout"
    by code_simp
  ultimately show ?thesis by blast
qed

text \<open>A set of another vendor that shows the phase from elsewhere.\<close>

definition s_isolated :: OPIDPUSet where
  "s_isolated = s0\<lparr>Spec := (Spec s0)\<lparr>Vendor := ''other''\<rparr>, set_Status := (set_Status s0)\<lparr>Phase := PhaseClusterIsolation\<rparr>\<rparr>"

theorem isolation_never_shown_witness:
  "\<exists>s. sets (demo_world s_isolated) (meta_key (set_meta s_isolated)) = Some s \<and> Phase (set_Status s) = PhaseClusterIsolation"
proof -
  have "map_option (\<lambda>s. Phase (set_Status s)) (sets (after s_isolated) (meta_key (set_meta s_isolated))) = Some PhaseClusterIsolation"
    by code_simp
  then obtain s where "sets (after s_isolated) (meta_key (set_meta s_isolated)) = Some s" "Phase (set_Status s) = PhaseClusterIsolation"
    by blast
  then show ?thesis by (rule isolation_never_shown [OF demo_lawful demo_run])
qed

theorem namespaces_must_agree_witness:
  "same_objects (demo_world (demo_set ''tenant'' [] None)) (after (demo_set ''tenant'' [] None)) \<and>
   snd (fst (demo_pass (demo_set ''tenant'' [] None))) \<noteq> None"
proof -
  have q: "fst (meta_key (set_meta (demo_set ''tenant'' [] None))) \<noteq> ''''"
      "fst (meta_key (set_meta (demo_set ''tenant'' [] None))) \<noteq> DPFNamespace" by code_simp+
  have "snd (fst (demo_pass (demo_set ''tenant'' [] None))) \<noteq> None" by code_simp
  then show ?thesis using namespaces_must_agree [OF demo_lawful demo_documented q demo_pass_eq] by blast
qed

theorem success_means_applied_witness:
  "applied (meta_key (set_meta s0)) s0 (after s0)"
proof -
  have p: "Reconcile (nvidia demo_client demo_lib) 0 (meta_key (set_meta s0)) (demo_world s0, ()) =
      ((DefaultRequeueInterval, None), (after s0, ()))"
  proof -
    have "fst (demo_pass s0) = (DefaultRequeueInterval, None)" by code_simp
    then show ?thesis using demo_pass_eq [of s0] by simp
  qed
  have g: "get_Set demo_client (meta_key (set_meta s0)) (demo_world s0, ()) = (Inr s0, (demo_world s0, ()))"
    by (simp add: demo_client_def demo_world_def)
  have "map_option bfb_Phase (bfbs (after s0) (image_key (meta_key (set_meta s0)))) = Some ''Ready''" by code_simp
  then obtain b where b: "bfbs (after s0) (image_key (meta_key (set_meta s0))) = Some b" "bfb_Phase b = ''Ready''" by auto
  have "Vendor (Spec s0) = ''nvidia''" "is_zero_time (DeletionTimestamp (set_meta s0))" by code_simp+
  then show ?thesis using success_means_applied [OF demo_lawful demo_documented p g _ _ b] by blast
qed

definition s_deleted :: OPIDPUSet where "s_deleted = demo_set DPFNamespace [OPIFinalizer] (Some 5)"

theorem deletion_leaves_objects_witness:
  "same_objects (demo_world s_deleted) (after s_deleted) \<and> sets (after s_deleted) (meta_key (set_meta s_deleted)) = None"
proof -
  have p: "Reconcile (nvidia demo_client demo_lib) 0 (meta_key (set_meta s_deleted)) (demo_world s_deleted, ()) =
      ((0, None), (after s_deleted, ()))"
  proof -
    have "fst (demo_pass s_deleted) = (0, None)" by code_simp
    then show ?thesis using demo_pass_eq [of s_deleted] by simp
  qed
  have g: "get_Set demo_client (meta_key (set_meta s_deleted)) (demo_world s_deleted, ()) = (Inr s_deleted, (demo_world s_deleted, ()))"
    by (simp add: demo_client_def demo_world_def)
  have "Vendor (Spec s_deleted) = ''nvidia''" "\<not> is_zero_time (DeletionTimestamp (set_meta s_deleted))" by code_simp+
  moreover have "sets (after s_deleted) (meta_key (set_meta s_deleted)) = None" by code_simp
  ultimately show ?thesis using deletion_leaves_objects [OF demo_lawful demo_documented p g] by blast
qed

text \<open>An adapter whose status getter reports an error of DPF.\<close>

definition failing :: "(api \<times> unit) OPIDPUSetReconciler" where
  "failing = (nvidia demo_client demo_lib)\<lparr>Adapter := (as_DPFAdapter (NewNvidiaDPFAdapter demo_client demo_lib))
     \<lparr>GetDPUSetStatus := (\<lambda>_ _ w. (Inr \<lparr>dpf_Phase = ''Error'', dpf_ReadyCount = 0, TotalCount = 2\<rparr>, w))\<rparr>\<rparr>"

theorem dpf_error_reads_as_rollout_witness:
  "\<exists>s'. sets (fst (snd (sync_status failing 0 s0 (demo_world s0, ())))) (meta_key (set_meta s0)) = Some s' \<and>
     Phase (set_Status s') = PhaseRollingRollout"
proof -
  let ?r = "sync_status failing 0 s0 (demo_world s0, ())"
  have "fst ?r = (DefaultRequeueInterval, None)" by code_simp
  then have p: "?r = ((DefaultRequeueInterval, None), (fst (snd ?r), ()))" by (metis prod.collapse old.unit.exhaust)
  have C: "set_writes (rec_Client failing)" using demo_lawful by (simp add: failing_def lawful_def)
  have g: "GetDPUSetStatus (Adapter failing) (Name (set_meta s0) @ ''-dpf'') DPFNamespace (demo_world s0, ()) =
      (Inr \<lparr>dpf_Phase = ''Error'', dpf_ReadyCount = 0, TotalCount = 2\<rparr>, (demo_world s0, ()))"
    by (simp add: failing_def)
  have "sets (fst (snd ?r)) (meta_key (set_meta s0)) \<noteq> None" by code_simp
  then obtain s' where s': "sets (fst (snd ?r)) (meta_key (set_meta s0)) = Some s'" by blast
  then show ?thesis using dpf_error_reads_as_rollout [OF C p g s'] by simp
qed

end
