(* ===== verification/FmtText.thy ===== *)
theory FmtText
  imports KubeObjects
begin

text \<open>
  Two renderings of the standard library the controllers of \<open>Ayush-Bhandari/feature_skeleton.go\<close> depend
  on: \<open>fmt.Sprintf("%v", m)\<close> for a string map, which they compare instead of the map, and
  \<open>Format(time.RFC3339)\<close> of a UTC time, which goes into a condition message.
\<close>

section \<open>Maps\<close>

fun joined :: "string \<Rightarrow> string list \<Rightarrow> string" where
  "joined sep [] = ''''"
| "joined sep [x] = x"
| "joined sep (x # xs) = x @ sep @ joined sep xs"

definition sorted_entries :: "string gomap \<Rightarrow> (string \<times> string) list" where
  "sorted_entries m = sort_key fst (AList.clearjunk m)"

definition entry :: "string \<times> string \<Rightarrow> string" where "entry e = fst e @ '':'' @ snd e"

definition fmt_map :: "string gomap \<Rightarrow> string" where
  "fmt_map m = ''map['' @ joined '' '' (map entry (sorted_entries m)) @ '']''"

text \<open>Maps whose keys hold neither blank nor colon, and whose values hold no blank.\<close>

definition plain_entry :: "string \<times> string \<Rightarrow> bool" where
  "plain_entry e = (CHR '' '' \<notin> set (fst e) \<and> CHR '':'' \<notin> set (fst e) \<and> CHR '' '' \<notin> set (snd e))"

definition plain_map :: "string gomap \<Rightarrow> bool" where "plain_map m = list_all plain_entry m"

lemma joined_Cons: "xs \<noteq> [] \<Longrightarrow> joined sep (x # xs) = x @ sep @ joined sep xs"
  by (cases xs) simp_all

lemma joined_nonempty: "x \<noteq> [] \<Longrightarrow> joined sep (x # xs) \<noteq> []"
  by (cases xs) simp_all

lemma takeWhile_before: "c \<notin> set k \<Longrightarrow> takeWhile (\<lambda>z. z \<noteq> c) (k @ c # v) = k"
  by (induction k) auto

lemma takeWhile_whole: "c \<notin> set k \<Longrightarrow> takeWhile (\<lambda>z. z \<noteq> c) k = k"
  by (induction k) auto

lemma joined_inject:
  assumes "\<forall>x \<in> set xs. x \<noteq> [] \<and> c \<notin> set x" and "\<forall>x \<in> set ys. x \<noteq> [] \<and> c \<notin> set x"
    and "joined [c] xs = joined [c] ys"
  shows "xs = ys"
  using assms
proof (induction xs arbitrary: ys)
  case Nil
  then show ?case by (cases ys) (simp, metis joined.simps(1) joined_nonempty list.set_intros(1))
next
  case (Cons x xs)
  then obtain y ys' where ys: "ys = y # ys'"
    by (cases ys) (metis joined.simps(1) joined_nonempty list.set_intros(1), blast)
  have head: "takeWhile (\<lambda>z. z \<noteq> c) (joined [c] (z # zs)) = z" if "c \<notin> set z" for z zs
    using that by (cases zs) (simp_all add: takeWhile_before takeWhile_whole)
  have "x = y" using head [of x xs] head [of y ys'] Cons.prems ys by auto
  moreover have "xs = ys'"
  proof (cases "xs = [] \<or> ys' = []")
    case True
    then have "xs = [] \<and> ys' = []"
      using Cons.prems(3) ys \<open>x = y\<close>
      by (metis append_Cons append_self_conv joined.simps(2) joined_Cons list.distinct(1))
    then show ?thesis by simp
  next
    case False
    then have "joined [c] xs = joined [c] ys'"
      using Cons.prems(3) ys \<open>x = y\<close> by (simp add: joined_Cons)
    then show ?thesis using Cons.IH [of ys'] Cons.prems(1,2) ys by simp
  qed
  ultimately show ?case using ys by simp
qed

lemma entry_inject:
  assumes "plain_entry d" and "plain_entry e" and "entry d = entry e"
  shows "d = e"
proof -
  have "takeWhile (\<lambda>z. z \<noteq> CHR '':'') (entry x) = fst x" if "plain_entry x" for x
    using that unfolding entry_def plain_entry_def by (metis append_Cons append_Nil takeWhile_before)
  then have "fst d = fst e" using assms by metis
  moreover from this have "snd d = snd e" using assms(3) by (simp add: entry_def)
  ultimately show ?thesis by (rule prod_eqI)
qed

lemma set_sorted_entries: "set (sorted_entries m) = Map.graph (map_of m)"
  by (simp add: sorted_entries_def graph_map_of)

lemma graph_eq_iff: "Map.graph f = Map.graph g \<longleftrightarrow> f = g"
proof
  assume g: "Map.graph f = Map.graph g"
  show "f = g"
  proof
    fix k
    have "f k = Some v \<longleftrightarrow> g k = Some v" for v
      using g by (metis in_graphD in_graphI)
    then show "f k = g k" by (metis not_None_eq)
  qed
qed simp

lemma sorted_entries_cong:
  assumes "map_of m = map_of n"
  shows "sorted_entries m = sorted_entries n"
proof (rule map_sorted_distinct_set_unique [of fst])
  have "x = y" if "x \<in> Map.graph (map_of n)" "y \<in> Map.graph (map_of n)" "fst x = fst y" for x y
    using that by (metis in_graphD option.inject prod.collapse)
  then show "inj_on fst (set (sorted_entries m) \<union> set (sorted_entries n))"
    unfolding set_sorted_entries assms by (simp add: inj_on_def)
  have d: "sorted (map fst (sorted_entries k)) \<and> distinct (map fst (sorted_entries k))" for k :: "string gomap"
    using distinct_clearjunk [of k] by (simp add: sorted_entries_def distinct_map)
  show "sorted (map fst (sorted_entries m))" "distinct (map fst (sorted_entries m))"
    "sorted (map fst (sorted_entries n))" "distinct (map fst (sorted_entries n))" using d by blast+
  show "set (sorted_entries m) = set (sorted_entries n)" by (simp add: set_sorted_entries assms)
qed

text \<open>
  The rendering determines a plain map; without the condition it does not, as a blank inside a value
  reads like the end of an entry.\<close>

theorem fmt_map_determines:
  assumes "plain_map m" and "plain_map n"
  shows "fmt_map m = fmt_map n \<longleftrightarrow> map_of m = map_of n"
proof
  assume "fmt_map m = fmt_map n"
  then have j: "joined '' '' (map entry (sorted_entries m)) = joined '' '' (map entry (sorted_entries n))"
    by (simp add: fmt_map_def)
  have plain: "plain_entry e" if "plain_map k" "e \<in> set (sorted_entries k)" for k e
    using that map_of_SomeD by (fastforce simp: plain_map_def list_all_iff set_sorted_entries Map.graph_def)
  have ok: "\<forall>x \<in> set (map entry (sorted_entries k)). x \<noteq> [] \<and> CHR '' '' \<notin> set x" if "plain_map k" for k
    using plain [OF that] by (auto simp: entry_def plain_entry_def)
  have e: "map entry (sorted_entries m) = map entry (sorted_entries n)"
    by (rule joined_inject [OF ok [OF assms(1)] ok [OF assms(2)] j])
  have "inj_on entry (set (sorted_entries m) \<union> set (sorted_entries n))"
    using plain assms entry_inject by (intro inj_onI) blast
  then have "sorted_entries m = sorted_entries n"
    using e by (rule map_inj_on [rotated])
  then show "map_of m = map_of n" by (metis set_sorted_entries graph_eq_iff)
next
  assume "map_of m = map_of n"
  then have "sorted_entries m = sorted_entries n" by (rule sorted_entries_cong)
  then show "fmt_map m = fmt_map n" by (simp add: fmt_map_def)
qed

theorem fmt_map_determines_witness:
  "fmt_map [(''a'', ''1''), (''b'', ''2'')] = fmt_map [(''b'', ''2''), (''a'', ''1'')] \<and>
   fmt_map [(''a'', ''b c:d'')] = fmt_map [(''a'', ''b''), (''c'', ''d'')] \<and> \<not> plain_map [(''a'', ''b c:d'')]"
proof -
  have "plain_map [(''a'', ''1''), (''b'', ''2'')]" "plain_map [(''b'', ''2''), (''a'', ''1'')]" by code_simp+
  from fmt_map_determines [OF this] have "fmt_map [(''a'', ''1''), (''b'', ''2'')] = fmt_map [(''b'', ''2''), (''a'', ''1'')]"
    by (auto simp: fun_eq_iff)
  moreover have "fmt_map [(''a'', ''b c:d'')] = fmt_map [(''a'', ''b''), (''c'', ''d'')]" by code_simp
  moreover have "\<not> plain_map [(''a'', ''b c:d'')]" by code_simp
  ultimately show ?thesis by blast
qed

section \<open>Times\<close>

definition pad :: "nat \<Rightarrow> int \<Rightarrow> string" where
  "pad width n =
     (let ds = decimal (nat \<bar>n\<bar>) in (if n < 0 then ''-'' else '''') @ replicate (width - length ds) (CHR ''0'') @ ds)"

text \<open>The proleptic Gregorian date of a day, counted from the first of January 1970.\<close>

definition civil :: "int \<Rightarrow> int \<times> int \<times> int" where
  "civil day =
     (let z = day + 719468; era = z div 146097; doe = z mod 146097;
          yoe = (doe - doe div 1460 + doe div 36524 - doe div 146096) div 365;
          doy = doe - (365 * yoe + yoe div 4 - yoe div 100);
          mp = (5 * doy + 2) div 153;
          d = doy - (153 * mp + 2) div 5 + 1;
          m = (if mp < 10 then mp + 3 else mp - 9)
      in (yoe + era * 400 + (if m \<le> 2 then 1 else 0), m, d))"

definition rfc3339 :: "time \<Rightarrow> string" where
  "rfc3339 now =
     (let secs = now div second; day = secs div 86400; s = secs mod 86400 in
      case civil day of (y, m, d) \<Rightarrow>
        pad 4 y @ ''-'' @ pad 2 m @ ''-'' @ pad 2 d @ ''T'' @
        pad 2 (s div 3600) @ '':'' @ pad 2 (s mod 3600 div 60) @ '':'' @ pad 2 (s mod 60) @ ''Z'')"

lemma rfc3339_epoch: "rfc3339 0 = ''1970-01-01T00:00:00Z''"
  by code_simp

lemma rfc3339_sample: "rfc3339 (1709251199 * second) = ''2024-02-29T23:59:59Z''"
  by code_simp

text \<open>The clock of a day is read back from the rendering, so two seconds of one day differ.\<close>

lemma pad2_small: "list_all (\<lambda>k. length (pad 2 (int k)) = 2 \<and> digits_value (pad 2 (int k)) = k) [0..<100]"
  by code_simp

lemma pad2:
  assumes "0 \<le> n" and "n < 100"
  shows "length (pad 2 n) = 2" "digits_value (pad 2 n) = nat n"
  using pad2_small [unfolded list_all_iff, rule_format, of "nat n"] assms by auto

lemma pad2_inject: "0 \<le> m \<Longrightarrow> m < 100 \<Longrightarrow> 0 \<le> n \<Longrightarrow> n < 100 \<Longrightarrow> pad 2 m = pad 2 n \<longleftrightarrow> m = n"
  using pad2(2) [of m] pad2(2) [of n] by auto

lemma clock_parts: "x = 3600 * (x div 3600) + 60 * (x mod 3600 div 60) + x mod 60" for x :: int
proof -
  have "x mod 3600 mod 60 = x mod 60" by (rule mod_mod_cancel) simp
  then show ?thesis using mult_div_mod_eq [of 3600 x] mult_div_mod_eq [of 60 "x mod 3600"] by linarith
qed

lemma clock_inject:
  assumes "length a = 2" "length a' = 2" "length b = 2" "length b' = 2" "length c = 2" "length c' = 2"
    and "a @ '':'' @ b @ '':'' @ c @ z = a' @ '':'' @ b' @ '':'' @ c' @ z"
  shows "a = a' \<and> b = b' \<and> c = c'"
  using assms by simp

lemma rfc3339_distinct:
  assumes "now div second div 86400 = later div second div 86400" and "now div second \<noteq> later div second"
  shows "rfc3339 now \<noteq> rfc3339 later"
proof
  assume e: "rfc3339 now = rfc3339 later"
  obtain y m d where c: "civil (now div second div 86400) = (y, m, d)" by (metis prod.collapse)
  define s t where "s = now div second mod 86400" and "t = later div second mod 86400"
  have r: "0 \<le> s" "s < 86400" "0 \<le> t" "t < 86400" by (simp_all add: s_def t_def)
  have h: "0 \<le> x div 3600" "x div 3600 < 100" "0 \<le> x mod 3600 div 60" "x mod 3600 div 60 < 100" "0 \<le> x mod 60" "x mod 60 < 100"
    if "0 \<le> x" "x < 86400" for x :: int
    using that by auto
  note hs = h [OF r(1,2)] and ht = h [OF r(3,4)]
  have p: "pad 4 y @ ''-'' @ pad 2 m @ ''-'' @ pad 2 d @ ''T'' @
        pad 2 (s div 3600) @ '':'' @ pad 2 (s mod 3600 div 60) @ '':'' @ pad 2 (s mod 60) @ ''Z'' =
      pad 4 y @ ''-'' @ pad 2 m @ ''-'' @ pad 2 d @ ''T'' @
        pad 2 (t div 3600) @ '':'' @ pad 2 (t mod 3600 div 60) @ '':'' @ pad 2 (t mod 60) @ ''Z''"
    using e unfolding rfc3339_def Let_def c assms(1) [symmetric] s_def [symmetric] t_def [symmetric] prod.case .
  have "pad 2 (s div 3600) = pad 2 (t div 3600) \<and> pad 2 (s mod 3600 div 60) = pad 2 (t mod 3600 div 60) \<and>
      pad 2 (s mod 60) = pad 2 (t mod 60)"
    by (rule clock_inject [OF pad2(1) [OF hs(1,2)] pad2(1) [OF ht(1,2)] pad2(1) [OF hs(3,4)] pad2(1) [OF ht(3,4)]
          pad2(1) [OF hs(5,6)] pad2(1) [OF ht(5,6)]]) (use p in \<open>simp only: append_assoc same_append_eq\<close>)
  then have "s div 3600 = t div 3600" "s mod 3600 div 60 = t mod 3600 div 60" "s mod 60 = t mod 60"
    using pad2_inject [OF hs(1,2) ht(1,2)] pad2_inject [OF hs(3,4) ht(3,4)] pad2_inject [OF hs(5,6) ht(5,6)] by blast+
  then have "s = t" by (metis clock_parts)
  then have "now div second = later div second"
    using assms(1) unfolding s_def t_def by (metis mult_div_mod_eq)
  then show False using assms(2) by simp
qed


end
