(* ===== verification/InfraControllers.thy ===== *)
theory InfraControllers
  imports FmtText
begin

text \<open>
  \<open>Ayush-Bhandari/feature_skeleton.go\<close>: the infrastructure and the service reconciler, over the generic
  \<open>ensureResource\<close>, with the builders of the DPF objects and the derived status.  A typed object is its
  name, namespace and resource version around a body of its kind; the client is an argument, one set of
  calls per kind.
\<close>

section \<open>Objects\<close>

record 'a Object =
  Name :: string
  Namespace :: string
  ResourceVersion :: string
  Body :: 'a

record Condition =
  Type :: string
  Status :: string
  Reason :: string
  Message :: string
  LastTransitionTime :: time

definition VendorNVIDIA :: string where "VendorNVIDIA = ''nvidia''"
definition RequeueDelay :: duration where "RequeueDelay = 10 * second"
definition ConditionProvisioning :: string where "ConditionProvisioning = ''Provisioning''"
definition ConditionServiceDeployment :: string where "ConditionServiceDeployment = ''ServiceDeployment''"
definition ConditionReady :: string where "ConditionReady = ''Ready''"
definition ConditionStatusFresh :: string where "ConditionStatusFresh = ''StatusFresh''"
definition DPFConditionReady :: string where "DPFConditionReady = ''Ready''"

lemmas condition_names = ConditionProvisioning_def ConditionServiceDeployment_def ConditionReady_def ConditionStatusFresh_def

record DpuOperatorConfig =
  cfg_Vendor :: string
  ClusterConfig :: "string gomap"
  ImageConfig :: "string gomap"
  HardwareConfig :: "string gomap"
  cfg_NodeSelector :: "string gomap"
  cfg_Conditions :: "Condition list"

record NetworkingConfig =
  ChainConfig :: "string gomap"
  InterfaceConfig :: "string gomap"
  IPAMConfig :: "string gomap"

record ServiceFunctionChain =
  sfc_Vendor :: string
  ServiceConfig :: "string gomap"
  Networking :: "NetworkingConfig option"
  sfc_Conditions :: "Condition list"

text \<open>
  The DPF kinds.  A cluster and a service carry a configuration and conditions; a BFB, a flavor, a service
  chain, a service interface and an IPAM carry a configuration only, and share one body.\<close>

record ConfigBody =
  Config :: "string gomap"

record StatusBody = ConfigBody +
  Conditions :: "Condition list"

record DPUSet =
  NodeSelector :: "string gomap"
  DPUFlavor :: string
  BFB :: string
  set_Conditions :: "Condition list"

record DPUServiceCredentialRequest =
  ClusterName :: string
  cred_Conditions :: "Condition list"

type_synonym DPUCluster = "StatusBody Object"
type_synonym DPUService = "StatusBody Object"
type_synonym BFB_object = "ConfigBody Object"
type_synonym DPUFlavor_object = "ConfigBody Object"
type_synonym DPUServiceChain = "ConfigBody Object"
type_synonym DPUServiceInterface = "ConfigBody Object"
type_synonym DPUServiceIPAM = "ConfigBody Object"
type_synonym DPU = "Condition list Object"

section \<open>The client\<close>

text \<open>A write returns the object as the server has it, which the client decodes into its argument.\<close>

record ('a, 'w) kind_client =
  Get :: "string \<times> string \<Rightarrow> 'w \<Rightarrow> (go_error + 'a Object) \<times> 'w"
  Create :: "'a Object \<Rightarrow> 'w \<Rightarrow> (go_error + 'a Object) \<times> 'w"
  Update :: "'a Object \<Rightarrow> 'w \<Rightarrow> (go_error + 'a Object) \<times> 'w"

record 'w Client =
  configs :: "string \<times> string \<Rightarrow> 'w \<Rightarrow> (go_error + DpuOperatorConfig Object) \<times> 'w"
  config_status :: "DpuOperatorConfig Object \<Rightarrow> 'w \<Rightarrow> go_error option \<times> 'w"
  chains :: "string \<times> string \<Rightarrow> 'w \<Rightarrow> (go_error + ServiceFunctionChain Object) \<times> 'w"
  chain_status :: "ServiceFunctionChain Object \<Rightarrow> 'w \<Rightarrow> go_error option \<times> 'w"
  list_DPUs :: "string \<Rightarrow> 'w \<Rightarrow> (go_error + DPU list) \<times> 'w"
  k_DPUCluster :: "(StatusBody, 'w) kind_client"
  k_BFB :: "(ConfigBody, 'w) kind_client"
  k_DPUFlavor :: "(ConfigBody, 'w) kind_client"
  k_DPUSet :: "(DPUSet, 'w) kind_client"
  k_CredentialRequest :: "(DPUServiceCredentialRequest, 'w) kind_client"
  k_DPUService :: "(StatusBody, 'w) kind_client"
  k_DPUServiceChain :: "(ConfigBody, 'w) kind_client"
  k_DPUServiceInterface :: "(ConfigBody, 'w) kind_client"
  k_DPUServiceIPAM :: "(ConfigBody, 'w) kind_client"

record machinery =
  IsNotFound :: "go_error \<Rightarrow> bool"
  IsAlreadyExists :: "go_error \<Rightarrow> bool"
  IsConflict :: "go_error \<Rightarrow> bool"

record 'w Reconciler =
  r_Client :: "'w Client"
  r_lib :: machinery

section \<open>Helpers\<close>

definition resourceName :: "string \<Rightarrow> string \<Rightarrow> string" where
  "resourceName opiName suffix = opiName @ ''-'' @ suffix"

definition isDPFResourceReady :: "Condition list \<Rightarrow> bool" where
  "isDPFResourceReady cs = list_ex (\<lambda>c. Type c = DPFConditionReady \<and> Status c = ''True'') cs"

definition isDPFResourceFailed :: "Condition list \<Rightarrow> bool" where
  "isDPFResourceFailed cs =
     list_ex (\<lambda>c. Type c = DPFConditionReady \<and> Status c = ''False'' \<and> Reason c = ''Failed'') cs"

fun setCondition :: "time \<Rightarrow> string \<Rightarrow> string \<Rightarrow> string \<Rightarrow> string \<Rightarrow> Condition list \<Rightarrow> Condition list" where
  "setCondition now t status reason message [] =
     [\<lparr>Type = t, Status = status, Reason = reason, Message = message, LastTransitionTime = now\<rparr>]"
| "setCondition now t status reason message (c # cs) =
     (if Type c = t
      then (if Status c \<noteq> status \<or> Reason c \<noteq> reason \<or> Message c \<noteq> message
            then \<lparr>Type = t, Status = status, Reason = reason, Message = message, LastTransitionTime = now\<rparr>
            else c) # cs
      else c # setCondition now t status reason message cs)"

text \<open>\<open>None\<close> is the nil error; the texts are constants.\<close>

definition validateDpuOperatorConfigSpec :: "DpuOperatorConfig \<Rightarrow> string option" where
  "validateDpuOperatorConfigSpec spec =
     (if cfg_Vendor spec = '''' then Some ''spec.vendor is required''
      else if ClusterConfig spec = [] then Some ''spec.clusterConfig is required for DPUCluster mapping''
      else if ImageConfig spec = [] then Some ''spec.imageConfig is required for BFB mapping''
      else if HardwareConfig spec = [] then Some ''spec.hardwareConfig is required for DPUFlavor mapping''
      else None)"

definition validateServiceFunctionChainSpec :: "ServiceFunctionChain \<Rightarrow> string option" where
  "validateServiceFunctionChainSpec spec =
     (if sfc_Vendor spec = '''' then Some ''spec.vendor is required''
      else if ServiceConfig spec = [] then Some ''spec.serviceConfig is required for DPUService mapping''
      else None)"

definition isNVIDIAVendor :: "string \<Rightarrow> bool" where "isNVIDIAVendor vendor = (vendor = VendorNVIDIA)"

section \<open>The generic helper\<close>

definition named_err :: "string \<Rightarrow> string \<times> string \<Rightarrow> go_error \<Rightarrow> go_error" where
  "named_err f key err = Errorf f [AStr (fst key), AStr (snd key), AWrap err]"

definition ensureResource ::
    "machinery \<Rightarrow> ('a, 'w) kind_client \<Rightarrow> 'a Object \<Rightarrow> ('a Object \<Rightarrow> 'a Object \<Rightarrow> bool) \<Rightarrow> 'w \<Rightarrow> (go_error + 'a Object) \<times> 'w" where
  "ensureResource k c desired specMatches w =
     (let key = (Namespace desired, Name desired) in
      case Get c key w of
        (Inl err, w1) \<Rightarrow>
          if IsNotFound k err
          then (case Create c desired w1 of
                  (Inl createErr, w2) \<Rightarrow>
                    if IsAlreadyExists k createErr
                    then (case Get c key w2 of
                            (Inl getErr, w3) \<Rightarrow> (Inl (Errorf ''re-fetching after AlreadyExists: %w'' [AWrap getErr]), w3)
                          | (Inr existing, w3) \<Rightarrow> (Inr existing, w3))
                    else (Inl (named_err ''creating %s/%s: %w'' key createErr), w2)
                | (Inr created, w2) \<Rightarrow> (Inr created, w2))
          else (Inl (named_err ''fetching %s/%s: %w'' key err), w1)
      | (Inr existing, w1) \<Rightarrow>
          if \<not> specMatches existing desired
          then (case Update c (desired\<lparr>ResourceVersion := ResourceVersion existing\<rparr>) w1 of
                  (Inl updateErr, w2) \<Rightarrow> (Inl (named_err ''updating %s/%s: %w'' key updateErr), w2)
                | (Inr updated, w2) \<Rightarrow> (Inr updated, w2))
          else (Inr existing, w1))"

section \<open>Builders\<close>

definition object :: "string \<Rightarrow> string \<Rightarrow> 'a \<Rightarrow> 'a Object" where
  "object ns name b = \<lparr>Name = name, Namespace = ns, ResourceVersion = '''', Body = b\<rparr>"

definition buildDesiredDPUCluster :: "DpuOperatorConfig Object \<Rightarrow> StatusBody Object" where
  "buildDesiredDPUCluster c =
     object (Namespace c) (resourceName (Name c) ''dpucluster'') \<lparr>Config = ClusterConfig (Body c), Conditions = []\<rparr>"

definition buildDesiredBFB :: "DpuOperatorConfig Object \<Rightarrow> ConfigBody Object" where
  "buildDesiredBFB c = object (Namespace c) (resourceName (Name c) ''bfb'') \<lparr>Config = ImageConfig (Body c)\<rparr>"

definition buildDesiredDPUFlavor :: "DpuOperatorConfig Object \<Rightarrow> ConfigBody Object" where
  "buildDesiredDPUFlavor c = object (Namespace c) (resourceName (Name c) ''dpuflavor'') \<lparr>Config = HardwareConfig (Body c)\<rparr>"

definition buildDesiredDPUSet :: "DpuOperatorConfig Object \<Rightarrow> ConfigBody Object \<Rightarrow> ConfigBody Object \<Rightarrow> DPUSet Object" where
  "buildDesiredDPUSet c bfb flavor =
     object (Namespace c) (resourceName (Name c) ''dpuset'')
       \<lparr>NodeSelector = cfg_NodeSelector (Body c), DPUFlavor = Name flavor, BFB = Name bfb, set_Conditions = []\<rparr>"

definition buildDesiredCredentialRequest :: "DpuOperatorConfig Object \<Rightarrow> StatusBody Object \<Rightarrow> DPUServiceCredentialRequest Object" where
  "buildDesiredCredentialRequest c cluster =
     object (Namespace c) (resourceName (Name c) ''credreq'') \<lparr>ClusterName = Name cluster, cred_Conditions = []\<rparr>"

definition buildDesiredDPUService :: "ServiceFunctionChain Object \<Rightarrow> StatusBody Object" where
  "buildDesiredDPUService s =
     object (Namespace s) (resourceName (Name s) ''dpuservice'') \<lparr>Config = ServiceConfig (Body s), Conditions = []\<rparr>"

definition buildDesiredDPUServiceChain :: "ServiceFunctionChain Object \<Rightarrow> NetworkingConfig \<Rightarrow> ConfigBody Object" where
  "buildDesiredDPUServiceChain s nc = object (Namespace s) (resourceName (Name s) ''dpuservicechain'') \<lparr>Config = ChainConfig nc\<rparr>"

definition buildDesiredDPUServiceInterface :: "ServiceFunctionChain Object \<Rightarrow> NetworkingConfig \<Rightarrow> ConfigBody Object" where
  "buildDesiredDPUServiceInterface s nc = object (Namespace s) (resourceName (Name s) ''dpuserviceiface'') \<lparr>Config = InterfaceConfig nc\<rparr>"

definition buildDesiredDPUServiceIPAM :: "ServiceFunctionChain Object \<Rightarrow> NetworkingConfig \<Rightarrow> ConfigBody Object" where
  "buildDesiredDPUServiceIPAM s nc = object (Namespace s) (resourceName (Name s) ''dpuserviceipam'') \<lparr>Config = IPAMConfig nc\<rparr>"

section \<open>Ensuring the DPF objects\<close>

text \<open>The comparison of configurations goes through their renderings.\<close>

definition config_matches :: "'b ConfigBody_scheme Object \<Rightarrow> 'b ConfigBody_scheme Object \<Rightarrow> bool" where
  "config_matches existing want = (fmt_map (Config (Body existing)) = fmt_map (Config (Body want)))"

definition ensureDPUCluster :: "'w Reconciler \<Rightarrow> DpuOperatorConfig Object \<Rightarrow> 'w \<Rightarrow> (go_error + StatusBody Object) \<times> 'w" where
  "ensureDPUCluster r c = ensureResource (r_lib r) (k_DPUCluster (r_Client r)) (buildDesiredDPUCluster c) config_matches"

definition ensureBFB :: "'w Reconciler \<Rightarrow> DpuOperatorConfig Object \<Rightarrow> 'w \<Rightarrow> (go_error + ConfigBody Object) \<times> 'w" where
  "ensureBFB r c = ensureResource (r_lib r) (k_BFB (r_Client r)) (buildDesiredBFB c) config_matches"

definition ensureDPUFlavor :: "'w Reconciler \<Rightarrow> DpuOperatorConfig Object \<Rightarrow> 'w \<Rightarrow> (go_error + ConfigBody Object) \<times> 'w" where
  "ensureDPUFlavor r c = ensureResource (r_lib r) (k_DPUFlavor (r_Client r)) (buildDesiredDPUFlavor c) config_matches"

definition set_matches :: "DPUSet Object \<Rightarrow> DPUSet Object \<Rightarrow> bool" where
  "set_matches existing want =
     (DPUFlavor (Body existing) = DPUFlavor (Body want) \<and> BFB (Body existing) = BFB (Body want) \<and>
      fmt_map (NodeSelector (Body existing)) = fmt_map (NodeSelector (Body want)))"

definition ensureDPUSet ::
    "'w Reconciler \<Rightarrow> DpuOperatorConfig Object \<Rightarrow> ConfigBody Object \<Rightarrow> ConfigBody Object \<Rightarrow> 'w \<Rightarrow> (go_error + DPUSet Object) \<times> 'w" where
  "ensureDPUSet r c bfb flavor = ensureResource (r_lib r) (k_DPUSet (r_Client r)) (buildDesiredDPUSet c bfb flavor) set_matches"

definition cred_matches :: "DPUServiceCredentialRequest Object \<Rightarrow> DPUServiceCredentialRequest Object \<Rightarrow> bool" where
  "cred_matches existing want = (ClusterName (Body existing) = ClusterName (Body want))"

definition ensureCredentialRequest ::
    "'w Reconciler \<Rightarrow> DpuOperatorConfig Object \<Rightarrow> StatusBody Object \<Rightarrow> 'w \<Rightarrow> (go_error + DPUServiceCredentialRequest Object) \<times> 'w" where
  "ensureCredentialRequest r c cluster =
     ensureResource (r_lib r) (k_CredentialRequest (r_Client r)) (buildDesiredCredentialRequest c cluster) cred_matches"

text \<open>The number of ready DPUs of a namespace and their total; both reconcilers count the same way.\<close>

definition count_ready :: "DPU list \<Rightarrow> nat" where
  "count_ready ds = length (filter (\<lambda>d. isDPFResourceReady (Body d)) ds)"

definition observeDPUReadiness :: "'w Reconciler \<Rightarrow> DpuOperatorConfig Object \<Rightarrow> 'w \<Rightarrow> (go_error + nat \<times> nat) \<times> 'w" where
  "observeDPUReadiness r c w =
     (case list_DPUs (r_Client r) (Namespace c) w of
        (Inl err, w1) \<Rightarrow> (Inl (Errorf ''listing DPUs: %w'' [AWrap err]), w1)
      | (Inr ds, w1) \<Rightarrow> (Inr (count_ready ds, length ds), w1))"

section \<open>The infrastructure reconciler\<close>

text \<open>The result of a pass: the delay to the next one, and the error.\<close>

type_synonym 'w pass = "(duration \<times> go_error option) \<times> 'w"

text \<open>Behind the gate: the set, the credential request and the DPUs.\<close>

definition behind_cluster ::
    "'w Reconciler \<Rightarrow> DpuOperatorConfig Object \<Rightarrow> StatusBody Object \<Rightarrow> ConfigBody Object \<Rightarrow> ConfigBody Object \<Rightarrow> 'w \<Rightarrow> 'w pass" where
  "behind_cluster r c cluster bfb flavor w =
     (case ensureDPUSet r c bfb flavor w of
        (Inl err, w1) \<Rightarrow> ((0, Some err), w1)
      | (Inr _, w1) \<Rightarrow>
          (case ensureCredentialRequest r c cluster w1 of
             (Inl err, w2) \<Rightarrow> ((0, Some err), w2)
           | (Inr _, w2) \<Rightarrow>
               (case observeDPUReadiness r c w2 of
                  (Inl err, w3) \<Rightarrow> ((0, Some err), w3)
                | (Inr (readyCount, _), w3) \<Rightarrow> ((if readyCount = 0 then RequeueDelay else 0, None), w3))))"

definition reconcileInfrastructure :: "'w Reconciler \<Rightarrow> DpuOperatorConfig Object \<Rightarrow> 'w \<Rightarrow> 'w pass" where
  "reconcileInfrastructure r c w =
     (case ensureDPUCluster r c w of
        (Inl err, w1) \<Rightarrow> ((0, Some err), w1)
      | (Inr cluster, w1) \<Rightarrow>
          (case ensureBFB r c w1 of
             (Inl err, w2) \<Rightarrow> ((0, Some err), w2)
           | (Inr bfb, w2) \<Rightarrow>
               (case ensureDPUFlavor r c w2 of
                  (Inl err, w3) \<Rightarrow> ((0, Some err), w3)
                | (Inr flavor, w3) \<Rightarrow>
                    if \<not> isDPFResourceReady (Conditions (Body cluster)) then ((RequeueDelay, None), w3)
                    else behind_cluster r c cluster bfb flavor w3)))"

text \<open>Status, reason and message of a derived condition.\<close>

type_synonym derived = "string \<times> string \<times> string"

definition ratio :: "nat \<Rightarrow> nat \<Rightarrow> string" where
  "ratio n all_dpus = decimal n @ ''/'' @ decimal all_dpus @ '' DPUs ready''"

definition deriveProvisioningState :: "'w Reconciler \<Rightarrow> DpuOperatorConfig Object \<Rightarrow> 'w \<Rightarrow> derived \<times> 'w" where
  "deriveProvisioningState r c w =
     (case Get (k_DPUCluster (r_Client r)) (Namespace c, resourceName (Name c) ''dpucluster'') w of
        (Inl err, w1) \<Rightarrow>
          (if IsNotFound (r_lib r) err
           then (''False'', ''DPUClusterMissing'', ''DPUCluster has not been created yet'')
           else (''Unknown'', ''ObservationFailed'', ''Unable to observe DPUCluster status''), w1)
      | (Inr cluster, w1) \<Rightarrow>
          if \<not> isDPFResourceReady (Conditions (Body cluster))
          then ((''False'', ''DPUClusterNotReady'', ''DPUCluster is not yet ready''), w1)
          else (case observeDPUReadiness r c w1 of
                  (Inl _, w2) \<Rightarrow> ((''Unknown'', ''ObservationFailed'', ''Unable to observe DPU status''), w2)
                | (Inr (readyDPUs, totalDPUs), w2) \<Rightarrow>
                    (if totalDPUs = 0 then (''False'', ''NoDPUs'', ''No DPU resources exist yet'')
                     else if readyDPUs = 0 then (''False'', ''NoDPUsReady'', ''0/'' @ decimal totalDPUs @ '' DPUs ready'')
                     else (''True'', ''Provisioned'', ratio readyDPUs totalDPUs), w2)))"

text \<open>The three conditions of a status update, for either reconciler.\<close>

definition stamp_status :: "time \<Rightarrow> string \<Rightarrow> string \<Rightarrow> derived \<Rightarrow> Condition list \<Rightarrow> Condition list" where
  "stamp_status now t done_message d cs =
     (case d of (status, reason, msg) \<Rightarrow>
        let cs1 = setCondition now t status reason msg cs;
            cs2 = setCondition now ConditionStatusFresh ''True'' ''Observed'' (''Status observed at '' @ rfc3339 now) cs1
        in if status = ''True'' then setCondition now ConditionReady ''True'' ''Ready'' done_message cs2
           else setCondition now ConditionReady ''False'' ''NotReady'' msg cs2)"

definition status_error :: "machinery \<Rightarrow> string \<Rightarrow> go_error option \<Rightarrow> go_error option" where
  "status_error k what e = (case e of
       None \<Rightarrow> None
     | Some err \<Rightarrow> Some (Errorf (if IsConflict k err then ''optimistic concurrency conflict updating status: %w'' else what) [AWrap err]))"

definition deriveAndUpdateInfrastructureStatus :: "'w Reconciler \<Rightarrow> time \<Rightarrow> DpuOperatorConfig Object \<Rightarrow> 'w \<Rightarrow> go_error option \<times> 'w" where
  "deriveAndUpdateInfrastructureStatus r now c w =
     (case deriveProvisioningState r c w of
        (d, w1) \<Rightarrow>
          (case config_status (r_Client r)
                  (c\<lparr>Body := (Body c)\<lparr>cfg_Conditions :=
                     stamp_status now ConditionProvisioning ''Infrastructure provisioning complete'' d (cfg_Conditions (Body c))\<rparr>\<rparr>) w1 of
             (e, w2) \<Rightarrow> (status_error (r_lib r) ''updating DpuOperatorConfig status: %w'' e, w2)))"

definition Reconcile :: "'w Reconciler \<Rightarrow> time \<Rightarrow> string \<times> string \<Rightarrow> 'w \<Rightarrow> 'w pass" where
  "Reconcile r now req w =
     (case configs (r_Client r) req w of
        (Inl err, w1) \<Rightarrow>
          ((0, if IsNotFound (r_lib r) err then None else Some (Errorf ''fetching DpuOperatorConfig: %w'' [AWrap err])), w1)
      | (Inr c, w1) \<Rightarrow>
          if \<not> isNVIDIAVendor (cfg_Vendor (Body c)) then ((0, None), w1)
          else case validateDpuOperatorConfigSpec (Body c) of
            Some err \<Rightarrow>
              (case config_status (r_Client r)
                      (c\<lparr>Body := (Body c)\<lparr>cfg_Conditions :=
                         setCondition now ConditionReady ''False'' ''InvalidSpec'' err (cfg_Conditions (Body c))\<rparr>\<rparr>) w1 of
                 (None, w2) \<Rightarrow> ((0, None), w2)
               | (Some e, w2) \<Rightarrow> ((0, Some (Errorf ''updating status after validation failure: %w'' [AWrap e])), w2))
          | None \<Rightarrow>
              (case reconcileInfrastructure r c w1 of
                 ((delay, Some err), w2) \<Rightarrow> ((delay, Some err), w2)
               | ((delay, None), w2) \<Rightarrow>
                   (case deriveAndUpdateInfrastructureStatus r now c w2 of
                      (Some e, w3) \<Rightarrow> ((0, Some e), w3)
                    | (None, w3) \<Rightarrow> ((delay, None), w3))))"

section \<open>The service reconciler\<close>

definition ensureDPUService :: "'w Reconciler \<Rightarrow> ServiceFunctionChain Object \<Rightarrow> 'w \<Rightarrow> (go_error + StatusBody Object) \<times> 'w" where
  "ensureDPUService r s = ensureResource (r_lib r) (k_DPUService (r_Client r)) (buildDesiredDPUService s) config_matches"

text \<open>One of the optional resources: the configuration that asks for it, its client and its object.\<close>

definition networking_steps ::
    "'w Reconciler \<Rightarrow> ServiceFunctionChain Object \<Rightarrow> NetworkingConfig \<Rightarrow> (string gomap \<times> (ConfigBody, 'w) kind_client \<times> ConfigBody Object) list" where
  "networking_steps r s nc =
     [(ChainConfig nc, k_DPUServiceChain (r_Client r), buildDesiredDPUServiceChain s nc),
      (InterfaceConfig nc, k_DPUServiceInterface (r_Client r), buildDesiredDPUServiceInterface s nc),
      (IPAMConfig nc, k_DPUServiceIPAM (r_Client r), buildDesiredDPUServiceIPAM s nc)]"

definition networking_step ::
    "machinery \<Rightarrow> string gomap \<times> (ConfigBody, 'w) kind_client \<times> ConfigBody Object \<Rightarrow> 'w \<Rightarrow> go_error option \<times> 'w" where
  "networking_step k st w =
     (case st of (wanted, c, desired) \<Rightarrow>
        if 0 < length wanted
        then (case ensureResource k c desired config_matches w of
                (Inl err, w1) \<Rightarrow> (Some err, w1) | (Inr _, w1) \<Rightarrow> (None, w1))
        else (None, w))"

definition ensureNetworkingResources :: "'w Reconciler \<Rightarrow> ServiceFunctionChain Object \<Rightarrow> 'w \<Rightarrow> go_error option \<times> 'w" where
  "ensureNetworkingResources r s w =
     (case Networking (Body s) of
        None \<Rightarrow> (None, w)
      | Some nc \<Rightarrow>
          (case each_until_err (networking_step (r_lib r)) (networking_steps r s nc) w of
             (None, w1) \<Rightarrow> (None, w1) | (Some (_, err), w1) \<Rightarrow> (Some err, w1)))"

definition reconcileServices :: "'w Reconciler \<Rightarrow> ServiceFunctionChain Object \<Rightarrow> 'w \<Rightarrow> 'w pass" where
  "reconcileServices r s w =
     (case list_DPUs (r_Client r) (Namespace s) w of
        (Inl err, w1) \<Rightarrow> ((0, Some (Errorf ''listing DPUs: %w'' [AWrap err])), w1)
      | (Inr ds, w1) \<Rightarrow>
          if count_ready ds = 0 then ((RequeueDelay, None), w1)
          else (case ensureDPUService r s w1 of
                  (Inl err, w2) \<Rightarrow> ((0, Some err), w2)
                | (Inr _, w2) \<Rightarrow> (case ensureNetworkingResources r s w2 of (e, w3) \<Rightarrow> ((0, e), w3))))"

definition deriveServiceDeploymentState :: "'w Reconciler \<Rightarrow> ServiceFunctionChain Object \<Rightarrow> 'w \<Rightarrow> derived \<times> 'w" where
  "deriveServiceDeploymentState r s w =
     (case Get (k_DPUService (r_Client r)) (Namespace s, resourceName (Name s) ''dpuservice'') w of
        (Inl err, w1) \<Rightarrow>
          (if IsNotFound (r_lib r) err
           then (''False'', ''DPUServiceMissing'', ''DPUService has not been created yet'')
           else (''Unknown'', ''ObservationFailed'', ''Unable to observe DPUService status''), w1)
      | (Inr svc, w1) \<Rightarrow>
          (if isDPFResourceFailed (Conditions (Body svc))
           then (''False'', ''DeploymentFailed'', ''DPUService reports a failed state'')
           else if \<not> isDPFResourceReady (Conditions (Body svc))
           then (''False'', ''DeploymentInProgress'', ''DPUService is not yet ready'')
           else (''True'', ''Deployed'', ''DPUService reports ready''), w1))"

definition deriveAndUpdateServiceStatus :: "'w Reconciler \<Rightarrow> time \<Rightarrow> ServiceFunctionChain Object \<Rightarrow> 'w \<Rightarrow> go_error option \<times> 'w" where
  "deriveAndUpdateServiceStatus r now s w =
     (case deriveServiceDeploymentState r s w of
        (d, w1) \<Rightarrow>
          (case chain_status (r_Client r)
                  (s\<lparr>Body := (Body s)\<lparr>sfc_Conditions :=
                     stamp_status now ConditionServiceDeployment ''Service deployment complete'' d (sfc_Conditions (Body s))\<rparr>\<rparr>) w1 of
             (e, w2) \<Rightarrow> (status_error (r_lib r) ''updating ServiceFunctionChain status: %w'' e, w2)))"

definition svc_Reconcile :: "'w Reconciler \<Rightarrow> time \<Rightarrow> string \<times> string \<Rightarrow> 'w \<Rightarrow> 'w pass" where
  "svc_Reconcile r now req w =
     (case chains (r_Client r) req w of
        (Inl err, w1) \<Rightarrow>
          ((0, if IsNotFound (r_lib r) err then None else Some (Errorf ''fetching ServiceFunctionChain: %w'' [AWrap err])), w1)
      | (Inr s, w1) \<Rightarrow>
          if \<not> isNVIDIAVendor (sfc_Vendor (Body s)) then ((0, None), w1)
          else case validateServiceFunctionChainSpec (Body s) of
            Some err \<Rightarrow>
              (case chain_status (r_Client r)
                      (s\<lparr>Body := (Body s)\<lparr>sfc_Conditions :=
                         setCondition now ConditionReady ''False'' ''InvalidSpec'' err (sfc_Conditions (Body s))\<rparr>\<rparr>) w1 of
                 (None, w2) \<Rightarrow> ((0, None), w2)
               | (Some e, w2) \<Rightarrow> ((0, Some (Errorf ''updating status after validation failure: %w'' [AWrap e])), w2))
          | None \<Rightarrow>
              (case reconcileServices r s w1 of
                 ((delay, Some err), w2) \<Rightarrow> ((delay, Some err), w2)
               | ((delay, None), w2) \<Rightarrow>
                   (case deriveAndUpdateServiceStatus r now s w2 of
                      (Some e, w3) \<Rightarrow> ((0, Some e), w3)
                    | (None, w3) \<Rightarrow> ((delay, None), w3))))"

end
