(* ===== verification/InfraCluster.thy ===== *)
theory InfraCluster
  imports InfraControllers
begin

text \<open>
  What the reconcilers of \<open>InfraControllers\<close> promise over an API server: the contract of \<open>ensureResource\<close>
  for one kind as a locale, the gates in front of the DPU set and the service, what the readiness of a
  configuration means, and the status that never comes to rest.
\<close>

section \<open>Conditions\<close>

definition cond_of :: "string \<Rightarrow> Condition list \<Rightarrow> Condition option" where
  "cond_of t cs = find (\<lambda>c. Type c = t) cs"

definition says :: "Condition list \<Rightarrow> string \<Rightarrow> string \<Rightarrow> string \<Rightarrow> string \<Rightarrow> bool" where
  "says cs t status reason message = (\<exists>c. cond_of t cs = Some c \<and> Status c = status \<and> Reason c = reason \<and> Message c = message)"

text \<open>
  \<open>setCondition\<close> as an upsert: the condition of the type says what was asked for, the others stay, no type
  appears twice that did not before, and a condition that says so already is not touched.\<close>

lemma cond_of_Cons: "cond_of t (c # cs) = (if Type c = t then Some c else cond_of t cs)"
  by (simp add: cond_of_def)

lemma types_setCondition:
  "map Type (setCondition now t s r msg cs) = (if t \<in> Type ` set cs then map Type cs else map Type cs @ [t])"
  by (induction cs) auto

lemma setCondition_says [simp]: "says (setCondition now t s r msg cs) t s r msg"
  by (induction cs) (auto simp: says_def cond_of_Cons cond_of_def)

lemma cond_of_setCondition: "u \<noteq> t \<Longrightarrow> cond_of u (setCondition now t s r msg cs) = cond_of u cs"
  by (induction cs) (auto simp: cond_of_def)

lemma setCondition_other [simp]: "u \<noteq> t \<Longrightarrow> says (setCondition now t s r msg cs) u s' r' msg' = says cs u s' r' msg'"
  by (simp add: says_def cond_of_setCondition)

lemma setCondition_same: "says cs t s r msg \<longleftrightarrow> setCondition now t s r msg cs = cs \<and> t \<in> Type ` set cs"
proof (induction cs)
  case (Cons c cs)
  then show ?case by (cases c) (auto simp: says_def cond_of_Cons)
qed (simp add: says_def cond_of_def)

theorem setCondition_upserts:
  "says (setCondition now t s r msg cs) t s r msg \<and>
   (\<forall>u. u \<noteq> t \<longrightarrow> cond_of u (setCondition now t s r msg cs) = cond_of u cs) \<and>
   (says cs t s r msg \<longleftrightarrow> setCondition now t s r msg cs = cs \<and> t \<in> Type ` set cs) \<and>
   (distinct (map Type cs) \<longrightarrow> distinct (map Type (setCondition now t s r msg cs)))"
  using setCondition_says cond_of_setCondition setCondition_same by (auto simp: types_setCondition)

lemma says_functional: "says cs t s r msg \<Longrightarrow> says cs t s' r' msg' \<Longrightarrow> s' = s \<and> r' = r \<and> msg' = msg"
  by (auto simp: says_def)

text \<open>What a status update leaves in the conditions.\<close>

lemma stamp_says:
  assumes "t \<noteq> ConditionReady" and "t \<noteq> ConditionStatusFresh"
  shows "says (stamp_status now t msg' (st, reason, msg) cs) t st reason msg"
    and "says (stamp_status now t msg' (st, reason, msg) cs) ConditionStatusFresh ''True'' ''Observed'' (''Status observed at '' @ rfc3339 now)"
proof -
  have f: "ConditionReady \<noteq> ConditionStatusFresh" by (simp add: condition_names)
  show "says (stamp_status now t msg' (st, reason, msg) cs) t st reason msg"
    using assms f by (simp add: stamp_status_def Let_def)
  show "says (stamp_status now t msg' (st, reason, msg) cs) ConditionStatusFresh ''True'' ''Observed'' (''Status observed at '' @ rfc3339 now)"
    using assms f by (auto simp: stamp_status_def Let_def)
qed

text \<open>The status of the \<open>Ready\<close> condition.\<close>

definition ready_status :: "Condition list \<Rightarrow> bool" where
  "ready_status cs = (\<exists>r m. says cs ConditionReady ''True'' r m)"

lemma stamp_ready: "ready_status (stamp_status now t msg' (st, reason, msg) cs) \<longleftrightarrow> st = ''True''"
proof (cases "st = ''True''")
  case True
  have "ready_status (setCondition now ConditionReady ''True'' r m ds)" for r m ds
    unfolding ready_status_def by (intro exI, rule setCondition_says)
  then show ?thesis using True by (simp add: stamp_status_def Let_def)
next
  case False
  have "\<not> ready_status (setCondition now ConditionReady ''False'' r m ds)" for r m ds
    unfolding ready_status_def using says_functional [OF setCondition_says] by fastforce
  then show ?thesis using False by (simp add: stamp_status_def Let_def)
qed

section \<open>An API server\<close>

type_synonym key = "string \<times> string"

definition okey :: "('a, 'x) Object_scheme \<Rightarrow> key" where "okey x = (Namespace x, Name x)"

record api =
  cfgs :: "key \<Rightarrow> DpuOperatorConfig Object option"
  sfcs :: "key \<Rightarrow> ServiceFunctionChain Object option"
  dpus :: "DPU list"
  clusters :: "key \<Rightarrow> StatusBody Object option"
  bfbs :: "key \<Rightarrow> ConfigBody Object option"
  flavors :: "key \<Rightarrow> ConfigBody Object option"
  sets :: "key \<Rightarrow> DPUSet Object option"
  creds :: "key \<Rightarrow> DPUServiceCredentialRequest Object option"
  services :: "key \<Rightarrow> StatusBody Object option"
  schains :: "key \<Rightarrow> ConfigBody Object option"
  sifaces :: "key \<Rightarrow> ConfigBody Object option"
  sipams :: "key \<Rightarrow> ConfigBody Object option"

text \<open>
  The calls of one kind, as documented: a read gives what is stored under the name, a write that fails
  stores nothing, a creation finds the name free, an update finds it taken, and both store the
  specification they were given.  \<open>spec\<close> picks the specification, \<open>view\<close> and \<open>put\<close> the objects of the kind.\<close>

locale kind_store =
  fixes k :: machinery
    and c :: "('a, api \<times> 'v) kind_client"
    and spec :: "'a \<Rightarrow> 's"
    and view :: "api \<Rightarrow> key \<Rightarrow> 'a Object option"
    and put :: "(key \<Rightarrow> 'a Object option) \<Rightarrow> api \<Rightarrow> api"
  assumes get: "Get c q (m, v) = (a, (m', v')) \<Longrightarrow>
      m' = m \<and> (case a of Inr x \<Rightarrow> view m q = Some x \<and> okey x = q | Inl e \<Rightarrow> IsNotFound k e \<longrightarrow> view m q = None)"
    and create: "Create c x (m, v) = (a, (m', v')) \<Longrightarrow>
      (case a of Inl e \<Rightarrow> m' = m
       | Inr y \<Rightarrow> view m (okey x) = None \<and> okey y = okey x \<and> spec (Body y) = spec (Body x) \<and> m' = put ((view m)(okey x \<mapsto> y)) m)"
    and update: "Update c x (m, v) = (a, (m', v')) \<Longrightarrow>
      (case a of Inl e \<Rightarrow> m' = m
       | Inr y \<Rightarrow> view m (okey x) \<noteq> None \<and> okey y = okey x \<and> spec (Body y) = spec (Body x) \<and> m' = put ((view m)(okey x \<mapsto> y)) m)"
begin

text \<open>
  The helper writes at most the object asked for.  It succeeds in one of two ways: the stored object
  matches and nothing is written, or the specification asked for is stored.\<close>

lemma ensure_effect:
  assumes "ensureResource k c desired matches (m, v) = (a, (m', v'))"
  shows "(\<exists>e. a = Inl e \<and> m' = m) \<or>
    (\<exists>x. a = Inr x \<and> okey x = okey desired \<and>
       (m' = m \<and> view m (okey desired) = Some x \<and> matches x desired \<or>
        m' = put ((view m)(okey desired \<mapsto> x)) m \<and> spec (Body x) = spec (Body desired)))"
proof -
  let ?q = "okey desired"
  obtain g m1 v1 where g: "Get c ?q (m, v) = (g, (m1, v1))" by (metis prod.collapse)
  note g1 = get [OF g]
  show ?thesis
  proof (cases g)
    case (Inr x)
    show ?thesis
    proof (cases "matches x desired")
      case True
      then show ?thesis using assms g g1 Inr by (auto simp: ensureResource_def Let_def okey_def)
    next
      case False
      obtain u m2 v2 where u: "Update c (desired\<lparr>ResourceVersion := ResourceVersion x\<rparr>) (m, v1) = (u, (m2, v2))"
        by (metis prod.collapse)
      note u1 = update [OF u]
      show ?thesis
      proof (cases u)
        case (Inl e)
        then show ?thesis using assms g g1 Inr False u u1 by (auto simp: ensureResource_def Let_def okey_def)
      next
        case (Inr y)
        then have "a = Inr y" "m' = m2"
          using assms g g1 \<open>g = Inr x\<close> False u by (auto simp: ensureResource_def Let_def okey_def)
        then show ?thesis using u1 Inr by (simp add: okey_def)
      qed
    qed
  next
    case (Inl e)
    show ?thesis
    proof (cases "IsNotFound k e")
      case False
      then show ?thesis using assms g g1 Inl by (auto simp: ensureResource_def Let_def okey_def)
    next
      case True
      obtain r m2 v2 where r: "Create c desired (m, v1) = (r, (m2, v2))" by (metis prod.collapse)
      note r1 = create [OF r]
      show ?thesis
      proof (cases r)
        case (Inr y)
        then have "a = Inr y" "m' = m2"
          using assms g g1 Inl True r by (auto simp: ensureResource_def Let_def okey_def)
        then show ?thesis using r1 Inr by simp
      next
        case (Inl e2)
        obtain h m3 v3 where h: "Get c ?q (m, v2) = (h, (m3, v3))" by (metis prod.collapse)
        note h1 = get [OF h]
        have "view m ?q = None" using g1 True \<open>g = Inl e\<close> by simp
        then obtain e3 where "h = Inl e3" using h1 by (cases h) auto
        then show ?thesis
          using assms g g1 \<open>g = Inl e\<close> True r r1 Inl h h1
          by (cases "IsAlreadyExists k e2") (auto simp: ensureResource_def Let_def okey_def)
      qed
    qed
  qed
qed

lemma ensure_writes:
  assumes "ensureResource k c desired matches (m, v) = (a, (m', v'))"
  shows "m' = m \<or> (\<exists>f. m' = put f m)"
  using ensure_effect [OF assms] by blast

end

text \<open>The whole client.\<close>

definition set_spec :: "DPUSet \<Rightarrow> string gomap \<times> string \<times> string" where
  "set_spec b = (NodeSelector b, DPUFlavor b, BFB b)"

definition kinds :: "machinery \<Rightarrow> (api \<times> 'v) Client \<Rightarrow> bool" where
  "kinds k C =
     (kind_store k (k_DPUCluster C) Config clusters (\<lambda>d m. m\<lparr>clusters := d\<rparr>) \<and>
      kind_store k (k_BFB C) Config bfbs (\<lambda>d m. m\<lparr>bfbs := d\<rparr>) \<and>
      kind_store k (k_DPUFlavor C) Config flavors (\<lambda>d m. m\<lparr>flavors := d\<rparr>) \<and>
      kind_store k (k_DPUSet C) set_spec sets (\<lambda>d m. m\<lparr>sets := d\<rparr>) \<and>
      kind_store k (k_CredentialRequest C) ClusterName creds (\<lambda>d m. m\<lparr>creds := d\<rparr>) \<and>
      kind_store k (k_DPUService C) Config services (\<lambda>d m. m\<lparr>services := d\<rparr>) \<and>
      kind_store k (k_DPUServiceChain C) Config schains (\<lambda>d m. m\<lparr>schains := d\<rparr>) \<and>
      kind_store k (k_DPUServiceInterface C) Config sifaces (\<lambda>d m. m\<lparr>sifaces := d\<rparr>) \<and>
      kind_store k (k_DPUServiceIPAM C) Config sipams (\<lambda>d m. m\<lparr>sipams := d\<rparr>))"

definition reads :: "machinery \<Rightarrow> (api \<times> 'v) Client \<Rightarrow> bool" where
  "reads k C =
     ((\<forall>q m v a m' v'. configs C q (m, v) = (a, (m', v')) \<longrightarrow>
         m' = m \<and> (\<forall>x. a = Inr x \<longrightarrow> cfgs m q = Some x \<and> q = okey x) \<and> (\<forall>x. a = Inl x \<and> IsNotFound k x \<longrightarrow> cfgs m q = None)) \<and>
      (\<forall>q m v a m' v'. chains C q (m, v) = (a, (m', v')) \<longrightarrow>
         m' = m \<and> (\<forall>x. a = Inr x \<longrightarrow> sfcs m q = Some x \<and> q = okey x) \<and> (\<forall>x. a = Inl x \<and> IsNotFound k x \<longrightarrow> sfcs m q = None)) \<and>
      (\<forall>ns m v a m' v'. list_DPUs C ns (m, v) = (a, (m', v')) \<longrightarrow>
         m' = m \<and> (\<forall>ds. a = Inr ds \<longrightarrow> ds = filter (\<lambda>d. Namespace d = ns) (dpus m))))"

definition status_writes :: "(api \<times> 'v) Client \<Rightarrow> bool" where
  "status_writes C =
     ((\<forall>x m v e m' v'. config_status C x (m, v) = (e, (m', v')) \<longrightarrow>
         (if e = None
          then \<exists>old rv. cfgs m (okey x) = Some old \<and> m' = m\<lparr>cfgs := (cfgs m)(okey x \<mapsto> old\<lparr>ResourceVersion := rv,
                 Body := (Body old)\<lparr>cfg_Conditions := cfg_Conditions (Body x)\<rparr>\<rparr>)\<rparr>
          else m' = m)) \<and>
      (\<forall>x m v e m' v'. chain_status C x (m, v) = (e, (m', v')) \<longrightarrow>
         (if e = None
          then \<exists>old rv. sfcs m (okey x) = Some old \<and> m' = m\<lparr>sfcs := (sfcs m)(okey x \<mapsto> old\<lparr>ResourceVersion := rv,
                 Body := (Body old)\<lparr>sfc_Conditions := sfc_Conditions (Body x)\<rparr>\<rparr>)\<rparr>
          else m' = m)))"

definition lawful :: "machinery \<Rightarrow> (api \<times> 'v) Client \<Rightarrow> bool" where
  "lawful k C = (kinds k C \<and> reads k C \<and> status_writes C)"

lemma kindsD:
  assumes "kinds k C"
  shows "kind_store k (k_DPUCluster C) Config clusters (\<lambda>d m. m\<lparr>clusters := d\<rparr>)"
    "kind_store k (k_BFB C) Config bfbs (\<lambda>d m. m\<lparr>bfbs := d\<rparr>)"
    "kind_store k (k_DPUFlavor C) Config flavors (\<lambda>d m. m\<lparr>flavors := d\<rparr>)"
    "kind_store k (k_DPUSet C) set_spec sets (\<lambda>d m. m\<lparr>sets := d\<rparr>)"
    "kind_store k (k_CredentialRequest C) ClusterName creds (\<lambda>d m. m\<lparr>creds := d\<rparr>)"
    "kind_store k (k_DPUService C) Config services (\<lambda>d m. m\<lparr>services := d\<rparr>)"
    "kind_store k (k_DPUServiceChain C) Config schains (\<lambda>d m. m\<lparr>schains := d\<rparr>)"
    "kind_store k (k_DPUServiceInterface C) Config sifaces (\<lambda>d m. m\<lparr>sifaces := d\<rparr>)"
    "kind_store k (k_DPUServiceIPAM C) Config sipams (\<lambda>d m. m\<lparr>sipams := d\<rparr>)"
  using assms by (simp_all add: kinds_def)

lemma configsD:
  assumes "reads k C" and "configs C q (m, v) = (a, (m', v'))"
  shows "m' = m \<and> (\<forall>x. a = Inr x \<longrightarrow> cfgs m q = Some x \<and> q = okey x) \<and> (\<forall>x. a = Inl x \<and> IsNotFound k x \<longrightarrow> cfgs m q = None)"
  using assms(1) [unfolded reads_def, THEN conjunct1, THEN spec, THEN spec, THEN spec, THEN spec, THEN spec, THEN spec,
    THEN mp, OF assms(2)] .

lemma chainsD:
  assumes "reads k C" and "chains C q (m, v) = (a, (m', v'))"
  shows "m' = m \<and> (\<forall>x. a = Inr x \<longrightarrow> sfcs m q = Some x \<and> q = okey x) \<and> (\<forall>x. a = Inl x \<and> IsNotFound k x \<longrightarrow> sfcs m q = None)"
  using assms(1) [unfolded reads_def, THEN conjunct2, THEN conjunct1, THEN spec, THEN spec, THEN spec, THEN spec, THEN spec,
    THEN spec, THEN mp, OF assms(2)] .

lemma list_DPUsD:
  assumes "reads k C" and "list_DPUs C ns (m, v) = (a, (m', v'))"
  shows "m' = m \<and> (\<forall>ds. a = Inr ds \<longrightarrow> ds = filter (\<lambda>d. Namespace d = ns) (dpus m))"
  using assms(1) [unfolded reads_def, THEN conjunct2, THEN conjunct2, THEN spec, THEN spec, THEN spec, THEN spec, THEN spec,
    THEN spec, THEN mp, OF assms(2)] .

lemma config_statusD:
  assumes "status_writes C" and "config_status C x (m, v) = (e, (m', v'))"
  shows "if e = None
          then \<exists>old rv. cfgs m (okey x) = Some old \<and> m' = m\<lparr>cfgs := (cfgs m)(okey x \<mapsto> old\<lparr>ResourceVersion := rv,
                 Body := (Body old)\<lparr>cfg_Conditions := cfg_Conditions (Body x)\<rparr>\<rparr>)\<rparr>
          else m' = m"
  using assms(1) [unfolded status_writes_def, THEN conjunct1, THEN spec, THEN spec, THEN spec, THEN spec, THEN spec,
    THEN spec, THEN mp, OF assms(2)] .

lemma chain_statusD:
  assumes "status_writes C" and "chain_status C x (m, v) = (e, (m', v'))"
  shows "m' = m\<lparr>sfcs := sfcs m'\<rparr>"
    using assms(1) [unfolded status_writes_def, THEN conjunct2, THEN spec, THEN spec, THEN spec, THEN spec, THEN spec,
      THEN spec, THEN mp, OF assms(2)] by (cases e) auto

text \<open>What a write of one kind leaves.\<close>

lemma only_clusters: "m' = m\<lparr>clusters := clusters m'\<rparr> \<Longrightarrow> cfgs m' = cfgs m \<and> sfcs m' = sfcs m \<and> dpus m' = dpus m \<and> bfbs m' = bfbs m \<and> flavors m' = flavors m \<and> sets m' = sets m \<and> creds m' = creds m \<and> services m' = services m \<and> schains m' = schains m \<and> sifaces m' = sifaces m \<and> sipams m' = sipams m"
  by (cases m; cases m') simp

lemma only_bfbs: "m' = m\<lparr>bfbs := bfbs m'\<rparr> \<Longrightarrow> cfgs m' = cfgs m \<and> sfcs m' = sfcs m \<and> dpus m' = dpus m \<and> clusters m' = clusters m \<and> flavors m' = flavors m \<and> sets m' = sets m \<and> creds m' = creds m \<and> services m' = services m \<and> schains m' = schains m \<and> sifaces m' = sifaces m \<and> sipams m' = sipams m"
  by (cases m; cases m') simp

lemma only_flavors: "m' = m\<lparr>flavors := flavors m'\<rparr> \<Longrightarrow> cfgs m' = cfgs m \<and> sfcs m' = sfcs m \<and> dpus m' = dpus m \<and> clusters m' = clusters m \<and> bfbs m' = bfbs m \<and> sets m' = sets m \<and> creds m' = creds m \<and> services m' = services m \<and> schains m' = schains m \<and> sifaces m' = sifaces m \<and> sipams m' = sipams m"
  by (cases m; cases m') simp

lemma only_sets: "m' = m\<lparr>sets := sets m'\<rparr> \<Longrightarrow> cfgs m' = cfgs m \<and> sfcs m' = sfcs m \<and> dpus m' = dpus m \<and> clusters m' = clusters m \<and> bfbs m' = bfbs m \<and> flavors m' = flavors m \<and> creds m' = creds m \<and> services m' = services m \<and> schains m' = schains m \<and> sifaces m' = sifaces m \<and> sipams m' = sipams m"
  by (cases m; cases m') simp

lemma only_creds: "m' = m\<lparr>creds := creds m'\<rparr> \<Longrightarrow> cfgs m' = cfgs m \<and> sfcs m' = sfcs m \<and> dpus m' = dpus m \<and> clusters m' = clusters m \<and> bfbs m' = bfbs m \<and> flavors m' = flavors m \<and> sets m' = sets m \<and> services m' = services m \<and> schains m' = schains m \<and> sifaces m' = sifaces m \<and> sipams m' = sipams m"
  by (cases m; cases m') simp

lemma only_services: "m' = m\<lparr>services := services m'\<rparr> \<Longrightarrow> cfgs m' = cfgs m \<and> sfcs m' = sfcs m \<and> dpus m' = dpus m \<and> clusters m' = clusters m \<and> bfbs m' = bfbs m \<and> flavors m' = flavors m \<and> sets m' = sets m \<and> creds m' = creds m \<and> schains m' = schains m \<and> sifaces m' = sifaces m \<and> sipams m' = sipams m"
  by (cases m; cases m') simp

lemma only_schains: "m' = m\<lparr>schains := schains m'\<rparr> \<Longrightarrow> cfgs m' = cfgs m \<and> sfcs m' = sfcs m \<and> dpus m' = dpus m \<and> clusters m' = clusters m \<and> bfbs m' = bfbs m \<and> flavors m' = flavors m \<and> sets m' = sets m \<and> creds m' = creds m \<and> services m' = services m \<and> sifaces m' = sifaces m \<and> sipams m' = sipams m"
  by (cases m; cases m') simp

lemma only_sifaces: "m' = m\<lparr>sifaces := sifaces m'\<rparr> \<Longrightarrow> cfgs m' = cfgs m \<and> sfcs m' = sfcs m \<and> dpus m' = dpus m \<and> clusters m' = clusters m \<and> bfbs m' = bfbs m \<and> flavors m' = flavors m \<and> sets m' = sets m \<and> creds m' = creds m \<and> services m' = services m \<and> schains m' = schains m \<and> sipams m' = sipams m"
  by (cases m; cases m') simp

lemma only_sipams: "m' = m\<lparr>sipams := sipams m'\<rparr> \<Longrightarrow> cfgs m' = cfgs m \<and> sfcs m' = sfcs m \<and> dpus m' = dpus m \<and> clusters m' = clusters m \<and> bfbs m' = bfbs m \<and> flavors m' = flavors m \<and> sets m' = sets m \<and> creds m' = creds m \<and> services m' = services m \<and> schains m' = schains m \<and> sifaces m' = sifaces m"
  by (cases m; cases m') simp

lemma only_sfcs: "m' = m\<lparr>sfcs := sfcs m'\<rparr> \<Longrightarrow> cfgs m' = cfgs m \<and> dpus m' = dpus m \<and> clusters m' = clusters m \<and> bfbs m' = bfbs m \<and> flavors m' = flavors m \<and> sets m' = sets m \<and> creds m' = creds m \<and> services m' = services m \<and> schains m' = schains m \<and> sifaces m' = sifaces m \<and> sipams m' = sipams m"
  by (cases m; cases m') simp

section \<open>The infrastructure pass\<close>

definition cluster_key :: "key \<Rightarrow> key" where "cluster_key q = (fst q, resourceName (snd q) ''dpucluster'')"
definition bfb_key :: "key \<Rightarrow> key" where "bfb_key q = (fst q, resourceName (snd q) ''bfb'')"
definition flavor_key :: "key \<Rightarrow> key" where "flavor_key q = (fst q, resourceName (snd q) ''dpuflavor'')"

lemmas key_defs = cluster_key_def bfb_key_def flavor_key_def okey_def

text \<open>What the DPU cluster, the image and the flavor of a configuration look like after a pass.\<close>

definition infrastructure :: "key \<Rightarrow> DpuOperatorConfig \<Rightarrow> api \<Rightarrow> bool" where
  "infrastructure q spec m =
     ((\<exists>x. clusters m (cluster_key q) = Some x \<and> fmt_map (Config (Body x)) = fmt_map (ClusterConfig spec)) \<and>
      (\<exists>x. bfbs m (bfb_key q) = Some x \<and> fmt_map (Config (Body x)) = fmt_map (ImageConfig spec)) \<and>
      (\<exists>x. flavors m (flavor_key q) = Some x \<and> fmt_map (Config (Body x)) = fmt_map (HardwareConfig spec)))"

definition ready_cluster :: "key \<Rightarrow> api \<Rightarrow> bool" where
  "ready_cluster q m = (\<exists>x. clusters m (cluster_key q) = Some x \<and> isDPFResourceReady (Conditions (Body x)))"

definition on :: "(api \<times> 'v) Client \<Rightarrow> machinery \<Rightarrow> (api \<times> 'v) Reconciler" where
  "on C k = \<lparr>r_Client = C, r_lib = k\<rparr>"

lemma on_sel [simp]: "r_Client (on C k) = C" "r_lib (on C k) = k"
  by (simp_all add: on_def)

lemma ensureDPUCluster_effect:
  assumes K: "kinds k C" and p: "ensureDPUCluster (on C k) c (m, v) = (a, (m', v'))"
  shows "m' = m\<lparr>clusters := clusters m'\<rparr> \<and> (\<forall>x. a = Inr x \<longrightarrow> clusters m' (cluster_key (okey c)) = Some x \<and>
    fmt_map (Config (Body x)) = fmt_map (ClusterConfig (Body c)))"
  using kind_store.ensure_effect [OF kindsD(1) [OF K] p [unfolded ensureDPUCluster_def on_sel]]
  by (elim disjE exE conjE) (auto simp: buildDesiredDPUCluster_def object_def key_defs config_matches_def)

lemma ensureBFB_effect:
  assumes K: "kinds k C" and p: "ensureBFB (on C k) c (m, v) = (a, (m', v'))"
  shows "m' = m\<lparr>bfbs := bfbs m'\<rparr> \<and> (\<forall>x. a = Inr x \<longrightarrow> bfbs m' (bfb_key (okey c)) = Some x \<and>
    fmt_map (Config (Body x)) = fmt_map (ImageConfig (Body c)))"
  using kind_store.ensure_effect [OF kindsD(2) [OF K] p [unfolded ensureBFB_def on_sel]]
  by (elim disjE exE conjE) (auto simp: buildDesiredBFB_def object_def key_defs config_matches_def)

lemma ensureDPUFlavor_effect:
  assumes K: "kinds k C" and p: "ensureDPUFlavor (on C k) c (m, v) = (a, (m', v'))"
  shows "m' = m\<lparr>flavors := flavors m'\<rparr> \<and> (\<forall>x. a = Inr x \<longrightarrow> flavors m' (flavor_key (okey c)) = Some x \<and>
    fmt_map (Config (Body x)) = fmt_map (HardwareConfig (Body c)))"
  using kind_store.ensure_effect [OF kindsD(3) [OF K] p [unfolded ensureDPUFlavor_def on_sel]]
  by (elim disjE exE conjE) (auto simp: buildDesiredDPUFlavor_def object_def key_defs config_matches_def)

lemma ensureDPUSet_effect:
  assumes K: "kinds k C" and p: "ensureDPUSet (on C k) c b f (m, v) = (a, (m', v'))"
  shows "m' = m\<lparr>sets := sets m'\<rparr>"
  using kind_store.ensure_effect [OF kindsD(4) [OF K] p [unfolded ensureDPUSet_def on_sel]]
  by (elim disjE exE conjE) auto

lemma ensureCredentialRequest_effect:
  assumes K: "kinds k C" and p: "ensureCredentialRequest (on C k) c cl (m, v) = (a, (m', v'))"
  shows "m' = m\<lparr>creds := creds m'\<rparr>"
  using kind_store.ensure_effect [OF kindsD(5) [OF K] p [unfolded ensureCredentialRequest_def on_sel]]
  by (elim disjE exE conjE) auto

lemma observeDPUReadiness_effect:
  assumes "reads k C" and "observeDPUReadiness (on C k) c (m, v) = (a, (m', v'))"
  shows "m' = m \<and> (\<forall>n t. a = Inr (n, t) \<longrightarrow> n = count_ready (filter (\<lambda>d. Namespace d = Namespace c) (dpus m)) \<and>
    t = length (filter (\<lambda>d. Namespace d = Namespace c) (dpus m)))"
proof -
  obtain g m1 v1 where g: "list_DPUs C (Namespace c) (m, v) = (g, (m1, v1))" by (metis prod.collapse)
  show ?thesis using assms(2) g list_DPUsD [OF assms(1) g] by (cases g) (auto simp: observeDPUReadiness_def)
qed

text \<open>Everything but the five kinds of the infrastructure stays.\<close>

definition inputs :: "api \<Rightarrow> api" where
  "inputs m = m\<lparr>clusters := Map.empty, bfbs := Map.empty, flavors := Map.empty, sets := Map.empty, creds := Map.empty\<rparr>"

lemma inputs_writes [simp]:
  "inputs (m\<lparr>clusters := f1\<rparr>) = inputs m" "inputs (m\<lparr>bfbs := f2\<rparr>) = inputs m" "inputs (m\<lparr>flavors := f3\<rparr>) = inputs m"
  "inputs (m\<lparr>sets := f4\<rparr>) = inputs m" "inputs (m\<lparr>creds := f5\<rparr>) = inputs m"
  by (simp_all add: inputs_def)

lemma inputsD: "inputs m' = inputs m \<Longrightarrow> cfgs m' = cfgs m \<and> sfcs m' = sfcs m \<and> dpus m' = dpus m \<and>
    services m' = services m \<and> schains m' = schains m \<and> sifaces m' = sifaces m \<and> sipams m' = sipams m"
  by (cases m; cases m') (simp add: inputs_def)

lemma behind_cluster_effect:
  assumes L: "lawful k C" and p: "behind_cluster (on C k) c cl b f (m, v) = ((d, e), (m', v'))"
  shows "\<exists>x y. m' = m\<lparr>sets := x, creds := y\<rparr>"
proof -
  have K: "kinds k C" and R: "reads k C" using L by (simp_all add: lawful_def)
  obtain a1 m1 v1 where 1: "ensureDPUSet (on C k) c b f (m, v) = (a1, (m1, v1))" by (metis prod.collapse)
  obtain a2 m2 v2 where 2: "ensureCredentialRequest (on C k) c cl (m1, v1) = (a2, (m2, v2))" by (metis prod.collapse)
  obtain a3 m3 v3 where 3: "observeDPUReadiness (on C k) c (m2, v2) = (a3, (m3, v3))" by (metis prod.collapse)
  note e1 = ensureDPUSet_effect [OF K 1] and e2 = ensureCredentialRequest_effect [OF K 2]
    and e3 = observeDPUReadiness_effect [OF R 3, THEN conjunct1]
  have "m' = m1 \<or> m' = m2"
    using p 1 2 3 e3 by (cases a1; cases a2; cases a3) (auto simp: behind_cluster_def)
  moreover have "m1 = m\<lparr>sets := sets m1, creds := creds m\<rparr>" using e1 by (cases m; cases m1) simp
  moreover have "m2 = m\<lparr>sets := sets m1, creds := creds m2\<rparr>" using e1 e2 by (cases m; cases m1; cases m2) simp
  ultimately show ?thesis by blast
qed

text \<open>What one pass over the infrastructure writes.\<close>

lemma reconcileInfrastructure_effect:
  assumes L: "lawful k C" and p: "reconcileInfrastructure (on C k) c (m, v) = ((d, e), (m', v'))"
  shows "inputs m' = inputs m"
    and "sets m' \<noteq> sets m \<or> creds m' \<noteq> creds m \<Longrightarrow> infrastructure (okey c) (Body c) m' \<and> ready_cluster (okey c) m'"
    and "e = None \<Longrightarrow> infrastructure (okey c) (Body c) m'"
proof -
  have K: "kinds k C" using L by (simp add: lawful_def)
  obtain a1 m1 v1 where 1: "ensureDPUCluster (on C k) c (m, v) = (a1, (m1, v1))" by (metis prod.collapse)
  obtain a2 m2 v2 where 2: "ensureBFB (on C k) c (m1, v1) = (a2, (m2, v2))" by (metis prod.collapse)
  obtain a3 m3 v3 where 3: "ensureDPUFlavor (on C k) c (m2, v2) = (a3, (m3, v3))" by (metis prod.collapse)
  note e1 = ensureDPUCluster_effect [OF K 1] and e2 = ensureBFB_effect [OF K 2] and e3 = ensureDPUFlavor_effect [OF K 3]
  note c1 = e1 [THEN conjunct1] and c2 = e2 [THEN conjunct1] and c3 = e3 [THEN conjunct1]
  have i: "inputs m1 = inputs m" "inputs m2 = inputs m" "inputs m3 = inputs m"
    using c1 c2 c3 inputs_writes by metis+
  have s: "sets m1 = sets m" "creds m1 = creds m" "sets m2 = sets m" "creds m2 = creds m" "sets m3 = sets m" "creds m3 = creds m"
    using only_clusters [OF c1] only_bfbs [OF c2] only_flavors [OF c3] by simp_all
  have out: "(\<exists>x. a1 = Inl x \<and> e = Some x \<and> m' = m1) \<or> (\<exists>x. a2 = Inl x \<and> e = Some x \<and> m' = m2) \<or>
      (\<exists>x. a3 = Inl x \<and> e = Some x \<and> m' = m3) \<or>
      (\<exists>x y z. a1 = Inr x \<and> a2 = Inr y \<and> a3 = Inr z \<and>
        (\<not> isDPFResourceReady (Conditions (Body x)) \<and> m' = m3 \<or>
         isDPFResourceReady (Conditions (Body x)) \<and> behind_cluster (on C k) c x y z (m3, v3) = ((d, e), (m', v'))))"
    using p 1 2 3 by (cases a1; cases a2; cases a3) (auto simp: reconcileInfrastructure_def split: if_splits)
  have inf: "infrastructure (okey c) (Body c) m3 \<and> clusters m3 (cluster_key (okey c)) = Some x"
    if "a1 = Inr x" "a2 = Inr y" "a3 = Inr z" for x y z
    using e1 e2 e3 that only_bfbs [OF c2] only_flavors [OF c3] by (simp add: infrastructure_def)
  have keep: "infrastructure q b (n\<lparr>sets := x, creds := y\<rparr>) = infrastructure q b n"
    "ready_cluster q (n\<lparr>sets := x, creds := y\<rparr>) = ready_cluster q n" for q b n x y
    by (simp_all add: infrastructure_def ready_cluster_def)
  note beh = behind_cluster_effect [OF L]
  show "inputs m' = inputs m"
    using out i by (elim disjE exE conjE) (simp_all, metis beh inputs_writes(4,5))
  show "infrastructure (okey c) (Body c) m' \<and> ready_cluster (okey c) m'" if w: "sets m' \<noteq> sets m \<or> creds m' \<noteq> creds m"
  proof -
    have "\<not> (m' = m1 \<or> m' = m2 \<or> m' = m3)" using w s by auto
    then obtain x y z where a: "a1 = Inr x" "a2 = Inr y" "a3 = Inr z"
      and r: "isDPFResourceReady (Conditions (Body x))" and b: "behind_cluster (on C k) c x y z (m3, v3) = ((d, e), (m', v'))"
      using out by blast
    obtain f g where "m' = m3\<lparr>sets := f, creds := g\<rparr>" using beh [OF b] by blast
    then show ?thesis using inf [OF a] r by (simp add: keep) (auto simp: ready_cluster_def)
  qed
  show "infrastructure (okey c) (Body c) m'" if "e = None"
  proof -
    obtain x y z where a: "a1 = Inr x" "a2 = Inr y" "a3 = Inr z"
      and "m' = m3 \<or> behind_cluster (on C k) c x y z (m3, v3) = ((d, e), (m', v'))" using out \<open>e = None\<close> by blast
    then show ?thesis using inf [OF a] beh keep(1) by metis
  qed
qed

text \<open>What the derived state says of the cluster: it is true only when a DPU of the namespace is ready.\<close>

definition some_dpu_ready :: "string \<Rightarrow> api \<Rightarrow> bool" where
  "some_dpu_ready ns m = (\<exists>d \<in> set (dpus m). Namespace d = ns \<and> isDPFResourceReady (Body d))"

lemma count_ready_pos: "0 < count_ready (filter (\<lambda>d. Namespace d = ns) (dpus m)) \<longleftrightarrow> some_dpu_ready ns m"
  by (auto simp: count_ready_def some_dpu_ready_def filter_empty_conv)

lemma derive_effect:
  assumes L: "lawful k C" and p: "deriveProvisioningState (on C k) c (m, v) = (st, (m', v'))"
  shows "m' = m \<and> (fst st = ''True'' \<longrightarrow> ready_cluster (okey c) m \<and> some_dpu_ready (Namespace c) m)"
proof -
  have K: "kinds k C" and R: "reads k C" using L by (simp_all add: lawful_def)
  obtain g m1 v1 where g: "Get (k_DPUCluster C) (cluster_key (okey c)) (m, v) = (g, (m1, v1))" by (metis prod.collapse)
  note g1 = kind_store.get [OF kindsD(1) [OF K] g]
  obtain a m2 v2 where o: "observeDPUReadiness (on C k) c (m, v1) = (a, (m2, v2))" by (metis prod.collapse)
  note o1 = observeDPUReadiness_effect [OF R o]
  have g': "Get (k_DPUCluster C) (Namespace c, resourceName (Name c) ''dpucluster'') (m, v) = (g, (m, v1))"
    using g g1 by (simp add: key_defs)
  show ?thesis
  proof (cases g)
    case (Inl e)
    then show ?thesis using p g' by (auto simp: deriveProvisioningState_def split: if_splits)
  next
    case (Inr x)
    then have x: "clusters m (cluster_key (okey c)) = Some x" using g1 by simp
    then show ?thesis using p g' o o1 Inr count_ready_pos [of "Namespace c" m]
      by (cases a) (auto simp: deriveProvisioningState_def ready_cluster_def split: if_splits prod.splits)
  qed
qed

text \<open>The status of a configuration, written by a pass.\<close>

definition stored_status :: "key \<Rightarrow> api \<Rightarrow> Condition list" where
  "stored_status q m = (case cfgs m q of Some x \<Rightarrow> cfg_Conditions (Body x) | None \<Rightarrow> [])"

lemma status_update_effect:
  assumes L: "lawful k C" and x: "cfgs m (okey x) = Some x"
    and p: "deriveAndUpdateInfrastructureStatus (on C k) now x (m, v) = (e, (m', v'))"
  shows "inputs (m'\<lparr>cfgs := cfgs m\<rparr>) = inputs m"
    "sets m' = sets m \<and> creds m' = creds m \<and> clusters m' = clusters m \<and> bfbs m' = bfbs m \<and> flavors m' = flavors m"
    "e = None \<Longrightarrow> \<exists>st rv. cfgs m' (okey x) = Some (x\<lparr>ResourceVersion := rv, Body := (Body x)\<lparr>cfg_Conditions :=
        stamp_status now ConditionProvisioning ''Infrastructure provisioning complete'' st (cfg_Conditions (Body x))\<rparr>\<rparr>) \<and>
      (fst st = ''True'' \<longrightarrow> ready_cluster (okey x) m \<and> some_dpu_ready (Namespace x) m)"
proof -
  obtain st m1 v1 where g: "deriveProvisioningState (on C k) x (m, v) = (st, (m1, v1))" by (metis prod.collapse)
  note g1 = derive_effect [OF L g]
  let ?cs = "stamp_status now ConditionProvisioning ''Infrastructure provisioning complete'' st (cfg_Conditions (Body x))"
  let ?y = "x\<lparr>Body := (Body x)\<lparr>cfg_Conditions := ?cs\<rparr>\<rparr>"
  obtain u m2 v2 where u: "config_status C ?y (m, v1) = (u, (m2, v2))" by (metis prod.collapse)
  have S: "status_writes C" using L by (simp add: lawful_def)
  note u1 = config_statusD [OF S u]
  have m2: "m' = m2" and e: "e = status_error k ''updating DpuOperatorConfig status: %w'' u"
    using p g g1 u by (simp_all add: deriveAndUpdateInfrastructureStatus_def)
  have k: "okey ?y = okey x" by (simp add: okey_def)
  have only: "\<exists>f. m' = m\<lparr>cfgs := f\<rparr>"
  proof (cases u)
    case None
    then show ?thesis using u1 m2 by auto
  next
    case (Some z)
    then have "m' = m\<lparr>cfgs := cfgs m\<rparr>" using u1 m2 by simp
    then show ?thesis by blast
  qed
  then show "inputs (m'\<lparr>cfgs := cfgs m\<rparr>) = inputs m"
    and "sets m' = sets m \<and> creds m' = creds m \<and> clusters m' = clusters m \<and> bfbs m' = bfbs m \<and> flavors m' = flavors m"
    by (auto simp: inputs_def)
  assume "e = None"
  then have "u = None" using e by (cases u) (simp_all add: status_error_def)
  then obtain rv where "m2 = m\<lparr>cfgs := (cfgs m)(okey x \<mapsto> x\<lparr>ResourceVersion := rv, Body := (Body x)\<lparr>cfg_Conditions := ?cs\<rparr>\<rparr>)\<rparr>"
    using u1 x k by auto
  then show "\<exists>st rv. cfgs m' (okey x) = Some (x\<lparr>ResourceVersion := rv, Body := (Body x)\<lparr>cfg_Conditions :=
        stamp_status now ConditionProvisioning ''Infrastructure provisioning complete'' st (cfg_Conditions (Body x))\<rparr>\<rparr>) \<and>
      (fst st = ''True'' \<longrightarrow> ready_cluster (okey x) m \<and> some_dpu_ready (Namespace x) m)"
    using m2 g1 by (intro exI [of _ st] exI [of _ rv]) simp
qed

section \<open>A pass of the infrastructure reconciler\<close>

definition valid_config :: "DpuOperatorConfig \<Rightarrow> bool" where
  "valid_config spec = (isNVIDIAVendor (cfg_Vendor spec) \<and> validateDpuOperatorConfigSpec spec = None)"

lemma Reconcile_cases:
  assumes L: "lawful k C" and p: "Reconcile (on C k) now q (m, v) = ((d, e), (m', v'))"
  obtains (untouched) "m' = m" "e \<noteq> None \<or> (\<forall>x. cfgs m q = Some x \<longrightarrow> \<not> valid_config (Body x))"
  | (rejected) x err f where "cfgs m q = Some x" "validateDpuOperatorConfigSpec (Body x) = Some err" "m' = m\<lparr>cfgs := f\<rparr>"
  | (failed) x v1 where "cfgs m q = Some x" "okey x = q" "e \<noteq> None" "reconcileInfrastructure (on C k) x (m, v1) = ((d, e), (m', v'))"
  | (updated) x v1 d1 m2 v2 where "cfgs m q = Some x" "okey x = q" "reconcileInfrastructure (on C k) x (m, v1) = ((d1, None), (m2, v2))"
      "deriveAndUpdateInfrastructureStatus (on C k) now x (m2, v2) = (e, (m', v'))"
proof -
  have R: "reads k C" and S: "status_writes C" using L by (simp_all add: lawful_def)
  obtain g m1 v1 where g: "configs C q (m, v) = (g, (m1, v1))" by (metis prod.collapse)
  note g1 = configsD [OF R g]
  show thesis
  proof (cases g)
    case (Inl z)
    then show thesis using p g g1 by (intro untouched) (auto simp: Reconcile_def split: if_splits)
  next
    case (Inr x)
    then have x: "cfgs m q = Some x" "okey x = q" "m1 = m" using g1 by auto
    show thesis
    proof (cases "isNVIDIAVendor (cfg_Vendor (Body x))")
      case False
      then show thesis using p g x Inr by (intro untouched) (auto simp: Reconcile_def valid_config_def)
    next
      case nv: True
      show thesis
      proof (cases "validateDpuOperatorConfigSpec (Body x)")
        case (Some err)
        let ?y = "x\<lparr>Body := (Body x)\<lparr>cfg_Conditions := setCondition now ConditionReady ''False'' ''InvalidSpec'' err (cfg_Conditions (Body x))\<rparr>\<rparr>"
        obtain u m2 v2 where u: "config_status C ?y (m, v1) = (u, (m2, v2))" by (metis prod.collapse)
        have "\<exists>f. m2 = m\<lparr>cfgs := f\<rparr>"
        proof (cases u)
          case None
          then show ?thesis using config_statusD [OF S u] by auto
        next
          case (Some z)
          then have "m2 = m\<lparr>cfgs := cfgs m\<rparr>" using config_statusD [OF S u] by simp
          then show ?thesis by blast
        qed
        moreover have "m' = m2" using p g x Inr nv Some u by (cases u) (simp_all add: Reconcile_def)
        ultimately show thesis using rejected x(1) Some by blast
      next
        case None
        obtain d1 e1 m2 v2 where i: "reconcileInfrastructure (on C k) x (m, v1) = ((d1, e1), (m2, v2))" by (metis prod.collapse)
        show thesis
        proof (cases e1)
          case (Some z)
          then have "e = e1" "d = d1" "m' = m2" "v' = v2" using p g x Inr nv None i by (simp_all add: Reconcile_def)
          then show thesis using failed x i Some by blast
        next
          case ok: None
          obtain u m3 v3 where u: "deriveAndUpdateInfrastructureStatus (on C k) now x (m2, v2) = (u, (m3, v3))" by (metis prod.collapse)
          have "e = u" "m' = m3" "v' = v3" using p g x Inr nv None i ok u by (cases u; simp add: Reconcile_def)+
          then show thesis using updated x i ok u by blast
        qed
      qed
    qed
  qed
qed

text \<open>
  C25.  The DPU set and the credential request wait for the cluster: a pass that writes either of them found
  the DPU cluster of this configuration ready, and left the cluster, the image and the flavor of the
  configuration in place.\<close>

theorem set_waits_for_cluster:
  assumes "lawful k C" and "Reconcile (on C k) now q (m, v) = ((d, e), (m', v'))"
    and "sets m' \<noteq> sets m \<or> creds m' \<noteq> creds m"
  shows "\<exists>x. cfgs m q = Some x \<and> infrastructure q (Body x) m' \<and> ready_cluster q m'"
  using assms(1,2)
proof (cases rule: Reconcile_cases)
  case (failed x v1)
  then show ?thesis using reconcileInfrastructure_effect(2) [OF assms(1) failed(4) assms(3)] by auto
next
  case (updated x v1 d1 m2 v2)
  have c: "cfgs m2 (okey x) = Some x" using inputsD [OF reconcileInfrastructure_effect(1) [OF assms(1) updated(3)]] updated by simp
  note s = status_update_effect(2) [OF assms(1) c updated(4)]
  then have "infrastructure q (Body x) m2 \<and> ready_cluster q m2"
    using reconcileInfrastructure_effect(2) [OF assms(1) updated(3)] assms(3) updated(2) by simp
  then show ?thesis using updated(1) s by (auto simp: infrastructure_def ready_cluster_def)
qed (use assms(3) in auto)

text \<open>
  What \<open>Ready\<close> means: after a pass without an error over a valid configuration, the cluster, the image
  and the flavor are stored with its settings, and a status \<open>Ready\<close> says that the cluster is ready and
  that some DPU of the namespace is.  The count is over the namespace: the DPUs of the other configurations
  of the namespace count as well.\<close>

theorem ready_means_provisioned:
  assumes "lawful k C" and "Reconcile (on C k) now q (m, v) = ((d, None), (m', v'))"
    and "cfgs m q = Some x" and "valid_config (Body x)"
  shows "infrastructure q (Body x) m' \<and>
    (ready_status (stored_status q m') \<longrightarrow> ready_cluster q m' \<and> some_dpu_ready (fst q) m')"
  using assms(1,2)
proof (cases rule: Reconcile_cases)
  case (updated x' v1 d1 m2 v2)
  then have x: "x' = x" using assms(3) by simp
  note i = reconcileInfrastructure_effect [OF assms(1) updated(3)]
  have c: "cfgs m2 (okey x') = Some x'" using inputsD [OF i(1)] updated by simp
  note s = status_update_effect [OF assms(1) c updated(4)]
  obtain st rv where st: "cfgs m' q = Some (x\<lparr>ResourceVersion := rv, Body := (Body x)\<lparr>cfg_Conditions :=
        stamp_status now ConditionProvisioning ''Infrastructure provisioning complete'' st (cfg_Conditions (Body x))\<rparr>\<rparr>)"
      "fst st = ''True'' \<longrightarrow> ready_cluster q m2 \<and> some_dpu_ready (Namespace x) m2"
    using s(3) updated(2) x by auto
  have "ready_status (stored_status q m') \<longleftrightarrow> fst st = ''True''"
    using st(1) stamp_ready [of now _ _ "fst st"] by (simp add: stored_status_def) (metis prod.collapse)
  moreover have "ready_cluster q m' = ready_cluster q m2" "infrastructure q (Body x) m' = infrastructure q (Body x) m2"
    using s(2) by (simp_all add: ready_cluster_def infrastructure_def)
  moreover have "some_dpu_ready (fst q) m' = some_dpu_ready (Namespace x) m2"
    using inputsD [OF s(1)] updated(2) x by (simp add: some_dpu_ready_def okey_def) auto
  moreover have "infrastructure q (Body x) m2" using i(3) updated(2) x by simp
  ultimately show ?thesis using st(2) by simp
qed (use assms(3,4) in \<open>auto simp: valid_config_def\<close>)

text \<open>The stored status after a pass without an error over a valid configuration carries its time.\<close>

lemma pass_is_stamped:
  assumes "lawful k C" and "Reconcile (on C k) now q (m, v) = ((d, None), (m', v'))"
    and "cfgs m q = Some x" and "valid_config (Body x)"
  shows "says (stored_status q m') ConditionStatusFresh ''True'' ''Observed'' (''Status observed at '' @ rfc3339 now) \<and>
    (\<exists>y. cfgs m' q = Some y \<and> valid_config (Body y))"
  using assms(1,2)
proof (cases rule: Reconcile_cases)
  case (updated x' v1 d1 m2 v2)
  then have x: "x' = x" using assms(3) by simp
  have c: "cfgs m2 (okey x') = Some x'"
    using inputsD [OF reconcileInfrastructure_effect(1) [OF assms(1) updated(3)]] updated by simp
  obtain st rv where st: "cfgs m' q = Some (x\<lparr>ResourceVersion := rv, Body := (Body x)\<lparr>cfg_Conditions :=
        stamp_status now ConditionProvisioning ''Infrastructure provisioning complete'' st (cfg_Conditions (Body x))\<rparr>\<rparr>)"
    using status_update_effect(3) [OF assms(1) c updated(4)] updated(2) x by auto
  have n: "ConditionProvisioning \<noteq> ConditionReady" "ConditionProvisioning \<noteq> ConditionStatusFresh"
    by (simp_all add: condition_names)
  obtain a b c where "st = (a, b, c)" by (metis prod.collapse)
  then have "says (stored_status q m') ConditionStatusFresh ''True'' ''Observed'' (''Status observed at '' @ rfc3339 now)"
    unfolding stored_status_def st option.case using stamp_says(2) [OF n] by simp
  moreover have "valid_config (Body x\<lparr>cfg_Conditions := cs\<rparr>)" for cs
    using assms(4) by (auto simp: valid_config_def validateDpuOperatorConfigSpec_def split: if_splits)
  ultimately show ?thesis using st by simp
qed (use assms(3,4) in \<open>auto simp: valid_config_def\<close>)

text \<open>
  The status never comes to rest: two passes without an error in different seconds of a day store
  different conditions, whatever happens in between, as the time of the pass is part of a message.  Every
  pass is therefore a write to the object the controller watches.\<close>

theorem status_never_rests:
  assumes "lawful k C" and "now div second div 86400 = later div second div 86400" and "now div second \<noteq> later div second"
    and "Reconcile (on C k) now q (m, v) = ((d, None), (m1, v1))" and "cfgs m q = Some x" and "valid_config (Body x)"
    and "Reconcile (on C k) later q (m1, v2) = ((d2, None), (m3, v3))"
  shows "stored_status q m3 \<noteq> stored_status q m1"
proof
  assume e: "stored_status q m3 = stored_status q m1"
  note one = pass_is_stamped [OF assms(1,4,5,6)]
  then obtain y where "cfgs m1 q = Some y" "valid_config (Body y)" by blast
  note two = pass_is_stamped [OF assms(1,7) this]
  have "''Status observed at '' @ rfc3339 later = ''Status observed at '' @ rfc3339 now"
    using says_functional one two e by metis
  then show False using rfc3339_distinct [OF assms(2,3)] by simp
qed

section \<open>A pass of the service reconciler\<close>

definition service_key :: "key \<Rightarrow> key" where "service_key q = (fst q, resourceName (snd q) ''dpuservice'')"

text \<open>The DPF objects of the services.\<close>

definition service_objects where "service_objects m = (services m, schains m, sifaces m, sipams m)"

definition outside :: "api \<Rightarrow> api" where
  "outside m = m\<lparr>sfcs := Map.empty, services := Map.empty, schains := Map.empty, sifaces := Map.empty, sipams := Map.empty\<rparr>"

lemma outside_writes [simp]:
  "outside (m\<lparr>services := f1\<rparr>) = outside m" "outside (m\<lparr>schains := f2\<rparr>) = outside m" "outside (m\<lparr>sifaces := f3\<rparr>) = outside m"
  "outside (m\<lparr>sipams := f4\<rparr>) = outside m" "outside (m\<lparr>sfcs := f5\<rparr>) = outside m"
  by (simp_all add: outside_def)

lemma outsideD: "outside m' = outside m \<Longrightarrow> dpus m' = dpus m \<and> cfgs m' = cfgs m \<and> clusters m' = clusters m \<and>
    bfbs m' = bfbs m \<and> flavors m' = flavors m \<and> sets m' = sets m \<and> creds m' = creds m"
  by (cases m; cases m') (simp add: outside_def)

lemma ensureDPUService_effect:
  assumes K: "kinds k C" and p: "ensureDPUService (on C k) s (m, v) = (a, (m', v'))"
  shows "m' = m\<lparr>services := services m'\<rparr> \<and> (\<forall>x. a = Inr x \<longrightarrow> services m' (service_key (okey s)) = Some x \<and>
    fmt_map (Config (Body x)) = fmt_map (ServiceConfig (Body s)))"
  using kind_store.ensure_effect [OF kindsD(6) [OF K] p [unfolded ensureDPUService_def on_sel]]
  by (elim disjE exE conjE) (auto simp: buildDesiredDPUService_def object_def service_key_def okey_def config_matches_def)

text \<open>The optional resources leave the rest alone, the service included.\<close>

definition networking_only :: "api \<Rightarrow> api \<Rightarrow> bool" where
  "networking_only m m' = (outside m' = outside m \<and> services m' = services m \<and> sfcs m' = sfcs m)"

lemma networking_only_refl [simp]: "networking_only m m"
  by (simp add: networking_only_def)

lemma networking_only_trans: "networking_only m m' \<Longrightarrow> networking_only m' m2 \<Longrightarrow> networking_only m m2"
  by (simp add: networking_only_def)

lemma networking_step_effect:
  assumes K: "kinds k C" and st: "st \<in> set (networking_steps (on C k) s nc)"
    and p: "networking_step k st (m, v) = (e, (m', v'))"
  shows "networking_only m m'"
proof -
  obtain wanted c desired where x: "st = (wanted, c, desired)" by (metis prod.collapse)
  show ?thesis
  proof (cases "0 < length wanted")
    case False
    then show ?thesis using p x by (simp add: networking_step_def)
  next
    case True
    obtain a m1 v1 where a: "ensureResource k c desired config_matches (m, v) = (a, (m1, v1))" by (metis prod.collapse)
    have m1: "m' = m1" using p x True a by (cases a) (simp_all add: networking_step_def)
    note k = kind_store.ensure_writes [OF kindsD(7) [OF K], of desired config_matches m v a m1 v1]
      kind_store.ensure_writes [OF kindsD(8) [OF K], of desired config_matches m v a m1 v1]
      kind_store.ensure_writes [OF kindsD(9) [OF K], of desired config_matches m v a m1 v1]
    have "c = k_DPUServiceChain C \<or> c = k_DPUServiceInterface C \<or> c = k_DPUServiceIPAM C"
      using st x by (auto simp: networking_steps_def)
    then have "m1 = m \<or> (\<exists>f. m1 = m\<lparr>schains := f\<rparr> \<or> m1 = m\<lparr>sifaces := f\<rparr> \<or> m1 = m\<lparr>sipams := f\<rparr>)"
      using k a by blast
    then show ?thesis using m1 by (auto simp: networking_only_def)
  qed
qed

lemma ensureNetworkingResources_effect:
  assumes K: "kinds k C" and p: "ensureNetworkingResources (on C k) s (m, v) = (e, (m', v'))"
  shows "networking_only m m'"
proof (cases "Networking (Body s)")
  case None
  then show ?thesis using p by (simp add: ensureNetworkingResources_def)
next
  case (Some nc)
  let ?st = "networking_steps (on C k) s nc"
  have "networking_only m (fst (snd (networking_step k x w)))" if "x \<in> set ?st" "networking_only m (fst w)" for x w
  proof -
    obtain a m2 v2 where a: "networking_step k x (fst w, snd w) = (a, (m2, v2))" by (metis prod.collapse)
    then show ?thesis using networking_only_trans [OF that(2) networking_step_effect [OF K that(1) a]] by simp
  qed
  then have "networking_only m (fst (snd (each_until_err (networking_step k) ?st (m, v))))"
    using each_until_err_inv [of ?st "\<lambda>w. networking_only m (fst w)" "networking_step k" "(m, v)"] by simp
  moreover have "snd (each_until_err (networking_step k) ?st (m, v)) = (m', v')"
    using p Some by (simp add: ensureNetworkingResources_def split: prod.splits option.splits)
  ultimately show ?thesis by simp
qed

lemma reconcileServices_effect:
  assumes L: "lawful k C" and p: "reconcileServices (on C k) s (m, v) = ((d, e), (m', v'))"
  shows "outside m' = outside m \<and> sfcs m' = sfcs m \<and>
    (m' \<noteq> m \<longrightarrow> some_dpu_ready (Namespace s) m) \<and>
    (e = None \<and> some_dpu_ready (Namespace s) m \<longrightarrow>
      (\<exists>x. services m' (service_key (okey s)) = Some x \<and> fmt_map (Config (Body x)) = fmt_map (ServiceConfig (Body s))))"
proof -
  have K: "kinds k C" and R: "reads k C" using L by (simp_all add: lawful_def)
  obtain g m1 v1 where g: "list_DPUs C (Namespace s) (m, v) = (g, (m1, v1))" by (metis prod.collapse)
  note g1 = list_DPUsD [OF R g]
  show ?thesis
  proof (cases g)
    case (Inl x)
    then show ?thesis using p g g1 by (auto simp: reconcileServices_def)
  next
    case (Inr ds)
    show ?thesis
    proof (cases "some_dpu_ready (Namespace s) m")
      case False
      then show ?thesis using p g g1 Inr count_ready_pos [of "Namespace s" m] by (auto simp: reconcileServices_def)
    next
      case True
      then have n: "count_ready ds \<noteq> 0" using count_ready_pos [of "Namespace s" m] g1 Inr by simp
      obtain a m2 v2 where a: "ensureDPUService (on C k) s (m, v1) = (a, (m2, v2))" by (metis prod.collapse)
      note a1 = ensureDPUService_effect [OF K a]
      obtain u m3 v3 where u: "ensureNetworkingResources (on C k) s (m2, v2) = (u, (m3, v3))" by (metis prod.collapse)
      note u1 = ensureNetworkingResources_effect [OF K u, unfolded networking_only_def]
      have o2: "outside m2 = outside m \<and> sfcs m2 = sfcs m"
        using a1 [THEN conjunct1] only_services outside_writes(1) by metis
      have "(\<exists>z. a = Inl z \<and> e = Some z \<and> m' = m2) \<or> (\<exists>x. a = Inr x \<and> e = u \<and> m' = m3)"
        using p g g1 Inr n a u by (cases a) (auto simp: reconcileServices_def)
      then show ?thesis using o2 u1 a1 True by auto
    qed
  qed
qed

text \<open>
  C26.  No service before a DPU: whatever a pass over a service function chain writes of the DPU service, the
  service chain, the interfaces or the address management, some DPU of the namespace was ready when it did,
  and nothing of the infrastructure is touched.\<close>

theorem services_wait_for_dpu:
  assumes "lawful k C" and "svc_Reconcile (on C k) now q (m, v) = ((d, e), (m', v'))"
  shows "outside m' = outside m \<and> (service_objects m' \<noteq> service_objects m \<longrightarrow> some_dpu_ready (fst q) m)"
proof -
  have R: "reads k C" and S: "status_writes C" and K: "kinds k C" using assms(1) by (simp_all add: lawful_def)
  note p = assms(2)
  have status: "outside m2 = outside n \<and> service_objects m2 = service_objects n"
    if "chain_status C y (n, u) = (w, (m2, v2))" for y n u w m2 v2
  proof -
    have "m2 = n\<lparr>sfcs := sfcs m2\<rparr>" by (rule chain_statusD [OF S that])
    then show ?thesis using outside_writes(5) only_sfcs [of m2 n] unfolding service_objects_def by metis
  qed
  obtain g m1 v1 where g: "chains C q (m, v) = (g, (m1, v1))" by (metis prod.collapse)
  note g1 = chainsD [OF R g]
  show ?thesis
  proof (cases "\<exists>s. g = Inr s \<and> isNVIDIAVendor (sfc_Vendor (Body s))")
    case False
    then have "m' = m" using p g g1 by (cases g) (auto simp: svc_Reconcile_def)
    then show ?thesis by simp
  next
    case True
    then obtain s where s: "g = Inr s" "isNVIDIAVendor (sfc_Vendor (Body s))" by blast
    then have q: "fst q = Namespace s" "m1 = m" using g1 by (auto simp: okey_def)
    show ?thesis
    proof (cases "validateServiceFunctionChainSpec (Body s)")
      case (Some err)
      obtain w m2 v2 where w: "chain_status C (s\<lparr>Body := (Body s)\<lparr>sfc_Conditions :=
          setCondition now ConditionReady ''False'' ''InvalidSpec'' err (sfc_Conditions (Body s))\<rparr>\<rparr>) (m, v1) = (w, (m2, v2))"
        by (metis prod.collapse)
      have "m' = m2" using p g q s Some w by (cases w) (simp_all add: svc_Reconcile_def)
      then show ?thesis using status [OF w] by simp
    next
      case None
      obtain d1 e1 m2 v2 where i: "reconcileServices (on C k) s (m, v1) = ((d1, e1), (m2, v2))" by (metis prod.collapse)
      note i1 = reconcileServices_effect [OF assms(1) i]
      obtain st m3 v3 where st: "deriveServiceDeploymentState (on C k) s (m2, v2) = (st, (m3, v3))" by (metis prod.collapse)
      obtain x m5 v4 where x: "Get (k_DPUService C) (Namespace s, resourceName (Name s) ''dpuservice'') (m2, v2) = (x, (m5, v4))"
        by (metis prod.collapse)
      have "m3 = m2" using st x kind_store.get [OF kindsD(6) [OF K] x] by (cases x) (auto simp: deriveServiceDeploymentState_def)
      obtain w m4 v4 where w: "chain_status C (s\<lparr>Body := (Body s)\<lparr>sfc_Conditions := stamp_status now ConditionServiceDeployment
          ''Service deployment complete'' st (sfc_Conditions (Body s))\<rparr>\<rparr>) (m2, v3) = (w, (m4, v4))" by (metis prod.collapse)
      have "m' = m2 \<or> m' = m4"
        using p g q s None i st w \<open>m3 = m2\<close> by (cases e1; cases w)
          (auto simp: svc_Reconcile_def deriveAndUpdateServiceStatus_def status_error_def)
      then show ?thesis using i1 status [OF w] q by (auto simp: service_objects_def)
    qed
  qed
qed

section \<open>A server in memory\<close>

definition not_found :: go_error where "not_found = External ''not found''"
definition conflict :: go_error where "conflict = External ''conflict''"
definition exists_already :: go_error where "exists_already = External ''already exists''"

definition mem_lib :: machinery where
  "mem_lib = \<lparr>IsNotFound = (\<lambda>e. e = not_found), IsAlreadyExists = (\<lambda>e. e = exists_already), IsConflict = (\<lambda>e. e = conflict)\<rparr>"

lemmas mem_errors = not_found_def conflict_def exists_already_def mem_lib_def

definition mem_get :: "(api \<Rightarrow> key \<Rightarrow> 'a Object option) \<Rightarrow> key \<Rightarrow> api \<times> unit \<Rightarrow> (go_error + 'a Object) \<times> api \<times> unit" where
  "mem_get view q w = (case view (fst w) q of
      None \<Rightarrow> (Inl not_found, w) | Some x \<Rightarrow> (if okey x = q then Inr x else Inl (External ''corrupt''), w))"

text \<open>An update needs the current resource version; \<open>keep\<close> carries the status over.\<close>

definition mem_kind :: "(api \<Rightarrow> key \<Rightarrow> 'a Object option) \<Rightarrow> ((key \<Rightarrow> 'a Object option) \<Rightarrow> api \<Rightarrow> api) \<Rightarrow> ('a \<Rightarrow> 'a \<Rightarrow> 'a) \<Rightarrow>
    ('a, api \<times> unit) kind_client" where
  "mem_kind view put keep =
     \<lparr>Get = mem_get view,
      Create = (\<lambda>x w. case view (fst w) (okey x) of
          Some _ \<Rightarrow> (Inl exists_already, w)
        | None \<Rightarrow> (let y = x\<lparr>ResourceVersion := ''1''\<rparr> in (Inr y, (put ((view (fst w))(okey x \<mapsto> y)) (fst w), snd w)))),
      Update = (\<lambda>x w. case view (fst w) (okey x) of
          None \<Rightarrow> (Inl not_found, w)
        | Some old \<Rightarrow>
            if ResourceVersion x \<noteq> ResourceVersion old then (Inl conflict, w)
            else (let y = x\<lparr>ResourceVersion := CHR ''1'' # ResourceVersion old, Body := keep (Body old) (Body x)\<rparr> in
                  (Inr y, (put ((view (fst w))(okey x \<mapsto> y)) (fst w), snd w))))\<rparr>"

lemma mem_kind_store:
  assumes "\<And>old new. spec (keep old new) = spec new"
  shows "kind_store mem_lib (mem_kind view put keep) spec view put"
  using assms
  by unfold_locales (auto simp: mem_kind_def mem_get_def mem_errors Let_def okey_def split: option.splits if_splits)

definition keep_conditions :: "StatusBody \<Rightarrow> StatusBody \<Rightarrow> StatusBody" where
  "keep_conditions old new = new\<lparr>Conditions := Conditions old\<rparr>"

definition mem_client :: "(api \<times> unit) Client" where
  "mem_client =
     \<lparr>configs = mem_get cfgs,
      config_status = (\<lambda>x w. case cfgs (fst w) (okey x) of
          None \<Rightarrow> (Some not_found, w)
        | Some old \<Rightarrow>
            if ResourceVersion x \<noteq> ResourceVersion old then (Some conflict, w)
            else (None, ((fst w)\<lparr>cfgs := (cfgs (fst w))(okey x \<mapsto> old\<lparr>ResourceVersion := CHR ''1'' # ResourceVersion old,
                   Body := (Body old)\<lparr>cfg_Conditions := cfg_Conditions (Body x)\<rparr>\<rparr>)\<rparr>, snd w))),
      chains = mem_get sfcs,
      chain_status = (\<lambda>x w. case sfcs (fst w) (okey x) of
          None \<Rightarrow> (Some not_found, w)
        | Some old \<Rightarrow>
            if ResourceVersion x \<noteq> ResourceVersion old then (Some conflict, w)
            else (None, ((fst w)\<lparr>sfcs := (sfcs (fst w))(okey x \<mapsto> old\<lparr>ResourceVersion := CHR ''1'' # ResourceVersion old,
                   Body := (Body old)\<lparr>sfc_Conditions := sfc_Conditions (Body x)\<rparr>\<rparr>)\<rparr>, snd w))),
      list_DPUs = (\<lambda>ns w. (Inr (filter (\<lambda>d. Namespace d = ns) (dpus (fst w))), w)),
      k_DPUCluster = mem_kind clusters (\<lambda>d m. m\<lparr>clusters := d\<rparr>) keep_conditions,
      k_BFB = mem_kind bfbs (\<lambda>d m. m\<lparr>bfbs := d\<rparr>) (\<lambda>_ b. b),
      k_DPUFlavor = mem_kind flavors (\<lambda>d m. m\<lparr>flavors := d\<rparr>) (\<lambda>_ b. b),
      k_DPUSet = mem_kind sets (\<lambda>d m. m\<lparr>sets := d\<rparr>) (\<lambda>old b. b\<lparr>set_Conditions := set_Conditions old\<rparr>),
      k_CredentialRequest = mem_kind creds (\<lambda>d m. m\<lparr>creds := d\<rparr>) (\<lambda>old b. b\<lparr>cred_Conditions := cred_Conditions old\<rparr>),
      k_DPUService = mem_kind services (\<lambda>d m. m\<lparr>services := d\<rparr>) keep_conditions,
      k_DPUServiceChain = mem_kind schains (\<lambda>d m. m\<lparr>schains := d\<rparr>) (\<lambda>_ b. b),
      k_DPUServiceInterface = mem_kind sifaces (\<lambda>d m. m\<lparr>sifaces := d\<rparr>) (\<lambda>_ b. b),
      k_DPUServiceIPAM = mem_kind sipams (\<lambda>d m. m\<lparr>sipams := d\<rparr>) (\<lambda>_ b. b)\<rparr>"

lemma mem_kinds: "kinds mem_lib mem_client"
  by (simp add: kinds_def mem_client_def mem_kind_store keep_conditions_def set_spec_def)

lemma mem_lawful: "lawful mem_lib mem_client"
proof -
  have "reads mem_lib mem_client"
    unfolding reads_def mem_client_def by (auto simp: mem_get_def mem_errors split: option.splits if_splits)
  moreover have "status_writes mem_client"
    unfolding status_writes_def mem_client_def by (auto split: option.splits if_splits)
  ultimately show ?thesis using mem_kinds by (simp add: lawful_def)
qed

interpretation mem_bfb: kind_store mem_lib "k_BFB mem_client" Config bfbs "\<lambda>d m. m\<lparr>bfbs := d\<rparr>"
  by (rule kindsD(2) [OF mem_kinds])

interpretation mem_cluster: kind_store mem_lib "k_DPUCluster mem_client" Config clusters "\<lambda>d m. m\<lparr>clusters := d\<rparr>"
  by (rule kindsD(1) [OF mem_kinds])

interpretation mem_set: kind_store mem_lib "k_DPUSet mem_client" set_spec sets "\<lambda>d m. m\<lparr>sets := d\<rparr>"
  by (rule kindsD(4) [OF mem_kinds])

definition made_config :: "DpuOperatorConfig Object" where
  "made_config = object ''ns'' ''c''
     \<lparr>cfg_Vendor = ''nvidia'', ClusterConfig = [(''a'', ''b'')], ImageConfig = [(''url'', ''x'')], HardwareConfig = [(''m'', ''n'')],
      cfg_NodeSelector = [], cfg_Conditions = []\<rparr>"

definition made_chain :: "ServiceFunctionChain Object" where
  "made_chain = object ''ns'' ''s''
     \<lparr>sfc_Vendor = ''nvidia'', ServiceConfig = [(''p'', ''q'')],
      Networking = Some \<lparr>ChainConfig = [], InterfaceConfig = [(''if'', ''0'')], IPAMConfig = []\<rparr>, sfc_Conditions = []\<rparr>"

definition dpf_ready :: "Condition list" where
  "dpf_ready = [\<lparr>Type = DPFConditionReady, Status = ''True'', Reason = '''', Message = '''', LastTransitionTime = 0\<rparr>]"

text \<open>A world whose cluster and DPU are ready, and nothing else is made yet.\<close>

definition made_world :: api where
  "made_world = \<lparr>cfgs = [okey made_config \<mapsto> made_config], sfcs = [okey made_chain \<mapsto> made_chain],
     dpus = [object ''ns'' ''d'' dpf_ready],
     clusters = [cluster_key (okey made_config) \<mapsto> (buildDesiredDPUCluster made_config)\<lparr>Body := \<lparr>Config = [(''a'', ''b'')], Conditions = dpf_ready\<rparr>\<rparr>],
     bfbs = Map.empty, flavors = Map.empty, sets = Map.empty, creds = Map.empty, services = Map.empty,
     schains = Map.empty, sifaces = Map.empty, sipams = Map.empty\<rparr>"

definition infra_pass :: "time \<Rightarrow> api \<Rightarrow> (api \<times> unit) pass" where
  "infra_pass now m = Reconcile (on mem_client mem_lib) now (okey made_config) (m, ())"

definition service_pass :: "time \<Rightarrow> api \<Rightarrow> (api \<times> unit) pass" where
  "service_pass now m = svc_Reconcile (on mem_client mem_lib) now (okey made_chain) (m, ())"

definition infra_after :: "time \<Rightarrow> api \<Rightarrow> api" where "infra_after now m = fst (snd (infra_pass now m))"
definition service_after :: "time \<Rightarrow> api \<Rightarrow> api" where "service_after now m = fst (snd (service_pass now m))"

lemma infra_pass_eq: "fst (infra_pass now m) = (d, e) \<Longrightarrow>
    Reconcile (on mem_client mem_lib) now (okey made_config) (m, ()) = ((d, e), (infra_after now m, ()))"
  by (cases "infra_pass now m") (simp add: infra_pass_def infra_after_def)

lemma service_pass_eq: "fst (service_pass now m) = (d, e) \<Longrightarrow>
    svc_Reconcile (on mem_client mem_lib) now (okey made_chain) (m, ()) = ((d, e), (service_after now m, ()))"
  by (cases "service_pass now m") (simp add: service_pass_def service_after_def)

lemma infra_runs:
  "fst (infra_pass 0 made_world) = (0, None)"
  "fst (infra_pass second (infra_after 0 made_world)) = (0, None)"
  by code_simp+

lemma infra_makes_set: "sets (infra_after 0 made_world) (''ns'', ''c-dpuset'') \<noteq> None"
  by code_simp

lemma made_valid: "cfgs made_world (okey made_config) = Some made_config" "valid_config (Body made_config)"
  by code_simp+

lemma service_runs: "fst (service_pass 0 made_world) = (0, None)"
  by code_simp

lemma service_makes_service: "services (service_after 0 made_world) (''ns'', ''s-dpuservice'') \<noteq> None"
  by code_simp

theorem set_waits_for_cluster_witness:
  "infrastructure (okey made_config) (Body made_config) (infra_after 0 made_world) \<and>
   ready_cluster (okey made_config) (infra_after 0 made_world)"
proof -
  have "sets (infra_after 0 made_world) (''ns'', ''c-dpuset'') \<noteq> sets made_world (''ns'', ''c-dpuset'')"
    using infra_makes_set by (simp add: made_world_def)
  then have "sets (infra_after 0 made_world) \<noteq> sets made_world \<or> creds (infra_after 0 made_world) \<noteq> creds made_world" by metis
  from set_waits_for_cluster [OF mem_lawful infra_pass_eq [OF infra_runs(1)] this] show ?thesis
    using made_valid(1) by simp
qed

theorem ready_means_provisioned_witness:
  "ready_status (stored_status (okey made_config) (infra_after 0 made_world)) \<and>
   some_dpu_ready (fst (okey made_config)) (infra_after 0 made_world)"
proof -
  have "stored_status (okey made_config) (infra_after 0 made_world) =
      stamp_status 0 ConditionProvisioning ''Infrastructure provisioning complete'' (''True'', ''Provisioned'', ratio 1 1) []"
    by code_simp
  then have "ready_status (stored_status (okey made_config) (infra_after 0 made_world))" by (simp add: stamp_ready)
  then show ?thesis
    using ready_means_provisioned [OF mem_lawful infra_pass_eq [OF infra_runs(1)] made_valid] by simp
qed

theorem status_never_rests_witness:
  "stored_status (okey made_config) (infra_after second (infra_after 0 made_world)) \<noteq>
   stored_status (okey made_config) (infra_after 0 made_world)"
proof -
  have "(0 :: time) div second div 86400 = second div second div 86400" "(0 :: time) div second \<noteq> second div second"
    by code_simp+
  from status_never_rests [OF mem_lawful this infra_pass_eq [OF infra_runs(1)] made_valid infra_pass_eq [OF infra_runs(2)]]
  show ?thesis .
qed

theorem services_wait_for_dpu_witness:
  "services (service_after 0 made_world) \<noteq> services made_world \<and> some_dpu_ready (fst (okey made_chain)) made_world"
proof -
  have "services (service_after 0 made_world) (''ns'', ''s-dpuservice'') \<noteq> services made_world (''ns'', ''s-dpuservice'')"
    using service_makes_service by (simp add: made_world_def)
  then have d: "services (service_after 0 made_world) \<noteq> services made_world" by metis
  then show ?thesis
    using services_wait_for_dpu [OF mem_lawful service_pass_eq [OF service_runs]] by (simp add: service_objects_def)
qed

text \<open>
  The comparison the pass makes can miss a change: here two configurations differ and read the same, and
  the image stays as it was.\<close>

definition edited_config :: "DpuOperatorConfig Object" where
  "edited_config = made_config\<lparr>Body := (Body made_config)\<lparr>ImageConfig := [(''url'', ''x''), (''b'', ''y'')]\<rparr>\<rparr>"

definition stale_bfb :: "ConfigBody Object" where
  "stale_bfb = object ''ns'' ''c-bfb'' \<lparr>Config = [(''b'', ''y url:x'')]\<rparr>"

lemma stale_image_kept:
  "fst (ensureBFB (on mem_client mem_lib) edited_config (made_world\<lparr>bfbs := [okey stale_bfb \<mapsto> stale_bfb]\<rparr>, ())) = Inr stale_bfb"
  "map_of (Config (Body stale_bfb)) \<noteq> map_of (ImageConfig (Body edited_config))"
proof -
  show "fst (ensureBFB (on mem_client mem_lib) edited_config (made_world\<lparr>bfbs := [okey stale_bfb \<mapsto> stale_bfb]\<rparr>, ())) = Inr stale_bfb"
    by code_simp
  have "map_of (Config (Body stale_bfb)) ''url'' \<noteq> map_of (ImageConfig (Body edited_config)) ''url''"
    by code_simp
  then show "map_of (Config (Body stale_bfb)) \<noteq> map_of (ImageConfig (Body edited_config))" by metis
qed


end
