(* ===== verification/ShimGates.thy ===== *)
theory ShimGates
  imports FmtText
begin

text \<open>
  \<open>yash-pratap-singh/feature_skeleton.go\<close>: the translation reconciler over unstructured objects, with its
  two gates.  An object is what its accessors read, around the content under \<open>spec\<close> and \<open>status\<close>; the
  accessors of the package \<open>unstructured\<close>, \<open>controllerutil\<close> and the client are arguments.
\<close>

section \<open>Objects\<close>

record GroupVersionKind =
  Group :: string
  Version :: string
  Kind :: string

record Object =
  GVK :: GroupVersionKind
  Name :: string
  Namespace :: string
  UID :: string
  ResourceVersion :: string
  Generation :: int
  DeletionTimestamp :: "time option"
  Finalizers :: "string list"
  Annotations :: "string gomap"
  Labels :: "string gomap"
  Content :: "json gomap"

record Condition =
  Type :: string
  Status :: string
  Reason :: string
  Message :: string
  ObservedGeneration :: int

definition FieldManager :: string where "FieldManager = ''opi-dpf-translator-shim''"
definition AnnotationOwnerUID :: string where "AnnotationOwnerUID = ''opi.openshift.io/uid''"
definition AnnotationOwnerName :: string where "AnnotationOwnerName = ''opi.openshift.io/owning-sfc-name''"
definition AnnotationOwnerNamespace :: string where "AnnotationOwnerNamespace = ''opi.openshift.io/owning-sfc-namespace''"
definition LabelOwningSFCUID :: string where "LabelOwningSFCUID = ''opi.openshift.io/owning-sfc-uid''"
definition FinalizerNVIDIA :: string where "FinalizerNVIDIA = ''dpu.openshift.io/nvidia-cleanup''"
definition condReady :: string where "condReady = ''Ready''"
definition reasonWaitingDPF :: string where "reasonWaitingDPF = ''WaitingOnDPF''"
definition reasonReady :: string where "reasonReady = ''ComponentsReady''"
definition reasonProgress :: string where "reasonProgress = ''Progressing''"
definition requeueSteadyState :: duration where "requeueSteadyState = 2 * minute"
definition requeueProgressing :: duration where "requeueProgressing = 15 * second"

definition sfcGVK :: GroupVersionKind where
  "sfcGVK = \<lparr>Group = ''config.openshift.io'', Version = ''v1'', Kind = ''ServiceFunctionChain''\<rparr>"
definition dpuServiceGVK :: GroupVersionKind where
  "dpuServiceGVK = \<lparr>Group = ''svc.dpu.nvidia.com'', Version = ''v1alpha1'', Kind = ''DPUService''\<rparr>"
definition dpuServiceChainGVK :: GroupVersionKind where
  "dpuServiceChainGVK = \<lparr>Group = ''svc.dpu.nvidia.com'', Version = ''v1alpha1'', Kind = ''DPUServiceChain''\<rparr>"

lemmas sfc_gvk_defs = dpuServiceGVK_def dpuServiceChainGVK_def
lemmas shim_reason_defs = condReady_def reasonWaitingDPF_def reasonReady_def reasonProgress_def

text \<open>
  The accessors: \<open>None\<close> where they report an error or nothing found, which the code never tells apart.
  A setter gives the new content; \<open>SetNestedSlice\<close> leaves the content as it was when it fails.\<close>

record machinery =
  NestedSlice :: "json gomap \<Rightarrow> string list \<Rightarrow> json list option"
  NestedString :: "json gomap \<Rightarrow> string list \<Rightarrow> string option"
  NestedInt64 :: "json gomap \<Rightarrow> string list \<Rightarrow> int option"
  SetNestedField :: "json gomap \<Rightarrow> string \<Rightarrow> string list \<Rightarrow> go_error + json gomap"
  SetNestedStringMap :: "json gomap \<Rightarrow> string gomap \<Rightarrow> string list \<Rightarrow> go_error + json gomap"
  SetNestedSlice :: "json gomap \<Rightarrow> json list \<Rightarrow> string list \<Rightarrow> json gomap"
  Quote :: "string \<Rightarrow> string"
  IsNotFound :: "go_error \<Rightarrow> bool"
  ContainsFinalizer :: "string list \<Rightarrow> string \<Rightarrow> bool"
  AddFinalizer :: "string list \<Rightarrow> string \<Rightarrow> string list"
  RemoveFinalizer :: "string list \<Rightarrow> string \<Rightarrow> string list"

definition IgnoreNotFound :: "machinery \<Rightarrow> go_error \<Rightarrow> go_error option" where
  "IgnoreNotFound k e = (if IsNotFound k e then None else Some e)"

record 'w Client =
  get_SFC :: "string \<times> string \<Rightarrow> 'w \<Rightarrow> (go_error + Object) \<times> 'w"
  update_SFC :: "Object \<Rightarrow> 'w \<Rightarrow> go_error option \<times> 'w"
  status_SFC :: "Object \<Rightarrow> 'w \<Rightarrow> go_error option \<times> 'w"
  apply_child :: "string \<Rightarrow> Object \<Rightarrow> 'w \<Rightarrow> go_error option \<times> 'w"
  list_children :: "GroupVersionKind \<Rightarrow> string \<Rightarrow> string \<times> string \<Rightarrow> 'w \<Rightarrow> (go_error + Object list) \<times> 'w"
  delete_child :: "Object \<Rightarrow> 'w \<Rightarrow> go_error option \<times> 'w"

record 'w SfcTranslationReconciler =
  rec_Client :: "'w Client"
  DPFNamespace :: string
  rec_lib :: machinery

definition is_zero_time :: "time option \<Rightarrow> bool" where
  "is_zero_time t = (case t of None \<Rightarrow> True | Some x \<Rightarrow> x = zero_time)"

section \<open>Decisions\<close>

record dpfChildStatus =
  ch_Name :: string
  ch_Generation :: int
  ch_ObservedGeneration :: int
  ReadyStatus :: string

definition dpfConverged :: "dpfChildStatus \<Rightarrow> bool" where
  "dpfConverged c = (0 < ch_Generation c \<and> ch_Generation c \<le> ch_ObservedGeneration c)"

definition not_reconciled :: "machinery \<Rightarrow> dpfChildStatus \<Rightarrow> string" where
  "not_reconciled k c =
     ''DPF child '' @ Quote k (ch_Name c) @ '' not reconciled (observedGeneration '' @ itoa (ch_ObservedGeneration c) @
     '' < generation '' @ itoa (ch_Generation c) @ '')''"

definition buildTargetConditions :: "machinery \<Rightarrow> dpfChildStatus list \<Rightarrow> int \<Rightarrow> Condition list" where
  "buildTargetConditions k children opiGeneration =
     (let ready = (\<lambda>status reason message. [\<lparr>Type = condReady, Status = status, Reason = reason, Message = message,
                      ObservedGeneration = opiGeneration\<rparr>])
      in if children = [] then ready ''False'' reasonProgress ''no DPF children observed yet''
         else case find (\<lambda>c. \<not> dpfConverged c) children of
           Some c \<Rightarrow> ready ''False'' reasonWaitingDPF (not_reconciled k c)
         | None \<Rightarrow>
             if list_ex (\<lambda>c. ReadyStatus c \<noteq> ''True'') children
             then ready ''False'' reasonProgress ''DPF children converged but not all Ready''
             else ready ''True'' reasonReady ''all DPF children ready'')"

text \<open>The last condition of a type wins in the index, as in the loop that fills it.\<close>

definition index_by_type :: "Condition list \<Rightarrow> string \<Rightarrow> Condition option" where
  "index_by_type a = fold (\<lambda>c m. m(Type c \<mapsto> c)) a Map.empty"

definition same_meaning :: "Condition \<Rightarrow> Condition \<Rightarrow> bool" where
  "same_meaning p c = (Status p = Status c \<and> Reason p = Reason c \<and> Message p = Message c \<and> ObservedGeneration p = ObservedGeneration c)"

definition conditionsSemanticallyEqual :: "Condition list \<Rightarrow> Condition list \<Rightarrow> bool" where
  "conditionsSemanticallyEqual a b =
     (length a = length b \<and>
      list_all (\<lambda>c. case index_by_type a (Type c) of None \<Rightarrow> False | Some p \<Rightarrow> same_meaning p c) b)"

section \<open>Reading and writing unstructured content\<close>

definition text_of :: "string option \<Rightarrow> string" where "text_of s = (case s of None \<Rightarrow> '''' | Some t \<Rightarrow> t)"
definition number_of :: "int option \<Rightarrow> int" where "number_of n = (case n of None \<Rightarrow> 0 | Some i \<Rightarrow> i)"

definition status_conditions :: "string list" where "status_conditions = [''status'', ''conditions'']"

definition childObservedGeneration :: "machinery \<Rightarrow> Object \<Rightarrow> int" where
  "childObservedGeneration k u = number_of (NestedInt64 k (Content u) [''status'', ''observedGeneration''])"

fun ready_in :: "machinery \<Rightarrow> json list \<Rightarrow> string" where
  "ready_in k [] = ''''"
| "ready_in k (JObject m # js) =
     (if text_of (NestedString k m [''type'']) = condReady then text_of (NestedString k m [''status'']) else ready_in k js)"
| "ready_in k (_ # js) = ready_in k js"

definition childReadyStatus :: "machinery \<Rightarrow> Object \<Rightarrow> string" where
  "childReadyStatus k u = (case NestedSlice k (Content u) status_conditions of None \<Rightarrow> '''' | Some cs \<Rightarrow> ready_in k cs)"

definition childStatusOf :: "machinery \<Rightarrow> Object \<Rightarrow> dpfChildStatus" where
  "childStatusOf k u = \<lparr>ch_Name = Name u, ch_Generation = Generation u,
     ch_ObservedGeneration = childObservedGeneration k u, ReadyStatus = childReadyStatus k u\<rparr>"

definition condition_of :: "machinery \<Rightarrow> json gomap \<Rightarrow> Condition" where
  "condition_of k m = \<lparr>Type = text_of (NestedString k m [''type'']), Status = text_of (NestedString k m [''status'']),
     Reason = text_of (NestedString k m [''reason'']), Message = text_of (NestedString k m [''message'']),
     ObservedGeneration = number_of (NestedInt64 k m [''observedGeneration''])\<rparr>"

definition extractConditions :: "machinery \<Rightarrow> Object \<Rightarrow> Condition list" where
  "extractConditions k u =
     (case NestedSlice k (Content u) status_conditions of
        None \<Rightarrow> []
      | Some raw \<Rightarrow> List.map_filter (\<lambda>j. case j of JObject m \<Rightarrow> Some (condition_of k m) | _ \<Rightarrow> None) raw)"

definition raw_condition :: "time \<Rightarrow> Condition \<Rightarrow> json gomap" where
  "raw_condition now c =
     [(''type'', JString (Type c)), (''status'', JString (Status c)), (''reason'', JString (Reason c)),
      (''message'', JString (Message c)), (''observedGeneration'', JNumber (ObservedGeneration c)),
      (''lastTransitionTime'', JString (rfc3339 now))]"

definition setConditions :: "machinery \<Rightarrow> time \<Rightarrow> Object \<Rightarrow> Condition list \<Rightarrow> Object" where
  "setConditions k now u conds =
     u\<lparr>Content := SetNestedSlice k (Content u) (map (\<lambda>c. JObject (raw_condition now c)) conds) status_conditions\<rparr>"

text \<open>An object that is not unstructured is \<open>None\<close>.\<close>

definition dpfStatusChanged :: "machinery \<Rightarrow> Object option \<Rightarrow> Object option \<Rightarrow> bool" where
  "dpfStatusChanged k old new =
     (case (old, new) of
        (Some oldU, Some newU) \<Rightarrow>
          childObservedGeneration k oldU \<noteq> childObservedGeneration k newU \<or> childReadyStatus k oldU \<noteq> childReadyStatus k newU
      | _ \<Rightarrow> True)"

text \<open>A request: namespace and name.\<close>

definition mapDPFChildToSFC :: "Object \<Rightarrow> (string \<times> string) list" where
  "mapDPFChildToSFC obj =
     (let name = str_at (Annotations obj) AnnotationOwnerName; ns = str_at (Annotations obj) AnnotationOwnerNamespace
      in if name = '''' \<or> ns = '''' then [] else [(ns, name)])"

section \<open>Translation\<close>

definition firstNetworkFunctionImage :: "machinery \<Rightarrow> Object \<Rightarrow> string" where
  "firstNetworkFunctionImage k sfc =
     (case NestedSlice k (Content sfc) [''spec'', ''networkFunctions''] of
        Some (JObject m # _) \<Rightarrow> text_of (NestedString k m [''image''])
      | _ \<Rightarrow> '''')"

definition newDPFChild :: "GroupVersionKind \<Rightarrow> string \<Rightarrow> string \<Rightarrow> Object \<Rightarrow> Object" where
  "newDPFChild gvk name namespace sfc =
     \<lparr>GVK = gvk, Name = name, Namespace = namespace, UID = '''', ResourceVersion = '''', Generation = 0, DeletionTimestamp = None, Finalizers = [],
      Annotations = [(AnnotationOwnerUID, UID sfc), (AnnotationOwnerName, Name sfc), (AnnotationOwnerNamespace, Namespace sfc)],
      Labels = [(LabelOwningSFCUID, UID sfc)], Content = []\<rparr>"

definition translateServiceFunctionChain :: "machinery \<Rightarrow> Object \<Rightarrow> string \<Rightarrow> go_error + Object list" where
  "translateServiceFunctionChain k sfc dpfNamespace =
     (let dpuService = newDPFChild dpuServiceGVK (Name sfc @ ''-svc'') dpfNamespace sfc in
      case SetNestedField k (Content dpuService) (firstNetworkFunctionImage k sfc) [''spec'', ''image''] of
        Inl err \<Rightarrow> Inl err
      | Inr svc_content \<Rightarrow>
          (let dpuServiceChain = newDPFChild dpuServiceChainGVK (Name sfc @ ''-chain'') dpfNamespace sfc in
           case SetNestedStringMap k (Content dpuServiceChain) [(LabelOwningSFCUID, UID sfc)]
                  [''spec'', ''clusterSelector'', ''matchLabels''] of
             Inl err \<Rightarrow> Inl err
           | Inr chain_content \<Rightarrow>
               Inr [dpuService\<lparr>Content := svc_content\<rparr>, dpuServiceChain\<lparr>Content := chain_content\<rparr>]))"

section \<open>The reconciler\<close>

definition newList :: "GroupVersionKind \<Rightarrow> GroupVersionKind" where
  "newList gvk = gvk\<lparr>Kind := Kind gvk @ ''List''\<rparr>"

definition list_owned :: "'w SfcTranslationReconciler \<Rightarrow> Object \<Rightarrow> GroupVersionKind \<Rightarrow> 'w \<Rightarrow> (go_error + Object list) \<times> 'w" where
  "list_owned r sfc gvk = list_children (rec_Client r) (newList gvk) (DPFNamespace r) (LabelOwningSFCUID, UID sfc)"

fun observe_kinds :: "'w SfcTranslationReconciler \<Rightarrow> Object \<Rightarrow> GroupVersionKind list \<Rightarrow> 'w \<Rightarrow> (go_error + dpfChildStatus list) \<times> 'w" where
  "observe_kinds r sfc [] w = (Inr [], w)"
| "observe_kinds r sfc (gvk # gvks) w =
     (case list_owned r sfc gvk w of
        (Inl err, w1) \<Rightarrow> (Inl err, w1)
      | (Inr items, w1) \<Rightarrow>
          (case observe_kinds r sfc gvks w1 of
             (Inl err, w2) \<Rightarrow> (Inl err, w2)
           | (Inr out, w2) \<Rightarrow> (Inr (map (childStatusOf (rec_lib r)) items @ out), w2)))"

definition observeChildren :: "'w SfcTranslationReconciler \<Rightarrow> Object \<Rightarrow> 'w \<Rightarrow> (go_error + dpfChildStatus list) \<times> 'w" where
  "observeChildren r sfc = observe_kinds r sfc [dpuServiceGVK, dpuServiceChainGVK]"

definition delete_item :: "'w SfcTranslationReconciler \<Rightarrow> Object \<Rightarrow> 'w \<Rightarrow> go_error option \<times> 'w" where
  "delete_item r x w =
     (case delete_child (rec_Client r) x w of
        (None, w1) \<Rightarrow> (None, w1)
      | (Some err, w1) \<Rightarrow> (if IsNotFound (rec_lib r) err then None else Some err, w1))"

text \<open>The number of the children that were found, or the error it stopped at.\<close>

fun delete_kinds :: "'w SfcTranslationReconciler \<Rightarrow> Object \<Rightarrow> GroupVersionKind list \<Rightarrow> nat \<Rightarrow> 'w \<Rightarrow> (go_error + nat) \<times> 'w" where
  "delete_kinds r sfc [] remaining w = (Inr remaining, w)"
| "delete_kinds r sfc (gvk # gvks) remaining w =
     (case list_owned r sfc gvk w of
        (Inl err, w1) \<Rightarrow> (Inl err, w1)
      | (Inr items, w1) \<Rightarrow>
          (case each_until_err (delete_item r) items w1 of
             (Some (_, err), w2) \<Rightarrow> (Inl err, w2)
           | (None, w2) \<Rightarrow> delete_kinds r sfc gvks (remaining + length items) w2))"

type_synonym 'w pass = "((duration \<times> bool) \<times> go_error option) \<times> 'w"

definition no_requeue :: "duration \<times> bool" where "no_requeue = (0, False)"

definition reconcileDelete :: "'w SfcTranslationReconciler \<Rightarrow> Object \<Rightarrow> 'w \<Rightarrow> 'w pass" where
  "reconcileDelete r sfc w =
     (case delete_kinds r sfc [dpuServiceGVK, dpuServiceChainGVK] 0 w of
        (Inl err, w1) \<Rightarrow> ((no_requeue, Some err), w1)
      | (Inr remaining, w1) \<Rightarrow>
          if 0 < remaining then (((requeueProgressing, False), None), w1)
          else (case update_SFC (rec_Client r)
                       (sfc\<lparr>Finalizers := RemoveFinalizer (rec_lib r) (Finalizers sfc) FinalizerNVIDIA\<rparr>) w1 of
                  (e, w2) \<Rightarrow> ((no_requeue, e), w2)))"

definition apply_one :: "'w SfcTranslationReconciler \<Rightarrow> Object \<Rightarrow> 'w \<Rightarrow> go_error option \<times> 'w" where
  "apply_one r child w =
     (case apply_child (rec_Client r) FieldManager child w of
        (None, w1) \<Rightarrow> (None, w1)
      | (Some err, w1) \<Rightarrow> (Some (Errorf ''SSA apply %s/%s: %w'' [AStr (Kind (GVK child)), AStr (Name child), AWrap err]), w1))"

text \<open>The second half of a pass: observe, and write the status unless it says so already.\<close>

definition mirror_status :: "'w SfcTranslationReconciler \<Rightarrow> time \<Rightarrow> Object \<Rightarrow> 'w \<Rightarrow> 'w pass" where
  "mirror_status r now sfc w =
     (case observeChildren r sfc w of
        (Inl err, w1) \<Rightarrow> ((no_requeue, Some err), w1)
      | (Inr statuses, w1) \<Rightarrow>
          (let target = buildTargetConditions (rec_lib r) statuses (Generation sfc); current = extractConditions (rec_lib r) sfc
           in if conditionsSemanticallyEqual current target then (((requeueSteadyState, False), None), w1)
              else (case status_SFC (rec_Client r) (setConditions (rec_lib r) now sfc target) w1 of
                      (Some err, w2) \<Rightarrow> ((no_requeue, Some err), w2)
                    | (None, w2) \<Rightarrow> (((requeueProgressing, False), None), w2))))"

definition Reconcile :: "'w SfcTranslationReconciler \<Rightarrow> time \<Rightarrow> string \<times> string \<Rightarrow> 'w \<Rightarrow> 'w pass" where
  "Reconcile r now req w =
     (case get_SFC (rec_Client r) req w of
        (Inl err, w1) \<Rightarrow> ((no_requeue, IgnoreNotFound (rec_lib r) err), w1)
      | (Inr sfc, w1) \<Rightarrow>
          if \<not> is_zero_time (DeletionTimestamp sfc) then reconcileDelete r sfc w1
          else if \<not> ContainsFinalizer (rec_lib r) (Finalizers sfc) FinalizerNVIDIA
          then (case update_SFC (rec_Client r)
                       (sfc\<lparr>Finalizers := AddFinalizer (rec_lib r) (Finalizers sfc) FinalizerNVIDIA\<rparr>) w1 of
                  (Some err, w2) \<Rightarrow> ((no_requeue, Some err), w2)
                | (None, w2) \<Rightarrow> (((0, True), None), w2))
          else case translateServiceFunctionChain (rec_lib r) sfc (DPFNamespace r) of
            Inl err \<Rightarrow> ((no_requeue, Some err), w1)
          | Inr children \<Rightarrow>
              (case each_until_err (apply_one r) children w1 of
                 (Some (_, err), w2) \<Rightarrow> ((no_requeue, Some err), w2)
               | (None, w2) \<Rightarrow> mirror_status r now sfc w2))"

end
