(* ===== verification/ShimCluster.thy ===== *)
theory ShimCluster
  imports ShimGates "HOL-Library.Multiset"
begin

text \<open>
  What the translation reconciler of \<open>ShimGates\<close> promises: the two gates exactly, and, over an API server
  with the laws of server-side apply, that a pass leaves the status of the children, that the next pass
  writes nothing, and that the finalizer outlives the children.
\<close>

section \<open>The gates\<close>

lemma ready_needs_converged:
  "\<exists>c. buildTargetConditions k children g = [c] \<and> Type c = condReady \<and> ObservedGeneration c = g \<and>
      (Status c = ''True'' \<longleftrightarrow> children \<noteq> [] \<and> (\<forall>x \<in> set children. dpfConverged x \<and> ReadyStatus x = ''True''))"
proof (cases "find (\<lambda>c. \<not> dpfConverged c) children")
  case None
  then have "\<forall>x \<in> set children. dpfConverged x" by (simp add: find_None_iff)
  then show ?thesis using None by (auto simp: buildTargetConditions_def Let_def list_ex_iff)
next
  case (Some y)
  then have "\<exists>x \<in> set children. \<not> dpfConverged x" by (auto simp: find_Some_iff)
  then show ?thesis using Some by (auto simp: buildTargetConditions_def Let_def)
qed

lemma index_by_type_find: "index_by_type a t = find (\<lambda>c. Type c = t) (rev a)"
  unfolding index_by_type_def by (induction a rule: rev_induct) simp_all

lemma find_member: "find P xs = Some x \<Longrightarrow> x \<in> set xs \<and> P x"
  by (induction xs) (auto split: if_splits)

lemma index_by_type_distinct:
  assumes "distinct (map Type a)" and "c \<in> set a"
  shows "index_by_type a (Type c) = Some c"
proof -
  have "find (\<lambda>d. Type d = Type c) (rev a) \<noteq> None" using assms(2) by (auto simp: find_None_iff)
  then obtain d where d: "find (\<lambda>d. Type d = Type c) (rev a) = Some d" by blast
  then have "d \<in> set a" "Type d = Type c" using find_member [OF d] by simp_all
  then have "d = c" using assms by (metis inj_onD distinct_map)
  then show ?thesis using d by (simp add: index_by_type_find)
qed

lemma same_meaning_eq: "Type p = Type c \<Longrightarrow> same_meaning p c \<longleftrightarrow> p = c"
  by (auto simp: same_meaning_def)

lemma equality_gate:
  assumes "distinct (map Type b)"
  shows "conditionsSemanticallyEqual a b \<longleftrightarrow> mset a = mset b"
proof
  assume e: "conditionsSemanticallyEqual a b"
  have sub: "set b \<subseteq> set a"
  proof
    fix c assume "c \<in> set b"
    then obtain p where p: "index_by_type a (Type c) = Some p" "same_meaning p c"
      using e by (auto simp: conditionsSemanticallyEqual_def list_all_iff split: option.splits)
    then have "p \<in> set a" "Type p = Type c" using find_member [of _ "rev a"] by (auto simp: index_by_type_find)
    then show "c \<in> set a" using p(2) same_meaning_eq by metis
  qed
  have l: "length a = length b" using e by (simp add: conditionsSemanticallyEqual_def)
  have d: "distinct b" using assms by (simp add: distinct_map)
  then have "card (set b) = length a" using l distinct_card by metis
  moreover have "card (set b) \<le> card (set a)" "card (set a) \<le> length a" using sub by (simp_all add: card_mono card_length)
  ultimately have "card (set a) = length a" "set a = set b" using sub by (simp_all add: card_subset_eq [symmetric])
  then show "mset a = mset b" using d card_distinct set_eq_iff_mset_eq_distinct by metis
next
  assume m: "mset a = mset b"
  then have "distinct (map Type a)" using assms by (metis mset_eq_imp_distinct_iff mset_map)
  moreover have "set a = set b" "length a = length b" using m by (metis set_mset_mset, metis size_mset)
  ultimately show "conditionsSemanticallyEqual a b"
    by (auto simp: conditionsSemanticallyEqual_def list_all_iff index_by_type_distinct same_meaning_def)
qed

text \<open>Two stored objects of different chains: the names of a chain's objects do not hold its namespace.\<close>

definition kid_key :: "Object \<Rightarrow> GroupVersionKind \<times> string \<times> string" where
  "kid_key x = (GVK x, Namespace x, Name x)"

lemma translation_shape:
  assumes "translateServiceFunctionChain k s ns = Inr xs"
  shows "\<exists>a b. xs = [a, b] \<and> kid_key a = (dpuServiceGVK, ns, Name s @ ''-svc'') \<and> kid_key b = (dpuServiceChainGVK, ns, Name s @ ''-chain'') \<and>
    Labels a = [(LabelOwningSFCUID, UID s)] \<and> Labels b = [(LabelOwningSFCUID, UID s)]"
  using assms by (auto simp: translateServiceFunctionChain_def Let_def newDPFChild_def kid_key_def split: sum.splits)

text \<open>
  Chains share their objects exactly when they have the same name, in whatever namespaces they are; the
  owner label of a shared object can name one of them only.\<close>

theorem equal_names_share_objects:
  assumes "translateServiceFunctionChain k s ns = Inr xs" and "translateServiceFunctionChain k t ns = Inr ys"
  shows "kid_key ` set xs \<inter> kid_key ` set ys \<noteq> {} \<longleftrightarrow> Name s = Name t"
proof -
  have "dpuServiceGVK \<noteq> dpuServiceChainGVK" by (simp add: sfc_gvk_defs)
  then show ?thesis using translation_shape [OF assms(1)] translation_shape [OF assms(2)] by auto
qed

section \<open>An API server with server-side apply\<close>

type_synonym key = "string \<times> string"

definition sfc_key :: "Object \<Rightarrow> key" where "sfc_key x = (Namespace x, Name x)"

record api =
  sfcs :: "key \<Rightarrow> Object option"
  kids :: "Object list"

definition owned :: "GroupVersionKind \<Rightarrow> string \<Rightarrow> string \<Rightarrow> api \<Rightarrow> Object list" where
  "owned gvk ns u m = filter (\<lambda>x. GVK x = gvk \<and> Namespace x = ns \<and> map_of (Labels x) LabelOwningSFCUID = Some u) (kids m)"

text \<open>The documented behaviour of the accessors and of the finalizer helpers.\<close>

definition accessors :: "machinery \<Rightarrow> bool" where
  "accessors k =
     ((\<forall>m f. NestedString k m [f] = (case map_of m f of Some (JString s) \<Rightarrow> Some s | _ \<Rightarrow> None)) \<and>
      (\<forall>m f. NestedInt64 k m [f] = (case map_of m f of Some (JNumber i) \<Rightarrow> Some i | _ \<Rightarrow> None)) \<and>
      (\<forall>c xs. (\<forall>j. map_of c ''status'' = Some j \<longrightarrow> (\<exists>m. j = JObject m)) \<longrightarrow>
          NestedSlice k (SetNestedSlice k c xs status_conditions) status_conditions = Some xs))"

definition finalizer_lib :: "machinery \<Rightarrow> bool" where
  "finalizer_lib k =
     ((\<forall>fs f. ContainsFinalizer k fs f = (f \<in> set fs)) \<and> (\<forall>fs f. set (AddFinalizer k fs f) = insert f (set fs)) \<and>
      (\<forall>fs f. set (RemoveFinalizer k fs f) = set fs - {f}))"

definition network_functions :: "string list" where "network_functions = [''spec'', ''networkFunctions'']"

text \<open>What a chain's children and its target look like in the server.\<close>

definition child_statuses :: "machinery \<Rightarrow> string \<Rightarrow> string \<Rightarrow> api \<Rightarrow> dpfChildStatus list" where
  "child_statuses k ns u m = map (childStatusOf k) (owned dpuServiceGVK ns u m @ owned dpuServiceChainGVK ns u m)"

definition target_of :: "machinery \<Rightarrow> string \<Rightarrow> Object \<Rightarrow> api \<Rightarrow> Condition list" where
  "target_of k ns s m = buildTargetConditions k (child_statuses k ns (UID s) m) (Generation s)"

lemma target_single: "\<exists>c. target_of k ns s m = [c]"
  unfolding target_of_def using ready_needs_converged by blast

text \<open>The status of the object is a JSON object, or not there yet, as its schema demands.\<close>

definition status_object :: "Object \<Rightarrow> bool" where
  "status_object s = (\<forall>j. map_of (Content s) ''status'' = Some j \<longrightarrow> (\<exists>m. j = JObject m))"

lemma condition_roundtrip:
  assumes "accessors k"
  shows "condition_of k (raw_condition now c) = c"
proof -
  have s: "NestedString k m [f] = (case map_of m f of Some (JString t) \<Rightarrow> Some t | _ \<Rightarrow> None)"
    "NestedInt64 k m [f] = (case map_of m f of Some (JNumber i) \<Rightarrow> Some i | _ \<Rightarrow> None)" for m f
    using assms unfolding accessors_def by blast+
  show ?thesis unfolding condition_of_def s by (cases c) (simp add: raw_condition_def text_of_def number_of_def)
qed

lemma extract_set:
  assumes "accessors k" and "status_object s"
  shows "extractConditions k (setConditions k now s conds) = conds"
proof -
  have "NestedSlice k (SetNestedSlice k (Content s) xs status_conditions) status_conditions = Some xs" for xs
    using assms unfolding accessors_def status_object_def by blast
  moreover have "List.map_filter (\<lambda>j. case j of JObject m \<Rightarrow> Some (condition_of k m) | _ \<Rightarrow> None)
      (map (\<lambda>c. JObject (raw_condition now c)) conds) = conds"
    by (induction conds) (simp_all add: condition_roundtrip [OF assms(1)])
  ultimately show ?thesis by (simp add: extractConditions_def setConditions_def)
qed

text \<open>
  The laws.  \<open>covers o x\<close>: the stored object \<open>x\<close> holds what the last application of \<open>o\<close> wrote, so that
  applying \<open>o\<close> once more changes nothing.\<close>

definition shim :: "(api \<times> 'v) Client \<Rightarrow> machinery \<Rightarrow> string \<Rightarrow> (api \<times> 'v) SfcTranslationReconciler" where
  "shim C k ns = \<lparr>rec_Client = C, DPFNamespace = ns, rec_lib = k\<rparr>"

lemma shim_sel [simp]: "rec_Client (shim C k ns) = C" "DPFNamespace (shim C k ns) = ns" "rec_lib (shim C k ns) = k"
  by (simp_all add: shim_def)

locale apply_server =
  fixes k :: machinery
    and C :: "(api \<times> 'v) Client"
    and covers :: "Object \<Rightarrow> Object \<Rightarrow> bool"
  assumes get: "get_SFC C q (m, v) = (a, (m', v')) \<Longrightarrow>
      m' = m \<and> (case a of Inr x \<Rightarrow> sfcs m q = Some x \<and> sfc_key x = q | Inl e \<Rightarrow> IsNotFound k e \<longrightarrow> sfcs m q = None)"
    and listing: "list_children C (newList gvk) ns (LabelOwningSFCUID, u) (m, v) = (b, (m', v')) \<Longrightarrow>
      m' = m \<and> (\<forall>xs. b = Inr xs \<longrightarrow> xs = owned gvk ns u m)"
    and apply_effect: "apply_child C mgr x (m, v) = (e, (m', v')) \<Longrightarrow>
      (if e = None \<and> \<not> (\<exists>y \<in> set (kids m). kid_key y = kid_key x \<and> covers x y)
       then m' = m\<lparr>kids := kids m'\<rparr> \<and> (\<exists>y \<in> set (kids m'). kid_key y = kid_key x \<and> covers x y) \<and>
         (\<forall>y. kid_key y \<noteq> kid_key x \<longrightarrow> (y \<in> set (kids m') \<longleftrightarrow> y \<in> set (kids m)))
       else m' = m)"
    and update_effect: "update_SFC C x (m, v) = (e, (m', v')) \<Longrightarrow>
      m' = m\<lparr>sfcs := sfcs m'\<rparr> \<and> (if e = None then \<forall>y. sfcs m' (sfc_key x) = Some y \<longrightarrow> Finalizers y = Finalizers x else m' = m)"
    and status_effect: "status_SFC C x (m, v) = (e, (m', v')) \<Longrightarrow>
      (if e = None
       then \<exists>old c rv. sfcs m (sfc_key x) = Some old \<and>
         m' = m\<lparr>sfcs := (sfcs m)(sfc_key x \<mapsto> old\<lparr>Content := c, ResourceVersion := rv\<rparr>)\<rparr> \<and>
         NestedSlice k c status_conditions = NestedSlice k (Content x) status_conditions \<and>
         NestedSlice k c network_functions = NestedSlice k (Content old) network_functions
       else m' = m)"
    and delete_effect: "delete_child C x (m, v) = (e, (m', v')) \<Longrightarrow> m' = m\<lparr>kids := kids m'\<rparr>"
begin

definition covered :: "Object \<Rightarrow> api \<Rightarrow> bool" where
  "covered x m = (\<exists>y \<in> set (kids m). kid_key y = kid_key x \<and> covers x y)"

lemma apply_one_effect:
  assumes "apply_one (shim C k ns) x (m, v) = (e, (m', v'))"
  shows "m' = m\<lparr>kids := kids m'\<rparr>" and "e = None \<Longrightarrow> covered x m'" and "covered x m \<Longrightarrow> m' = m"
    and "covered z m \<Longrightarrow> kid_key z \<noteq> kid_key x \<Longrightarrow> covered z m'"
proof -
  obtain u m1 v1 where u: "apply_child C FieldManager x (m, v) = (u, (m1, v1))" by (metis prod.collapse)
  have r: "m' = m1 \<and> (e = None \<longleftrightarrow> u = None)" using assms u by (auto simp: apply_one_def split: option.splits)
  note a = apply_effect [OF u, folded covered_def]
  show "m' = m\<lparr>kids := kids m'\<rparr>" using a r by (auto split: if_splits)
  show "covered x m'" if "e = None" using a r that by (auto split: if_splits)
  show "m' = m" if "covered x m" using a r that by (auto split: if_splits)
  show "covered z m'" if "covered z m" "kid_key z \<noteq> kid_key x"
  proof (cases "m' = m")
    case False
    then have "\<forall>y. kid_key y \<noteq> kid_key x \<longrightarrow> (y \<in> set (kids m1) \<longleftrightarrow> y \<in> set (kids m))" using a r by (simp split: if_splits)
    then show ?thesis using that r unfolding covered_def by metis
  qed (use that in simp)
qed

text \<open>Applying the two objects of a chain.\<close>

lemma apply_pair:
  assumes p: "each_until_err (apply_one (shim C k ns)) [a, b] (m, v) = (e, (m', v'))" and n: "kid_key a \<noteq> kid_key b"
  shows "m' = m\<lparr>kids := kids m'\<rparr>" and "e = None \<Longrightarrow> covered a m' \<and> covered b m'"
    and "covered a m \<Longrightarrow> covered b m \<Longrightarrow> m' = m"
proof -
  obtain e1 m1 v1 where 1: "apply_one (shim C k ns) a (m, v) = (e1, (m1, v1))" by (metis prod.collapse)
  obtain e2 m2 v2 where 2: "apply_one (shim C k ns) b (m1, v1) = (e2, (m2, v2))" by (metis prod.collapse)
  note a1 = apply_one_effect [OF 1] and a2 = apply_one_effect [OF 2]
  have r: "(\<exists>x. e1 = Some x) \<and> e \<noteq> None \<and> m' = m1 \<or> e1 = None \<and> m' = m2 \<and> (e = None \<longleftrightarrow> e2 = None)"
    using p 1 2 by (cases e1; cases e2) auto
  have "m2 = m\<lparr>kids := kids m2\<rparr>" using a1(1) a2(1) by (cases m; cases m1; cases m2) simp
  then show "m' = m\<lparr>kids := kids m'\<rparr>" using r a1(1) by auto
  show "covered a m' \<and> covered b m'" if "e = None" using that r a1(2) a2(2,4) n by auto
  show "m' = m" if "covered a m" "covered b m" using that r a1(3) a2(3) by auto
qed

text \<open>What the children of a chain look like to the observer.\<close>

lemma observe_effect:
  assumes "observeChildren (shim C k ns) s (m, v) = (a, (m', v'))"
  shows "m' = m \<and> (\<forall>xs. a = Inr xs \<longrightarrow> xs = child_statuses k ns (UID s) m)"
proof -
  obtain g m1 v1 where g: "list_owned (shim C k ns) s dpuServiceGVK (m, v) = (g, (m1, v1))" by (metis prod.collapse)
  obtain h m2 v2 where h: "list_owned (shim C k ns) s dpuServiceChainGVK (m1, v1) = (h, (m2, v2))" by (metis prod.collapse)
  note l = listing [OF g [unfolded list_owned_def shim_sel]] listing [OF h [unfolded list_owned_def shim_sel]]
  show ?thesis using assms g h l by (cases g; cases h) (auto simp: observeChildren_def child_statuses_def)
qed

lemma mirror_effect:
  assumes A: "accessors k" and ok: "status_object s" and s: "sfcs m (sfc_key s) = Some s"
    and p: "mirror_status (shim C k ns) now s (m, v) = ((d, None), (m', v'))"
  shows "if conditionsSemanticallyEqual (extractConditions k s) (target_of k ns s m) then m' = m \<and> d = (requeueSteadyState, False)
    else d = (requeueProgressing, False) \<and> (\<exists>c rv. m' = m\<lparr>sfcs := (sfcs m)(sfc_key s \<mapsto> s\<lparr>Content := c, ResourceVersion := rv\<rparr>)\<rparr> \<and>
      extractConditions k (s\<lparr>Content := c, ResourceVersion := rv\<rparr>) = target_of k ns s m \<and>
      NestedSlice k c network_functions = NestedSlice k (Content s) network_functions)"
proof -
  obtain a m1 v1 where a: "observeChildren (shim C k ns) s (m, v) = (a, (m1, v1))" by (metis prod.collapse)
  note a1 = observe_effect [OF a]
  obtain xs where xs: "a = Inr xs" using p a by (cases a) (auto simp: mirror_status_def)
  let ?t = "target_of k ns s m"
  have t: "?t = buildTargetConditions k xs (Generation s)" using a1 xs by (simp add: target_of_def)
  show ?thesis
  proof (cases "conditionsSemanticallyEqual (extractConditions k s) ?t")
    case True
    then show ?thesis using p a a1 xs t by (simp add: mirror_status_def Let_def)
  next
    case False
    let ?y = "setConditions k now s ?t"
    obtain u m2 v2 where u: "status_SFC C ?y (m, v1) = (u, (m2, v2))" by (metis prod.collapse)
    have r: "u = None" "m' = m2" "d = (requeueProgressing, False)"
      using p a a1 xs t False u by (cases u; simp add: mirror_status_def Let_def)+
    have y: "sfc_key ?y = sfc_key s" by (simp add: setConditions_def sfc_key_def)
    obtain old c rv where o: "sfcs m (sfc_key ?y) = Some old"
        "m2 = m\<lparr>sfcs := (sfcs m)(sfc_key ?y \<mapsto> old\<lparr>Content := c, ResourceVersion := rv\<rparr>)\<rparr>"
        "NestedSlice k c status_conditions = NestedSlice k (Content ?y) status_conditions"
        "NestedSlice k c network_functions = NestedSlice k (Content old) network_functions"
      using status_effect [OF u] r(1) by auto
    have "old = s" using o(1) s y by simp
    moreover have "extractConditions k (s\<lparr>Content := c, ResourceVersion := rv\<rparr>) = extractConditions k ?y"
      using o(3) by (simp add: extractConditions_def)
    ultimately show ?thesis using o(2,4) y r False extract_set [OF A ok] by auto
  qed
qed

lemma live_run:
  assumes p: "Reconcile (shim C k ns) now q (m, v) = ((d, None), (m', v'))" and s: "sfcs m q = Some s"
    and "is_zero_time (DeletionTimestamp s)" and "ContainsFinalizer k (Finalizers s) FinalizerNVIDIA"
  obtains xs m1 v1 v2 where "translateServiceFunctionChain k s ns = Inr xs" "q = sfc_key s"
    "each_until_err (apply_one (shim C k ns)) xs (m, v1) = (None, (m1, v2))"
    "mirror_status (shim C k ns) now s (m1, v2) = ((d, None), (m', v'))"
proof -
  obtain g m1 v1 where g: "get_SFC C q (m, v) = (g, (m1, v1))" by (metis prod.collapse)
  note g1 = get [OF g]
  show thesis
  proof (cases g)
    case (Inl e)
    then have "IsNotFound k e" using p g by (auto simp: Reconcile_def IgnoreNotFound_def split: if_splits)
    then show thesis using g1 Inl s by simp
  next
    case (Inr x)
    then have x: "x = s" "m1 = m" "q = sfc_key s" using g1 s by auto
    show thesis
    proof (cases "translateServiceFunctionChain k s ns")
      case (Inl e)
      then show thesis using p g Inr x assms(3,4) by (simp add: Reconcile_def)
    next
      case t: (Inr xs)
      obtain e m2 v2 where e: "each_until_err (apply_one (shim C k ns)) xs (m, v1) = (e, (m2, v2))" by (metis prod.collapse)
      show thesis
      proof (cases e)
        case None
        then show thesis using that t x e p g Inr assms(3,4) by (simp add: Reconcile_def)
      next
        case (Some z)
        then show thesis using p g Inr x t e assms(3,4) by (cases z) (simp add: Reconcile_def)
      qed
    qed
  qed
qed

end

section \<open>What the passes promise\<close>

lemma target_distinct: "distinct (map Type (target_of k ns s m))"
  using target_single [of k ns s m] by auto

lemma child_statuses_sfcs [simp]: "child_statuses k ns u (m\<lparr>sfcs := f\<rparr>) = child_statuses k ns u m"
  by (simp add: child_statuses_def owned_def)

text \<open>A chain that its controller has adopted and nobody deletes.\<close>

definition live :: "machinery \<Rightarrow> Object \<Rightarrow> bool" where
  "live k s = (is_zero_time (DeletionTimestamp s) \<and> ContainsFinalizer k (Finalizers s) FinalizerNVIDIA \<and> status_object s)"

text \<open>
  C27.  The status is a mirror: a pass without an error over a live chain leaves, up to order, exactly the
  conditions its children call for, and nothing of other writers.\<close>

theorem status_mirrors_children:
  assumes "accessors k" and "apply_server k C covers" and "sfcs m q = Some s" and "live k s"
    and "Reconcile (shim C k ns) now q (m, v) = ((d, None), (m', v'))"
  shows "\<exists>y. sfcs m' q = Some y \<and> mset (extractConditions k y) = mset (target_of k ns s m')"
proof -
  have l: "is_zero_time (DeletionTimestamp s)" "ContainsFinalizer k (Finalizers s) FinalizerNVIDIA"
    using assms(4) by (simp_all add: live_def)
  obtain xs m1 v1 v2 where x: "translateServiceFunctionChain k s ns = Inr xs" "q = sfc_key s"
    "each_until_err (apply_one (shim C k ns)) xs (m, v1) = (None, (m1, v2))"
    "mirror_status (shim C k ns) now s (m1, v2) = ((d, None), (m', v'))"
    by (rule apply_server.live_run [OF assms(2,5,3) l])
  obtain a b where ab: "xs = [a, b]" "kid_key a \<noteq> kid_key b"
    using translation_shape [OF x(1)] by (auto simp: sfc_gvk_defs)
  note pair = apply_server.apply_pair [OF assms(2) x(3) [unfolded ab(1)] ab(2)]
  have s: "sfcs m1 (sfc_key s) = Some s" using pair(1) assms(3) x(2) by (cases m; cases m1) simp
  have ok: "status_object s" using assms(4) by (simp add: live_def)
  note mir = apply_server.mirror_effect [OF assms(2,1) ok s x(4)]
  show ?thesis
  proof (cases "conditionsSemanticallyEqual (extractConditions k s) (target_of k ns s m1)")
    case True
    then show ?thesis using mir s x(2) equality_gate [OF target_distinct] by auto
  next
    case False
    then show ?thesis using mir x(2) by (auto simp: target_of_def)
  qed
qed

text \<open>
  A pass settles: when nothing else happens in between, the pass that follows an error-free one writes
  nothing and comes back at the steady pace.  The write of the status therefore triggers no further one.\<close>

theorem pass_settles:
  assumes "accessors k" and "apply_server k C covers" and "sfcs m q = Some s" and "live k s"
    and "Reconcile (shim C k ns) now q (m, v) = ((d, None), (m1, v1))"
    and "Reconcile (shim C k ns) later q (m1, v2) = ((d', None), (m2, v3))"
    and "\<forall>y. sfcs m1 q = Some y \<longrightarrow> status_object y"
  shows "m2 = m1 \<and> d' = (requeueSteadyState, False)"
proof -
  have l: "is_zero_time (DeletionTimestamp s)" "ContainsFinalizer k (Finalizers s) FinalizerNVIDIA"
    using assms(4) by (simp_all add: live_def)
  obtain xs n1 u1 u2 where x: "translateServiceFunctionChain k s ns = Inr xs" "q = sfc_key s"
    "each_until_err (apply_one (shim C k ns)) xs (m, u1) = (None, (n1, u2))"
    "mirror_status (shim C k ns) now s (n1, u2) = ((d, None), (m1, v1))"
    by (rule apply_server.live_run [OF assms(2,5,3) l])
  obtain a b where ab: "xs = [a, b]" "kid_key a \<noteq> kid_key b"
    using translation_shape [OF x(1)] by (auto simp: sfc_gvk_defs)
  note pair = apply_server.apply_pair [OF assms(2) x(3) [unfolded ab(1)] ab(2)]
  have s: "sfcs n1 (sfc_key s) = Some s" using pair(1) assms(3) x(2) by (cases m; cases n1) simp
  have ok: "status_object s" using assms(4) by (simp add: live_def)
  note mir = apply_server.mirror_effect [OF assms(2,1) ok s x(4)]
  obtain c rv where y: "sfcs m1 q = Some (s\<lparr>Content := c, ResourceVersion := rv\<rparr>)" and kids: "kids m1 = kids n1"
    and nf: "NestedSlice k c network_functions = NestedSlice k (Content s) network_functions"
    and same: "mset (extractConditions k (s\<lparr>Content := c, ResourceVersion := rv\<rparr>)) = mset (target_of k ns s n1)"
  proof (cases "conditionsSemanticallyEqual (extractConditions k s) (target_of k ns s n1)")
    case True
    then have "m1 = n1" "mset (extractConditions k s) = mset (target_of k ns s n1)"
      using mir equality_gate [OF target_distinct] by auto
    then show thesis using that [of "ResourceVersion s" "Content s"] s x(2) by simp
  next
    case False
    then show thesis using mir that x(2) by auto
  qed
  let ?y = "s\<lparr>Content := c, ResourceVersion := rv\<rparr>"
  have live: "is_zero_time (DeletionTimestamp ?y)" "ContainsFinalizer k (Finalizers ?y) FinalizerNVIDIA"
    using assms(4) by (simp_all add: live_def)
  obtain ys n2 u3 u4 where z: "translateServiceFunctionChain k ?y ns = Inr ys"
    "each_until_err (apply_one (shim C k ns)) ys (m1, u3) = (None, (n2, u4))"
    "mirror_status (shim C k ns) later ?y (n2, u4) = ((d', None), (m2, v3))"
    by (rule apply_server.live_run [OF assms(2,6) y live])
  have img: "firstNetworkFunctionImage k ?y = firstNetworkFunctionImage k s"
    using nf by (simp add: firstNetworkFunctionImage_def network_functions_def)
  have child: "newDPFChild g n ns ?y = newDPFChild g n ns s" for g n by (simp add: newDPFChild_def)
  have sel: "Name ?y = Name s" "UID ?y = UID s" by simp_all
  have "translateServiceFunctionChain k ?y ns = translateServiceFunctionChain k s ns"
    unfolding translateServiceFunctionChain_def img child sel ..
  then have ys: "ys = [a, b]" using z(1) x(1) ab by simp
  have cov: "\<exists>z \<in> set (kids m1). kid_key z = kid_key x \<and> covers x z" if "x \<in> {a, b}" for x
    using pair(2) that kids unfolding apply_server.covered_def [OF assms(2)] by auto
  have n2: "n2 = m1"
    using apply_server.apply_pair(3) [OF assms(2) z(2) [unfolded ys] ab(2)] cov
    unfolding apply_server.covered_def [OF assms(2)] by blast
  have t: "target_of k ns ?y m1 = target_of k ns s n1" using kids by (simp add: target_of_def child_statuses_def owned_def)
  then have "conditionsSemanticallyEqual (extractConditions k ?y) (target_of k ns ?y m1)"
    using same equality_gate [OF target_distinct] by simp
  moreover have key: "sfcs m1 (sfc_key ?y) = Some ?y" using y x(2) by (simp add: sfc_key_def)
  have "status_object ?y" using assms(7) y by blast
  ultimately show ?thesis
    using apply_server.mirror_effect [OF assms(2,1) _ key z(3) [unfolded n2]] by simp
qed

text \<open>
  The equality gate: when no type occurs twice in the target, the two lists agree exactly when they hold
  the same conditions in some order; the time of a condition plays no part.\<close>

theorem equality_gate_exact:
  assumes "distinct (map Type b)"
  shows "conditionsSemanticallyEqual a b \<longleftrightarrow> mset a = mset b"
  using assms by (rule equality_gate)

text \<open>Without the condition the gate is not even symmetric.\<close>

lemma equality_gate_one_way:
  defines "c \<equiv> \<lparr>Type = ''A'', Status = ''True'', Reason = '''', Message = '''', ObservedGeneration = 1\<rparr>"
  shows "conditionsSemanticallyEqual [c, c\<lparr>Type := ''B''\<rparr>] [c, c]" "\<not> conditionsSemanticallyEqual [c, c] [c, c\<lparr>Type := ''B''\<rparr>]"
  unfolding c_def by code_simp+

text \<open>
  The observed-generation gate: a status is ready exactly when there is a child, every child has caught up
  with its own specification, and every child is ready.  It speaks of the children that are there: a
  chain that has lost one of its two objects is ready when the other one is.\<close>

theorem ready_needs_converged_children:
  "\<exists>c. buildTargetConditions k children g = [c] \<and> Type c = condReady \<and> ObservedGeneration c = g \<and>
      (Status c = ''True'' \<longleftrightarrow> children \<noteq> [] \<and> (\<forall>x \<in> set children. dpfConverged x \<and> ReadyStatus x = ''True''))"
  by (rule ready_needs_converged)

section \<open>Deletion\<close>

lemma delete_kinds_remaining:
  assumes S: "apply_server k C covers"
  shows "delete_kinds (shim C k ns) s gvks n (m, v) = (a, (m', v')) \<Longrightarrow>
    sfcs m' = sfcs m \<and> (\<forall>r. a = Inr r \<longrightarrow> n \<le> r \<and> (r = 0 \<longrightarrow> m' = m \<and> (\<forall>g \<in> set gvks. owned g ns (UID s) m = [])))"
proof (induction gvks arbitrary: n m v)
  case (Cons g gvks)
  obtain b m1 v1 where b: "list_owned (shim C k ns) s g (m, v) = (b, (m1, v1))" by (metis prod.collapse)
  note b1 = apply_server.listing [OF S b [unfolded list_owned_def shim_sel]]
  have item: "sfcs (fst (snd (delete_item (shim C k ns) x w))) = sfcs (fst w)" for x w
  proof -
    obtain u m3 v3 where u: "delete_child C x (fst w, snd w) = (u, (m3, v3))" by (metis prod.collapse)
    have "sfcs m3 = sfcs (fst w)" using apply_server.delete_effect [OF S u] by (cases m3; cases "fst w") simp
    then show ?thesis using u by (cases u) (simp_all add: delete_item_def)
  qed
  show ?case
  proof (cases b)
    case (Inl e)
    then show ?thesis using Cons.prems b b1 by auto
  next
    case (Inr xs)
    obtain e m2 v2 where e: "each_until_err (delete_item (shim C k ns)) xs (m, v1) = (e, (m2, v2))" by (metis prod.collapse)
    have "sfcs (fst (snd (each_until_err (delete_item (shim C k ns)) xs (m, v1)))) = sfcs m"
      using each_until_err_inv [of xs "\<lambda>w. sfcs (fst w) = sfcs m" "delete_item (shim C k ns)" "(m, v1)"] item by simp
    then have m2: "sfcs m2 = sfcs m" "xs = [] \<Longrightarrow> m2 = m" using e by simp_all
    show ?thesis
    proof (cases e)
      case (Some z)
      then show ?thesis using Cons.prems b b1 Inr e m2 by (cases z) auto
    next
      case None
      then have "delete_kinds (shim C k ns) s gvks (n + length xs) (m2, v2) = (a, (m', v'))"
        using Cons.prems b b1 Inr e by simp
      from Cons.IH [OF this] show ?thesis using m2 b1 Inr by auto
    qed
  qed
qed auto

text \<open>
  The finalizer outlives the children: a pass over a deleted chain takes the finalizer away only when the
  server shows no object that carries the label of the chain, and it deletes nothing then.\<close>

theorem finalizer_outlives_children:
  assumes "finalizer_lib k" and "apply_server k C covers" and "sfcs m q = Some s" and "FinalizerNVIDIA \<in> set (Finalizers s)"
    and "Reconcile (shim C k ns) now q (m, v) = (x, (m', v'))"
    and "\<forall>y. sfcs m' q = Some y \<longrightarrow> FinalizerNVIDIA \<notin> set (Finalizers y)"
  shows "\<not> is_zero_time (DeletionTimestamp s) \<and> kids m' = kids m \<and>
    owned dpuServiceGVK ns (UID s) m = [] \<and> owned dpuServiceChainGVK ns (UID s) m = []"
proof -
  have kept: "sfcs m' q \<noteq> Some s" using assms(4,6) by blast
  have F: "ContainsFinalizer k fs f = (f \<in> set fs)" for fs f using assms(1) by (simp add: finalizer_lib_def)
  obtain g m1 v1 where g: "get_SFC C q (m, v) = (g, (m1, v1))" by (metis prod.collapse)
  note g1 = apply_server.get [OF assms(2) g]
  obtain y where y: "g = Inr y"
  proof (cases g)
    case (Inl e)
    then have "m' = m" using assms(5) g g1 by (simp add: Reconcile_def)
    then show thesis using kept assms(3) by simp
  qed (use that in blast)
  then have s: "g = Inr s" "m1 = m" "q = sfc_key s" using g1 assms(3) by auto
  show ?thesis
  proof (cases "is_zero_time (DeletionTimestamp s)")
    case True
    have "sfcs m' q \<noteq> None \<and> (\<forall>y. sfcs m' q = Some y \<longrightarrow> Finalizers y = Finalizers s)"
    proof (cases "translateServiceFunctionChain k s ns")
      case (Inl e)
      then show ?thesis using assms(3-5) g s True F by (simp add: Reconcile_def)
    next
      case t: (Inr xs)
      obtain a b where ab: "xs = [a, b]" "kid_key a \<noteq> kid_key b"
        using translation_shape [OF t] by (auto simp: sfc_gvk_defs)
      obtain e m2 v2 where e: "each_until_err (apply_one (shim C k ns)) [a, b] (m, v1) = (e, (m2, v2))" by (metis prod.collapse)
      have m2: "sfcs m2 = sfcs m"
        using apply_server.apply_pair(1) [OF assms(2) e ab(2)] by (cases m; cases m2) simp
      show ?thesis
      proof (cases e)
        case (Some z)
        then have "m' = m2" using assms(4,5) g s True F t ab e by (cases z) (simp add: Reconcile_def)
        then show ?thesis using m2 assms(3) by simp
      next
        case None
        then have p: "mirror_status (shim C k ns) now s (m2, v2) = (x, (m', v'))"
          using assms(4,5) g s True F t ab e by (simp add: Reconcile_def)
        obtain h m3 v3 where h: "observeChildren (shim C k ns) s (m2, v2) = (h, (m3, v3))" by (metis prod.collapse)
        note h1 = apply_server.observe_effect [OF assms(2) h]
        show ?thesis
        proof (cases h)
          case (Inl z)
          then show ?thesis using p h h1 m2 assms(3) by (simp add: mirror_status_def)
        next
          case (Inr zs)
          let ?t = "setConditions k now s (buildTargetConditions k zs (Generation s))"
          obtain u m4 v4 where u: "status_SFC C ?t (m2, v3) = (u, (m4, v4))" by (metis prod.collapse)
          have key: "sfc_key ?t = q" using s(3) by (simp add: setConditions_def sfc_key_def)
          have "m' = m2 \<or> m' = m4" using p h h1 Inr u by (cases u) (auto simp: mirror_status_def Let_def split: if_splits)
          then show ?thesis using apply_server.status_effect [OF assms(2) u] key m2 assms(3) by (auto split: if_splits)
        qed
      qed
    qed
    then show ?thesis using assms(4,6) by auto
  next
    case False
    then have p: "reconcileDelete (shim C k ns) s (m, v1) = (x, (m', v'))" using assms(5) g s by (simp add: Reconcile_def)
    obtain a m2 v2 where a: "delete_kinds (shim C k ns) s [dpuServiceGVK, dpuServiceChainGVK] 0 (m, v1) = (a, (m2, v2))"
      by (metis prod.collapse)
    show ?thesis
    proof (cases a)
      case (Inl e)
      then have "m' = m2" using p a by (simp add: reconcileDelete_def)
      then show ?thesis using delete_kinds_remaining [OF assms(2) a] kept assms(3) by simp
    next
      case (Inr n)
      note d = delete_kinds_remaining [OF assms(2) a] Inr
      show ?thesis
      proof (cases "n = 0")
        case True
        obtain u m3 v3 where u: "update_SFC C (s\<lparr>Finalizers := RemoveFinalizer k (Finalizers s) FinalizerNVIDIA\<rparr>) (m2, v2) = (u, (m3, v3))"
          by (metis prod.collapse)
        have "m' = m3" using p a Inr True u by (simp add: reconcileDelete_def)
        moreover have "kids m3 = kids m2" using apply_server.update_effect [OF assms(2) u] by (cases m3; cases m2) auto
        ultimately show ?thesis using d True False by simp
      next
        case False
        then have "m' = m2" using p a Inr by (simp add: reconcileDelete_def)
        then show ?thesis using d kept assms(3) by simp
      qed
    qed
  qed
qed

section \<open>A server in memory\<close>

fun nested :: "json gomap \<Rightarrow> string list \<Rightarrow> json option" where
  "nested m [] = None"
| "nested m [f] = map_of m f"
| "nested m (f # fs) = (case map_of m f of Some (JObject n) \<Rightarrow> nested n fs | _ \<Rightarrow> None)"

fun set_nested :: "json gomap \<Rightarrow> string list \<Rightarrow> json \<Rightarrow> json gomap option" where
  "set_nested m [] j = None"
| "set_nested m [f] j = Some (AList.update f j m)"
| "set_nested m (f # fs) j =
     (case map_of m f of
        None \<Rightarrow> map_option (\<lambda>n. AList.update f (JObject n) m) (set_nested [] fs j)
      | Some (JObject n) \<Rightarrow> map_option (\<lambda>n'. AList.update f (JObject n') m) (set_nested n fs j)
      | Some _ \<Rightarrow> None)"

definition set_or_fail :: "json gomap \<Rightarrow> string list \<Rightarrow> json \<Rightarrow> go_error + json gomap" where
  "set_or_fail m p j = (case set_nested m p j of None \<Rightarrow> Inl (External ''value cannot be set'') | Some n \<Rightarrow> Inr n)"

definition shim_missing :: go_error where "shim_missing = External ''not found''"

definition shim_lib :: machinery where
  "shim_lib =
     \<lparr>NestedSlice = (\<lambda>m p. case nested m p of Some (JArray xs) \<Rightarrow> Some xs | _ \<Rightarrow> None),
      NestedString = (\<lambda>m p. case nested m p of Some (JString s) \<Rightarrow> Some s | _ \<Rightarrow> None),
      NestedInt64 = (\<lambda>m p. case nested m p of Some (JNumber i) \<Rightarrow> Some i | _ \<Rightarrow> None),
      SetNestedField = (\<lambda>m s p. set_or_fail m p (JString s)),
      SetNestedStringMap = (\<lambda>m ss p. set_or_fail m p (JObject (map (\<lambda>(a, b). (a, JString b)) ss))),
      SetNestedSlice = (\<lambda>m xs p. case set_nested m p (JArray xs) of None \<Rightarrow> m | Some n \<Rightarrow> n),
      Quote = (\<lambda>s. CHR 0x22 # s @ [CHR 0x22]), IsNotFound = (\<lambda>e. e = shim_missing),
      ContainsFinalizer = (\<lambda>fs f. f \<in> set fs), AddFinalizer = (\<lambda>fs f. if f \<in> set fs then fs else fs @ [f]),
      RemoveFinalizer = (\<lambda>fs f. removeAll f fs)\<rparr>"

lemma shim_accessors: "accessors shim_lib"
proof -
  have "NestedSlice shim_lib (SetNestedSlice shim_lib c xs status_conditions) status_conditions = Some xs"
    if "\<forall>j. map_of c ''status'' = Some j \<longrightarrow> (\<exists>m. j = JObject m)" for c xs
    using that by (cases "map_of c ''status''") (auto simp: shim_lib_def status_conditions_def)
  then show ?thesis unfolding accessors_def by (simp add: shim_lib_def)
qed

lemma shim_finalizers: "finalizer_lib shim_lib"
  by (auto simp: finalizer_lib_def shim_lib_def)

text \<open>One part of the content replaced by that of another object.\<close>

definition take_part :: "string \<Rightarrow> json gomap \<Rightarrow> json gomap \<Rightarrow> json gomap" where
  "take_part f from into = (case map_of from f of None \<Rightarrow> AList.delete f into | Some j \<Rightarrow> AList.update f j into)"

definition shim_covers :: "Object \<Rightarrow> Object \<Rightarrow> bool" where
  "shim_covers x y = (Labels y = Labels x \<and> Annotations y = Annotations x \<and> map_of (Content y) ''spec'' = map_of (Content x) ''spec'')"

definition applied_to :: "Object \<Rightarrow> Object \<Rightarrow> Object" where
  "applied_to x old = old\<lparr>Labels := Labels x, Annotations := Annotations x, Generation := Generation old + 1,
     Content := take_part ''spec'' (Content x) (Content old)\<rparr>"

definition apply_kids :: "Object \<Rightarrow> Object list \<Rightarrow> Object list" where
  "apply_kids x ks =
     (if \<exists>y \<in> set ks. kid_key y = kid_key x \<and> shim_covers x y then ks
      else if \<exists>y \<in> set ks. kid_key y = kid_key x
      then map (\<lambda>y. if kid_key y = kid_key x then applied_to x y else y) ks
      else ks @ [x\<lparr>UID := ''new'', Generation := 1\<rparr>])"

definition shim_client :: "(api \<times> unit) Client" where
  "shim_client =
     \<lparr>get_SFC = (\<lambda>q w. (case sfcs (fst w) q of
          None \<Rightarrow> Inl shim_missing | Some x \<Rightarrow> (if sfc_key x = q then Inr x else Inl (External ''corrupt'')), w)),
      update_SFC = (\<lambda>x w. case sfcs (fst w) (sfc_key x) of
          None \<Rightarrow> (Some shim_missing, w)
        | Some _ \<Rightarrow> (None, ((fst w)\<lparr>sfcs := (sfcs (fst w))(sfc_key x :=
            (if \<not> is_zero_time (DeletionTimestamp x) \<and> Finalizers x = [] then None else Some x))\<rparr>, snd w))),
      status_SFC = (\<lambda>x w. case sfcs (fst w) (sfc_key x) of
          None \<Rightarrow> (Some shim_missing, w)
        | Some old \<Rightarrow> (None, ((fst w)\<lparr>sfcs := (sfcs (fst w))(sfc_key x \<mapsto> old\<lparr>Content := take_part ''status'' (Content x) (Content old),
            ResourceVersion := CHR ''1'' # ResourceVersion old\<rparr>)\<rparr>, snd w))),
      apply_child = (\<lambda>_ x w. (None, ((fst w)\<lparr>kids := apply_kids x (kids (fst w))\<rparr>, snd w))),
      list_children = (\<lambda>g ns (l, u) w. (Inr (filter (\<lambda>x. newList (GVK x) = g \<and> Namespace x = ns \<and> map_of (Labels x) l = Some u) (kids (fst w))), w)),
      delete_child = (\<lambda>x w. (None, ((fst w)\<lparr>kids := filter (\<lambda>y. kid_key y \<noteq> kid_key x) (kids (fst w))\<rparr>, snd w)))\<rparr>"

lemma map_of_take_part [simp]: "map_of (take_part f a b) g = (if g = f then map_of a f else map_of b g)"
  by (auto simp: take_part_def split: option.splits)

lemma apply_kids_effect:
  assumes "\<not> (\<exists>y \<in> set ks. kid_key y = kid_key x \<and> shim_covers x y)"
  shows "\<exists>y \<in> set (apply_kids x ks). kid_key y = kid_key x \<and> shim_covers x y"
    and "kid_key y \<noteq> kid_key x \<Longrightarrow> y \<in> set (apply_kids x ks) \<longleftrightarrow> y \<in> set ks"
proof -
  have a: "kid_key (applied_to x z) = kid_key z" "shim_covers x (applied_to x z)" for z
    by (simp_all add: applied_to_def kid_key_def shim_covers_def)
  have eq: "apply_kids x ks = (if \<exists>y \<in> set ks. kid_key y = kid_key x
      then map (\<lambda>y. if kid_key y = kid_key x then applied_to x y else y) ks else ks @ [x\<lparr>UID := ''new'', Generation := 1\<rparr>])"
    unfolding apply_kids_def by (rule if_not_P [OF assms])
  show "\<exists>y \<in> set (apply_kids x ks). kid_key y = kid_key x \<and> shim_covers x y"
  proof (cases "\<exists>y \<in> set ks. kid_key y = kid_key x")
    case True
    then obtain z where "z \<in> set ks" "kid_key z = kid_key x" by blast
    then show ?thesis unfolding eq if_P [OF True] using a by (intro bexI [of _ "applied_to x z"]) (simp_all add: rev_image_eqI)
  next
    case False
    have "kid_key (x\<lparr>UID := ''new'', Generation := 1\<rparr>) = kid_key x \<and> shim_covers x (x\<lparr>UID := ''new'', Generation := 1\<rparr>)"
      by (simp add: kid_key_def shim_covers_def)
    then show ?thesis unfolding eq if_not_P [OF False] by (intro bexI [of _ "x\<lparr>UID := ''new'', Generation := 1\<rparr>"]) simp_all
  qed
  show "y \<in> set (apply_kids x ks) \<longleftrightarrow> y \<in> set ks" if "kid_key y \<noteq> kid_key x"
  proof (cases "\<exists>y \<in> set ks. kid_key y = kid_key x")
    case True
    then show ?thesis unfolding eq if_P [OF True] using a(1) that by (auto simp: image_iff)
  next
    case False
    have "y \<noteq> x\<lparr>UID := ''new'', Generation := 1\<rparr>" using that by (auto simp: kid_key_def)
    then show ?thesis unfolding eq if_not_P [OF False] by simp
  qed
qed

lemma newList_inject: "newList a = newList b \<longleftrightarrow> a = b"
  by (cases a; cases b) (simp add: newList_def)

lemma shim_server: "apply_server shim_lib shim_client shim_covers"
proof
  fix q m v a m' v'
  assume "get_SFC shim_client q (m, v) = (a, (m', v'))"
  then show "m' = m \<and> (case a of Inr x \<Rightarrow> sfcs m q = Some x \<and> sfc_key x = q | Inl e \<Rightarrow> IsNotFound shim_lib e \<longrightarrow> sfcs m q = None)"
    by (auto simp: shim_client_def shim_lib_def shim_missing_def split: option.splits if_splits)
next
  fix gvk ns u m v b m' v'
  assume "list_children shim_client (newList gvk) ns (LabelOwningSFCUID, u) (m, v) = (b, (m', v'))"
  then show "m' = m \<and> (\<forall>xs. b = Inr xs \<longrightarrow> xs = owned gvk ns u m)"
    by (auto simp: shim_client_def owned_def newList_inject)
next
  fix mgr x m v e m' v'
  assume "apply_child shim_client mgr x (m, v) = (e, (m', v'))"
  then have r: "e = None" "m' = m\<lparr>kids := apply_kids x (kids m)\<rparr>" by (auto simp: shim_client_def)
  show "if e = None \<and> \<not> (\<exists>y \<in> set (kids m). kid_key y = kid_key x \<and> shim_covers x y)
       then m' = m\<lparr>kids := kids m'\<rparr> \<and> (\<exists>y \<in> set (kids m'). kid_key y = kid_key x \<and> shim_covers x y) \<and>
         (\<forall>y. kid_key y \<noteq> kid_key x \<longrightarrow> (y \<in> set (kids m') \<longleftrightarrow> y \<in> set (kids m)))
       else m' = m"
  proof (cases "\<exists>y \<in> set (kids m). kid_key y = kid_key x \<and> shim_covers x y")
    case True
    then have "apply_kids x (kids m) = kids m" unfolding apply_kids_def by (rule if_P)
    then show ?thesis using r True by simp
  next
    case False
    then show ?thesis using r apply_kids_effect [OF False] by simp
  qed
next
  fix x m v e m' v'
  assume "update_SFC shim_client x (m, v) = (e, (m', v'))"
  then show "m' = m\<lparr>sfcs := sfcs m'\<rparr> \<and> (if e = None then \<forall>y. sfcs m' (sfc_key x) = Some y \<longrightarrow> Finalizers y = Finalizers x else m' = m)"
    by (auto simp: shim_client_def split: option.splits if_splits)
next
  fix x m v e m' v'
  assume p: "status_SFC shim_client x (m, v) = (e, (m', v'))"
  have n: "nested (take_part ''status'' a b) status_conditions = nested a status_conditions"
    "nested (take_part ''status'' a b) network_functions = nested b network_functions" for a b
    by (simp_all add: status_conditions_def network_functions_def)
  show "if e = None
       then \<exists>old c rv. sfcs m (sfc_key x) = Some old \<and>
         m' = m\<lparr>sfcs := (sfcs m)(sfc_key x \<mapsto> old\<lparr>Content := c, ResourceVersion := rv\<rparr>)\<rparr> \<and>
         NestedSlice shim_lib c status_conditions = NestedSlice shim_lib (Content x) status_conditions \<and>
         NestedSlice shim_lib c network_functions = NestedSlice shim_lib (Content old) network_functions
       else m' = m"
  proof (cases "sfcs m (sfc_key x)")
    case None
    then show ?thesis using p by (auto simp: shim_client_def)
  next
    case (Some old)
    then have r: "e = None" "m' = m\<lparr>sfcs := (sfcs m)(sfc_key x \<mapsto> old\<lparr>Content := take_part ''status'' (Content x) (Content old),
            ResourceVersion := CHR ''1'' # ResourceVersion old\<rparr>)\<rparr>" using p by (auto simp: shim_client_def)
    have "NestedSlice shim_lib (take_part ''status'' (Content x) (Content old)) status_conditions = NestedSlice shim_lib (Content x) status_conditions"
      "NestedSlice shim_lib (take_part ''status'' (Content x) (Content old)) network_functions = NestedSlice shim_lib (Content old) network_functions"
      using n by (simp_all add: shim_lib_def)
    then show ?thesis unfolding if_P [OF r(1)] using r(2) Some by blast
  qed
next
  fix x m v e m' v'
  assume "delete_child shim_client x (m, v) = (e, (m', v'))"
  then show "m' = m\<lparr>kids := kids m'\<rparr>" by (auto simp: shim_client_def)
qed

interpretation shim_mem: apply_server shim_lib shim_client shim_covers
  by (rule shim_server)

definition shim_sfc :: Object where
  "shim_sfc = \<lparr>GVK = sfcGVK, Name = ''c'', Namespace = ''a'', UID = ''u1'', ResourceVersion = ''1'', Generation = 1, DeletionTimestamp = None,
     Finalizers = [FinalizerNVIDIA], Annotations = [], Labels = [],
     Content = [(''spec'', JObject [(''networkFunctions'', JArray [JObject [(''image'', JString ''nf:1'')]])])]\<rparr>"

definition shim_world :: "Object \<Rightarrow> api" where "shim_world s = \<lparr>sfcs = [sfc_key s \<mapsto> s], kids = []\<rparr>"

definition shim_pass :: "api \<Rightarrow> (api \<times> unit) pass" where
  "shim_pass m = Reconcile (shim shim_client shim_lib ''dpf'') 0 (''a'', ''c'') (m, ())"

definition shim_after :: "api \<Rightarrow> api" where "shim_after m = fst (snd (shim_pass m))"

lemma shim_pass_eq: "fst (shim_pass m) = (d, e) \<Longrightarrow>
    Reconcile (shim shim_client shim_lib ''dpf'') 0 (''a'', ''c'') (m, ()) = ((d, e), (shim_after m, ()))"
  by (cases "shim_pass m") (simp add: shim_pass_def shim_after_def)

lemma shim_runs:
  "fst (shim_pass (shim_world shim_sfc)) = ((requeueProgressing, False), None)"
  "fst (shim_pass (shim_after (shim_world shim_sfc))) = ((requeueSteadyState, False), None)"
  by code_simp+

lemma shim_live: "sfcs (shim_world shim_sfc) (''a'', ''c'') = Some shim_sfc" "live shim_lib shim_sfc"
proof -
  show "sfcs (shim_world shim_sfc) (''a'', ''c'') = Some shim_sfc" by (simp add: shim_world_def shim_sfc_def sfc_key_def)
  show "live shim_lib shim_sfc"
    by (simp add: live_def shim_sfc_def is_zero_time_def shim_lib_def status_object_def)
qed

theorem status_mirrors_children_witness:
  "\<exists>y. sfcs (shim_after (shim_world shim_sfc)) (''a'', ''c'') = Some y \<and>
     mset (extractConditions shim_lib y) = mset (target_of shim_lib ''dpf'' shim_sfc (shim_after (shim_world shim_sfc)))"
  by (rule status_mirrors_children [OF shim_accessors shim_server shim_live shim_pass_eq [OF shim_runs(1)]])

theorem pass_settles_witness:
  "shim_after (shim_after (shim_world shim_sfc)) = shim_after (shim_world shim_sfc)"
proof -
  have "case sfcs (shim_after (shim_world shim_sfc)) (''a'', ''c'') of None \<Rightarrow> True
      | Some y \<Rightarrow> (case map_of (Content y) ''status'' of Some (JObject _) \<Rightarrow> True | _ \<Rightarrow> False)"
    by code_simp
  then have "\<forall>y. sfcs (shim_after (shim_world shim_sfc)) (''a'', ''c'') = Some y \<longrightarrow> status_object y"
    by (auto simp: status_object_def split: option.splits json.splits)
  from pass_settles [OF shim_accessors shim_server shim_live shim_pass_eq [OF shim_runs(1)] shim_pass_eq [OF shim_runs(2)] this]
  show ?thesis by simp
qed

theorem equality_gate_exact_witness:
  "conditionsSemanticallyEqual (extractConditions shim_lib shim_sfc) (buildTargetConditions shim_lib [] 1) \<longleftrightarrow>
   mset (extractConditions shim_lib shim_sfc) = mset (buildTargetConditions shim_lib [] 1)"
proof (rule equality_gate_exact)
  show "distinct (map Type (buildTargetConditions shim_lib [] 1))" by (simp add: buildTargetConditions_def)
qed

text \<open>Two chains called \<open>c\<close>, in different namespaces.\<close>

theorem equal_names_share_objects_witness:
  "\<exists>xs ys. translateServiceFunctionChain shim_lib shim_sfc ''dpf'' = Inr xs \<and>
     translateServiceFunctionChain shim_lib (shim_sfc\<lparr>Namespace := ''b'', UID := ''u2''\<rparr>) ''dpf'' = Inr ys \<and>
     kid_key ` set xs \<inter> kid_key ` set ys \<noteq> {}"
proof -
  have "case translateServiceFunctionChain shim_lib s ''dpf'' of Inl _ \<Rightarrow> False | Inr _ \<Rightarrow> True" for s
    by (simp add: translateServiceFunctionChain_def shim_lib_def newDPFChild_def set_or_fail_def)
  then obtain xs ys where x: "translateServiceFunctionChain shim_lib shim_sfc ''dpf'' = Inr xs"
    and y: "translateServiceFunctionChain shim_lib (shim_sfc\<lparr>Namespace := ''b'', UID := ''u2''\<rparr>) ''dpf'' = Inr ys"
    by (metis sum.case_eq_if isl_def sum.collapse(2) sum.simps(5))
  then show ?thesis using equal_names_share_objects [OF x y] by auto
qed

definition shim_deleted :: Object where "shim_deleted = shim_sfc\<lparr>DeletionTimestamp := Some 5, Finalizers := [''other'', FinalizerNVIDIA]\<rparr>"

theorem finalizer_outlives_children_witness:
  "sfcs (shim_after (shim_world shim_deleted)) (''a'', ''c'') = Some (shim_deleted\<lparr>Finalizers := [''other'']\<rparr>) \<and>
   \<not> is_zero_time (DeletionTimestamp shim_deleted) \<and> kids (shim_after (shim_world shim_deleted)) = kids (shim_world shim_deleted)"
proof -
  have r: "fst (shim_pass (shim_world shim_deleted)) = (no_requeue, None)" by code_simp
  have a: "sfcs (shim_after (shim_world shim_deleted)) (''a'', ''c'') = Some (shim_deleted\<lparr>Finalizers := [''other'']\<rparr>)" by code_simp
  have s: "sfcs (shim_world shim_deleted) (''a'', ''c'') = Some shim_deleted" "FinalizerNVIDIA \<in> set (Finalizers shim_deleted)"
    by (simp_all add: shim_world_def shim_deleted_def shim_sfc_def sfc_key_def)
  have "\<forall>y. sfcs (shim_after (shim_world shim_deleted)) (''a'', ''c'') = Some y \<longrightarrow> FinalizerNVIDIA \<notin> set (Finalizers y)"
    using a by (simp add: FinalizerNVIDIA_def)
  from finalizer_outlives_children [OF shim_finalizers shim_server s shim_pass_eq [OF r] this] show ?thesis using a by simp
qed


end
