(* ===== verification/BlueFieldVsp.thy ===== *)
theory BlueFieldVsp
  imports KubeObjects
begin

text \<open>
  \<open>shridhar-panigrahi/feature_skeleton.go\<close>: the BlueField detector, the vendor plugin that authors DPF
  objects, the projection of a DPF DPU onto conditions, the names of the objects, and the bridge
  reconciler.  The cluster client, the node operations, the clock and the context are arguments.
\<close>

section \<open>Detection\<close>

type_synonym DpuIdentifier = string

definition pciVendorNvidia :: string where "pciVendorNvidia = ''15b3''"
definition provisioningLabel :: string where "provisioningLabel = ''opi.dpu/managed''"
definition blueFieldDeviceIDs :: "string gomap" where "blueFieldDeviceIDs = [(''a2dc'', ''BlueField-3'')]"

record PCIDevice =
  Address :: string
  VendorID :: string
  DeviceID :: string
  Serial :: string
  IsVF :: bool

record 'w Platform =
  Product :: "'w \<Rightarrow> (go_error + string) \<times> 'w"

definition DpuPlatformName :: string where "DpuPlatformName = ''nvidia-bf3''"
definition GetVendorName :: string where "GetVendorName = ''nvidia''"
definition DetectorName :: string where "DetectorName = ''NVIDIA BlueField-3''"

definition GetDpuIdentifier :: "PCIDevice \<Rightarrow> go_error + DpuIdentifier" where
  "GetDpuIdentifier pci =
     (if Serial pci = '''' then Inl (Errorf ''device %s exposes no serial; cannot form a stable identifier'' [AStr (Address pci)])
      else Inr (''nvidia-bf3-'' @ to_lower (Serial pci)))"

definition IsDPU :: "PCIDevice \<Rightarrow> DpuIdentifier list \<Rightarrow> go_error + bool" where
  "IsDPU pci seen =
     (if IsVF pci \<or> VendorID pci \<noteq> pciVendorNvidia then Inr False
      else if map_of blueFieldDeviceIDs (DeviceID pci) = None then Inr False
      else case GetDpuIdentifier pci of
        Inl err \<Rightarrow> Inl err
      | Inr i \<Rightarrow> Inr (\<not> list_ex (\<lambda>s. s = i) seen))"

definition IsDpuPlatform :: "'w Platform \<Rightarrow> 'w \<Rightarrow> (go_error + bool) \<times> 'w" where
  "IsDpuPlatform p w =
     (case Product p w of
        (Inl err, w1) \<Rightarrow> (Inl (Errorf ''reading DMI product name: %w'' [AWrap err]), w1)
      | (Inr product, w1) \<Rightarrow> (Inr (contains product ''BlueField''), w1))"

definition dashed :: "string \<Rightarrow> string" where
  "dashed s = map (\<lambda>c. if c = CHR '' '' then CHR ''-'' else c) s"

definition DpuPlatformIdentifier :: "'w Platform \<Rightarrow> 'w \<Rightarrow> (go_error + DpuIdentifier) \<times> 'w" where
  "DpuPlatformIdentifier p w =
     (case Product p w of
        (Inl err, w1) \<Rightarrow> (Inl err, w1)
      | (Inr product, w1) \<Rightarrow> (Inr (''nvidia-bf3-'' @ to_lower (dashed product)), w1))"

section \<open>Objects and clients\<close>

record GroupVersionKind =
  Group :: string
  Version :: string
  Kind :: string

definition provisioning :: "string \<Rightarrow> GroupVersionKind" where
  "provisioning kind = \<lparr>Group = ''provisioning.dpu.nvidia.com'', Version = ''v1alpha1'', Kind = kind\<rparr>"
definition svc_kind :: "string \<Rightarrow> GroupVersionKind" where
  "svc_kind kind = \<lparr>Group = ''svc.dpu.nvidia.com'', Version = ''v1alpha1'', Kind = kind\<rparr>"

definition gvkBFB :: GroupVersionKind where "gvkBFB = provisioning ''BFB''"
definition gvkDPUFlavor :: GroupVersionKind where "gvkDPUFlavor = provisioning ''DPUFlavor''"
definition gvkDPU :: GroupVersionKind where "gvkDPU = provisioning ''DPU''"
definition gvkDPUServiceInterface :: GroupVersionKind where "gvkDPUServiceInterface = svc_kind ''DPUServiceInterface''"
definition gvkDPUServiceChain :: GroupVersionKind where "gvkDPUServiceChain = svc_kind ''DPUServiceChain''"
definition gvkDPFOperatorConfig :: GroupVersionKind where
  "gvkDPFOperatorConfig = \<lparr>Group = ''operator.dpu.nvidia.com'', Version = ''v1alpha1'', Kind = ''DPFOperatorConfig''\<rparr>"

lemmas bf_gvk_defs = provisioning_def svc_kind_def gvkBFB_def gvkDPUFlavor_def gvkDPU_def gvkDPUServiceInterface_def
  gvkDPUServiceChain_def gvkDPFOperatorConfig_def

record Condition =
  Type :: string
  Status :: string
  Reason :: string
  Message :: string
  LastTransitionTime :: time

record Object =
  GVK :: GroupVersionKind
  Namespace :: string
  Name :: string
  Spec :: "json gomap"
  Conditions :: "Condition list"
  Phase :: string

text \<open>A read that finds nothing is \<open>Inr None\<close>.\<close>

record 'w KubeClient =
  Ensure :: "Object \<Rightarrow> 'w \<Rightarrow> go_error option \<times> 'w"
  Get :: "GroupVersionKind \<times> string \<times> string \<Rightarrow> 'w \<Rightarrow> (go_error + Object option) \<times> 'w"
  Delete :: "GroupVersionKind \<times> string \<times> string \<Rightarrow> 'w \<Rightarrow> go_error option \<times> 'w"
  LabelNode :: "string \<Rightarrow> string \<times> string \<Rightarrow> 'w \<Rightarrow> go_error option \<times> 'w"

record 'w NodeOps =
  SetRuntimeVfCount :: "string \<Rightarrow> int \<Rightarrow> 'w \<Rightarrow> (int \<times> go_error option) \<times> 'w"
  VfCeiling :: "string \<Rightarrow> 'w \<Rightarrow> (go_error + int) \<times> 'w"
  ListVfs :: "string \<Rightarrow> 'w \<Rightarrow> (go_error + PCIDevice list) \<times> 'w"

text \<open>The clock, and one wait of 250 ms that the end of the context cuts short with its error.\<close>

record 'w runtime =
  Now :: "'w \<Rightarrow> time"
  wait_or_done :: "'w \<Rightarrow> go_error option \<times> 'w"

record BridgePortRequest =
  br_Name :: string
  MacAddress :: string
  VlanID :: int
  VfAddress :: string

record Device =
  ID :: string
  Health :: string

record vsp_config =
  cfg_Namespace :: string
  BFBImageURL :: string
  FlavorName :: string
  DpuSetName :: string
  AttachPollBudget :: duration

record 'w NvidiaVsp =
  cfg :: vsp_config
  kube :: "'w KubeClient"
  node :: "'w NodeOps"
  dpuID :: DpuIdentifier
  nodeName :: string
  pfAddress :: string
  dpuMode :: bool

definition NewNvidiaVsp :: "vsp_config \<Rightarrow> 'w KubeClient \<Rightarrow> 'w NodeOps \<Rightarrow> string \<Rightarrow> 'w NvidiaVsp" where
  "NewNvidiaVsp c k n name = \<lparr>cfg = c, kube = k, node = n, dpuID = '''', nodeName = name, pfAddress = '''', dpuMode = False\<rparr>"

section \<open>Names\<close>

definition sanitize :: "string \<Rightarrow> string" where
  "sanitize s = to_lower (map (\<lambda>c. if c \<in> {CHR '':'', CHR ''.'', CHR ''_'', CHR ''/''} then CHR ''-'' else c) s)"

definition name_bfb :: "vsp_config \<Rightarrow> string" where "name_bfb c = ''opi-'' @ DpuSetName c @ ''-bfb''"
definition name_dpu :: "DpuIdentifier \<Rightarrow> string" where "name_dpu i = to_lower i"
definition name_serviceInterface :: "DpuIdentifier \<Rightarrow> string \<Rightarrow> string" where
  "name_serviceInterface i vf = ''opi-'' @ to_lower i @ ''-vf-'' @ sanitize vf"
definition name_serviceChain :: "DpuIdentifier \<Rightarrow> string \<Rightarrow> string \<Rightarrow> string \<Rightarrow> string" where
  "name_serviceChain i bridge input output =
     ''opi-'' @ to_lower i @ ''-'' @ sanitize bridge @ ''-'' @ sanitize input @ ''-to-'' @ sanitize output"

section \<open>The plugin\<close>

definition obj :: "GroupVersionKind \<Rightarrow> string \<Rightarrow> string \<Rightarrow> json gomap \<Rightarrow> Object" where
  "obj g ns n s = \<lparr>GVK = g, Namespace = ns, Name = n, Spec = s, Conditions = [], Phase = ''''\<rparr>"

definition interfaceReady :: "Object option \<Rightarrow> bool" where
  "interfaceReady o' = (case o' of None \<Rightarrow> False | Some x \<Rightarrow> list_ex (\<lambda>c. Type c = ''Ready'' \<and> Status c = ''True'') (Conditions x))"

definition healthFromDpuPhase :: "string \<Rightarrow> string" where
  "healthFromDpuPhase phase = (if phase = ''Ready'' then ''Healthy'' else ''NotReady'')"

definition firstConditionMessage :: "Condition list \<Rightarrow> string" where
  "firstConditionMessage conds =
     (case find (\<lambda>c. Status c = ''False'' \<and> Message c \<noteq> '''') conds of
        Some c \<Rightarrow> Message c | None \<Rightarrow> ''provisioning failed; see DPF DPU object for detail'')"

definition Init :: "'w NvidiaVsp \<Rightarrow> bool \<Rightarrow> string \<Rightarrow> 'w \<Rightarrow> (go_error option \<times> 'w NvidiaVsp) \<times> 'w" where
  "Init v0 mode i w =
     (let v = v0\<lparr>dpuMode := mode, dpuID := i\<rparr>; k = kube v; ns = cfg_Namespace (cfg v) in
      if mode then ((None, v), w)
      else case Get k (gvkDPFOperatorConfig, ns, ''dpfoperatorconfig'') w of
        (Inl err, w1) \<Rightarrow> ((Some err, v), w1)
      | (Inr None, w1) \<Rightarrow>
          ((Some (Errorf ''DPF is not installed (no DPFOperatorConfig in %s); refusing to manage %s'' [AStr ns, AStr i]), v), w1)
      | (Inr (Some _), w1) \<Rightarrow>
          (case Ensure k (obj gvkBFB ns (name_bfb (cfg v)) [(''url'', JString (BFBImageURL (cfg v)))]) w1 of
             (Some err, w2) \<Rightarrow> ((Some err, v), w2)
           | (None, w2) \<Rightarrow>
               (case Ensure k (obj gvkDPUFlavor ns (FlavorName (cfg v)) []) w2 of
                  (Some err, w3) \<Rightarrow> ((Some err, v), w3)
                | (None, w3) \<Rightarrow>
                    (case LabelNode k (nodeName v) (provisioningLabel, ''true'') w3 of (e, w4) \<Rightarrow> ((e, v), w4)))))"

definition GetDevices :: "'w NvidiaVsp \<Rightarrow> 'w \<Rightarrow> (go_error + Device gomap) \<times> 'w" where
  "GetDevices v w =
     (case ListVfs (node v) (pfAddress v) w of
        (Inl err, w1) \<Rightarrow> (Inl err, w1)
      | (Inr vfs, w1) \<Rightarrow>
          (case Get (kube v) (gvkDPU, cfg_Namespace (cfg v), name_dpu (dpuID v)) w1 of
             (Inl err, w2) \<Rightarrow> (Inl err, w2)
           | (Inr dpu, w2) \<Rightarrow>
               (let health = (case dpu of None \<Rightarrow> ''unknown'' | Some d \<Rightarrow> healthFromDpuPhase (Phase d))
                in (Inr (fold (\<lambda>vf. AList.update (Address vf) \<lparr>ID = Address vf, Health = health\<rparr>) vfs []), w2))))"

definition SetNumVfs :: "'w NvidiaVsp \<Rightarrow> int \<Rightarrow> 'w \<Rightarrow> (int \<times> go_error option) \<times> 'w" where
  "SetNumVfs v count w =
     (case VfCeiling (node v) (pfAddress v) w of
        (Inl err, w1) \<Rightarrow> ((0, Some err), w1)
      | (Inr ceiling, w1) \<Rightarrow> SetRuntimeVfCount (node v) (pfAddress v) (if ceiling < count then ceiling else count) w1)"

text \<open>One round of the poll: the answer, or nothing when it waited and goes on.\<close>

definition poll_round :: "'w NvidiaVsp \<Rightarrow> 'w runtime \<Rightarrow> time \<Rightarrow> string \<Rightarrow> 'w \<Rightarrow> (go_error + Object) option \<times> 'w" where
  "poll_round v rt deadline name w =
     (case Get (kube v) (gvkDPUServiceInterface, cfg_Namespace (cfg v), name) w of
        (Inl err, w1) \<Rightarrow> (Some (Inl err), w1)
      | (Inr ifc, w1) \<Rightarrow>
          (case (if interfaceReady ifc then ifc else None) of
             Some x \<Rightarrow> (Some (Inr x), w1)
           | None \<Rightarrow>
               (if deadline < Now rt w1
                then (Some (Inl (Errorf ''interface %s not synced within %s'' [AStr name, ADur (AttachPollBudget (cfg v))])), w1)
                else (case wait_or_done rt w1 of (Some e, w2) \<Rightarrow> (Some (Inl e), w2) | (None, w2) \<Rightarrow> (None, w2)))))"

definition pollInterfaceReady :: "'w NvidiaVsp \<Rightarrow> 'w runtime \<Rightarrow> string \<Rightarrow> 'w \<Rightarrow> ((go_error + Object) option \<times> 'w) option" where
  "pollInterfaceReady v rt name w =
     poll_until (\<lambda>_. True) (poll_round v rt (Now rt w + AttachPollBudget (cfg v)) name) (\<lambda>w. w) w"

definition not_synced :: "string \<Rightarrow> go_error" where
  "not_synced name = Errorf ''service interface %s exists but is not synced; attach will be retried'' [AStr name]"

definition interface_spec :: "BridgePortRequest \<Rightarrow> json gomap" where
  "interface_spec req = [(''interfaceType'', JString ''vf''),
     (''vf'', JObject [(''pciAddress'', JString (VfAddress req)), (''vlan'', JNumber (VlanID req))])]"

text \<open>The outer \<open>None\<close>: the call does not return.\<close>

definition CreateBridgePort :: "'w NvidiaVsp \<Rightarrow> 'w runtime \<Rightarrow> BridgePortRequest \<Rightarrow> 'w \<Rightarrow> (go_error option \<times> 'w) option" where
  "CreateBridgePort v rt req w =
     (let name = name_serviceInterface (dpuID v) (VfAddress req); ns = cfg_Namespace (cfg v) in
      case Get (kube v) (gvkDPUServiceInterface, ns, name) w of
        (Inl err, w1) \<Rightarrow> Some (Some err, w1)
      | (Inr (Some ifc), w1) \<Rightarrow> Some (if interfaceReady (Some ifc) then None else Some (not_synced name), w1)
      | (Inr None, w1) \<Rightarrow>
          (case Ensure (kube v) (obj gvkDPUServiceInterface ns name (interface_spec req)) w1 of
             (Some err, w2) \<Rightarrow> Some (Some err, w2)
           | (None, w2) \<Rightarrow>
               (case pollInterfaceReady v rt name w2 of
                  None \<Rightarrow> None
                | Some (Some (Inl err), w3) \<Rightarrow> Some (Some err, w3)
                | Some (Some (Inr ifc), w3) \<Rightarrow> Some (if interfaceReady (Some ifc) then None else Some (not_synced name), w3)
                | Some (None, w3) \<Rightarrow> None)))"

definition DeleteBridgePort :: "'w NvidiaVsp \<Rightarrow> BridgePortRequest \<Rightarrow> 'w \<Rightarrow> go_error option \<times> 'w" where
  "DeleteBridgePort v req = Delete (kube v) (gvkDPUServiceInterface, cfg_Namespace (cfg v), name_serviceInterface (dpuID v) (VfAddress req))"

definition chain_spec :: "string \<Rightarrow> string \<Rightarrow> json gomap" where
  "chain_spec input output = [(''switches'', JArray [JObject [(''ports'', JArray
     [JObject [(''serviceInterface'', JString input)], JObject [(''serviceInterface'', JString output)]])]])]"

definition CreateNetworkFunction :: "'w NvidiaVsp \<Rightarrow> string \<Rightarrow> string \<Rightarrow> string \<Rightarrow> 'w \<Rightarrow> go_error option \<times> 'w" where
  "CreateNetworkFunction v input output bridge =
     Ensure (kube v) (obj gvkDPUServiceChain (cfg_Namespace (cfg v)) (name_serviceChain (dpuID v) bridge input output) (chain_spec input output))"

definition DeleteNetworkFunction :: "'w NvidiaVsp \<Rightarrow> string \<Rightarrow> string \<Rightarrow> string \<Rightarrow> 'w \<Rightarrow> go_error option \<times> 'w" where
  "DeleteNetworkFunction v input output bridge =
     Delete (kube v) (gvkDPUServiceChain, cfg_Namespace (cfg v), name_serviceChain (dpuID v) bridge input output)"

definition SetDpuNetworkConfig :: "bool \<Rightarrow> go_error option" where
  "SetDpuNetworkConfig isAccelerated =
     (if \<not> isAccelerated
      then Some (Errorf ''disabling acceleration at runtime is not supported on nvidia-bf3: offload is set at provisioning time via DPUFlavor'' [])
      else None)"

section \<open>Projection and reconciliation\<close>

definition ProjectDpuConditions :: "Object option \<Rightarrow> bool \<Rightarrow> time \<Rightarrow> Condition list" where
  "ProjectDpuConditions dpu dpuClusterReachable now =
     (let ready = (\<lambda>status reason msg. [\<lparr>Type = ''Ready'', Status = status, Reason = reason, Message = msg, LastTransitionTime = now\<rparr>])
      in case dpu of
        None \<Rightarrow> ready ''False'' ''AwaitingProvisioning'' ''no DPF DPU object observed for this identifier''
      | Some d \<Rightarrow>
          if \<not> dpuClusterReachable
          then ready ''False'' ''DpuClusterUnreachable'' ''datapath unaffected; new attaches will fail until the DPU cluster returns''
          else if Phase d = ''Ready'' then ready ''True'' ''Provisioned'' ''''
          else if Phase d = ''Error'' then ready ''False'' ''ProvisioningFailed'' (firstConditionMessage (Conditions d))
          else ready ''False'' ''Provisioning'' (''DPF phase: '' @ Phase d))"

text \<open>
  The result of a pass: delay, error, the plugin, and the conditions it worked out, which the code drops.\<close>

definition Reconcile :: "'w NvidiaVsp \<Rightarrow> 'w runtime \<Rightarrow> 'w \<Rightarrow> ((duration \<times> go_error option) \<times> 'w NvidiaVsp \<times> Condition list) \<times> 'w" where
  "Reconcile v rt w =
     (if dpuMode v then (((0, None), v, []), w)
      else case Init v (dpuMode v) (dpuID v) w of
        ((Some err, v1), w1) \<Rightarrow> (((10 * second, Some err), v1, []), w1)
      | ((None, v1), w1) \<Rightarrow>
          (case Get (kube v1) (gvkDPU, cfg_Namespace (cfg v1), name_dpu (dpuID v1)) w1 of
             (Inl err, w2) \<Rightarrow> (((10 * second, Some err), v1, []), w2)
           | (Inr dpu, w2) \<Rightarrow> (((minute, None), v1, ProjectDpuConditions dpu True (Now rt w2)), w2)))"

section \<open>The bridge reconciler\<close>

record ManagedComponent =
  comp_Version :: string
  Manage :: bool

record DpuPlatformSpec =
  DpuOperator :: ManagedComponent
  Dpf :: ManagedComponent
  UpgradePolicy :: string

record VersionPair =
  pair_DpuOperator :: string
  pair_Dpf :: string

record VersionMatrix =
  BridgeVersion :: string
  Tested :: "VersionPair list"

definition Supported :: "VersionMatrix \<Rightarrow> string \<Rightarrow> string \<Rightarrow> bool" where
  "Supported m dpuOp dpf = list_ex (\<lambda>p. pair_DpuOperator p = dpuOp \<and> pair_Dpf p = dpf) (Tested m)"

text \<open>The steps are data; the loop over them does nothing yet.\<close>

definition upgradeSequence :: "string list" where
  "upgradeSequence = [''ValidatePairAgainstMatrix'', ''PauseProvisioningIntent'', ''AwaitTerminalDpusNoFlashInFlight'',
     ''UpgradeDpfCrdsThenHelmRelease'', ''GateDpfHealthyDpusReady'', ''ApplyDpuOperatorManifests'',
     ''RecordLastKnownGoodResumeProvisioning'']"

definition bridge_Reconcile :: "VersionMatrix \<Rightarrow> DpuPlatformSpec \<Rightarrow> 'w \<Rightarrow> (duration \<times> go_error option) \<times> 'w" where
  "bridge_Reconcile m spec w =
     (if \<not> Supported m (comp_Version (DpuOperator spec)) (comp_Version (Dpf spec))
      then ((0, Some (Errorf ''version pair (dpu-operator %s, dpf %s) is outside the tested matrix for bridge %s''
                        [AStr (comp_Version (DpuOperator spec)), AStr (comp_Version (Dpf spec)), AStr (BridgeVersion m)])), w)
      else ((minute, None), fold (\<lambda>step w. w) upgradeSequence w))"

section \<open>The pieces without a cluster\<close>

theorem IsDPU_exactly:
  "IsDPU pci seen = Inr True \<longleftrightarrow>
     \<not> IsVF pci \<and> VendorID pci = pciVendorNvidia \<and> DeviceID pci = ''a2dc'' \<and> Serial pci \<noteq> '''' \<and>
     ''nvidia-bf3-'' @ to_lower (Serial pci) \<notin> set seen"
  by (auto simp: IsDPU_def blueFieldDeviceIDs_def GetDpuIdentifier_def list_ex_iff)

theorem projection_ready_iff:
  "\<exists>c. ProjectDpuConditions dpu reach now = [c] \<and> Type c = ''Ready'' \<and>
     (Status c = ''True'' \<longleftrightarrow> reach \<and> (\<exists>d. dpu = Some d \<and> Phase d = ''Ready''))"
  by (cases dpu) (auto simp: ProjectDpuConditions_def Let_def)

text \<open>
  Nothing ever sets the address of the physical function: over any history of the plugin the node
  operations are asked about the empty address.\<close>

inductive plugin_run :: "'w NvidiaVsp \<Rightarrow> 'w NvidiaVsp \<Rightarrow> bool" where
  start: "plugin_run v v"
| init_step: "plugin_run v v1 \<Longrightarrow> Init v1 mode i w = ((e, v2), w') \<Longrightarrow> plugin_run v v2"
| pass_step: "plugin_run v v1 \<Longrightarrow> Reconcile v1 rt w = ((r, v2, cs), w') \<Longrightarrow> plugin_run v v2"

lemma Init_plugin: "Init v mode i w = ((e, v'), w') \<Longrightarrow> v' = v\<lparr>dpuMode := mode, dpuID := i\<rparr>"
  by (auto simp: Init_def Let_def split: if_splits prod.splits sum.splits option.splits)

lemma Reconcile_plugin: "Reconcile v rt w = ((r, v', cs), w') \<Longrightarrow> \<exists>mode i. v' = v\<lparr>dpuMode := mode, dpuID := i\<rparr>"
proof (cases "dpuMode v")
  case True
  assume "Reconcile v rt w = ((r, v', cs), w')"
  then have "v' = v\<lparr>dpuMode := dpuMode v, dpuID := dpuID v\<rparr>" using True by (simp add: Reconcile_def)
  then show ?thesis by blast
next
  case False
  assume p: "Reconcile v rt w = ((r, v', cs), w')"
  obtain e v1 w1 where i: "Init v (dpuMode v) (dpuID v) w = ((e, v1), w1)" by (metis prod.collapse)
  have "v' = v1" using p i False by (auto simp: Reconcile_def split: option.splits prod.splits sum.splits)
  then show ?thesis using Init_plugin [OF i] by blast
qed

theorem pf_address_never_set:
  assumes "plugin_run (NewNvidiaVsp c k n name) v"
  shows "pfAddress v = '''' \<and> cfg v = c \<and> node v = n \<and> kube v = k"
  using assms
proof (induction "NewNvidiaVsp c k n name" v rule: plugin_run.induct)
  case start
  then show ?case by (simp add: NewNvidiaVsp_def)
next
  case (init_step v1 mode i w e v2 w')
  then show ?case using Init_plugin [OF init_step.hyps(3)] by simp
next
  case (pass_step v1 rt w r v2 cs w')
  then show ?case using Reconcile_plugin [OF pass_step.hyps(3)] by auto
qed

section \<open>Names\<close>

definition lower_hex :: "char \<Rightarrow> bool" where "lower_hex c = (c \<in> set ''0123456789abcdef'')"

text \<open>A PCI address of the kernel: \<open>dddd:dd:dd.d\<close> in lower-case hexadecimal.\<close>

definition pci_address :: "string \<Rightarrow> bool" where
  "pci_address s = (length s = 12 \<and> s ! 4 = CHR '':'' \<and> s ! 7 = CHR '':'' \<and> s ! 10 = CHR ''.'' \<and>
     (\<forall>i \<in> {0, 1, 2, 3, 5, 6, 8, 9, 11}. lower_hex (s ! i)))"

lemma twelve: "i < 12 \<Longrightarrow> i \<in> {0, 1, 2, 3, 5, 6, 8, 9, 11} \<or> i = 4 \<or> i = 7 \<or> i = (10 :: nat)"
  unfolding insert_iff empty_iff by arith

lemma lower_hex_name: "lower_hex c \<Longrightarrow> name_char c"
  by (auto simp: lower_hex_def name_char_def is_lower_ascii_def is_digit_def less_eq_char_def)

definition dash_of :: "char \<Rightarrow> char" where
  "dash_of c = (if c \<in> {CHR '':'', CHR ''.'', CHR ''_'', CHR ''/''} then CHR ''-'' else c)"

lemma dash_of_hex: "lower_hex c \<Longrightarrow> dash_of c = c"
  by (auto simp: dash_of_def lower_hex_def)

lemma sanitize_address:
  assumes "pci_address s"
  shows "sanitize s = map dash_of s"
proof -
  have "list_all name_char (map dash_of s)"
    unfolding list_all_length
  proof (intro allI impI)
    fix i assume "i < length (map dash_of s)"
    then have "i < 12" "i < length s" using assms by (simp_all add: pci_address_def)
    then show "name_char (map dash_of s ! i)"
      using twelve [of i] assms dash_of_hex lower_hex_name by (auto simp: pci_address_def dash_of_def name_char_def)
  qed
  then have "to_lower (map dash_of s) = map dash_of s" by (rule to_lower_name)
  then show ?thesis unfolding sanitize_def dash_of_def [abs_def] .
qed

text \<open>The interface names of one unit tell its virtual functions apart.\<close>

theorem interface_names_injective:
  assumes "pci_address a" and "pci_address b"
  shows "name_serviceInterface i a = name_serviceInterface i b \<longleftrightarrow> a = b"
proof
  assume "name_serviceInterface i a = name_serviceInterface i b"
  then have e: "map dash_of a = map dash_of b"
    by (simp add: name_serviceInterface_def sanitize_address assms)
  show "a = b"
  proof (rule nth_equalityI)
    show "length a = length b" using assms by (simp add: pci_address_def)
    fix j assume j: "j < length a"
    then have n: "dash_of (a ! j) = dash_of (b ! j)" and "j < 12"
      using e assms by (metis length_map nth_map, simp add: pci_address_def)
    then show "a ! j = b ! j"
      using twelve [of j] assms dash_of_hex by (auto simp: pci_address_def)
  qed
qed simp

text \<open>
  The chain names do not tell their parts apart: a port name that holds \<open>-to-\<close> can be cut in two ways.\<close>

theorem chain_names_collide:
  "name_serviceChain i ''br'' ''a-to-b'' ''c'' = name_serviceChain i ''br'' ''a'' ''b-to-c'' \<and>
   name_serviceChain i ''br_1'' ''a'' ''b'' = name_serviceChain i ''br-1'' ''a'' ''b''"
proof -
  have "sanitize ''a-to-b'' @ ''-to-'' @ sanitize ''c'' = sanitize ''a'' @ ''-to-'' @ sanitize ''b-to-c''"
    "sanitize ''br_1'' = sanitize ''br-1''" by code_simp+
  then show ?thesis by (simp only: name_serviceChain_def append_assoc)
qed

section \<open>Attaching returns\<close>

text \<open>
  A pod attach comes back, whatever the cluster answers, when reads do not turn the clock back and a wait
  that ends without the context lets at least 250 ms go by.\<close>

theorem attach_returns:
  assumes "\<And>q x. Now rt x \<le> Now rt (snd (Get (kube v) q x))"
    and "\<And>x x'. wait_or_done rt x = (None, x') \<Longrightarrow> Now rt x + 250 * millisecond \<le> Now rt x'"
  shows "\<exists>r. CreateBridgePort v rt req w = Some r"
proof -
  have "\<exists>r x. pollInterfaceReady v rt name u = Some (Some r, x)" for name u
  proof -
    let ?d = "Now rt u + AttachPollBudget (cfg v)"
    have "\<exists>r. poll_until (\<lambda>_. True) (poll_round v rt ?d name) (\<lambda>x. x) u = Some r"
    proof (rule poll_until_terminates [where P = "\<lambda>_. True" and m = "\<lambda>x. nat (?d + 1 - Now rt x)"])
      fix x x' assume p: "poll_round v rt ?d name x = (None, x')"
      obtain a y where a: "Get (kube v) (gvkDPUServiceInterface, cfg_Namespace (cfg v), name) x = (a, y)" by (metis prod.collapse)
      have "\<not> ?d < Now rt y \<and> wait_or_done rt y = (None, x')"
        using p a by (auto simp: poll_round_def split: sum.splits option.splits if_splits prod.splits)
      moreover have "Now rt x \<le> Now rt y" using assms(1) [of x] a by (metis snd_conv)
      ultimately have "Now rt x \<le> ?d" "Now rt x < Now rt x'"
        using assms(2) [of y x'] by (auto simp: millisecond_def)
      then show "True \<and> nat (?d + 1 - Now rt x') < nat (?d + 1 - Now rt x)" by simp
    qed simp
    then obtain r x where r: "pollInterfaceReady v rt name u = Some (r, x)" by (auto simp: pollInterfaceReady_def)
    have "case (r, x) of (None, y) \<Rightarrow> True \<and> \<not> True | (Some z, y) \<Rightarrow> True"
      by (rule poll_until_post [OF r [unfolded pollInterfaceReady_def], where P = "\<lambda>_. True" and Q = "\<lambda>_ _. True"]) simp_all
    then show ?thesis using r by (cases r) auto
  qed
  note poll = this
  obtain a w1 where a: "Get (kube v) (gvkDPUServiceInterface, cfg_Namespace (cfg v), name_serviceInterface (dpuID v) (VfAddress req)) w = (a, w1)"
    by (metis prod.collapse)
  obtain e w2 where e: "Ensure (kube v) (obj gvkDPUServiceInterface (cfg_Namespace (cfg v))
      (name_serviceInterface (dpuID v) (VfAddress req)) (interface_spec req)) w1 = (e, w2)" by (metis prod.collapse)
  obtain r x where "pollInterfaceReady v rt (name_serviceInterface (dpuID v) (VfAddress req)) w2 = Some (Some r, x)"
    using poll by blast
  then show ?thesis using a e by (cases a; cases e; cases r) (auto simp: CreateBridgePort_def Let_def split: option.splits)
qed

section \<open>A cluster\<close>

type_synonym object_id = "GroupVersionKind \<times> string \<times> string"

definition oid :: "Object \<Rightarrow> object_id" where "oid x = (GVK x, Namespace x, Name x)"

record api =
  objs :: "object_id \<Rightarrow> Object option"
  node_labels :: "string \<Rightarrow> string \<Rightarrow> string option"

text \<open>
  The laws of the client: a read gives what is stored, \<open>Ensure\<close> creates or updates the specification and
  leaves the status, a call that fails changes nothing.\<close>

locale ensuring_client =
  fixes K :: "(api \<times> 'v) KubeClient"
  assumes get: "Get K q (m, v) = (a, (m', v')) \<Longrightarrow> m' = m \<and> (\<forall>r. a = Inr r \<longrightarrow> r = objs m q)"
    and ensure: "Ensure K x (m, v) = (e, (m', v')) \<Longrightarrow>
      (if e = None
       then \<exists>y. m' = m\<lparr>objs := (objs m)(oid x \<mapsto> y)\<rparr> \<and> oid y = oid x \<and> Spec y = Spec x \<and>
         (\<forall>z. objs m (oid x) = Some z \<longrightarrow> Conditions y = Conditions z \<and> Phase y = Phase z)
       else m' = m)"
    and label: "LabelNode K n (l, t) (m, v) = (e, (m', v')) \<Longrightarrow>
      (if e = None then m' = m\<lparr>node_labels := (node_labels m)(n := (node_labels m n)(l \<mapsto> t))\<rparr> else m' = m)"
    and delete: "Delete K q (m, v) = (e, (m', v')) \<Longrightarrow>
      node_labels m' = node_labels m \<and> (if e = None then \<forall>p. p \<noteq> q \<longrightarrow> objs m' p = objs m p else m' = m)"
begin

lemma init_writes:
  assumes "kube n = K" and "Init n False i (m, v) = ((e, n'), (m', v'))"
  shows "(node_labels m' = node_labels m \<and> e \<noteq> None) \<or>
    (e = None \<and> node_labels m' = (node_labels m)(nodeName n := (node_labels m (nodeName n))(provisioningLabel \<mapsto> ''true'')) \<and>
     objs m (gvkDPFOperatorConfig, cfg_Namespace (cfg n), ''dpfoperatorconfig'') \<noteq> None \<and>
     map_option Spec (objs m' (gvkBFB, cfg_Namespace (cfg n), name_bfb (cfg n))) = Some [(''url'', JString (BFBImageURL (cfg n)))] \<and>
     map_option Spec (objs m' (gvkDPUFlavor, cfg_Namespace (cfg n), FlavorName (cfg n))) = Some [] \<and>
     (\<forall>q. q \<notin> {(gvkBFB, cfg_Namespace (cfg n), name_bfb (cfg n)), (gvkDPUFlavor, cfg_Namespace (cfg n), FlavorName (cfg n))} \<longrightarrow>
        objs m' q = objs m q))"
proof -
  let ?ns = "cfg_Namespace (cfg n)"
  let ?b = "obj gvkBFB ?ns (name_bfb (cfg n)) [(''url'', JString (BFBImageURL (cfg n)))]"
  let ?f = "obj gvkDPUFlavor ?ns (FlavorName (cfg n)) []"
  obtain a m1 v1 where 1: "Get K (gvkDPFOperatorConfig, ?ns, ''dpfoperatorconfig'') (m, v) = (a, (m1, v1))" by (metis prod.collapse)
  obtain e2 m2 v2 where 2: "Ensure K ?b (m1, v1) = (e2, (m2, v2))" by (metis prod.collapse)
  obtain e3 m3 v3 where 3: "Ensure K ?f (m2, v2) = (e3, (m3, v3))" by (metis prod.collapse)
  obtain e4 m4 v4 where 4: "LabelNode K (nodeName n) (provisioningLabel, ''true'') (m3, v3) = (e4, (m4, v4))" by (metis prod.collapse)
  note k1 = get [OF 1] and k2 = ensure [OF 2] and k3 = ensure [OF 3] and k4 = label [OF 4]
  have lab: "node_labels m2 = node_labels m1" "node_labels m3 = node_labels m2"
    using k2 k3 by (auto split: if_splits)
  show ?thesis
  proof (cases "\<exists>x. a = Inr (Some x) \<and> e2 = None \<and> e3 = None \<and> e4 = None")
    case False
    then show ?thesis using assms 1 2 3 4 k1 k4 lab
      by (cases a; cases e2; cases e3; cases e4) (auto simp: Init_def Let_def split: option.splits)
  next
    case True
    then obtain x where x: "a = Inr (Some x)" "e2 = None" "e3 = None" "e4 = None" by blast
    then have r: "e = None" "m' = m4" using assms 1 2 3 4 by (auto simp: Init_def Let_def)
    obtain y where y: "m2 = m1\<lparr>objs := (objs m1)(oid ?b \<mapsto> y)\<rparr>" "Spec y = Spec ?b" using k2 x by auto
    obtain z where z: "m3 = m2\<lparr>objs := (objs m2)(oid ?f \<mapsto> z)\<rparr>" "Spec z = Spec ?f" using k3 x by auto
    have "gvkBFB \<noteq> gvkDPUFlavor" "gvkDPUFlavor \<noteq> gvkBFB" by (simp_all add: bf_gvk_defs)
    moreover have "objs m (gvkDPFOperatorConfig, ?ns, ''dpfoperatorconfig'') = Some x" using k1 x(1) by metis
    ultimately show ?thesis using r k1 [THEN conjunct1] k4 x(4) y z by (auto simp: obj_def oid_def)
  qed
qed

lemma attach_observed:
  assumes "kube n = K" and "CreateBridgePort n rt req (m, v) = Some (None, (m', v'))"
  shows "(\<exists>x. objs m' (gvkDPUServiceInterface, cfg_Namespace (cfg n), name_serviceInterface (dpuID n) (VfAddress req)) = Some x \<and>
      interfaceReady (Some x)) \<and>
    (objs m (gvkDPUServiceInterface, cfg_Namespace (cfg n), name_serviceInterface (dpuID n) (VfAddress req)) \<noteq> None \<longrightarrow> m' = m)"
proof -
  let ?q = "(gvkDPUServiceInterface, cfg_Namespace (cfg n), name_serviceInterface (dpuID n) (VfAddress req))"
  let ?x = "obj gvkDPUServiceInterface (cfg_Namespace (cfg n)) (name_serviceInterface (dpuID n) (VfAddress req)) (interface_spec req)"
  obtain a m1 v1 where 1: "Get K ?q (m, v) = (a, (m1, v1))" by (metis prod.collapse)
  note k1 = get [OF 1]
  have seen: "objs (fst w') ?q = Some z \<and> interfaceReady (Some z)"
    if "poll_round n rt d (name_serviceInterface (dpuID n) (VfAddress req)) w = (Some (Inr z), w')" for d w w' z
  proof -
    obtain b m5 v5 where b: "Get K ?q (fst w, snd w) = (b, (m5, v5))" by (metis prod.collapse)
    show ?thesis using that b get [OF b] assms(1)
      by (auto simp: poll_round_def split: sum.splits option.splits if_splits prod.splits)
  qed
  show ?thesis
  proof (cases "objs m ?q")
    case (Some x)
    have "\<exists>z. a = Inr (Some z) \<and> interfaceReady (Some z) \<and> m' = m1"
      using assms 1 k1 Some by (cases a) (auto simp: CreateBridgePort_def Let_def split: if_splits)
    then show ?thesis using k1 by metis
  next
    case None
    obtain e m2 v2 where 2: "Ensure K ?x (m1, v1) = (e, (m2, v2))" by (metis prod.collapse)
    have a: "a = Inr None" using assms 1 k1 None by (cases a) (auto simp: CreateBridgePort_def Let_def)
    have "e = None" using assms 1 2 a by (cases e) (auto simp: CreateBridgePort_def Let_def)
    then obtain z where z: "pollInterfaceReady n rt (name_serviceInterface (dpuID n) (VfAddress req)) (m2, v2) = Some (Some (Inr z), (m', v'))"
      using assms 1 2 a by (auto simp: CreateBridgePort_def Let_def split: option.splits sum.splits if_splits)
    note post = poll_until_post [OF z [unfolded pollInterfaceReady_def], where P = "\<lambda>_. True" and
        Q = "\<lambda>r w'. \<forall>x. r = Inr x \<longrightarrow> objs (fst w') ?q = Some x \<and> interfaceReady (Some x)"]
    have "objs m' ?q = Some z \<and> interfaceReady (Some z)"
      by (rule post [simplified]) (use seen in \<open>auto\<close>)
    then show ?thesis using None by auto
  qed
qed

end

text \<open>
  Provisioning is asked for last: \<open>Init\<close> on a host labels the node exactly when it succeeds, and it does
  only where DPF is installed and with the image and the flavor in place.  It leaves the flavor empty,
  whatever its specification was.\<close>

theorem label_comes_last:
  assumes "ensuring_client K" and "kube n = K" and "Init n False i (m, v) = ((e, n'), (m', v'))"
  shows "(node_labels m' = node_labels m \<and> e \<noteq> None) \<or>
    (e = None \<and> node_labels m' = (node_labels m)(nodeName n := (node_labels m (nodeName n))(provisioningLabel \<mapsto> ''true'')) \<and>
     objs m (gvkDPFOperatorConfig, cfg_Namespace (cfg n), ''dpfoperatorconfig'') \<noteq> None \<and>
     map_option Spec (objs m' (gvkBFB, cfg_Namespace (cfg n), name_bfb (cfg n))) = Some [(''url'', JString (BFBImageURL (cfg n)))] \<and>
     map_option Spec (objs m' (gvkDPUFlavor, cfg_Namespace (cfg n), FlavorName (cfg n))) = Some [] \<and>
     (\<forall>q. q \<notin> {(gvkBFB, cfg_Namespace (cfg n), name_bfb (cfg n)), (gvkDPUFlavor, cfg_Namespace (cfg n), FlavorName (cfg n))} \<longrightarrow>
        objs m' q = objs m q))"
  by (rule ensuring_client.init_writes [OF assms])

text \<open>
  C28.  An attach that is acknowledged found the interface object of the virtual function synced.  When the
  object was there already the call has written nothing: the VLAN of the request is not compared with the
  one in the object.\<close>

theorem attach_means_synced:
  assumes "ensuring_client K" and "kube n = K" and "CreateBridgePort n rt req (m, v) = Some (None, (m', v'))"
  shows "(\<exists>x. objs m' (gvkDPUServiceInterface, cfg_Namespace (cfg n), name_serviceInterface (dpuID n) (VfAddress req)) = Some x \<and>
      interfaceReady (Some x)) \<and>
    (objs m (gvkDPUServiceInterface, cfg_Namespace (cfg n), name_serviceInterface (dpuID n) (VfAddress req)) \<noteq> None \<longrightarrow> m' = m)"
  by (rule ensuring_client.attach_observed [OF assms])

section \<open>A cluster in memory\<close>

text \<open>The second part of the state is the clock; during a wait DPF brings every interface to ready.\<close>

definition bf_kube :: "(api \<times> time) KubeClient" where
  "bf_kube =
     \<lparr>Ensure = (\<lambda>x w. if Name x = '''' then (Some (External ''name is required''), w)
        else (None, ((fst w)\<lparr>objs := (objs (fst w))(oid x \<mapsto>
          (case objs (fst w) (oid x) of None \<Rightarrow> x | Some z \<Rightarrow> x\<lparr>Conditions := Conditions z, Phase := Phase z\<rparr>))\<rparr>, snd w))),
      Get = (\<lambda>q w. (Inr (objs (fst w) q), w)),
      Delete = (\<lambda>q w. (None, ((fst w)\<lparr>objs := (objs (fst w))(q := None)\<rparr>, snd w))),
      LabelNode = (\<lambda>n lt w. (None, ((fst w)\<lparr>node_labels := (node_labels (fst w))(n := (node_labels (fst w) n)(fst lt \<mapsto> snd lt))\<rparr>, snd w)))\<rparr>"

definition made_ready :: "Object \<Rightarrow> Object" where
  "made_ready x = x\<lparr>Conditions := [\<lparr>Type = ''Ready'', Status = ''True'', Reason = '''', Message = '''', LastTransitionTime = 0\<rparr>]\<rparr>"

definition bf_runtime :: "(api \<times> time) runtime" where
  "bf_runtime = \<lparr>Now = snd,
     wait_or_done = (\<lambda>w. (None, ((fst w)\<lparr>objs := (\<lambda>q. map_option made_ready (objs (fst w) q))\<rparr>, snd w + 250 * millisecond)))\<rparr>"

lemma bf_client: "ensuring_client bf_kube"
proof
  fix x m v e m' v'
  assume "Ensure bf_kube x (m, v) = (e, (m', v'))"
  then show "if e = None
       then \<exists>y. m' = m\<lparr>objs := (objs m)(oid x \<mapsto> y)\<rparr> \<and> oid y = oid x \<and> Spec y = Spec x \<and>
         (\<forall>z. objs m (oid x) = Some z \<longrightarrow> Conditions y = Conditions z \<and> Phase y = Phase z)
       else m' = m"
    by (cases "objs m (oid x)") (auto simp: bf_kube_def oid_def split: if_splits)
qed (auto simp: bf_kube_def)

interpretation bf: ensuring_client bf_kube
  by (rule bf_client)

definition bf_cfg :: vsp_config where
  "bf_cfg = \<lparr>cfg_Namespace = ''dpf'', BFBImageURL = ''http://bfb'', FlavorName = ''fl'', DpuSetName = ''set'', AttachPollBudget = second\<rparr>"

definition bf_node :: "(api \<times> time) NodeOps" where
  "bf_node = \<lparr>SetRuntimeVfCount = (\<lambda>_ n w. ((n, None), w)), VfCeiling = (\<lambda>_ w. (Inr 16, w)), ListVfs = (\<lambda>_ w. (Inr [], w))\<rparr>"

definition bf_vsp :: "(api \<times> time) NvidiaVsp" where "bf_vsp = NewNvidiaVsp bf_cfg bf_kube bf_node ''n1''"

definition bf_world :: api where
  "bf_world = \<lparr>objs = [(gvkDPFOperatorConfig, ''dpf'', ''dpfoperatorconfig'') \<mapsto> obj gvkDPFOperatorConfig ''dpf'' ''dpfoperatorconfig'' []],
     node_labels = (\<lambda>_ _. None)\<rparr>"

definition bf_req :: BridgePortRequest where
  "bf_req = \<lparr>br_Name = ''p'', MacAddress = '''', VlanID = 7, VfAddress = ''0000:03:00.2''\<rparr>"

definition bf_key :: object_id where "bf_key = (gvkDPUServiceInterface, ''dpf'', name_serviceInterface '''' ''0000:03:00.2'')"

theorem pf_address_never_set_witness:
  "\<exists>v. fst (fst (Init bf_vsp False ''d'' (bf_world, 0))) = None \<and> snd (fst (Init bf_vsp False ''d'' (bf_world, 0))) = v \<and> pfAddress v = ''''"
proof -
  obtain e v w where i: "Init bf_vsp False ''d'' (bf_world, 0) = ((e, v), w)" by (metis prod.collapse)
  have "fst (fst (Init bf_vsp False ''d'' (bf_world, 0))) = None" by code_simp
  moreover have "plugin_run (NewNvidiaVsp bf_cfg bf_kube bf_node ''n1'') v"
    using plugin_run.start plugin_run.init_step i unfolding bf_vsp_def by metis
  ultimately show ?thesis using pf_address_never_set i by (metis fst_conv snd_conv)
qed

theorem interface_names_injective_witness:
  "name_serviceInterface ''d'' ''0000:03:00.2'' \<noteq> name_serviceInterface ''d'' ''0000:03:00.3''"
proof -
  have "pci_address ''0000:03:00.2''" "pci_address ''0000:03:00.3''"
    by (simp_all add: pci_address_def lower_hex_def)
  from interface_names_injective [OF this] show ?thesis by simp
qed

theorem label_comes_last_witness:
  "\<exists>m'. fst (snd (Init bf_vsp False ''d'' (bf_world, 0))) = m' \<and> node_labels m' ''n1'' provisioningLabel = Some ''true'' \<and>
     map_option Spec (objs m' (gvkDPUFlavor, ''dpf'', ''fl'')) = Some []"
proof -
  obtain e n' m' v' where i: "Init bf_vsp False ''d'' (bf_world, 0) = ((e, n'), (m', v'))" by (metis prod.collapse)
  have e: "e = None"
  proof -
    have "fst (fst (Init bf_vsp False ''d'' (bf_world, 0))) = None" by code_simp
    then show ?thesis by (simp add: i)
  qed
  have k: "kube bf_vsp = bf_kube" "cfg bf_vsp = bf_cfg" "nodeName bf_vsp = ''n1''" by (simp_all add: bf_vsp_def NewNvidiaVsp_def)
  show ?thesis using label_comes_last [OF bf_client k(1) i] e k(2,3) i by (simp add: bf_cfg_def)
qed

declare poll_until.simps [code]

lemma bf_attaches: "map_option fst (CreateBridgePort bf_vsp bf_runtime bf_req (bf_world, 0)) = Some None"
  by code_simp

theorem attach_means_synced_witness:
  "\<exists>m' v'. CreateBridgePort bf_vsp bf_runtime bf_req (bf_world, 0) = Some (None, (m', v')) \<and>
     (\<exists>x. objs m' bf_key = Some x \<and> interfaceReady (Some x))"
proof -
  obtain m' v' where c: "CreateBridgePort bf_vsp bf_runtime bf_req (bf_world, 0) = Some (None, (m', v'))"
    using bf_attaches by (cases "CreateBridgePort bf_vsp bf_runtime bf_req (bf_world, 0)") auto
  have k: "kube bf_vsp = bf_kube" "cfg_Namespace (cfg bf_vsp) = ''dpf''" "dpuID bf_vsp = ''''" "VfAddress bf_req = ''0000:03:00.2''"
    by (simp_all add: bf_vsp_def NewNvidiaVsp_def bf_cfg_def bf_req_def)
  show ?thesis
    using attach_means_synced [OF bf_client k(1) c] c unfolding k(2-4) bf_key_def [symmetric] by blast
qed

theorem attach_returns_witness:
  "\<exists>r. CreateBridgePort bf_vsp bf_runtime bf_req (bf_world, 0) = Some r"
proof (rule attach_returns)
  show "Now bf_runtime x \<le> Now bf_runtime (snd (Get (kube bf_vsp) q x))" for q x
    by (simp add: bf_runtime_def bf_vsp_def NewNvidiaVsp_def bf_kube_def)
  show "Now bf_runtime x + 250 * millisecond \<le> Now bf_runtime x'" if "wait_or_done bf_runtime x = (None, x')" for x x'
    using that by (auto simp: bf_runtime_def)
qed


end
