(* ===== verification/UnitAdapter.thy ===== *)
theory UnitAdapter
  imports Prelude
begin

text \<open>
  \<open>vedant21-ctr/feature_skeleton.go\<close>: the reconciler that gives every BlueField unit a DPU set of DPF,
  mirrors the phase of the set as a condition of the unit, and takes the set away before it lets the unit
  go.  First the code, then what it promises over an API server.
\<close>

section \<open>Objects\<close>

record Condition =
  Type :: string
  Status :: string
  Reason :: string
  Message :: message
  LastTransitionTime :: time
  ObservedGeneration :: int

record ObjectMeta =
  Name :: string
  Namespace :: string
  ResourceVersion :: string
  Generation :: int
  DeletionTimestamp :: "time option"
  Finalizers :: "string list"

record DataProcessingUnitSpec =
  DpuProductName :: string
  NodeName :: string

record DataProcessingUnit =
  unit_meta :: ObjectMeta
  unit_Spec :: DataProcessingUnitSpec
  Conditions :: "Condition list"

record DPUSetSpec =
  NodeSelector :: "string gomap"
  FlavorRef :: string
  BFBRef :: string

record DPUSet =
  set_meta :: ObjectMeta
  set_Spec :: DPUSetSpec
  Phase :: string

definition FinalizerName :: string where "FinalizerName = ''opi.nvidia.adapter/cleanup''"
definition TargetVendorName :: string where "TargetVendorName = ''nvidia-bluefield-3''"
definition dpfNamespace :: string where "dpfNamespace = ''dpf-operator-system''"

type_synonym key = "string \<times> string"

text \<open>The client; \<open>Update\<close> decodes the answer of the server, which no code reads.\<close>

record 'w Client =
  get_unit :: "key \<Rightarrow> 'w \<Rightarrow> (go_error + DataProcessingUnit) \<times> 'w"
  update_unit :: "DataProcessingUnit \<Rightarrow> 'w \<Rightarrow> go_error option \<times> 'w"
  status_unit :: "DataProcessingUnit \<Rightarrow> 'w \<Rightarrow> go_error option \<times> 'w"
  get_set :: "key \<Rightarrow> 'w \<Rightarrow> (go_error + DPUSet) \<times> 'w"
  create_set :: "DPUSet \<Rightarrow> 'w \<Rightarrow> go_error option \<times> 'w"
  delete_set :: "DPUSet \<Rightarrow> 'w \<Rightarrow> go_error option \<times> 'w"

record machinery =
  IsNotFound :: "go_error \<Rightarrow> bool"
  ContainsFinalizer :: "string list \<Rightarrow> string \<Rightarrow> bool"
  AddFinalizer :: "string list \<Rightarrow> string \<Rightarrow> string list"
  RemoveFinalizer :: "string list \<Rightarrow> string \<Rightarrow> string list"

record 'w NvidiaAdapterReconciler =
  rec_Client :: "'w Client"
  rec_lib :: machinery

definition is_zero_time :: "time option \<Rightarrow> bool" where
  "is_zero_time t = (case t of None \<Rightarrow> True | Some x \<Rightarrow> x = zero_time)"

section \<open>The reconciler\<close>

definition set_name :: "DataProcessingUnit \<Rightarrow> string" where "set_name dpu = ''dpuset-'' @ Name (unit_meta dpu)"

definition translateSpec :: "DataProcessingUnit \<Rightarrow> DPUSetSpec" where
  "translateSpec dpu = \<lparr>NodeSelector = [(''kubernetes.io/hostname'', NodeName (unit_Spec dpu))],
     FlavorRef = ''default-bluefield3-flavor'', BFBRef = ''pinned-bfb-image-reference''\<rparr>"

definition new_set :: "DataProcessingUnit \<Rightarrow> DPUSet" where
  "new_set dpu = \<lparr>set_meta = \<lparr>Name = set_name dpu, Namespace = dpfNamespace, ResourceVersion = '''', Generation = 0,
       DeletionTimestamp = None, Finalizers = []\<rparr>,
     set_Spec = translateSpec dpu, Phase = ''''\<rparr>"

definition phase_condition :: "string \<Rightarrow> string \<times> string" where
  "phase_condition phase =
     (if phase = ''Initializing'' \<or> phase = ''Pending'' then (''False'', ''ProvisioningInProgress'')
      else if phase = ''Rebooting'' then (''Unknown'', ''DeviceRebooting'')
      else if phase = ''Ready'' then (''True'', ''ProvisioningComplete'')
      else if phase = ''Error'' \<or> phase = ''ProvisioningError'' then (''False'', ''ProvisioningFailed'')
      else (''Unknown'', ''UnknownState''))"

fun put_ready :: "Condition \<Rightarrow> Condition list \<Rightarrow> Condition list" where
  "put_ready condition [] = [condition]"
| "put_ready condition (c # cs) = (if Type c = ''Ready'' then condition # cs else c # put_ready condition cs)"

definition syncStatus :: "'w NvidiaAdapterReconciler \<Rightarrow> time \<Rightarrow> DataProcessingUnit \<Rightarrow> string \<Rightarrow> message \<Rightarrow> 'w \<Rightarrow> go_error option \<times> 'w" where
  "syncStatus r now dpu phase msg w =
     (case phase_condition phase of (conditionStatus, reason) \<Rightarrow>
        let condition = \<lparr>Type = ''Ready'', Status = conditionStatus, Reason = reason, Message = msg,
              LastTransitionTime = now, ObservedGeneration = Generation (unit_meta dpu)\<rparr>
        in case status_unit (rec_Client r) (dpu\<lparr>Conditions := put_ready condition (Conditions dpu)\<rparr>) w of
             (Some err, w1) \<Rightarrow> (Some (Errorf ''failed to commit status update: %w'' [AWrap err]), w1)
           | (None, w1) \<Rightarrow> (None, w1))"

definition ensureDPFResources :: "'w NvidiaAdapterReconciler \<Rightarrow> DataProcessingUnit \<Rightarrow> 'w \<Rightarrow> go_error option \<times> 'w" where
  "ensureDPFResources r dpu w =
     (case get_set (rec_Client r) (dpfNamespace, set_name dpu) w of
        (Inl err, w1) \<Rightarrow>
          if IsNotFound (rec_lib r) err
          then (case create_set (rec_Client r) (new_set dpu) w1 of
                  (Some e, w2) \<Rightarrow> (Some (Errorf ''failed to spawn child DPUSet: %w'' [AWrap e]), w2)
                | (None, w2) \<Rightarrow> (None, w2))
          else (Some (Errorf ''failed to check child DPUSet: %w'' [AWrap err]), w1)
      | (Inr _, w1) \<Rightarrow> (None, w1))"

definition cleanupDPFResources :: "'w NvidiaAdapterReconciler \<Rightarrow> DataProcessingUnit \<Rightarrow> 'w \<Rightarrow> (go_error + bool) \<times> 'w" where
  "cleanupDPFResources r dpu w =
     (case get_set (rec_Client r) (dpfNamespace, set_name dpu) w of
        (Inl err, w1) \<Rightarrow>
          (if IsNotFound (rec_lib r) err then Inr True
           else Inl (Errorf ''failed to query child DPUSet during deletion check: %w'' [AWrap err]), w1)
      | (Inr dpuset, w1) \<Rightarrow>
          if is_zero_time (DeletionTimestamp (set_meta dpuset))
          then (case delete_set (rec_Client r) dpuset w1 of
                  (Some e, w2) \<Rightarrow> (Inl (Errorf ''failed to delete child DPUSet: %w'' [AWrap e]), w2)
                | (None, w2) \<Rightarrow> (Inr False, w2))
          else (Inr False, w1))"

text \<open>The result of a pass: the delay, whether to come back at once, and the error.\<close>

type_synonym 'w pass = "((duration \<times> bool) \<times> go_error option) \<times> 'w"

definition reconcileDelete :: "'w NvidiaAdapterReconciler \<Rightarrow> DataProcessingUnit \<Rightarrow> 'w \<Rightarrow> 'w pass" where
  "reconcileDelete r dpu w =
     (case cleanupDPFResources r dpu w of
        (Inl err, w1) \<Rightarrow> (((0, False), Some (Errorf ''failed during child resource deletion: %w'' [AWrap err])), w1)
      | (Inr completed, w1) \<Rightarrow>
          if \<not> completed then (((10 * second, False), None), w1)
          else (case update_unit (rec_Client r) (dpu\<lparr>unit_meta := (unit_meta dpu)
                         \<lparr>Finalizers := RemoveFinalizer (rec_lib r) (Finalizers (unit_meta dpu)) FinalizerName\<rparr>\<rparr>) w1 of
                  (Some e, w2) \<Rightarrow> (((0, False), Some (Errorf ''failed to remove finalizer: %w'' [AWrap e])), w2)
                | (None, w2) \<Rightarrow> (((0, False), None), w2)))"

text \<open>Step 6: the phase of the set, back onto the unit.\<close>

definition mirror_phase :: "'w NvidiaAdapterReconciler \<Rightarrow> time \<Rightarrow> DataProcessingUnit \<Rightarrow> 'w \<Rightarrow> 'w pass" where
  "mirror_phase r now dpu w =
     (case get_set (rec_Client r) (dpfNamespace, set_name dpu) w of
        (Inl err, w1) \<Rightarrow>
          (if IsNotFound (rec_lib r) err then ((5 * second, False), None)
           else ((0, False), Some (Errorf ''failed to get DPF DPUSet status: %w'' [AWrap err])), w1)
      | (Inr dpuset, w1) \<Rightarrow>
          (case syncStatus r now dpu (Phase dpuset) (Text ''DPF resources actively reconciling'') w1 of
             (Some e, w2) \<Rightarrow> (((0, False), Some (Errorf ''failed to propagate device status: %w'' [AWrap e])), w2)
           | (None, w2) \<Rightarrow> (((30 * second, False), None), w2)))"

definition Reconcile :: "'w NvidiaAdapterReconciler \<Rightarrow> time \<Rightarrow> key \<Rightarrow> 'w \<Rightarrow> 'w pass" where
  "Reconcile r now req w =
     (case get_unit (rec_Client r) req w of
        (Inl err, w1) \<Rightarrow>
          (((0, False), if IsNotFound (rec_lib r) err then None
             else Some (Errorf ''failed to fetch DataProcessingUnit: %w'' [AWrap err])), w1)
      | (Inr dpu, w1) \<Rightarrow>
          if DpuProductName (unit_Spec dpu) \<noteq> TargetVendorName then (((0, False), None), w1)
          else if \<not> is_zero_time (DeletionTimestamp (unit_meta dpu)) then reconcileDelete r dpu w1
          else if \<not> ContainsFinalizer (rec_lib r) (Finalizers (unit_meta dpu)) FinalizerName
          then (case update_unit (rec_Client r) (dpu\<lparr>unit_meta := (unit_meta dpu)
                         \<lparr>Finalizers := AddFinalizer (rec_lib r) (Finalizers (unit_meta dpu)) FinalizerName\<rparr>\<rparr>) w1 of
                  (Some e, w2) \<Rightarrow> (((0, False), Some (Errorf ''failed to register finalizer: %w'' [AWrap e])), w2)
                | (None, w2) \<Rightarrow> (((0, True), None), w2))
          else (case ensureDPFResources r dpu w1 of
                  (Some err, w2) \<Rightarrow>
                    (case syncStatus r now dpu ''ProvisioningError'' (Sprintf ''%s'' [AErr err]) w2 of
                       (_, w3) \<Rightarrow> (((0, False), Some err), w3))
                | (None, w2) \<Rightarrow> mirror_phase r now dpu w2))"

section \<open>An API server\<close>

definition meta_key :: "ObjectMeta \<Rightarrow> key" where "meta_key x = (Namespace x, Name x)"
definition unit_key :: "DataProcessingUnit \<Rightarrow> key" where "unit_key d = meta_key (unit_meta d)"
definition set_key :: "DPUSet \<Rightarrow> key" where "set_key s = meta_key (set_meta s)"

definition set_of :: "key \<Rightarrow> key" where "set_of q = (dpfNamespace, ''dpuset-'' @ snd q)"

lemma set_of_unit: "set_of (unit_key d) = (dpfNamespace, set_name d)"
  by (simp add: set_of_def unit_key_def meta_key_def set_name_def)

record api =
  units :: "key \<Rightarrow> DataProcessingUnit option"
  dpusets :: "key \<Rightarrow> DPUSet option"

definition finalizer_lib :: "machinery \<Rightarrow> bool" where
  "finalizer_lib k =
     ((\<forall>fs f. ContainsFinalizer k fs f = (f \<in> set fs)) \<and> (\<forall>fs f. set (AddFinalizer k fs f) = insert f (set fs)) \<and>
      (\<forall>fs f. set (RemoveFinalizer k fs f) = set fs - {f}))"

text \<open>
  The laws: a call that fails changes nothing; a write of a unit changes that unit only, of its status the
  conditions only; a creation finds the name free; a deletion removes the set or marks it as being deleted.\<close>

locale unit_server =
  fixes k :: machinery
    and C :: "(api \<times> 'v) Client"
  assumes read: "get_unit C q (m, v) = (a, (m', v')) \<Longrightarrow>
      m' = m \<and> (case a of Inr d \<Rightarrow> units m q = Some d \<and> unit_key d = q | Inl e \<Rightarrow> IsNotFound k e \<longrightarrow> units m q = None)"
    and read_set: "get_set C p (m, v) = (b, (m', v')) \<Longrightarrow>
      m' = m \<and> (case b of Inr s \<Rightarrow> dpusets m p = Some s \<and> set_key s = p | Inl e \<Rightarrow> IsNotFound k e \<longrightarrow> dpusets m p = None)"
    and update_effect: "update_unit C d (m, v) = (e, (m', v')) \<Longrightarrow>
      m' = m\<lparr>units := units m'\<rparr> \<and> (\<forall>q. q \<noteq> unit_key d \<longrightarrow> units m' q = units m q) \<and>
      (if e = None then \<forall>d'. units m' (unit_key d) = Some d' \<longrightarrow> Finalizers (unit_meta d') = Finalizers (unit_meta d) else m' = m)"
    and status_effect: "status_unit C d (m, v) = (e, (m', v')) \<Longrightarrow>
      (if e = None
       then \<exists>old rv. units m (unit_key d) = Some old \<and>
         m' = m\<lparr>units := (units m)(unit_key d \<mapsto> old\<lparr>unit_meta := (unit_meta old)\<lparr>ResourceVersion := rv\<rparr>, Conditions := Conditions d\<rparr>)\<rparr>
       else m' = m)"
    and create_effect: "create_set C s (m, v) = (e, (m', v')) \<Longrightarrow>
      (if e = None
       then dpusets m (set_key s) = None \<and>
         (\<exists>s'. m' = m\<lparr>dpusets := (dpusets m)(set_key s \<mapsto> s')\<rparr> \<and> set_key s' = set_key s \<and> set_Spec s' = set_Spec s)
       else m' = m)"
    and delete_effect: "delete_set C s (m, v) = (e, (m', v')) \<Longrightarrow>
      (if e = None
       then m' = m\<lparr>dpusets := (dpusets m)(set_key s := dpusets m' (set_key s))\<rparr> \<and>
         (\<forall>s'. dpusets m' (set_key s) = Some s' \<longrightarrow> \<not> is_zero_time (DeletionTimestamp (set_meta s')) \<and>
            (\<exists>old. dpusets m (set_key s) = Some old \<and> set_Spec s' = set_Spec old))
       else m' = m)"

definition unit_adapter :: "(api \<times> 'v) Client \<Rightarrow> machinery \<Rightarrow> (api \<times> 'v) NvidiaAdapterReconciler" where
  "unit_adapter C k = \<lparr>rec_Client = C, rec_lib = k\<rparr>"

lemma unit_adapter_sel [simp]: "rec_Client (unit_adapter C k) = C" "rec_lib (unit_adapter C k) = k"
  by (simp_all add: unit_adapter_def)

text \<open>A unit as it is but for its conditions and its resource version.\<close>

definition same_unit :: "DataProcessingUnit \<Rightarrow> DataProcessingUnit \<Rightarrow> bool" where
  "same_unit d d' = (\<exists>rv cs. d' = d\<lparr>unit_meta := (unit_meta d)\<lparr>ResourceVersion := rv\<rparr>, Conditions := cs\<rparr>)"

lemma same_unit_refl [simp]: "same_unit d d"
  unfolding same_unit_def by (intro exI [of _ "ResourceVersion (unit_meta d)"] exI [of _ "Conditions d"]) simp

lemma same_unitD: "same_unit d d' \<Longrightarrow> Finalizers (unit_meta d') = Finalizers (unit_meta d) \<and> unit_key d' = unit_key d \<and> unit_Spec d' = unit_Spec d"
  by (auto simp: same_unit_def unit_key_def meta_key_def)

definition ready_of :: "DataProcessingUnit \<Rightarrow> Condition option" where
  "ready_of d = find (\<lambda>c. Type c = ''Ready'') (Conditions d)"

lemma find_put_ready: "Type c = ''Ready'' \<Longrightarrow> find (\<lambda>x. Type x = ''Ready'') (put_ready c cs) = Some c"
  by (induction cs) auto

context unit_server
begin

lemma sync_effect:
  assumes "syncStatus (unit_adapter C k) now d phase msg (m, v) = (e, (m', v'))" and "units m (unit_key d) = Some d"
  shows "dpusets m' = dpusets m" and "\<exists>d'. units m' = (units m)(unit_key d \<mapsto> d') \<and> same_unit d d' \<and>
      (e = None \<longrightarrow> ready_of d' = Some \<lparr>Type = ''Ready'', Status = fst (phase_condition phase), Reason = snd (phase_condition phase),
         Message = msg, LastTransitionTime = now, ObservedGeneration = Generation (unit_meta d)\<rparr>)"
proof -
  let ?c = "\<lparr>Type = ''Ready'', Status = fst (phase_condition phase), Reason = snd (phase_condition phase),
         Message = msg, LastTransitionTime = now, ObservedGeneration = Generation (unit_meta d)\<rparr>"
  let ?d = "d\<lparr>Conditions := put_ready ?c (Conditions d)\<rparr>"
  obtain u m1 v1 where u: "status_unit C ?d (m, v) = (u, (m1, v1))" by (metis prod.collapse)
  have r: "m' = m1 \<and> (e = None \<longleftrightarrow> u = None)"
    using assms(1) u by (auto simp: syncStatus_def Let_def case_prod_unfold split: option.splits)
  have k: "unit_key ?d = unit_key d" by (simp add: unit_key_def)
  note s = status_effect [OF u, unfolded k]
  have "dpusets m' = dpusets m \<and> (\<exists>d'. units m' = (units m)(unit_key d \<mapsto> d') \<and> same_unit d d' \<and> (e = None \<longrightarrow> ready_of d' = Some ?c))"
  proof (cases u)
    case (Some x)
    then have "m' = m" "e \<noteq> None" using s r by auto
    then show ?thesis using assms(2) by (auto intro!: exI [of _ d])
  next
    case None
    then obtain rv where m': "m' = m\<lparr>units := (units m)(unit_key d \<mapsto>
        d\<lparr>unit_meta := (unit_meta d)\<lparr>ResourceVersion := rv\<rparr>, Conditions := put_ready ?c (Conditions d)\<rparr>)\<rparr>"
      using s r assms(2) by auto
    let ?e = "d\<lparr>unit_meta := (unit_meta d)\<lparr>ResourceVersion := rv\<rparr>, Conditions := put_ready ?c (Conditions d)\<rparr>"
    have "same_unit d ?e" unfolding same_unit_def by blast
    moreover have "ready_of ?e = Some ?c" by (simp add: ready_of_def find_put_ready)
    ultimately show ?thesis using m' by (intro conjI exI [of _ ?e]) simp_all
  qed
  then show "dpusets m' = dpusets m" and "\<exists>d'. units m' = (units m)(unit_key d \<mapsto> d') \<and> same_unit d d' \<and> (e = None \<longrightarrow> ready_of d' = Some ?c)"
    by blast+
qed

lemma ensure_set:
  assumes "ensureDPFResources (unit_adapter C k) d (m, v) = (e, (m', v'))"
  shows "m' = m \<and> (e = None \<longrightarrow> dpusets m (set_of (unit_key d)) \<noteq> None) \<or>
    (e = None \<and> dpusets m (set_of (unit_key d)) = None \<and>
     (\<exists>s. m' = m\<lparr>dpusets := (dpusets m)(set_of (unit_key d) \<mapsto> s)\<rparr> \<and> set_Spec s = translateSpec d))"
proof -
  obtain a m1 v1 where 1: "get_set C (dpfNamespace, set_name d) (m, v) = (a, (m1, v1))" by (metis prod.collapse)
  obtain u m2 v2 where 2: "create_set C (new_set d) (m1, v1) = (u, (m2, v2))" by (metis prod.collapse)
  have key: "set_key (new_set d) = set_of (unit_key d)" by (simp add: set_of_unit new_set_def set_key_def meta_key_def)
  note k1 = read_set [OF 1, folded set_of_unit] and k2 = create_effect [OF 2, unfolded key]
  show ?thesis
  proof (cases a)
    case (Inr s)
    then show ?thesis using assms 1 k1 by (simp add: ensureDPFResources_def)
  next
    case (Inl x)
    then show ?thesis using assms 1 2 k1 k2
      by (cases u) (auto simp: ensureDPFResources_def new_set_def split: if_splits)
  qed
qed

end

context unit_server
begin

lemma pass_shape:
  assumes p: "Reconcile (unit_adapter C k) now q (m, v) = ((t, e), (m', v'))"
  obtains (idle) "m' = m" "\<forall>d. units m q = Some d \<longrightarrow> e \<noteq> None \<or> DpuProductName (unit_Spec d) \<noteq> TargetVendorName"
  | (deleting) d v1 where "units m q = Some d" "unit_key d = q" "DpuProductName (unit_Spec d) = TargetVendorName"
      "\<not> is_zero_time (DeletionTimestamp (unit_meta d))" "reconcileDelete (unit_adapter C k) d (m, v1) = ((t, e), (m', v'))"
  | (adopting) d v1 u where "units m q = Some d" "unit_key d = q" "\<not> ContainsFinalizer k (Finalizers (unit_meta d)) FinalizerName"
      "is_zero_time (DeletionTimestamp (unit_meta d))" "t = (0, True) \<or> e \<noteq> None"
      "update_unit C (d\<lparr>unit_meta := (unit_meta d)\<lparr>Finalizers := AddFinalizer k (Finalizers (unit_meta d)) FinalizerName\<rparr>\<rparr>) (m, v1) = (u, (m', v'))"
  | (broken) d v1 err m2 v2 u where "units m q = Some d" "unit_key d = q" "DpuProductName (unit_Spec d) = TargetVendorName"
      "is_zero_time (DeletionTimestamp (unit_meta d))" "ensureDPFResources (unit_adapter C k) d (m, v1) = (Some err, (m2, v2))" "e = Some err"
      "syncStatus (unit_adapter C k) now d ''ProvisioningError'' (Sprintf ''%s'' [AErr err]) (m2, v2) = (u, (m', v'))"
  | (mirroring) d v1 m2 v2 where "units m q = Some d" "unit_key d = q" "DpuProductName (unit_Spec d) = TargetVendorName"
      "is_zero_time (DeletionTimestamp (unit_meta d))" "ensureDPFResources (unit_adapter C k) d (m, v1) = (None, (m2, v2))"
      "ContainsFinalizer k (Finalizers (unit_meta d)) FinalizerName" "mirror_phase (unit_adapter C k) now d (m2, v2) = ((t, e), (m', v'))"
proof -
  obtain g m1 v1 where g: "get_unit C q (m, v) = (g, (m1, v1))" by (metis prod.collapse)
  note g1 = read [OF g]
  show thesis
  proof (cases g)
    case (Inl x)
    then show thesis using idle p g g1 by (auto simp: Reconcile_def split: if_splits)
  next
    case (Inr d)
    then have d: "units m q = Some d" "unit_key d = q" "m1 = m" using g1 by auto
    show thesis
    proof (cases "DpuProductName (unit_Spec d) = TargetVendorName")
      case False
      then show thesis using idle p g d Inr by (simp add: Reconcile_def)
    next
      case prod: True
      show thesis
      proof (cases "is_zero_time (DeletionTimestamp (unit_meta d))")
        case False
        then show thesis using deleting d prod p g Inr by (simp add: Reconcile_def)
      next
        case zero: True
        show thesis
        proof (cases "ContainsFinalizer k (Finalizers (unit_meta d)) FinalizerName")
          case False
          obtain u m2 v2 where u: "update_unit C (d\<lparr>unit_meta := (unit_meta d)\<lparr>Finalizers := AddFinalizer k (Finalizers (unit_meta d)) FinalizerName\<rparr>\<rparr>) (m, v1) = (u, (m2, v2))"
            by (metis prod.collapse)
          have "m' = m2 \<and> v' = v2 \<and> (t = (0, True) \<or> e \<noteq> None)" using p g Inr d prod zero False u by (cases u) (auto simp: Reconcile_def)
          then show thesis using adopting [OF d(1,2) False zero] u by blast
        next
          case fin: True
          obtain x m2 v2 where x: "ensureDPFResources (unit_adapter C k) d (m, v1) = (x, (m2, v2))" by (metis prod.collapse)
          show thesis
          proof (cases x)
            case None
            then show thesis using mirroring [OF d(1,2) prod zero _ fin] p g Inr d prod zero fin x by (simp add: Reconcile_def)
          next
            case (Some err)
            obtain u m3 v3 where u: "syncStatus (unit_adapter C k) now d ''ProvisioningError'' (Sprintf ''%s'' [AErr err]) (m2, v2) = (u, (m3, v3))"
              by (metis prod.collapse)
            have "m' = m3 \<and> v' = v3 \<and> e = Some err" using p g Inr d prod zero fin x Some u by (simp add: Reconcile_def)
            then show thesis using broken [OF d(1,2) prod zero] x Some u by blast
          qed
        qed
      qed
    qed
  qed
qed

lemma mirror_effect:
  assumes "mirror_phase (unit_adapter C k) now d (m, v) = ((t, e), (m', v'))" and "units m (unit_key d) = Some d"
  shows "dpusets m' = dpusets m \<and> (\<exists>d'. units m' = (units m)(unit_key d \<mapsto> d') \<and> same_unit d d' \<and>
      (t = (30 * second, False) \<longrightarrow> e = None \<and> (\<exists>s. dpusets m (set_of (unit_key d)) = Some s \<and>
         ready_of d' = Some \<lparr>Type = ''Ready'', Status = fst (phase_condition (Phase s)), Reason = snd (phase_condition (Phase s)),
           Message = Text ''DPF resources actively reconciling'', LastTransitionTime = now, ObservedGeneration = Generation (unit_meta d)\<rparr>)))"
proof -
  obtain a m1 v1 where 1: "get_set C (dpfNamespace, set_name d) (m, v) = (a, (m1, v1))" by (metis prod.collapse)
  note k1 = read_set [OF 1, folded set_of_unit]
  have same: "\<exists>d'. units m = (units m)(unit_key d \<mapsto> d') \<and> same_unit d d'"
    using assms(2) by (auto intro!: exI [of _ d])
  have n: "5 * second \<noteq> 30 * second" "0 \<noteq> 30 * second" by (simp_all add: second_def)
  show ?thesis
  proof (cases a)
    case (Inl x)
    then have "m' = m \<and> t \<noteq> (30 * second, False)" using assms(1) 1 k1 n by (auto simp: mirror_phase_def split: if_splits)
    then show ?thesis using same by blast
  next
    case (Inr s)
    obtain u m2 v2 where u: "syncStatus (unit_adapter C k) now d (Phase s) (Text ''DPF resources actively reconciling'') (m, v1) = (u, (m2, v2))"
      by (metis prod.collapse)
    note s1 = sync_effect [OF u assms(2)]
    have "m' = m2 \<and> (t = (30 * second, False) \<longrightarrow> u = None \<and> e = None)"
      using assms(1) 1 k1 Inr u n by (cases u) (auto simp: mirror_phase_def)
    then show ?thesis using s1 k1 Inr by auto
  qed
qed

lemma delete_pass:
  assumes "reconcileDelete (unit_adapter C k) d (m, v) = ((t, e), (m', v'))"
  shows "units m' = units m \<and> (\<forall>p. p \<noteq> set_of (unit_key d) \<longrightarrow> dpusets m' p = dpusets m p) \<and>
      (\<forall>s s'. dpusets m (set_of (unit_key d)) = Some s \<longrightarrow> dpusets m' (set_of (unit_key d)) = Some s' \<longrightarrow> set_Spec s' = set_Spec s) \<and>
      (dpusets m (set_of (unit_key d)) = None \<longrightarrow> dpusets m' (set_of (unit_key d)) = None)
    \<or> dpusets m' = dpusets m \<and> dpusets m (set_of (unit_key d)) = None \<and> (\<forall>q. q \<noteq> unit_key d \<longrightarrow> units m' q = units m q)"
proof -
  obtain a m1 v1 where 1: "get_set C (dpfNamespace, set_name d) (m, v) = (a, (m1, v1))" by (metis prod.collapse)
  note k1 = read_set [OF 1, folded set_of_unit]
  show ?thesis
  proof (cases a)
    case (Inl x)
    show ?thesis
    proof (cases "IsNotFound k x")
      case False
      then have "m' = m" using assms 1 k1 Inl by (simp add: reconcileDelete_def cleanupDPFResources_def)
      then show ?thesis by simp
    next
      case True
      let ?d = "d\<lparr>unit_meta := (unit_meta d)\<lparr>Finalizers := RemoveFinalizer k (Finalizers (unit_meta d)) FinalizerName\<rparr>\<rparr>"
      obtain u m2 v2 where u: "update_unit C ?d (m1, v1) = (u, (m2, v2))" by (metis prod.collapse)
      have "m' = m2" using assms 1 Inl True u by (cases u) (simp_all add: reconcileDelete_def cleanupDPFResources_def)
      moreover have "unit_key ?d = unit_key d" by (simp add: unit_key_def meta_key_def)
      moreover have "dpusets m2 = dpusets m1" using update_effect [OF u] by (cases m1; cases m2) simp
      ultimately show ?thesis using update_effect [OF u] k1 Inl True by auto
    qed
  next
    case (Inr s)
    obtain u m2 v2 where u: "delete_set C s (m1, v1) = (u, (m2, v2))" by (metis prod.collapse)
    have s: "m1 = m" "dpusets m (set_of (unit_key d)) = Some s" "set_key s = set_of (unit_key d)" using k1 Inr by auto
    have "m' = m \<or> m' = m2" using assms 1 Inr s(1) u
      by (cases u) (auto simp: reconcileDelete_def cleanupDPFResources_def split: if_splits)
    moreover have "units m2 = units m \<and> (\<forall>p. p \<noteq> set_of (unit_key d) \<longrightarrow> dpusets m2 p = dpusets m p) \<and>
      (\<forall>s'. dpusets m2 (set_of (unit_key d)) = Some s' \<longrightarrow> set_Spec s' = set_Spec s)"
    proof (cases u)
      case (Some x)
      then show ?thesis using delete_effect [OF u] s by simp
    next
      case None
      note d = delete_effect [OF u, unfolded None s(1,3), simplified]
      have "units m2 = units m" "\<forall>p. p \<noteq> set_of (unit_key d) \<longrightarrow> dpusets m2 p = dpusets m p"
        using d [THEN conjunct1] by (cases m; cases m2; simp add: fun_eq_iff)+
      then show ?thesis using d s(2) by fastforce
    qed
    ultimately show ?thesis using s(2) by auto
  qed
qed

end

section \<open>What the passes promise\<close>

lemma own_meta [simp]: "unit_key (d\<lparr>unit_meta := (unit_meta d)\<lparr>Finalizers := fs\<rparr>\<rparr>) = unit_key d"
  by (simp add: unit_key_def meta_key_def)

text \<open>
  C29.  The unit outlives its set: the finalizer of a unit is taken away only when the unit is being deleted and
  the server shows no set of that unit any more.\<close>

theorem finalizer_waits_for_set:
  assumes "finalizer_lib k" and "unit_server k C" and "units m q = Some d" and "FinalizerName \<in> set (Finalizers (unit_meta d))"
    and "Reconcile (unit_adapter C k) now q (m, v) = ((t, e), (m', v'))"
    and "\<forall>d'. units m' q = Some d' \<longrightarrow> FinalizerName \<notin> set (Finalizers (unit_meta d'))"
  shows "\<not> is_zero_time (DeletionTimestamp (unit_meta d)) \<and> dpusets m (set_of q) = None \<and> dpusets m' = dpusets m"
proof -
  have kept: False if "units m' q = Some d'" "same_unit d d'" for d'
    using that assms(4,6) same_unitD by auto
  from assms(2,5) show ?thesis
  proof (cases rule: unit_server.pass_shape [consumes 2, case_names idle deleting adopting broken mirroring])
    case idle
    then show ?thesis using kept [of d] assms(3) by auto
  next
    case (deleting x v1)
    then have x: "x = d" using assms(3) by simp
    show ?thesis
      using unit_server.delete_pass [OF assms(2) deleting(5)] deleting(2,4) kept [of d] assms(3) x by auto
  next
    case (adopting x v1 u)
    have "ContainsFinalizer k fs f = (f \<in> set fs)" for fs f using assms(1) by (simp add: finalizer_lib_def)
    then show ?thesis using adopting(1,3) assms(3,4) by simp
  next
    case (broken x v1 err m2 v2 u)
    have "units m2 = units m" using unit_server.ensure_set [OF assms(2) broken(5)] by auto
    then show ?thesis
      using unit_server.sync_effect(2) [OF assms(2) broken(7)] broken(1,2) assms(3) kept by fastforce
  next
    case (mirroring x v1 m2 v2)
    have "units m2 = units m" using unit_server.ensure_set [OF assms(2) mirroring(5)] by auto
    then show ?thesis
      using unit_server.mirror_effect [OF assms(2) mirroring(7)] mirroring(1,2) assms(3) kept by fastforce
  qed
qed

text \<open>
  A pass over a unit of another product changes nothing, a deletion included: a unit whose product name is
  edited after it was adopted keeps the finalizer and cannot be deleted any more.\<close>

theorem foreign_units_untouched:
  assumes "unit_server k C" and "units m q = Some d" and "DpuProductName (unit_Spec d) \<noteq> TargetVendorName"
    and "Reconcile (unit_adapter C k) now q (m, v) = ((t, e), (m', v'))"
  shows "m' = m"
proof -
  obtain g m1 v1 where g: "get_unit C q (m, v) = (g, (m1, v1))" by (metis prod.collapse)
  show ?thesis using assms(2-4) g unit_server.read [OF assms(1) g] by (cases g) (simp_all add: Reconcile_def)
qed

text \<open>
  A set is written once: a pass touches the set of its own unit only, and it makes it, marks it or removes
  it, but never changes the specification of a stored set, whatever the unit says by now.\<close>

theorem sets_written_once:
  assumes "unit_server k C" and "Reconcile (unit_adapter C k) now q (m, v) = ((t, e), (m', v'))"
  shows "(\<forall>p. p \<noteq> set_of q \<longrightarrow> dpusets m' p = dpusets m p) \<and>
    (\<forall>s s'. dpusets m (set_of q) = Some s \<longrightarrow> dpusets m' (set_of q) = Some s' \<longrightarrow> set_Spec s' = set_Spec s)"
  using assms
proof (cases rule: unit_server.pass_shape [consumes 2, case_names idle deleting adopting broken mirroring])
  case idle
  then show ?thesis by simp
next
  case (deleting x v1)
  then show ?thesis using unit_server.delete_pass [OF assms(1) deleting(5)] by auto
next
  case (adopting x v1 u)
  have "dpusets m' = dpusets m" using unit_server.update_effect [OF assms(1) adopting(6)] by (cases m; cases m') simp
  then show ?thesis by simp
next
  case (broken x v1 err m2 v2 u)
  have 2: "units m2 = units m" "m2 = m" using unit_server.ensure_set [OF assms(1) broken(5)] by auto
  then have "dpusets m' = dpusets m" using unit_server.sync_effect(1) [OF assms(1) broken(7)] broken(1,2) by simp
  then show ?thesis by simp
next
  case (mirroring x v1 m2 v2)
  note e = unit_server.ensure_set [OF assms(1) mirroring(5)]
  then have "units m2 (unit_key x) = Some x" using mirroring(1,2) by auto
  then have "dpusets m' = dpusets m2" using unit_server.mirror_effect [OF assms(1) mirroring(7)] by blast
  then show ?thesis using e mirroring(2) by auto
qed

text \<open>
  The mirror: a pass that comes back at its steady pace has stored the phase of the set it found, mapped
  to a condition, with its own time; so the unit changes with every such pass.\<close>

theorem phase_mirrored:
  assumes "unit_server k C" and "Reconcile (unit_adapter C k) now q (m, v) = (((30 * second, False), None), (m', v'))"
    and "units m q = Some d" and "DpuProductName (unit_Spec d) = TargetVendorName" and "is_zero_time (DeletionTimestamp (unit_meta d))"
  shows "\<exists>s d' c. dpusets m' (set_of q) = Some s \<and> units m' q = Some d' \<and> ready_of d' = Some c \<and>
    (Status c, Reason c) = phase_condition (Phase s) \<and> LastTransitionTime c = now"
  using assms(1,2)
proof (cases rule: unit_server.pass_shape [consumes 2, case_names idle deleting adopting broken mirroring])
  case idle
  then show ?thesis using assms(3,4) by simp
next
  case (deleting x v1)
  then show ?thesis using assms(3,5) by simp
next
  case (adopting x v1 u)
  then show ?thesis by simp
next
  case (broken x v1 err m2 v2 u)
  then show ?thesis by simp
next
  case (mirroring x v1 m2 v2)
  have "units m2 (unit_key x) = Some x" using unit_server.ensure_set [OF assms(1) mirroring(5)] mirroring(1,2) by auto
  from unit_server.mirror_effect [OF assms(1) mirroring(7) this] mirroring(2)
  obtain s d' where "dpusets m' (set_of q) = Some s" "units m' q = Some d'"
    "ready_of d' = Some \<lparr>Type = ''Ready'', Status = fst (phase_condition (Phase s)), Reason = snd (phase_condition (Phase s)),
           Message = Text ''DPF resources actively reconciling'', LastTransitionTime = now, ObservedGeneration = Generation (unit_meta x)\<rparr>"
    by auto
  then show ?thesis by simp
qed

section \<open>A server in memory\<close>

definition ua_missing :: go_error where "ua_missing = External ''not found''"

definition ua_lib :: machinery where
  "ua_lib = \<lparr>IsNotFound = (\<lambda>e. e = ua_missing), ContainsFinalizer = (\<lambda>fs f. f \<in> set fs),
     AddFinalizer = (\<lambda>fs f. if f \<in> set fs then fs else fs @ [f]), RemoveFinalizer = (\<lambda>fs f. removeAll f fs)\<rparr>"

definition ua_client :: "(api \<times> unit) Client" where
  "ua_client =
     \<lparr>get_unit = (\<lambda>q w. (case units (fst w) q of
          None \<Rightarrow> Inl ua_missing | Some d \<Rightarrow> (if unit_key d = q then Inr d else Inl (External ''corrupt'')), w)),
      update_unit = (\<lambda>d w. case units (fst w) (unit_key d) of
          None \<Rightarrow> (Some ua_missing, w)
        | Some _ \<Rightarrow> (None, ((fst w)\<lparr>units := (units (fst w))(unit_key d :=
            (if \<not> is_zero_time (DeletionTimestamp (unit_meta d)) \<and> Finalizers (unit_meta d) = [] then None else Some d))\<rparr>, snd w))),
      status_unit = (\<lambda>d w. case units (fst w) (unit_key d) of
          None \<Rightarrow> (Some ua_missing, w)
        | Some old \<Rightarrow> (None, ((fst w)\<lparr>units := (units (fst w))(unit_key d \<mapsto>
            old\<lparr>unit_meta := (unit_meta old)\<lparr>ResourceVersion := CHR ''1'' # ResourceVersion (unit_meta old)\<rparr>, Conditions := Conditions d\<rparr>)\<rparr>, snd w))),
      get_set = (\<lambda>p w. (case dpusets (fst w) p of
          None \<Rightarrow> Inl ua_missing | Some s \<Rightarrow> (if set_key s = p then Inr s else Inl (External ''corrupt'')), w)),
      create_set = (\<lambda>s w. case dpusets (fst w) (set_key s) of
          Some _ \<Rightarrow> (Some (External ''already exists''), w)
        | None \<Rightarrow> (None, ((fst w)\<lparr>dpusets := (dpusets (fst w))(set_key s \<mapsto> s)\<rparr>, snd w))),
      delete_set = (\<lambda>s w. case dpusets (fst w) (set_key s) of
          None \<Rightarrow> (Some ua_missing, w)
        | Some old \<Rightarrow> (None, ((fst w)\<lparr>dpusets := (dpusets (fst w))(set_key s :=
            (if Finalizers (set_meta old) = [] then None
             else Some (old\<lparr>set_meta := (set_meta old)\<lparr>DeletionTimestamp := Some 1\<rparr>\<rparr>)))\<rparr>, snd w)))\<rparr>"

lemma ua_finalizers: "finalizer_lib ua_lib"
  by (auto simp: finalizer_lib_def ua_lib_def)

lemma ua_server: "unit_server ua_lib ua_client"
proof
  fix q m v a m' v'
  assume "get_unit ua_client q (m, v) = (a, (m', v'))"
  then show "m' = m \<and> (case a of Inr d \<Rightarrow> units m q = Some d \<and> unit_key d = q | Inl e \<Rightarrow> IsNotFound ua_lib e \<longrightarrow> units m q = None)"
    by (auto simp: ua_client_def ua_lib_def ua_missing_def split: option.splits if_splits)
next
  fix p m v b m' v'
  assume "get_set ua_client p (m, v) = (b, (m', v'))"
  then show "m' = m \<and> (case b of Inr s \<Rightarrow> dpusets m p = Some s \<and> set_key s = p | Inl e \<Rightarrow> IsNotFound ua_lib e \<longrightarrow> dpusets m p = None)"
    by (auto simp: ua_client_def ua_lib_def ua_missing_def split: option.splits if_splits)
next
  fix d m v e m' v'
  assume "update_unit ua_client d (m, v) = (e, (m', v'))"
  then show "m' = m\<lparr>units := units m'\<rparr> \<and> (\<forall>q. q \<noteq> unit_key d \<longrightarrow> units m' q = units m q) \<and>
      (if e = None then \<forall>d'. units m' (unit_key d) = Some d' \<longrightarrow> Finalizers (unit_meta d') = Finalizers (unit_meta d) else m' = m)"
    by (auto simp: ua_client_def split: option.splits if_splits)
next
  fix d m v e m' v'
  assume "status_unit ua_client d (m, v) = (e, (m', v'))"
  then show "if e = None
       then \<exists>old rv. units m (unit_key d) = Some old \<and>
         m' = m\<lparr>units := (units m)(unit_key d \<mapsto> old\<lparr>unit_meta := (unit_meta old)\<lparr>ResourceVersion := rv\<rparr>, Conditions := Conditions d\<rparr>)\<rparr>
       else m' = m"
    by (auto simp: ua_client_def split: option.splits)
next
  fix s m v e m' v'
  assume "create_set ua_client s (m, v) = (e, (m', v'))"
  then show "if e = None
       then dpusets m (set_key s) = None \<and>
         (\<exists>s'. m' = m\<lparr>dpusets := (dpusets m)(set_key s \<mapsto> s')\<rparr> \<and> set_key s' = set_key s \<and> set_Spec s' = set_Spec s)
       else m' = m"
    by (auto simp: ua_client_def split: option.splits)
next
  fix s m v e m' v'
  assume "delete_set ua_client s (m, v) = (e, (m', v'))"
  then show "if e = None
       then m' = m\<lparr>dpusets := (dpusets m)(set_key s := dpusets m' (set_key s))\<rparr> \<and>
         (\<forall>s'. dpusets m' (set_key s) = Some s' \<longrightarrow> \<not> is_zero_time (DeletionTimestamp (set_meta s')) \<and>
            (\<exists>old. dpusets m (set_key s) = Some old \<and> set_Spec s' = set_Spec old))
       else m' = m"
    by (auto simp: ua_client_def is_zero_time_def zero_time_def second_def split: option.splits if_splits)
qed

interpretation ua: unit_server ua_lib ua_client
  by (rule ua_server)

definition ua_unit :: "string \<Rightarrow> time option \<Rightarrow> string list \<Rightarrow> DataProcessingUnit" where
  "ua_unit product dt fs =
     \<lparr>unit_meta = \<lparr>Name = ''d'', Namespace = ''a'', ResourceVersion = ''1'', Generation = 3, DeletionTimestamp = dt, Finalizers = fs\<rparr>,
      unit_Spec = \<lparr>DpuProductName = product, NodeName = ''n1''\<rparr>, Conditions = []\<rparr>"

definition ua_world :: "DataProcessingUnit \<Rightarrow> api" where "ua_world d = \<lparr>units = [(''a'', ''d'') \<mapsto> d], dpusets = Map.empty\<rparr>"

definition ua_pass :: "time \<Rightarrow> api \<Rightarrow> (api \<times> unit) pass" where
  "ua_pass now m = Reconcile (unit_adapter ua_client ua_lib) now (''a'', ''d'') (m, ())"

definition ua_after :: "time \<Rightarrow> api \<Rightarrow> api" where "ua_after now m = fst (snd (ua_pass now m))"

lemma ua_pass_eq: "fst (ua_pass now m) = (t, e) \<Longrightarrow>
    Reconcile (unit_adapter ua_client ua_lib) now (''a'', ''d'') (m, ()) = ((t, e), (ua_after now m, ()))"
  by (cases "ua_pass now m") (simp add: ua_pass_def ua_after_def)

definition ua_live :: DataProcessingUnit where "ua_live = ua_unit TargetVendorName None [FinalizerName]"
definition ua_deleted :: DataProcessingUnit where "ua_deleted = ua_unit TargetVendorName (Some 7) [''other'', FinalizerName]"
definition ua_foreign :: DataProcessingUnit where "ua_foreign = ua_unit ''ipu'' (Some 7) [FinalizerName]"

lemma ua_unit_simps:
  "units (ua_world d) (''a'', ''d'') = Some d" "DpuProductName (unit_Spec (ua_unit p t fs)) = p"
  "Finalizers (unit_meta (ua_unit p t fs)) = fs" "DeletionTimestamp (unit_meta (ua_unit p t fs)) = t"
  by (simp_all add: ua_world_def ua_unit_def)

theorem finalizer_waits_for_set_witness:
  "units (ua_after 0 (ua_world ua_deleted)) (''a'', ''d'') = Some (ua_unit TargetVendorName (Some 7) [''other'']) \<and>
   dpusets (ua_world ua_deleted) (set_of (''a'', ''d'')) = None \<and> \<not> is_zero_time (DeletionTimestamp (unit_meta ua_deleted))"
proof -
  have r: "fst (ua_pass 0 (ua_world ua_deleted)) = ((0, False), None)" by code_simp
  have a: "units (ua_after 0 (ua_world ua_deleted)) (''a'', ''d'') = Some (ua_unit TargetVendorName (Some 7) [''other''])" by code_simp
  have f: "FinalizerName \<in> set (Finalizers (unit_meta ua_deleted))" by (simp add: ua_deleted_def ua_unit_simps)
  have g: "\<forall>d'. units (ua_after 0 (ua_world ua_deleted)) (''a'', ''d'') = Some d' \<longrightarrow> FinalizerName \<notin> set (Finalizers (unit_meta d'))"
    using a by (simp add: ua_unit_simps FinalizerName_def)
  show ?thesis using finalizer_waits_for_set [OF ua_finalizers ua_server ua_unit_simps(1) f ua_pass_eq [OF r] g] a by simp
qed

theorem foreign_units_untouched_witness:
  "FinalizerName \<in> set (Finalizers (unit_meta ua_foreign)) \<and> ua_after 0 (ua_world ua_foreign) = ua_world ua_foreign"
proof -
  have r: "fst (ua_pass 0 (ua_world ua_foreign)) = ((0, False), None)" by code_simp
  have p: "DpuProductName (unit_Spec ua_foreign) \<noteq> TargetVendorName"
    by (simp add: ua_foreign_def ua_unit_simps TargetVendorName_def)
  show ?thesis using foreign_units_untouched [OF ua_server ua_unit_simps(1) p ua_pass_eq [OF r]]
    by (simp add: ua_foreign_def ua_unit_simps)
qed

text \<open>The node of the unit is edited between the passes; the set keeps the old one.\<close>

definition ua_moved :: api where
  "ua_moved = (ua_after 0 (ua_world ua_live))\<lparr>units := [(''a'', ''d'') \<mapsto> ua_live\<lparr>unit_Spec := (unit_Spec ua_live)\<lparr>NodeName := ''n2''\<rparr>\<rparr>]\<rparr>"

theorem sets_written_once_witness:
  "\<exists>s s'. dpusets ua_moved (set_of (''a'', ''d'')) = Some s \<and> dpusets (ua_after 1 ua_moved) (set_of (''a'', ''d'')) = Some s' \<and>
     set_Spec s' = set_Spec s \<and> set_Spec s = translateSpec ua_live"
proof -
  have r: "fst (ua_pass 1 ua_moved) = ((30 * second, False), None)" by code_simp
  have s: "map_option set_Spec (dpusets ua_moved (set_of (''a'', ''d''))) = Some (translateSpec ua_live)" by code_simp
  have "dpusets (ua_after 1 ua_moved) (set_of (''a'', ''d'')) \<noteq> None" by code_simp
  then show ?thesis using s sets_written_once [OF ua_server ua_pass_eq [OF r]] by auto
qed

theorem phase_mirrored_witness:
  "\<exists>s d' c. dpusets (ua_after 5 (ua_world ua_live)) (set_of (''a'', ''d'')) = Some s \<and>
     units (ua_after 5 (ua_world ua_live)) (''a'', ''d'') = Some d' \<and> ready_of d' = Some c \<and>
     (Status c, Reason c) = phase_condition (Phase s) \<and> LastTransitionTime c = 5"
proof -
  have r: "fst (ua_pass 5 (ua_world ua_live)) = ((30 * second, False), None)" by code_simp
  have p: "DpuProductName (unit_Spec ua_live) = TargetVendorName" "is_zero_time (DeletionTimestamp (unit_meta ua_live))"
    by (simp_all add: ua_live_def ua_unit_simps is_zero_time_def)
  show ?thesis by (rule phase_mirrored [OF ua_server ua_pass_eq [OF r] ua_unit_simps(1) p])
qed


end
