(* ===== verification/OffloadAdapter.thy ===== *)
theory OffloadAdapter
  imports Prelude
begin

text \<open>
  \<open>sofia-nazir/feature_skeleton.go\<close>: an OPI \<open>DPUCluster\<close> becomes a \<open>DPUSet\<close> of DPF and, when an offload
  mode is asked for, a \<open>DPUService\<close>; their readiness becomes the status of the cluster.  First the code,
  then what a pass promises over an API server.
\<close>

section \<open>Objects\<close>

record ObjectMeta =
  Name :: string
  Namespace :: string
  UID :: string
  ResourceVersion :: string
  Labels :: "string gomap"
  OwnerReferences :: "string list"

record DPUClusterSpec =
  Vendor :: string
  NetworkOffloadMode :: string
  cl_BFB :: string
  DpuFlavor :: string
  NodeSelector :: "string gomap"
  VpcName :: string

record DPUCluster =
  cl_meta :: ObjectMeta
  cl_Spec :: DPUClusterSpec
  cl_Ready :: bool
  cl_Phase :: string

record DPUSetSpec =
  DpuNodeSelector :: "string gomap"
  BFB :: string
  Flavor :: string

record DPUSet =
  set_meta :: ObjectMeta
  set_Spec :: DPUSetSpec
  set_Ready :: bool
  set_Phase :: string
  set_Message :: string

record DPUServiceSpec =
  ServiceType :: string
  Config :: string
  DPUSetName :: string

record DPUService =
  svc_meta :: ObjectMeta
  svc_Spec :: DPUServiceSpec
  svc_Ready :: bool
  ActiveServices :: int

type_synonym key = "string \<times> string"

text \<open>The client; the object a write decodes the answer into is not read again but for its name.\<close>

record 'w Client =
  get_cluster :: "key \<Rightarrow> 'w \<Rightarrow> (go_error + DPUCluster) \<times> 'w"
  status_cluster :: "DPUCluster \<Rightarrow> 'w \<Rightarrow> go_error option \<times> 'w"
  get_set :: "key \<Rightarrow> 'w \<Rightarrow> (go_error + DPUSet) \<times> 'w"
  create_set :: "DPUSet \<Rightarrow> 'w \<Rightarrow> go_error option \<times> 'w"
  update_set :: "DPUSet \<Rightarrow> 'w \<Rightarrow> go_error option \<times> 'w"
  get_svc :: "key \<Rightarrow> 'w \<Rightarrow> (go_error + DPUService) \<times> 'w"
  create_svc :: "DPUService \<Rightarrow> 'w \<Rightarrow> go_error option \<times> 'w"
  update_svc :: "DPUService \<Rightarrow> 'w \<Rightarrow> go_error option \<times> 'w"
  delete_svc :: "DPUService \<Rightarrow> 'w \<Rightarrow> go_error option \<times> 'w"

record machinery =
  IsNotFound :: "go_error \<Rightarrow> bool"
  SetControllerReference :: "ObjectMeta \<Rightarrow> ObjectMeta \<Rightarrow> go_error + ObjectMeta"

record 'w DPUClusterReconciler =
  rec_Client :: "'w Client"
  rec_lib :: machinery

section \<open>Translation\<close>

definition adapter_meta :: "DPUCluster \<Rightarrow> string \<Rightarrow> ObjectMeta" where
  "adapter_meta cluster suffix =
     \<lparr>Name = Name (cl_meta cluster) @ suffix, Namespace = Namespace (cl_meta cluster), UID = '''', ResourceVersion = '''',
      Labels = [(''opi.io/managed-by'', ''opi-nvidia-adapter''), (''opi.io/cluster'', Name (cl_meta cluster))], OwnerReferences = []\<rparr>"

definition TranslateDPUClusterToDPUSet :: "DPUCluster option \<Rightarrow> DPUSet option" where
  "TranslateDPUClusterToDPUSet c = (case c of
       None \<Rightarrow> None
     | Some cluster \<Rightarrow>
         (let flavor = (if DpuFlavor (cl_Spec cluster) = '''' then ''default'' else DpuFlavor (cl_Spec cluster))
          in Some \<lparr>set_meta = adapter_meta cluster ''-dpuset'',
               set_Spec = \<lparr>DpuNodeSelector = NodeSelector (cl_Spec cluster), BFB = cl_BFB (cl_Spec cluster), Flavor = flavor\<rparr>,
               set_Ready = False, set_Phase = '''', set_Message = ''''\<rparr>))"

text \<open>A double quote.\<close>

definition dq :: string where "dq = [CHR 0x22]"

definition config_text :: "string \<Rightarrow> string \<Rightarrow> string" where
  "config_text mode vpc =
     ''{'' @ dq @ ''mode'' @ dq @ '': '' @ dq @ mode @ dq @ '', '' @ dq @ ''vpc'' @ dq @ '': '' @ dq @ vpc @ dq @ ''}''"

definition TranslateDPUClusterToDPUService :: "DPUCluster option \<Rightarrow> string \<Rightarrow> DPUService option" where
  "TranslateDPUClusterToDPUService c dpuSetName = (case c of
       None \<Rightarrow> None
     | Some cluster \<Rightarrow>
         if NetworkOffloadMode (cl_Spec cluster) = '''' then None
         else Some \<lparr>svc_meta = adapter_meta cluster ''-dpuservice'',
                svc_Spec = \<lparr>ServiceType = ''network'',
                  Config = config_text (NetworkOffloadMode (cl_Spec cluster)) (VpcName (cl_Spec cluster)), DPUSetName = dpuSetName\<rparr>,
                svc_Ready = False, ActiveServices = 0\<rparr>)"

section \<open>The reconciler\<close>

definition meta_key :: "ObjectMeta \<Rightarrow> key" where "meta_key x = (Namespace x, Name x)"

lemma meta_key_version [simp]: "meta_key (x\<lparr>ResourceVersion := rv\<rparr>) = meta_key x"
  by (simp add: meta_key_def)

text \<open>Step 1: the set.\<close>

definition reconcile_set :: "'w DPUClusterReconciler \<Rightarrow> DPUSet \<Rightarrow> 'w \<Rightarrow> go_error option \<times> 'w" where
  "reconcile_set r desired w =
     (case get_set (rec_Client r) (meta_key (set_meta desired)) w of
        (Inl err, w1) \<Rightarrow> if IsNotFound (rec_lib r) err then create_set (rec_Client r) desired w1 else (Some err, w1)
      | (Inr existing, w1) \<Rightarrow>
          if BFB (set_Spec existing) \<noteq> BFB (set_Spec desired) \<or> Flavor (set_Spec existing) \<noteq> Flavor (set_Spec desired)
          then update_set (rec_Client r) (existing\<lparr>set_Spec := (set_Spec existing)\<lparr>BFB := BFB (set_Spec desired),
                 Flavor := Flavor (set_Spec desired), DpuNodeSelector := DpuNodeSelector (set_Spec desired)\<rparr>\<rparr>) w1
          else (None, w1))"

text \<open>Step 2: the service; the object that was there, if any.\<close>

definition reconcile_service :: "'w DPUClusterReconciler \<Rightarrow> DPUService \<Rightarrow> 'w \<Rightarrow> (go_error + DPUService option) \<times> 'w" where
  "reconcile_service r desired w =
     (case get_svc (rec_Client r) (meta_key (svc_meta desired)) w of
        (Inl err, w1) \<Rightarrow>
          if IsNotFound (rec_lib r) err
          then (case create_svc (rec_Client r) desired w1 of (Some e, w2) \<Rightarrow> (Inl e, w2) | (None, w2) \<Rightarrow> (Inr None, w2))
          else (Inl err, w1)
      | (Inr existing, w1) \<Rightarrow>
          if Config (svc_Spec existing) \<noteq> Config (svc_Spec desired)
          then (let existing1 = existing\<lparr>svc_Spec := (svc_Spec existing)\<lparr>Config := Config (svc_Spec desired)\<rparr>\<rparr>
                in case update_svc (rec_Client r) existing1 w1 of
                     (Some e, w2) \<Rightarrow> (Inl e, w2) | (None, w2) \<Rightarrow> (Inr (Some existing1), w2))
          else (Inr (Some existing), w1))"

text \<open>The service of step 3: its readiness, or the deletion of one that is not wanted any more.\<close>

definition service_status :: "'w DPUClusterReconciler \<Rightarrow> DPUService option \<Rightarrow> DPUService option \<Rightarrow> 'w \<Rightarrow> (go_error + bool) \<times> 'w" where
  "service_status r desired existing w =
     (case desired of
        Some d \<Rightarrow>
          (case get_svc (rec_Client r) (meta_key (svc_meta d)) w of
             (Inl err, w1) \<Rightarrow> (Inl err, w1) | (Inr x, w1) \<Rightarrow> (Inr (svc_Ready x), w1))
      | None \<Rightarrow>
          (case existing of
             Some x \<Rightarrow> (case delete_svc (rec_Client r) x w of (Some e, w1) \<Rightarrow> (Inl e, w1) | (None, w1) \<Rightarrow> (Inr True, w1))
           | None \<Rightarrow> (Inr True, w)))"

definition cluster_status :: "bool \<Rightarrow> string \<Rightarrow> bool \<Rightarrow> bool \<times> string" where
  "cluster_status dpusetReady dpusetPhase serviceReady =
     (if \<not> dpusetReady then (False, if dpusetPhase = '''' then ''DPUProvisioning'' else dpusetPhase)
      else if \<not> serviceReady then (False, ''ServiceConfiguring'')
      else (True, ''Ready''))"

text \<open>Step 3.\<close>

definition propagate_status ::
    "'w DPUClusterReconciler \<Rightarrow> DPUCluster \<Rightarrow> DPUSet \<Rightarrow> DPUService option \<Rightarrow> DPUService option \<Rightarrow> 'w \<Rightarrow> go_error option \<times> 'w" where
  "propagate_status r cluster desired service existing w =
     (case get_set (rec_Client r) (meta_key (set_meta desired)) w of
        (Inl err, w1) \<Rightarrow> (Some err, w1)
      | (Inr s, w1) \<Rightarrow>
          (case service_status r service existing w1 of
             (Inl err, w2) \<Rightarrow> (Some err, w2)
           | (Inr serviceReady, w2) \<Rightarrow>
               (case cluster_status (set_Ready s) (set_Phase s) serviceReady of (newReady, newPhase) \<Rightarrow>
                  if cl_Ready cluster \<noteq> newReady \<or> cl_Phase cluster \<noteq> newPhase
                  then status_cluster (rec_Client r) (cluster\<lparr>cl_Ready := newReady, cl_Phase := newPhase\<rparr>) w2
                  else (None, w2))))"

text \<open>Steps 2 and 3, with the set that step 1 ensured.\<close>

definition after_set :: "'w DPUClusterReconciler \<Rightarrow> DPUCluster \<Rightarrow> DPUSet \<Rightarrow> 'w \<Rightarrow> go_error option \<times> 'w" where
  "after_set r cluster desired w =
     (case TranslateDPUClusterToDPUService (Some cluster) (Name (set_meta desired)) of
        None \<Rightarrow> propagate_status r cluster desired None None w
      | Some service0 \<Rightarrow>
          (case SetControllerReference (rec_lib r) (cl_meta cluster) (svc_meta service0) of
             Inl err \<Rightarrow> (Some err, w)
           | Inr meta \<Rightarrow>
               (let service = service0\<lparr>svc_meta := meta\<rparr>
                in case reconcile_service r service w of
                     (Inl err, w1) \<Rightarrow> (Some err, w1)
                   | (Inr existing, w1) \<Rightarrow> propagate_status r cluster desired (Some service) existing w1)))"

definition Reconcile :: "'w DPUClusterReconciler \<Rightarrow> key \<Rightarrow> 'w \<Rightarrow> go_error option \<times> 'w" where
  "Reconcile r req w =
     (case get_cluster (rec_Client r) req w of
        (Inl err, w1) \<Rightarrow> (if IsNotFound (rec_lib r) err then None else Some err, w1)
      | (Inr cluster, w1) \<Rightarrow>
          if Vendor (cl_Spec cluster) \<noteq> ''nvidia'' then (None, w1)
          else case TranslateDPUClusterToDPUSet (Some cluster) of
            None \<Rightarrow> (None, w1)
          | Some set0 \<Rightarrow>
              (case SetControllerReference (rec_lib r) (cl_meta cluster) (set_meta set0) of
                 Inl err \<Rightarrow> (Some err, w1)
               | Inr meta \<Rightarrow>
                   (let desired = set0\<lparr>set_meta := meta\<rparr>
                    in case reconcile_set r desired w1 of
                         (Some err, w2) \<Rightarrow> (Some err, w2)
                       | (None, w2) \<Rightarrow> after_set r cluster desired w2)))"

section \<open>An API server\<close>

record api =
  clusters :: "key \<Rightarrow> DPUCluster option"
  sets :: "key \<Rightarrow> DPUSet option"
  services :: "key \<Rightarrow> DPUService option"

text \<open>
  The laws: an owner reference changes no name; a read gives what is stored; a call that fails changes
  nothing; a write of an object stores the specification it was given, a write of a status the status,
  and neither touches another key.\<close>

locale cluster_server =
  fixes k :: machinery
    and C :: "(api \<times> 'v) Client"
  assumes owner: "SetControllerReference k o1 o2 = Inr o3 \<Longrightarrow> meta_key o3 = meta_key o2"
    and read: "get_cluster C q (m, v) = (a, (m', v')) \<Longrightarrow>
      m' = m \<and> (case a of Inr x \<Rightarrow> clusters m q = Some x \<and> meta_key (cl_meta x) = q | Inl e \<Rightarrow> IsNotFound k e \<longrightarrow> clusters m q = None)"
    and read_set: "get_set C q (m, v) = (b, (m', v')) \<Longrightarrow>
      m' = m \<and> (case b of Inr x \<Rightarrow> sets m q = Some x \<and> meta_key (set_meta x) = q | Inl e \<Rightarrow> IsNotFound k e \<longrightarrow> sets m q = None)"
    and read_svc: "get_svc C q (m, v) = (c, (m', v')) \<Longrightarrow>
      m' = m \<and> (case c of Inr x \<Rightarrow> services m q = Some x \<and> meta_key (svc_meta x) = q | Inl e \<Rightarrow> IsNotFound k e \<longrightarrow> services m q = None)"
    and status_effect: "status_cluster C x (m, v) = (e, (m', v')) \<Longrightarrow>
      (if e = None
       then \<exists>old rv. clusters m (meta_key (cl_meta x)) = Some old \<and>
         m' = m\<lparr>clusters := (clusters m)(meta_key (cl_meta x) \<mapsto>
           old\<lparr>cl_meta := (cl_meta old)\<lparr>ResourceVersion := rv\<rparr>, cl_Ready := cl_Ready x, cl_Phase := cl_Phase x\<rparr>)\<rparr>
       else m' = m)"
    and create_set_effect: "create_set C s (m, v) = (e, (m', v')) \<Longrightarrow>
      (if e = None
       then sets m (meta_key (set_meta s)) = None \<and>
         (\<exists>y. m' = m\<lparr>sets := (sets m)(meta_key (set_meta s) \<mapsto> y)\<rparr> \<and> set_Spec y = set_Spec s)
       else m' = m)"
    and update_set_effect: "update_set C s (m, v) = (e, (m', v')) \<Longrightarrow>
      (if e = None then \<exists>y. m' = m\<lparr>sets := (sets m)(meta_key (set_meta s) \<mapsto> y)\<rparr> \<and> set_Spec y = set_Spec s else m' = m)"
    and create_svc_effect: "create_svc C x2 (m, v) = (e, (m', v')) \<Longrightarrow>
      (if e = None
       then services m (meta_key (svc_meta x2)) = None \<and>
         (\<exists>y. m' = m\<lparr>services := (services m)(meta_key (svc_meta x2) \<mapsto> y)\<rparr> \<and> svc_Spec y = svc_Spec x2)
       else m' = m)"
    and update_svc_effect: "update_svc C x2 (m, v) = (e, (m', v')) \<Longrightarrow>
      (if e = None then \<exists>y. m' = m\<lparr>services := (services m)(meta_key (svc_meta x2) \<mapsto> y)\<rparr> \<and> svc_Spec y = svc_Spec x2 else m' = m)"

definition offload :: "(api \<times> 'v) Client \<Rightarrow> machinery \<Rightarrow> (api \<times> 'v) DPUClusterReconciler" where
  "offload C k = \<lparr>rec_Client = C, rec_lib = k\<rparr>"

lemma offload_sel [simp]: "rec_Client (offload C k) = C" "rec_lib (offload C k) = k"
  by (simp_all add: offload_def)

definition set_key_of :: "key \<Rightarrow> key" where "set_key_of q = (fst q, snd q @ ''-dpuset'')"
definition svc_key_of :: "key \<Rightarrow> key" where "svc_key_of q = (fst q, snd q @ ''-dpuservice'')"

definition want_flavor :: "DPUCluster \<Rightarrow> string" where
  "want_flavor c = (if DpuFlavor (cl_Spec c) = '''' then ''default'' else DpuFlavor (cl_Spec c))"

definition want_config :: "DPUCluster \<Rightarrow> string" where
  "want_config c = config_text (NetworkOffloadMode (cl_Spec c)) (VpcName (cl_Spec c))"

text \<open>What the server holds for a cluster once a pass is through: the set, the service and the status.\<close>

definition set_settled :: "key \<Rightarrow> DPUCluster \<Rightarrow> api \<Rightarrow> bool" where
  "set_settled q c m = (\<exists>s. sets m (set_key_of q) = Some s \<and> BFB (set_Spec s) = cl_BFB (cl_Spec c) \<and> Flavor (set_Spec s) = want_flavor c)"

definition service_settled :: "key \<Rightarrow> DPUCluster \<Rightarrow> api \<Rightarrow> bool" where
  "service_settled q c m = (NetworkOffloadMode (cl_Spec c) = '''' \<or>
     (\<exists>x. services m (svc_key_of q) = Some x \<and> Config (svc_Spec x) = want_config c))"

definition status_for :: "key \<Rightarrow> DPUCluster \<Rightarrow> api \<Rightarrow> bool \<times> string" where
  "status_for q c m = (case sets m (set_key_of q) of
       None \<Rightarrow> (False, '''')
     | Some s \<Rightarrow> cluster_status (set_Ready s) (set_Phase s)
         (NetworkOffloadMode (cl_Spec c) = '''' \<or> (case services m (svc_key_of q) of None \<Rightarrow> False | Some x \<Rightarrow> svc_Ready x)))"

context cluster_server begin

lemma set_step:
  assumes "reconcile_set (offload C k) d (m, v) = (e, (m', v'))"
  shows "clusters m' = clusters m \<and> services m' = services m \<and> (\<forall>p. p \<noteq> meta_key (set_meta d) \<longrightarrow> sets m' p = sets m p)"
    and "e = None \<Longrightarrow> \<exists>s. sets m' (meta_key (set_meta d)) = Some s \<and> BFB (set_Spec s) = BFB (set_Spec d) \<and> Flavor (set_Spec s) = Flavor (set_Spec d)"
    and "sets m (meta_key (set_meta d)) = Some s \<Longrightarrow> BFB (set_Spec s) = BFB (set_Spec d) \<Longrightarrow> Flavor (set_Spec s) = Flavor (set_Spec d) \<Longrightarrow> m' = m"
proof -
  obtain a m1 v1 where 1: "get_set C (meta_key (set_meta d)) (m, v) = (a, (m1, v1))" by (metis prod.collapse)
  note k1 = read_set [OF 1]
  have "(clusters m' = clusters m \<and> services m' = services m \<and> (\<forall>p. p \<noteq> meta_key (set_meta d) \<longrightarrow> sets m' p = sets m p)) \<and>
    (e = None \<longrightarrow> (\<exists>s. sets m' (meta_key (set_meta d)) = Some s \<and> BFB (set_Spec s) = BFB (set_Spec d) \<and> Flavor (set_Spec s) = Flavor (set_Spec d))) \<and>
    (\<forall>s. sets m (meta_key (set_meta d)) = Some s \<longrightarrow> BFB (set_Spec s) = BFB (set_Spec d) \<longrightarrow> Flavor (set_Spec s) = Flavor (set_Spec d) \<longrightarrow> m' = m)"
  proof (cases a)
    case (Inl x)
    show ?thesis
    proof (cases "IsNotFound k x")
      case False
      then show ?thesis using assms 1 k1 Inl by (auto simp: reconcile_set_def)
    next
      case True
      then have "create_set C d (m, v1) = (e, (m', v'))" using assms 1 k1 Inl by (simp add: reconcile_set_def)
      from create_set_effect [OF this] show ?thesis using k1 Inl True by (auto split: if_splits)
    qed
  next
    case (Inr x)
    let ?x = "x\<lparr>set_Spec := (set_Spec x)\<lparr>BFB := BFB (set_Spec d), Flavor := Flavor (set_Spec d), DpuNodeSelector := DpuNodeSelector (set_Spec d)\<rparr>\<rparr>"
    show ?thesis
    proof (cases "BFB (set_Spec x) \<noteq> BFB (set_Spec d) \<or> Flavor (set_Spec x) \<noteq> Flavor (set_Spec d)")
      case False
      then show ?thesis using assms 1 k1 Inr by (simp add: reconcile_set_def)
    next
      case True
      then have "update_set C ?x (m, v1) = (e, (m', v'))" using assms 1 k1 Inr by (auto simp: reconcile_set_def)
      from update_set_effect [OF this] show ?thesis using k1 Inr True by (auto split: if_splits)
    qed
  qed
  then show "clusters m' = clusters m \<and> services m' = services m \<and> (\<forall>p. p \<noteq> meta_key (set_meta d) \<longrightarrow> sets m' p = sets m p)"
    and "e = None \<Longrightarrow> \<exists>s. sets m' (meta_key (set_meta d)) = Some s \<and> BFB (set_Spec s) = BFB (set_Spec d) \<and> Flavor (set_Spec s) = Flavor (set_Spec d)"
    and "sets m (meta_key (set_meta d)) = Some s \<Longrightarrow> BFB (set_Spec s) = BFB (set_Spec d) \<Longrightarrow> Flavor (set_Spec s) = Flavor (set_Spec d) \<Longrightarrow> m' = m"
    by blast+
qed

lemma svc_step:
  assumes "reconcile_service (offload C k) d (m, v) = (r, (m', v'))"
  shows "clusters m' = clusters m \<and> sets m' = sets m \<and> (\<forall>p. p \<noteq> meta_key (svc_meta d) \<longrightarrow> services m' p = services m p)"
    and "r = Inr y \<Longrightarrow> \<exists>x. services m' (meta_key (svc_meta d)) = Some x \<and> Config (svc_Spec x) = Config (svc_Spec d)"
    and "services m (meta_key (svc_meta d)) = Some s \<Longrightarrow> Config (svc_Spec s) = Config (svc_Spec d) \<Longrightarrow> m' = m"
proof -
  obtain a m1 v1 where 1: "get_svc C (meta_key (svc_meta d)) (m, v) = (a, (m1, v1))" by (metis prod.collapse)
  note k1 = read_svc [OF 1]
  have "(clusters m' = clusters m \<and> sets m' = sets m \<and> (\<forall>p. p \<noteq> meta_key (svc_meta d) \<longrightarrow> services m' p = services m p)) \<and>
    (\<forall>y. r = Inr y \<longrightarrow> (\<exists>x. services m' (meta_key (svc_meta d)) = Some x \<and> Config (svc_Spec x) = Config (svc_Spec d))) \<and>
    (\<forall>s. services m (meta_key (svc_meta d)) = Some s \<longrightarrow> Config (svc_Spec s) = Config (svc_Spec d) \<longrightarrow> m' = m)"
  proof (cases a)
    case (Inl x)
    show ?thesis
    proof (cases "IsNotFound k x")
      case False
      then show ?thesis using assms 1 k1 Inl by (auto simp: reconcile_service_def)
    next
      case True
      obtain u m2 v2 where u: "create_svc C d (m, v1) = (u, (m2, v2))" by (metis prod.collapse)
      show ?thesis using assms 1 k1 Inl True u create_svc_effect [OF u]
        by (cases u) (auto simp: reconcile_service_def)
    qed
  next
    case (Inr x)
    let ?x = "x\<lparr>svc_Spec := (svc_Spec x)\<lparr>Config := Config (svc_Spec d)\<rparr>\<rparr>"
    show ?thesis
    proof (cases "Config (svc_Spec x) = Config (svc_Spec d)")
      case True
      then show ?thesis using assms 1 k1 Inr by (auto simp: reconcile_service_def)
    next
      case False
      obtain u m2 v2 where u: "update_svc C ?x (m, v1) = (u, (m2, v2))" by (metis prod.collapse)
      show ?thesis using assms 1 k1 Inr False u update_svc_effect [OF u]
        by (cases u) (auto simp: reconcile_service_def Let_def)
    qed
  qed
  then show "clusters m' = clusters m \<and> sets m' = sets m \<and> (\<forall>p. p \<noteq> meta_key (svc_meta d) \<longrightarrow> services m' p = services m p)"
    and "r = Inr y \<Longrightarrow> \<exists>x. services m' (meta_key (svc_meta d)) = Some x \<and> Config (svc_Spec x) = Config (svc_Spec d)"
    and "services m (meta_key (svc_meta d)) = Some s \<Longrightarrow> Config (svc_Spec s) = Config (svc_Spec d) \<Longrightarrow> m' = m"
    by blast+
qed

text \<open>The readiness of the service, for the calls that a pass makes.\<close>

lemma service_part:
  assumes "service_status (offload C k) d x (m, v) = (r, (m', v'))" and "d = None \<longrightarrow> x = None"
  shows "m' = m"
    and "r = Inr b \<Longrightarrow> b = (case d of None \<Rightarrow> True | Some d' \<Rightarrow> (\<exists>y. services m (meta_key (svc_meta d')) = Some y \<and> svc_Ready y))"
proof -
  have "m' = m \<and> (\<forall>b. r = Inr b \<longrightarrow> b = (case d of None \<Rightarrow> True | Some d' \<Rightarrow> (\<exists>y. services m (meta_key (svc_meta d')) = Some y \<and> svc_Ready y)))"
  proof (cases d)
    case None
    then show ?thesis using assms by (auto simp: service_status_def)
  next
    case (Some d')
    obtain a m1 v1 where 1: "get_svc C (meta_key (svc_meta d')) (m, v) = (a, (m1, v1))" by (metis prod.collapse)
    show ?thesis using assms(1) Some 1 read_svc [OF 1] by (cases a) (auto simp: service_status_def)
  qed
  then show "m' = m"
    and "r = Inr b \<Longrightarrow> b = (case d of None \<Rightarrow> True | Some d' \<Rightarrow> (\<exists>y. services m (meta_key (svc_meta d')) = Some y \<and> svc_Ready y))"
    by blast+
qed

end

definition seen_status :: "api \<Rightarrow> DPUSet \<Rightarrow> DPUService option \<Rightarrow> bool \<times> string" where
  "seen_status m s d = cluster_status (set_Ready s) (set_Phase s)
     (case d of None \<Rightarrow> True | Some d' \<Rightarrow> (\<exists>y. services m (meta_key (svc_meta d')) = Some y \<and> svc_Ready y))"

context cluster_server begin

lemma status_step:
  assumes "propagate_status (offload C k) c d sd x (m, v) = (e, (m', v'))" and "sd = None \<longrightarrow> x = None"
    and "clusters m (meta_key (cl_meta c)) = Some c"
  shows "m' = m \<and> (e = None \<longrightarrow> (\<exists>s. sets m (meta_key (set_meta d)) = Some s \<and> seen_status m s sd = (cl_Ready c, cl_Phase c))) \<or>
    (\<exists>s rv. sets m (meta_key (set_meta d)) = Some s \<and> seen_status m s sd \<noteq> (cl_Ready c, cl_Phase c) \<and>
      m' = m\<lparr>clusters := (clusters m)(meta_key (cl_meta c) \<mapsto>
        c\<lparr>cl_meta := (cl_meta c)\<lparr>ResourceVersion := rv\<rparr>, cl_Ready := fst (seen_status m s sd), cl_Phase := snd (seen_status m s sd)\<rparr>)\<rparr>)"
proof -
  obtain a m1 v1 where 1: "get_set C (meta_key (set_meta d)) (m, v) = (a, (m1, v1))" by (metis prod.collapse)
  note k1 = read_set [OF 1]
  show ?thesis
  proof (cases a)
    case (Inl y)
    then show ?thesis using assms(1) 1 k1 by (auto simp: propagate_status_def)
  next
    case (Inr s)
    obtain r m2 v2 where 2: "service_status (offload C k) sd x (m, v1) = (r, (m2, v2))" by (metis prod.collapse)
    note k2 = service_part [OF 2 assms(2)]
    show ?thesis
    proof (cases r)
      case (Inl y)
      then show ?thesis using assms(1) 1 k1 Inr 2 k2(1) by (auto simp: propagate_status_def)
    next
      case r: (Inr b)
      have seen: "cluster_status (set_Ready s) (set_Phase s) b = seen_status m s sd" using k2(2) [OF r] by (simp add: seen_status_def)
      have s: "sets m (meta_key (set_meta d)) = Some s" using k1 Inr by simp
      show ?thesis
      proof (cases "seen_status m s sd = (cl_Ready c, cl_Phase c)")
        case True
        then show ?thesis using assms(1) 1 k1 Inr 2 k2(1) r seen s by (auto simp: propagate_status_def)
      next
        case False
        let ?c = "c\<lparr>cl_Ready := fst (seen_status m s sd), cl_Phase := snd (seen_status m s sd)\<rparr>"
        have u: "status_cluster C ?c (m, v2) = (e, (m', v'))"
          using assms(1) 1 k1 Inr 2 k2(1) r seen False by (cases "seen_status m s sd") (auto simp: propagate_status_def)
        show ?thesis using status_effect [OF u] assms(3) s False by (auto split: if_splits)
      qed
    qed
  qed
qed

end

text \<open>What a stored cluster keeps while its status is written.\<close>

definition same_cluster :: "DPUCluster \<Rightarrow> DPUCluster \<Rightarrow> bool" where
  "same_cluster c c' = (cl_Spec c' = cl_Spec c \<and> meta_key (cl_meta c') = meta_key (cl_meta c))"

lemma same_cluster_wants:
  assumes "same_cluster c c'"
  shows "want_flavor c' = want_flavor c" "service_settled q c' m = service_settled q c m" "status_for q c' m = status_for q c m"
    "set_settled q c' m = set_settled q c m"
  using assms by (auto simp: same_cluster_def want_flavor_def want_config_def service_settled_def status_for_def set_settled_def split: option.splits)

lemma seen_status_for:
  assumes "sets m (set_key_of q) = Some s"
    and "sd = None \<and> NetworkOffloadMode (cl_Spec c) = '''' \<or>
      (\<exists>d. sd = Some d \<and> NetworkOffloadMode (cl_Spec c) \<noteq> '''' \<and> meta_key (svc_meta d) = svc_key_of q)"
  shows "seen_status m s sd = status_for q c m"
  using assms by (auto simp: seen_status_def status_for_def split: option.splits)

context cluster_server begin

lemma pass_split [consumes 3, case_names early ran]:
  assumes "Reconcile (offload C k) q (m, v) = (e, (m', v'))" and "clusters m q = Some c" and "Vendor (cl_Spec c) = ''nvidia''"
  obtains "m' = m" "e \<noteq> None"
  | d v1 u m1 v2 where "meta_key (cl_meta c) = q" "reconcile_set (offload C k) d (m, v1) = (u, (m1, v2))"
      "meta_key (set_meta d) = set_key_of q" "BFB (set_Spec d) = cl_BFB (cl_Spec c)" "Flavor (set_Spec d) = want_flavor c"
      "u \<noteq> None \<and> e = u \<and> m' = m1 \<or> u = None \<and> after_set (offload C k) c d (m1, v2) = (e, (m', v'))"
proof -
  obtain g m0 v1 where g: "get_cluster C q (m, v) = (g, (m0, v1))" by (metis prod.collapse)
  note k1 = read [OF g]
  show ?thesis
  proof (cases g)
    case (Inl x)
    then have "m' = m" "e \<noteq> None" using assms g k1 by (auto simp: Reconcile_def split: if_splits)
    then show ?thesis by (rule that(1))
  next
    case (Inr x)
    then have x: "x = c" "m0 = m" "meta_key (cl_meta c) = q" using assms(2) k1 by auto
    obtain s0 where s0: "TranslateDPUClusterToDPUSet (Some c) = Some s0" "meta_key (set_meta s0) = set_key_of q"
      "BFB (set_Spec s0) = cl_BFB (cl_Spec c)" "Flavor (set_Spec s0) = want_flavor c"
      using x(3) by (auto simp: TranslateDPUClusterToDPUSet_def Let_def adapter_meta_def meta_key_def set_key_of_def want_flavor_def)
    show ?thesis
    proof (cases "SetControllerReference k (cl_meta c) (set_meta s0)")
      case (Inl y)
      then have "m' = m" "e \<noteq> None" using assms g Inr x s0(1) by (auto simp: Reconcile_def)
      then show ?thesis by (rule that(1))
    next
      case meta: (Inr y)
      let ?d = "s0\<lparr>set_meta := y\<rparr>"
      obtain u m1 v2 where u: "reconcile_set (offload C k) ?d (m, v1) = (u, (m1, v2))" by (metis prod.collapse)
      have d: "meta_key (set_meta ?d) = set_key_of q" "BFB (set_Spec ?d) = cl_BFB (cl_Spec c)" "Flavor (set_Spec ?d) = want_flavor c"
        using owner [OF meta] s0 by simp_all
      have "u \<noteq> None \<and> e = u \<and> m' = m1 \<or> u = None \<and> after_set (offload C k) c ?d (m1, v2) = (e, (m', v'))"
        using assms(1,3) g Inr x s0(1) meta u by (cases u) (auto simp: Reconcile_def Let_def)
      then show ?thesis by (rule that(2) [OF x(3) u d])
    qed
  qed
qed

lemma after_split [consumes 2, case_names early plain serving]:
  assumes "after_set (offload C k) c d (m, v) = (e, (m', v'))" and "meta_key (cl_meta c) = q"
  obtains "m' = m" "e \<noteq> None"
  | "NetworkOffloadMode (cl_Spec c) = ''''" "propagate_status (offload C k) c d None None (m, v) = (e, (m', v'))"
  | sd r m1 v1 where "NetworkOffloadMode (cl_Spec c) \<noteq> ''''" "reconcile_service (offload C k) sd (m, v) = (r, (m1, v1))"
      "meta_key (svc_meta sd) = svc_key_of q" "Config (svc_Spec sd) = want_config c"
      "(\<exists>x. r = Inl x) \<and> e \<noteq> None \<and> m' = m1 \<or>
       (\<exists>x. r = Inr x \<and> propagate_status (offload C k) c d (Some sd) x (m1, v1) = (e, (m', v')))"
proof (cases "TranslateDPUClusterToDPUService (Some c) (Name (set_meta d))")
  case None
  then have "NetworkOffloadMode (cl_Spec c) = ''''" by (auto simp: TranslateDPUClusterToDPUService_def split: if_splits)
  moreover have "propagate_status (offload C k) c d None None (m, v) = (e, (m', v'))" using assms(1) None by (simp add: after_set_def)
  ultimately show ?thesis by (rule that(2))
next
  case (Some s0)
  then have s0: "NetworkOffloadMode (cl_Spec c) \<noteq> ''''" "meta_key (svc_meta s0) = svc_key_of q" "Config (svc_Spec s0) = want_config c"
    using assms(2)
    by (auto simp: TranslateDPUClusterToDPUService_def adapter_meta_def meta_key_def svc_key_of_def want_config_def split: if_splits)
  show ?thesis
  proof (cases "SetControllerReference k (cl_meta c) (svc_meta s0)")
    case (Inl y)
    then have "m' = m" "e \<noteq> None" using assms Some by (auto simp: after_set_def)
    then show ?thesis by (rule that(1))
  next
    case (Inr y)
    let ?d = "s0\<lparr>svc_meta := y\<rparr>"
    obtain r m1 v1 where r: "reconcile_service (offload C k) ?d (m, v) = (r, (m1, v1))" by (metis prod.collapse)
    have d: "meta_key (svc_meta ?d) = svc_key_of q" "Config (svc_Spec ?d) = want_config c" using owner [OF Inr] s0 by simp_all
    have "(\<exists>x. r = Inl x) \<and> e \<noteq> None \<and> m' = m1 \<or>
       (\<exists>x. r = Inr x \<and> propagate_status (offload C k) c d (Some ?d) x (m1, v1) = (e, (m', v')))"
      using assms(1) Some Inr r by (cases r) (auto simp: after_set_def Let_def)
    then show ?thesis by (rule that(3) [OF s0(1) r d])
  qed
qed

text \<open>Step 3, seen from the cluster.\<close>

lemma status_end:
  assumes "propagate_status (offload C k) c d sd x (m, v) = (e, (m', v'))" and "sd = None \<longrightarrow> x = None"
    and "meta_key (cl_meta c) = q" and "clusters m q = Some c" and "meta_key (set_meta d) = set_key_of q"
    and "sd = None \<and> NetworkOffloadMode (cl_Spec c) = '''' \<or>
      (\<exists>d. sd = Some d \<and> NetworkOffloadMode (cl_Spec c) \<noteq> '''' \<and> meta_key (svc_meta d) = svc_key_of q)"
  shows "sets m' = sets m" "services m' = services m" "\<forall>p. p \<noteq> q \<longrightarrow> clusters m' p = clusters m p"
    "e = None \<Longrightarrow> \<exists>c'. clusters m' q = Some c' \<and> same_cluster c c' \<and> (cl_Ready c', cl_Phase c') = status_for q c m'"
    "status_for q c m = (cl_Ready c, cl_Phase c) \<Longrightarrow> m' = m"
proof -
  have st: "status_for q c m' = status_for q c m" if "sets m' = sets m" "services m' = services m"
    unfolding status_for_def that by (rule refl)
  have "(sets m' = sets m \<and> services m' = services m \<and> (\<forall>p. p \<noteq> q \<longrightarrow> clusters m' p = clusters m p)) \<and>
    (e = None \<longrightarrow> (\<exists>c'. clusters m' q = Some c' \<and> same_cluster c c' \<and> (cl_Ready c', cl_Phase c') = status_for q c m')) \<and>
    (status_for q c m = (cl_Ready c, cl_Phase c) \<longrightarrow> m' = m)"
  proof -
    note sf = seen_status_for [OF _ assms(6), of m]
    from status_step [OF assms(1,2) assms(4) [folded assms(3)]] show ?thesis unfolding assms(3,5)
    proof
      assume "m' = m \<and> (e = None \<longrightarrow> (\<exists>s. sets m (set_key_of q) = Some s \<and> seen_status m s sd = (cl_Ready c, cl_Phase c)))"
      then show ?thesis using assms(4) sf by (auto simp: same_cluster_def)
    next
      assume "\<exists>s rv. sets m (set_key_of q) = Some s \<and> seen_status m s sd \<noteq> (cl_Ready c, cl_Phase c) \<and>
        m' = m\<lparr>clusters := (clusters m)(q \<mapsto>
          c\<lparr>cl_meta := (cl_meta c)\<lparr>ResourceVersion := rv\<rparr>, cl_Ready := fst (seen_status m s sd), cl_Phase := snd (seen_status m s sd)\<rparr>)\<rparr>"
      then obtain s rv where s: "sets m (set_key_of q) = Some s" "seen_status m s sd \<noteq> (cl_Ready c, cl_Phase c)"
        "m' = m\<lparr>clusters := (clusters m)(q \<mapsto>
          c\<lparr>cl_meta := (cl_meta c)\<lparr>ResourceVersion := rv\<rparr>, cl_Ready := fst (seen_status m s sd), cl_Phase := snd (seen_status m s sd)\<rparr>)\<rparr>"
        by blast
      then show ?thesis using st sf [OF s(1)] by (simp add: same_cluster_def)
    qed
  qed
  then show "sets m' = sets m" "services m' = services m" "\<forall>p. p \<noteq> q \<longrightarrow> clusters m' p = clusters m p"
    "e = None \<Longrightarrow> \<exists>c'. clusters m' q = Some c' \<and> same_cluster c c' \<and> (cl_Ready c', cl_Phase c') = status_for q c m'"
    "status_for q c m = (cl_Ready c, cl_Phase c) \<Longrightarrow> m' = m" by blast+
qed

end

context cluster_server begin

lemma after_effect:
  assumes "after_set (offload C k) c d (m, v) = (e, (m', v'))" and "meta_key (cl_meta c) = q" and "clusters m q = Some c"
    and "meta_key (set_meta d) = set_key_of q"
  shows "sets m' = sets m" "NetworkOffloadMode (cl_Spec c) = '''' \<Longrightarrow> services m' = services m"
    "\<forall>p. p \<noteq> q \<longrightarrow> clusters m' p = clusters m p" "\<forall>p. p \<noteq> svc_key_of q \<longrightarrow> services m' p = services m p"
    "e = None \<Longrightarrow> service_settled q c m' \<and> (\<exists>c'. clusters m' q = Some c' \<and> same_cluster c c' \<and> (cl_Ready c', cl_Phase c') = status_for q c m')"
    "service_settled q c m \<Longrightarrow> status_for q c m = (cl_Ready c, cl_Phase c) \<Longrightarrow> m' = m"
proof -
  have "(sets m' = sets m \<and> (NetworkOffloadMode (cl_Spec c) = '''' \<longrightarrow> services m' = services m)) \<and>
    (\<forall>p. p \<noteq> q \<longrightarrow> clusters m' p = clusters m p) \<and> (\<forall>p. p \<noteq> svc_key_of q \<longrightarrow> services m' p = services m p) \<and>
    (e = None \<longrightarrow> service_settled q c m' \<and>
      (\<exists>c'. clusters m' q = Some c' \<and> same_cluster c c' \<and> (cl_Ready c', cl_Phase c') = status_for q c m')) \<and>
    (service_settled q c m \<longrightarrow> status_for q c m = (cl_Ready c, cl_Phase c) \<longrightarrow> m' = m)"
    using assms(1,2)
  proof (cases rule: after_split)
    case early
    then show ?thesis by auto
  next
    case plain
    note s = status_end [OF plain(2) _ assms(2,3,4)]
    show ?thesis using s plain(1) by (simp add: service_settled_def)
  next
    case (serving sd r m1 v1)
    note r = svc_step [OF serving(2), unfolded serving(3,4)]
    have c1: "clusters m1 q = Some c" using r(1) assms(3) by simp
    have quiet: "m1 = m" if "service_settled q c m" using that r(3) serving(1) by (auto simp: service_settled_def)
    from serving(5) show ?thesis
    proof
      assume "(\<exists>x. r = Inl x) \<and> e \<noteq> None \<and> m' = m1"
      then show ?thesis using r(1) quiet serving(1) by auto
    next
      assume "\<exists>x. r = Inr x \<and> propagate_status (offload C k) c d (Some sd) x (m1, v1) = (e, (m', v'))"
      then obtain x where x: "r = Inr x" "propagate_status (offload C k) c d (Some sd) x (m1, v1) = (e, (m', v'))" by blast
      have o: "Some sd = None \<and> NetworkOffloadMode (cl_Spec c) = '''' \<or>
        (\<exists>d. Some sd = Some d \<and> NetworkOffloadMode (cl_Spec c) \<noteq> '''' \<and> meta_key (svc_meta d) = svc_key_of q)"
        using serving(1,3) by simp
      note s = status_end [OF x(2) _ assms(2) c1 assms(4) o, simplified]
      have "service_settled q c m'" using r(2) [OF x(1)] s(2) by (auto simp: service_settled_def)
      then show ?thesis using r(1) s quiet serving(1) by auto
    qed
  qed
  then show "sets m' = sets m" "NetworkOffloadMode (cl_Spec c) = '''' \<Longrightarrow> services m' = services m"
    "\<forall>p. p \<noteq> q \<longrightarrow> clusters m' p = clusters m p" "\<forall>p. p \<noteq> svc_key_of q \<longrightarrow> services m' p = services m p"
    "e = None \<Longrightarrow> service_settled q c m' \<and> (\<exists>c'. clusters m' q = Some c' \<and> same_cluster c c' \<and> (cl_Ready c', cl_Phase c') = status_for q c m')"
    "service_settled q c m \<Longrightarrow> status_for q c m = (cl_Ready c, cl_Phase c) \<Longrightarrow> m' = m"
    by blast+
qed

lemma offload_pass:
  assumes "Reconcile (offload C k) q (m, v) = (e, (m', v'))" and "clusters m q = Some c" and "Vendor (cl_Spec c) = ''nvidia''"
  shows "NetworkOffloadMode (cl_Spec c) = '''' \<Longrightarrow> services m' = services m"
    "e = None \<Longrightarrow> set_settled q c m' \<and> service_settled q c m' \<and>
      (\<exists>c'. clusters m' q = Some c' \<and> same_cluster c c' \<and> (cl_Ready c', cl_Phase c') = status_for q c m')"
    "set_settled q c m \<Longrightarrow> sets m' = sets m"
    "set_settled q c m \<Longrightarrow> service_settled q c m \<Longrightarrow> status_for q c m = (cl_Ready c, cl_Phase c) \<Longrightarrow> m' = m"
    "(\<forall>p. p \<noteq> q \<longrightarrow> clusters m' p = clusters m p) \<and> (\<forall>p. p \<noteq> set_key_of q \<longrightarrow> sets m' p = sets m p) \<and>
      (\<forall>p. p \<noteq> svc_key_of q \<longrightarrow> services m' p = services m p)"
proof -
  have "(NetworkOffloadMode (cl_Spec c) = '''' \<longrightarrow> services m' = services m) \<and>
    (e = None \<longrightarrow> set_settled q c m' \<and> service_settled q c m' \<and>
      (\<exists>c'. clusters m' q = Some c' \<and> same_cluster c c' \<and> (cl_Ready c', cl_Phase c') = status_for q c m')) \<and>
    (set_settled q c m \<longrightarrow> sets m' = sets m) \<and>
    (set_settled q c m \<longrightarrow> service_settled q c m \<longrightarrow> status_for q c m = (cl_Ready c, cl_Phase c) \<longrightarrow> m' = m) \<and>
    (\<forall>p. p \<noteq> q \<longrightarrow> clusters m' p = clusters m p) \<and> (\<forall>p. p \<noteq> set_key_of q \<longrightarrow> sets m' p = sets m p) \<and>
      (\<forall>p. p \<noteq> svc_key_of q \<longrightarrow> services m' p = services m p)"
    using assms
  proof (cases rule: pass_split)
    case early
    then show ?thesis by auto
  next
    case (ran d v1 u m1 v2)
    note r = set_step [OF ran(2), unfolded ran(3,4,5)]
    have quiet: "m1 = m" if "set_settled q c m" using that r(3) by (auto simp: set_settled_def)
    from ran(6) show ?thesis
    proof
      assume "u \<noteq> None \<and> e = u \<and> m' = m1"
      then show ?thesis using r(1) quiet by auto
    next
      assume a: "u = None \<and> after_set (offload C k) c d (m1, v2) = (e, (m', v'))"
      have "clusters m1 q = Some c" using r(1) assms(2) by simp
      note s = after_effect [OF a [THEN conjunct2] ran(1) this ran(3)]
      have "set_settled q c m'" using r(2) a s(1) by (simp add: set_settled_def)
      then show ?thesis using r(1) s quiet by auto
    qed
  qed
  then show "NetworkOffloadMode (cl_Spec c) = '''' \<Longrightarrow> services m' = services m"
    "e = None \<Longrightarrow> set_settled q c m' \<and> service_settled q c m' \<and>
      (\<exists>c'. clusters m' q = Some c' \<and> same_cluster c c' \<and> (cl_Ready c', cl_Phase c') = status_for q c m')"
    "set_settled q c m \<Longrightarrow> sets m' = sets m"
    "set_settled q c m \<Longrightarrow> service_settled q c m \<Longrightarrow> status_for q c m = (cl_Ready c, cl_Phase c) \<Longrightarrow> m' = m"
    "(\<forall>p. p \<noteq> q \<longrightarrow> clusters m' p = clusters m p) \<and> (\<forall>p. p \<noteq> set_key_of q \<longrightarrow> sets m' p = sets m p) \<and>
      (\<forall>p. p \<noteq> svc_key_of q \<longrightarrow> services m' p = services m p)"
    by blast+
qed

end

section \<open>What the passes promise\<close>

text \<open>
  A pass that returns no error leaves the set and the service the cluster asks for on the server, and the
  stored status is the one that their own readiness amounts to.\<close>

theorem offload_status_reflects:
  assumes "cluster_server k C" and "Reconcile (offload C k) q (m, v) = (None, (m', v'))"
    and "clusters m q = Some c" and "Vendor (cl_Spec c) = ''nvidia''"
  shows "set_settled q c m' \<and> service_settled q c m' \<and>
    (\<exists>c'. clusters m' q = Some c' \<and> same_cluster c c' \<and> (cl_Ready c', cl_Phase c') = status_for q c m')"
  by (rule cluster_server.offload_pass(2) [OF assms refl])

text \<open>
  Turning the offload off does not take the service away: a pass over a cluster with no offload mode leaves
  every service as it is, whatever the calls answer; the deletion of step 3 is never reached, since a
  service is only looked up when one is wanted.\<close>

theorem disabled_service_stays:
  assumes "cluster_server k C" and "Reconcile (offload C k) q (m, v) = (e, (m', v'))"
    and "clusters m q = Some c" and "Vendor (cl_Spec c) = ''nvidia''" and "NetworkOffloadMode (cl_Spec c) = ''''"
  shows "services m' = services m"
  by (rule cluster_server.offload_pass(1) [OF assms])

text \<open>
  An edit of the node selector alone is not applied: a pass leaves every set alone when the stored one has
  the image and the flavor of the cluster.\<close>

theorem selector_edits_ignored:
  assumes "cluster_server k C" and "Reconcile (offload C k) q (m, v) = (e, (m', v'))"
    and "clusters m q = Some c" and "Vendor (cl_Spec c) = ''nvidia''" and "set_settled q c m"
  shows "sets m' = sets m"
  by (rule cluster_server.offload_pass(3) [OF assms])

text \<open>
  C30.  The reconciler settles: after a pass that returned no error, the next one changes nothing at all, even
  when its calls fail.\<close>

theorem offload_settles:
  assumes "cluster_server k C" and "Reconcile (offload C k) q (m, v) = (None, (m1, v1))"
    and "clusters m q = Some c" and "Vendor (cl_Spec c) = ''nvidia''"
    and "Reconcile (offload C k) q (m1, v2) = (e, (m2, v3))"
  shows "m2 = m1"
proof -
  note p = cluster_server.offload_pass(2) [OF assms(1-4) refl]
  then obtain c' where c: "clusters m1 q = Some c'" "same_cluster c c'" "(cl_Ready c', cl_Phase c') = status_for q c m1" by blast
  then have n: "Vendor (cl_Spec c') = ''nvidia''" using assms(4) by (simp add: same_cluster_def)
  show ?thesis
    by (rule cluster_server.offload_pass(4) [OF assms(1,5) c(1) n]) (use p c in \<open>simp_all add: same_cluster_wants\<close>)
qed

section \<open>A server in memory\<close>

definition off_missing :: go_error where "off_missing = External ''not found''"

definition off_lib :: machinery where
  "off_lib = \<lparr>IsNotFound = (\<lambda>e. e = off_missing),
     SetControllerReference = (\<lambda>ow x. if OwnerReferences x = [] then Inr (x\<lparr>OwnerReferences := [UID ow]\<rparr>)
        else Inl (External ''already owned''))\<rparr>"

text \<open>A read of one kind, a creation and an update that keeps the status, over the map of that kind.\<close>

definition off_get :: "(key \<Rightarrow> 'o option) \<Rightarrow> ('o \<Rightarrow> key) \<Rightarrow> key \<Rightarrow> go_error + 'o" where
  "off_get f ky q = (case f q of None \<Rightarrow> Inl off_missing | Some x \<Rightarrow> if ky x = q then Inr x else Inl (External ''corrupt''))"

definition off_client :: "(api \<times> unit) Client" where
  "off_client =
     \<lparr>get_cluster = (\<lambda>q w. (off_get (clusters (fst w)) (\<lambda>x. meta_key (cl_meta x)) q, w)),
      status_cluster = (\<lambda>c w. case clusters (fst w) (meta_key (cl_meta c)) of
          None \<Rightarrow> (Some off_missing, w)
        | Some old \<Rightarrow> (None, ((fst w)\<lparr>clusters := (clusters (fst w))(meta_key (cl_meta c) \<mapsto>
            old\<lparr>cl_meta := (cl_meta old)\<lparr>ResourceVersion := CHR ''1'' # ResourceVersion (cl_meta old)\<rparr>,
              cl_Ready := cl_Ready c, cl_Phase := cl_Phase c\<rparr>)\<rparr>, snd w))),
      get_set = (\<lambda>q w. (off_get (sets (fst w)) (\<lambda>x. meta_key (set_meta x)) q, w)),
      create_set = (\<lambda>s w. case sets (fst w) (meta_key (set_meta s)) of
          Some _ \<Rightarrow> (Some (External ''already exists''), w)
        | None \<Rightarrow> (None, ((fst w)\<lparr>sets := (sets (fst w))(meta_key (set_meta s) \<mapsto> s)\<rparr>, snd w))),
      update_set = (\<lambda>s w. case sets (fst w) (meta_key (set_meta s)) of
          None \<Rightarrow> (Some off_missing, w)
        | Some old \<Rightarrow> (None, ((fst w)\<lparr>sets := (sets (fst w))(meta_key (set_meta s) \<mapsto> old\<lparr>set_Spec := set_Spec s\<rparr>)\<rparr>, snd w))),
      get_svc = (\<lambda>q w. (off_get (services (fst w)) (\<lambda>x. meta_key (svc_meta x)) q, w)),
      create_svc = (\<lambda>s w. case services (fst w) (meta_key (svc_meta s)) of
          Some _ \<Rightarrow> (Some (External ''already exists''), w)
        | None \<Rightarrow> (None, ((fst w)\<lparr>services := (services (fst w))(meta_key (svc_meta s) \<mapsto> s)\<rparr>, snd w))),
      update_svc = (\<lambda>s w. case services (fst w) (meta_key (svc_meta s)) of
          None \<Rightarrow> (Some off_missing, w)
        | Some old \<Rightarrow> (None, ((fst w)\<lparr>services := (services (fst w))(meta_key (svc_meta s) \<mapsto> old\<lparr>svc_Spec := svc_Spec s\<rparr>)\<rparr>, snd w))),
      delete_svc = (\<lambda>s w. case services (fst w) (meta_key (svc_meta s)) of
          None \<Rightarrow> (Some off_missing, w)
        | Some _ \<Rightarrow> (None, ((fst w)\<lparr>services := (services (fst w))(meta_key (svc_meta s) := None)\<rparr>, snd w)))\<rparr>"

lemma off_get_law: "(case off_get f ky q of Inr x \<Rightarrow> f q = Some x \<and> ky x = q | Inl e \<Rightarrow> IsNotFound off_lib e \<longrightarrow> f q = None)"
  by (auto simp: off_get_def off_lib_def off_missing_def split: option.splits)

lemma off_server: "cluster_server off_lib off_client"
proof (standard, goal_cases)
  case (1 o1 o2 o3)
  then show ?case by (auto simp: off_lib_def meta_key_def split: if_splits)
next
  case (2 q m v a m' v')
  then show ?case using off_get_law [where f = "clusters m" and ky = "\<lambda>x. meta_key (cl_meta x)" and q = q] by (auto simp: off_client_def)
next
  case (3 q m v b m' v')
  then show ?case using off_get_law [where f = "sets m" and ky = "\<lambda>x. meta_key (set_meta x)" and q = q] by (auto simp: off_client_def)
next
  case (4 q m v c m' v')
  then show ?case using off_get_law [where f = "services m" and ky = "\<lambda>x. meta_key (svc_meta x)" and q = q] by (auto simp: off_client_def)
qed (auto simp: off_client_def split: option.splits)

interpretation off: cluster_server off_lib off_client
  by (rule off_server)

definition off_cluster :: "string \<Rightarrow> string gomap \<Rightarrow> bool \<Rightarrow> string \<Rightarrow> DPUCluster" where
  "off_cluster mode sel rdy phase =
     \<lparr>cl_meta = \<lparr>Name = ''c'', Namespace = ''a'', UID = ''u'', ResourceVersion = ''1'', Labels = [], OwnerReferences = []\<rparr>,
      cl_Spec = \<lparr>Vendor = ''nvidia'', NetworkOffloadMode = mode, cl_BFB = ''img'', DpuFlavor = '''', NodeSelector = sel, VpcName = ''v''\<rparr>,
      cl_Ready = rdy, cl_Phase = phase\<rparr>"

definition off_world :: "DPUCluster \<Rightarrow> api" where
  "off_world c = \<lparr>clusters = [(''a'', ''c'') \<mapsto> c], sets = Map.empty, services = Map.empty\<rparr>"

definition off_pass :: "api \<Rightarrow> go_error option \<times> api \<times> unit" where
  "off_pass m = Reconcile (offload off_client off_lib) (''a'', ''c'') (m, ())"

definition off_after :: "api \<Rightarrow> api" where "off_after m = fst (snd (off_pass m))"

lemma off_pass_eq: "fst (off_pass m) = e \<Longrightarrow> Reconcile (offload off_client off_lib) (''a'', ''c'') (m, ()) = (e, (off_after m, ()))"
  by (cases "off_pass m") (simp add: off_pass_def off_after_def)

definition off_new :: DPUCluster where "off_new = off_cluster ''ovn'' [] False ''''"

text \<open>A cluster that was reconciled, and is then edited.\<close>

definition off_edit :: "DPUCluster \<Rightarrow> api" where
  "off_edit c = (off_after (off_world off_new))\<lparr>clusters := [(''a'', ''c'') \<mapsto> c]\<rparr>"

definition off_plain :: DPUCluster where "off_plain = off_cluster '''' [] False ''DPUProvisioning''"
definition off_moved :: DPUCluster where "off_moved = off_cluster ''ovn'' [(''zone'', ''b'')] False ''DPUProvisioning''"

lemma off_simps:
  "clusters (off_world c) (''a'', ''c'') = Some c" "clusters (off_edit c) (''a'', ''c'') = Some c"
  "Vendor (cl_Spec off_new) = ''nvidia''" "Vendor (cl_Spec off_plain) = ''nvidia''" "Vendor (cl_Spec off_moved) = ''nvidia''"
  by (simp_all add: off_world_def off_edit_def off_new_def off_plain_def off_moved_def off_cluster_def)

theorem offload_status_reflects_witness:
  "service_settled (''a'', ''c'') off_new (off_after (off_world off_new)) \<and>
   status_for (''a'', ''c'') off_new (off_after (off_world off_new)) = (False, ''DPUProvisioning'')"
proof -
  have r: "fst (off_pass (off_world off_new)) = None" by code_simp
  have "status_for (''a'', ''c'') off_new (off_after (off_world off_new)) = (False, ''DPUProvisioning'')" by code_simp
  then show ?thesis using offload_status_reflects [OF off_server off_pass_eq [OF r] off_simps(1,3)] by simp
qed

theorem disabled_service_stays_witness:
  "services (off_edit off_plain) (''a'', ''c-dpuservice'') \<noteq> None \<and>
   services (off_after (off_edit off_plain)) = services (off_edit off_plain)"
proof -
  have r: "fst (off_pass (off_edit off_plain)) = None" by code_simp
  have s: "services (off_edit off_plain) (''a'', ''c-dpuservice'') \<noteq> None" by code_simp
  have m: "NetworkOffloadMode (cl_Spec off_plain) = ''''" by (simp add: off_plain_def off_cluster_def)
  show ?thesis using disabled_service_stays [OF off_server off_pass_eq [OF r] off_simps(2,4) m] s by simp
qed

theorem selector_edits_ignored_witness:
  "sets (off_after (off_edit off_moved)) = sets (off_edit off_moved) \<and>
   map_option (DpuNodeSelector \<circ> set_Spec) (sets (off_edit off_moved) (''a'', ''c-dpuset'')) = Some [] \<and>
   NodeSelector (cl_Spec off_moved) = [(''zone'', ''b'')]"
proof -
  have r: "fst (off_pass (off_edit off_moved)) = None" by code_simp
  have a: "map_option (DpuNodeSelector \<circ> set_Spec) (sets (off_edit off_moved) (''a'', ''c-dpuset'')) = Some []" by code_simp
  have b: "case sets (off_edit off_moved) (set_key_of (''a'', ''c'')) of None \<Rightarrow> False
    | Some s \<Rightarrow> BFB (set_Spec s) = cl_BFB (cl_Spec off_moved) \<and> Flavor (set_Spec s) = want_flavor off_moved" by code_simp
  have s: "set_settled (''a'', ''c'') off_moved (off_edit off_moved)" using b by (auto simp: set_settled_def split: option.splits)
  show ?thesis using selector_edits_ignored [OF off_server off_pass_eq [OF r] off_simps(2,5) s] a
    by (simp add: off_moved_def off_cluster_def)
qed

theorem offload_settles_witness:
  "off_after (off_after (off_world off_new)) = off_after (off_world off_new) \<and> off_after (off_world off_new) \<noteq> off_world off_new"
proof -
  have r: "fst (off_pass (off_world off_new)) = None" by code_simp
  have r2: "fst (off_pass (off_after (off_world off_new))) = None" by code_simp
  have "sets (off_after (off_world off_new)) (''a'', ''c-dpuset'') \<noteq> None" by code_simp
  then have "off_after (off_world off_new) \<noteq> off_world off_new" by (auto simp: off_world_def)
  then show ?thesis using offload_settles [OF off_server off_pass_eq [OF r] off_simps(1,3) off_pass_eq [OF r2]] by simp
qed

end
