(* ===== verification/ProfileAdapter.thy ===== *)
theory ProfileAdapter
  imports KubeObjects
begin

text \<open>
  \<open>Lokesh/feature_skeleton.go\<close>: a registry of vendor plugins, the NVIDIA plugin, and the reconciler of
  profiles that resolves a plugin and delegates to it.  The start-up of the manager is left out.
\<close>

section \<open>Objects\<close>

record OpiDpuProfileSpec =
  DpuFlavor :: string
  EnableLoadBalancing :: bool
  EnableEbpfLB :: bool

record Condition =
  Type :: string
  Status :: string
  Reason :: string
  Message :: string

record OpiDpuProfile =
  p_Name :: string
  p_Namespace :: string
  p_UID :: string
  p_ResourceVersion :: string
  p_Spec :: OpiDpuProfileSpec
  p_Phase :: string
  Conditions :: "Condition list"

record GroupVersionKind =
  Group :: string
  Version :: string
  Kind :: string

record OwnerReference =
  ow_APIVersion :: string
  ow_Kind :: string
  ow_Name :: string
  ow_UID :: string
  BlockOwnerDeletion :: bool

text \<open>An unstructured object: what its accessors read, and the rest of its content.\<close>

record Object =
  GVK :: GroupVersionKind
  o_Name :: string
  o_Namespace :: string
  Owners :: "OwnerReference list"
  Content :: "json gomap"

record ProviderStatus =
  Phase :: string
  DegradedReason :: string
  DegradedMessage :: string

definition PhasePending :: string where "PhasePending = ''Pending''"
definition PhaseReady :: string where "PhaseReady = ''Ready''"
definition PhaseDegraded :: string where "PhaseDegraded = ''Degraded''"

definition dpuSetGVK :: GroupVersionKind where
  "dpuSetGVK = \<lparr>Group = ''provisioning.dpu.nvidia.com'', Version = ''v1alpha1'', Kind = ''DPUSet''\<rparr>"
definition dpuServiceGVK :: GroupVersionKind where
  "dpuServiceGVK = \<lparr>Group = ''svc.dpu.nvidia.com'', Version = ''v1alpha1'', Kind = ''DPUService''\<rparr>"

definition dpuGateLabel :: string where "dpuGateLabel = ''dpu''"
definition nvidiaVendorNFDLabel :: string where "nvidiaVendorNFDLabel = ''feature.node.kubernetes.io/pci-0300_10de.present''"

type_synonym key = "string \<times> string"

text \<open>The client, with the apply patch under a field manager, and the helpers of the Kubernetes packages.\<close>

record 'w Client =
  get_profile :: "key \<Rightarrow> 'w \<Rightarrow> (go_error + OpiDpuProfile) \<times> 'w"
  get_object :: "GroupVersionKind \<Rightarrow> key \<Rightarrow> 'w \<Rightarrow> (go_error + Object) \<times> 'w"
  patch_object :: "string \<Rightarrow> Object \<Rightarrow> 'w \<Rightarrow> go_error option \<times> 'w"
  status_profile :: "OpiDpuProfile \<Rightarrow> 'w \<Rightarrow> go_error option \<times> 'w"

record machinery =
  IsNotFound :: "go_error \<Rightarrow> bool"
  SetNestedField :: "json gomap \<Rightarrow> string \<Rightarrow> string list \<Rightarrow> go_error + json gomap"
  SetStatusCondition :: "Condition list \<Rightarrow> Condition \<Rightarrow> Condition list"

definition IgnoreNotFound :: "machinery \<Rightarrow> go_error \<Rightarrow> go_error option" where
  "IgnoreNotFound k e = (if IsNotFound k e then None else Some e)"

section \<open>Plugins\<close>

text \<open>\<open>Translate\<close> is given a pointer to the profile, so it also gives the profile it leaves behind.\<close>

record 'w OpiProviderPlugin =
  Name :: string
  Supports :: "string gomap \<Rightarrow> bool"
  Translate :: "OpiDpuProfile \<Rightarrow> (go_error + Object list) \<times> OpiDpuProfile"
  provider_Status :: "'w Client \<Rightarrow> OpiDpuProfile \<Rightarrow> 'w \<Rightarrow> (go_error + ProviderStatus) \<times> 'w"

record 'w ProviderRegistry =
  plugins :: "'w OpiProviderPlugin list"

definition NewProviderRegistry :: "'w ProviderRegistry" where "NewProviderRegistry = \<lparr>plugins = []\<rparr>"

definition Register :: "'w OpiProviderPlugin \<Rightarrow> 'w ProviderRegistry \<Rightarrow> 'w ProviderRegistry" where
  "Register p r = r\<lparr>plugins := plugins r @ [p]\<rparr>"

definition Resolve :: "'w ProviderRegistry \<Rightarrow> string gomap \<Rightarrow> go_error + 'w OpiProviderPlugin" where
  "Resolve r nodeLabels = (case find (\<lambda>p. Supports p nodeLabels) (plugins r) of
       Some p \<Rightarrow> Inr p
     | None \<Rightarrow> Inl (Errorf ''no registered provider supports the given node labels'' []))"

definition setOwnerReference :: "OpiDpuProfile \<Rightarrow> Object \<Rightarrow> Object" where
  "setOwnerReference owner obj = obj\<lparr>Owners := [\<lparr>ow_APIVersion = ''opi.io/v1alpha1'', ow_Kind = ''OpiDpuProfile'',
     ow_Name = p_Name owner, ow_UID = p_UID owner, BlockOwnerDeletion = True\<rparr>]\<rparr>"

definition nv_Supports :: "string gomap \<Rightarrow> bool" where
  "nv_Supports nodeLabels = (str_at nodeLabels dpuGateLabel = ''true'' \<and> str_at nodeLabels nvidiaVendorNFDLabel = ''true'')"

text \<open>The mode of the load balancer, and whether it falls short of what was asked for.\<close>

definition lb_mode :: "OpiDpuProfileSpec \<Rightarrow> string \<times> bool" where
  "lb_mode s = (if EnableLoadBalancing s
     then (if EnableEbpfLB s then (''hbn-filters'', True) else (''hbn-filters'', False))
     else (''none'', False))"

definition degraded_condition :: Condition where
  "degraded_condition = \<lparr>Type = ''FeatureDegraded'', Status = ''True'', Reason = ''EbpfLoadBalancingUnsupported'',
     Message = ''eBPF load balancing unsupported on NVIDIA DPF; falling back to HBN pipeline filters''\<rparr>"

definition nv_Translate :: "machinery \<Rightarrow> OpiDpuProfile \<Rightarrow> (go_error + Object list) \<times> OpiDpuProfile" where
  "nv_Translate k profile =
     (case SetNestedField k [] (DpuFlavor (p_Spec profile)) [''spec'', ''dpuFlavor''] of
        Inl err \<Rightarrow> (Inl (Errorf ''setting dpuFlavor: %w'' [AWrap err]), profile)
      | Inr content \<Rightarrow>
          (let dpuSet = setOwnerReference profile \<lparr>GVK = dpuSetGVK, o_Name = p_Name profile @ ''-dpuset'',
                 o_Namespace = p_Namespace profile, Owners = [], Content = content\<rparr>
           in case lb_mode (p_Spec profile) of (mode, degraded) \<Rightarrow>
             (case SetNestedField k [] mode [''spec'', ''loadBalancing'', ''mode''] of
                Inl err \<Rightarrow> (Inl (Errorf ''setting loadBalancing mode: %w'' [AWrap err]), profile)
              | Inr content2 \<Rightarrow>
                  (let dpuService = setOwnerReference profile \<lparr>GVK = dpuServiceGVK, o_Name = p_Name profile @ ''-dpuservice'',
                         o_Namespace = p_Namespace profile, Owners = [], Content = content2\<rparr>
                   in (Inr [dpuSet, dpuService],
                       if degraded then profile\<lparr>Conditions := SetStatusCondition k (Conditions profile) degraded_condition\<rparr>
                       else profile)))))"

definition nv_Status :: "'w Client \<Rightarrow> OpiDpuProfile \<Rightarrow> 'w \<Rightarrow> (go_error + ProviderStatus) \<times> 'w" where
  "nv_Status c profile w =
     (case get_object c dpuSetGVK (p_Namespace profile, p_Name profile @ ''-dpuset'') w of
        (Inl err, w1) \<Rightarrow> (Inr \<lparr>Phase = PhaseDegraded, DegradedReason = ''DependencyMissing'',
             DegradedMessage = ''NVIDIA DPF operator unresponsive''\<rparr>, w1)
      | (Inr _, w1) \<Rightarrow> (Inr \<lparr>Phase = PhaseReady, DegradedReason = '''', DegradedMessage = ''''\<rparr>, w1))"

definition NewNvidiaDpfAdapter :: "machinery \<Rightarrow> 'w OpiProviderPlugin" where
  "NewNvidiaDpfAdapter k = \<lparr>Name = ''nvidia-dpf'', Supports = nv_Supports, Translate = nv_Translate k, provider_Status = nv_Status\<rparr>"

section \<open>The reconciler\<close>

record 'w OpiDpuProfileReconciler =
  rec_Client :: "'w Client"
  Registry :: "'w ProviderRegistry"
  rec_lib :: machinery

definition schedule :: "duration list" where "schedule = [5 * second, 10 * second, 30 * second, 60 * second]"

definition backoffSchedule :: "int \<Rightarrow> duration" where
  "backoffSchedule consecutiveFailures =
     (if consecutiveFailures \<ge> int (length schedule) then schedule ! (length schedule - 1)
      else schedule ! nat (if consecutiveFailures < 0 then 0 else consecutiveFailures))"

text \<open>The profile with the name and the namespace of the request where it has none.\<close>

definition guard_name :: "key \<Rightarrow> OpiDpuProfile \<Rightarrow> OpiDpuProfile" where
  "guard_name req profile =
     (let p = (if p_Name profile = '''' then profile\<lparr>p_Name := snd req\<rparr> else profile)
      in if p_Namespace p = '''' then p\<lparr>p_Namespace := fst req\<rparr> else p)"

definition sim_labels :: "string gomap" where "sim_labels = [(dpuGateLabel, ''true''), (nvidiaVendorNFDLabel, ''true'')]"

text \<open>The result of a pass: the delay and the error.\<close>

type_synonym 'w pass = "(duration \<times> go_error option) \<times> 'w"

definition report_status :: "'w OpiDpuProfileReconciler \<Rightarrow> 'w OpiProviderPlugin \<Rightarrow> OpiDpuProfile \<Rightarrow> 'w \<Rightarrow> 'w pass" where
  "report_status r provider profile w =
     (case provider_Status provider (rec_Client r) profile w of
        (Inl err, w1) \<Rightarrow> ((backoffSchedule 1, None), w1)
      | (Inr status, w1) \<Rightarrow>
          (case status_profile (rec_Client r) (profile\<lparr>p_Phase := Phase status\<rparr>) w1 of
             (Some err, w2) \<Rightarrow> ((0, Some err), w2)
           | (None, w2) \<Rightarrow> ((if Phase status = PhaseDegraded then backoffSchedule 0 else 0, None), w2)))"

definition Reconcile :: "'w OpiDpuProfileReconciler \<Rightarrow> key \<Rightarrow> 'w \<Rightarrow> 'w pass" where
  "Reconcile r req w =
     (case get_profile (rec_Client r) req w of
        (Inl err, w1) \<Rightarrow> ((0, IgnoreNotFound (rec_lib r) err), w1)
      | (Inr profile0, w1) \<Rightarrow>
          (case Resolve (Registry r) sim_labels of
             Inl err \<Rightarrow> ((0, Some err), w1)
           | Inr provider \<Rightarrow>
               (case Translate provider (guard_name req profile0) of
                  (Inl err, _) \<Rightarrow> ((0, Some err), w1)
                | (Inr desired, profile) \<Rightarrow>
                    (case each_until_err (patch_object (rec_Client r) ''opi-operator'') desired w1 of
                       (Some _, w2) \<Rightarrow> ((backoffSchedule 0, None), w2)
                     | (None, w2) \<Rightarrow> report_status r provider profile w2))))"

text \<open>The reconciler that \<open>main\<close> builds.\<close>

definition main_reconciler :: "'w Client \<Rightarrow> machinery \<Rightarrow> 'w OpiDpuProfileReconciler" where
  "main_reconciler c k = \<lparr>rec_Client = c, Registry = Register (NewNvidiaDpfAdapter k) NewProviderRegistry, rec_lib = k\<rparr>"

section \<open>Plugins and delays\<close>

text \<open>
  A registry answers with the plugin that was registered first among those that take the node, and with an
  error only when there is none.\<close>

theorem resolve_takes_first:
  "case Resolve r labels of
     Inl _ \<Rightarrow> list_all (\<lambda>p. \<not> Supports p labels) (plugins r)
   | Inr p \<Rightarrow> Supports p labels \<and>
       (\<exists>before after. plugins r = before @ p # after \<and> list_all (\<lambda>p. \<not> Supports p labels) before)"
proof (cases "find (\<lambda>p. Supports p labels) (plugins r)")
  case None
  then have "list_all (\<lambda>p. \<not> Supports p labels) (plugins r)" by (simp add: find_None_iff list_all_iff)
  then show ?thesis using None by (simp add: Resolve_def)
next
  case (Some p)
  then obtain i where i: "i < length (plugins r)" "Supports (plugins r ! i) labels" "p = plugins r ! i"
    "\<forall>j<i. \<not> Supports (plugins r ! j) labels"
    by (auto simp: find_Some_iff)
  have "plugins r = take i (plugins r) @ p # drop (Suc i) (plugins r)" using i(1,3) by (simp add: id_take_nth_drop)
  moreover have "list_all (\<lambda>p. \<not> Supports p labels) (take i (plugins r))"
    using i(1,4) by (auto simp: list_all_length)
  ultimately show ?thesis using Some i(2,3) by (auto simp: Resolve_def)
qed

lemma backoff_cases: "backoffSchedule n = (if n \<le> 0 then 5 * second else if n = 1 then 10 * second else if n = 2 then 30 * second else 60 * second)"
proof -
  consider "n \<le> 0" | "n = 1" | "n = 2" | "n = 3" | "n \<ge> 4" by linarith
  then show ?thesis by cases (auto simp: backoffSchedule_def schedule_def)
qed

text \<open>
  The delay for a count of failures is one of the schedule for every integer, negative ones and large ones
  included, and more failures never give a shorter delay.\<close>

theorem backoff_monotone:
  "5 * second \<le> backoffSchedule n \<and> backoffSchedule n \<le> backoffSchedule (n + int d) \<and> backoffSchedule (n + int d) \<le> minute"
  by (simp add: backoff_cases second_def minute_def)

text \<open>
  But no pass looks at a count of failures: whatever the plugins, the delay of a pass is none, five or ten
  seconds, and it does not grow.\<close>

theorem delay_never_grows: "fst (fst (Reconcile r req w)) \<in> {0, 5 * second, 10 * second}"
  by (auto simp: Reconcile_def report_status_def backoff_cases split: prod.splits sum.splits option.splits)

section \<open>An API server\<close>

fun json_at :: "json gomap \<Rightarrow> string list \<Rightarrow> json option" where
  "json_at m [] = Some (JObject m)"
| "json_at m (k # ks) = (case map_of m k of
      None \<Rightarrow> None
    | Some (JObject m') \<Rightarrow> json_at m' ks
    | Some j \<Rightarrow> if ks = [] then Some j else None)"

definition says :: "Object \<Rightarrow> string list \<Rightarrow> string \<Rightarrow> bool" where
  "says ob path v = (json_at (Content ob) path = Some (JString v))"

definition profile_key :: "OpiDpuProfile \<Rightarrow> key" where "profile_key p = (p_Namespace p, p_Name p)"
definition object_key_of :: "Object \<Rightarrow> GroupVersionKind \<times> key" where
  "object_key_of x = (GVK x, (o_Namespace x, o_Name x))"

record api =
  profiles :: "key \<Rightarrow> OpiDpuProfile option"
  objects :: "GroupVersionKind \<times> key \<Rightarrow> Object option"

text \<open>The helpers: a field set in an empty content can be read back; setting a condition keeps the others.\<close>

definition helper_lib :: "machinery \<Rightarrow> bool" where
  "helper_lib k =
     ((\<forall>v ks. ks \<noteq> [] \<longrightarrow> (\<exists>m. SetNestedField k [] v ks = Inr m \<and> json_at m ks = Some (JString v))) \<and>
      (\<forall>cs c. (\<exists>x \<in> set (SetStatusCondition k cs c). Type x = Type c \<and> Status x = Status c) \<and>
         (\<forall>x \<in> set cs. Type x \<noteq> Type c \<longrightarrow> x \<in> set (SetStatusCondition k cs c))))"

text \<open>
  The server: a read gives what is stored; a call that fails changes nothing; an apply patch leaves an
  object that says what the patch says and has its owners; a status write stores the status only.\<close>

locale profile_server =
  fixes k :: machinery
    and C :: "(api \<times> 'v) Client"
  assumes read: "get_profile C q (m, v) = (a, (m', v')) \<Longrightarrow>
      m' = m \<and> (case a of Inr p \<Rightarrow> profiles m q = Some p \<and> profile_key p = q | Inl err \<Rightarrow> IsNotFound k err \<longrightarrow> profiles m q = None)"
    and read_object: "get_object C g q (m, v) = (b, (m', v')) \<Longrightarrow>
      m' = m \<and> (case b of Inr x \<Rightarrow> objects m (g, q) = Some x | Inl err \<Rightarrow> IsNotFound k err \<longrightarrow> objects m (g, q) = None)"
    and patch: "patch_object C fm ob (m, v) = (e, (m', v')) \<Longrightarrow>
      (if e = None
       then \<exists>ob'. m' = m\<lparr>objects := (objects m)(object_key_of ob \<mapsto> ob')\<rparr> \<and> Owners ob' = Owners ob \<and>
         (\<forall>path val. says ob path val \<longrightarrow> says ob' path val)
       else m' = m)"
    and status_effect: "status_profile C x (m, v) = (e, (m', v')) \<Longrightarrow>
      (if e = None
       then \<exists>old rv. profiles m (profile_key x) = Some old \<and>
         m' = m\<lparr>profiles := (profiles m)(profile_key x \<mapsto> old\<lparr>p_ResourceVersion := rv, p_Phase := p_Phase x, Conditions := Conditions x\<rparr>)\<rparr>
       else m' = m)"

definition set_at :: "key \<Rightarrow> GroupVersionKind \<times> key" where "set_at q = (dpuSetGVK, (fst q, snd q @ ''-dpuset''))"
definition service_at :: "key \<Rightarrow> GroupVersionKind \<times> key" where "service_at q = (dpuServiceGVK, (fst q, snd q @ ''-dpuservice''))"

lemma set_service_differ [simp]: "set_at q \<noteq> service_at q'"
  by (simp add: set_at_def service_at_def dpuSetGVK_def dpuServiceGVK_def)

text \<open>The conditions a pass stores, and the objects a profile asks for.\<close>

definition pass_conditions :: "machinery \<Rightarrow> OpiDpuProfile \<Rightarrow> Condition list" where
  "pass_conditions k p = (if snd (lb_mode (p_Spec p)) then SetStatusCondition k (Conditions p) degraded_condition else Conditions p)"

definition applied :: "key \<Rightarrow> OpiDpuProfile \<Rightarrow> api \<Rightarrow> bool" where
  "applied q p m = (\<exists>st sv. objects m (set_at q) = Some st \<and> says st [''spec'', ''dpuFlavor''] (DpuFlavor (p_Spec p)) \<and>
     objects m (service_at q) = Some sv \<and> says sv [''spec'', ''loadBalancing'', ''mode''] (fst (lb_mode (p_Spec p))))"

lemma main_resolves: "Resolve (Registry (main_reconciler C k)) sim_labels = Inr (NewNvidiaDpfAdapter k)"
  by (simp add: Resolve_def main_reconciler_def Register_def NewProviderRegistry_def NewNvidiaDpfAdapter_def nv_Supports_def
      sim_labels_def str_at_def dpuGateLabel_def nvidiaVendorNFDLabel_def)

lemma guard_named: "profile_key p = q \<Longrightarrow> guard_name q p = p"
  by (cases q) (auto simp: guard_name_def profile_key_def)

text \<open>The translation of a profile, over the helpers.\<close>

lemma translated:
  assumes "helper_lib k" and "profile_key p = q"
  obtains st sv where "nv_Translate k p = (Inr [st, sv], p\<lparr>Conditions := pass_conditions k p\<rparr>)"
    "object_key_of st = set_at q" "says st [''spec'', ''dpuFlavor''] (DpuFlavor (p_Spec p))"
    "object_key_of sv = service_at q" "says sv [''spec'', ''loadBalancing'', ''mode''] (fst (lb_mode (p_Spec p)))"
proof -
  have h: "\<exists>m. SetNestedField k [] v ks = Inr m \<and> json_at m ks = Some (JString v)" if "ks \<noteq> []" for v ks
    using assms(1) that by (simp add: helper_lib_def)
  obtain m1 where m1: "SetNestedField k [] (DpuFlavor (p_Spec p)) [''spec'', ''dpuFlavor''] = Inr m1"
    "json_at m1 [''spec'', ''dpuFlavor''] = Some (JString (DpuFlavor (p_Spec p)))" using h by blast
  obtain md dg where lb: "lb_mode (p_Spec p) = (md, dg)" by fastforce
  obtain m2 where m2: "SetNestedField k [] md [''spec'', ''loadBalancing'', ''mode''] = Inr m2"
    "json_at m2 [''spec'', ''loadBalancing'', ''mode''] = Some (JString md)" using h by blast
  let ?st = "setOwnerReference p \<lparr>GVK = dpuSetGVK, o_Name = p_Name p @ ''-dpuset'', o_Namespace = p_Namespace p, Owners = [], Content = m1\<rparr>"
  let ?sv = "setOwnerReference p \<lparr>GVK = dpuServiceGVK, o_Name = p_Name p @ ''-dpuservice'', o_Namespace = p_Namespace p, Owners = [], Content = m2\<rparr>"
  have "nv_Translate k p = (Inr [?st, ?sv], p\<lparr>Conditions := pass_conditions k p\<rparr>)"
    using m1 m2 lb by (simp add: nv_Translate_def Let_def pass_conditions_def)
  moreover have "object_key_of ?st = set_at q" "object_key_of ?sv = service_at q"
    using assms(2) by (auto simp: object_key_of_def setOwnerReference_def set_at_def service_at_def profile_key_def)
  moreover have "says ?st [''spec'', ''dpuFlavor''] (DpuFlavor (p_Spec p))" "says ?sv [''spec'', ''loadBalancing'', ''mode''] (fst (lb_mode (p_Spec p)))"
    using m1(2) m2(2) lb by (simp_all add: says_def setOwnerReference_def)
  ultimately show ?thesis using that by blast
qed

context profile_server begin

lemma main_pass [consumes 2, case_names read_only applying]:
  assumes "Reconcile (main_reconciler C k) q (m, v) = ((d, e), (m', v'))" and "helper_lib k"
  obtains "m' = m" "profiles m q = None \<or> e \<noteq> None"
  | p v1 st sv u m1 v2 where "profiles m q = Some p" "profile_key p = q"
      "object_key_of st = set_at q" "says st [''spec'', ''dpuFlavor''] (DpuFlavor (p_Spec p))"
      "object_key_of sv = service_at q" "says sv [''spec'', ''loadBalancing'', ''mode''] (fst (lb_mode (p_Spec p)))"
      "each_until_err (patch_object C ''opi-operator'') [st, sv] (m, v1) = (u, (m1, v2))"
      "u \<noteq> None \<and> d = 5 * second \<and> e = None \<and> m' = m1 \<or>
       u = None \<and> report_status (main_reconciler C k) (NewNvidiaDpfAdapter k) (p\<lparr>Conditions := pass_conditions k p\<rparr>) (m1, v2) = ((d, e), (m', v'))"
proof -
  obtain g m0 v1 where g: "get_profile C q (m, v) = (g, (m0, v1))" by (metis prod.collapse)
  note k1 = read [OF g]
  have sel: "rec_Client (main_reconciler C k) = C" "rec_lib (main_reconciler C k) = k" by (simp_all add: main_reconciler_def)
  show ?thesis
  proof (cases g)
    case (Inl x)
    then have "m' = m" "profiles m q = None \<or> e \<noteq> None"
      using assms(1) g k1 by (auto simp: Reconcile_def sel IgnoreNotFound_def split: if_splits)
    then show ?thesis by (rule that(1))
  next
    case (Inr p)
    then have p: "m0 = m" "profiles m q = Some p" "profile_key p = q" using k1 by auto
    from translated [OF assms(2) p(3)] obtain st sv where t: "nv_Translate k p = (Inr [st, sv], p\<lparr>Conditions := pass_conditions k p\<rparr>)"
      and o: "object_key_of st = set_at q" "says st [''spec'', ''dpuFlavor''] (DpuFlavor (p_Spec p))"
        "object_key_of sv = service_at q" "says sv [''spec'', ''loadBalancing'', ''mode''] (fst (lb_mode (p_Spec p)))" by blast
    obtain u m1 v2 where u: "each_until_err (patch_object C ''opi-operator'') [st, sv] (m, v1) = (u, (m1, v2))" by (metis prod.collapse)
    have "u \<noteq> None \<and> d = 5 * second \<and> e = None \<and> m' = m1 \<or>
       u = None \<and> report_status (main_reconciler C k) (NewNvidiaDpfAdapter k) (p\<lparr>Conditions := pass_conditions k p\<rparr>) (m1, v2) = ((d, e), (m', v'))"
      using assms(1) g Inr p u t main_resolves [of C k] guard_named [OF p(3)]
      by (cases u) (auto simp: Reconcile_def sel backoff_cases NewNvidiaDpfAdapter_def)
    then show ?thesis by (rule that(2) [OF p(2,3) o u])
  qed
qed

lemma applied_pair:
  assumes "each_until_err (patch_object C fm) [st, sv] (m, v) = (u, (m', v'))"
    and "object_key_of st = set_at q" and "says st [''spec'', ''dpuFlavor''] (DpuFlavor (p_Spec p))"
    and "object_key_of sv = service_at q" and "says sv [''spec'', ''loadBalancing'', ''mode''] (fst (lb_mode (p_Spec p)))"
  shows "profiles m' = profiles m" "u = None \<Longrightarrow> applied q p m'"
proof -
  obtain a m1 v1 where 1: "patch_object C fm st (m, v) = (a, (m1, v1))" by (metis prod.collapse)
  obtain b m2 v2 where 2: "patch_object C fm sv (m1, v1) = (b, (m2, v2))" by (metis prod.collapse)
  note k1 = patch [OF 1, unfolded assms(2)] and k2 = patch [OF 2, unfolded assms(4)]
  have "profiles m' = profiles m \<and> (u = None \<longrightarrow> applied q p m')"
  proof (cases a)
    case (Some x)
    then show ?thesis using assms(1) 1 k1 by auto
  next
    case a: None
    show ?thesis
    proof (cases b)
      case (Some x)
      then show ?thesis using assms(1) 1 2 a k1 k2 by auto
    next
      case None
      then have "m' = m2" "u = None" using assms(1) 1 2 a by auto
      moreover obtain s1 where "m1 = m\<lparr>objects := (objects m)(set_at q \<mapsto> s1)\<rparr>" "says s1 [''spec'', ''dpuFlavor''] (DpuFlavor (p_Spec p))"
        using k1 a assms(3) by auto
      moreover obtain s2 where "m2 = m1\<lparr>objects := (objects m1)(service_at q \<mapsto> s2)\<rparr>"
        "says s2 [''spec'', ''loadBalancing'', ''mode''] (fst (lb_mode (p_Spec p)))"
        using k2 None assms(5) by auto
      ultimately show ?thesis by (simp add: applied_def)
    qed
  qed
  then show "profiles m' = profiles m" "u = None \<Longrightarrow> applied q p m'" by blast+
qed

lemma reported:
  assumes "report_status (main_reconciler C k) (NewNvidiaDpfAdapter k) (p\<lparr>Conditions := cs\<rparr>) (m, v) = ((d, e), (m', v'))"
    and "profile_key p = q" and "profiles m q = Some p"
  shows "objects m' = objects m \<and> (\<forall>q'. q' \<noteq> q \<longrightarrow> profiles m' q' = profiles m q') \<and>
    (e \<noteq> None \<and> m' = m \<or> e = None \<and> (\<exists>p'. profiles m' q = Some p' \<and> p_Spec p' = p_Spec p \<and> Conditions p' = cs \<and>
       (d = 0 \<and> p_Phase p' = PhaseReady \<and> objects m (set_at q) \<noteq> None \<or> d = 5 * second \<and> p_Phase p' = PhaseDegraded)))"
proof -
  obtain a m1 v1 where 1: "get_object C dpuSetGVK (snd (set_at q)) (m, v) = (a, (m1, v1))" by (metis prod.collapse)
  note k1 = read_object [OF 1]
  have at: "(p_Namespace p, p_Name p @ ''-dpuset'') = snd (set_at q)" using assms(2) by (auto simp: set_at_def profile_key_def)
  let ?ph = "case a of Inl _ \<Rightarrow> PhaseDegraded | Inr _ \<Rightarrow> PhaseReady"
  let ?p = "p\<lparr>Conditions := cs, p_Phase := ?ph\<rparr>"
  obtain u m2 v2 where u: "status_profile C ?p (m, v1) = (u, (m2, v2))" by (metis prod.collapse)
  have n: "PhaseReady \<noteq> PhaseDegraded" by (simp add: PhaseReady_def PhaseDegraded_def)
  have key: "profile_key ?p = q" using assms(2) by (simp add: profile_key_def)
  note k2 = status_effect [OF u, unfolded key]
  have sel: "rec_Client (main_reconciler C k) = C" "provider_Status (NewNvidiaDpfAdapter k) = nv_Status"
    by (simp_all add: main_reconciler_def NewNvidiaDpfAdapter_def)
  have r: "m' = m2 \<and> e = u \<and> (u = None \<longrightarrow> d = (if ?ph = PhaseDegraded then 5 * second else 0))"
    using assms(1) 1 k1 u n by (cases a; cases u) (auto simp: report_status_def sel nv_Status_def at backoff_cases)
  show ?thesis
  proof (cases u)
    case (Some x)
    then show ?thesis using r k2 by simp
  next
    case None
    then obtain rv where m2: "m2 = m\<lparr>profiles := (profiles m)(q \<mapsto> p\<lparr>p_ResourceVersion := rv, p_Phase := ?ph, Conditions := cs\<rparr>)\<rparr>"
      using k2 assms(3) by auto
    have "a = Inr x \<Longrightarrow> objects m (set_at q) \<noteq> None" for x using k1 by (simp add: set_at_def)
    then show ?thesis using r None m2 n by (cases a) auto
  qed
qed

end

section \<open>What a pass promises\<close>

text \<open>
  A pass that returns no error and asks for no delay has applied both objects and stored the phase Ready:
  that the set is on the server is all that Ready stands for, its own status is not read.\<close>

theorem ready_after_apply:
  assumes "profile_server k C" and "helper_lib k" and "Reconcile (main_reconciler C k) q (m, v) = ((0, None), (m', v'))"
    and "profiles m q = Some p"
  shows "applied q p m' \<and> (\<exists>p'. profiles m' q = Some p' \<and> p_Phase p' = PhaseReady \<and> Conditions p' = pass_conditions k p)"
  using assms(1,3,2)
proof (cases rule: profile_server.main_pass [consumes 3, case_names read_only applying])
  case read_only
  then show ?thesis using assms(4) by simp
next
  case (applying p1 v1 st sv u m1 v2)
  have p: "p1 = p" using applying(1) assms(4) by simp
  note pr = profile_server.applied_pair [OF assms(1) applying(7,3,4,5,6)]
  have r: "u = None" "report_status (main_reconciler C k) (NewNvidiaDpfAdapter k) (p\<lparr>Conditions := pass_conditions k p\<rparr>) (m1, v2) = ((0, None), (m', v'))"
    using applying(8) p by (auto simp: second_def)
  have "profiles m1 q = Some p" using pr(1) assms(4) by simp
  note rp = profile_server.reported [OF assms(1) r(2) applying(2) [unfolded p] this]
  have "applied q p m'" using pr(2) [OF r(1)] rp p by (simp add: applied_def)
  then show ?thesis using rp by (auto simp: second_def)
qed

text \<open>
  The condition that a feature was degraded is never taken back: whatever the profile asks for by now and
  whatever the calls answer, after a pass the stored profile still holds it.\<close>

theorem degraded_survives:
  assumes "profile_server k C" and "helper_lib k" and "Reconcile (main_reconciler C k) q (m, v) = ((d, e), (m', v'))"
    and "profiles m q = Some p" and "\<exists>c \<in> set (Conditions p). Type c = ''FeatureDegraded'' \<and> Status c = ''True''"
  shows "\<exists>p'. profiles m' q = Some p' \<and> (\<exists>c \<in> set (Conditions p'). Type c = ''FeatureDegraded'' \<and> Status c = ''True'')"
  using assms(1,3,2)
proof (cases rule: profile_server.main_pass [consumes 3, case_names read_only applying])
  case read_only
  then show ?thesis using assms(4,5) by auto
next
  case (applying p1 v1 st sv u m1 v2)
  have p: "p1 = p" using applying(1) assms(4) by simp
  have m1: "profiles m1 q = Some p"
    using profile_server.applied_pair(1) [OF assms(1) applying(7,3,4,5,6)] assms(4) by simp
  have kept: "\<exists>c \<in> set (pass_conditions k p). Type c = ''FeatureDegraded'' \<and> Status c = ''True''"
  proof (cases "snd (lb_mode (p_Spec p))")
    case True
    have "\<exists>x \<in> set (SetStatusCondition k (Conditions p) degraded_condition).
        Type x = Type degraded_condition \<and> Status x = Status degraded_condition"
      using assms(2) by (simp add: helper_lib_def)
    then show ?thesis using True by (simp add: pass_conditions_def degraded_condition_def)
  qed (use assms(5) in \<open>simp add: pass_conditions_def\<close>)
  from applying(8) show ?thesis
  proof
    assume "u \<noteq> None \<and> d = 5 * second \<and> e = None \<and> m' = m1"
    then show ?thesis using m1 assms(5) by auto
  next
    assume "u = None \<and> report_status (main_reconciler C k) (NewNvidiaDpfAdapter k) (p1\<lparr>Conditions := pass_conditions k p1\<rparr>) (m1, v2) = ((d, e), (m', v'))"
    then have r: "report_status (main_reconciler C k) (NewNvidiaDpfAdapter k) (p\<lparr>Conditions := pass_conditions k p\<rparr>) (m1, v2) = ((d, e), (m', v'))"
      using p by simp
    from profile_server.reported [OF assms(1) r applying(2) [unfolded p] m1]
    show ?thesis using kept m1 assms(5) by auto
  qed
qed

section \<open>A server in memory\<close>

definition pf_missing :: go_error where "pf_missing = External ''not found''"

fun nest :: "string list \<Rightarrow> string \<Rightarrow> json" where
  "nest [] v = JString v"
| "nest (k # ks) v = JObject [(k, nest ks v)]"

definition pf_lib :: machinery where
  "pf_lib = \<lparr>IsNotFound = (\<lambda>e. e = pf_missing),
     SetNestedField = (\<lambda>m v ks. case nest ks v of JObject m' \<Rightarrow> Inr m' | _ \<Rightarrow> Inl (External ''no path'')),
     SetStatusCondition = (\<lambda>cs c. filter (\<lambda>x. Type x \<noteq> Type c) cs @ [c])\<rparr>"

definition pf_client :: "(api \<times> unit) Client" where
  "pf_client =
     \<lparr>get_profile = (\<lambda>q w. (case profiles (fst w) q of
          None \<Rightarrow> Inl pf_missing | Some p \<Rightarrow> if profile_key p = q then Inr p else Inl (External ''corrupt''), w)),
      get_object = (\<lambda>g q w. (case objects (fst w) (g, q) of None \<Rightarrow> Inl pf_missing | Some x \<Rightarrow> Inr x, w)),
      patch_object = (\<lambda>fm x w. (None, ((fst w)\<lparr>objects := (objects (fst w))(object_key_of x \<mapsto> x)\<rparr>, snd w))),
      status_profile = (\<lambda>p w. case profiles (fst w) (profile_key p) of
          None \<Rightarrow> (Some pf_missing, w)
        | Some old \<Rightarrow> (None, ((fst w)\<lparr>profiles := (profiles (fst w))(profile_key p \<mapsto>
            old\<lparr>p_ResourceVersion := CHR ''1'' # p_ResourceVersion old, p_Phase := p_Phase p, Conditions := Conditions p\<rparr>)\<rparr>, snd w)))\<rparr>"

lemma nest_at: "ks \<noteq> [] \<Longrightarrow> \<exists>m. nest ks v = JObject m \<and> json_at m ks = Some (JString v)"
proof (induction ks)
  case (Cons x ks)
  then show ?case by (cases ks) auto
qed simp

lemma pf_helpers: "helper_lib pf_lib"
  unfolding helper_lib_def
proof (intro conjI allI impI)
  fix v :: string and ks :: "string list"
  assume "ks \<noteq> []"
  from nest_at [OF this, of v] show "\<exists>m. SetNestedField pf_lib [] v ks = Inr m \<and> json_at m ks = Some (JString v)"
    by (auto simp: pf_lib_def)
qed (auto simp: pf_lib_def)

lemma pf_server: "profile_server pf_lib pf_client"
  by standard (auto simp: pf_client_def pf_lib_def says_def pf_missing_def split: option.splits if_splits)

interpretation pf: profile_server pf_lib pf_client
  by (rule pf_server)

definition pf_profile :: "bool \<Rightarrow> Condition list \<Rightarrow> OpiDpuProfile" where
  "pf_profile ebpf cs = \<lparr>p_Name = ''p'', p_Namespace = ''a'', p_UID = ''u'', p_ResourceVersion = '''',
     p_Spec = \<lparr>DpuFlavor = ''hbn'', EnableLoadBalancing = True, EnableEbpfLB = ebpf\<rparr>, p_Phase = '''', Conditions = cs\<rparr>"

definition pf_world :: "OpiDpuProfile \<Rightarrow> api" where "pf_world p = \<lparr>profiles = [(''a'', ''p'') \<mapsto> p], objects = Map.empty\<rparr>"

definition pf_pass :: "api \<Rightarrow> (api \<times> unit) pass" where
  "pf_pass m = Reconcile (main_reconciler pf_client pf_lib) (''a'', ''p'') (m, ())"

definition pf_after :: "api \<Rightarrow> api" where "pf_after m = fst (snd (pf_pass m))"

lemma pf_pass_eq: "fst (pf_pass m) = (d, e) \<Longrightarrow> Reconcile (main_reconciler pf_client pf_lib) (''a'', ''p'') (m, ()) = ((d, e), (pf_after m, ()))"
  by (cases "pf_pass m") (simp add: pf_pass_def pf_after_def)

lemma pf_at: "profiles (pf_world p) (''a'', ''p'') = Some p"
  by (simp add: pf_world_def)

theorem ready_after_apply_witness:
  "applied (''a'', ''p'') (pf_profile True []) (pf_after (pf_world (pf_profile True []))) \<and>
   map_option p_Phase (profiles (pf_after (pf_world (pf_profile True []))) (''a'', ''p'')) = Some PhaseReady"
proof -
  have r: "fst (pf_pass (pf_world (pf_profile True []))) = (0, None)" by code_simp
  show ?thesis using ready_after_apply [OF pf_server pf_helpers pf_pass_eq [OF r] pf_at] by auto
qed

text \<open>The profile no longer asks for the feature.\<close>

theorem degraded_survives_witness:
  "\<exists>p'. profiles (pf_after (pf_world (pf_profile False [degraded_condition]))) (''a'', ''p'') = Some p' \<and>
     (\<exists>c \<in> set (Conditions p'). Type c = ''FeatureDegraded'' \<and> Status c = ''True'') \<and> \<not> EnableEbpfLB (p_Spec (pf_profile False []))"
proof -
  have r: "fst (pf_pass (pf_world (pf_profile False [degraded_condition]))) = (0, None)" by code_simp
  have c: "\<exists>c \<in> set (Conditions (pf_profile False [degraded_condition])). Type c = ''FeatureDegraded'' \<and> Status c = ''True''"
    by (simp add: pf_profile_def degraded_condition_def)
  show ?thesis using degraded_survives [OF pf_server pf_helpers pf_pass_eq [OF r] pf_at c] by (auto simp: pf_profile_def)
qed

end
