(* ===== verification/PipelineAdapter.thy ===== *)
theory PipelineAdapter
  imports Prelude
begin

text \<open>
  \<open>Abhijay Nandella/feature_skeleton.go\<close>: a reconciler as a pipeline over injected parts (resolver,
  factory, vendor adapter, status synchroniser, hooks, cleanup), and the default parts.  A pointer that may
  be nil is an option; a part that is handed a pointer to the OPI resource gives the resource it leaves.
\<close>

section \<open>Resources\<close>

datatype OPISpec = OPISpec
datatype OPIStatus = OPIStatus
datatype DPFSpec = DPFSpec
datatype DPFStatus = DPFStatus

record OPIResource =
  Name :: string
  Namespace :: string
  Spec :: OPISpec
  opi_Status :: OPIStatus

record DPFResource =
  dpf_Name :: string
  dpf_Namespace :: string
  dpf_Spec :: DPFSpec
  dpf_Status :: DPFStatus

type_synonym VendorType = string

definition VendorNVIDIA :: VendorType where "VendorNVIDIA = ''nvidia''"
definition VendorAMD :: VendorType where "VendorAMD = ''amd''"

definition ErrUnsupportedVendor :: go_error where "ErrUnsupportedVendor = Errorf ''unsupported vendor'' []"
definition ErrTranslationFailed :: go_error where "ErrTranslationFailed = Errorf ''translation failed'' []"

definition IgnoreNotFound :: "(go_error \<Rightarrow> bool) \<Rightarrow> go_error \<Rightarrow> go_error option" where
  "IgnoreNotFound IsNotFound err = (if IsNotFound err then None else Some err)"

text \<open>A result is whether to come back at once; here with the error.\<close>

type_synonym outcome = "bool \<times> go_error option"

definition ResultRequeue :: outcome where "ResultRequeue = (True, None)"
definition ResultDone :: outcome where "ResultDone = (False, None)"

section \<open>The parts\<close>

record 'w VendorAdapter =
  Translate :: "OPIResource \<Rightarrow> 'w \<Rightarrow> (go_error + DPFResource option) \<times> 'w"
  EnsureDesiredState :: "DPFResource option \<Rightarrow> 'w \<Rightarrow> go_error option \<times> 'w"
  ObserveStatus :: "DPFResource option \<Rightarrow> 'w \<Rightarrow> (go_error + DPFStatus option) \<times> 'w"
  Cleanup :: "DPFResource option \<Rightarrow> 'w \<Rightarrow> go_error option \<times> 'w"

record 'w Translator =
  TranslateToVendor :: "OPIResource \<Rightarrow> 'w \<Rightarrow> (go_error + DPFResource option) \<times> 'w"
  TranslateStatus :: "DPFStatus option \<Rightarrow> OPIStatus \<Rightarrow> 'w \<Rightarrow> (go_error option \<times> OPIStatus) \<times> 'w"

type_synonym 'w StatusSynchronizer = "OPIResource \<Rightarrow> DPFStatus option \<Rightarrow> 'w \<Rightarrow> (go_error option \<times> OPIResource) \<times> 'w"
type_synonym 'w CleanupCoordinator = "OPIResource \<Rightarrow> DPFResource option \<Rightarrow> 'w \<Rightarrow> go_error option \<times> 'w"
type_synonym 'w AdapterFactory = "VendorType \<Rightarrow> go_error + 'w VendorAdapter"
type_synonym 'w VendorResolver = "OPIResource \<Rightarrow> 'w \<Rightarrow> (go_error + VendorType) \<times> 'w"
type_synonym 'w hook = "OPIResource \<Rightarrow> 'w \<Rightarrow> (go_error option \<times> OPIResource) \<times> 'w"

record 'w Dependencies =
  deps_Factory :: "'w AdapterFactory"
  deps_Translator :: "'w Translator"
  deps_StatusSync :: "'w StatusSynchronizer"
  deps_Cleanup :: "'w CleanupCoordinator"

record 'w AdapterReconciler =
  Resolver :: "'w VendorResolver"
  Factory :: "'w AdapterFactory"
  rec_Translator :: "'w Translator"
  StatusSync :: "'w StatusSynchronizer"
  rec_Cleanup :: "'w CleanupCoordinator"
  PreHook :: "'w hook option"
  PostHook :: "'w hook option"

definition NewAdapterReconciler :: "'w Dependencies \<Rightarrow> 'w VendorResolver \<Rightarrow> 'w AdapterReconciler" where
  "NewAdapterReconciler deps resolver =
     \<lparr>Resolver = resolver, Factory = deps_Factory deps, rec_Translator = deps_Translator deps,
      StatusSync = deps_StatusSync deps, rec_Cleanup = deps_Cleanup deps, PreHook = None, PostHook = None\<rparr>"

section \<open>The default parts\<close>

definition TranslateToVendor_default :: "OPIResource \<Rightarrow> 'w \<Rightarrow> (go_error + DPFResource option) \<times> 'w" where
  "TranslateToVendor_default opi w =
     (Inr (Some \<lparr>dpf_Name = Name opi, dpf_Namespace = Namespace opi, dpf_Spec = DPFSpec, dpf_Status = DPFStatus\<rparr>), w)"

definition TranslateStatus_default :: "DPFStatus option \<Rightarrow> OPIStatus \<Rightarrow> 'w \<Rightarrow> (go_error option \<times> OPIStatus) \<times> 'w" where
  "TranslateStatus_default dpf opi w = ((None, opi), w)"

definition NewTranslator :: "'w Translator" where
  "NewTranslator = \<lparr>TranslateToVendor = TranslateToVendor_default, TranslateStatus = TranslateStatus_default\<rparr>"

definition NewNVIDIAAdapter :: "'w Translator \<Rightarrow> 'w VendorAdapter" where
  "NewNVIDIAAdapter t =
     \<lparr>Translate = TranslateToVendor t, EnsureDesiredState = (\<lambda>resource w. (None, w)),
      ObserveStatus = (\<lambda>resource w. (Inr (Some DPFStatus), w)), Cleanup = (\<lambda>resource w. (None, w))\<rparr>"

definition NewAMDAdapter :: "'w Translator \<Rightarrow> 'w VendorAdapter" where
  "NewAMDAdapter t =
     \<lparr>Translate = TranslateToVendor t, EnsureDesiredState = (\<lambda>resource w. (None, w)),
      ObserveStatus = (\<lambda>resource w. (Inr (Some DPFStatus), w)), Cleanup = (\<lambda>resource w. (None, w))\<rparr>"

definition NewAdapter :: "'w Translator \<Rightarrow> VendorType \<Rightarrow> go_error + 'w VendorAdapter" where
  "NewAdapter t vendor =
     (if vendor = VendorNVIDIA then Inr (NewNVIDIAAdapter t)
      else if vendor = VendorAMD then Inr (NewAMDAdapter t)
      else Inl ErrUnsupportedVendor)"

definition Synchronize :: "'w Translator \<Rightarrow> 'w StatusSynchronizer" where
  "Synchronize t opi dpf w = (case TranslateStatus t dpf (opi_Status opi) w of ((e, s), w1) \<Rightarrow> ((e, opi\<lparr>opi_Status := s\<rparr>), w1))"

definition Finalize :: "'w VendorAdapter \<Rightarrow> 'w CleanupCoordinator" where
  "Finalize a opi dpf w =
     (case dpf of
        None \<Rightarrow> (None, w)
      | Some _ \<Rightarrow> (case Cleanup a dpf w of (Some err, w1) \<Rightarrow> (Some err, w1) | (None, w1) \<Rightarrow> (None, w1)))"

definition StaticVendorResolver :: "VendorType \<Rightarrow> 'w VendorResolver" where
  "StaticVendorResolver v resource w = (Inr v, w)"

section \<open>The pipeline\<close>

definition new_opi :: OPIResource where
  "new_opi = \<lparr>Name = '''', Namespace = '''', Spec = OPISpec, opi_Status = OPIStatus\<rparr>"

text \<open>A hook, where there is one.\<close>

definition run_hook :: "'w hook option \<Rightarrow> OPIResource \<Rightarrow> 'w \<Rightarrow> (go_error option \<times> OPIResource) \<times> 'w" where
  "run_hook h opi w = (case h of None \<Rightarrow> ((None, opi), w) | Some f \<Rightarrow> f opi w)"

text \<open>Steps 6 to 10, with the adapter of the vendor.\<close>

definition run_adapter :: "'w AdapterReconciler \<Rightarrow> 'w VendorAdapter \<Rightarrow> OPIResource \<Rightarrow> 'w \<Rightarrow> outcome \<times> 'w" where
  "run_adapter r adapter opi w =
     (case Translate adapter opi w of
        (Inl err, w1) \<Rightarrow> ((False, Some err), w1)
      | (Inr dpf, w1) \<Rightarrow>
          (case EnsureDesiredState adapter dpf w1 of
             (Some err, w2) \<Rightarrow> ((False, Some err), w2)
           | (None, w2) \<Rightarrow>
               (case ObserveStatus adapter dpf w2 of
                  (Inl err, w3) \<Rightarrow> ((False, Some err), w3)
                | (Inr status, w3) \<Rightarrow>
                    (case StatusSync r opi status w3 of
                       ((Some err, _), w4) \<Rightarrow> ((False, Some err), w4)
                     | ((None, opi1), w4) \<Rightarrow>
                         (case run_hook (PostHook r) opi1 w4 of
                            ((Some err, _), w5) \<Rightarrow> ((False, Some err), w5)
                          | ((None, _), w5) \<Rightarrow> (ResultDone, w5))))))"

definition Reconcile :: "'w AdapterReconciler \<Rightarrow> string \<times> string \<Rightarrow> 'w \<Rightarrow> outcome \<times> 'w" where
  "Reconcile r req w =
     (case run_hook (PreHook r) new_opi w of
        ((Some err, _), w1) \<Rightarrow> ((False, Some err), w1)
      | ((None, opi), w1) \<Rightarrow>
          (case Resolver r opi w1 of
             (Inl err, w2) \<Rightarrow> ((False, Some err), w2)
           | (Inr vendor, w2) \<Rightarrow>
               (case Factory r vendor of
                  Inl err \<Rightarrow> ((False, Some err), w2)
                | Inr adapter \<Rightarrow> run_adapter r adapter opi w2)))"

definition reconcileDelete :: "'w AdapterReconciler \<Rightarrow> OPIResource \<Rightarrow> DPFResource option \<Rightarrow> 'w \<Rightarrow> outcome \<times> 'w" where
  "reconcileDelete r opi dpf w =
     (case rec_Cleanup r opi dpf w of (Some err, w1) \<Rightarrow> ((False, Some err), w1) | (None, w1) \<Rightarrow> (ResultDone, w1))"

definition ensureFinalizer :: "OPIResource \<Rightarrow> 'w \<Rightarrow> go_error option \<times> 'w" where "ensureFinalizer opi w = (None, w)"
definition updateStatus :: "OPIResource \<Rightarrow> 'w \<Rightarrow> go_error option \<times> 'w" where "updateStatus opi w = (None, w)"

text \<open>The start-up that the example of the file shows, for a vendor.\<close>

definition bootstrap :: "VendorType \<Rightarrow> 'w AdapterReconciler" where
  "bootstrap vendor =
     NewAdapterReconciler
       \<lparr>deps_Factory = NewAdapter NewTranslator, deps_Translator = NewTranslator, deps_StatusSync = Synchronize NewTranslator,
        deps_Cleanup = Finalize (NewNVIDIAAdapter NewTranslator)\<rparr>
       (StaticVendorResolver vendor)"

section \<open>What a pipeline keeps\<close>

text \<open>
  Parts under a contract: every call keeps the states of the world in \<open>I\<close> and fails with an error in
  \<open>E\<close> only.\<close>

definition ok_adapter :: "('w \<Rightarrow> bool) \<Rightarrow> (go_error \<Rightarrow> bool) \<Rightarrow> 'w VendorAdapter \<Rightarrow> bool" where
  "ok_adapter I E a = (\<forall>w. I w \<longrightarrow>
     (\<forall>opi. I (snd (Translate a opi w)) \<and> (\<forall>e. fst (Translate a opi w) = Inl e \<longrightarrow> E e)) \<and>
     (\<forall>d. I (snd (EnsureDesiredState a d w)) \<and> (\<forall>e. fst (EnsureDesiredState a d w) = Some e \<longrightarrow> E e)) \<and>
     (\<forall>d. I (snd (ObserveStatus a d w)) \<and> (\<forall>e. fst (ObserveStatus a d w) = Inl e \<longrightarrow> E e)))"

definition ok_hook :: "('w \<Rightarrow> bool) \<Rightarrow> (go_error \<Rightarrow> bool) \<Rightarrow> 'w hook option \<Rightarrow> bool" where
  "ok_hook I E h = (\<forall>opi w. I w \<longrightarrow> I (snd (run_hook h opi w)) \<and> (\<forall>e. fst (fst (run_hook h opi w)) = Some e \<longrightarrow> E e))"

lemma ok_hookD: "ok_hook I E h \<Longrightarrow> run_hook h opi w = ((eo, opi'), w') \<Longrightarrow> I w \<Longrightarrow> I w' \<and> (\<forall>e. eo = Some e \<longrightarrow> E e)"
  unfolding ok_hook_def by (metis fst_conv snd_conv)

definition ok_outcome :: "('w \<Rightarrow> bool) \<Rightarrow> (go_error \<Rightarrow> bool) \<Rightarrow> outcome \<times> 'w \<Rightarrow> bool" where
  "ok_outcome I E z = (I (snd z) \<and> \<not> fst (fst z) \<and> (\<forall>e. snd (fst z) = Some e \<longrightarrow> E e))"

lemma ok_failure: "I w \<Longrightarrow> E e \<Longrightarrow> ok_outcome I E ((False, Some e), w)" and ok_done: "I w \<Longrightarrow> ok_outcome I E (ResultDone, w)"
  by (simp_all add: ok_outcome_def ResultDone_def)

locale pipeline =
  fixes I :: "'w \<Rightarrow> bool" and E :: "go_error \<Rightarrow> bool" and r :: "'w AdapterReconciler"
  assumes pre: "ok_hook I E (PreHook r)" and post: "ok_hook I E (PostHook r)"
    and resolver: "I w \<Longrightarrow> I (snd (Resolver r opi w)) \<and> (\<forall>e. fst (Resolver r opi w) = Inl e \<longrightarrow> E e)"
    and factory: "case Factory r vendor of Inl e \<Rightarrow> E e | Inr a \<Rightarrow> ok_adapter I E a"
    and sync: "I w \<Longrightarrow> I (snd (StatusSync r opi s w)) \<and> (\<forall>e. fst (fst (StatusSync r opi s w)) = Some e \<longrightarrow> E e)"
begin

lemma run_adapter_ok:
  assumes "ok_adapter I E a" and "I w"
  shows "ok_outcome I E (run_adapter r a opi w)"
proof -
  obtain t w1 where 1: "Translate a opi w = (t, w1)" by fastforce
  then have i1: "I w1" "\<forall>e. t = Inl e \<longrightarrow> E e" using assms unfolding ok_adapter_def by (metis fst_conv snd_conv)+
  show ?thesis
  proof (cases t)
    case (Inl e)
    then show ?thesis using 1 i1 by (simp add: run_adapter_def ok_failure)
  next
    case t: (Inr d)
    obtain u w2 where 2: "EnsureDesiredState a d w1 = (u, w2)" by fastforce
    then have i2: "I w2" "\<forall>e. u = Some e \<longrightarrow> E e" using assms(1) i1(1) unfolding ok_adapter_def by (metis fst_conv snd_conv)+
    obtain st w3 where 3: "ObserveStatus a d w2 = (st, w3)" by fastforce
    then have i3: "I w3" "\<forall>e. st = Inl e \<longrightarrow> E e" using assms(1) i2(1) unfolding ok_adapter_def by (metis fst_conv snd_conv)+
    show ?thesis
    proof (cases u)
      case (Some e)
      then show ?thesis using 1 t 2 i2 by (simp add: run_adapter_def ok_failure)
    next
      case u: None
      show ?thesis
      proof (cases st)
        case (Inl e)
        then show ?thesis using 1 t 2 u 3 i3 by (simp add: run_adapter_def ok_failure)
      next
        case st: (Inr s)
        obtain y opi1 w4 where 4: "StatusSync r opi s w3 = ((y, opi1), w4)" by (metis prod.collapse)
        then have i4: "I w4" "\<forall>e. y = Some e \<longrightarrow> E e" using sync [OF i3(1), of opi s] by simp_all
        obtain z opi2 w5 where 5: "run_hook (PostHook r) opi1 w4 = ((z, opi2), w5)" by (metis prod.collapse)
        note i5 = ok_hookD [OF post 5 i4(1)]
        show ?thesis using 1 t 2 u 3 st 4 i4 5 i5
          by (cases y; cases z) (simp_all add: run_adapter_def ok_failure ok_done)
      qed
    qed
  qed
qed

lemma reconcile_ok:
  assumes "I w"
  shows "ok_outcome I E (Reconcile r req w)"
proof -
  obtain eo opi w1 where 1: "run_hook (PreHook r) new_opi w = ((eo, opi), w1)" by (metis prod.collapse)
  note i1 = ok_hookD [OF pre 1 assms]
  obtain v w2 where 2: "Resolver r opi w1 = (v, w2)" by fastforce
  then have i2: "I w2" "\<forall>e. v = Inl e \<longrightarrow> E e" using resolver [of w1 opi] i1 by simp_all
  show ?thesis
  proof (cases eo)
    case (Some e)
    then show ?thesis using 1 i1 by (simp add: Reconcile_def ok_failure)
  next
    case eo: None
    show ?thesis
    proof (cases v)
      case (Inl e)
      then show ?thesis using 1 eo 2 i2 by (simp add: Reconcile_def ok_failure)
    next
      case v: (Inr vendor)
      show ?thesis using 1 eo 2 i2 v factory [of vendor] run_adapter_ok [of _ w2 opi]
        by (cases "Factory r vendor") (simp_all add: Reconcile_def ok_failure)
    qed
  qed
qed

end

section \<open>The start-up of the example\<close>

lemmas default_defs = bootstrap_def NewAdapterReconciler_def NewAdapter_def NewNVIDIAAdapter_def NewAMDAdapter_def NewTranslator_def
  Synchronize_def TranslateToVendor_default_def TranslateStatus_default_def StaticVendorResolver_def

lemma bootstrap_pipeline: "pipeline (\<lambda>w. w = w0) (\<lambda>e. e = ErrUnsupportedVendor) (bootstrap vendor)"
  by standard (simp_all add: default_defs ok_hook_def run_hook_def ok_adapter_def)

interpretation boot: pipeline "\<lambda>w. w = w0" "\<lambda>e. e = ErrUnsupportedVendor" "bootstrap vendor" for w0 vendor
  by (rule bootstrap_pipeline)

section \<open>The order of the calls\<close>

text \<open>
  One call of a part, with what it was handed and what it answered.  A pass is watched by wrapping every part so that
  it writes its call into a log beside the world.
\<close>

datatype event =
    Prepared OPIResource "go_error option \<times> OPIResource"
  | Resolved OPIResource "go_error + VendorType"
  | Translated VendorType OPIResource "go_error + DPFResource option"
  | Ensured VendorType "DPFResource option" "go_error option"
  | Observed VendorType "DPFResource option" "go_error + DPFStatus option"
  | Synchronized OPIResource "DPFStatus option" "go_error option \<times> OPIResource"
  | Concluded OPIResource "go_error option \<times> OPIResource"

definition noting :: "('a \<Rightarrow> event) \<Rightarrow> ('w \<Rightarrow> 'a \<times> 'w) \<Rightarrow> 'w \<times> event list \<Rightarrow> 'a \<times> ('w \<times> event list)" where
  "noting ev f = (\<lambda>(w, log). case f w of (a, w') \<Rightarrow> (a, (w', log @ [ev a])))"

definition logged_adapter :: "VendorType \<Rightarrow> 'w VendorAdapter \<Rightarrow> ('w \<times> event list) VendorAdapter" where
  "logged_adapter v a =
     \<lparr>Translate = (\<lambda>opi. noting (Translated v opi) (Translate a opi)),
      EnsureDesiredState = (\<lambda>d. noting (Ensured v d) (EnsureDesiredState a d)),
      ObserveStatus = (\<lambda>d. noting (Observed v d) (ObserveStatus a d)),
      Cleanup = (\<lambda>d (w, log). case Cleanup a d w of (e, w') \<Rightarrow> (e, (w', log)))\<rparr>"

definition logged :: "'w AdapterReconciler \<Rightarrow> ('w \<times> event list) AdapterReconciler" where
  "logged r =
     \<lparr>Resolver = (\<lambda>opi. noting (Resolved opi) (Resolver r opi)),
      Factory = (\<lambda>v. map_sum id (logged_adapter v) (Factory r v)),
      rec_Translator = NewTranslator,
      StatusSync = (\<lambda>opi s. noting (Synchronized opi s) (StatusSync r opi s)),
      rec_Cleanup = (\<lambda>opi d (w, log). case rec_Cleanup r opi d w of (e, w') \<Rightarrow> (e, (w', log))),
      PreHook = map_option (\<lambda>h opi. noting (Prepared opi) (h opi)) (PreHook r),
      PostHook = map_option (\<lambda>h opi. noting (Concluded opi) (h opi)) (PostHook r)\<rparr>"

text \<open>
  The protocol, on its own: where a pass stands after some calls, and which call may come next.  Every call is handed
  what the calls before it gave; a call that fails ends the pass with its error.
\<close>

datatype stage =
    Fresh
  | Ready OPIResource
  | Selected OPIResource VendorType
  | Wanted OPIResource VendorType "DPFResource option"
  | InPlace OPIResource VendorType "DPFResource option"
  | Seen OPIResource "DPFStatus option"
  | Mirrored OPIResource
  | Over
  | Failed go_error

definition or_failed :: "go_error option \<Rightarrow> stage \<Rightarrow> stage" where
  "or_failed e s = (case e of None \<Rightarrow> s | Some err \<Rightarrow> Failed err)"

definition advance :: "(VendorType \<Rightarrow> go_error option) \<Rightarrow> bool \<Rightarrow> stage \<Rightarrow> event \<Rightarrow> stage option" where
  "advance refuses final s x =
     (case s of
        Fresh \<Rightarrow> (case x of Prepared o1 (e, o2) \<Rightarrow> if o1 = new_opi then Some (or_failed e (Ready o2)) else None | _ \<Rightarrow> None)
      | Ready opi \<Rightarrow> (case x of
          Resolved o1 a \<Rightarrow> if o1 = opi
            then Some (case a of Inl e \<Rightarrow> Failed e | Inr v \<Rightarrow> or_failed (refuses v) (Selected opi v)) else None
        | _ \<Rightarrow> None)
      | Selected opi v \<Rightarrow> (case x of
          Translated v1 o1 a \<Rightarrow> if v1 = v \<and> o1 = opi
            then Some (case a of Inl e \<Rightarrow> Failed e | Inr d \<Rightarrow> Wanted opi v d) else None
        | _ \<Rightarrow> None)
      | Wanted opi v d \<Rightarrow> (case x of
          Ensured v1 d1 e \<Rightarrow> if v1 = v \<and> d1 = d then Some (or_failed e (InPlace opi v d)) else None
        | _ \<Rightarrow> None)
      | InPlace opi v d \<Rightarrow> (case x of
          Observed v1 d1 a \<Rightarrow> if v1 = v \<and> d1 = d then Some (case a of Inl e \<Rightarrow> Failed e | Inr s \<Rightarrow> Seen opi s) else None
        | _ \<Rightarrow> None)
      | Seen opi s \<Rightarrow> (case x of
          Synchronized o1 s1 (e, o2) \<Rightarrow> if o1 = opi \<and> s1 = s
            then Some (or_failed e (if final then Over else Mirrored o2)) else None
        | _ \<Rightarrow> None)
      | Mirrored opi \<Rightarrow> (case x of Concluded o1 (e, o2) \<Rightarrow> if o1 = opi then Some (or_failed e Over) else None | _ \<Rightarrow> None)
      | Over \<Rightarrow> None
      | Failed e \<Rightarrow> None)"

fun follow :: "(VendorType \<Rightarrow> go_error option) \<Rightarrow> bool \<Rightarrow> stage \<Rightarrow> event list \<Rightarrow> stage option" where
  "follow refuses final s [] = Some s"
| "follow refuses final s (x # xs) = (case advance refuses final s x of None \<Rightarrow> None | Some s' \<Rightarrow> follow refuses final s' xs)"

lemma follow_snoc:
  "follow refuses final s (xs @ [x]) =
     (case follow refuses final s xs of None \<Rightarrow> None | Some s' \<Rightarrow> advance refuses final s' x)"
  by (induction xs arbitrary: s) (auto split: option.split)

text \<open>The protocol of a reconciler: its first stage, the vendors its factory refuses, and whether a hook follows the status.\<close>

definition stage_after :: "'w AdapterReconciler \<Rightarrow> event list \<Rightarrow> stage option" where
  "stage_after r = follow (\<lambda>v. case Factory r v of Inl e \<Rightarrow> Some e | Inr _ \<Rightarrow> None) (PostHook r = None)
     (if PreHook r = None then Ready new_opi else Fresh)"

text \<open>A watched pass of \<open>r\<close> that ends in \<open>z\<close> is the pass of \<open>r\<close> itself, and its log is complete.\<close>

definition in_order :: "'w AdapterReconciler \<Rightarrow> outcome \<times> 'w \<Rightarrow> outcome \<times> ('w \<times> event list) \<Rightarrow> bool" where
  "in_order r plain watched =
     (\<exists>err w log. plain = ((False, err), w) \<and> watched = ((False, err), (w, log)) \<and> stage_after r log = Some (or_failed err Over))"

lemma in_orderI:
  assumes "plain = ((False, err), w)" and "watched = ((False, err), (w, log))" and "stage_after r log = Some (or_failed err Over)"
  shows "in_order r plain watched"
  using assms by (simp add: in_order_def)

lemma hook_stage:
  assumes "stage_after r log = Some (if PostHook r = None then Over else Mirrored opi)" and "run_hook (PostHook r) opi w = ((e, opi'), w')"
  obtains log' where "run_hook (PostHook (logged r)) opi (w, log) = ((e, opi'), (w', log'))"
    and "stage_after r log' = Some (or_failed e Over)"
proof (cases "PostHook r")
  case None
  then show thesis
    using assms that by (simp add: run_hook_def logged_def or_failed_def)
next
  case (Some h)
  then have "stage_after r (log @ [Concluded opi (e, opi')]) = Some (or_failed e Over)"
    using assms(1) by (simp add: stage_after_def follow_snoc advance_def)
  then show thesis
    using assms(2) that Some by (simp add: run_hook_def logged_def noting_def)
qed

lemma run_adapter_in_order:
  assumes st: "stage_after r log = Some (Selected opi v)" and a: "Factory r v = Inr a"
  shows "in_order r (run_adapter r a opi w) (run_adapter (logged r) (logged_adapter v a) opi (w, log))"
proof -
  note [simp] = logged_adapter_def noting_def run_adapter_def
  obtain t w1 where 1: "Translate a opi w = (t, w1)" by fastforce
  let ?l1 = "log @ [Translated v opi t]"
  have s1: "stage_after r ?l1 = Some (case t of Inl e \<Rightarrow> Failed e | Inr d \<Rightarrow> Wanted opi v d)"
    using st by (simp add: stage_after_def follow_snoc advance_def)
  show ?thesis
  proof (cases t)
    case (Inl e)
    then show ?thesis using 1 s1 by (intro in_orderI [where err = "Some e"]) (simp_all add: or_failed_def)
  next
    case t: (Inr d)
    obtain u w2 where 2: "EnsureDesiredState a d w1 = (u, w2)" by fastforce
    let ?l2 = "?l1 @ [Ensured v d u]"
    have s2: "stage_after r ?l2 = Some (or_failed u (InPlace opi v d))"
      using s1 t unfolding stage_after_def follow_snoc by (simp add: advance_def)
    show ?thesis
    proof (cases u)
      case (Some e)
      then show ?thesis using 1 t 2 s2 by (intro in_orderI [where err = "Some e"]) (simp_all add: or_failed_def)
    next
      case u: None
      obtain x w3 where 3: "ObserveStatus a d w2 = (x, w3)" by fastforce
      let ?l3 = "?l2 @ [Observed v d x]"
      have s3: "stage_after r ?l3 = Some (case x of Inl e \<Rightarrow> Failed e | Inr s \<Rightarrow> Seen opi s)"
        using s2 u unfolding stage_after_def follow_snoc by (simp add: or_failed_def advance_def)
      show ?thesis
      proof (cases x)
        case (Inl e)
        then show ?thesis using 1 t 2 u 3 s3 by (intro in_orderI [where err = "Some e"]) (simp_all add: or_failed_def)
      next
        case x: (Inr s)
        obtain y opi1 w4 where 4: "StatusSync r opi s w3 = ((y, opi1), w4)" by (metis prod.collapse)
        have l4: "StatusSync (logged r) opi s (w3, l) = ((y, opi1), (w4, l @ [Synchronized opi s (y, opi1)]))" for l
          using 4 by (simp add: logged_def)
        let ?l4 = "?l3 @ [Synchronized opi s (y, opi1)]"
        have s4: "stage_after r ?l4 = Some (or_failed y (if PostHook r = None then Over else Mirrored opi1))"
          using s3 x unfolding stage_after_def follow_snoc by (simp add: advance_def)
        show ?thesis
        proof (cases y)
          case (Some e)
          then show ?thesis using 1 t 2 u 3 x 4 l4 s4 by (intro in_orderI [where err = "Some e"]) (simp_all add: or_failed_def)
        next
          case y: None
          obtain z opi2 w5 where 5: "run_hook (PostHook r) opi1 w4 = ((z, opi2), w5)" by (metis prod.collapse)
          obtain l5 where l5: "run_hook (PostHook (logged r)) opi1 (w4, ?l4) = ((z, opi2), (w5, l5))"
            "stage_after r l5 = Some (or_failed z Over)"
            using hook_stage [OF _ 5, of ?l4] s4 y by (auto simp: or_failed_def)
          show ?thesis
            using 1 t 2 u 3 x 4 l4 y 5 l5 by (cases z) (auto intro!: in_orderI simp: or_failed_def ResultDone_def)
        qed
      qed
    qed
  qed
qed

lemma reconcile_in_order: "in_order r (Reconcile r req w) (Reconcile (logged r) req (w, []))"
proof -
  obtain eo opi w1 where 1: "run_hook (PreHook r) new_opi w = ((eo, opi), w1)" by (metis prod.collapse)
  obtain l1 where l1: "run_hook (PreHook (logged r)) new_opi (w, []) = ((eo, opi), (w1, l1))"
    and s1: "stage_after r l1 = Some (or_failed eo (Ready opi))"
  proof (cases "PreHook r")
    case None
    then show thesis using 1 that by (simp add: run_hook_def logged_def stage_after_def or_failed_def)
  next
    case (Some h)
    then show thesis using 1 that by (simp add: run_hook_def logged_def noting_def stage_after_def advance_def)
  qed
  show ?thesis
  proof (cases eo)
    case (Some e)
    then show ?thesis using 1 l1 s1 by (intro in_orderI [where err = "Some e"]) (simp_all add: Reconcile_def or_failed_def)
  next
    case eo: None
    obtain v w2 where 2: "Resolver r opi w1 = (v, w2)" by fastforce
    let ?l2 = "l1 @ [Resolved opi v]"
    have l2: "Resolver (logged r) opi (w1, l1) = (v, (w2, ?l2))"
      using 2 by (simp add: logged_def noting_def)
    have s2: "stage_after r ?l2 = Some (case v of Inl e \<Rightarrow> Failed e | Inr x \<Rightarrow>
        or_failed (case Factory r x of Inl e \<Rightarrow> Some e | Inr _ \<Rightarrow> None) (Selected opi x))"
      using s1 eo unfolding stage_after_def follow_snoc by (simp add: or_failed_def advance_def)
    show ?thesis
    proof (cases v)
      case (Inl e)
      then show ?thesis using 1 eo l1 2 l2 s2 by (intro in_orderI [where err = "Some e"]) (simp_all add: Reconcile_def or_failed_def)
    next
      case v: (Inr x)
      show ?thesis
      proof (cases "Factory r x")
        case (Inl e)
        then show ?thesis using 1 eo l1 2 l2 s2 v by (intro in_orderI [where err = "Some e"]) (simp_all add: Reconcile_def or_failed_def logged_def)
      next
        case (Inr a)
        then have "stage_after r ?l2 = Some (Selected opi x)"
          using s2 v by (simp add: or_failed_def)
        from run_adapter_in_order [OF this Inr, of w2] show ?thesis
          using 1 eo l1 2 l2 v Inr by (simp add: Reconcile_def) (simp add: logged_def)
      qed
    qed
  qed
qed

text \<open>
  C31.  The parts are called in the order of the protocol and are handed what the calls before them gave: hook,
  resolver, translation, ensuring, observation, synchronisation, hook.  A pass without an error has gone through
  the whole of it; a pass with an error has stopped at the first call that failed, or at the vendor the factory
  refuses, with that error.  No pass asks to come back at once, and watching the parts changes nothing.
\<close>

theorem parts_run_in_order:
  "\<exists>err w' log. Reconcile (logged r) req (w, []) = ((False, err), (w', log)) \<and> Reconcile r req w = ((False, err), w') \<and>
     stage_after r log = Some (case err of None \<Rightarrow> Over | Some e \<Rightarrow> Failed e)"
  using reconcile_in_order [of r req w] unfolding in_order_def or_failed_def by blast

section \<open>What a pass promises\<close>

text \<open>
  The reconciler that the example starts does nothing: for every request and every state of the world it
  reports success and leaves the world as it is, NVIDIA and AMD alike; another vendor is refused.\<close>

theorem started_pass:
  "Reconcile (bootstrap vendor) req w =
     ((False, if vendor \<in> {VendorNVIDIA, VendorAMD} then None else Some ErrUnsupportedVendor), w)"
proof -
  obtain again err w' where r: "Reconcile (bootstrap vendor) req w = ((again, err), w')" by (metis prod.collapse)
  have "w' = w \<and> \<not> again" using boot.reconcile_ok [of w w vendor req] r by (simp add: ok_outcome_def)
  moreover have "err = (if vendor \<in> {VendorNVIDIA, VendorAMD} then None else Some ErrUnsupportedVendor)"
    using r by (auto simp: Reconcile_def run_adapter_def default_defs run_hook_def ResultDone_def split: if_splits)
  ultimately show ?thesis using r by simp
qed

text \<open>
  The parts run in order: when the desired state cannot be ensured the pass ends with that error, in the
  state the call left; no status is observed or synchronised and no hook runs.\<close>

theorem ensure_failure_ends_pass:
  assumes "run_hook (PreHook r) new_opi w = ((None, opi), w1)" and "Resolver r opi w1 = (Inr vendor, w2)"
    and "Factory r vendor = Inr a" and "Translate a opi w2 = (Inr dpf, w3)" and "EnsureDesiredState a dpf w3 = (Some err, w4)"
  shows "Reconcile r req w = ((False, Some err), w4)"
  using assms by (simp add: Reconcile_def run_adapter_def)

text \<open>
  The cleanup calls the vendor adapter for a resource that was translated, and not for none; the default
  adapters leave the world as it is, so a deletion leaves every object behind.\<close>

theorem finalize_leaves_objects:
  "reconcileDelete (bootstrap vendor) opi dpf w = (ResultDone, w) \<and> Finalize a opi None w = (None, w)"
  by (cases dpf) (simp_all add: reconcileDelete_def Finalize_def default_defs)

section \<open>Witnesses\<close>

text \<open>A world that counts calls, an adapter that fails to ensure.\<close>

definition counting_adapter :: "nat VendorAdapter" where
  "counting_adapter = (NewNVIDIAAdapter NewTranslator)\<lparr>EnsureDesiredState := \<lambda>d n. (Some (External ''conflict''), n + 1)\<rparr>"

definition counting :: "nat AdapterReconciler" where
  "counting = (bootstrap VendorNVIDIA)\<lparr>Factory := \<lambda>v. Inr counting_adapter,
     PreHook := Some (\<lambda>opi n. ((None, opi\<lparr>Name := ''x''\<rparr>), n + 1))\<rparr>"

theorem ensure_failure_ends_pass_witness:
  "Reconcile counting (''a'', ''x'') 7 = ((False, Some (External ''conflict'')), 9)"
proof -
  have "run_hook (PreHook counting) new_opi 7 = ((None, new_opi\<lparr>Name := ''x''\<rparr>), 8)"
    "Resolver counting (new_opi\<lparr>Name := ''x''\<rparr>) 8 = (Inr VendorNVIDIA, 8)" "Factory counting VendorNVIDIA = Inr counting_adapter"
    "Translate counting_adapter (new_opi\<lparr>Name := ''x''\<rparr>) 8 =
       (Inr (Some \<lparr>dpf_Name = ''x'', dpf_Namespace = '''', dpf_Spec = DPFSpec, dpf_Status = DPFStatus\<rparr>), 8)"
    "EnsureDesiredState counting_adapter (Some \<lparr>dpf_Name = ''x'', dpf_Namespace = '''', dpf_Spec = DPFSpec, dpf_Status = DPFStatus\<rparr>) 8 =
       (Some (External ''conflict''), 9)"
    by (simp_all add: counting_def counting_adapter_def default_defs run_hook_def new_opi_def)
  then show ?thesis by (rule ensure_failure_ends_pass)
qed

end
