(* ===== verification/ObjectStore.thy ===== *)
theory ObjectStore
  imports KubeObjects
begin

text \<open>
  A typed client: the calls of \<open>client.Client\<close> at one Go type, the laws of an API server that serves
  them, and a server in memory that keeps the laws.  A write gives the object as the server stored it,
  which the client decodes back into the caller's object.
\<close>

section \<open>The calls\<close>

record ('o, 'k, 'w) Access =
  Get :: "'k \<Rightarrow> 'w \<Rightarrow> (go_error + 'o) \<times> 'w"
  Create :: "'o \<Rightarrow> 'w \<Rightarrow> (go_error + 'o) \<times> 'w"
  Update :: "'o \<Rightarrow> 'w \<Rightarrow> (go_error + 'o) \<times> 'w"
  Delete :: "'o \<Rightarrow> 'w \<Rightarrow> go_error option \<times> 'w"
  StatusUpdate :: "'o \<Rightarrow> 'w \<Rightarrow> (go_error + 'o) \<times> 'w"

section \<open>The laws\<close>

text \<open>
  \<open>view\<close> is what the server holds of the type, \<open>rest\<close> what it holds besides.  \<open>stored x old y\<close> says
  what a write of \<open>x\<close> over \<open>old\<close> leaves, \<open>restated\<close> what a status write leaves, \<open>ending\<close> which
  objects the server keeps after their deletion.  A read gives what is stored under its key; a call that
  fails changes nothing; a creation needs a free key, an update a taken one, and the server may drop the
  object at an update (when it was being deleted and lost its last finalizer).\<close>

locale object_store =
  fixes S :: "('o, 'k, 'w) Access" and missing :: "go_error \<Rightarrow> bool" and key_of :: "'o \<Rightarrow> 'k"
    and view :: "'w \<Rightarrow> 'k \<Rightarrow> 'o option" and rest :: "'w \<Rightarrow> 'r"
    and stored :: "'o \<Rightarrow> 'o option \<Rightarrow> 'o \<Rightarrow> bool" and restated :: "'o \<Rightarrow> 'o \<Rightarrow> 'o \<Rightarrow> bool" and ending :: "'o \<Rightarrow> bool"
  assumes get_law: "Get S q w = (a, w') \<Longrightarrow> view w' = view w \<and> rest w' = rest w \<and>
      (case a of Inr x \<Rightarrow> view w q = Some x \<and> key_of x = q | Inl e \<Rightarrow> missing e \<longrightarrow> view w q = None)"
    and create_law: "Create S x w = (a, w') \<Longrightarrow> rest w' = rest w \<and>
      (case a of Inr y \<Rightarrow> view w (key_of x) = None \<and> view w' = (view w)(key_of x \<mapsto> y) \<and> stored x None y \<and> key_of y = key_of x
       | Inl _ \<Rightarrow> view w' = view w)"
    and update_law: "Update S x w = (a, w') \<Longrightarrow> rest w' = rest w \<and>
      (case a of Inr y \<Rightarrow> (\<exists>old. view w (key_of x) = Some old \<and> stored x (Some old) y) \<and> key_of y = key_of x \<and>
          (view w' = (view w)(key_of x \<mapsto> y) \<or> view w' = (view w)(key_of x := None) \<and> ending y)
       | Inl _ \<Rightarrow> view w' = view w)"
    and delete_law: "Delete S x w = (e, w') \<Longrightarrow> rest w' = rest w \<and>
      (if e = None then view w' = (view w)(key_of x := view w' (key_of x)) \<and> (\<forall>y. view w' (key_of x) = Some y \<longrightarrow> ending y)
       else view w' = view w)"
    and status_law: "StatusUpdate S x w = (a, w') \<Longrightarrow> rest w' = rest w \<and>
      (case a of Inr y \<Rightarrow> view w' = (view w)(key_of x \<mapsto> y) \<and> key_of y = key_of x \<and>
          (\<exists>old. view w (key_of x) = Some old \<and> restated x old y)
       | Inl _ \<Rightarrow> view w' = view w)"
begin

lemma get_view: "Get S q w = (a, w') \<Longrightarrow> view w' = view w" "Get S q w = (a, w') \<Longrightarrow> rest w' = rest w"
  using get_law by blast+

lemma get_found: "Get S q w = (Inr x, w') \<Longrightarrow> view w q = Some x \<and> key_of x = q"
  using get_law by fastforce

lemma get_missing: "Get S q w = (Inl e, w') \<Longrightarrow> missing e \<Longrightarrow> view w q = None"
  using get_law by fastforce

lemma write_rest:
  "Create S x w = (a, w') \<Longrightarrow> rest w' = rest w" "Update S x w = (a, w') \<Longrightarrow> rest w' = rest w"
  "Delete S x w = (e, w') \<Longrightarrow> rest w' = rest w" "StatusUpdate S x w = (a, w') \<Longrightarrow> rest w' = rest w"
  using create_law update_law delete_law status_law by blast+

lemma write_elsewhere:
  "Create S x w = (a, w') \<Longrightarrow> q \<noteq> key_of x \<Longrightarrow> view w' q = view w q"
  "Update S x w = (a, w') \<Longrightarrow> q \<noteq> key_of x \<Longrightarrow> view w' q = view w q"
  "Delete S x w = (e, w') \<Longrightarrow> q \<noteq> key_of x \<Longrightarrow> view w' q = view w q"
  "StatusUpdate S x w = (a, w') \<Longrightarrow> q \<noteq> key_of x \<Longrightarrow> view w' q = view w q"
  using create_law [of x w a w'] update_law [of x w a w'] delete_law [of x w e w'] status_law [of x w a w']
  by (auto split: sum.splits if_splits simp: fun_eq_iff)

lemma create_done: "Create S x w = (Inr y, w') \<Longrightarrow> view w (key_of x) = None \<and> view w' = (view w)(key_of x \<mapsto> y) \<and> stored x None y"
  and create_failed: "Create S x w = (Inl e, w') \<Longrightarrow> view w' = view w"
  using create_law by fastforce+

lemma update_failed: "Update S x w = (Inl e, w') \<Longrightarrow> view w' = view w"
  and status_failed: "StatusUpdate S x w = (Inl e, w') \<Longrightarrow> view w' = view w"
  using update_law status_law by fastforce+

text \<open>A second creation under a key is refused.\<close>

lemma create_taken: "view w (key_of x) \<noteq> None \<Longrightarrow> Create S x w = (a, w') \<Longrightarrow> (\<exists>e. a = Inl e) \<and> view w' = view w \<and> rest w' = rest w"
  using create_law [of x w a w'] by (cases a) auto

end

section \<open>A server in memory\<close>

definition mem_missing :: go_error where "mem_missing = External ''not found''"

text \<open>
  The server over a map that \<open>vw\<close> reads and \<open>pt\<close> replaces: \<open>save\<close> merges a write with what was stored,
  \<open>restate\<close> \<open>drp\<close> says which objects an update removes, \<open>rm\<close> which go at once when they are
  deleted, and \<open>stamp\<close> marks one that stays.\<close>

definition mem_access ::
    "('o \<Rightarrow> 'k) \<Rightarrow> ('w \<Rightarrow> 'k \<Rightarrow> 'o option) \<Rightarrow> (('k \<Rightarrow> 'o option) \<Rightarrow> 'w \<Rightarrow> 'w) \<Rightarrow> ('o \<Rightarrow> 'o option \<Rightarrow> 'o) \<Rightarrow> ('o \<Rightarrow> 'o \<Rightarrow> 'o) \<Rightarrow>
     ('o \<Rightarrow> bool) \<Rightarrow> ('o \<Rightarrow> bool) \<Rightarrow> ('o \<Rightarrow> 'o) \<Rightarrow> ('o, 'k, 'w) Access" where
  "mem_access ky vw pt save restate drp rm stamp =
     \<lparr>Get = (\<lambda>q w. (case vw w q of None \<Rightarrow> Inl mem_missing | Some x \<Rightarrow> if ky x = q then Inr x else Inl (External ''corrupt''), w)),
      Create = (\<lambda>x w. case vw w (ky x) of
          Some _ \<Rightarrow> (Inl (External ''already exists''), w)
        | None \<Rightarrow> (Inr (save x None), pt ((vw w)(ky x \<mapsto> save x None)) w)),
      Update = (\<lambda>x w. case vw w (ky x) of
          None \<Rightarrow> (Inl mem_missing, w)
        | Some old \<Rightarrow> (Inr (save x (Some old)), pt ((vw w)(ky x := if drp (save x (Some old)) then None else Some (save x (Some old)))) w)),
      Delete = (\<lambda>x w. case vw w (ky x) of
          None \<Rightarrow> (Some mem_missing, w)
        | Some old \<Rightarrow> (None, pt ((vw w)(ky x := if rm old then None else Some (stamp old))) w)),
      StatusUpdate = (\<lambda>x w. case vw w (ky x) of
          None \<Rightarrow> (Inl mem_missing, w)
        | Some old \<Rightarrow>
            if ky old = ky x then (Inr (restate x old), pt ((vw w)(ky x \<mapsto> restate x old)) w) else (Inl (External ''corrupt''), w))\<rparr>"

lemma mem_store:
  assumes "\<And>f w. vw (pt f w) = f" and "\<And>f w. rs (pt f w) = rs w"
    and "\<And>x old. stored x old (save x old) \<and> ky (save x old) = ky x"
    and "\<And>x old. ky old = ky x \<Longrightarrow> restated x old (restate x old) \<and> ky (restate x old) = ky x"
    and "\<And>x. drp x \<Longrightarrow> ending x" and "\<And>x. \<not> rm x \<Longrightarrow> ending (stamp x)"
  shows "object_store (mem_access ky vw pt save restate drp rm stamp) (\<lambda>e. e = mem_missing) ky vw rs stored restated ending"
  by standard (auto simp: mem_access_def mem_missing_def assms split: option.splits if_splits)

end
