(* ===== verification/NodeBackend.thy ===== *)
theory NodeBackend
  imports ObjectStore
begin

text \<open>
  \<open>SHUBHAM-CHAUHAN/feature_skeleton.go\<close> with \<open>api/v1/dpu_types.go\<close>: the reconciler of NVIDIA data
  processing units, and the adapter that keeps a \<open>DPUNode\<close> and a \<open>DPUDevice\<close> of DPF for each unit.
\<close>

section \<open>Objects\<close>

record Condition =
  Type :: string
  Status :: string
  Reason :: string
  Message :: message

record DataProcessingUnitSpec =
  DpuProductName :: string
  NodeName :: string

record DataProcessingUnit =
  Name :: string
  Namespace :: string
  ResourceVersion :: string
  DeletionTimestamp :: "time option"
  Finalizers :: "string list"
  Spec :: DataProcessingUnitSpec
  Conditions :: "Condition list"

text \<open>An unstructured object of group \<open>dpf.dpu.nvidia.com\<close>.\<close>

record Object =
  Kind :: string
  o_Name :: string
  o_Namespace :: string
  Content :: "json gomap"

type_synonym key = "string \<times> string"
type_synonym object_key = "string \<times> key"

definition unit_key :: "DataProcessingUnit \<Rightarrow> key" where "unit_key d = (Namespace d, Name d)"
definition obj_key :: "Object \<Rightarrow> object_key" where "obj_key x = (Kind x, (o_Namespace x, o_Name x))"

record 'w Client =
  units_at :: "(DataProcessingUnit, key, 'w) Access"
  objects_at :: "(Object, object_key, 'w) Access"

record machinery =
  IsNotFound :: "go_error \<Rightarrow> bool"
  NestedString :: "json gomap \<Rightarrow> string list \<Rightarrow> string"
  SetStatusCondition :: "Condition list \<Rightarrow> Condition \<Rightarrow> Condition list"

definition nvidiaBackendFinalizer :: string where "nvidiaBackendFinalizer = ''dpu.opi.io/nvidia-backend-finalizer''"

definition is_zero_time :: "time option \<Rightarrow> bool" where
  "is_zero_time t = (case t of None \<Rightarrow> True | Some x \<Rightarrow> x = zero_time)"

section \<open>The adapter\<close>

record 'w DpfAdapter =
  ad_Client :: "'w Client"
  DpfNamespace :: string
  ad_lib :: machinery

definition NewDpfAdapter :: "'w Client \<Rightarrow> string \<Rightarrow> machinery \<Rightarrow> 'w DpfAdapter" where
  "NewDpfAdapter c dpfNamespace k = \<lparr>ad_Client = c, DpfNamespace = dpfNamespace, ad_lib = k\<rparr>"

definition buildDPUNodeSpec :: "DataProcessingUnit \<Rightarrow> json" where
  "buildDPUNodeSpec dpu = JObject [(''nodeRebootMethod'', JString ''gNOI''), (''node'', JString (NodeName (Spec dpu)))]"

definition ensureDPUDevice :: "'w DpfAdapter \<Rightarrow> DataProcessingUnit \<Rightarrow> 'w \<Rightarrow> go_error option \<times> 'w" where
  "ensureDPUDevice a dpu w =
     (case Get (objects_at (ad_Client a)) (''DPUDevice'', (DpfNamespace a, Name dpu)) w of
        (Inl err, w1) \<Rightarrow>
          if \<not> IsNotFound (ad_lib a) err then (Some (Errorf ''failed to get DPUDevice %s: %w'' [AStr (Name dpu), AWrap err]), w1)
          else (case Create (objects_at (ad_Client a)) \<lparr>Kind = ''DPUDevice'', o_Name = Name dpu, o_Namespace = DpfNamespace a,
                       Content = [(''spec'', JObject [(''dpunode'', JString (NodeName (Spec dpu)))])]\<rparr> w1 of
                  (Inl e, w2) \<Rightarrow> (Some (Errorf ''failed to create DPUDevice %s: %w'' [AStr (Name dpu), AWrap e]), w2)
                | (Inr _, w2) \<Rightarrow> (None, w2))
      | (Inr _, w1) \<Rightarrow> (None, w1))"

definition SyncDPU :: "'w DpfAdapter \<Rightarrow> DataProcessingUnit \<Rightarrow> 'w \<Rightarrow> go_error option \<times> 'w" where
  "SyncDPU a dpu w =
     (let dpunodeName = NodeName (Spec dpu); objs = objects_at (ad_Client a)
      in if dpunodeName = '''' then (Some (Errorf ''DataProcessingUnit %s has empty nodeName'' [AStr (Name dpu)]), w)
         else case Get objs (''DPUNode'', (DpfNamespace a, dpunodeName)) w of
           (Inl err, w1) \<Rightarrow>
             if \<not> IsNotFound (ad_lib a) err then (Some (Errorf ''failed to get DPUNode %s: %w'' [AStr dpunodeName, AWrap err]), w1)
             else (case Create objs \<lparr>Kind = ''DPUNode'', o_Name = dpunodeName, o_Namespace = DpfNamespace a,
                          Content = [(''spec'', buildDPUNodeSpec dpu)]\<rparr> w1 of
                     (Inl e, w2) \<Rightarrow> (Some (Errorf ''failed to create DPUNode %s: %w'' [AStr dpunodeName, AWrap e]), w2)
                   | (Inr _, w2) \<Rightarrow>
                       (case ensureDPUDevice a dpu w2 of
                          (Some e, w3) \<Rightarrow> (Some (Errorf ''failed to ensure DPUDevice for DPU %s: %w'' [AStr (Name dpu), AWrap e]), w3)
                        | (None, w3) \<Rightarrow> (None, w3)))
         | (Inr dpunode, w1) \<Rightarrow>
             (case Update objs (dpunode\<lparr>Content := AList.update ''spec'' (buildDPUNodeSpec dpu) (Content dpunode)\<rparr>) w1 of
                (Inl e, w2) \<Rightarrow> (Some (Errorf ''failed to update DPUNode %s: %w'' [AStr dpunodeName, AWrap e]), w2)
              | (Inr _, w2) \<Rightarrow> (None, w2)))"

text \<open>The device half of the cleanup.\<close>

definition cleanup_device :: "'w DpfAdapter \<Rightarrow> DataProcessingUnit \<Rightarrow> 'w \<Rightarrow> go_error option \<times> 'w" where
  "cleanup_device a dpu w =
     (case Get (objects_at (ad_Client a)) (''DPUDevice'', (DpfNamespace a, Name dpu)) w of
        (Inl err, w1) \<Rightarrow>
          (if \<not> IsNotFound (ad_lib a) err then Some (Errorf ''failed to get DPUDevice %s for cleanup: %w'' [AStr (Name dpu), AWrap err])
           else None, w1)
      | (Inr device, w1) \<Rightarrow>
          (case Delete (objects_at (ad_Client a)) device w1 of
             (Some e, w2) \<Rightarrow> (Some (Errorf ''failed to delete DPUDevice %s: %w'' [AStr (Name dpu), AWrap e]), w2)
           | (None, w2) \<Rightarrow> (None, w2)))"

definition CleanupDPU :: "'w DpfAdapter \<Rightarrow> DataProcessingUnit \<Rightarrow> 'w \<Rightarrow> go_error option \<times> 'w" where
  "CleanupDPU a dpu w =
     (let dpunodeName = NodeName (Spec dpu); objs = objects_at (ad_Client a)
      in if dpunodeName = '''' then (None, w)
         else case Get objs (''DPUNode'', (DpfNamespace a, dpunodeName)) w of
           (Inl err, w1) \<Rightarrow>
             (if \<not> IsNotFound (ad_lib a) err then Some (Errorf ''failed to get DPUNode %s for cleanup: %w'' [AStr dpunodeName, AWrap err])
              else None, w1)
         | (Inr dpunode, w1) \<Rightarrow>
             (case Delete objs dpunode w1 of
                (Some e, w2) \<Rightarrow> (Some (Errorf ''failed to delete DPUNode %s: %w'' [AStr dpunodeName, AWrap e]), w2)
              | (None, w2) \<Rightarrow> cleanup_device a dpu w2))"

text \<open>The condition for what the read of the node gave; \<open>None\<close> when there is no node.\<close>

definition reflected :: "machinery \<Rightarrow> Object option \<Rightarrow> Condition" where
  "reflected k dpunode = (case dpunode of
       None \<Rightarrow> \<lparr>Type = ''BackendNotReady'', Status = ''True'', Reason = ''DPFNotInstalled'',
                 Message = Text ''DPF operator or DPUNode not found''\<rparr>
     | Some x \<Rightarrow>
         (let phase = NestedString k (Content x) [''status'', ''phase'']
          in if phase = ''Ready''
             then \<lparr>Type = ''Provisioned'', Status = ''True'', Reason = ''DPFProvisioningComplete'',
                    Message = Text ''DPUNode is in Ready phase''\<rparr>
             else \<lparr>Type = ''Provisioning'', Status = ''True'', Reason = ''DPFProvisioningInProgress'',
                    Message = Sprintf ''DPUNode phase: %s'' [AStr phase]\<rparr>))"

definition err_of :: "(go_error + 'a) \<times> 'w \<Rightarrow> go_error option \<times> 'w" where
  "err_of z = (case z of (Inl e, w) \<Rightarrow> (Some e, w) | (Inr _, w) \<Rightarrow> (None, w))"

definition ReflectStatus :: "'w DpfAdapter \<Rightarrow> DataProcessingUnit \<Rightarrow> 'w \<Rightarrow> go_error option \<times> 'w" where
  "ReflectStatus a dpu w =
     (let report = (\<lambda>dpunode w1. err_of (StatusUpdate (units_at (ad_Client a))
            (dpu\<lparr>Conditions := SetStatusCondition (ad_lib a) (Conditions dpu) (reflected (ad_lib a) dpunode)\<rparr>) w1))
      in if NodeName (Spec dpu) = '''' then (None, w)
         else case Get (objects_at (ad_Client a)) (''DPUNode'', (DpfNamespace a, NodeName (Spec dpu))) w of
           (Inl err, w1) \<Rightarrow> if \<not> IsNotFound (ad_lib a) err then (Some err, w1) else report None w1
         | (Inr dpunode, w1) \<Rightarrow> report (Some dpunode) w1)"

section \<open>The reconciler\<close>

text \<open>An adapter, with the optional interface that reflects a status back; a detector may be nil.\<close>

record 'w NvidiaBackendAdapter =
  ba_SyncDPU :: "DataProcessingUnit \<Rightarrow> 'w \<Rightarrow> go_error option \<times> 'w"
  ba_CleanupDPU :: "DataProcessingUnit \<Rightarrow> 'w \<Rightarrow> go_error option \<times> 'w"
  ba_ReflectStatus :: "(DataProcessingUnit \<Rightarrow> 'w \<Rightarrow> go_error option \<times> 'w) option"

type_synonym VendorDetector = "DataProcessingUnit \<Rightarrow> bool"

definition DefaultNvidiaDetector :: VendorDetector where
  "DefaultNvidiaDetector dpu = (DpuProductName (Spec dpu) \<in> {''nvidia-bluefield-2'', ''nvidia-bluefield-3''})"

record 'w NvidiaDPUBackendReconciler =
  rec_Client :: "'w Client"
  Adapter :: "'w NvidiaBackendAdapter"
  Detector :: "VendorDetector option"
  rec_lib :: machinery

definition NewNvidiaDPUBackendReconciler ::
    "'w Client \<Rightarrow> 'w NvidiaBackendAdapter \<Rightarrow> VendorDetector option \<Rightarrow> machinery \<Rightarrow> 'w NvidiaDPUBackendReconciler" where
  "NewNvidiaDPUBackendReconciler c adapter detector k = \<lparr>rec_Client = c, Adapter = adapter, Detector = detector, rec_lib = k\<rparr>"

definition isNvidiaDPU :: "'w NvidiaDPUBackendReconciler \<Rightarrow> DataProcessingUnit \<Rightarrow> bool" where
  "isNvidiaDPU r dpu = (case Detector r of None \<Rightarrow> False | Some f \<Rightarrow> f dpu)"

definition addFinalizer :: "DataProcessingUnit \<Rightarrow> bool \<times> DataProcessingUnit" where
  "addFinalizer dpu = (if nvidiaBackendFinalizer \<in> set (Finalizers dpu) then (False, dpu)
     else (True, dpu\<lparr>Finalizers := Finalizers dpu @ [nvidiaBackendFinalizer]\<rparr>))"

definition removeFinalizer :: "DataProcessingUnit \<Rightarrow> bool \<times> DataProcessingUnit" where
  "removeFinalizer dpu =
     (let newFinalizers = filter (\<lambda>f. f \<noteq> nvidiaBackendFinalizer) (Finalizers dpu); removed = (nvidiaBackendFinalizer \<in> set (Finalizers dpu))
      in (removed, if removed then dpu\<lparr>Finalizers := newFinalizers\<rparr> else dpu))"

definition handleDeletion :: "'w NvidiaDPUBackendReconciler \<Rightarrow> DataProcessingUnit \<Rightarrow> 'w \<Rightarrow> go_error option \<times> 'w" where
  "handleDeletion r dpu w =
     (case ba_CleanupDPU (Adapter r) dpu w of
        (Some err, w1) \<Rightarrow> (Some err, w1)
      | (None, w1) \<Rightarrow>
          (case removeFinalizer dpu of
             (True, dpu1) \<Rightarrow> err_of (Update (units_at (rec_Client r)) dpu1 w1)
           | (False, _) \<Rightarrow> (None, w1)))"

text \<open>The pass behind the finalizer.\<close>

definition sync_and_reflect :: "'w NvidiaDPUBackendReconciler \<Rightarrow> DataProcessingUnit \<Rightarrow> 'w \<Rightarrow> go_error option \<times> 'w" where
  "sync_and_reflect r dpu w =
     (case ba_SyncDPU (Adapter r) dpu w of
        (Some err, w1) \<Rightarrow> (Some err, w1)
      | (None, w1) \<Rightarrow> (case ba_ReflectStatus (Adapter r) of None \<Rightarrow> (None, w1) | Some f \<Rightarrow> f dpu w1))"

definition Reconcile :: "'w NvidiaDPUBackendReconciler \<Rightarrow> key \<Rightarrow> 'w \<Rightarrow> go_error option \<times> 'w" where
  "Reconcile r req w =
     (case Get (units_at (rec_Client r)) req w of
        (Inl err, w1) \<Rightarrow> (if IsNotFound (rec_lib r) err then None else Some err, w1)
      | (Inr dpu, w1) \<Rightarrow>
          if \<not> isNvidiaDPU r dpu then (None, w1)
          else if \<not> is_zero_time (DeletionTimestamp dpu) then handleDeletion r dpu w1
          else (case addFinalizer dpu of
                  (True, dpu1) \<Rightarrow>
                    (case Update (units_at (rec_Client r)) dpu1 w1 of
                       (Inl err, w2) \<Rightarrow> (Some err, w2)
                     | (Inr dpu2, w2) \<Rightarrow> sync_and_reflect r dpu2 w2)
                | (False, dpu1) \<Rightarrow> sync_and_reflect r dpu1 w1))"

text \<open>The reconciler over the DPF adapter and the default detector.\<close>

definition dpf_backend :: "'w Client \<Rightarrow> machinery \<Rightarrow> string \<Rightarrow> 'w NvidiaDPUBackendReconciler" where
  "dpf_backend c k dpfNamespace =
     (let a = NewDpfAdapter c dpfNamespace k
      in NewNvidiaDPUBackendReconciler c
           \<lparr>ba_SyncDPU = SyncDPU a, ba_CleanupDPU = CleanupDPU a, ba_ReflectStatus = Some (ReflectStatus a)\<rparr>
           (Some DefaultNvidiaDetector) k)"

section \<open>Finalizers\<close>

text \<open>Putting the finalizer on and taking it off again gives the unit back, and the second put changes nothing.\<close>

theorem finalizer_roundtrip:
  "snd (removeFinalizer (snd (addFinalizer d))) = snd (removeFinalizer d) \<and>
   nvidiaBackendFinalizer \<notin> set (Finalizers (snd (removeFinalizer d))) \<and>
   addFinalizer (snd (addFinalizer d)) = (False, snd (addFinalizer d)) \<and>
   (fst (addFinalizer d) \<longleftrightarrow> snd (removeFinalizer (snd (addFinalizer d))) = d)"
proof -
  have "filter (\<lambda>f. f \<noteq> nvidiaBackendFinalizer) (Finalizers d) = Finalizers d" if "nvidiaBackendFinalizer \<notin> set (Finalizers d)"
    using that by (auto simp: filter_id_conv)
  moreover have "d\<lparr>Finalizers := filter (\<lambda>f. f \<noteq> nvidiaBackendFinalizer) (Finalizers d)\<rparr> \<noteq> d" if "nvidiaBackendFinalizer \<in> set (Finalizers d)"
  proof
    assume "d\<lparr>Finalizers := filter (\<lambda>f. f \<noteq> nvidiaBackendFinalizer) (Finalizers d)\<rparr> = d"
    then have "Finalizers (d\<lparr>Finalizers := filter (\<lambda>f. f \<noteq> nvidiaBackendFinalizer) (Finalizers d)\<rparr>) = Finalizers d" by (rule arg_cong)
    then have "filter (\<lambda>f. f \<noteq> nvidiaBackendFinalizer) (Finalizers d) = Finalizers d" by simp
    then show False using that by (auto simp: filter_id_conv)
  qed
  ultimately show ?thesis by (auto simp: addFinalizer_def removeFinalizer_def Let_def)
qed

section \<open>An API server\<close>

definition stored_unit :: "DataProcessingUnit \<Rightarrow> DataProcessingUnit option \<Rightarrow> DataProcessingUnit \<Rightarrow> bool" where
  "stored_unit x old y = ((\<exists>rv cs. y = x\<lparr>ResourceVersion := rv, Conditions := cs\<rparr>) \<and>
     (case old of None \<Rightarrow> True | Some ob \<Rightarrow> Conditions y = Conditions ob))"

definition restated_unit :: "DataProcessingUnit \<Rightarrow> DataProcessingUnit \<Rightarrow> DataProcessingUnit \<Rightarrow> bool" where
  "restated_unit x old y = (\<exists>rv. y = old\<lparr>ResourceVersion := rv, Conditions := Conditions x\<rparr>)"

definition stored_object :: "Object \<Rightarrow> Object option \<Rightarrow> Object \<Rightarrow> bool" where
  "stored_object x old y = (map_of (Content y) ''spec'' = map_of (Content x) ''spec'')"

definition deleting :: "DataProcessingUnit \<Rightarrow> bool" where "deleting d = (\<not> is_zero_time (DeletionTimestamp d))"

text \<open>
  Units and objects of DPF live on one server: \<open>vu\<close> and \<open>vo\<close> are its two halves.  Setting a condition
  keeps the conditions of other types.\<close>

locale backend =
  us: object_store "units_at C" "IsNotFound k" unit_key vu vo stored_unit restated_unit deleting +
  os: object_store "objects_at C" "IsNotFound k" obj_key vo vu stored_object "\<lambda>x old y. True" "\<lambda>y. True"
  for C :: "'w Client" and k :: machinery and vu :: "'w \<Rightarrow> key \<Rightarrow> DataProcessingUnit option"
    and vo :: "'w \<Rightarrow> object_key \<Rightarrow> Object option" +
  assumes conditions: "(\<exists>x \<in> set (SetStatusCondition k cs c). Type x = Type c \<and> Status x = Status c) \<and>
      (\<forall>x \<in> set cs. Type x \<noteq> Type c \<longrightarrow> x \<in> set (SetStatusCondition k cs c))"

definition node_at :: "string \<Rightarrow> DataProcessingUnit \<Rightarrow> object_key" where "node_at ns d = (''DPUNode'', (ns, NodeName (Spec d)))"
definition device_at :: "string \<Rightarrow> DataProcessingUnit \<Rightarrow> object_key" where "device_at ns d = (''DPUDevice'', (ns, Name d))"

lemma node_not_device [simp]: "node_at ns d \<noteq> device_at ns' d'" "device_at ns d \<noteq> node_at ns' d'"
  by (simp_all add: node_at_def device_at_def)

text \<open>Whether a list of conditions claims a type.\<close>

definition claims :: "Condition list \<Rightarrow> string \<Rightarrow> bool" where
  "claims cs t = (\<exists>c \<in> set cs. Type c = t \<and> Status c = ''True'')"

context backend begin

lemma claims_grow: "Status c = ''True'' \<Longrightarrow> claims cs t \<Longrightarrow> claims (SetStatusCondition k cs c) t"
  using conditions [of cs c] unfolding claims_def by metis

lemma device_step:
  assumes "ensureDPUDevice (NewDpfAdapter C ns k) d w = (e, w')"
  shows "vu w' = vu w" "\<forall>p. p \<noteq> device_at ns d \<longrightarrow> vo w' p = vo w p" "e = None \<Longrightarrow> vo w' (device_at ns d) \<noteq> None"
proof -
  let ?x = "\<lparr>Kind = ''DPUDevice'', o_Name = Name d, o_Namespace = ns, Content = [(''spec'', JObject [(''dpunode'', JString (NodeName (Spec d)))])]\<rparr>"
  obtain a w1 where 1: "Get (objects_at C) (device_at ns d) w = (a, w1)" by fastforce
  obtain b w2 where 2: "Create (objects_at C) ?x w1 = (b, w2)" by fastforce
  have key: "obj_key ?x = device_at ns d" by (simp add: obj_key_def device_at_def)
  note g = os.get_view [OF 1]
  have "vu w' = vu w \<and> (\<forall>p. p \<noteq> device_at ns d \<longrightarrow> vo w' p = vo w p) \<and> (e = None \<longrightarrow> vo w' (device_at ns d) \<noteq> None)"
  proof (cases a)
    case (Inr x)
    then show ?thesis using assms 1 g os.get_found [of "device_at ns d" w x w1]
      by (simp add: ensureDPUDevice_def NewDpfAdapter_def device_at_def)
  next
    case (Inl x)
    show ?thesis
    proof (cases "IsNotFound k x")
      case False
      then show ?thesis using assms 1 g Inl by (auto simp: ensureDPUDevice_def NewDpfAdapter_def device_at_def)
    next
      case True
      then have "w' = w2 \<and> (e = None \<longrightarrow> (\<exists>y. b = Inr y))"
        using assms 1 2 Inl by (cases b) (auto simp: ensureDPUDevice_def NewDpfAdapter_def device_at_def)
      moreover have "vo w2 (device_at ns d) \<noteq> None" if "b = Inr y" for y using os.create_done [of ?x w1 y w2] 2 that key by simp
      ultimately show ?thesis
        using g os.write_rest(1) [OF 2] os.write_elsewhere(1) [OF 2, unfolded key] by auto
    qed
  qed
  then show "vu w' = vu w" "\<forall>p. p \<noteq> device_at ns d \<longrightarrow> vo w' p = vo w p" "e = None \<Longrightarrow> vo w' (device_at ns d) \<noteq> None"
    by blast+
qed

lemma sync_step:
  assumes "SyncDPU (NewDpfAdapter C ns k) d w = (e, w')"
  shows "vu w' = vu w" "\<forall>p. p \<notin> {node_at ns d, device_at ns d} \<longrightarrow> vo w' p = vo w p"
    "vo w (node_at ns d) \<noteq> None \<Longrightarrow> vo w' (device_at ns d) = vo w (device_at ns d)"
    "e = None \<Longrightarrow> vo w (node_at ns d) = None \<Longrightarrow> vo w' (device_at ns d) \<noteq> None"
proof -
  let ?n = "\<lparr>Kind = ''DPUNode'', o_Name = NodeName (Spec d), o_Namespace = ns, Content = [(''spec'', buildDPUNodeSpec d)]\<rparr>"
  obtain a w1 where 1: "Get (objects_at C) (node_at ns d) w = (a, w1)" by fastforce
  note g = os.get_view [OF 1]
  have key: "obj_key ?n = node_at ns d" by (simp add: obj_key_def node_at_def)
  have sel: "ad_Client (NewDpfAdapter C ns k) = C" "DpfNamespace (NewDpfAdapter C ns k) = ns" "ad_lib (NewDpfAdapter C ns k) = k"
    by (simp_all add: NewDpfAdapter_def)
  have "vu w' = vu w \<and> (\<forall>p. p \<notin> {node_at ns d, device_at ns d} \<longrightarrow> vo w' p = vo w p) \<and>
    (vo w (node_at ns d) \<noteq> None \<longrightarrow> vo w' (device_at ns d) = vo w (device_at ns d)) \<and>
    (e = None \<longrightarrow> vo w (node_at ns d) = None \<longrightarrow> vo w' (device_at ns d) \<noteq> None)"
  proof (cases "NodeName (Spec d) = ''''")
    case True
    then show ?thesis using assms by (auto simp: SyncDPU_def)
  next
    case named: False
    show ?thesis
    proof (cases a)
      case (Inr x)
      let ?x = "x\<lparr>Content := AList.update ''spec'' (buildDPUNodeSpec d) (Content x)\<rparr>"
      obtain b w2 where 2: "Update (objects_at C) ?x w1 = (b, w2)" by fastforce
      have x: "vo w (node_at ns d) = Some x" "obj_key ?x = node_at ns d"
        using os.get_found [of "node_at ns d" w x w1] 1 Inr by (simp_all add: obj_key_def)
      have "w' = w2" using assms 1 2 Inr named by (cases b) (simp_all add: SyncDPU_def sel Let_def node_at_def)
      then show ?thesis
        using g x os.write_rest(2) [OF 2] os.write_elsewhere(2) [OF 2, unfolded x(2)] by auto
    next
      case (Inl x)
      show ?thesis
      proof (cases "IsNotFound k x")
        case False
        then have "w' = w1 \<and> e \<noteq> None" using assms 1 Inl named by (auto simp: SyncDPU_def sel Let_def node_at_def)
        then show ?thesis using g by auto
      next
        case nf: True
        then have none: "vo w (node_at ns d) = None" using os.get_missing [of "node_at ns d" w x w1] 1 Inl by simp
        obtain b w2 where 2: "Create (objects_at C) ?n w1 = (b, w2)" by fastforce
        obtain f w3 where 3: "ensureDPUDevice (NewDpfAdapter C ns k) d w2 = (f, w3)" by fastforce
        have "(\<exists>y. b = Inl y) \<and> w' = w2 \<and> e \<noteq> None \<or> (\<exists>y. b = Inr y) \<and> w' = w3 \<and> (e = None \<longrightarrow> f = None)"
          using assms 1 2 3 Inl nf named by (cases b; cases f) (auto simp: SyncDPU_def sel Let_def node_at_def)
        then show ?thesis
          using g none os.write_rest(1) [OF 2] os.write_elsewhere(1) [OF 2, unfolded key] device_step [OF 3] by auto
      qed
    qed
  qed
  then show "vu w' = vu w" "\<forall>p. p \<notin> {node_at ns d, device_at ns d} \<longrightarrow> vo w' p = vo w p"
    "vo w (node_at ns d) \<noteq> None \<Longrightarrow> vo w' (device_at ns d) = vo w (device_at ns d)"
    "e = None \<Longrightarrow> vo w (node_at ns d) = None \<Longrightarrow> vo w' (device_at ns d) \<noteq> None"
    by blast+
qed

end

context backend begin

lemma cleanup_step:
  assumes "CleanupDPU (NewDpfAdapter C ns k) d w = (e, w')"
  shows "vu w' = vu w" "\<forall>p. p \<notin> {node_at ns d, device_at ns d} \<longrightarrow> vo w' p = vo w p"
    "vo w (node_at ns d) = None \<Longrightarrow> vo w' = vo w" "vo w (device_at ns d) = None \<Longrightarrow> vo w' (device_at ns d) = None"
proof -
  obtain a w1 where 1: "Get (objects_at C) (node_at ns d) w = (a, w1)" by fastforce
  note g = os.get_view [OF 1]
  have sel: "ad_Client (NewDpfAdapter C ns k) = C" "DpfNamespace (NewDpfAdapter C ns k) = ns" "ad_lib (NewDpfAdapter C ns k) = k"
    by (simp_all add: NewDpfAdapter_def)
  have "vu w' = vu w \<and> (\<forall>p. p \<notin> {node_at ns d, device_at ns d} \<longrightarrow> vo w' p = vo w p) \<and>
    (vo w (node_at ns d) = None \<longrightarrow> vo w' = vo w) \<and> (vo w (device_at ns d) = None \<longrightarrow> vo w' (device_at ns d) = None)"
  proof (cases "NodeName (Spec d) = ''''")
    case True
    then show ?thesis using assms by (auto simp: CleanupDPU_def)
  next
    case named: False
    show ?thesis
    proof (cases a)
      case (Inl x)
      then have "w' = w1" using assms 1 named by (simp add: CleanupDPU_def sel Let_def node_at_def)
      then show ?thesis using g by simp
    next
      case (Inr x)
      then have x: "vo w (node_at ns d) = Some x" "obj_key x = node_at ns d"
        using os.get_found [of "node_at ns d" w x w1] 1 by simp_all
      obtain b w2 where 2: "Delete (objects_at C) x w1 = (b, w2)" by fastforce
      obtain c w3 where 3: "Get (objects_at C) (device_at ns d) w2 = (c, w3)" by fastforce
      note g2 = os.write_rest(3) [OF 2] os.write_elsewhere(3) [OF 2, unfolded x(2)] and g3 = os.get_view [OF 3]
      have "w' = w2 \<or> w' = w3 \<or> (\<exists>y u. c = Inr y \<and> Delete (objects_at C) y w3 = (u, w'))"
        using assms 1 2 3 Inr named
        by (auto simp: CleanupDPU_def cleanup_device_def sel Let_def node_at_def device_at_def split: option.splits sum.splits prod.splits)
      then consider "w' = w2" | "w' = w3" | y u where "c = Inr y" "Delete (objects_at C) y w3 = (u, w')" by blast
      then show ?thesis
      proof cases
        case (3 y u)
        then have "obj_key y = device_at ns d" "vo w2 (device_at ns d) \<noteq> None"
          using os.get_found [of "device_at ns d" w2 y w3] \<open>Get (objects_at C) (device_at ns d) w2 = (c, w3)\<close> by simp_all
        then show ?thesis using os.write_rest(3) [OF 3(2)] os.write_elsewhere(3) [OF 3(2)] g g2 g3 x(1) by auto
      qed (use g g2 g3 x(1) in simp_all)
    qed
  qed
  then show "vu w' = vu w" "\<forall>p. p \<notin> {node_at ns d, device_at ns d} \<longrightarrow> vo w' p = vo w p"
    "vo w (node_at ns d) = None \<Longrightarrow> vo w' = vo w" "vo w (device_at ns d) = None \<Longrightarrow> vo w' (device_at ns d) = None"
    by blast+
qed

lemma deletion_makes_no_device:
  assumes "handleDeletion (dpf_backend C k ns) d w = (e, w')" and "vo w (device_at ns d) = None"
  shows "vo w' (device_at ns d) = None"
proof -
  let ?a = "NewDpfAdapter C ns k"
  have sel: "ba_CleanupDPU (Adapter (dpf_backend C k ns)) = CleanupDPU ?a" "rec_Client (dpf_backend C k ns) = C"
    by (simp_all add: dpf_backend_def NewNvidiaDPUBackendReconciler_def Let_def)
  obtain u w1 where 1: "CleanupDPU ?a d w = (u, w1)" by fastforce
  obtain b w2 where 2: "Update (units_at C) (snd (removeFinalizer d)) w1 = (b, w2)" by fastforce
  have "w' = w1 \<or> w' = w2"
    using assms(1) 1 2 by (auto simp: handleDeletion_def sel err_of_def split: option.splits prod.splits bool.splits sum.splits)
  then show ?thesis
    using cleanup_step(4) [OF 1 assms(2)] us.write_rest(2) [OF 2] by auto
qed

lemma reflect_step:
  assumes "ReflectStatus (NewDpfAdapter C ns k) d w = (e, w')" and "vu w (unit_key d) = Some d"
  shows "vo w' = vo w" "\<forall>p. p \<noteq> unit_key d \<longrightarrow> vu w' p = vu w p"
    "\<exists>d'. vu w' (unit_key d) = Some d' \<and> Finalizers d' = Finalizers d \<and> (\<forall>t. claims (Conditions d) t \<longrightarrow> claims (Conditions d') t)"
proof -
  obtain a w1 where 1: "Get (objects_at C) (node_at ns d) w = (a, w1)" by fastforce
  note g = os.get_view [OF 1]
  have sel: "ad_Client (NewDpfAdapter C ns k) = C" "DpfNamespace (NewDpfAdapter C ns k) = ns" "ad_lib (NewDpfAdapter C ns k) = k"
    by (simp_all add: NewDpfAdapter_def)
  have true: "Status (reflected k z) = ''True''" for z by (simp add: reflected_def Let_def split: option.splits)
  have kept: "\<exists>d'. vu w (unit_key d) = Some d' \<and> Finalizers d' = Finalizers d \<and> (\<forall>t. claims (Conditions d) t \<longrightarrow> claims (Conditions d') t)"
    using assms(2) by simp
  have "w' = w \<or> w' = w1 \<or> (\<exists>z b. StatusUpdate (units_at C) (d\<lparr>Conditions := SetStatusCondition k (Conditions d) (reflected k z)\<rparr>) w1 = (b, w'))"
    using assms(1) 1
    by (auto simp: ReflectStatus_def sel Let_def node_at_def err_of_def split: if_splits sum.splits prod.splits)
  then consider "w' = w" | "w' = w1"
    | z b where "StatusUpdate (units_at C) (d\<lparr>Conditions := SetStatusCondition k (Conditions d) (reflected k z)\<rparr>) w1 = (b, w')" by blast
  then have "vo w' = vo w \<and> (\<forall>p. p \<noteq> unit_key d \<longrightarrow> vu w' p = vu w p) \<and>
    (\<exists>d'. vu w' (unit_key d) = Some d' \<and> Finalizers d' = Finalizers d \<and> (\<forall>t. claims (Conditions d) t \<longrightarrow> claims (Conditions d') t))"
  proof cases
    case (3 z b)
    have key: "unit_key (d\<lparr>Conditions := SetStatusCondition k (Conditions d) (reflected k z)\<rparr>) = unit_key d" by (simp add: unit_key_def)
    note s = us.status_law [OF 3, unfolded key]
    show ?thesis
    proof (cases b)
      case (Inl x)
      then show ?thesis using s g kept by simp
    next
      case (Inr y)
      then have "vu w' = (vu w)(unit_key d \<mapsto> y)" "restated_unit (d\<lparr>Conditions := SetStatusCondition k (Conditions d) (reflected k z)\<rparr>) d y"
        using s g assms(2) by auto
      then show ?thesis using s g claims_grow [OF true] by (auto simp: restated_unit_def)
    qed
  qed (use g kept in auto)
  then show "vo w' = vo w" "\<forall>p. p \<noteq> unit_key d \<longrightarrow> vu w' p = vu w p"
    "\<exists>d'. vu w' (unit_key d) = Some d' \<and> Finalizers d' = Finalizers d \<and> (\<forall>t. claims (Conditions d) t \<longrightarrow> claims (Conditions d') t)"
    by blast+
qed

text \<open>Everything behind the finalizer, for a unit as it is stored.\<close>

lemma live_step:
  assumes "sync_and_reflect (dpf_backend C k ns) d w = (e, w')" and "vu w (unit_key d) = Some d"
  shows "\<forall>p. p \<notin> {node_at ns d, device_at ns d} \<longrightarrow> vo w' p = vo w p"
    "vo w (node_at ns d) \<noteq> None \<Longrightarrow> vo w' (device_at ns d) = vo w (device_at ns d)"
    "\<exists>d'. vu w' (unit_key d) = Some d' \<and> Finalizers d' = Finalizers d \<and> (\<forall>t. claims (Conditions d) t \<longrightarrow> claims (Conditions d') t)"
proof -
  let ?a = "NewDpfAdapter C ns k"
  obtain u w1 where 1: "SyncDPU ?a d w = (u, w1)" by fastforce
  note s = sync_step [OF 1]
  have r: "w' = w1 \<or> ReflectStatus ?a d w1 = (e, w')"
    using assms(1) 1 by (auto simp: sync_and_reflect_def dpf_backend_def NewNvidiaDPUBackendReconciler_def Let_def split: option.splits)
  have "vu w1 (unit_key d) = Some d" using s(1) assms(2) by simp
  note f = reflect_step [OF _ this]
  from r have "vo w' = vo w1 \<and>
    (\<exists>d'. vu w' (unit_key d) = Some d' \<and> Finalizers d' = Finalizers d \<and> (\<forall>t. claims (Conditions d) t \<longrightarrow> claims (Conditions d') t))"
  proof
    assume "w' = w1"
    then show ?thesis using \<open>vu w1 (unit_key d) = Some d\<close> by simp
  next
    assume "ReflectStatus ?a d w1 = (e, w')"
    then show ?thesis using f by blast
  qed
  then show "\<forall>p. p \<notin> {node_at ns d, device_at ns d} \<longrightarrow> vo w' p = vo w p"
    "vo w (node_at ns d) \<noteq> None \<Longrightarrow> vo w' (device_at ns d) = vo w (device_at ns d)"
    "\<exists>d'. vu w' (unit_key d) = Some d' \<and> Finalizers d' = Finalizers d \<and> (\<forall>t. claims (Conditions d) t \<longrightarrow> claims (Conditions d') t)"
    using s by auto
qed

lemma foreign_pass:
  assumes "Reconcile (dpf_backend C k ns) q w = (e, w')" and "vu w q = Some d" and "\<not> DefaultNvidiaDetector d"
  shows "vo w' = vo w"
proof -
  have sel: "rec_Client (dpf_backend C k ns) = C" "rec_lib (dpf_backend C k ns) = k" "isNvidiaDPU (dpf_backend C k ns) = DefaultNvidiaDetector"
    by (simp_all add: dpf_backend_def NewNvidiaDPUBackendReconciler_def Let_def isNvidiaDPU_def fun_eq_iff)
  obtain g w1 where 1: "Get (units_at C) q w = (g, w1)" by fastforce
  have "w' = w1"
    using assms 1 us.get_found [of q w _ w1] by (cases g) (auto simp: Reconcile_def sel split: if_splits)
  then show ?thesis using us.get_view [OF 1] by simp
qed

text \<open>The shapes of a pass over a stored unit of a known product.\<close>

lemma pass_split [consumes 3, case_names stopped deleting live]:
  assumes "Reconcile (dpf_backend C k ns) q w = (e, w')" and "vu w q = Some d" and "DefaultNvidiaDetector d"
  obtains "vu w' = vu w" "vo w' = vo w" "e \<noteq> None"
  | w1 where "deleting d" "unit_key d = q" "vu w1 = vu w" "vo w1 = vo w" "handleDeletion (dpf_backend C k ns) d w1 = (e, w')"
  | d1 w1 where "\<not> deleting d" "unit_key d1 = q" "Spec d1 = Spec d" "Name d1 = Name d" "Conditions d1 = Conditions d"
      "nvidiaBackendFinalizer \<in> set (Finalizers d1)" "vu w1 q = Some d1" "\<forall>p. p \<noteq> q \<longrightarrow> vu w1 p = vu w p" "vo w1 = vo w"
      "sync_and_reflect (dpf_backend C k ns) d1 w1 = (e, w')"
proof -
  have sel: "rec_Client (dpf_backend C k ns) = C" "rec_lib (dpf_backend C k ns) = k" "isNvidiaDPU (dpf_backend C k ns) = DefaultNvidiaDetector"
    by (simp_all add: dpf_backend_def NewNvidiaDPUBackendReconciler_def Let_def isNvidiaDPU_def fun_eq_iff)
  obtain g w1 where 1: "Get (units_at C) q w = (g, w1)" by fastforce
  note v = us.get_view [OF 1]
  show ?thesis
  proof (cases g)
    case (Inl x)
    then have "\<not> IsNotFound k x" using us.get_missing [of q w x w1] 1 assms(2) by auto
    then have "w' = w1 \<and> e \<noteq> None" using assms(1) 1 Inl by (auto simp: Reconcile_def sel)
    then show ?thesis using v that(1) by simp
  next
    case (Inr x)
    then have x: "x = d" "unit_key d = q" using us.get_found [of q w x w1] 1 assms(2) by simp_all
    show ?thesis
    proof (cases "deleting d")
      case True
      then have "handleDeletion (dpf_backend C k ns) d w1 = (e, w')" using assms(1,3) 1 Inr x by (simp add: Reconcile_def sel deleting_def)
      then show ?thesis by (rule that(2) [OF True x(2) v])
    next
      case live: False
      show ?thesis
      proof (cases "nvidiaBackendFinalizer \<in> set (Finalizers d)")
        case True
        then have "sync_and_reflect (dpf_backend C k ns) d w1 = (e, w')"
          using assms(1,3) 1 Inr x live by (simp add: Reconcile_def sel deleting_def addFinalizer_def)
        then show ?thesis using that(3) [OF live x(2) refl refl refl True, of w1] v assms(2) by simp
      next
        case False
        let ?d = "d\<lparr>Finalizers := Finalizers d @ [nvidiaBackendFinalizer]\<rparr>"
        obtain u w2 where 2: "Update (units_at C) ?d w1 = (u, w2)" by fastforce
        have key: "unit_key ?d = q" using x(2) by (simp add: unit_key_def)
        note law = us.update_law [OF 2, unfolded key]
        show ?thesis
        proof (cases u)
          case (Inl y)
          then have "w' = w2 \<and> e \<noteq> None" using assms(1,3) 1 Inr x live False 2
            by (auto simp: Reconcile_def sel deleting_def addFinalizer_def)
          then show ?thesis using that(1) law Inl v by simp
        next
          case u: (Inr y)
          have y: "stored_unit ?d (Some d) y" "unit_key y = q" using law u v assms(2) by auto
          then have "\<not> deleting y" using live by (auto simp: stored_unit_def deleting_def)
          then have "vu w2 = (vu w1)(q \<mapsto> y)" "vo w2 = vo w1" using law u by auto
          moreover have "sync_and_reflect (dpf_backend C k ns) y w2 = (e, w')"
            using assms(1,3) 1 Inr x live False 2 u by (simp add: Reconcile_def sel deleting_def addFinalizer_def)
          moreover have "Spec y = Spec d" "Name y = Name d" "Conditions y = Conditions d" "nvidiaBackendFinalizer \<in> set (Finalizers y)"
            using y(1) by (auto simp: stored_unit_def)
          ultimately show ?thesis using that(3) [OF live y(2), of w2] v by simp
        qed
      qed
    qed
  qed
qed

end

context backend begin

lemma update_unit_effect:
  assumes "Update (units_at C) x w = (Inr y, w')"
  shows "vo w' = vo w" "unit_key y = unit_key x" "\<exists>old. vu w (unit_key x) = Some old \<and> stored_unit x (Some old) y"
    "vu w' (unit_key x) = Some y \<or> vu w' (unit_key x) = None"
  using us.update_law [OF assms] by auto

end

section \<open>What a pass promises\<close>

text \<open>
  C35.  A device is made with its node or never: a pass over a unit whose node is already there leaves the
  device as it is, so one whose creation failed after that of the node stays missing.  Only for a unit that is being
  deleted does the device go with the node; a missing one is not made by that pass either.\<close>

theorem device_not_repaired:
  assumes "backend C k vu vo" and "Reconcile (dpf_backend C k ns) q w = (e, w')" and "vu w q = Some d"
    and "vo w (node_at ns d) \<noteq> None"
  shows "(\<not> deleting d \<longrightarrow> vo w' (device_at ns d) = vo w (device_at ns d)) \<and>
    (vo w (device_at ns d) = None \<longrightarrow> vo w' (device_at ns d) = None)"
proof (cases "DefaultNvidiaDetector d")
  case False
  then have "vo w' = vo w" using backend.foreign_pass [OF assms(1-3)] by blast
  then show ?thesis by simp
next
  case True
  from assms(1,2,3) True show ?thesis
  proof (cases rule: backend.pass_split [consumes 4, case_names stopped deleting live])
    case stopped
    then show ?thesis by simp
  next
    case (deleting w1)
    then show ?thesis using backend.deletion_makes_no_device [OF assms(1) deleting(5)] by simp
  next
    case (live d1 w1)
    have "node_at ns d1 = node_at ns d" "device_at ns d1 = device_at ns d"
      using live(3,4) by (simp_all add: node_at_def device_at_def)
    moreover have "vu w1 (unit_key d1) = Some d1" using live(2,7) by simp
    ultimately show ?thesis using backend.live_step(2) [OF assms(1) live(10)] live(9) assms(4) by simp
  qed
qed

text \<open>
  A unit that is being deleted is let go as soon as its node is absent, whatever became of its device: a
  pass without error takes the finalizer off and removes no object.\<close>

theorem device_outlives_unit:
  assumes "backend C k vu vo" and "Reconcile (dpf_backend C k ns) q w = (None, w')" and "vu w q = Some d"
    and "DefaultNvidiaDetector d" and "deleting d" and "vo w (node_at ns d) = None"
  shows "vo w' = vo w \<and> (\<forall>d'. vu w' q = Some d' \<longrightarrow> nvidiaBackendFinalizer \<notin> set (Finalizers d'))"
  using assms(1,2,3,4)
proof (cases rule: backend.pass_split [consumes 4, case_names stopped deleting live])
  case stopped
  then show ?thesis by simp
next
  case (live d1 w1)
  then show ?thesis using assms(5) by simp
next
  case (deleting w1)
  let ?a = "NewDpfAdapter C ns k" and ?d = "d\<lparr>Finalizers := filter (\<lambda>f. f \<noteq> nvidiaBackendFinalizer) (Finalizers d)\<rparr>"
  obtain u w2 where 1: "CleanupDPU ?a d w1 = (u, w2)" by fastforce
  note c = backend.cleanup_step [OF assms(1) 1]
  have v: "vo w2 = vo w" "vu w2 = vu w" using c(1,3) deleting(3,4) assms(6) by simp_all
  have sel: "ba_CleanupDPU (Adapter (dpf_backend C k ns)) = CleanupDPU ?a" "rec_Client (dpf_backend C k ns) = C"
    by (simp_all add: dpf_backend_def NewNvidiaDPUBackendReconciler_def Let_def)
  have u: "u = None" using deleting(5) 1 by (cases u) (simp_all add: handleDeletion_def sel)
  show ?thesis
  proof (cases "nvidiaBackendFinalizer \<in> set (Finalizers d)")
    case False
    then show ?thesis using deleting(5) 1 u v assms(3) by (simp add: handleDeletion_def sel removeFinalizer_def Let_def)
  next
    case True
    obtain b w3 where 2: "Update (units_at C) ?d w2 = (b, w3)" by fastforce
    have b: "w3 = w' \<and> (\<exists>y. b = Inr y)"
      using deleting(5) 1 u True 2 by (cases b) (simp_all add: handleDeletion_def sel removeFinalizer_def Let_def err_of_def)
    then obtain y where y: "b = Inr y" by blast
    have "unit_key ?d = q" using deleting(2) by (simp add: unit_key_def)
    then show ?thesis using backend.update_unit_effect [OF assms(1) 2 [unfolded y]] b v by (auto simp: stored_unit_def)
  qed
qed

text \<open>
  The finalizer comes first: a pass over a unit that is not being deleted touches an object of DPF only
  when the unit is stored with the finalizer.\<close>

theorem objects_need_finalizer:
  assumes "backend C k vu vo" and "Reconcile (dpf_backend C k ns) q w = (e, w')" and "vu w q = Some d"
    and "DefaultNvidiaDetector d" and "\<not> deleting d" and "vo w' \<noteq> vo w"
  shows "\<exists>d'. vu w' q = Some d' \<and> nvidiaBackendFinalizer \<in> set (Finalizers d')"
  using assms(1,2,3,4)
proof (cases rule: backend.pass_split [consumes 4, case_names stopped deleting live])
  case stopped
  then show ?thesis using assms(6) by simp
next
  case (deleting w1)
  then show ?thesis using assms(5) by simp
next
  case (live d1 w1)
  have "vu w1 (unit_key d1) = Some d1" using live(2,7) by simp
  from backend.live_step(3) [OF assms(1) live(10) this] show ?thesis using live(2,6) by auto
qed

text \<open>
  Conditions are only ever claimed: what a unit that is not being deleted claims before a pass, it claims
  after it, so a unit that was provisioning and then is provisioned claims both.\<close>

theorem conditions_accumulate:
  assumes "backend C k vu vo" and "Reconcile (dpf_backend C k ns) q w = (e, w')" and "vu w q = Some d"
    and "DefaultNvidiaDetector d" and "\<not> deleting d"
  shows "\<exists>d'. vu w' q = Some d' \<and> (\<forall>t. claims (Conditions d) t \<longrightarrow> claims (Conditions d') t)"
  using assms(1,2,3,4)
proof (cases rule: backend.pass_split [consumes 4, case_names stopped deleting live])
  case stopped
  then show ?thesis using assms(3) by simp
next
  case (deleting w1)
  then show ?thesis using assms(5) by simp
next
  case (live d1 w1)
  have "vu w1 (unit_key d1) = Some d1" using live(2,7) by simp
  from backend.live_step(3) [OF assms(1) live(10) this] show ?thesis using live(2,5) by auto
qed

section \<open>A server in memory\<close>

record world =
  units :: "key \<Rightarrow> DataProcessingUnit option"
  objects :: "object_key \<Rightarrow> Object option"

definition nb_client :: "world Client" where
  "nb_client =
     \<lparr>units_at = mem_access unit_key units (\<lambda>f w. w\<lparr>units := f\<rparr>)
        (\<lambda>x old. case old of None \<Rightarrow> x | Some ob \<Rightarrow> x\<lparr>ResourceVersion := CHR ''1'' # ResourceVersion ob, Conditions := Conditions ob\<rparr>)
        (\<lambda>x old. old\<lparr>ResourceVersion := CHR ''1'' # ResourceVersion old, Conditions := Conditions x\<rparr>)
        (\<lambda>d. deleting d \<and> Finalizers d = []) (\<lambda>d. Finalizers d = []) (\<lambda>d. d\<lparr>DeletionTimestamp := Some 1\<rparr>),
      objects_at = mem_access obj_key objects (\<lambda>f w. w\<lparr>objects := f\<rparr>) (\<lambda>x old. x) (\<lambda>x old. old)
        (\<lambda>x. False) (\<lambda>x. True) (\<lambda>x. x)\<rparr>"

definition nb_lib :: machinery where
  "nb_lib = \<lparr>IsNotFound = (\<lambda>e. e = mem_missing),
     NestedString = (\<lambda>m ks. case map_of m (last ks) of Some (JString s) \<Rightarrow> s | _ \<Rightarrow> ''''),
     SetStatusCondition = (\<lambda>cs c. filter (\<lambda>x. Type x \<noteq> Type c) cs @ [c])\<rparr>"

lemma stored_unit_refl: "stored_unit x None x"
  by (cases x) (auto simp: stored_unit_def)

lemma nb_backend: "backend nb_client nb_lib units objects"
proof -
  have u: "object_store (units_at nb_client) (IsNotFound nb_lib) unit_key units objects stored_unit restated_unit deleting"
    unfolding nb_client_def nb_lib_def Client.simps machinery.simps
    by (rule mem_store)
      (auto simp: stored_unit_refl restated_unit_def unit_key_def deleting_def is_zero_time_def zero_time_def second_def
        stored_unit_def [of _ "Some y" for y] split: option.splits)
  have ob: "object_store (objects_at nb_client) (IsNotFound nb_lib) obj_key objects units stored_object (\<lambda>x old y. True) (\<lambda>y. True)"
    unfolding nb_client_def nb_lib_def Client.simps machinery.simps
    by (rule mem_store) (auto simp: stored_object_def)
  show ?thesis
    by (intro backend.intro u ob backend_axioms.intro) (auto simp: nb_lib_def)
qed

interpretation nb: backend nb_client nb_lib units objects
  by (rule nb_backend)

definition nb_unit :: "time option \<Rightarrow> string list \<Rightarrow> Condition list \<Rightarrow> DataProcessingUnit" where
  "nb_unit dt fs cs = \<lparr>Name = ''d'', Namespace = ''a'', ResourceVersion = '''', DeletionTimestamp = dt, Finalizers = fs,
     Spec = \<lparr>DpuProductName = ''nvidia-bluefield-3'', NodeName = ''n''\<rparr>, Conditions = cs\<rparr>"

definition nb_object :: "string \<Rightarrow> string \<Rightarrow> Object" where
  "nb_object kd name = \<lparr>Kind = kd, o_Name = name, o_Namespace = ''dpf'', Content = [(''phase'', JString ''Ready'')]\<rparr>"

definition nb_world :: "DataProcessingUnit \<Rightarrow> Object list \<Rightarrow> world" where
  "nb_world d xs = \<lparr>units = [(''a'', ''d'') \<mapsto> d], objects = map_of (map (\<lambda>x. (obj_key x, x)) xs)\<rparr>"

definition nb_pass :: "world \<Rightarrow> go_error option \<times> world" where
  "nb_pass w = Reconcile (dpf_backend nb_client nb_lib ''dpf'') (''a'', ''d'') w"

lemma nb_pass_eq: "fst (nb_pass w) = e \<Longrightarrow> Reconcile (dpf_backend nb_client nb_lib ''dpf'') (''a'', ''d'') w = (e, snd (nb_pass w))"
  by (auto simp: nb_pass_def)

lemma nb_facts:
  "units (nb_world d xs) (''a'', ''d'') = Some d" "DefaultNvidiaDetector (nb_unit dt fs cs)"
  "deleting (nb_unit (Some 1) fs cs)" "\<not> deleting (nb_unit None fs cs)"
  by (simp_all add: nb_world_def DefaultNvidiaDetector_def nb_unit_def deleting_def is_zero_time_def zero_time_def second_def)

text \<open>The node is there, its device was never made.\<close>

definition nb_half :: world where "nb_half = nb_world (nb_unit None [] []) [nb_object ''DPUNode'' ''n'']"

lemma nb_half_unit: "units nb_half (''a'', ''d'') = Some (nb_unit None [] [])"
  by (simp add: nb_half_def nb_facts)

theorem device_not_repaired_witness:
  "fst (nb_pass nb_half) = None \<and> objects (snd (nb_pass nb_half)) (''DPUDevice'', (''dpf'', ''d'')) = None"
proof -
  have r: "fst (nb_pass nb_half) = None" by code_simp
  have n: "objects nb_half (node_at ''dpf'' (nb_unit None [] [])) \<noteq> None"
    by (simp add: nb_half_def nb_world_def nb_object_def obj_key_def node_at_def nb_unit_def)
  have d: "objects nb_half (device_at ''dpf'' (nb_unit None [] [])) = None"
    by (simp add: nb_half_def nb_world_def nb_object_def obj_key_def device_at_def nb_unit_def)
  from device_not_repaired [OF nb_backend, OF nb_pass_eq [OF r] nb_half_unit n] r d
  show ?thesis by (simp add: device_at_def nb_unit_def)
qed

definition nb_orphan :: world where
  "nb_orphan = nb_world (nb_unit (Some 1) [nvidiaBackendFinalizer] []) [nb_object ''DPUDevice'' ''d'']"

lemma nb_orphan_unit: "units nb_orphan (''a'', ''d'') = Some (nb_unit (Some 1) [nvidiaBackendFinalizer] [])"
  by (simp add: nb_orphan_def nb_facts)

theorem device_outlives_unit_witness:
  "units (snd (nb_pass nb_orphan)) (''a'', ''d'') = None \<and> objects (snd (nb_pass nb_orphan)) (''DPUDevice'', (''dpf'', ''d'')) \<noteq> None"
proof -
  have r: "fst (nb_pass nb_orphan) = None" by code_simp
  have n: "objects nb_orphan (node_at ''dpf'' (nb_unit (Some 1) [nvidiaBackendFinalizer] [])) = None"
    "objects nb_orphan (''DPUDevice'', (''dpf'', ''d'')) \<noteq> None"
    by (simp_all add: nb_orphan_def nb_world_def nb_object_def obj_key_def node_at_def nb_unit_def)
  have "map_option Finalizers (units (snd (nb_pass nb_orphan)) (''a'', ''d'')) = None" by code_simp
  then show ?thesis
    using device_outlives_unit [OF nb_backend, OF nb_pass_eq [OF r] nb_orphan_unit nb_facts(2,3) n(1)] n(2) by simp
qed

definition nb_fresh :: world where "nb_fresh = nb_world (nb_unit None [] []) []"

lemma nb_fresh_unit: "units nb_fresh (''a'', ''d'') = Some (nb_unit None [] [])"
  by (simp add: nb_fresh_def nb_facts)

theorem objects_need_finalizer_witness:
  "\<exists>d'. units (snd (nb_pass nb_fresh)) (''a'', ''d'') = Some d' \<and> nvidiaBackendFinalizer \<in> set (Finalizers d')"
proof -
  have r: "fst (nb_pass nb_fresh) = None" by code_simp
  have "map_option Kind (objects (snd (nb_pass nb_fresh)) (''DPUDevice'', (''dpf'', ''d''))) = Some ''DPUDevice''" by code_simp
  moreover have "objects nb_fresh = Map.empty" by (simp add: nb_fresh_def nb_world_def)
  ultimately have n: "objects (snd (nb_pass nb_fresh)) \<noteq> objects nb_fresh" by auto
  show ?thesis by (rule objects_need_finalizer [OF nb_backend, OF nb_pass_eq [OF r] nb_fresh_unit nb_facts(2,4) n])
qed

text \<open>A unit that was provisioning, and whose node is ready now.\<close>

definition nb_provisioning :: Condition where
  "nb_provisioning = \<lparr>Type = ''Provisioning'', Status = ''True'', Reason = '''', Message = Text ''''\<rparr>"

definition nb_ready :: world where
  "nb_ready = nb_world (nb_unit None [nvidiaBackendFinalizer] [nb_provisioning])
     [(nb_object ''DPUNode'' ''n'')]"

lemma nb_ready_unit: "units nb_ready (''a'', ''d'') = Some (nb_unit None [nvidiaBackendFinalizer] [nb_provisioning])"
  by (simp add: nb_ready_def nb_facts)

theorem conditions_accumulate_witness:
  "\<exists>d'. units (snd (nb_pass nb_ready)) (''a'', ''d'') = Some d' \<and> claims (Conditions d') ''Provisioning'' \<and> claims (Conditions d') ''Provisioned''"
proof -
  have r: "fst (nb_pass nb_ready) = None" by code_simp
  have c: "case units (snd (nb_pass nb_ready)) (''a'', ''d'') of None \<Rightarrow> False | Some d' \<Rightarrow> claims (Conditions d') ''Provisioned''" by code_simp
  have "claims (Conditions (nb_unit None [nvidiaBackendFinalizer] [nb_provisioning])) ''Provisioning''"
    by (simp add: nb_unit_def claims_def nb_provisioning_def)
  then show ?thesis
    using conditions_accumulate [OF nb_backend, OF nb_pass_eq [OF r] nb_ready_unit nb_facts(2,4)] c by auto
qed

end
