(* ===== verification/ImageBackend.thy ===== *)
theory ImageBackend
  imports ObjectStore
begin

text \<open>
  \<open>vimla-choudhary/feature_skeleton.go\<close>: the adapter controller that turns a \<open>Dpu\<close> into a \<open>BFB\<close> and a
  \<open>DPUSet\<close> of DPF, kept as unstructured objects, and collapses the status of the set into a phase.
\<close>

section \<open>Objects\<close>

record NvidiaConfig =
  BFBVersion :: string
  DOCAProfile :: string
  DPUSetSelector :: "string gomap"

record DpuSpec =
  Vendor :: string
  Nvidia :: NvidiaConfig

record Dpu =
  Name :: string
  Namespace :: string
  ResourceVersion :: string
  DeletionTimestamp :: "time option"
  Finalizers :: "string list"
  Spec :: DpuSpec
  Phase :: string

text \<open>An unstructured object of group \<open>dpu.nvidia.com\<close>, version \<open>v1alpha1\<close>.\<close>

record Object =
  Kind :: string
  o_Name :: string
  o_Namespace :: string
  o_ResourceVersion :: string
  o_DeletionTimestamp :: "time option"
  o_Owners :: "string list"
  Content :: "json gomap"

type_synonym key = "string \<times> string"
type_synonym object_key = "string \<times> key"

definition dpu_key :: "Dpu \<Rightarrow> key" where "dpu_key d = (Namespace d, Name d)"
definition obj_key :: "Object \<Rightarrow> object_key" where "obj_key x = (Kind x, (o_Namespace x, o_Name x))"

definition VendorNVIDIA :: string where "VendorNVIDIA = ''nvidia''"
definition gvkBFB :: string where "gvkBFB = ''BFB''"
definition gvkDPUSet :: string where "gvkDPUSet = ''DPUSet''"
definition PhasePending :: string where "PhasePending = ''Pending''"
definition PhaseProvisioning :: string where "PhaseProvisioning = ''Provisioning''"
definition PhaseReady :: string where "PhaseReady = ''Ready''"
definition PhaseFailed :: string where "PhaseFailed = ''Failed''"
definition ownerFinalizer :: string where "ownerFinalizer = ''nvidia-adapter.opiproject.org/cleanup''"
definition defaultRequeueInterval :: duration where "defaultRequeueInterval = 10 * second"

lemmas dpu_phase_defs = PhasePending_def PhaseProvisioning_def PhaseReady_def PhaseFailed_def

record 'w Client =
  dpus_at :: "(Dpu, key, 'w) Access"
  objects_at :: "(Object, object_key, 'w) Access"

text \<open>
  The setters give the content they leave (the code drops their error); \<open>NestedBool\<close> gives an error when
  the path holds something else, \<open>None\<close> when it holds nothing.\<close>

record machinery =
  IsNotFound :: "go_error \<Rightarrow> bool"
  SetNestedField :: "json gomap \<Rightarrow> string \<Rightarrow> string list \<Rightarrow> json gomap"
  SetNestedStringMap :: "json gomap \<Rightarrow> string gomap \<Rightarrow> string list \<Rightarrow> json gomap"
  NestedBool :: "json gomap \<Rightarrow> string list \<Rightarrow> go_error + bool option"
  SetControllerReference :: "Dpu \<Rightarrow> Object \<Rightarrow> go_error + Object"

record 'w NvidiaAdapterReconciler =
  rec_Client :: "'w Client"
  rec_lib :: machinery

definition is_zero_time :: "time option \<Rightarrow> bool" where
  "is_zero_time t = (case t of None \<Rightarrow> True | Some x \<Rightarrow> x = zero_time)"

section \<open>Translation\<close>

definition containsString :: "string list \<Rightarrow> string \<Rightarrow> bool" where "containsString xs s = (s \<in> set xs)"
definition removeString :: "string list \<Rightarrow> string \<Rightarrow> string list" where "removeString xs s = filter (\<lambda>item. item \<noteq> s) xs"

definition new_object :: "string \<Rightarrow> Dpu \<Rightarrow> string \<Rightarrow> Object" where
  "new_object kd dpu suffix = \<lparr>Kind = kd, o_Name = Name dpu @ suffix, o_Namespace = Namespace dpu, o_ResourceVersion = '''',
     o_DeletionTimestamp = None, o_Owners = [], Content = []\<rparr>"

definition buildBFB :: "machinery \<Rightarrow> Dpu \<Rightarrow> Object" where
  "buildBFB k dpu =
     (let obj = new_object gvkBFB dpu ''-bfb'';
          c1 = SetNestedField k (Content obj) (BFBVersion (Nvidia (Spec dpu))) [''spec'', ''bfbVersion''];
          c2 = SetNestedField k c1 (DOCAProfile (Nvidia (Spec dpu))) [''spec'', ''docaProfile'']
      in obj\<lparr>Content := c2\<rparr>)"

definition buildDPUSet :: "machinery \<Rightarrow> Dpu \<Rightarrow> Object" where
  "buildDPUSet k dpu =
     (let obj = new_object gvkDPUSet dpu ''-dpuset'';
          c1 = (if 0 < length (DPUSetSelector (Nvidia (Spec dpu)))
                then SetNestedStringMap k (Content obj) (DPUSetSelector (Nvidia (Spec dpu))) [''spec'', ''nodeSelector''] else Content obj);
          c2 = SetNestedField k c1 (Name dpu @ ''-bfb'') [''spec'', ''bfbRef'', ''name'']
      in obj\<lparr>Content := c2\<rparr>)"

section \<open>The reconciler\<close>

definition err_of :: "(go_error + 'a) \<times> 'w \<Rightarrow> go_error option \<times> 'w" where
  "err_of z = (case z of (Inl e, w) \<Rightarrow> (Some e, w) | (Inr _, w) \<Rightarrow> (None, w))"

definition applyOwned :: "'w NvidiaAdapterReconciler \<Rightarrow> Dpu \<Rightarrow> Object \<Rightarrow> 'w \<Rightarrow> go_error option \<times> 'w" where
  "applyOwned r dpu obj0 w =
     (case SetControllerReference (rec_lib r) dpu obj0 of
        Inl err \<Rightarrow> (Some (Errorf ''setting owner reference: %w'' [AWrap err]), w)
      | Inr obj \<Rightarrow>
          (case Get (objects_at (rec_Client r)) (obj_key obj) w of
             (Inl err, w1) \<Rightarrow>
               if IsNotFound (rec_lib r) err then err_of (Create (objects_at (rec_Client r)) obj w1) else (Some err, w1)
           | (Inr existing, w1) \<Rightarrow>
               err_of (Update (objects_at (rec_Client r)) (obj\<lparr>o_ResourceVersion := o_ResourceVersion existing\<rparr>) w1)))"

definition set_key :: "Dpu \<Rightarrow> object_key" where "set_key dpu = (gvkDPUSet, (Namespace dpu, Name dpu @ ''-dpuset''))"

definition aggregateStatus :: "'w NvidiaAdapterReconciler \<Rightarrow> Dpu \<Rightarrow> 'w \<Rightarrow> (string \<times> go_error option) \<times> 'w" where
  "aggregateStatus r dpu w =
     (case Get (objects_at (rec_Client r)) (set_key dpu) w of
        (Inl err, w1) \<Rightarrow> (if IsNotFound (rec_lib r) err then (PhasePending, None) else (PhaseFailed, Some err), w1)
      | (Inr dpuSet, w1) \<Rightarrow>
          (case NestedBool (rec_lib r) (Content dpuSet) [''status'', ''ready''] of
             Inl err \<Rightarrow> (PhaseFailed, Some err)
           | Inr None \<Rightarrow> (PhaseProvisioning, None)
           | Inr (Some ready) \<Rightarrow> (if ready then PhaseReady else PhaseProvisioning, None), w1))"

text \<open>The result of a pass: the delay and the error.\<close>

type_synonym 'w pass = "(duration \<times> go_error option) \<times> 'w"

definition reconcileDelete :: "'w NvidiaAdapterReconciler \<Rightarrow> Dpu \<Rightarrow> 'w \<Rightarrow> 'w pass" where
  "reconcileDelete r dpu w =
     (if \<not> containsString (Finalizers dpu) ownerFinalizer then ((0, None), w)
      else case Get (objects_at (rec_Client r)) (set_key dpu) w of
        (Inl err, w1) \<Rightarrow>
          if IsNotFound (rec_lib r) err
          then (case Update (dpus_at (rec_Client r)) (dpu\<lparr>Finalizers := removeString (Finalizers dpu) ownerFinalizer\<rparr>) w1 of
                  (Inl e, w2) \<Rightarrow> ((0, Some (Errorf ''removing finalizer: %w'' [AWrap e])), w2)
                | (Inr _, w2) \<Rightarrow> ((0, None), w2))
          else ((0, Some err), w1)
      | (Inr dpuSet, w1) \<Rightarrow>
          if is_zero_time (o_DeletionTimestamp dpuSet)
          then (case Delete (objects_at (rec_Client r)) dpuSet w1 of
                  (e, w2) \<Rightarrow> (if (case e of None \<Rightarrow> False | Some err \<Rightarrow> \<not> IsNotFound (rec_lib r) err) then (0, e) else (defaultRequeueInterval, None), w2))
          else ((defaultRequeueInterval, None), w1))"

text \<open>The end of a pass: the phase, stored on the unit.\<close>

definition report_phase :: "'w NvidiaAdapterReconciler \<Rightarrow> Dpu \<Rightarrow> 'w \<Rightarrow> 'w pass" where
  "report_phase r dpu w =
     (case aggregateStatus r dpu w of
        ((phase0, err), w1) \<Rightarrow>
          (let phase = (if err \<noteq> None then PhaseFailed else phase0)
           in case StatusUpdate (dpus_at (rec_Client r)) (dpu\<lparr>Phase := phase\<rparr>) w1 of
                (Inl e, w2) \<Rightarrow> ((0, Some (Errorf ''updating Dpu status: %w'' [AWrap e])), w2)
              | (Inr _, w2) \<Rightarrow> ((if phase = PhaseReady \<or> phase = PhaseFailed then 0 else defaultRequeueInterval, None), w2)))"

text \<open>The pass behind the finalizer.\<close>

definition apply_and_report :: "'w NvidiaAdapterReconciler \<Rightarrow> Dpu \<Rightarrow> 'w \<Rightarrow> 'w pass" where
  "apply_and_report r dpu w =
     (case applyOwned r dpu (buildBFB (rec_lib r) dpu) w of
        (Some err, w1) \<Rightarrow> ((0, Some (Errorf ''applying BFB: %w'' [AWrap err])), w1)
      | (None, w1) \<Rightarrow>
          (case applyOwned r dpu (buildDPUSet (rec_lib r) dpu) w1 of
             (Some err, w2) \<Rightarrow> ((0, Some (Errorf ''applying DPUSet: %w'' [AWrap err])), w2)
           | (None, w2) \<Rightarrow> report_phase r dpu w2))"

definition Reconcile :: "'w NvidiaAdapterReconciler \<Rightarrow> key \<Rightarrow> 'w \<Rightarrow> 'w pass" where
  "Reconcile r req w =
     (case Get (dpus_at (rec_Client r)) req w of
        (Inl err, w1) \<Rightarrow>
          ((0, if IsNotFound (rec_lib r) err then None
            else Some (Errorf ''fetching Dpu %s: %w'' [AStr (fst req @ ''/'' @ snd req), AWrap err])), w1)
      | (Inr dpu, w1) \<Rightarrow>
          if Vendor (Spec dpu) \<noteq> VendorNVIDIA then ((0, None), w1)
          else if \<not> is_zero_time (DeletionTimestamp dpu) then reconcileDelete r dpu w1
          else if \<not> containsString (Finalizers dpu) ownerFinalizer
          then (case Update (dpus_at (rec_Client r)) (dpu\<lparr>Finalizers := Finalizers dpu @ [ownerFinalizer]\<rparr>) w1 of
                  (Inl err, w2) \<Rightarrow> ((0, Some (Errorf ''adding finalizer: %w'' [AWrap err])), w2)
                | (Inr dpu1, w2) \<Rightarrow> apply_and_report r dpu1 w2)
          else apply_and_report r dpu w1)"

section \<open>An API server\<close>

definition deleting :: "Dpu \<Rightarrow> bool" where "deleting d = (\<not> is_zero_time (DeletionTimestamp d))"

definition stored_dpu :: "Dpu \<Rightarrow> Dpu option \<Rightarrow> Dpu \<Rightarrow> bool" where
  "stored_dpu x old y = (\<exists>rv ph. y = x\<lparr>ResourceVersion := rv, Phase := ph\<rparr>)"

definition restated_dpu :: "Dpu \<Rightarrow> Dpu \<Rightarrow> Dpu \<Rightarrow> bool" where
  "restated_dpu x old y = (\<exists>rv. y = old\<lparr>ResourceVersion := rv, Phase := Phase x\<rparr>)"

definition spec_of :: "Object \<Rightarrow> json option" where "spec_of x = map_of (Content x) ''spec''"

definition stored_object :: "Object \<Rightarrow> Object option \<Rightarrow> Object \<Rightarrow> bool" where
  "stored_object x old y = (spec_of y = spec_of x)"

definition going :: "Object \<Rightarrow> bool" where "going x = (\<not> is_zero_time (o_DeletionTimestamp x))"

text \<open>Units and objects of DPF are the halves \<open>vd\<close> and \<open>vo\<close> of one server; an owner reference changes neither key nor content.\<close>

locale image_server =
  ds: object_store "dpus_at C" "IsNotFound k" dpu_key vd vo stored_dpu restated_dpu deleting +
  os: object_store "objects_at C" "IsNotFound k" obj_key vo vd stored_object "\<lambda>x old y. True" going
  for C :: "'w Client" and k :: machinery and vd :: "'w \<Rightarrow> key \<Rightarrow> Dpu option" and vo :: "'w \<Rightarrow> object_key \<Rightarrow> Object option" +
  assumes owner: "SetControllerReference k d x = Inr y \<Longrightarrow> obj_key y = obj_key x \<and> Content y = Content x"

definition bfb_key :: "Dpu \<Rightarrow> object_key" where "bfb_key d = (gvkBFB, (Namespace d, Name d @ ''-bfb''))"

lemma image_keys [simp]: "bfb_key d \<noteq> set_key d'" "set_key d \<noteq> bfb_key d'"
  "obj_key (buildBFB k d) = bfb_key d" "obj_key (buildDPUSet k d) = set_key d"
  by (simp_all add: bfb_key_def set_key_def gvkBFB_def gvkDPUSet_def buildBFB_def buildDPUSet_def new_object_def Let_def obj_key_def)

definition image_rec :: "'w Client \<Rightarrow> machinery \<Rightarrow> 'w NvidiaAdapterReconciler" where
  "image_rec C k = \<lparr>rec_Client = C, rec_lib = k\<rparr>"

lemma image_rec_sel [simp]: "rec_Client (image_rec C k) = C" "rec_lib (image_rec C k) = k"
  by (simp_all add: image_rec_def)

lemma aggregate_reads:
  assumes "aggregateStatus (image_rec C k) d w = ((ph, er), w')" and "Get (objects_at C) (set_key d) w = (a, w0)"
  shows "w' = w0 \<and> (er = None \<and> ph = PhaseReady \<longrightarrow> (\<exists>s. a = Inr s \<and> NestedBool k (Content s) [''status'', ''ready''] = Inr (Some True)))"
proof (cases a)
  case (Inl x)
  then show ?thesis using assms by (auto simp: aggregateStatus_def dpu_phase_defs split: if_splits)
next
  case (Inr s)
  show ?thesis
  proof (cases "NestedBool k (Content s) [''status'', ''ready'']")
    case (Inl x)
    then show ?thesis using assms Inr by (auto simp: aggregateStatus_def dpu_phase_defs)
  next
    case b: (Inr z)
    show ?thesis
    proof (cases z)
      case None
      then show ?thesis using assms Inr b by (auto simp: aggregateStatus_def dpu_phase_defs)
    next
      case (Some ready)
      then show ?thesis using assms Inr b by (cases ready) (auto simp: aggregateStatus_def dpu_phase_defs)
    qed
  qed
qed

context image_server begin

lemma apply_step:
  assumes "applyOwned (image_rec C k) d x w = (e, w')"
  shows "vd w' = vd w" "\<forall>p. p \<noteq> obj_key x \<longrightarrow> vo w' p = vo w p"
    "e = None \<Longrightarrow> (\<exists>y. vo w' (obj_key x) = Some y \<and> spec_of y = spec_of x) \<or> vo w' (obj_key x) = None"
proof -
  have "vd w' = vd w \<and> (\<forall>p. p \<noteq> obj_key x \<longrightarrow> vo w' p = vo w p) \<and>
    (e = None \<longrightarrow> (\<exists>y. vo w' (obj_key x) = Some y \<and> spec_of y = spec_of x) \<or> vo w' (obj_key x) = None)"
  proof (cases "SetControllerReference k d x")
    case (Inl y)
    then show ?thesis using assms by (auto simp: applyOwned_def)
  next
    case s: (Inr ob)
    note ob = owner [OF s]
    obtain a w1 where 1: "Get (objects_at C) (obj_key x) w = (a, w1)" by fastforce
    note g = os.get_view [OF 1]
    show ?thesis
    proof (cases a)
      case (Inr z)
      let ?y = "ob\<lparr>o_ResourceVersion := o_ResourceVersion z\<rparr>"
      obtain b w2 where 2: "Update (objects_at C) ?y w1 = (b, w2)" by fastforce
      have y: "obj_key ?y = obj_key x" "spec_of ?y = spec_of x" using ob by (simp_all add: obj_key_def spec_of_def)
      have "w' = w2 \<and> (e = None \<longrightarrow> (\<exists>c. b = Inr c))"
        using assms s 1 Inr 2 ob by (cases b) (auto simp: applyOwned_def err_of_def)
      then show ?thesis using os.update_law [OF 2, unfolded y(1)] g y(2) by (auto simp: stored_object_def split: sum.splits)
    next
      case (Inl z)
      obtain b w2 where 2: "Create (objects_at C) ob w1 = (b, w2)" by fastforce
      have "w' = w1 \<and> e \<noteq> None \<or> w' = w2 \<and> (e = None \<longrightarrow> (\<exists>c. b = Inr c))"
        using assms s 1 Inl 2 ob by (cases b) (auto simp: applyOwned_def err_of_def split: if_splits)
      moreover have "spec_of ob = spec_of x" using ob by (simp add: spec_of_def)
      ultimately show ?thesis using os.create_law [OF 2, unfolded ob [THEN conjunct1]] g
        by (auto simp: stored_object_def split: sum.splits)
    qed
  qed
  then show "vd w' = vd w" "\<forall>p. p \<noteq> obj_key x \<longrightarrow> vo w' p = vo w p"
    "e = None \<Longrightarrow> (\<exists>y. vo w' (obj_key x) = Some y \<and> spec_of y = spec_of x) \<or> vo w' (obj_key x) = None"
    by simp_all
qed

lemma report_step:
  assumes "report_phase (image_rec C k) d w = ((t, e), w')" and "vd w (dpu_key d) = Some d"
  shows "vo w' = vo w" "\<forall>p. p \<noteq> dpu_key d \<longrightarrow> vd w' p = vd w p"
    "\<exists>d'. vd w' (dpu_key d) = Some d' \<and> Finalizers d' = Finalizers d \<and>
      (e = None \<longrightarrow> (t = 0 \<longleftrightarrow> Phase d' \<in> {PhaseReady, PhaseFailed}) \<and> (t \<noteq> 0 \<longrightarrow> t = 10 * second) \<and>
        (Phase d' = PhaseReady \<longrightarrow> (\<exists>s. vo w (set_key d) = Some s \<and> NestedBool k (Content s) [''status'', ''ready''] = Inr (Some True))))"
proof -
  obtain ph er w1 where 1: "aggregateStatus (image_rec C k) d w = ((ph, er), w1)" by (metis prod.collapse)
  obtain a w0 where 0: "Get (objects_at C) (set_key d) w = (a, w0)" by fastforce
  note g = os.get_view [OF 0]
  let ?ph = "if er \<noteq> None then PhaseFailed else ph"
  have w1: "w1 = w0" and ready: "?ph = PhaseReady \<Longrightarrow> \<exists>s. a = Inr s \<and> NestedBool k (Content s) [''status'', ''ready''] = Inr (Some True)"
    using aggregate_reads [OF 1 0] by (auto simp: dpu_phase_defs split: if_splits)
  obtain b w2 where 2: "StatusUpdate (dpus_at C) (d\<lparr>Phase := ?ph\<rparr>) w1 = (b, w2)" by fastforce
  have key: "dpu_key (d\<lparr>Phase := ?ph\<rparr>) = dpu_key d" by (simp add: dpu_key_def)
  note s = ds.status_law [OF 2, unfolded key w1]
  have "vo w' = vo w \<and> (\<forall>p. p \<noteq> dpu_key d \<longrightarrow> vd w' p = vd w p) \<and>
    (\<exists>d'. vd w' (dpu_key d) = Some d' \<and> Finalizers d' = Finalizers d \<and>
      (e = None \<longrightarrow> (t = 0 \<longleftrightarrow> Phase d' \<in> {PhaseReady, PhaseFailed}) \<and> (t \<noteq> 0 \<longrightarrow> t = 10 * second) \<and>
        (Phase d' = PhaseReady \<longrightarrow> (\<exists>s. vo w (set_key d) = Some s \<and> NestedBool k (Content s) [''status'', ''ready''] = Inr (Some True)))))"
  proof (cases b)
    case (Inl x)
    then have "w' = w2 \<and> e \<noteq> None" using assms(1) 1 2 by (auto simp: report_phase_def Let_def)
    then show ?thesis using s g assms(2) Inl by auto
  next
    case (Inr y)
    then have r: "w' = w2" "e = None" "t = (if ?ph = PhaseReady \<or> ?ph = PhaseFailed then 0 else 10 * second)"
      using assms(1) 1 2 by (auto simp: report_phase_def Let_def defaultRequeueInterval_def)
    have "vd w2 = (vd w)(dpu_key d \<mapsto> y)" "vo w2 = vo w" "restated_dpu (d\<lparr>Phase := ?ph\<rparr>) d y"
      using s g assms(2) Inr by auto
    moreover have "\<exists>s. vo w (set_key d) = Some s \<and> NestedBool k (Content s) [''status'', ''ready''] = Inr (Some True)" if "?ph = PhaseReady"
      using ready [OF that] 0 os.get_found [of "set_key d" w _ w0] by blast
    ultimately show ?thesis using r by (auto simp: restated_dpu_def second_def)
  qed
  then show "vo w' = vo w" "\<forall>p. p \<noteq> dpu_key d \<longrightarrow> vd w' p = vd w p"
    "\<exists>d'. vd w' (dpu_key d) = Some d' \<and> Finalizers d' = Finalizers d \<and>
      (e = None \<longrightarrow> (t = 0 \<longleftrightarrow> Phase d' \<in> {PhaseReady, PhaseFailed}) \<and> (t \<noteq> 0 \<longrightarrow> t = 10 * second) \<and>
        (Phase d' = PhaseReady \<longrightarrow> (\<exists>s. vo w (set_key d) = Some s \<and> NestedBool k (Content s) [''status'', ''ready''] = Inr (Some True))))"
    by blast+
qed

end

context image_server begin

text \<open>Everything behind the finalizer, for a unit as it is stored.\<close>

lemma live_step:
  assumes "apply_and_report (image_rec C k) d w = ((t, e), w')" and "vd w (dpu_key d) = Some d"
  shows "\<forall>p. p \<notin> {bfb_key d, set_key d} \<longrightarrow> vo w' p = vo w p" "\<forall>p. p \<noteq> dpu_key d \<longrightarrow> vd w' p = vd w p"
    "\<exists>d'. vd w' (dpu_key d) = Some d' \<and> Finalizers d' = Finalizers d \<and>
      (e = None \<longrightarrow> (t = 0 \<longleftrightarrow> Phase d' \<in> {PhaseReady, PhaseFailed}) \<and> (t \<noteq> 0 \<longrightarrow> t = 10 * second) \<and>
        (Phase d' = PhaseReady \<longrightarrow> (\<exists>s. vo w' (set_key d) = Some s \<and> spec_of s = spec_of (buildDPUSet k d) \<and>
           NestedBool k (Content s) [''status'', ''ready''] = Inr (Some True))))"
proof -
  obtain u w1 where 1: "applyOwned (image_rec C k) d (buildBFB k d) w = (u, w1)" by fastforce
  obtain v w2 where 2: "applyOwned (image_rec C k) d (buildDPUSet k d) w1 = (v, w2)" by fastforce
  note a1 = apply_step [OF 1, unfolded image_keys] and a2 = apply_step [OF 2, unfolded image_keys]
  have k2: "vd w2 (dpu_key d) = Some d" using a1(1) a2(1) assms(2) by simp
  have r: "w' = w1 \<and> e \<noteq> None \<or> w' = w2 \<and> e \<noteq> None \<or> v = None \<and> report_phase (image_rec C k) d w2 = ((t, e), w')"
    using assms(1) 1 2 by (cases u; cases v) (auto simp: apply_and_report_def)
  have "(\<forall>p. p \<notin> {bfb_key d, set_key d} \<longrightarrow> vo w' p = vo w p) \<and> (\<forall>p. p \<noteq> dpu_key d \<longrightarrow> vd w' p = vd w p) \<and>
    (\<exists>d'. vd w' (dpu_key d) = Some d' \<and> Finalizers d' = Finalizers d \<and>
      (e = None \<longrightarrow> (t = 0 \<longleftrightarrow> Phase d' \<in> {PhaseReady, PhaseFailed}) \<and> (t \<noteq> 0 \<longrightarrow> t = 10 * second) \<and>
        (Phase d' = PhaseReady \<longrightarrow> (\<exists>s. vo w' (set_key d) = Some s \<and> spec_of s = spec_of (buildDPUSet k d) \<and>
           NestedBool k (Content s) [''status'', ''ready''] = Inr (Some True)))))"
  proof -
    consider "w' = w1" "e \<noteq> None" | "w' = w2" "e \<noteq> None" | "v = None" "report_phase (image_rec C k) d w2 = ((t, e), w')"
      using r by blast
    then show ?thesis
    proof cases
      case 3
      note p = report_step [OF 3(2) k2]
      have sp: "spec_of s = spec_of (buildDPUSet k d)" if "vo w2 (set_key d) = Some s" for s
        using a2(3) [OF 3(1)] that by auto
      from p(3) obtain d' where d': "vd w' (dpu_key d) = Some d'" "Finalizers d' = Finalizers d"
        "e = None \<longrightarrow> (t = 0 \<longleftrightarrow> Phase d' \<in> {PhaseReady, PhaseFailed}) \<and> (t \<noteq> 0 \<longrightarrow> t = 10 * second) \<and>
          (Phase d' = PhaseReady \<longrightarrow> (\<exists>s. vo w2 (set_key d) = Some s \<and> NestedBool k (Content s) [''status'', ''ready''] = Inr (Some True)))"
        by blast
      have "\<forall>p. p \<notin> {bfb_key d, set_key d} \<longrightarrow> vo w' p = vo w p" using a1(2) a2(2) p(1) by simp
      moreover have "\<forall>p. p \<noteq> dpu_key d \<longrightarrow> vd w' p = vd w p" using a1(1) a2(1) p(2) by simp
      ultimately show ?thesis using d' sp p(1) by metis
    qed (use a1 a2 assms(2) in auto)
  qed
  then show "\<forall>p. p \<notin> {bfb_key d, set_key d} \<longrightarrow> vo w' p = vo w p" "\<forall>p. p \<noteq> dpu_key d \<longrightarrow> vd w' p = vd w p"
    "\<exists>d'. vd w' (dpu_key d) = Some d' \<and> Finalizers d' = Finalizers d \<and>
      (e = None \<longrightarrow> (t = 0 \<longleftrightarrow> Phase d' \<in> {PhaseReady, PhaseFailed}) \<and> (t \<noteq> 0 \<longrightarrow> t = 10 * second) \<and>
        (Phase d' = PhaseReady \<longrightarrow> (\<exists>s. vo w' (set_key d) = Some s \<and> spec_of s = spec_of (buildDPUSet k d) \<and>
           NestedBool k (Content s) [''status'', ''ready''] = Inr (Some True))))"
    by blast+
qed

lemma update_dpu_effect:
  assumes "Update (dpus_at C) x w = (a, w')"
  shows "vo w' = vo w" "\<forall>p. p \<noteq> dpu_key x \<longrightarrow> vd w' p = vd w p"
    "case a of Inl _ \<Rightarrow> vd w' = vd w
     | Inr y \<Rightarrow> stored_dpu x None y \<and> dpu_key y = dpu_key x \<and> (vd w' (dpu_key x) = Some y \<or> vd w' (dpu_key x) = None \<and> deleting y)"
  using ds.update_law [OF assms] ds.write_elsewhere(2) [OF assms] by (auto simp: stored_dpu_def split: sum.splits)

text \<open>The shapes of a pass over a stored unit of this vendor.\<close>

lemma image_split [consumes 3, case_names stopped deleting live]:
  assumes "Reconcile (image_rec C k) q w = ((t, e), w')" and "vd w q = Some d" and "Vendor (Spec d) = VendorNVIDIA"
  obtains "vd w' = vd w" "vo w' = vo w" "e \<noteq> None"
  | w1 where "deleting d" "dpu_key d = q" "vd w1 = vd w" "vo w1 = vo w" "reconcileDelete (image_rec C k) d w1 = ((t, e), w')"
  | d1 w1 where "\<not> deleting d" "dpu_key d1 = q" "Spec d1 = Spec d" "Name d1 = Name d" "Namespace d1 = Namespace d"
      "ownerFinalizer \<in> set (Finalizers d1)" "vd w1 q = Some d1" "vo w1 = vo w"
      "apply_and_report (image_rec C k) d1 w1 = ((t, e), w')"
proof -
  obtain g w1 where 1: "Get (dpus_at C) q w = (g, w1)" by fastforce
  note v = ds.get_view [OF 1]
  show ?thesis
  proof (cases g)
    case (Inl x)
    then have "\<not> IsNotFound k x" using ds.get_missing [of q w x w1] 1 assms(2) by auto
    then have "w' = w1 \<and> e \<noteq> None" using assms(1) 1 Inl by (auto simp: Reconcile_def)
    then show ?thesis using v that(1) by simp
  next
    case (Inr x)
    then have x: "x = d" "dpu_key d = q" using ds.get_found [of q w x w1] 1 assms(2) by simp_all
    show ?thesis
    proof (cases "deleting d")
      case True
      then have "reconcileDelete (image_rec C k) d w1 = ((t, e), w')" using assms(1,3) 1 Inr x by (simp add: Reconcile_def deleting_def)
      then show ?thesis by (rule that(2) [OF True x(2) v])
    next
      case live: False
      show ?thesis
      proof (cases "ownerFinalizer \<in> set (Finalizers d)")
        case True
        then have "apply_and_report (image_rec C k) d w1 = ((t, e), w')"
          using assms(1,3) 1 Inr x live by (simp add: Reconcile_def deleting_def containsString_def)
        then show ?thesis using that(3) [OF live x(2) refl refl refl True, of w1] v assms(2) by simp
      next
        case False
        let ?d = "d\<lparr>Finalizers := Finalizers d @ [ownerFinalizer]\<rparr>"
        obtain u w2 where 2: "Update (dpus_at C) ?d w1 = (u, w2)" by fastforce
        have key: "dpu_key ?d = q" using x(2) by (simp add: dpu_key_def)
        note law = update_dpu_effect [OF 2, unfolded key]
        show ?thesis
        proof (cases u)
          case (Inl y)
          then have "w' = w2 \<and> e \<noteq> None" using assms(1,3) 1 Inr x live False 2
            by (auto simp: Reconcile_def deleting_def containsString_def)
          then show ?thesis using that(1) law Inl v by simp
        next
          case u: (Inr y)
          have y: "stored_dpu ?d None y" "dpu_key y = q" using law u by auto
          then have "\<not> deleting y" using live by (auto simp: stored_dpu_def deleting_def)
          then have "vd w2 q = Some y" "vo w2 = vo w1" using law u by auto
          moreover have "apply_and_report (image_rec C k) y w2 = ((t, e), w')"
            using assms(1,3) 1 Inr x live False 2 u by (simp add: Reconcile_def deleting_def containsString_def)
          moreover have "Spec y = Spec d" "Name y = Name d" "Namespace y = Namespace d" "ownerFinalizer \<in> set (Finalizers y)"
            using y(1) by (auto simp: stored_dpu_def)
          ultimately show ?thesis using that(3) [OF live y(2), of w2] v by simp
        qed
      qed
    qed
  qed
qed

lemma delete_step:
  assumes "reconcileDelete (image_rec C k) d w = ((t, e), w')" and "vd w (dpu_key d) = Some d"
  shows "\<forall>p. p \<noteq> set_key d \<longrightarrow> vo w' p = vo w p"
    "vd w' = vd w \<or> vo w (set_key d) = None \<and> vo w' = vo w"
proof -
  obtain a w1 where 1: "Get (objects_at C) (set_key d) w = (a, w1)" by fastforce
  note g = os.get_view [OF 1]
  have "(\<forall>p. p \<noteq> set_key d \<longrightarrow> vo w' p = vo w p) \<and> (vd w' = vd w \<or> vo w (set_key d) = None \<and> vo w' = vo w)"
  proof (cases "ownerFinalizer \<in> set (Finalizers d)")
    case False
    then show ?thesis using assms(1) by (simp add: reconcileDelete_def containsString_def)
  next
    case f: True
    show ?thesis
    proof (cases a)
      case (Inr s)
      then have s: "obj_key s = set_key d" using os.get_found [of "set_key d" w s w1] 1 by simp
      obtain b w2 where 2: "Delete (objects_at C) s w1 = (b, w2)" by fastforce
      have "w' = w1 \<or> w' = w2" using assms(1) f 1 Inr 2 by (auto simp: reconcileDelete_def containsString_def split: if_splits)
      then show ?thesis using g os.write_rest(3) [OF 2] os.write_elsewhere(3) [OF 2, unfolded s] by auto
    next
      case (Inl x)
      show ?thesis
      proof (cases "IsNotFound k x")
        case False
        then show ?thesis using assms(1) f 1 Inl g by (simp add: reconcileDelete_def containsString_def)
      next
        case True
        then have none: "vo w (set_key d) = None" using os.get_missing [of "set_key d" w x w1] 1 Inl by simp
        let ?d = "d\<lparr>Finalizers := removeString (Finalizers d) ownerFinalizer\<rparr>"
        obtain b w2 where 2: "Update (dpus_at C) ?d w1 = (b, w2)" by fastforce
        have "w' = w2" using assms(1) f 1 Inl True 2 by (cases b) (simp_all add: reconcileDelete_def containsString_def)
        then show ?thesis using none g update_dpu_effect(1) [OF 2] by simp
      qed
    qed
  qed
  then show "\<forall>p. p \<noteq> set_key d \<longrightarrow> vo w' p = vo w p" "vd w' = vd w \<or> vo w (set_key d) = None \<and> vo w' = vo w" by blast+
qed

end

section \<open>What a pass promises\<close>

text \<open>
  C34.  The finalizer waits for the teardown: a pass after which the unit is gone or without the finalizer
  changed no object, and it found the unit being deleted and no set of it on the server.\<close>

theorem finalizer_waits_for_teardown:
  assumes "image_server C k vd vo" and "Reconcile (image_rec C k) q w = ((t, e), w')" and "vd w q = Some d"
    and "Vendor (Spec d) = VendorNVIDIA" and "ownerFinalizer \<in> set (Finalizers d)"
    and "\<forall>d'. vd w' q = Some d' \<longrightarrow> ownerFinalizer \<notin> set (Finalizers d')"
  shows "deleting d \<and> vo w (set_key d) = None \<and> vo w' = vo w"
  using assms(1,2,3,4)
proof (cases rule: image_server.image_split [consumes 4, case_names stopped deleting live])
  case stopped
  then show ?thesis using assms(3,5,6) by simp
next
  case (deleting w1)
  have "vd w1 (dpu_key d) = Some d" using deleting(2,3) assms(3) by simp
  from image_server.delete_step(2) [OF assms(1) deleting(5) this] show ?thesis
    using deleting(1,3,4) assms(3,5,6) by auto
next
  case (live d1 w1)
  have "vd w1 (dpu_key d1) = Some d1" using live(2,7) by simp
  from image_server.live_step(3) [OF assms(1) live(9) this] show ?thesis using live(2,6) assms(6) by auto
qed

text \<open>
  A pass over a unit that is not being deleted, when it returns no error, comes back after ten seconds
  exactly when the stored phase is neither Ready nor Failed; Ready is stored only while the set on the
  server has the specification built from the unit and reports that it is ready.  Failed is final: it is
  stored when the status could not be read, and nothing brings the pass back.\<close>

theorem phase_drives_requeue:
  assumes "image_server C k vd vo" and "Reconcile (image_rec C k) q w = ((t, None), w')" and "vd w q = Some d"
    and "Vendor (Spec d) = VendorNVIDIA" and "\<not> deleting d"
  shows "\<exists>d'. vd w' q = Some d' \<and> (t = (if Phase d' \<in> {PhaseReady, PhaseFailed} then 0 else 10 * second)) \<and>
    (Phase d' = PhaseReady \<longrightarrow> (\<exists>s. vo w' (set_key d) = Some s \<and> spec_of s = spec_of (buildDPUSet k d) \<and>
       NestedBool k (Content s) [''status'', ''ready''] = Inr (Some True)))"
  using assms(1,2,3,4)
proof (cases rule: image_server.image_split [consumes 4, case_names stopped deleting live])
  case stopped
  then show ?thesis by simp
next
  case (deleting w1)
  then show ?thesis using assms(5) by simp
next
  case (live d1 w1)
  have "vd w1 (dpu_key d1) = Some d1" using live(2,7) by simp
  note l = image_server.live_step(3) [OF assms(1) live(9) this]
  have "set_key d1 = set_key d" "spec_of (buildDPUSet k d1) = spec_of (buildDPUSet k d)"
    using live(3,4,5) by (simp_all add: set_key_def buildDPUSet_def new_object_def spec_of_def Let_def cong: if_cong)
  then show ?thesis using l live(2) by auto
qed

text \<open>
  A deletion pass touches no object but the set: the image object is left to the garbage collector.\<close>

theorem deletion_keeps_image:
  assumes "image_server C k vd vo" and "Reconcile (image_rec C k) q w = ((t, e), w')" and "vd w q = Some d"
    and "Vendor (Spec d) = VendorNVIDIA" and "deleting d"
  shows "\<forall>p. p \<noteq> set_key d \<longrightarrow> vo w' p = vo w p"
  using assms(1,2,3,4)
proof (cases rule: image_server.image_split [consumes 4, case_names stopped deleting live])
  case stopped
  then show ?thesis by simp
next
  case (deleting w1)
  have "vd w1 (dpu_key d) = Some d" using deleting(2,3) assms(3) by simp
  from image_server.delete_step(1) [OF assms(1) deleting(5) this] show ?thesis using deleting(4) by simp
next
  case (live d1 w1)
  then show ?thesis using assms(5) by simp
qed

section \<open>A server in memory\<close>

record world =
  dpus :: "key \<Rightarrow> Dpu option"
  objects :: "object_key \<Rightarrow> Object option"

definition im_client :: "world Client" where
  "im_client =
     \<lparr>dpus_at = mem_access dpu_key dpus (\<lambda>f w. w\<lparr>dpus := f\<rparr>)
        (\<lambda>x old. case old of None \<Rightarrow> x | Some ob \<Rightarrow> x\<lparr>ResourceVersion := CHR ''1'' # ResourceVersion ob, Phase := Phase ob\<rparr>)
        (\<lambda>x old. old\<lparr>ResourceVersion := CHR ''1'' # ResourceVersion old, Phase := Phase x\<rparr>)
        (\<lambda>d. deleting d \<and> Finalizers d = []) (\<lambda>d. Finalizers d = []) (\<lambda>d. d\<lparr>DeletionTimestamp := Some 1\<rparr>),
      objects_at = mem_access obj_key objects (\<lambda>f w. w\<lparr>objects := f\<rparr>)
        (\<lambda>x old. case old of None \<Rightarrow> x
           | Some ob \<Rightarrow> x\<lparr>Content := AList.update ''status'' (case map_of (Content ob) ''status'' of None \<Rightarrow> JNull | Some j \<Rightarrow> j) (Content x)\<rparr>)
        (\<lambda>x old. old) going (\<lambda>x. True) (\<lambda>x. x\<lparr>o_DeletionTimestamp := Some 1\<rparr>)\<rparr>"

text \<open>Nested fields one level below their parent, which is all that the objects here hold.\<close>

definition im_set :: "json gomap \<Rightarrow> json \<Rightarrow> string list \<Rightarrow> json gomap" where
  "im_set m v ks = (case ks of
       [a, b] \<Rightarrow> AList.update a (JObject (AList.update b v (case map_of m a of Some (JObject x) \<Rightarrow> x | _ \<Rightarrow> []))) m
     | a # _ \<Rightarrow> AList.update a v m
     | [] \<Rightarrow> m)"

definition im_lib :: machinery where
  "im_lib = \<lparr>IsNotFound = (\<lambda>e. e = mem_missing), SetNestedField = (\<lambda>m v ks. im_set m (JString v) ks),
     SetNestedStringMap = (\<lambda>m v ks. im_set m (JObject (map (\<lambda>(a, b). (a, JString b)) v)) ks),
     NestedBool = (\<lambda>m ks. case map_of m (hd ks) of
          Some (JObject x) \<Rightarrow> (case map_of x (last ks) of None \<Rightarrow> Inr None | Some (JBool b) \<Rightarrow> Inr (Some b) | _ \<Rightarrow> Inl (External ''type''))
        | _ \<Rightarrow> Inr None),
     SetControllerReference = (\<lambda>d x. if o_Owners x = [] then Inr (x\<lparr>o_Owners := [Name d]\<rparr>) else Inl (External ''owned''))\<rparr>"

lemma stored_dpu_refl: "stored_dpu x old x"
  by (cases x) (auto simp: stored_dpu_def)

lemma im_image_server: "image_server im_client im_lib dpus objects"
proof -
  have u: "object_store (dpus_at im_client) (IsNotFound im_lib) dpu_key dpus objects stored_dpu restated_dpu deleting"
    unfolding im_client_def im_lib_def Client.simps machinery.simps
    by (rule mem_store)
      (auto simp: stored_dpu_refl restated_dpu_def dpu_key_def deleting_def is_zero_time_def zero_time_def second_def
        stored_dpu_def [of _ "Some y" for y] split: option.splits)
  have ob: "object_store (objects_at im_client) (IsNotFound im_lib) obj_key objects dpus stored_object (\<lambda>x old y. True) going"
    unfolding im_client_def im_lib_def Client.simps machinery.simps
    by (rule mem_store)
      (auto simp: stored_object_def spec_of_def obj_key_def going_def is_zero_time_def zero_time_def second_def split: option.splits)
  show ?thesis
    by (intro image_server.intro u ob image_server_axioms.intro) (auto simp: im_lib_def obj_key_def split: if_splits)
qed

interpretation im: image_server im_client im_lib dpus objects
  by (rule im_image_server)

definition im_dpu :: "time option \<Rightarrow> string list \<Rightarrow> Dpu" where
  "im_dpu dt fs = \<lparr>Name = ''d'', Namespace = ''a'', ResourceVersion = '''', DeletionTimestamp = dt, Finalizers = fs,
     Spec = \<lparr>Vendor = VendorNVIDIA, Nvidia = \<lparr>BFBVersion = ''2.9'', DOCAProfile = ''p'', DPUSetSelector = []\<rparr>\<rparr>, Phase = ''''\<rparr>"

definition im_object :: "string \<Rightarrow> string \<Rightarrow> Object" where
  "im_object kd name = \<lparr>Kind = kd, o_Name = name, o_Namespace = ''a'', o_ResourceVersion = ''1'', o_DeletionTimestamp = None,
     o_Owners = [], Content = [(''status'', JObject [(''ready'', JBool True)])]\<rparr>"

definition im_world :: "Dpu \<Rightarrow> Object list \<Rightarrow> world" where
  "im_world d xs = \<lparr>dpus = [(''a'', ''d'') \<mapsto> d], objects = map_of (map (\<lambda>x. (obj_key x, x)) xs)\<rparr>"

definition im_pass :: "world \<Rightarrow> world pass" where "im_pass w = Reconcile (image_rec im_client im_lib) (''a'', ''d'') w"

lemma im_pass_eq: "fst (im_pass w) = (t, e) \<Longrightarrow> Reconcile (image_rec im_client im_lib) (''a'', ''d'') w = ((t, e), snd (im_pass w))"
  by (cases "im_pass w") (simp add: im_pass_def)

lemma im_facts:
  "dpus (im_world d xs) (''a'', ''d'') = Some d" "Vendor (Spec (im_dpu dt fs)) = VendorNVIDIA" "Finalizers (im_dpu dt fs) = fs"
  "deleting (im_dpu (Some 1) fs)" "\<not> deleting (im_dpu None fs)"
  by (simp_all add: im_world_def im_dpu_def deleting_def is_zero_time_def zero_time_def second_def)

text \<open>The set is gone, the image object is not.\<close>

definition im_torn :: world where "im_torn = im_world (im_dpu (Some 1) [ownerFinalizer]) [im_object ''BFB'' ''d-bfb'']"

lemma im_torn_dpu: "dpus im_torn (''a'', ''d'') = Some (im_dpu (Some 1) [ownerFinalizer])"
  by (simp add: im_torn_def im_facts)

theorem finalizer_waits_for_teardown_witness:
  "dpus (snd (im_pass im_torn)) (''a'', ''d'') = None \<and> objects (snd (im_pass im_torn)) = objects im_torn"
proof -
  have r: "fst (im_pass im_torn) = (0, None)" by code_simp
  have "map_option Finalizers (dpus (snd (im_pass im_torn)) (''a'', ''d'')) = None" by code_simp
  then have g: "dpus (snd (im_pass im_torn)) (''a'', ''d'') = None" by simp
  then have n: "\<forall>d'. dpus (snd (im_pass im_torn)) (''a'', ''d'') = Some d' \<longrightarrow> ownerFinalizer \<notin> set (Finalizers d')" by simp
  have f: "ownerFinalizer \<in> set (Finalizers (im_dpu (Some 1) [ownerFinalizer]))" by (simp add: im_facts)
  from finalizer_waits_for_teardown [OF im_image_server, OF im_pass_eq [OF r] im_torn_dpu im_facts(2) f n] g
  show ?thesis by simp
qed

theorem deletion_keeps_image_witness:
  "objects (snd (im_pass im_torn)) (''BFB'', (''a'', ''d-bfb'')) = Some (im_object ''BFB'' ''d-bfb'')"
proof -
  have r: "fst (im_pass im_torn) = (0, None)" by code_simp
  have "objects im_torn (''BFB'', (''a'', ''d-bfb'')) = Some (im_object ''BFB'' ''d-bfb'')"
    by (simp add: im_torn_def im_world_def im_object_def obj_key_def)
  moreover have "(''BFB'', (''a'', ''d-bfb'')) \<noteq> set_key (im_dpu (Some 1) [ownerFinalizer])" by (simp add: set_key_def gvkDPUSet_def)
  ultimately show ?thesis
    using deletion_keeps_image [OF im_image_server, OF im_pass_eq [OF r] im_torn_dpu im_facts(2,4)] by simp
qed

definition im_up :: world where "im_up = im_world (im_dpu None []) [im_object ''DPUSet'' ''d-dpuset'']"

lemma im_up_dpu: "dpus im_up (''a'', ''d'') = Some (im_dpu None [])"
  by (simp add: im_up_def im_facts)

theorem phase_drives_requeue_witness:
  "fst (im_pass im_up) = (0, None) \<and> (\<exists>d'. dpus (snd (im_pass im_up)) (''a'', ''d'') = Some d' \<and> Phase d' = PhaseReady \<and>
     (\<exists>s. objects (snd (im_pass im_up)) (''DPUSet'', (''a'', ''d-dpuset'')) = Some s \<and> spec_of s = spec_of (buildDPUSet im_lib (im_dpu None []))))"
proof -
  have r: "fst (im_pass im_up) = (0, None)" by code_simp
  have p: "map_option Phase (dpus (snd (im_pass im_up)) (''a'', ''d'')) = Some PhaseReady" by code_simp
  have "set_key (im_dpu None []) = (''DPUSet'', (''a'', ''d-dpuset''))" by (simp add: set_key_def gvkDPUSet_def im_dpu_def)
  then show ?thesis
    using phase_drives_requeue [OF im_image_server, OF im_pass_eq [OF r] im_up_dpu im_facts(2,5)] p r by auto
qed

end
