(* ===== verification/LeanVsp.thy ===== *)
theory LeanVsp
  imports ObjectStore
begin

text \<open>
  \<open>vicky-sharma/feature_skeleton.go\<close>: the provisioner of DPF, the node plugin that waits for it, and the
  translator of service function chains, over the file's own small client interface.
\<close>

section \<open>Objects\<close>

type_synonym NamespacedName = "string \<times> string"

record Result =
  Requeue :: bool
  RequeueAfterSeconds :: "64 word"

record InitRequest =
  DpuMode :: bool
  DpuIdentifier :: string

record Device =
  ID :: string
  Health :: string

record NetworkFunction =
  nf_Name :: string
  Image :: string

record ServiceFunctionChain =
  sfc_Name :: string
  sfc_NodeSelector :: "string gomap"
  NetworkFunctions :: "NetworkFunction list"

record DPFOperatorConfig =
  cfg_Name :: string
  cfg_Ready :: bool

record DPUSet =
  set_Name :: string
  BFB :: string
  DPUFlavor :: string
  set_NodeSelector :: "string gomap"

record DPUServiceChain =
  ch_Name :: string
  Ports :: "string list"

record DPUServiceInterface =
  if_Name :: string

text \<open>
  The client at the types it is used with.  An object carries a name only, so a created one lives under the
  empty namespace; a read of a chain is asked for by the name of the request.\<close>

record 'w Client =
  configs_at :: "(DPFOperatorConfig, NamespacedName, 'w) Access"
  sets_at :: "(DPUSet, NamespacedName, 'w) Access"
  chains_at :: "(DPUServiceChain, NamespacedName, 'w) Access"
  interfaces_at :: "(DPUServiceInterface, NamespacedName, 'w) Access"
  get_sfc :: "NamespacedName \<Rightarrow> 'w \<Rightarrow> (go_error + ServiceFunctionChain) \<times> 'w"

definition ErrDPFNotReady :: go_error where "ErrDPFNotReady = Sentinel ''nvidiavsp: DPF provisioning not ready yet''"

definition err_of :: "(go_error + 'a) \<times> 'w \<Rightarrow> go_error option \<times> 'w" where
  "err_of z = (case z of (Inl e, w) \<Rightarrow> (Some e, w) | (Inr _, w) \<Rightarrow> (None, w))"

section \<open>The provisioner\<close>

record 'w DPFProvisioner =
  pr_Client :: "'w Client"
  BFBURL :: string
  FlavorName :: string
  pr_NodeSelector :: "string gomap"

definition operator_config :: DPFOperatorConfig where "operator_config = \<lparr>cfg_Name = ''dpfoperatorconfig'', cfg_Ready = False\<rparr>"

definition managed_set :: "'w DPFProvisioner \<Rightarrow> DPUSet" where
  "managed_set p = \<lparr>set_Name = ''opi-managed-dpuset'', BFB = BFBURL p, DPUFlavor = FlavorName p, set_NodeSelector = pr_NodeSelector p\<rparr>"

definition EnsureDPF :: "'w DPFProvisioner \<Rightarrow> 'w \<Rightarrow> go_error option \<times> 'w" where
  "EnsureDPF p w =
     (case Create (configs_at (pr_Client p)) operator_config w of
        (Inl err, w1) \<Rightarrow> (Some (Errorf ''ensure DPFOperatorConfig: %w'' [AWrap err]), w1)
      | (Inr _, w1) \<Rightarrow>
          (case Create (sets_at (pr_Client p)) (managed_set p) w1 of
             (Inl err, w2) \<Rightarrow> (Some (Errorf ''ensure DPUSet: %w'' [AWrap err]), w2)
           | (Inr _, w2) \<Rightarrow> (None, w2)))"

definition Ready :: "'w DPFProvisioner \<Rightarrow> 'w \<Rightarrow> (go_error + bool) \<times> 'w" where
  "Ready p w =
     (case Get (configs_at (pr_Client p)) ('''', cfg_Name operator_config) w of
        (Inl err, w1) \<Rightarrow> (Inl (Errorf ''read DPFOperatorConfig Ready condition: %w'' [AWrap err]), w1)
      | (Inr cfg, w1) \<Rightarrow> (Inr (cfg_Ready cfg), w1))"

section \<open>The plugin\<close>

record 'w NVIDIAVSP =
  vsp_Client :: "'w Client"
  Provisioner :: "'w DPFProvisioner"
  dpuMode :: bool

definition Start :: "'w NVIDIAVSP \<Rightarrow> 'w \<Rightarrow> (go_error + string \<times> 32 word) \<times> 'w" where
  "Start v w =
     (case Ready (Provisioner v) w of
        (Inl err, w1) \<Rightarrow> (Inl err, w1)
      | (Inr ready, w1) \<Rightarrow> (if \<not> ready then Inl ErrDPFNotReady else Inr (''127.0.0.1'', 50051), w1))"

definition Close :: "'w NVIDIAVSP \<Rightarrow> 'w \<Rightarrow> 'w" where "Close v w = w"

definition GetDevices :: "'w NVIDIAVSP \<Rightarrow> go_error + Device gomap" where "GetDevices v = Inr []"

definition SetNumVfs :: "'w NVIDIAVSP \<Rightarrow> 32 word \<Rightarrow> go_error + 32 word" where "SetNumVfs v vfCount = Inr vfCount"

definition interface_name :: "string \<Rightarrow> string \<Rightarrow> string" where
  "interface_name bridgeID input = ''nf-'' @ bridgeID @ ''-'' @ input"

definition CreateNetworkFunction :: "'w NVIDIAVSP \<Rightarrow> string \<Rightarrow> string \<Rightarrow> string \<Rightarrow> 'w \<Rightarrow> go_error option \<times> 'w" where
  "CreateNetworkFunction v input outp bridgeID w =
     err_of (Create (interfaces_at (vsp_Client v)) \<lparr>if_Name = interface_name bridgeID input\<rparr> w)"

definition DeleteNetworkFunction :: "'w NVIDIAVSP \<Rightarrow> string \<Rightarrow> string \<Rightarrow> string \<Rightarrow> 'w \<Rightarrow> go_error option \<times> 'w" where
  "DeleteNetworkFunction v input outp bridgeID w = (None, w)"

definition SetDpuNetworkConfig :: "bool \<Rightarrow> 'w NVIDIAVSP \<Rightarrow> go_error option \<times> 'w NVIDIAVSP" where
  "SetDpuNetworkConfig isAccelerated v = (None, v\<lparr>dpuMode := isAccelerated\<rparr>)"

section \<open>The translator\<close>

definition TranslateSFC :: "ServiceFunctionChain \<Rightarrow> DPUServiceChain" where
  "TranslateSFC sfc = \<lparr>ch_Name = sfc_Name sfc, Ports = map nf_Name (NetworkFunctions sfc)\<rparr>"

definition no_result :: Result where "no_result = \<lparr>Requeue = False, RequeueAfterSeconds = 0\<rparr>"

definition Reconcile :: "'w Client \<Rightarrow> NamespacedName \<Rightarrow> 'w \<Rightarrow> (Result \<times> go_error option) \<times> 'w" where
  "Reconcile c req w =
     (case get_sfc c req w of
        (Inl err, w1) \<Rightarrow> ((no_result, Some (Errorf ''get ServiceFunctionChain %s: %w'' [AStr (snd req), AWrap err])), w1)
      | (Inr sfc, w1) \<Rightarrow>
          (let chain = TranslateSFC sfc
           in case Create (chains_at c) chain w1 of
                (Inl err, w2) \<Rightarrow> ((no_result, Some (Errorf ''apply DPUServiceChain %s: %w'' [AStr (ch_Name chain), AWrap err])), w2)
              | (Inr _, w2) \<Rightarrow> ((no_result, None), w2)))"

section \<open>An API server\<close>

text \<open>
  Configurations, sets, chains and interfaces are parts of one server; a read of a service function chain
  changes nothing and gives one of the name it was asked for.\<close>

locale lean_server =
  cs: object_store "configs_at C" missing "\<lambda>x. ('''', cfg_Name x)" vc "\<lambda>w. (vs w, vh w, vi w)" "\<lambda>x old y. True" "\<lambda>x old y. True" "\<lambda>y. True" +
  ss: object_store "sets_at C" missing "\<lambda>x. ('''', set_Name x)" vs "\<lambda>w. (vc w, vh w, vi w)" "\<lambda>x old y. y = x" "\<lambda>x old y. True" "\<lambda>y. True" +
  hs: object_store "chains_at C" missing "\<lambda>x. ('''', ch_Name x)" vh "\<lambda>w. (vc w, vs w, vi w)" "\<lambda>x old y. y = x" "\<lambda>x old y. True" "\<lambda>y. True" +
  fs: object_store "interfaces_at C" missing "\<lambda>x. ('''', if_Name x)" vi "\<lambda>w. (vc w, vs w, vh w)" "\<lambda>x old y. y = x" "\<lambda>x old y. True" "\<lambda>y. True"
  for C :: "'w Client" and missing :: "go_error \<Rightarrow> bool"
    and vc :: "'w \<Rightarrow> NamespacedName \<Rightarrow> DPFOperatorConfig option" and vs :: "'w \<Rightarrow> NamespacedName \<Rightarrow> DPUSet option"
    and vh :: "'w \<Rightarrow> NamespacedName \<Rightarrow> DPUServiceChain option" and vi :: "'w \<Rightarrow> NamespacedName \<Rightarrow> DPUServiceInterface option" +
  assumes sfc_law: "get_sfc C q w = (a, w') \<Longrightarrow> vc w' = vc w \<and> vs w' = vs w \<and> vh w' = vh w \<and> vi w' = vi w \<and>
      (\<forall>s. a = Inr s \<longrightarrow> sfc_Name s = snd q)"
begin

lemma ensured:
  assumes "EnsureDPF p w = (e, w')" and "pr_Client p = C"
  shows "vc w ('''', ''dpfoperatorconfig'') \<noteq> None \<Longrightarrow> e \<noteq> None \<and> vc w' = vc w \<and> vs w' = vs w"
    "e = None \<Longrightarrow> vc w' ('''', ''dpfoperatorconfig'') \<noteq> None \<and> vs w' ('''', ''opi-managed-dpuset'') = Some (managed_set p)"
proof -
  obtain a w1 where 1: "Create (configs_at C) operator_config w = (a, w1)" by fastforce
  obtain b w2 where 2: "Create (sets_at C) (managed_set p) w1 = (b, w2)" by fastforce
  have key: "('''', cfg_Name operator_config) = ('''', ''dpfoperatorconfig'')" "('''', set_Name (managed_set p)) = ('''', ''opi-managed-dpuset'')"
    by (simp_all add: operator_config_def managed_set_def)
  note c1 = cs.create_law [OF 1, unfolded key] and c2 = ss.create_law [OF 2, unfolded key]
  have r: "(\<exists>x. a = Inl x) \<and> e \<noteq> None \<and> w' = w1 \<or> (\<exists>y. a = Inr y) \<and> w' = w2 \<and> (e = None \<longrightarrow> (\<exists>z. b = Inr z))"
    using assms 1 2 by (cases a; cases b) (auto simp: EnsureDPF_def)
  show "vc w ('''', ''dpfoperatorconfig'') \<noteq> None \<Longrightarrow> e \<noteq> None \<and> vc w' = vc w \<and> vs w' = vs w"
    using r c1 by auto
  show "e = None \<Longrightarrow> vc w' ('''', ''dpfoperatorconfig'') \<noteq> None \<and> vs w' ('''', ''opi-managed-dpuset'') = Some (managed_set p)"
    using r c1 c2 by auto
qed

lemma chain_taken:
  assumes "Reconcile C q w = ((t, e), w')" and "vh w ('''', snd q) \<noteq> None"
  shows "e \<noteq> None \<and> vh w' = vh w"
proof -
  obtain a w1 where 1: "get_sfc C q w = (a, w1)" by fastforce
  note g = sfc_law [OF 1]
  show ?thesis
  proof (cases a)
    case (Inl x)
    then show ?thesis using assms(1) 1 g by (auto simp: Reconcile_def)
  next
    case (Inr s)
    obtain b w2 where 2: "Create (chains_at C) (TranslateSFC s) w1 = (b, w2)" by fastforce
    have "vh w1 ('''', ch_Name (TranslateSFC s)) \<noteq> None" using assms(2) g Inr by (simp add: TranslateSFC_def)
    from hs.create_taken [OF this 2] show ?thesis using assms(1) 1 Inr 2 g by (auto simp: Reconcile_def Let_def)
  qed
qed

lemma chain_made:
  assumes "Reconcile C q w = ((t, None), w')"
  shows "\<exists>s. fst (get_sfc C q w) = Inr s \<and> vh w' ('''', snd q) = Some (TranslateSFC s)"
proof -
  obtain a w1 where 1: "get_sfc C q w = (a, w1)" by fastforce
  note g = sfc_law [OF 1]
  obtain s where s: "a = Inr s" using assms 1 by (cases a) (auto simp: Reconcile_def)
  obtain b w2 where 2: "Create (chains_at C) (TranslateSFC s) w1 = (b, w2)" by fastforce
  obtain y where y: "b = Inr y" "w' = w2" using assms 1 s 2 by (cases b) (auto simp: Reconcile_def Let_def)
  show ?thesis using hs.create_law [OF 2] y g 1 s by (auto simp: TranslateSFC_def)
qed

lemma start_gate:
  assumes "Start v w = (r, w')" and "pr_Client (Provisioner v) = C"
  shows "vc w' = vc w" "r = Inr z \<Longrightarrow> z = (''127.0.0.1'', 50051) \<and> (\<exists>c. vc w ('''', ''dpfoperatorconfig'') = Some c \<and> cfg_Ready c)"
    "r = Inl ErrDPFNotReady \<Longrightarrow> \<exists>c. vc w ('''', ''dpfoperatorconfig'') = Some c \<and> \<not> cfg_Ready c"
proof -
  obtain a w1 where 1: "Get (configs_at C) ('''', ''dpfoperatorconfig'') w = (a, w1)" by fastforce
  have key: "cfg_Name operator_config = ''dpfoperatorconfig''" by (simp add: operator_config_def)
  have "w' = w1 \<and> (case a of Inl e \<Rightarrow> r = Inl (Errorf ''read DPFOperatorConfig Ready condition: %w'' [AWrap e])
      | Inr c \<Rightarrow> r = (if cfg_Ready c then Inr (''127.0.0.1'', 50051) else Inl ErrDPFNotReady))"
    using assms 1 by (cases a) (auto simp: Start_def Ready_def key)
  then show "vc w' = vc w" "r = Inr z \<Longrightarrow> z = (''127.0.0.1'', 50051) \<and> (\<exists>c. vc w ('''', ''dpfoperatorconfig'') = Some c \<and> cfg_Ready c)"
    "r = Inl ErrDPFNotReady \<Longrightarrow> \<exists>c. vc w ('''', ''dpfoperatorconfig'') = Some c \<and> \<not> cfg_Ready c"
    using cs.get_law [OF 1] by (auto simp: ErrDPFNotReady_def split: sum.splits if_splits)
qed

lemma function_taken:
  assumes "CreateNetworkFunction v input outp bridgeID w = (None, w1)" and "vsp_Client v = C"
    and "DeleteNetworkFunction v input outp bridgeID w1 = (d, w2)" and "CreateNetworkFunction v input outp2 bridgeID w2 = (e, w3)"
  shows "e \<noteq> None"
proof -
  let ?x = "\<lparr>if_Name = interface_name bridgeID input\<rparr>"
  obtain a where 1: "Create (interfaces_at C) ?x w = (Inr a, w1)"
    using assms(1,2) by (auto simp: CreateNetworkFunction_def err_of_def split: sum.splits prod.splits)
  have "vi w1 ('''', if_Name ?x) \<noteq> None" using fs.create_done [OF 1] by simp
  moreover have "w2 = w1" using assms(3) by (simp add: DeleteNetworkFunction_def)
  ultimately show ?thesis using assms(2,4) fs.create_taken [of w1 ?x]
    by (cases "Create (interfaces_at C) ?x w1") (auto simp: CreateNetworkFunction_def err_of_def)
qed

end

section \<open>What the calls promise\<close>

text \<open>
  Ensuring DPF is not idempotent: once it has succeeded, every further call returns an error, and the set
  keeps the image and the flavor it was first made with, whatever the provisioner asks for by now.\<close>

theorem ensure_not_idempotent:
  assumes "lean_server C missing vc vs vh vi" and "EnsureDPF p w = (None, w1)" and "pr_Client p = C"
    and "EnsureDPF p2 w1 = (e, w2)" and "pr_Client p2 = C"
  shows "e \<noteq> None \<and> vs w2 ('''', ''opi-managed-dpuset'') = Some (managed_set p)"
  using lean_server.ensured(2) [OF assms(1-3) refl] lean_server.ensured(1) [OF assms(1,4,5)] by simp

text \<open>
  A chain is written once: a pass that succeeded leaves the translation of the chain it read, and as long
  as that object is there every pass returns an error and leaves all chains as they are.\<close>

theorem chain_written_once:
  assumes "lean_server C missing vc vs vh vi" and "Reconcile C q w = ((t, None), w1)" and "Reconcile C q w1 = ((t2, e), w2)"
  shows "\<exists>s. fst (get_sfc C q w) = Inr s \<and> vh w1 ('''', snd q) = Some (TranslateSFC s) \<and> e \<noteq> None \<and> vh w2 = vh w1"
proof -
  from lean_server.chain_made [OF assms(1,2)] obtain s where
    s: "fst (get_sfc C q w) = Inr s" "vh w1 ('''', snd q) = Some (TranslateSFC s)" by blast
  then have "vh w1 ('''', snd q) \<noteq> None" by simp
  from lean_server.chain_taken [OF assms(1,3) this] s show ?thesis by blast
qed

text \<open>
  The plugin starts exactly when DPF is ready: an endpoint is handed out only when the stored configuration
  is ready, and the not-ready error only when it is stored and not ready.\<close>

theorem start_waits_for_dpf:
  assumes "lean_server C missing vc vs vh vi" and "Start v w = (r, w')" and "pr_Client (Provisioner v) = C"
  shows "(\<forall>z. r = Inr z \<longrightarrow> z = (''127.0.0.1'', 50051) \<and> (\<exists>c. vc w ('''', ''dpfoperatorconfig'') = Some c \<and> cfg_Ready c)) \<and>
    (r = Inl ErrDPFNotReady \<longrightarrow> (\<exists>c. vc w ('''', ''dpfoperatorconfig'') = Some c \<and> \<not> cfg_Ready c))"
  using lean_server.start_gate [OF assms] by blast

text \<open>
  A network function that was deleted cannot be made again: its deletion leaves the interface object, so
  the next creation under the same bridge and input is refused.\<close>

theorem function_not_recreated:
  assumes "lean_server C missing vc vs vh vi" and "CreateNetworkFunction v input outp bridgeID w = (None, w1)" and "vsp_Client v = C"
    and "DeleteNetworkFunction v input outp bridgeID w1 = (d, w2)" and "CreateNetworkFunction v input outp2 bridgeID w2 = (e, w3)"
  shows "e \<noteq> None"
  by (rule lean_server.function_taken [OF assms])

text \<open>
  Interface names join bridge and input with a dash, so different pairs share a name as soon as one of them
  holds a dash; and the output is no part of the name at all.\<close>

theorem interface_names_collide: "interface_name (a @ ''-'' @ b) c = interface_name a (b @ ''-'' @ c)"
  by (simp add: interface_name_def)

section \<open>A server in memory\<close>

record world =
  configs :: "NamespacedName \<Rightarrow> DPFOperatorConfig option"
  sets :: "NamespacedName \<Rightarrow> DPUSet option"
  chains :: "NamespacedName \<Rightarrow> DPUServiceChain option"
  interfaces :: "NamespacedName \<Rightarrow> DPUServiceInterface option"

definition lean_chain :: ServiceFunctionChain where
  "lean_chain = \<lparr>sfc_Name = ''s'', sfc_NodeSelector = [], NetworkFunctions = [\<lparr>nf_Name = ''fw'', Image = ''i''\<rparr>, \<lparr>nf_Name = ''lb'', Image = ''j''\<rparr>]\<rparr>"

definition lean_client :: "world Client" where
  "lean_client =
     \<lparr>configs_at = mem_access (\<lambda>x. ('''', cfg_Name x)) configs (\<lambda>f w. w\<lparr>configs := f\<rparr>) (\<lambda>x old. x) (\<lambda>x old. old) (\<lambda>x. False) (\<lambda>x. True) (\<lambda>x. x),
      sets_at = mem_access (\<lambda>x. ('''', set_Name x)) sets (\<lambda>f w. w\<lparr>sets := f\<rparr>) (\<lambda>x old. x) (\<lambda>x old. old) (\<lambda>x. False) (\<lambda>x. True) (\<lambda>x. x),
      chains_at = mem_access (\<lambda>x. ('''', ch_Name x)) chains (\<lambda>f w. w\<lparr>chains := f\<rparr>) (\<lambda>x old. x) (\<lambda>x old. old) (\<lambda>x. False) (\<lambda>x. True) (\<lambda>x. x),
      interfaces_at = mem_access (\<lambda>x. ('''', if_Name x)) interfaces (\<lambda>f w. w\<lparr>interfaces := f\<rparr>) (\<lambda>x old. x) (\<lambda>x old. old) (\<lambda>x. False) (\<lambda>x. True) (\<lambda>x. x),
      get_sfc = (\<lambda>q w. (if snd q = ''s'' then Inr lean_chain else Inl mem_missing, w))\<rparr>"

lemma lean_mem: "lean_server lean_client (\<lambda>e. e = mem_missing) configs sets chains interfaces"
proof -
  have "object_store (configs_at lean_client) (\<lambda>e. e = mem_missing) (\<lambda>x. ('''', cfg_Name x)) configs (\<lambda>w. (sets w, chains w, interfaces w))
      (\<lambda>x old y. True) (\<lambda>x old y. True) (\<lambda>y. True)"
    "object_store (sets_at lean_client) (\<lambda>e. e = mem_missing) (\<lambda>x. ('''', set_Name x)) sets (\<lambda>w. (configs w, chains w, interfaces w))
      (\<lambda>x old y. y = x) (\<lambda>x old y. True) (\<lambda>y. True)"
    "object_store (chains_at lean_client) (\<lambda>e. e = mem_missing) (\<lambda>x. ('''', ch_Name x)) chains (\<lambda>w. (configs w, sets w, interfaces w))
      (\<lambda>x old y. y = x) (\<lambda>x old y. True) (\<lambda>y. True)"
    "object_store (interfaces_at lean_client) (\<lambda>e. e = mem_missing) (\<lambda>x. ('''', if_Name x)) interfaces (\<lambda>w. (configs w, sets w, chains w))
      (\<lambda>x old y. y = x) (\<lambda>x old y. True) (\<lambda>y. True)"
    unfolding lean_client_def Client.simps by (rule mem_store; simp)+
  then show ?thesis
    by (intro lean_server.intro lean_server_axioms.intro) (auto simp: lean_client_def lean_chain_def split: if_splits)
qed

interpretation lean: lean_server lean_client "\<lambda>e. e = mem_missing" configs sets chains interfaces
  by (rule lean_mem)

definition lean_empty :: world where
  "lean_empty = \<lparr>configs = Map.empty, sets = Map.empty, chains = Map.empty, interfaces = Map.empty\<rparr>"

definition lean_prov :: "string \<Rightarrow> world DPFProvisioner" where
  "lean_prov url = \<lparr>pr_Client = lean_client, BFBURL = url, FlavorName = ''f'', pr_NodeSelector = []\<rparr>"

definition lean_vsp :: "world NVIDIAVSP" where "lean_vsp = \<lparr>vsp_Client = lean_client, Provisioner = lean_prov ''u'', dpuMode = False\<rparr>"

theorem ensure_not_idempotent_witness:
  "fst (EnsureDPF (lean_prov ''u2'') (snd (EnsureDPF (lean_prov ''u'') lean_empty))) \<noteq> None \<and>
   sets (snd (EnsureDPF (lean_prov ''u2'') (snd (EnsureDPF (lean_prov ''u'') lean_empty)))) ('''', ''opi-managed-dpuset'')
     = Some (managed_set (lean_prov ''u''))"
proof -
  have r: "fst (EnsureDPF (lean_prov ''u'') lean_empty) = None" by code_simp
  then have e: "EnsureDPF (lean_prov ''u'') lean_empty = (None, snd (EnsureDPF (lean_prov ''u'') lean_empty))" by (metis prod.collapse)
  have c: "pr_Client (lean_prov x) = lean_client" for x by (simp add: lean_prov_def)
  show ?thesis by (rule ensure_not_idempotent [OF lean_mem, OF e c prod.collapse [symmetric] c])
qed

definition lean_pass :: "world \<Rightarrow> (Result \<times> go_error option) \<times> world" where "lean_pass w = Reconcile lean_client ('''', ''s'') w"

theorem chain_written_once_witness:
  "chains (snd (lean_pass (snd (lean_pass lean_empty)))) ('''', ''s'') = Some \<lparr>ch_Name = ''s'', Ports = [''fw'', ''lb'']\<rparr> \<and>
   snd (fst (lean_pass (snd (lean_pass lean_empty)))) \<noteq> None"
proof -
  have r: "fst (lean_pass lean_empty) = (no_result, None)" by code_simp
  have e: "Reconcile lean_client ('''', ''s'') lean_empty = ((no_result, None), snd (lean_pass lean_empty))"
    using r by (metis lean_pass_def prod.collapse)
  have e2: "Reconcile lean_client ('''', ''s'') (snd (lean_pass lean_empty)) =
      ((fst (fst (lean_pass (snd (lean_pass lean_empty)))), snd (fst (lean_pass (snd (lean_pass lean_empty))))), snd (lean_pass (snd (lean_pass lean_empty))))"
    by (simp add: lean_pass_def)
  from chain_written_once [OF lean_mem, OF e e2] obtain s where
    s: "fst (get_sfc lean_client ('''', ''s'') lean_empty) = Inr s" "chains (snd (lean_pass lean_empty)) ('''', ''s'') = Some (TranslateSFC s)"
      "snd (fst (lean_pass (snd (lean_pass lean_empty)))) \<noteq> None"
      "chains (snd (lean_pass (snd (lean_pass lean_empty)))) = chains (snd (lean_pass lean_empty))" by auto
  then show ?thesis by (auto simp: lean_client_def lean_chain_def TranslateSFC_def)
qed

definition lean_ready :: world where
  "lean_ready = lean_empty\<lparr>configs := [('''', ''dpfoperatorconfig'') \<mapsto> \<lparr>cfg_Name = ''dpfoperatorconfig'', cfg_Ready = True\<rparr>]\<rparr>"

theorem start_waits_for_dpf_witness:
  "fst (Start lean_vsp lean_ready) = Inr (''127.0.0.1'', 50051) \<and> (\<exists>c. configs lean_ready ('''', ''dpfoperatorconfig'') = Some c \<and> cfg_Ready c)"
proof -
  have r: "fst (Start lean_vsp lean_ready) = Inr (''127.0.0.1'', 50051)" by code_simp
  have c: "pr_Client (Provisioner lean_vsp) = lean_client" by (simp add: lean_vsp_def lean_prov_def)
  from start_waits_for_dpf [OF lean_mem, OF prod.collapse [symmetric] c, of lean_ready] r show ?thesis by auto
qed

theorem function_not_recreated_witness:
  "fst (CreateNetworkFunction lean_vsp ''i'' ''p'' ''b'' (snd (CreateNetworkFunction lean_vsp ''i'' ''o'' ''b'' lean_empty))) \<noteq> None"
proof -
  have r: "fst (CreateNetworkFunction lean_vsp ''i'' ''o'' ''b'' lean_empty) = None" by code_simp
  then have e: "CreateNetworkFunction lean_vsp ''i'' ''o'' ''b'' lean_empty = (None, snd (CreateNetworkFunction lean_vsp ''i'' ''o'' ''b'' lean_empty))"
    by (metis prod.collapse)
  have c: "vsp_Client lean_vsp = lean_client" by (simp add: lean_vsp_def)
  have d: "DeleteNetworkFunction lean_vsp ''i'' ''o'' ''b'' w = (None, w)" for w by (simp add: DeleteNetworkFunction_def)
  show ?thesis by (rule function_not_recreated [OF lean_mem, OF e c d prod.collapse [symmetric]])
qed

end
