(* ===== verification/BandwidthAdapter.thy ===== *)
theory BandwidthAdapter
  imports ObjectStore
begin

text \<open>
  \<open>Vinay_Kumar/feature_skeleton.go\<close>: an OPI resource becomes one \<open>DPUService\<close> of DPF, patched when it
  drifts, and the hardware state becomes the phase.  VLANs and rates keep their machine width.
\<close>

section \<open>Objects\<close>

record OpiResourceSpec =
  Vendor :: string
  MacAddress :: string
  VlanId :: "32 word"
  Endpoint :: string
  BandwidthLimitGbps :: "64 word"

record OpiResource =
  Name :: string
  Namespace :: string
  ResourceVersion :: string
  Spec :: OpiResourceSpec
  Phase :: string

record DPUServiceSpec =
  ServiceType :: string
  Image :: string
  NodeSelector :: "string gomap"
  Vlan :: "32 word"
  Interfaces :: "string list"
  MaxBandwidthBytes :: "64 word"

record DPUService =
  svc_Name :: string
  svc_Namespace :: string
  Owners :: "string list"
  Labels :: "string gomap"
  svc_Spec :: DPUServiceSpec
  HardwareState :: string

type_synonym key = "string \<times> string"

definition opi_key :: "OpiResource \<Rightarrow> key" where "opi_key x = (Namespace x, Name x)"
definition svc_key :: "DPUService \<Rightarrow> key" where "svc_key x = (svc_Namespace x, svc_Name x)"

record 'w Client =
  resources_at :: "(OpiResource, key, 'w) Access"
  services_at :: "(DPUService, key, 'w) Access"

record machinery =
  IsNotFound :: "go_error \<Rightarrow> bool"
  SetControllerReference :: "OpiResource \<Rightarrow> DPUService \<Rightarrow> go_error + DPUService"

record 'w OpiNvidiaAdapterReconciler =
  rec_Client :: "'w Client"
  rec_lib :: machinery

section \<open>Translation\<close>

definition mapOffloadKindToServiceType :: "OpiResource \<Rightarrow> string" where
  "mapOffloadKindToServiceType opi = (if MacAddress (Spec opi) \<noteq> '''' then ''OVS'' else ''HBN'')"

definition bytes_per_second :: "64 word \<Rightarrow> 64 word" where "bytes_per_second gbps = gbps * 125000000"

definition translateOpiToDpf :: "OpiResource \<Rightarrow> DPUService" where
  "translateOpiToDpf opi =
     \<lparr>svc_Name = Name opi @ ''-dpf-backend'', svc_Namespace = Namespace opi, Owners = [],
      Labels = [(''managed-by'', ''opi-nvidia-adapter'')],
      svc_Spec = \<lparr>ServiceType = mapOffloadKindToServiceType opi, Image = ''nvcr.io/nvidia/doca/ovs:latest'',
        NodeSelector = [(''kubernetes.io/hostname'', Endpoint (Spec opi))], Vlan = VlanId (Spec opi),
        Interfaces = [MacAddress (Spec opi)], MaxBandwidthBytes = bytes_per_second (BandwidthLimitGbps (Spec opi))\<rparr>,
      HardwareState = ''''\<rparr>"

text \<open>\<open>reflect.DeepEqual\<close> of two specifications: maps are compared by their entries.\<close>

definition same_map :: "string gomap \<Rightarrow> string gomap \<Rightarrow> bool" where
  "same_map a b = list_all (\<lambda>x. map_of a x = map_of b x) (map fst a @ map fst b)"

definition DeepEqual :: "DPUServiceSpec \<Rightarrow> DPUServiceSpec \<Rightarrow> bool" where
  "DeepEqual a b = (ServiceType a = ServiceType b \<and> Image a = Image b \<and> same_map (NodeSelector a) (NodeSelector b) \<and>
     Vlan a = Vlan b \<and> Interfaces a = Interfaces b \<and> MaxBandwidthBytes a = MaxBandwidthBytes b)"

section \<open>The reconciler\<close>

definition phase_of :: "string \<Rightarrow> string" where
  "phase_of hw = (if hw = ''Provisioned'' then ''Ready'' else if hw = ''Failed'' then ''Error'' else ''Pending'')"

definition syncStatus :: "'w OpiNvidiaAdapterReconciler \<Rightarrow> OpiResource \<Rightarrow> DPUService \<Rightarrow> 'w \<Rightarrow> go_error option \<times> 'w" where
  "syncStatus r opi dpf w =
     (let newPhase = phase_of (HardwareState dpf)
      in if Phase opi \<noteq> newPhase
         then (case StatusUpdate (resources_at (rec_Client r)) (opi\<lparr>Phase := newPhase\<rparr>) w of
                 (Inl err, w1) \<Rightarrow> (Some err, w1) | (Inr _, w1) \<Rightarrow> (None, w1))
         else (None, w))"

text \<open>The zero value that the lookup leaves in place when it finds nothing.\<close>

definition no_service :: DPUService where
  "no_service = \<lparr>svc_Name = '''', svc_Namespace = '''', Owners = [], Labels = [],
     svc_Spec = \<lparr>ServiceType = '''', Image = '''', NodeSelector = [], Vlan = 0, Interfaces = [], MaxBandwidthBytes = 0\<rparr>, HardwareState = ''''\<rparr>"

text \<open>Step 4: the service on the server, and what the pass holds of it then.\<close>

definition apply_service :: "'w OpiNvidiaAdapterReconciler \<Rightarrow> DPUService \<Rightarrow> 'w \<Rightarrow> (go_error + DPUService) \<times> 'w" where
  "apply_service r desired w =
     (case Get (services_at (rec_Client r)) (svc_key desired) w of
        (Inl err, w1) \<Rightarrow>
          if IsNotFound (rec_lib r) err
          then (case Create (services_at (rec_Client r)) desired w1 of
                  (Inl e, w2) \<Rightarrow> (Inl e, w2) | (Inr _, w2) \<Rightarrow> (Inr no_service, w2))
          else (Inl err, w1)
      | (Inr existing, w1) \<Rightarrow>
          if \<not> DeepEqual (svc_Spec existing) (svc_Spec desired)
          then Update (services_at (rec_Client r)) (existing\<lparr>svc_Spec := svc_Spec desired\<rparr>) w1
          else (Inr existing, w1))"

definition Reconcile :: "'w OpiNvidiaAdapterReconciler \<Rightarrow> key \<Rightarrow> 'w \<Rightarrow> go_error option \<times> 'w" where
  "Reconcile r req w =
     (case Get (resources_at (rec_Client r)) req w of
        (Inl err, w1) \<Rightarrow> (if IsNotFound (rec_lib r) err then None else Some err, w1)
      | (Inr opiIntent, w1) \<Rightarrow>
          if Vendor (Spec opiIntent) \<noteq> ''nvidia'' then (None, w1)
          else (case SetControllerReference (rec_lib r) opiIntent (translateOpiToDpf opiIntent) of
                  Inl err \<Rightarrow> (Some err, w1)
                | Inr desired \<Rightarrow>
                    (case apply_service r desired w1 of
                       (Inl err, w2) \<Rightarrow> (Some err, w2)
                     | (Inr existing, w2) \<Rightarrow> syncStatus r opiIntent existing w2)))"

section \<open>Rates\<close>

text \<open>
  C37.  The rate in bytes per second is the exact product precisely when the limit is at most 73786976294 Gbps in
  either direction; beyond that the 64-bit product wraps around.\<close>

theorem bandwidth_exact_iff: "sint (bytes_per_second g) = sint g * 125000000 \<longleftrightarrow> \<bar>sint g\<bar> \<le> 73786976294"
proof -
  have s: "sint (bytes_per_second g) = signed_take_bit 63 (sint g * 125000000)"
    by (simp add: bytes_per_second_def sint_word_ariths)
  have "signed_take_bit 63 (sint g * 125000000) = sint g * 125000000 \<longleftrightarrow> - (2 ^ 63) \<le> sint g * 125000000 \<and> sint g * 125000000 < 2 ^ 63"
    by (metis signed_take_bit_int_eq_self signed_take_bit_int_greater_eq_minus_exp signed_take_bit_int_less_exp)
  then show ?thesis using s by (auto simp: abs_le_iff)
qed

section \<open>An API server\<close>

definition stored_service :: "DPUService \<Rightarrow> DPUService option \<Rightarrow> DPUService \<Rightarrow> bool" where
  "stored_service x old y = (svc_Spec y = svc_Spec x \<and> (case old of None \<Rightarrow> True | Some ob \<Rightarrow> HardwareState y = HardwareState ob))"

definition restated_resource :: "OpiResource \<Rightarrow> OpiResource \<Rightarrow> OpiResource \<Rightarrow> bool" where
  "restated_resource x old y = (\<exists>rv. y = old\<lparr>ResourceVersion := rv, Phase := Phase x\<rparr>)"

locale bandwidth_server =
  rs: object_store "resources_at C" "IsNotFound k" opi_key vr vs "\<lambda>x old y. True" restated_resource "\<lambda>x. True" +
  ss: object_store "services_at C" "IsNotFound k" svc_key vs vr stored_service "\<lambda>x old y. True" "\<lambda>x. False"
  for C :: "'w Client" and k :: machinery and vr :: "'w \<Rightarrow> key \<Rightarrow> OpiResource option" and vs :: "'w \<Rightarrow> key \<Rightarrow> DPUService option" +
  assumes owner: "SetControllerReference k o1 x = Inr y \<Longrightarrow> svc_key y = svc_key x \<and> svc_Spec y = svc_Spec x"

definition bw_rec :: "'w Client \<Rightarrow> machinery \<Rightarrow> 'w OpiNvidiaAdapterReconciler" where "bw_rec C k = \<lparr>rec_Client = C, rec_lib = k\<rparr>"

lemma bw_rec_sel [simp]: "rec_Client (bw_rec C k) = C" "rec_lib (bw_rec C k) = k"
  by (simp_all add: bw_rec_def)

definition service_at :: "key \<Rightarrow> key" where "service_at q = (fst q, snd q @ ''-dpf-backend'')"

lemma same_map_refl [simp]: "same_map a a"
  by (simp add: same_map_def list_all_iff)

lemma DeepEqual_refl [simp]: "DeepEqual a a"
  by (simp add: DeepEqual_def)

text \<open>A resource that differs in its phase and version only asks for the same service.\<close>

lemma translate_same:
  "Spec y = Spec x \<Longrightarrow> Name y = Name x \<Longrightarrow> Namespace y = Namespace x \<Longrightarrow> translateOpiToDpf y = translateOpiToDpf x"
  by (simp add: translateOpiToDpf_def mapOffloadKindToServiceType_def)

context bandwidth_server begin

lemma apply_step:
  assumes "apply_service (bw_rec C k) d w = (a, w')"
  shows "vr w' = vr w" "\<forall>p. p \<noteq> svc_key d \<longrightarrow> vs w' p = vs w p"
    "vs w (svc_key d) = Some x \<Longrightarrow> DeepEqual (svc_Spec x) (svc_Spec d) \<Longrightarrow> vs w' = vs w"
    "a = Inr e \<Longrightarrow> \<exists>x. vs w' (svc_key d) = Some x \<and> DeepEqual (svc_Spec x) (svc_Spec d) \<and>
      (vs w (svc_key d) = None \<and> e = no_service \<or> vs w (svc_key d) \<noteq> None \<and> e = x)"
proof -
  obtain g w1 where 1: "Get (services_at C) (svc_key d) w = (g, w1)" by fastforce
  note v = ss.get_view [OF 1]
  have "vr w' = vr w \<and> (\<forall>p. p \<noteq> svc_key d \<longrightarrow> vs w' p = vs w p) \<and>
    (\<forall>x. vs w (svc_key d) = Some x \<longrightarrow> DeepEqual (svc_Spec x) (svc_Spec d) \<longrightarrow> vs w' = vs w) \<and>
    (\<forall>e. a = Inr e \<longrightarrow> (\<exists>x. vs w' (svc_key d) = Some x \<and> DeepEqual (svc_Spec x) (svc_Spec d) \<and>
      (vs w (svc_key d) = None \<and> e = no_service \<or> vs w (svc_key d) \<noteq> None \<and> e = x)))"
  proof (cases g)
    case (Inl x)
    show ?thesis
    proof (cases "IsNotFound k x")
      case False
      then show ?thesis using assms 1 Inl v by (auto simp: apply_service_def)
    next
      case True
      then have none: "vs w (svc_key d) = None" using ss.get_missing [of "svc_key d" w x w1] 1 Inl by simp
      obtain b w2 where 2: "Create (services_at C) d w1 = (b, w2)" by fastforce
      have "w' = w2 \<and> (\<forall>e. a = Inr e \<longrightarrow> e = no_service \<and> (\<exists>y. b = Inr y))"
        using assms 1 Inl True 2 by (cases b) (auto simp: apply_service_def)
      then show ?thesis using ss.create_law [OF 2] v none by (auto simp: stored_service_def split: sum.splits)
    qed
  next
    case (Inr x)
    then have x: "vs w (svc_key d) = Some x" "svc_key x = svc_key d" using ss.get_found [of "svc_key d" w x w1] 1 by simp_all
    show ?thesis
    proof (cases "DeepEqual (svc_Spec x) (svc_Spec d)")
      case True
      then have "w' = w1 \<and> a = Inr x" using assms 1 Inr by (auto simp: apply_service_def)
      then show ?thesis using v x True by simp
    next
      case False
      let ?x = "x\<lparr>svc_Spec := svc_Spec d\<rparr>"
      have u: "Update (services_at C) ?x w1 = (a, w')" using assms 1 Inr False by (simp add: apply_service_def)
      have key: "svc_key ?x = svc_key d" using x(2) by (simp add: svc_key_def)
      show ?thesis using ss.update_law [OF u, unfolded key] v x(1) False by (auto simp: stored_service_def split: sum.splits)
    qed
  qed
  then show "vr w' = vr w" "\<forall>p. p \<noteq> svc_key d \<longrightarrow> vs w' p = vs w p"
    "vs w (svc_key d) = Some x \<Longrightarrow> DeepEqual (svc_Spec x) (svc_Spec d) \<Longrightarrow> vs w' = vs w"
    "a = Inr e \<Longrightarrow> \<exists>x. vs w' (svc_key d) = Some x \<and> DeepEqual (svc_Spec x) (svc_Spec d) \<and>
      (vs w (svc_key d) = None \<and> e = no_service \<or> vs w (svc_key d) \<noteq> None \<and> e = x)"
    by blast+
qed

lemma status_step:
  assumes "syncStatus (bw_rec C k) x s w = (e, w')" and "vr w (opi_key x) = Some x"
  shows "vs w' = vs w" "\<exists>y rv. vr w' (opi_key x) = Some y \<and> (y = x \<or> y = x\<lparr>ResourceVersion := rv, Phase := phase_of (HardwareState s)\<rparr>) \<and>
      (e = None \<longrightarrow> Phase y = phase_of (HardwareState s))"
proof -
  let ?x = "x\<lparr>Phase := phase_of (HardwareState s)\<rparr>"
  obtain a w1 where 1: "StatusUpdate (resources_at C) ?x w = (a, w1)" by fastforce
  have key: "opi_key ?x = opi_key x" by (simp add: opi_key_def)
  note l = rs.status_law [OF 1, unfolded key]
  have "vs w' = vs w \<and> (\<exists>y rv. vr w' (opi_key x) = Some y \<and> (y = x \<or> y = x\<lparr>ResourceVersion := rv, Phase := phase_of (HardwareState s)\<rparr>) \<and>
      (e = None \<longrightarrow> Phase y = phase_of (HardwareState s)))"
  proof (cases "Phase x = phase_of (HardwareState s)")
    case True
    then show ?thesis using assms by (auto simp: syncStatus_def)
  next
    case False
    show ?thesis
    proof (cases a)
      case (Inl z)
      then have "w' = w1 \<and> e \<noteq> None" using assms(1) False 1 by (auto simp: syncStatus_def Let_def)
      then show ?thesis using l Inl assms(2) by auto
    next
      case (Inr y)
      then have "w' = w1 \<and> e = None" using assms(1) False 1 by (auto simp: syncStatus_def Let_def)
      then show ?thesis using l Inr assms(2) by (auto simp: restated_resource_def)
    qed
  qed
  then show "vs w' = vs w" "\<exists>y rv. vr w' (opi_key x) = Some y \<and> (y = x \<or> y = x\<lparr>ResourceVersion := rv, Phase := phase_of (HardwareState s)\<rparr>) \<and>
      (e = None \<longrightarrow> Phase y = phase_of (HardwareState s))"
    by blast+
qed

lemma bandwidth_pass:
  assumes "Reconcile (bw_rec C k) q w = (e, w')" and "vr w q = Some x" and "Vendor (Spec x) = ''nvidia''"
  shows "\<forall>p. p \<noteq> service_at q \<longrightarrow> vs w' p = vs w p"
    "vs w (service_at q) = Some s \<Longrightarrow> DeepEqual (svc_Spec s) (svc_Spec (translateOpiToDpf x)) \<Longrightarrow> vs w' = vs w"
    "e = None \<Longrightarrow> \<exists>s y. vs w' (service_at q) = Some s \<and> DeepEqual (svc_Spec s) (svc_Spec (translateOpiToDpf x)) \<and>
      vr w' q = Some y \<and> Spec y = Spec x \<and> Name y = Name x \<and> Namespace y = Namespace x \<and>
      Phase y = (if vs w (service_at q) = None then ''Pending'' else phase_of (HardwareState s))"
proof -
  obtain g w1 where 1: "Get (resources_at C) q w = (g, w1)" by fastforce
  note v = rs.get_view [OF 1]
  have "(\<forall>p. p \<noteq> service_at q \<longrightarrow> vs w' p = vs w p) \<and>
    (\<forall>s. vs w (service_at q) = Some s \<longrightarrow> DeepEqual (svc_Spec s) (svc_Spec (translateOpiToDpf x)) \<longrightarrow> vs w' = vs w) \<and>
    (e = None \<longrightarrow> (\<exists>s y. vs w' (service_at q) = Some s \<and> DeepEqual (svc_Spec s) (svc_Spec (translateOpiToDpf x)) \<and>
      vr w' q = Some y \<and> Spec y = Spec x \<and> Name y = Name x \<and> Namespace y = Namespace x \<and>
      Phase y = (if vs w (service_at q) = None then ''Pending'' else phase_of (HardwareState s))))"
  proof (cases g)
    case (Inl z)
    then have "\<not> IsNotFound k z" using rs.get_missing [of q w z w1] 1 assms(2) by auto
    then show ?thesis using assms(1) 1 Inl v by (auto simp: Reconcile_def)
  next
    case (Inr z)
    then have z: "z = x" "opi_key x = q" using rs.get_found [of q w z w1] 1 assms(2) by simp_all
    show ?thesis
    proof (cases "SetControllerReference k x (translateOpiToDpf x)")
      case (Inl y)
      then show ?thesis using assms(1,3) 1 Inr z v by (auto simp: Reconcile_def)
    next
      case d: (Inr d)
      have key: "svc_key d = service_at q" "svc_Spec d = svc_Spec (translateOpiToDpf x)"
        using owner [OF d] z(2) by (auto simp: translateOpiToDpf_def svc_key_def service_at_def opi_key_def)
      obtain a w2 where 2: "apply_service (bw_rec C k) d w1 = (a, w2)" by fastforce
      note p = apply_step [OF 2, unfolded key]
      show ?thesis
      proof (cases a)
        case (Inl y)
        then have "w' = w2 \<and> e \<noteq> None" using assms(1,3) 1 Inr z d 2 by (auto simp: Reconcile_def)
        then show ?thesis using p v by auto
      next
        case a: (Inr ex)
        have s: "syncStatus (bw_rec C k) x ex w2 = (e, w')" using assms(1,3) 1 Inr z d 2 a by (simp add: Reconcile_def)
        have x2: "vr w2 (opi_key x) = Some x" using p(1) v assms(2) z(2) by simp
        note st = status_step [OF s x2]
        from st(2) z(2) obtain y where y: "vr w' q = Some y" "Spec y = Spec x" "Name y = Name x" "Namespace y = Namespace x"
          "e = None \<longrightarrow> Phase y = phase_of (HardwareState ex)" by auto
        have "phase_of (HardwareState no_service) = ''Pending''" by (simp add: phase_of_def no_service_def)
        then show ?thesis using p v a st(1) y by auto
      qed
    qed
  qed
  then show "\<forall>p. p \<noteq> service_at q \<longrightarrow> vs w' p = vs w p"
    "vs w (service_at q) = Some s \<Longrightarrow> DeepEqual (svc_Spec s) (svc_Spec (translateOpiToDpf x)) \<Longrightarrow> vs w' = vs w"
    "e = None \<Longrightarrow> \<exists>s y. vs w' (service_at q) = Some s \<and> DeepEqual (svc_Spec s) (svc_Spec (translateOpiToDpf x)) \<and>
      vr w' q = Some y \<and> Spec y = Spec x \<and> Name y = Name x \<and> Namespace y = Namespace x \<and>
      Phase y = (if vs w (service_at q) = None then ''Pending'' else phase_of (HardwareState s))"
    by blast+
qed

end

section \<open>What a pass promises\<close>

text \<open>
  A pass that returns no error leaves a service whose specification is the translation of the resource, and
  the phase is the image of its hardware state; only the pass that makes the service stores Pending,
  whatever state the server gave it.\<close>

theorem phase_follows_hardware:
  assumes "bandwidth_server C k vr vs" and "Reconcile (bw_rec C k) q w = (None, w')" and "vr w q = Some x"
    and "Vendor (Spec x) = ''nvidia''"
  shows "\<exists>s y. vs w' (service_at q) = Some s \<and> DeepEqual (svc_Spec s) (svc_Spec (translateOpiToDpf x)) \<and> vr w' q = Some y \<and>
    Phase y = (if vs w (service_at q) = None then ''Pending'' else phase_of (HardwareState s))"
  using bandwidth_server.bandwidth_pass(3) [OF assms refl] by blast

text \<open>
  C36.  Reconciling is idempotent on the services: after a pass that returned no error the next one writes none,
  whatever its calls answer.\<close>

theorem second_pass_writes_no_service:
  assumes "bandwidth_server C k vr vs" and "Reconcile (bw_rec C k) q w = (None, w1)" and "vr w q = Some x"
    and "Vendor (Spec x) = ''nvidia''" and "Reconcile (bw_rec C k) q w1 = (e, w2)"
  shows "vs w2 = vs w1"
proof -
  from bandwidth_server.bandwidth_pass(3) [OF assms(1-4) refl] obtain s y where
    s: "vs w1 (service_at q) = Some s" "DeepEqual (svc_Spec s) (svc_Spec (translateOpiToDpf x))"
    and y: "vr w1 q = Some y" "Spec y = Spec x" "Name y = Name x" "Namespace y = Namespace x" by blast
  have "Vendor (Spec y) = ''nvidia''" "DeepEqual (svc_Spec s) (svc_Spec (translateOpiToDpf y))"
    using assms(4) s(2) y translate_same [of y x] by simp_all
  from bandwidth_server.bandwidth_pass(2) [OF assms(1,5) y(1) this(1) s(1) this(2)] show ?thesis .
qed

section \<open>A server in memory\<close>

record world =
  resources :: "key \<Rightarrow> OpiResource option"
  services :: "key \<Rightarrow> DPUService option"

definition bw_client :: "world Client" where
  "bw_client =
     \<lparr>resources_at = mem_access opi_key resources (\<lambda>f w. w\<lparr>resources := f\<rparr>) (\<lambda>x old. x)
        (\<lambda>x old. old\<lparr>ResourceVersion := CHR ''1'' # ResourceVersion old, Phase := Phase x\<rparr>) (\<lambda>x. False) (\<lambda>x. True) (\<lambda>x. x),
      services_at = mem_access svc_key services (\<lambda>f w. w\<lparr>services := f\<rparr>)
        (\<lambda>x old. x\<lparr>HardwareState := (case old of None \<Rightarrow> ''Provisioned'' | Some ob \<Rightarrow> HardwareState ob)\<rparr>) (\<lambda>x old. old)
        (\<lambda>x. False) (\<lambda>x. True) (\<lambda>x. x)\<rparr>"

definition bw_lib :: machinery where
  "bw_lib = \<lparr>IsNotFound = (\<lambda>e. e = mem_missing),
     SetControllerReference = (\<lambda>ow x. if Owners x = [] then Inr (x\<lparr>Owners := [Name ow]\<rparr>) else Inl (External ''owned''))\<rparr>"

lemma bw_server: "bandwidth_server bw_client bw_lib resources services"
proof -
  have r: "object_store (resources_at bw_client) (IsNotFound bw_lib) opi_key resources services (\<lambda>x old y. True) restated_resource (\<lambda>x. True)"
    unfolding bw_client_def bw_lib_def Client.simps machinery.simps
    by (rule mem_store) (auto simp: restated_resource_def opi_key_def)
  have s: "object_store (services_at bw_client) (IsNotFound bw_lib) svc_key services resources stored_service (\<lambda>x old y. True) (\<lambda>x. False)"
    unfolding bw_client_def bw_lib_def Client.simps machinery.simps
    by (rule mem_store) (auto simp: stored_service_def svc_key_def split: option.splits)
  show ?thesis
    by (intro bandwidth_server.intro r s bandwidth_server_axioms.intro) (auto simp: bw_lib_def svc_key_def split: if_splits)
qed

interpretation bw: bandwidth_server bw_client bw_lib resources services
  by (rule bw_server)

definition bw_resource :: OpiResource where
  "bw_resource = \<lparr>Name = ''r'', Namespace = ''a'', ResourceVersion = '''',
     Spec = \<lparr>Vendor = ''nvidia'', MacAddress = ''aa'', VlanId = 7, Endpoint = ''n'', BandwidthLimitGbps = 100\<rparr>, Phase = ''''\<rparr>"

definition bw_world :: world where "bw_world = \<lparr>resources = [(''a'', ''r'') \<mapsto> bw_resource], services = Map.empty\<rparr>"

definition bw_pass :: "world \<Rightarrow> go_error option \<times> world" where "bw_pass w = Reconcile (bw_rec bw_client bw_lib) (''a'', ''r'') w"

lemma bw_pass_eq: "fst (bw_pass w) = e \<Longrightarrow> Reconcile (bw_rec bw_client bw_lib) (''a'', ''r'') w = (e, snd (bw_pass w))"
  by (cases "bw_pass w") (simp add: bw_pass_def)

lemma bw_facts: "resources bw_world (''a'', ''r'') = Some bw_resource" "Vendor (Spec bw_resource) = ''nvidia''"
  by (simp_all add: bw_world_def bw_resource_def)

theorem phase_follows_hardware_witness:
  "map_option HardwareState (services (snd (bw_pass bw_world)) (''a'', ''r-dpf-backend'')) = Some ''Provisioned'' \<and>
   map_option Phase (resources (snd (bw_pass bw_world)) (''a'', ''r'')) = Some ''Pending''"
proof -
  have r: "fst (bw_pass bw_world) = None" by code_simp
  have h: "map_option HardwareState (services (snd (bw_pass bw_world)) (''a'', ''r-dpf-backend'')) = Some ''Provisioned''" by code_simp
  have n: "services bw_world (service_at (''a'', ''r'')) = None" by (simp add: bw_world_def)
  from phase_follows_hardware [OF bw_server, OF bw_pass_eq [OF r] bw_facts] n h show ?thesis by auto
qed

theorem second_pass_writes_no_service_witness:
  "services (snd (bw_pass (snd (bw_pass bw_world)))) = services (snd (bw_pass bw_world)) \<and> services (snd (bw_pass bw_world)) \<noteq> services bw_world"
proof -
  have r: "fst (bw_pass bw_world) = None" by code_simp
  have h: "map_option HardwareState (services (snd (bw_pass bw_world)) (''a'', ''r-dpf-backend'')) = Some ''Provisioned''" by code_simp
  have "services bw_world = Map.empty" by (simp add: bw_world_def)
  then have "services (snd (bw_pass bw_world)) \<noteq> services bw_world" using h by auto
  then show ?thesis using second_pass_writes_no_service [OF bw_server, OF bw_pass_eq [OF r] bw_facts bw_pass_eq [OF refl]] by simp
qed

end
