(* ===== verification/Sha256.thy ===== *)
theory Sha256
  imports Sha1
begin

text \<open>
  SHA-256 as \<open>crypto/sha256\<close> of the Go standard library computes it (FIPS 180-4) on byte strings.  The
  padding, the splitting into words and the hexadecimal rendering are those of theory \<open>Sha1\<close>.
\<close>

unbundle bit_operations_syntax

section \<open>The digest\<close>

type_synonym regs256 = "u32 \<times> u32 \<times> u32 \<times> u32 \<times> u32 \<times> u32 \<times> u32 \<times> u32"

definition rotr32 :: "nat \<Rightarrow> u32 \<Rightarrow> u32" where "rotr32 n w = drop_bit n w OR push_bit (32 - n) w"

definition sha256_k :: "u32 list" where
  "sha256_k =
     [0x428A2F98, 0x71374491, 0xB5C0FBCF, 0xE9B5DBA5, 0x3956C25B, 0x59F111F1, 0x923F82A4, 0xAB1C5ED5,
      0xD807AA98, 0x12835B01, 0x243185BE, 0x550C7DC3, 0x72BE5D74, 0x80DEB1FE, 0x9BDC06A7, 0xC19BF174,
      0xE49B69C1, 0xEFBE4786, 0x0FC19DC6, 0x240CA1CC, 0x2DE92C6F, 0x4A7484AA, 0x5CB0A9DC, 0x76F988DA,
      0x983E5152, 0xA831C66D, 0xB00327C8, 0xBF597FC7, 0xC6E00BF3, 0xD5A79147, 0x06CA6351, 0x14292967,
      0x27B70A85, 0x2E1B2138, 0x4D2C6DFC, 0x53380D13, 0x650A7354, 0x766A0ABB, 0x81C2C92E, 0x92722C85,
      0xA2BFE8A1, 0xA81A664B, 0xC24B8B70, 0xC76C51A3, 0xD192E819, 0xD6990624, 0xF40E3585, 0x106AA070,
      0x19A4C116, 0x1E376C08, 0x2748774C, 0x34B0BCB5, 0x391C0CB3, 0x4ED8AA4A, 0x5B9CCA4F, 0x682E6FF3,
      0x748F82EE, 0x78A5636F, 0x84C87814, 0x8CC70208, 0x90BEFFFA, 0xA4506CEB, 0xBEF9A3F7, 0xC67178F2]"

definition big_sigma0 :: "u32 \<Rightarrow> u32" where "big_sigma0 x = rotr32 2 x XOR rotr32 13 x XOR rotr32 22 x"
definition big_sigma1 :: "u32 \<Rightarrow> u32" where "big_sigma1 x = rotr32 6 x XOR rotr32 11 x XOR rotr32 25 x"
definition small_sigma0 :: "u32 \<Rightarrow> u32" where "small_sigma0 x = rotr32 7 x XOR rotr32 18 x XOR drop_bit 3 x"
definition small_sigma1 :: "u32 \<Rightarrow> u32" where "small_sigma1 x = rotr32 17 x XOR rotr32 19 x XOR drop_bit 10 x"
definition sha_choice :: "u32 \<Rightarrow> u32 \<Rightarrow> u32 \<Rightarrow> u32" where "sha_choice x y z = (x AND y) XOR (NOT x AND z)"
definition sha_majority :: "u32 \<Rightarrow> u32 \<Rightarrow> u32 \<Rightarrow> u32" where "sha_majority x y z = (x AND y) XOR (x AND z) XOR (y AND z)"

text \<open>One round: the window of the next sixteen schedule words and the eight registers.\<close>

definition sha256_round :: "u32 list \<times> regs256 \<Rightarrow> u32 \<Rightarrow> u32 list \<times> regs256" where
  "sha256_round = (\<lambda>(ws, a, b, c, d, e, f, g, h) k.
     let t1 = h + big_sigma1 e + sha_choice e f g + k + ws ! 0; t2 = big_sigma0 a + sha_majority a b c
     in (tl ws @ [small_sigma1 (ws ! 14) + ws ! 9 + small_sigma0 (ws ! 1) + ws ! 0], t1 + t2, a, b, c, d + t1, e, f, g))"

definition sha256_block :: "regs256 \<Rightarrow> u32 list \<Rightarrow> regs256" where
  "sha256_block r blk =
     (case (r, snd (foldl sha256_round (map be_word (chunks 4 blk), r) sha256_k)) of
        ((h0, h1, h2, h3, h4, h5, h6, h7), (a, b, c, d, e, f, g, h)) \<Rightarrow>
          (h0 + a, h1 + b, h2 + c, h3 + d, h4 + e, h5 + f, h6 + g, h7 + h))"

definition sha256_init :: regs256 where
  "sha256_init = (0x6A09E667, 0xBB67AE85, 0x3C6EF372, 0xA54FF53A,
     0x510E527F, 0x9B05688C, 0x1F83D9AB, 0x5BE0CD19)"

definition sha256_regs :: "string \<Rightarrow> regs256" where
  "sha256_regs s = foldl sha256_block sha256_init (chunks 64 (sha1_pad (map of_char s)))"

definition sha256_hex :: "string \<Rightarrow> string" where
  "sha256_hex s = (case sha256_regs s of (a, b, c, d, e, f, g, h) \<Rightarrow> concat (map hex_word [a, b, c, d, e, f, g, h]))"

lemma length_sha256_hex [simp]: "length (sha256_hex s) = 64"
  by (simp add: sha256_hex_def split: prod.split)

lemma set_sha256_hex: "set (sha256_hex s) \<subseteq> set ''0123456789abcdef''"
  unfolding sha256_hex_def by (auto split: prod.split simp del: list.set(2) dest: subsetD [OF set_hex_word])

section \<open>Evaluation\<close>

lemma rotr32_eval: "rotr32 n w = drop_bit n w OR (push_bit (32 - n) w AND 0xFFFFFFFF)"
  by (simp only: rotr32_def mask32)

lemma sha256_round_eval:
  "sha256_round ([w0, w1, w2, w3, w4, w5, w6, w7, w8, w9, w10, w11, w12, w13, w14, w15], a, b, c, d, e, f, g, h) k =
     (let t1 = (h + big_sigma1 e + sha_choice e f g + k + w0) AND 0xFFFFFFFF; t2 = (big_sigma0 a + sha_majority a b c) AND 0xFFFFFFFF
      in ([w1, w2, w3, w4, w5, w6, w7, w8, w9, w10, w11, w12, w13, w14, w15,
          (small_sigma1 w14 + w9 + small_sigma0 w1 + w0) AND 0xFFFFFFFF],
         (t1 + t2) AND 0xFFFFFFFF, a, b, c, (d + t1) AND 0xFFFFFFFF, e, f, g))"
  unfolding mask32 by (simp add: sha256_round_def eval_nat_numeral Let_def)

lemma sha256_block_eval:
  "sha256_block (h0, h1, h2, h3, h4, h5, h6, h7) blk =
     (case snd (foldl sha256_round (map be_word (chunks 4 blk), h0, h1, h2, h3, h4, h5, h6, h7) sha256_k) of
        (a, b, c, d, e, f, g, h) \<Rightarrow>
          ((h0 + a) AND 0xFFFFFFFF, (h1 + b) AND 0xFFFFFFFF, (h2 + c) AND 0xFFFFFFFF, (h3 + d) AND 0xFFFFFFFF,
           (h4 + e) AND 0xFFFFFFFF, (h5 + f) AND 0xFFFFFFFF, (h6 + g) AND 0xFFFFFFFF, (h7 + h) AND 0xFFFFFFFF))"
  unfolding mask32 by (simp add: sha256_block_def)

lemmas sha256_eval =
  sha256_hex_def sha256_regs_def sha256_init_def sha1_pad_def be_len_def chunks.simps be_word_def sha256_k_def
  sha256_block_eval sha256_round_eval rotr32_eval big_sigma0_def big_sigma1_def small_sigma0_def small_sigma1_def
  sha_choice_def sha_majority_def hex_word_def hex_digit_def downto_8 replicate_numeral of_char_def

text \<open>The one-block test vector of the standard.\<close>

lemma sha256_hex_abc: "sha256_hex ''abc'' = ''ba7816bf8f01cfea414140de5dae2223b00361a396177a9cb410ff61f20015ad''"
  by (simp add: sha256_eval Let_def)

end
