(* ===== verification/IntentNames.thy ===== *)
theory IntentNames
  imports FmtText ObjectNames Sha256
begin

text \<open>
  \<open>rahul-tripathi/feature_skeleton.go\<close>: an OPI intent is checked and rendered as labelled and annotated DPF
  objects, with names that are cut and hashed to fit a DNS label.  A map is an association list in the order
  one iteration visits it; the functions of \<open>strings\<close>, \<open>sort\<close> and \<open>crypto/sha256\<close> are those of
  \<open>Prelude\<close>, \<open>ObjectNames\<close>, \<open>FmtText\<close> and \<open>Sha256\<close>.
\<close>

section \<open>Objects\<close>

record OPIIntent =
  Name :: string
  SourceKind :: string
  Namespace :: string
  UID :: string
  DPUSelector :: "string gomap"
  ProvisioningProfile :: string
  ServiceProfiles :: "string list"
  TargetDeviceIDs :: "string list"

record DPFObject =
  Kind :: string
  o_Namespace :: string
  o_Name :: string
  Labels :: "string gomap"
  Annotations :: "string gomap"

record VendorAdapter =
  ad_Translate :: "OPIIntent \<Rightarrow> go_error + DPFObject list"
  ad_MapStatus :: "DPFObject list \<Rightarrow> string"

record NVIDIAAdapter =
  DPFNamespace :: string

section \<open>Names\<close>

text \<open>
  The loop of \<open>safeName\<close>, by bytes: a rune outside the alphabet and every byte of it count alike, since a
  run of them gives one dash.\<close>

fun dash_runs :: "bool \<Rightarrow> string \<Rightarrow> string" where
  "dash_runs lastDash [] = ''''"
| "dash_runs lastDash (r # rs) =
     (if is_lower_ascii r \<or> is_digit r then r # dash_runs False rs
      else if \<not> lastDash then CHR ''-'' # dash_runs True rs
      else dash_runs lastDash rs)"

definition safeName :: "string \<Rightarrow> string" where
  "safeName value0 =
     (let value1 = trim_char CHR ''-'' (dash_runs False (to_lower (TrimSpace value0)));
          value2 = (if value1 = '''' then ''opi-intent'' else value1)
      in if length value2 > 63 then TrimSuffix (take 63 value2) ''-'' else value2)"

definition shortHash :: "string \<Rightarrow> string" where "shortHash v = take 10 (sha256_hex v)"

definition sourceScope :: "OPIIntent \<Rightarrow> string" where
  "sourceScope i = (if TrimSpace (Namespace i) = '''' then ''cluster'' else ''namespace:'' @ TrimSpace (Namespace i))"

definition childName :: "OPIIntent \<Rightarrow> string \<Rightarrow> string" where
  "childName i suff =
     (let prefix0 = safeName (Name i);
          hash = shortHash (sourceScope i @ ''/'' @ Name i @ ''/'' @ UID i @ ''/'' @ suff);
          maxPrefix = 63 - length hash - 1;
          pre = (if length prefix0 > maxPrefix then take maxPrefix prefix0 else prefix0)
      in TrimSuffix pre ''-'' @ ''-'' @ hash)"

section \<open>Lists and maps\<close>

definition formatSelector :: "string gomap \<Rightarrow> string" where
  "formatSelector selector = joined '','' (map (\<lambda>key. key @ ''='' @ str_at selector key) (sort (map fst selector)))"

fun validateSelector :: "string gomap \<Rightarrow> go_error option" where
  "validateSelector [] = None"
| "validateSelector ((key, v) # es) =
     (if TrimSpace key = '''' then Some (Errorf ''DPU selector keys must not be blank'' [])
      else if TrimSpace v = '''' then Some (Errorf ''DPU selector values must not be blank'' [])
      else validateSelector es)"

fun first_values :: "string list \<Rightarrow> string list \<Rightarrow> string list" where
  "first_values seen [] = []"
| "first_values seen (v # vs) =
     (if TrimSpace v \<noteq> '''' \<and> TrimSpace v \<notin> set seen then TrimSpace v # first_values (TrimSpace v # seen) vs
      else first_values seen vs)"

definition sortedValues :: "string list \<Rightarrow> string list" where "sortedValues vs = sort (first_values [] vs)"

definition cleanProfiles :: "string list \<Rightarrow> string list" where
  "cleanProfiles vs = filter (\<lambda>v. v \<noteq> '''') (map TrimSpace vs)"

definition cloneMap :: "string gomap \<Rightarrow> string gomap" where "cloneMap input = input"

section \<open>Translation\<close>

definition base_labels :: "OPIIntent \<Rightarrow> string \<Rightarrow> string \<Rightarrow> string gomap" where
  "base_labels i scope targetHash =
     [(''app.kubernetes.io/managed-by'', ''opi-nvidia-adapter''), (''dpu.opi.io/source-kind'', safeName (SourceKind i)),
      (''dpu.opi.io/source-hash'', shortHash (scope @ ''/'' @ Name i @ ''/'' @ UID i)), (''dpu.opi.io/target-set-hash'', targetHash)]"

definition base_annotations :: "OPIIntent \<Rightarrow> string \<Rightarrow> string list \<Rightarrow> string \<Rightarrow> string gomap" where
  "base_annotations i scope targetDeviceIDs targetHash =
     [(''dpu.opi.io/source-kind'', SourceKind i), (''dpu.opi.io/source-scope'', scope), (''dpu.opi.io/source-name'', Name i),
      (''dpu.opi.io/source-uid'', UID i), (''dpu.opi.io/profile'', ProvisioningProfile i),
      (''dpu.opi.io/dpu-selector'', formatSelector (DPUSelector i)),
      (''dpu.opi.io/target-device-ids'', joined '','' targetDeviceIDs), (''dpu.opi.io/target-device-hash'', targetHash)]"

text \<open>The checks, in order.\<close>

definition check_intent :: "OPIIntent \<Rightarrow> go_error option" where
  "check_intent i =
     (if TrimSpace (Name i) = '''' then Some (Errorf ''OPI intent name is required'' [])
      else if TrimSpace (SourceKind i) = '''' then Some (Errorf ''OPI source kind is required'' [])
      else if TrimSpace (UID i) = '''' then Some (Errorf ''OPI intent UID is required'' [])
      else if TrimSpace (ProvisioningProfile i) = '''' then Some (Errorf ''NVIDIA provisioning profile is required'' [])
      else if length (sortedValues (TargetDeviceIDs i)) = 0
      then Some (Errorf ''resolved stable OPI-to-DPF target devices are required'' [])
      else if length (DPUSelector i) = 0
      then Some (Errorf ''DPU selector is required to avoid broad accidental reconciliation'' [])
      else validateSelector (DPUSelector i))"

text \<open>The objects of an intent that passed.\<close>

definition render :: "NVIDIAAdapter \<Rightarrow> OPIIntent \<Rightarrow> DPFObject list" where
  "render a i =
     (let namespace = (if DPFNamespace a = '''' then ''dpf-operator-system'' else DPFNamespace a);
          targetDeviceIDs = sortedValues (TargetDeviceIDs i);
          scope = sourceScope i;
          targetHash = shortHash (joined '','' targetDeviceIDs);
          baseLabels = base_labels i scope targetHash;
          baseAnnotations = base_annotations i scope targetDeviceIDs targetHash;
          serviceProfiles = cleanProfiles (ServiceProfiles i);
          deploymentAnnotations = AList.update ''dpu.opi.io/rendered-by'' ''DPUDeployment aggregate''
            (AList.update ''dpu.opi.io/service-profiles'' (joined '','' serviceProfiles)
               (AList.update ''dpu.opi.io/service-order'' (joined '','' serviceProfiles) (cloneMap baseAnnotations)))
      in \<lparr>Kind = ''DPUSet'', o_Namespace = namespace, o_Name = childName i ''dpuset'', Labels = cloneMap baseLabels,
           Annotations = cloneMap baseAnnotations\<rparr> #
         (if 0 < length serviceProfiles
          then [\<lparr>Kind = ''DPUDeployment'', o_Namespace = namespace, o_Name = childName i ''deployment'', Labels = cloneMap baseLabels,
                  Annotations = deploymentAnnotations\<rparr>]
          else []))"

definition Translate :: "NVIDIAAdapter \<Rightarrow> OPIIntent \<Rightarrow> go_error + DPFObject list" where
  "Translate a i = (case check_intent i of Some err \<Rightarrow> Inl err | None \<Rightarrow> Inr (render a i))"

definition MapStatus :: "DPFObject list \<Rightarrow> string" where
  "MapStatus dpfObjects =
     (if length dpfObjects = 0 then ''DependencyReady=False: no DPF objects rendered''
      else ''Provisioning=True: rendered '' @ joined '', '' (sort (map (\<lambda>x. Kind x @ ''/'' @ o_Name x) dpfObjects)))"

definition nvidia :: "NVIDIAAdapter \<Rightarrow> VendorAdapter" where
  "nvidia a = \<lparr>ad_Translate = Translate a, ad_MapStatus = MapStatus\<rparr>"

definition ReconcileNVIDIAIntent :: "VendorAdapter \<Rightarrow> OPIIntent \<Rightarrow> message \<times> go_error option" where
  "ReconcileNVIDIAIntent adapter i =
     (case ad_Translate adapter i of
        Inl err \<Rightarrow> (Sprintf ''Degraded=True: %s'' [AErr err], Some err)
      | Inr objects \<Rightarrow> (Text (ad_MapStatus adapter objects), None))"

section \<open>Names are DNS labels\<close>

definition no_dashes :: "string \<Rightarrow> bool" where
  "no_dashes s = (\<forall>i. Suc i < length s \<longrightarrow> \<not> (s ! i = CHR ''-'' \<and> s ! Suc i = CHR ''-''))"

lemma dash_runs_chars: "list_all name_char (dash_runs b s)"
  by (induction b s rule: dash_runs.induct) (auto simp: name_char_def)

lemma dash_runs_hd: "dash_runs True s = [] \<or> hd (dash_runs True s) \<noteq> CHR ''-''"
proof (induction s)
  case (Cons c s)
  then show ?case by (auto simp: is_lower_ascii_def is_digit_def less_eq_char_def)
qed simp

lemma no_dashes_Cons: "no_dashes (c # s) \<longleftrightarrow> (s = [] \<or> \<not> (c = CHR ''-'' \<and> hd s = CHR ''-'')) \<and> no_dashes s"
proof -
  have "(\<forall>i. Suc i < length (c # s) \<longrightarrow> \<not> ((c # s) ! i = CHR ''-'' \<and> (c # s) ! Suc i = CHR ''-'')) \<longleftrightarrow>
    (0 < length s \<longrightarrow> \<not> (c = CHR ''-'' \<and> s ! 0 = CHR ''-'')) \<and> (\<forall>i. Suc i < length s \<longrightarrow> \<not> (s ! i = CHR ''-'' \<and> s ! Suc i = CHR ''-''))"
    by (auto simp: less_Suc_eq_0_disj nth_Cons split: nat.splits)
  then show ?thesis by (cases s) (auto simp: no_dashes_def)
qed

lemma dash_runs_single: "no_dashes (dash_runs b s)"
proof (induction b s rule: dash_runs.induct)
  case (2 b r rs)
  have n: "is_lower_ascii r \<or> is_digit r \<Longrightarrow> r \<noteq> CHR ''-''" by (auto simp: is_lower_ascii_def is_digit_def less_eq_char_def)
  show ?case using 2 n dash_runs_hd [of rs] by (auto simp: no_dashes_Cons)
qed (simp add: no_dashes_def)

lemma no_dashes_part: "no_dashes (xs @ ys @ zs) \<Longrightarrow> no_dashes ys"
proof -
  assume a: "no_dashes (xs @ ys @ zs)"
  have "no_dashes (ys @ zs)" using a by (induction xs) (auto simp: no_dashes_Cons)
  then show ?thesis
  proof (induction ys)
    case (Cons y ys)
    then show ?case by (cases ys) (auto simp: no_dashes_Cons)
  qed (simp add: no_dashes_def)
qed

lemma trim_char_part: "\<exists>xs zs. s = xs @ trim_char c s @ zs"
proof -
  let ?t = "dropWhile (\<lambda>x. x = c) s"
  have "s = takeWhile (\<lambda>x. x = c) s @ ?t" by simp
  moreover have "rev ?t = takeWhile (\<lambda>x. x = c) (rev ?t) @ dropWhile (\<lambda>x. x = c) (rev ?t)" by simp
  then have "?t = rev (dropWhile (\<lambda>x. x = c) (rev ?t)) @ rev (takeWhile (\<lambda>x. x = c) (rev ?t))"
    by (metis rev_append rev_rev_ident)
  ultimately show ?thesis unfolding trim_char_def by metis
qed

lemma TrimSuffix_dash: "TrimSuffix s ''-'' = (if s \<noteq> [] \<and> last s = CHR ''-'' then butlast s else s)"
proof (cases s rule: rev_cases)
  case Nil
  then show ?thesis by (simp add: TrimSuffix_def)
next
  case (snoc ys y)
  then show ?thesis by (simp add: TrimSuffix_def)
qed

lemma cut_name:
  assumes "list_all name_char s" and "s \<noteq> []" and "hd s \<noteq> CHR ''-''" and "0 < n"
  shows "list_all name_char (TrimSuffix (take n s) ''-'')" "TrimSuffix (take n s) ''-'' \<noteq> []" "hd (TrimSuffix (take n s) ''-'') = hd s"
    "length (TrimSuffix (take n s) ''-'') \<le> n"
    "no_dashes s \<Longrightarrow> last (TrimSuffix (take n s) ''-'') \<noteq> CHR ''-''"
proof -
  obtain c cs where s: "s = c # cs" using assms(2) by (cases s) auto
  obtain m where n: "n = Suc m" using assms(4) by (cases n) auto
  let ?t = "take n s"
  have t: "?t = c # take m cs" using s n by simp
  have c: "c \<noteq> CHR ''-''" using assms(3) s by simp
  have all: "list_all name_char ?t" using assms(1) by (auto simp: list_all_iff dest: in_set_takeD)
  show "list_all name_char (TrimSuffix ?t ''-'')" using all by (auto simp: TrimSuffix_dash list_all_iff dest: in_set_butlastD)
  show "TrimSuffix ?t ''-'' \<noteq> []" "hd (TrimSuffix ?t ''-'') = hd s" using t c s by (auto simp: TrimSuffix_dash)
  show "length (TrimSuffix ?t ''-'') \<le> n" by (auto simp: TrimSuffix_dash)
  show "last (TrimSuffix ?t ''-'') \<noteq> CHR ''-''" if nd: "no_dashes s"
  proof (cases "last ?t = CHR ''-''")
    case False
    then show ?thesis using t by (simp add: TrimSuffix_dash)
  next
    case True
    then have ne: "take m cs \<noteq> []" using t c by (cases "take m cs = []") simp_all
    have nt: "no_dashes ?t" using no_dashes_part [of "[]" ?t "drop n s"] nd by simp
    have len: "Suc (length ?t - 2) = length ?t - 1" "Suc (length ?t - 2) < length ?t" "?t \<noteq> []"
      using ne t by (cases "take m cs"; simp)+
    have "\<not> (?t ! (length ?t - 2) = CHR ''-'' \<and> ?t ! Suc (length ?t - 2) = CHR ''-'')"
      using nt len(2) unfolding no_dashes_def by blast
    then have "?t ! (length ?t - 2) \<noteq> CHR ''-''" using True len by (simp add: last_conv_nth)
    moreover have "last (butlast ?t) = ?t ! (length ?t - 2)"
    proof -
      have bne: "butlast ?t \<noteq> []" using ne t by simp
      then have "last (butlast ?t) = butlast ?t ! (length (butlast ?t) - 1)" by (rule last_conv_nth)
      also have "length (butlast ?t) - 1 = length ?t - 2" by simp
      also have "butlast ?t ! (length ?t - 2) = ?t ! (length ?t - 2)" using len by (intro nth_butlast) (simp only: length_butlast)
      finally show ?thesis .
    qed
    ultimately show ?thesis using True t by (simp add: TrimSuffix_dash)
  qed
qed

lemma safeName_shape: "list_all name_char (safeName v)" "safeName v \<noteq> []" "hd (safeName v) \<noteq> CHR ''-''"
    "last (safeName v) \<noteq> CHR ''-''" "length (safeName v) \<le> 63"
proof -
  let ?d = "dash_runs False (to_lower (TrimSpace v))"
  define t where "t = trim_char CHR ''-'' ?d"
  define s where "s = (if t = '''' then ''opi-intent'' else t)"
  have "list_all name_char t" using dash_runs_chars set_trim_char [of "CHR ''-''" ?d] unfolding t_def list_all_iff by blast
  moreover have "no_dashes t" using dash_runs_single no_dashes_part trim_char_part [of ?d "CHR ''-''"] unfolding t_def by metis
  moreover have "no_dashes ''opi-intent''" by (simp add: no_dashes_Cons) (simp add: no_dashes_def)
  moreover have "list_all name_char ''opi-intent''" by (simp add: name_char_def is_lower_ascii_def less_eq_char_def)
  ultimately have s: "list_all name_char s" "no_dashes s" "s \<noteq> []" "hd s \<noteq> CHR ''-''" "last s \<noteq> CHR ''-''"
    using hd_trim_char [of "CHR ''-''" ?d] last_trim_char [of "CHR ''-''" ?d] by (auto simp: s_def t_def)
  have eq: "safeName v = (if length s > 63 then TrimSuffix (take 63 s) ''-'' else s)" by (simp add: safeName_def Let_def s_def t_def)
  note cut = cut_name [OF s(1,3,4), of 63]
  show "list_all name_char (safeName v)" "safeName v \<noteq> []" "hd (safeName v) \<noteq> CHR ''-''" "length (safeName v) \<le> 63"
    using s cut(1-4) eq by auto
  show "last (safeName v) \<noteq> CHR ''-''" using s cut(5) eq by auto
qed

text \<open>
  Every name that is cleaned is a DNS-1123 label, whatever the text, the empty one included.\<close>

theorem safeName_label: "rfc1123_label (safeName v)"
  using safeName_shape [of v] by (simp add: rfc1123_label_def)

lemma hex_name: "c \<in> set ''0123456789abcdef'' \<Longrightarrow> name_char c \<and> c \<noteq> CHR ''-''"
  by (auto simp: name_char_def is_lower_ascii_def is_digit_def less_eq_char_def)

lemma shortHash_shape: "length (shortHash s) = 10" "list_all name_char (shortHash s)" "last (shortHash s) \<noteq> CHR ''-''"
proof -
  show l: "length (shortHash s) = 10" by (simp add: shortHash_def)
  have set: "set (shortHash s) \<subseteq> set ''0123456789abcdef''"
    using set_sha256_hex [of s] unfolding shortHash_def by (blast dest: in_set_takeD)
  then show "list_all name_char (shortHash s)" using hex_name unfolding list_all_iff by blast
  have "last (shortHash s) \<in> set (shortHash s)" using l by (intro last_in_set) auto
  then show "last (shortHash s) \<noteq> CHR ''-''" using set hex_name by blast
qed

text \<open>
  C38.  The name of a child is a DNS-1123 label, for every intent and suffix: its prefix is cut so that the hash fits.\<close>

theorem childName_label: "rfc1123_label (childName i suff)"
proof -
  let ?p = "safeName (Name i)" and ?h = "shortHash (sourceScope i @ ''/'' @ Name i @ ''/'' @ UID i @ ''/'' @ suff)"
  note p = safeName_shape [of "Name i"] and h = shortHash_shape [of "sourceScope i @ ''/'' @ Name i @ ''/'' @ UID i @ ''/'' @ suff"]
  note cut = cut_name [OF p(1-3), of 52]
  have eq: "childName i suff = TrimSuffix (take 52 ?p) ''-'' @ ''-'' @ ?h" using h(1) by (auto simp: childName_def Let_def)
  have "last (childName i suff) = last ?h" using eq h(1) by (metis (no_types) last_appendR list.size(3) numeral_eq_Suc append_is_Nil_conv nat.distinct(1))
  then show ?thesis using eq cut h p(3) by (auto simp: rfc1123_label_def name_char_def)
qed

section \<open>Canonical lists\<close>

lemma first_values_set: "set (first_values seen vs) = TrimSpace ` set vs - ({''''} \<union> set seen)"
  by (induction seen vs rule: first_values.induct) auto

lemma first_values_distinct: "distinct (first_values seen vs)"
  by (induction seen vs rule: first_values.induct) (auto simp: first_values_set)

text \<open>
  C39.  The list of target devices is put in a canonical form: what comes out is the sorted enumeration of the set of
  trimmed values that are not blank, so repetition, order and surrounding blanks of the input do not show.\<close>

theorem sortedValues_canonical: "sortedValues vs = sorted_list_of_set {v. v \<noteq> '''' \<and> v \<in> TrimSpace ` set vs}"
proof -
  have "sortedValues vs = sorted_list_of_set (set (first_values [] vs))"
    unfolding sortedValues_def by (simp add: first_values_distinct sorted_list_of_set_sort_remdups distinct_remdups_id)
  also have "set (first_values [] vs) = {v. v \<noteq> '''' \<and> v \<in> TrimSpace ` set vs}" by (auto simp: first_values_set)
  finally show ?thesis .
qed

lemma str_at_map_of: "str_at m k = (case map_of m k of Some v \<Rightarrow> v | None \<Rightarrow> '''')"
  by (simp add: str_at_def)

text \<open>The text of a selector does not depend on the order in which its map is visited.\<close>

theorem formatSelector_order_free:
  assumes "distinct (map fst s)" and "distinct (map fst s')" and "map_of s = map_of s'"
  shows "formatSelector s = formatSelector s'"
proof -
  have "set (map fst s) = set (map fst s')" using assms(3) by (metis dom_map_of_conv_image_fst set_map)
  then have "sort (map fst s) = sort (map fst s')"
    using assms(1,2) by (metis distinct_remdups_id sorted_list_of_set_sort_remdups)
  then show ?thesis using assms(3) by (simp add: formatSelector_def str_at_map_of)
qed

theorem formatSelector_order_free_witness:
  "formatSelector [(''a'', ''1''), (''b'', ''2'')] = formatSelector [(''b'', ''2''), (''a'', ''1'')]"
  by (rule formatSelector_order_free) (auto simp: fun_eq_iff)

section \<open>What an intent becomes\<close>

lemma validateSelector_None:
  "validateSelector m = None \<longleftrightarrow> (\<forall>(k, v) \<in> set m. TrimSpace k \<noteq> '''' \<and> TrimSpace v \<noteq> '''')"
  by (induction m rule: validateSelector.induct) auto

text \<open>
  An intent is translated exactly when its name, kind, identifier and profile are there, it has a target device and
  its selector is there and without blanks; it then becomes one set and, if it names a service, one deployment.  Every
  object is named by a DNS-1123 label and lives in the namespace of the operator.\<close>

definition complete_intent :: "OPIIntent \<Rightarrow> bool" where
  "complete_intent i = ((\<forall>s \<in> {Name i, SourceKind i, UID i, ProvisioningProfile i}. TrimSpace s \<noteq> '''')
     \<and> (\<exists>v \<in> set (TargetDeviceIDs i). TrimSpace v \<noteq> '''') \<and> DPUSelector i \<noteq> []
     \<and> (\<forall>(k, v) \<in> set (DPUSelector i). TrimSpace k \<noteq> '''' \<and> TrimSpace v \<noteq> ''''))"

definition named_services :: "OPIIntent \<Rightarrow> bool" where
  "named_services i = (\<exists>v \<in> set (ServiceProfiles i). TrimSpace v \<noteq> '''')"

lemma no_targets: "length (sortedValues vs) = 0 \<longleftrightarrow> (\<forall>v \<in> set vs. TrimSpace v = '''')"
proof -
  have "length (sortedValues vs) = 0 \<longleftrightarrow> set (first_values [] vs) = {}" by (simp add: sortedValues_def)
  then show ?thesis by (auto simp: first_values_set)
qed

lemma check_intent_None: "check_intent i = None \<longleftrightarrow> complete_intent i"
  unfolding check_intent_def complete_intent_def validateSelector_None [symmetric] using no_targets [of "TargetDeviceIDs i"] by auto

lemma services_given: "0 < length (cleanProfiles vs) \<longleftrightarrow> (\<exists>v \<in> set vs. TrimSpace v \<noteq> '''')"
  by (simp add: cleanProfiles_def filter_map filter_empty_conv)

theorem Translate_outcome:
  "(case Translate a i of
      Inl err \<Rightarrow> \<not> complete_intent i
    | Inr objects \<Rightarrow> complete_intent i
        \<and> map Kind objects = (if named_services i then [''DPUSet'', ''DPUDeployment''] else [''DPUSet''])
        \<and> list_all (\<lambda>x. rfc1123_label (o_Name x) \<and> o_Namespace x \<noteq> '''') objects)"
proof (cases "check_intent i")
  case None
  then have c: "complete_intent i" by (simp add: check_intent_None)
  show ?thesis using None c services_given [of "ServiceProfiles i"]
    by (simp add: Translate_def render_def Let_def childName_label named_services_def)
next
  case (Some err)
  then have "\<not> complete_intent i" using check_intent_None [of i] by simp
  then show ?thesis using Some by (simp add: Translate_def)
qed

lemma joined_comma: "joined '','' [''a,b''] = joined '','' [''a'', ''b'']"
  by simp

text \<open>
  Target devices are told apart only by the commas between them: an identifier with a comma and the two identifiers it
  is made of give the same objects, hashes included.\<close>

theorem comma_in_target:
  "Translate a (i\<lparr>TargetDeviceIDs := [''a,b'']\<rparr>) = Translate a (i\<lparr>TargetDeviceIDs := [''a'', ''b'']\<rparr>)"
proof -
  have t: "TrimSpace ''a,b'' = ''a,b''" "TrimSpace ''a'' = ''a''" "TrimSpace ''b'' = ''b''" by code_simp+
  have v: "sortedValues [''a,b''] = [''a,b'']" "sortedValues [''a'', ''b''] = [''a'', ''b'']"
    by (simp_all add: sortedValues_def t less_eq_char_def)
  have "childName (i\<lparr>TargetDeviceIDs := t\<rparr>) sf = childName i sf" for t sf by (simp add: childName_def sourceScope_def)
  moreover have "check_intent (i\<lparr>TargetDeviceIDs := [''a,b'']\<rparr>) = check_intent (i\<lparr>TargetDeviceIDs := [''a'', ''b'']\<rparr>)"
    using v by (simp add: check_intent_def)
  moreover have "render a (i\<lparr>TargetDeviceIDs := [''a,b'']\<rparr>) = render a (i\<lparr>TargetDeviceIDs := [''a'', ''b'']\<rparr>)"
    using v calculation(1)
    by (simp add: render_def Let_def base_labels_def base_annotations_def sourceScope_def joined_comma)
  ultimately show ?thesis unfolding Translate_def by metis
qed

section \<open>The adapter behind its interface\<close>

text \<open>What a pass needs of an adapter: an intent that is complete is translated.\<close>

locale intent_adapter =
  fixes adapter :: VendorAdapter
  assumes translates: "complete_intent i \<Longrightarrow> \<exists>objects. ad_Translate adapter i = Inr objects \<and> objects \<noteq> []"
    and rejects: "\<not> complete_intent i \<Longrightarrow> \<exists>err. ad_Translate adapter i = Inl err"
    and reports: "objects \<noteq> [] \<Longrightarrow> ad_MapStatus adapter objects \<noteq> ''DependencyReady=False: no DPF objects rendered''"
begin

lemma pass_verdict: "snd (ReconcileNVIDIAIntent adapter i) = None \<longleftrightarrow> complete_intent i"
  using translates [of i] rejects [of i] by (cases "complete_intent i") (auto simp: ReconcileNVIDIAIntent_def)

lemma pass_report:
  "fst (ReconcileNVIDIAIntent adapter i) \<noteq> Text ''DependencyReady=False: no DPF objects rendered''"
  using translates [of i] rejects [of i] reports
  by (cases "complete_intent i") (fastforce simp: ReconcileNVIDIAIntent_def)+

end

interpretation nvi: intent_adapter "nvidia a"
proof
  fix i
  show "\<exists>objects. ad_Translate (nvidia a) i = Inr objects \<and> objects \<noteq> []" if "complete_intent i"
    using that check_intent_None [of i] by (simp add: nvidia_def Translate_def render_def Let_def)
  show "\<exists>err. ad_Translate (nvidia a) i = Inl err" if "\<not> complete_intent i"
    using that check_intent_None [of i] by (auto simp: nvidia_def Translate_def split: option.splits)
qed (simp add: nvidia_def MapStatus_def)

text \<open>A pass fails exactly on an intent that is not complete, and never reports that nothing was rendered.\<close>

theorem intent_pass_verdict:
  "(snd (ReconcileNVIDIAIntent (nvidia a) i) = None) = complete_intent i
   \<and> fst (ReconcileNVIDIAIntent (nvidia a) i) \<noteq> Text ''DependencyReady=False: no DPF objects rendered''"
  by (simp add: nvi.pass_verdict nvi.pass_report)


end
