(* ===== verification/CardPlugin.thy ===== *)
theory CardPlugin
  imports ObjectNames
begin

text \<open>
  \<open>harsh-singh\<close> (\<open>interfaces.go\<close>, \<open>detector.go\<close>, \<open>vsp.go\<close>, \<open>dpf_client.go\<close>, \<open>feature_skeleton.go\<close>): the detector
  of BlueField-3 cards, the plugin that turns each call into writes of DPF objects, and the recording client of the
  dry run.  A call through the nil client is a panic of Go.
\<close>

section \<open>Data\<close>

record PCIDevice =
  Address :: string
  VendorID :: string
  DeviceID :: string
  Serial :: string

type_synonym DpuIdentifier = string

record Device =
  ID :: string
  Health :: string
  NodeName :: string

record NFRequest =
  Input :: string
  Output :: string

record InitRequest =
  DpuMode :: bool
  req_DpuIdentifier :: string

record IpPort =
  IP :: string
  Port :: "32 word"

record PingResponse =
  Healthy :: bool
  ResponderID :: string

record DPUFlavor =
  fl_Name :: string
  NumVFs :: "32 word"
  BFB :: string

record DPUSet =
  set_Name :: string
  FlavorRef :: string
  NodeSelector :: "string gomap"

record ServiceInterface =
  si_Name :: string
  si_Port :: string

record ServiceChain =
  sc_Name :: string
  Ports :: "string list"

record DPUDevice =
  dd_ID :: string
  dd_NodeName :: string
  dd_Ready :: bool

record 'w DpfClient =
  ReadyCall :: "'w \<Rightarrow> (go_error + bool) \<times> 'w"
  EnsureFlavor :: "DPUFlavor \<Rightarrow> 'w \<Rightarrow> go_error option \<times> 'w"
  EnsureDPUSet :: "DPUSet \<Rightarrow> 'w \<Rightarrow> go_error option \<times> 'w"
  SetVFCount :: "DpuIdentifier \<Rightarrow> 32 word \<Rightarrow> 'w \<Rightarrow> go_error option \<times> 'w"
  ListDevices :: "DpuIdentifier \<Rightarrow> 'w \<Rightarrow> (go_error + DPUDevice list) \<times> 'w"
  EnsureServiceInterface :: "ServiceInterface \<Rightarrow> 'w \<Rightarrow> go_error option \<times> 'w"
  EnsureServiceChain :: "ServiceChain \<Rightarrow> 'w \<Rightarrow> go_error option \<times> 'w"
  DeleteServiceChain :: "string \<Rightarrow> 'w \<Rightarrow> go_error option \<times> 'w"

text \<open>A call returns, or panics on the nil client.\<close>

datatype 'a outcome = Returned 'a | Panic

section \<open>The plugin\<close>

record 'w DpfAdapterVSP =
  id_of :: DpuIdentifier
  dpuMode :: bool
  dpf :: "'w DpfClient option"
  endpoint :: IpPort

definition NewDpfAdapterVSP :: "DpuIdentifier \<Rightarrow> bool \<Rightarrow> 'w DpfClient option \<Rightarrow> 'w DpfAdapterVSP" where
  "NewDpfAdapterVSP i mode c = \<lparr>id_of = i, dpuMode = mode, dpf = c, endpoint = \<lparr>IP = ''127.0.0.1'', Port = 50051\<rparr>\<rparr>"

definition flavor_of :: "InitRequest \<Rightarrow> DPUFlavor" where
  "flavor_of req = \<lparr>fl_Name = ''opi-'' @ req_DpuIdentifier req, NumVFs = 8, BFB = ''bf-bundle''\<rparr>"

definition set_of :: "InitRequest \<Rightarrow> DPUSet" where
  "set_of req = \<lparr>set_Name = ''opi-'' @ req_DpuIdentifier req, FlavorRef = fl_Name (flavor_of req),
     NodeSelector = [(''opi.dpu/identifier'', req_DpuIdentifier req)]\<rparr>"

definition Init :: "'w DpfAdapterVSP \<Rightarrow> InitRequest \<Rightarrow> 'w \<Rightarrow> (go_error + IpPort) \<times> 'w" where
  "Init v req w =
     (case dpf v of
        None \<Rightarrow> (Inl (Errorf ''nvidia vsp: no DPF client wired'' []), w)
      | Some c \<Rightarrow>
          (case ReadyCall c w of
             (Inl err, w1) \<Rightarrow> (Inl (Errorf ''nvidia vsp: checking DPF readiness: %w'' [AWrap err]), w1)
           | (Inr ready, w1) \<Rightarrow>
               if \<not> ready then (Inl (Errorf ''nvidia vsp: DPF not ready'' []), w1)
               else case EnsureFlavor c (flavor_of req) w1 of
                 (Some err, w2) \<Rightarrow> (Inl err, w2)
               | (None, w2) \<Rightarrow>
                   (case EnsureDPUSet c (set_of req) w2 of
                      (Some err, w3) \<Rightarrow> (Inl err, w3)
                    | (None, w3) \<Rightarrow> (Inr (endpoint v), w3))))"

definition device_view :: "DPUDevice \<Rightarrow> Device" where
  "device_view d = \<lparr>ID = dd_ID d, Health = (if dd_Ready d then ''Healthy'' else ''Unhealthy''), NodeName = dd_NodeName d\<rparr>"

definition GetDevices :: "'w DpfAdapterVSP \<Rightarrow> 'w \<Rightarrow> (Device gomap \<times> go_error option) outcome \<times> 'w" where
  "GetDevices v w =
     (case dpf v of
        None \<Rightarrow> (Panic, w)
      | Some c \<Rightarrow>
          (case ListDevices c (id_of v) w of
             (Inl err, w1) \<Rightarrow> (Returned ([], Some err), w1)
           | (Inr devs, w1) \<Rightarrow> (Returned (fold (\<lambda>d out. AList.update (dd_ID d) (device_view d) out) devs [], None), w1)))"

definition SetNumVfs :: "'w DpfAdapterVSP \<Rightarrow> 32 word \<Rightarrow> 'w \<Rightarrow> (32 word \<times> go_error option) outcome \<times> 'w" where
  "SetNumVfs v count w =
     (case dpf v of
        None \<Rightarrow> (Panic, w)
      | Some c \<Rightarrow>
          (case SetVFCount c (id_of v) count w of
             (Some err, w1) \<Rightarrow> (Returned (0, Some err), w1)
           | (None, w1) \<Rightarrow> (Returned (count, None), w1)))"

definition nfName :: "string \<Rightarrow> NFRequest \<Rightarrow> string" where
  "nfName pre req =
     (let san = map (\<lambda>c. if c = CHR ''/'' then CHR ''-'' else c)
      in ''opi-'' @ pre @ ''-'' @ san (Input req) @ ''-'' @ san (Output req))"

definition CreateNetworkFunction :: "'w DpfAdapterVSP \<Rightarrow> NFRequest \<Rightarrow> 'w \<Rightarrow> go_error option outcome \<times> 'w" where
  "CreateNetworkFunction v req w =
     (let inp = \<lparr>si_Name = nfName ''in'' req, si_Port = Input req\<rparr>; outp = \<lparr>si_Name = nfName ''out'' req, si_Port = Output req\<rparr>
      in case dpf v of
           None \<Rightarrow> (Panic, w)
         | Some c \<Rightarrow>
             (case EnsureServiceInterface c inp w of
                (Some err, w1) \<Rightarrow> (Returned (Some err), w1)
              | (None, w1) \<Rightarrow>
                  (case EnsureServiceInterface c outp w1 of
                     (Some err, w2) \<Rightarrow> (Returned (Some err), w2)
                   | (None, w2) \<Rightarrow>
                       (case EnsureServiceChain c \<lparr>sc_Name = nfName ''chain'' req, Ports = [si_Name inp, si_Name outp]\<rparr> w2 of
                          (e, w3) \<Rightarrow> (Returned e, w3)))))"

definition DeleteNetworkFunction :: "'w DpfAdapterVSP \<Rightarrow> NFRequest \<Rightarrow> 'w \<Rightarrow> go_error option outcome \<times> 'w" where
  "DeleteNetworkFunction v req w =
     (case dpf v of
        None \<Rightarrow> (Panic, w)
      | Some c \<Rightarrow> (case DeleteServiceChain c (nfName ''chain'' req) w of (e, w1) \<Rightarrow> (Returned e, w1)))"

text \<open>The loop of \<open>Ping\<close> over the devices, from the value it starts with.\<close>

fun all_ready :: "bool \<Rightarrow> DPUDevice list \<Rightarrow> bool" where
  "all_ready healthy [] = healthy"
| "all_ready healthy (d # ds) = all_ready (if \<not> dd_Ready d then False else healthy) ds"

definition Ping :: "'w DpfAdapterVSP \<Rightarrow> 'w \<Rightarrow> (PingResponse \<times> go_error option) outcome \<times> 'w" where
  "Ping v w =
     (case dpf v of
        None \<Rightarrow> (Panic, w)
      | Some c \<Rightarrow>
          (case ListDevices c (id_of v) w of
             (Inl err, w1) \<Rightarrow> (Returned (\<lparr>Healthy = False, ResponderID = id_of v\<rparr>, Some err), w1)
           | (Inr devs, w1) \<Rightarrow> (Returned (\<lparr>Healthy = all_ready (0 < length devs) devs, ResponderID = id_of v\<rparr>, None), w1)))"

section \<open>The detector\<close>

definition nvidiaVendorID :: string where "nvidiaVendorID = ''15b3''"
definition bluefield3DeviceIDs :: "string list" where "bluefield3DeviceIDs = [''a2dc'', ''a2da'', ''a2db'']"

definition GetDpuIdentifier :: "PCIDevice \<Rightarrow> go_error + DpuIdentifier" where
  "GetDpuIdentifier pci =
     (if Serial pci = '''' then Inl (Errorf ''nvidia: empty serial for device %s'' [AStr (Address pci)])
      else Inr (''nvidia-bf3-'' @ Serial pci))"

definition IsDPU :: "PCIDevice \<Rightarrow> DpuIdentifier list \<Rightarrow> go_error + bool" where
  "IsDPU pci seen =
     (if to_lower (VendorID pci) \<noteq> nvidiaVendorID then Inr False
      else if to_lower (DeviceID pci) \<notin> set bluefield3DeviceIDs then Inr False
      else case GetDpuIdentifier pci of
        Inl err \<Rightarrow> Inl err
      | Inr i \<Rightarrow> Inr (\<not> list_ex (\<lambda>s. s = i) seen))"

record VendorDetector =
  det_Name :: string
  GetVendorName :: string
  DpuPlatformName :: string
  det_IsDPU :: "PCIDevice \<Rightarrow> DpuIdentifier list \<Rightarrow> go_error + bool"
  det_GetDpuIdentifier :: "PCIDevice \<Rightarrow> go_error + DpuIdentifier"

definition NewNvidiaDetector :: VendorDetector where
  "NewNvidiaDetector = \<lparr>det_Name = ''BlueField-3'', GetVendorName = ''NVIDIA'', DpuPlatformName = ''nvidia-bluefield3'',
     det_IsDPU = IsDPU, det_GetDpuIdentifier = GetDpuIdentifier\<rparr>"

definition VspPlugin :: "bool \<Rightarrow> DpuIdentifier \<Rightarrow> go_error + 'w DpfAdapterVSP" where
  "VspPlugin mode i = Inr (NewDpfAdapterVSP i mode None)"

section \<open>The recording client and the dry run\<close>

type_synonym calls = "string list"

definition log_call :: "string \<Rightarrow> calls \<Rightarrow> calls" where "log_call s f = f @ [s]"

definition fakeDpf :: "calls DpfClient" where
  "fakeDpf =
     \<lparr>ReadyCall = (\<lambda>f. (Inr True, log_call ''DPF.Ready -> true'' f)),
      EnsureFlavor = (\<lambda>x f. (None, log_call (''apply DPUFlavor/'' @ fl_Name x) f)),
      EnsureDPUSet = (\<lambda>x f. (None, log_call (''apply DPUSet/'' @ set_Name x) f)),
      SetVFCount = (\<lambda>i n f. (None, log_call (''patch numVfs='' @ itoa (sint n)) f)),
      ListDevices = (\<lambda>i f. (Inr [\<lparr>dd_ID = ''bf3-0'', dd_NodeName = ''worker-1'', dd_Ready = True\<rparr>], log_call ''list DPUDevice'' f)),
      EnsureServiceInterface = (\<lambda>x f. (None, log_call (''apply ServiceInterface/'' @ si_Name x) f)),
      EnsureServiceChain = (\<lambda>x f. (None, log_call (''apply ServiceChain/'' @ sc_Name x) f)),
      DeleteServiceChain = (\<lambda>n f. (None, log_call (''delete ServiceChain/'' @ n) f))\<rparr>"

definition dry_pci :: PCIDevice where
  "dry_pci = \<lparr>Address = ''0000:03:00.0'', VendorID = ''15b3'', DeviceID = ''a2dc'', Serial = ''MT2251X00ABC''\<rparr>"

text \<open>The calls that the dry run of \<open>main\<close> records; \<open>None\<close> if the card has no identifier.\<close>

definition dry_run :: "calls option" where
  "dry_run =
     (case det_GetDpuIdentifier NewNvidiaDetector dry_pci of
        Inl _ \<Rightarrow> None
      | Inr i \<Rightarrow>
          (let vsp = NewDpfAdapterVSP i False (Some fakeDpf);
               w1 = snd (Init vsp \<lparr>DpuMode = False, req_DpuIdentifier = i\<rparr> []);
               w2 = snd (GetDevices vsp w1);
               w3 = snd (SetNumVfs vsp 16 w2);
               w4 = snd (CreateNetworkFunction vsp \<lparr>Input = ''pf0vf0'', Output = ''pf0vf1''\<rparr> w3);
               w5 = snd (Ping vsp w4)
           in Some w5))"

section \<open>Detection\<close>

text \<open>A card of the product, by its vendor and device identifiers in either case.\<close>

definition bluefield3 :: "PCIDevice \<Rightarrow> bool" where
  "bluefield3 pci = (to_lower (VendorID pci) = nvidiaVendorID \<and> to_lower (DeviceID pci) \<in> set bluefield3DeviceIDs)"

lemma IsDPU_cases:
  "IsDPU pci seen = (if \<not> bluefield3 pci then Inr False
     else if Serial pci = '''' then Inl (Errorf ''nvidia: empty serial for device %s'' [AStr (Address pci)])
     else Inr (''nvidia-bf3-'' @ Serial pci \<notin> set seen))"
  by (auto simp: IsDPU_def bluefield3_def GetDpuIdentifier_def list_ex_iff)

text \<open>
  C40.  Once a card is in the list of what was seen, no port with its serial is reported, whatever its address or device
  identifier; the other cards are reported as before.\<close>

theorem second_port_hidden:
  assumes "IsDPU a seen = Inr True" and "GetDpuIdentifier a = Inr i"
  shows "IsDPU b (i # seen) = (if Serial b = Serial a \<and> bluefield3 b then Inr False else IsDPU b seen)"
  using assms by (auto simp: IsDPU_cases GetDpuIdentifier_def split: if_splits)

theorem second_port_hidden_witness:
  "IsDPU (dry_pci\<lparr>Address := ''0000:03:00.1''\<rparr>) [''nvidia-bf3-MT2251X00ABC''] = Inr False"
proof -
  have a: "IsDPU dry_pci [] = Inr True" "GetDpuIdentifier dry_pci = Inr ''nvidia-bf3-MT2251X00ABC''" by code_simp+
  have "bluefield3 (dry_pci\<lparr>Address := ''0000:03:00.1''\<rparr>)" by code_simp
  then show ?thesis using second_port_hidden [OF a, of "dry_pci\<lparr>Address := ''0000:03:00.1''\<rparr>"] by (simp add: dry_pci_def)
qed

text \<open>
  The plugin that the detector makes has no client: it never initialises, every other call panics, and nothing is
  written.\<close>

theorem detector_plugin_dead:
  "(case VspPlugin mode i of Inl _ \<Rightarrow> False | Inr v \<Rightarrow>
      Init v req w = (Inl (Errorf ''nvidia vsp: no DPF client wired'' []), w) \<and> GetDevices v w = (Panic, w)
      \<and> SetNumVfs v n w = (Panic, w) \<and> CreateNetworkFunction v r w = (Panic, w)
      \<and> DeleteNetworkFunction v r w = (Panic, w) \<and> Ping v w = (Panic, w))"
  by (simp add: VspPlugin_def NewDpfAdapterVSP_def Init_def GetDevices_def SetNumVfs_def CreateNetworkFunction_def
      DeleteNetworkFunction_def Ping_def)

section \<open>Health\<close>

lemma all_ready_iff: "all_ready b ds \<longleftrightarrow> b \<and> (\<forall>d \<in> set ds. dd_Ready d)"
  by (induction b ds rule: all_ready.induct) auto

text \<open>A ping is healthy exactly when the client lists a device and every device it lists is ready.\<close>

theorem healthy_means_all_ready:
  assumes "dpf v = Some c" and "Ping v w = (Returned (p, e), w')"
  shows "Healthy p = (case fst (ListDevices c (id_of v) w) of Inl _ \<Rightarrow> False | Inr ds \<Rightarrow> ds \<noteq> [] \<and> list_all dd_Ready ds)"
  using assms by (auto simp: Ping_def all_ready_iff list_all_iff split: prod.splits sum.splits)

theorem healthy_means_all_ready_witness:
  "Healthy (fst (case fst (Ping (NewDpfAdapterVSP ''x'' False (Some fakeDpf)) []) of Returned a \<Rightarrow> a)) = True"
proof -
  have "dpf (NewDpfAdapterVSP ''x'' False (Some fakeDpf)) = Some fakeDpf" by (simp add: NewDpfAdapterVSP_def)
  moreover have p: "Ping (NewDpfAdapterVSP ''x'' False (Some fakeDpf)) [] =
      (Returned (\<lparr>Healthy = True, ResponderID = ''x''\<rparr>, None), [''list DPUDevice''])" by code_simp
  ultimately show ?thesis using healthy_means_all_ready by (fastforce simp: fakeDpf_def)
qed

text \<open>An endpoint is given out only after the client said that DPF is ready and took the flavor and the set.\<close>

theorem endpoint_after_ready:
  assumes "Init v req w = (Inr ep, w')"
  shows "\<exists>c w1 w2. dpf v = Some c \<and> ReadyCall c w = (Inr True, w1) \<and> EnsureFlavor c (flavor_of req) w1 = (None, w2)
    \<and> EnsureDPUSet c (set_of req) w2 = (None, w') \<and> ep = endpoint v"
  using assms by (auto simp: Init_def split: option.splits prod.splits sum.splits if_splits)

theorem endpoint_after_ready_witness:
  "\<exists>c w1 w2. Some fakeDpf = Some c \<and> ReadyCall c [] = (Inr True, w1)
     \<and> EnsureFlavor c (flavor_of \<lparr>DpuMode = False, req_DpuIdentifier = ''x''\<rparr>) w1 = (None, w2)
     \<and> EnsureDPUSet c (set_of \<lparr>DpuMode = False, req_DpuIdentifier = ''x''\<rparr>) w2
         = (None, [''DPF.Ready -> true'', ''apply DPUFlavor/opi-x'', ''apply DPUSet/opi-x''])"
proof -
  have "Init (NewDpfAdapterVSP ''x'' False (Some fakeDpf)) \<lparr>DpuMode = False, req_DpuIdentifier = ''x''\<rparr> [] =
      (Inr \<lparr>IP = ''127.0.0.1'', Port = 50051\<rparr>, [''DPF.Ready -> true'', ''apply DPUFlavor/opi-x'', ''apply DPUSet/opi-x''])"
    by code_simp
  from endpoint_after_ready [OF this] show ?thesis by (simp add: NewDpfAdapterVSP_def)
qed

text \<open>The dry run records these calls, in this order.\<close>

theorem dry_run_calls:
  "dry_run = Some [''DPF.Ready -> true'', ''apply DPUFlavor/opi-nvidia-bf3-MT2251X00ABC'', ''apply DPUSet/opi-nvidia-bf3-MT2251X00ABC'',
     ''list DPUDevice'', ''patch numVfs=16'', ''apply ServiceInterface/opi-in-pf0vf0-pf0vf1'', ''apply ServiceInterface/opi-out-pf0vf0-pf0vf1'',
     ''apply ServiceChain/opi-chain-pf0vf0-pf0vf1'', ''list DPUDevice'']"
  by code_simp

section \<open>Network functions behind the client interface\<close>

text \<open>
  What the plugin needs of a client: \<open>vi\<close> and \<open>vh\<close> are the names of the interfaces and of the chains that DPF
  holds.  Each write adds or removes the name it is given and touches nothing else; one that fails changes nothing.\<close>

locale dpf_boundary =
  fixes c :: "'w DpfClient" and vi :: "'w \<Rightarrow> string set" and vh :: "'w \<Rightarrow> string set"
  assumes interface_law: "EnsureServiceInterface c x w = (e, w') \<Longrightarrow>
      vh w' = vh w \<and> vi w' = (if e = None then insert (si_Name x) (vi w) else vi w)"
    and chain_law: "EnsureServiceChain c y w = (e, w') \<Longrightarrow>
      vi w' = vi w \<and> vh w' = (if e = None then insert (sc_Name y) (vh w) else vh w)"
    and delete_law: "DeleteServiceChain c n w = (e, w') \<Longrightarrow>
      vi w' = vi w \<and> vh w' = (if e = None then vh w - {n} else vh w)"
begin

lemma function_made:
  assumes "CreateNetworkFunction v r w = (Returned e, w')" and "dpf v = Some c"
  shows "vi w \<subseteq> vi w'" "vi w' \<subseteq> vi w \<union> {nfName ''in'' r, nfName ''out'' r}"
    "vh w' = (if e = None then insert (nfName ''chain'' r) (vh w) else vh w)"
    "e = None \<Longrightarrow> {nfName ''in'' r, nfName ''out'' r} \<subseteq> vi w'"
proof -
  obtain e1 w1 where 1: "EnsureServiceInterface c \<lparr>si_Name = nfName ''in'' r, si_Port = Input r\<rparr> w = (e1, w1)" by fastforce
  obtain e2 w2 where 2: "EnsureServiceInterface c \<lparr>si_Name = nfName ''out'' r, si_Port = Output r\<rparr> w1 = (e2, w2)" by fastforce
  obtain e3 w3 where 3: "EnsureServiceChain c \<lparr>sc_Name = nfName ''chain'' r, Ports = [nfName ''in'' r, nfName ''out'' r]\<rparr> w2 = (e3, w3)"
    by fastforce
  note laws = interface_law [OF 1] interface_law [OF 2] chain_law [OF 3]
  have "(e, w') = (case e1 of Some a \<Rightarrow> (Some a, w1) | None \<Rightarrow> (case e2 of Some a \<Rightarrow> (Some a, w2) | None \<Rightarrow> (e3, w3)))"
    using assms 1 2 3 by (auto simp: CreateNetworkFunction_def Let_def split: option.splits)
  then show "vi w \<subseteq> vi w'" "vi w' \<subseteq> vi w \<union> {nfName ''in'' r, nfName ''out'' r}"
    "vh w' = (if e = None then insert (nfName ''chain'' r) (vh w) else vh w)"
    "e = None \<Longrightarrow> {nfName ''in'' r, nfName ''out'' r} \<subseteq> vi w'"
    using laws by (auto split: option.splits if_splits)
qed

lemma function_gone:
  assumes "DeleteNetworkFunction v r w = (Returned e, w')" and "dpf v = Some c"
  shows "vi w' = vi w" "vh w' = (if e = None then vh w - {nfName ''chain'' r} else vh w)"
proof -
  obtain e1 w1 where 1: "DeleteServiceChain c (nfName ''chain'' r) w = (e1, w1)" by fastforce
  then have "e = e1" "w' = w1" using assms by (auto simp: DeleteNetworkFunction_def)
  then show "vi w' = vi w" "vh w' = (if e = None then vh w - {nfName ''chain'' r} else vh w)" using delete_law [OF 1] by auto
qed


end

text \<open>
  A network function that is made and deleted again leaves its two interfaces behind; of the chains it only takes away
  its own.\<close>

theorem interfaces_stay_behind:
  assumes "dpf_boundary c vi vh" and "dpf v = Some c"
    and "CreateNetworkFunction v r w = (Returned None, w1)" and "DeleteNetworkFunction v r w1 = (Returned None, w2)"
  shows "vh w2 = vh w - {nfName ''chain'' r} \<and> vi w2 = vi w \<union> {nfName ''in'' r, nfName ''out'' r}"
  using dpf_boundary.function_made [OF assms(1,3,2)] dpf_boundary.function_gone [OF assms(1,4,2)] by auto

text \<open>The names the recording client holds, read off its log.\<close>

definition logged_interfaces :: "calls \<Rightarrow> string set" where
  "logged_interfaces f = drop 23 ` set (filter (\<lambda>s. take 23 s = ''apply ServiceInterface/'') f)"

definition logged_chain :: "string \<Rightarrow> string set \<Rightarrow> string set" where
  "logged_chain s names =
     (if take 19 s = ''apply ServiceChain/'' then insert (drop 19 s) names
      else if take 20 s = ''delete ServiceChain/'' then names - {drop 20 s}
      else names)"

definition logged_chains :: "calls \<Rightarrow> string set" where "logged_chains f = fold logged_chain f {}"

lemma logged_snoc:
  "logged_chains (f @ [s]) = logged_chain s (logged_chains f)"
  "logged_interfaces (f @ [s]) = (if take 23 s = ''apply ServiceInterface/'' then insert (drop 23 s) (logged_interfaces f) else logged_interfaces f)"
  by (simp_all add: logged_chains_def logged_interfaces_def)

lemma fake_boundary: "dpf_boundary fakeDpf logged_interfaces logged_chains"
  by standard (auto simp: fakeDpf_def log_call_def logged_snoc logged_chain_def)

interpretation card: dpf_boundary fakeDpf logged_interfaces logged_chains
  by (rule fake_boundary)

definition dry_vsp :: "calls DpfAdapterVSP" where "dry_vsp = NewDpfAdapterVSP ''x'' False (Some fakeDpf)"

theorem interfaces_stay_behind_witness:
  "logged_interfaces (snd (DeleteNetworkFunction dry_vsp \<lparr>Input = ''a'', Output = ''b''\<rparr>
       (snd (CreateNetworkFunction dry_vsp \<lparr>Input = ''a'', Output = ''b''\<rparr> [])))) = {''opi-in-a-b'', ''opi-out-a-b''}"
proof -
  let ?r = "\<lparr>Input = ''a'', Output = ''b''\<rparr>"
  have c: "dpf dry_vsp = Some fakeDpf" by (simp add: dry_vsp_def NewDpfAdapterVSP_def)
  have 1: "CreateNetworkFunction dry_vsp ?r [] = (Returned None, snd (CreateNetworkFunction dry_vsp ?r []))" by code_simp
  have 2: "DeleteNetworkFunction dry_vsp ?r (snd (CreateNetworkFunction dry_vsp ?r [])) =
      (Returned None, snd (DeleteNetworkFunction dry_vsp ?r (snd (CreateNetworkFunction dry_vsp ?r []))))" by code_simp
  from interfaces_stay_behind [OF fake_boundary c 1 2] show ?thesis
    by (simp add: logged_interfaces_def nfName_def)
qed

text \<open>
  Requests whose ports hold neither a dash nor a slash have names of their own: equal names of one kind mean equal
  requests.  Without that restriction they collide, and deleting one function takes the chain of another.\<close>

definition plain_port :: "string \<Rightarrow> bool" where "plain_port s = list_all (\<lambda>c. c \<notin> set ''-/'') s"

lemma split_at_dash: "CHR ''-'' \<notin> set a \<Longrightarrow> CHR ''-'' \<notin> set a' \<Longrightarrow> a @ CHR ''-'' # b = a' @ CHR ''-'' # b' \<Longrightarrow> a = a' \<and> b = b'"
proof (induction a arbitrary: a')
  case Nil
  then show ?case by (cases a') auto
next
  case (Cons x a)
  then show ?case by (cases a') auto
qed

lemma plain_kept: "plain_port s \<Longrightarrow> map (\<lambda>c. if c = CHR ''/'' then CHR ''-'' else c) s = s"
  by (induction s) (auto simp: plain_port_def)

theorem plain_names_distinct:
  assumes "nfName pre r = nfName pre r'" and "list_all plain_port [Input r, Output r, Input r', Output r']"
  shows "r = r'"
proof -
  have d: "CHR ''-'' \<notin> set (Input r)" "CHR ''-'' \<notin> set (Input r')" using assms(2) by (auto simp: plain_port_def list_all_iff)
  have "Input r @ CHR ''-'' # Output r = Input r' @ CHR ''-'' # Output r'"
    using assms by (simp add: nfName_def plain_kept)
  from split_at_dash [OF d this] show ?thesis by (cases r; cases r') auto
qed

theorem plain_names_distinct_witness:
  "nfName ''chain'' \<lparr>Input = ''a'', Output = ''b''\<rparr> = nfName ''chain'' \<lparr>Input = ''a'', Output = ''b''\<rparr> \<and>
   \<lparr>Input = ''a'', Output = ''b''\<rparr> = (\<lparr>Input = ''a'', Output = ''b''\<rparr> :: NFRequest)"
  using plain_names_distinct [of "''chain''" "\<lparr>Input = ''a'', Output = ''b''\<rparr>" "\<lparr>Input = ''a'', Output = ''b''\<rparr>"]
  by (simp add: plain_port_def)

theorem dashed_names_collide:
  "nfName pre \<lparr>Input = a @ ''-'' @ b, Output = c\<rparr> = nfName pre \<lparr>Input = a, Output = b @ ''-'' @ c\<rparr>"
  by (simp add: nfName_def)

end
