(* ===== verification/ClusterAdapter.thy ===== *)
theory ClusterAdapter
  imports ObjectStore
begin

text \<open>
  \<open>sofia-nazir/controllers/opicluster_reconciler.go\<close> with \<open>pkg/adapter/translator.go\<close> and \<open>api/v1alpha1\<close>: the second
  version of the offload adapter, over the real DPF types.  Of those types the model has the fields that the adapter
  sets; every other field is zero in what the adapter builds.
\<close>

section \<open>Objects\<close>

record Condition =
  Type :: string
  Status :: string
  Reason :: string
  Message :: string
  LastTransitionTime :: time

record DPUClusterSpec =
  Vendor :: string
  NetworkOffloadMode :: string
  BFB :: string
  DpuFlavor :: string
  NodeSelector :: "string gomap"
  VpcName :: string

record DPUCluster =
  Name :: string
  Namespace :: string
  ResourceVersion :: string
  Spec :: DPUClusterSpec
  Ready :: bool
  Phase :: string
  Conditions :: "Condition list"

record ObjectMeta =
  m_Name :: string
  m_Namespace :: string
  m_Owners :: "string list"
  m_Labels :: "string gomap"
  m_Annotations :: "string gomap"

text \<open>A template names an image or, without one, a software bundle; \<open>None\<close> is a nil reference.\<close>

record DPUSetSpec =
  Strategy :: string
  DPUNodeSelector :: "string gomap"
  NoEffect :: "bool option"
  DPUFlavor :: string
  BFBRef :: "string option"
  BlueFieldSoftware :: "string option"

record DPUSet =
  set_Meta :: ObjectMeta
  set_Spec :: DPUSetSpec
  set_Conditions :: "Condition list"

record DPUServiceSpec =
  HelmChart :: "string gomap"
  ServiceID :: "string option"
  DeployInCluster :: "bool option"

record DPUService =
  svc_Meta :: ObjectMeta
  svc_Spec :: DPUServiceSpec
  svc_Conditions :: "Condition list"

type_synonym key = "string \<times> string"

definition cluster_key :: "DPUCluster \<Rightarrow> key" where "cluster_key c = (Namespace c, Name c)"
definition meta_key :: "ObjectMeta \<Rightarrow> key" where "meta_key m = (m_Namespace m, m_Name m)"
definition set_key :: "DPUSet \<Rightarrow> key" where "set_key x = meta_key (set_Meta x)"
definition svc_key :: "DPUService \<Rightarrow> key" where "svc_key x = meta_key (svc_Meta x)"

lemmas ca_key_defs = cluster_key_def meta_key_def set_key_def svc_key_def

record 'w Client =
  clusters_at :: "(DPUCluster, key, 'w) Access"
  sets_at :: "(DPUSet, key, 'w) Access"
  services_at :: "(DPUService, key, 'w) Access"

text \<open>\<open>Event\<close> takes the kind, the reason and the text of an event on a cluster; \<open>Now\<close> reads the clock.\<close>

record 'w machinery =
  IsNotFound :: "go_error \<Rightarrow> bool"
  SetControllerReference :: "DPUCluster \<Rightarrow> ObjectMeta \<Rightarrow> go_error + ObjectMeta"
  Event :: "DPUCluster \<Rightarrow> string \<times> string \<times> string \<Rightarrow> 'w \<Rightarrow> 'w"
  Now :: "'w \<Rightarrow> time"

section \<open>Translation\<close>

record VendorAdapter =
  ad_TranslateDPUSet :: "DPUCluster option \<Rightarrow> DPUSet option"
  ad_TranslateDPUService :: "DPUCluster option \<Rightarrow> string \<Rightarrow> DPUService option"

definition adapter_meta :: "DPUCluster \<Rightarrow> string \<Rightarrow> ObjectMeta" where
  "adapter_meta cluster suffix =
     \<lparr>m_Name = Name cluster @ suffix, m_Namespace = Namespace cluster, m_Owners = [],
      m_Labels = [(''opi.io/managed-by'', ''opi-nvidia-adapter''), (''opi.io/cluster'', Name cluster)], m_Annotations = []\<rparr>"

definition TranslateDPUSet :: "DPUCluster option \<Rightarrow> DPUSet option" where
  "TranslateDPUSet c = (case c of
       None \<Rightarrow> None
     | Some cluster \<Rightarrow>
         (let dpuFlavor = (if DpuFlavor (Spec cluster) = '''' then ''default'' else DpuFlavor (Spec cluster));
              image = BFB (Spec cluster)
          in Some \<lparr>set_Meta = adapter_meta cluster ''-dpuset'',
               set_Spec = \<lparr>Strategy = ''OnDelete'', DPUNodeSelector = NodeSelector (Spec cluster), NoEffect = Some True, DPUFlavor = dpuFlavor,
                 BFBRef = (if image \<noteq> '''' then Some image else None),
                 BlueFieldSoftware = (if image \<noteq> '''' then None else Some (Name cluster @ ''-bfs''))\<rparr>,
               set_Conditions = []\<rparr>))"

definition TranslateDPUService :: "DPUCluster option \<Rightarrow> string \<Rightarrow> DPUService option" where
  "TranslateDPUService c dpuSetName = (case c of
       None \<Rightarrow> None
     | Some cluster \<Rightarrow>
         if NetworkOffloadMode (Spec cluster) = '''' then None
         else Some \<lparr>svc_Meta = adapter_meta cluster ''-dpuservice'',
           svc_Spec = \<lparr>HelmChart = [], ServiceID = Some (Name cluster @ ''-service''), DeployInCluster = Some False\<rparr>,
           svc_Conditions = []\<rparr>)"

definition DefaultVendorAdapter :: VendorAdapter where
  "DefaultVendorAdapter = \<lparr>ad_TranslateDPUSet = TranslateDPUSet, ad_TranslateDPUService = TranslateDPUService\<rparr>"

definition TranslateDPUClusterToDPUSet :: "DPUCluster option \<Rightarrow> DPUSet option" where
  "TranslateDPUClusterToDPUSet cluster = ad_TranslateDPUSet DefaultVendorAdapter cluster"

definition TranslateDPUClusterToDPUService :: "DPUCluster option \<Rightarrow> string \<Rightarrow> DPUService option" where
  "TranslateDPUClusterToDPUService cluster dpuSetName = ad_TranslateDPUService DefaultVendorAdapter cluster dpuSetName"

section \<open>The reconciler\<close>

record 'w DPUClusterReconciler =
  rec_Client :: "'w Client"
  Adapter :: "VendorAdapter option"
  rec_lib :: "'w machinery"

definition reconcileDPUSet :: "'w DPUClusterReconciler \<Rightarrow> DPUCluster \<Rightarrow> DPUSet \<Rightarrow> 'w \<Rightarrow> (go_error + DPUSet) \<times> 'w" where
  "reconcileDPUSet r cluster desired w =
     (let S = sets_at (rec_Client r); nm = m_Name (set_Meta desired)
      in case Get S (set_key desired) w of
        (Inl err, w1) \<Rightarrow>
          if IsNotFound (rec_lib r) err
          then (case Create S desired w1 of
                  (Inl e, w2) \<Rightarrow> (Inl e, Event (rec_lib r) cluster (''Warning'', ''CreationFailed'', ''Failed to create DPUSet '' @ nm) w2)
                | (Inr created, w2) \<Rightarrow> (Inr created, Event (rec_lib r) cluster (''Normal'', ''Created'', ''Created DPUSet '' @ nm) w2))
          else (Inl err, w1)
      | (Inr existing, w1) \<Rightarrow>
          Update S (existing\<lparr>set_Spec := set_Spec desired,
            set_Meta := (set_Meta existing)\<lparr>m_Labels := m_Labels (set_Meta desired), m_Annotations := m_Annotations (set_Meta desired)\<rparr>\<rparr>) w1)"

text \<open>The result is the service, whether one was there, and the error.\<close>

type_synonym 'w service_step = "(DPUService option \<times> bool \<times> go_error option) \<times> 'w"

definition remove_service :: "'w DPUClusterReconciler \<Rightarrow> DPUCluster \<Rightarrow> 'w \<Rightarrow> 'w service_step" where
  "remove_service r cluster w =
     (case Get (services_at (rec_Client r)) (Namespace cluster, Name cluster @ ''-dpuservice'') w of
        (Inl err, w1) \<Rightarrow> ((None, False, if IsNotFound (rec_lib r) err then None else Some err), w1)
      | (Inr existing, w1) \<Rightarrow>
          (case Delete (services_at (rec_Client r)) existing w1 of (e, w2) \<Rightarrow> ((None, True, e), w2)))"

definition put_service :: "'w DPUClusterReconciler \<Rightarrow> DPUCluster \<Rightarrow> DPUService \<Rightarrow> 'w \<Rightarrow> 'w service_step" where
  "put_service r cluster desired0 w =
     (case SetControllerReference (rec_lib r) cluster (svc_Meta desired0) of
        Inl err \<Rightarrow> ((None, False, Some err), w)
      | Inr meta \<Rightarrow>
          (let S = services_at (rec_Client r); desired = desired0\<lparr>svc_Meta := meta\<rparr>; nm = m_Name meta
           in case Get S (svc_key desired) w of
             (Inl err, w1) \<Rightarrow>
               if IsNotFound (rec_lib r) err
               then (case Create S desired w1 of
                       (Inl e, w2) \<Rightarrow> ((None, False, Some e),
                          Event (rec_lib r) cluster (''Warning'', ''CreationFailed'', ''Failed to create DPUService '' @ nm) w2)
                     | (Inr created, w2) \<Rightarrow> ((Some created, False, None),
                          Event (rec_lib r) cluster (''Normal'', ''Created'', ''Created DPUService '' @ nm) w2))
               else ((None, False, Some err), w1)
           | (Inr existing, w1) \<Rightarrow>
               (case Update S (existing\<lparr>svc_Spec := svc_Spec desired,
                      svc_Meta := (svc_Meta existing)\<lparr>m_Labels := m_Labels meta, m_Annotations := m_Annotations meta\<rparr>\<rparr>) w1 of
                  (Inl e, w2) \<Rightarrow> ((None, True, Some e), w2)
                | (Inr updated, w2) \<Rightarrow> ((Some updated, True, None), w2))))"

definition reconcileDPUService :: "'w DPUClusterReconciler \<Rightarrow> DPUCluster \<Rightarrow> DPUService option \<Rightarrow> 'w \<Rightarrow> 'w service_step" where
  "reconcileDPUService r cluster desired w =
     (case desired of None \<Rightarrow> remove_service r cluster w | Some x \<Rightarrow> put_service r cluster x w)"

fun conditionState :: "Condition list \<Rightarrow> string \<Rightarrow> bool \<times> string \<times> string" where
  "conditionState [] conditionType = (False, '''', '''')"
| "conditionState (c # cs) conditionType =
     (if Type c \<noteq> conditionType then conditionState cs conditionType
      else (Status c = ''True'', Reason c, Message c))"

text \<open>The loop that replaces the first condition of the type, and appends when there is none.\<close>

fun put_condition :: "Condition \<Rightarrow> Condition list \<Rightarrow> Condition list" where
  "put_condition cond [] = [cond]"
| "put_condition cond (c # cs) = (if Type c = ''Ready'' then cond # cs else c # put_condition cond cs)"

definition updateConditions :: "'w DPUClusterReconciler \<Rightarrow> DPUCluster \<Rightarrow> bool \<Rightarrow> string \<Rightarrow> string \<Rightarrow> 'w \<Rightarrow> go_error option \<times> 'w" where
  "updateConditions r cluster newReady newPhase msg w =
     (if Ready cluster = newReady \<and> Phase cluster = newPhase then (None, w)
      else let cond = \<lparr>Type = ''Ready'', Status = (if newReady then ''True'' else ''False''), Reason = newPhase, Message = msg,
                       LastTransitionTime = Now (rec_lib r) w\<rparr>
           in case StatusUpdate (clusters_at (rec_Client r))
                (cluster\<lparr>Ready := newReady, Phase := newPhase, Conditions := put_condition cond (Conditions cluster)\<rparr>) w of
                (Inl err, w1) \<Rightarrow> (Some err, w1) | (Inr _, w1) \<Rightarrow> (None, w1))"

text \<open>What the conditions of the set and of the service add up to: the flag, the phase and the message.\<close>

definition summary :: "string \<Rightarrow> Condition list \<Rightarrow> bool \<Rightarrow> bool \<times> string \<times> string" where
  "summary set_name cs serviceReady =
     (let (dpusetReady, dpusetPhase, _) = conditionState cs ''Ready''
      in if \<not> dpusetReady
         then (False, if dpusetPhase \<noteq> '''' then dpusetPhase else ''DPUProvisioning'', ''Waiting for DPUSet: '' @ set_name)
         else if \<not> serviceReady then (False, ''ServiceConfiguring'', ''DPUs provisioned. Waiting for network service config.'')
         else (True, ''Ready'', ''All DPUs provisioned and services deployed.''))"

definition report :: "'w DPUClusterReconciler \<Rightarrow> DPUCluster \<Rightarrow> DPUSet \<Rightarrow> bool \<Rightarrow> 'w \<Rightarrow> go_error option \<times> 'w" where
  "report r cluster latest serviceReady w =
     (let (newReady, newPhase, msg) = summary (m_Name (set_Meta latest)) (set_Conditions latest) serviceReady
      in updateConditions r cluster newReady newPhase msg w)"

definition updateStatus :: "'w DPUClusterReconciler \<Rightarrow> DPUCluster \<Rightarrow> DPUSet \<Rightarrow> DPUService option \<Rightarrow> 'w \<Rightarrow> go_error option \<times> 'w" where
  "updateStatus r cluster existingDPUSet existingDPUService w =
     (case Get (sets_at (rec_Client r)) (set_key existingDPUSet) w of
        (Inl err, w1) \<Rightarrow> (Some err, w1)
      | (Inr latest, w1) \<Rightarrow>
          (case existingDPUService of
             None \<Rightarrow> report r cluster latest True w1
           | Some svc \<Rightarrow>
               (case Get (services_at (rec_Client r)) (svc_key svc) w1 of
                  (Inl err, w2) \<Rightarrow> (Some err, w2)
                | (Inr latestSvc, w2) \<Rightarrow> report r cluster latest (fst (conditionState (svc_Conditions latestSvc) ''Ready'')) w2)))"

text \<open>The pass behind the set: the service, then the status.\<close>

definition after_set :: "'w DPUClusterReconciler \<Rightarrow> VendorAdapter \<Rightarrow> DPUCluster \<Rightarrow> DPUSet \<Rightarrow> 'w \<Rightarrow> go_error option \<times> 'w" where
  "after_set r vendorAdapter cluster existingDPUSet w =
     (case reconcileDPUService r cluster (ad_TranslateDPUService vendorAdapter (Some cluster) (m_Name (set_Meta existingDPUSet))) w of
        ((_, _, Some err), w1) \<Rightarrow> (Some err, w1)
      | ((svc, serviceExists, None), w1) \<Rightarrow> updateStatus r cluster existingDPUSet svc w1)"

definition Reconcile :: "'w DPUClusterReconciler \<Rightarrow> key \<Rightarrow> 'w \<Rightarrow> go_error option \<times> 'w" where
  "Reconcile r req w =
     (case Get (clusters_at (rec_Client r)) req w of
        (Inl err, w1) \<Rightarrow> (if IsNotFound (rec_lib r) err then None else Some err, w1)
      | (Inr cluster, w1) \<Rightarrow>
          if Vendor (Spec cluster) \<noteq> ''nvidia'' then (None, w1)
          else let vendorAdapter = (case Adapter r of None \<Rightarrow> DefaultVendorAdapter | Some a \<Rightarrow> a)
               in case ad_TranslateDPUSet vendorAdapter (Some cluster) of
                    None \<Rightarrow> (None, w1)
                  | Some desired \<Rightarrow>
                      (case SetControllerReference (rec_lib r) cluster (set_Meta desired) of
                         Inl err \<Rightarrow> (Some err, w1)
                       | Inr meta \<Rightarrow>
                           (case reconcileDPUSet r cluster (desired\<lparr>set_Meta := meta\<rparr>) w1 of
                              (Inl err, w2) \<Rightarrow> (Some err, w2)
                            | (Inr existing, w2) \<Rightarrow> after_set r vendorAdapter cluster existing w2)))"

section \<open>Conditions\<close>

lemma put_condition_state:
  "Type c = ''Ready'' \<Longrightarrow> conditionState (put_condition c cs) ''Ready'' = (Status c = ''True'', Reason c, Message c)"
  by (induction cs) auto

lemma put_condition_others: "Type c = ''Ready'' \<Longrightarrow> filter (\<lambda>x. Type x \<noteq> ''Ready'') (put_condition c cs) = filter (\<lambda>x. Type x \<noteq> ''Ready'') cs"
  by (induction cs) auto

text \<open>The flag and the phase of a cluster say what its Ready condition says; a fresh cluster without conditions agrees too.\<close>

definition coherent :: "DPUCluster \<Rightarrow> bool" where
  "coherent c = (Ready c = fst (conditionState (Conditions c) ''Ready'') \<and> Phase c = fst (snd (conditionState (Conditions c) ''Ready'')))"

section \<open>An API server\<close>

definition restated_cluster :: "DPUCluster \<Rightarrow> DPUCluster \<Rightarrow> DPUCluster \<Rightarrow> bool" where
  "restated_cluster x old y = (\<exists>rv. y = old\<lparr>ResourceVersion := rv, Ready := Ready x, Phase := Phase x, Conditions := Conditions x\<rparr>)"

definition stored_set :: "DPUSet \<Rightarrow> DPUSet option \<Rightarrow> DPUSet \<Rightarrow> bool" where
  "stored_set x old y = (set_Meta y = set_Meta x \<and> set_Spec y = set_Spec x \<and>
     (case old of None \<Rightarrow> True | Some ob \<Rightarrow> set_Conditions y = set_Conditions ob))"

definition stored_service :: "DPUService \<Rightarrow> DPUService option \<Rightarrow> DPUService \<Rightarrow> bool" where
  "stored_service x old y = (svc_Meta y = svc_Meta x \<and> svc_Spec y = svc_Spec x \<and>
     (case old of None \<Rightarrow> True | Some ob \<Rightarrow> svc_Conditions y = svc_Conditions ob))"

text \<open>
  Clusters, sets and services live on one server.  \<open>dying\<close> are the services it keeps for a while after their
  deletion.  An owner reference changes nothing else of the metadata, and events are no objects of these kinds.\<close>

locale cluster_world =
  cs: object_store "clusters_at C" "IsNotFound k" cluster_key vc "\<lambda>w. (vs w, vv w)" "\<lambda>x old y. True" restated_cluster "\<lambda>x. True" +
  ss: object_store "sets_at C" "IsNotFound k" set_key vs "\<lambda>w. (vc w, vv w)" stored_set "\<lambda>x old y. True" "\<lambda>x. True" +
  ws: object_store "services_at C" "IsNotFound k" svc_key vv "\<lambda>w. (vc w, vs w)" stored_service "\<lambda>x old y. True" dying
  for C :: "'w Client" and k :: "'w machinery" and vc :: "'w \<Rightarrow> key \<Rightarrow> DPUCluster option" and vs :: "'w \<Rightarrow> key \<Rightarrow> DPUSet option"
    and vv :: "'w \<Rightarrow> key \<Rightarrow> DPUService option" and dying :: "DPUService \<Rightarrow> bool" +
  assumes owner: "SetControllerReference k c m = Inr m' \<Longrightarrow>
      m_Name m' = m_Name m \<and> m_Namespace m' = m_Namespace m \<and> m_Labels m' = m_Labels m \<and> m_Annotations m' = m_Annotations m"
    and events: "vc (Event k c ev w) = vc w \<and> vs (Event k c ev w) = vs w \<and> vv (Event k c ev w) = vv w"

definition ca_rec :: "'w Client \<Rightarrow> 'w machinery \<Rightarrow> 'w DPUClusterReconciler" where
  "ca_rec C k = \<lparr>rec_Client = C, Adapter = None, rec_lib = k\<rparr>"

lemma ca_rec_sel [simp]: "rec_Client (ca_rec C k) = C" "rec_lib (ca_rec C k) = k" "Adapter (ca_rec C k) = None"
  by (simp_all add: ca_rec_def)

definition set_at :: "key \<Rightarrow> key" where "set_at q = (fst q, snd q @ ''-dpuset'')"
definition svc_at :: "key \<Rightarrow> key" where "svc_at q = (fst q, snd q @ ''-dpuservice'')"

context cluster_world begin

lemma set_step:
  assumes "reconcileDPUSet (ca_rec C k) c d w = (a, w')"
  shows "vc w' = vc w" "vv w' = vv w" "\<forall>p. p \<noteq> set_key d \<longrightarrow> vs w' p = vs w p"
    "a = Inr x \<Longrightarrow> set_key x = set_key d \<and> (\<forall>s. vs w' (set_key d) = Some s \<longrightarrow> set_Spec s = set_Spec d
       \<and> m_Labels (set_Meta s) = m_Labels (set_Meta d) \<and> m_Annotations (set_Meta s) = m_Annotations (set_Meta d))"
proof -
  obtain g w1 where 1: "Get (sets_at C) (set_key d) w = (g, w1)" by fastforce
  note v = ss.get_view [OF 1]
  have "vc w' = vc w \<and> vv w' = vv w \<and> (\<forall>p. p \<noteq> set_key d \<longrightarrow> vs w' p = vs w p) \<and>
    (\<forall>x. a = Inr x \<longrightarrow> set_key x = set_key d \<and> (\<forall>s. vs w' (set_key d) = Some s \<longrightarrow> set_Spec s = set_Spec d
       \<and> m_Labels (set_Meta s) = m_Labels (set_Meta d) \<and> m_Annotations (set_Meta s) = m_Annotations (set_Meta d)))"
  proof (cases g)
    case (Inl e)
    show ?thesis
    proof (cases "IsNotFound k e")
      case False
      then show ?thesis using assms 1 Inl v by (auto simp: reconcileDPUSet_def)
    next
      case True
      obtain b w2 where 2: "Create (sets_at C) d w1 = (b, w2)" by fastforce
      obtain ev where "w' = Event k c ev w2 \<and> a = b" using assms 1 Inl True 2 by (cases b) (auto simp: reconcileDPUSet_def Let_def)
      then show ?thesis using ss.create_law [OF 2] v events by (auto simp: stored_set_def set_key_def split: sum.splits)
    qed
  next
    case (Inr x)
    let ?x = "x\<lparr>set_Spec := set_Spec d, set_Meta := (set_Meta x)\<lparr>m_Labels := m_Labels (set_Meta d), m_Annotations := m_Annotations (set_Meta d)\<rparr>\<rparr>"
    have u: "Update (sets_at C) ?x w1 = (a, w')" using assms 1 Inr by (simp add: reconcileDPUSet_def Let_def)
    have key: "set_key ?x = set_key d" using ss.get_found [of "set_key d" w x w1] 1 Inr by (simp add: ca_key_defs)
    show ?thesis using ss.update_law [OF u, unfolded key] v by (auto simp: stored_set_def split: sum.splits)
  qed
  then show "vc w' = vc w" "vv w' = vv w" "\<forall>p. p \<noteq> set_key d \<longrightarrow> vs w' p = vs w p"
    "a = Inr x \<Longrightarrow> set_key x = set_key d \<and> (\<forall>s. vs w' (set_key d) = Some s \<longrightarrow> set_Spec s = set_Spec d
       \<and> m_Labels (set_Meta s) = m_Labels (set_Meta d) \<and> m_Annotations (set_Meta s) = m_Annotations (set_Meta d))"
    by blast+
qed

lemma remove_step:
  assumes "remove_service (ca_rec C k) c w = ((x, b, e), w')"
  shows "vc w' = vc w" "vs w' = vs w" "\<forall>p. p \<noteq> (Namespace c, Name c @ ''-dpuservice'') \<longrightarrow> vv w' p = vv w p" "x = None"
    "e = None \<Longrightarrow> vv w' (Namespace c, Name c @ ''-dpuservice'') = Some s \<Longrightarrow> dying s"
proof -
  let ?q = "(Namespace c, Name c @ ''-dpuservice'')"
  obtain g w1 where 1: "Get (services_at C) ?q w = (g, w1)" by fastforce
  note v = ws.get_view [OF 1]
  have "vc w' = vc w \<and> vs w' = vs w \<and> (\<forall>p. p \<noteq> ?q \<longrightarrow> vv w' p = vv w p) \<and> x = None \<and>
    (e = None \<longrightarrow> (\<forall>s. vv w' ?q = Some s \<longrightarrow> dying s))"
  proof (cases g)
    case (Inl z)
    then have "w' = w1" "x = None" "e = None \<longrightarrow> IsNotFound k z"
      using assms 1 by (auto simp: remove_service_def split: if_splits)
    then show ?thesis using v ws.get_missing [of ?q w z w1] 1 Inl by auto
  next
    case (Inr z)
    obtain e2 w2 where 2: "Delete (services_at C) z w1 = (e2, w2)" by fastforce
    have key: "svc_key z = ?q" using ws.get_found [of ?q w z w1] 1 Inr by simp
    have "w' = w2" "x = None" "e = e2" using assms 1 Inr 2 by (auto simp: remove_service_def)
    moreover have "e2 = None \<Longrightarrow> \<forall>s. vv w2 ?q = Some s \<longrightarrow> dying s" using ws.delete_law [OF 2, unfolded key] by simp
    moreover have "\<forall>p. p \<noteq> ?q \<longrightarrow> vv w2 p = vv w1 p" using ws.write_elsewhere(3) [OF 2, unfolded key] by blast
    ultimately show ?thesis using v ws.write_rest(3) [OF 2] by simp
  qed
  then show "vc w' = vc w" "vs w' = vs w" "\<forall>p. p \<noteq> ?q \<longrightarrow> vv w' p = vv w p" "x = None"
    "e = None \<Longrightarrow> vv w' ?q = Some s \<Longrightarrow> dying s" by blast+
qed

lemma put_step:
  assumes "put_service (ca_rec C k) c d w = ((x, b, e), w')"
  shows "vc w' = vc w" "vs w' = vs w" "\<forall>p. p \<noteq> svc_key d \<longrightarrow> vv w' p = vv w p"
    "e = None \<Longrightarrow> \<exists>y. x = Some y \<and> svc_key y = svc_key d"
proof -
  have "vc w' = vc w \<and> vs w' = vs w \<and> (\<forall>p. p \<noteq> svc_key d \<longrightarrow> vv w' p = vv w p) \<and>
    (e = None \<longrightarrow> (\<exists>y. x = Some y \<and> svc_key y = svc_key d))"
  proof (cases "SetControllerReference k c (svc_Meta d)")
    case (Inl z)
    then show ?thesis using assms by (auto simp: put_service_def)
  next
    case m: (Inr m)
    let ?d = "d\<lparr>svc_Meta := m\<rparr>"
    have key: "svc_key ?d = svc_key d" using owner [OF m] by (simp add: ca_key_defs)
    obtain g w1 where 1: "Get (services_at C) (svc_key d) w = (g, w1)" by fastforce
    note v = ws.get_view [OF 1]
    show ?thesis
    proof (cases g)
      case (Inl z)
      show ?thesis
      proof (cases "IsNotFound k z")
        case False
        then show ?thesis using assms m 1 Inl v key by (auto simp: put_service_def)
      next
        case True
        obtain a w2 where 2: "Create (services_at C) ?d w1 = (a, w2)" by fastforce
        obtain ev where "w' = Event k c ev w2 \<and> (e = None \<longrightarrow> (\<exists>y. a = Inr y \<and> x = Some y))"
          using assms m 1 Inl True 2 key by (cases a) (auto simp: put_service_def Let_def)
        then show ?thesis using ws.create_law [OF 2, unfolded key] v events by (auto split: sum.splits)
      qed
    next
      case (Inr y)
      let ?y = "y\<lparr>svc_Spec := svc_Spec d, svc_Meta := (svc_Meta y)\<lparr>m_Labels := m_Labels m, m_Annotations := m_Annotations m\<rparr>\<rparr>"
      obtain a w2 where 2: "Update (services_at C) ?y w1 = (a, w2)" by fastforce
      have ky: "svc_key ?y = svc_key d" using ws.get_found [of "svc_key d" w y w1] 1 Inr by (simp add: ca_key_defs)
      have "w' = w2 \<and> (e = None \<longrightarrow> (\<exists>y. a = Inr y \<and> x = Some y))"
        using assms m 1 Inr 2 key by (cases a) (auto simp: put_service_def Let_def)
      then show ?thesis using ws.update_law [OF 2, unfolded ky] v by (auto split: sum.splits)
    qed
  qed
  then show "vc w' = vc w" "vs w' = vs w" "\<forall>p. p \<noteq> svc_key d \<longrightarrow> vv w' p = vv w p"
    "e = None \<Longrightarrow> \<exists>y. x = Some y \<and> svc_key y = svc_key d" by blast+
qed

end

text \<open>The flag and the phase that a set and a service, if there is one, add up to.\<close>

definition verdict :: "DPUSet \<Rightarrow> DPUService option \<Rightarrow> bool \<times> string" where
  "verdict t u =
     (let z = summary (m_Name (set_Meta t)) (set_Conditions t)
                (case u of None \<Rightarrow> True | Some v \<Rightarrow> fst (conditionState (svc_Conditions v) ''Ready''))
      in (fst z, fst (snd z)))"

text \<open>What a pass leaves of a cluster: its specification, its coherence, and the conditions of other types.\<close>

definition kept :: "DPUCluster \<Rightarrow> DPUCluster \<Rightarrow> bool" where
  "kept c y = (Spec y = Spec c \<and> cluster_key y = cluster_key c \<and> (coherent c \<longrightarrow> coherent y)
     \<and> filter (\<lambda>x. Type x \<noteq> ''Ready'') (Conditions y) = filter (\<lambda>x. Type x \<noteq> ''Ready'') (Conditions c))"

lemma kept_refl [simp]: "kept c c"
  by (simp add: kept_def)

context cluster_world begin

lemma condition_step:
  assumes "updateConditions (ca_rec C k) c rd ph msg w = (e, w')" and "vc w (cluster_key c) = Some c"
  shows "vs w' = vs w \<and> vv w' = vv w \<and> (\<forall>p. p \<noteq> cluster_key c \<longrightarrow> vc w' p = vc w p) \<and>
    (\<exists>y. vc w' (cluster_key c) = Some y \<and> kept c y \<and> (e = None \<longrightarrow> Ready y = rd \<and> Phase y = ph))"
proof (cases "Ready c = rd \<and> Phase c = ph")
  case True
  then show ?thesis using assms by (auto simp: updateConditions_def)
next
  case False
  define cond where "cond = \<lparr>Type = ''Ready'', Status = (if rd then ''True'' else ''False''), Reason = ph, Message = msg,
                       LastTransitionTime = Now k w\<rparr>"
  let ?x = "c\<lparr>Ready := rd, Phase := ph, Conditions := put_condition cond (Conditions c)\<rparr>"
  obtain a w1 where 1: "StatusUpdate (clusters_at C) ?x w = (a, w1)" by fastforce
  have key: "cluster_key ?x = cluster_key c" by (simp add: ca_key_defs)
  have "w' = w1 \<and> (e = None \<longrightarrow> (\<exists>y. a = Inr y))"
    using assms(1) False 1 by (cases a) (auto simp: updateConditions_def Let_def cond_def)
  moreover have "kept c (c\<lparr>ResourceVersion := rv, Ready := rd, Phase := ph, Conditions := put_condition cond (Conditions c)\<rparr>)" for rv
    unfolding kept_def coherent_def
    using put_condition_state [of cond "Conditions c"] put_condition_others [of cond "Conditions c"]
    by (simp add: cond_def ca_key_defs)
  ultimately show ?thesis using cs.status_law [OF 1, unfolded key] assms(2)
    by (auto simp: restated_cluster_def split: sum.splits)
qed

lemma status_step:
  assumes "updateStatus (ca_rec C k) c s v w = (e, w')" and "vc w (cluster_key c) = Some c"
  shows "vs w' = vs w \<and> vv w' = vv w \<and> (\<forall>p. p \<noteq> cluster_key c \<longrightarrow> vc w' p = vc w p) \<and>
    (\<exists>y. vc w' (cluster_key c) = Some y \<and> kept c y \<and> (e = None \<longrightarrow>
      (\<exists>t. vs w (set_key s) = Some t \<and>
        (\<exists>u. (case v of None \<Rightarrow> u = None | Some x \<Rightarrow> u \<noteq> None \<and> u = vv w (svc_key x)) \<and> (Ready y, Phase y) = verdict t u))))"
proof -
  obtain g w1 where 1: "Get (sets_at C) (set_key s) w = (g, w1)" by fastforce
  note v1 = ss.get_view [OF 1]
  show ?thesis
  proof (cases g)
    case (Inl z)
    then show ?thesis using assms 1 v1 by (auto simp: updateStatus_def)
  next
    case t: (Inr t)
    have f: "vs w (set_key s) = Some t" using ss.get_found [of "set_key s" w t w1] 1 t by simp
    show ?thesis
    proof (cases v)
      case None
      obtain rd ph msg where z: "summary (m_Name (set_Meta t)) (set_Conditions t) True = (rd, ph, msg)" by (cases "summary (m_Name (set_Meta t)) (set_Conditions t) True")
      have "updateConditions (ca_rec C k) c rd ph msg w1 = (e, w')" using assms(1) 1 t None z by (simp add: updateStatus_def report_def)
      from condition_step [OF this] show ?thesis using assms(2) v1 f None z by (auto simp: verdict_def)
    next
      case (Some x)
      obtain h w2 where 2: "Get (services_at C) (svc_key x) w1 = (h, w2)" by fastforce
      note v2 = ws.get_view [OF 2]
      show ?thesis
      proof (cases h)
        case (Inl z)
        then show ?thesis using assms 1 2 t Some v1 v2 by (auto simp: updateStatus_def)
      next
        case (Inr u)
        have fu: "vv w (svc_key x) = Some u" using ws.get_found [of "svc_key x" w1 u w2] 2 Inr v1 by simp
        let ?b = "fst (conditionState (svc_Conditions u) ''Ready'')"
        obtain rd ph msg where z: "summary (m_Name (set_Meta t)) (set_Conditions t) ?b = (rd, ph, msg)" by (cases "summary (m_Name (set_Meta t)) (set_Conditions t) ?b")
        have "updateConditions (ca_rec C k) c rd ph msg w2 = (e, w')" using assms(1) 1 2 t Some Inr z by (simp add: updateStatus_def report_def)
        from condition_step [OF this] show ?thesis using assms(2) v1 v2 f fu Some z by (auto simp: verdict_def)
      qed
    qed
  qed
qed

end

text \<open>The set that a cluster asks for.\<close>

definition wanted_set :: "DPUCluster \<Rightarrow> DPUSet" where "wanted_set c = the (TranslateDPUSet (Some c))"

definition applied_set :: "DPUCluster \<Rightarrow> DPUSet \<Rightarrow> bool" where
  "applied_set c t = (set_Spec t = set_Spec (wanted_set c) \<and> m_Labels (set_Meta t) = m_Labels (set_Meta (wanted_set c))
     \<and> m_Annotations (set_Meta t) = [])"

text \<open>
  What a pass without an error leaves: the set as the cluster asks for it, the flag and the phase that the set and the
  service add up to, and no service when none is asked for.\<close>

definition settled :: "(DPUService \<Rightarrow> bool) \<Rightarrow> DPUCluster \<Rightarrow> DPUCluster \<Rightarrow> DPUSet option \<Rightarrow> DPUService option \<Rightarrow> bool" where
  "settled dying c y s v = (\<exists>t u. s = Some t \<and> applied_set c t \<and> (Ready y, Phase y) = verdict t u \<and>
     (if NetworkOffloadMode (Spec c) = '''' then u = None \<and> (\<forall>x. v = Some x \<longrightarrow> dying x) else u \<noteq> None \<and> u = v))"

lemma wanted_set_key: "set_key (wanted_set c) = set_at (cluster_key c)"
  by (simp add: wanted_set_def TranslateDPUSet_def Let_def adapter_meta_def ca_key_defs set_at_def)

lemma wanted_service: "TranslateDPUService (Some c) n = Some x \<Longrightarrow> svc_key x = svc_at (cluster_key c) \<and> NetworkOffloadMode (Spec c) \<noteq> ''''"
  by (auto simp: TranslateDPUService_def adapter_meta_def ca_key_defs svc_at_def split: if_splits)

context cluster_world begin

lemma service_step:
  assumes "after_set (ca_rec C k) DefaultVendorAdapter c s w = (e, w')" and "vc w (cluster_key c) = Some c"
  shows "vs w' = vs w \<and> (\<forall>p. p \<noteq> cluster_key c \<longrightarrow> vc w' p = vc w p) \<and>
    (\<forall>p. p \<noteq> svc_at (cluster_key c) \<longrightarrow> vv w' p = vv w p) \<and>
    (\<exists>y. vc w' (cluster_key c) = Some y \<and> kept c y \<and> (e = None \<longrightarrow>
      (\<exists>t u. vs w (set_key s) = Some t \<and> (Ready y, Phase y) = verdict t u \<and>
        (if NetworkOffloadMode (Spec c) = '''' then u = None \<and> (\<forall>x. vv w' (svc_at (cluster_key c)) = Some x \<longrightarrow> dying x)
         else u \<noteq> None \<and> u = vv w' (svc_at (cluster_key c))))))"
proof -
  let ?d = "TranslateDPUService (Some c) (m_Name (set_Meta s))" and ?q = "svc_at (cluster_key c)"
  obtain x b e1 w1 where 1: "reconcileDPUService (ca_rec C k) c ?d w = ((x, b, e1), w1)" by (metis prod.collapse)
  have p: "vc w1 = vc w" "vs w1 = vs w" "\<forall>p. p \<noteq> ?q \<longrightarrow> vv w1 p = vv w p"
    "e1 = None \<Longrightarrow> if NetworkOffloadMode (Spec c) = '''' then x = None \<and> (\<forall>s. vv w1 ?q = Some s \<longrightarrow> dying s)
       else \<exists>y. x = Some y \<and> svc_key y = ?q"
  proof -
    have "vc w1 = vc w \<and> vs w1 = vs w \<and> (\<forall>p. p \<noteq> ?q \<longrightarrow> vv w1 p = vv w p) \<and>
      (e1 = None \<longrightarrow> (if NetworkOffloadMode (Spec c) = '''' then x = None \<and> (\<forall>s. vv w1 ?q = Some s \<longrightarrow> dying s)
       else \<exists>y. x = Some y \<and> svc_key y = ?q))"
    proof (cases ?d)
      case None
      then have m: "NetworkOffloadMode (Spec c) = ''''" by (simp add: TranslateDPUService_def split: if_splits)
      have r: "remove_service (ca_rec C k) c w = ((x, b, e1), w1)" using 1 None by (simp add: reconcileDPUService_def)
      have q: "(Namespace c, Name c @ ''-dpuservice'') = ?q" by (simp add: ca_key_defs svc_at_def)
      show ?thesis using remove_step [OF r, unfolded q] m by auto
    next
      case (Some d)
      have r: "put_service (ca_rec C k) c d w = ((x, b, e1), w1)" using 1 Some by (simp add: reconcileDPUService_def)
      show ?thesis using put_step [OF r] wanted_service [OF Some] by auto
    qed
    then show "vc w1 = vc w" "vs w1 = vs w" "\<forall>p. p \<noteq> ?q \<longrightarrow> vv w1 p = vv w p"
      "e1 = None \<Longrightarrow> if NetworkOffloadMode (Spec c) = '''' then x = None \<and> (\<forall>s. vv w1 ?q = Some s \<longrightarrow> dying s)
         else \<exists>y. x = Some y \<and> svc_key y = ?q" by blast+
  qed
  show ?thesis
  proof (cases e1)
    case (Some z)
    then have "w' = w1" "e = Some z" using assms(1) 1 by (auto simp: after_set_def DefaultVendorAdapter_def)
    then show ?thesis using p(1-3) assms(2) by auto
  next
    case None
    then have u: "updateStatus (ca_rec C k) c s x w1 = (e, w')" using assms(1) 1 by (simp add: after_set_def DefaultVendorAdapter_def)
    have c1: "vc w1 (cluster_key c) = Some c" using p(1) assms(2) by simp
    from status_step [OF u c1] obtain y where y: "vs w' = vs w1" "vv w' = vv w1" "\<forall>p. p \<noteq> cluster_key c \<longrightarrow> vc w' p = vc w1 p"
      "vc w' (cluster_key c) = Some y" "kept c y"
      "e = None \<Longrightarrow> \<exists>t. vs w1 (set_key s) = Some t \<and>
         (\<exists>u. (case x of None \<Rightarrow> u = None | Some x \<Rightarrow> u \<noteq> None \<and> u = vv w1 (svc_key x)) \<and> (Ready y, Phase y) = verdict t u)"
      by blast
    have "e = None \<longrightarrow> (\<exists>t u. vs w (set_key s) = Some t \<and> (Ready y, Phase y) = verdict t u \<and>
        (if NetworkOffloadMode (Spec c) = '''' then u = None \<and> (\<forall>x. vv w' ?q = Some x \<longrightarrow> dying x)
         else u \<noteq> None \<and> u = vv w' ?q))"
    proof
      assume "e = None"
      from y(6) [OF this] obtain t u where tu: "vs w1 (set_key s) = Some t" "(Ready y, Phase y) = verdict t u"
        "case x of None \<Rightarrow> u = None | Some x \<Rightarrow> u \<noteq> None \<and> u = vv w1 (svc_key x)" by blast
      have "if NetworkOffloadMode (Spec c) = '''' then u = None \<and> (\<forall>x. vv w' ?q = Some x \<longrightarrow> dying x) else u \<noteq> None \<and> u = vv w' ?q"
        using p(4) [OF None] tu(3) y(2) by (auto split: if_splits)
      moreover have "vs w (set_key s) = Some t" using tu(1) p(2) by simp
      ultimately show "\<exists>t u. vs w (set_key s) = Some t \<and> (Ready y, Phase y) = verdict t u \<and>
        (if NetworkOffloadMode (Spec c) = '''' then u = None \<and> (\<forall>x. vv w' ?q = Some x \<longrightarrow> dying x)
         else u \<noteq> None \<and> u = vv w' ?q)" using tu(2) by blast
    qed
    then show ?thesis using y(1-5) p(1-3) by auto
  qed
qed

lemma cluster_pass:
  assumes "Reconcile (ca_rec C k) q w = (e, w')"
  shows "\<forall>p. p \<noteq> q \<longrightarrow> vc w' p = vc w p" "\<forall>p. p \<noteq> set_at q \<longrightarrow> vs w' p = vs w p" "\<forall>p. p \<noteq> svc_at q \<longrightarrow> vv w' p = vv w p"
    "vc w q = None \<Longrightarrow> vc w' q = None"
    "vc w q = Some c \<Longrightarrow> \<exists>y. vc w' q = Some y \<and> kept c y \<and> (e = None \<longrightarrow> Vendor (Spec c) = ''nvidia'' \<longrightarrow>
      settled dying c y (vs w' (set_at q)) (vv w' (svc_at q)))"
    "vc w q = Some c \<Longrightarrow> Vendor (Spec c) \<noteq> ''nvidia'' \<Longrightarrow> vc w' = vc w \<and> vs w' = vs w \<and> vv w' = vv w"
proof -
  let ?good = "\<lambda>c y. e = None \<longrightarrow> Vendor (Spec c) = ''nvidia'' \<longrightarrow>
      settled dying c y (vs w' (set_at q)) (vv w' (svc_at q))"
  obtain g w1 where 1: "Get (clusters_at C) q w = (g, w1)" by fastforce
  have v: "vc w1 = vc w" "vs w1 = vs w" "vv w1 = vv w" using cs.get_view [OF 1] by simp_all
  have "(\<forall>p. p \<noteq> q \<longrightarrow> vc w' p = vc w p) \<and> (\<forall>p. p \<noteq> set_at q \<longrightarrow> vs w' p = vs w p) \<and> (\<forall>p. p \<noteq> svc_at q \<longrightarrow> vv w' p = vv w p) \<and>
    (vc w q = None \<longrightarrow> vc w' q = None) \<and> (\<forall>c. vc w q = Some c \<longrightarrow> (\<exists>y. vc w' q = Some y \<and> kept c y \<and> ?good c y)) \<and>
    (\<forall>c. vc w q = Some c \<longrightarrow> Vendor (Spec c) \<noteq> ''nvidia'' \<longrightarrow> vc w' = vc w \<and> vs w' = vs w \<and> vv w' = vv w)"
  proof (cases g)
    case (Inl z)
    have "w' = w1" "e = None \<longrightarrow> vc w q = None"
      using assms 1 Inl cs.get_missing [of q w z w1] by (auto simp: Reconcile_def split: if_splits)
    then show ?thesis using v by auto
  next
    case (Inr c)
    then have c: "vc w q = Some c" "cluster_key c = q" using cs.get_found [of q w c w1] 1 by simp_all
    show ?thesis
    proof (cases "Vendor (Spec c) = ''nvidia''")
      case False
      then have "w' = w1" using assms 1 Inr by (simp add: Reconcile_def)
      then show ?thesis using v c False by auto
    next
      case True
      have d: "ad_TranslateDPUSet DefaultVendorAdapter (Some c) = Some (wanted_set c)"
        by (simp add: DefaultVendorAdapter_def wanted_set_def TranslateDPUSet_def Let_def)
      show ?thesis
      proof (cases "SetControllerReference k c (set_Meta (wanted_set c))")
        case (Inl z)
        then have "w' = w1" "e \<noteq> None" using assms 1 Inr True d by (auto simp: Reconcile_def)
        then show ?thesis using v c True by auto
      next
        case m: (Inr m)
        let ?d = "(wanted_set c)\<lparr>set_Meta := m\<rparr>"
        have key: "set_key ?d = set_at q" using owner [OF m] wanted_set_key [of c] c(2) by (simp add: ca_key_defs)
        have ap: "set_Spec t = set_Spec ?d \<Longrightarrow> m_Labels (set_Meta t) = m_Labels (set_Meta ?d) \<Longrightarrow>
            m_Annotations (set_Meta t) = m_Annotations (set_Meta ?d) \<Longrightarrow> applied_set c t" for t
          using owner [OF m] by (simp add: applied_set_def wanted_set_def TranslateDPUSet_def Let_def adapter_meta_def)
        obtain a w2 where 2: "reconcileDPUSet (ca_rec C k) c ?d w1 = (a, w2)" by fastforce
        note s = set_step [OF 2, unfolded key]
        show ?thesis
        proof (cases a)
          case (Inl z)
          then have "w' = w2" "e \<noteq> None" using assms 1 Inr True d m 2 by (auto simp: Reconcile_def)
          then show ?thesis using v c True s(1-3) by auto
        next
          case x: (Inr x)
          have r: "after_set (ca_rec C k) DefaultVendorAdapter c x w2 = (e, w')" using assms 1 Inr True d m 2 x by (simp add: Reconcile_def)
          have c2: "vc w2 (cluster_key c) = Some c" using s(1) v c by simp
          from service_step [OF r c2, unfolded c(2)] obtain y where
            y: "vs w' = vs w2" "\<forall>p. p \<noteq> q \<longrightarrow> vc w' p = vc w2 p" "\<forall>p. p \<noteq> svc_at q \<longrightarrow> vv w' p = vv w2 p"
              "vc w' q = Some y" "kept c y"
            and t: "e = None \<longrightarrow> (\<exists>t u. vs w2 (set_key x) = Some t \<and> (Ready y, Phase y) = verdict t u \<and>
              (if NetworkOffloadMode (Spec c) = '''' then u = None \<and> (\<forall>x. vv w' (svc_at q) = Some x \<longrightarrow> dying x)
               else u \<noteq> None \<and> u = vv w' (svc_at q)))" by blast
          have "?good c y"
          proof (intro impI)
            assume "e = None"
            with t obtain t u where tu: "vs w2 (set_key x) = Some t" "(Ready y, Phase y) = verdict t u"
              "if NetworkOffloadMode (Spec c) = '''' then u = None \<and> (\<forall>x. vv w' (svc_at q) = Some x \<longrightarrow> dying x)
               else u \<noteq> None \<and> u = vv w' (svc_at q)" by blast
            have "vs w' (set_at q) = Some t" "applied_set c t" using tu(1) s(4) [OF x] y(1) ap by simp_all
            with tu(2,3) show "settled dying c y (vs w' (set_at q)) (vv w' (svc_at q))" unfolding settled_def by blast
          qed
          then show ?thesis using y s(1-3) v c True by auto
        qed
      qed
    qed
  qed
  note all = this
  from all show "\<forall>p. p \<noteq> q \<longrightarrow> vc w' p = vc w p" "\<forall>p. p \<noteq> set_at q \<longrightarrow> vs w' p = vs w p" "\<forall>p. p \<noteq> svc_at q \<longrightarrow> vv w' p = vv w p"
    "vc w q = None \<Longrightarrow> vc w' q = None" "vc w q = Some c \<Longrightarrow> \<exists>y. vc w' q = Some y \<and> kept c y \<and> ?good c y"
    "vc w q = Some c \<Longrightarrow> Vendor (Spec c) \<noteq> ''nvidia'' \<Longrightarrow> vc w' = vc w \<and> vs w' = vs w \<and> vv w' = vv w" by (elim conjE; simp)+
qed

end

section \<open>What a pass promises\<close>

text \<open>
  C32.  A pass over an NVIDIA cluster that returns no error leaves the set with the specification and labels the cluster
  asks for and without any annotation, whatever was there; with an offload mode there is a service, without one there is
  none but one whose deletion has been requested and whose finalizers still keep it; and the flag and phase of the
  cluster are what the conditions of the two add up to.  A pass over a cluster of another vendor changes nothing.\<close>

theorem cluster_settles:
  assumes "cluster_world C k vc vs vv dying" and "Reconcile (ca_rec C k) q w = (None, w')" and "vc w q = Some c"
  shows "if Vendor (Spec c) = ''nvidia''
    then \<exists>y. vc w' q = Some y \<and> Spec y = Spec c \<and> settled dying c y (vs w' (set_at q)) (vv w' (svc_at q))
    else vc w' = vc w \<and> vs w' = vs w \<and> vv w' = vv w"
proof (cases "Vendor (Spec c) = ''nvidia''")
  case True
  then show ?thesis using cluster_world.cluster_pass(5) [OF assms] unfolding kept_def by auto
next
  case False
  then show ?thesis using cluster_world.cluster_pass(6) [OF assms] by simp
qed

text \<open>
  C33.  However a pass ends, the flag and the phase of every cluster go on saying what its Ready condition says, and the
  conditions of other types are kept.\<close>

theorem conditions_stay_coherent:
  assumes "cluster_world C k vc vs vv dying" and "Reconcile (ca_rec C k) q w = (e, w')"
    and "\<And>p c. vc w p = Some c \<Longrightarrow> coherent c"
  shows "vc w' p = Some y \<Longrightarrow> coherent y \<and> (\<exists>c. vc w p = Some c \<and> Spec y = Spec c \<and>
    filter (\<lambda>x. Type x \<noteq> ''Ready'') (Conditions y) = filter (\<lambda>x. Type x \<noteq> ''Ready'') (Conditions c))"
proof -
  assume y: "vc w' p = Some y"
  show ?thesis
  proof (cases "p = q")
    case False
    then have "vc w p = Some y" using cluster_world.cluster_pass(1) [OF assms(1,2)] y by metis
    then show ?thesis using assms(3) by blast
  next
    case True
    show ?thesis
    proof (cases "vc w q")
      case None
      then show ?thesis using cluster_world.cluster_pass(4) [OF assms(1,2)] y True by simp
    next
      case (Some c)
      from cluster_world.cluster_pass(5) [OF assms(1,2) Some] have "kept c y" using y True by auto
      then show ?thesis using Some True assms(3) by (auto simp: kept_def)
    qed
  qed
qed

text \<open>A pass writes one cluster, one set and one service, and nothing at all for another vendor.\<close>

theorem pass_stays_home:
  assumes "cluster_world C k vc vs vv dying" and "Reconcile (ca_rec C k) q w = (e, w')"
  shows "(\<forall>p. p \<noteq> q \<longrightarrow> vc w' p = vc w p) \<and> (\<forall>p. p \<noteq> set_at q \<longrightarrow> vs w' p = vs w p) \<and> (\<forall>p. p \<noteq> svc_at q \<longrightarrow> vv w' p = vv w p)
    \<and> (case vc w q of Some c \<Rightarrow> Vendor (Spec c) = ''nvidia'' \<or> (vs w' = vs w \<and> vv w' = vv w) | None \<Rightarrow> True)"
  using cluster_world.cluster_pass(1-3,6) [OF assms] by (auto split: option.splits)

text \<open>
  The offload mode decides whether there is a service and nothing else: its value, the name of the private cloud and the
  name of the set do not reach the service, whose chart is empty.\<close>

theorem mode_not_translated:
  "TranslateDPUClusterToDPUService (Some c) n =
     (if NetworkOffloadMode (Spec c) = '''' then None
      else TranslateDPUClusterToDPUService (Some (c\<lparr>Spec := (Spec c)\<lparr>NetworkOffloadMode := ''any'', VpcName := vpc\<rparr>\<rparr>)) n')"
  by (simp add: TranslateDPUClusterToDPUService_def DefaultVendorAdapter_def TranslateDPUService_def adapter_meta_def)

section \<open>A server in memory\<close>

record world =
  clusters :: "key \<Rightarrow> DPUCluster option"
  sets :: "key \<Rightarrow> DPUSet option"
  services :: "key \<Rightarrow> DPUService option"
  log :: "(string \<times> string \<times> string) list"

definition ca_condition :: "string \<Rightarrow> string \<Rightarrow> Condition" where
  "ca_condition st re = \<lparr>Type = ''Ready'', Status = st, Reason = re, Message = '''', LastTransitionTime = 0\<rparr>"

definition ca_client :: "world Client" where
  "ca_client =
     \<lparr>clusters_at = mem_access cluster_key clusters (\<lambda>f w. w\<lparr>clusters := f\<rparr>) (\<lambda>x old. x)
        (\<lambda>x old. old\<lparr>ResourceVersion := CHR ''1'' # ResourceVersion old, Ready := Ready x, Phase := Phase x, Conditions := Conditions x\<rparr>)
        (\<lambda>x. False) (\<lambda>x. True) (\<lambda>x. x),
      sets_at = mem_access set_key sets (\<lambda>f w. w\<lparr>sets := f\<rparr>)
        (\<lambda>x old. x\<lparr>set_Conditions := (case old of None \<Rightarrow> [ca_condition ''False'' ''Pending''] | Some ob \<Rightarrow> set_Conditions ob)\<rparr>) (\<lambda>x old. old)
        (\<lambda>x. False) (\<lambda>x. True) (\<lambda>x. x),
      services_at = mem_access svc_key services (\<lambda>f w. w\<lparr>services := f\<rparr>)
        (\<lambda>x old. x\<lparr>svc_Conditions := (case old of None \<Rightarrow> [] | Some ob \<Rightarrow> svc_Conditions ob)\<rparr>) (\<lambda>x old. old)
        (\<lambda>x. False) (\<lambda>x. True) (\<lambda>x. x)\<rparr>"

definition ca_lib :: "world machinery" where
  "ca_lib = \<lparr>IsNotFound = (\<lambda>e. e = mem_missing), SetControllerReference = (\<lambda>c m. Inr (m\<lparr>m_Owners := [Name c]\<rparr>)),
     Event = (\<lambda>c ev w. w\<lparr>log := log w @ [ev]\<rparr>), Now = (\<lambda>w. int (length (log w)))\<rparr>"

lemma ca_server: "cluster_world ca_client ca_lib clusters sets services (\<lambda>x. False)"
proof -
  have c: "object_store (clusters_at ca_client) (IsNotFound ca_lib) cluster_key clusters (\<lambda>w. (sets w, services w)) (\<lambda>x old y. True) restated_cluster (\<lambda>x. True)"
    unfolding ca_client_def ca_lib_def Client.simps machinery.simps
    by (rule mem_store) (auto simp: restated_cluster_def cluster_key_def)
  have s: "object_store (sets_at ca_client) (IsNotFound ca_lib) set_key sets (\<lambda>w. (clusters w, services w)) stored_set (\<lambda>x old y. True) (\<lambda>x. True)"
    unfolding ca_client_def ca_lib_def Client.simps machinery.simps
    by (rule mem_store) (auto simp: stored_set_def set_key_def split: option.splits)
  have v: "object_store (services_at ca_client) (IsNotFound ca_lib) svc_key services (\<lambda>w. (clusters w, sets w)) stored_service (\<lambda>x old y. True) (\<lambda>x. False)"
    unfolding ca_client_def ca_lib_def Client.simps machinery.simps
    by (rule mem_store) (auto simp: stored_service_def svc_key_def split: option.splits)
  show ?thesis
    by (intro cluster_world.intro c s v cluster_world_axioms.intro) (auto simp: ca_lib_def)
qed

interpretation ca: cluster_world ca_client ca_lib clusters sets services "\<lambda>x. False"
  by (rule ca_server)

interpretation ca_sets: object_store "sets_at ca_client" "IsNotFound ca_lib" set_key sets "\<lambda>w. (clusters w, services w)"
    stored_set "\<lambda>x old y. True" "\<lambda>x. True"
  by (rule ca.ss.object_store_axioms)

definition ca_cluster :: DPUCluster where
  "ca_cluster = \<lparr>Name = ''c'', Namespace = ''a'', ResourceVersion = '''',
     Spec = \<lparr>Vendor = ''nvidia'', NetworkOffloadMode = '''', BFB = ''b'', DpuFlavor = '''', NodeSelector = [], VpcName = ''''\<rparr>,
     Ready = False, Phase = '''', Conditions = []\<rparr>"

definition ca_service :: DPUService where
  "ca_service = \<lparr>svc_Meta = \<lparr>m_Name = ''c-dpuservice'', m_Namespace = ''a'', m_Owners = [], m_Labels = [], m_Annotations = []\<rparr>,
     svc_Spec = \<lparr>HelmChart = [], ServiceID = None, DeployInCluster = None\<rparr>, svc_Conditions = []\<rparr>"

definition ca_world :: world where
  "ca_world = \<lparr>clusters = [(''a'', ''c'') \<mapsto> ca_cluster], sets = Map.empty, services = [(''a'', ''c-dpuservice'') \<mapsto> ca_service], log = []\<rparr>"

definition ca_pass :: "world \<Rightarrow> go_error option \<times> world" where "ca_pass w = Reconcile (ca_rec ca_client ca_lib) (''a'', ''c'') w"

lemma ca_pass_eq: "fst (ca_pass w) = e \<Longrightarrow> Reconcile (ca_rec ca_client ca_lib) (''a'', ''c'') w = (e, snd (ca_pass w))"
  by (cases "ca_pass w") (simp add: ca_pass_def)

lemma ca_facts: "clusters ca_world (''a'', ''c'') = Some ca_cluster" "Vendor (Spec ca_cluster) = ''nvidia''"
  by (simp_all add: ca_world_def ca_cluster_def)

lemma ca_runs: "fst (ca_pass ca_world) = None"
  by code_simp

theorem cluster_settles_witness: "services (snd (ca_pass ca_world)) (''a'', ''c-dpuservice'') = None"
proof -
  have "NetworkOffloadMode (Spec ca_cluster) = ''''" by (simp add: ca_cluster_def)
  then show ?thesis using cluster_settles [OF ca_server, OF ca_pass_eq [OF ca_runs] ca_facts(1)] ca_facts(2)
    by (auto simp: settled_def svc_at_def)
qed

lemma ca_coherent: "clusters ca_world p = Some c \<Longrightarrow> coherent c"
  by (auto simp: ca_world_def ca_cluster_def coherent_def split: if_splits)

theorem conditions_stay_coherent_witness:
  "map_option Phase (clusters (snd (ca_pass ca_world)) (''a'', ''c'')) = Some ''Pending'' \<and>
   map_option coherent (clusters (snd (ca_pass ca_world)) (''a'', ''c'')) = Some True"
proof -
  have p: "map_option Phase (clusters (snd (ca_pass ca_world)) (''a'', ''c'')) = Some ''Pending''" by code_simp
  then obtain y where y: "clusters (snd (ca_pass ca_world)) (''a'', ''c'') = Some y" by auto
  from conditions_stay_coherent [OF ca_server, OF ca_pass_eq [OF ca_runs] ca_coherent y] p y show ?thesis by simp
qed

theorem pass_stays_home_witness:
  "sets (snd (ca_pass ca_world)) (''a'', ''d-dpuset'') = None \<and> sets (snd (ca_pass ca_world)) (''a'', ''c-dpuset'') \<noteq> None"
proof -
  have "(''a'', ''d-dpuset'') \<noteq> set_at (''a'', ''c'')" by (simp add: set_at_def)
  then have "sets (snd (ca_pass ca_world)) (''a'', ''d-dpuset'') = sets ca_world (''a'', ''d-dpuset'')"
    using pass_stays_home [OF ca_server, OF ca_pass_eq [OF ca_runs]] by blast
  moreover have "map_option (\<lambda>x. True) (sets (snd (ca_pass ca_world)) (''a'', ''c-dpuset'')) = Some True" by code_simp
  ultimately show ?thesis by (auto simp: ca_world_def)
qed


end
