(* ===== verification/SharedCopies.thy ===== *)
theory SharedCopies
  imports KubeObjects
begin

text \<open>
  \<open>harshit-agrawal/feature_skeleton.go\<close>: the placeholder types of the delegation controller with their hand-written
  copies, and the reconciler that does nothing yet.  A slice of conditions and a map of labels are references into a
  store, so that what two copies share is visible: \<open>arrays\<close> are the backing arrays and \<open>maps\<close> the maps, by address.
\<close>

section \<open>Values and the store\<close>

record Condition =
  Type :: string
  Status :: string
  Reason :: string
  Message :: string

record store =
  arrays :: "Condition list list"
  maps :: "string gomap list"

text \<open>A slice is an array and a length, \<open>None\<close> is nil; of the metadata the model has the name and one of the maps.\<close>

type_synonym slice = "(nat \<times> nat) option"

record ObjectMeta =
  Name :: string
  Namespace :: string
  Labels :: "nat option"

record DpuClusterSpec =
  TargetImageVersion :: string
  NetworkMode :: string
  TenantProfile :: string

record DpuCluster =
  Meta :: ObjectMeta
  Spec :: DpuClusterSpec
  Conditions :: slice

record DpuClusterList =
  Items :: "DpuCluster list option"

record DPUSetSpec =
  ImageVersion :: string
  set_NetworkMode :: string
  set_TenantProfile :: string

record DPUSet =
  set_Meta :: ObjectMeta
  set_Spec :: DPUSetSpec
  set_Conditions :: slice

record DPUSetList =
  set_Items :: "DPUSet list option"

section \<open>Copies\<close>

text \<open>\<open>ObjectMeta.DeepCopy\<close> of the API machinery makes a map of its own.\<close>

definition copy_meta :: "ObjectMeta \<Rightarrow> store \<Rightarrow> ObjectMeta \<times> store" where
  "copy_meta m s = (case Labels m of
       None \<Rightarrow> (m, s)
     | Some a \<Rightarrow> (m\<lparr>Labels := Some (length (maps s))\<rparr>, s\<lparr>maps := maps s @ [maps s ! a]\<rparr>))"

text \<open>\<open>*out = *in\<close> copies the slice header, and only the metadata is copied in depth.\<close>

definition copy_cluster :: "DpuCluster option \<Rightarrow> store \<Rightarrow> DpuCluster option \<times> store" where
  "copy_cluster inp s = (case inp of
       None \<Rightarrow> (None, s)
     | Some c \<Rightarrow> (case copy_meta (Meta c) s of (m, s') \<Rightarrow> (Some (c\<lparr>Meta := m\<rparr>), s')))"

definition copy_set :: "DPUSet option \<Rightarrow> store \<Rightarrow> DPUSet option \<times> store" where
  "copy_set inp s = (case inp of
       None \<Rightarrow> (None, s)
     | Some c \<Rightarrow> (case copy_meta (set_Meta c) s of (m, s') \<Rightarrow> (Some (c\<lparr>set_Meta := m\<rparr>), s')))"

text \<open>The list copies put the elements into a new array by \<open>copy\<close>, element values as they are.\<close>

definition copy_clusters :: "DpuClusterList option \<Rightarrow> store \<Rightarrow> DpuClusterList option \<times> store" where
  "copy_clusters inp s = (case inp of
       None \<Rightarrow> (None, s)
     | Some l \<Rightarrow> (Some (case Items l of None \<Rightarrow> l | Some xs \<Rightarrow> l\<lparr>Items := Some (map (\<lambda>i. xs ! i) [0..<length xs])\<rparr>), s))"

definition copy_sets :: "DPUSetList option \<Rightarrow> store \<Rightarrow> DPUSetList option \<times> store" where
  "copy_sets inp s = (case inp of
       None \<Rightarrow> (None, s)
     | Some l \<Rightarrow> (Some (case set_Items l of None \<Rightarrow> l | Some xs \<Rightarrow> l\<lparr>set_Items := Some (map (\<lambda>i. xs ! i) [0..<length xs])\<rparr>), s))"

text \<open>What the scheme learns.\<close>

definition addKnownTypes :: "(string \<times> string) \<times> string list" where
  "addKnownTypes = ((''opi.example.io'', ''v1alpha1''), [''DpuCluster'', ''DpuClusterList'', ''DPUSet'', ''DPUSetList''])"

section \<open>The translation layer and the controller\<close>

record VersionInfo =
  Group :: string
  Version :: string
  Resource :: string

record NormalizedStatus =
  ns_Phase :: string
  ns_Conditions :: "Condition list"

text \<open>A vendor adapter over the unstructured objects of DPF.\<close>

record ('d, 'w) VendorAdapter =
  DiscoverVersion :: "'w \<Rightarrow> (go_error + VersionInfo) \<times> 'w"
  Translate :: "DpuCluster \<Rightarrow> VersionInfo \<Rightarrow> 'w \<Rightarrow> (go_error + 'd) \<times> 'w"
  NormalizeStatus :: "'d \<Rightarrow> 'w \<Rightarrow> (go_error + NormalizedStatus) \<times> 'w"
  IsCleanupComplete :: "'d \<Rightarrow> 'w \<Rightarrow> (go_error + bool) \<times> 'w"
  ShouldForceRelease :: "DpuCluster \<Rightarrow> 'w \<Rightarrow> bool \<times> 'w"

record ('d, 'w) DPUClusterReconciler =
  Adapter :: "('d, 'w) VendorAdapter"

definition Reconcile :: "('d, 'w) DPUClusterReconciler \<Rightarrow> string \<times> string \<Rightarrow> 'w \<Rightarrow> go_error option \<times> 'w" where
  "Reconcile r req w = (None, w)"

section \<open>Reads and writes through a reference\<close>

definition conditions_of :: "store \<Rightarrow> slice \<Rightarrow> Condition list" where
  "conditions_of s sl = (case sl of None \<Rightarrow> [] | Some (a, n) \<Rightarrow> take n (arrays s ! a))"

definition labels_of :: "store \<Rightarrow> ObjectMeta \<Rightarrow> string gomap" where
  "labels_of s m = (case Labels m of None \<Rightarrow> [] | Some a \<Rightarrow> maps s ! a)"

text \<open>\<open>cs[i] = x\<close> and \<open>labels[k] = v\<close>; out of range and on a nil map Go panics, which is \<open>None\<close>.\<close>

definition set_element :: "slice \<Rightarrow> nat \<Rightarrow> Condition \<Rightarrow> store \<Rightarrow> store option" where
  "set_element sl i x s = (case sl of
       None \<Rightarrow> None
     | Some (a, n) \<Rightarrow> if i < n then Some (s\<lparr>arrays := (arrays s)[a := (arrays s ! a)[i := x]]\<rparr>) else None)"

definition set_label :: "ObjectMeta \<Rightarrow> string \<Rightarrow> string \<Rightarrow> store \<Rightarrow> store option" where
  "set_label m key v s = (case Labels m of
       None \<Rightarrow> None
     | Some a \<Rightarrow> Some (s\<lparr>maps := (maps s)[a := AList.update key v (maps s ! a)]\<rparr>))"

text \<open>References point into the store, and a slice is not longer than its array.\<close>

definition valid :: "store \<Rightarrow> ObjectMeta \<Rightarrow> slice \<Rightarrow> bool" where
  "valid s m sl = ((case Labels m of None \<Rightarrow> True | Some a \<Rightarrow> a < length (maps s)) \<and>
     (case sl of None \<Rightarrow> True | Some (a, n) \<Rightarrow> a < length (arrays s) \<and> n \<le> length (arrays s ! a)))"

lemma copy_meta_effect:
  assumes "copy_meta m s = (m', s')" and "valid s m sl"
  shows "arrays s' = arrays s" "labels_of s' m' = labels_of s m" "labels_of s' m = labels_of s m"
    "set_label m' key v s' = Some s2 \<Longrightarrow> labels_of s2 m = labels_of s m \<and> labels_of s2 m' = AList.update key v (labels_of s m)
       \<and> arrays s2 = arrays s"
  using assms by (auto simp: copy_meta_def labels_of_def valid_def set_label_def nth_append split: option.splits)

lemma same_arrays: "arrays s' = arrays s \<Longrightarrow> conditions_of s' sl = conditions_of s sl"
  by (simp add: conditions_of_def split: option.splits)

lemma valid_arrays: "valid s m sl \<Longrightarrow> arrays s' = arrays s \<Longrightarrow> valid s' (m\<lparr>Labels := None\<rparr>) sl"
  by (auto simp: valid_def split: option.splits)

text \<open>
  A copy of a cluster or of a set reads like the original, and its labels are its own: a label that is set on the copy
  does not show on the original.\<close>

theorem labels_are_copied:
  assumes "valid s (Meta c) (Conditions c)" and "copy_cluster (Some c) s = (Some c', s1)" and "set_label (Meta c') key v s1 = Some s2"
  shows "labels_of s1 (Meta c') = labels_of s (Meta c) \<and> conditions_of s1 (Conditions c') = conditions_of s (Conditions c)
    \<and> labels_of s2 (Meta c) = labels_of s (Meta c)"
proof -
  obtain m where m: "copy_meta (Meta c) s = (m, s1)" "c' = c\<lparr>Meta := m\<rparr>"
    using assms(2) by (auto simp: copy_cluster_def split: prod.splits)
  show ?thesis using copy_meta_effect [OF m(1) assms(1)] same_arrays [of s1 s] assms(3) m(2) by simp
qed

text \<open>
  The conditions are not copied: a condition that is written through the copy replaces the condition of the original at
  the same place, for clusters and for sets.\<close>

lemma element_written:
  assumes "valid s m sl" and "set_element sl i x s = Some s'"
  shows "conditions_of s' sl = (conditions_of s sl)[i := x]"
  using assms by (auto simp: valid_def set_element_def conditions_of_def take_update_swap split: option.splits prod.splits if_splits)

theorem conditions_are_shared:
  assumes "valid s (Meta c) (Conditions c)" and "copy_cluster (Some c) s = (Some c', s1)"
    and "set_element (Conditions c') i x s1 = Some s2"
  shows "conditions_of s2 (Conditions c) = (conditions_of s (Conditions c))[i := x]"
proof -
  obtain m where m: "copy_meta (Meta c) s = (m, s1)" "c' = c\<lparr>Meta := m\<rparr>"
    using assms(2) by (auto simp: copy_cluster_def split: prod.splits)
  note e = copy_meta_effect [OF m(1) assms(1)]
  from element_written [OF valid_arrays [OF assms(1) e(1)], of i x s2] assms(3) m(2) same_arrays [OF e(1)] show ?thesis by simp
qed

theorem conditions_are_shared_for_sets:
  assumes "valid s (set_Meta c) (set_Conditions c)" and "copy_set (Some c) s = (Some c', s1)"
    and "set_element (set_Conditions c') i x s1 = Some s2"
  shows "conditions_of s2 (set_Conditions c) = (conditions_of s (set_Conditions c))[i := x]"
proof -
  obtain m where m: "copy_meta (set_Meta c) s = (m, s1)" "c' = c\<lparr>set_Meta := m\<rparr>"
    using assms(2) by (auto simp: copy_set_def split: prod.splits)
  note e = copy_meta_effect [OF m(1) assms(1)]
  from element_written [OF valid_arrays [OF assms(1) e(1)], of i x s2] assms(3) m(2) same_arrays [OF e(1)] show ?thesis by simp
qed

text \<open>In a copied list even the labels are shared: the elements are the same values, references included.\<close>

theorem list_copy_is_shallow: "copy_clusters inp s = (inp, s) \<and> copy_sets inp' s = (inp', s)"
  by (auto simp: copy_clusters_def copy_sets_def map_nth split: option.splits)

definition sc_store :: store where
  "sc_store = \<lparr>arrays = [[\<lparr>Type = ''Ready'', Status = ''True'', Reason = '''', Message = ''''\<rparr>]], maps = [[(''a'', ''1'')]]\<rparr>"

definition sc_cluster :: DpuCluster where
  "sc_cluster = \<lparr>Meta = \<lparr>Name = ''c'', Namespace = ''n'', Labels = Some 0\<rparr>,
     Spec = \<lparr>TargetImageVersion = '''', NetworkMode = '''', TenantProfile = ''''\<rparr>, Conditions = Some (0, 1)\<rparr>"

definition sc_set :: DPUSet where
  "sc_set = \<lparr>set_Meta = \<lparr>Name = ''c'', Namespace = ''n'', Labels = Some 0\<rparr>,
     set_Spec = \<lparr>ImageVersion = '''', set_NetworkMode = '''', set_TenantProfile = ''''\<rparr>, set_Conditions = Some (0, 1)\<rparr>"

definition sc_down :: Condition where "sc_down = \<lparr>Type = ''Ready'', Status = ''False'', Reason = '''', Message = ''''\<rparr>"

lemmas sc_defs = sc_store_def sc_cluster_def sc_set_def sc_down_def

theorem labels_are_copied_witness:
  "labels_of (the (set_label (Meta (the (fst (copy_cluster (Some sc_cluster) sc_store)))) ''b'' ''2'' (snd (copy_cluster (Some sc_cluster) sc_store))))
     (Meta sc_cluster) = [(''a'', ''1'')]"
proof -
  obtain c' s1 where 1: "copy_cluster (Some sc_cluster) sc_store = (Some c', s1)" by (simp add: sc_defs copy_cluster_def copy_meta_def)
  obtain s2 where 2: "set_label (Meta c') ''b'' ''2'' s1 = Some s2" using 1 by (auto simp: sc_defs copy_cluster_def copy_meta_def set_label_def)
  have "valid sc_store (Meta sc_cluster) (Conditions sc_cluster)" by (simp add: sc_defs valid_def)
  from labels_are_copied [OF this 1 2] 1 2 show ?thesis by (simp add: sc_defs labels_of_def)
qed

theorem conditions_are_shared_witness:
  "conditions_of (the (set_element (Conditions (the (fst (copy_cluster (Some sc_cluster) sc_store)))) 0 sc_down (snd (copy_cluster (Some sc_cluster) sc_store))))
     (Conditions sc_cluster) = [sc_down]"
proof -
  obtain c' s1 where 1: "copy_cluster (Some sc_cluster) sc_store = (Some c', s1)" by (simp add: sc_defs copy_cluster_def copy_meta_def)
  obtain s2 where 2: "set_element (Conditions c') 0 sc_down s1 = Some s2" using 1 by (auto simp: sc_defs copy_cluster_def copy_meta_def set_element_def)
  have "valid sc_store (Meta sc_cluster) (Conditions sc_cluster)" by (simp add: sc_defs valid_def)
  from conditions_are_shared [OF this 1 2] 1 2 show ?thesis by (simp add: sc_defs conditions_of_def)
qed

theorem conditions_are_shared_for_sets_witness:
  "conditions_of (the (set_element (set_Conditions (the (fst (copy_set (Some sc_set) sc_store)))) 0 sc_down (snd (copy_set (Some sc_set) sc_store))))
     (set_Conditions sc_set) = [sc_down]"
proof -
  obtain c' s1 where 1: "copy_set (Some sc_set) sc_store = (Some c', s1)" by (simp add: sc_defs copy_set_def copy_meta_def)
  obtain s2 where 2: "set_element (set_Conditions c') 0 sc_down s1 = Some s2" using 1 by (auto simp: sc_defs copy_set_def copy_meta_def set_element_def)
  have "valid sc_store (set_Meta sc_set) (set_Conditions sc_set)" by (simp add: sc_defs valid_def)
  from conditions_are_shared_for_sets [OF this 1 2] 1 2 show ?thesis by (simp add: sc_defs conditions_of_def)
qed

end
