(* ===== verification/StatusEngine.thy ===== *)
theory StatusEngine
  imports Prelude
begin

text \<open>
  Two small submissions.  \<open>lipika-mandal/feature_skeleton.go\<close>: the engine that renders an operator configuration as a
  document and turns the errors of a pass into the Ready condition.  \<open>iqra_urooj/feature_skeleton.go\<close>: a pass that
  names a configuration and reports a phase.
\<close>

section \<open>The engine\<close>

record Condition =
  Type :: string
  Status :: string
  Reason :: string
  Message :: message
  LastTransitionTime :: time

record DpuOperatorConfig =
  Name :: string
  LogLevel :: int
  Conditions :: "Condition list"

record componentError =
  component :: string
  err :: go_error

record NvidiaDpfTranslationEngine =
  AdapterNamespace :: string

text \<open>\<open>TerminalError\<close> of controller-runtime and \<open>SetStatusCondition\<close> of the API machinery.\<close>

record machinery =
  TerminalError :: "go_error \<Rightarrow> go_error"
  SetStatusCondition :: "Condition list \<Rightarrow> Condition \<Rightarrow> Condition list"

definition line :: "string \<Rightarrow> string" where "line s = s @ [CHR 0x0A]"

definition GenerateValidDpfYaml ::
    "NvidiaDpfTranslationEngine \<Rightarrow> DpuOperatorConfig \<Rightarrow> string \<Rightarrow> string \<Rightarrow> string \<Rightarrow> string \<Rightarrow> string" where
  "GenerateValidDpfYaml e config bfbUrl chartName flavour fsMode =
     line ''apiVersion: ://nvidia.com'' @ line ''kind: DPUService'' @ line ''metadata:'' @ line ''  name: nvidia-translated-spec'' @
     line (''  namespace: '' @ AdapterNamespace e) @ line ''spec:'' @ line (''  clusterFlavour: '' @ flavour) @
     line (''  fileSystemMode: '' @ fsMode) @ line (''  targetBfbUrl: '' @ bfbUrl) @ line (''  helmChart: '' @ chartName) @
     ''  logLevel: '' @ itoa (LogLevel config)"

text \<open>The pass gives the errors and what it printed as the payload; the requeue result is always zero.\<close>

definition ReconcileNvidiaNode ::
    "machinery \<Rightarrow> NvidiaDpfTranslationEngine \<Rightarrow> DpuOperatorConfig \<Rightarrow> string \<Rightarrow> string \<Rightarrow> string \<Rightarrow> string \<Rightarrow> bool \<Rightarrow>
     componentError list \<times> string option" where
  "ReconcileNvidiaNode k e config bfbUrl chartName flavour fsMode secureBootMismatched =
     (if secureBootMismatched
      then ([\<lparr>component = ''NvidiaSecureBoot'',
               err = TerminalError k (Errorf ''terminal hardware security mismatch: manual intervention required'' [])\<rparr>], None)
      else if bfbUrl = '''' \<or> chartName = ''''
      then ([\<lparr>component = ''NvidiaTranslation'',
               err = Errorf ''target BlueField Bundle URL and Helm Chart parameters cannot be empty'' []\<rparr>], None)
      else ([], Some (GenerateValidDpfYaml e config bfbUrl chartName flavour fsMode)))"

definition ready_condition :: "componentError list \<Rightarrow> time \<Rightarrow> Condition" where
  "ready_condition reconcileErrors now = (case reconcileErrors of
       firstError # _ \<Rightarrow> \<lparr>Type = ''Ready'', Status = ''False'', Reason = component firstError @ ''Error'',
         Message = Sprintf ''%v'' [AErr (err firstError)], LastTransitionTime = now\<rparr>
     | [] \<Rightarrow> \<lparr>Type = ''Ready'', Status = ''True'', Reason = ''ComponentsReady'',
         Message = Text ''All NVIDIA DOCA and OPI components reconciled successfully.'', LastTransitionTime = now\<rparr>)"

definition updateStatus :: "machinery \<Rightarrow> DpuOperatorConfig \<Rightarrow> componentError list \<Rightarrow> time \<Rightarrow> DpuOperatorConfig" where
  "updateStatus k config reconcileErrors now =
     config\<lparr>Conditions := SetStatusCondition k (Conditions config) (ready_condition reconcileErrors now)\<rparr>"

text \<open>A stream of \<open>main\<close>: a pass and the status it leaves.\<close>

definition stream :: "machinery \<Rightarrow> NvidiaDpfTranslationEngine \<Rightarrow> DpuOperatorConfig \<Rightarrow> bool \<Rightarrow> time \<Rightarrow> DpuOperatorConfig" where
  "stream k e config mismatch now =
     updateStatus k config
       (fst (ReconcileNvidiaNode k e config ''https://mellanox.com'' ''doca-hbn'' ''OpenShift'' ''host-trusted'' mismatch)) now"

text \<open>The documented behaviour of the setter: the condition is there afterwards, conditions of other types are kept.\<close>

definition sets_conditions :: "machinery \<Rightarrow> bool" where
  "sets_conditions k = (\<forall>cs c. filter (\<lambda>x. Type x \<noteq> Type c) (SetStatusCondition k cs c) = filter (\<lambda>x. Type x \<noteq> Type c) cs \<and>
     (\<exists>t. \<forall>x \<in> set (SetStatusCondition k cs c). Type x = Type c \<longrightarrow> x = c\<lparr>LastTransitionTime := t\<rparr>) \<and>
     (\<exists>x \<in> set (SetStatusCondition k cs c). Type x = Type c))"

lemma pass_errors:
  "fst (ReconcileNvidiaNode k e config bfbUrl chartName flavour fsMode m) = [] \<longleftrightarrow> \<not> m \<and> bfbUrl \<noteq> '''' \<and> chartName \<noteq> ''''"
  by (simp add: ReconcileNvidiaNode_def)

text \<open>
  After a pass and its status update the configuration is Ready exactly when secure boot matches and both parameters are
  given; the first error is named in the reason, and conditions of other types stay.  Nothing is applied: the payload is
  only printed.\<close>

theorem ready_iff_parameters_given:
  assumes "sets_conditions k" and "x \<in> set (Conditions (updateStatus k config (fst (ReconcileNvidiaNode k e config u ch f fs m)) now))"
    and "Type x = ''Ready''"
  shows "(Status x = ''True'') = (\<not> m \<and> u \<noteq> '''' \<and> ch \<noteq> '''') \<and>
    Reason x = (if m then ''NvidiaSecureBootError'' else if u = '''' \<or> ch = '''' then ''NvidiaTranslationError'' else ''ComponentsReady'')"
proof -
  let ?c = "ready_condition (fst (ReconcileNvidiaNode k e config u ch f fs m)) now"
  have t: "Type ?c = ''Ready''" by (simp add: ready_condition_def split: list.splits)
  obtain t' where "\<forall>x \<in> set (SetStatusCondition k (Conditions config) ?c). Type x = Type ?c \<longrightarrow> x = ?c\<lparr>LastTransitionTime := t'\<rparr>"
    using assms(1) unfolding sets_conditions_def by blast
  then have "x = ?c\<lparr>LastTransitionTime := t'\<rparr>" using assms(2,3) t by (simp add: updateStatus_def)
  then show ?thesis by (auto simp: ready_condition_def ReconcileNvidiaNode_def)
qed

definition se_lib :: machinery where
  "se_lib = \<lparr>TerminalError = (\<lambda>e. Errorf ''terminal error: %w'' [AWrap e]),
     SetStatusCondition = (\<lambda>cs c. filter (\<lambda>x. Type x \<noteq> Type c) cs @ [c])\<rparr>"

lemma se_sets: "sets_conditions se_lib"
proof -
  have "\<exists>t. c = c\<lparr>LastTransitionTime := t\<rparr>" for c :: Condition by (rule exI [of _ "LastTransitionTime c"]) simp
  then show ?thesis unfolding sets_conditions_def se_lib_def by auto
qed

definition se_config :: DpuOperatorConfig where "se_config = \<lparr>Name = ''dpu-operator-config'', LogLevel = 0, Conditions = []\<rparr>"

theorem ready_iff_parameters_given_witness:
  "map Reason (Conditions (updateStatus se_lib se_config
     (fst (ReconcileNvidiaNode se_lib \<lparr>AdapterNamespace = ''n''\<rparr> se_config ''u'' '''' ''f'' ''h'' False)) 0)) = [''NvidiaTranslationError'']"
proof -
  let ?cs = "Conditions (updateStatus se_lib se_config
     (fst (ReconcileNvidiaNode se_lib \<lparr>AdapterNamespace = ''n''\<rparr> se_config ''u'' '''' ''f'' ''h'' False)) 0)"
  obtain x where x: "?cs = [x]" "Type x = ''Ready''"
    by (simp add: updateStatus_def se_lib_def se_config_def ready_condition_def ReconcileNvidiaNode_def)
  have "x \<in> set ?cs" using x by simp
  from ready_iff_parameters_given [OF se_sets this x(2)] x(1) show ?thesis by simp
qed

text \<open>
  The document is text without quoting: a line end inside a parameter makes the document of other parameters.\<close>

theorem payload_is_not_quoted:
  "GenerateValidDpfYaml e config u c (f @ [CHR 0x0A] @ ''  fileSystemMode: '' @ m) m' =
   GenerateValidDpfYaml e config u c f (m @ [CHR 0x0A] @ ''  fileSystemMode: '' @ m')"
  by (simp add: GenerateValidDpfYaml_def line_def)

section \<open>The phase reporter\<close>

record OpiDpuSpec =
  Vendor :: string
  Node :: string

record OpiDpu =
  dpu_Spec :: OpiDpuSpec
  dpu_Phase :: string

definition Translate :: "OpiDpuSpec \<Rightarrow> string" where
  "Translate opiSpec = (if Vendor opiSpec = ''nvidia'' then ''NVIDIA-DPF-Config-For-'' @ Node opiSpec else '''')"

text \<open>The phase and the lines it prints.\<close>

definition Reconcile :: "OpiDpu \<Rightarrow> string \<times> string list" where
  "Reconcile dpu =
     (if Vendor (dpu_Spec dpu) = ''nvidia''
      then (''Ready'', [''Starting Reconcile Loop for OPI DPU...'',
             ''[Adapter] Translated OPI spec to NVIDIA format: '' @ Translate (dpu_Spec dpu),
             ''[DPF] Triggering NVIDIA DPF Operator execution...''])
      else (''Ignored'', [''Starting Reconcile Loop for OPI DPU...'']))"

text \<open>The phase is the vendor's alone: it does not depend on the node, and the phase the unit had before is lost.\<close>

theorem phase_by_vendor: "fst (Reconcile (dpu\<lparr>dpu_Spec := \<lparr>Vendor = v, Node = n\<rparr>, dpu_Phase := p\<rparr>)) = (if v = ''nvidia'' then ''Ready'' else ''Ignored'')"
  by (simp add: Reconcile_def)

end
