(* ===== verification/CopyDiscipline.thy ===== *)
theory CopyDiscipline
  imports Prelude
begin

text \<open>
  The copies that the submissions write by hand for \<open>runtime.Object\<close> (\<open>DeepCopyInto\<close>, \<open>DeepCopy\<close>,
  \<open>DeepCopyObject\<close>), over a heap: which of them give an object of its own, and what the others share.  The copies
  that the API machinery generates (of \<open>ObjectMeta\<close>, \<open>ListMeta\<close> and \<open>Condition\<close>) are parameters.
\<close>

section \<open>Values, types and the heap\<close>

text \<open>
  A reference is a pointer, a slice or a map.  A pointer and a slice point to their elements (a pointer to one), a map
  to its entries; a slice is as long as its array, as decoding makes it.  A struct is a chain of fields.\<close>

datatype gval = Scalar string | Nil | Ref nat | Unit | Field string gval gval

datatype cell = Elems "gval list" | Entries "(string \<times> gval) list"

type_synonym heap = "cell list"

datatype ty = TyScalar | TyRef ty | TyUnit | TyField string ty ty

definition cell_values :: "cell \<Rightarrow> gval list" where
  "cell_values c = (case c of Elems xs \<Rightarrow> xs | Entries es \<Rightarrow> map snd es)"

fun has_ty :: "heap \<Rightarrow> ty \<Rightarrow> gval \<Rightarrow> bool" where
  "has_ty h TyScalar (Scalar s) = True"
| "has_ty h TyUnit Unit = True"
| "has_ty h (TyField k t u) (Field k' x r) = (k = k' \<and> has_ty h t x \<and> has_ty h u r)"
| "has_ty h (TyRef t) Nil = True"
| "has_ty h (TyRef t) (Ref a) = (a < length h \<and> list_all (has_ty h t) (cell_values (h ! a)))"
| "has_ty h _ _ = False"

text \<open>What a value reads as, addresses forgotten, and the addresses it reaches.\<close>

datatype image = IScalar string | INil | IElems "image list" | IEntries "(string \<times> image) list" | IUnit | IField string image image

fun image_of :: "heap \<Rightarrow> ty \<Rightarrow> gval \<Rightarrow> image" where
  "image_of h TyScalar (Scalar s) = IScalar s"
| "image_of h (TyField k t u) (Field k' x r) = IField k (image_of h t x) (image_of h u r)"
| "image_of h (TyRef t) (Ref a) = (case h ! a of
      Elems xs \<Rightarrow> IElems (map (image_of h t) xs)
    | Entries es \<Rightarrow> IEntries (zip (map fst es) (map (image_of h t) (map snd es))))"
| "image_of h (TyRef t) Nil = INil"
| "image_of h _ _ = IUnit"

fun refs :: "heap \<Rightarrow> ty \<Rightarrow> gval \<Rightarrow> nat set" where
  "refs h (TyField k t u) (Field k' x r) = refs h t x \<union> refs h u r"
| "refs h (TyRef t) (Ref a) = insert a (\<Union>x \<in> set (cell_values (h ! a)). refs h t x)"
| "refs h _ _ = {}"

fun flat :: "ty \<Rightarrow> bool" where
  "flat (TyRef t) = False"
| "flat (TyField k t u) = (flat t \<and> flat u)"
| "flat _ = True"

section \<open>Copying\<close>

type_synonym copier = "gval \<Rightarrow> heap \<Rightarrow> gval \<times> heap"

text \<open>An assignment copies the value as it is; a loop copies element by element, into a new array or map.\<close>

definition keep :: copier where "keep v h = (v, h)"

fun copy_list :: "copier \<Rightarrow> gval list \<Rightarrow> heap \<Rightarrow> gval list \<times> heap" where
  "copy_list f [] h = ([], h)"
| "copy_list f (x # xs) h = (case f x h of (y, h1) \<Rightarrow> case copy_list f xs h1 of (ys, h2) \<Rightarrow> (y # ys, h2))"

definition renew :: "cell \<Rightarrow> gval list \<Rightarrow> cell" where
  "renew c ys = (case c of Elems _ \<Rightarrow> Elems ys | Entries es \<Rightarrow> Entries (zip (map fst es) ys))"

definition clone :: "copier \<Rightarrow> copier" where
  "clone f v h = (case v of
      Ref a \<Rightarrow> (case copy_list f (cell_values (h ! a)) h of (ys, h1) \<Rightarrow> (Ref (length h1), h1 @ [renew (h ! a) ys]))
    | _ \<Rightarrow> (v, h))"

text \<open>\<open>*out = *in\<close>, then the fields with a copier of their own.\<close>

fun assign :: "(string \<times> copier) list \<Rightarrow> copier" where
  "assign cs (Field k x r) h =
     (case (case map_of cs k of None \<Rightarrow> keep | Some f \<Rightarrow> f) x h of (x', h1) \<Rightarrow>
        case assign cs r h1 of (r', h2) \<Rightarrow> (Field k x' r', h2))"
| "assign cs v h = (v, h)"

text \<open>
  A deep copy reads like the original, reaches only new cells, and leaves the heap as it was.\<close>

definition deep :: "ty \<Rightarrow> copier \<Rightarrow> bool" where
  "deep t f = (\<forall>v h v' h'. has_ty h t v \<longrightarrow> f v h = (v', h') \<longrightarrow>
     (\<exists>e. h' = h @ e) \<and> has_ty h' t v' \<and> image_of h' t v' = image_of h t v \<and> refs h' t v' \<subseteq> {length h..<length h'})"

lemma deep_refs: "deep t f \<Longrightarrow> has_ty h t v \<Longrightarrow> f v h = (v', h') \<Longrightarrow> refs h' t v' \<subseteq> {length h..<length h'}"
  unfolding deep_def by blast

lemma cell_values_renew [simp]: "length ys = length (cell_values c) \<Longrightarrow> cell_values (renew c ys) = ys"
  by (cases c) (auto simp: cell_values_def renew_def)

lemma grown:
  "has_ty h t v \<Longrightarrow> has_ty (h @ e) t v \<and> image_of (h @ e) t v = image_of h t v \<and> refs (h @ e) t v = refs h t v"
proof (induction h t v rule: has_ty.induct)
  case (5 h t a)
  then have a: "a < length h" and all: "\<forall>x \<in> set (cell_values (h ! a)). has_ty h t x" by (simp_all add: list_all_iff)
  have n: "(h @ e) ! a = h ! a" using a by (simp add: nth_append)
  note ih = 5(1) [OF _ bspec [OF all]]
  have i: "image_of (h @ e) t x = image_of h t x" if "x \<in> set (cell_values (h ! a))" for x using ih that by blast
  have r: "refs (h @ e) t x = refs h t x" if "x \<in> set (cell_values (h ! a))" for x using ih that by blast
  have "list_all (has_ty (h @ e) t) (cell_values (h ! a))" unfolding list_all_iff using ih by blast
  moreover have "image_of (h @ e) (TyRef t) (Ref a) = image_of h (TyRef t) (Ref a)"
    using n i by (cases "h ! a") (simp_all add: cell_values_def cong: map_cong)
  moreover have "refs (h @ e) (TyRef t) (Ref a) = refs h (TyRef t) (Ref a)" using n r by simp
  ultimately show ?case using a n by simp
qed auto

lemma typed_refs: "has_ty h t v \<Longrightarrow> refs h t v \<subseteq> {..<length h}"
  by (induction h t v rule: has_ty.induct) (fastforce simp: list_all_iff)+

lemma image_unchanged: "has_ty h t v \<Longrightarrow> a \<notin> refs h t v \<Longrightarrow> image_of (h[a := c]) t v = image_of h t v"
proof (induction h t v rule: has_ty.induct)
  case (5 h t b)
  then have n: "h[a := c] ! b = h ! b" by auto
  have i: "image_of (h[a := c]) t x = image_of h t x" if "x \<in> set (cell_values (h ! b))" for x
    using 5 that by (auto simp: list_all_iff)
  show ?case using n i by (cases "h ! b") (simp_all add: cell_values_def cong: map_cong)
qed auto

lemma flat_refs: "flat t \<Longrightarrow> refs h t v = {}"
  by (induction h t v rule: refs.induct) auto

text \<open>How deep copies are put together.\<close>

lemma deep_keep: "flat t \<Longrightarrow> deep t keep"
  by (auto simp: deep_def keep_def flat_refs)

lemma copy_list_deep:
  assumes "deep t f"
  shows "list_all (has_ty h t) xs \<Longrightarrow> copy_list f xs h = (ys, h') \<Longrightarrow> (\<exists>e. h' = h @ e) \<and> length ys = length xs \<and>
    list_all (has_ty h' t) ys \<and> map (image_of h' t) ys = map (image_of h t) xs \<and> (\<Union>y \<in> set ys. refs h' t y) \<subseteq> {length h..<length h'}"
proof (induction xs arbitrary: h ys h')
  case (Cons x xs)
  obtain y h1 where 1: "f x h = (y, h1)" by fastforce
  obtain zs h2 where 2: "copy_list f xs h1 = (zs, h2)" by fastforce
  have r: "ys = y # zs" "h' = h2" using Cons.prems(2) 1 2 by auto
  have "has_ty h t x" using Cons.prems(1) by simp
  with assms 1 obtain e where e: "h1 = h @ e" "has_ty h1 t y" "image_of h1 t y = image_of h t x" "refs h1 t y \<subseteq> {length h..<length h1}"
    unfolding deep_def by blast
  have all: "list_all (has_ty h1 t) xs" using Cons.prems(1) grown e(1) by (auto simp: list_all_iff)
  from Cons.IH [OF all 2] obtain e2 where e2: "h2 = h1 @ e2" and rest: "length zs = length xs" "list_all (has_ty h2 t) zs"
    "map (image_of h2 t) zs = map (image_of h1 t) xs" "(\<Union>y \<in> set zs. refs h2 t y) \<subseteq> {length h1..<length h2}" by blast
  have "map (image_of h1 t) xs = map (image_of h t) xs" using Cons.prems(1) grown e(1) by (auto simp: list_all_iff)
  moreover note grown [OF e(2), of e2]
  ultimately show ?case using r e e2 rest by auto
qed simp

lemma deep_clone:
  assumes "deep t f"
  shows "deep (TyRef t) (clone f)"
  unfolding deep_def
proof (intro allI impI)
  fix v h v' h'
  assume ty: "has_ty h (TyRef t) v" and c: "clone f v h = (v', h')"
  show "(\<exists>e. h' = h @ e) \<and> has_ty h' (TyRef t) v' \<and> image_of h' (TyRef t) v' = image_of h (TyRef t) v \<and> refs h' (TyRef t) v' \<subseteq> {length h..<length h'}"
  proof (cases v)
    case (Ref a)
    then have all: "list_all (has_ty h t) (cell_values (h ! a))" using ty by simp
    obtain ys h1 where 1: "copy_list f (cell_values (h ! a)) h = (ys, h1)" by fastforce
    have r: "v' = Ref (length h1)" "h' = h1 @ [renew (h ! a) ys]" using c Ref 1 by (auto simp: clone_def)
    from copy_list_deep [OF assms all 1] obtain e where e: "h1 = h @ e" "length ys = length (cell_values (h ! a))"
      "list_all (has_ty h1 t) ys" "map (image_of h1 t) ys = map (image_of h t) (cell_values (h ! a))"
      "(\<Union>y \<in> set ys. refs h1 t y) \<subseteq> {length h..<length h1}" by blast
    have g: "has_ty h' t y \<and> image_of h' t y = image_of h1 t y \<and> refs h' t y = refs h1 t y" if "y \<in> set ys" for y
      using grown [of h1 t y "[renew (h ! a) ys]"] e(3) that r(2) by (simp add: list_all_iff)
    have n: "h' ! length h1 = renew (h ! a) ys" using r(2) by simp
    have cv: "cell_values (renew (h ! a) ys) = ys" using e(2) by simp
    have i: "map (image_of h' t) ys = map (image_of h t) (cell_values (h ! a))" using g e(4) by (metis (no_types, lifting) map_eq_conv)
    have "image_of h' (TyRef t) v' = image_of h (TyRef t) v"
      using r(1) Ref n i e(2) by (cases "h ! a") (simp_all add: renew_def cell_values_def)
    moreover have "has_ty h' (TyRef t) v'" using r n cv g by (simp add: list_all_iff)
    moreover have "refs h' (TyRef t) v' \<subseteq> {length h..<length h'}" using r n cv g e(1,5) by auto
    ultimately show ?thesis using r(2) e(1) by simp
  qed (use ty c in \<open>simp_all add: clone_def\<close>)
qed

text \<open>A struct is copied in depth when every field is: by its own copier, or because it is flat.\<close>

fun struct_deep :: "(string \<times> copier) list \<Rightarrow> ty \<Rightarrow> bool" where
  "struct_deep cs (TyField k t u) = ((case map_of cs k of None \<Rightarrow> flat t | Some f \<Rightarrow> deep t f) \<and> struct_deep cs u)"
| "struct_deep cs TyUnit = True"
| "struct_deep cs _ = False"

lemma deep_assign: "struct_deep cs t \<Longrightarrow> deep t (assign cs)"
proof (induction cs t rule: struct_deep.induct)
  case (1 cs k t u)
  let ?f = "case map_of cs k of None \<Rightarrow> keep | Some f \<Rightarrow> f"
  have f: "deep t ?f" using 1(2) deep_keep by (auto split: option.splits)
  have u: "deep u (assign cs)" using 1 by simp
  show ?case
    unfolding deep_def
  proof (intro allI impI)
    fix v h v' h'
    assume ty: "has_ty h (TyField k t u) v" and c: "assign cs v h = (v', h')"
    obtain x r where v: "v = Field k x r" "has_ty h t x" "has_ty h u r" using ty by (cases v) auto
    obtain x' h1 where 1: "?f x h = (x', h1)" by fastforce
    obtain r' h2 where 2: "assign cs r h1 = (r', h2)" by fastforce
    have res: "v' = Field k x' r'" "h' = h2" using c v(1) 1 2 by auto
    from f v(2) 1 obtain e where e: "h1 = h @ e" "has_ty h1 t x'" "image_of h1 t x' = image_of h t x" "refs h1 t x' \<subseteq> {length h..<length h1}"
      unfolding deep_def by blast
    have r1: "has_ty h1 u r" "image_of h1 u r = image_of h u r" using grown [OF v(3)] e(1) by simp_all
    from u r1(1) 2 obtain e2 where e2: "h2 = h1 @ e2" "has_ty h2 u r'" "image_of h2 u r' = image_of h1 u r" "refs h2 u r' \<subseteq> {length h1..<length h2}"
      unfolding deep_def by blast
    note g = grown [OF e(2), of e2]
    show "(\<exists>e. h' = h @ e) \<and> has_ty h' (TyField k t u) v' \<and> image_of h' (TyField k t u) v' = image_of h (TyField k t u) v
      \<and> refs h' (TyField k t u) v' \<subseteq> {length h..<length h'}"
      using res v(1) e e2 r1 g by auto
  qed
next
  case (2 cs)
  show ?case unfolding deep_def by (auto elim: has_ty.elims)
qed simp_all


text \<open>What a deep copy is for: a write through the copy does not show in the original, and the other way round.\<close>

lemma deep_copy_is_separate:
  assumes "deep t f" and "has_ty h t v" and "f v h = (v', h')"
  shows "a \<in> refs h' t v' \<Longrightarrow> image_of (h'[a := c]) t v = image_of h t v"
    and "a \<in> refs h t v \<Longrightarrow> image_of (h'[a := c]) t v' = image_of h t v"
proof -
  from assms obtain e where e: "h' = h @ e" "has_ty h' t v'" "image_of h' t v' = image_of h t v" "refs h' t v' \<subseteq> {length h..<length h'}"
    unfolding deep_def by blast
  have g: "has_ty h' t v" "image_of h' t v = image_of h t v" "refs h' t v = refs h t v" using grown [OF assms(2)] e(1) by auto
  have old: "refs h t v \<subseteq> {..<length h}" by (rule typed_refs [OF assms(2)])
  show "image_of (h'[a := c]) t v = image_of h t v" if a: "a \<in> refs h' t v'"
  proof -
    have "a \<notin> refs h' t v" using subsetD [OF e(4) a] old g(3) by auto
    from image_unchanged [OF g(1) this] g(2) show ?thesis by simp
  qed
  show "image_of (h'[a := c]) t v' = image_of h t v" if a: "a \<in> refs h t v"
  proof -
    have "a \<notin> refs h' t v'" using subsetD [OF old a] e(4) by auto
    from image_unchanged [OF e(2) this] e(3) show ?thesis by simp
  qed
qed

section \<open>The copies of the API machinery\<close>

text \<open>
  The copies of \<open>ObjectMeta\<close>, \<open>ListMeta\<close> and \<open>Condition\<close> are generated, and so are their types; what the submissions
  rely on is that these copies are deep.  A condition holds strings, a number and a time.\<close>

record machinery =
  meta_ty :: ty
  list_meta_ty :: ty
  condition_ty :: ty
  copy_object_meta :: copier
  copy_list_meta :: copier
  copy_condition :: copier

definition machinery_copies :: "machinery \<Rightarrow> bool" where
  "machinery_copies g = (deep (meta_ty g) (copy_object_meta g) \<and> deep (list_meta_ty g) (copy_list_meta g) \<and> deep (condition_ty g) (copy_condition g)
     \<and> flat (condition_ty g))"

fun struct_ty :: "(string \<times> ty) list \<Rightarrow> ty" where
  "struct_ty [] = TyUnit"
| "struct_ty ((k, t) # fs) = TyField k t (struct_ty fs)"

definition strings_ty :: "string list \<Rightarrow> ty" where
  "strings_ty ks = struct_ty (map (\<lambda>k. (k, TyScalar)) ks)"

lemma flat_strings [simp]: "flat (strings_ty ks)"
  by (induction ks) (simp_all add: strings_ty_def)

definition type_meta_ty :: ty where "type_meta_ty = strings_ty [''Kind'', ''APIVersion'']"

definition object_ty :: "machinery \<Rightarrow> ty \<Rightarrow> ty \<Rightarrow> ty" where
  "object_ty g spec status = struct_ty [(''TypeMeta'', type_meta_ty), (''ObjectMeta'', meta_ty g), (''Spec'', spec), (''Status'', status)]"

definition list_ty :: "machinery \<Rightarrow> ty \<Rightarrow> ty" where
  "list_ty g t = struct_ty [(''TypeMeta'', type_meta_ty), (''ListMeta'', list_meta_ty g), (''Items'', TyRef t)]"

definition conditions_ty :: "machinery \<Rightarrow> ty" where
  "conditions_ty g = struct_ty [(''Conditions'', TyRef (condition_ty g))]"

lemmas copy_types = object_ty_def list_ty_def conditions_ty_def type_meta_ty_def

text \<open>The copiers of the metadata, of conditions and of a list, as most submissions write them.\<close>

lemma machinery_deep:
  assumes "machinery_copies g"
  shows "deep (meta_ty g) (copy_object_meta g)" "deep (list_meta_ty g) (copy_list_meta g)" "deep (TyRef (condition_ty g)) (clone (copy_condition g))"
    "deep (TyRef (condition_ty g)) (clone keep)" "deep (TyRef TyScalar) (clone keep)"
  using assms deep_clone [OF deep_keep] by (auto simp: machinery_copies_def intro: deep_clone)

section \<open>\<open>kartikey\<close>: the two mirrored kinds\<close>

definition ServiceFunctionChain_ty :: "machinery \<Rightarrow> ty" where
  "ServiceFunctionChain_ty g = object_ty g
     (struct_ty [(''NodeSelector'', TyRef TyScalar), (''NetworkFunctions'', TyRef (strings_ty [''Name'', ''Image'']))])
     (struct_ty [(''Conditions'', TyRef (condition_ty g)), (''ObservedGeneration'', TyScalar)])"

definition copy_chain :: "machinery \<Rightarrow> copier" where
  "copy_chain g = assign [(''ObjectMeta'', copy_object_meta g),
     (''Spec'', assign [(''NodeSelector'', clone keep), (''NetworkFunctions'', clone keep)]),
     (''Status'', assign [(''Conditions'', clone (copy_condition g))])]"

definition DeepCopy_chain :: "machinery \<Rightarrow> copier" where
  "DeepCopy_chain g = clone (copy_chain g)"

definition copy_chains :: "machinery \<Rightarrow> copier" where
  "copy_chains g = assign [(''ListMeta'', copy_list_meta g), (''Items'', clone (copy_chain g))]"

definition DeepCopy_chains :: "machinery \<Rightarrow> copier" where
  "DeepCopy_chains g = clone (copy_chains g)"

definition kartikey_dpu_ty :: "machinery \<Rightarrow> ty" where
  "kartikey_dpu_ty g = object_ty g (strings_ty [''DpuProductName'', ''IsDpuSide'', ''NodeName'']) (conditions_ty g)"

definition copy_kartikey_dpu :: "machinery \<Rightarrow> copier" where
  "copy_kartikey_dpu g = assign [(''ObjectMeta'', copy_object_meta g), (''Status'', assign [(''Conditions'', clone (copy_condition g))])]"

definition DeepCopy_kartikey_dpu :: "machinery \<Rightarrow> copier" where
  "DeepCopy_kartikey_dpu g = clone (copy_kartikey_dpu g)"

definition copy_kartikey_dpus :: "machinery \<Rightarrow> copier" where
  "copy_kartikey_dpus g = assign [(''ListMeta'', copy_list_meta g), (''Items'', clone (copy_kartikey_dpu g))]"

definition DeepCopy_kartikey_dpus :: "machinery \<Rightarrow> copier" where
  "DeepCopy_kartikey_dpus g = clone (copy_kartikey_dpus g)"

lemma deep_chain: "machinery_copies g \<Longrightarrow> deep (ServiceFunctionChain_ty g) (copy_chain g)"
  unfolding copy_chain_def ServiceFunctionChain_ty_def copy_types
  by (rule deep_assign) (simp add: machinery_deep deep_clone deep_keep deep_assign)

lemma deep_chains: "machinery_copies g \<Longrightarrow> deep (list_ty g (ServiceFunctionChain_ty g)) (copy_chains g)"
  unfolding copy_chains_def copy_types
  by (rule deep_assign) (simp add: machinery_deep deep_clone deep_chain)

lemma deep_kartikey_dpu: "machinery_copies g \<Longrightarrow> deep (kartikey_dpu_ty g) (copy_kartikey_dpu g)"
  unfolding copy_kartikey_dpu_def kartikey_dpu_ty_def copy_types
  by (rule deep_assign) (simp add: machinery_deep deep_assign)

lemma deep_kartikey_dpus: "machinery_copies g \<Longrightarrow> deep (list_ty g (kartikey_dpu_ty g)) (copy_kartikey_dpus g)"
  unfolding copy_kartikey_dpus_def copy_types
  by (rule deep_assign) (simp add: machinery_deep deep_clone deep_kartikey_dpu)

section \<open>\<open>SHUBHAM-CHAUHAN\<close>\<close>

definition shubham_dpu_ty :: "machinery \<Rightarrow> ty" where
  "shubham_dpu_ty g = object_ty g (strings_ty [''DpuProductName'', ''NodeName'']) (conditions_ty g)"

definition copy_shubham_status :: "machinery \<Rightarrow> copier" where
  "copy_shubham_status g = assign [(''Conditions'', clone (copy_condition g))]"

definition copy_shubham_dpu :: "machinery \<Rightarrow> copier" where
  "copy_shubham_dpu g = assign [(''ObjectMeta'', copy_object_meta g), (''Status'', copy_shubham_status g)]"

definition DeepCopy_shubham_dpu :: "machinery \<Rightarrow> copier" where
  "DeepCopy_shubham_dpu g = clone (copy_shubham_dpu g)"

definition copy_shubham_dpus :: "machinery \<Rightarrow> copier" where
  "copy_shubham_dpus g = assign [(''ListMeta'', copy_list_meta g), (''Items'', clone (copy_shubham_dpu g))]"

definition DeepCopy_shubham_dpus :: "machinery \<Rightarrow> copier" where
  "DeepCopy_shubham_dpus g = clone (copy_shubham_dpus g)"

lemma deep_shubham_dpu: "machinery_copies g \<Longrightarrow> deep (shubham_dpu_ty g) (copy_shubham_dpu g)"
  unfolding copy_shubham_dpu_def copy_shubham_status_def shubham_dpu_ty_def copy_types
  by (rule deep_assign) (simp add: machinery_deep deep_assign)

lemma deep_shubham_dpus: "machinery_copies g \<Longrightarrow> deep (list_ty g (shubham_dpu_ty g)) (copy_shubham_dpus g)"
  unfolding copy_shubham_dpus_def copy_types
  by (rule deep_assign) (simp add: machinery_deep deep_clone deep_shubham_dpu)

section \<open>\<open>sofia-nazir\<close>: the cluster of the API package, and the three kinds of the skeleton\<close>

definition DPUCluster_ty :: "machinery \<Rightarrow> ty" where
  "DPUCluster_ty g = object_ty g
     (struct_ty [(''Vendor'', TyScalar), (''NetworkOffloadMode'', TyScalar), (''BFB'', TyScalar), (''DpuFlavor'', TyScalar),
        (''NodeSelector'', TyRef TyScalar), (''VpcName'', TyScalar)])
     (struct_ty [(''Ready'', TyScalar), (''Phase'', TyScalar), (''Conditions'', TyRef (condition_ty g))])"

definition copy_cluster_spec :: copier where
  "copy_cluster_spec = assign [(''NodeSelector'', clone keep)]"

definition copy_cluster_status :: "machinery \<Rightarrow> copier" where
  "copy_cluster_status g = assign [(''Conditions'', clone (copy_condition g))]"

definition copy_cluster :: "machinery \<Rightarrow> copier" where
  "copy_cluster g = assign [(''ObjectMeta'', copy_object_meta g), (''Spec'', copy_cluster_spec), (''Status'', copy_cluster_status g)]"

definition DeepCopy_cluster :: "machinery \<Rightarrow> copier" where
  "DeepCopy_cluster g = clone (copy_cluster g)"

definition copy_clusters :: "machinery \<Rightarrow> copier" where
  "copy_clusters g = assign [(''ListMeta'', copy_list_meta g), (''Items'', clone (copy_cluster g))]"

definition DeepCopy_clusters :: "machinery \<Rightarrow> copier" where
  "DeepCopy_clusters g = clone (copy_clusters g)"

text \<open>The skeleton copies its own cluster type, of the same fields, in the same way.\<close>

definition copy_skeleton_cluster_spec :: copier where
  "copy_skeleton_cluster_spec = assign [(''NodeSelector'', clone keep)]"

definition copy_skeleton_cluster_status :: "machinery \<Rightarrow> copier" where
  "copy_skeleton_cluster_status g = assign [(''Conditions'', clone (copy_condition g))]"

definition copy_skeleton_cluster :: "machinery \<Rightarrow> copier" where
  "copy_skeleton_cluster g = assign [(''ObjectMeta'', copy_object_meta g), (''Spec'', copy_skeleton_cluster_spec), (''Status'', copy_skeleton_cluster_status g)]"

definition DeepCopy_skeleton_cluster :: "machinery \<Rightarrow> copier" where
  "DeepCopy_skeleton_cluster g = clone (copy_skeleton_cluster g)"

lemma skeleton_copies_alike: "DeepCopy_skeleton_cluster = DeepCopy_cluster"
  by (simp add: fun_eq_iff DeepCopy_skeleton_cluster_def DeepCopy_cluster_def copy_skeleton_cluster_def copy_cluster_def
      copy_skeleton_cluster_spec_def copy_cluster_spec_def copy_skeleton_cluster_status_def copy_cluster_status_def)

definition sofia_set_ty :: "machinery \<Rightarrow> ty" where
  "sofia_set_ty g = object_ty g
     (struct_ty [(''DpuNodeSelector'', TyRef TyScalar), (''BFB'', TyScalar), (''Flavor'', TyScalar)])
     (strings_ty [''Ready'', ''Phase'', ''Message''])"

definition copy_sofia_set_spec :: copier where
  "copy_sofia_set_spec = assign [(''DpuNodeSelector'', clone keep)]"

definition copy_sofia_set :: "machinery \<Rightarrow> copier" where
  "copy_sofia_set g = assign [(''ObjectMeta'', copy_object_meta g), (''Spec'', copy_sofia_set_spec)]"

definition DeepCopy_sofia_set :: "machinery \<Rightarrow> copier" where
  "DeepCopy_sofia_set g = clone (copy_sofia_set g)"

definition sofia_service_ty :: "machinery \<Rightarrow> ty" where
  "sofia_service_ty g = object_ty g (strings_ty [''ServiceType'', ''Config'', ''DPUSetName'']) (strings_ty [''Ready'', ''ActiveServices''])"

definition copy_sofia_service :: "machinery \<Rightarrow> copier" where
  "copy_sofia_service g = assign [(''ObjectMeta'', copy_object_meta g)]"

definition DeepCopy_sofia_service :: "machinery \<Rightarrow> copier" where
  "DeepCopy_sofia_service g = clone (copy_sofia_service g)"

lemma deep_cluster: "machinery_copies g \<Longrightarrow> deep (DPUCluster_ty g) (copy_cluster g)"
  unfolding copy_cluster_def copy_cluster_spec_def copy_cluster_status_def DPUCluster_ty_def copy_types
  by (rule deep_assign) (simp add: machinery_deep deep_assign)

lemma deep_clusters: "machinery_copies g \<Longrightarrow> deep (list_ty g (DPUCluster_ty g)) (copy_clusters g)"
  unfolding copy_clusters_def copy_types
  by (rule deep_assign) (simp add: machinery_deep deep_clone deep_cluster)

lemma deep_sofia_set: "machinery_copies g \<Longrightarrow> deep (sofia_set_ty g) (copy_sofia_set g)"
  unfolding copy_sofia_set_def copy_sofia_set_spec_def sofia_set_ty_def copy_types
  by (rule deep_assign) (simp add: machinery_deep deep_assign)

lemma deep_sofia_service: "machinery_copies g \<Longrightarrow> deep (sofia_service_ty g) (copy_sofia_service g)"
  unfolding copy_sofia_service_def sofia_service_ty_def copy_types
  by (rule deep_assign) (simp add: machinery_deep)

section \<open>\<open>vedant21-ctr\<close>, \<open>vimla-choudhary\<close> and the device of \<open>jasmine-kaur\<close>\<close>

definition vedant_dpu_ty :: "machinery \<Rightarrow> ty" where
  "vedant_dpu_ty g = object_ty g (strings_ty [''DpuProductName'', ''NodeName'']) (conditions_ty g)"

definition copy_vedant_dpu :: "machinery \<Rightarrow> copier" where
  "copy_vedant_dpu g = assign [(''ObjectMeta'', copy_object_meta g), (''Status'', assign [(''Conditions'', clone (copy_condition g))])]"

definition DeepCopyObject_vedant_dpu :: "machinery \<Rightarrow> copier" where
  "DeepCopyObject_vedant_dpu g = clone (copy_vedant_dpu g)"

text \<open>The list asks every element for a copy and dereferences it.\<close>

definition DeepCopyObject_vedant_dpus :: "machinery \<Rightarrow> copier" where
  "DeepCopyObject_vedant_dpus g = clone (assign [(''ListMeta'', copy_list_meta g), (''Items'', clone (copy_vedant_dpu g))])"

definition vedant_set_ty :: "machinery \<Rightarrow> ty" where
  "vedant_set_ty g = object_ty g
     (struct_ty [(''NodeSelector'', TyRef TyScalar), (''FlavorRef'', TyScalar), (''BFBRef'', TyScalar)]) (strings_ty [''Phase''])"

definition copy_vedant_set :: "machinery \<Rightarrow> copier" where
  "copy_vedant_set g = assign [(''ObjectMeta'', copy_object_meta g), (''Spec'', assign [(''NodeSelector'', clone keep)])]"

definition DeepCopyObject_vedant_set :: "machinery \<Rightarrow> copier" where
  "DeepCopyObject_vedant_set g = clone (copy_vedant_set g)"

definition DeepCopyObject_vedant_sets :: "machinery \<Rightarrow> copier" where
  "DeepCopyObject_vedant_sets g = clone (assign [(''ListMeta'', copy_list_meta g), (''Items'', clone (copy_vedant_set g))])"

definition Dpu_ty :: "machinery \<Rightarrow> ty" where
  "Dpu_ty g = object_ty g
     (struct_ty [(''Vendor'', TyScalar), (''Nvidia'', struct_ty [(''BFBVersion'', TyScalar), (''DOCAProfile'', TyScalar), (''DPUSetSelector'', TyRef TyScalar)])])
     (strings_ty [''Phase''])"

definition DeepCopyObject_Dpu :: "machinery \<Rightarrow> copier" where
  "DeepCopyObject_Dpu g = clone (assign [(''ObjectMeta'', copy_object_meta g),
     (''Spec'', assign [(''Nvidia'', assign [(''DPUSetSelector'', clone keep)])])])"

text \<open>The conditions of the device are copied by value, which is deep because a condition is flat.\<close>

definition OpiDpuDevice_ty :: "machinery \<Rightarrow> ty" where
  "OpiDpuDevice_ty g = object_ty g
     (struct_ty [(''Vendor'', TyScalar), (''DPUSelector'', strings_ty [''NodeName'']), (''BFB'', strings_ty [''FirmwareVersion'', ''ImageURL'']),
        (''Networking'', strings_ty [''Mode'', ''OVNBridge'']), (''Resources'', strings_ty [''Hugepages'', ''VFCount''])])
     (struct_ty [(''Phase'', TyScalar), (''Conditions'', TyRef (condition_ty g)), (''ObservedGeneration'', TyScalar)])"

definition DeepCopyObject_OpiDpuDevice :: "machinery \<Rightarrow> copier" where
  "DeepCopyObject_OpiDpuDevice g = clone (assign [(''ObjectMeta'', copy_object_meta g), (''Status'', assign [(''Conditions'', clone keep)])])"

lemma deep_vedant_dpu: "machinery_copies g \<Longrightarrow> deep (vedant_dpu_ty g) (copy_vedant_dpu g)"
  unfolding copy_vedant_dpu_def vedant_dpu_ty_def copy_types
  by (rule deep_assign) (simp add: machinery_deep deep_assign)

lemma deep_vedant_dpus: "machinery_copies g \<Longrightarrow> deep (TyRef (list_ty g (vedant_dpu_ty g))) (DeepCopyObject_vedant_dpus g)"
  unfolding DeepCopyObject_vedant_dpus_def copy_types
  by (rule deep_clone, rule deep_assign) (simp add: machinery_deep deep_clone deep_vedant_dpu)

lemma deep_vedant_set: "machinery_copies g \<Longrightarrow> deep (vedant_set_ty g) (copy_vedant_set g)"
  unfolding copy_vedant_set_def vedant_set_ty_def copy_types
  by (rule deep_assign) (simp add: machinery_deep deep_assign)

lemma deep_vedant_sets: "machinery_copies g \<Longrightarrow> deep (TyRef (list_ty g (vedant_set_ty g))) (DeepCopyObject_vedant_sets g)"
  unfolding DeepCopyObject_vedant_sets_def copy_types
  by (rule deep_clone, rule deep_assign) (simp add: machinery_deep deep_clone deep_vedant_set)

lemma deep_Dpu: "machinery_copies g \<Longrightarrow> deep (TyRef (Dpu_ty g)) (DeepCopyObject_Dpu g)"
  unfolding DeepCopyObject_Dpu_def Dpu_ty_def copy_types
  by (rule deep_clone, rule deep_assign) (simp add: machinery_deep deep_assign)

lemma deep_OpiDpuDevice:
  "machinery_copies g \<Longrightarrow> deep (TyRef (OpiDpuDevice_ty g)) (DeepCopyObject_OpiDpuDevice g)"
  unfolding DeepCopyObject_OpiDpuDevice_def OpiDpuDevice_ty_def copy_types
  by (rule deep_clone, rule deep_assign) (simp add: machinery_deep deep_assign)

text \<open>The hypothesis on the machinery can hold: metadata with a map of labels, conditions of strings.\<close>

lemma machinery_can_hold:
  "machinery_copies \<lparr>meta_ty = struct_ty [(''Name'', TyScalar), (''Labels'', TyRef TyScalar)], list_meta_ty = strings_ty [''ResourceVersion''],
     condition_ty = strings_ty [''Type'', ''Status''], copy_object_meta = assign [(''Labels'', clone keep)],
     copy_list_meta = keep, copy_condition = keep\<rparr>"
  unfolding machinery_copies_def
  by (auto intro!: deep_keep deep_assign deep_clone)

section \<open>Copies that share\<close>

text \<open>
  A method with a pointer receiver that starts with \<open>out := *in\<close> panics on nil.  \<open>append([]T(nil), xs...)\<close> is nil for
  an empty slice, and \<open>make([]T, len(xs))\<close> is not nil for a nil one.\<close>

definition dereferenced :: "copier \<Rightarrow> gval \<Rightarrow> heap \<Rightarrow> (gval \<times> heap) option" where
  "dereferenced f v h = (case v of Ref a \<Rightarrow> Some (clone f v h) | _ \<Rightarrow> None)"

definition append_nil :: copier where
  "append_nil v h = (case v of Ref a \<Rightarrow> if cell_values (h ! a) = [] then (Nil, h) else clone keep v h | _ \<Rightarrow> (v, h))"

definition made :: "copier \<Rightarrow> copier" where
  "made f v h = (case v of Nil \<Rightarrow> (Ref (length h), h @ [Elems []]) | _ \<Rightarrow> clone f v h)"

text \<open>\<open>mridankan-mandal\<close> and \<open>Lokesh\<close> copy the conditions, and the metadata stays shared.\<close>

definition copy_mridankan_dpu :: copier where
  "copy_mridankan_dpu = assign [(''Status'', assign [(''Conditions'', append_nil)])]"

definition DeepCopyObject_mridankan_dpu :: "gval \<Rightarrow> heap \<Rightarrow> (gval \<times> heap) option" where
  "DeepCopyObject_mridankan_dpu = dereferenced copy_mridankan_dpu"

definition DeepCopyObject_mridankan_dpus :: "gval \<Rightarrow> heap \<Rightarrow> (gval \<times> heap) option" where
  "DeepCopyObject_mridankan_dpus = dereferenced (assign [(''Items'', made copy_mridankan_dpu)])"

definition copy_profile :: copier where
  "copy_profile = assign [(''Status'', assign [(''Conditions'', append_nil)])]"

definition DeepCopyObject_profile :: "gval \<Rightarrow> heap \<Rightarrow> (gval \<times> heap) option" where
  "DeepCopyObject_profile = dereferenced copy_profile"

definition DeepCopyObject_profiles :: "gval \<Rightarrow> heap \<Rightarrow> (gval \<times> heap) option" where
  "DeepCopyObject_profiles = dereferenced (assign [(''Items'', made copy_profile)])"

text \<open>The kinds of \<open>Ayush-Bhandari\<close> and of \<open>Vinay_Kumar\<close>, and the NVIDIA kinds of \<open>jasmine-kaur\<close>: \<open>o := *in; return &o\<close>.\<close>

definition DeepCopyObject_ayush :: "gval \<Rightarrow> heap \<Rightarrow> (gval \<times> heap) option" where
  "DeepCopyObject_ayush = dereferenced keep"

definition DeepCopyObject_OpiResource :: "gval \<Rightarrow> heap \<Rightarrow> (gval \<times> heap) option" where
  "DeepCopyObject_OpiResource = dereferenced keep"

definition DeepCopyObject_DPUService :: "gval \<Rightarrow> heap \<Rightarrow> (gval \<times> heap) option" where
  "DeepCopyObject_DPUService = dereferenced keep"

definition DeepCopyObject_BFB :: "gval \<Rightarrow> heap \<Rightarrow> (gval \<times> heap) option" where
  "DeepCopyObject_BFB = dereferenced keep"

definition DeepCopyObject_DPUSet :: "gval \<Rightarrow> heap \<Rightarrow> (gval \<times> heap) option" where
  "DeepCopyObject_DPUSet = dereferenced keep"

definition DeepCopyObject_DPFOperatorConfig :: "gval \<Rightarrow> heap \<Rightarrow> (gval \<times> heap) option" where
  "DeepCopyObject_DPFOperatorConfig = dereferenced keep"

lemmas shallow_copies = DeepCopyObject_ayush_def DeepCopyObject_OpiResource_def DeepCopyObject_DPUService_def
  DeepCopyObject_BFB_def DeepCopyObject_DPUSet_def DeepCopyObject_DPFOperatorConfig_def

text \<open>\<open>rohit-s\<close>: \<open>return in\<close>.\<close>

definition DeepCopyObject_rohit :: copier where
  "DeepCopyObject_rohit = keep"

text \<open>What \<open>*out = *in\<close> leaves alone is the same value in the copy.\<close>

fun field :: "string \<Rightarrow> gval \<Rightarrow> gval option" where
  "field k (Field k' x r) = (if k = k' then Some x else field k r)"
| "field k v = None"

lemma field_kept: "map_of cs k = None \<Longrightarrow> assign cs v h = (v', h') \<Longrightarrow> field k v' = field k v"
  by (induction cs v h arbitrary: v' h' rule: assign.induct) (auto simp: keep_def split: prod.splits option.splits)

lemma keep_list [simp]: "copy_list keep xs h = (xs, h)"
  by (induction xs) (simp_all add: keep_def)

lemma renew_same [simp]: "renew c (cell_values c) = c"
  by (cases c) (simp_all add: renew_def cell_values_def zip_map_fst_snd)

lemma one_field_replaced:
  assumes "dereferenced (assign cs) (Ref a) h = Some (w, h')" and "h ! a = Elems [x]" and "map_of cs k = None"
  shows "\<exists>b x'. w = Ref b \<and> h' ! b = Elems [x'] \<and> field k x' = field k x"
  using assms by (auto simp: dereferenced_def clone_def cell_values_def renew_def dest: field_kept split: prod.splits)

text \<open>
  The copy of a DPU, or of a profile, holds the metadata of the original: the same references to labels and
  annotations.\<close>

theorem metadata_is_shared:
  assumes "h ! a = Elems [x]" and "DeepCopyObject_mridankan_dpu (Ref a) h = Some (w, h') \<or> DeepCopyObject_profile (Ref a) h = Some (w, h')"
  shows "\<exists>b x'. w = Ref b \<and> h' ! b = Elems [x'] \<and> field ''ObjectMeta'' x' = field ''ObjectMeta'' x"
  using one_field_replaced [OF _ assms(1), of "[(''Status'', assign [(''Conditions'', append_nil)])]" w h' "''ObjectMeta''"] assms(2)
  unfolding DeepCopyObject_mridankan_dpu_def DeepCopyObject_profile_def copy_mridankan_dpu_def copy_profile_def by simp

text \<open>Their conditions are new, in a slice that reads the same; an empty slice becomes nil.\<close>

lemma conditions_are_new:
  assumes "append_nil (Ref a) h = (v', h')" and "flat t"
  shows "refs h' (TyRef t) v' \<subseteq> {length h..<length h'} \<and> (case v' of Ref b \<Rightarrow> h' ! b = h ! a | _ \<Rightarrow> cell_values (h ! a) = [])"
  using assms by (auto simp: append_nil_def clone_def flat_refs split: if_splits)

text \<open>Every type has a value; one that is not flat has a value with a reference.\<close>

fun sample :: "ty \<Rightarrow> gval" where
  "sample TyScalar = Scalar ''''"
| "sample TyUnit = Unit"
| "sample (TyField k t u) = Field k (sample t) (sample u)"
| "sample (TyRef t) = Ref 0"

lemma sample_reaches: "\<not> flat t \<Longrightarrow> 0 \<in> refs h t (sample t)"
  by (induction t) auto

lemma sample_typed: "h \<noteq> [] \<Longrightarrow> h ! 0 = Elems [] \<Longrightarrow> has_ty h t (sample t)"
  by (induction t) (auto simp: cell_values_def)

text \<open>An assignment is a deep copy exactly of values without references, and so is \<open>o := *in; return &o\<close>.\<close>

theorem assignment_is_deep_iff_flat: "deep t keep \<longleftrightarrow> flat t"
proof
  assume d: "deep t keep"
  show "flat t"
  proof (rule ccontr)
    assume n: "\<not> flat t"
    have "refs [Elems []] t (sample t) \<subseteq> {}" using deep_refs [OF d sample_typed keep_def, of "[Elems []]"] by simp
    then show False using sample_reaches [OF n] by blast
  qed
qed (rule deep_keep)

theorem dereferenced_copy_is_deep_iff_flat: "deep (TyRef t) (clone keep) \<longleftrightarrow> flat t"
proof
  let ?h = "[Elems [], Elems [sample t]]"
  let ?h2 = "?h @ [Elems [sample t]]"
  assume d: "deep (TyRef t) (clone keep)"
  show "flat t"
  proof (rule ccontr)
    assume n: "\<not> flat t"
    have ty: "has_ty ?h (TyRef t) (Ref 1)" by (simp add: cell_values_def sample_typed)
    have c: "clone keep (Ref 1) ?h = (Ref 2, ?h2)" by (simp add: clone_def)
    have "refs ?h2 (TyRef t) (Ref 2) \<subseteq> {length ?h..<length ?h2}" by (rule deep_refs [OF d ty c])
    moreover have "0 \<in> refs ?h2 (TyRef t) (Ref 2)" using sample_reaches [OF n] by (simp add: cell_values_def)
    ultimately show False by auto
  qed
qed (rule deep_clone [OF deep_keep])

text \<open>The metadata of Kubernetes has maps, so no kind is copied in depth this way.\<close>

lemma object_not_flat: "\<not> flat (meta_ty g) \<Longrightarrow> \<not> deep (TyRef (object_ty g spec status)) (clone keep)"
  by (simp add: dereferenced_copy_is_deep_iff_flat object_ty_def)

text \<open>
  A copy that only assigns shares every map and slice: after any write to a cell that is older than the copy, other than
  the object itself, the copy and the original are still equal.\<close>

theorem shallow_copy_shares:
  assumes "a < length h" and "DeepCopyObject_ayush (Ref a) h = Some (Ref b, h')" and "r < length h" and "r \<noteq> a"
  shows "b \<noteq> a \<and> h'[r := c] ! b = h'[r := c] ! a"
  using assms by (auto simp: shallow_copies dereferenced_def clone_def nth_append list_update_append)

text \<open>And a copy that returns its argument is never one.\<close>

theorem returning_the_receiver_is_no_copy: "\<not> deep (TyRef t) DeepCopyObject_rohit"
  unfolding DeepCopyObject_rohit_def by (simp add: assignment_is_deep_iff_flat)

text \<open>For the chain of \<open>kartikey\<close>, whose reconcilers change the copy: the object in the cache stays as it is.\<close>

theorem chain_copy_is_separate:
  assumes "machinery_copies g" and "has_ty h (TyRef (ServiceFunctionChain_ty g)) v" and "DeepCopy_chain g v h = (v', h')"
    and "a \<in> refs h' (TyRef (ServiceFunctionChain_ty g)) v'"
  shows "image_of (h'[a := c]) (TyRef (ServiceFunctionChain_ty g)) v = image_of h (TyRef (ServiceFunctionChain_ty g)) v"
  using deep_copy_is_separate(1) [OF deep_clone [OF deep_chain [OF assms(1)]] assms(2) _ assms(4)] assms(3)
  by (simp add: DeepCopy_chain_def)


end
