(* ===== verification/EnvtestClient.thy ===== *)
theory EnvtestClient
  imports DpfClient KubeObjects
begin

text \<open>
  \<open>aditya-sarna/envtest_client.go\<close>: the second implementation of \<open>DPFClient\<close>, which keeps the objects in an API
  server as \<open>unstructured.Unstructured\<close>.  What it reads back are objects whose spec holds JSON values.  Strings are
  valid UTF-8, which \<open>encoding/json\<close> keeps as they are.
\<close>

section \<open>Objects and JSON\<close>

text \<open>The accessors of an unstructured object, and its other top-level fields.\<close>

record env_object =
  e_GVK :: GroupVersionKind
  e_Namespace :: string
  e_Name :: string
  e_Labels :: "string gomap"
  e_Version :: string
  e_Object :: "json gomap"

text \<open>\<open>json.Marshal\<close> and \<open>json.Unmarshal\<close> of the values of a spec, none of which can fail.\<close>

fun to_json :: "any \<Rightarrow> json" where
  "to_json (VStr s) = JString s"
| "to_json (VBool b) = JBool b"
| "to_json (VInt32 i) = JNumber (sint i)"
| "to_json (VStrs xs) = JArray (map JString xs)"
| "to_json (VStrMap m) = JObject (map (\<lambda>(k, v). (k, JString v)) m)"
| "to_json (VMap m) = JObject (map (map_prod id to_json) m)"
| "to_json (VList xs) = JArray (map to_json xs)"

definition normalizeSpec :: "any gomap \<Rightarrow> json gomap" where
  "normalizeSpec m = map (map_prod id to_json) m"

text \<open>\<open>fmt.Sprint\<close> of a value; an absent entry of a map reads as nil.\<close>

fun joined_with :: "string \<Rightarrow> string list \<Rightarrow> string" where
  "joined_with sep [] = ''''"
| "joined_with sep [x] = x"
| "joined_with sep (x # xs) = x @ sep @ joined_with sep xs"

fun Sprint :: "json \<Rightarrow> string" where
  "Sprint (JString s) = s"
| "Sprint (JNumber n) = itoa n"
| "Sprint (JBool b) = (if b then ''true'' else ''false'')"
| "Sprint JNull = ''<nil>''"
| "Sprint (JArray xs) = ''['' @ joined_with '' '' (map Sprint xs) @ '']''"
| "Sprint (JObject m) = ''map['' @ joined_with '' '' (map (\<lambda>(k, s). k @ '':'' @ s) (sort_key fst (map (map_prod id Sprint) m))) @ '']''"

definition printed :: "json gomap \<Rightarrow> string \<Rightarrow> string" where
  "printed m k = Sprint (case map_of m k of None \<Rightarrow> JNull | Some v \<Rightarrow> v)"

section \<open>Conversions\<close>

definition condition_json :: "(message \<Rightarrow> string) \<Rightarrow> Condition \<Rightarrow> json" where
  "condition_json txt c = JObject [(''type'', JString (Type c)), (''status'', JString (if Status c then ''True'' else ''False'')),
     (''reason'', JString (Reason c)), (''message'', JString (txt (Message c)))]"

definition toUnstructured :: "(message \<Rightarrow> string) \<Rightarrow> DPFObject \<Rightarrow> env_object" where
  "toUnstructured txt x = \<lparr>e_GVK = GVK x, e_Namespace = Namespace x, e_Name = Name x, e_Labels = Labels x, e_Version = '''',
     e_Object = (''spec'', JObject (normalizeSpec (Spec x))) #
       (if conditions_of x = [] then [] else [(''status'', JObject [(''conditions'', JArray (map (condition_json txt) (conditions_of x)))])])\<rparr>"

text \<open>What the conversion back gives: a \<open>DPFObject\<close> whose spec is JSON.\<close>

record ApiObject =
  a_GVK :: GroupVersionKind
  a_Namespace :: string
  a_Name :: string
  a_Labels :: "string gomap"
  a_Spec :: "json gomap"
  a_Conditions :: "Condition list"

definition nested_map :: "json gomap \<Rightarrow> string \<Rightarrow> json gomap" where
  "nested_map m k = (case map_of m k of Some (JObject n) \<Rightarrow> n | _ \<Rightarrow> [])"

definition nested_slice :: "json gomap \<Rightarrow> string \<Rightarrow> string \<Rightarrow> json list" where
  "nested_slice m k l = (case map_of (nested_map m k) l of Some (JArray xs) \<Rightarrow> xs | _ \<Rightarrow> [])"

definition read_condition :: "json \<Rightarrow> Condition option" where
  "read_condition rc = (case rc of
       JObject m \<Rightarrow> Some \<lparr>Type = printed m ''type'', Status = (printed m ''status'' = ''True''), Reason = printed m ''reason'',
         Message = Text (printed m ''message'')\<rparr>
     | _ \<Rightarrow> None)"

definition read_conditions :: "json gomap \<Rightarrow> Condition list" where
  "read_conditions m = List.map_filter read_condition (nested_slice m ''status'' ''conditions'')"

definition fromUnstructured :: "env_object \<Rightarrow> ApiObject" where
  "fromUnstructured u = \<lparr>a_GVK = e_GVK u, a_Namespace = e_Namespace u, a_Name = e_Name u, a_Labels = e_Labels u,
     a_Spec = nested_map (e_Object u) ''spec'', a_Conditions = read_conditions (e_Object u)\<rparr>"

text \<open>There and back: everything returns, the spec as JSON and messages as text.\<close>

theorem unstructured_round_trip:
  "fromUnstructured (toUnstructured txt x) = \<lparr>a_GVK = GVK x, a_Namespace = Namespace x, a_Name = Name x, a_Labels = Labels x,
     a_Spec = normalizeSpec (Spec x), a_Conditions = map (\<lambda>c. c\<lparr>Message := Text (txt (Message c))\<rparr>) (conditions_of x)\<rparr>"
proof -
  have "read_condition (condition_json txt c) = Some (c\<lparr>Message := Text (txt (Message c))\<rparr>)" for c
    by (cases c) (simp add: read_condition_def condition_json_def printed_def)
  then have "List.map_filter read_condition (map (condition_json txt) cs) = map (\<lambda>c. c\<lparr>Message := Text (txt (Message c))\<rparr>) cs" for cs
    by (induction cs) (simp_all add: List.map_filter_def)
  then show ?thesis
    by (simp add: fromUnstructured_def toUnstructured_def read_conditions_def nested_slice_def nested_map_def List.map_filter_def)
qed

text \<open>A condition without a reason or a message reads as one whose reason or message is the text \<open><nil>\<close>.\<close>

theorem absent_reason_reads_as_nil:
  assumes "map_of m ''reason'' = None"
  shows "\<exists>c. read_condition (JObject m) = Some c \<and> Reason c = ''<nil>''"
  using assms by (simp add: read_condition_def printed_def)

section \<open>The client\<close>

text \<open>The calls of \<open>client.Client\<close> on unstructured objects, and what \<open>IgnoreNotFound\<close> and \<open>IgnoreAlreadyExists\<close> recognise.\<close>

record 'w kube =
  kGet :: "GroupVersionKind \<Rightarrow> string \<Rightarrow> string \<Rightarrow> 'w \<Rightarrow> (go_error + env_object) \<times> 'w"
  kList :: "GroupVersionKind \<Rightarrow> string option \<Rightarrow> string gomap option \<Rightarrow> 'w \<Rightarrow> (go_error + env_object list) \<times> 'w"
  kCreate :: "env_object \<Rightarrow> 'w \<Rightarrow> go_error option \<times> 'w"
  kPatch :: "env_object \<Rightarrow> string \<Rightarrow> 'w \<Rightarrow> go_error option \<times> 'w"
  kDelete :: "env_object \<Rightarrow> 'w \<Rightarrow> go_error option \<times> 'w"
  kStatusUpdate :: "env_object \<Rightarrow> 'w \<Rightarrow> go_error option \<times> 'w"
  not_found :: "go_error \<Rightarrow> bool"
  already_exists :: "go_error \<Rightarrow> bool"

definition FieldManager :: string where "FieldManager = ''opi-nvidia-vsp''"

definition named :: "GroupVersionKind \<Rightarrow> string \<Rightarrow> string \<Rightarrow> env_object" where
  "named g ns n = \<lparr>e_GVK = g, e_Namespace = ns, e_Name = n, e_Labels = [], e_Version = '''', e_Object = []\<rparr>"

definition env_Get :: "'w kube \<Rightarrow> GroupVersionKind \<Rightarrow> string \<Rightarrow> string \<Rightarrow> 'w \<Rightarrow> (go_error + ApiObject) \<times> 'w" where
  "env_Get K g ns n w = (case kGet K g ns n w of
       (Inl e, w') \<Rightarrow> (Inl (if not_found K e then Errorf ''%w: %s/%s %s'' [AWrap ErrNotFound, AStr ns, AStr n, AStr (Kind g)] else e), w')
     | (Inr u, w') \<Rightarrow> (Inr (fromUnstructured u), w'))"

text \<open>Objects of one name (in several namespaces) come in any order in the source, here in the order of the server.\<close>

definition env_List :: "'w kube \<Rightarrow> GroupVersionKind \<Rightarrow> string \<Rightarrow> string gomap \<Rightarrow> 'w \<Rightarrow> (go_error + ApiObject list) \<times> 'w" where
  "env_List K g ns sel w =
     (case kList K (g\<lparr>Kind := Kind g @ ''List''\<rparr>) (if ns = '''' then None else Some ns) (if sel = [] then None else Some sel) w of
        (Inl e, w') \<Rightarrow> (Inl e, w')
      | (Inr us, w') \<Rightarrow> (Inr (sort_key a_Name (map fromUnstructured us)), w'))"

definition env_Apply :: "'w kube \<Rightarrow> (message \<Rightarrow> string) \<Rightarrow> DPFObject \<Rightarrow> 'w \<Rightarrow> go_error option \<times> 'w" where
  "env_Apply K txt x w = (let u = toUnstructured txt x in
     case kGet K (e_GVK u) (e_Namespace u) (e_Name u) w of
       (Inl e, w1) \<Rightarrow> if not_found K e then kCreate K u w1 else (Some e, w1)
     | (Inr existing, w1) \<Rightarrow> kPatch K (u\<lparr>e_Version := e_Version existing\<rparr>) FieldManager w1)"

definition env_Delete :: "'w kube \<Rightarrow> GroupVersionKind \<Rightarrow> string \<Rightarrow> string \<Rightarrow> 'w \<Rightarrow> go_error option \<times> 'w" where
  "env_Delete K g ns n w = (case kDelete K (named g ns n) w of
       (Some e, w') \<Rightarrow> (if not_found K e then None else Some e, w')
     | (None, w') \<Rightarrow> (None, w'))"

text \<open>\<open>SetNestedSlice\<close> at \<open>status.conditions\<close>: an error, which is dropped, when \<open>status\<close> is there and no map.\<close>

definition set_conditions :: "json list \<Rightarrow> json gomap \<Rightarrow> json gomap" where
  "set_conditions cs m = (case map_of m ''status'' of
       None \<Rightarrow> AList.update ''status'' (JObject [(''conditions'', JArray cs)]) m
     | Some (JObject st) \<Rightarrow> AList.update ''status'' (JObject (AList.update ''conditions'' (JArray cs) st)) m
     | Some _ \<Rightarrow> m)"

definition ready_by_test :: "string \<Rightarrow> json" where
  "ready_by_test now = JObject [(''type'', JString ''Ready''), (''status'', JString ''True''), (''reason'', JString ''ByTest''),
     (''message'', JString ''simulated DPF ready''), (''lastTransitionTime'', JString now)]"

definition SetReady :: "'w kube \<Rightarrow> string \<Rightarrow> GroupVersionKind \<Rightarrow> string \<Rightarrow> string \<Rightarrow> 'w \<Rightarrow> go_error option \<times> 'w" where
  "SetReady K now g ns n w = (case kGet K g ns n w of
       (Inl e, w') \<Rightarrow> (Some e, w')
     | (Inr u, w') \<Rightarrow> kStatusUpdate K (u\<lparr>e_Object := set_conditions [ready_by_test now] (e_Object u)\<rparr>) w')"

definition EnsureNamespace :: "'w kube \<Rightarrow> string \<Rightarrow> 'w \<Rightarrow> go_error option \<times> 'w" where
  "EnsureNamespace K n w = (case kCreate K (named \<lparr>Group = '''', Version = ''v1'', Kind = ''Namespace''\<rparr> '''' n) w of
       (Some e, w') \<Rightarrow> (if already_exists K e then None else Some e, w')
     | (None, w') \<Rightarrow> (None, w'))"

text \<open>
  The error that callers test for is the sentinel of the interface, exactly when the server does not find the object
  (or answers with that sentinel itself, which it does not know); the calls of the cleanup do not mind absence.\<close>

theorem env_Get_error:
  assumes "fst (env_Get K g ns n w) = Inl e" and "\<And>e. \<not> not_found K e \<Longrightarrow> \<not> errors_Is e ErrNotFound"
  shows "errors_Is e ErrNotFound \<longleftrightarrow> (\<exists>e'. fst (kGet K g ns n w) = Inl e' \<and> not_found K e')"
  using assms by (auto simp: env_Get_def split: prod.splits sum.splits if_splits)

lemma env_Delete_absent: "kDelete K (named g ns n) w = (Some e, w') \<Longrightarrow> not_found K e \<Longrightarrow> env_Delete K g ns n w = (None, w')"
  by (simp add: env_Delete_def)

lemma set_conditions_read:
  assumes "\<forall>j. map_of m ''status'' = Some j \<longrightarrow> (\<exists>st. j = JObject st)"
  shows "nested_slice (set_conditions cs m) ''status'' ''conditions'' = cs"
  using assms by (auto simp: set_conditions_def nested_slice_def nested_map_def split: option.splits json.splits)

section \<open>Over an API server\<close>

text \<open>
  What the client relies on: a read gives what is stored under the key; a creation and an apply of the main resource
  leave \<open>status\<close> alone (it is a subresource), an apply sets the labels it names, a status update changes only \<open>status\<close>.\<close>

type_synonym env_key = "GroupVersionKind \<times> string \<times> string"

definition env_key :: "env_object \<Rightarrow> env_key" where
  "env_key u = (e_GVK u, e_Namespace u, e_Name u)"

definition status_field :: "env_object \<Rightarrow> json option" where
  "status_field u = map_of (e_Object u) ''status''"

locale env_server =
  fixes K :: "'w kube" and view :: "'w \<Rightarrow> env_key \<Rightarrow> env_object option"
  assumes get_law: "kGet K g ns n w = (a, w') \<Longrightarrow> view w' = view w \<and>
      (case a of Inr u \<Rightarrow> view w (g, ns, n) = Some u \<and> env_key u = (g, ns, n) | Inl e \<Rightarrow> not_found K e \<longrightarrow> view w (g, ns, n) = None)"
    and create_law: "kCreate K u w = (e, w') \<Longrightarrow>
      (if e = None then view w (env_key u) = None \<and> (\<exists>y. view w' = (view w)(env_key u \<mapsto> y) \<and> env_key y = env_key u \<and> status_field y = None)
       else view w' = view w)"
    and patch_law: "kPatch K u owner w = (e, w') \<Longrightarrow>
      (if e = None then (\<exists>old y. view w (env_key u) = Some old \<and> view w' = (view w)(env_key u \<mapsto> y) \<and> env_key y = env_key u
         \<and> status_field y = status_field old \<and> map_of (e_Labels u) \<subseteq>\<^sub>m map_of (e_Labels y))
       else view w' = view w)"
    and status_law: "kStatusUpdate K u w = (e, w') \<Longrightarrow>
      (if e = None then (\<exists>old y. view w (env_key u) = Some old \<and> view w' = (view w)(env_key u \<mapsto> y) \<and> env_key y = env_key u
         \<and> status_field y = status_field u \<and> e_Labels y = e_Labels old \<and> map_of (e_Object y) ''spec'' = map_of (e_Object old) ''spec'')
       else view w' = view w)"
begin

lemma apply_keeps_status:
  assumes "env_Apply K txt x w = (None, w')"
  shows "\<exists>y. view w' = (view w)((GVK x, Namespace x, Name x) \<mapsto> y) \<and> env_key y = (GVK x, Namespace x, Name x) \<and>
    status_field y = Option.bind (view w (GVK x, Namespace x, Name x)) status_field"
proof -
  let ?u = "toUnstructured txt x" and ?k = "(GVK x, Namespace x, Name x)"
  have k: "env_key ?u = ?k" "e_GVK ?u = GVK x" "e_Namespace ?u = Namespace x" "e_Name ?u = Name x"
    by (simp_all add: env_key_def toUnstructured_def)
  have kv: "env_key (?u\<lparr>e_Version := v\<rparr>) = ?k" for v using k by (simp add: env_key_def)
  obtain a w1 where g: "kGet K (GVK x) (Namespace x) (Name x) w = (a, w1)" by fastforce
  note gl = get_law [OF g]
  show ?thesis
  proof (cases a)
    case (Inl e)
    with assms g k have c: "not_found K e" "kCreate K ?u w1 = (None, w')" by (auto simp: env_Apply_def split: if_splits)
    with Inl gl have "view w ?k = None" "view w1 = view w" by simp_all
    with create_law [OF c(2)] k(1) show ?thesis by auto
  next
    case (Inr ex)
    with assms g k have p: "kPatch K (?u\<lparr>e_Version := e_Version ex\<rparr>) FieldManager w1 = (None, w')" by (simp add: env_Apply_def)
    from patch_law [OF p] kv gl show ?thesis by auto
  qed
qed

lemma set_ready_reads_ready:
  assumes "SetReady K now g ns n w = (None, w')"
    and "\<And>u j. view w (g, ns, n) = Some u \<Longrightarrow> status_field u = Some j \<Longrightarrow> \<exists>st. j = JObject st"
  shows "\<exists>y. view w' (g, ns, n) = Some y \<and> read_conditions (e_Object y) =
    [\<lparr>Type = ''Ready'', Status = True, Reason = ''ByTest'', Message = Text ''simulated DPF ready''\<rparr>]"
proof -
  obtain u w1 where g: "kGet K g ns n w = (Inr u, w1)" and s: "kStatusUpdate K (u\<lparr>e_Object := set_conditions [ready_by_test now] (e_Object u)\<rparr>) w1 = (None, w')"
    using assms(1) by (auto simp: SetReady_def split: prod.splits sum.splits)
  let ?u = "u\<lparr>e_Object := set_conditions [ready_by_test now] (e_Object u)\<rparr>"
  from get_law [OF g] have v: "view w1 = view w" "view w (g, ns, n) = Some u" "env_key u = (g, ns, n)" by simp_all
  have k: "env_key ?u = (g, ns, n)" using v(3) by (simp add: env_key_def)
  from status_law [OF s] k obtain y where y: "view w' (g, ns, n) = Some y" "status_field y = status_field ?u" by auto
  have "nested_slice (e_Object y) ''status'' ''conditions'' = nested_slice (set_conditions [ready_by_test now] (e_Object u)) ''status'' ''conditions''"
    using y(2) by (simp add: nested_slice_def nested_map_def status_field_def)
  also have "\<dots> = [ready_by_test now]"
    by (rule set_conditions_read) (use assms(2) [OF v(2)] in \<open>simp add: status_field_def\<close>)
  finally show ?thesis
    using y(1) by (simp add: read_conditions_def List.map_filter_def read_condition_def ready_by_test_def printed_def)
qed

end

section \<open>A server in memory\<close>

type_synonym env_cluster = "(env_key \<times> env_object) list"

definition mem_absent :: go_error where "mem_absent = External ''not found''"

definition without_status :: "env_object \<Rightarrow> env_object" where
  "without_status u = u\<lparr>e_Object := AList.delete ''status'' (e_Object u)\<rparr>"

definition with_status_of :: "env_object \<Rightarrow> env_object \<Rightarrow> env_object" where
  "with_status_of u old = (case status_field u of
       None \<Rightarrow> without_status old
     | Some j \<Rightarrow> old\<lparr>e_Object := AList.update ''status'' j (e_Object old)\<rparr>)"

text \<open>An apply puts labels and fields over those that are there.\<close>

definition merged :: "env_object \<Rightarrow> env_object \<Rightarrow> env_object" where
  "merged u old = with_status_of old (u\<lparr>e_Labels := AList.merge (e_Labels old) (e_Labels u),
     e_Object := AList.merge (e_Object old) (e_Object u)\<rparr>)"

definition mem_kube :: "env_cluster kube" where
  "mem_kube = \<lparr>kGet = (\<lambda>g ns n w. (case map_of w (g, ns, n) of
       Some u \<Rightarrow> if env_key u = (g, ns, n) then Inr u else Inl (External ''corrupt'')
     | None \<Rightarrow> Inl mem_absent, w)),
     kList = (\<lambda>g ns sel w. (Inr (filter (\<lambda>u. (e_GVK u)\<lparr>Kind := Kind (e_GVK u) @ ''List''\<rparr> = g \<and> (ns = None \<or> ns = Some (e_Namespace u)) \<and>
         (case sel of None \<Rightarrow> True | Some s \<Rightarrow> list_all (\<lambda>(k, v). map_of (e_Labels u) k = Some v) s)) (map snd w)), w)),
     kCreate = (\<lambda>u w. if map_of w (env_key u) = None then (None, AList.update (env_key u) (without_status u) w) else (Some (External ''already exists''), w)),
     kPatch = (\<lambda>u owner w. case map_of w (env_key u) of
         None \<Rightarrow> (Some mem_absent, w)
       | Some old \<Rightarrow> (None, AList.update (env_key u) (merged u old) w)),
     kDelete = (\<lambda>u w. if map_of w (env_key u) = None then (Some mem_absent, w) else (None, AList.delete (env_key u) w)),
     kStatusUpdate = (\<lambda>u w. case map_of w (env_key u) of
         None \<Rightarrow> (Some mem_absent, w)
       | Some old \<Rightarrow> if env_key old = env_key u then (None, AList.update (env_key u) (with_status_of u old) w) else (Some (External ''corrupt''), w)),
     not_found = (\<lambda>e. e = mem_absent), already_exists = (\<lambda>e. e = External ''already exists'')\<rparr>"

lemma status_of_without [simp]: "status_field (without_status u) = None"
  by (simp add: status_field_def without_status_def)

lemma status_of_with [simp]: "status_field (with_status_of u old) = status_field u"
  by (auto simp: with_status_of_def status_field_def without_status_def split: option.splits)

lemma env_key_of_changed [simp]: "env_key (without_status u) = env_key u" "env_key (with_status_of u old) = env_key old" "env_key (merged u old) = env_key u"
  by (auto simp: env_key_def without_status_def with_status_of_def merged_def split: option.splits)

lemma with_status_of_frame [simp]:
  "e_Labels (with_status_of u old) = e_Labels old" "map_of (e_Object (with_status_of u old)) ''spec'' = map_of (e_Object old) ''spec''"
  by (auto simp: with_status_of_def without_status_def split: option.splits)

lemma merged_labels [simp]: "map_of (e_Labels u) \<subseteq>\<^sub>m map_of (e_Labels (merged u old))"
  by (auto simp: merged_def merge_conv' map_le_def dom_def map_add_def)

lemma merged_status [simp]: "status_field (merged u old) = status_field old"
  by (simp add: merged_def)

interpretation env_mem: env_server mem_kube map_of
  by standard (auto simp: mem_kube_def mem_absent_def split: option.splits if_splits)

text \<open>
  Conditions of the object that is applied never reach the server, where the in-memory client of the unit tests
  stores them: after an apply by the one the conditions are those from before, after an apply by the other those of
  the object, when it has any.\<close>

theorem clients_differ_on_conditions:
  assumes "env_Apply mem_kube txt x w = (None, w')" and "mem_Apply x m = (e, m')" and "Conditions x = Some cs"
  shows "Option.bind (map_of w' (GVK x, Namespace x, Name x)) status_field = Option.bind (map_of w (GVK x, Namespace x, Name x)) status_field"
    and "mem_view m' (Key x) = Some x"
  using env_mem.apply_keeps_status [OF assms(1)] assms(2,3) by (auto simp: mem_defs with_status_def split: option.splits)

text \<open>
  What \<open>SetReady\<close> stores is read back as one ready condition, which is what the waits of the plugin look for.\<close>

theorem SetReady_is_seen:
  assumes "SetReady mem_kube now g ns n w = (None, w')"
    and "\<And>u j. map_of w (g, ns, n) = Some u \<Longrightarrow> status_field u = Some j \<Longrightarrow> \<exists>st. j = JObject st"
  shows "\<exists>y. map_of w' (g, ns, n) = Some y \<and> read_conditions (e_Object y) =
    [\<lparr>Type = ''Ready'', Status = True, Reason = ''ByTest'', Message = Text ''simulated DPF ready''\<rparr>]"
  by (rule env_mem.set_ready_reads_ready [OF assms])

text \<open>A namespace may be ensured any number of times.\<close>

theorem EnsureNamespace_twice:
  assumes "EnsureNamespace mem_kube n w = (e, w1)"
  shows "e = None \<and> EnsureNamespace mem_kube n w1 = (None, w1)"
  using assms by (auto simp: EnsureNamespace_def mem_kube_def Let_def split: if_splits)


end
