(* ===== verification/Spec2Isabelle.thy ===== *)
theory Spec2Isabelle
  imports VspGrpc DpfLifecycle AdapterControllers AdapterStatus BridgeOperator IntentAdapter DpuVspServer DeviceReconciler
    VendorFramework FleetModule Bootstrap FleetVsp Handoff PhaseCluster InfraCluster ShimCluster BlueFieldVsp
    UnitAdapter OffloadAdapter ProfileAdapter PipelineAdapter
    NodeBackend ImageBackend LeanVsp BandwidthAdapter IntentNames
    CardPlugin ClusterAdapter SharedCopies StatusEngine CopyDiscipline EnvtestClient
begin

text \<open>
  Verification of the Go programs under \<open>src/\<close> that bring NVIDIA BlueField cards, run by the DOCA
  Platform Framework (DPF), under the OPI DPU operator.

  \<^bold>\<open>The program.\<close>  Each directory of \<open>src/\<close> is one implementation of the same task, so the parts recur:
  a vendor plugin that the node daemon calls (\<open>Init\<close>, \<open>GetDevices\<close>, \<open>SetNumVfs\<close>, network functions,
  \<open>Ping\<close>), a translation of OPI intents to DPF objects with deterministic names, reconcilers that apply
  those objects and mirror their status back, finalizer-driven cleanup, and guards around DPF's life
  cycle and version.  The implementations do not call each other; within one, the parts meet in the
  object store (the API server or the in-memory client), whose laws the properties rest on.

  \<^bold>\<open>Theories and code.\<close>
  \<^item> \<open>Prelude\<close>: what all packages share.  Errors are values (\<open>go_error\<close>, with \<open>errors.Is\<close> through
    \<open>%w\<close>), durations are nanoseconds, Go maps are association lists, the two loop shapes are
    \<open>each_until_err\<close> (stop at the first error) and \<open>poll_until\<close> (poll until a deadline).
  \<^item> \<open>aditya-sarna/feature_skeleton.go\<close>: \<open>DpfClient\<close> (section 2, the object store and its in-memory
    implementation), \<open>Sha1\<close> and \<open>SfcTranslate\<close> (section 3, names, labels, plans), \<open>NvidiaVsp\<close>
    (section 4, the vendor plugin with its two bounded waits), \<open>SfcReconciler\<close> (section 5),
    \<open>DpfLifecycle\<close> (sections 6 and 7).  \<open>aditya-sarna/vspgrpc\<close>: \<open>VspGrpc\<close>.
    \<open>aditya-sarna/envtest_client.go\<close>: \<open>EnvtestClient\<close>, the same interface over an API server.
  \<^item> \<open>divyansh-yadav/feature_skeleton.go\<close>: \<open>AdapterTypes\<close> (objects, wiring, registry, the shared
    translator reference), \<open>AdapterControllers\<close> (translator, version, drift and deadlock controllers),
    \<open>AdapterStatus\<close> (the status aggregator's failure window).
  \<^item> \<open>rishan/feature_skeleton.go\<close>: \<open>Breaker\<close> (circuit breaker, for any interleaving of callers) and
    \<open>BridgeOperator\<close> (status adapter, write-ahead log, policy controller, life-cycle watcher, manager).
  \<^item> \<open>assol-abasova/feature_skeleton.go\<close>: \<open>IntentAdapter\<close>.
  \<^item> \<open>sai-pradhyum/feature_skeleton.go\<close>: \<open>VendorFramework\<close>.
  \<^item> \<open>priyanshu-kumar/feature_skeleton.go\<close>: \<open>FleetModule\<close>.
  \<^item> \<open>siddharthan-tv/feature_skeleton.go\<close>: \<open>Bootstrap\<close>.
  \<^item> \<open>kartikey/\<close>: \<open>FleetTranslate\<close> (\<open>api/opi/v1\<close>, \<open>internal/dpf\<close>, \<open>internal/translate\<close>, \<open>fleet.go\<close>,
    \<open>status.go\<close>), \<open>FleetReconcilers\<close> (\<open>feature_skeleton.go\<close>), \<open>FleetCluster\<close> (the API server's laws and
    what the chain reconciler promises over it), \<open>FleetVsp\<close> (\<open>internal/vsp\<close>, and the DPU reconciler and
    the plugin together).
  \<^item> \<open>mridankan-mandal/feature_skeleton.go\<close>: \<open>ObjectNames\<close> (name cleaning, trimming with an FNV-1a hash,
    \<open>TrimSpace\<close> by runes) and \<open>DpuVspServer\<close> (plugin server, object builders, status reconciler).
  \<^item> \<open>jasmine-kaur/feature_skeleton.go\<close>: \<open>DeviceReconciler\<close> (translation, NVIDIA adapter, registry,
    reconciler with deletion and condition merging).
  \<^item> \<open>Tushar_Saxena-IITI-tushar/feature_skeleton.go\<close>: \<open>Handoff\<close> (readiness watcher and its loop, detector, plugin).
  \<^item> \<open>rohit-s/feature_skeleton.go\<close>: \<open>VendorExtensions\<close> (opaque extensions and their decoding), \<open>PhaseGate\<close>
    (both reconcilers and the adapter), \<open>PhaseCluster\<close> (the API server and what runs of the two promise).
  \<^item> \<open>Ayush-Bhandari/feature_skeleton.go\<close>: \<open>FmtText\<close> (the texts of \<open>fmt\<close> and \<open>time\<close> the code compares),
    \<open>InfraControllers\<close> (both reconcilers over the generic \<open>ensureResource\<close>), \<open>InfraCluster\<close> (over a server).
  \<^item> \<open>yash-pratap-singh/feature_skeleton.go\<close>: \<open>ShimGates\<close> (gates, translation, reconciler) and \<open>ShimCluster\<close>.
  \<^item> \<open>shridhar-panigrahi/feature_skeleton.go\<close>: \<open>BlueFieldVsp\<close>.  \<open>vedant21-ctr/feature_skeleton.go\<close>: \<open>UnitAdapter\<close>.
    \<open>Lokesh/feature_skeleton.go\<close>: \<open>ProfileAdapter\<close>.  \<open>Abhijay Nandella/feature_skeleton.go\<close>: \<open>PipelineAdapter\<close>.
  \<^item> \<open>sofia-nazir\<close>: \<open>OffloadAdapter\<close> (\<open>feature_skeleton.go\<close>) and \<open>ClusterAdapter\<close> (\<open>controllers\<close>, \<open>pkg/adapter\<close>,
    \<open>api/v1alpha1\<close>, the second version of the same adapter).
  \<^item> \<open>ObjectStore\<close>: the typed calls of \<open>client.Client\<close>, their laws and a server in memory, for \<open>NodeBackend\<close>
    (\<open>SHUBHAM-CHAUHAN\<close>), \<open>ImageBackend\<close> (\<open>vimla-choudhary\<close>), \<open>LeanVsp\<close> (\<open>vicky-sharma\<close>),
    \<open>BandwidthAdapter\<close> (\<open>Vinay_Kumar\<close>) and \<open>ClusterAdapter\<close>.
  \<^item> \<open>rahul-tripathi/feature_skeleton.go\<close>: \<open>IntentNames\<close>, with the hash function of the library in \<open>Sha256\<close>.
  \<^item> \<open>CopyDiscipline\<close>: the hand-written deep copies of API objects in eleven submissions, over a heap of pointers,
    slices and maps: which of them are deep, and what the others share.
  \<^item> \<open>harsh-singh\<close>: \<open>CardPlugin\<close> (detector, plugin, recording client; a call through the nil client is a panic).
    \<open>harshit-agrawal/feature_skeleton.go\<close>: \<open>SharedCopies\<close> (hand-written deep copies over a store of references).
    \<open>lipika-mandal/feature_skeleton.go\<close> and \<open>iqra_urooj/feature_skeleton.go\<close>: \<open>StatusEngine\<close>.

  \<^bold>\<open>Reading the models.\<close>  Definitions carry the source's names, with a prefix where several types have
  a method of one name.  A Go struct is a record, an interface a record of functions, a function that
  calls out takes and returns the world \<open>'w\<close>; a returned error is \<open>Some err\<close> or \<open>Inl err\<close>; the receiver
  is returned updated where the method writes it.  Values of interfaces implemented outside \<open>src/\<close>
  (clients of the API server, callbacks, the Kubernetes libraries) are arguments of the models; the
  properties state the documented behaviour they need as hypotheses: a locale per interface, whose laws are
  discharged by an \<open>interpretation\<close> on the implementation of \<open>src/\<close> where there is one, and on a server in
  memory otherwise.  The locales are \<open>dpf_store\<close> and \<open>reliable_dpf_store\<close> (in-memory client), \<open>vsp_host\<close>,
  \<open>sfc_world\<close>, \<open>dpf_installation\<close>, \<open>vendor_adapter\<close>, \<open>unit_writer\<close>, \<open>dpf_adapter\<close>, \<open>kind_store\<close>, \<open>pipeline\<close>,
  \<open>ensuring_client\<close>, \<open>dpf_boundary\<close>, \<open>intent_adapter\<close>, the API servers \<open>apply_server\<close>, \<open>unit_server\<close>,
  \<open>cluster_server\<close>, \<open>profile_server\<close>, \<open>env_server\<close>, and those put together from \<open>object_store\<close>: \<open>backend\<close>, \<open>image_server\<close>,
  \<open>lean_server\<close>, \<open>bandwidth_server\<close>, \<open>cluster_world\<close>.  The predicates \<open>api_server\<close>, \<open>stores\<close>, \<open>upserts\<close>
  serve kartikey's and siddharthan-tv's reconcilers, and the witnesses satisfy them.  Logging is left out.

  \<^bold>\<open>What the lemmas show.\<close>  Stores: reachable states are well keyed, applying a plan is idempotent.
  Translations: names are well formed, labels identify their owner, and, exactly, when objects of two
  owners collide.  Plugins: success only on what was observed, failure closed, the waits end.
  Reconcilers: one pass refines the application of the plan on the abstract store, deletion
  converges, finalizers are released only after cleanup, foreign objects and foreign conditions are
  untouched, every branch pairs its error with the right requeue.  State machines (circuit breaker,
  failure window, life cycle): invariants over all reachable states.

  \<^bold>\<open>Loops and bounds.\<close>  Loops over lists are recursive on the list.  The polling loops of \<open>NvidiaVsp\<close> are
  \<open>partial_function (option)\<close>; \<open>bounded_waits_return\<close> proves that they return under a clock that moves.
  Loops driven by a ticker or a \<open>select\<close> take the list of events they receive.  No fuel is used.

  \<^bold>\<open>Not modelled.\<close>  Flag parsing and manager start-up (\<open>kartikey/cmd\<close>, \<open>sofia-nazir/main.go\<close>,
  \<open>aditya-sarna/cmd\<close>), the generated protobuf package of \<open>vspgrpc\<close>, the socket and the gRPC runtime, scheme
  registration and controller wiring, demos that print, tests.  In the models of the reconcilers a deep copy is the
  identity, as models are values; the hand-written copies are in \<open>SharedCopies\<close> and \<open>CopyDiscipline\<close>.  The CRD types of storage,
  security and IPsec in \<open>rishan\<close> have no operations.  Texts of errors are kept symbolic.
\<close>

end
